(* ===== verification/Ark_Prelude.thy ===== *)
theory Ark_Prelude
  imports Main "HOL-Library.Word"
begin

section \<open>Prelude: results, checks and generic lemmas\<close>

text \<open>
  What every component shares. A Go function that returns a value and an error is a
  value of the sum type \<open>'e + 'a\<close>: \<open>Inl\<close> carries the error, \<open>Inr\<close> the value.
  \<open>rbind\<close> is the early return \<open>if err != nil { return nil, err }\<close>; \<open>guard_err\<close> is a
  check \<open>if c { return nil, e }\<close>; \<open>check_all\<close> is the loop that returns the first error
  of a check over a slice. The collections \<open>res_elims\<close> (inversions of these
  combinators) and \<open>codec_simps\<close> (equations that run a decoder over an encoder's
  output) are extended by the components.
\<close>

named_theorems res_elims "inversion rules for results"
named_theorems codec_simps "equations that run decoders on encoded data"

type_synonym ('e, 'a) res = "'e + 'a"
type_synonym u8 = "8 word"
type_synonym u16 = "16 word"
type_synonym u32 = "32 word"
type_synonym u64 = "64 word"
type_synonym bytes = "8 word list"

definition rbind :: "('e, 'a) res \<Rightarrow> ('a \<Rightarrow> ('e, 'b) res) \<Rightarrow> ('e, 'b) res" where
  "rbind r f = (case r of Inl e \<Rightarrow> Inl e | Inr a \<Rightarrow> f a)"

definition guard_err :: "bool \<Rightarrow> 'e \<Rightarrow> ('e, 'a) res \<Rightarrow> ('e, 'a) res" where
  "guard_err c e k = (if c then Inl e else k)"

definition map_err :: "('e \<Rightarrow> 'f) \<Rightarrow> ('e, 'a) res \<Rightarrow> ('f, 'a) res" where
  "map_err h r = (case r of Inl e \<Rightarrow> Inl (h e) | Inr a \<Rightarrow> Inr a)"

fun check_all :: "('a \<Rightarrow> ('e, unit) res) \<Rightarrow> 'a list \<Rightarrow> ('e, unit) res" where
  "check_all f [] = Inr ()"
| "check_all f (x # xs) = rbind (f x) (\<lambda>_. check_all f xs)"

fun map_res :: "('a \<Rightarrow> ('e, 'b) res) \<Rightarrow> 'a list \<Rightarrow> ('e, 'b list) res" where
  "map_res f [] = Inr []"
| "map_res f (x # xs) = rbind (f x) (\<lambda>y. rbind (map_res f xs) (\<lambda>ys. Inr (y # ys)))"

subsection \<open>Results\<close>

lemma rbind_simps [simp]:
  "rbind (Inl e) f = Inl e"
  "rbind (Inr a) f = f a"
  by (simp_all add: rbind_def)

lemma rbind_eq_Inr [res_elims]: "rbind r f = Inr b \<longleftrightarrow> (\<exists>a. r = Inr a \<and> f a = Inr b)"
  by (cases r) auto

lemma rbind_eq_Inl: "rbind r f = Inl e \<longleftrightarrow> r = Inl e \<or> (\<exists>a. r = Inr a \<and> f a = Inl e)"
  by (cases r) auto

lemma rbind_assoc: "rbind (rbind r f) g = rbind r (\<lambda>a. rbind (f a) g)"
  by (cases r) auto

lemma guard_err_simps [simp]:
  "guard_err True e k = Inl e"
  "guard_err False e k = k"
  by (simp_all add: guard_err_def)

lemma guard_err_eq_Inr [res_elims]: "guard_err c e k = Inr a \<longleftrightarrow> \<not> c \<and> k = Inr a"
  by (simp add: guard_err_def)

lemma map_err_simps [simp]:
  "map_err h (Inl e) = Inl (h e)"
  "map_err h (Inr a) = Inr a"
  by (simp_all add: map_err_def)

lemma map_err_eq_Inr [res_elims]: "map_err h r = Inr a \<longleftrightarrow> r = Inr a"
  by (cases r) auto

lemma check_all_eq_Inr [res_elims]:
  "check_all f xs = Inr u \<longleftrightarrow> (\<forall>x \<in> set xs. f x = Inr ())"
  by (induction xs) (auto simp: rbind_eq_Inr)

lemma check_all_cong:
  assumes "\<And>x. x \<in> set xs \<Longrightarrow> f x = Inr ()"
  shows "check_all f xs = Inr ()"
  using assms by (simp add: check_all_eq_Inr)

lemma check_all_enumerate:
  "check_all (\<lambda>(i, x). f i x) (List.enumerate 0 xs) = Inr u \<longleftrightarrow>
     (\<forall>i < length xs. f i (xs ! i) = Inr ())"
proof -
  have "set (List.enumerate 0 xs) = (\<lambda>i. (i, xs ! i)) ` {..<length xs}"
    by (auto simp: in_set_enumerate_eq image_iff)
  then show ?thesis by (auto simp: check_all_eq_Inr)
qed

lemma map_res_eq_Inr [res_elims]:
  "map_res f xs = Inr ys \<longleftrightarrow> list_all2 (\<lambda>x y. f x = Inr y) xs ys"
  by (induction xs arbitrary: ys) (auto simp: rbind_eq_Inr list_all2_Cons1)

lemma map_res_total:
  assumes "\<And>x. x \<in> set xs \<Longrightarrow> f x = Inr (g x)"
  shows "map_res f xs = Inr (map g xs)"
  using assms by (induction xs) auto

lemma is_res_split: "(\<exists>a. r = Inr a) \<or> (\<exists>e. r = Inl e)"
  by (cases r) auto

end
