(* ===== verification/Go_Bytes.thy ===== *)
theory Go_Bytes
  imports Ark_Prelude "HOL-Library.Sublist"
begin

unbundle bit_operations_syntax

section \<open>Bytes, readers and the Go standard library used by the codecs\<close>

text \<open>
  A \<open>bytes.Reader\<close> is the list of bytes left to read; \<open>r.Len()\<close> is its length. A
  \<open>bytes.Buffer\<close> used as a writer is the list of bytes written, and its \<open>Write\<close> never
  fails. Here are the functions of \<open>encoding/binary\<close>, \<open>encoding/hex\<close>, \<open>strconv\<close> and
  \<open>strings\<close> that the codecs of the repository call, and the interface \<open>codec\<close> that
  every encoder and decoder pair of the repository is proved to satisfy.
\<close>

datatype io_error = EOF | ErrUnexpectedEOF | ErrOverflow

text \<open>A Go \<open>error\<close>: an error of \<open>io\<close> or \<open>encoding/binary\<close>, of \<open>encoding/hex\<close>, a text made by
  \<open>fmt.Errorf\<close>, or a text that wraps another error (\<open>%w\<close>). \<open>errors.Is(err, io.EOF)\<close>
  looks through the wrappers.\<close>

datatype hex_error = InvalidByteError char | ErrLength

datatype go_error = GoIO io_error | GoHex hex_error | Errorf string | Errorw string go_error

fun errors_Is_EOF :: "go_error \<Rightarrow> bool" where
  "errors_Is_EOF (GoIO e) = (e = EOF)"
| "errors_Is_EOF (GoHex e) = False"
| "errors_Is_EOF (Errorf s) = False"
| "errors_Is_EOF (Errorw s e) = errors_Is_EOF e"

text \<open>\<open>if errors.Is(err, io.EOF) { return fmt.Errorf(msg) }; return err\<close>\<close>

definition eof_as :: "string \<Rightarrow> go_error \<Rightarrow> go_error" where
  "eof_as msg err = (if errors_Is_EOF err then Errorf msg else err)"

type_synonym 'a gores = "(go_error, 'a) res"

subsection \<open>Readers\<close>

definition reader_ReadByte :: "bytes \<Rightarrow> (io_error, u8 \<times> bytes) res" where
  "reader_ReadByte r = (case r of [] \<Rightarrow> Inl EOF | b # r' \<Rightarrow> Inr (b, r'))"

text \<open>\<open>Read\<close> into a buffer of \<open>n\<close> bytes: it reports \<open>io.EOF\<close> whenever nothing is left,
  also for \<open>n = 0\<close>.\<close>

definition reader_Read :: "nat \<Rightarrow> bytes \<Rightarrow> (io_error, bytes \<times> bytes) res" where
  "reader_Read n r = (if r = [] then Inl EOF else Inr (take n r, drop n r))"

subsection \<open>Little-endian integers\<close>

definition PutUint16 :: "u16 \<Rightarrow> bytes" where
  "PutUint16 v = [ucast v, ucast (drop_bit 8 v)]"

definition Uint16 :: "bytes \<Rightarrow> u16" where
  "Uint16 b = (case b of b0 # b1 # _ \<Rightarrow> ucast b0 OR push_bit 8 (ucast b1) | _ \<Rightarrow> 0)"

definition PutUint32 :: "u32 \<Rightarrow> bytes" where
  "PutUint32 v = [ucast v, ucast (drop_bit 8 v), ucast (drop_bit 16 v), ucast (drop_bit 24 v)]"

subsection \<open>Variable-length unsigned integers\<close>

text \<open>\<open>binary.PutUvarint\<close>: seven bits a byte, low bits first, the top bit set on every
  byte but the last.\<close>

function PutUvarint :: "u64 \<Rightarrow> bytes" where
  "PutUvarint x =
     (if x \<ge> 0x80 then (ucast x OR 0x80) # PutUvarint (drop_bit 7 x) else [ucast x])"
  by pat_completeness auto
termination
proof (relation "measure unat")
  fix x :: u64
  assume "x \<ge> 0x80"
  then have "128 \<le> unat x" by (simp add: word_le_nat_alt)
  then have "unat x div 128 < unat x" by simp
  then show "(drop_bit 7 x, x) \<in> measure unat" by (simp add: drop_bit_eq_div unat_div)
qed simp

declare PutUvarint.simps [simp del]

definition MaxVarintLen64 :: nat where
  "MaxVarintLen64 = 10"

text \<open>\<open>binary.ReadUvarint\<close>: the loop with its counter \<open>i\<close>, accumulator \<open>x\<close> and shift
  \<open>s\<close>.\<close>

fun ReadUvarint_loop :: "nat \<Rightarrow> u64 \<Rightarrow> nat \<Rightarrow> bytes \<Rightarrow> (io_error, u64 \<times> bytes) res" where
  "ReadUvarint_loop i x s [] =
     (if i < MaxVarintLen64 then Inl (if 0 < i then ErrUnexpectedEOF else EOF)
      else Inl ErrOverflow)"
| "ReadUvarint_loop i x s (b # r) =
     (if i < MaxVarintLen64 then
        if b < 0x80 then
          if i = MaxVarintLen64 - 1 \<and> b > 1 then Inl ErrOverflow
          else Inr (x OR push_bit s (ucast b), r)
        else ReadUvarint_loop (Suc i) (x OR push_bit s (ucast (b AND 0x7f))) (s + 7) r
      else Inl ErrOverflow)"

definition ReadUvarint :: "bytes \<Rightarrow> (io_error, u64 \<times> bytes) res" where
  "ReadUvarint r = ReadUvarint_loop 0 0 0 r"

subsection \<open>Counted sequences\<close>

text \<open>The loop \<open>for range count { x, err := dec(r); ...; xs = append(xs, x) }\<close> and the loop
  that writes the elements one after another.\<close>

fun read_n :: "(bytes \<Rightarrow> ('e, 'a \<times> bytes) res) \<Rightarrow> nat \<Rightarrow> bytes \<Rightarrow> ('e, 'a list \<times> bytes) res" where
  "read_n dec 0 r = Inr ([], r)"
| "read_n dec (Suc n) r =
     rbind (dec r) (\<lambda>(x, r'). rbind (read_n dec n r') (\<lambda>(xs, r''). Inr (x # xs, r'')))"

fun write_all :: "('a \<Rightarrow> ('e, bytes) res) \<Rightarrow> 'a list \<Rightarrow> ('e, bytes) res" where
  "write_all enc [] = Inr []"
| "write_all enc (x # xs) = rbind (enc x) (\<lambda>b. rbind (write_all enc xs) (\<lambda>bs. Inr (b @ bs)))"

subsection \<open>Hexadecimal strings\<close>

definition hex_digit :: "nat \<Rightarrow> char" where
  "hex_digit n = (if n < 10 then char_of (48 + n) else char_of (87 + n))"

definition hex_value :: "char \<Rightarrow> nat option" where
  "hex_value c =
     (let n = (of_char c :: nat)
      in if 48 \<le> n \<and> n \<le> 57 then Some (n - 48)
         else if 97 \<le> n \<and> n \<le> 102 then Some (n - 87)
         else if 65 \<le> n \<and> n \<le> 70 then Some (n - 55)
         else None)"

definition hex_EncodeToString :: "bytes \<Rightarrow> string" where
  "hex_EncodeToString bs =
     concat (map (\<lambda>b. [hex_digit (unat b div 16), hex_digit (unat b mod 16)]) bs)"

fun hex_DecodeString :: "string \<Rightarrow> (hex_error, bytes) res" where
  "hex_DecodeString [] = Inr []"
| "hex_DecodeString [p] =
     (case hex_value p of None \<Rightarrow> Inl (InvalidByteError p) | Some _ \<Rightarrow> Inl ErrLength)"
| "hex_DecodeString (p # q # s) =
     (case hex_value p of None \<Rightarrow> Inl (InvalidByteError p)
      | Some a \<Rightarrow> (case hex_value q of None \<Rightarrow> Inl (InvalidByteError q)
        | Some b \<Rightarrow> rbind (hex_DecodeString s) (\<lambda>bs. Inr (word_of_nat (16 * a + b) # bs))))"

subsection \<open>Decimal strings\<close>

datatype num_error = ErrSyntax | ErrRange

fun dec_string :: "nat \<Rightarrow> string" where
  "dec_string n =
     (if n < 10 then [char_of (48 + n)] else dec_string (n div 10) @ [char_of (48 + n mod 10)])"

declare dec_string.simps [simp del]

text \<open>The digit loop of \<open>strconv.ParseUint\<close> in base 10 with the largest value \<open>m\<close>.\<close>

fun ParseUint_loop :: "nat \<Rightarrow> nat \<Rightarrow> string \<Rightarrow> (num_error, nat) res" where
  "ParseUint_loop m n [] = Inr n"
| "ParseUint_loop m n (c # cs) =
     (let k = (of_char c :: nat)
      in if \<not> (48 \<le> k \<and> k \<le> 57) then Inl ErrSyntax
         else if n * 10 + (k - 48) > m then Inl ErrRange
         else ParseUint_loop m (n * 10 + (k - 48)) cs)"

definition ParseUint32 :: "string \<Rightarrow> (num_error, nat) res" where
  "ParseUint32 s = (if s = [] then Inl ErrSyntax else ParseUint_loop (2 ^ 32 - 1) 0 s)"

text \<open>\<open>strings.Split\<close> with a one-character separator.\<close>

fun strings_Split :: "char \<Rightarrow> string \<Rightarrow> string list" where
  "strings_Split d [] = [[]]"
| "strings_Split d (c # s) =
     (if c = d then [] # strings_Split d s
      else (case strings_Split d s of [] \<Rightarrow> [[c]] | p # ps \<Rightarrow> (c # p) # ps))"

text \<open>\<open>bytes.HasPrefix\<close> and \<open>bytes.Contains\<close>, on any element type.\<close>

definition HasPrefix :: "'a list \<Rightarrow> 'a list \<Rightarrow> bool" where
  "HasPrefix s p \<longleftrightarrow> take (length p) s = p"

fun Contains :: "'a list \<Rightarrow> 'a list \<Rightarrow> bool" where
  "Contains [] sub = (sub = [])"
| "Contains (x # xs) sub = (HasPrefix (x # xs) sub \<or> Contains xs sub)"

subsection \<open>Lemmas on the standard library\<close>

lemma Uint16_PutUint16 [simp, codec_simps]: "Uint16 (PutUint16 v @ r) = v"
  unfolding Uint16_def PutUint16_def
  by (rule bit_word_eqI) (auto simp: bit_simps)

lemma length_PutUint16 [simp]: "length (PutUint16 v) = 2"
  by (simp add: PutUint16_def)

lemma PutUvarint_not_Nil [simp]: "PutUvarint x \<noteq> []"
  by (subst PutUvarint.simps) simp

lemma ucast_low_byte:
  fixes x :: u64
  assumes "x < 0x80"
  shows "ucast (ucast x :: u8) = x" and "(ucast x :: u8) < 0x80"
proof -
  have "unat x < 128" using assms by (simp add: word_less_nat_alt)
  then have "take_bit 8 (unat x) = unat x" by (simp add: take_bit_nat_eq_self)
  with \<open>unat x < 128\<close> show "ucast (ucast x :: u8) = x" and "(ucast x :: u8) < 0x80"
    by (simp_all add: word_less_nat_alt word_unat_eq_iff unsigned_ucast_eq unsigned_take_bit_eq)
qed

lemma seven_bits_join:
  fixes x v :: u64
  shows "(x OR push_bit s (ucast ((ucast v OR 0x80 :: u8) AND 0x7f))) OR push_bit (s + 7) (drop_bit 7 v)
       = x OR push_bit s v"
proof -
  have m: "bit (0x7f :: int) n \<longleftrightarrow> n < 7" for n
    using bit_mask_iff [of 7 n, where 'a = int] by (simp add: mask_numeral)
  have k: "bit (0x80 :: int) n \<longleftrightarrow> n = 7" for n
    using bit_exp_iff [of 7 n, where 'a = int] by simp
  have "(ucast ((ucast v OR 0x80 :: u8) AND 0x7f) :: u64) OR push_bit 7 (drop_bit 7 v) = v"
  proof (rule bit_word_eqI)
    fix n :: nat
    assume "n < LENGTH(64)"
    then show "bit ((ucast ((ucast v OR 0x80 :: u8) AND 0x7f) :: u64) OR push_bit 7 (drop_bit 7 v)) n
        = bit v n"
      by (cases "n < 7") (auto simp: bit_simps m k)
  qed
  then have "push_bit s v =
      push_bit s (ucast ((ucast v OR 0x80 :: u8) AND 0x7f)) OR push_bit (s + 7) (drop_bit 7 v)"
    by (metis push_bit_or push_bit_push_bit)
  then show ?thesis by (simp add: or.assoc)
qed

lemma ReadUvarint_loop_PutUvarint:
  assumes "i < 10" and "unat v < 2 ^ (64 - 7 * i)"
  shows "ReadUvarint_loop i x (7 * i) (PutUvarint v @ r) = Inr (x OR push_bit (7 * i) v, r)"
  using assms
proof (induction v arbitrary: i x rule: PutUvarint.induct)
  case (1 v)
  show ?case
  proof (cases "v \<ge> 0x80")
    case False
    then have lt: "v < 0x80" by simp
    have last: "\<not> ((ucast v :: u8) > 1)" if "i = 9"
    proof -
      from that "1.prems" have "unat v < 2" by simp
      then show ?thesis
        by (simp add: word_less_nat_alt unsigned_ucast_eq take_bit_nat_eq_self)
    qed
    from lt last "1.prems"(1) show ?thesis
      by (subst PutUvarint.simps) (auto simp: MaxVarintLen64_def ucast_low_byte)
  next
    case True
    then have ge: "128 \<le> unat v" by (simp add: word_le_nat_alt)
    have "Suc i < 10"
    proof (rule ccontr)
      assume "\<not> Suc i < 10"
      with "1.prems"(1) have "i = 9" by simp
      with "1.prems"(2) ge show False by simp
    qed
    moreover have "unat (drop_bit 7 v) < 2 ^ (64 - 7 * Suc i)"
    proof -
      from \<open>Suc i < 10\<close> have e: "64 - 7 * i = 7 + (64 - 7 * Suc i)" by simp
      from "1.prems"(2) have "unat v < 128 * 2 ^ (64 - 7 * Suc i)"
        unfolding e by (simp add: power_add)
      then show ?thesis by (simp add: drop_bit_eq_div unat_div less_mult_imp_div_less mult.commute)
    qed
    ultimately have IH: "ReadUvarint_loop (Suc i) y (7 * Suc i) (PutUvarint (drop_bit 7 v) @ r)
        = Inr (y OR push_bit (7 * Suc i) (drop_bit 7 v), r)" for y
      by (rule "1.IH" [OF True])
    have big: "\<not> ((ucast v OR 0x80 :: u8) < 0x80)"
    proof -
      have "(0x80 :: u8) \<le> ucast v OR 0x80"
        using le_word_or2 [of "0x80 :: u8" "ucast v"] by (simp add: or.commute)
      then show ?thesis by simp
    qed
    have "PutUvarint v = (ucast v OR 0x80) # PutUvarint (drop_bit 7 v)"
      using True by (subst PutUvarint.simps) simp
    with big IH "1.prems"(1) seven_bits_join [of x "7 * i" v] show ?thesis
      by (simp add: MaxVarintLen64_def algebra_simps)
  qed
qed

lemma ReadUvarint_PutUvarint [simp, codec_simps]: "ReadUvarint (PutUvarint v @ r) = Inr (v, r)"
proof -
  have "unat v < 2 ^ (64 - 7 * 0)" using unsigned_less [of v] by simp
  then show ?thesis
    using ReadUvarint_loop_PutUvarint [of 0 v 0 r] by (simp add: ReadUvarint_def)
qed

lemma strict_suffix_Cons_iff: "strict_suffix r (b # s) \<longleftrightarrow> suffix r s"
  by (auto simp: strict_suffix_def suffix_Cons dest: suffix_length_le)

lemma strict_suffix_ConsI [intro]: "strict_suffix r s \<Longrightarrow> strict_suffix r (b # s)"
  by (simp add: strict_suffix_Cons_iff suffix_order.less_imp_le)

lemma strict_suffix_drop: "0 < n \<Longrightarrow> r \<noteq> [] \<Longrightarrow> strict_suffix (drop n r) r"
  by (cases n; cases r) (simp_all add: strict_suffix_Cons_iff suffix_drop)

lemmas suffix_trans_rules = suffix_order.less_trans strict_suffix_ConsI

lemma ReadUvarint_loop_suffix:
  "ReadUvarint_loop i x s r = Inr (v, r') \<Longrightarrow> strict_suffix r' r"
proof (induction r arbitrary: i x s)
  case Nil
  then show ?case by (simp split: if_splits)
next
  case (Cons b r)
  show ?case
  proof (cases "b < 0x80")
    case True
    with Cons.prems have "r' = r" by (auto split: if_splits)
    then show ?thesis by (simp add: strict_suffix_Cons_iff)
  next
    case False
    with Cons.prems Cons.IH have "strict_suffix r' r"
      by (auto split: if_splits)
    then show ?thesis by auto
  qed
qed

lemma hex_value_digit [simp]: "n < 16 \<Longrightarrow> hex_value (hex_digit n) = Some n"
  by (auto simp: hex_value_def hex_digit_def)

lemma hex_roundtrip [simp, codec_simps]: "hex_DecodeString (hex_EncodeToString bs) = Inr bs"
proof (induction bs)
  case Nil
  show ?case by (simp add: hex_EncodeToString_def)
next
  case (Cons b bs)
  have lt: "unat b < 256" using unsigned_less [of b] by simp
  then have "unat b div 16 < 16" by auto
  moreover have "word_of_nat (16 * (unat b div 16) + unat b mod 16) = b" by simp
  ultimately show ?case using Cons by (simp add: hex_EncodeToString_def)
qed

lemma hex_EncodeToString_inject [simp]:
  "hex_EncodeToString a = hex_EncodeToString b \<longleftrightarrow> a = b"
  by (metis hex_roundtrip sum.inject(2))

lemma length_hex_EncodeToString [simp]: "length (hex_EncodeToString bs) = 2 * length bs"
  by (induction bs) (simp_all add: hex_EncodeToString_def)

lemma hex_digit_range: "n < 16 \<Longrightarrow> hex_digit n \<noteq> CHR '':''"
proof
  assume "n < 16" and "hex_digit n = CHR '':''"
  then have "hex_value (CHR '':'') = Some n" using hex_value_digit [of n] by simp
  then show False by (simp add: hex_value_def)
qed

lemma colon_notin_hex: "CHR '':'' \<notin> set (hex_EncodeToString bs)"
proof
  assume "CHR '':'' \<in> set (hex_EncodeToString bs)"
  then obtain b :: u8 where "CHR '':'' = hex_digit (unat b div 16) \<or> CHR '':'' = hex_digit (unat b mod 16)"
    by (auto simp: hex_EncodeToString_def)
  moreover have "unat b < 256" using unsigned_less [of b] by simp
  then have "unat b div 16 < 16" by auto
  ultimately show False using hex_digit_range by (metis mod_less_divisor zero_less_numeral)
qed

lemma dec_string_digits: "c \<in> set (dec_string n) \<Longrightarrow> 48 \<le> (of_char c :: nat) \<and> (of_char c :: nat) \<le> 57"
proof (induction n rule: dec_string.induct)
  case (1 n)
  then show ?case
    by (subst (asm) dec_string.simps) (auto split: if_splits)
qed

lemma dec_string_not_Nil [simp]: "dec_string n \<noteq> []"
  by (subst dec_string.simps) simp

lemma ParseUint_loop_append:
  "ParseUint_loop m n (s @ t) = rbind (ParseUint_loop m n s) (\<lambda>k. ParseUint_loop m k t)"
  by (induction s arbitrary: n) (auto simp: Let_def)

lemma ParseUint_loop_dec_string: "n \<le> m \<Longrightarrow> ParseUint_loop m 0 (dec_string n) = Inr n"
proof (induction n rule: dec_string.induct)
  case (1 n)
  show ?case
  proof (cases "n < 10")
    case True
    with "1.prems" show ?thesis by (subst dec_string.simps) simp
  next
    case False
    with "1" have "ParseUint_loop m 0 (dec_string (n div 10)) = Inr (n div 10)" by simp
    with False "1.prems" show ?thesis
      by (subst dec_string.simps) (simp add: ParseUint_loop_append Let_def)
  qed
qed

lemma ParseUint32_dec_string: "n < 2 ^ 32 \<Longrightarrow> ParseUint32 (dec_string n) = Inr n"
  by (simp add: ParseUint32_def ParseUint_loop_dec_string)

lemma ParseUint_loop_le: "ParseUint_loop m n s = Inr k \<Longrightarrow> n \<le> m \<Longrightarrow> k \<le> m"
  by (induction s arbitrary: n) (auto simp: Let_def split: if_splits)

lemma strings_Split_no_sep: "d \<notin> set s \<Longrightarrow> strings_Split d s = [s]"
  by (induction s) auto

lemma strings_Split_one_sep:
  "d \<notin> set s \<Longrightarrow> strings_Split d (s @ d # t) = s # strings_Split d t"
  by (induction s) auto

lemma Contains_iff: "Contains s sub \<longleftrightarrow> (\<exists>p q. s = p @ sub @ q)"
proof (induction s)
  case Nil
  then show ?case by auto
next
  case (Cons x xs)
  have "HasPrefix (x # xs) sub \<longleftrightarrow> (\<exists>q. x # xs = sub @ q)"
    by (metis HasPrefix_def append_eq_conv_conj append_take_drop_id)
  with Cons show ?case
    by (metis (no_types, opaque_lifting) Cons_eq_append_conv append_Cons Contains.simps(2) append_Nil)
qed

subsection \<open>The codec interface\<close>

text \<open>
  What a client relies on when it uses an encoder \<open>enc\<close> and a decoder \<open>dec\<close> for the values
  \<open>wf\<close>: every well-formed value has an encoding that decodes to it and leaves the following
  bytes unread, a decoder returns well-formed values only, and it consumes at least one byte,
  from the front. The lemmas of the locale are proved once and used by every codec:
  encodings are uniquely decodable, decoding then encoding gives bytes that decode to the
  same value, and all of it lifts to counted sequences.
\<close>

locale codec =
  fixes enc :: "'a \<Rightarrow> ('e, bytes) res"
    and dec :: "bytes \<Rightarrow> ('e, 'a \<times> bytes) res"
    and wf :: "'a \<Rightarrow> bool"
  assumes roundtrip: "wf x \<Longrightarrow> \<exists>b. enc x = Inr b \<and> (\<forall>r. dec (b @ r) = Inr (x, r))"
    and dec_wf: "dec b = Inr (x, r) \<Longrightarrow> wf x"
    and dec_front: "dec b = Inr (x, r) \<Longrightarrow> strict_suffix r b"
begin

lemma dec_enc: "wf x \<Longrightarrow> enc x = Inr b \<Longrightarrow> dec (b @ r) = Inr (x, r)"
  using roundtrip by fastforce

lemma uniquely_decodable:
  assumes "wf x" "wf y" "enc x = Inr b" "enc y = Inr c" "b @ r = c @ s"
  shows "x = y \<and> r = s"
  using dec_enc [OF assms(1,3), of r] dec_enc [OF assms(2,4), of s] assms(5) by simp

lemma enc_inject: "wf x \<Longrightarrow> wf y \<Longrightarrow> enc x = Inr b \<Longrightarrow> enc y = Inr b \<Longrightarrow> x = y"
  using uniquely_decodable by blast

lemma reencode:
  assumes "dec b = Inr (x, r)"
  shows "\<exists>b'. enc x = Inr b' \<and> (\<forall>s. dec (b' @ s) = Inr (x, s))"
  using roundtrip [OF dec_wf [OF assms]] .

lemma dec_shorter: "dec b = Inr (x, r) \<Longrightarrow> length r < length b"
  using dec_front suffix_length_less by blast

lemma list_roundtrip:
  "\<forall>x \<in> set xs. wf x \<Longrightarrow>
     \<exists>b. write_all enc xs = Inr b \<and> (\<forall>r. read_n dec (length xs) (b @ r) = Inr (xs, r))"
proof (induction xs)
  case Nil
  then show ?case by simp
next
  case (Cons x xs)
  from Cons obtain bs where bs: "write_all enc xs = Inr bs"
    "\<And>r. read_n dec (length xs) (bs @ r) = Inr (xs, r)" by auto
  from Cons.prems roundtrip [of x] obtain b where b: "enc x = Inr b"
    "\<And>r. dec (b @ r) = Inr (x, r)" by auto
  from bs b show ?case by simp
qed

lemma read_n_wf: "read_n dec n b = Inr (xs, r) \<Longrightarrow> (\<forall>x \<in> set xs. wf x) \<and> length xs = n"
  by (induction n arbitrary: b xs) (auto simp: rbind_eq_Inr dest: dec_wf)

lemma read_n_front: "read_n dec n b = Inr (xs, r) \<Longrightarrow> suffix r b"
proof (induction n arbitrary: b xs)
  case 0
  then show ?case by simp
next
  case (Suc n)
  then obtain x r' xs' where d: "dec b = Inr (x, r')" and "read_n dec n r' = Inr (xs', r)"
    by (auto simp: rbind_eq_Inr)
  with Suc.IH have "suffix r r'" by blast
  with dec_front [OF d] show ?case by (meson suffix_order.le_less_trans suffix_order.less_imp_le)
qed

lemma read_n_count: "read_n dec n b = Inr (xs, r) \<Longrightarrow> n \<le> length b"
proof (induction n arbitrary: b xs)
  case (Suc n)
  then obtain x r' xs' where "dec b = Inr (x, r')" and "read_n dec n r' = Inr (xs', r)"
    by (auto simp: rbind_eq_Inr)
  with Suc.IH dec_shorter show ?case by fastforce
qed simp

end

lemma read_n_map_err:
  "read_n (\<lambda>r. map_err h (dec r)) n b = map_err h (read_n dec n b)"
  by (induction n arbitrary: b) (auto simp: rbind_def map_err_def split: sum.splits prod.splits)

interpretation uvarint: codec "\<lambda>v. Inr (PutUvarint v)" ReadUvarint "\<lambda>_. True"
proof
  fix x :: u64 and b r
  show "\<exists>b. Inr (PutUvarint x) = Inr b \<and> (\<forall>r. ReadUvarint (b @ r) = Inr (x, r))" by simp
  show "ReadUvarint b = Inr (x, r) \<Longrightarrow> strict_suffix r b"
    unfolding ReadUvarint_def by (rule ReadUvarint_loop_suffix)
qed simp

end
