(* ===== verification/Asset_Codec.thy ===== *)
theory Asset_Codec
  imports Go_Bytes
begin

section \<open>The asset package: identifiers, references, inputs, outputs, metadata\<close>

text \<open>
  \<open>pkg/ark-lib/asset\<close>: \<open>utils.go\<close>, \<open>asset_id.go\<close>, \<open>asset_ref.go\<close>, \<open>asset_input.go\<close>,
  \<open>asset_output.go\<close>, \<open>metadata.go\<close>. A \<open>chainhash.Hash\<close> (a Go array of 32 bytes) is a list of
  bytes; that it has 32 elements is part of the well-formedness predicates, as it is part of
  the Go type. The kind bytes (\<open>AssetInputType\<close> and the others) are \<open>uint8\<close> in the source and
  stay words, because a decoder casts any byte to them. \<open>chainhash.NewHashFromStr\<close> and
  \<open>chainhash.TaggedHash\<close> are third-party code and arguments of the definitions that call them.
\<close>

subsection \<open>utils.go\<close>

definition HashSize :: nat where
  "HashSize = 32"

definition serializeUint16 :: "u16 \<Rightarrow> bytes gores" where
  "serializeUint16 value = Inr (PutUint16 value)"

definition serializeVarUint :: "u64 \<Rightarrow> bytes gores" where
  "serializeVarUint value = Inr (PutUvarint value)"

definition serializeSlice :: "bytes \<Rightarrow> bytes gores" where
  "serializeSlice buf = Inr buf"

definition serializeVarSlice :: "bytes \<Rightarrow> bytes gores" where
  "serializeVarSlice buf = Inr (PutUvarint (of_nat (length buf)) @ buf)"

definition deserializeUint16 :: "bytes \<Rightarrow> (u16 \<times> bytes) gores" where
  "deserializeUint16 r =
     guard_err (length r < 2) (GoIO EOF)
       (rbind (map_err GoIO (reader_Read 2 r)) (\<lambda>(buf, r'). Inr (Uint16 buf, r')))"

definition deserializeVarUint :: "bytes \<Rightarrow> (u64 \<times> bytes) gores" where
  "deserializeVarUint r = map_err GoIO (ReadUvarint r)"

definition deserializeSlice :: "nat \<Rightarrow> bytes \<Rightarrow> (bytes \<times> bytes) gores" where
  "deserializeSlice sz r =
     guard_err (length r < sz) (GoIO EOF) (map_err GoIO (reader_Read sz r))"

definition deserializeVarSlice :: "bytes \<Rightarrow> (bytes \<times> bytes) gores" where
  "deserializeVarSlice r =
     rbind (map_err GoIO (ReadUvarint r)) (\<lambda>(l, r').
       guard_err (unat l > length r') (GoIO EOF)
         (map_err GoIO (reader_Read (unat l) r')))"

text \<open>\<open>reverseBytes\<close>: the loop swaps position \<open>i\<close> with its mirror, for \<open>i < len/2\<close>.\<close>

fun reverseBytes_loop :: "nat \<Rightarrow> nat \<Rightarrow> bytes \<Rightarrow> bytes" where
  "reverseBytes_loop 0 i buf = buf"
| "reverseBytes_loop (Suc k) i buf =
     reverseBytes_loop k (Suc i)
       (buf[i := buf ! (length buf - 1 - i), length buf - 1 - i := buf ! i])"

definition reverseBytes :: "bytes \<Rightarrow> bytes" where
  "reverseBytes buf = reverseBytes_loop (length buf div 2) 0 buf"

definition deserializeTxHash :: "bytes \<Rightarrow> (bytes \<times> bytes) gores" where
  "deserializeTxHash r =
     rbind (deserializeSlice HashSize r) (\<lambda>(buf, r'). Inr (reverseBytes buf, r'))"

definition serializeTxHash :: "bytes \<Rightarrow> bytes gores" where
  "serializeTxHash hash = serializeSlice (reverseBytes hash)"

subsection \<open>asset\_id.go\<close>

definition ASSET_ID_SIZE :: nat where
  "ASSET_ID_SIZE = 34"

definition emptyTxHash :: bytes where
  "emptyTxHash = replicate HashSize 0"

record AssetId =
  aid_Txid :: bytes
  aid_Index :: u16

text \<open>The error value of \<open>chainhash.NewHashFromStr\<close>: its text, and whether it is
  \<open>chainhash.ErrHashStrSize\<close>.\<close>

record chainhash_error =
  che_Error :: string
  che_IsErrHashStrSize :: bool

definition AssetId_validate :: "AssetId \<Rightarrow> unit gores" where
  "AssetId_validate a = guard_err (aid_Txid a = emptyTxHash) (Errorf ''empty txid'') (Inr ())"

definition AssetId_serialize :: "AssetId \<Rightarrow> bytes gores" where
  "AssetId_serialize a =
     rbind (serializeTxHash (aid_Txid a)) (\<lambda>h.
       rbind (serializeUint16 (aid_Index a)) (\<lambda>i. Inr (h @ i)))"

definition AssetId_Serialize :: "AssetId \<Rightarrow> bytes gores" where
  "AssetId_Serialize a = AssetId_serialize a"

text \<open>\<open>buf, _ := x.Serialize(); hex.EncodeToString(buf)\<close>, as every \<open>String\<close> method does.\<close>

definition hex_or_empty :: "bytes gores \<Rightarrow> string" where
  "hex_or_empty r = (case r of Inl _ \<Rightarrow> hex_EncodeToString [] | Inr buf \<Rightarrow> hex_EncodeToString buf)"

definition AssetId_String :: "AssetId \<Rightarrow> string" where
  "AssetId_String a = hex_or_empty (AssetId_Serialize a)"

definition newAssetIdFromReader :: "bytes \<Rightarrow> (AssetId \<times> bytes) gores" where
  "newAssetIdFromReader r =
     guard_err (length r < ASSET_ID_SIZE)
       (Errorf (''invalid asset id length: got '' @ dec_string (length r) @ '', want '' @
                dec_string ASSET_ID_SIZE))
       (rbind (deserializeTxHash r) (\<lambda>(txid, r1).
         rbind (deserializeUint16 r1) (\<lambda>(index, r2).
           let assetId = \<lparr>aid_Txid = txid, aid_Index = index\<rparr>
           in rbind (AssetId_validate assetId) (\<lambda>_. Inr (assetId, r2)))))"

definition NewAssetIdFromBytes :: "bytes \<Rightarrow> AssetId gores" where
  "NewAssetIdFromBytes buf =
     guard_err (length buf \<le> 0) (Errorf ''missing asset id'')
       (rbind (newAssetIdFromReader buf) (\<lambda>(a, _). Inr a))"

definition NewAssetIdFromString :: "string \<Rightarrow> AssetId gores" where
  "NewAssetIdFromString s =
     (case hex_DecodeString s of
        Inl _ \<Rightarrow> Inl (Errorf ''invalid asset id format, must be hex'')
      | Inr buf \<Rightarrow> NewAssetIdFromBytes buf)"

definition NewAssetId ::
    "(string \<Rightarrow> (chainhash_error, bytes) res) \<Rightarrow> string \<Rightarrow> u16 \<Rightarrow> AssetId gores" where
  "NewAssetId newHashFromStr txid index =
     guard_err (length txid \<le> 0) (Errorf ''missing txid'')
       (guard_err (length txid \<noteq> HashSize * 2)
         (Errorf (''invalid txid length, got '' @ dec_string (length txid) @ '' want '' @
                  dec_string (HashSize * 2)))
         (case newHashFromStr txid of
            Inl err \<Rightarrow>
              if Contains (che_Error err) ''encoding/hex'' then Inl (Errorf ''invalid txid format'')
              else if che_IsErrHashStrSize err then
                Inl (Errorf (''invalid txid length, got '' @ dec_string (length txid) @ '' want 64''))
              else Inl (Errorf (che_Error err))
          | Inr txHash \<Rightarrow>
              let assetId = \<lparr>aid_Txid = txHash, aid_Index = index\<rparr>
              in rbind (AssetId_validate assetId) (\<lambda>_. Inr assetId)))"

subsection \<open>asset\_ref.go\<close>

definition AssetRefUnspecified :: u8 where "AssetRefUnspecified = 0"
definition AssetRefByID :: u8 where "AssetRefByID = 1"
definition AssetRefByGroup :: u8 where "AssetRefByGroup = 2"

record AssetRef =
  ref_Type :: u8
  ref_AssetId :: AssetId
  ref_GroupIndex :: u16

text \<open>The zero values of the Go structs.\<close>

definition zero_AssetId :: AssetId where
  "zero_AssetId = \<lparr>aid_Txid = replicate HashSize 0, aid_Index = 0\<rparr>"

definition AssetRef_validate :: "AssetRef \<Rightarrow> unit gores" where
  "AssetRef_validate ref =
     (if ref_Type ref = AssetRefByID then AssetId_validate (ref_AssetId ref)
      else if ref_Type ref = AssetRefByGroup then Inr ()
      else if ref_Type ref = AssetRefUnspecified then Inl (Errorf ''asset ref type unspecified'')
      else Inl (Errorf (''asset ref type unknown '' @ dec_string (unat (ref_Type ref)))))"

definition AssetRef_serialize :: "AssetRef \<Rightarrow> bytes gores" where
  "AssetRef_serialize ref =
     (if ref_Type ref = AssetRefByID then
        rbind (AssetId_serialize (ref_AssetId ref)) (\<lambda>b. Inr (ref_Type ref # b))
      else if ref_Type ref = AssetRefByGroup then
        rbind (serializeUint16 (ref_GroupIndex ref)) (\<lambda>b. Inr (ref_Type ref # b))
      else Inr [ref_Type ref])"

definition AssetRef_Serialize :: "AssetRef \<Rightarrow> bytes gores" where
  "AssetRef_Serialize ref = AssetRef_serialize ref"

definition AssetRef_String :: "AssetRef \<Rightarrow> string" where
  "AssetRef_String ref = hex_or_empty (AssetRef_Serialize ref)"

definition NewAssetRefFromId :: "AssetId \<Rightarrow> AssetRef gores" where
  "NewAssetRefFromId assetId =
     (let ref = \<lparr>ref_Type = AssetRefByID, ref_AssetId = assetId, ref_GroupIndex = 0\<rparr>
      in rbind (AssetRef_validate ref) (\<lambda>_. Inr ref))"

definition NewAssetRefFromGroupIndex :: "u16 \<Rightarrow> AssetRef gores" where
  "NewAssetRefFromGroupIndex groupIndex =
     (let ref = \<lparr>ref_Type = AssetRefByGroup, ref_AssetId = zero_AssetId,
                 ref_GroupIndex = groupIndex\<rparr>
      in rbind (AssetRef_validate ref) (\<lambda>_. Inr ref))"

definition newAssetRefFromReader :: "bytes \<Rightarrow> (AssetRef \<times> bytes) gores" where
  "newAssetRefFromReader r =
     rbind (map_err GoIO (reader_ReadByte r)) (\<lambda>(typ, r1).
       rbind
         (if typ = AssetRefByID then
            rbind (newAssetIdFromReader r1) (\<lambda>(assetId, r2).
              Inr (\<lparr>ref_Type = typ, ref_AssetId = assetId, ref_GroupIndex = 0\<rparr>, r2))
          else if typ = AssetRefByGroup then
            rbind (map_err (eof_as ''invalid asset ref length'') (deserializeUint16 r1))
              (\<lambda>(grpIndex, r2).
                Inr (\<lparr>ref_Type = typ, ref_AssetId = zero_AssetId, ref_GroupIndex = grpIndex\<rparr>, r2))
          else if typ = AssetRefUnspecified then Inl (Errorf ''asset ref type unspecified'')
          else Inl (Errorf (''asset ref type unknown '' @ dec_string (unat typ))))
         (\<lambda>(ref, r2). rbind (AssetRef_validate ref) (\<lambda>_. Inr (ref, r2))))"

definition NewAssetRefFromBytes :: "bytes \<Rightarrow> AssetRef gores" where
  "NewAssetRefFromBytes buf =
     guard_err (length buf \<le> 0) (Errorf ''missing asset ref'')
       (rbind (newAssetRefFromReader buf) (\<lambda>(a, _). Inr a))"

definition NewAssetRefFromString :: "string \<Rightarrow> AssetRef gores" where
  "NewAssetRefFromString s =
     (case hex_DecodeString s of
        Inl _ \<Rightarrow> Inl (Errorf ''invalid asset ref format, must be hex'')
      | Inr buf \<Rightarrow> NewAssetRefFromBytes buf)"

subsection \<open>asset\_input.go\<close>

definition AssetInputTypeUnspecified :: u8 where "AssetInputTypeUnspecified = 0"
definition AssetInputTypeLocal :: u8 where "AssetInputTypeLocal = 1"
definition AssetInputTypeIntent :: u8 where "AssetInputTypeIntent = 2"

definition AssetInputType_String :: "u8 \<Rightarrow> string" where
  "AssetInputType_String t =
     (if t = AssetInputTypeLocal then ''local''
      else if t = AssetInputTypeIntent then ''intent''
      else ''unspecified'')"

record AssetInput =
  ain_Type :: u8
  ain_Vin :: u16
  ain_Txid :: bytes
  ain_Amount :: u64

definition AssetInput_validate :: "AssetInput \<Rightarrow> unit gores" where
  "AssetInput_validate i =
     (if ain_Type i = AssetInputTypeLocal then Inr ()
      else if ain_Type i = AssetInputTypeIntent then
        guard_err (ain_Txid i = replicate HashSize 0) (Errorf ''missing asset input txid'') (Inr ())
      else if ain_Type i = AssetInputTypeUnspecified then
        Inl (Errorf ''asset input type unspecified'')
      else Inl (Errorf (''asset input type unknown '' @ dec_string (unat (ain_Type i)))))"

definition AssetInput_serialize :: "AssetInput \<Rightarrow> bytes gores" where
  "AssetInput_serialize i =
     (if ain_Type i = AssetInputTypeLocal then
        rbind (serializeUint16 (ain_Vin i)) (\<lambda>v.
          rbind (serializeVarUint (ain_Amount i)) (\<lambda>a. Inr (ain_Type i # v @ a)))
      else if ain_Type i = AssetInputTypeIntent then
        rbind (serializeTxHash (ain_Txid i)) (\<lambda>h.
          rbind (serializeUint16 (ain_Vin i)) (\<lambda>v.
            rbind (serializeVarUint (ain_Amount i)) (\<lambda>a. Inr (ain_Type i # h @ v @ a))))
      else if ain_Type i = AssetInputTypeUnspecified then
        Inl (Errorf ''asset input type unspecified'')
      else Inl (Errorf (''asset input type unknown '' @ dec_string (unat (ain_Type i)))))"

definition AssetInput_Serialize :: "AssetInput \<Rightarrow> bytes gores" where
  "AssetInput_Serialize i = AssetInput_serialize i"

definition AssetInput_String :: "AssetInput \<Rightarrow> string" where
  "AssetInput_String i = hex_or_empty (AssetInput_Serialize i)"

definition NewAssetInput :: "u16 \<Rightarrow> u64 \<Rightarrow> AssetInput gores" where
  "NewAssetInput index amount =
     (let i = \<lparr>ain_Type = AssetInputTypeLocal, ain_Vin = index, ain_Txid = replicate HashSize 0,
               ain_Amount = amount\<rparr>
      in rbind (AssetInput_validate i) (\<lambda>_. Inr i))"

definition NewIntentAssetInput ::
    "(string \<Rightarrow> (chainhash_error, bytes) res) \<Rightarrow> string \<Rightarrow> u16 \<Rightarrow> u64 \<Rightarrow> AssetInput gores" where
  "NewIntentAssetInput newHashFromStr txid index amount =
     guard_err (length txid \<le> 0) (Errorf ''missing asset input txid'')
       (guard_err (length txid \<noteq> HashSize * 2)
         (Errorf (''invalid asset input txid length, got '' @ dec_string (length txid) @
                  '' want '' @ dec_string (HashSize * 2)))
         (case newHashFromStr txid of
            Inl err \<Rightarrow>
              if Contains (che_Error err) ''encoding/hex''
              then Inl (Errorf ''invalid asset input txid format'')
              else if che_IsErrHashStrSize err
              then Inl (Errorf ''invalid asset input txid length'')
              else Inl (Errorf (che_Error err))
          | Inr txhash \<Rightarrow>
              let i = \<lparr>ain_Type = AssetInputTypeIntent, ain_Vin = index, ain_Txid = txhash,
                       ain_Amount = amount\<rparr>
              in rbind (AssetInput_validate i) (\<lambda>_. Inr i)))"

definition newAssetInputFromReader :: "bytes \<Rightarrow> (AssetInput \<times> bytes) gores" where
  "newAssetInputFromReader r =
     rbind (map_err GoIO (reader_ReadByte r)) (\<lambda>(typ, r1).
       rbind
         (if typ = AssetInputTypeLocal then
            rbind (deserializeUint16 r1) (\<lambda>(index, r2).
              rbind (deserializeVarUint r2) (\<lambda>(amount, r3).
                Inr (\<lparr>ain_Type = typ, ain_Vin = index, ain_Txid = replicate HashSize 0,
                      ain_Amount = amount\<rparr>, r3)))
          else if typ = AssetInputTypeIntent then
            rbind (map_err (eof_as ''invalid asset input txid length'') (deserializeTxHash r1))
              (\<lambda>(txid, r2).
                rbind (deserializeUint16 r2) (\<lambda>(index, r3).
                  rbind (deserializeVarUint r3) (\<lambda>(amount, r4).
                    Inr (\<lparr>ain_Type = typ, ain_Vin = index, ain_Txid = txid,
                          ain_Amount = amount\<rparr>, r4))))
          else if typ = AssetInputTypeUnspecified then
            Inl (Errorf ''asset input type unspecified'')
          else Inl (Errorf (''asset input type unknown '' @ dec_string (unat typ))))
         (\<lambda>(i, r'). rbind (AssetInput_validate i) (\<lambda>_. Inr (i, r'))))"

definition NewAssetInputFromBytes :: "bytes \<Rightarrow> AssetInput gores" where
  "NewAssetInputFromBytes buf =
     guard_err (length buf \<le> 0) (Errorf ''missing asset input'')
       (rbind (newAssetInputFromReader buf) (\<lambda>(a, _). Inr a))"

definition NewAssetInputFromString :: "string \<Rightarrow> AssetInput gores" where
  "NewAssetInputFromString s =
     (case hex_DecodeString s of
        Inl _ \<Rightarrow> Inl (Errorf ''invalid asset input format, must be hex'')
      | Inr buf \<Rightarrow> NewAssetInputFromBytes buf)"

text \<open>\<open>AssetInputs.validate\<close>: the loop with its map of seen indices and the common type.\<close>

fun AssetInputs_validate_loop :: "u16 set \<Rightarrow> u8 \<Rightarrow> AssetInput list \<Rightarrow> unit gores" where
  "AssetInputs_validate_loop m inType [] = Inr ()"
| "AssetInputs_validate_loop m inType (i # ins) =
     guard_err (ain_Vin i \<in> m) (Errorf ''all inputs must have unique vin'')
       (let inType' = (if inType = AssetInputTypeUnspecified then ain_Type i else inType)
        in guard_err (ain_Type i \<noteq> inType') (Errorf ''all inputs must be of the same type'')
             (rbind (AssetInput_validate i) (\<lambda>_.
               AssetInputs_validate_loop (insert (ain_Vin i) m) inType' ins)))"

definition AssetInputs_validate :: "AssetInput list \<Rightarrow> unit gores" where
  "AssetInputs_validate ins = AssetInputs_validate_loop {} AssetInputTypeUnspecified ins"

definition AssetInputs_serialize :: "AssetInput list \<Rightarrow> bytes gores" where
  "AssetInputs_serialize ins =
     rbind (serializeVarUint (of_nat (length ins))) (\<lambda>n.
       rbind (write_all AssetInput_serialize ins) (\<lambda>bs. Inr (n @ bs)))"

definition AssetInputs_Serialize :: "AssetInput list \<Rightarrow> bytes gores" where
  "AssetInputs_Serialize ins = AssetInputs_serialize ins"

definition AssetInputs_String :: "AssetInput list \<Rightarrow> string" where
  "AssetInputs_String ins = hex_or_empty (AssetInputs_Serialize ins)"

definition NewAssetInputs :: "AssetInput list \<Rightarrow> AssetInput list gores" where
  "NewAssetInputs ins =
     guard_err (length ins \<le> 0) (Errorf ''missing asset inputs'')
       (rbind (AssetInputs_validate ins) (\<lambda>_. Inr ins))"

definition MaxAssetInputCount :: u64 where
  "MaxAssetInputCount = 1000"

definition newAssetInputsFromReader :: "bytes \<Rightarrow> (AssetInput list \<times> bytes) gores" where
  "newAssetInputsFromReader r =
     rbind (deserializeVarUint r) (\<lambda>(count, r1).
       if count = 0 then Inr ([], r1)
       else guard_err (count > MaxAssetInputCount)
         (Errorf (''invalid asset input count, max='' @ dec_string (unat MaxAssetInputCount) @
                  '', got='' @ dec_string (unat count)))
         (rbind (read_n newAssetInputFromReader (unat count) r1) (\<lambda>(inputs, r2).
           rbind (AssetInputs_validate inputs) (\<lambda>_. Inr (inputs, r2)))))"

definition NewAssetInputsFromString :: "string \<Rightarrow> AssetInput list gores" where
  "NewAssetInputsFromString s =
     guard_err (length s \<le> 0) (Errorf ''missing asset inputs'')
       (case hex_DecodeString s of
          Inl _ \<Rightarrow> Inl (Errorf ''invalid asset inputs format, must be hex'')
        | Inr buf \<Rightarrow> rbind (newAssetInputsFromReader buf) (\<lambda>(a, _). Inr a))"

subsection \<open>asset\_output.go\<close>

definition AssetOutputTypeUnspecified :: u8 where "AssetOutputTypeUnspecified = 0"
definition AssetOutputTypeLocal :: u8 where "AssetOutputTypeLocal = 1"

record AssetOutput =
  aout_Type :: u8
  aout_Vout :: u16
  aout_Amount :: u64

definition AssetOutput_validate :: "AssetOutput \<Rightarrow> unit gores" where
  "AssetOutput_validate out =
     guard_err (aout_Amount out = 0) (Errorf ''asset output amount must be greater than 0'') (Inr ())"

definition NewAssetOutput :: "u16 \<Rightarrow> u64 \<Rightarrow> AssetOutput gores" where
  "NewAssetOutput vout amount =
     (let out = \<lparr>aout_Type = AssetOutputTypeLocal, aout_Vout = vout, aout_Amount = amount\<rparr>
      in rbind (AssetOutput_validate out) (\<lambda>_. Inr out))"

definition AssetOutput_serialize :: "AssetOutput \<Rightarrow> bytes gores" where
  "AssetOutput_serialize out =
     rbind (serializeUint16 (aout_Vout out)) (\<lambda>v.
       rbind (serializeVarUint (aout_Amount out)) (\<lambda>a. Inr (aout_Type out # v @ a)))"

definition AssetOutput_Serialize :: "AssetOutput \<Rightarrow> bytes gores" where
  "AssetOutput_Serialize out = AssetOutput_serialize out"

definition AssetOutput_String :: "AssetOutput \<Rightarrow> string" where
  "AssetOutput_String out = hex_or_empty (AssetOutput_Serialize out)"

definition newAssetOutputFromReader :: "bytes \<Rightarrow> (AssetOutput \<times> bytes) gores" where
  "newAssetOutputFromReader r =
     rbind (map_err GoIO (reader_ReadByte r)) (\<lambda>(typ, r1).
       if typ = AssetOutputTypeLocal then
         rbind (map_err (eof_as ''invalid asset output vout length'') (deserializeUint16 r1))
           (\<lambda>(index, r2).
             rbind (deserializeVarUint r2) (\<lambda>(amount, r3).
               rbind (NewAssetOutput index amount) (\<lambda>out. Inr (out, r3))))
       else if typ = AssetOutputTypeUnspecified then
         Inl (Errorf ''asset output type unspecified'')
       else Inl (Errorf (''asset output type unknown '' @ dec_string (unat typ))))"

definition NewAssetOutputFromBytes :: "bytes \<Rightarrow> AssetOutput gores" where
  "NewAssetOutputFromBytes buf =
     guard_err (length buf \<le> 0) (Errorf ''missing asset output'')
       (rbind (newAssetOutputFromReader buf) (\<lambda>(out, _). Inr out))"

definition NewAssetOutputFromString :: "string \<Rightarrow> AssetOutput gores" where
  "NewAssetOutputFromString s =
     (case hex_DecodeString s of
        Inl _ \<Rightarrow> Inl (Errorf ''invalid asset output format, must be hex'')
      | Inr buf \<Rightarrow> NewAssetOutputFromBytes buf)"

fun AssetOutputs_validate_loop :: "u16 set \<Rightarrow> AssetOutput list \<Rightarrow> unit gores" where
  "AssetOutputs_validate_loop m [] = Inr ()"
| "AssetOutputs_validate_loop m (out # outs) =
     guard_err (aout_Vout out \<in> m) (Errorf ''all outputs must have unique vout'')
       (rbind (AssetOutput_validate out) (\<lambda>_.
         AssetOutputs_validate_loop (insert (aout_Vout out) m) outs))"

definition AssetOutputs_validate :: "AssetOutput list \<Rightarrow> unit gores" where
  "AssetOutputs_validate outs = AssetOutputs_validate_loop {} outs"

definition AssetOutputs_serialize :: "AssetOutput list \<Rightarrow> bytes gores" where
  "AssetOutputs_serialize outs =
     rbind (AssetOutputs_validate outs) (\<lambda>_.
       rbind (serializeVarUint (of_nat (length outs))) (\<lambda>n.
         rbind (write_all AssetOutput_serialize outs) (\<lambda>bs. Inr (n @ bs))))"

definition AssetOutputs_Serialize :: "AssetOutput list \<Rightarrow> bytes gores" where
  "AssetOutputs_Serialize outs = AssetOutputs_serialize outs"

definition AssetOutputs_String :: "AssetOutput list \<Rightarrow> string" where
  "AssetOutputs_String outs = hex_or_empty (AssetOutputs_Serialize outs)"

definition NewAssetOutputs :: "AssetOutput list \<Rightarrow> AssetOutput list gores" where
  "NewAssetOutputs outs =
     guard_err (length outs \<le> 0) (Errorf ''missing asset outputs'')
       (rbind (AssetOutputs_validate outs) (\<lambda>_. Inr outs))"

definition MaxAssetOutputCount :: u64 where
  "MaxAssetOutputCount = 1000"

definition newAssetOutputsFromReader :: "bytes \<Rightarrow> (AssetOutput list \<times> bytes) gores" where
  "newAssetOutputsFromReader r =
     rbind (deserializeVarUint r) (\<lambda>(count, r1).
       if count = 0 then Inr ([], r1)
       else guard_err (count > MaxAssetOutputCount)
         (Errorf (''invalid asset output count, max='' @ dec_string (unat MaxAssetOutputCount) @
                  '', got='' @ dec_string (unat count)))
         (rbind (read_n newAssetOutputFromReader (unat count) r1) (\<lambda>(outputs, r2).
           rbind (AssetOutputs_validate outputs) (\<lambda>_. Inr (outputs, r2)))))"

definition NewAssetOutputsFromString :: "string \<Rightarrow> AssetOutput list gores" where
  "NewAssetOutputsFromString s =
     guard_err (length s \<le> 0) (Errorf ''missing asset outputs'')
       (case hex_DecodeString s of
          Inl _ \<Rightarrow> Inl (Errorf ''invalid asset outputs format, must be hex'')
        | Inr buf \<Rightarrow> rbind (newAssetOutputsFromReader buf) (\<lambda>(a, _). Inr a))"

subsection \<open>metadata.go\<close>

record Metadata =
  md_Key :: bytes
  md_Value :: bytes

definition Metadata_validate :: "Metadata \<Rightarrow> unit gores" where
  "Metadata_validate md =
     guard_err (length (md_Key md) \<le> 0) (Errorf ''missing metadata key'')
       (guard_err (length (md_Value md) \<le> 0) (Errorf ''missing metadata value'') (Inr ()))"

text \<open>\<open>[]byte(key)\<close>: the bytes of a Go string.\<close>

definition string_bytes :: "string \<Rightarrow> bytes" where
  "string_bytes s = map of_char s"

definition NewMetadata :: "string \<Rightarrow> string \<Rightarrow> Metadata gores" where
  "NewMetadata key value =
     (let md = \<lparr>md_Key = string_bytes key, md_Value = string_bytes value\<rparr>
      in rbind (Metadata_validate md) (\<lambda>_. Inr md))"

definition Metadata_serialize :: "Metadata \<Rightarrow> bytes gores" where
  "Metadata_serialize md =
     rbind (serializeVarSlice (md_Key md)) (\<lambda>k.
       rbind (serializeVarSlice (md_Value md)) (\<lambda>v. Inr (k @ v)))"

definition Metadata_Serialize :: "Metadata \<Rightarrow> bytes gores" where
  "Metadata_Serialize md = Metadata_serialize md"

definition Metadata_String :: "Metadata \<Rightarrow> string" where
  "Metadata_String md = hex_or_empty (Metadata_Serialize md)"

definition newMetadataFromReader :: "bytes \<Rightarrow> (Metadata \<times> bytes) gores" where
  "newMetadataFromReader r =
     rbind (map_err (eof_as ''invalid metadata length'') (deserializeVarSlice r)) (\<lambda>(key, r1).
       rbind (map_err (eof_as ''invalid metadata length'') (deserializeVarSlice r1)) (\<lambda>(value, r2).
         let md = \<lparr>md_Key = key, md_Value = value\<rparr>
         in rbind (Metadata_validate md) (\<lambda>_. Inr (md, r2))))"

definition NewMetadataFromBytes :: "bytes \<Rightarrow> Metadata gores" where
  "NewMetadataFromBytes buf =
     guard_err (length buf \<le> 0) (Errorf ''missing metadata'')
       (rbind (newMetadataFromReader buf) (\<lambda>(md, _). Inr md))"

definition NewMetadataFromString :: "string \<Rightarrow> Metadata gores" where
  "NewMetadataFromString s =
     (case hex_DecodeString s of
        Inl _ \<Rightarrow> Inl (Errorf ''invalid metadata format, must be hex'')
      | Inr buf \<Rightarrow> NewMetadataFromBytes buf)"

definition MetadataList_validate :: "Metadata list \<Rightarrow> unit gores" where
  "MetadataList_validate l = check_all Metadata_validate l"

definition NewMetadataList :: "Metadata list \<Rightarrow> Metadata list gores" where
  "NewMetadataList md =
     guard_err (length md \<le> 0) (Errorf ''missing metadata'')
       (rbind (MetadataList_validate md) (\<lambda>_. Inr md))"

definition MetadataList_serialize :: "Metadata list \<Rightarrow> bytes gores" where
  "MetadataList_serialize l =
     rbind (serializeVarUint (of_nat (length l))) (\<lambda>n.
       rbind (write_all Metadata_serialize l) (\<lambda>bs. Inr (n @ bs)))"

definition MetadataList_Serialize :: "Metadata list \<Rightarrow> bytes gores" where
  "MetadataList_Serialize l = MetadataList_serialize l"

definition MetadataList_String :: "Metadata list \<Rightarrow> string" where
  "MetadataList_String l = hex_or_empty (MetadataList_Serialize l)"

definition MaxAssetMetadataListCount :: u64 where
  "MaxAssetMetadataListCount = 1000"

definition newMetadataListFromReader :: "bytes \<Rightarrow> (Metadata list \<times> bytes) gores" where
  "newMetadataListFromReader r =
     rbind (deserializeVarUint r) (\<lambda>(count, r1).
       guard_err (count > MaxAssetMetadataListCount)
         (Errorf (''invalid asset metadata list count, max='' @
                  dec_string (unat MaxAssetMetadataListCount) @ '', got='' @
                  dec_string (unat count)))
         (rbind (read_n newMetadataFromReader (unat count) r1) (\<lambda>(l, r2).
           rbind (MetadataList_validate l) (\<lambda>_. Inr (l, r2)))))"

definition NewMetadataListFromBytes :: "bytes \<Rightarrow> Metadata list gores" where
  "NewMetadataListFromBytes buf =
     guard_err (length buf \<le> 0) (Errorf ''missing metadata list'')
       (rbind (newMetadataListFromReader buf) (\<lambda>(md, _). Inr md))"

definition NewMetadataListFromString :: "string \<Rightarrow> Metadata list gores" where
  "NewMetadataListFromString s =
     (case hex_DecodeString s of
        Inl _ \<Rightarrow> Inl (Errorf ''invalid metadata list format, must be hex'')
      | Inr buf \<Rightarrow> NewMetadataListFromBytes buf)"

text \<open>The Merkle tree of the metadata. \<open>taggedHash tag chunks\<close> is \<open>chainhash.TaggedHash\<close>,
  which hashes the concatenated chunks under a tag.\<close>

definition arkLeafTag :: bytes where
  "arkLeafTag = string_bytes ''ArkadeAssetLeaf''"

definition arkBranchTag :: bytes where
  "arkBranchTag = string_bytes ''ArkadeAssetBranch''"

definition arkLeafVersion :: u8 where
  "arkLeafVersion = 0"

definition computeMetadataLeafHash ::
    "(bytes \<Rightarrow> bytes list \<Rightarrow> bytes) \<Rightarrow> Metadata \<Rightarrow> bytes" where
  "computeMetadataLeafHash taggedHash md =
     taggedHash arkLeafTag
       [arkLeafVersion #
        (case serializeVarSlice (md_Key md) of Inl _ \<Rightarrow> [] | Inr k \<Rightarrow> k) @
        (case serializeVarSlice (md_Value md) of Inl _ \<Rightarrow> [] | Inr v \<Rightarrow> v)]"

text \<open>\<open>bytes.Compare(a, b) > 0\<close>.\<close>

fun bytes_greater :: "bytes \<Rightarrow> bytes \<Rightarrow> bool" where
  "bytes_greater [] bs = False"
| "bytes_greater (a # as) [] = True"
| "bytes_greater (a # as) (b # bs) = (a > b \<or> a = b \<and> bytes_greater as bs)"

definition computeMetadaBranchHash ::
    "(bytes \<Rightarrow> bytes list \<Rightarrow> bytes) \<Rightarrow> bytes \<Rightarrow> bytes \<Rightarrow> bytes" where
  "computeMetadaBranchHash taggedHash a b =
     (let (a', b') = (if bytes_greater a b then (b, a) else (a, b))
      in taggedHash arkBranchTag [a', b'])"

text \<open>One pass of the reduction: pairs become branches, an odd last element is kept.\<close>

fun merkle_next :: "(bytes \<Rightarrow> bytes list \<Rightarrow> bytes) \<Rightarrow> bytes list \<Rightarrow> bytes list" where
  "merkle_next taggedHash (a # b # rest) =
     computeMetadaBranchHash taggedHash a b # merkle_next taggedHash rest"
| "merkle_next taggedHash xs = xs"

lemma length_merkle_next [simp]: "length (merkle_next th xs) = (length xs + 1) div 2"
  by (induction th xs rule: merkle_next.induct) auto

function merkle_levels ::
    "(bytes \<Rightarrow> bytes list \<Rightarrow> bytes) \<Rightarrow> bytes list list \<Rightarrow> bytes list \<Rightarrow> bytes list list" where
  "merkle_levels taggedHash levels current =
     (if length current > 1 then
        (let nxt = merkle_next taggedHash current
         in merkle_levels taggedHash (levels @ [nxt]) nxt)
      else levels)"
  by pat_completeness auto
termination
  by (relation "measure (\<lambda>(_, _, current). length current)") auto

declare merkle_levels.simps [simp del]

definition buildMetadataMerkleTree ::
    "(bytes \<Rightarrow> bytes list \<Rightarrow> bytes) \<Rightarrow> Metadata list \<Rightarrow> bytes list list" where
  "buildMetadataMerkleTree taggedHash leaves =
     (if length leaves = 0 then []
      else let hashes = map (computeMetadataLeafHash taggedHash) leaves
           in merkle_levels taggedHash [hashes] hashes)"

text \<open>\<open>root := levels[len(levels)-1][0]\<close>: an index out of range would panic, which is \<open>None\<close>.\<close>

definition GenerateMetadataListHash ::
    "(bytes \<Rightarrow> bytes list \<Rightarrow> bytes) \<Rightarrow> Metadata list \<Rightarrow> bytes option" where
  "GenerateMetadataListHash taggedHash md =
     (if length md = 0 then Some []
      else case rev (buildMetadataMerkleTree taggedHash md) of
             [] \<Rightarrow> None
           | lvl # _ \<Rightarrow> (case lvl of [] \<Rightarrow> None | root # _ \<Rightarrow> Some root))"

subsection \<open>Well-formed values\<close>

text \<open>What the Go types guarantee (arrays of 32 bytes, fields left at their zero value) together
  with what the \<open>validate\<close> methods check. These are the values the decoders produce.\<close>

definition wf_AssetId :: "AssetId \<Rightarrow> bool" where
  "wf_AssetId a \<longleftrightarrow> length (aid_Txid a) = HashSize \<and> aid_Txid a \<noteq> emptyTxHash"

definition wf_AssetRef :: "AssetRef \<Rightarrow> bool" where
  "wf_AssetRef ref \<longleftrightarrow>
     ref_Type ref = AssetRefByID \<and> wf_AssetId (ref_AssetId ref) \<and> ref_GroupIndex ref = 0 \<or>
     ref_Type ref = AssetRefByGroup \<and> ref_AssetId ref = zero_AssetId"

definition wf_AssetInput :: "AssetInput \<Rightarrow> bool" where
  "wf_AssetInput i \<longleftrightarrow>
     ain_Type i = AssetInputTypeLocal \<and> ain_Txid i = replicate HashSize 0 \<or>
     ain_Type i = AssetInputTypeIntent \<and> length (ain_Txid i) = HashSize \<and>
       ain_Txid i \<noteq> replicate HashSize 0"

definition wf_AssetOutput :: "AssetOutput \<Rightarrow> bool" where
  "wf_AssetOutput out \<longleftrightarrow> aout_Type out = AssetOutputTypeLocal \<and> aout_Amount out \<noteq> 0"

definition wf_Metadata :: "Metadata \<Rightarrow> bool" where
  "wf_Metadata md \<longleftrightarrow>
     md_Key md \<noteq> [] \<and> md_Value md \<noteq> [] \<and>
     length (md_Key md) < 2 ^ 64 \<and> length (md_Value md) < 2 ^ 64"

definition wf_AssetInputs :: "AssetInput list \<Rightarrow> bool" where
  "wf_AssetInputs ins \<longleftrightarrow>
     length ins \<le> 1000 \<and> (\<forall>i \<in> set ins. wf_AssetInput i) \<and> AssetInputs_validate ins = Inr ()"

definition wf_AssetOutputs :: "AssetOutput list \<Rightarrow> bool" where
  "wf_AssetOutputs outs \<longleftrightarrow>
     length outs \<le> 1000 \<and> (\<forall>o' \<in> set outs. wf_AssetOutput o') \<and> AssetOutputs_validate outs = Inr ()"

definition wf_MetadataList :: "Metadata list \<Rightarrow> bool" where
  "wf_MetadataList l \<longleftrightarrow> length l \<le> 1000 \<and> (\<forall>md \<in> set l. wf_Metadata md)"

subsection \<open>Lemmas on utils.go\<close>

lemma length_reverseBytes_loop [simp]: "length (reverseBytes_loop k i buf) = length buf"
  by (induction k i buf rule: reverseBytes_loop.induct) auto

lemma nth_reverseBytes_loop:
  assumes "i + k \<le> length buf div 2" and "j < length buf"
  shows "reverseBytes_loop k i buf ! j =
    (if i \<le> j \<and> j < i + k \<or> i \<le> length buf - 1 - j \<and> length buf - 1 - j < i + k
     then buf ! (length buf - 1 - j) else buf ! j)"
  using assms
proof (induction k i buf rule: reverseBytes_loop.induct)
  case (1 i buf)
  then show ?case by auto
next
  case (2 k i buf)
  let ?buf = "buf[i := buf ! (length buf - 1 - i), length buf - 1 - i := buf ! i]"
  have at: "?buf ! m = (if m = length buf - 1 - i then buf ! i
      else if m = i then buf ! (length buf - 1 - i) else buf ! m)" if "m < length buf" for m
    using that by (simp add: nth_list_update)
  have "reverseBytes_loop k (Suc i) ?buf ! j =
    (if Suc i \<le> j \<and> j < Suc i + k \<or> Suc i \<le> length buf - 1 - j \<and> length buf - 1 - j < Suc i + k
     then ?buf ! (length buf - 1 - j) else ?buf ! j)"
    using "2.IH" "2.prems" by simp
  moreover have "length buf - 1 - (length buf - 1 - j) = j" using "2.prems"(2) by simp
  ultimately show ?case
    using "2.prems" at [of j] at [of "length buf - 1 - j"] by (auto simp: not_le not_less)
qed

lemma reverseBytes_rev [simp]: "reverseBytes buf = rev buf"
proof (rule nth_equalityI)
  fix j
  assume "j < length (reverseBytes buf)"
  then have j: "j < length buf" by (simp add: reverseBytes_def)
  have mid: "buf ! j = buf ! (length buf - 1 - j)"
    if "\<not> j < length buf div 2" "\<not> length buf - 1 - j < length buf div 2"
  proof -
    from that j have "j = length buf - 1 - j" by linarith
    then show ?thesis by simp
  qed
  have "reverseBytes buf ! j = buf ! (length buf - 1 - j)"
    unfolding reverseBytes_def using nth_reverseBytes_loop [of 0 "length buf div 2" buf j] j mid
    by auto
  then show "reverseBytes buf ! j = rev buf ! j" using j by (simp add: rev_nth)
qed (simp add: reverseBytes_def)

lemma deserializeUint16_PutUint16 [simp, codec_simps]:
  "deserializeUint16 (PutUint16 v @ r) = Inr (v, r)"
  by (simp add: deserializeUint16_def reader_Read_def PutUint16_def
      Uint16_PutUint16 [of v "[]", unfolded PutUint16_def, simplified])

lemma deserializeUint16_Inr:
  "deserializeUint16 r = Inr (v, r') \<Longrightarrow> strict_suffix r' r"
  by (auto simp: deserializeUint16_def reader_Read_def res_elims strict_suffix_drop
      split: if_splits)

lemma deserializeVarUint_PutUvarint [simp, codec_simps]:
  "deserializeVarUint (PutUvarint v @ r) = Inr (v, r)"
  by (simp add: deserializeVarUint_def)

lemma deserializeVarUint_Inr:
  "deserializeVarUint r = Inr (v, r') \<Longrightarrow> strict_suffix r' r"
  by (auto simp: deserializeVarUint_def res_elims dest: uvarint.dec_front)

lemma deserializeTxHash_rev [simp, codec_simps]:
  "length h = HashSize \<Longrightarrow> deserializeTxHash (rev h @ r) = Inr (h, r)"
  by (auto simp: deserializeTxHash_def deserializeSlice_def reader_Read_def HashSize_def)

lemma deserializeTxHash_Inr:
  "deserializeTxHash r = Inr (h, r') \<Longrightarrow> length h = HashSize \<and> strict_suffix r' r"
  by (auto simp: deserializeTxHash_def deserializeSlice_def reader_Read_def res_elims HashSize_def
      strict_suffix_drop split: if_splits)

lemma reader_ReadByte_Inr: "reader_ReadByte r = Inr (b, r') \<longleftrightarrow> r = b # r'"
  by (auto simp: reader_ReadByte_def split: list.splits)

lemma unat_of_nat_64: "n < 2 ^ 64 \<Longrightarrow> unat (of_nat n :: u64) = n"
  by (simp add: unat_of_nat take_bit_nat_eq_self)

lemma deserializeVarSlice_roundtrip [simp, codec_simps]:
  assumes "b \<noteq> []" and "length b < 2 ^ 64"
  shows "deserializeVarSlice (PutUvarint (of_nat (length b)) @ b @ r) = Inr (b, r)"
  using assms by (simp add: deserializeVarSlice_def reader_Read_def unat_of_nat_64)

lemma deserializeVarSlice_Inr:
  assumes "deserializeVarSlice r = Inr (b, r')"
  shows "length b < 2 ^ 64 \<and> strict_suffix r' r"
proof -
  from assms obtain l s where l: "ReadUvarint r = Inr (l, s)" and le: "unat l \<le> length s"
    and b: "b = take (unat l) s" and r': "r' = drop (unat l) s"
    by (auto simp: deserializeVarSlice_def reader_Read_def res_elims guard_err_def split: if_splits)
  from uvarint.dec_front [OF l] have "strict_suffix r' r"
    unfolding r' by (meson suffix_drop suffix_order.le_less_trans)
  moreover have "unat l < 2 ^ 64" using unsigned_less [of l] by simp
  then have "length b < 2 ^ 64" by (simp add: b)
  ultimately show ?thesis by simp
qed

lemma length_emptyTxHash [simp]: "length emptyTxHash = HashSize"
  by (simp add: emptyTxHash_def)

lemmas serialize_defs = serializeUint16_def serializeVarUint_def serializeSlice_def
  serializeVarSlice_def serializeTxHash_def

lemmas fronts = deserializeTxHash_Inr [THEN conjunct2] deserializeUint16_Inr
  deserializeVarUint_Inr deserializeVarSlice_Inr [THEN conjunct2]

subsection \<open>Every codec of the package satisfies the interface\<close>

lemma newAssetIdFromReader_eq:
  assumes "wf_AssetId a"
  shows "newAssetIdFromReader (rev (aid_Txid a) @ PutUint16 (aid_Index a) @ r) = Inr (a, r)"
  using assms
  by (simp add: newAssetIdFromReader_def wf_AssetId_def ASSET_ID_SIZE_def HashSize_def
      deserializeTxHash_rev [unfolded HashSize_def] AssetId_validate_def)

interpretation asset_id: codec AssetId_serialize newAssetIdFromReader wf_AssetId
proof
  fix x :: AssetId and b r
  show "wf_AssetId x \<Longrightarrow>
      \<exists>b. AssetId_serialize x = Inr b \<and> (\<forall>r. newAssetIdFromReader (b @ r) = Inr (x, r))"
    by (simp add: AssetId_serialize_def serialize_defs newAssetIdFromReader_eq)
  show "newAssetIdFromReader b = Inr (x, r) \<Longrightarrow> wf_AssetId x"
    by (auto simp: newAssetIdFromReader_def AssetId_validate_def wf_AssetId_def res_elims Let_def
        dest: deserializeTxHash_Inr)
  show "newAssetIdFromReader b = Inr (x, r) \<Longrightarrow> strict_suffix r b"
    by (auto simp: newAssetIdFromReader_def res_elims reader_ReadByte_Inr Let_def split: if_splits
        dest!: fronts intro: suffix_trans_rules)
qed

lemma AssetId_serialize_eq:
  "AssetId_serialize a = Inr (rev (aid_Txid a) @ PutUint16 (aid_Index a))"
  by (simp add: AssetId_serialize_def serialize_defs)

lemma AssetId_String_inject:
  assumes "wf_AssetId a" and "wf_AssetId b"
  shows "AssetId_String a = AssetId_String b \<longleftrightarrow> a = b"
  using asset_id.enc_inject [OF assms]
  by (auto simp: AssetId_String_def AssetId_Serialize_def hex_or_empty_def AssetId_serialize_eq)

lemmas ref_types = AssetRefUnspecified_def AssetRefByID_def AssetRefByGroup_def
lemmas input_types = AssetInputTypeUnspecified_def AssetInputTypeLocal_def AssetInputTypeIntent_def
lemmas output_types = AssetOutputTypeUnspecified_def AssetOutputTypeLocal_def

interpretation asset_ref: codec AssetRef_serialize newAssetRefFromReader wf_AssetRef
proof
  fix x :: AssetRef and b r
  show "wf_AssetRef x \<Longrightarrow>
      \<exists>b. AssetRef_serialize x = Inr b \<and> (\<forall>r. newAssetRefFromReader (b @ r) = Inr (x, r))"
    by (cases x) (auto simp: wf_AssetRef_def AssetRef_serialize_def newAssetRefFromReader_def
        AssetRef_validate_def AssetId_validate_def ref_types reader_ReadByte_def serialize_defs
        AssetId_serialize_eq newAssetIdFromReader_eq wf_AssetId_def)
  show "newAssetRefFromReader b = Inr (x, r) \<Longrightarrow> wf_AssetRef x"
    by (auto simp: newAssetRefFromReader_def wf_AssetRef_def res_elims ref_types
        dest: asset_id.dec_wf split: if_splits)
  show "newAssetRefFromReader b = Inr (x, r) \<Longrightarrow> strict_suffix r b"
    by (auto simp: newAssetRefFromReader_def res_elims reader_ReadByte_Inr Let_def split: if_splits
        dest!: fronts asset_id.dec_front intro: suffix_trans_rules)
qed

interpretation asset_input: codec AssetInput_serialize newAssetInputFromReader wf_AssetInput
proof
  fix x :: AssetInput and b r
  show "wf_AssetInput x \<Longrightarrow>
      \<exists>b. AssetInput_serialize x = Inr b \<and> (\<forall>r. newAssetInputFromReader (b @ r) = Inr (x, r))"
    by (cases x) (auto simp: wf_AssetInput_def AssetInput_serialize_def newAssetInputFromReader_def
        AssetInput_validate_def input_types reader_ReadByte_def serialize_defs)
  show "newAssetInputFromReader b = Inr (x, r) \<Longrightarrow> wf_AssetInput x"
    by (auto simp: newAssetInputFromReader_def wf_AssetInput_def AssetInput_validate_def res_elims
        input_types dest: deserializeTxHash_Inr split: if_splits)
  show "newAssetInputFromReader b = Inr (x, r) \<Longrightarrow> strict_suffix r b"
    by (auto simp: newAssetInputFromReader_def res_elims reader_ReadByte_Inr Let_def split: if_splits
        dest!: fronts intro: suffix_trans_rules)
qed

interpretation asset_output: codec AssetOutput_serialize newAssetOutputFromReader wf_AssetOutput
proof
  fix x :: AssetOutput and b r
  show "wf_AssetOutput x \<Longrightarrow>
      \<exists>b. AssetOutput_serialize x = Inr b \<and> (\<forall>r. newAssetOutputFromReader (b @ r) = Inr (x, r))"
    by (cases x) (auto simp: wf_AssetOutput_def AssetOutput_serialize_def newAssetOutputFromReader_def
        NewAssetOutput_def AssetOutput_validate_def output_types reader_ReadByte_def serialize_defs)
  show "newAssetOutputFromReader b = Inr (x, r) \<Longrightarrow> wf_AssetOutput x"
    by (auto simp: newAssetOutputFromReader_def NewAssetOutput_def wf_AssetOutput_def
        AssetOutput_validate_def res_elims output_types split: if_splits)
  show "newAssetOutputFromReader b = Inr (x, r) \<Longrightarrow> strict_suffix r b"
    by (auto simp: newAssetOutputFromReader_def res_elims reader_ReadByte_Inr Let_def split: if_splits
        dest!: fronts intro: suffix_trans_rules)
qed

interpretation metadata: codec Metadata_serialize newMetadataFromReader wf_Metadata
proof
  fix x :: Metadata and b r
  show "wf_Metadata x \<Longrightarrow>
      \<exists>b. Metadata_serialize x = Inr b \<and> (\<forall>r. newMetadataFromReader (b @ r) = Inr (x, r))"
    by (cases x) (simp add: wf_Metadata_def Metadata_serialize_def newMetadataFromReader_def
        Metadata_validate_def serialize_defs)
  show "newMetadataFromReader b = Inr (x, r) \<Longrightarrow> wf_Metadata x"
    by (auto simp: newMetadataFromReader_def wf_Metadata_def Metadata_validate_def res_elims Let_def
        dest: deserializeVarSlice_Inr)
  show "newMetadataFromReader b = Inr (x, r) \<Longrightarrow> strict_suffix r b"
    by (auto simp: newMetadataFromReader_def res_elims Let_def dest!: fronts intro: suffix_trans_rules)
qed

subsection \<open>What the list validations accept\<close>

lemma AssetInputs_validate_loop_iff:
  assumes "t \<noteq> AssetInputTypeUnspecified"
  shows "AssetInputs_validate_loop m t ins = Inr () \<longleftrightarrow>
    distinct (map ain_Vin ins) \<and> ain_Vin ` set ins \<inter> m = {} \<and>
    (\<forall>i \<in> set ins. ain_Type i = t \<and> AssetInput_validate i = Inr ())"
  using assms
  by (induction m t ins rule: AssetInputs_validate_loop.induct) (auto simp: Let_def res_elims)

lemma AssetInput_validate_type: "AssetInput_validate i = Inr () \<Longrightarrow> ain_Type i \<noteq> AssetInputTypeUnspecified"
  by (auto simp: AssetInput_validate_def input_types)

lemma AssetInputs_validate_iff:
  "AssetInputs_validate ins = Inr () \<longleftrightarrow>
     distinct (map ain_Vin ins) \<and>
     (\<forall>i \<in> set ins. ain_Type i = ain_Type (hd ins) \<and> AssetInput_validate i = Inr ())"
proof (cases ins)
  case Nil
  then show ?thesis by (simp add: AssetInputs_validate_def)
next
  case (Cons i rest)
  show ?thesis
  proof (cases "ain_Type i = AssetInputTypeUnspecified")
    case True
    with Cons show ?thesis
      by (auto simp: AssetInputs_validate_def res_elims dest: AssetInput_validate_type)
  next
    case False
    with Cons show ?thesis
      by (auto simp: AssetInputs_validate_def res_elims AssetInputs_validate_loop_iff)
  qed
qed

lemma AssetOutputs_validate_loop_iff:
  "AssetOutputs_validate_loop m outs = Inr () \<longleftrightarrow>
    distinct (map aout_Vout outs) \<and> aout_Vout ` set outs \<inter> m = {} \<and>
    (\<forall>o' \<in> set outs. aout_Amount o' \<noteq> 0)"
  by (induction m outs rule: AssetOutputs_validate_loop.induct)
    (auto simp: res_elims AssetOutput_validate_def)

lemma AssetOutputs_validate_iff:
  "AssetOutputs_validate outs = Inr () \<longleftrightarrow>
     distinct (map aout_Vout outs) \<and> (\<forall>o' \<in> set outs. aout_Amount o' \<noteq> 0)"
  by (simp add: AssetOutputs_validate_def AssetOutputs_validate_loop_iff)

subsection \<open>The list codecs\<close>

lemma count_bound:
  "(of_nat n :: u64) > 1000 \<longleftrightarrow> n > 1000" "(of_nat n :: u64) = 0 \<longleftrightarrow> n = 0" if "n < 2 ^ 64"
  using that by (simp_all add: word_less_nat_alt unat_of_nat_64 unat_eq_0 [symmetric])

lemmas count_defs = MaxAssetInputCount_def MaxAssetOutputCount_def MaxAssetMetadataListCount_def

interpretation asset_inputs: codec AssetInputs_serialize newAssetInputsFromReader wf_AssetInputs
proof
  fix x :: "AssetInput list" and b r
  assume wf: "wf_AssetInputs x"
  then have "\<forall>i \<in> set x. wf_AssetInput i" and "length x \<le> 1000"
    by (simp_all add: wf_AssetInputs_def)
  with asset_input.list_roundtrip [of x] wf
  show "\<exists>b. AssetInputs_serialize x = Inr b \<and> (\<forall>r. newAssetInputsFromReader (b @ r) = Inr (x, r))"
    by (auto simp: AssetInputs_serialize_def newAssetInputsFromReader_def serialize_defs
        count_bound unat_of_nat_64 count_defs wf_AssetInputs_def)
next
  fix x :: "AssetInput list" and b r
  assume dec: "newAssetInputsFromReader b = Inr (x, r)"
  show "wf_AssetInputs x"
    using dec unfolding newAssetInputsFromReader_def
    by (auto simp: wf_AssetInputs_def AssetInputs_validate_def res_elims count_defs word_less_nat_alt
        split: if_splits dest!: asset_input.read_n_wf)
  show "strict_suffix r b"
    using dec unfolding newAssetInputsFromReader_def
    by (auto simp: res_elims split: if_splits dest!: fronts asset_input.read_n_front
        intro: suffix_order.le_less_trans)
qed

interpretation asset_outputs: codec AssetOutputs_serialize newAssetOutputsFromReader wf_AssetOutputs
proof
  fix x :: "AssetOutput list" and b r
  assume wf: "wf_AssetOutputs x"
  then have "\<forall>i \<in> set x. wf_AssetOutput i" and "length x \<le> 1000"
    by (simp_all add: wf_AssetOutputs_def)
  with asset_output.list_roundtrip [of x] wf
  show "\<exists>b. AssetOutputs_serialize x = Inr b \<and> (\<forall>r. newAssetOutputsFromReader (b @ r) = Inr (x, r))"
    by (auto simp: AssetOutputs_serialize_def newAssetOutputsFromReader_def serialize_defs
        count_bound unat_of_nat_64 count_defs wf_AssetOutputs_def)
next
  fix x :: "AssetOutput list" and b r
  assume dec: "newAssetOutputsFromReader b = Inr (x, r)"
  show "wf_AssetOutputs x"
    using dec unfolding newAssetOutputsFromReader_def
    by (auto simp: wf_AssetOutputs_def AssetOutputs_validate_def res_elims count_defs
        word_less_nat_alt split: if_splits dest!: asset_output.read_n_wf)
  show "strict_suffix r b"
    using dec unfolding newAssetOutputsFromReader_def
    by (auto simp: res_elims split: if_splits dest!: fronts asset_output.read_n_front
        intro: suffix_order.le_less_trans)
qed

lemma MetadataList_validate_wf: "\<forall>md \<in> set l. wf_Metadata md \<Longrightarrow> MetadataList_validate l = Inr ()"
  by (simp add: MetadataList_validate_def check_all_eq_Inr Metadata_validate_def wf_Metadata_def)

interpretation metadata_list: codec MetadataList_serialize newMetadataListFromReader wf_MetadataList
proof
  fix x :: "Metadata list" and b r
  assume wf: "wf_MetadataList x"
  then have "\<forall>i \<in> set x. wf_Metadata i" and "length x \<le> 1000"
    by (simp_all add: wf_MetadataList_def)
  with metadata.list_roundtrip [of x] wf MetadataList_validate_wf [of x]
  show "\<exists>b. MetadataList_serialize x = Inr b \<and> (\<forall>r. newMetadataListFromReader (b @ r) = Inr (x, r))"
    by (auto simp: MetadataList_serialize_def newMetadataListFromReader_def serialize_defs
        count_bound unat_of_nat_64 count_defs)
next
  fix x :: "Metadata list" and b r
  assume dec: "newMetadataListFromReader b = Inr (x, r)"
  show "wf_MetadataList x"
    using dec unfolding newMetadataListFromReader_def
    by (auto simp: wf_MetadataList_def res_elims count_defs word_less_nat_alt
        dest!: metadata.read_n_wf)
  show "strict_suffix r b"
    using dec unfolding newMetadataListFromReader_def
    by (auto simp: res_elims dest!: fronts metadata.read_n_front intro: suffix_order.le_less_trans)
qed

subsection \<open>The metadata Merkle tree\<close>

lemma bytes_greater_asym: "bytes_greater a b \<Longrightarrow> \<not> bytes_greater b a"
  by (induction a b rule: bytes_greater.induct) auto

lemma bytes_greater_total: "\<not> bytes_greater a b \<Longrightarrow> \<not> bytes_greater b a \<Longrightarrow> a = b"
  by (induction a b rule: bytes_greater.induct) (auto elim: bytes_greater.elims)

lemma computeMetadaBranchHash_commute:
  "computeMetadaBranchHash th a b = computeMetadaBranchHash th b a"
  using bytes_greater_asym [of a b] bytes_greater_total [of a b]
  by (auto simp: computeMetadaBranchHash_def)

lemma merkle_levels_last:
  assumes "current \<noteq> []" and "levels \<noteq> []" and "last levels = current"
  shows "merkle_levels th levels current \<noteq> [] \<and> length (last (merkle_levels th levels current)) = 1"
  using assms
proof (induction th levels current rule: merkle_levels.induct)
  case (1 th levels current)
  show ?case
  proof (cases "length current > 1")
    case True
    then have "length (merkle_next th current) > 0" by simp
    then have "merkle_next th current \<noteq> []" by blast
    with True "1.IH" [OF True refl] show ?thesis
      by (subst (1 2) merkle_levels.simps) (simp add: Let_def)
  next
    case False
    with "1.prems" have "length current = 1" by (simp add: not_less le_Suc_eq)
    with False "1.prems" show ?thesis by (subst (1 2) merkle_levels.simps) simp
  qed
qed

lemma GenerateMetadataListHash_Some: "\<exists>root. GenerateMetadataListHash th md = Some root"
proof (cases md)
  case Nil
  then show ?thesis by (simp add: GenerateMetadataListHash_def)
next
  case (Cons m ms)
  define hs where "hs = map (computeMetadataLeafHash th) md"
  define t where "t = buildMetadataMerkleTree th md"
  have "t = merkle_levels th [hs] hs"
    using Cons by (simp add: t_def buildMetadataMerkleTree_def hs_def Let_def)
  with merkle_levels_last [of hs "[hs]" th] have "t \<noteq> []" and "length (last t) = 1"
    by (simp_all add: hs_def Cons)
  then obtain l ls root where "rev t = l # ls" and "l = [root]"
    by (metis length_Suc_conv length_0_conv One_nat_def rev_is_Nil_conv neq_Nil_conv hd_rev list.sel(1))
  then show ?thesis using Cons by (simp add: GenerateMetadataListHash_def t_def)
qed

end
