(* ===== verification/Asset_Packet.thy ===== *)
theory Asset_Packet
  imports Asset_Codec
begin

unbundle bit_operations_syntax

section \<open>The asset package: groups and packets\<close>

text \<open>
  \<open>pkg/ark-lib/asset/asset_group.go\<close> and \<open>packet.go\<close>. A pointer that may be nil is an
  option; a nil slice and an empty slice are both the empty list, since the code looks at
  lengths only.
\<close>

subsection \<open>asset\_group.go\<close>

definition maskAssetId :: u8 where "maskAssetId = push_bit 0 1"
definition maskControlAsset :: u8 where "maskControlAsset = push_bit 1 1"
definition maskMetadata :: u8 where "maskMetadata = push_bit 2 1"

record AssetGroup =
  grp_AssetId :: "AssetId option"
  grp_ControlAsset :: "AssetRef option"
  grp_Outputs :: "AssetOutput list"
  grp_Inputs :: "AssetInput list"
  grp_Metadata :: "Metadata list"

definition AssetGroup_IsIssuance :: "AssetGroup \<Rightarrow> bool" where
  "AssetGroup_IsIssuance ag \<longleftrightarrow> grp_AssetId ag = None"

text \<open>\<open>big.Int\<close> sums: unbounded.\<close>

fun safeSumUint64 :: "u64 list \<Rightarrow> int" where
  "safeSumUint64 [] = 0"
| "safeSumUint64 (v # vs) = uint v + safeSumUint64 vs"

definition AssetGroup_IsReissuance :: "AssetGroup \<Rightarrow> bool" where
  "AssetGroup_IsReissuance ag \<longleftrightarrow>
     \<not> AssetGroup_IsIssuance ag \<and>
     safeSumUint64 (map ain_Amount (grp_Inputs ag)) < safeSumUint64 (map aout_Amount (grp_Outputs ag))"

definition AssetGroup_validate :: "AssetGroup \<Rightarrow> unit gores" where
  "AssetGroup_validate ag =
     guard_err (grp_AssetId ag = None \<and> length (grp_Inputs ag) \<le> 0 \<and> length (grp_Outputs ag) \<le> 0)
       (Errorf ''empty asset group'')
       (rbind (case grp_AssetId ag of None \<Rightarrow> Inr () | Some a \<Rightarrow> AssetId_validate a) (\<lambda>_.
         rbind (case grp_ControlAsset ag of None \<Rightarrow> Inr () | Some c \<Rightarrow> AssetRef_validate c) (\<lambda>_.
           rbind
             (if AssetGroup_IsIssuance ag then
                guard_err (length (grp_Inputs ag) \<noteq> 0) (Errorf ''issuance must have no inputs'') (Inr ())
              else guard_err (grp_ControlAsset ag \<noteq> None)
                (Errorf ''only issuance can have a control asset'') (Inr ())) (\<lambda>_.
             rbind (check_all AssetInput_validate (grp_Inputs ag)) (\<lambda>_.
               rbind (check_all AssetOutput_validate (grp_Outputs ag)) (\<lambda>_.
                 check_all Metadata_validate (grp_Metadata ag)))))))"

definition NewAssetGroup ::
    "AssetId option \<Rightarrow> AssetRef option \<Rightarrow> AssetInput list \<Rightarrow> AssetOutput list \<Rightarrow> Metadata list
     \<Rightarrow> AssetGroup gores" where
  "NewAssetGroup assetId controlAsset ins outs md =
     (let ag = \<lparr>grp_AssetId = assetId, grp_ControlAsset = controlAsset, grp_Outputs = outs,
                grp_Inputs = ins, grp_Metadata = md\<rparr>
      in rbind (AssetGroup_validate ag) (\<lambda>_. Inr ag))"

definition AssetGroup_presence :: "AssetGroup \<Rightarrow> u8" where
  "AssetGroup_presence ag =
     ((if grp_AssetId ag \<noteq> None then maskAssetId else 0) OR
      (if grp_ControlAsset ag \<noteq> None then maskControlAsset else 0)) OR
     (if length (grp_Metadata ag) > 0 then maskMetadata else 0)"

definition AssetGroup_serialize :: "AssetGroup \<Rightarrow> bytes gores" where
  "AssetGroup_serialize ag =
     (let presence = AssetGroup_presence ag
      in rbind (case grp_AssetId ag of
                  Some a \<Rightarrow> if presence AND maskAssetId \<noteq> 0 then AssetId_serialize a else Inr []
                | None \<Rightarrow> Inr []) (\<lambda>b1.
         rbind (case grp_ControlAsset ag of
                  Some c \<Rightarrow> if presence AND maskControlAsset \<noteq> 0 then AssetRef_serialize c else Inr []
                | None \<Rightarrow> Inr []) (\<lambda>b2.
         rbind (if presence AND maskMetadata \<noteq> 0 then MetadataList_serialize (grp_Metadata ag)
                else Inr []) (\<lambda>b3.
         rbind (AssetInputs_serialize (grp_Inputs ag)) (\<lambda>b4.
         rbind (AssetOutputs_serialize (grp_Outputs ag)) (\<lambda>b5.
           Inr (presence # b1 @ b2 @ b3 @ b4 @ b5)))))))"

definition AssetGroup_Serialize :: "AssetGroup \<Rightarrow> bytes gores" where
  "AssetGroup_Serialize ag = rbind (AssetGroup_validate ag) (\<lambda>_. AssetGroup_serialize ag)"

definition AssetGroup_String :: "AssetGroup \<Rightarrow> string" where
  "AssetGroup_String ag = hex_or_empty (AssetGroup_Serialize ag)"

definition toBatchLeafAssetGroup :: "bytes \<Rightarrow> AssetGroup \<Rightarrow> AssetGroup" where
  "toBatchLeafAssetGroup intentTxid ag =
     \<lparr>grp_AssetId = grp_AssetId ag, grp_ControlAsset = grp_ControlAsset ag,
      grp_Outputs = grp_Outputs ag,
      grp_Inputs = [\<lparr>ain_Type = AssetInputTypeIntent, ain_Vin = 0, ain_Txid = intentTxid,
                     ain_Amount = 0\<rparr>],
      grp_Metadata = grp_Metadata ag\<rparr>"

definition newAssetGroupFromReader :: "bytes \<Rightarrow> (AssetGroup \<times> bytes) gores" where
  "newAssetGroupFromReader r =
     rbind (map_err GoIO (reader_ReadByte r)) (\<lambda>(presence, r0).
     rbind (if presence AND maskAssetId \<noteq> 0
            then rbind (newAssetIdFromReader r0) (\<lambda>(a, r'). Inr (Some a, r'))
            else Inr (None, r0)) (\<lambda>(assetId, r1).
     rbind (if presence AND maskControlAsset \<noteq> 0
            then rbind (newAssetRefFromReader r1) (\<lambda>(c, r'). Inr (Some c, r'))
            else Inr (None, r1)) (\<lambda>(controlAsset, r2).
     rbind (if presence AND maskMetadata \<noteq> 0 then newMetadataListFromReader r2
            else Inr ([], r2)) (\<lambda>(metadata, r3).
     rbind (newAssetInputsFromReader r3) (\<lambda>(inputs, r4).
     rbind (newAssetOutputsFromReader r4) (\<lambda>(outputs, r5).
       let ag = \<lparr>grp_AssetId = assetId, grp_ControlAsset = controlAsset, grp_Outputs = outputs,
                  grp_Inputs = inputs, grp_Metadata = metadata\<rparr>
       in rbind (AssetGroup_validate ag) (\<lambda>_. Inr (ag, r5))))))))"

definition NewAssetGroupFromBytes :: "bytes \<Rightarrow> AssetGroup gores" where
  "NewAssetGroupFromBytes buf =
     guard_err (length buf \<le> 0) (Errorf ''missing asset group'')
       (rbind (newAssetGroupFromReader buf) (\<lambda>(ag, _). Inr ag))"

definition NewAssetGroupFromString :: "string \<Rightarrow> AssetGroup gores" where
  "NewAssetGroupFromString s =
     (case hex_DecodeString s of
        Inl _ \<Rightarrow> Inl (Errorf ''invalid format, must be hex'')
      | Inr buf \<Rightarrow> NewAssetGroupFromBytes buf)"

subsection \<open>packet.go\<close>

type_synonym Packet = "AssetGroup list"

definition PacketType :: u8 where
  "PacketType = 0"

definition MaxAssetGroupCount :: nat where
  "MaxAssetGroupCount = 1000"

text \<open>The loop of \<open>Packet.validate\<close>, with the map of seen identifiers; \<open>n\<close> is \<open>len(p)\<close>.\<close>

fun Packet_validate_loop :: "nat \<Rightarrow> AssetId set \<Rightarrow> AssetGroup list \<Rightarrow> unit gores" where
  "Packet_validate_loop n seen [] = Inr ()"
| "Packet_validate_loop n seen (asset # p) =
     guard_err (case grp_AssetId asset of None \<Rightarrow> False | Some a \<Rightarrow> a \<in> seen)
       (Errorf (''duplicate asset group for asset '' @
          (case grp_AssetId asset of None \<Rightarrow> [] | Some a \<Rightarrow> AssetId_String a)))
       (rbind (AssetGroup_validate asset) (\<lambda>_.
         guard_err
           (case grp_ControlAsset asset of
              None \<Rightarrow> False
            | Some c \<Rightarrow> ref_Type c = AssetRefByGroup \<and> unat (ref_GroupIndex c) \<ge> n)
           (Errorf (''invalid control asset group index, '' @
              (case grp_ControlAsset asset of None \<Rightarrow> [] | Some c \<Rightarrow> dec_string (unat (ref_GroupIndex c))) @
              '' out of range [0, '' @ dec_string (n - 1) @ '']''))
           (Packet_validate_loop n
              (case grp_AssetId asset of None \<Rightarrow> seen | Some a \<Rightarrow> insert a seen) p)))"

definition Packet_validate :: "Packet \<Rightarrow> unit gores" where
  "Packet_validate p =
     guard_err (length p \<le> 0) (Errorf ''missing assets'')
       (guard_err (length p > MaxAssetGroupCount)
         (Errorf (''invalid asset group count, max='' @ dec_string MaxAssetGroupCount @ '', got='' @
                  dec_string (length p)))
         (Packet_validate_loop (length p) {} p))"

definition NewPacket :: "AssetGroup list \<Rightarrow> Packet gores" where
  "NewPacket assets = rbind (Packet_validate assets) (\<lambda>_. Inr assets)"

definition LeafTxPacket :: "bytes \<Rightarrow> Packet \<Rightarrow> Packet" where
  "LeafTxPacket intentTxid p = map (toBatchLeafAssetGroup intentTxid) p"

definition Packet_serialize :: "Packet \<Rightarrow> bytes gores" where
  "Packet_serialize p =
     rbind (serializeVarUint (of_nat (length p))) (\<lambda>n.
       rbind (write_all AssetGroup_serialize p) (\<lambda>bs. Inr (n @ bs)))"

definition Packet_Serialize :: "Packet \<Rightarrow> bytes gores" where
  "Packet_Serialize p =
     (if length p \<le> 0 then Inr []
      else map_err (Errorw ''failed to serialize packet: '') (Packet_serialize p))"

definition Packet_String :: "Packet \<Rightarrow> string" where
  "Packet_String p = hex_or_empty (Packet_Serialize p)"

definition newPacketFromReader :: "bytes \<Rightarrow> Packet gores" where
  "newPacketFromReader r =
     rbind (deserializeVarUint r) (\<lambda>(count, r1).
       guard_err (unat count > MaxAssetGroupCount)
         (Errorf (''invalid asset group count, max='' @ dec_string MaxAssetGroupCount @ '', got='' @
                  dec_string (unat count)))
         (rbind (read_n newAssetGroupFromReader (unat count) r1) (\<lambda>(assets, r2).
           guard_err (length r2 > 0)
             (Errorf (''invalid packet length, left '' @ dec_string (length r2) @
                      '' unknown bytes to read''))
             (rbind (Packet_validate assets) (\<lambda>_. Inr assets)))))"

definition NewPacketFromBytes :: "bytes \<Rightarrow> Packet gores" where
  "NewPacketFromBytes buf = newPacketFromReader buf"

definition NewPacketFromString :: "string \<Rightarrow> Packet gores" where
  "NewPacketFromString s =
     guard_err (length s = 0) (Errorf ''missing packet data'')
       (case hex_DecodeString s of
          Inl _ \<Rightarrow> Inl (Errorf ''invalid packet format, must be hex'')
        | Inr buf \<Rightarrow> NewPacketFromBytes buf)"

text \<open>\<open>internal/core/application/asset_validation.go\<close>: the guard the server puts before
  \<open>LeafTxPacket\<close>.\<close>

definition hasIssuance :: "Packet \<Rightarrow> bool" where
  "hasIssuance packet \<longleftrightarrow> (\<exists>group \<in> set packet. AssetGroup_IsIssuance group)"

subsection \<open>Well-formed groups and packets\<close>

definition wf_AssetGroup :: "AssetGroup \<Rightarrow> bool" where
  "wf_AssetGroup ag \<longleftrightarrow>
     (\<forall>a. grp_AssetId ag = Some a \<longrightarrow> wf_AssetId a) \<and>
     (\<forall>c. grp_ControlAsset ag = Some c \<longrightarrow> wf_AssetRef c) \<and>
     wf_MetadataList (grp_Metadata ag) \<and> wf_AssetInputs (grp_Inputs ag) \<and>
     wf_AssetOutputs (grp_Outputs ag) \<and> AssetGroup_validate ag = Inr ()"

definition wf_Packet :: "Packet \<Rightarrow> bool" where
  "wf_Packet p \<longleftrightarrow> (\<forall>g \<in> set p. wf_AssetGroup g) \<and> Packet_validate p = Inr ()"

subsection \<open>Groups and packets are codecs\<close>

lemma mask_simps [simp]:
  "maskAssetId = 1" "maskControlAsset = 2" "maskMetadata = 4"
  by (simp_all add: maskAssetId_def maskControlAsset_def maskMetadata_def)

lemma presence_bits:
  "AssetGroup_presence ag AND 1 \<noteq> 0 \<longleftrightarrow> grp_AssetId ag \<noteq> None"
  "AssetGroup_presence ag AND 2 \<noteq> 0 \<longleftrightarrow> grp_ControlAsset ag \<noteq> None"
  "AssetGroup_presence ag AND 4 \<noteq> 0 \<longleftrightarrow> grp_Metadata ag \<noteq> []"
  by (simp_all add: AssetGroup_presence_def)

lemma group_roundtrip:
  assumes "wf_AssetGroup ag"
  shows "\<exists>b. AssetGroup_serialize ag = Inr b \<and> (\<forall>r. newAssetGroupFromReader (b @ r) = Inr (ag, r))"
proof -
  let ?idb = "\<lambda>b. (\<forall>r. (if grp_AssetId ag \<noteq> None
      then rbind (newAssetIdFromReader (b @ r)) (\<lambda>(a, r'). Inr (Some a, r'))
      else Inr (None, b @ r)) = Inr (grp_AssetId ag, r))"
  from assms asset_id.roundtrip obtain b1 where b1:
    "(case grp_AssetId ag of Some a \<Rightarrow> AssetId_serialize a | None \<Rightarrow> Inr []) = Inr b1" "?idb b1"
    by (cases "grp_AssetId ag") (fastforce simp: wf_AssetGroup_def)+
  from assms asset_ref.roundtrip obtain b2 where b2:
    "(case grp_ControlAsset ag of Some a \<Rightarrow> AssetRef_serialize a | None \<Rightarrow> Inr []) = Inr b2"
    "\<forall>r. (if grp_ControlAsset ag \<noteq> None
      then rbind (newAssetRefFromReader (b2 @ r)) (\<lambda>(a, r'). Inr (Some a, r'))
      else Inr (None, b2 @ r)) = Inr (grp_ControlAsset ag, r)"
    by (cases "grp_ControlAsset ag") (fastforce simp: wf_AssetGroup_def)+
  from assms metadata_list.roundtrip obtain b3 where b3:
    "(if grp_Metadata ag \<noteq> [] then MetadataList_serialize (grp_Metadata ag) else Inr []) = Inr b3"
    "\<forall>r. (if grp_Metadata ag \<noteq> [] then newMetadataListFromReader (b3 @ r)
      else Inr ([], b3 @ r)) = Inr (grp_Metadata ag, r)"
    by (cases "grp_Metadata ag = []") (fastforce simp: wf_AssetGroup_def)+
  from assms asset_inputs.roundtrip obtain b4 where b4: "AssetInputs_serialize (grp_Inputs ag) = Inr b4"
    "\<forall>r. newAssetInputsFromReader (b4 @ r) = Inr (grp_Inputs ag, r)"
    by (fastforce simp: wf_AssetGroup_def)
  from assms asset_outputs.roundtrip obtain b5 where b5: "AssetOutputs_serialize (grp_Outputs ag) = Inr b5"
    "\<forall>r. newAssetOutputsFromReader (b5 @ r) = Inr (grp_Outputs ag, r)"
    by (fastforce simp: wf_AssetGroup_def)
  have ser: "AssetGroup_serialize ag = Inr (AssetGroup_presence ag # b1 @ b2 @ b3 @ b4 @ b5)"
    using b1(1) b2(1) b3(1) b4(1) b5(1)
    by (auto simp: AssetGroup_serialize_def Let_def presence_bits split: option.splits if_splits)
  have "newAssetGroupFromReader ((AssetGroup_presence ag # b1 @ b2 @ b3 @ b4 @ b5) @ r) = Inr (ag, r)" for r
    using assms b4(2) b5(2) b1(2) [rule_format, of "b2 @ b3 @ b4 @ b5 @ r"]
      b2(2) [rule_format, of "b3 @ b4 @ b5 @ r"] b3(2) [rule_format, of "b4 @ b5 @ r"]
    by (cases ag) (simp add: newAssetGroupFromReader_def reader_ReadByte_def presence_bits
        wf_AssetGroup_def)
  with ser show ?thesis by blast
qed

lemma newAssetGroupFromReader_wf:
  assumes "newAssetGroupFromReader b = Inr (ag, r)"
  shows "wf_AssetGroup ag"
proof -
  have empty: "wf_MetadataList []" by (simp add: wf_MetadataList_def)
  from assms show ?thesis
    unfolding newAssetGroupFromReader_def wf_AssetGroup_def
    by (auto simp: res_elims Let_def empty split: if_splits
        dest: asset_id.dec_wf asset_ref.dec_wf metadata_list.dec_wf asset_inputs.dec_wf
          asset_outputs.dec_wf)
qed

lemma newAssetGroupFromReader_front:
  "newAssetGroupFromReader b = Inr (ag, r) \<Longrightarrow> strict_suffix r b"
  unfolding newAssetGroupFromReader_def
  by (auto simp: res_elims Let_def reader_ReadByte_Inr split: if_splits
      dest!: asset_id.dec_front asset_ref.dec_front metadata_list.dec_front asset_inputs.dec_front
        asset_outputs.dec_front intro: suffix_trans_rules)

interpretation asset_group: codec AssetGroup_serialize newAssetGroupFromReader wf_AssetGroup
  by unfold_locales (fact group_roundtrip newAssetGroupFromReader_wf newAssetGroupFromReader_front)+

lemma Packet_validate_length: "Packet_validate p = Inr () \<Longrightarrow> 0 < length p \<and> length p \<le> 1000"
  by (simp add: Packet_validate_def res_elims MaxAssetGroupCount_def not_less)

lemma Packet_roundtrip:
  assumes "wf_Packet p"
  shows "\<exists>b. Packet_Serialize p = Inr b \<and> NewPacketFromBytes b = Inr p"
proof -
  have len: "0 < length p" "length p \<le> 1000"
    using assms Packet_validate_length by (auto simp: wf_Packet_def)
  from asset_group.list_roundtrip [of p] assms obtain bs where bs:
    "write_all AssetGroup_serialize p = Inr bs"
    "\<And>r. read_n newAssetGroupFromReader (length p) (bs @ r) = Inr (p, r)"
    by (auto simp: wf_Packet_def)
  with bs(2) [of "[]"] len assms show ?thesis
    by (simp add: Packet_Serialize_def Packet_serialize_def NewPacketFromBytes_def
        newPacketFromReader_def serialize_defs unat_of_nat_64 MaxAssetGroupCount_def wf_Packet_def)
qed

lemma NewPacketFromBytes_wf: "NewPacketFromBytes b = Inr p \<Longrightarrow> wf_Packet p"
  by (auto simp: NewPacketFromBytes_def newPacketFromReader_def wf_Packet_def res_elims
      dest!: asset_group.read_n_wf)

lemma Packet_validate_loop_Inr:
  "Packet_validate_loop n seen p = Inr () \<Longrightarrow>
     distinct (List.map_filter grp_AssetId p) \<and>
     set (List.map_filter grp_AssetId p) \<inter> seen = {} \<and>
     (\<forall>g \<in> set p. AssetGroup_validate g = Inr () \<and>
        (\<forall>c. grp_ControlAsset g = Some c \<and> ref_Type c = AssetRefByGroup \<longrightarrow>
           unat (ref_GroupIndex c) < n))"
  by (induction n seen p rule: Packet_validate_loop.induct)
    (auto simp: res_elims List.map_filter_simps not_le split: option.splits)

lemma Packet_validate_loop_intro:
  "distinct (List.map_filter grp_AssetId p) \<Longrightarrow>
     set (List.map_filter grp_AssetId p) \<inter> seen = {} \<Longrightarrow>
     \<forall>g \<in> set p. AssetGroup_validate g = Inr () \<and>
        (\<forall>c. grp_ControlAsset g = Some c \<and> ref_Type c = AssetRefByGroup \<longrightarrow>
           unat (ref_GroupIndex c) < n) \<Longrightarrow>
     Packet_validate_loop n seen p = Inr ()"
  by (induction n seen p rule: Packet_validate_loop.induct)
    (auto simp: res_elims List.map_filter_simps not_le split: option.splits)

lemma Packet_validate_iff:
  "Packet_validate p = Inr () \<longleftrightarrow>
     0 < length p \<and> length p \<le> 1000 \<and> distinct (List.map_filter grp_AssetId p) \<and>
     (\<forall>g \<in> set p. AssetGroup_validate g = Inr () \<and>
        (\<forall>c. grp_ControlAsset g = Some c \<and> ref_Type c = AssetRefByGroup \<longrightarrow>
           unat (ref_GroupIndex c) < length p))"
  using Packet_validate_loop_Inr [of "length p" "{}" p] Packet_validate_loop_intro [of p "{}" "length p"]
  by (auto simp: Packet_validate_def res_elims MaxAssetGroupCount_def not_less)

lemma map_filter_LeafTxPacket:
  "List.map_filter grp_AssetId (LeafTxPacket h p) = List.map_filter grp_AssetId p"
  by (induction p)
    (simp_all add: LeafTxPacket_def toBatchLeafAssetGroup_def List.map_filter_simps split: option.splits)

lemma length_LeafTxPacket [simp]: "length (LeafTxPacket h p) = length p"
  by (simp add: LeafTxPacket_def)

lemma LeafTxPacket_control:
  "g \<in> set (LeafTxPacket h p) \<Longrightarrow> \<exists>g' \<in> set p. grp_ControlAsset g = grp_ControlAsset g'"
  by (auto simp: LeafTxPacket_def toBatchLeafAssetGroup_def)

lemma wf_leaf_input:
  assumes "length h = HashSize" and "h \<noteq> replicate HashSize 0"
  shows "wf_AssetInputs [\<lparr>ain_Type = AssetInputTypeIntent, ain_Vin = 0, ain_Txid = h, ain_Amount = 0\<rparr>]"
  using assms
  by (simp add: wf_AssetInputs_def wf_AssetInput_def AssetInputs_validate_iff AssetInput_validate_def
      input_types)

lemma leaf_group_wf:
  assumes "wf_AssetGroup g" and "length h = HashSize" and "h \<noteq> replicate HashSize 0"
  shows "wf_AssetGroup (toBatchLeafAssetGroup h g) \<longleftrightarrow> \<not> AssetGroup_IsIssuance g"
  using assms wf_leaf_input [OF assms(2,3)]
  by (auto simp: wf_AssetGroup_def toBatchLeafAssetGroup_def AssetGroup_validate_def res_elims
      AssetGroup_IsIssuance_def AssetInput_validate_def input_types)

lemma LeafTxPacket_wf:
  assumes "wf_Packet p" and "length h = HashSize" and "h \<noteq> replicate HashSize 0"
  shows "wf_Packet (LeafTxPacket h p) \<longleftrightarrow> \<not> hasIssuance p"
proof -
  have groups: "(\<forall>g \<in> set (LeafTxPacket h p). wf_AssetGroup g) \<longleftrightarrow> \<not> hasIssuance p"
    using assms leaf_group_wf by (auto simp: wf_Packet_def LeafTxPacket_def hasIssuance_def)
  have "Packet_validate (LeafTxPacket h p) = Inr ()" if "\<forall>g \<in> set (LeafTxPacket h p). wf_AssetGroup g"
    using assms(1) that LeafTxPacket_control
    by (fastforce simp: wf_Packet_def Packet_validate_iff map_filter_LeafTxPacket wf_AssetGroup_def)
  with groups show ?thesis by (auto simp: wf_Packet_def)
qed

subsection \<open>Properties\<close>

text \<open>A packet with a transfer of an asset (two inputs, two outputs) and an issuance controlled
  by that group's sibling, used to instantiate the properties.\<close>

definition sample_hash :: bytes where
  "sample_hash = replicate 31 0 @ [7]"

definition sample_id :: AssetId where
  "sample_id = \<lparr>aid_Txid = sample_hash, aid_Index = 3\<rparr>"

definition sample_transfer :: AssetGroup where
  "sample_transfer = \<lparr>grp_AssetId = Some sample_id, grp_ControlAsset = None,
     grp_Outputs = [\<lparr>aout_Type = 1, aout_Vout = 0, aout_Amount = 300\<rparr>,
                    \<lparr>aout_Type = 1, aout_Vout = 1, aout_Amount = 5\<rparr>],
     grp_Inputs = [\<lparr>ain_Type = 1, ain_Vin = 0, ain_Txid = replicate 32 0, ain_Amount = 300\<rparr>,
                   \<lparr>ain_Type = 1, ain_Vin = 1, ain_Txid = replicate 32 0, ain_Amount = 5\<rparr>],
     grp_Metadata = []\<rparr>"

definition sample_issuance :: AssetGroup where
  "sample_issuance = \<lparr>grp_AssetId = None,
     grp_ControlAsset = Some \<lparr>ref_Type = 2, ref_AssetId = zero_AssetId, ref_GroupIndex = 1\<rparr>,
     grp_Outputs = [\<lparr>aout_Type = 1, aout_Vout = 0, aout_Amount = 1000\<rparr>],
     grp_Inputs = [], grp_Metadata = [\<lparr>md_Key = [1], md_Value = [2, 3]\<rparr>]\<rparr>"

lemmas sample_defs = sample_transfer_def sample_issuance_def sample_id_def

lemma sample_hash_ok: "length sample_hash = 32" "sample_hash \<noteq> replicate 32 0"
  by code_simp+

lemmas packet_eval = Packet_validate_iff wf_Packet_def wf_AssetGroup_def AssetGroup_validate_def
  wf_AssetInputs_def wf_AssetOutputs_def wf_MetadataList_def wf_AssetInput_def wf_AssetOutput_def
  wf_Metadata_def wf_AssetId_def wf_AssetRef_def AssetInputs_validate_iff AssetOutputs_validate_iff
  AssetInput_validate_def AssetOutput_validate_def Metadata_validate_def AssetId_validate_def
  AssetRef_validate_def AssetGroup_IsIssuance_def input_types output_types ref_types HashSize_def
  emptyTxHash_def zero_AssetId_def List.map_filter_simps

lemma sample_packet_wf: "wf_Packet [sample_transfer, sample_issuance]"
  by (simp add: sample_defs packet_eval sample_hash_ok)

lemma sample_transfer_wf: "wf_Packet [sample_transfer]"
  by (simp add: sample_defs packet_eval sample_hash_ok)

text \<open>C30: every well-formed packet (any mix of transfers, issuances, reissuances and burns,
  within the limits the decoder enforces) serialises, and parsing the bytes gives back the
  same packet.\<close>

theorem packet_serialize_parse:
  assumes "wf_Packet p"
  shows "\<exists>b. Packet_Serialize p = Inr b \<and> NewPacketFromBytes b = Inr p"
  using assms by (rule Packet_roundtrip)

theorem packet_serialize_parse_witness:
  "\<exists>b. Packet_Serialize [sample_transfer, sample_issuance] = Inr b \<and>
       NewPacketFromBytes b = Inr [sample_transfer, sample_issuance]"
  by (rule packet_serialize_parse [OF sample_packet_wf])

text \<open>whatever bytes a peer sends, a packet that parses is well formed (so it has between
  1 and 1000 groups, no asset listed twice, control references within range), and encoding it
  again gives bytes that parse to the same packet: parsing loses and invents nothing, even from
  a non-canonical encoding.\<close>

theorem packet_parse_normalises:
  assumes "NewPacketFromBytes b = Inr p"
  shows "wf_Packet p \<and> (\<exists>b'. Packet_Serialize p = Inr b' \<and> NewPacketFromBytes b' = Inr p)"
  using NewPacketFromBytes_wf [OF assms] Packet_roundtrip by blast

theorem packet_parse_normalises_witness:
  "\<exists>b. NewPacketFromBytes b = Inr [sample_transfer] \<and>
     (\<exists>b'. Packet_Serialize [sample_transfer] = Inr b' \<and> NewPacketFromBytes b' = Inr [sample_transfer])"
  using Packet_roundtrip [OF sample_transfer_wf] packet_parse_normalises by blast

text \<open>the batch-leaf form of a well-formed packet is itself a well-formed packet, hence
  serialises and parses back, exactly when the packet issues no asset. This is the guard
  \<open>hasIssuance\<close> that the server checks before it builds the leaf.\<close>

theorem leaf_packet_valid_iff_no_issuance:
  assumes "wf_Packet p" and "length h = HashSize" and "h \<noteq> replicate HashSize 0"
  shows "wf_Packet (LeafTxPacket h p) \<longleftrightarrow> \<not> hasIssuance p"
  using assms by (rule LeafTxPacket_wf)

theorem leaf_packet_valid_iff_no_issuance_witness:
  "wf_Packet (LeafTxPacket sample_hash [sample_transfer]) \<and>
   \<not> wf_Packet (LeafTxPacket sample_hash [sample_transfer, sample_issuance])"
proof -
  have h: "length sample_hash = HashSize" "sample_hash \<noteq> replicate HashSize 0"
    by (simp_all add: sample_hash_ok HashSize_def)
  show ?thesis
    using leaf_packet_valid_iff_no_issuance [OF sample_transfer_wf h]
      leaf_packet_valid_iff_no_issuance [OF sample_packet_wf h]
    by (simp add: hasIssuance_def AssetGroup_IsIssuance_def sample_defs)
qed

end
