(* ===== verification/Bitcoin_Tx.thy ===== *)
theory Bitcoin_Tx
  imports Go_Bytes
begin

section \<open>Bitcoin transactions and scripts, as far as the repository reads them\<close>

text \<open>
  The fields of \<open>wire.MsgTx\<close> the code looks at, the anchor script of
  \<open>pkg/ark-lib/txutils/anchor.go\<close> and the script tests of \<open>pkg/ark-lib/script/script.go\<close>.
  The script tokenizer is third-party code: it is an argument \<open>tok\<close> that gives, for a script,
  the list of tokens that successive calls of \<open>Next()\<close> yield before the first one that
  reports false, each with its opcode and its data (\<open>None\<close> for nil).
\<close>

record OutPoint =
  op_Hash :: bytes
  op_Index :: u32

record TxIn =
  in_PreviousOutPoint :: OutPoint

text \<open>\<open>Value\<close> is an \<open>int64\<close>, kept as a 64-bit word and read with \<open>sint\<close>.\<close>

record TxOut =
  out_Value :: u64
  out_PkScript :: bytes

record MsgTx =
  tx_Version :: int
  tx_TxIn :: "TxIn list"
  tx_TxOut :: "TxOut list"

text \<open>A PSBT, as far as the code reads it without signing: the transaction and the unknown fields of each
  input. \<open>psbt.Unknown\<close> is a key with a value.\<close>

record psbt_Unknown =
  un_Key :: bytes
  un_Value :: bytes

record Psbt =
  psbt_UnsignedTx :: MsgTx
  psbt_Unknowns :: "psbt_Unknown list list"

type_synonym token = "u8 \<times> bytes option"
type_synonym tokenizer = "bytes \<Rightarrow> token list"

definition OP_RETURN :: u8 where "OP_RETURN = 0x6a"
definition OP_PUSHDATA1 :: u8 where "OP_PUSHDATA1 = 0x4c"
definition OP_PUSHDATA2 :: u8 where "OP_PUSHDATA2 = 0x4d"
definition OP_PUSHDATA4 :: u8 where "OP_PUSHDATA4 = 0x4e"

definition ANCHOR_PKSCRIPT :: bytes where
  "ANCHOR_PKSCRIPT = [0x51, 0x02, 0x4e, 0x73]"

definition ANCHOR_VALUE :: u64 where
  "ANCHOR_VALUE = 0"

definition AnchorOutput :: TxOut where
  "AnchorOutput = \<lparr>out_Value = ANCHOR_VALUE, out_PkScript = ANCHOR_PKSCRIPT\<rparr>"

definition PubKeyBytesLen :: nat where
  "PubKeyBytesLen = 32"

definition IsSubDustScript :: "tokenizer \<Rightarrow> bytes \<Rightarrow> bool" where
  "IsSubDustScript tok script =
     (case tok script of
        (op, _) # rest \<Rightarrow>
          op = OP_RETURN \<and>
          (case rest of
             (_, Some data) # _ \<Rightarrow> length data = PubKeyBytesLen
           | _ \<Rightarrow> False)
      | [] \<Rightarrow> False)"

end
