(* ===== verification/Asset_Validation.thy ===== *)
theory Asset_Validation
  imports Asset_Packet Bitcoin_Tx
begin

section \<open>Validation of asset transactions\<close>

text \<open>
  \<open>pkg/ark-lib/asset/tx_validation.go\<close>. The map from input index to the assets held by that
  input is an association list, in an order in which Go may iterate over it: the theorems hold
  for every order. The asset source is an interface implemented by the database; it is a record
  of its two methods, or \<open>None\<close> for a nil interface. The transaction hash is third-party code
  and an argument. A typed error of \<open>pkg/errors\<close> is its code, its cause and the metadata.
\<close>

datatype ErrorCode =
    INTERNAL_ERROR | INVALID_ARK_PSBT | INVALID_CHECKPOINT_PSBT | INVALID_PSBT_MISSING_INPUT
  | VTXO_ALREADY_REGISTERED | INVALID_PSBT_INPUT | VTXO_ALREADY_SPENT | VTXO_ALREADY_UNROLLED
  | VTXO_RECOVERABLE | OFFCHAIN_TX_SPENDING_NOTE | INVALID_VTXO_SCRIPT | FORFEIT_CLOSURE_LOCKED
  | ARK_TX_INPUT_NOT_SIGNED | MALFORMED_ARK_TX | AMOUNT_TOO_HIGH | AMOUNT_TOO_LOW
  | CHECKPOINT_MISMATCH | ARK_TX_MISMATCH | INVALID_SIGNATURE | TX_NOT_FOUND
  | VTXO_BANNED | VTXO_NOT_FOUND | ASSET_VALIDATION_FAILED | ASSET_NOT_FOUND
  | ASSET_INPUT_INVALID | ASSET_OUTPUT_INVALID | CONTROL_ASSET_INVALID | TX_TOO_LARGE
  | VTXO_WITH_TOO_MANY_ASSETS

record ArkError =
  ae_Code :: ErrorCode
  ae_Cause :: go_error
  ae_AssetID :: string
  ae_Index :: int

type_synonym 'a arkres = "(ArkError, 'a) res"

definition Code_New :: "ErrorCode \<Rightarrow> string \<Rightarrow> ArkError" where
  "Code_New c msg = \<lparr>ae_Code = c, ae_Cause = Errorf msg, ae_AssetID = [], ae_Index = 0\<rparr>"

definition Code_Wrap :: "ErrorCode \<Rightarrow> go_error \<Rightarrow> ArkError" where
  "Code_Wrap c cause = \<lparr>ae_Code = c, ae_Cause = cause, ae_AssetID = [], ae_Index = 0\<rparr>"

record Asset =
  ast_AssetId :: string
  ast_Amount :: u64

record AssetSource =
  src_GetControlAsset :: "string \<Rightarrow> string gores"
  src_AssetExists :: "string \<Rightarrow> bool"

type_synonym prevouts = "(int \<times> Asset list) list"

definition findAssetGroupByAssetId :: "Packet \<Rightarrow> string \<Rightarrow> AssetGroup option" where
  "findAssetGroupByAssetId packet assetId =
     find (\<lambda>g. case grp_AssetId g of None \<Rightarrow> False | Some a \<Rightarrow> AssetId_String a = assetId) packet"

text \<open>Of the reissuance group only the identifier is read.\<close>

definition validateReissuance ::
    "Packet \<Rightarrow> AssetId \<Rightarrow> AssetSource option \<Rightarrow> unit arkres" where
  "validateReissuance packet groupId assetSrc =
     (case assetSrc of
        None \<Rightarrow> Inl (Code_New ASSET_VALIDATION_FAILED
                  ''control asset source is nil, cannot validate reissuance'')
      | Some src \<Rightarrow>
          let assetID = AssetId_String groupId
          in case src_GetControlAsset src assetID of
               Inl err \<Rightarrow> Inl ((Code_Wrap ASSET_VALIDATION_FAILED err)\<lparr>ae_AssetID := assetID\<rparr>)
             | Inr ctrlAssetID \<Rightarrow>
                 guard_err (length ctrlAssetID = 0)
                   ((Code_New CONTROL_ASSET_INVALID
                      (''asset '' @ assetID @ '' does not have a control asset''))
                    \<lparr>ae_AssetID := assetID\<rparr>)
                   (case findAssetGroupByAssetId packet ctrlAssetID of
                      None \<Rightarrow>
                        Inl ((Code_New ASSET_NOT_FOUND
                          (''control asset '' @ ctrlAssetID @ '' not found in the packet''))
                          \<lparr>ae_AssetID := ctrlAssetID\<rparr>)
                    | Some controlAssetGroup \<Rightarrow>
                        guard_err (length (grp_Inputs controlAssetGroup) = 0)
                          ((Code_New CONTROL_ASSET_INVALID
                            (''control asset '' @ ctrlAssetID @ '' is not spent in the tx''))
                            \<lparr>ae_AssetID := ctrlAssetID\<rparr>)
                          (Inr ())))"

definition validateIssuance :: "Packet \<Rightarrow> AssetGroup \<Rightarrow> AssetSource option \<Rightarrow> unit arkres" where
  "validateIssuance packet grp assetSrc =
     (case grp_ControlAsset grp of
        None \<Rightarrow> Inr ()
      | Some ctrl \<Rightarrow>
          if ref_Type ctrl = AssetRefByID then
            (let id = AssetId_String (ref_AssetId ctrl)
             in case assetSrc of
                  None \<Rightarrow> Inl ((Code_New ASSET_VALIDATION_FAILED
                             ''asset source is nil, cannot validate issuance by id'')\<lparr>ae_AssetID := id\<rparr>)
                | Some src \<Rightarrow>
                    guard_err (\<not> src_AssetExists src id)
                      ((Code_New ASSET_VALIDATION_FAILED (''control asset '' @ id @ '' does not exist''))
                        \<lparr>ae_AssetID := id\<rparr>)
                      (Inr ()))
          else if ref_Type ctrl = AssetRefByGroup then
            guard_err (unat (ref_GroupIndex ctrl) \<ge> length packet)
              (Code_New ASSET_VALIDATION_FAILED (''control asset group index '' @
                 dec_string (unat (ref_GroupIndex ctrl)) @ '' out of range''))
              (let controlAssetGroup = packet ! unat (ref_GroupIndex ctrl)
               in guard_err (\<not> AssetGroup_IsIssuance controlAssetGroup)
                    (Code_New ASSET_VALIDATION_FAILED
                      (''control asset referenced by group index '' @
                       dec_string (unat (ref_GroupIndex ctrl)) @ '' is not an issuance''))
                    (Inr ()))
          else Inl (Code_New ASSET_VALIDATION_FAILED
                 ''invalid control asset reference type for issuance''))"

text \<open>The body of the inner loop of \<open>validateInputAssets\<close>, for one asset of one input. The
  index is cut to 16 bits, as the code does.\<close>

definition validateInputAsset :: "Packet \<Rightarrow> int \<Rightarrow> Asset \<Rightarrow> unit arkres" where
  "validateInputAsset packet inputIndex asst =
     (case findAssetGroupByAssetId packet (ast_AssetId asst) of
        None \<Rightarrow>
          Inl ((Code_New ASSET_NOT_FOUND
            (''input '' @ dec_string (nat inputIndex) @ '' owns asset '' @ ast_AssetId asst @
             '' but it's not present in the packet''))\<lparr>ae_AssetID := ast_AssetId asst\<rparr>)
      | Some assetGroup \<Rightarrow>
          (case find (\<lambda>input. ain_Vin input = word_of_int inputIndex) (grp_Inputs assetGroup) of
             None \<Rightarrow>
               Inl ((Code_New ASSET_INPUT_INVALID
                 (''input '' @ dec_string (nat inputIndex) @ '' owns asset '' @ ast_AssetId asst @
                  '' but it's not present in the asset group inputs''))
                 \<lparr>ae_AssetID := ast_AssetId asst\<rparr>)
           | Some input \<Rightarrow>
               guard_err (ain_Amount input \<noteq> ast_Amount asst)
                 ((Code_New ASSET_INPUT_INVALID
                   (''input '' @ dec_string (nat inputIndex) @ '' owns asset '' @ ast_AssetId asst @
                    '' but amount mismatch: '' @ dec_string (unat (ain_Amount input)) @ '' != '' @
                    dec_string (unat (ast_Amount asst))))\<lparr>ae_AssetID := ast_AssetId asst\<rparr>)
                 (Inr ())))"

definition validateInputAssets :: "prevouts \<Rightarrow> Packet \<Rightarrow> unit arkres" where
  "validateInputAssets assetPrevouts packet =
     check_all (\<lambda>(inputIndex, assets). check_all (validateInputAsset packet inputIndex) assets)
       assetPrevouts"

text \<open>The first loop of \<open>validateGroupOutputs\<close>: the index of the last anchor output (-1 if
  none) and the indices of the OP\_RETURN outputs.\<close>

fun scan_outputs :: "nat \<Rightarrow> TxOut list \<Rightarrow> int \<times> nat set \<Rightarrow> int \<times> nat set" where
  "scan_outputs i [] acc = acc"
| "scan_outputs i (out # outs) (anchorIndex, opReturns) =
     scan_outputs (Suc i) outs
       (if out_PkScript out = ANCHOR_PKSCRIPT then (int i, opReturns)
        else if HasPrefix (out_PkScript out) [OP_RETURN] then (anchorIndex, insert i opReturns)
        else (anchorIndex, opReturns))"

definition validateGroupOutputs ::
    "tokenizer \<Rightarrow> MsgTx \<Rightarrow> string \<Rightarrow> AssetGroup \<Rightarrow> unit arkres" where
  "validateGroupOutputs tok arkTx assetID grp =
     (if length (grp_Outputs grp) = 0 then Inr ()
      else let (anchorIndex, opReturns) = scan_outputs 0 (tx_TxOut arkTx) (-1, {})
      in check_all (\<lambda>assetOut.
           let vout = unat (aout_Vout assetOut);
               err = (\<lambda>msg. (Code_New ASSET_OUTPUT_INVALID (''asset output vout '' @ dec_string vout @ msg))
                        \<lparr>ae_AssetID := assetID, ae_Index := int vout\<rparr>)
           in guard_err (vout \<ge> length (tx_TxOut arkTx))
                (err ('' out of range ('' @ dec_string (length (tx_TxOut arkTx)) @ '' outputs)''))
                (guard_err (int vout = anchorIndex) (err '' is an anchor output'')
                  (guard_err
                     (vout \<in> opReturns \<and> \<not> IsSubDustScript tok (out_PkScript (tx_TxOut arkTx ! vout)))
                     (err '' is OP_RETURN'') (Inr ()))))
         (grp_Outputs grp))"

definition validateGroupInput ::
    "MsgTx \<Rightarrow> string \<Rightarrow> prevouts \<Rightarrow> nat \<Rightarrow> AssetInput \<Rightarrow> unit arkres" where
  "validateGroupInput arkTx assetID inputAssets i input =
     (let err = (\<lambda>msg. (Code_New ASSET_INPUT_INVALID msg)
                    \<lparr>ae_AssetID := assetID, ae_Index := uint (ain_Vin input)\<rparr>)
      in guard_err (ain_Type input = AssetInputTypeIntent)
           (err (''unexpected asset input type: '' @ AssetInputType_String (ain_Type input)))
           (guard_err (unat (ain_Vin input) \<ge> length (tx_TxIn arkTx))
             (err (''asset input index out of range: '' @ dec_string (unat (ain_Vin input)) @ '' ('' @
                   dec_string (length (tx_TxIn arkTx)) @ '' inputs)''))
             (case map_of inputAssets (uint (ain_Vin input)) of
                None \<Rightarrow> Inl (err (''asset input '' @ dec_string i @ '' references input '' @
                          dec_string (unat (ain_Vin input)) @ '' which does not contain any assets''))
              | Some assets \<Rightarrow>
                  (case find (\<lambda>asst. ast_AssetId asst = assetID) assets of
                     None \<Rightarrow> Inl (err (''asset input '' @ dec_string i @
                               '' references input with asset '' @ assetID @
                               '' but asset not found in tx input '' @ dec_string (unat (ain_Vin input))))
                   | Some asst \<Rightarrow>
                       guard_err (ast_Amount asst \<noteq> ain_Amount input)
                         (err (''asset input '' @ dec_string i @ '' references input with asset '' @
                               assetID @ '' but amount mismatch: '' @ dec_string (unat (ast_Amount asst)) @
                               '' != '' @ dec_string (unat (ain_Amount input))))
                         (Inr ())))))"

definition validateGroupInputs ::
    "MsgTx \<Rightarrow> string \<Rightarrow> prevouts \<Rightarrow> AssetGroup \<Rightarrow> unit arkres" where
  "validateGroupInputs arkTx assetID inputAssets grp =
     check_all (\<lambda>(i, input). validateGroupInput arkTx assetID inputAssets i input)
       (List.enumerate 0 (grp_Inputs grp))"

text \<open>The loop of \<open>ValidateAssetTransaction\<close> that looks for the serialised packet in an
  OP\_RETURN output.\<close>

definition packet_in_outputs :: "bytes \<Rightarrow> TxOut list \<Rightarrow> bool" where
  "packet_in_outputs serializedPacket outs \<longleftrightarrow>
     (\<exists>out \<in> set outs. HasPrefix (out_PkScript out) [OP_RETURN] \<and>
        Contains (out_PkScript out) serializedPacket)"

text \<open>The body of its main loop, for the group at position \<open>groupIndex\<close>.\<close>

definition validateGroup ::
    "(MsgTx \<Rightarrow> bytes) \<Rightarrow> tokenizer \<Rightarrow> MsgTx \<Rightarrow> Packet \<Rightarrow> prevouts \<Rightarrow> AssetSource option
     \<Rightarrow> nat \<Rightarrow> AssetGroup \<Rightarrow> unit arkres" where
  "validateGroup txHash tok tx packet assetPrevouts assetSrc groupIndex grp =
     rbind
       (case grp_AssetId grp of
          None \<Rightarrow>
            rbind (validateIssuance packet grp assetSrc) (\<lambda>_.
              Inr (AssetId_String \<lparr>aid_Txid = txHash tx, aid_Index = of_nat groupIndex\<rparr>))
        | Some a \<Rightarrow> Inr (AssetId_String a)) (\<lambda>assetId.
     rbind
       (case grp_AssetId grp of
          Some a \<Rightarrow> if AssetGroup_IsReissuance grp then validateReissuance packet a assetSrc
                    else Inr ()
        | None \<Rightarrow> Inr ()) (\<lambda>_.
     rbind (validateGroupOutputs tok tx assetId grp) (\<lambda>_.
       validateGroupInputs tx assetId assetPrevouts grp)))"

definition ValidateAssetTransaction ::
    "(MsgTx \<Rightarrow> bytes) \<Rightarrow> (MsgTx \<Rightarrow> string) \<Rightarrow> tokenizer \<Rightarrow> MsgTx \<Rightarrow> Packet \<Rightarrow> prevouts
     \<Rightarrow> AssetSource option \<Rightarrow> unit arkres" where
  "ValidateAssetTransaction txHash txID tok tx packet assetPrevouts assetSrc =
     guard_err (length packet = 0 \<and> length assetPrevouts > 0)
       (Code_New ASSET_VALIDATION_FAILED (''asset packet not found in tx '' @ txID tx))
       (rbind
         (if length packet > 0 then
            (case Packet_Serialize packet of
               Inl err \<Rightarrow> Inl (Code_Wrap ASSET_VALIDATION_FAILED err)
             | Inr serializedPacket \<Rightarrow>
                 guard_err (\<not> packet_in_outputs serializedPacket (tx_TxOut tx))
                   (Code_New ASSET_VALIDATION_FAILED
                     (''asset packet not found in extension output for tx '' @ txID tx))
                   (Inr ()))
          else Inr ()) (\<lambda>_.
         rbind (validateInputAssets assetPrevouts packet) (\<lambda>_.
           check_all (\<lambda>(groupIndex, grp).
               validateGroup txHash tok tx packet assetPrevouts assetSrc groupIndex grp)
             (List.enumerate 0 packet))))"

text \<open>The amount of an asset held by the spent outputs: what the transaction may move.\<close>

definition held :: "string \<Rightarrow> prevouts \<Rightarrow> int" where
  "held assetID pre =
     sum_list (map (\<lambda>(k, assets). sum_list (map (\<lambda>x. if ast_AssetId x = assetID
       then uint (ast_Amount x) else 0) assets)) pre)"

subsection \<open>What a validated transaction satisfies\<close>

lemma safeSumUint64_sum_list: "safeSumUint64 vs = sum_list (map uint vs)"
  by (induction vs) auto

lemma validated_tx:
  assumes "ValidateAssetTransaction txHash txID tok tx packet pre src = Inr ()"
  shows "validateInputAssets pre packet = Inr ()"
    and "i < length packet \<Longrightarrow> validateGroup txHash tok tx packet pre src i (packet ! i) = Inr ()"
  using assms
  by (simp_all add: ValidateAssetTransaction_def rbind_eq_Inr guard_err_eq_Inr check_all_enumerate)

lemma validated_group:
  assumes "ValidateAssetTransaction txHash txID tok tx packet pre src = Inr ()"
    and "g \<in> set packet" and "grp_AssetId g = Some a"
  shows "validateGroupOutputs tok tx (AssetId_String a) g = Inr ()"
    and "validateGroupInputs tx (AssetId_String a) pre g = Inr ()"
    and "AssetGroup_IsReissuance g \<Longrightarrow> validateReissuance packet a src = Inr ()"
proof -
  from assms(2) obtain i where "i < length packet" and "packet ! i = g"
    by (auto simp: in_set_conv_nth)
  with validated_tx(2) [OF assms(1)] assms(3)
  show "validateGroupOutputs tok tx (AssetId_String a) g = Inr ()"
    and "validateGroupInputs tx (AssetId_String a) pre g = Inr ()"
    and "AssetGroup_IsReissuance g \<Longrightarrow> validateReissuance packet a src = Inr ()"
    by (fastforce simp: validateGroup_def res_elims)+
qed

lemma map_filter_distinct_unique:
  assumes "distinct (List.map_filter f xs)" and "x \<in> set xs" and "y \<in> set xs"
    and "f x = Some v" and "f y = Some v"
  shows "x = y"
proof -
  have mem: "z \<in> set zs \<Longrightarrow> f z = Some v \<Longrightarrow> v \<in> set (List.map_filter f zs)" for z zs
    by (force simp: map_filter_def)
  from assms mem show ?thesis
    by (induction xs) (auto simp: List.map_filter_simps split: option.splits)
qed

lemma findAssetGroup_unique:
  assumes "wf_Packet packet" and "g \<in> set packet" and "grp_AssetId g = Some a"
  shows "findAssetGroupByAssetId packet (AssetId_String a) = Some g"
proof -
  let ?P = "\<lambda>g. case grp_AssetId g of None \<Rightarrow> False | Some b \<Rightarrow> AssetId_String b = AssetId_String a"
  have wf: "grp_AssetId h = Some b \<Longrightarrow> h \<in> set packet \<Longrightarrow> wf_AssetId b" for h b
    using assms(1) by (auto simp: wf_Packet_def wf_AssetGroup_def)
  have only: "h = g" if "h \<in> set packet" and "?P h" for h
  proof -
    from that obtain b where b: "grp_AssetId h = Some b" "AssetId_String b = AssetId_String a"
      by (auto split: option.splits)
    with wf that assms(2,3) have "b = a" using AssetId_String_inject by blast
    with b that assms show ?thesis
      using map_filter_distinct_unique [of grp_AssetId packet h g a]
      by (auto simp: wf_Packet_def Packet_validate_iff)
  qed
  have "?P g" using assms(3) by simp
  with assms(2) obtain h where h: "find ?P packet = Some h"
    by (cases "find ?P packet") (auto simp: find_None_iff)
  then have "h \<in> set packet" and "?P h" by (auto simp: find_Some_iff)
  with only h show ?thesis by (simp add: findAssetGroupByAssetId_def)
qed

lemma group_input_backed:
  assumes "validateGroupInputs tx assetID pre g = Inr ()" and "i \<in> set (grp_Inputs g)"
  shows "unat (ain_Vin i) < length (tx_TxIn tx) \<and>
    (\<exists>assets x. map_of pre (uint (ain_Vin i)) = Some assets \<and>
      find (\<lambda>x. ast_AssetId x = assetID) assets = Some x \<and> ast_Amount x = ain_Amount i)"
proof -
  from assms(2) obtain n where "n < length (grp_Inputs g)" and "grp_Inputs g ! n = i"
    by (auto simp: in_set_conv_nth)
  with assms(1) have "validateGroupInput tx assetID pre n i = Inr ()"
    by (auto simp: validateGroupInputs_def check_all_enumerate)
  then show ?thesis
    by (auto simp: validateGroupInput_def Let_def res_elims split: option.splits)
qed

lemma prevout_asset_accounted:
  assumes "validateInputAssets pre packet = Inr ()" and "(k, assets) \<in> set pre" and "x \<in> set assets"
    and "findAssetGroupByAssetId packet (ast_AssetId x) = Some g"
  shows "\<exists>i \<in> set (grp_Inputs g). ain_Vin i = word_of_int k \<and> ain_Amount i = ast_Amount x"
proof -
  from assms have "validateInputAsset packet k x = Inr ()"
    by (auto simp: validateInputAssets_def res_elims)
  with assms(4) show ?thesis
    by (auto simp: validateInputAsset_def res_elims find_Some_iff split: option.splits)
qed

lemma sum_matching_find:
  assumes "distinct (map ast_AssetId assets)"
  shows "sum_list (map (\<lambda>x. if ast_AssetId x = d then uint (ast_Amount x) else 0) assets) =
    (case find (\<lambda>x. ast_AssetId x = d) assets of None \<Rightarrow> 0 | Some x \<Rightarrow> uint (ast_Amount x))"
  using assms
proof (induction assets)
  case (Cons y assets)
  have "sum_list (map (\<lambda>x. if ast_AssetId x = d then uint (ast_Amount x) else 0) assets) = 0"
    if "ast_AssetId y = d"
    using Cons.prems that by (induction assets) auto
  with Cons show ?case by (auto split: option.splits)
qed simp

lemma group_inputs_sum:
  assumes valid: "validateInputAssets pre packet = Inr ()"
    and group_ok: "validateGroupInputs tx (AssetId_String a) pre g = Inr ()"
    and wf: "wf_Packet packet" "g \<in> set packet" "grp_AssetId g = Some a"
    and keys: "distinct (map fst pre)" "\<forall>k \<in> fst ` set pre. 0 \<le> k \<and> k < 2 ^ 16"
    and ids: "\<forall>(k, assets) \<in> set pre. distinct (map ast_AssetId assets)"
  shows "safeSumUint64 (map ain_Amount (grp_Inputs g)) = held (AssetId_String a) pre"
proof -
  define d where "d = AssetId_String a"
  define A where "A = (\<lambda>assets :: Asset list. sum_list (map (\<lambda>x. if ast_AssetId x = d then uint (ast_Amount x) else 0) assets))"
  define F where "F = (\<lambda>k. case map_of pre k of None \<Rightarrow> 0 | Some assets \<Rightarrow> A assets)"
  have A_find: "A assets = (case find (\<lambda>x. ast_AssetId x = d) assets of None \<Rightarrow> 0 | Some x \<Rightarrow> uint (ast_Amount x))"
    if "(k, assets) \<in> set pre" for k assets
    using ids that unfolding A_def by (intro sum_matching_find) auto
  have "held d pre = sum_list (map F (map fst pre))"
    unfolding held_def F_def using keys(1)
    by (auto simp: A_def intro!: arg_cong [of _ _ sum_list])
  then have held: "held d pre = sum F (fst ` set pre)"
    using keys(1) by (simp only: sum_list_distinct_conv_sum_set set_map)
  have amount: "uint (ain_Amount i) = F (uint (ain_Vin i)) \<and> uint (ain_Vin i) \<in> fst ` set pre"
    if "i \<in> set (grp_Inputs g)" for i
  proof -
    from group_input_backed [OF group_ok that] obtain assets x where
      m: "map_of pre (uint (ain_Vin i)) = Some assets"
      and f: "find (\<lambda>x. ast_AssetId x = d) assets = Some x" "ast_Amount x = ain_Amount i"
      by (auto simp: d_def)
    from m have mem: "(uint (ain_Vin i), assets) \<in> set pre" by (rule map_of_SomeD)
    from m f A_find [OF mem] have "uint (ain_Amount i) = F (uint (ain_Vin i))"
      by (simp add: F_def)
    moreover from mem have "uint (ain_Vin i) \<in> fst ` set pre" by force
    ultimately show ?thesis by blast
  qed
  let ?vins = "map ain_Vin (grp_Inputs g)"
  have dist: "distinct ?vins"
    using wf by (auto simp: wf_Packet_def wf_AssetGroup_def wf_AssetInputs_def AssetInputs_validate_iff)
  have "safeSumUint64 (map ain_Amount (grp_Inputs g)) = sum_list (map (\<lambda>v. F (uint v)) ?vins)"
    using amount by (simp add: safeSumUint64_sum_list comp_def cong: map_cong)
  also have "\<dots> = sum F (uint ` set ?vins)"
    using dist by (simp only: sum_list_distinct_conv_sum_set)
      (subst sum.reindex, auto simp: inj_on_def word_eq_iff_unsigned [where 'a = int])
  also have "\<dots> = sum F (fst ` set pre)"
  proof (rule sum.mono_neutral_left)
    show "uint ` set ?vins \<subseteq> fst ` set pre" using amount by auto
    show "\<forall>k \<in> fst ` set pre - uint ` set ?vins. F k = 0"
    proof
      fix k
      assume k: "k \<in> fst ` set pre - uint ` set ?vins"
      then obtain assets where mem: "(k, assets) \<in> set pre" by auto
      have "find (\<lambda>x. ast_AssetId x = d) assets = None"
      proof (rule ccontr)
        assume "find (\<lambda>x. ast_AssetId x = d) assets \<noteq> None"
        then obtain x where x: "x \<in> set assets" "ast_AssetId x = d" by (auto simp: find_None_iff)
        with findAssetGroup_unique [OF wf] prevout_asset_accounted [OF valid mem x(1)]
        obtain i where i: "i \<in> set (grp_Inputs g)" "ain_Vin i = word_of_int k"
          by (auto simp: d_def)
        have "0 \<le> k" and "k < 2 ^ 16" using keys(2) mem by force+
        then have "uint (ain_Vin i) = k" by (simp add: i(2) uint_word_of_int_eq take_bit_int_eq_self)
        with i(1) k show False by auto
      qed
      with A_find [OF mem] have "A assets = 0" by simp
      with mem keys(1) show "F k = 0" by (simp add: F_def)
    qed
  qed simp
  finally show ?thesis using held by (simp add: d_def)
qed

lemma anchor_not_op_return: "\<not> HasPrefix ANCHOR_PKSCRIPT [OP_RETURN]"
  by (simp add: HasPrefix_def ANCHOR_PKSCRIPT_def OP_RETURN_def)

lemma scan_outputs_ops_mono: "x \<in> snd acc \<Longrightarrow> x \<in> snd (scan_outputs n outs acc)"
  by (induction n outs acc rule: scan_outputs.induct) auto

lemma scan_outputs_ops:
  assumes "j < length outs" and "HasPrefix (out_PkScript (outs ! j)) [OP_RETURN]"
  shows "n + j \<in> snd (scan_outputs n outs acc)"
  using assms
proof (induction n outs acc arbitrary: j rule: scan_outputs.induct)
  case (2 i out outs anc ops)
  show ?case
  proof (cases j)
    case 0
    with "2.prems" have "out_PkScript out \<noteq> ANCHOR_PKSCRIPT"
      using anchor_not_op_return by auto
    with 0 "2.prems" show ?thesis by (simp add: scan_outputs_ops_mono)
  next
    case (Suc k)
    with "2.prems" "2.IH" [of k] show ?thesis by simp
  qed
qed simp

lemma scan_outputs_anchor:
  "fst (scan_outputs n outs acc) =
     (if \<exists>o' \<in> set outs. out_PkScript o' = ANCHOR_PKSCRIPT
      then int (n + Max {j. j < length outs \<and> out_PkScript (outs ! j) = ANCHOR_PKSCRIPT})
      else fst acc)"
proof (induction outs arbitrary: n acc rule: rev_induct)
  case Nil
  then show ?case by (cases acc) simp
next
  case (snoc out outs)
  have app: "scan_outputs n (outs @ [out]) acc = scan_outputs (n + length outs) [out] (scan_outputs n outs acc)"
    for n acc by (induction n outs acc rule: scan_outputs.induct) auto
  let ?J = "\<lambda>xs. {j. j < length xs \<and> out_PkScript (xs ! j) = ANCHOR_PKSCRIPT}"
  obtain a b where ab: "scan_outputs n outs acc = (a, b)" by fastforce
  have fin: "finite (?J xs)" for xs by simp
  show ?case
  proof (cases "out_PkScript out = ANCHOR_PKSCRIPT")
    case True
    have "Max (?J (outs @ [out])) = length outs"
      using True by (intro Max_eqI) (auto simp: nth_append split: if_splits)
    with True ab show ?thesis by (simp add: app)
  next
    case False
    then have "?J (outs @ [out]) = ?J outs" by (auto simp: nth_append less_Suc_eq)
    with False ab snoc [of n acc] show ?thesis by (simp add: app)
  qed
qed

lemma validateReissuance_Inr:
  assumes "validateReissuance packet a src = Inr ()"
  shows "\<exists>s ctrl cg. src = Some s \<and> src_GetControlAsset s (AssetId_String a) = Inr ctrl \<and> ctrl \<noteq> [] \<and>
    findAssetGroupByAssetId packet ctrl = Some cg \<and> grp_Inputs cg \<noteq> []"
  using assms
  by (auto simp: validateReissuance_def Let_def guard_err_eq_Inr split: option.splits sum.splits)

lemma control_asset_spent:
  assumes valid: "ValidateAssetTransaction txHash txID tok tx packet pre src = Inr ()"
    and "validateReissuance packet a src = Inr ()"
  shows "\<exists>s ctrl k assets x. src = Some s \<and> src_GetControlAsset s (AssetId_String a) = Inr ctrl \<and>
    (k, assets) \<in> set pre \<and> x \<in> set assets \<and> ast_AssetId x = ctrl"
proof -
  from validateReissuance_Inr [OF assms(2)] obtain s ctrl cg where src: "src = Some s"
    "src_GetControlAsset s (AssetId_String a) = Inr ctrl"
    and cg: "findAssetGroupByAssetId packet ctrl = Some cg" "grp_Inputs cg \<noteq> []" by blast
  from cg(1) obtain c where c: "cg \<in> set packet" "grp_AssetId cg = Some c" "AssetId_String c = ctrl"
    by (auto simp: findAssetGroupByAssetId_def find_Some_iff split: option.splits)
  from cg(2) obtain i where i: "i \<in> set (grp_Inputs cg)" by fastforce
  from group_input_backed [OF validated_group(2) [OF valid c(1,2)] i] c(3) obtain assets x where
    "map_of pre (uint (ain_Vin i)) = Some assets" "find (\<lambda>x. ast_AssetId x = ctrl) assets = Some x"
    by blast
  then have "(uint (ain_Vin i), assets) \<in> set pre" "x \<in> set assets" "ast_AssetId x = ctrl"
    by (auto simp: find_Some_iff dest: map_of_SomeD)
  with src show ?thesis by blast
qed

lemma output_lands:
  assumes "validateGroupOutputs tok tx d g = Inr ()" and "o' \<in> set (grp_Outputs g)"
  shows "unat (aout_Vout o') < length (tx_TxOut tx) \<and>
    int (unat (aout_Vout o')) \<noteq> fst (scan_outputs 0 (tx_TxOut tx) (-1, {})) \<and>
    (unat (aout_Vout o') \<in> snd (scan_outputs 0 (tx_TxOut tx) (-1, {})) \<longrightarrow>
       IsSubDustScript tok (out_PkScript (tx_TxOut tx ! unat (aout_Vout o'))))"
  using assms
  by (auto simp: validateGroupOutputs_def Let_def check_all_eq_Inr guard_err_eq_Inr
      split: if_splits prod.splits)

subsection \<open>Properties of validated transactions\<close>

definition sample_prevouts :: prevouts where
  "sample_prevouts = [(1, [\<lparr>ast_AssetId = AssetId_String sample_id, ast_Amount = 5\<rparr>]),
     (0, [\<lparr>ast_AssetId = AssetId_String sample_id, ast_Amount = 300\<rparr>])]"

definition sample_packet_bytes :: bytes where
  "sample_packet_bytes = (case Packet_Serialize [sample_transfer] of Inl _ \<Rightarrow> [] | Inr b \<Rightarrow> b)"

definition sample_tx :: MsgTx where
  "sample_tx =
     (let txin = \<lparr>in_PreviousOutPoint = \<lparr>op_Hash = sample_hash, op_Index = 0\<rparr>\<rparr>
      in \<lparr>tx_Version = 3, tx_TxIn = [txin, txin],
          tx_TxOut = [\<lparr>out_Value = 330, out_PkScript = [0x51, 1]\<rparr>,
                      \<lparr>out_Value = 330, out_PkScript = [0x51, 2]\<rparr>,
                      \<lparr>out_Value = 0, out_PkScript = OP_RETURN # sample_packet_bytes\<rparr>,
                      AnchorOutput]\<rparr>)"

lemma sample_tx_valid:
  "ValidateAssetTransaction (\<lambda>_. sample_hash) (\<lambda>_. []) (\<lambda>_. []) sample_tx [sample_transfer]
     sample_prevouts None = Inr ()"
  by code_simp

text \<open>C9: in a transaction that passes validation, the inputs of every transfer group add up to
  exactly the amount of that asset the spent outputs hold, and a group that sends out more than
  is held (a reissuance) is accepted only if the asset has a control asset and one of the spent
  outputs holds that control asset: no asset is inflated without its control asset.\<close>

theorem no_unauthorised_inflation:
  assumes "ValidateAssetTransaction txHash txID tok tx packet pre src = Inr ()"
    and "wf_Packet packet" and "g \<in> set packet" and "grp_AssetId g = Some a"
    and "distinct (map fst pre)" and "\<forall>k \<in> fst ` set pre. 0 \<le> k \<and> k < 2 ^ 16"
    and "\<forall>(k, assets) \<in> set pre. distinct (map ast_AssetId assets)"
  shows "safeSumUint64 (map ain_Amount (grp_Inputs g)) = held (AssetId_String a) pre \<and>
    (safeSumUint64 (map aout_Amount (grp_Outputs g)) \<le> held (AssetId_String a) pre \<or>
     (\<exists>s ctrl k assets x. src = Some s \<and> src_GetControlAsset s (AssetId_String a) = Inr ctrl \<and>
        (k, assets) \<in> set pre \<and> x \<in> set assets \<and> ast_AssetId x = ctrl))"
proof -
  have eq: "safeSumUint64 (map ain_Amount (grp_Inputs g)) = held (AssetId_String a) pre"
    using group_inputs_sum [OF validated_tx(1) [OF assms(1)] validated_group(2) [OF assms(1,3,4)]]
      assms by blast
  show ?thesis
  proof (cases "AssetGroup_IsReissuance g")
    case True
    with validated_group(3) [OF assms(1,3,4)] control_asset_spent [OF assms(1)] eq
    show ?thesis by blast
  next
    case False
    with eq assms(4) show ?thesis
      by (auto simp: AssetGroup_IsReissuance_def AssetGroup_IsIssuance_def)
  qed
qed

theorem no_unauthorised_inflation_witness:
  "safeSumUint64 (map ain_Amount (grp_Inputs sample_transfer)) =
     held (AssetId_String sample_id) sample_prevouts \<and>
   safeSumUint64 (map aout_Amount (grp_Outputs sample_transfer)) \<le>
     held (AssetId_String sample_id) sample_prevouts"
proof -
  have "grp_AssetId sample_transfer = Some sample_id" by (simp add: sample_transfer_def)
  then show ?thesis
    using no_unauthorised_inflation [OF sample_tx_valid sample_transfer_wf, of sample_transfer sample_id]
    by (simp add: sample_prevouts_def)
qed

text \<open>C11: no asset held by a spent output is dropped in silence: after validation every one of
  them is listed in the packet, under the group of its own identifier, as an input with the
  index of that output and the exact amount it holds.\<close>

theorem spent_assets_accounted:
  assumes "ValidateAssetTransaction txHash txID tok tx packet pre src = Inr ()"
    and "(k, assets) \<in> set pre" and "x \<in> set assets"
  shows "\<exists>g \<in> set packet. \<exists>a. grp_AssetId g = Some a \<and> AssetId_String a = ast_AssetId x \<and>
    (\<exists>i \<in> set (grp_Inputs g). ain_Vin i = word_of_int k \<and> ain_Amount i = ast_Amount x)"
proof -
  note valid = validated_tx(1) [OF assms(1)]
  from valid assms(2,3) have "validateInputAsset packet k x = Inr ()"
    by (auto simp: validateInputAssets_def check_all_eq_Inr)
  then obtain g where g: "findAssetGroupByAssetId packet (ast_AssetId x) = Some g"
    by (auto simp: validateInputAsset_def split: option.splits)
  then have "g \<in> set packet \<and> (\<exists>a. grp_AssetId g = Some a \<and> AssetId_String a = ast_AssetId x)"
    by (auto simp: findAssetGroupByAssetId_def find_Some_iff split: option.splits)
  with prevout_asset_accounted [OF valid assms(2,3) g] show ?thesis by blast
qed

theorem spent_assets_accounted_witness:
  "\<exists>g \<in> set [sample_transfer]. \<exists>a. grp_AssetId g = Some a \<and>
     AssetId_String a = AssetId_String sample_id \<and>
     (\<exists>i \<in> set (grp_Inputs g). ain_Vin i = word_of_int 0 \<and> ain_Amount i = 300)"
  using spent_assets_accounted [OF sample_tx_valid, of 0
      "[\<lparr>ast_AssetId = AssetId_String sample_id, ast_Amount = 300\<rparr>]"
      "\<lparr>ast_AssetId = AssetId_String sample_id, ast_Amount = 300\<rparr>"]
  by (simp add: sample_prevouts_def)

text \<open>in a validated transaction, every asset output of a transfer group lands on an
  existing output that is not an OP\_RETURN, unless that is a sub-dust output, and is not the
  anchor, provided the transaction has at most one anchor output (the code remembers only the
  index of the last one).\<close>

theorem asset_outputs_land:
  assumes "ValidateAssetTransaction txHash txID tok tx packet pre src = Inr ()"
    and "g \<in> set packet" and "grp_AssetId g = Some a" and "o' \<in> set (grp_Outputs g)"
    and "\<forall>i < length (tx_TxOut tx). \<forall>j < length (tx_TxOut tx).
      out_PkScript (tx_TxOut tx ! i) = ANCHOR_PKSCRIPT \<and>
      out_PkScript (tx_TxOut tx ! j) = ANCHOR_PKSCRIPT \<longrightarrow> i = j"
  shows "\<exists>v < length (tx_TxOut tx). v = unat (aout_Vout o') \<and>
    out_PkScript (tx_TxOut tx ! v) \<noteq> ANCHOR_PKSCRIPT \<and>
    (HasPrefix (out_PkScript (tx_TxOut tx ! v)) [OP_RETURN] \<longrightarrow>
       IsSubDustScript tok (out_PkScript (tx_TxOut tx ! v)))"
proof -
  define v where "v = unat (aout_Vout o')"
  let ?v = v and ?outs = "tx_TxOut tx"
  note land = output_lands [OF validated_group(1) [OF assms(1,2,3)] assms(4), folded v_def]
  have "out_PkScript (?outs ! ?v) \<noteq> ANCHOR_PKSCRIPT"
  proof
    assume anchor: "out_PkScript (?outs ! ?v) = ANCHOR_PKSCRIPT"
    with land assms(5) have "{j. j < length ?outs \<and> out_PkScript (?outs ! j) = ANCHOR_PKSCRIPT} = {?v}"
      by auto
    moreover have "\<exists>out \<in> set ?outs. out_PkScript out = ANCHOR_PKSCRIPT"
      using anchor land nth_mem [of ?v ?outs] by blast
    ultimately have "fst (scan_outputs 0 ?outs (-1, {})) = int ?v"
      by (simp add: scan_outputs_anchor)
    with land show False by simp
  qed
  moreover have "HasPrefix (out_PkScript (?outs ! ?v)) [OP_RETURN] \<longrightarrow>
      IsSubDustScript tok (out_PkScript (?outs ! ?v))"
    using land scan_outputs_ops [of ?v ?outs 0 "(-1, {})"] by simp
  ultimately show ?thesis using land v_def by blast
qed

theorem asset_outputs_land_witness:
  "\<exists>v < 4. v = unat (1 :: u16) \<and> out_PkScript (tx_TxOut sample_tx ! v) \<noteq> ANCHOR_PKSCRIPT"
proof -
  have one: "\<forall>i < length (tx_TxOut sample_tx). \<forall>j < length (tx_TxOut sample_tx).
      out_PkScript (tx_TxOut sample_tx ! i) = ANCHOR_PKSCRIPT \<and>
      out_PkScript (tx_TxOut sample_tx ! j) = ANCHOR_PKSCRIPT \<longrightarrow> i = j"
    by (auto simp: sample_tx_def Let_def nth_Cons ANCHOR_PKSCRIPT_def OP_RETURN_def AnchorOutput_def
        less_Suc_eq split: nat.splits)
  have len: "length (tx_TxOut sample_tx) = 4" by (simp add: sample_tx_def Let_def)
  show ?thesis
    using asset_outputs_land [OF sample_tx_valid, of sample_transfer sample_id
        "\<lparr>aout_Type = 1, aout_Vout = 1, aout_Amount = 5\<rparr>", OF _ _ _ one] len
    by (auto simp: sample_transfer_def)
qed

end
