(* ===== verification/Domain_Vtxo.thy ===== *)
theory Domain_Vtxo
  imports Asset_Validation "HOL-Library.AList"
begin

section \<open>Outpoints, vtxos, intents, markers and convictions\<close>

text \<open>
  \<open>internal/core/domain\<close>: \<open>vtxo.go\<close>, \<open>utxo.go\<close>, \<open>intent.go\<close>, \<open>marker.go\<close>, \<open>conviction.go\<close>.
  Random identifiers (\<open>uuid.New\<close>) and the clock (\<open>time.Now\<close>) are arguments. A Unix time or a
  \<open>time.Time\<close> is an \<open>int\<close>: seconds where the source has a Unix timestamp, nanoseconds where it
  adds a \<open>time.Duration\<close>.
\<close>

subsection \<open>vtxo.go\<close>

record Outpoint =
  outp_Txid :: string
  outp_VOut :: u32

definition Outpoint_FromString :: "string \<Rightarrow> Outpoint gores" where
  "Outpoint_FromString s =
     (case strings_Split (CHR '':'') s of
        [txid, v] \<Rightarrow>
          (case hex_DecodeString txid of
             Inl _ \<Rightarrow> Inl (Errorf (''invalid txid hex: '' @ txid))
           | Inr txidBytes \<Rightarrow>
               guard_err (length txidBytes \<noteq> 32)
                 (Errorf (''invalid txid length: expected 32 bytes, got '' @ dec_string (length txidBytes)))
                 (case ParseUint32 v of
                    Inl _ \<Rightarrow> Inl (Errorf (''invalid vout string: '' @ v))
                  | Inr vout \<Rightarrow>
                      Inr \<lparr>outp_Txid = hex_EncodeToString txidBytes, outp_VOut = of_nat vout\<rparr>))
      | _ \<Rightarrow> Inl (Errorf (''invalid outpoint string: '' @ s)))"

definition Outpoint_String :: "Outpoint \<Rightarrow> string" where
  "Outpoint_String k = outp_Txid k @ '':'' @ dec_string (unat (outp_VOut k))"

record Vtxo =
  vtxo_Outpoint :: Outpoint
  vtxo_Amount :: u64
  vtxo_PubKey :: string
  vtxo_CommitmentTxids :: "string list"
  vtxo_RootCommitmentTxid :: string
  vtxo_SettledBy :: string
  vtxo_SpentBy :: string
  vtxo_ArkTxid :: string
  vtxo_Spent :: bool
  vtxo_Unrolled :: bool
  vtxo_Swept :: bool
  vtxo_Preconfirmed :: bool
  vtxo_ExpiresAt :: int
  vtxo_CreatedAt :: int
  vtxo_Depth :: u32
  vtxo_MarkerIDs :: "string list"
  vtxo_Assets :: "Asset list"

definition Vtxo_IsNote :: "Vtxo \<Rightarrow> bool" where
  "Vtxo_IsNote v \<longleftrightarrow> length (vtxo_CommitmentTxids v) \<le> 0 \<and> vtxo_RootCommitmentTxid v = []"

definition Vtxo_RequiresForfeit :: "Vtxo \<Rightarrow> bool" where
  "Vtxo_RequiresForfeit v \<longleftrightarrow> \<not> vtxo_Swept v \<and> \<not> Vtxo_IsNote v \<and> \<not> vtxo_Unrolled v"

definition Vtxo_IsSettled :: "Vtxo \<Rightarrow> bool" where
  "Vtxo_IsSettled v \<longleftrightarrow> vtxo_SettledBy v \<noteq> []"

definition Vtxo_TapKey :: "(bytes \<Rightarrow> 'k gores) \<Rightarrow> Vtxo \<Rightarrow> 'k gores" where
  "Vtxo_TapKey parsePubKey v =
     rbind (map_err GoHex (hex_DecodeString (vtxo_PubKey v))) parsePubKey"

definition Vtxo_OutputScript ::
    "(bytes \<Rightarrow> 'k gores) \<Rightarrow> ('k \<Rightarrow> bytes gores) \<Rightarrow> Vtxo \<Rightarrow> bytes gores" where
  "Vtxo_OutputScript parsePubKey p2trScript v = rbind (Vtxo_TapKey parsePubKey v) p2trScript"

text \<open>\<open>time.Now().After(time.Unix(v.ExpiresAt, 0))\<close>, with the clock in nanoseconds.\<close>

definition Vtxo_IsExpired :: "int \<Rightarrow> Vtxo \<Rightarrow> bool" where
  "Vtxo_IsExpired now_ns v \<longleftrightarrow> now_ns > vtxo_ExpiresAt v * 1000000000"

subsection \<open>utxo.go\<close>

record UtxoSpend =
  spend_Txid :: string
  spend_ConfirmedAtTime :: int
  spend_ConfirmedAtHeight :: u64

record Utxo =
  utxo_Outpoint :: Outpoint
  utxo_Amount :: u64
  utxo_PubKey :: string
  utxo_Spend :: UtxoSpend
  utxo_CreatedAt :: int
  utxo_Assets :: "Asset list"

definition UtxoSpend_IsConfirmed :: "UtxoSpend \<Rightarrow> bool" where
  "UtxoSpend_IsConfirmed u \<longleftrightarrow> spend_ConfirmedAtTime u > 0 \<or> spend_ConfirmedAtHeight u > 0"

subsection \<open>intent.go\<close>

record Receiver =
  rcv_Amount :: u64
  rcv_OnchainAddress :: string
  rcv_PubKey :: string

record Intent =
  int_Id :: string
  int_Inputs :: "Vtxo list"
  int_Receivers :: "Receiver list"
  int_Proof :: string
  int_Message :: string
  int_Txid :: string
  int_LeafTxExtension :: string

definition Receiver_IsOnchain :: "Receiver \<Rightarrow> bool" where
  "Receiver_IsOnchain r \<longleftrightarrow> length (rcv_OnchainAddress r) > 0"

definition Receiver_check :: "Receiver \<Rightarrow> unit gores" where
  "Receiver_check r =
     guard_err (length (rcv_OnchainAddress r) \<le> 0 \<and> length (rcv_PubKey r) \<le> 0)
       (Errorf ''missing receiver destination'')
       (guard_err (rcv_Amount r = 0) (Errorf ''missing receiver amount'') (Inr ()))"

definition Intent_validate :: "bool \<Rightarrow> Intent \<Rightarrow> unit gores" where
  "Intent_validate ignoreOuts i =
     guard_err (length (int_Id i) \<le> 0) (Errorf ''missing id'')
     (guard_err (length (int_Proof i) \<le> 0) (Errorf ''missing proof'')
     (guard_err (length (int_Message i) \<le> 0) (Errorf ''missing message'')
     (guard_err (length (int_Txid i) \<le> 0) (Errorf ''missing txid'')
       (if ignoreOuts then Inr ()
        else guard_err (length (int_Receivers i) \<le> 0) (Errorf ''missing outputs'')
               (check_all Receiver_check (int_Receivers i))))))"

definition NewIntent ::
    "string \<Rightarrow> string \<Rightarrow> string \<Rightarrow> string \<Rightarrow> Vtxo list \<Rightarrow> string \<Rightarrow> Intent gores" where
  "NewIntent uuid proofTxid proof message inputs leafTxExtension =
     (let i = \<lparr>int_Id = uuid, int_Inputs = inputs, int_Receivers = [], int_Proof = proof,
               int_Message = message, int_Txid = proofTxid,
               int_LeafTxExtension = leafTxExtension\<rparr>
      in rbind (Intent_validate True i) (\<lambda>_. Inr i))"

text \<open>\<open>AddReceivers\<close> appends, validates, and cuts the appended receivers off again if the
  validation failed. It returns the intent as it is left and the error, if any.\<close>

definition AddReceivers :: "Receiver list \<Rightarrow> Intent \<Rightarrow> Intent \<times> unit gores" where
  "AddReceivers receivers i =
     (let i' = i\<lparr>int_Receivers := int_Receivers i @ receivers\<rparr>;
          err = Intent_validate False i'
      in (case err of
            Inl _ \<Rightarrow> i'\<lparr>int_Receivers :=
                       take (length (int_Receivers i') - length receivers) (int_Receivers i')\<rparr>
          | Inr _ \<Rightarrow> i', err))"

fun sum_u64 :: "u64 list \<Rightarrow> u64 \<Rightarrow> u64" where
  "sum_u64 [] tot = tot"
| "sum_u64 (a # as) tot = sum_u64 as (tot + a)"

definition TotalInputAmount :: "Intent \<Rightarrow> u64" where
  "TotalInputAmount i = sum_u64 (map vtxo_Amount (int_Inputs i)) 0"

definition TotalOutputAmount :: "Intent \<Rightarrow> u64" where
  "TotalOutputAmount i = sum_u64 (map rcv_Amount (int_Receivers i)) 0"

definition HasOffchainReceiver :: "Intent \<Rightarrow> bool" where
  "HasOffchainReceiver i \<longleftrightarrow> (\<exists>r \<in> set (int_Receivers i). \<not> Receiver_IsOnchain r)"

definition CountSpentVtxos :: "Intent list \<Rightarrow> nat" where
  "CountSpentVtxos t = sum_list (map (\<lambda>i. length (filter Vtxo_RequiresForfeit (int_Inputs i))) t)"

definition HaveOnlyOnchainOutput :: "Intent list \<Rightarrow> bool" where
  "HaveOnlyOnchainOutput t \<longleftrightarrow> (\<forall>i \<in> set t. \<not> HasOffchainReceiver i)"

subsection \<open>marker.go\<close>

definition MarkerInterval :: u32 where
  "MarkerInterval = 100"

record Marker =
  mk_ID :: string
  mk_Depth :: u32
  mk_ParentMarkerIDs :: "string list"

definition isAtMarkerBoundary :: "u32 \<Rightarrow> bool" where
  "isAtMarkerBoundary depth \<longleftrightarrow> depth mod MarkerInterval = 0"

definition NewMarker :: "string \<Rightarrow> u32 \<Rightarrow> string list \<Rightarrow> Marker option \<times> string list" where
  "NewMarker txid depth parentMarkerIDs =
     (if isAtMarkerBoundary depth then
        (let id = txid @ '':marker:'' @ dec_string (unat depth)
         in (Some \<lparr>mk_ID = id, mk_Depth = depth, mk_ParentMarkerIDs = parentMarkerIDs\<rparr>, [id]))
      else if length parentMarkerIDs > 0 then (None, parentMarkerIDs)
      else (None, []))"

subsection \<open>conviction.go\<close>

datatype CrimeType =
    CrimeTypeUnknown | CrimeTypeMusig2NonceSubmission | CrimeTypeMusig2SignatureSubmission
  | CrimeTypeMusig2InvalidSignature | CrimeTypeForfeitSubmission | CrimeTypeForfeitInvalidSignature
  | CrimeTypeBoardingInputSubmission | CrimeTypeManualBan

definition CrimeType_String :: "CrimeType \<Rightarrow> string" where
  "CrimeType_String c =
     (case c of
        CrimeTypeUnknown \<Rightarrow> ''Unknown''
      | CrimeTypeMusig2NonceSubmission \<Rightarrow> ''Musig2NonceSubmission''
      | CrimeTypeMusig2SignatureSubmission \<Rightarrow> ''Musig2SignatureSubmission''
      | CrimeTypeMusig2InvalidSignature \<Rightarrow> ''Musig2InvalidSignature''
      | CrimeTypeForfeitSubmission \<Rightarrow> ''ForfeitSubmission''
      | CrimeTypeForfeitInvalidSignature \<Rightarrow> ''ForfeitInvalidSignature''
      | CrimeTypeBoardingInputSubmission \<Rightarrow> ''BoardingInputSubmission''
      | CrimeTypeManualBan \<Rightarrow> ''ManualBan'')"

record Crime =
  crime_Type :: CrimeType
  crime_RoundID :: string
  crime_Reason :: string

datatype ConvictionType = ConvictionTypeScript

record BaseConviction =
  conv_ID :: string
  conv_Type :: ConvictionType
  conv_CreatedAt :: int
  conv_ExpiresAt :: "int option"
  conv_Crime :: Crime
  conv_Pardoned :: bool

record ScriptConviction =
  sconv_Base :: BaseConviction
  sconv_Script :: string

definition newBaseConviction :: "string \<Rightarrow> int \<Rightarrow> Crime \<Rightarrow> int option \<Rightarrow> BaseConviction" where
  "newBaseConviction uuid now_ns crime banDuration =
     \<lparr>conv_ID = uuid, conv_Type = ConvictionTypeScript, conv_CreatedAt = now_ns,
      conv_ExpiresAt = (case banDuration of None \<Rightarrow> None | Some d \<Rightarrow> Some (now_ns + d)),
      conv_Crime = crime, conv_Pardoned = False\<rparr>"

definition NewScriptConviction ::
    "string \<Rightarrow> int \<Rightarrow> string \<Rightarrow> Crime \<Rightarrow> int option \<Rightarrow> ScriptConviction" where
  "NewScriptConviction uuid now_ns script crime banDuration =
     \<lparr>sconv_Base = newBaseConviction uuid now_ns crime banDuration, sconv_Script = script\<rparr>"

subsection \<open>Lemmas\<close>

lemma Outpoint_FromString_String:
  assumes "length b = 32"
  shows "Outpoint_FromString (Outpoint_String \<lparr>outp_Txid = hex_EncodeToString b, outp_VOut = v\<rparr>) =
    Inr \<lparr>outp_Txid = hex_EncodeToString b, outp_VOut = v\<rparr>"
proof -
  have "CHR '':'' \<notin> set (dec_string (unat v))"
    using dec_string_digits [of "CHR '':''" "unat v"] by auto
  then have "strings_Split (CHR '':'') (hex_EncodeToString b @ CHR '':'' # dec_string (unat v)) =
      [hex_EncodeToString b, dec_string (unat v)]"
    by (simp add: strings_Split_one_sep colon_notin_hex strings_Split_no_sep)
  moreover have "unat v < 2 ^ 32" using unsigned_less [of v] by simp
  then have "ParseUint32 (dec_string (unat v)) = Inr (unat v)" by (rule ParseUint32_dec_string)
  ultimately show ?thesis using assms by (simp add: Outpoint_FromString_def Outpoint_String_def)
qed

lemma Outpoint_FromString_Inr:
  "Outpoint_FromString s = Inr k \<Longrightarrow> \<exists>b. length b = 32 \<and> outp_Txid k = hex_EncodeToString b"
  by (auto simp: Outpoint_FromString_def guard_err_eq_Inr split: list.splits sum.splits)

lemma AddReceivers_error:
  "AddReceivers rs i = (i', Inl e) \<Longrightarrow> i' = i"
  by (auto simp: AddReceivers_def Let_def split: sum.splits)

lemma AddReceivers_ok:
  "AddReceivers rs i = (i', Inr u) \<Longrightarrow>
     i' = i\<lparr>int_Receivers := int_Receivers i @ rs\<rparr> \<and> Intent_validate False i' = Inr ()"
  by (auto simp: AddReceivers_def Let_def split: sum.splits)

lemma Intent_validate_iff:
  "Intent_validate ignoreOuts i = Inr () \<longleftrightarrow>
     int_Id i \<noteq> [] \<and> int_Proof i \<noteq> [] \<and> int_Message i \<noteq> [] \<and> int_Txid i \<noteq> [] \<and>
     (ignoreOuts \<or> int_Receivers i \<noteq> [] \<and>
       (\<forall>r \<in> set (int_Receivers i). (rcv_OnchainAddress r \<noteq> [] \<or> rcv_PubKey r \<noteq> []) \<and> rcv_Amount r \<noteq> 0))"
  by (auto simp: Intent_validate_def Receiver_check_def guard_err_eq_Inr check_all_eq_Inr)

lemma sum_u64_mod: "unat (sum_u64 as tot) = (unat tot + sum_list (map unat as)) mod 2 ^ 64"
proof (induction as arbitrary: tot)
  case Nil
  have "unat tot < 2 ^ 64" using unsigned_less [of tot] by simp
  then show ?case by simp
next
  case (Cons a as)
  have "unat (tot + a) = (unat tot + unat a) mod 2 ^ 64" by (simp add: unat_word_ariths)
  with Cons [of "tot + a"] show ?case by (simp add: mod_simps add.assoc)
qed

subsection \<open>Properties\<close>

text \<open>an outpoint survives printing and parsing. Whatever string parses as an outpoint, the
  outpoint it gives prints to a string that parses to the same outpoint; upper-case hex and
  leading zeros are normalised by the first parse and stable afterwards.\<close>

theorem outpoint_parse_print_parse:
  assumes "Outpoint_FromString s = Inr k"
  shows "Outpoint_FromString (Outpoint_String k) = Inr k"
proof -
  from Outpoint_FromString_Inr [OF assms] obtain b where "length b = 32" "outp_Txid k = hex_EncodeToString b"
    by blast
  then show ?thesis using Outpoint_FromString_String [of b "outp_VOut k"] by (cases k) simp
qed

theorem outpoint_parse_print_parse_witness:
  "let k = \<lparr>outp_Txid = hex_EncodeToString (replicate 32 0xab), outp_VOut = 7\<rparr>
   in Outpoint_FromString (concat (replicate 32 ''aB'') @ '':007'') = Inr k \<and>
      Outpoint_FromString (Outpoint_String k) = Inr k"
proof -
  have hex: "hex_DecodeString (concat (replicate n ''aB'')) = Inr (replicate n 0xab)" for n
    by (induction n) (simp_all add: hex_value_def)
  have no_colon: "CHR '':'' \<notin> set (concat (replicate n ''aB''))" for n by (induction n) auto
  have "CHR '':'' \<notin> set s \<Longrightarrow> strings_Split (CHR '':'') (s @ '':007'') = [s, ''007'']" for s
    by (induction s) auto
  from this [OF no_colon] have "strings_Split (CHR '':'') (concat (replicate 32 ''aB'') @ '':007'') =
      [concat (replicate 32 ''aB''), ''007'']" .
  with hex [of 32] have "Outpoint_FromString (concat (replicate 32 ''aB'') @ '':007'') =
      Inr \<lparr>outp_Txid = hex_EncodeToString (replicate 32 0xab), outp_VOut = 7\<rparr>"
    unfolding Outpoint_FromString_def by (simp add: ParseUint32_def)
  with outpoint_parse_print_parse [OF this] show ?thesis by (simp only: Let_def simp_thms)
qed

text \<open>adding receivers to an intent is all or nothing. If the call reports an error the
  intent is left exactly as it was; otherwise it has all the new receivers at the end, is valid,
  and so has only receivers with a destination and a non-zero amount.\<close>

theorem add_receivers_atomic:
  assumes "AddReceivers rs i = (i', r)"
  shows "(case r of
      Inl e \<Rightarrow> i' = i
    | Inr _ \<Rightarrow> int_Receivers i' = int_Receivers i @ rs \<and> int_Id i' = int_Id i \<and>
        int_Inputs i' = int_Inputs i \<and> Intent_validate False i' = Inr () \<and>
        (\<forall>x \<in> set (int_Receivers i'). rcv_Amount x \<noteq> 0 \<and>
           (rcv_OnchainAddress x \<noteq> [] \<or> rcv_PubKey x \<noteq> [])))"
  using assms by (cases r) (auto dest!: AddReceivers_error AddReceivers_ok simp: Intent_validate_iff)

definition sample_intent :: Intent where
  "sample_intent = \<lparr>int_Id = ''id'', int_Inputs = [],
     int_Receivers = [\<lparr>rcv_Amount = 1, rcv_OnchainAddress = [], rcv_PubKey = ''k''\<rparr>],
     int_Proof = ''p'', int_Message = ''m'', int_Txid = ''t'', int_LeafTxExtension = []\<rparr>"

theorem add_receivers_atomic_witness:
  "AddReceivers [\<lparr>rcv_Amount = 0, rcv_OnchainAddress = ''a'', rcv_PubKey = []\<rparr>] sample_intent =
     (sample_intent, Inl (Errorf ''missing receiver amount''))"
proof -
  let ?rs = "[\<lparr>rcv_Amount = 0, rcv_OnchainAddress = ''a'', rcv_PubKey = []\<rparr>]"
  obtain i' r where ir: "AddReceivers ?rs sample_intent = (i', r)" by fastforce
  have r: "r = Inl (Errorf ''missing receiver amount'')"
    using ir by (auto simp: AddReceivers_def Let_def Intent_validate_def Receiver_check_def sample_intent_def)
  with add_receivers_atomic [OF ir] have "i' = sample_intent" by simp
  with ir r show ?thesis by simp
qed

text \<open>markers. A vtxo chain position gets a marker of its own exactly at the depths that are
  multiples of 100, and then its children are assigned that marker only; elsewhere the parents'
  markers are inherited unchanged.\<close>

theorem new_marker_cases:
  "NewMarker txid depth parents =
     (if unat depth mod 100 = 0
      then (Some \<lparr>mk_ID = txid @ '':marker:'' @ dec_string (unat depth), mk_Depth = depth,
                  mk_ParentMarkerIDs = parents\<rparr>, [txid @ '':marker:'' @ dec_string (unat depth)])
      else (None, parents))"
proof -
  have "depth mod MarkerInterval = 0 \<longleftrightarrow> unat depth mod 100 = 0"
    by (simp add: MarkerInterval_def word_unat_eq_iff unat_mod)
  then show ?thesis by (auto simp: NewMarker_def isAtMarkerBoundary_def Let_def)
qed

end
