(* ===== verification/Tx_Tree.thy ===== *)
theory Tx_Tree
  imports Bitcoin_Tx "HOL-Library.AList"
begin

section \<open>Trees of transactions\<close>

text \<open>
  \<open>pkg/ark-lib/tree/tx_tree.go\<close>: the recursive tree of transactions and its flat form. A Go map
  is an association list with distinct keys, in an order in which Go may iterate over it. The
  PSBT codec, the transaction identifier and the printing of a hash are third-party code,
  collected in the record \<open>tx_env\<close> that the operations take as an argument. Roots are never nil
  in a tree that the package builds, so the type has no nil root.

  \<open>buildTree\<close> recurses along the declared children and does not return when they form a cycle.
  The model counts the depth: \<open>None\<close> stands for a recursion deeper than the number of nodes,
  which in the code means one that never ends.
\<close>

record tx_env =
  env_TxID :: "MsgTx \<Rightarrow> string"
  env_HashString :: "bytes \<Rightarrow> string"
  env_B64Encode :: "Psbt \<Rightarrow> string gores"
  env_NewFromRawBytes :: "string \<Rightarrow> Psbt gores"

datatype TxTree = TxTree (tree_Root: Psbt) (tree_Children: "(u32 \<times> TxTree) list")

record TxTreeNode =
  node_Txid :: string
  node_Tx :: string
  node_Children :: "(u32 \<times> string) list"

type_synonym FlatTxTree = "TxTreeNode list"

subsection \<open>The flat form\<close>

definition RootTxid :: "FlatTxTree \<Rightarrow> string" where
  "RootTxid c =
     (if length c = 1 then node_Txid (hd c)
      else let allchildren = concat (map (\<lambda>n. map snd (node_Children n)) c)
           in case find (\<lambda>n. node_Txid n \<notin> set allchildren) c of
                None \<Rightarrow> [] | Some n \<Rightarrow> node_Txid n)"

definition FlatTxTree_Leaves :: "FlatTxTree \<Rightarrow> TxTreeNode list" where
  "FlatTxTree_Leaves c = filter (\<lambda>n. length (node_Children n) = 0) c"

subsection \<open>Operations on trees\<close>

definition root_txid :: "tx_env \<Rightarrow> TxTree \<Rightarrow> string" where
  "root_txid env t = env_TxID env (psbt_UnsignedTx (tree_Root t))"

lemma child_size [termination_simp]:
  "(k, c) \<in> set cs \<Longrightarrow> size c < Suc (size_list (\<lambda>x. Suc (size (snd x))) cs)"
  by (induction cs) auto

lemma map_res_cong [fundef_cong]:
  "xs = ys \<Longrightarrow> (\<And>x. x \<in> set ys \<Longrightarrow> f x = g x) \<Longrightarrow> map_res f xs = map_res g ys"
  by (induction ys arbitrary: xs) auto

lemma check_all_fundef_cong [fundef_cong]:
  "xs = ys \<Longrightarrow> (\<And>x. x \<in> set ys \<Longrightarrow> f x = g x) \<Longrightarrow> check_all f xs = check_all g ys"
  by (induction ys arbitrary: xs) auto

lemma map_filter_cong [fundef_cong]:
  "xs = ys \<Longrightarrow> (\<And>x. x \<in> set ys \<Longrightarrow> f x = g x) \<Longrightarrow> List.map_filter f xs = List.map_filter g ys"
  by (induction ys arbitrary: xs) (auto simp: List.map_filter_def)

text \<open>Reading \<open>TxIn[0]\<close> of a transaction without inputs panics: \<open>None\<close>. The search goes
  through the children in order and stops at the first hit.\<close>

fun first_found :: "('a \<Rightarrow> 'b option option) \<Rightarrow> 'a list \<Rightarrow> 'b option option" where
  "first_found f [] = Some None"
| "first_found f (x # xs) =
     (case f x of None \<Rightarrow> None | Some (Some y) \<Rightarrow> Some (Some y) | Some None \<Rightarrow> first_found f xs)"

lemma first_found_cong [fundef_cong]:
  "xs = ys \<Longrightarrow> (\<And>x. x \<in> set ys \<Longrightarrow> f x = g x) \<Longrightarrow> first_found f xs = first_found g ys"
  by (induction ys arbitrary: xs) (auto split: option.splits)

fun countNodes :: "TxTree \<Rightarrow> nat" where
  "countNodes (TxTree r cs) = 1 + sum_list (map (\<lambda>(k, c). countNodes c) cs)"

definition SerializeNode :: "tx_env \<Rightarrow> TxTree \<Rightarrow> TxTreeNode gores" where
  "SerializeNode env t =
     rbind (env_B64Encode env (tree_Root t)) (\<lambda>serializedTx.
       Inr \<lparr>node_Txid = root_txid env t, node_Tx = serializedTx,
            node_Children = map (\<lambda>(k, c). (k, root_txid env c)) (tree_Children t)\<rparr>)"

fun Serialize :: "tx_env \<Rightarrow> TxTree \<Rightarrow> FlatTxTree gores" where
  "Serialize env (TxTree r cs) =
     rbind (map_res (\<lambda>(k, c). Serialize env c) cs) (\<lambda>nodes.
       rbind (SerializeNode env (TxTree r cs)) (\<lambda>node. Inr (concat nodes @ [node])))"

fun Leaves :: "TxTree \<Rightarrow> Psbt list" where
  "Leaves (TxTree r cs) =
     (if length cs = 0 then [r] else concat (map (\<lambda>(k, c). Leaves c) cs))"

fun FindInput :: "tx_env \<Rightarrow> string \<Rightarrow> u32 \<Rightarrow> TxTree \<Rightarrow> TxTree option option" where
  "FindInput env txid vout (TxTree r cs) =
     (case tx_TxIn (psbt_UnsignedTx r) of
        [] \<Rightarrow> None
      | rootInput # _ \<Rightarrow>
          if env_HashString env (op_Hash (in_PreviousOutPoint rootInput)) = txid \<and>
             op_Index (in_PreviousOutPoint rootInput) = vout
          then Some (Some (TxTree r cs))
          else first_found (\<lambda>(k, c). FindInput env txid vout c) cs)"

fun Find :: "tx_env \<Rightarrow> string \<Rightarrow> TxTree \<Rightarrow> TxTree option" where
  "Find env txid (TxTree r cs) =
     (if env_TxID env (psbt_UnsignedTx r) = txid then Some (TxTree r cs)
      else case List.map_filter (\<lambda>(k, c). Find env txid c) cs of [] \<Rightarrow> None | f # _ \<Rightarrow> Some f)"

fun buildSubTree :: "tx_env \<Rightarrow> string set \<Rightarrow> TxTree \<Rightarrow> TxTree option" where
  "buildSubTree env targets (TxTree r cs) =
     (if env_TxID env (psbt_UnsignedTx r) \<in> targets then Some (TxTree r [])
      else let cs' = List.map_filter
                 (\<lambda>(k, c). map_option (\<lambda>c'. (k, c')) (buildSubTree env targets c)) cs
           in if length cs' = 0 then None else Some (TxTree r cs'))"

definition SubTree :: "tx_env \<Rightarrow> string list \<Rightarrow> TxTree \<Rightarrow> TxTree option gores" where
  "SubTree env txids t =
     guard_err (length txids = 0) (Errorf ''no txids provided'')
       (Inr (buildSubTree env (set txids) t))"

text \<open>\<open>Apply\<close> with a callback that updates a state: the callback is called on a node before its
  children, and says whether to go on below it.\<close>

fun Apply_list :: "('s \<Rightarrow> 'a \<Rightarrow> 's gores) \<Rightarrow> 'a list \<Rightarrow> 's \<Rightarrow> 's gores" where
  "Apply_list f [] s = Inr s"
| "Apply_list f (x # xs) s = rbind (f s x) (Apply_list f xs)"

lemma Apply_list_cong [fundef_cong]:
  "xs = ys \<Longrightarrow> s = s' \<Longrightarrow> (\<And>s x. x \<in> set ys \<Longrightarrow> f s x = g s x) \<Longrightarrow>
     Apply_list f xs s = Apply_list g ys s'"
proof (induction ys arbitrary: xs s s')
  case (Cons y ys)
  then show ?case by (cases "g s' y") auto
qed simp

fun Apply :: "('s \<Rightarrow> TxTree \<Rightarrow> ('s \<times> bool) gores) \<Rightarrow> TxTree \<Rightarrow> 's \<Rightarrow> 's gores" where
  "Apply fn (TxTree r cs) s =
     rbind (fn s (TxTree r cs)) (\<lambda>(s', shouldContinue).
       if \<not> shouldContinue then Inr s' else Apply_list (\<lambda>s'' (k, c). Apply fn c s'') cs s')"

subsection \<open>Validation\<close>

definition outputs_sum :: "MsgTx \<Rightarrow> u64" where
  "outputs_sum tx = sum_list (map out_Value (tx_TxOut tx))"

text \<open>The checks on one child, after the child itself was validated.\<close>

definition validate_child :: "tx_env \<Rightarrow> MsgTx \<Rightarrow> u32 \<Rightarrow> MsgTx \<Rightarrow> unit gores" where
  "validate_child env parent outputIndex child =
     (case tx_TxIn child of
        [] \<Rightarrow> Inl (Errorf ''runtime error: index out of range'')
      | childInput # _ \<Rightarrow>
          guard_err
            (env_HashString env (op_Hash (in_PreviousOutPoint childInput)) \<noteq> env_TxID env parent \<or>
             op_Index (in_PreviousOutPoint childInput) \<noteq> outputIndex)
            (Errorf (''input of child '' @ dec_string (unat outputIndex) @
                     '' is not the output of the parent''))
            (guard_err
               (outputs_sum child \<noteq> out_Value (tx_TxOut parent ! unat outputIndex))
               (Errorf ''sum of child's outputs is not equal to the output of the parent'')
               (Inr ())))"

fun Validate :: "tx_env \<Rightarrow> TxTree \<Rightarrow> unit gores" where
  "Validate env (TxTree r cs) =
     (let tx = psbt_UnsignedTx r;
          nbOfOutputs = (of_nat (length (tx_TxOut tx)) :: u32);
          nbOfInputs = (of_nat (length (tx_TxIn tx)) :: u32)
      in guard_err (tx_Version tx \<noteq> 3) (Errorf ''unexpected version'')
        (guard_err (nbOfInputs \<noteq> 1) (Errorf ''unexpected number of inputs'')
        (guard_err (length cs > unat (nbOfOutputs - 1)) (Errorf ''unexpected number of children'')
          (check_all (\<lambda>(outputIndex, child).
             guard_err (outputIndex \<ge> nbOfOutputs) (Errorf ''output index is out of bounds'')
               (rbind (Validate env child) (\<lambda>_.
                  validate_child env tx outputIndex (psbt_UnsignedTx (tree_Root child))))) cs))))"

subsection \<open>From the flat form to the tree\<close>

record decodedTxTreeNode =
  dec_Tx :: Psbt
  dec_Children :: "(u32 \<times> string) list"

type_synonym nodesByTxid = "(string \<times> decodedTxTreeNode) list"

fun decode_nodes :: "tx_env \<Rightarrow> FlatTxTree \<Rightarrow> nodesByTxid \<Rightarrow> nodesByTxid gores" where
  "decode_nodes env [] acc = Inr acc"
| "decode_nodes env (node # ns) acc =
     (case env_NewFromRawBytes env (node_Tx node) of
        Inl err \<Rightarrow> Inl (Errorw ''failed to decode PSBT: '' err)
      | Inr packet \<Rightarrow>
          decode_nodes env ns
            (AList.update (env_TxID env (psbt_UnsignedTx packet))
               \<lparr>dec_Tx = packet, dec_Children = node_Children node\<rparr> acc))"

definition hasChild :: "decodedTxTreeNode \<Rightarrow> string \<Rightarrow> bool" where
  "hasChild c txid \<longleftrightarrow> txid \<in> snd ` set (dec_Children c)"

definition rootTxids :: "nodesByTxid \<Rightarrow> string list" where
  "rootTxids nodes =
     filter (\<lambda>txid. \<not> (\<exists>(nodeTxid, node) \<in> set nodes. nodeTxid \<noteq> txid \<and> hasChild node txid))
       (map fst nodes)"

text \<open>The outer \<open>None\<close> is the recursion that does not end, the inner one the nil subtree.\<close>

fun buildTree :: "nat \<Rightarrow> string \<Rightarrow> nodesByTxid \<Rightarrow> TxTree option option" where
  "buildTree 0 rootTxid nodes = None"
| "buildTree (Suc fuel) rootTxid nodes =
     (case map_of nodes rootTxid of
        None \<Rightarrow> Some None
      | Some node \<Rightarrow>
          let subs = map (\<lambda>(k, childTxid). (k, buildTree fuel childTxid nodes)) (dec_Children node)
          in if \<exists>(k, s) \<in> set subs. s = None then None
             else Some (Some (TxTree (dec_Tx node)
                    (List.map_filter (\<lambda>(k, s). case s of Some (Some t) \<Rightarrow> Some (k, t) | _ \<Rightarrow> None) subs))))"

definition NewTxTree :: "tx_env \<Rightarrow> FlatTxTree \<Rightarrow> TxTree gores option" where
  "NewTxTree env flatTxTree =
     (if length flatTxTree = 0 then Some (Inl (Errorf ''missing serialized tx tree''))
      else case decode_nodes env flatTxTree [] of
        Inl err \<Rightarrow> Some (Inl err)
      | Inr nodes \<Rightarrow>
          (case rootTxids nodes of
             [] \<Rightarrow> Some (Inl (Errorf ''no root found''))
           | [rootTxid] \<Rightarrow>
               (case buildTree (Suc (length nodes)) rootTxid nodes of
                  None \<Rightarrow> None
                | Some None \<Rightarrow> Some (Inl (Errorf (''subtree not found for root '' @ rootTxid)))
                | Some (Some txTree) \<Rightarrow>
                    Some (guard_err (countNodes txTree \<noteq> length flatTxTree)
                      (Errorf ''the resulting tree doesn't match the number of nodes of the given serialized version'')
                      (Inr txTree)))
           | _ \<Rightarrow> Some (Inl (Errorf ''multiple roots found''))))"


section \<open>Subtrees, links and values\<close>

fun subtrees :: "TxTree \<Rightarrow> TxTree list" where
  "subtrees (TxTree r cs) = concat (map (\<lambda>(k, c). subtrees c) cs) @ [TxTree r cs]"

lemma subtrees_self [simp]: "t \<in> set (subtrees t)"
  by (cases t) auto

lemma subtrees_child:
  "s \<in> set (subtrees t) \<Longrightarrow> (k, c) \<in> set (tree_Children s) \<Longrightarrow> c \<in> set (subtrees t)"
  by (induction t rule: subtrees.induct) fastforce

lemma child_smaller: "(k, c) \<in> set (tree_Children s) \<Longrightarrow> size c < size s"
proof (cases s)
  case (TxTree r cs)
  have "(k, c) \<in> set cs \<Longrightarrow> size c < Suc (size_list (size_prod (\<lambda>_. 0) size) cs)"
    by (induction cs) auto
  then show "(k, c) \<in> set (tree_Children s) \<Longrightarrow> ?thesis" using TxTree by simp
qed

lemma subtrees_size: "s \<in> set (subtrees t) \<Longrightarrow> size s \<le> size t"
proof (induction t rule: subtrees.induct)
  case (1 r cs)
  show ?case
  proof (cases "s = TxTree r cs")
    case False
    then obtain k c where "(k, c) \<in> set cs" "s \<in> set (subtrees c)" using 1(2) by auto
    then show ?thesis using 1(1) child_smaller [of k c "TxTree r cs"] by fastforce
  qed simp
qed

lemma subtrees_parent:
  "s \<in> set (subtrees t) \<Longrightarrow> s = t \<or> (\<exists>p k. p \<in> set (subtrees t) \<and> (k, s) \<in> set (tree_Children p))"
proof (induction t rule: subtrees.induct)
  case (1 r cs)
  then show ?case by simp (metis TxTree.sel(2) subtrees_child subtrees_self)
qed

lemma countNodes_subtrees: "countNodes t = length (subtrees t)"
  by (induction t rule: countNodes.induct)
     (auto simp: length_concat comp_def case_prod_beta intro!: arg_cong [where f = sum_list])

lemma map_res_map: "map_res f (map g xs) = map_res (\<lambda>x. f (g x)) xs"
  by (induction xs) auto

lemma map_res_append:
  "map_res f (xs @ ys) = rbind (map_res f xs) (\<lambda>as. rbind (map_res f ys) (\<lambda>bs. Inr (as @ bs)))"
  by (induction xs) (auto simp: rbind_def split: sum.splits)

lemma map_res_concat:
  "map_res f (concat xss) = rbind (map_res (map_res f) xss) (\<lambda>ys. Inr (concat ys))"
  by (induction xss) (auto simp: map_res_append rbind_def split: sum.splits)

lemma Serialize_subtrees: "Serialize env t = map_res (SerializeNode env) (subtrees t)"
proof (induction env t rule: Serialize.induct)
  case (1 env r cs)
  have "map_res (\<lambda>(k, c). Serialize env c) cs =
        map_res (map_res (SerializeNode env)) (map (\<lambda>(k, c). subtrees c) cs)"
    unfolding map_res_map using 1 by (intro map_res_cong) auto
  then show ?case
    by (auto simp: map_res_append map_res_concat rbind_def split: sum.splits)
qed


subsection \<open>Serialising and rebuilding\<close>

text \<open>The entry that \<open>NewTxTree\<close> makes of a serialised subtree.\<close>

definition node_entry :: "tx_env \<Rightarrow> TxTree \<Rightarrow> string \<times> decodedTxTreeNode" where
  "node_entry env s =
     (root_txid env s,
      \<lparr>dec_Tx = tree_Root s, dec_Children = map (\<lambda>(k, c). (k, root_txid env c)) (tree_Children s)\<rparr>)"

text \<open>What the code relies on of the PSBT library: what it encodes, it decodes.\<close>

definition psbt_roundtrips :: "tx_env \<Rightarrow> TxTree \<Rightarrow> bool" where
  "psbt_roundtrips env t \<longleftrightarrow>
     (\<forall>s \<in> set (subtrees t). \<forall>b64. env_B64Encode env (tree_Root s) = Inr b64 \<longrightarrow>
        env_NewFromRawBytes env b64 = Inr (tree_Root s))"

definition tree_txids :: "tx_env \<Rightarrow> TxTree \<Rightarrow> string list" where
  "tree_txids env t = map (root_txid env) (subtrees t)"

lemma update_fresh: "k \<notin> fst ` set al \<Longrightarrow> AList.update k v al = al @ [(k, v)]"
  by (induction al) auto

lemma decode_nodes_serialized:
  assumes "list_all2 (\<lambda>s n. SerializeNode env s = Inr n) ss flat"
    and "\<And>s b64. s \<in> set ss \<Longrightarrow> env_B64Encode env (tree_Root s) = Inr b64 \<Longrightarrow>
           env_NewFromRawBytes env b64 = Inr (tree_Root s)"
    and "distinct (map fst acc @ map (root_txid env) ss)"
  shows "decode_nodes env flat acc = Inr (acc @ map (node_entry env) ss)"
  using assms
proof (induction ss flat arbitrary: acc rule: list_all2_induct)
  case (Cons s ss n flat)
  obtain b64 where b64: "env_B64Encode env (tree_Root s) = Inr b64"
    and n: "node_Tx n = b64" "node_Children n = map (\<lambda>(k, c). (k, root_txid env c)) (tree_Children s)"
    using Cons.hyps by (auto simp: SerializeNode_def rbind_eq_Inr)
  have dec: "env_NewFromRawBytes env b64 = Inr (tree_Root s)" using Cons.prems(1) b64 by simp
  have upd: "AList.update (root_txid env s) v acc = acc @ [(root_txid env s, v)]" for v
    using Cons.prems(2) by (intro update_fresh) auto
  show ?case
    using Cons.IH [of "acc @ [node_entry env s]"] Cons.prems upd
    by (simp add: n dec flip: root_txid_def) (simp add: node_entry_def)
qed simp

lemma edge_entry:
  "(\<exists>(nodeTxid, node) \<in> set (map (node_entry env) ss). nodeTxid \<noteq> txid \<and> hasChild node txid) \<longleftrightarrow>
     (\<exists>s \<in> set ss. root_txid env s \<noteq> txid \<and>
        (\<exists>k c. (k, c) \<in> set (tree_Children s) \<and> root_txid env c = txid))"
proof -
  have "hasChild (snd (node_entry env s)) txid \<longleftrightarrow>
      (\<exists>k c. (k, c) \<in> set (tree_Children s) \<and> root_txid env c = txid)" for s
    unfolding hasChild_def by (force simp: node_entry_def image_iff case_prod_beta)
  then show ?thesis by (auto simp: node_entry_def)
qed

lemma rootTxids_serialized:
  assumes "distinct (tree_txids env t)"
  shows "rootTxids (map (node_entry env) (subtrees t)) = [root_txid env t]"
proof -
  have inj: "inj_on (root_txid env) (set (subtrees t))"
    using assms by (simp add: tree_txids_def distinct_map)
  have is_child: "(\<exists>p \<in> set (subtrees t). root_txid env p \<noteq> root_txid env s \<and>
      (\<exists>k c. (k, c) \<in> set (tree_Children p) \<and> root_txid env c = root_txid env s)) \<longleftrightarrow> s \<noteq> t"
    (is "?child \<longleftrightarrow> _") if s: "s \<in> set (subtrees t)" for s
  proof
    assume ?child
    then obtain p k c where p: "p \<in> set (subtrees t)" "(k, c) \<in> set (tree_Children p)"
      "root_txid env c = root_txid env s" by blast
    then have "c = s" using inj s subtrees_child by (meson inj_onD)
    then show "s \<noteq> t" using p child_smaller subtrees_size by fastforce
  next
    assume "s \<noteq> t"
    then obtain p k where p: "p \<in> set (subtrees t)" "(k, s) \<in> set (tree_Children p)"
      using subtrees_parent s by blast
    then have "p \<noteq> s" using child_smaller by blast
    then show ?child using p inj s by (metis inj_onD)
  qed
  have "rootTxids (map (node_entry env) (subtrees t)) =
      map (root_txid env) (filter (\<lambda>s. s = t) (subtrees t))"
    unfolding rootTxids_def edge_entry
    using is_child
    by (simp add: comp_def node_entry_def filter_map) (intro arg_cong2 [where f = map] filter_cong; blast)
  moreover have "filter (\<lambda>s. s = t) (subtrees t) = [t]"
  proof -
    have d: "distinct (subtrees t)" using assms by (simp add: tree_txids_def distinct_map)
    obtain xs where "subtrees t = xs @ [t]" by (cases t) simp
    then show ?thesis using d by (auto simp: filter_empty_conv)
  qed
  ultimately show ?thesis by simp
qed

lemma buildTree_serialized:
  assumes "distinct (tree_txids env t)" and "s \<in> set (subtrees t)" and "countNodes s < fuel"
  shows "buildTree fuel (root_txid env s) (map (node_entry env) (subtrees t)) = Some (Some s)"
  using assms(2,3)
proof (induction s arbitrary: fuel rule: countNodes.induct)
  case (1 r cs)
  let ?nodes = "map (node_entry env) (subtrees t)" and ?s = "TxTree r cs"
  have fst_entry: "map fst ?nodes = tree_txids env t"
    by (simp add: node_entry_def tree_txids_def comp_def)
  have lookup: "map_of ?nodes (root_txid env ?s) =
      Some \<lparr>dec_Tx = r, dec_Children = map (\<lambda>(k, c). (k, root_txid env c)) cs\<rparr>"
    using assms(1) 1(2) fst_entry
    by (intro map_of_is_SomeI) (force simp: node_entry_def image_iff comp_def tree_txids_def)+
  obtain f where f: "fuel = Suc f" using 1(3) by (cases fuel) auto
  have sub: "buildTree f (root_txid env c) ?nodes = Some (Some c)" if c: "(k, c) \<in> set cs" for k c
  proof (rule 1(1))
    show "c \<in> set (subtrees t)" using subtrees_child 1(2) c by force
    have "countNodes c \<le> sum_list (map (\<lambda>(k, c). countNodes c) cs)"
      using c by (intro member_le_sum_list) (auto simp: image_iff intro!: bexI [of _ "(k, c)"])
    then show "countNodes c < f" using 1(3) f by simp
  qed (use c in auto)
  have "map (\<lambda>(k, c). (k, buildTree f (root_txid env c) ?nodes)) cs = map (\<lambda>(k, c). (k, Some (Some c))) cs"
    using sub by auto
  then have subs: "map (\<lambda>(k, x). (k, buildTree f x ?nodes)) (map (\<lambda>(k, c). (k, root_txid env c)) cs) =
      map (\<lambda>(k, c). (k, Some (Some c))) cs" (is "?l = _")
    by (simp add: comp_def case_prod_beta)
  have mf: "List.map_filter (\<lambda>(k, s). case s of Some (Some t) \<Rightarrow> Some (k, t) | _ \<Rightarrow> None)
      (map (\<lambda>(k, c). (k, Some (Some c))) cs) = cs"
    by (induction cs) (auto simp: List.map_filter_def)
  show ?case
    unfolding f buildTree.simps lookup option.case decodedTxTreeNode.select_convs subs Let_def mf
    by auto
qed

text \<open>C25: a tree whose transactions have distinct identifiers is rebuilt exactly by \<open>NewTxTree\<close>
  from what \<open>Serialize\<close> makes of it, provided the PSBT library decodes what it encodes: the
  recursion ends, the root is found, no node is lost.\<close>

theorem tx_tree_serialize_rebuild:
  assumes "psbt_roundtrips env t"
    and "distinct (tree_txids env t)"
    and "Serialize env t = Inr flat"
  shows "NewTxTree env flat = Some (Inr t)"
proof -
  have ser: "list_all2 (\<lambda>s n. SerializeNode env s = Inr n) (subtrees t) flat"
    using assms(3) by (simp add: Serialize_subtrees map_res_eq_Inr)
  have "decode_nodes env flat [] = Inr (map (node_entry env) (subtrees t))"
    using decode_nodes_serialized [OF ser, of "[]"] assms(1,2)
    by (simp add: psbt_roundtrips_def tree_txids_def)
  moreover have "length flat = countNodes t"
    using list_all2_lengthD [OF ser] by (simp add: countNodes_subtrees)
  moreover have "subtrees t \<noteq> []" by (cases t) simp
  ultimately show ?thesis
    using rootTxids_serialized [OF assms(2)] buildTree_serialized [OF assms(2) subtrees_self]
    by (auto simp: NewTxTree_def countNodes_subtrees simp del: buildTree.simps)
qed


text \<open>A small tree with its own naming of transactions: a root with two children.\<close>

definition sample_psbt :: "u8 \<Rightarrow> OutPoint \<Rightarrow> u64 list \<Rightarrow> Psbt" where
  "sample_psbt i prev vs =
     \<lparr>psbt_UnsignedTx =
        \<lparr>tx_Version = 3, tx_TxIn = [\<lparr>in_PreviousOutPoint = prev\<rparr>],
         tx_TxOut = map (\<lambda>v. \<lparr>out_Value = v, out_PkScript = [i]\<rparr>) vs\<rparr>,
      psbt_Unknowns = [[\<lparr>un_Key = [i], un_Value = []\<rparr>]]\<rparr>"

definition sample_root :: Psbt where
  "sample_root = sample_psbt 65 \<lparr>op_Hash = [0], op_Index = 0\<rparr> [600, 400, 0]"

definition sample_left :: Psbt where
  "sample_left = sample_psbt 66 \<lparr>op_Hash = [65], op_Index = 0\<rparr> [600, 0]"

definition sample_right :: Psbt where
  "sample_right = sample_psbt 67 \<lparr>op_Hash = [65], op_Index = 1\<rparr> [150, 250, 0]"

definition sample_tree :: TxTree where
  "sample_tree = TxTree sample_root [(0, TxTree sample_left []), (1, TxTree sample_right [])]"

definition sample_env :: tx_env where
  "sample_env =
     \<lparr>env_TxID = (\<lambda>tx. map (\<lambda>b. char_of (unat b)) (out_PkScript (hd (tx_TxOut tx)))),
      env_HashString = map (\<lambda>b. char_of (unat b)),
      env_B64Encode = (\<lambda>p. Inr (map (\<lambda>b. char_of (unat b)) (un_Key (hd (hd (psbt_Unknowns p)))))),
      env_NewFromRawBytes = (\<lambda>s.
        if s = ''A'' then Inr sample_root
        else if s = ''B'' then Inr sample_left
        else if s = ''C'' then Inr sample_right
        else Inl (Errorf ''invalid psbt''))\<rparr>"

lemmas sample_tree_defs =
  sample_tree_def sample_env_def sample_root_def sample_left_def sample_right_def sample_psbt_def

definition sample_flat :: FlatTxTree where
  "sample_flat =
     [\<lparr>node_Txid = ''B'', node_Tx = ''B'', node_Children = []\<rparr>,
      \<lparr>node_Txid = ''C'', node_Tx = ''C'', node_Children = []\<rparr>,
      \<lparr>node_Txid = ''A'', node_Tx = ''A'', node_Children = [(0, ''B''), (1, ''C'')]\<rparr>]"

lemma sample_tree_serialized: "Serialize sample_env sample_tree = Inr sample_flat"
  by (simp add: sample_tree_defs sample_flat_def SerializeNode_def root_txid_def char_of_def bit_iff_odd)

lemma sample_tree_subtrees:
  "subtrees sample_tree = [TxTree sample_left [], TxTree sample_right [], sample_tree]"
  by (simp add: sample_tree_def)

lemma sample_tree_distinct: "distinct (tree_txids sample_env sample_tree)"
  by (simp add: tree_txids_def sample_tree_subtrees) (simp add: sample_tree_defs root_txid_def char_of_def bit_iff_odd)

lemma sample_tree_psbt: "psbt_roundtrips sample_env sample_tree"
  by (simp add: psbt_roundtrips_def sample_tree_subtrees)
     (simp add: sample_tree_defs char_of_def bit_iff_odd)

theorem tx_tree_serialize_rebuild_witness:
  "NewTxTree sample_env sample_flat = Some (Inr sample_tree)"
  by (rule tx_tree_serialize_rebuild
      [OF sample_tree_psbt sample_tree_distinct sample_tree_serialized])

subsection \<open>When the recursion ends\<close>

definition child_links :: "nodesByTxid \<Rightarrow> (string \<times> string) set" where
  "child_links nodes =
     {(x, y). \<exists>node. map_of nodes x = Some node \<and> hasChild node y}"

lemma buildTree_None_iff:
  "buildTree fuel x nodes = None \<longleftrightarrow> (\<exists>y. (x, y) \<in> child_links nodes ^^ fuel)"
proof (induction fuel arbitrary: x)
  case (Suc fuel)
  have "(\<exists>y. (x, y) \<in> child_links nodes ^^ Suc fuel) \<longleftrightarrow>
      (\<exists>node c y. map_of nodes x = Some node \<and> hasChild node c \<and> (c, y) \<in> child_links nodes ^^ fuel)"
    (is "?l \<longleftrightarrow> ?r")
  proof
    assume ?l
    then obtain y c where "(x, c) \<in> child_links nodes" "(c, y) \<in> child_links nodes ^^ fuel"
      by (blast elim: relpow_Suc_E2)
    then show ?r unfolding child_links_def mem_Collect_eq case_prod_conv by blast
  next
    assume ?r
    then obtain y c where "(x, c) \<in> child_links nodes" "(c, y) \<in> child_links nodes ^^ fuel"
      unfolding child_links_def mem_Collect_eq case_prod_conv by blast
    then show ?l by (intro exI) (rule relpow_Suc_I2)
  qed
  also have "\<dots> \<longleftrightarrow>
      (\<exists>node c. map_of nodes x = Some node \<and> hasChild node c \<and> buildTree fuel c nodes = None)"
    using Suc by blast
  also have "\<dots> \<longleftrightarrow> buildTree (Suc fuel) x nodes = None"
  proof (cases "map_of nodes x")
    case (Some node)
    have "(\<exists>(k, s) \<in> set (map (\<lambda>(k, c). (k, buildTree fuel c nodes)) (dec_Children node)). s = None) \<longleftrightarrow>
        (\<exists>c. hasChild node c \<and> buildTree fuel c nodes = None)"
      by (force simp: hasChild_def case_prod_beta)
    then show ?thesis using Some by (simp add: Let_def del: set_map)
  qed simp
  finally show ?case by simp
qed simp

lemma relpow_cycle:
  assumes "(x, y) \<in> R\<^sup>*" and "(y, y) \<in> R\<^sup>+"
  shows "\<exists>z. (x, z) \<in> R ^^ n"
proof -
  have step: "\<exists>z'. (z, z') \<in> R \<and> (z', y) \<in> R\<^sup>*" if "(z, y) \<in> R\<^sup>*" for z
  proof (cases "z = y")
    case True
    then show ?thesis using assms(2) by (meson tranclD)
  next
    case False
    then show ?thesis using that by (meson converse_rtranclE)
  qed
  show ?thesis using assms(1)
  proof (induction n arbitrary: x)
    case (Suc n)
    obtain z where "(x, z) \<in> R" "(z, y) \<in> R\<^sup>*" using step [OF Suc.prems] by blast
    then show ?case using Suc.IH by (meson relpow_Suc_I2)
  qed auto
qed

lemma relpow_pigeonhole:
  assumes "finite D" and "Domain R \<subseteq> D" and "card D < n" and "(x, z) \<in> R ^^ n"
  shows "\<exists>y. (x, y) \<in> R\<^sup>* \<and> (y, y) \<in> R\<^sup>+"
proof -
  obtain f where f: "f 0 = x" "\<And>i. i < n \<Longrightarrow> (f i, f (Suc i)) \<in> R"
    using assms(4) by (auto simp: relpow_fun_conv)
  have "f ` {..<n} \<subseteq> D" using f(2) assms(2) by (auto simp: Domain_iff)
  then have "\<not> inj_on f {..<n}"
    using assms(1,3) by (metis card_image card_lessThan card_mono leD)
  then obtain i j where ij: "i < j" "j < n" "f i = f j"
    unfolding inj_on_def by (metis lessThan_iff nat_neq_iff)
  have path: "(f a, f b) \<in> R ^^ (b - a)" if "a \<le> b" "b \<le> n" for a b
    unfolding relpow_fun_conv using that f(2) by (intro exI [of _ "\<lambda>i. f (a + i)"]) auto
  have "(x, f i) \<in> R\<^sup>*" using path [of 0 i] ij f(1) by (auto intro: relpow_imp_rtrancl)
  moreover have "(f i, f i) \<in> R\<^sup>+" using path [of i j] ij
    by (auto simp: trancl_power intro!: exI [of _ "j - i"])
  ultimately show ?thesis by blast
qed

lemma buildTree_diverges_iff:
  "buildTree (Suc (length nodes)) x nodes = None \<longleftrightarrow>
     (\<exists>y. (x, y) \<in> (child_links nodes)\<^sup>* \<and> (y, y) \<in> (child_links nodes)\<^sup>+)"
proof
  have dom: "Domain (child_links nodes) \<subseteq> fst ` set nodes"
    by (auto simp: child_links_def dest: map_of_SomeD intro: rev_image_eqI)
  assume "buildTree (Suc (length nodes)) x nodes = None"
  then obtain z where "(x, z) \<in> child_links nodes ^^ Suc (length nodes)"
    unfolding buildTree_None_iff by blast
  moreover have "card (fst ` set nodes) < Suc (length nodes)"
    by (metis card_length length_map less_Suc_eq_le list.set_map)
  ultimately show "\<exists>y. (x, y) \<in> (child_links nodes)\<^sup>* \<and> (y, y) \<in> (child_links nodes)\<^sup>+"
    using relpow_pigeonhole [OF _ dom] by blast
qed (unfold buildTree_None_iff, elim exE conjE, rule relpow_cycle)

text \<open>C35: \<open>NewTxTree\<close> fails to return exactly when the flat form decodes, has exactly one
  root, and the declared children reachable from that root run into a cycle; on every other
  input it returns a tree or an error.\<close>

theorem new_tx_tree_diverges_iff:
  "NewTxTree env flat = None \<longleftrightarrow>
     flat \<noteq> [] \<and> (\<exists>nodes r y. decode_nodes env flat [] = Inr nodes \<and> rootTxids nodes = [r] \<and>
        (r, y) \<in> (child_links nodes)\<^sup>* \<and> (y, y) \<in> (child_links nodes)\<^sup>+)"
  (is "_ \<longleftrightarrow> ?cycle")
proof (cases "\<exists>nodes r. flat \<noteq> [] \<and> decode_nodes env flat [] = Inr nodes \<and> rootTxids nodes = [r]")
  case True
  then obtain nodes r where n: "flat \<noteq> []" "decode_nodes env flat [] = Inr nodes" "rootTxids nodes = [r]"
    by blast
  then have "?cycle \<longleftrightarrow> buildTree (Suc (length nodes)) r nodes = None"
    unfolding buildTree_diverges_iff by simp
  moreover have "NewTxTree env flat = None \<longleftrightarrow> buildTree (Suc (length nodes)) r nodes = None"
    using n by (simp add: NewTxTree_def del: buildTree.simps split: option.splits)
  ultimately show ?thesis by (simp only:)
next
  case False
  moreover have "NewTxTree env flat \<noteq> None"
    using False by (auto simp: NewTxTree_def simp del: buildTree.simps split: sum.splits list.splits)
  ultimately show ?thesis by metis
qed

text \<open>A flat form that does not come from a tree: below the root, two nodes name each other as
  their child.\<close>

definition sample_cyclic_flat :: FlatTxTree where
  "sample_cyclic_flat =
     [\<lparr>node_Txid = ''A'', node_Tx = ''A'', node_Children = [(0, ''B'')]\<rparr>,
      \<lparr>node_Txid = ''B'', node_Tx = ''B'', node_Children = [(0, ''C'')]\<rparr>,
      \<lparr>node_Txid = ''C'', node_Tx = ''C'', node_Children = [(0, ''B'')]\<rparr>]"

lemma sample_cyclic_flat_diverges: "NewTxTree sample_env sample_cyclic_flat = None"
  by code_simp

subsection \<open>Validated trees\<close>

lemma Validate_iff:
  "Validate env (TxTree r cs) = Inr u \<longleftrightarrow>
     (let tx = psbt_UnsignedTx r; n = (of_nat (length (tx_TxOut tx)) :: u32)
      in tx_Version tx = 3 \<and> (of_nat (length (tx_TxIn tx)) :: u32) = 1 \<and>
         length cs \<le> unat (n - 1) \<and>
         (\<forall>(k, c) \<in> set cs. k < n \<and> Validate env c = Inr () \<and>
            validate_child env tx k (psbt_UnsignedTx (tree_Root c)) = Inr ()))"
  by (auto simp: Let_def guard_err_eq_Inr check_all_eq_Inr rbind_eq_Inr case_prod_beta not_le not_less)

lemma validate_child_iff:
  "validate_child env parent k child = Inr u \<longleftrightarrow>
     (\<exists>i is. tx_TxIn child = i # is \<and>
        env_HashString env (op_Hash (in_PreviousOutPoint i)) = env_TxID env parent \<and>
        op_Index (in_PreviousOutPoint i) = k \<and>
        outputs_sum child = out_Value (tx_TxOut parent ! unat k))"
  by (auto simp: validate_child_def guard_err_eq_Inr split: list.splits)

text \<open>The values of the outputs of a tree that no transaction of the tree spends, and the keys of
  a Go map being distinct all over the tree.\<close>

fun open_values :: "TxTree \<Rightarrow> u64 list" where
  "open_values (TxTree r cs) =
     map (\<lambda>(i, out). out_Value out)
       (filter (\<lambda>(i, out). i \<notin> unat ` fst ` set cs) (List.enumerate 0 (tx_TxOut (psbt_UnsignedTx r)))) @
     concat (map (\<lambda>(k, c). open_values c) cs)"

definition children_are_maps :: "TxTree \<Rightarrow> bool" where
  "children_are_maps t \<longleftrightarrow> (\<forall>s \<in> set (subtrees t). distinct (map fst (tree_Children s)))"

lemma sum_list_enumerate_split:
  fixes v :: "nat \<Rightarrow> 'a \<Rightarrow> 'b :: comm_monoid_add"
  assumes "distinct ks" and "set ks \<subseteq> {..<length xs}"
  shows "sum_list (map (\<lambda>(i, x). v i x) (List.enumerate 0 xs)) =
    sum_list (map (\<lambda>(i, x). v i x) (filter (\<lambda>(i, x). i \<notin> set ks) (List.enumerate 0 xs))) +
    sum_list (map (\<lambda>k. v k (xs ! k)) ks)"
proof -
  have en: "List.enumerate 0 xs = map (\<lambda>i. (i, xs ! i)) [0..<length xs]"
    by (rule nth_equalityI) (auto simp: nth_enumerate_eq)
  have "sum_list (map (\<lambda>(i, x). v i x) (List.enumerate 0 xs)) = (\<Sum>i \<in> {..<length xs}. v i (xs ! i))"
    unfolding en by (simp add: comp_def sum_list_distinct_conv_sum_set lessThan_atLeast0)
  also have "\<dots> = (\<Sum>i \<in> {..<length xs} - set ks. v i (xs ! i)) + (\<Sum>i \<in> set ks. v i (xs ! i))"
    using assms(2) by (intro sum.subset_diff) auto
  also have "(\<Sum>i \<in> set ks. v i (xs ! i)) = sum_list (map (\<lambda>k. v k (xs ! k)) ks)"
    using assms(1) by (simp add: sum_list_distinct_conv_sum_set)
  also have "(\<Sum>i \<in> {..<length xs} - set ks. v i (xs ! i)) =
      sum_list (map (\<lambda>(i, x). v i x) (filter (\<lambda>(i, x). i \<notin> set ks) (List.enumerate 0 xs)))"
    unfolding en by (simp add: filter_map comp_def sum_list_distinct_conv_sum_set)
      (auto intro!: sum.cong)
  finally show ?thesis .
qed

lemma enumerate_values: "outputs_sum tx =
    sum_list (map (\<lambda>(i, out). out_Value out) (List.enumerate 0 (tx_TxOut tx)))"
proof -
  have "map (\<lambda>(i, out). v out) (List.enumerate n xs) = map v xs" for n xs and v :: "TxOut \<Rightarrow> u64"
    by (induction xs arbitrary: n) auto
  then show ?thesis unfolding outputs_sum_def by simp
qed

lemma unat_of_nat_le: "unat (of_nat n :: 'a :: len word) \<le> n"
  by (simp add: unat_of_nat)

lemma sum_list_concat_map:
  "sum_list (concat (map f xs)) = sum_list (map (\<lambda>x. sum_list (f x)) xs)"
  for f :: "'a \<Rightarrow> 'b :: monoid_add list"
  by (induction xs) auto

text \<open>C26: in a tree that \<open>Validate\<close> accepts, no value is created or lost: the outputs that are
  left unspent by the tree add up to the outputs of its root transaction (as \<open>int64\<close>, the way the
  code adds them).\<close>

theorem validated_tree_conserves_value:
  assumes "Validate env t = Inr ()" and "children_are_maps t"
  shows "sum_list (open_values t) = outputs_sum (psbt_UnsignedTx (tree_Root t))"
  using assms
proof (induction t rule: open_values.induct)
  case (1 r cs)
  let ?tx = "psbt_UnsignedTx r"
  have val: "k < of_nat (length (tx_TxOut ?tx))" "Validate env c = Inr ()"
    "validate_child env ?tx k (psbt_UnsignedTx (tree_Root c)) = Inr ()" if "(k, c) \<in> set cs" for k c
    using 1(2) that unfolding Validate_iff Let_def by auto
  have dist: "distinct (map fst cs)" and sub: "\<And>k c. (k, c) \<in> set cs \<Longrightarrow> children_are_maps c"
    using 1(3) by (auto simp: children_are_maps_def)
  have ih: "sum_list (open_values c) = out_Value (tx_TxOut ?tx ! unat k)" if "(k, c) \<in> set cs" for k c
    using 1(1) [OF that refl val(2) [OF that] sub [OF that]] val(3) [OF that]
    by (auto simp: validate_child_iff)
  have ks: "distinct (map (\<lambda>(k, c). unat k) cs)"
    using dist by (simp add: distinct_map inj_on_def case_prod_beta) (metis word_unat_eq_iff)
  have lt: "set (map (\<lambda>(k, c). unat k) cs) \<subseteq> {..<length (tx_TxOut ?tx)}"
    using val(1) by (auto simp: word_less_nat_alt intro: less_le_trans [OF _ unat_of_nat_le])
  have "outputs_sum ?tx =
      sum_list (map (\<lambda>(i, out). out_Value out)
        (filter (\<lambda>(i, out). i \<notin> set (map (\<lambda>(k, c). unat k) cs)) (List.enumerate 0 (tx_TxOut ?tx)))) +
      sum_list (map (\<lambda>k. out_Value (tx_TxOut ?tx ! k)) (map (\<lambda>(k, c). unat k) cs))"
    unfolding enumerate_values by (rule sum_list_enumerate_split [OF ks lt])
  also have "set (map (\<lambda>(k, c). unat k) cs) = unat ` fst ` set cs"
    by (force simp: image_iff)
  also have "sum_list (map (\<lambda>k. out_Value (tx_TxOut ?tx ! k)) (map (\<lambda>(k, c). unat k) cs)) =
      sum_list (concat (map (\<lambda>(k, c). open_values c) cs))"
    unfolding sum_list_concat_map using ih
    by (auto simp: comp_def case_prod_beta intro!: arg_cong [where f = sum_list] map_cong)
  finally show ?case by simp
qed

lemma sample_tree_valid: "Validate sample_env sample_tree = Inr ()"
  by code_simp

lemma sample_tree_maps: "children_are_maps sample_tree"
  by (simp add: children_are_maps_def sample_tree_subtrees) (simp add: sample_tree_def)

theorem validated_tree_conserves_value_witness:
  "open_values sample_tree = [0, 600, 0, 150, 250, 0] \<and>
   sum_list (open_values sample_tree) = outputs_sum (psbt_UnsignedTx sample_root)"
  using validated_tree_conserves_value [OF sample_tree_valid sample_tree_maps]
  by (simp add: sample_tree_defs)

subsection \<open>Partial trees\<close>

text \<open>The first targets met on the way down from the root.\<close>

fun first_targets :: "tx_env \<Rightarrow> string set \<Rightarrow> TxTree \<Rightarrow> Psbt list" where
  "first_targets env targets (TxTree r cs) =
     (if env_TxID env (psbt_UnsignedTx r) \<in> targets then [r]
      else concat (map (\<lambda>(k, c). first_targets env targets c) cs))"

lemma Leaves_nonempty: "Leaves t \<noteq> []"
proof (induction t rule: Leaves.induct)
  case (1 r cs)
  then show ?case by (cases cs) fastforce+
qed

lemma map_filter_Leaves:
  assumes "\<And>k c. (k, c) \<in> set cs \<Longrightarrow>
      (case f c of None \<Rightarrow> g c = [] | Some s \<Rightarrow> Leaves s = g c)"
  shows "concat (map (\<lambda>(k, c). Leaves c)
      (List.map_filter (\<lambda>(k, c). map_option (\<lambda>c'. (k, c')) (f c)) cs)) =
    concat (map (\<lambda>(k, c). g c) cs)"
  using assms
proof (induction cs)
  case (Cons kc cs)
  obtain k c where kc: "kc = (k, c)" by force
  show ?case using Cons.IH Cons.prems [of k c] Cons.prems kc
    by (cases "f c") (auto simp: List.map_filter_def)
qed (simp add: List.map_filter_def)

lemma buildSubTree_Leaves:
  "case buildSubTree env targets t of
     None \<Rightarrow> first_targets env targets t = []
   | Some s \<Rightarrow> Leaves s = first_targets env targets t"
proof (induction env targets t rule: buildSubTree.induct)
  case (1 env targets r cs)
  show ?case
  proof (cases "env_TxID env (psbt_UnsignedTx r) \<in> targets")
    case False
    let ?cs = "List.map_filter
      (\<lambda>(k, c). map_option (\<lambda>c'. (k, c')) (buildSubTree env targets c)) cs"
    have "concat (map (\<lambda>(k, c). Leaves c) ?cs) =
        concat (map (\<lambda>(k, c). first_targets env targets c) cs)"
      using 1 [OF False] by (intro map_filter_Leaves) blast
    then show ?thesis using False by (auto simp: Let_def)
  qed simp
qed

text \<open>\<open>SubTree\<close> cuts the tree at the first target on every path: there is no subtree exactly
  when the tree has no target, and otherwise the leaves of the subtree are exactly the first
  targets from the root, in order. A target below another target is not in the subtree.\<close>

theorem sub_tree_leaves:
  "SubTree env txids t =
     (if txids = [] then Inl (Errorf ''no txids provided'')
      else Inr (buildSubTree env (set txids) t)) \<and>
   (buildSubTree env (set txids) t = None) = (first_targets env (set txids) t = []) \<and>
   map Leaves (case buildSubTree env (set txids) t of None \<Rightarrow> [] | Some s \<Rightarrow> [s]) =
     (case first_targets env (set txids) t of [] \<Rightarrow> [] | targets \<Rightarrow> [targets])"
  using buildSubTree_Leaves [of env "set txids" t] Leaves_nonempty
  by (cases "buildSubTree env (set txids) t")
     (auto simp: SubTree_def guard_err_def split: list.splits)

lemma map_filter_children:
  "(k, s) \<in> set (List.map_filter (\<lambda>(k, c). map_option (\<lambda>c'. (k, c')) (f c)) cs) \<longleftrightarrow>
     (\<exists>c. (k, c) \<in> set cs \<and> f c = Some s)"
  by (force simp: List.map_filter_def image_iff)

lemma buildSubTree_root: "buildSubTree env targets t = Some s \<Longrightarrow> tree_Root s = tree_Root t"
  by (cases t) (auto simp: Let_def split: if_splits)

text \<open>what \<open>Validate\<close> accepts stays valid when \<open>SubTree\<close> cuts it down, so a partial tree
  handed out for some transactions validates like the whole.\<close>

theorem sub_tree_valid:
  assumes "Validate env t = Inr ()" and "SubTree env txids t = Inr (Some s)"
  shows "Validate env s = Inr ()"
proof -
  have "buildSubTree env targets t = Some s \<Longrightarrow> Validate env s = Inr ()" for targets
    using assms(1)
  proof (induction env targets t arbitrary: s rule: buildSubTree.induct)
    case (1 env targets r cs)
    let ?cs = "List.map_filter
      (\<lambda>(k, c). map_option (\<lambda>c'. (k, c')) (buildSubTree env targets c)) cs"
    show ?case
    proof (cases "env_TxID env (psbt_UnsignedTx r) \<in> targets")
      case True
      then show ?thesis using 1(2,3) unfolding Validate_iff by (auto simp: Validate_iff Let_def)
    next
      case False
      then have s: "s = TxTree r ?cs" using 1(2) by (auto simp: Let_def split: if_splits)
      have len: "length ?cs \<le> length cs" by (simp add: List.map_filter_def)
      have "Validate env c' = Inr ()" "tree_Root c' = tree_Root c"
        if "(k, c) \<in> set cs" "buildSubTree env targets c = Some c'" for k c c'
        using 1(1) [OF False that(1) refl that(2)] 1(3) that buildSubTree_root
        unfolding Validate_iff by (auto simp: Let_def)
      then show ?thesis
        using 1(3) len unfolding s Validate_iff by (fastforce simp: Let_def map_filter_children)
    qed
  qed
  then show ?thesis using assms(2) by (auto simp: SubTree_def guard_err_eq_Inr)
qed

theorem sub_tree_valid_witness:
  "Validate sample_env (TxTree sample_root [(1, TxTree sample_right [])]) = Inr ()"
proof (rule sub_tree_valid [OF sample_tree_valid])
  show "SubTree sample_env [''C''] sample_tree =
      Inr (Some (TxTree sample_root [(1, TxTree sample_right [])]))"
    by code_simp
qed

subsection \<open>Searching and visiting\<close>

text \<open>\<open>Find\<close> returns a subtree rooted at the transaction asked for, and nil exactly when no
  transaction of the tree has that identifier.\<close>

theorem find_sound_complete:
  "case Find env txid t of
     None \<Rightarrow> txid \<notin> set (tree_txids env t)
   | Some s \<Rightarrow> s \<in> set (subtrees t) \<and> root_txid env s = txid"
proof (induction env txid t rule: Find.induct)
  case (1 env txid r cs)
  show ?case
  proof (cases "env_TxID env (psbt_UnsignedTx r) = txid")
    case False
    let ?found = "List.map_filter (\<lambda>(k, c). Find env txid c) cs"
    show ?thesis
    proof (cases ?found)
      case Nil
      then have "Find env txid c = None" if "(k, c) \<in> set cs" for k c
        using that by (auto simp: List.map_filter_def filter_empty_conv)
      then show ?thesis using 1 [OF False] False Nil
        by (fastforce simp: tree_txids_def root_txid_def)
    next
      case (Cons s ss)
      then have "s \<in> set ?found" by simp
      then obtain k c where c: "(k, c) \<in> set cs" "Find env txid c = Some s"
        by (auto simp: List.map_filter_def)
      then show ?thesis using 1 [OF False c(1) refl] False Cons by auto
    qed
  qed (simp add: root_txid_def)
qed

text \<open>A callback that never stops and never fails sees every node of the tree, parents before
  their children.\<close>

fun preorder :: "TxTree \<Rightarrow> TxTree list" where
  "preorder (TxTree r cs) = TxTree r cs # concat (map (\<lambda>(k, c). preorder c) cs)"

lemma Apply_list_fold:
  assumes "\<And>s x. x \<in> set xs \<Longrightarrow> f s x = Inr (fold g (h x) s)"
  shows "Apply_list f xs s = Inr (fold g (concat (map h xs)) s)"
  using assms by (induction xs arbitrary: s) auto

lemma Apply_visits_all: "Apply (\<lambda>s t. Inr (g t s, True)) t s = Inr (fold g (preorder t) s)"
proof (induction t arbitrary: s rule: preorder.induct)
  case (1 r cs)
  have "Apply_list (\<lambda>s (k, c). Apply (\<lambda>s t. Inr (g t s, True)) c s) cs (g (TxTree r cs) s) =
      Inr (fold g (concat (map (\<lambda>(k, c). preorder c) cs)) (g (TxTree r cs) s))"
    using 1 by (intro Apply_list_fold) auto
  then show ?case by simp
qed


subsection \<open>The flat form agrees with the tree\<close>

lemma SerializeNode_fields:
  assumes "SerializeNode env s = Inr n"
  shows "node_Txid n = root_txid env s"
    and "node_Children n = map (\<lambda>(k, c). (k, root_txid env c)) (tree_Children s)"
  using assms by (auto simp: SerializeNode_def rbind_eq_Inr)

lemma Leaves_subtrees:
  "Leaves t = map tree_Root (filter (\<lambda>s. tree_Children s = []) (subtrees t))"
proof (induction t rule: Leaves.induct)
  case (1 r cs)
  have "concat (map (\<lambda>(k, c). Leaves c) cs) =
      map tree_Root (filter (\<lambda>s. tree_Children s = []) (concat (map (\<lambda>(k, c). subtrees c) cs)))"
  proof (cases "length cs = 0")
    case False
    have "map (\<lambda>(k, c). Leaves c) cs =
        map (\<lambda>(k, c). map tree_Root (filter (\<lambda>s. tree_Children s = []) (subtrees c))) cs"
      using 1 [OF False] by auto
    then show ?thesis by (simp only:) (simp add: filter_concat map_concat comp_def case_prod_unfold)
  qed simp
  then show ?case by (cases cs) auto
qed

lemma serialized_filter:
  assumes "list_all2 (\<lambda>s n. SerializeNode env s = Inr n) ss flat"
  shows "map node_Txid (filter (\<lambda>n. node_Children n = []) flat) =
    map (root_txid env) (filter (\<lambda>s. tree_Children s = []) ss)"
  using assms by (induction rule: list_all2_induct) (auto simp: SerializeNode_fields)

lemma serialized_node:
  assumes "list_all2 (\<lambda>s n. SerializeNode env s = Inr n) ss flat" and "n \<in> set flat"
  shows "\<exists>s \<in> set ss. SerializeNode env s = Inr n"
  using assms
proof (induction rule: list_all2_induct)
  case (Cons s ss m flat)
  then show ?case by auto
qed simp

lemma serialized_last:
  assumes "list_all2 (\<lambda>s n. SerializeNode env s = Inr n) (subtrees t) flat"
  shows "\<exists>flat' n. flat = flat' @ [n] \<and> SerializeNode env t = Inr n \<and>
    list_all2 (\<lambda>s n. SerializeNode env s = Inr n) (butlast (subtrees t)) flat'"
proof -
  obtain ss where ss: "subtrees t = ss @ [t]" by (cases t) auto
  then show ?thesis using assms by (auto simp: list_all2_append1 list_all2_Cons1)
qed

lemma find_last: "(\<And>y. y \<in> set xs \<Longrightarrow> \<not> P y) \<Longrightarrow> P x \<Longrightarrow> find P (xs @ [x]) = Some x"
  by (induction xs) auto

lemma serialized_children:
  assumes "list_all2 (\<lambda>s n. SerializeNode env s = Inr n) ss flat"
  shows "set (concat (map (\<lambda>n. map snd (node_Children n)) flat)) =
    {root_txid env c |s k c. s \<in> set ss \<and> (k, c) \<in> set (tree_Children s)}"
  using assms
proof (induction rule: list_all2_induct)
  case (Cons s ss n flat)
  have "set (map snd (node_Children n)) = {root_txid env c |k c. (k, c) \<in> set (tree_Children s)}"
    unfolding SerializeNode_fields(2) [OF Cons.hyps(1)] by (force simp: image_iff)
  then show ?case using Cons.IH by auto
qed simp

text \<open>the flat form answers for the tree it was made from: its root is the tree's root, and the
  leaves it reports are the tree's leaves, in order, so that counting either gives the same
  number.\<close>

theorem flat_tree_agrees:
  assumes "distinct (tree_txids env t)" and "Serialize env t = Inr flat"
  shows "RootTxid flat = root_txid env t \<and>
    map node_Txid (FlatTxTree_Leaves flat) = map (\<lambda>p. env_TxID env (psbt_UnsignedTx p)) (Leaves t)"
proof
  have ser: "list_all2 (\<lambda>s n. SerializeNode env s = Inr n) (subtrees t) flat"
    using assms(2) by (simp add: Serialize_subtrees map_res_eq_Inr)
  show "map node_Txid (FlatTxTree_Leaves flat) = map (\<lambda>p. env_TxID env (psbt_UnsignedTx p)) (Leaves t)"
    using serialized_filter [OF ser]
    by (simp add: FlatTxTree_Leaves_def Leaves_subtrees root_txid_def comp_def)
  obtain flat' n where flat: "flat = flat' @ [n]" and n: "SerializeNode env t = Inr n"
    and ser': "list_all2 (\<lambda>s n. SerializeNode env s = Inr n) (butlast (subtrees t)) flat'"
    using serialized_last [OF ser] by blast
  have inj: "inj_on (root_txid env) (set (subtrees t))" and dist: "distinct (subtrees t)"
    using assms(1) by (auto simp: tree_txids_def distinct_map)
  have butlast: "s \<in> set (subtrees t) \<and> s \<noteq> t" if "s \<in> set (butlast (subtrees t))" for s
    using that dist by (cases t) auto
  let ?kids = "set (concat (map (\<lambda>n. map snd (node_Children n)) flat))"
  have kids: "?kids = {root_txid env c |s k c. s \<in> set (subtrees t) \<and> (k, c) \<in> set (tree_Children s)}"
    by (rule serialized_children [OF ser])
  have "node_Txid m \<in> ?kids" if m: "m \<in> set flat'" for m
  proof -
    obtain s where s: "s \<in> set (butlast (subtrees t))" "SerializeNode env s = Inr m"
      using serialized_node [OF ser' m] by blast
    then show ?thesis
      using subtrees_parent butlast SerializeNode_fields(1) unfolding kids by blast
  qed
  moreover have "root_txid env t \<notin> ?kids"
  proof
    assume "root_txid env t \<in> ?kids"
    then obtain s k c where c: "s \<in> set (subtrees t)" "(k, c) \<in> set (tree_Children s)"
      "root_txid env t = root_txid env c" unfolding kids by blast
    then have "t = c" using inj subtrees_child subtrees_self by (meson inj_onD)
    then show False using c child_smaller [OF c(2)] subtrees_size [OF c(1)] by simp
  qed
  ultimately have "find (\<lambda>n. node_Txid n \<notin> ?kids) flat = Some n"
    unfolding flat using SerializeNode_fields(1) [OF n] by (intro find_last) (auto simp: flat)
  then show "RootTxid flat = root_txid env t"
    using SerializeNode_fields(1) [OF n] by (simp add: RootTxid_def Let_def flat)
qed

theorem flat_tree_agrees_witness:
  "RootTxid sample_flat = ''A'' \<and> map node_Txid (FlatTxTree_Leaves sample_flat) = [''B'', ''C'']"
proof -
  have "root_txid sample_env sample_tree = ''A''"
    "map (\<lambda>p. env_TxID sample_env (psbt_UnsignedTx p)) (Leaves sample_tree) = [''B'', ''C'']"
    by (simp_all add: sample_tree_defs root_txid_def char_of_def bit_iff_odd)
  then show ?thesis
    using flat_tree_agrees [OF sample_tree_distinct sample_tree_serialized] by simp
qed

end
