(* ===== verification/Go_Time.thy ===== *)
theory Go_Time
  imports Ark_Prelude
begin

section \<open>Go's signed 64-bit integers and durations\<close>

text \<open>
  An \<open>int64\<close> is an \<open>int\<close> and every operation that may overflow is followed by \<open>int64_wrap\<close>. A
  \<open>time.Duration\<close> is a number of nanoseconds in an \<open>int64\<close>. Go's integer division truncates
  towards zero.
\<close>

definition int64_wrap :: "int \<Rightarrow> int" where
  "int64_wrap i = sint (word_of_int i :: 64 word)"

definition is_int64 :: "int \<Rightarrow> bool" where
  "is_int64 i \<longleftrightarrow> - (2 ^ 63) \<le> i \<and> i < 2 ^ 63"

definition time_Second :: int where
  "time_Second = 1000000000"

text \<open>\<open>time.Duration(secs) * time.Second\<close>.\<close>

definition duration_of_secs :: "int \<Rightarrow> int" where
  "duration_of_secs secs = int64_wrap (secs * time_Second)"

text \<open>\<open>int64(d / time.Second)\<close>.\<close>

definition duration_secs :: "int \<Rightarrow> int" where
  "duration_secs d = (if d < 0 then - ((- d) div time_Second) else d div time_Second)"

text \<open>\<open>time.Unix(t, 0).Add(d).Unix()\<close>: the sum keeps its nanoseconds between 0 and a second.\<close>

definition unix_add :: "int \<Rightarrow> int \<Rightarrow> int" where
  "unix_add t d = int64_wrap (t + d div time_Second)"

lemma int64_wrap_id: "is_int64 i \<Longrightarrow> int64_wrap i = i"
  unfolding int64_wrap_def is_int64_def
  by (simp add: sint_word_ariths signed_take_bit_int_eq_self sint_sbintrunc')

lemma int64_wrap_range: "is_int64 (int64_wrap i)"
  unfolding int64_wrap_def is_int64_def
  using sint_range_size [of "word_of_int i :: 64 word"] by (simp add: word_size)

lemma int64_wrap_wrap [simp]: "int64_wrap (int64_wrap i) = int64_wrap i"
  by (rule int64_wrap_id) (rule int64_wrap_range)

lemma int64_wrap_mod: "int64_wrap i mod 2 ^ 64 = i mod 2 ^ 64"
proof -
  have "take_bit 64 (sint (word_of_int i :: 64 word)) = take_bit 64 i"
    by (simp add: sint_uint take_bit_signed_take_bit unsigned_of_int)
  then show ?thesis by (simp only: int64_wrap_def take_bit_eq_mod)
qed

lemma duration_secs_of_secs:
  "is_int64 (secs * time_Second) \<Longrightarrow> duration_secs (duration_of_secs secs) = secs"
  by (auto simp: duration_of_secs_def int64_wrap_id duration_secs_def time_Second_def)

end
