(* ===== verification/Domain_Events.thy ===== *)
theory Domain_Events
  imports Domain_Vtxo Tx_Tree Go_Time
begin

section \<open>Events and event-sourced aggregates\<close>

text \<open>
  \<open>internal/core/domain\<close>: \<open>events_repo.go\<close>, \<open>round_event.go\<close>, \<open>offchain_tx_event.go\<close>,
  \<open>onchain_tx_event.go\<close>, and the stage that the aggregates share. The interface \<open>Event\<close> is one
  datatype whose constructors are the event structs. A Go map is an association list; \<open>map_len\<close>
  is its \<open>len\<close>, \<open>map_of\<close> its lookup.

  The locale \<open>event_sourced\<close> is the contract between an aggregate and the event store: the
  aggregate is a fold of its events, and what the fold computes depends neither on the recorded
  history nor on the version counter.
\<close>

type_synonym 'v gomap = "(string \<times> 'v) list"

definition map_len :: "'v gomap \<Rightarrow> nat" where
  "map_len m = length (remdups (map fst m))"

lemma map_len_card: "map_len m = card (dom (map_of m))"
  by (simp add: map_len_def length_remdups_card_conv dom_map_of_conv_image_fst)

lemma map_len_0_iff [simp]: "map_len m = 0 \<longleftrightarrow> m = []"
  by (simp add: map_len_def)

text \<open>The values that \<open>for _, v := range m\<close> goes through.\<close>

definition map_values :: "'v gomap \<Rightarrow> 'v list" where
  "map_values m = map snd (AList.clearjunk m)"

lemma set_map_values: "set (map_values m) = ran (map_of m)"
  unfolding map_values_def
  by (metis AList.map_of_clearjunk distinct_clearjunk list.set_map ran_distinct)

lemma length_map_values: "length (map_values m) = map_len m"
  by (simp add: map_values_def map_len_def length_remdups_card_conv)
     (metis AList.clearjunk_keys_set distinct_card distinct_clearjunk length_map list.set_map)

subsection \<open>Event types and topics\<close>

type_synonym EventType = int

definition EventTypeUndefined :: EventType where "EventTypeUndefined = 0"
definition EventTypeIntentsRegistered :: EventType where "EventTypeIntentsRegistered = 1"
definition EventTypeRoundStarted :: EventType where "EventTypeRoundStarted = 2"
definition EventTypeRoundFinalizationStarted :: EventType where
  "EventTypeRoundFinalizationStarted = 3"
definition EventTypeRoundFinalized :: EventType where "EventTypeRoundFinalized = 4"
definition EventTypeRoundFailed :: EventType where "EventTypeRoundFailed = 5"
definition EventTypeBatchSwept :: EventType where "EventTypeBatchSwept = 6"
definition EventTypeOffchainTxRequested :: EventType where "EventTypeOffchainTxRequested = 100"
definition EventTypeOffchainTxAccepted :: EventType where "EventTypeOffchainTxAccepted = 101"
definition EventTypeOffchainTxFinalized :: EventType where "EventTypeOffchainTxFinalized = 102"
definition EventTypeOffchainTxFailed :: EventType where "EventTypeOffchainTxFailed = 103"
definition EventTypeOnchainTxBroadcasted :: EventType where "EventTypeOnchainTxBroadcasted = 200"
definition EventTypeOnchainTxConfirmed :: EventType where "EventTypeOnchainTxConfirmed = 201"

definition RoundTopic :: string where "RoundTopic = ''round''"
definition OffchainTxTopic :: string where "OffchainTxTopic = ''offchain_tx''"
definition OnchainTxTopic :: string where "OnchainTxTopic = ''onchain_tx''"

text \<open>The embedded struct \<open>RoundEvent\<close>, \<open>OffchainTxEvent\<close> or \<open>OnchainTxEvent\<close>: they have the same
  fields.\<close>

record EventBase =
  ev_Id :: string
  ev_Type :: EventType

record ForfeitTx =
  forfeit_Txid :: string
  forfeit_Tx :: string

record Stage =
  stage_Code :: int
  stage_Ended :: bool
  stage_Failed :: bool

definition empty_Stage :: Stage where
  "empty_Stage = \<lparr>stage_Code = 0, stage_Ended = False, stage_Failed = False\<rparr>"

lemma empty_Stage_iff:
  "s = empty_Stage \<longleftrightarrow> stage_Code s = 0 \<and> \<not> stage_Ended s \<and> \<not> stage_Failed s"
  by (cases s) (auto simp: empty_Stage_def)

record RoundFinalizationStarted_fields =
  rfs_VtxoTree :: FlatTxTree
  rfs_Connectors :: FlatTxTree
  rfs_ConnectorAddress :: string
  rfs_CommitmentTxid :: string
  rfs_CommitmentTx :: string
  rfs_VtxoTreeExpiration :: int

record RoundFinalized_fields =
  rf_ForfeitTxs :: "ForfeitTx list"
  rf_FinalCommitmentTx :: string
  rf_Fees :: u64
  rf_Timestamp :: int

record BatchSwept_fields =
  bs_LeafVtxos :: "Outpoint list"
  bs_PreconfirmedVtxos :: "Outpoint list"
  bs_Txid :: string
  bs_Tx :: string
  bs_FullySwept :: bool

record OffchainTxRequested_fields =
  otr_ArkTx :: string
  otr_UnsignedCheckpointTxs :: "string gomap"
  otr_StartingTimestamp :: int

record OffchainTxAccepted_fields =
  ota_CommitmentTxids :: "string gomap"
  ota_RootCommitmentTxid :: string
  ota_FinalArkTx :: string
  ota_SignedCheckpointTxs :: "string gomap"
  ota_ExpiryTimestamp :: int
  ota_Depth :: u32
  ota_ParentMarkerIDs :: "string list"

record OffchainTxFinalized_fields =
  otf_FinalCheckpointTxs :: "string gomap"
  otf_Timestamp :: int

record OnchainTxBroadcasted_fields =
  otb_Tx :: string
  otb_SignedInputs :: "unit gomap"
  otb_Timestamp :: int

record OnchainTxConfirmed_fields =
  otc_ConfirmedAtTime :: int
  otc_ConfirmedAtHeight :: u64

datatype Event =
    RoundStarted EventBase int
  | RoundFinalizationStarted EventBase RoundFinalizationStarted_fields
  | RoundFinalized EventBase RoundFinalized_fields
  | RoundFailed EventBase string int
  | IntentsRegistered EventBase "Intent list"
  | BatchSwept EventBase BatchSwept_fields
  | OffchainTxRequested EventBase OffchainTxRequested_fields
  | OffchainTxAccepted EventBase OffchainTxAccepted_fields
  | OffchainTxFinalized EventBase OffchainTxFinalized_fields
  | OffchainTxFailed EventBase string int
  | OnchainTxBroadcasted EventBase OnchainTxBroadcasted_fields
  | OnchainTxConfirmed EventBase OnchainTxConfirmed_fields

definition GetTopic :: "Event \<Rightarrow> string" where
  "GetTopic e =
     (case e of
        OffchainTxRequested _ _ \<Rightarrow> OffchainTxTopic | OffchainTxAccepted _ _ \<Rightarrow> OffchainTxTopic
      | OffchainTxFinalized _ _ \<Rightarrow> OffchainTxTopic | OffchainTxFailed _ _ _ \<Rightarrow> OffchainTxTopic
      | OnchainTxBroadcasted _ _ \<Rightarrow> OnchainTxTopic | OnchainTxConfirmed _ _ \<Rightarrow> OnchainTxTopic
      | _ \<Rightarrow> RoundTopic)"

definition event_base :: "Event \<Rightarrow> EventBase" where
  "event_base e =
     (case e of
        RoundStarted b _ \<Rightarrow> b | RoundFinalizationStarted b _ \<Rightarrow> b | RoundFinalized b _ \<Rightarrow> b
      | RoundFailed b _ _ \<Rightarrow> b | IntentsRegistered b _ \<Rightarrow> b | BatchSwept b _ \<Rightarrow> b
      | OffchainTxRequested b _ \<Rightarrow> b | OffchainTxAccepted b _ \<Rightarrow> b
      | OffchainTxFinalized b _ \<Rightarrow> b | OffchainTxFailed b _ _ \<Rightarrow> b
      | OnchainTxBroadcasted b _ \<Rightarrow> b | OnchainTxConfirmed b _ \<Rightarrow> b)"

definition GetType :: "Event \<Rightarrow> EventType" where
  "GetType e = ev_Type (event_base e)"

subsection \<open>The contract of an event-sourced aggregate\<close>

locale event_sourced =
  fixes on :: "Event \<Rightarrow> bool \<Rightarrow> 's \<Rightarrow> 's"
    and raise :: "Event \<Rightarrow> 's \<Rightarrow> 's"
    and rebuild :: "Event list \<Rightarrow> 's"
    and zero :: 's
    and changes :: "'s \<Rightarrow> Event list"
    and with_changes :: "Event list \<Rightarrow> 's \<Rightarrow> 's"
    and core :: "'s \<Rightarrow> 's"
  assumes raise_law: "raise e s = on e False (with_changes (changes s @ [e]) s)"
    and rebuild_law: "rebuild es = with_changes es (fold (\<lambda>e. on e True) es zero)"
    and changes_with [simp]: "changes (with_changes es s) = es"
    and changes_on [simp]: "changes (on e b s) = changes s"
    and core_with [simp]: "core (with_changes es s) = core s"
    and core_on: "core s = core s' \<Longrightarrow> core (on e b s) = core (on e b' s')"
begin

lemma changes_raise [simp]: "changes (raise e s) = changes s @ [e]"
  by (simp add: raise_law)

lemma changes_rebuild [simp]: "changes (rebuild es) = es"
  by (simp add: rebuild_law)

lemma core_raise: "core (raise e s) = core (on e b s)"
  unfolding raise_law by (rule core_on) simp

lemma core_rebuild_snoc: "core (rebuild (es @ [e])) = core (on e b (rebuild es))"
  unfolding rebuild_law by (simp add: core_on)

text \<open>A replayed aggregate stays a faithful copy when both sides raise the same event.\<close>

lemma replay_raise:
  assumes "core (rebuild (changes s)) = core s"
  shows "core (rebuild (changes (raise e s))) = core (raise e s)"
  using core_on [OF assms] by (simp add: core_rebuild_snoc [where b = False] core_raise [where b = False])

lemma replay_rebuild: "core (rebuild (changes (rebuild es))) = core (rebuild es)"
  by simp

lemma core_raise_cong: "core s = core s' \<Longrightarrow> core (raise e s) = core (raise e s')"
  unfolding raise_law by (rule core_on) simp

lemma core_rebuild_append:
  "core (rebuild (es @ fs)) = core (fold (\<lambda>e. on e True) fs (rebuild es))"
proof (induction fs rule: rev_induct)
  case (snoc f fs)
  have "core (rebuild (es @ fs @ [f])) = core (on f True (rebuild (es @ fs)))"
    using core_rebuild_snoc [of "es @ fs"] by simp
  also have "\<dots> = core (on f True (fold (\<lambda>e. on e True) fs (rebuild es)))"
    by (rule core_on) (rule snoc)
  finally show ?case by simp
qed simp

end

end
