(* ===== verification/Domain_Round.thy ===== *)
theory Domain_Round
  imports Domain_Events
begin

section \<open>Rounds\<close>

text \<open>
  \<open>internal/core/domain/round.go\<close>: the aggregate of a batch round, its commands and the fold of its
  events. The clock and the fresh identifier are arguments. A command returns either its error,
  and then the round is left as it was, or the round after the command with the events it
  raised. A nil map and an empty one are the same association list. \<open>round_step\<close> is one call of
  a command, or the reload of a round from its stored events; the invariants are proved by rule
  induction over it.
\<close>

definition RoundUndefinedStage :: int where "RoundUndefinedStage = 0"
definition RoundRegistrationStage :: int where "RoundRegistrationStage = 1"
definition RoundFinalizationStage :: int where "RoundFinalizationStage = 2"

lemmas round_stage_defs =
  RoundUndefinedStage_def RoundRegistrationStage_def RoundFinalizationStage_def

definition RoundStage_String :: "int \<Rightarrow> string" where
  "RoundStage_String s =
     (if s = RoundRegistrationStage then ''REGISTRATION_STAGE''
      else if s = RoundFinalizationStage then ''FINALIZATION_STAGE''
      else ''UNDEFINED_STAGE'')"

record Round =
  rd_Id :: string
  rd_StartingTimestamp :: int
  rd_EndingTimestamp :: int
  rd_Stage :: Stage
  rd_Intents :: "Intent gomap"
  rd_CommitmentTxid :: string
  rd_CommitmentTx :: string
  rd_ForfeitTxs :: "ForfeitTx list"
  rd_VtxoTree :: FlatTxTree
  rd_Connectors :: FlatTxTree
  rd_ConnectorAddress :: string
  rd_Version :: nat
  rd_Swept :: bool
  rd_VtxoTreeExpiration :: int
  rd_CollectedFees :: u64
  rd_SweepTxs :: "string gomap"
  rd_FailReason :: string
  rd_Changes :: "Event list"

definition zero_Round :: Round where
  "zero_Round =
     \<lparr>rd_Id = [], rd_StartingTimestamp = 0, rd_EndingTimestamp = 0, rd_Stage = empty_Stage,
      rd_Intents = [], rd_CommitmentTxid = [], rd_CommitmentTx = [], rd_ForfeitTxs = [],
      rd_VtxoTree = [], rd_Connectors = [], rd_ConnectorAddress = [], rd_Version = 0,
      rd_Swept = False, rd_VtxoTreeExpiration = 0, rd_CollectedFees = 0, rd_SweepTxs = [],
      rd_FailReason = [], rd_Changes = []\<rparr>"

definition NewRound :: "string \<Rightarrow> Round" where
  "NewRound uuid = zero_Round\<lparr>rd_Id := uuid, rd_Intents := [], rd_Changes := []\<rparr>"

subsection \<open>Predicates\<close>

definition RoundEnded :: "Stage \<Rightarrow> bool" where
  "RoundEnded stage \<longleftrightarrow>
     \<not> stage_Failed stage \<and> stage_Code stage = RoundFinalizationStage \<and> stage_Ended stage"

definition Round_IsEnded :: "Round \<Rightarrow> bool" where
  "Round_IsEnded r = RoundEnded (rd_Stage r)"

definition Round_IsFailed :: "Round \<Rightarrow> bool" where
  "Round_IsFailed r = stage_Failed (rd_Stage r)"

definition Round_IsStarted :: "Round \<Rightarrow> bool" where
  "Round_IsStarted r \<longleftrightarrow> \<not> Round_IsFailed r \<and> \<not> Round_IsEnded r \<and> rd_Stage r \<noteq> empty_Stage"

definition Round_ExpiryTimestamp :: "Round \<Rightarrow> int" where
  "Round_ExpiryTimestamp r =
     (if Round_IsEnded r
      then unix_add (rd_EndingTimestamp r) (int64_wrap (time_Second * rd_VtxoTreeExpiration r))
      else -1)"

subsection \<open>Events\<close>

definition Round_on :: "Event \<Rightarrow> bool \<Rightarrow> Round \<Rightarrow> Round" where
  "Round_on event replayed r =
     (let r' =
        (case event of
           RoundStarted b ts \<Rightarrow>
             Some (r\<lparr>rd_Stage := (rd_Stage r)\<lparr>stage_Code := RoundRegistrationStage\<rparr>,
                     rd_Id := ev_Id b, rd_StartingTimestamp := ts\<rparr>)
         | RoundFinalizationStarted b e \<Rightarrow>
             Some (r\<lparr>rd_Stage := (rd_Stage r)\<lparr>stage_Code := RoundFinalizationStage\<rparr>,
                     rd_VtxoTree := rfs_VtxoTree e, rd_Connectors := rfs_Connectors e,
                     rd_ConnectorAddress := rfs_ConnectorAddress e,
                     rd_CommitmentTxid := rfs_CommitmentTxid e,
                     rd_CommitmentTx := rfs_CommitmentTx e,
                     rd_VtxoTreeExpiration := rfs_VtxoTreeExpiration e\<rparr>)
         | RoundFinalized b e \<Rightarrow>
             Some (r\<lparr>rd_Stage := (rd_Stage r)\<lparr>stage_Ended := True\<rparr>,
                     rd_ForfeitTxs := rf_ForfeitTxs e, rd_EndingTimestamp := rf_Timestamp e,
                     rd_CommitmentTx := rf_FinalCommitmentTx e,
                     rd_CollectedFees := rf_Fees e\<rparr>)
         | RoundFailed b reason ts \<Rightarrow>
             Some (r\<lparr>rd_Stage := (rd_Stage r)\<lparr>stage_Failed := True\<rparr>,
                     rd_FailReason := reason, rd_EndingTimestamp := ts\<rparr>)
         | IntentsRegistered b intents \<Rightarrow>
             Some (r\<lparr>rd_Intents := fold (\<lambda>p. AList.update (int_Id p) p) intents (rd_Intents r)\<rparr>)
         | BatchSwept b e \<Rightarrow>
             Some (r\<lparr>rd_Swept := bs_FullySwept e,
                     rd_SweepTxs := AList.update (bs_Txid e) (bs_Tx e) (rd_SweepTxs r)\<rparr>)
         | _ \<Rightarrow> None)
      in case r' of
           None \<Rightarrow> r
         | Some s \<Rightarrow> if replayed then s\<lparr>rd_Version := rd_Version s + 1\<rparr> else s)"

definition Round_raise :: "Event \<Rightarrow> Round \<Rightarrow> Round" where
  "Round_raise event r = Round_on event False (r\<lparr>rd_Changes := rd_Changes r @ [event]\<rparr>)"

definition NewRoundFromEvents :: "Event list \<Rightarrow> Round" where
  "NewRoundFromEvents events =
     (fold (\<lambda>event. Round_on event True) events zero_Round)\<lparr>rd_Changes := events\<rparr>"

definition Round_Events :: "Round \<Rightarrow> Event list" where
  "Round_Events r = rd_Changes r"

fun countSweptLeafVtxos :: "Event list \<Rightarrow> nat" where
  "countSweptLeafVtxos [] = 0"
| "countSweptLeafVtxos (event # events) =
     (case event of BatchSwept _ e \<Rightarrow> length (bs_LeafVtxos e) | _ \<Rightarrow> 0) + countSweptLeafVtxos events"

subsection \<open>Commands\<close>

definition StartRegistration :: "int \<Rightarrow> Round \<Rightarrow> (Round \<times> Event list) gores" where
  "StartRegistration now r =
     guard_err (rd_Stage r \<noteq> empty_Stage)
       (Errorf ''not in a valid stage to start intents registration'')
       (let event = RoundStarted \<lparr>ev_Id = rd_Id r, ev_Type = EventTypeRoundStarted\<rparr> now
        in Inr (Round_raise event r, [event]))"

definition RegisterIntents :: "Intent list \<Rightarrow> Round \<Rightarrow> (Round \<times> Event list) gores" where
  "RegisterIntents intents r =
     guard_err (stage_Code (rd_Stage r) \<noteq> RoundRegistrationStage \<or> Round_IsFailed r)
       (Errorf ''not in a valid stage to register intents'')
     (guard_err (length intents \<le> 0) (Errorf ''missing intents to register'')
     (rbind (check_all (Intent_validate False) intents) (\<lambda>_.
        let event = IntentsRegistered \<lparr>ev_Id = rd_Id r, ev_Type = EventTypeIntentsRegistered\<rparr> intents
        in Inr (Round_raise event r, [event]))))"

definition StartFinalization ::
    "string \<Rightarrow> FlatTxTree \<Rightarrow> FlatTxTree \<Rightarrow> string \<Rightarrow> string \<Rightarrow> int \<Rightarrow> Round \<Rightarrow>
       (Round \<times> Event list) gores" where
  "StartFinalization connectorAddress connectors vtxoTree commitmentTxid commitmentTx
     vtxoTreeExpiration r =
     guard_err (length commitmentTx \<le> 0) (Errorf ''missing unsigned commitment tx'')
     (guard_err (vtxoTreeExpiration \<le> 0) (Errorf ''missing vtxo tree expiration'')
     (guard_err (stage_Code (rd_Stage r) \<noteq> RoundRegistrationStage \<or> Round_IsFailed r)
       (Errorf ''not in a valid stage to start finalization'')
     (guard_err (map_len (rd_Intents r) \<le> 0) (Errorf ''no intents registered'')
     (guard_err (commitmentTxid = []) (Errorf ''missing txid'')
       (let event = RoundFinalizationStarted
              \<lparr>ev_Id = rd_Id r, ev_Type = EventTypeRoundFinalizationStarted\<rparr>
              \<lparr>rfs_VtxoTree = vtxoTree, rfs_Connectors = connectors,
               rfs_ConnectorAddress = connectorAddress, rfs_CommitmentTxid = commitmentTxid,
               rfs_CommitmentTx = commitmentTx, rfs_VtxoTreeExpiration = vtxoTreeExpiration\<rparr>
        in Inr (Round_raise event r, [event]))))))"

definition forfeit_required :: "Round \<Rightarrow> bool" where
  "forfeit_required r \<longleftrightarrow>
     (\<exists>(_, intent) \<in> set (rd_Intents r). \<exists>v \<in> set (int_Inputs intent). Vtxo_RequiresForfeit v)"

definition EndFinalization ::
    "int \<Rightarrow> ForfeitTx list \<Rightarrow> string \<Rightarrow> u64 \<Rightarrow> Round \<Rightarrow> (Round \<times> Event list) gores" where
  "EndFinalization now forfeitTxs finalCommitmentTx collectedFees r =
     guard_err (length forfeitTxs \<le> 0 \<and> forfeit_required r)
       (Errorf ''missing list of signed forfeit txs'')
     (guard_err (stage_Code (rd_Stage r) \<noteq> RoundFinalizationStage \<or> Round_IsFailed r)
       (Errorf ''not in a valid stage to end finalization'')
     (guard_err (stage_Ended (rd_Stage r)) (Errorf ''round already finalized'')
       (let event = RoundFinalized
              \<lparr>ev_Id = rd_Id r, ev_Type = EventTypeRoundFinalized\<rparr>
              \<lparr>rf_ForfeitTxs = forfeitTxs, rf_FinalCommitmentTx = finalCommitmentTx,
               rf_Fees = collectedFees, rf_Timestamp = now\<rparr>
        in Inr (Round_raise event r, [event]))))"

definition Round_Sweep ::
    "Outpoint list \<Rightarrow> Outpoint list \<Rightarrow> string \<Rightarrow> string \<Rightarrow> Round \<Rightarrow> (Round \<times> Event list) gores" where
  "Round_Sweep leafVtxos preconfirmedVtxos txid tx r =
     guard_err (\<not> Round_IsEnded r) (Errorf ''not in a valid stage to sweep'')
       (if rd_Swept r then Inr (r, [])
        else
          let sweptVtxosCount = countSweptLeafVtxos (rd_Changes r);
              leavesCount = length (FlatTxTree_Leaves (rd_VtxoTree r));
              fullySwept = (length leafVtxos + sweptVtxosCount = leavesCount);
              event = BatchSwept
                \<lparr>ev_Id = rd_Id r, ev_Type = EventTypeBatchSwept\<rparr>
                \<lparr>bs_LeafVtxos = leafVtxos, bs_PreconfirmedVtxos = preconfirmedVtxos,
                 bs_Txid = txid, bs_Tx = tx, bs_FullySwept = fullySwept\<rparr>
          in Inr (Round_raise event r, [event]))"

definition Round_Fail :: "int \<Rightarrow> string \<Rightarrow> Round \<Rightarrow> Round \<times> Event list" where
  "Round_Fail now err r =
     (if stage_Failed (rd_Stage r) then (r, [])
      else let event = RoundFailed \<lparr>ev_Id = rd_Id r, ev_Type = EventTypeRoundFailed\<rparr> err now
           in (Round_raise event r, [event]))"

section \<open>The aggregate as a state machine\<close>

inductive round_step :: "Round \<Rightarrow> Round \<Rightarrow> bool" where
  step_start: "StartRegistration now r = Inr (r', es) \<Longrightarrow> round_step r r'"
| step_register: "RegisterIntents intents r = Inr (r', es) \<Longrightarrow> round_step r r'"
| step_finalization:
    "StartFinalization addr connectors vtxoTree txid tx expiration r = Inr (r', es) \<Longrightarrow>
       round_step r r'"
| step_end: "EndFinalization now forfeits tx fees r = Inr (r', es) \<Longrightarrow> round_step r r'"
| step_sweep: "Round_Sweep leaves preconfirmed txid tx r = Inr (r', es) \<Longrightarrow> round_step r r'"
| step_fail: "Round_Fail now err r = (r', es) \<Longrightarrow> round_step r r'"
| step_reload: "r' = NewRoundFromEvents (Round_Events r) \<Longrightarrow> round_step r r'"

inductive round_reachable :: "Round \<Rightarrow> bool" where
  reach_new: "round_reachable (NewRound uuid)"
| reach_step: "round_reachable r \<Longrightarrow> round_step r r' \<Longrightarrow> round_reachable r'"

inductive_cases round_stepE: "round_step r r'"

lemmas round_command_defs =
  StartRegistration_def RegisterIntents_def StartFinalization_def EndFinalization_def
  Round_Sweep_def Round_Fail_def

lemmas round_pred_defs =
  Round_IsEnded_def RoundEnded_def Round_IsFailed_def Round_IsStarted_def empty_Stage_iff


subsection \<open>The fold of events\<close>

definition round_core :: "Round \<Rightarrow> Round" where
  "round_core r = r\<lparr>rd_Id := [], rd_Version := 0, rd_Changes := []\<rparr>"

lemma Round_on_changes [simp]: "rd_Changes (Round_on e b r) = rd_Changes r"
  by (simp add: Round_on_def split: Event.splits)

lemma Round_on_core: "round_core (Round_on e b r) = round_core (Round_on e b' (round_core r))"
  by (cases e) (auto simp: Round_on_def round_core_def)

interpretation round_es: event_sourced Round_on Round_raise NewRoundFromEvents zero_Round
    rd_Changes "\<lambda>es r. r\<lparr>rd_Changes := es\<rparr>" round_core
proof unfold_locales
  fix s s' :: Round and e b b'
  assume "round_core s = round_core s'"
  then show "round_core (Round_on e b s) = round_core (Round_on e b' s')"
    by (metis Round_on_core)
qed (simp_all add: Round_raise_def NewRoundFromEvents_def round_core_def)

text \<open>The event that a command raises, with the guards under which it raises it.\<close>

definition event_allowed :: "Event \<Rightarrow> Round \<Rightarrow> bool" where
  "event_allowed e r \<longleftrightarrow>
     (case e of
        RoundStarted b ts \<Rightarrow> ev_Id b = rd_Id r \<and> rd_Stage r = empty_Stage
      | IntentsRegistered b intents \<Rightarrow>
          stage_Code (rd_Stage r) = RoundRegistrationStage \<and> \<not> Round_IsFailed r \<and> intents \<noteq> [] \<and>
          (\<forall>i \<in> set intents. Intent_validate False i = Inr ())
      | RoundFinalizationStarted b f \<Rightarrow>
          stage_Code (rd_Stage r) = RoundRegistrationStage \<and> \<not> Round_IsFailed r \<and>
          rd_Intents r \<noteq> [] \<and> rfs_CommitmentTxid f \<noteq> [] \<and> rfs_CommitmentTx f \<noteq> [] \<and>
          rfs_VtxoTreeExpiration f > 0
      | RoundFinalized b f \<Rightarrow>
          stage_Code (rd_Stage r) = RoundFinalizationStage \<and> \<not> Round_IsFailed r \<and>
          \<not> stage_Ended (rd_Stage r) \<and> (rf_ForfeitTxs f = [] \<longrightarrow> \<not> forfeit_required r)
      | BatchSwept b f \<Rightarrow>
          Round_IsEnded r \<and> \<not> rd_Swept r \<and>
          bs_FullySwept f = (length (bs_LeafVtxos f) + countSweptLeafVtxos (rd_Changes r) =
            length (FlatTxTree_Leaves (rd_VtxoTree r)))
      | RoundFailed b reason ts \<Rightarrow> \<not> Round_IsFailed r
      | _ \<Rightarrow> False)"

lemma round_step_cases:
  assumes "round_step r r'"
  obtains (same) "r' = r"
    | (event) e where "r' = Round_raise e r" "event_allowed e r"
    | (reload) "r' = NewRoundFromEvents (rd_Changes r)"
  using assms
proof (cases rule: round_step.cases)
  case (step_sweep leaves preconfirmed txid tx es)
  then show ?thesis
    by (auto simp: Round_Sweep_def Let_def guard_err_eq_Inr event_allowed_def split: if_splits
        intro: that)
next
  case (step_fail now err es)
  then show ?thesis
    by (auto simp: Round_Fail_def Let_def event_allowed_def Round_IsFailed_def split: if_splits
        intro: that)
qed (auto simp: StartRegistration_def RegisterIntents_def StartFinalization_def EndFinalization_def
       Round_Events_def Let_def guard_err_eq_Inr rbind_eq_Inr check_all_eq_Inr event_allowed_def
       intro: that)

fun started_event :: "Event \<Rightarrow> bool" where
  "started_event (RoundStarted _ _) = True"
| "started_event _ = False"

lemma Round_on_Id:
  "rd_Id (Round_on e b r) = (case e of RoundStarted eb _ \<Rightarrow> ev_Id eb | _ \<Rightarrow> rd_Id r)"
  by (simp add: Round_on_def split: Event.splits)

lemma Round_on_Version:
  "rd_Version (Round_on e True r) =
     (if GetTopic e = RoundTopic then rd_Version r + 1 else rd_Version r)"
  by (cases e) (simp_all add: Round_on_def GetTopic_def RoundTopic_def OffchainTxTopic_def OnchainTxTopic_def)

lemma event_allowed_topic: "event_allowed e r \<Longrightarrow> GetTopic e = RoundTopic"
  by (simp add: event_allowed_def GetTopic_def split: Event.splits)

lemma rebuild_Version:
  "\<forall>e \<in> set es. GetTopic e = RoundTopic \<Longrightarrow> rd_Version (NewRoundFromEvents es) = length es"
proof -
  have "\<forall>e \<in> set es. GetTopic e = RoundTopic \<Longrightarrow>
      rd_Version (fold (\<lambda>e. Round_on e True) es r) = rd_Version r + length es" for r
    by (induction es arbitrary: r) (auto simp: Round_on_Version)
  then show "\<forall>e \<in> set es. GetTopic e = RoundTopic \<Longrightarrow> ?thesis"
    by (simp add: NewRoundFromEvents_def zero_Round_def)
qed

lemma rebuild_Id:
  assumes "\<forall>b ts. RoundStarted b ts \<in> set es \<longrightarrow> ev_Id b = x"
  shows "rd_Id (NewRoundFromEvents es) = (if \<exists>e \<in> set es. started_event e then x else [])"
proof -
  have "rd_Id (fold (\<lambda>e. Round_on e True) es r) = (if \<exists>e \<in> set es. started_event e then x else rd_Id r)" for r
    using assms
  proof (induction es arbitrary: r)
    case (Cons e es)
    have "rd_Id (fold (\<lambda>e. Round_on e True) es r) =
        (if \<exists>e \<in> set es. started_event e then x else rd_Id r)" for r
      by (rule Cons.IH) (use Cons.prems in auto)
    moreover have "rd_Id (Round_on e True r) = (if started_event e then x else rd_Id r)"
      using Cons.prems by (cases e) (auto simp: Round_on_Id)
    ultimately show ?case by auto
  qed simp
  then show ?thesis by (simp add: NewRoundFromEvents_def zero_Round_def)
qed

text \<open>What the stored history knows about the round.\<close>

definition round_history :: "Round \<Rightarrow> bool" where
  "round_history r \<longleftrightarrow>
     round_core (NewRoundFromEvents (rd_Changes r)) = round_core r \<and>
     (\<forall>e \<in> set (rd_Changes r). GetTopic e = RoundTopic) \<and>
     (\<forall>b ts. RoundStarted b ts \<in> set (rd_Changes r) \<longrightarrow> ev_Id b = rd_Id r) \<and>
     ((\<exists>e \<in> set (rd_Changes r). started_event e) \<longrightarrow> rd_Stage r \<noteq> empty_Stage)"

lemma Round_on_stage: "event_allowed e r \<Longrightarrow> rd_Stage r \<noteq> empty_Stage \<Longrightarrow>
    rd_Stage (Round_on e b r) \<noteq> empty_Stage"
  by (auto simp: event_allowed_def Round_on_def round_pred_defs round_stage_defs split: Event.splits)

lemma Round_raise_fields [simp]:
  "rd_Changes (Round_raise e r) = rd_Changes r @ [e]"
  "rd_Id (Round_raise e r) = (case e of RoundStarted b _ \<Rightarrow> ev_Id b | _ \<Rightarrow> rd_Id r)"
  "rd_Stage (Round_raise e r) = rd_Stage (Round_on e False r)"
  by (simp_all add: Round_raise_def Round_on_def split: Event.splits)

lemma round_history_raise:
  assumes "round_history r" and "event_allowed e r"
  shows "round_history (Round_raise e r)"
proof -
  have core: "round_core (NewRoundFromEvents (rd_Changes (Round_raise e r))) = round_core (Round_raise e r)"
    using assms(1) by (intro round_es.replay_raise) (simp add: round_history_def)
  have id: "rd_Id (Round_raise e r) = rd_Id r"
    using assms(2) by (simp add: event_allowed_def split: Event.splits)
  have stage: "(\<exists>x \<in> set (rd_Changes r @ [e]). started_event x) \<longrightarrow>
      rd_Stage (Round_on e False r) \<noteq> empty_Stage"
  proof (cases "started_event e")
    case True
    then show ?thesis
      by (cases e) (auto simp: Round_on_def round_stage_defs empty_Stage_iff split: Event.splits)
  next
    case False
    then show ?thesis using assms Round_on_stage by (auto simp: round_history_def)
  qed
  show ?thesis
    using assms core id stage event_allowed_topic [OF assms(2)]
    unfolding round_history_def
    by (auto simp: event_allowed_def simp del: Round_raise_fields(2))
qed

lemma round_replay_history:
  assumes "round_history r"
  shows "NewRoundFromEvents (rd_Changes r) =
    r\<lparr>rd_Version := length (rd_Changes r),
      rd_Id := (if \<exists>e \<in> set (rd_Changes r). started_event e then rd_Id r else [])\<rparr>"
proof -
  let ?n = "NewRoundFromEvents (rd_Changes r)"
  have core: "round_core ?n = round_core r" using assms by (simp add: round_history_def)
  have "r1 = r2\<lparr>rd_Version := rd_Version r1, rd_Id := rd_Id r1, rd_Changes := rd_Changes r1\<rparr>"
    if "round_core r1 = round_core r2" for r1 r2
    using that unfolding round_core_def by (cases r1; cases r2) simp
  note this [OF core]
  moreover have "rd_Version ?n = length (rd_Changes r)"
    using assms by (intro rebuild_Version) (simp add: round_history_def)
  moreover have "rd_Id ?n = (if \<exists>e \<in> set (rd_Changes r). started_event e then rd_Id r else [])"
    using assms by (intro rebuild_Id) (simp add: round_history_def)
  ultimately show ?thesis by simp
qed

lemma round_history_core:
  "round_history r \<Longrightarrow> round_history (NewRoundFromEvents (rd_Changes r))"
proof -
  assume hist: "round_history r"
  let ?n = "NewRoundFromEvents (rd_Changes r)"
  have "rd_Stage ?n = rd_Stage r"
    "rd_Id ?n = (if \<exists>e \<in> set (rd_Changes r). started_event e then rd_Id r else [])"
    by (simp_all add: round_replay_history [OF hist])
  moreover have "rd_Changes ?n = rd_Changes r" by simp
  moreover have "\<exists>e \<in> set (rd_Changes r). started_event e"
    if "RoundStarted b ts \<in> set (rd_Changes r)" for b ts
    using that by force
  ultimately show ?thesis using hist unfolding round_history_def by simp
qed

lemma reachable_history: "round_reachable r \<Longrightarrow> round_history r"
proof (induction rule: round_reachable.induct)
  case (reach_new uuid)
  show ?case by (simp add: round_history_def NewRound_def NewRoundFromEvents_def round_core_def zero_Round_def)
next
  case (reach_step r r')
  from reach_step.hyps(2) show ?case
    by (cases rule: round_step_cases)
       (use reach_step.IH round_history_raise round_history_core in auto)
qed

text \<open>C24: a round stored as its events and loaded again is the same round, whatever commands and
  reloads it has been through; only the version counts the events, and the identifier is lost
  in the one case where registration was never started.\<close>

theorem round_replay:
  assumes "round_reachable r"
  shows "NewRoundFromEvents (Round_Events r) =
    r\<lparr>rd_Version := length (Round_Events r),
      rd_Id := (if \<exists>e \<in> set (Round_Events r). started_event e then rd_Id r else [])\<rparr>"
  using round_replay_history [OF reachable_history [OF assms]] by (simp add: Round_Events_def)

subsection \<open>Well-formed rounds\<close>

text \<open>What holds of every round that commands can produce, in terms of its state alone.\<close>

fun swept_event :: "Event \<Rightarrow> bool" where
  "swept_event (BatchSwept _ _) = True"
| "swept_event _ = False"

definition round_wf :: "Round \<Rightarrow> bool" where
  "round_wf r \<longleftrightarrow>
     (stage_Ended (rd_Stage r) \<longrightarrow> stage_Code (rd_Stage r) = RoundFinalizationStage) \<and>
     (stage_Code (rd_Stage r) = RoundFinalizationStage \<longrightarrow>
        rd_Intents r \<noteq> [] \<and> rd_CommitmentTxid r \<noteq> [] \<and> rd_VtxoTreeExpiration r > 0) \<and>
     (\<forall>(k, i) \<in> set (rd_Intents r). k = int_Id i \<and> Intent_validate False i = Inr ()) \<and>
     (stage_Ended (rd_Stage r) \<and> rd_ForfeitTxs r = [] \<longrightarrow> \<not> forfeit_required r) \<and>
     ((\<exists>e \<in> set (rd_Changes r). swept_event e) \<longrightarrow> stage_Ended (rd_Stage r)) \<and>
     (rd_Swept r \<longleftrightarrow> (\<exists>e \<in> set (rd_Changes r). swept_event e) \<and>
        countSweptLeafVtxos (rd_Changes r) = length (FlatTxTree_Leaves (rd_VtxoTree r)))"

lemma countSweptLeafVtxos_append [simp]:
  "countSweptLeafVtxos (es @ fs) = countSweptLeafVtxos es + countSweptLeafVtxos fs"
  by (induction es) auto

lemma set_AList_update: "x \<in> set (AList.update k v al) \<Longrightarrow> x = (k, v) \<or> x \<in> set al"
  by (induction al) (auto split: if_splits)

lemma set_fold_update:
  "x \<in> set (fold (\<lambda>p. AList.update (f p) p) ps al) \<Longrightarrow> (\<exists>p \<in> set ps. x = (f p, p)) \<or> x \<in> set al"
  by (induction ps arbitrary: al) (auto dest!: set_AList_update)

lemma round_wf_raise:
  assumes "round_wf r" and "event_allowed e r"
  shows "round_wf (Round_raise e r)"
proof (cases e)
  case (IntentsRegistered b intents)
  have "stage_Code (rd_Stage r) = RoundRegistrationStage" "\<forall>i \<in> set intents. Intent_validate False i = Inr ()"
    using assms(2) IntentsRegistered by (auto simp: event_allowed_def)
  then show ?thesis using assms(1) IntentsRegistered
    by (auto simp: round_wf_def Round_raise_def Round_on_def round_stage_defs dest!: set_fold_update)
next
  case (BatchSwept b f)
  then show ?thesis using assms
    by (auto simp: round_wf_def Round_raise_def Round_on_def event_allowed_def round_pred_defs
        forfeit_required_def)
qed (use assms in \<open>auto simp: round_wf_def Round_raise_def Round_on_def event_allowed_def round_pred_defs
      forfeit_required_def round_stage_defs\<close>)


lemma round_wf_reload:
  assumes "round_wf r" and "round_history r"
  shows "round_wf (NewRoundFromEvents (rd_Changes r))"
  using assms(1) unfolding round_replay_history [OF assms(2)] by (simp add: round_wf_def forfeit_required_def)

lemma reachable_wf: "round_reachable r \<Longrightarrow> round_wf r"
proof (induction rule: round_reachable.induct)
  case (reach_new uuid)
  show ?case by (simp add: round_wf_def NewRound_def zero_Round_def empty_Stage_def round_stage_defs)
next
  case (reach_step r r')
  from reach_step.hyps(2) show ?case
    by (cases rule: round_step_cases)
       (use reach_step.IH round_wf_raise round_wf_reload reachable_history [OF reach_step.hyps(1)] in auto)
qed

text \<open>a round that ended has what a batch needs: registered intents that all validate, a
  commitment transaction identifier, a positive expiration, and forfeit transactions whenever
  one of the registered inputs requires a forfeit.\<close>

theorem ended_round_complete:
  assumes "round_reachable r" and "Round_IsEnded r"
  shows "rd_Intents r \<noteq> [] \<and> rd_CommitmentTxid r \<noteq> [] \<and> rd_VtxoTreeExpiration r > 0 \<and>
    (\<forall>(k, i) \<in> set (rd_Intents r). k = int_Id i \<and> Intent_validate False i = Inr ()) \<and>
    (forfeit_required r \<longrightarrow> rd_ForfeitTxs r \<noteq> [])"
  using reachable_wf [OF assms(1)] assms(2) by (auto simp: round_wf_def round_pred_defs)

text \<open>the batch counts as swept exactly when a sweep was recorded and the leaf outputs swept
  so far are as many as the leaves of the vtxo tree.\<close>

theorem swept_round_iff:
  assumes "round_reachable r"
  shows "rd_Swept r \<longleftrightarrow> (\<exists>e \<in> set (Round_Events r). swept_event e) \<and>
    countSweptLeafVtxos (Round_Events r) = length (FlatTxTree_Leaves (rd_VtxoTree r))"
  using reachable_wf [OF assms] by (simp add: round_wf_def Round_Events_def)

text \<open>a failed round is final: every command on it is refused or does nothing, so one more
  step changes at most the version and the identifier, and those only by a reload.\<close>

theorem failed_round_frozen:
  assumes "round_reachable r" and "Round_IsFailed r" and "round_step r r'"
  shows "r' = r\<lparr>rd_Version := rd_Version r', rd_Id := rd_Id r'\<rparr> \<and>
    (r' = r \<or> r' = NewRoundFromEvents (Round_Events r))"
  using assms(3)
proof (cases rule: round_step_cases)
  case (event e)
  then show ?thesis using assms(2)
    by (auto simp: event_allowed_def Round_IsFailed_def Round_IsEnded_def RoundEnded_def
        empty_Stage_def split: Event.splits)
next
  case reload
  then show ?thesis using round_replay_history [OF reachable_history [OF assms(1)]]
    by (simp add: Round_Events_def)
qed simp

subsection \<open>A round from start to sweep\<close>

definition sample_round_intent :: Intent where
  "sample_round_intent =
     sample_intent\<lparr>int_Inputs := [], int_Receivers :=
       [\<lparr>rcv_Amount = 1000, rcv_OnchainAddress = [], rcv_PubKey = ''02ab''\<rparr>]\<rparr>"

definition sample_leaf :: TxTreeNode where
  "sample_leaf = \<lparr>node_Txid = ''B'', node_Tx = ''B'', node_Children = []\<rparr>"

definition sample_started :: Round where
  "sample_started = Round_raise (RoundStarted \<lparr>ev_Id = ''id'', ev_Type = EventTypeRoundStarted\<rparr> 10) (NewRound ''id'')"

definition sample_registered :: Round where
  "sample_registered = Round_raise (IntentsRegistered \<lparr>ev_Id = ''id'', ev_Type = EventTypeIntentsRegistered\<rparr>
     [sample_round_intent]) sample_started"

definition sample_finalizing :: Round where
  "sample_finalizing = Round_raise (RoundFinalizationStarted
     \<lparr>ev_Id = ''id'', ev_Type = EventTypeRoundFinalizationStarted\<rparr>
     \<lparr>rfs_VtxoTree = [sample_leaf], rfs_Connectors = [], rfs_ConnectorAddress = ''addr'',
      rfs_CommitmentTxid = ''txid'', rfs_CommitmentTx = ''tx'', rfs_VtxoTreeExpiration = 512\<rparr>) sample_registered"

definition sample_ended :: Round where
  "sample_ended = Round_raise (RoundFinalized \<lparr>ev_Id = ''id'', ev_Type = EventTypeRoundFinalized\<rparr>
     \<lparr>rf_ForfeitTxs = [], rf_FinalCommitmentTx = ''signed'', rf_Fees = 0, rf_Timestamp = 20\<rparr>) sample_finalizing"

definition sample_swept :: Round where
  "sample_swept = Round_raise (BatchSwept \<lparr>ev_Id = ''id'', ev_Type = EventTypeBatchSwept\<rparr>
     \<lparr>bs_LeafVtxos = [\<lparr>outp_Txid = ''B'', outp_VOut = 0\<rparr>], bs_PreconfirmedVtxos = [],
      bs_Txid = ''sweep'', bs_Tx = ''tx'', bs_FullySwept = True\<rparr>) sample_ended"

definition sample_failed :: Round where
  "sample_failed = Round_raise (RoundFailed \<lparr>ev_Id = ''id'', ev_Type = EventTypeRoundFailed\<rparr> ''err'' 15)
     sample_registered"

lemmas sample_round_defs =
  sample_started_def sample_registered_def sample_finalizing_def sample_ended_def sample_swept_def
  sample_failed_def sample_round_intent_def sample_intent_def sample_leaf_def
  NewRound_def zero_Round_def Round_raise_def Round_on_def

lemma sample_round_reachable:
  "round_reachable sample_registered" "round_reachable sample_ended"
  "round_reachable sample_swept" "round_reachable sample_failed"
proof -
  have s1: "round_reachable sample_started"
  proof (rule reach_step [OF reach_new], rule step_start)
    show "StartRegistration 10 (NewRound ''id'') = Inr (sample_started,
        [RoundStarted \<lparr>ev_Id = ''id'', ev_Type = EventTypeRoundStarted\<rparr> 10])"
      by (simp add: StartRegistration_def sample_started_def NewRound_def zero_Round_def Let_def)
  qed
  show s2: "round_reachable sample_registered"
    by (rule reach_step [OF s1], rule step_register [where intents = "[sample_round_intent]"])
       (simp add: RegisterIntents_def sample_round_defs round_stage_defs round_pred_defs
         Intent_validate_def Receiver_check_def Let_def empty_Stage_def)
  have s3: "round_reachable sample_finalizing"
    by (rule reach_step [OF s2], rule step_finalization [where addr = "''addr''" and connectors = "[]"
          and vtxoTree = "[sample_leaf]" and txid = "''txid''" and tx = "''tx''" and expiration = 512])
       (simp add: StartFinalization_def sample_round_defs round_stage_defs round_pred_defs map_len_def Let_def empty_Stage_def)
  show s4: "round_reachable sample_ended"
    by (rule reach_step [OF s3], rule step_end [where now = 20 and forfeits = "[]" and tx = "''signed''" and fees = 0])
       (simp add: EndFinalization_def sample_round_defs round_stage_defs round_pred_defs forfeit_required_def Let_def empty_Stage_def)
  show "round_reachable sample_swept"
    by (rule reach_step [OF s4], rule step_sweep [where leaves = "[\<lparr>outp_Txid = ''B'', outp_VOut = 0\<rparr>]"
          and preconfirmed = "[]" and txid = "''sweep''" and tx = "''tx''"])
       (simp add: Round_Sweep_def sample_round_defs round_stage_defs round_pred_defs FlatTxTree_Leaves_def Let_def empty_Stage_def)
  show "round_reachable sample_failed"
    by (rule reach_step [OF s2], rule step_fail [where now = 15 and err = "''err''"])
       (simp add: Round_Fail_def sample_round_defs round_stage_defs empty_Stage_def Let_def)
qed

theorem round_replay_witness:
  "NewRoundFromEvents (Round_Events sample_swept) = sample_swept\<lparr>rd_Version := 5\<rparr>"
  using round_replay [OF sample_round_reachable(3)]
  by (simp add: Round_Events_def sample_round_defs)

theorem ended_round_complete_witness:
  "Round_IsEnded sample_ended \<and> rd_CommitmentTxid sample_ended \<noteq> [] \<and> \<not> forfeit_required sample_ended"
  using ended_round_complete [OF sample_round_reachable(2)]
  by (simp add: sample_round_defs round_pred_defs round_stage_defs empty_Stage_def forfeit_required_def)

theorem swept_round_iff_witness:
  "rd_Swept sample_swept \<and> countSweptLeafVtxos (Round_Events sample_swept) = 1"
  using swept_round_iff [OF sample_round_reachable(3)]
  by (simp add: sample_round_defs Round_Events_def FlatTxTree_Leaves_def)

theorem failed_round_frozen_witness:
  "NewRoundFromEvents (Round_Events sample_failed) = sample_failed\<lparr>rd_Version := 3\<rparr>"
proof -
  let ?r = "NewRoundFromEvents (Round_Events sample_failed)"
  have failed: "Round_IsFailed sample_failed"
    by (simp add: sample_round_defs round_pred_defs)
  have "?r = sample_failed\<lparr>rd_Version := rd_Version ?r, rd_Id := rd_Id ?r\<rparr>"
    using failed_round_frozen [OF sample_round_reachable(4) failed step_reload [OF refl]] by blast
  moreover have "rd_Version ?r = 3" "rd_Id ?r = rd_Id sample_failed"
    by (simp_all add: NewRoundFromEvents_def Round_Events_def sample_round_defs)
  ultimately show ?thesis by simp
qed

end
