(* ===== verification/Domain_Offchain_Tx.thy ===== *)
theory Domain_Offchain_Tx
  imports Domain_Events
begin

section \<open>Offchain transactions\<close>

text \<open>
  \<open>internal/core/domain/offchain_tx.go\<close>: the aggregate of an offchain transaction. The fold of its
  events ignores an event that does not fit the stage it finds, without counting it in the
  version, so that a history with failed attempts and repetitions can be replayed. The clock is
  an argument; a command returns its error or the new state with the event it raised.
\<close>

definition OffchainTxUndefinedStage :: int where "OffchainTxUndefinedStage = 0"
definition OffchainTxRequestedStage :: int where "OffchainTxRequestedStage = 1"
definition OffchainTxAcceptedStage :: int where "OffchainTxAcceptedStage = 2"
definition OffchainTxFinalizedStage :: int where "OffchainTxFinalizedStage = 3"

lemmas offchain_stage_defs =
  OffchainTxUndefinedStage_def OffchainTxRequestedStage_def OffchainTxAcceptedStage_def
  OffchainTxFinalizedStage_def

definition OffchainTxStage_String :: "int \<Rightarrow> string" where
  "OffchainTxStage_String s =
     (if s = OffchainTxRequestedStage then ''OFFCHAIN_TX_REQUESTED_STAGE''
      else if s = OffchainTxAcceptedStage then ''OFFCHAIN_TX_ACCEPTED_STAGE''
      else if s = OffchainTxFinalizedStage then ''OFFCHAIN_TX_FINALIZED_STAGE''
      else ''OFFCHAIN_TX_UNDEFINED_STAGE'')"

record OffchainTx =
  ot_Stage :: Stage
  ot_StartingTimestamp :: int
  ot_EndingTimestamp :: int
  ot_ArkTxid :: string
  ot_ArkTx :: string
  ot_CheckpointTxs :: "string gomap"
  ot_CommitmentTxids :: "string gomap"
  ot_RootCommitmentTxId :: string
  ot_ExpiryTimestamp :: int
  ot_Depth :: u32
  ot_ParentMarkerIDs :: "string list"
  ot_FailReason :: string
  ot_Version :: nat
  ot_changes :: "Event list"

definition NewOffchainTx :: OffchainTx where
  "NewOffchainTx =
     \<lparr>ot_Stage = empty_Stage, ot_StartingTimestamp = 0, ot_EndingTimestamp = 0, ot_ArkTxid = [],
      ot_ArkTx = [], ot_CheckpointTxs = [], ot_CommitmentTxids = [], ot_RootCommitmentTxId = [],
      ot_ExpiryTimestamp = 0, ot_Depth = 0, ot_ParentMarkerIDs = [], ot_FailReason = [],
      ot_Version = 0, ot_changes = []\<rparr>"

definition OffchainTx_Events :: "OffchainTx \<Rightarrow> Event list" where
  "OffchainTx_Events s = ot_changes s"

definition OffchainTx_IsFailed :: "OffchainTx \<Rightarrow> bool" where
  "OffchainTx_IsFailed s = stage_Failed (ot_Stage s)"

definition OffchainTx_IsRequested :: "OffchainTx \<Rightarrow> bool" where
  "OffchainTx_IsRequested s \<longleftrightarrow>
     \<not> OffchainTx_IsFailed s \<and> stage_Code (ot_Stage s) = OffchainTxRequestedStage"

definition OffchainTx_IsAccepted :: "OffchainTx \<Rightarrow> bool" where
  "OffchainTx_IsAccepted s \<longleftrightarrow>
     \<not> OffchainTx_IsFailed s \<and> stage_Code (ot_Stage s) = OffchainTxAcceptedStage"

definition OffchainTx_IsFinalized :: "OffchainTx \<Rightarrow> bool" where
  "OffchainTx_IsFinalized s \<longleftrightarrow>
     \<not> OffchainTx_IsFailed s \<and> stage_Code (ot_Stage s) = OffchainTxFinalizedStage"

definition CommitmentTxidsList :: "OffchainTx \<Rightarrow> string list" where
  "CommitmentTxidsList s = remdups (map_values (ot_CommitmentTxids s))"

definition CheckpointTxsList :: "OffchainTx \<Rightarrow> string list" where
  "CheckpointTxsList s = map_values (ot_CheckpointTxs s)"

subsection \<open>Events\<close>

text \<open>The state after the event, or \<open>None\<close> where the code returns early.\<close>

definition offchain_apply :: "Event \<Rightarrow> OffchainTx \<Rightarrow> OffchainTx option" where
  "offchain_apply event s =
     (let code = stage_Code (ot_Stage s); failed = stage_Failed (ot_Stage s)
      in case event of
        OffchainTxRequested b e \<Rightarrow>
          let canRetry = (failed \<and> code = OffchainTxRequestedStage)
          in if code \<noteq> OffchainTxUndefinedStage \<and> \<not> canRetry then None
             else Some (s\<lparr>ot_Stage := (ot_Stage s)\<lparr>stage_Failed := False,
                                                   stage_Code := OffchainTxRequestedStage\<rparr>,
                          ot_FailReason := [], ot_ArkTxid := ev_Id b, ot_ArkTx := otr_ArkTx e,
                          ot_CheckpointTxs := otr_UnsignedCheckpointTxs e,
                          ot_StartingTimestamp := otr_StartingTimestamp e\<rparr>)
      | OffchainTxAccepted b e \<Rightarrow>
          if code \<noteq> OffchainTxRequestedStage \<or> failed then None
          else Some (s\<lparr>ot_Stage := (ot_Stage s)\<lparr>stage_Code := OffchainTxAcceptedStage\<rparr>,
                       ot_ArkTx := ota_FinalArkTx e,
                       ot_CheckpointTxs := ota_SignedCheckpointTxs e,
                       ot_CommitmentTxids := ota_CommitmentTxids e,
                       ot_RootCommitmentTxId := ota_RootCommitmentTxid e,
                       ot_ExpiryTimestamp := ota_ExpiryTimestamp e, ot_Depth := ota_Depth e,
                       ot_ParentMarkerIDs := ota_ParentMarkerIDs e\<rparr>)
      | OffchainTxFinalized b e \<Rightarrow>
          if code \<noteq> OffchainTxAcceptedStage then None
          else Some (s\<lparr>ot_Stage := \<lparr>stage_Code = OffchainTxFinalizedStage, stage_Ended = True,
                                    stage_Failed = False\<rparr>,
                       ot_FailReason := [], ot_CheckpointTxs := otf_FinalCheckpointTxs e,
                       ot_EndingTimestamp := otf_Timestamp e\<rparr>)
      | OffchainTxFailed b reason ts \<Rightarrow>
          if code = OffchainTxFinalizedStage \<or> failed then None
          else Some (s\<lparr>ot_Stage := (ot_Stage s)\<lparr>stage_Failed := True\<rparr>, ot_FailReason := reason\<rparr>)
      | _ \<Rightarrow> Some s)"

definition OffchainTx_on :: "Event \<Rightarrow> bool \<Rightarrow> OffchainTx \<Rightarrow> OffchainTx" where
  "OffchainTx_on event replayed s =
     (case offchain_apply event s of
        None \<Rightarrow> s
      | Some s' \<Rightarrow> if replayed then s'\<lparr>ot_Version := ot_Version s' + 1\<rparr> else s')"

definition OffchainTx_raise :: "Event \<Rightarrow> OffchainTx \<Rightarrow> OffchainTx" where
  "OffchainTx_raise event s = OffchainTx_on event False (s\<lparr>ot_changes := ot_changes s @ [event]\<rparr>)"

definition NewOffchainTxFromEvents :: "Event list \<Rightarrow> OffchainTx" where
  "NewOffchainTxFromEvents events =
     (fold (\<lambda>event. OffchainTx_on event True) events NewOffchainTx)\<lparr>ot_changes := events\<rparr>"

subsection \<open>Commands\<close>

definition Request ::
    "int \<Rightarrow> string \<Rightarrow> string \<Rightarrow> string gomap \<Rightarrow> OffchainTx \<Rightarrow> (OffchainTx \<times> Event) gores" where
  "Request now arkTxid arkTx unsignedCheckpointTxs s =
     guard_err (OffchainTx_IsFailed s \<or> stage_Code (ot_Stage s) \<noteq> OffchainTxUndefinedStage)
       (Errorf ''not in a valid stage to request offchain tx'')
     (guard_err (arkTxid = []) (Errorf ''missing ark txid'')
     (guard_err (arkTx = []) (Errorf ''missing ark tx'')
     (guard_err (map_len unsignedCheckpointTxs = 0) (Errorf ''missing unsigned checkpoint txs'')
       (let event = OffchainTxRequested \<lparr>ev_Id = arkTxid, ev_Type = EventTypeOffchainTxRequested\<rparr>
              \<lparr>otr_ArkTx = arkTx, otr_UnsignedCheckpointTxs = unsignedCheckpointTxs,
               otr_StartingTimestamp = now\<rparr>
        in Inr (OffchainTx_raise event s, event)))))"

definition Accept ::
    "string \<Rightarrow> string gomap \<Rightarrow> string gomap \<Rightarrow> string \<Rightarrow> int \<Rightarrow> u32 \<Rightarrow> string list \<Rightarrow> OffchainTx \<Rightarrow>
       (OffchainTx \<times> Event) gores" where
  "Accept finalArkTx signedCheckpointTxs commitmentTxsByCheckpointTxid rootCommitmentTx
     expiryTimestamp depth parentMarkerIDs s =
     guard_err (finalArkTx = []) (Errorf ''missing final ark tx'')
     (guard_err (map_len signedCheckpointTxs = 0) (Errorf ''missing signed checkpoint txs'')
     (guard_err (map_len signedCheckpointTxs \<noteq> map_len (ot_CheckpointTxs s))
       (Errorf ''invalid number of signed checkpoint txs'')
     (guard_err (map_len commitmentTxsByCheckpointTxid = 0) (Errorf ''missing commitment txids'')
     (guard_err (rootCommitmentTx = []) (Errorf ''missing root commitment txid'')
     (guard_err (\<not> OffchainTx_IsRequested s) (Errorf ''not in a valid stage to accept offchain tx'')
     (guard_err (expiryTimestamp \<le> 0) (Errorf ''missing expiry timestamp'')
       (let event = OffchainTxAccepted \<lparr>ev_Id = ot_ArkTxid s, ev_Type = EventTypeOffchainTxAccepted\<rparr>
              \<lparr>ota_CommitmentTxids = commitmentTxsByCheckpointTxid,
               ota_RootCommitmentTxid = rootCommitmentTx, ota_FinalArkTx = finalArkTx,
               ota_SignedCheckpointTxs = signedCheckpointTxs, ota_ExpiryTimestamp = expiryTimestamp,
               ota_Depth = depth, ota_ParentMarkerIDs = parentMarkerIDs\<rparr>
        in Inr (OffchainTx_raise event s, event))))))))"

definition OffchainTx_Finalize ::
    "int \<Rightarrow> string gomap \<Rightarrow> OffchainTx \<Rightarrow> (OffchainTx \<times> Event) gores" where
  "OffchainTx_Finalize now finalCheckpointTxs s =
     guard_err (map_len finalCheckpointTxs = 0) (Errorf ''missing final checkpoint txs'')
     (guard_err (map_len finalCheckpointTxs \<noteq> map_len (ot_CheckpointTxs s))
       (Errorf ''invalid number of final checkpoint txs'')
     (rbind (check_all (\<lambda>(txid, _).
          guard_err (map_of finalCheckpointTxs txid = None)
            (Errorf (''cannot finalize offchain tx, checkpoint tx '' @ txid @ '' not found''))
            (Inr ())) (ot_CheckpointTxs s))
       (\<lambda>_. guard_err (stage_Code (ot_Stage s) \<noteq> OffchainTxAcceptedStage)
          (Errorf ''not in a valid stage to finalize offchain tx'')
          (let event = OffchainTxFinalized
                 \<lparr>ev_Id = ot_ArkTxid s, ev_Type = EventTypeOffchainTxFinalized\<rparr>
                 \<lparr>otf_FinalCheckpointTxs = finalCheckpointTxs, otf_Timestamp = now\<rparr>
           in Inr (OffchainTx_raise event s, event)))))"

definition OffchainTx_Fail :: "int \<Rightarrow> string \<Rightarrow> OffchainTx \<Rightarrow> OffchainTx \<times> Event" where
  "OffchainTx_Fail now err s =
     (let event = OffchainTxFailed
            \<lparr>ev_Id = ot_ArkTxid s, ev_Type = EventTypeOffchainTxFailed\<rparr> err now
      in (OffchainTx_raise event s, event))"

section \<open>The aggregate as a state machine\<close>

text \<open>One command, a reload from the stored events, or a retry: a stored history to which a new
  attempt at the same transaction has added its own request.\<close>

inductive offchain_step :: "OffchainTx \<Rightarrow> OffchainTx \<Rightarrow> bool" where
  step_request: "Request now txid tx cps s = Inr (s', e) \<Longrightarrow> offchain_step s s'"
| step_accept: "Accept tx cps cmts root expiry depth markers s = Inr (s', e) \<Longrightarrow> offchain_step s s'"
| step_finalize: "OffchainTx_Finalize now cps s = Inr (s', e) \<Longrightarrow> offchain_step s s'"
| step_fail: "OffchainTx_Fail now err s = (s', e) \<Longrightarrow> offchain_step s s'"
| step_reload: "s' = NewOffchainTxFromEvents (OffchainTx_Events s) \<Longrightarrow> offchain_step s s'"
| step_retry:
    "Request now txid tx cps NewOffchainTx = Inr (s1, e) \<Longrightarrow>
     s' = NewOffchainTxFromEvents (OffchainTx_Events s @ [e]) \<Longrightarrow> offchain_step s s'"

inductive offchain_reachable :: "OffchainTx \<Rightarrow> bool" where
  reach_new: "offchain_reachable NewOffchainTx"
| reach_step: "offchain_reachable s \<Longrightarrow> offchain_step s s' \<Longrightarrow> offchain_reachable s'"

lemmas offchain_pred_defs =
  OffchainTx_IsFailed_def OffchainTx_IsRequested_def OffchainTx_IsAccepted_def
  OffchainTx_IsFinalized_def


subsection \<open>The fold of events\<close>

definition offchain_core :: "OffchainTx \<Rightarrow> OffchainTx" where
  "offchain_core s = s\<lparr>ot_Version := 0, ot_changes := []\<rparr>"

lemma offchain_core_eqD:
  "offchain_core s1 = offchain_core s2 \<Longrightarrow>
     s1 = s2\<lparr>ot_Version := ot_Version s1, ot_changes := ot_changes s1\<rparr>"
  unfolding offchain_core_def by (cases s1; cases s2) simp

lemma OffchainTx_on_changes [simp]: "ot_changes (OffchainTx_on e b s) = ot_changes s"
  by (cases e) (auto simp: OffchainTx_on_def offchain_apply_def Let_def)

lemma OffchainTx_on_core:
  "offchain_core (OffchainTx_on e b s) = offchain_core (OffchainTx_on e b' (offchain_core s))"
  by (cases e) (auto simp: OffchainTx_on_def offchain_apply_def offchain_core_def Let_def)

interpretation offchain_es: event_sourced OffchainTx_on OffchainTx_raise NewOffchainTxFromEvents
    NewOffchainTx ot_changes "\<lambda>es s. s\<lparr>ot_changes := es\<rparr>" offchain_core
proof unfold_locales
  fix s s' :: OffchainTx and e b b'
  assume "offchain_core s = offchain_core s'"
  then show "offchain_core (OffchainTx_on e b s) = offchain_core (OffchainTx_on e b' s')"
    by (metis OffchainTx_on_core)
qed (simp_all add: OffchainTx_raise_def NewOffchainTxFromEvents_def offchain_core_def)

lemma rebuild_offchain_Version:
  "ot_Version (NewOffchainTxFromEvents es) \<le> length es"
proof -
  have "ot_Version (OffchainTx_on e True s) \<le> Suc (ot_Version s)" for e s
    by (cases e) (auto simp: OffchainTx_on_def offchain_apply_def Let_def)
  then have "ot_Version (fold (\<lambda>e. OffchainTx_on e True) es s) \<le> ot_Version s + length es" for s
  proof (induction es arbitrary: s)
    case (Cons e es)
    show ?case using Cons.IH [OF Cons.prems, of "OffchainTx_on e True s"] Cons.prems [of e s] by simp
  qed simp
  from this [of NewOffchainTx] show ?thesis by (simp add: NewOffchainTxFromEvents_def NewOffchainTx_def)
qed

text \<open>The events that commands raise, with the guards of the commands.\<close>

definition offchain_allowed :: "Event \<Rightarrow> OffchainTx \<Rightarrow> bool" where
  "offchain_allowed e s \<longleftrightarrow>
     (case e of
        OffchainTxRequested b f \<Rightarrow> ev_Id b \<noteq> [] \<and> otr_ArkTx f \<noteq> [] \<and> otr_UnsignedCheckpointTxs f \<noteq> []
      | OffchainTxAccepted b f \<Rightarrow>
          ota_FinalArkTx f \<noteq> [] \<and> ota_SignedCheckpointTxs f \<noteq> [] \<and> ota_CommitmentTxids f \<noteq> [] \<and>
          ota_RootCommitmentTxid f \<noteq> [] \<and> ota_ExpiryTimestamp f > 0 \<and> OffchainTx_IsRequested s
      | OffchainTxFinalized b f \<Rightarrow>
          stage_Code (ot_Stage s) = OffchainTxAcceptedStage \<and>
          dom (map_of (otf_FinalCheckpointTxs f)) = dom (map_of (ot_CheckpointTxs s)) \<and>
          otf_FinalCheckpointTxs f \<noteq> []
      | OffchainTxFailed b reason ts \<Rightarrow> True
      | _ \<Rightarrow> False)"

lemma finalize_keys:
  assumes "map_len fin = map_len cps" and "\<forall>(txid, x) \<in> set cps. map_of fin txid \<noteq> None"
  shows "dom (map_of fin) = dom (map_of cps)"
proof (rule sym, rule card_subset_eq)
  show "dom (map_of cps) \<subseteq> dom (map_of fin)"
    using assms(2) by (auto dest!: map_of_SomeD)
qed (use assms(1) in \<open>simp_all add: map_len_card finite_dom_map_of\<close>)

lemma Finalize_Inr:
  assumes "OffchainTx_Finalize now cps s = Inr (s', e)"
  shows "s' = OffchainTx_raise e s \<and> offchain_allowed e s"
proof -
  have "dom (map_of cps) = dom (map_of (ot_CheckpointTxs s))"
    using assms unfolding OffchainTx_Finalize_def
    by (intro finalize_keys) (auto simp: guard_err_eq_Inr rbind_eq_Inr check_all_eq_Inr)
  then show ?thesis using assms
    by (auto simp: OffchainTx_Finalize_def guard_err_eq_Inr rbind_eq_Inr Let_def offchain_allowed_def)
qed

definition offchain_history :: "OffchainTx \<Rightarrow> bool" where
  "offchain_history s \<longleftrightarrow> offchain_core (NewOffchainTxFromEvents (ot_changes s)) = offchain_core s"

lemma offchain_step_cases:
  assumes "offchain_step s s'" and "offchain_history s"
  obtains (same) "offchain_core s' = offchain_core s" "offchain_history s'"
    | (event) e where "offchain_core s' = offchain_core (OffchainTx_raise e s)" "offchain_allowed e s"
        "offchain_history s'"
  using assms(1)
proof (cases rule: offchain_step.cases)
  case (step_request now txid tx cps e)
  then have "s' = OffchainTx_raise e s" "offchain_allowed e s"
    by (auto simp: Request_def guard_err_eq_Inr Let_def offchain_allowed_def)
  then show ?thesis using event assms(2) offchain_es.replay_raise by (simp add: offchain_history_def)
next
  case (step_accept tx cps cmts root expiry depth markers e)
  then have "s' = OffchainTx_raise e s" "offchain_allowed e s"
    by (auto simp: Accept_def guard_err_eq_Inr Let_def offchain_allowed_def)
  then show ?thesis using event assms(2) offchain_es.replay_raise by (simp add: offchain_history_def)
next
  case (step_finalize now cps e)
  then have "s' = OffchainTx_raise e s" "offchain_allowed e s" using Finalize_Inr by blast+
  then show ?thesis using event assms(2) offchain_es.replay_raise by (simp add: offchain_history_def)
next
  case (step_fail now err e)
  then have "s' = OffchainTx_raise e s" "offchain_allowed e s"
    by (auto simp: OffchainTx_Fail_def Let_def offchain_allowed_def)
  then show ?thesis using event assms(2) offchain_es.replay_raise by (simp add: offchain_history_def)
next
  case step_reload
  then show ?thesis using same assms(2) by (simp add: offchain_history_def OffchainTx_Events_def)
next
  case (step_retry now txid tx cps s1 e)
  have "offchain_allowed e s"
    using step_retry(1) by (auto simp: Request_def guard_err_eq_Inr Let_def offchain_allowed_def)
  moreover have "offchain_core s' = offchain_core (OffchainTx_raise e s)"
    using step_retry(2) offchain_es.replay_raise assms(2)
    by (simp add: offchain_history_def OffchainTx_Events_def)
  moreover have "offchain_history s'"
    using step_retry(2) by (simp add: offchain_history_def)
  ultimately show ?thesis using event by blast
qed

lemma offchain_reachable_history: "offchain_reachable s \<Longrightarrow> offchain_history s"
proof (induction rule: offchain_reachable.induct)
  case reach_new
  show ?case by (simp add: offchain_history_def NewOffchainTxFromEvents_def offchain_core_def NewOffchainTx_def)
next
  case (reach_step s s')
  from reach_step.hyps(2) reach_step.IH show ?case by (cases rule: offchain_step_cases)
qed

text \<open>an offchain transaction loaded from its stored events is the one that was stored, up to
  the version; the version counts at most the stored events, because the fold skips those that
  do not fit.\<close>

theorem offchain_replay:
  assumes "offchain_reachable s"
  shows "\<exists>v \<le> length (OffchainTx_Events s).
    NewOffchainTxFromEvents (OffchainTx_Events s) = s\<lparr>ot_Version := v\<rparr>"
proof -
  let ?n = "NewOffchainTxFromEvents (ot_changes s)"
  have core: "offchain_core ?n = offchain_core s"
    using offchain_reachable_history [OF assms] by (simp add: offchain_history_def)
  from offchain_core_eqD [OF core] have "?n = s\<lparr>ot_Version := ot_Version ?n\<rparr>" by simp
  then show ?thesis using rebuild_offchain_Version unfolding OffchainTx_Events_def by blast
qed


subsection \<open>Well-formed transactions\<close>

definition offchain_wf :: "OffchainTx \<Rightarrow> bool" where
  "offchain_wf s \<longleftrightarrow>
     stage_Code (ot_Stage s) \<in> {0, 1, 2, 3} \<and>
     (stage_Code (ot_Stage s) \<ge> OffchainTxRequestedStage \<longrightarrow>
        ot_ArkTxid s \<noteq> [] \<and> ot_ArkTx s \<noteq> [] \<and> ot_CheckpointTxs s \<noteq> []) \<and>
     (stage_Code (ot_Stage s) \<ge> OffchainTxAcceptedStage \<longrightarrow>
        ot_CommitmentTxids s \<noteq> [] \<and> ot_RootCommitmentTxId s \<noteq> [] \<and> ot_ExpiryTimestamp s > 0) \<and>
     (stage_Ended (ot_Stage s) \<longleftrightarrow> stage_Code (ot_Stage s) = OffchainTxFinalizedStage) \<and>
     (stage_Code (ot_Stage s) = OffchainTxFinalizedStage \<longrightarrow>
        \<not> stage_Failed (ot_Stage s) \<and> ot_FailReason s = [])"

lemma offchain_wf_core: "offchain_wf (offchain_core s) = offchain_wf s"
  by (simp add: offchain_wf_def offchain_core_def)

lemma offchain_wf_raise:
  assumes "offchain_wf s" and "offchain_allowed e s"
  shows "offchain_wf (OffchainTx_raise e s)"
  using assms
  by (cases e)
     (auto simp: offchain_wf_def offchain_allowed_def OffchainTx_raise_def OffchainTx_on_def
        offchain_apply_def offchain_stage_defs offchain_pred_defs Let_def)

lemma offchain_reachable_wf: "offchain_reachable s \<Longrightarrow> offchain_wf s"
proof (induction rule: offchain_reachable.induct)
  case reach_new
  show ?case by (simp add: offchain_wf_def NewOffchainTx_def empty_Stage_def offchain_stage_defs)
next
  case (reach_step s s')
  from reach_step.hyps(2) offchain_reachable_history [OF reach_step.hyps(1)] show ?case
    by (cases rule: offchain_step_cases)
       (metis offchain_wf_core reach_step.IH offchain_wf_raise)+
qed

text \<open>C23: a finalized offchain transaction is complete and settled for good: it carries its
  identifiers, checkpoints, commitment transactions and expiry, no failure, and whatever events
  a later failure, retry or repetition adds to its stored history, loading that history gives
  the same transaction again.\<close>

theorem finalized_offchain_tx_is_final:
  assumes "offchain_reachable s" and "OffchainTx_IsFinalized s"
  shows "ot_ArkTxid s \<noteq> [] \<and> ot_CheckpointTxs s \<noteq> [] \<and> ot_CommitmentTxids s \<noteq> [] \<and>
    ot_RootCommitmentTxId s \<noteq> [] \<and> ot_ExpiryTimestamp s > 0 \<and> ot_FailReason s = [] \<and>
    (\<exists>v. NewOffchainTxFromEvents (OffchainTx_Events s @ later) =
       s\<lparr>ot_Version := v, ot_changes := OffchainTx_Events s @ later\<rparr>)"
proof -
  have wf: "offchain_wf s" by (rule offchain_reachable_wf [OF assms(1)])
  have fin: "stage_Code (ot_Stage s) = 3" using assms(2) by (simp add: offchain_pred_defs offchain_stage_defs)
  have stuck: "offchain_core (OffchainTx_on e True t) = offchain_core t"
    if "stage_Code (ot_Stage t) = 3" for e t
    using that by (cases e) (auto simp: OffchainTx_on_def offchain_apply_def offchain_core_def
        offchain_stage_defs Let_def)
  have stage: "stage_Code (ot_Stage (offchain_core t)) = stage_Code (ot_Stage t)" for t
    by (simp add: offchain_core_def)
  have folded: "offchain_core (fold (\<lambda>e. OffchainTx_on e True) later t) = offchain_core t"
    if "stage_Code (ot_Stage t) = 3" for t
    using that by (induction later arbitrary: t) (auto, metis stage stuck)
  let ?n = "NewOffchainTxFromEvents (ot_changes s @ later)"
  have hist: "offchain_core (NewOffchainTxFromEvents (ot_changes s)) = offchain_core s"
    using offchain_reachable_history [OF assms(1)] by (simp add: offchain_history_def)
  then have "stage_Code (ot_Stage (NewOffchainTxFromEvents (ot_changes s))) = 3"
    using fin stage by metis
  then have core: "offchain_core ?n = offchain_core s"
    using offchain_es.core_rebuild_append folded hist by simp
  from offchain_core_eqD [OF core] have "?n = s\<lparr>ot_Version := ot_Version ?n, ot_changes := ot_changes s @ later\<rparr>"
    by simp
  then show ?thesis
    using wf fin unfolding OffchainTx_Events_def
    by (auto simp: offchain_wf_def offchain_stage_defs)
qed

text \<open>\<open>Finalize\<close> succeeds only on an accepted transaction and only with final checkpoints for
  exactly the checkpoint transactions that were signed; then the transaction is finalized, a
  failure of an earlier attempt is cleared, and the stored history grows by the one event.\<close>

theorem finalize_keeps_checkpoints:
  assumes "OffchainTx_Finalize now cps s = Inr (s', e)"
  shows "stage_Code (ot_Stage s) = OffchainTxAcceptedStage \<and>
    dom (map_of cps) = dom (map_of (ot_CheckpointTxs s)) \<and>
    ot_CheckpointTxs s' = cps \<and> OffchainTx_IsFinalized s' \<and> ot_FailReason s' = [] \<and>
    ot_EndingTimestamp s' = now \<and> OffchainTx_Events s' = OffchainTx_Events s @ [e]"
proof -
  have e: "e = OffchainTxFinalized \<lparr>ev_Id = ot_ArkTxid s, ev_Type = EventTypeOffchainTxFinalized\<rparr>
      \<lparr>otf_FinalCheckpointTxs = cps, otf_Timestamp = now\<rparr>"
    using assms by (auto simp: OffchainTx_Finalize_def guard_err_eq_Inr rbind_eq_Inr Let_def)
  have "s' = OffchainTx_raise e s" "offchain_allowed e s" using Finalize_Inr [OF assms] by auto
  then show ?thesis
    unfolding e
    by (auto simp: offchain_allowed_def OffchainTx_raise_def OffchainTx_on_def offchain_apply_def
        offchain_pred_defs offchain_stage_defs OffchainTx_Events_def Let_def)
qed

subsection \<open>A transaction that fails once and is finalized\<close>

definition sample_request :: Event where
  "sample_request = OffchainTxRequested \<lparr>ev_Id = ''ark'', ev_Type = EventTypeOffchainTxRequested\<rparr>
     \<lparr>otr_ArkTx = ''tx'', otr_UnsignedCheckpointTxs = [(''cp'', ''unsigned'')], otr_StartingTimestamp = 1\<rparr>"

definition sample_requested :: OffchainTx where
  "sample_requested = OffchainTx_raise sample_request NewOffchainTx"

definition sample_accepted :: OffchainTx where
  "sample_accepted = OffchainTx_raise
     (OffchainTxAccepted \<lparr>ev_Id = ''ark'', ev_Type = EventTypeOffchainTxAccepted\<rparr>
        \<lparr>ota_CommitmentTxids = [(''cp'', ''c'')], ota_RootCommitmentTxid = ''c'', ota_FinalArkTx = ''final'',
         ota_SignedCheckpointTxs = [(''cp'', ''signed'')], ota_ExpiryTimestamp = 100, ota_Depth = 1,
         ota_ParentMarkerIDs = []\<rparr>) sample_requested"

definition sample_accepted_failed :: OffchainTx where
  "sample_accepted_failed = OffchainTx_raise
     (OffchainTxFailed \<lparr>ev_Id = ''ark'', ev_Type = EventTypeOffchainTxFailed\<rparr> ''timeout'' 5) sample_accepted"

definition sample_finalization :: Event where
  "sample_finalization = OffchainTxFinalized \<lparr>ev_Id = ''ark'', ev_Type = EventTypeOffchainTxFinalized\<rparr>
     \<lparr>otf_FinalCheckpointTxs = [(''cp'', ''final'')], otf_Timestamp = 9\<rparr>"

definition sample_finalized :: OffchainTx where
  "sample_finalized = OffchainTx_raise sample_finalization sample_accepted_failed"

lemmas sample_offchain_defs =
  sample_request_def sample_requested_def sample_accepted_def sample_accepted_failed_def
  sample_finalization_def sample_finalized_def NewOffchainTx_def OffchainTx_raise_def
  OffchainTx_on_def offchain_apply_def Let_def offchain_stage_defs empty_Stage_def

lemma sample_finalize:
  "OffchainTx_Finalize 9 [(''cp'', ''final'')] sample_accepted_failed = Inr (sample_finalized, sample_finalization)"
  by (simp add: OffchainTx_Finalize_def sample_offchain_defs map_len_def)

lemma sample_offchain_reachable: "offchain_reachable sample_finalized"
proof -
  have s1: "offchain_reachable sample_requested"
    by (rule offchain_reachable.reach_step [OF offchain_reachable.reach_new],
        rule step_request [where now = 1 and txid = "''ark''" and tx = "''tx''" and cps = "[(''cp'', ''unsigned'')]"])
       (simp add: Request_def sample_offchain_defs offchain_pred_defs map_len_def)
  have s2: "offchain_reachable sample_accepted"
    by (rule offchain_reachable.reach_step [OF s1],
        rule step_accept [where tx = "''final''" and cps = "[(''cp'', ''signed'')]" and cmts = "[(''cp'', ''c'')]"
          and root = "''c''" and expiry = 100 and depth = 1 and markers = "[]"])
       (simp add: Accept_def sample_offchain_defs offchain_pred_defs map_len_def)
  have s3: "offchain_reachable sample_accepted_failed"
    by (rule offchain_reachable.reach_step [OF s2], rule step_fail [where now = 5 and err = "''timeout''"])
       (simp add: OffchainTx_Fail_def sample_offchain_defs)
  show ?thesis
    by (rule offchain_reachable.reach_step [OF s3], rule step_finalize [OF sample_finalize])
qed

theorem offchain_replay_witness:
  "\<exists>v \<le> 4. NewOffchainTxFromEvents (OffchainTx_Events sample_finalized) = sample_finalized\<lparr>ot_Version := v\<rparr>"
proof -
  have "length (OffchainTx_Events sample_finalized) = 4"
    by (simp add: OffchainTx_Events_def sample_offchain_defs)
  then show ?thesis using offchain_replay [OF sample_offchain_reachable] by simp
qed

theorem finalized_offchain_tx_is_final_witness:
  "\<exists>v. NewOffchainTxFromEvents (OffchainTx_Events sample_finalized @ [sample_request]) =
     sample_finalized\<lparr>ot_Version := v, ot_changes := OffchainTx_Events sample_finalized @ [sample_request]\<rparr>"
proof -
  have "OffchainTx_IsFinalized sample_finalized"
    by (simp add: sample_offchain_defs offchain_pred_defs)
  from finalized_offchain_tx_is_final [OF sample_offchain_reachable this, of "[sample_request]"]
  show ?thesis by blast
qed

theorem finalize_keeps_checkpoints_witness:
  "OffchainTx_IsFailed sample_accepted_failed \<and> OffchainTx_IsFinalized sample_finalized \<and>
   dom (map_of [(''cp'', ''final'')]) = dom (map_of (ot_CheckpointTxs sample_accepted_failed))"
  using finalize_keeps_checkpoints [OF sample_finalize]
  by (simp add: sample_offchain_defs offchain_pred_defs)

end
