(* ===== verification/Pg_Tables.thy ===== *)
theory Pg_Tables
  imports Domain_Round Domain_Offchain_Tx
begin

section \<open>The tables of the projection store\<close>

text \<open>
  \<open>internal/infrastructure/db/postgres\<close>: the schema (\<open>migration/*.up.sql\<close>), the statements
  (\<open>sqlc/query.sql\<close>), the transaction loop \<open>execTx\<close> of \<open>utils.go\<close> and the view of a vtxo that the
  readers use. A table is an association list from its primary key to the other columns, in the order
  of insertion. A nullable column is an \<open>option\<close>; \<open>int32(vout)\<close> and \<open>int64(amount)\<close> are stored and
  read back with the inverse conversion, so the columns keep the unsigned words. A statement returns
  the tables after it or the error of the constraint that it violates: a unique key, a foreign key,
  or the trigger on \<open>utxo\<close>. \<open>updated_at\<close> is left out: no operation modelled here reads it.
\<close>

subsection \<open>Rows\<close>

record vtxo_row =
  vr_pubkey :: string
  vr_amount :: u64
  vr_expires_at :: int
  vr_created_at :: int
  vr_commitment_txid :: string
  vr_spent_by :: "string option"
  vr_spent :: bool
  vr_unrolled :: bool
  vr_preconfirmed :: bool
  vr_settled_by :: "string option"
  vr_ark_txid :: "string option"
  vr_intent_id :: "string option"
  vr_depth :: u32
  vr_markers :: "string list"

record marker_row =
  mr_depth :: u32
  mr_parent_markers :: "string list"

record asset_row =
  ar_is_immutable :: bool
  ar_metadata_hash :: "string option"
  ar_metadata :: "string option"
  ar_control_asset_id :: "string option"

record utxo_row =
  ur_pubkey :: "string option"
  ur_amount :: "u64 option"
  ur_spent_by :: string
  ur_created_at :: int
  ur_spend_confirmed_at_time :: "int option"
  ur_spend_confirmed_at_height :: "u64 option"

record round_row =
  rr_starting_timestamp :: int
  rr_ending_timestamp :: int
  rr_ended :: bool
  rr_failed :: bool
  rr_fail_reason :: "string option"
  rr_stage_code :: int
  rr_connector_address :: string
  rr_version :: nat
  rr_swept :: bool
  rr_vtxo_tree_expiration :: int
  rr_fees :: u64

record tx_row =
  tr_tx :: string
  tr_round_id :: string
  tr_type :: string
  tr_position :: nat
  tr_children :: "(u32 \<times> string) list option"

record intent_row =
  ir_round_id :: string
  ir_proof :: string
  ir_message :: string
  ir_txid :: string

record offchain_tx_row =
  or_tx :: string
  or_starting_timestamp :: int
  or_ending_timestamp :: int
  or_expiry_timestamp :: int
  or_fail_reason :: "string option"
  or_stage_code :: int

record checkpoint_tx_row =
  cr_tx :: string
  cr_commitment_txid :: string
  cr_is_root_commitment_txid :: bool
  cr_offchain_txid :: string

record Db =
  tbl_round :: "(string \<times> round_row) list"
  tbl_intent :: "(string \<times> intent_row) list"
  tbl_receiver :: "((string \<times> string \<times> string) \<times> u64) list"
  tbl_tx :: "(string \<times> tx_row) list"
  tbl_vtxo :: "(Outpoint \<times> vtxo_row) list"
  tbl_vtxo_commitment_txid :: "((Outpoint \<times> string) \<times> unit) list"
  tbl_offchain_tx :: "(string \<times> offchain_tx_row) list"
  tbl_checkpoint_tx :: "(string \<times> checkpoint_tx_row) list"
  tbl_asset :: "(string \<times> asset_row) list"
  tbl_asset_projection :: "((string \<times> Outpoint) \<times> u64) list"
  tbl_marker :: "(string \<times> marker_row) list"
  tbl_swept_marker :: "(string \<times> int) list"
  tbl_swept_vtxo :: "(Outpoint \<times> int) list"
  tbl_onchain_tx :: "(string \<times> string) list"
  tbl_utxo :: "(Outpoint \<times> utxo_row) list"

definition empty_Db :: Db where
  "empty_Db =
     \<lparr>tbl_round = [], tbl_intent = [], tbl_receiver = [], tbl_tx = [], tbl_vtxo = [],
      tbl_vtxo_commitment_txid = [], tbl_offchain_tx = [], tbl_checkpoint_tx = [], tbl_asset = [],
      tbl_asset_projection = [], tbl_marker = [], tbl_swept_marker = [], tbl_swept_vtxo = [],
      tbl_onchain_tx = [], tbl_utxo = []\<rparr>"

subsection \<open>Statements\<close>

definition has_row :: "('k \<times> 'r) list \<Rightarrow> 'k \<Rightarrow> bool" where
  "has_row t k \<longleftrightarrow> k \<in> fst ` set t"

text \<open>\<open>sql.NullString{String: s, Valid: len(s) > 0}\<close> and its field \<open>String\<close>.\<close>

definition null_string :: "string \<Rightarrow> string option" where
  "null_string s = (if length s > 0 then Some s else None)"

definition col_string :: "string option \<Rightarrow> string" where
  "col_string c = (case c of None \<Rightarrow> [] | Some s \<Rightarrow> s)"

definition unique_violation :: go_error where
  "unique_violation = Errorf ''pq: duplicate key value violates unique constraint''"

definition fk_violation :: go_error where
  "fk_violation = Errorf ''pq: insert or update on table violates foreign key constraint''"

definition insert_row :: "'k \<Rightarrow> 'r \<Rightarrow> ('k \<times> 'r) list \<Rightarrow> ('k \<times> 'r) list gores" where
  "insert_row k r t = guard_err (has_row t k) unique_violation (Inr (t @ [(k, r)]))"

text \<open>\<open>INSERT ... ON CONFLICT DO NOTHING\<close>\<close>

definition insert_new :: "'r \<Rightarrow> 'k \<Rightarrow> ('k \<times> 'r) list \<Rightarrow> ('k \<times> 'r) list" where
  "insert_new r k t = (if has_row t k then t else t @ [(k, r)])"

text \<open>\<open>UPDATE ... WHERE key = k\<close>: no row with the key, no change.\<close>

definition update_row :: "'k \<Rightarrow> ('r \<Rightarrow> 'r) \<Rightarrow> ('k \<times> 'r) list \<Rightarrow> ('k \<times> 'r) list" where
  "update_row k f t = map (\<lambda>(k', r). (k', if k' = k then f r else r)) t"

definition UpsertVtxo :: "Outpoint \<Rightarrow> vtxo_row \<Rightarrow> Db \<Rightarrow> Db" where
  "UpsertVtxo op r db =
     (let kept = (case map_of (tbl_vtxo db) op of None \<Rightarrow> None | Some old \<Rightarrow> vr_intent_id old)
      in db\<lparr>tbl_vtxo := AList.update op (r\<lparr>vr_intent_id := kept\<rparr>) (tbl_vtxo db)\<rparr>)"

definition InsertVtxoCommitmentTxid :: "Outpoint \<Rightarrow> string \<Rightarrow> Db \<Rightarrow> Db gores" where
  "InsertVtxoCommitmentTxid op txid db =
     guard_err (\<not> has_row (tbl_vtxo db) op) fk_violation
       (rbind (insert_row (op, txid) () (tbl_vtxo_commitment_txid db))
         (\<lambda>t. Inr (db\<lparr>tbl_vtxo_commitment_txid := t\<rparr>)))"

definition InsertVtxoAssetProjection :: "string \<Rightarrow> Outpoint \<Rightarrow> u64 \<Rightarrow> Db \<Rightarrow> Db gores" where
  "InsertVtxoAssetProjection assetId op amount db =
     guard_err (\<not> has_row (tbl_asset db) assetId \<or> \<not> has_row (tbl_vtxo db) op) fk_violation
       (rbind (insert_row (assetId, op) amount (tbl_asset_projection db))
         (\<lambda>t. Inr (db\<lparr>tbl_asset_projection := t\<rparr>)))"

definition UpdateVtxoSettled :: "Outpoint \<Rightarrow> string option \<Rightarrow> string option \<Rightarrow> Db \<Rightarrow> Db" where
  "UpdateVtxoSettled op spentBy settledBy db =
     db\<lparr>tbl_vtxo := update_row op
          (\<lambda>r. r\<lparr>vr_spent := True, vr_spent_by := spentBy, vr_settled_by := settledBy\<rparr>) (tbl_vtxo db)\<rparr>"

definition UpdateVtxoSpent :: "Outpoint \<Rightarrow> string option \<Rightarrow> string option \<Rightarrow> Db \<Rightarrow> Db" where
  "UpdateVtxoSpent op spentBy arkTxid db =
     db\<lparr>tbl_vtxo := update_row op
          (\<lambda>r. r\<lparr>vr_spent := True, vr_spent_by := spentBy, vr_ark_txid := arkTxid\<rparr>) (tbl_vtxo db)\<rparr>"

definition UpdateVtxoExpiration :: "Outpoint \<Rightarrow> int \<Rightarrow> Db \<Rightarrow> Db" where
  "UpdateVtxoExpiration op expiresAt db =
     db\<lparr>tbl_vtxo := update_row op (\<lambda>r. r\<lparr>vr_expires_at := expiresAt\<rparr>) (tbl_vtxo db)\<rparr>"

definition UpdateVtxoIntentId :: "string \<Rightarrow> Outpoint \<Rightarrow> Db \<Rightarrow> Db gores" where
  "UpdateVtxoIntentId intentId op db =
     guard_err (has_row (tbl_vtxo db) op \<and> \<not> has_row (tbl_intent db) intentId) fk_violation
       (Inr (db\<lparr>tbl_vtxo := update_row op (\<lambda>r. r\<lparr>vr_intent_id := Some intentId\<rparr>) (tbl_vtxo db)\<rparr>))"

text \<open>\<open>UPDATE vtxo SET unrolled = true ... AND unrolled = false RETURNING *\<close>: the rows it changed.\<close>

definition UpdateVtxosUnrolled :: "Outpoint list \<Rightarrow> Db \<Rightarrow> Db \<times> (Outpoint \<times> vtxo_row) list" where
  "UpdateVtxosUnrolled ops db =
     (let hit = (\<lambda>(op, r). op \<in> set ops \<and> \<not> vr_unrolled r);
          set_unrolled = (\<lambda>(op, r). (op, r\<lparr>vr_unrolled := True\<rparr>))
      in (db\<lparr>tbl_vtxo := map (\<lambda>p. if hit p then set_unrolled p else p) (tbl_vtxo db)\<rparr>,
          map set_unrolled (filter hit (tbl_vtxo db))))"

definition UpsertMarker :: "string \<Rightarrow> u32 \<Rightarrow> string list \<Rightarrow> Db \<Rightarrow> Db" where
  "UpsertMarker mid depth parents db =
     db\<lparr>tbl_marker := AList.update mid \<lparr>mr_depth = depth, mr_parent_markers = parents\<rparr> (tbl_marker db)\<rparr>"

definition UpdateVtxoMarkers :: "Outpoint \<Rightarrow> string list \<Rightarrow> Db \<Rightarrow> Db" where
  "UpdateVtxoMarkers op markers db =
     db\<lparr>tbl_vtxo := update_row op (\<lambda>r. r\<lparr>vr_markers := markers\<rparr>) (tbl_vtxo db)\<rparr>"

definition BulkInsertSweptMarkers :: "string list \<Rightarrow> int \<Rightarrow> Db \<Rightarrow> Db gores" where
  "BulkInsertSweptMarkers ids sweptAt db =
     guard_err (\<exists>m \<in> set ids. \<not> has_row (tbl_marker db) m) fk_violation
       (Inr (db\<lparr>tbl_swept_marker := fold (insert_new sweptAt) ids (tbl_swept_marker db)\<rparr>))"

definition BulkInsertSweptVtxos :: "Outpoint list \<Rightarrow> int \<Rightarrow> Db \<Rightarrow> Db gores" where
  "BulkInsertSweptVtxos ops sweptAt db =
     Inr (db\<lparr>tbl_swept_vtxo := fold (insert_new sweptAt) ops (tbl_swept_vtxo db)\<rparr>)"

text \<open>A row that references itself is a valid insertion.\<close>

definition InsertAsset :: "string \<Rightarrow> asset_row \<Rightarrow> Db \<Rightarrow> Db gores" where
  "InsertAsset aid r db =
     guard_err (case ar_control_asset_id r of
                  None \<Rightarrow> False | Some c \<Rightarrow> c \<noteq> aid \<and> \<not> has_row (tbl_asset db) c) fk_violation
       (rbind (insert_row aid r (tbl_asset db)) (\<lambda>t. Inr (db\<lparr>tbl_asset := t\<rparr>)))"

definition InsertOnchainTx :: "string \<Rightarrow> string \<Rightarrow> Db \<Rightarrow> Db gores" where
  "InsertOnchainTx txid tx db =
     rbind (insert_row txid tx (tbl_onchain_tx db)) (\<lambda>t. Inr (db\<lparr>tbl_onchain_tx := t\<rparr>))"

text \<open>The trigger \<open>check_utxo_shape\<close> and the check of the table.\<close>

definition check_utxo_shape :: "Outpoint \<Rightarrow> utxo_row \<Rightarrow> Db \<Rightarrow> unit gores" where
  "check_utxo_shape op r db =
     (let is_unrolled_vtxo = map_option vr_unrolled (map_of (tbl_vtxo db) op)
      in guard_err (ur_pubkey r = None \<and> is_unrolled_vtxo \<noteq> Some True)
           (Errorf ''pq: utxo has no attributes and is not an unrolled vtxo'')
        (guard_err (ur_pubkey r \<noteq> None \<and> is_unrolled_vtxo \<noteq> None)
           (Errorf ''pq: utxo duplicates a vtxo'')
        (guard_err ((ur_pubkey r = None) \<noteq> (ur_amount r = None))
           (Errorf ''pq: new row for relation utxo violates check constraint'') (Inr ()))))"

definition InsertUtxo :: "Outpoint \<Rightarrow> utxo_row \<Rightarrow> Db \<Rightarrow> Db gores" where
  "InsertUtxo op r db =
     rbind (check_utxo_shape op r db) (\<lambda>_.
       rbind (insert_row op r (tbl_utxo db)) (\<lambda>t. Inr (db\<lparr>tbl_utxo := t\<rparr>)))"

text \<open>The number of rows updated, and the tables.\<close>

definition UpdateUtxo :: "Outpoint \<Rightarrow> int \<Rightarrow> u64 \<Rightarrow> Db \<Rightarrow> nat \<times> Db" where
  "UpdateUtxo op t h db =
     (let hit = (\<lambda>(k, r). k = op \<and> ur_spend_confirmed_at_time r = None)
      in (length (filter hit (tbl_utxo db)),
          db\<lparr>tbl_utxo := map (\<lambda>p. if hit p
               then (fst p, (snd p)\<lparr>ur_spend_confirmed_at_time := Some t,
                                    ur_spend_confirmed_at_height := Some h\<rparr>)
               else p) (tbl_utxo db)\<rparr>))"

definition UpsertRound :: "string \<Rightarrow> round_row \<Rightarrow> Db \<Rightarrow> Db" where
  "UpsertRound rid r db = db\<lparr>tbl_round := AList.update rid r (tbl_round db)\<rparr>"

definition UpsertTx :: "string \<Rightarrow> tx_row \<Rightarrow> Db \<Rightarrow> Db gores" where
  "UpsertTx txid r db =
     guard_err (\<not> has_row (tbl_round db) (tr_round_id r)) fk_violation
       (Inr (db\<lparr>tbl_tx := AList.update txid r (tbl_tx db)\<rparr>))"

definition UpsertIntent :: "string \<Rightarrow> intent_row \<Rightarrow> Db \<Rightarrow> Db gores" where
  "UpsertIntent iid r db =
     guard_err (\<not> has_row (tbl_round db) (ir_round_id r)) fk_violation
       (Inr (db\<lparr>tbl_intent := AList.update iid r (tbl_intent db)\<rparr>))"

definition UpsertReceiver :: "string \<Rightarrow> string \<Rightarrow> string \<Rightarrow> u64 \<Rightarrow> Db \<Rightarrow> Db gores" where
  "UpsertReceiver intentId pubkey onchainAddress amount db =
     guard_err (\<not> has_row (tbl_intent db) intentId) fk_violation
       (Inr (db\<lparr>tbl_receiver := AList.update (intentId, pubkey, onchainAddress) amount (tbl_receiver db)\<rparr>))"

definition UpsertOffchainTx :: "string \<Rightarrow> offchain_tx_row \<Rightarrow> Db \<Rightarrow> Db" where
  "UpsertOffchainTx txid r db = db\<lparr>tbl_offchain_tx := AList.update txid r (tbl_offchain_tx db)\<rparr>"

definition UpsertCheckpointTx :: "string \<Rightarrow> checkpoint_tx_row \<Rightarrow> Db \<Rightarrow> Db gores" where
  "UpsertCheckpointTx txid r db =
     guard_err (\<not> has_row (tbl_offchain_tx db) (cr_offchain_txid r)) fk_violation
       (Inr (db\<lparr>tbl_checkpoint_tx := AList.update txid r (tbl_checkpoint_tx db)\<rparr>))"
subsection \<open>Transactions\<close>

text \<open>\<open>execTx\<close> runs its body up to \<open>maxRetries\<close> times, again only after an error whose text
  \<open>isConflictError\<close> recognises. What the server does with an attempt is a parameter: whether the
  transaction begins, whether a statement fails on its own account, whether the commit goes through.
  A transaction that is rolled back leaves the tables as they were.\<close>

fun error_text :: "go_error \<Rightarrow> string" where
  "error_text (Errorf s) = s"
| "error_text (Errorw s e) = s @ error_text e"
| "error_text (GoIO e) = []"
| "error_text (GoHex e) = []"

definition to_lower :: "string \<Rightarrow> string" where
  "to_lower s = map (\<lambda>c. if of_char c \<in> {65..90::nat} then char_of (of_char c + 32 :: nat) else c) s"

definition isConflictError :: "go_error \<Rightarrow> bool" where
  "isConflictError err =
     (let errMsg = to_lower (error_text err)
      in Contains errMsg ''database is locked'' \<or> Contains errMsg ''database table is locked'' \<or>
         Contains errMsg ''unique constraint failed'' \<or>
         Contains errMsg ''foreign key constraint failed'' \<or>
         Contains errMsg ''busy'' \<or> Contains errMsg ''locked'')"

record attempt =
  at_Begin :: "go_error option"
  at_Statement :: "go_error option"
  at_Commit :: "go_error option"

definition maxRetries :: nat where
  "maxRetries = 5"

fun exec_attempts ::
    "nat \<Rightarrow> nat \<Rightarrow> (nat \<Rightarrow> attempt) \<Rightarrow> go_error option \<Rightarrow> ('s \<Rightarrow> 's gores) \<Rightarrow> 's \<Rightarrow> 's \<times> go_error option" where
  "exec_attempts 0 i att lastErr txBody db = (db, lastErr)"
| "exec_attempts (Suc n) i att lastErr txBody db =
     (case at_Begin (att i) of
        Some err \<Rightarrow> (db, Some (Errorw ''failed to begin transaction: '' err))
      | None \<Rightarrow>
          (case (case at_Statement (att i) of Some err \<Rightarrow> Inl err | None \<Rightarrow> txBody db) of
             Inl err \<Rightarrow>
               if isConflictError err then exec_attempts n (Suc i) att (Some err) txBody db
               else (db, Some err)
           | Inr db' \<Rightarrow>
               (case at_Commit (att i) of
                  None \<Rightarrow> (db', None)
                | Some err \<Rightarrow>
                    if isConflictError err then exec_attempts n (Suc i) att (Some err) txBody db
                    else (db, Some (Errorw ''failed to commit transaction: '' err)))))"

definition execTx :: "(nat \<Rightarrow> attempt) \<Rightarrow> ('s \<Rightarrow> 's gores) \<Rightarrow> 's \<Rightarrow> 's \<times> go_error option" where
  "execTx att txBody db = exec_attempts maxRetries 0 att None txBody db"

text \<open>A single statement outside a transaction.\<close>

definition exec_stmt :: "(nat \<Rightarrow> attempt) \<Rightarrow> ('s \<Rightarrow> 's gores) \<Rightarrow> 's \<Rightarrow> 's \<times> go_error option" where
  "exec_stmt att stmt db =
     (case (case at_Statement (att 0) of Some err \<Rightarrow> Inl err | None \<Rightarrow> stmt db) of
        Inl err \<Rightarrow> (db, Some err) | Inr db' \<Rightarrow> (db', None))"

text \<open>A read: it may fail, and it changes nothing.\<close>

definition exec_query :: "(nat \<Rightarrow> attempt) \<Rightarrow> 'a \<Rightarrow> 'a gores" where
  "exec_query att a = (case at_Statement (att 0) of Some err \<Rightarrow> Inl err | None \<Rightarrow> Inr a)"

text \<open>\<open>for _, x := range xs { if err := f(x); err != nil { return err } }\<close> inside a transaction.\<close>

fun foreach :: "('a \<Rightarrow> 's \<Rightarrow> 's gores) \<Rightarrow> 'a list \<Rightarrow> 's \<Rightarrow> 's gores" where
  "foreach f [] db = Inr db"
| "foreach f (x # xs) db = rbind (f x db) (foreach f xs)"

subsection \<open>The view of a vtxo\<close>

record VtxoVw =
  vw_Outpoint :: Outpoint
  vw_Row :: vtxo_row
  vw_Commitments :: string
  vw_Swept :: bool
  vw_AssetID :: string
  vw_AssetAmount :: u64

fun string_agg :: "string list \<Rightarrow> string" where
  "string_agg [] = []"
| "string_agg [s] = s"
| "string_agg (s # t # ss) = s @ '','' @ string_agg (t # ss)"

text \<open>A vtxo is swept when one of its markers is, or when its outpoint is.\<close>

definition row_swept :: "Db \<Rightarrow> Outpoint \<Rightarrow> vtxo_row \<Rightarrow> bool" where
  "row_swept db op r \<longleftrightarrow>
     (\<exists>m \<in> set (vr_markers r). has_row (tbl_swept_marker db) m) \<or> has_row (tbl_swept_vtxo db) op"

definition commitments_of :: "Db \<Rightarrow> Outpoint \<Rightarrow> string list" where
  "commitments_of db op =
     map (snd \<circ> fst) (filter (\<lambda>((o', _), _). o' = op) (tbl_vtxo_commitment_txid db))"

definition assets_of :: "Db \<Rightarrow> Outpoint \<Rightarrow> (string \<times> u64) list" where
  "assets_of db op =
     map (\<lambda>((aid, _), amount). (aid, amount))
       (filter (\<lambda>((_, o'), _). o' = op) (tbl_asset_projection db))"

text \<open>\<open>vtxo_vw\<close>: one row per asset of the vtxo (a left join), or one row without asset.\<close>

definition vtxo_vw_rows :: "Db \<Rightarrow> Outpoint \<times> vtxo_row \<Rightarrow> VtxoVw list" where
  "vtxo_vw_rows db p =
     (let (op, r) = p;
          row = (\<lambda>(aid, amount).
            \<lparr>vw_Outpoint = op, vw_Row = r, vw_Commitments = string_agg (commitments_of db op),
             vw_Swept = row_swept db op r, vw_AssetID = aid, vw_AssetAmount = amount\<rparr>)
      in case assets_of db op of [] \<Rightarrow> [row ([], 0)] | as \<Rightarrow> map row as)"

definition vtxo_vw :: "Db \<Rightarrow> VtxoVw list" where
  "vtxo_vw db = concat (map (vtxo_vw_rows db) (tbl_vtxo db))"
subsection \<open>Lemmas on tables\<close>

lemma has_row_map_of: "has_row t k \<longleftrightarrow> map_of t k \<noteq> None"
  by (auto simp: has_row_def map_of_eq_None_iff)

lemma has_row_update [simp]: "has_row (AList.update k r t) k' \<longleftrightarrow> k' = k \<or> has_row t k'"
  by (auto simp: has_row_map_of update_conv')

lemma map_fst_update_row [simp]: "map fst (update_row k f t) = map fst t"
  by (simp add: update_row_def case_prod_beta comp_def)

lemma has_row_update_row [simp]: "has_row (update_row k f t) k' \<longleftrightarrow> has_row t k'"
  using map_fst_update_row [of k f t] by (metis has_row_def list.set_map)

lemma map_of_update_row [simp]:
  "map_of (update_row k f t) k' = (if k' = k then map_option f (map_of t k') else map_of t k')"
  by (induction t) (auto simp: update_row_def)

lemma has_row_insert_new [simp]: "has_row (insert_new r k t) k' \<longleftrightarrow> k' = k \<or> has_row t k'"
  by (auto simp: insert_new_def has_row_def)

lemma has_row_fold_insert_new [simp]:
  "has_row (fold (insert_new r) ks t) k' \<longleftrightarrow> k' \<in> set ks \<or> has_row t k'"
  by (induction ks arbitrary: t) auto

lemma insert_new_same: "has_row t k \<Longrightarrow> insert_new r k t = t"
  by (simp add: insert_new_def)

lemma fold_insert_new_same: "\<forall>k \<in> set ks. has_row t k \<Longrightarrow> fold (insert_new r) ks t = t"
  by (induction ks) (auto simp: insert_new_same)

lemma insert_row_eq_Inr [res_elims]:
  "insert_row k r t = Inr t' \<longleftrightarrow> \<not> has_row t k \<and> t' = t @ [(k, r)]"
  by (auto simp: insert_row_def guard_err_def)

lemma has_row_append [simp]: "has_row (t @ [(k, r)]) k' \<longleftrightarrow> k' = k \<or> has_row t k'"
  by (auto simp: has_row_def)

lemma col_string_null [simp]: "col_string (null_string s) = s"
  by (simp add: col_string_def null_string_def)

subsection \<open>Lemmas on transactions\<close>

lemma exec_attempts_cases:
  assumes "exec_attempts n i att lastErr txBody db = (db', e)" and "n = 0 \<Longrightarrow> lastErr \<noteq> None"
  shows "e = None \<and> txBody db = Inr db' \<or> e \<noteq> None \<and> db' = db"
  using assms
proof (induction n i att lastErr txBody db rule: exec_attempts.induct)
  case (2 n i att lastErr txBody db)
  then show ?case
    by (auto split: option.splits sum.splits if_splits)
qed auto

text \<open>A transaction commits the effect of its body as a whole or leaves the tables as they were.\<close>

lemma execTx_atomic:
  assumes "execTx att txBody db = (db', e)"
  shows "e = None \<and> txBody db = Inr db' \<or> e \<noteq> None \<and> db' = db"
  using exec_attempts_cases [OF assms [unfolded execTx_def]] by (simp add: maxRetries_def)

lemma exec_stmt_atomic:
  assumes "exec_stmt att stmt db = (db', e)"
  shows "e = None \<and> stmt db = Inr db' \<or> e \<noteq> None \<and> db' = db"
  using assms by (auto simp: exec_stmt_def split: option.splits sum.splits)

text \<open>The contract of a call to the server, with or without a transaction, and what its clients use of
  it.\<close>

locale atomic_call =
  fixes run :: "(nat \<Rightarrow> attempt) \<Rightarrow> ('s \<Rightarrow> 's gores) \<Rightarrow> 's \<Rightarrow> 's \<times> go_error option"
  assumes atomic: "run att body db = (db', e) \<Longrightarrow> e = None \<and> body db = Inr db' \<or> e \<noteq> None \<and> db' = db"
begin

lemma committed: "run att body db = (db', None) \<Longrightarrow> body db = Inr db'"
  by (drule atomic) simp

lemma rolled_back: "run att body db = (db', Some err) \<Longrightarrow> db' = db"
  by (drule atomic) simp

text \<open>What the body keeps, the call keeps, also when it fails.\<close>

lemma invariant:
  assumes "run att body db = (db', e)" "I db" "\<And>s'. body db = Inr s' \<Longrightarrow> I s'"
  shows "I db'"
  using atomic [OF assms(1)] assms(2,3) by auto

end

interpretation tx_call: atomic_call execTx
  by unfold_locales (rule execTx_atomic)

interpretation stmt_call: atomic_call exec_stmt
  by unfold_locales (rule exec_stmt_atomic)

lemmas execTx_None = tx_call.committed
lemmas execTx_Some = tx_call.rolled_back
lemmas exec_stmt_None = stmt_call.committed
lemmas exec_stmt_Some = stmt_call.rolled_back

definition calm :: attempt where
  "calm = \<lparr>at_Begin = None, at_Statement = None, at_Commit = None\<rparr>"

text \<open>With a server that serves the call, a body without error is committed at once.\<close>

lemma execTx_calm:
  "att 0 = calm \<Longrightarrow> txBody db = Inr db' \<Longrightarrow> execTx att txBody db = (db', None)"
  by (simp add: execTx_def maxRetries_def calm_def eval_nat_numeral)

lemma exec_stmt_calm: "att 0 = calm \<Longrightarrow> stmt db = Inr db' \<Longrightarrow> exec_stmt att stmt db = (db', None)"
  by (simp add: exec_stmt_def calm_def)

lemma exec_query_eq_Inr [res_elims]: "exec_query att a = Inr b \<longleftrightarrow> at_Statement (att 0) = None \<and> b = a"
  by (auto simp: exec_query_def split: option.splits)

lemma foreach_invariant:
  assumes "foreach f xs db = Inr db'" "I db"
    and "\<And>x s s'. x \<in> set xs \<Longrightarrow> I s \<Longrightarrow> f x s = Inr s' \<Longrightarrow> I s'"
  shows "I db'"
  using assms by (induction f xs db rule: foreach.induct) (auto simp: rbind_eq_Inr)

lemma rbind_cong: "r = r' \<Longrightarrow> (\<And>a. f a = g a) \<Longrightarrow> rbind r f = rbind r' g"
  by (cases r') simp_all

lemma foreach_append: "foreach f (xs @ ys) db = rbind (foreach f xs db) (foreach f ys)"
  by (induction xs arbitrary: db) (simp_all add: rbind_assoc cong: rbind_cong)

subsection \<open>Lemmas on the view\<close>

lemma vtxo_vw_rows_nonempty: "vtxo_vw_rows db p \<noteq> []"
  by (simp add: vtxo_vw_rows_def Let_def split: prod.split list.split)

lemma vtxo_vw_rows_fields:
  assumes "w \<in> set (vtxo_vw_rows db (op, r))"
  shows "vw_Outpoint w = op" "vw_Row w = r" "vw_Swept w = row_swept db op r"
  using assms by (auto simp: vtxo_vw_rows_def Let_def split: list.splits)

lemma vtxo_vw_rows_ex:
  "(\<exists>w \<in> set (vtxo_vw_rows db (op, r)). P (vw_Outpoint w) (vw_Row w) (vw_Swept w)) \<longleftrightarrow>
     P op r (row_swept db op r)"
proof
  assume "P op r (row_swept db op r)"
  moreover obtain w where "w \<in> set (vtxo_vw_rows db (op, r))"
    using vtxo_vw_rows_nonempty [of db "(op, r)"] by (cases "vtxo_vw_rows db (op, r)") auto
  ultimately show "\<exists>w \<in> set (vtxo_vw_rows db (op, r)). P (vw_Outpoint w) (vw_Row w) (vw_Swept w)"
    using vtxo_vw_rows_fields by (intro bexI [of _ w]) auto
qed (auto simp: vtxo_vw_rows_fields)

lemma vtxo_vw_ex:
  "(\<exists>w \<in> set (vtxo_vw db). P (vw_Outpoint w) (vw_Row w) (vw_Swept w)) \<longleftrightarrow>
     (\<exists>p \<in> set (tbl_vtxo db). P (fst p) (snd p) (row_swept db (fst p) (snd p)))"
proof -
  have "(\<exists>w \<in> set (vtxo_vw db). P (vw_Outpoint w) (vw_Row w) (vw_Swept w)) \<longleftrightarrow>
      (\<exists>p \<in> set (tbl_vtxo db). \<exists>w \<in> set (vtxo_vw_rows db p). P (vw_Outpoint w) (vw_Row w) (vw_Swept w))"
    by (auto simp: vtxo_vw_def)
  also have "\<dots> \<longleftrightarrow> (\<exists>p \<in> set (tbl_vtxo db). P (fst p) (snd p) (row_swept db (fst p) (snd p)))"
    using vtxo_vw_rows_ex [of db "fst p" "snd p" P for p] by (metis prod.collapse)
  finally show ?thesis .
qed
subsection \<open>Integrity of the tables\<close>

text \<open>Primary keys are unique, and every foreign key names a row.\<close>

definition keys_ok :: "Db \<Rightarrow> bool" where
  "keys_ok db \<longleftrightarrow>
     distinct (map fst (tbl_round db)) \<and> distinct (map fst (tbl_intent db)) \<and>
     distinct (map fst (tbl_receiver db)) \<and> distinct (map fst (tbl_tx db)) \<and>
     distinct (map fst (tbl_vtxo db)) \<and> distinct (map fst (tbl_vtxo_commitment_txid db)) \<and>
     distinct (map fst (tbl_offchain_tx db)) \<and> distinct (map fst (tbl_checkpoint_tx db)) \<and>
     distinct (map fst (tbl_asset db)) \<and> distinct (map fst (tbl_asset_projection db)) \<and>
     distinct (map fst (tbl_marker db)) \<and> distinct (map fst (tbl_swept_marker db)) \<and>
     distinct (map fst (tbl_swept_vtxo db)) \<and> distinct (map fst (tbl_onchain_tx db)) \<and>
     distinct (map fst (tbl_utxo db))"

text \<open>The references that the proofs use. The two remaining foreign keys, from a vtxo to its intent and from an asset to its control
  asset, are checked by the statements that write them and are not part of it.\<close>

definition refs_ok :: "Db \<Rightarrow> bool" where
  "refs_ok db \<longleftrightarrow>
     (\<forall>r \<in> snd ` set (tbl_intent db). has_row (tbl_round db) (ir_round_id r)) \<and>
     (\<forall>k \<in> fst ` set (tbl_receiver db). has_row (tbl_intent db) (fst k)) \<and>
     (\<forall>r \<in> snd ` set (tbl_tx db). has_row (tbl_round db) (tr_round_id r)) \<and>
     (\<forall>k \<in> fst ` set (tbl_vtxo_commitment_txid db). has_row (tbl_vtxo db) (fst k)) \<and>
     (\<forall>r \<in> snd ` set (tbl_checkpoint_tx db). has_row (tbl_offchain_tx db) (cr_offchain_txid r)) \<and>
     (\<forall>k \<in> fst ` set (tbl_asset_projection db). has_row (tbl_asset db) (fst k) \<and> has_row (tbl_vtxo db) (snd k)) \<and>
     (\<forall>k \<in> fst ` set (tbl_swept_marker db). has_row (tbl_marker db) k)"

definition db_ok :: "Db \<Rightarrow> bool" where
  "db_ok db \<longleftrightarrow> keys_ok db \<and> refs_ok db"

lemma distinct_keys_append: "distinct (map fst (t @ [(k, r)])) \<longleftrightarrow> distinct (map fst t) \<and> \<not> has_row t k"
  by (auto simp: has_row_def)

lemma distinct_insert_new: "distinct (map fst t) \<Longrightarrow> distinct (map fst (insert_new r k t))"
  by (simp add: insert_new_def distinct_keys_append del: map_append)

lemma distinct_fold_insert_new: "distinct (map fst t) \<Longrightarrow> distinct (map fst (fold (insert_new r) ks t))"
  by (induction ks arbitrary: t) (simp_all add: distinct_insert_new)

lemma update_rows_subset: "set (AList.update k v t) \<subseteq> insert (k, v) (set t)"
  by (induction t) auto

lemma ball_update: "P (k, v) \<Longrightarrow> \<forall>x \<in> set t. P x \<Longrightarrow> \<forall>x \<in> set (AList.update k v t). P x"
  using update_rows_subset [of k v t] by blast

lemma fst_set_update: "fst ` set (AList.update k v t) = insert k (fst ` set t)"
  using has_row_update [of k v t] unfolding has_row_def by blast

lemma fst_set_fold_insert_new: "fst ` set (fold (insert_new r) ks t) = set ks \<union> fst ` set t"
  using has_row_fold_insert_new [of r ks t] unfolding has_row_def by blast

lemma fold_insert_new_ball:
  "(\<forall>x \<in> set (fold (insert_new r) ks t). P (fst x)) \<longleftrightarrow> (\<forall>k \<in> set ks. P k) \<and> (\<forall>x \<in> set t. P (fst x))"
proof -
  have "(\<forall>x \<in> set (fold (insert_new r) ks t). P (fst x)) \<longleftrightarrow> (\<forall>k \<in> fst ` set (fold (insert_new r) ks t). P k)"
    by simp
  then show ?thesis unfolding fst_set_fold_insert_new by auto
qed

lemma fst_set_update_row: "fst ` set (update_row k f t) = fst ` set t"
  using has_row_update_row [of k f t] unfolding has_row_def by blast

lemmas key_simps = distinct_update distinct_keys_append distinct_fold_insert_new map_fst_update_row

lemma keys_ok_stmts:
  assumes "keys_ok db"
  shows "keys_ok (UpsertVtxo op vr db)" "keys_ok (UpdateVtxoSettled op s1 s2 db)"
    "keys_ok (UpdateVtxoSpent op s1 s2 db)" "keys_ok (UpdateVtxoExpiration op e db)"
    "keys_ok (UpsertMarker mid d ps db)" "keys_ok (UpdateVtxoMarkers op ms db)"
    "keys_ok (UpsertRound rid rr db)" "keys_ok (UpsertOffchainTx txid orow db)"
  using assms
  by (simp_all add: keys_ok_def UpsertVtxo_def Let_def UpdateVtxoSettled_def UpdateVtxoSpent_def
      UpdateVtxoExpiration_def UpsertMarker_def UpdateVtxoMarkers_def UpsertRound_def UpsertOffchainTx_def
      key_simps)

lemma refs_ok_stmts:
  assumes "refs_ok db"
  shows "refs_ok (UpsertVtxo op vr db)" "refs_ok (UpdateVtxoSettled op s1 s2 db)"
    "refs_ok (UpdateVtxoSpent op s1 s2 db)" "refs_ok (UpdateVtxoExpiration op e db)"
    "refs_ok (UpsertMarker mid d ps db)" "refs_ok (UpdateVtxoMarkers op ms db)"
    "refs_ok (UpsertRound rid rr db)" "refs_ok (UpsertOffchainTx txid orow db)"
  using assms
  by (simp_all add: refs_ok_def UpsertVtxo_def Let_def UpdateVtxoSettled_def UpdateVtxoSpent_def
      UpdateVtxoExpiration_def UpsertMarker_def UpdateVtxoMarkers_def UpsertRound_def UpsertOffchainTx_def)

lemmas db_ok_stmts = keys_ok_stmts refs_ok_stmts

lemma db_ok_UpdateVtxosUnrolled:
  assumes "db_ok db"
  shows "db_ok (fst (UpdateVtxosUnrolled ops db))"
proof -
  let ?f = "\<lambda>p. if (case p of (op, r) \<Rightarrow> op \<in> set ops \<and> \<not> vr_unrolled r)
    then (case p of (op, r) \<Rightarrow> (op, r\<lparr>vr_unrolled := True\<rparr>)) else p"
  obtain t where t: "fst (UpdateVtxosUnrolled ops db) = db\<lparr>tbl_vtxo := t\<rparr>" "map fst t = map fst (tbl_vtxo db)"
    by (rule that [of "map ?f (tbl_vtxo db)"]) (auto simp: UpdateVtxosUnrolled_def Let_def)
  from t(2) have "has_row t k \<longleftrightarrow> has_row (tbl_vtxo db) k" for k by (metis has_row_def list.set_map)
  then show ?thesis using assms t by (simp add: db_ok_def keys_ok_def refs_ok_def)
qed

text \<open>The statements that can fail.\<close>

lemma keys_ok_res:
  assumes "keys_ok db"
  shows "InsertVtxoCommitmentTxid op c db = Inr db' \<Longrightarrow> keys_ok db'"
    "InsertVtxoAssetProjection aid op amount db = Inr db' \<Longrightarrow> keys_ok db'"
    "UpdateVtxoIntentId iid op db = Inr db' \<Longrightarrow> keys_ok db'"
    "BulkInsertSweptMarkers ids at db = Inr db' \<Longrightarrow> keys_ok db'"
    "BulkInsertSweptVtxos ops at db = Inr db' \<Longrightarrow> keys_ok db'"
    "InsertAsset aid ar db = Inr db' \<Longrightarrow> keys_ok db'"
    "InsertOnchainTx txid tx db = Inr db' \<Longrightarrow> keys_ok db'"
    "InsertUtxo op ur db = Inr db' \<Longrightarrow> keys_ok db'"
    "UpsertTx txid tr db = Inr db' \<Longrightarrow> keys_ok db'"
    "UpsertIntent iid ir db = Inr db' \<Longrightarrow> keys_ok db'"
    "UpsertReceiver iid pk addr amount db = Inr db' \<Longrightarrow> keys_ok db'"
    "UpsertCheckpointTx txid cr db = Inr db' \<Longrightarrow> keys_ok db'"
  using assms
  by (clarsimp simp: res_elims InsertVtxoCommitmentTxid_def InsertVtxoAssetProjection_def
      UpdateVtxoIntentId_def BulkInsertSweptMarkers_def BulkInsertSweptVtxos_def InsertAsset_def
      InsertOnchainTx_def InsertUtxo_def UpsertTx_def UpsertIntent_def UpsertReceiver_def UpsertCheckpointTx_def,
      simp add: keys_ok_def key_simps del: map_append)+

lemma refs_ok_res:
  assumes "refs_ok db"
  shows "InsertVtxoCommitmentTxid op c db = Inr db' \<Longrightarrow> refs_ok db'"
    "InsertVtxoAssetProjection aid op amount db = Inr db' \<Longrightarrow> refs_ok db'"
    "UpdateVtxoIntentId iid op db = Inr db' \<Longrightarrow> refs_ok db'"
    "BulkInsertSweptMarkers ids at db = Inr db' \<Longrightarrow> refs_ok db'"
    "BulkInsertSweptVtxos ops at db = Inr db' \<Longrightarrow> refs_ok db'"
    "InsertAsset aid ar db = Inr db' \<Longrightarrow> refs_ok db'"
    "InsertOnchainTx txid tx db = Inr db' \<Longrightarrow> refs_ok db'"
    "InsertUtxo op ur db = Inr db' \<Longrightarrow> refs_ok db'"
  using assms
  by (clarsimp simp: res_elims InsertVtxoCommitmentTxid_def InsertVtxoAssetProjection_def
      UpdateVtxoIntentId_def BulkInsertSweptMarkers_def BulkInsertSweptVtxos_def InsertAsset_def
      InsertOnchainTx_def InsertUtxo_def, simp add: refs_ok_def fold_insert_new_ball)+

lemma refs_ok_UpsertTx:
  assumes "refs_ok db" "UpsertTx txid tr db = Inr db'"
  shows "refs_ok db'"
proof -
  have db': "db' = db\<lparr>tbl_tx := AList.update txid tr (tbl_tx db)\<rparr>" and r: "has_row (tbl_round db) (tr_round_id tr)"
    using assms(2) by (simp_all add: UpsertTx_def guard_err_eq_Inr)
  have "\<forall>x \<in> set (AList.update txid tr (tbl_tx db)). has_row (tbl_round db) (tr_round_id (snd x))"
    using assms(1) r by (intro ball_update) (simp_all add: refs_ok_def)
  then show ?thesis using assms(1) unfolding db' refs_ok_def by simp
qed

lemma refs_ok_UpsertIntent:
  assumes "refs_ok db" "UpsertIntent iid ir db = Inr db'"
  shows "refs_ok db'"
proof -
  have db': "db' = db\<lparr>tbl_intent := AList.update iid ir (tbl_intent db)\<rparr>" and r: "has_row (tbl_round db) (ir_round_id ir)"
    using assms(2) by (simp_all add: UpsertIntent_def guard_err_eq_Inr)
  have "\<forall>x \<in> set (AList.update iid ir (tbl_intent db)). has_row (tbl_round db) (ir_round_id (snd x))"
    using assms(1) r by (intro ball_update) (simp_all add: refs_ok_def)
  then show ?thesis using assms(1) unfolding db' refs_ok_def by simp
qed

lemma refs_ok_UpsertReceiver:
  assumes "refs_ok db" "UpsertReceiver iid pk addr amount db = Inr db'"
  shows "refs_ok db'"
proof -
  have db': "db' = db\<lparr>tbl_receiver := AList.update (iid, pk, addr) amount (tbl_receiver db)\<rparr>" and r: "has_row (tbl_intent db) iid"
    using assms(2) by (simp_all add: UpsertReceiver_def guard_err_eq_Inr)
  have "\<forall>x \<in> set (AList.update (iid, pk, addr) amount (tbl_receiver db)). has_row (tbl_intent db) (fst (fst x))"
    using assms(1) r by (intro ball_update) (simp_all add: refs_ok_def)
  then show ?thesis using assms(1) unfolding db' refs_ok_def by simp
qed

lemma refs_ok_UpsertCheckpointTx:
  assumes "refs_ok db" "UpsertCheckpointTx txid cr db = Inr db'"
  shows "refs_ok db'"
proof -
  have db': "db' = db\<lparr>tbl_checkpoint_tx := AList.update txid cr (tbl_checkpoint_tx db)\<rparr>" and r: "has_row (tbl_offchain_tx db) (cr_offchain_txid cr)"
    using assms(2) by (simp_all add: UpsertCheckpointTx_def guard_err_eq_Inr)
  have "\<forall>x \<in> set (AList.update txid cr (tbl_checkpoint_tx db)). has_row (tbl_offchain_tx db) (cr_offchain_txid (snd x))"
    using assms(1) r by (intro ball_update) (simp_all add: refs_ok_def)
  then show ?thesis using assms(1) unfolding db' refs_ok_def by simp
qed

lemmas db_ok_res = keys_ok_res refs_ok_res refs_ok_UpsertTx refs_ok_UpsertIntent refs_ok_UpsertReceiver
  refs_ok_UpsertCheckpointTx

end
