(* ===== verification/Extension.thy ===== *)
theory Extension
  imports Asset_Packet Bitcoin_Tx
begin

section \<open>Extensions\<close>

text \<open>
  \<open>pkg/ark-lib/extension\<close>: \<open>extension.go\<close> and \<open>packet.go\<close>. An extension is a list of typed packets in
  one OP\_RETURN output. The interface \<open>Packet\<close> has the two implementations of the repository. The
  script tokenizer is third-party code, an argument as in \<open>Bitcoin_Tx\<close>; \<open>tokenizes_pushes\<close> states
  what the code relies on. A nil packet, also a nil asset packet, is \<open>None\<close>.
\<close>

definition ArkadeMagic :: bytes where
  "ArkadeMagic = [0x41, 0x52, 0x4B]"

datatype ExtPacket = AssetPacket Packet | UnknownPacket u8 bytes

definition ExtPacket_Type :: "ExtPacket \<Rightarrow> u8" where
  "ExtPacket_Type p = (case p of AssetPacket _ \<Rightarrow> PacketType | UnknownPacket t _ \<Rightarrow> t)"

definition ExtPacket_Serialize :: "ExtPacket \<Rightarrow> bytes gores" where
  "ExtPacket_Serialize p =
     (case p of AssetPacket ap \<Rightarrow> Packet_Serialize ap | UnknownPacket _ d \<Rightarrow> Inr d)"

type_synonym Extension = "ExtPacket list"

fun add_packets :: "u8 set \<Rightarrow> ExtPacket option list \<Rightarrow> Extension gores" where
  "add_packets seen [] = Inr []"
| "add_packets seen (None # ps) = Inl (Errorf ''extension packet must not be nil'')"
| "add_packets seen (Some p # ps) =
     guard_err (ExtPacket_Type p \<in> seen) (Errorf ''duplicate packet type'')
       (rbind (add_packets (insert (ExtPacket_Type p) seen) ps) (\<lambda>ext. Inr (p # ext)))"

definition NewExtensionFromPackets :: "ExtPacket option list \<Rightarrow> Extension gores" where
  "NewExtensionFromPackets pkts =
     guard_err (length pkts = 0) (Errorf ''missing packets'') (add_packets {} pkts)"

definition opReturnScript :: "bytes \<Rightarrow> bytes" where
  "opReturnScript data =
     (let n = length data
      in (if n \<le> 75 then [OP_RETURN, of_nat n]
          else if n \<le> 255 then [OP_RETURN, OP_PUSHDATA1, of_nat n]
          else if n \<le> 65535 then [OP_RETURN, OP_PUSHDATA2] @ PutUint16 (of_nat n)
          else [OP_RETURN, OP_PUSHDATA4] @ PutUint32 (of_nat n)) @ data)"

definition ext_serializeVarSlice :: "bytes \<Rightarrow> bytes gores" where
  "ext_serializeVarSlice buf = Inr (PutUvarint (of_nat (length buf)) @ buf)"

definition write_packet :: "ExtPacket \<Rightarrow> bytes gores" where
  "write_packet packet =
     rbind (map_err (Errorw ''failed to serialize packet: '') (ExtPacket_Serialize packet)) (\<lambda>packetBytes.
       rbind (ext_serializeVarSlice packetBytes) (\<lambda>b. Inr (ExtPacket_Type packet # b)))"

definition Extension_Serialize :: "Extension \<Rightarrow> bytes gores" where
  "Extension_Serialize e =
     guard_err (length e = 0) (Errorf ''cannot serialize empty extension: missing packets'')
       (rbind (write_all write_packet e) (\<lambda>w. Inr (opReturnScript (ArkadeMagic @ w))))"

definition Extension_TxOut :: "Extension \<Rightarrow> TxOut gores" where
  "Extension_TxOut e =
     rbind (Extension_Serialize e) (\<lambda>script. Inr \<lparr>out_Value = 0, out_PkScript = script\<rparr>)"

definition GetAssetPacket :: "Extension \<Rightarrow> Packet option" where
  "GetAssetPacket e =
     (case List.map_filter (\<lambda>p. case p of AssetPacket ap \<Rightarrow> Some ap | _ \<Rightarrow> None) e of
        [] \<Rightarrow> None | ap # _ \<Rightarrow> Some ap)"

definition GetPacketByType :: "u8 \<Rightarrow> Extension \<Rightarrow> ExtPacket option" where
  "GetPacketByType t e = find (\<lambda>p. ExtPacket_Type p = t) e"

definition IsExtension :: "tokenizer \<Rightarrow> bytes \<Rightarrow> bool" where
  "IsExtension tok script =
     (case tok script of
        (op, _) # rest \<Rightarrow>
          op = OP_RETURN \<and>
          (case rest of
             (_, data) # _ \<Rightarrow>
               let d = (case data of None \<Rightarrow> [] | Some d \<Rightarrow> d)
               in length d \<ge> length ArkadeMagic \<and> take (length ArkadeMagic) d = ArkadeMagic
           | [] \<Rightarrow> False)
      | [] \<Rightarrow> False)"

definition parsePacket :: "u8 \<Rightarrow> bytes \<Rightarrow> ExtPacket gores" where
  "parsePacket packetType packetData =
     (if packetType = PacketType
      then rbind (NewPacketFromBytes packetData) (\<lambda>p. Inr (AssetPacket p))
      else Inr (UnknownPacket packetType packetData))"

definition ext_deserializeVarSlice :: "bytes \<Rightarrow> (bytes \<times> bytes) gores" where
  "ext_deserializeVarSlice r =
     map_err GoIO
       (rbind (ReadUvarint r) (\<lambda>(l, r').
          guard_err (unat l > length r') EOF (reader_Read (unat l) r')))"

lemma ext_deserializeVarSlice_length:
  "ext_deserializeVarSlice r = Inr (d, r') \<Longrightarrow> length r' < length r"
proof -
  assume "ext_deserializeVarSlice r = Inr (d, r')"
  then obtain l r1 where "ReadUvarint r = Inr (l, r1)" "r' = drop (unat l) r1"
    by (auto simp: ext_deserializeVarSlice_def map_err_eq_Inr rbind_eq_Inr guard_err_eq_Inr reader_Read_def
        split: if_splits)
  moreover from this have "length r1 < length r"
    using uvarint.dec_front by (auto dest!: uvarint.dec_front simp: strict_suffix_def suffix_def)
  ultimately show ?thesis by simp
qed

text \<open>The loop over the packets of the payload.\<close>

function parse_packets :: "bytes \<Rightarrow> Extension gores" where
  "parse_packets [] = Inr []"
| "parse_packets (packetType # r) =
     (case ext_deserializeVarSlice r of
        Inl err \<Rightarrow> Inl (Errorw ''missing packet data: '' err)
      | Inr (packetData, r') \<Rightarrow>
          rbind (parsePacket packetType packetData) (\<lambda>packet.
            rbind (parse_packets r') (\<lambda>packets. Inr (packet # packets))))"
  by pat_completeness auto
termination
  by (relation "measure length") (auto dest!: ext_deserializeVarSlice_length)

definition NewExtensionFromBytes :: "tokenizer \<Rightarrow> bytes \<Rightarrow> Extension gores" where
  "NewExtensionFromBytes tok data =
     (case tok data of
        [] \<Rightarrow> Inl (Errorw ''missing OP_RETURN: '' (GoIO EOF))
      | (op, _) # rest \<Rightarrow>
          guard_err (op \<noteq> OP_RETURN)
            (Errorf (''expected OP_RETURN, got '' @ dec_string (unat op)))
            (case rest of
               [] \<Rightarrow> Inl (Errorw ''missing magic prefix: '' (GoIO EOF))
             | (_, d) # _ \<Rightarrow>
                 let payload = (case d of None \<Rightarrow> [] | Some d \<Rightarrow> d)
                 in guard_err (length payload < length ArkadeMagic)
                      (Errorw ''missing magic prefix: ''
                        (GoIO (if payload = [] then EOF else ErrUnexpectedEOF)))
                   (guard_err (take (length ArkadeMagic) payload \<noteq> ArkadeMagic)
                      (Errorf ''unexpected magic prefix'')
                   (rbind (parse_packets (drop (length ArkadeMagic) payload)) (\<lambda>extension.
                      guard_err (length extension = 0) (Errorf ''missing packets'')
                     (guard_err (\<not> distinct (map ExtPacket_Type extension))
                        (Errorf ''duplicate packet type'')
                        (Inr extension)))))))"

definition ErrExtensionNotFound :: go_error where
  "ErrExtensionNotFound = Errorf ''no extension output found in transaction''"

definition NewExtensionFromTx :: "tokenizer \<Rightarrow> MsgTx \<Rightarrow> Extension gores" where
  "NewExtensionFromTx tok tx =
     (case find (\<lambda>out. IsExtension tok (out_PkScript out)) (tx_TxOut tx) of
        None \<Rightarrow> Inl ErrExtensionNotFound
      | Some out \<Rightarrow> NewExtensionFromBytes tok (out_PkScript out))"


section \<open>Round trips\<close>

definition wf_ExtPacket :: "ExtPacket \<Rightarrow> bool" where
  "wf_ExtPacket p \<longleftrightarrow>
     (case p of AssetPacket ap \<Rightarrow> wf_Packet ap | UnknownPacket t d \<Rightarrow> t \<noteq> PacketType)"

definition empty_unknown :: "ExtPacket \<Rightarrow> bool" where
  "empty_unknown p \<longleftrightarrow> (case p of AssetPacket _ \<Rightarrow> False | UnknownPacket _ d \<Rightarrow> d = [])"

definition wf_Extension :: "Extension \<Rightarrow> bool" where
  "wf_Extension e \<longleftrightarrow>
     e \<noteq> [] \<and> distinct (map ExtPacket_Type e) \<and> (\<forall>p \<in> set e. wf_ExtPacket p) \<and> \<not> empty_unknown (last e)"

text \<open>What the code relies on of the script tokenizer: on OP\_RETURN followed by one push it yields
  these two tokens, the second with the pushed data.\<close>

definition tokenizes_pushes :: "tokenizer \<Rightarrow> bool" where
  "tokenizes_pushes tok \<longleftrightarrow>
     (\<forall>data. 0 < length data \<and> length data < 2 ^ 31 \<longrightarrow>
        (\<exists>op. tok (opReturnScript data) = [(OP_RETURN, None), (op, Some data)]))"

lemma ExtPacket_roundtrip:
  assumes "wf_ExtPacket p" and "ExtPacket_Serialize p = Inr d"
  shows "parsePacket (ExtPacket_Type p) d = Inr p" and "d = [] \<Longrightarrow> empty_unknown p"
proof -
  have pkt: "NewPacketFromBytes d = Inr ap" if "p = AssetPacket ap" for ap
    using Packet_roundtrip [of ap] assms that
    by (auto simp: wf_ExtPacket_def ExtPacket_Serialize_def)
  then show "parsePacket (ExtPacket_Type p) d = Inr p"
    using assms
    by (cases p) (auto simp: parsePacket_def ExtPacket_Type_def wf_ExtPacket_def ExtPacket_Serialize_def)
  show "d = [] \<Longrightarrow> empty_unknown p"
    using pkt assms(2)
    by (cases p) (auto simp: empty_unknown_def ExtPacket_Serialize_def NewPacketFromBytes_def
        newPacketFromReader_def deserializeVarUint_def ReadUvarint_def MaxVarintLen64_def)
qed

lemma write_packet_Inr:
  "write_packet p = Inr b \<longleftrightarrow>
     (\<exists>d. ExtPacket_Serialize p = Inr d \<and> b = ExtPacket_Type p # PutUvarint (of_nat (length d)) @ d)"
  by (auto simp: write_packet_def ext_serializeVarSlice_def rbind_eq_Inr map_err_eq_Inr)

lemma ext_deserializeVarSlice_serialized:
  assumes "length d < 2 ^ 64" and "d @ r \<noteq> []"
  shows "ext_deserializeVarSlice (PutUvarint (of_nat (length d)) @ d @ r) = Inr (d, r)"
proof -
  have "unat (of_nat (length d) :: u64) = length d"
    using assms(1) by (simp add: unat_of_nat)
  then show ?thesis using assms(2)
    by (simp add: ext_deserializeVarSlice_def reader_Read_def)
qed

lemma parse_packets_written:
  assumes "write_all write_packet e = Inr w" and "\<forall>p \<in> set e. wf_ExtPacket p"
    and "e = [] \<or> \<not> empty_unknown (last e)" and "length w < 2 ^ 64"
  shows "parse_packets w = Inr e \<and> (e \<noteq> [] \<longrightarrow> w \<noteq> [])"
  using assms
proof (induction e arbitrary: w)
  case (Cons p e)
  obtain d w' where d: "ExtPacket_Serialize p = Inr d" and w': "write_all write_packet e = Inr w'"
    and w: "w = ExtPacket_Type p # PutUvarint (of_nat (length d)) @ d @ w'"
    using Cons.prems(1) by (auto simp: rbind_eq_Inr write_packet_Inr)
  have ih: "parse_packets w' = Inr e" "e \<noteq> [] \<Longrightarrow> w' \<noteq> []"
    using Cons.IH [OF w'] Cons.prems w by (auto split: if_splits)
  have "d @ w' \<noteq> []"
    using ExtPacket_roundtrip(2) [OF _ d] Cons.prems(2,3) ih(2) by (cases e) auto
  then have "ext_deserializeVarSlice (PutUvarint (of_nat (length d)) @ d @ w') = Inr (d, w')"
    using Cons.prems(4) w by (intro ext_deserializeVarSlice_serialized) auto
  then show ?case
    using ExtPacket_roundtrip(1) [OF _ d] Cons.prems(2) ih(1) w by simp
qed simp

text \<open>a well-formed extension survives the trip through a transaction output: the script that
  \<open>Serialize\<close> makes is recognised by \<open>IsExtension\<close>, and \<open>NewExtensionFromBytes\<close> reads the same
  packets back from it.\<close>

theorem extension_roundtrip:
  assumes "tokenizes_pushes tok" and "wf_Extension e"
    and "Extension_Serialize e = Inr script" and "length script < 2 ^ 31"
  shows "IsExtension tok script \<and> NewExtensionFromBytes tok script = Inr e"
proof -
  obtain w where w: "write_all write_packet e = Inr w" and s: "script = opReturnScript (ArkadeMagic @ w)"
    using assms(3) by (auto simp: Extension_Serialize_def guard_err_eq_Inr rbind_eq_Inr)
  have len: "length (ArkadeMagic @ w) < 2 ^ 31"
    using assms(4) unfolding s by (auto simp: opReturnScript_def Let_def split: if_splits)
  then obtain op where tok: "tok script = [(OP_RETURN, None), (op, Some (ArkadeMagic @ w))]"
    using assms(1) unfolding tokenizes_pushes_def s by (metis ArkadeMagic_def append_Cons length_greater_0_conv list.discI)
  have "parse_packets w = Inr e"
    using parse_packets_written [OF w] assms(2) len by (auto simp: wf_Extension_def)
  then show ?thesis
    using assms(2) tok by (auto simp: IsExtension_def NewExtensionFromBytes_def Let_def wf_Extension_def)
qed

lemma GetAssetPacket_mem:
  assumes "GetAssetPacket e = Some ap"
  shows "AssetPacket ap \<in> set e"
proof -
  have "ap \<in> set (List.map_filter (\<lambda>p. case p of AssetPacket ap \<Rightarrow> Some ap | _ \<Rightarrow> None) e)"
    using assms by (auto simp: GetAssetPacket_def split: list.splits)
  then show ?thesis by (auto simp: List.map_filter_def split: ExtPacket.splits)
qed

lemma parsePacket_wf:
  assumes "parsePacket t d = Inr p"
  shows "wf_ExtPacket p" and "ExtPacket_Type p = t" and "empty_unknown p \<Longrightarrow> d = []"
  using assms NewPacketFromBytes_wf
  by (auto simp: parsePacket_def wf_ExtPacket_def ExtPacket_Type_def empty_unknown_def rbind_eq_Inr
      split: if_splits)

lemma ext_deserializeVarSlice_empty: "ext_deserializeVarSlice r \<noteq> Inr ([], [])"
  by (auto simp: ext_deserializeVarSlice_def reader_Read_def map_err_eq_Inr rbind_eq_Inr guard_err_eq_Inr
      split: if_splits)

lemma parse_packets_wf:
  assumes "parse_packets r = Inr e"
  shows "(\<forall>p \<in> set e. wf_ExtPacket p) \<and> (e = [] \<or> \<not> empty_unknown (last e)) \<and> (r \<noteq> [] \<longrightarrow> e \<noteq> [])"
  using assms
proof (induction r arbitrary: e rule: parse_packets.induct)
  case (2 t r)
  obtain d r' p ps where d: "ext_deserializeVarSlice r = Inr (d, r')" and p: "parsePacket t d = Inr p"
    and ps: "parse_packets r' = Inr ps" and e: "e = p # ps"
    using 2(2) by (auto simp: rbind_eq_Inr split: sum.splits prod.splits)
  have ih: "\<forall>p \<in> set ps. wf_ExtPacket p" "ps = [] \<or> \<not> empty_unknown (last ps)" "r' \<noteq> [] \<longrightarrow> ps \<noteq> []"
    using 2(1) [OF d refl ps] by auto
  have "ps = [] \<Longrightarrow> \<not> empty_unknown p"
    using ih(3) d ext_deserializeVarSlice_empty parsePacket_wf(3) [OF p] by auto
  then show ?case using e ih parsePacket_wf(1) [OF p] by auto
qed simp

lemma wf_ExtPacket_written: "wf_ExtPacket p \<Longrightarrow> \<exists>b. write_packet p = Inr b"
  using Packet_roundtrip
  by (cases p) (fastforce simp: write_packet_Inr wf_ExtPacket_def ExtPacket_Serialize_def)+

lemma wf_Extension_written:
  assumes "wf_Extension e"
  shows "\<exists>script. Extension_Serialize e = Inr script"
proof -
  have "\<exists>w. write_all write_packet ps = Inr w" if "\<forall>p \<in> set ps. wf_ExtPacket p" for ps
    using that by (induction ps) (auto simp: rbind_eq_Inr dest!: wf_ExtPacket_written)
  then show ?thesis using assms by (auto simp: wf_Extension_def Extension_Serialize_def guard_err_def rbind_eq_Inr)
qed

text \<open>C34: whatever script arrives, an extension that parses is well formed: it has packets, of
  distinct types, and an asset packet in it satisfies all of the asset packet rules. It can be written
  out again, and what is written, unless it reaches two gigabytes, is recognised as an extension and read back as the same packets.\<close>

theorem parsed_extension_wf:
  assumes "NewExtensionFromBytes tok script = Inr e"
  shows "e \<noteq> [] \<and> distinct (map ExtPacket_Type e) \<and> (\<forall>ap. GetAssetPacket e = Some ap \<longrightarrow> wf_Packet ap) \<and>
    (\<exists>script'. Extension_Serialize e = Inr script' \<and>
       (tokenizes_pushes tok \<and> length script' < 2 ^ 31 \<longrightarrow> IsExtension tok script' \<and> NewExtensionFromBytes tok script' = Inr e))"
proof -
  obtain payload where p: "parse_packets payload = Inr e" "e \<noteq> []" "distinct (map ExtPacket_Type e)"
    using assms
    by (auto simp: NewExtensionFromBytes_def Let_def guard_err_eq_Inr rbind_eq_Inr
        split: list.splits prod.splits option.splits)
  have wf: "wf_Extension e" using parse_packets_wf [OF p(1)] p(2,3) by (auto simp: wf_Extension_def)
  have "wf_Packet ap" if "GetAssetPacket e = Some ap" for ap
    using GetAssetPacket_mem [OF that] parse_packets_wf [OF p(1)] by (force simp: wf_ExtPacket_def)
  moreover obtain script' where "Extension_Serialize e = Inr script'" using wf_Extension_written [OF wf] by blast
  ultimately show ?thesis using p(2,3) extension_roundtrip [OF _ wf] by blast
qed

subsection \<open>A tokenizer\<close>

text \<open>OP\_RETURN followed by one push, in the four forms of a push.\<close>

definition little_endian :: "bytes \<Rightarrow> nat" where
  "little_endian bs = foldr (\<lambda>b n. unat b + 256 * n) bs 0"

definition sample_push :: "u8 \<Rightarrow> nat \<Rightarrow> bytes \<Rightarrow> token list" where
  "sample_push op k rest =
     (let n = little_endian (take k rest); data = drop k rest
      in if length rest < k \<or> length data < n then [] else [(op, Some (take n data))])"

definition sample_tokenizer :: tokenizer where
  "sample_tokenizer script =
     (case script of
        [] \<Rightarrow> []
      | op # rest \<Rightarrow>
          if op \<noteq> OP_RETURN then []
          else (OP_RETURN, None) #
            (case rest of
               [] \<Rightarrow> []
             | b # rest' \<Rightarrow>
                 if b = OP_PUSHDATA1 then sample_push b 1 rest'
                 else if b = OP_PUSHDATA2 then sample_push b 2 rest'
                 else if b = OP_PUSHDATA4 then sample_push b 4 rest'
                 else if unat b \<le> 75 then
                   (if length rest' < unat b then [] else [(b, Some (take (unat b) rest'))])
                 else []))"

lemma little_endian_PutUint16: "n < 2 ^ 16 \<Longrightarrow> little_endian (PutUint16 (of_nat n)) = n"
proof -
  assume n: "n < 2 ^ 16"
  have "unat (ucast (of_nat n :: u16) :: u8) = n mod 256"
    using n by (simp add: unsigned_ucast_eq unat_of_nat take_bit_eq_mod)
  moreover have "unat (drop_bit 8 (of_nat n :: u16)) = n div 256"
    using n by (simp only: unsigned_drop_bit_eq unat_of_nat) (simp add: drop_bit_eq_div take_bit_eq_mod)
  then have "unat (ucast (drop_bit 8 (of_nat n :: u16)) :: u8) = n div 256"
    using n by (simp add: unsigned_ucast_eq take_bit_eq_mod)
  ultimately show ?thesis by (simp add: little_endian_def PutUint16_def)
qed

lemma little_endian_PutUint32: "n < 2 ^ 32 \<Longrightarrow> little_endian (PutUint32 (of_nat n)) = n"
proof -
  assume n: "n < 2 ^ 32"
  have byte: "unat (ucast (drop_bit k (of_nat n :: u32)) :: u8) = (n div 2 ^ k) mod 256" for k
  proof -
    have "unat (drop_bit k (of_nat n :: u32)) = n div 2 ^ k"
      using n by (simp only: unsigned_drop_bit_eq unat_of_nat) (simp add: drop_bit_eq_div take_bit_eq_mod)
    then show ?thesis by (simp add: unsigned_ucast_eq take_bit_eq_mod)
  qed
  have top: "n div 16777216 mod 256 = n div 16777216" using n by simp
  have "n div 65536 = n div 256 div 256" "n div 16777216 = n div 256 div 256 div 256"
    by (simp_all add: div_mult2_eq [symmetric])
  then have "n mod 256 + 256 * (n div 256 mod 256 + 256 * (n div 65536 mod 256 + 256 * (n div 16777216))) = n"
    by (simp only: mod_mult_div_eq)
  then show ?thesis
    using byte [of 0] byte [of 8] byte [of 16] byte [of 24] top
    by (simp add: little_endian_def PutUint32_def)
qed

lemma push_opcodes [simp]: "OP_PUSHDATA1 = 76" "OP_PUSHDATA2 = 77" "OP_PUSHDATA4 = 78" "OP_RETURN = 106"
  by (simp_all add: OP_PUSHDATA1_def OP_PUSHDATA2_def OP_PUSHDATA4_def OP_RETURN_def)

lemma sample_push_data:
  "length l = k \<Longrightarrow> little_endian l = length data \<Longrightarrow> sample_push op k (l @ data) = [(op, Some data)]"
  by (simp add: sample_push_def Let_def)

lemma sample_tokenizer_pushes: "tokenizes_pushes sample_tokenizer"
  unfolding tokenizes_pushes_def
proof (intro allI impI)
  fix data :: bytes
  assume len: "0 < length data \<and> length data < 2 ^ 31"
  let ?n = "length data"
  consider "?n \<le> 75" | "75 < ?n" "?n \<le> 255" | "255 < ?n" "?n \<le> 65535" | "65535 < ?n" by linarith
  then show "\<exists>op. sample_tokenizer (opReturnScript data) = [(OP_RETURN, None), (op, Some data)]"
  proof cases
    case 1
    then have n: "unat (of_nat ?n :: u8) = ?n" by (simp add: unat_of_nat)
    then have "(of_nat ?n :: u8) \<notin> {76, 77, 78}" using 1 by auto
    then show ?thesis using 1 n by (simp add: opReturnScript_def sample_tokenizer_def Let_def)
  next
    case 2
    then have "little_endian [of_nat ?n] = ?n" by (simp add: little_endian_def unat_of_nat)
    then show ?thesis using 2 sample_push_data [of "[of_nat ?n]" 1 data]
      by (simp add: opReturnScript_def sample_tokenizer_def Let_def)
  next
    case 3
    then show ?thesis using sample_push_data [of "PutUint16 (of_nat ?n)" 2 data] little_endian_PutUint16 [of ?n]
      by (simp add: opReturnScript_def sample_tokenizer_def PutUint16_def Let_def)
  next
    case 4
    then show ?thesis using sample_push_data [of "PutUint32 (of_nat ?n)" 4 data] little_endian_PutUint32 [of ?n] len
      by (simp add: opReturnScript_def sample_tokenizer_def PutUint32_def Let_def)
  qed
qed

definition sample_extension :: Extension where
  "sample_extension = [UnknownPacket 7 [], UnknownPacket 9 [1, 2, 3]]"

definition sample_extension_script :: bytes where
  "sample_extension_script = [106, 10, 0x41, 0x52, 0x4B, 7, 0, 9, 3, 1, 2, 3]"

lemma PutUvarint_small: "x < 128 \<Longrightarrow> PutUvarint x = [ucast x]"
  by (subst PutUvarint.simps) (simp add: not_le)

lemma sample_extension_serialized: "Extension_Serialize sample_extension = Inr sample_extension_script"
  by (simp add: Extension_Serialize_def sample_extension_def sample_extension_script_def write_packet_def
      ExtPacket_Serialize_def ext_serializeVarSlice_def ExtPacket_Type_def ArkadeMagic_def
      opReturnScript_def PutUvarint_small word_less_nat_alt)

theorem extension_roundtrip_witness:
  "NewExtensionFromBytes sample_tokenizer sample_extension_script = Inr sample_extension"
proof -
  have "wf_Extension sample_extension"
    by (simp add: wf_Extension_def sample_extension_def ExtPacket_Type_def wf_ExtPacket_def PacketType_def
        empty_unknown_def)
  moreover have "length sample_extension_script < 2 ^ 31" by (simp add: sample_extension_script_def)
  ultimately show ?thesis
    using extension_roundtrip [OF sample_tokenizer_pushes _ sample_extension_serialized] by blast
qed

definition sample_asset_extension :: Extension where
  "sample_asset_extension = [AssetPacket [sample_transfer, sample_issuance], UnknownPacket 9 [1, 2, 3]]"

theorem parsed_extension_wf_witness:
  "\<exists>script script'. NewExtensionFromBytes sample_tokenizer script = Inr sample_asset_extension \<and>
     GetAssetPacket sample_asset_extension = Some [sample_transfer, sample_issuance] \<and> wf_Packet [sample_transfer, sample_issuance] \<and>
     Extension_Serialize sample_asset_extension = Inr script' \<and> NewExtensionFromBytes sample_tokenizer script' = Inr sample_asset_extension"
proof -
  let ?e = sample_asset_extension
  have wf: "wf_Extension ?e"
    using sample_packet_wf
    by (simp add: wf_Extension_def sample_asset_extension_def ExtPacket_Type_def wf_ExtPacket_def PacketType_def empty_unknown_def)
  have "case Extension_Serialize ?e of Inl _ \<Rightarrow> False | Inr s \<Rightarrow> length s < 1000" by code_simp
  then obtain script where s: "Extension_Serialize ?e = Inr script" "length script < 1000" by (auto split: sum.splits)
  then have run: "NewExtensionFromBytes sample_tokenizer script = Inr ?e"
    using extension_roundtrip [OF sample_tokenizer_pushes wf s(1)] by simp
  have ap: "GetAssetPacket ?e = Some [sample_transfer, sample_issuance]"
    by (simp add: GetAssetPacket_def sample_asset_extension_def List.map_filter_def)
  from parsed_extension_wf [OF run] sample_tokenizer_pushes run ap s show ?thesis by auto
qed

text \<open>an extension whose last packet is an unknown packet without data is built and serialised
  without an error, but the script it makes does not parse: reading zero bytes at the end of
  the payload reports the end of the input.\<close>

theorem empty_last_packet_not_parsed:
  "NewExtensionFromPackets [Some (UnknownPacket 7 [])] = Inr [UnknownPacket 7 []] \<and>
   Extension_Serialize [UnknownPacket 7 []] = Inr [106, 5, 0x41, 0x52, 0x4B, 7, 0] \<and>
   NewExtensionFromBytes sample_tokenizer [106, 5, 0x41, 0x52, 0x4B, 7, 0] =
     Inl (Errorw ''missing packet data: '' (GoIO EOF))"
proof (intro conjI)
  show "Extension_Serialize [UnknownPacket 7 []] = Inr [106, 5, 0x41, 0x52, 0x4B, 7, 0]"
    by (simp add: Extension_Serialize_def write_packet_def
      ExtPacket_Serialize_def ext_serializeVarSlice_def ExtPacket_Type_def ArkadeMagic_def
      opReturnScript_def PutUvarint_small word_less_nat_alt)
qed code_simp+

end
