(* ===== verification/App_Assets.thy ===== *)
theory App_Assets
  imports Asset_Validation Extension "HOL-Library.AList"
begin

section \<open>Assets in the application service\<close>

text \<open>
  \<open>internal/core/application\<close>: \<open>asset_validation.go\<close> and \<open>getAssetsDenominations\<close> of \<open>utils.go\<close>: the
  checks that the service makes on the asset packet of an offchain transaction, and what each
  output of the transaction is worth in assets afterwards. The asset repository is a parameter,
  a lookup that may fail; a Go map is an association list.
\<close>

text \<open>\<open>assetSource\<close>: the repository as the validation sees it.\<close>

record AssetRepository =
  repo_GetControlAsset :: "string \<Rightarrow> string gores"
  repo_AssetExists :: "string \<Rightarrow> bool gores"

definition assetSource :: "AssetRepository \<Rightarrow> AssetSource" where
  "assetSource repo =
     \<lparr>src_GetControlAsset = repo_GetControlAsset repo,
      src_AssetExists = (\<lambda>assetID. repo_AssetExists repo assetID = Inr True)\<rparr>"

type_synonym denominations = "(u32 \<times> Asset list) list"

definition denoms_at :: "denominations \<Rightarrow> u32 \<Rightarrow> Asset list" where
  "denoms_at d v = (case map_of d v of None \<Rightarrow> [] | Some l \<Rightarrow> l)"

definition group_asset_id ::
    "(string \<Rightarrow> (chainhash_error, bytes) res) \<Rightarrow> string \<Rightarrow> nat \<Rightarrow> AssetGroup \<Rightarrow> string gores" where
  "group_asset_id newHashFromStr txid grpIndex ast =
     (case grp_AssetId ast of
        None \<Rightarrow>
          (case NewAssetId newHashFromStr txid (of_nat grpIndex) of
             Inl err \<Rightarrow> Inl (Errorf ''failed to compute asset id'')
           | Inr aid \<Rightarrow> Inr (AssetId_String aid))
      | Some a \<Rightarrow> Inr (AssetId_String a))"

fun add_outputs :: "string gores \<Rightarrow> AssetOutput list \<Rightarrow> denominations \<Rightarrow> denominations gores" where
  "add_outputs assetId [] d = Inr d"
| "add_outputs assetId (out # outs) d =
     rbind assetId (\<lambda>aid.
       let v = ucast (aout_Vout out)
       in add_outputs assetId outs
            (AList.update v (denoms_at d v @ [\<lparr>ast_AssetId = aid, ast_Amount = aout_Amount out\<rparr>]) d))"

fun add_groups ::
    "(string \<Rightarrow> (chainhash_error, bytes) res) \<Rightarrow> string \<Rightarrow> nat \<Rightarrow> Packet \<Rightarrow> denominations \<Rightarrow>
       denominations gores" where
  "add_groups newHashFromStr txid grpIndex [] d = Inr d"
| "add_groups newHashFromStr txid grpIndex (ast # asts) d =
     rbind (add_outputs (group_asset_id newHashFromStr txid grpIndex ast) (grp_Outputs ast) d)
       (add_groups newHashFromStr txid (Suc grpIndex) asts)"

definition getAssetsDenominations ::
    "(string \<Rightarrow> (chainhash_error, bytes) res) \<Rightarrow> Packet \<Rightarrow> string \<Rightarrow> denominations gores" where
  "getAssetsDenominations newHashFromStr packet txid = add_groups newHashFromStr txid 0 packet []"

text \<open>\<open>validateAssetTransaction\<close>. A nil packet is the empty one.\<close>

definition app_validateAssetTransaction ::
    "(string \<Rightarrow> (chainhash_error, bytes) res) \<Rightarrow> (MsgTx \<Rightarrow> bytes) \<Rightarrow> (MsgTx \<Rightarrow> string) \<Rightarrow> tokenizer \<Rightarrow>
       AssetRepository \<Rightarrow> MsgTx \<Rightarrow> Extension \<Rightarrow> prevouts \<Rightarrow> int \<Rightarrow> unit arkres" where
  "app_validateAssetTransaction newHashFromStr txHash txID tok repo tx ext inputAssets maxAssetsPerVtxo =
     (let assetPacket = (case GetAssetPacket ext of None \<Rightarrow> [] | Some p \<Rightarrow> p)
      in rbind (ValidateAssetTransaction txHash txID tok tx assetPacket inputAssets (Some (assetSource repo)))
           (\<lambda>_. case getAssetsDenominations newHashFromStr assetPacket (txID tx) of
              Inl err \<Rightarrow> Inl (Code_Wrap INTERNAL_ERROR err)
            | Inr assets \<Rightarrow>
                check_all (\<lambda>(vout, denoms).
                  guard_err (int (length denoms) > maxAssetsPerVtxo)
                    (Code_New VTXO_WITH_TOO_MANY_ASSETS ''output exceeds the number of assets'')
                    (Inr ())) assets))"

subsection \<open>What an output is worth\<close>

text \<open>The amounts that the packet sends to one output, group by group.\<close>

fun sent_to :: "(string \<Rightarrow> (chainhash_error, bytes) res) \<Rightarrow> string \<Rightarrow> nat \<Rightarrow> Packet \<Rightarrow> u32 \<Rightarrow> Asset list" where
  "sent_to newHashFromStr txid i [] v = []"
| "sent_to newHashFromStr txid i (ast # asts) v =
     map (\<lambda>out. \<lparr>ast_AssetId = projr (group_asset_id newHashFromStr txid i ast), ast_Amount = aout_Amount out\<rparr>)
       (filter (\<lambda>out. ucast (aout_Vout out) = v) (grp_Outputs ast)) @
     sent_to newHashFromStr txid (Suc i) asts v"

lemma denoms_at_update: "denoms_at (AList.update k l d) v = (if v = k then l else denoms_at d v)"
  by (simp add: denoms_at_def update_conv')

lemma add_outputs_denoms:
  assumes "add_outputs r outs d = Inr d'"
  shows "denoms_at d' v = denoms_at d v @
    map (\<lambda>out. \<lparr>ast_AssetId = projr r, ast_Amount = aout_Amount out\<rparr>)
      (filter (\<lambda>out. ucast (aout_Vout out) = v) outs)"
  using assms
proof (induction r outs d rule: add_outputs.induct)
  case (2 r out outs d)
  obtain aid where r: "r = Inr aid" using 2(2) by (auto simp: rbind_eq_Inr)
  then show ?case using 2(1) [OF refl] 2(2)
    by (auto simp: Let_def denoms_at_update)
qed simp

lemma add_groups_denoms:
  "add_groups h txid i packet d = Inr d' \<Longrightarrow> denoms_at d' v = denoms_at d v @ sent_to h txid i packet v"
proof (induction h txid i packet d rule: add_groups.induct)
  case (2 h txid i ast asts d)
  then show ?case by (auto simp: rbind_eq_Inr add_outputs_denoms)
qed simp

lemma getAssetsDenominations_denoms:
  "getAssetsDenominations h packet txid = Inr d \<Longrightarrow> denoms_at d v = sent_to h txid 0 packet v"
  using add_groups_denoms [of h txid 0 packet "[]" d v] by (simp add: getAssetsDenominations_def denoms_at_def)


text \<open>when the service accepts the asset packet of a transaction, the denominations it records
  for an output are exactly the amounts that the packet's groups send to that output, in the
  order of the packet, and no output carries more assets than the limit.\<close>

theorem accepted_tx_denominations:
  assumes "app_validateAssetTransaction h txHash txID tok repo tx ext ins maxAssets = Inr ()"
  shows "\<exists>d. getAssetsDenominations h (case GetAssetPacket ext of None \<Rightarrow> [] | Some p \<Rightarrow> p) (txID tx) = Inr d \<and>
    (\<forall>v. denoms_at d v =
         sent_to h (txID tx) 0 (case GetAssetPacket ext of None \<Rightarrow> [] | Some p \<Rightarrow> p) v \<and>
       int (length (denoms_at d v)) \<le> max 0 maxAssets)"
proof -
  let ?p = "case GetAssetPacket ext of None \<Rightarrow> [] | Some p \<Rightarrow> p"
  obtain d where d: "getAssetsDenominations h ?p (txID tx) = Inr d"
    and le: "\<forall>(v, l) \<in> set d. int (length l) \<le> maxAssets"
    using assms
    by (auto simp: app_validateAssetTransaction_def Let_def rbind_eq_Inr check_all_eq_Inr guard_err_eq_Inr
        not_less case_prod_beta split: sum.splits)
  have "int (length (denoms_at d v)) \<le> max 0 maxAssets" for v
    using le by (auto simp: denoms_at_def max_def dest: map_of_SomeD split: option.splits)
  then show ?thesis using d getAssetsDenominations_denoms [OF d] by blast
qed

definition sample_repo :: AssetRepository where
  "sample_repo = \<lparr>repo_GetControlAsset = (\<lambda>_. Inl (Errorf ''not found'')), repo_AssetExists = (\<lambda>_. Inr False)\<rparr>"

lemma sample_app_valid:
  "app_validateAssetTransaction (\<lambda>_. Inr sample_hash) (\<lambda>_. sample_hash) (\<lambda>_. []) (\<lambda>_. []) sample_repo
     sample_tx [AssetPacket [sample_transfer]] sample_prevouts 2 = Inr ()"
  by code_simp

theorem accepted_tx_denominations_witness:
  "\<exists>d. getAssetsDenominations (\<lambda>_. Inr sample_hash) [sample_transfer] [] = Inr d \<and>
     int (length (denoms_at d 1)) \<le> 2"
proof -
  have p: "(case GetAssetPacket [AssetPacket [sample_transfer]] of None \<Rightarrow> [] | Some p \<Rightarrow> p) = [sample_transfer]"
    by (simp add: GetAssetPacket_def List.map_filter_def)
  obtain d where "getAssetsDenominations (\<lambda>_. Inr sample_hash) [sample_transfer] [] = Inr d"
    and le: "\<And>v. int (length (denoms_at d v)) \<le> max 0 2"
    using accepted_tx_denominations [OF sample_app_valid, unfolded p] by blast
  then show ?thesis using le [of 1] by auto
qed

end
