(* ===== verification/Pg_Repos.thy ===== *)
theory Pg_Repos
  imports Pg_Tables App_Assets
begin

section \<open>The repositories of the projection store\<close>

text \<open>
  \<open>internal/infrastructure/db/postgres\<close>: \<open>vtxo_repo.go\<close>, \<open>marker_repo.go\<close>, \<open>utxo_repo.go\<close>,
  \<open>asset_repo.go\<close>, \<open>round_repo.go\<close> (what the projections use) and \<open>offchain_tx_repo.go\<close>. An operation
  takes what the server does with its attempts and returns the tables and its error. Reads return
  their rows in the order of the tables: the callers here do not rely on another order. A Go map is an
  association list.
\<close>

subsection \<open>vtxo_repo.go\<close>

definition vtxo_to_row :: "Vtxo \<Rightarrow> vtxo_row" where
  "vtxo_to_row vtxo =
     \<lparr>vr_pubkey = vtxo_PubKey vtxo, vr_amount = vtxo_Amount vtxo, vr_expires_at = vtxo_ExpiresAt vtxo,
      vr_created_at = vtxo_CreatedAt vtxo, vr_commitment_txid = vtxo_RootCommitmentTxid vtxo,
      vr_spent_by = null_string (vtxo_SpentBy vtxo), vr_spent = vtxo_Spent vtxo,
      vr_unrolled = vtxo_Unrolled vtxo, vr_preconfirmed = vtxo_Preconfirmed vtxo,
      vr_settled_by = null_string (vtxo_SettledBy vtxo), vr_ark_txid = null_string (vtxo_ArkTxid vtxo),
      vr_intent_id = None, vr_depth = vtxo_Depth vtxo, vr_markers = vtxo_MarkerIDs vtxo\<rparr>"

definition add_vtxo :: "Vtxo \<Rightarrow> Db \<Rightarrow> Db gores" where
  "add_vtxo vtxo db =
     (let op = vtxo_Outpoint vtxo
      in rbind (foreach (InsertVtxoCommitmentTxid op) (vtxo_CommitmentTxids vtxo)
                  (UpsertVtxo op (vtxo_to_row vtxo) db))
           (foreach (\<lambda>a. InsertVtxoAssetProjection (ast_AssetId a) op (ast_Amount a)) (vtxo_Assets vtxo)))"

definition AddVtxos :: "(nat \<Rightarrow> attempt) \<Rightarrow> Vtxo list \<Rightarrow> Db \<Rightarrow> Db \<times> go_error option" where
  "AddVtxos att vtxos db = execTx att (foreach add_vtxo vtxos) db"

definition parseCommitments :: "string \<Rightarrow> string list" where
  "parseCommitments commitments =
     (if length commitments = 0 then [] else strings_Split (CHR '','') commitments)"

definition rowToAsset :: "VtxoVw \<Rightarrow> Asset" where
  "rowToAsset row = \<lparr>ast_AssetId = vw_AssetID row, ast_Amount = vw_AssetAmount row\<rparr>"

definition rowToVtxo :: "VtxoVw \<Rightarrow> Vtxo" where
  "rowToVtxo row =
     (let r = vw_Row row
      in \<lparr>vtxo_Outpoint = vw_Outpoint row, vtxo_Amount = vr_amount r, vtxo_PubKey = vr_pubkey r,
          vtxo_CommitmentTxids = parseCommitments (vw_Commitments row),
          vtxo_RootCommitmentTxid = vr_commitment_txid r,
          vtxo_SettledBy = col_string (vr_settled_by r), vtxo_SpentBy = col_string (vr_spent_by r),
          vtxo_ArkTxid = col_string (vr_ark_txid r), vtxo_Spent = vr_spent r,
          vtxo_Unrolled = vr_unrolled r, vtxo_Swept = vw_Swept row,
          vtxo_Preconfirmed = vr_preconfirmed r, vtxo_ExpiresAt = vr_expires_at r,
          vtxo_CreatedAt = vr_created_at r, vtxo_Depth = vr_depth r, vtxo_MarkerIDs = vr_markers r,
          vtxo_Assets = (if vw_AssetID row \<noteq> [] then [rowToAsset row] else [])\<rparr>)"

text \<open>\<open>readRows\<close>: the rows of one vtxo are merged into the first, which collects their assets.\<close>

fun read_rows :: "Vtxo list \<Rightarrow> VtxoVw list \<Rightarrow> Vtxo list" where
  "read_rows vtxos [] = vtxos"
| "read_rows vtxos (row # rows) =
     (if vw_Outpoint row \<in> vtxo_Outpoint ` set vtxos then
        (let asset = rowToAsset row
         in if asset \<noteq> \<lparr>ast_AssetId = [], ast_Amount = 0\<rparr>
            then read_rows (map (\<lambda>v. if vtxo_Outpoint v = vw_Outpoint row
                                     then v\<lparr>vtxo_Assets := vtxo_Assets v @ [asset]\<rparr> else v) vtxos) rows
            else read_rows vtxos rows)
      else read_rows (vtxos @ [rowToVtxo row]) rows)"

definition readRows :: "VtxoVw list \<Rightarrow> Vtxo list" where
  "readRows rows = read_rows [] rows"

definition GetVtxos :: "(nat \<Rightarrow> attempt) \<Rightarrow> Outpoint list \<Rightarrow> Db \<Rightarrow> Vtxo list gores" where
  "GetVtxos att outpoints db =
     (if length outpoints = 0 then Inr []
      else exec_query att (readRows (filter (\<lambda>w. vw_Outpoint w \<in> set outpoints) (vtxo_vw db))))"

definition GetAllSweepableUnrolledVtxos :: "(nat \<Rightarrow> attempt) \<Rightarrow> Db \<Rightarrow> Vtxo list gores" where
  "GetAllSweepableUnrolledVtxos att db =
     exec_query att (readRows (filter (\<lambda>w. vr_spent (vw_Row w) \<and> vr_unrolled (vw_Row w) \<and>
       \<not> vw_Swept w \<and> col_string (vr_settled_by (vw_Row w)) = []) (vtxo_vw db)))"

definition GetAllNonUnrolledVtxos ::
    "(nat \<Rightarrow> attempt) \<Rightarrow> string \<Rightarrow> Db \<Rightarrow> (Vtxo list \<times> Vtxo list) gores" where
  "GetAllNonUnrolledVtxos att pubkey db =
     (let withPubkey = length pubkey > 0;
          rows = filter (\<lambda>w. \<not> vr_unrolled (vw_Row w) \<and> (withPubkey \<longrightarrow> vr_pubkey (vw_Row w) = pubkey))
                   (vtxo_vw db)
      in rbind (exec_query att (readRows rows)) (\<lambda>vtxos.
           Inr (filter (\<lambda>v. \<not> (vtxo_Spent v \<or> vtxo_Swept v)) vtxos,
                filter (\<lambda>v. vtxo_Spent v \<or> vtxo_Swept v) vtxos)))"

definition GetLeafVtxosForBatch :: "(nat \<Rightarrow> attempt) \<Rightarrow> string \<Rightarrow> Db \<Rightarrow> Vtxo list gores" where
  "GetLeafVtxosForBatch att txid db =
     exec_query att (readRows (filter (\<lambda>w. vr_commitment_txid (vw_Row w) = txid \<and>
       \<not> vr_preconfirmed (vw_Row w)) (vtxo_vw db)))"

definition GetPendingSpentVtxosWithOutpoints :: "(nat \<Rightarrow> attempt) \<Rightarrow> Outpoint list \<Rightarrow> Db \<Rightarrow> Vtxo list gores" where
  "GetPendingSpentVtxosWithOutpoints att outpoints db =
     (if length outpoints = 0 then Inr []
      else exec_query att (readRows (filter (\<lambda>w. vw_Outpoint w \<in> set outpoints \<and>
        vr_spent (vw_Row w) \<and> \<not> vr_unrolled (vw_Row w) \<and> col_string (vr_settled_by (vw_Row w)) = [] \<and>
        (case vr_ark_txid (vw_Row w) of None \<Rightarrow> False
         | Some arkTxid \<Rightarrow> \<forall>p \<in> set (tbl_vtxo db). outp_Txid (fst p) \<noteq> arkTxid)) (vtxo_vw db))))"

text \<open>\<open>COALESCE(SUM(v.amount), 0)::bigint\<close>: the sum is exact, the cast refuses what does not fit.\<close>

definition sum_amounts :: "VtxoVw list \<Rightarrow> int" where
  "sum_amounts rows = sum_list (map (\<lambda>w. sint (vr_amount (vw_Row w))) rows)"

definition liquidity :: "(nat \<Rightarrow> attempt) \<Rightarrow> VtxoVw list \<Rightarrow> u64 gores" where
  "liquidity att rows =
     (let amount = sum_amounts rows
      in rbind (exec_query att ()) (\<lambda>_.
         guard_err (amount \<ge> 2 ^ 63 \<or> amount < - (2 ^ 63)) (Errorf ''pq: bigint out of range'')
        (guard_err (amount < 0) (Errorf ''data integrity issue: got negative value'')
           (Inr (word_of_int amount)))))"

definition GetExpiringLiquidity :: "(nat \<Rightarrow> attempt) \<Rightarrow> int \<Rightarrow> int \<Rightarrow> Db \<Rightarrow> u64 gores" where
  "GetExpiringLiquidity att after before db =
     liquidity att (filter (\<lambda>w. \<not> vw_Swept w \<and> \<not> vr_spent (vw_Row w) \<and> \<not> vr_unrolled (vw_Row w) \<and>
       vr_expires_at (vw_Row w) > after \<and> (before \<le> 0 \<or> vr_expires_at (vw_Row w) < before)) (vtxo_vw db))"

definition GetRecoverableLiquidity :: "(nat \<Rightarrow> attempt) \<Rightarrow> Db \<Rightarrow> u64 gores" where
  "GetRecoverableLiquidity att db =
     liquidity att (filter (\<lambda>w. vw_Swept w \<and> \<not> vr_spent (vw_Row w)) (vtxo_vw db))"

text \<open>\<open>UnrollVtxos\<close>: a vtxo that was already spent offchain becomes a row of \<open>utxo\<close> without
  attributes.\<close>

definition UnrollVtxos :: "int \<Rightarrow> (nat \<Rightarrow> attempt) \<Rightarrow> Outpoint list \<Rightarrow> Db \<Rightarrow> Db \<times> go_error option" where
  "UnrollVtxos now att vtxos db =
     execTx att (\<lambda>db.
       let (db1, records) = UpdateVtxosUnrolled vtxos db
       in foreach (\<lambda>(op, r) db.
            let spentBy = col_string (vr_spent_by r)
            in if length spentBy \<le> 0 then Inr db
               else InsertUtxo op
                 \<lparr>ur_pubkey = None, ur_amount = None, ur_spent_by = spentBy, ur_created_at = now,
                  ur_spend_confirmed_at_time = None, ur_spend_confirmed_at_height = None\<rparr> db) records db1) db"

definition SettleVtxos ::
    "(nat \<Rightarrow> attempt) \<Rightarrow> (Outpoint \<times> string) list \<Rightarrow> string \<Rightarrow> Db \<Rightarrow> Db \<times> go_error option" where
  "SettleVtxos att spentVtxos settledBy db =
     execTx att (foreach (\<lambda>(vtxo, spentBy) db.
       Inr (UpdateVtxoSettled vtxo (null_string spentBy) (null_string settledBy) db)) spentVtxos) db"

definition SpendVtxos ::
    "(nat \<Rightarrow> attempt) \<Rightarrow> (Outpoint \<times> string) list \<Rightarrow> string \<Rightarrow> Db \<Rightarrow> Db \<times> go_error option" where
  "SpendVtxos att spentVtxos arkTxid db =
     execTx att (foreach (\<lambda>(vtxo, spentBy) db.
       Inr (UpdateVtxoSpent vtxo (null_string spentBy) (Some arkTxid) db)) spentVtxos) db"

definition UpdateVtxosExpiration ::
    "(nat \<Rightarrow> attempt) \<Rightarrow> Outpoint list \<Rightarrow> int \<Rightarrow> Db \<Rightarrow> Db \<times> go_error option" where
  "UpdateVtxosExpiration att vtxos expiresAt db =
     execTx att (foreach (\<lambda>vtxo db. Inr (UpdateVtxoExpiration vtxo expiresAt db)) vtxos) db"

text \<open>The predicate of the sweeper, for one commitment transaction or for several: the vtxos rooted in
  them and the vtxos that descend from them.\<close>

definition sweepable_outpoints :: "string list \<Rightarrow> Db \<Rightarrow> Outpoint list" where
  "sweepable_outpoints commitmentTxids db =
     remdups
       (map vw_Outpoint (filter (\<lambda>w. \<not> vw_Swept w \<and>
          vr_commitment_txid (vw_Row w) \<in> set commitmentTxids) (vtxo_vw db)) @
        map vw_Outpoint (filter (\<lambda>w. \<not> vw_Swept w \<and>
          (\<exists>c \<in> set commitmentTxids. has_row (tbl_vtxo_commitment_txid db) (vw_Outpoint w, c))) (vtxo_vw db)))"

definition GetSweepableVtxosByCommitmentTxid :: "(nat \<Rightarrow> attempt) \<Rightarrow> string \<Rightarrow> Db \<Rightarrow> Outpoint list gores" where
  "GetSweepableVtxosByCommitmentTxid att commitmentTxid db =
     exec_query att (sweepable_outpoints [commitmentTxid] db)"

definition GetSweepableVtxosByCommitmentTxids ::
    "(nat \<Rightarrow> attempt) \<Rightarrow> string list \<Rightarrow> Db \<Rightarrow> Outpoint list gores" where
  "GetSweepableVtxosByCommitmentTxids att commitmentTxids db =
     (if length commitmentTxids = 0 then Inr []
      else exec_query att (sweepable_outpoints commitmentTxids db))"

text \<open>The recursive query behind \<open>GetAllChildrenVtxos\<close>: along each path, a vtxo that was visited is
  not entered again.\<close>

definition child_rows :: "Db \<Rightarrow> Outpoint list \<Rightarrow> vtxo_row \<Rightarrow> (Outpoint \<times> vtxo_row) list" where
  "child_rows db visited r =
     filter (\<lambda>(c, _). vr_ark_txid r = Some (outp_Txid c) \<and> c \<notin> set visited) (tbl_vtxo db)"

lemma child_rows_measure:
  assumes "(c, rc) \<in> set (child_rows db visited r)"
  shows "card (fst ` set (tbl_vtxo db) - insert c (set visited)) < card (fst ` set (tbl_vtxo db) - set visited)"
proof (rule psubset_card_mono)
  have "c \<in> fst ` set (tbl_vtxo db) - set visited"
    using assms by (force simp: child_rows_def)
  then show "fst ` set (tbl_vtxo db) - insert c (set visited) \<subset> fst ` set (tbl_vtxo db) - set visited"
    by auto
qed simp

function descendants_chain :: "Db \<Rightarrow> Outpoint list \<Rightarrow> Outpoint \<times> vtxo_row \<Rightarrow> Outpoint list" where
  "descendants_chain db visited p =
     fst p # concat (map (\<lambda>c. descendants_chain db (visited @ [fst c]) c) (child_rows db visited (snd p)))"
  by pat_completeness auto
termination
  by (relation "measure (\<lambda>(db, visited, p). card (fst ` set (tbl_vtxo db) - set visited))")
    (auto dest: child_rows_measure)

declare descendants_chain.simps [simp del]

definition GetAllChildrenVtxos :: "(nat \<Rightarrow> attempt) \<Rightarrow> Outpoint \<Rightarrow> Db \<Rightarrow> Outpoint list gores" where
  "GetAllChildrenVtxos att outpoint db =
     exec_query att (remdups (concat (map (descendants_chain db [outpoint])
       (filter (\<lambda>p. fst p = outpoint) (tbl_vtxo db)))))"
subsection \<open>marker_repo.go\<close>

definition AddMarker :: "(nat \<Rightarrow> attempt) \<Rightarrow> Marker \<Rightarrow> Db \<Rightarrow> Db \<times> go_error option" where
  "AddMarker att marker db =
     exec_stmt att (\<lambda>db. Inr (UpsertMarker (mk_ID marker) (mk_Depth marker) (mk_ParentMarkerIDs marker) db)) db"

definition rowToMarker :: "string \<times> marker_row \<Rightarrow> Marker" where
  "rowToMarker row =
     \<lparr>mk_ID = fst row, mk_Depth = mr_depth (snd row), mk_ParentMarkerIDs = mr_parent_markers (snd row)\<rparr>"

definition GetMarker :: "(nat \<Rightarrow> attempt) \<Rightarrow> string \<Rightarrow> Db \<Rightarrow> Marker option gores" where
  "GetMarker att mid db =
     exec_query att (map_option (\<lambda>r. rowToMarker (mid, r)) (map_of (tbl_marker db) mid))"

definition GetMarkersByIds :: "(nat \<Rightarrow> attempt) \<Rightarrow> string list \<Rightarrow> Db \<Rightarrow> Marker list gores" where
  "GetMarkersByIds att ids db =
     (if length ids = 0 then Inr []
      else exec_query att (map rowToMarker (filter (\<lambda>p. fst p \<in> set ids) (tbl_marker db))))"

definition BulkSweepMarkers :: "(nat \<Rightarrow> attempt) \<Rightarrow> string list \<Rightarrow> int \<Rightarrow> Db \<Rightarrow> Db \<times> go_error option" where
  "BulkSweepMarkers att markerIDs sweptAt db =
     (if length markerIDs = 0 then (db, None)
      else exec_stmt att (BulkInsertSweptMarkers markerIDs sweptAt) db)"

definition SweepVtxoOutpoints :: "(nat \<Rightarrow> attempt) \<Rightarrow> Outpoint list \<Rightarrow> int \<Rightarrow> Db \<Rightarrow> Db \<times> go_error option" where
  "SweepVtxoOutpoints att outpoints sweptAt db =
     (if length outpoints = 0 then (db, None)
      else exec_stmt att (BulkInsertSweptVtxos outpoints sweptAt) db)"

definition IsMarkerSwept :: "(nat \<Rightarrow> attempt) \<Rightarrow> string \<Rightarrow> Db \<Rightarrow> bool gores" where
  "IsMarkerSwept att markerID db = exec_query att (has_row (tbl_swept_marker db) markerID)"

definition marker_UpdateVtxoMarkers ::
    "(nat \<Rightarrow> attempt) \<Rightarrow> Outpoint \<Rightarrow> string list \<Rightarrow> Db \<Rightarrow> Db \<times> go_error option" where
  "marker_UpdateVtxoMarkers att outpoint markerIDs db =
     exec_stmt att (\<lambda>db. Inr (UpdateVtxoMarkers outpoint markerIDs db)) db"

text \<open>These readers convert every row of the view on its own, and leave the assets out.\<close>

definition rowToVtxoFromVtxoVw :: "VtxoVw \<Rightarrow> Vtxo" where
  "rowToVtxoFromVtxoVw row = (rowToVtxo row)\<lparr>vtxo_Assets := []\<rparr>"

definition GetVtxosByMarker :: "(nat \<Rightarrow> attempt) \<Rightarrow> string \<Rightarrow> Db \<Rightarrow> Vtxo list gores" where
  "GetVtxosByMarker att markerID db =
     exec_query att (map rowToVtxoFromVtxoVw
       (filter (\<lambda>w. markerID \<in> set (vr_markers (vw_Row w))) (vtxo_vw db)))"

definition GetVtxosByArkTxid :: "(nat \<Rightarrow> attempt) \<Rightarrow> string \<Rightarrow> Db \<Rightarrow> Vtxo list gores" where
  "GetVtxosByArkTxid att arkTxid db =
     exec_query att (map rowToVtxoFromVtxoVw
       (filter (\<lambda>w. vr_ark_txid (vw_Row w) \<noteq> None \<and> vr_ark_txid (vw_Row w) = null_string arkTxid)
         (vtxo_vw db)))"

definition CreateRootMarkersForVtxos :: "(nat \<Rightarrow> attempt) \<Rightarrow> Vtxo list \<Rightarrow> Db \<Rightarrow> Db \<times> go_error option" where
  "CreateRootMarkersForVtxos att vtxos db =
     (if length vtxos = 0 then (db, None)
      else execTx att (foreach (\<lambda>vtxo db.
             Inr (UpsertMarker (Outpoint_String (vtxo_Outpoint vtxo)) 0 [] db)) vtxos) db)"

subsection \<open>utxo_repo.go\<close>

definition utxo_to_row :: "Utxo \<Rightarrow> utxo_row" where
  "utxo_to_row utxo =
     \<lparr>ur_pubkey = null_string (utxo_PubKey utxo),
      ur_amount = (if utxo_Amount utxo > 0 then Some (utxo_Amount utxo) else None),
      ur_spent_by = spend_Txid (utxo_Spend utxo), ur_created_at = utxo_CreatedAt utxo,
      ur_spend_confirmed_at_time = None, ur_spend_confirmed_at_height = None\<rparr>"

definition repo_AddUtxos :: "(nat \<Rightarrow> attempt) \<Rightarrow> Utxo list \<Rightarrow> string \<Rightarrow> Db \<Rightarrow> Db \<times> go_error option" where
  "repo_AddUtxos att utxos tx db =
     (case utxos of
        [] \<Rightarrow> (db, None)
      | first # _ \<Rightarrow>
          execTx att (\<lambda>db.
            rbind (if length tx > 0 then InsertOnchainTx (spend_Txid (utxo_Spend first)) tx db else Inr db)
              (foreach (\<lambda>utxo. InsertUtxo (utxo_Outpoint utxo) (utxo_to_row utxo)) utxos)) db)"

definition update_utxo :: "Utxo \<Rightarrow> Db \<Rightarrow> Db gores" where
  "update_utxo utxo db =
     (let spend = utxo_Spend utxo
      in guard_err (spend_ConfirmedAtHeight spend = 0 \<or> spend_ConfirmedAtTime spend \<le> 0)
           (Errorf ''utxo has invalid confirmation info'')
         (let (n, db') = UpdateUtxo (utxo_Outpoint utxo) (spend_ConfirmedAtTime spend)
                           (spend_ConfirmedAtHeight spend) db
          in guard_err (n = 0) (Errorf ''utxo not found or already confirmed'') (Inr db')))"

definition UpdateUtxos :: "(nat \<Rightarrow> attempt) \<Rightarrow> Utxo list \<Rightarrow> Db \<Rightarrow> Db \<times> go_error option" where
  "UpdateUtxos att utxos db = execTx att (foreach update_utxo utxos) db"

text \<open>\<open>utxo_vw\<close> and \<open>rowToUtxo\<close>: the attributes of an unrolled vtxo come from its row. The flag is
  \<open>is_vtxo\<close>.\<close>

definition utxo_vw :: "Db \<Rightarrow> (Outpoint \<times> utxo_row \<times> bool) list" where
  "utxo_vw db =
     map (\<lambda>(op, r).
       let v = map_of (tbl_vtxo db) op
       in (op, r\<lparr>ur_pubkey := (case ur_pubkey r of Some p \<Rightarrow> Some p | None \<Rightarrow> map_option vr_pubkey v),
                 ur_amount := (case ur_amount r of Some a \<Rightarrow> Some a | None \<Rightarrow> map_option vr_amount v)\<rparr>,
           v \<noteq> None)) (tbl_utxo db)"

definition rowToUtxo :: "Outpoint \<Rightarrow> utxo_row \<Rightarrow> Utxo" where
  "rowToUtxo op r =
     \<lparr>utxo_Outpoint = op, utxo_Amount = (case ur_amount r of None \<Rightarrow> 0 | Some a \<Rightarrow> a),
      utxo_PubKey = col_string (ur_pubkey r),
      utxo_Spend = \<lparr>spend_Txid = ur_spent_by r,
        spend_ConfirmedAtTime = (case ur_spend_confirmed_at_time r of None \<Rightarrow> 0 | Some t \<Rightarrow> t),
        spend_ConfirmedAtHeight = (case ur_spend_confirmed_at_height r of None \<Rightarrow> 0 | Some h \<Rightarrow> h)\<rparr>,
      utxo_CreatedAt = ur_created_at r, utxo_Assets = []\<rparr>"

definition readUtxos :: "(Outpoint \<times> utxo_row \<times> bool) list \<Rightarrow> Utxo list" where
  "readUtxos rows = map (\<lambda>(op, r, _). rowToUtxo op r) rows"

definition GetUtxos :: "(nat \<Rightarrow> attempt) \<Rightarrow> Outpoint list \<Rightarrow> Db \<Rightarrow> Utxo list gores" where
  "GetUtxos att outpoints db =
     exec_query att (readUtxos (filter (\<lambda>(op, _). op \<in> set outpoints) (utxo_vw db)))"

definition unconfirmed_row :: "utxo_row \<Rightarrow> bool" where
  "unconfirmed_row r \<longleftrightarrow> ur_spend_confirmed_at_time r = None \<and> ur_spend_confirmed_at_height r = None"

definition GetUnconfirmedUtxosWithSpendingTxid :: "(nat \<Rightarrow> attempt) \<Rightarrow> string \<Rightarrow> Db \<Rightarrow> Utxo list gores" where
  "GetUnconfirmedUtxosWithSpendingTxid att txid db =
     exec_query att (readUtxos (filter (\<lambda>(_, r, _). unconfirmed_row r \<and> ur_spent_by r = txid) (utxo_vw db)))"

text \<open>The three lists: cosigned, boarding, unrolled.\<close>

definition GetUnconfirmedUtxos ::
    "(nat \<Rightarrow> attempt) \<Rightarrow> Db \<Rightarrow> (Utxo list \<times> Utxo list \<times> Utxo list) gores" where
  "GetUnconfirmedUtxos att db =
     (let rows = filter (\<lambda>(_, r, _). unconfirmed_row r) (utxo_vw db);
          cosigned = (\<lambda>r. has_row (tbl_onchain_tx db) (ur_spent_by r))
      in exec_query att
           (readUtxos (filter (\<lambda>(_, r, _). cosigned r) rows),
            readUtxos (filter (\<lambda>(_, r, isVtxo). \<not> cosigned r \<and> \<not> isVtxo) rows),
            readUtxos (filter (\<lambda>(_, r, isVtxo). \<not> cosigned r \<and> isVtxo) rows)))"

definition GetOnchainTxs :: "(nat \<Rightarrow> attempt) \<Rightarrow> string list \<Rightarrow> Db \<Rightarrow> string list gores" where
  "GetOnchainTxs att txids db =
     (if length txids \<le> 0 then Inr []
      else exec_query att (map snd (filter (\<lambda>p. fst p \<in> set txids) (tbl_onchain_tx db))))"

subsection \<open>asset_repo.go\<close>

text \<open>\<open>domain.Asset\<close>.\<close>

record DomainAsset =
  da_Id :: string
  da_ControlAssetId :: string
  da_Metadata :: "Metadata list"
  da_Supply :: int

text \<open>A repeat inside the batch is skipped.\<close>

fun first_by_id :: "string list \<Rightarrow> DomainAsset list \<Rightarrow> DomainAsset list" where
  "first_by_id seen [] = []"
| "first_by_id seen (ast # asts) =
     (if da_Id ast \<in> set seen then first_by_id seen asts
      else ast # first_by_id (da_Id ast # seen) asts)"

text \<open>\<open>sort.SliceStable\<close> with the order \<open>a\<close> has no control asset and \<open>b\<close> has one: two blocks, each in the
  order of the input.\<close>

definition control_first :: "DomainAsset list \<Rightarrow> DomainAsset list" where
  "control_first assets =
     filter (\<lambda>a. da_ControlAssetId a = []) assets @ filter (\<lambda>a. da_ControlAssetId a \<noteq> []) assets"

definition add_asset ::
    "(bytes \<Rightarrow> bytes list \<Rightarrow> bytes) \<Rightarrow> DomainAsset \<Rightarrow> Db \<times> int \<Rightarrow> (Db \<times> int) gores" where
  "add_asset taggedHash ast s =
     (let (db, count) = s
      in if has_row (tbl_asset db) (da_Id ast) then Inr (db, count)
         else rbind
           (if length (da_Metadata ast) > 0 then
              (case GenerateMetadataListHash taggedHash (da_Metadata ast) of
                 None \<Rightarrow> Inl (Errorf ''failed to compute metadata hash'')
               | Some h \<Rightarrow>
                   (case NewMetadataList (da_Metadata ast) of
                      Inl err \<Rightarrow> Inl (Errorw ''failed to create metadata list: '' err)
                    | Inr l \<Rightarrow> Inr (Some (MetadataList_String l), Some (hex_EncodeToString h))))
            else Inr (None, None))
           (\<lambda>(md, mdHash).
              rbind (InsertAsset (da_Id ast)
                 \<lparr>ar_is_immutable = False, ar_metadata_hash = mdHash, ar_metadata = md,
                  ar_control_asset_id = null_string (da_ControlAssetId ast)\<rparr> db)
                (\<lambda>db'. Inr (db', count + 1))))"

text \<open>The body starts its count again at every attempt; only its last value is read.\<close>

definition AddAssets ::
    "(bytes \<Rightarrow> bytes list \<Rightarrow> bytes) \<Rightarrow> (nat \<Rightarrow> attempt) \<Rightarrow> DomainAsset list gomap \<Rightarrow> Db \<Rightarrow>
       Db \<times> int \<times> go_error option" where
  "AddAssets taggedHash att assetsByTx db =
     (if length assetsByTx = 0 then (db, -1, None)
      else
        let assets = control_first (first_by_id [] (concat (map snd assetsByTx)));
            (s, err) = execTx att (\<lambda>s. foreach (add_asset taggedHash) assets (fst s, 0)) (db, 0)
        in case err of Some e \<Rightarrow> (fst s, -1, Some e) | None \<Rightarrow> (fst s, snd s, None))"

definition repo_GetControlAsset_db :: "(nat \<Rightarrow> attempt) \<Rightarrow> string \<Rightarrow> Db \<Rightarrow> string gores" where
  "repo_GetControlAsset_db att assetID db =
     rbind (exec_query att (map_of (tbl_asset db) assetID)) (\<lambda>row.
       case row of
         None \<Rightarrow> Inl (Errorf ''no control asset found'')
       | Some r \<Rightarrow> Inr (col_string (ar_control_asset_id r)))"

definition repo_AssetExists_db :: "(nat \<Rightarrow> attempt) \<Rightarrow> string \<Rightarrow> Db \<Rightarrow> bool gores" where
  "repo_AssetExists_db att assetID db = exec_query att (has_row (tbl_asset db) assetID)"

text \<open>\<open>GetAssets\<close>: the supply of an asset is what the unspent vtxos hold of it.\<close>

definition GetAssets :: "(nat \<Rightarrow> attempt) \<Rightarrow> string list \<Rightarrow> Db \<Rightarrow> DomainAsset list gores" where
  "GetAssets att assetIds db =
     (if length assetIds = 0 then Inr []
      else exec_query att (map (\<lambda>(aid, r).
        \<lparr>da_Id = aid, da_ControlAssetId = col_string (ar_control_asset_id r),
         da_Metadata = (case ar_metadata r of None \<Rightarrow> []
           | Some m \<Rightarrow> (case NewMetadataListFromString m of Inl _ \<Rightarrow> [] | Inr l \<Rightarrow> l)),
         da_Supply = sum_list (map (\<lambda>w. uint (vw_AssetAmount w))
           (filter (\<lambda>w. vw_AssetID w = aid \<and> \<not> vr_spent (vw_Row w) \<and> vw_AssetAmount w > 0) (vtxo_vw db)))\<rparr>)
        (filter (\<lambda>p. fst p \<in> set assetIds) (tbl_asset db))))"
subsection \<open>round_repo.go\<close>

definition createUpsertTransactionParams :: "TxTreeNode \<Rightarrow> string \<Rightarrow> string \<Rightarrow> nat \<Rightarrow> string \<times> tx_row" where
  "createUpsertTransactionParams node roundID txType position =
     (if txType = ''connector'' \<or> txType = ''tree'' then node_Txid node else [],
      \<lparr>tr_tx = node_Tx node, tr_round_id = roundID, tr_type = txType, tr_position = position,
       tr_children =
         (if (txType = ''connector'' \<or> txType = ''tree'') \<and> length (node_Children node) > 0
          then Some (node_Children node) else None)\<rparr>)"

definition round_to_row :: "Round \<Rightarrow> round_row" where
  "round_to_row round =
     \<lparr>rr_starting_timestamp = rd_StartingTimestamp round, rr_ending_timestamp = rd_EndingTimestamp round,
      rr_ended = stage_Ended (rd_Stage round), rr_failed = stage_Failed (rd_Stage round),
      rr_fail_reason = null_string (rd_FailReason round), rr_stage_code = stage_Code (rd_Stage round),
      rr_connector_address = rd_ConnectorAddress round, rr_version = rd_Version round,
      rr_swept = rd_Swept round, rr_vtxo_tree_expiration = rd_VtxoTreeExpiration round,
      rr_fees = rd_CollectedFees round\<rparr>"

definition upsert_round_txs :: "Round \<Rightarrow> Db \<Rightarrow> Db gores" where
  "upsert_round_txs round db =
     (let rid = rd_Id round;
          plain = (\<lambda>typ pos txid tx. UpsertTx txid
            \<lparr>tr_tx = tx, tr_round_id = rid, tr_type = typ, tr_position = pos, tr_children = None\<rparr>);
          node = (\<lambda>typ (position, n).
            (let (txid, r) = createUpsertTransactionParams n rid typ position in UpsertTx txid r))
      in rbind
           (if length (rd_CommitmentTx round) > 0 \<and> length (rd_CommitmentTxid round) > 0
            then plain ''commitment'' 0 (rd_CommitmentTxid round) (rd_CommitmentTx round) db
            else Inr db) (\<lambda>db.
         if length (rd_ForfeitTxs round) > 0 \<or> length (rd_Connectors round) > 0 \<or>
            length (rd_VtxoTree round) > 0 \<or> length (rd_SweepTxs round) > 0
         then
           rbind (foreach (\<lambda>(pos, tx). plain ''forfeit'' pos (forfeit_Txid tx) (forfeit_Tx tx))
                    (List.enumerate 0 (rd_ForfeitTxs round)) db) (\<lambda>db.
           rbind (foreach (node ''connector'') (List.enumerate 0 (rd_Connectors round)) db) (\<lambda>db.
           rbind (foreach (node ''tree'') (List.enumerate 0 (rd_VtxoTree round)) db) (\<lambda>db.
             foreach (\<lambda>(txid, tx). plain ''sweep'' 0 txid tx) (rd_SweepTxs round) db)))
         else Inr db))"

definition upsert_round_intent :: "string \<Rightarrow> Intent \<Rightarrow> Db \<Rightarrow> Db gores" where
  "upsert_round_intent roundId intent db =
     rbind (UpsertIntent (int_Id intent)
        \<lparr>ir_round_id = roundId, ir_proof = int_Proof intent, ir_message = int_Message intent,
         ir_txid = int_Txid intent\<rparr> db) (\<lambda>db.
     rbind (foreach (\<lambda>receiver.
        UpsertReceiver (int_Id intent) (rcv_PubKey receiver) (rcv_OnchainAddress receiver) (rcv_Amount receiver))
        (int_Receivers intent) db) (\<lambda>db.
     foreach (\<lambda>input. UpdateVtxoIntentId (int_Id intent) (vtxo_Outpoint input)) (int_Inputs intent) db))"

definition AddOrUpdateRound :: "(nat \<Rightarrow> attempt) \<Rightarrow> Round \<Rightarrow> Db \<Rightarrow> Db \<times> go_error option" where
  "AddOrUpdateRound att round db =
     execTx att (\<lambda>db.
       rbind (upsert_round_txs round (UpsertRound (rd_Id round) (round_to_row round) db))
         (foreach (\<lambda>(_, intent). upsert_round_intent (rd_Id round) intent) (rd_Intents round))) db"

text \<open>\<open>SelectRoundSweepTxs\<close>: the round of a commitment transaction, then its sweep transactions.\<close>

definition commitment_round :: "string \<Rightarrow> Db \<Rightarrow> string option" where
  "commitment_round txid db =
     (case map_of (tbl_tx db) txid of
        None \<Rightarrow> None
      | Some r \<Rightarrow> if tr_type r = ''commitment'' then Some (tr_round_id r) else None)"

definition GetSweepTxs :: "(nat \<Rightarrow> attempt) \<Rightarrow> string \<Rightarrow> Db \<Rightarrow> string gomap gores" where
  "GetSweepTxs att commitmentTxid db =
     exec_query att
       (case commitment_round commitmentTxid db of
          None \<Rightarrow> []
        | Some rid \<Rightarrow> map (\<lambda>(txid, r). (txid, tr_tx r))
            (filter (\<lambda>(_, r). tr_round_id r = rid \<and> tr_type r = ''sweep'') (tbl_tx db)))"

text \<open>\<open>round_with_commitment_tx_vw\<close> joined with the existence of a tree transaction.\<close>

definition rounds_where :: "(round_row \<Rightarrow> bool) \<Rightarrow> Db \<Rightarrow> string list" where
  "rounds_where P db =
     concat (map (\<lambda>(rid, r).
       if P r \<and> (\<exists>p \<in> set (tbl_tx db). tr_round_id (snd p) = rid \<and> tr_type (snd p) = ''tree'')
       then map fst (filter (\<lambda>(_, t). tr_round_id t = rid \<and> tr_type t = ''commitment'') (tbl_tx db))
       else []) (tbl_round db))"

definition GetSweepableRounds :: "(nat \<Rightarrow> attempt) \<Rightarrow> Db \<Rightarrow> string list gores" where
  "GetSweepableRounds att db =
     exec_query att (rounds_where (\<lambda>r. \<not> rr_swept r \<and> rr_ended r \<and> \<not> rr_failed r) db)"

definition GetSweptRounds :: "(nat \<Rightarrow> attempt) \<Rightarrow> Db \<Rightarrow> string list gores" where
  "GetSweptRounds att db =
     exec_query att (rounds_where (\<lambda>r. rr_swept r \<and> rr_ended r \<and> \<not> rr_failed r) db)"

subsection \<open>offchain_tx_repo.go\<close>

definition AddOrUpdateOffchainTx :: "(nat \<Rightarrow> attempt) \<Rightarrow> OffchainTx \<Rightarrow> Db \<Rightarrow> Db \<times> go_error option" where
  "AddOrUpdateOffchainTx att tx db =
     execTx att (\<lambda>db.
       foreach (\<lambda>(checkpointTxid, commitmentTxid) db.
           case map_of (ot_CheckpointTxs tx) checkpointTxid of
             None \<Rightarrow> Inr db
           | Some checkpointTx \<Rightarrow>
               UpsertCheckpointTx checkpointTxid
                 \<lparr>cr_tx = checkpointTx, cr_commitment_txid = commitmentTxid,
                  cr_is_root_commitment_txid = (commitmentTxid = ot_RootCommitmentTxId tx),
                  cr_offchain_txid = ot_ArkTxid tx\<rparr> db)
         (AList.clearjunk (ot_CommitmentTxids tx))
         (UpsertOffchainTx (ot_ArkTxid tx)
            \<lparr>or_tx = ot_ArkTx tx, or_starting_timestamp = ot_StartingTimestamp tx,
             or_ending_timestamp = ot_EndingTimestamp tx, or_expiry_timestamp = ot_ExpiryTimestamp tx,
             or_fail_reason = null_string (ot_FailReason tx), or_stage_code = stage_Code (ot_Stage tx)\<rparr> db)) db"

text \<open>\<open>rowsToOffchainTx\<close> over the rows of \<open>offchain_tx_vw\<close>: one per checkpoint of the transaction.\<close>

definition rowsToOffchainTx :: "string \<Rightarrow> offchain_tx_row \<Rightarrow> (string \<times> checkpoint_tx_row) list \<Rightarrow> OffchainTx" where
  "rowsToOffchainTx txid vt vws =
     \<lparr>ot_Stage = \<lparr>stage_Code = or_stage_code vt,
        stage_Ended = (or_stage_code vt = OffchainTxFinalizedStage),
        stage_Failed = (col_string (or_fail_reason vt) \<noteq> [])\<rparr>,
      ot_StartingTimestamp = or_starting_timestamp vt, ot_EndingTimestamp = or_ending_timestamp vt,
      ot_ArkTxid = txid, ot_ArkTx = or_tx vt,
      ot_CheckpointTxs = fold (\<lambda>(k, r). AList.update k (cr_tx r)) vws [],
      ot_CommitmentTxids = fold (\<lambda>(k, r). AList.update k (cr_commitment_txid r)) vws [],
      ot_RootCommitmentTxId =
        fold (\<lambda>(_, r) root. if cr_is_root_commitment_txid r then cr_commitment_txid r else root) vws [],
      ot_ExpiryTimestamp = or_expiry_timestamp vt, ot_Depth = 0, ot_ParentMarkerIDs = [],
      ot_FailReason = col_string (or_fail_reason vt), ot_Version = 0, ot_changes = []\<rparr>"

definition stored_offchain_tx :: "string \<Rightarrow> Db \<Rightarrow> OffchainTx option" where
  "stored_offchain_tx txid db =
     map_option (\<lambda>vt. rowsToOffchainTx txid vt
         (filter (\<lambda>(_, r). cr_offchain_txid r = txid) (tbl_checkpoint_tx db)))
       (map_of (tbl_offchain_tx db) txid)"

definition offchain_not_found :: go_error where
  "offchain_not_found = Errorf ''offchain tx not found''"

definition GetAnyOffchainTx :: "(nat \<Rightarrow> attempt) \<Rightarrow> string \<Rightarrow> Db \<Rightarrow> OffchainTx gores" where
  "GetAnyOffchainTx att txid db =
     rbind (exec_query att (stored_offchain_tx txid db)) (\<lambda>r.
       case r of None \<Rightarrow> Inl offchain_not_found | Some tx \<Rightarrow> Inr tx)"

text \<open>\<open>SelectOffchainTx\<close> keeps the accepted and the finalized ones.\<close>

definition GetOffchainTx :: "(nat \<Rightarrow> attempt) \<Rightarrow> string \<Rightarrow> Db \<Rightarrow> OffchainTx gores" where
  "GetOffchainTx att txid db =
     rbind (exec_query att (stored_offchain_tx txid db)) (\<lambda>r.
       case r of None \<Rightarrow> Inl offchain_not_found
       | Some tx \<Rightarrow> if stage_Code (ot_Stage tx) = 2 \<or> stage_Code (ot_Stage tx) = 3 then Inr tx
                    else Inl offchain_not_found)"
subsection \<open>What the repositories guarantee\<close>

lemma UpsertVtxo_frame [simp]:
  "tbl_vtxo_commitment_txid (UpsertVtxo op r db) = tbl_vtxo_commitment_txid db"
  "tbl_asset_projection (UpsertVtxo op r db) = tbl_asset_projection db"
  "tbl_asset (UpsertVtxo op r db) = tbl_asset db" "tbl_marker (UpsertVtxo op r db) = tbl_marker db"
  "tbl_swept_marker (UpsertVtxo op r db) = tbl_swept_marker db"
  "tbl_swept_vtxo (UpsertVtxo op r db) = tbl_swept_vtxo db"
  "has_row (tbl_vtxo (UpsertVtxo op r db)) k \<longleftrightarrow> k = op \<or> has_row (tbl_vtxo db) k"
  by (simp_all add: UpsertVtxo_def Let_def)

lemma set_UpsertVtxo:
  assumes "(k, r') \<in> set (tbl_vtxo (UpsertVtxo op r db))"
  shows "(k, r') \<in> set (tbl_vtxo db) \<or> k = op \<and> (\<exists>iid. r' = r\<lparr>vr_intent_id := iid\<rparr>)"
  using assms update_rows_subset unfolding UpsertVtxo_def Let_def by fastforce

lemma InsertVtxoCommitmentTxid_eq_Inr [res_elims]:
  "InsertVtxoCommitmentTxid op c db = Inr db' \<longleftrightarrow>
     has_row (tbl_vtxo db) op \<and> \<not> has_row (tbl_vtxo_commitment_txid db) (op, c) \<and>
     db' = db\<lparr>tbl_vtxo_commitment_txid := tbl_vtxo_commitment_txid db @ [((op, c), ())]\<rparr>"
  by (auto simp: InsertVtxoCommitmentTxid_def res_elims)

lemma InsertVtxoAssetProjection_eq_Inr [res_elims]:
  "InsertVtxoAssetProjection aid op amount db = Inr db' \<longleftrightarrow>
     has_row (tbl_asset db) aid \<and> has_row (tbl_vtxo db) op \<and>
     \<not> has_row (tbl_asset_projection db) (aid, op) \<and>
     db' = db\<lparr>tbl_asset_projection := tbl_asset_projection db @ [((aid, op), amount)]\<rparr>"
  by (auto simp: InsertVtxoAssetProjection_def res_elims)

text \<open>The commitment rows only grow, and every one that is added was not there.\<close>

lemma foreach_commitments:
  assumes "foreach (InsertVtxoCommitmentTxid op) cs db = Inr db'"
  shows "tbl_vtxo db' = tbl_vtxo db \<and> tbl_swept_marker db' = tbl_swept_marker db \<and>
    tbl_swept_vtxo db' = tbl_swept_vtxo db \<and> tbl_marker db' = tbl_marker db \<and>
    (\<forall>c \<in> set cs. \<not> has_row (tbl_vtxo_commitment_txid db) (op, c)) \<and>
    (\<forall>k. has_row (tbl_vtxo_commitment_txid db) k \<longrightarrow> has_row (tbl_vtxo_commitment_txid db') k)"
  using assms
proof (induction cs arbitrary: db)
  case (Cons c cs)
  let ?t = "tbl_vtxo_commitment_txid db"
  let ?db1 = "db\<lparr>tbl_vtxo_commitment_txid := ?t @ [((op, c), ())]\<rparr>"
  have new: "\<not> has_row ?t (op, c)" and rest: "foreach (InsertVtxoCommitmentTxid op) cs ?db1 = Inr db'"
    using Cons.prems by (auto simp: rbind_eq_Inr InsertVtxoCommitmentTxid_eq_Inr)
  show ?case using Cons.IH [OF rest] new by auto
qed simp

lemma foreach_assets:
  assumes "foreach (\<lambda>a. InsertVtxoAssetProjection (ast_AssetId a) op (ast_Amount a)) as db = Inr db'"
  shows "tbl_vtxo db' = tbl_vtxo db \<and> tbl_swept_marker db' = tbl_swept_marker db \<and>
    tbl_swept_vtxo db' = tbl_swept_vtxo db \<and> tbl_marker db' = tbl_marker db \<and>
    tbl_vtxo_commitment_txid db' = tbl_vtxo_commitment_txid db"
  using assms
proof (induction as arbitrary: db)
  case (Cons a as)
  let ?db1 = "db\<lparr>tbl_asset_projection := tbl_asset_projection db @ [((ast_AssetId a, op), ast_Amount a)]\<rparr>"
  have "foreach (\<lambda>a. InsertVtxoAssetProjection (ast_AssetId a) op (ast_Amount a)) as ?db1 = Inr db'"
    using Cons.prems by (auto simp: rbind_eq_Inr InsertVtxoAssetProjection_eq_Inr)
  from Cons.IH [OF this] show ?case by auto
qed simp

lemma add_vtxo_ok:
  assumes "add_vtxo v db = Inr db'"
  shows "tbl_vtxo db' = tbl_vtxo (UpsertVtxo (vtxo_Outpoint v) (vtxo_to_row v) db)"
    and "tbl_swept_marker db' = tbl_swept_marker db" "tbl_swept_vtxo db' = tbl_swept_vtxo db"
    and "tbl_marker db' = tbl_marker db"
    and "c \<in> set (vtxo_CommitmentTxids v) \<Longrightarrow> \<not> has_row (tbl_vtxo_commitment_txid db) (vtxo_Outpoint v, c)"
    and "has_row (tbl_vtxo_commitment_txid db) k \<Longrightarrow> has_row (tbl_vtxo_commitment_txid db') k"
  using assms by (auto simp: add_vtxo_def Let_def rbind_eq_Inr dest!: foreach_commitments foreach_assets)

lemma add_vtxos_ok:
  assumes "foreach add_vtxo vs db = Inr db'"
  shows "tbl_swept_marker db' = tbl_swept_marker db" "tbl_swept_vtxo db' = tbl_swept_vtxo db"
    and "tbl_marker db' = tbl_marker db"
  using assms by (induction vs arbitrary: db) (auto simp: rbind_eq_Inr dest: add_vtxo_ok(2-4))

lemma add_vtxos_rows:
  assumes "foreach add_vtxo vs db = Inr db'" "(op, r) \<in> set (tbl_vtxo db')"
  shows "(op, r) \<in> set (tbl_vtxo db) \<or>
    (\<exists>v \<in> set vs. vtxo_Outpoint v = op \<and> (\<exists>iid. r = (vtxo_to_row v)\<lparr>vr_intent_id := iid\<rparr>))"
  using assms
proof (induction vs arbitrary: db)
  case (Cons v vs)
  then obtain db1 where 1: "add_vtxo v db = Inr db1" "foreach add_vtxo vs db1 = Inr db'"
    by (auto simp: rbind_eq_Inr)
  show ?case
    using Cons.IH [OF 1(2) Cons.prems(2)] add_vtxo_ok(1) [OF 1(1)] set_UpsertVtxo by (metis list.set_intros)
qed simp

text \<open>A row that is already there is written again only when none of its commitment rows is: the unique
  key of the commitment rows refuses a second insertion of a vtxo.\<close>

lemma add_vtxos_untouched:
  assumes "foreach add_vtxo vs db = Inr db'"
    and "\<And>v. v \<in> set vs \<Longrightarrow> vtxo_Outpoint v = op \<Longrightarrow>
      \<exists>c \<in> set (vtxo_CommitmentTxids v). has_row (tbl_vtxo_commitment_txid db) (op, c)"
  shows "map_of (tbl_vtxo db') op = map_of (tbl_vtxo db) op \<and> (\<forall>v \<in> set vs. vtxo_Outpoint v \<noteq> op)"
  using assms
proof (induction vs arbitrary: db)
  case (Cons v vs)
  then obtain db1 where 1: "add_vtxo v db = Inr db1" "foreach add_vtxo vs db1 = Inr db'"
    by (auto simp: rbind_eq_Inr)
  have ne: "vtxo_Outpoint v \<noteq> op" using add_vtxo_ok(5) [OF 1(1)] Cons.prems(2) [of v] by auto
  have "map_of (tbl_vtxo db') op = map_of (tbl_vtxo db1) op \<and> (\<forall>v \<in> set vs. vtxo_Outpoint v \<noteq> op)"
    using Cons.IH [OF 1(2)] Cons.prems(2) add_vtxo_ok(6) [OF 1(1)] by (metis list.set_intros(2))
  then show ?case using ne by (simp add: add_vtxo_ok(1) [OF 1(1)] UpsertVtxo_def Let_def update_conv')
qed simp
subsection \<open>Spending and settling\<close>

text \<open>The loops over the spent vtxos change the rows of the vtxos they name, and nothing else.\<close>

definition upd_all :: "('k \<Rightarrow> 'a \<Rightarrow> 'r \<Rightarrow> 'r) \<Rightarrow> ('k \<times> 'a) list \<Rightarrow> ('k \<times> 'r) list \<Rightarrow> ('k \<times> 'r) list" where
  "upd_all f m t = fold (\<lambda>(k, a). update_row k (f k a)) m t"

lemma map_of_upd_all:
  assumes "distinct (map fst m)"
  shows "map_of (upd_all f m t) k =
    (case map_of m k of None \<Rightarrow> map_of t k | Some a \<Rightarrow> map_option (f k a) (map_of t k))"
  using assms
proof (induction m arbitrary: t)
  case (Cons p m)
  have "map_of m (fst p) = None" using Cons.prems by (auto simp: map_of_eq_None_iff)
  then show ?case
    using Cons.IH [of "update_row (fst p) (f (fst p) (snd p)) t"] Cons.prems
    by (auto simp: upd_all_def case_prod_beta split: option.split)
qed (simp add: upd_all_def)

lemma map_fst_upd_all [simp]: "map fst (upd_all f m t) = map fst t"
  unfolding upd_all_def by (induction m arbitrary: t) (auto simp: case_prod_beta)

lemma has_row_upd_all [simp]: "has_row (upd_all f m t) k \<longleftrightarrow> has_row t k"
  using map_fst_upd_all [of f m t] by (metis has_row_def list.set_map)

lemma settle_body:
  "foreach (\<lambda>(vtxo, spentBy) db. Inr (UpdateVtxoSettled vtxo (null_string spentBy) settledBy db)) m db =
     Inr (db\<lparr>tbl_vtxo := upd_all (\<lambda>_ spentBy r. r\<lparr>vr_spent := True, vr_spent_by := null_string spentBy,
                                                    vr_settled_by := settledBy\<rparr>) m (tbl_vtxo db)\<rparr>)"
  by (induction m arbitrary: db) (auto simp: upd_all_def UpdateVtxoSettled_def)

lemma spend_body:
  "foreach (\<lambda>(vtxo, spentBy) db. Inr (UpdateVtxoSpent vtxo (null_string spentBy) arkTxid db)) m db =
     Inr (db\<lparr>tbl_vtxo := upd_all (\<lambda>_ spentBy r. r\<lparr>vr_spent := True, vr_spent_by := null_string spentBy,
                                                    vr_ark_txid := arkTxid\<rparr>) m (tbl_vtxo db)\<rparr>)"
  by (induction m arbitrary: db) (auto simp: upd_all_def UpdateVtxoSpent_def)

lemma SettleVtxos_ok:
  assumes "SettleVtxos att m settledBy db = (db', None)"
  shows "db' = db\<lparr>tbl_vtxo := upd_all (\<lambda>_ spentBy r. r\<lparr>vr_spent := True,
    vr_spent_by := null_string spentBy, vr_settled_by := null_string settledBy\<rparr>) m (tbl_vtxo db)\<rparr>"
  using execTx_None [OF assms [unfolded SettleVtxos_def]] by (simp add: settle_body)

lemma SpendVtxos_ok:
  assumes "SpendVtxos att m arkTxid db = (db', None)"
  shows "db' = db\<lparr>tbl_vtxo := upd_all (\<lambda>_ spentBy r. r\<lparr>vr_spent := True,
    vr_spent_by := null_string spentBy, vr_ark_txid := Some arkTxid\<rparr>) m (tbl_vtxo db)\<rparr>"
  using execTx_None [OF assms [unfolded SpendVtxos_def]] by (simp add: spend_body)

subsection \<open>Reading vtxos back\<close>

definition with_asset :: "Outpoint \<Rightarrow> Asset \<Rightarrow> Vtxo \<Rightarrow> Vtxo" where
  "with_asset op a v = (if vtxo_Outpoint v = op then v\<lparr>vtxo_Assets := vtxo_Assets v @ [a]\<rparr> else v)"

lemma with_asset_fields [simp]:
  "vtxo_Outpoint (with_asset op a v) = vtxo_Outpoint v" "vtxo_Swept (with_asset op a v) = vtxo_Swept v"
  "vtxo_Spent (with_asset op a v) = vtxo_Spent v" "vtxo_Amount (with_asset op a v) = vtxo_Amount v"
  "vtxo_Unrolled (with_asset op a v) = vtxo_Unrolled v"
  by (simp_all add: with_asset_def)

lemma read_rows_Cons:
  "read_rows vs (row # rows) =
     (if vw_Outpoint row \<in> vtxo_Outpoint ` set vs
      then read_rows (if rowToAsset row \<noteq> \<lparr>ast_AssetId = [], ast_Amount = 0\<rparr>
                      then map (with_asset (vw_Outpoint row) (rowToAsset row)) vs else vs) rows
      else read_rows (vs @ [rowToVtxo row]) rows)"
  by (simp add: Let_def with_asset_def [abs_def])

declare read_rows.simps(2) [simp del]

lemma read_rows_outpoints:
  "vtxo_Outpoint ` set (read_rows vs rows) = vtxo_Outpoint ` set vs \<union> vw_Outpoint ` set rows"
proof (induction rows arbitrary: vs)
  case (Cons row rows)
  show ?case
    unfolding read_rows_Cons by (auto simp: Cons.IH image_image rowToVtxo_def Let_def)
qed simp

definition reads_row :: "Db \<Rightarrow> Vtxo \<Rightarrow> bool" where
  "reads_row db v \<longleftrightarrow> (\<exists>r. (vtxo_Outpoint v, r) \<in> set (tbl_vtxo db) \<and>
     vtxo_Swept v = row_swept db (vtxo_Outpoint v) r \<and> vtxo_Spent v = vr_spent r \<and>
     vtxo_Amount v = vr_amount r \<and> vtxo_Unrolled v = vr_unrolled r)"

lemma read_rows_reads:
  assumes "\<forall>v \<in> set vs. reads_row db v" and "set rows \<subseteq> set (vtxo_vw db)"
  shows "\<forall>v \<in> set (read_rows vs rows). reads_row db v"
  using assms
proof (induction rows arbitrary: vs)
  case (Cons row rows)
  have "row \<in> set (vtxo_vw db)" using Cons.prems(2) by simp
  then have row: "reads_row db (rowToVtxo row)"
    by (auto simp: vtxo_vw_def reads_row_def rowToVtxo_def Let_def vtxo_vw_rows_fields)
  have upd: "reads_row db (with_asset op a v) \<longleftrightarrow> reads_row db v" for op a v
    by (simp add: reads_row_def)
  have IH: "\<forall>v \<in> set vs'. reads_row db v \<Longrightarrow> \<forall>v \<in> set (read_rows vs' rows). reads_row db v" for vs'
    using Cons.IH Cons.prems(2) by simp
  have "\<forall>v \<in> set (map (with_asset op a) vs). reads_row db v" "\<forall>v \<in> set (vs @ [rowToVtxo row]). reads_row db v"
    for op a using Cons.prems(1) row by (auto simp: upd)
  then show ?case
    unfolding read_rows_Cons using IH Cons.prems(1) by presburger
qed simp

text \<open>\<open>GetVtxos\<close> returns the stored vtxos among the outpoints it is asked for, with the flags of their
  rows and the swept flag of the view.\<close>

lemma GetVtxos_ok:
  assumes "GetVtxos att ops db = Inr vs"
  shows "vtxo_Outpoint ` set vs = {op \<in> set ops. has_row (tbl_vtxo db) op}"
    and "v \<in> set vs \<Longrightarrow> reads_row db v"
proof -
  let ?rows = "filter (\<lambda>w. vw_Outpoint w \<in> set ops) (vtxo_vw db)"
  have vs: "vs = readRows ?rows \<or> ops = [] \<and> vs = []"
    using assms by (auto simp: GetVtxos_def exec_query_eq_Inr split: if_splits)
  have "op \<in> vw_Outpoint ` set (vtxo_vw db) \<longleftrightarrow> has_row (tbl_vtxo db) op" for op
    using vtxo_vw_ex [of db "\<lambda>k r b. k = op"] by (auto simp: has_row_def image_iff) force
  then have "vw_Outpoint ` set ?rows = {op \<in> set ops. has_row (tbl_vtxo db) op}" by force
  then show "vtxo_Outpoint ` set vs = {op \<in> set ops. has_row (tbl_vtxo db) op}"
    using vs read_rows_outpoints [of "[]" ?rows] by (auto simp del: set_filter simp: readRows_def)
  show "v \<in> set vs \<Longrightarrow> reads_row db v"
    using vs read_rows_reads [of "[]" db ?rows] by (auto simp: readRows_def)
qed

text \<open>With distinct keys, the row that a vtxo was read from is the row of its outpoint.\<close>

lemma reads_row_map_of:
  assumes "distinct (map fst (tbl_vtxo db))"
  shows "reads_row db v \<longleftrightarrow> (\<exists>r. map_of (tbl_vtxo db) (vtxo_Outpoint v) = Some r \<and>
     vtxo_Swept v = row_swept db (vtxo_Outpoint v) r \<and> vtxo_Spent v = vr_spent r \<and>
     vtxo_Amount v = vr_amount r \<and> vtxo_Unrolled v = vr_unrolled r)"
  using assms by (simp add: reads_row_def)
subsection \<open>The descendants of a vtxo\<close>

text \<open>One vtxo descends from another when the other was spent by the ark transaction that created it.\<close>

definition child_of :: "Db \<Rightarrow> (Outpoint \<times> Outpoint) set" where
  "child_of db = {(a, b). \<exists>r. (a, r) \<in> set (tbl_vtxo db) \<and> vr_ark_txid r = Some (outp_Txid b) \<and>
     has_row (tbl_vtxo db) b}"

definition avoiding :: "'a set \<Rightarrow> ('a \<times> 'a) set \<Rightarrow> ('a \<times> 'a) set" where
  "avoiding V R = R \<inter> UNIV \<times> (- V)"

lemma rtrancl_avoiding_start: "(b, c) \<in> R\<^sup>* \<Longrightarrow> (b, c) \<in> (avoiding {b} R)\<^sup>*"
proof (induction rule: rtrancl_induct)
  case (step y z)
  then show ?case by (cases "z = b") (auto simp: avoiding_def intro: rtrancl_into_rtrancl)
qed simp

lemma avoiding_avoiding: "avoiding {b} (avoiding V R) = avoiding (insert b V) R"
  by (auto simp: avoiding_def)

lemma descendants_chain_sound:
  assumes "p \<in> set (tbl_vtxo db)" "c \<in> set (descendants_chain db visited p)"
  shows "(fst p, c) \<in> (child_of db)\<^sup>*"
  using assms
proof (induction db visited p rule: descendants_chain.induct)
  case (1 db visited p)
  from 1(3) consider "c = fst p"
    | k where "k \<in> set (child_rows db visited (snd p))" "c \<in> set (descendants_chain db (visited @ [fst k]) k)"
    by (auto simp: descendants_chain.simps [of db visited p])
  then show ?case
  proof cases
    case 2
    then have k: "k \<in> set (tbl_vtxo db)" "vr_ark_txid (snd p) = Some (outp_Txid (fst k))"
      by (auto simp: child_rows_def)
    then have "(fst p, fst k) \<in> child_of db" using 1(2) by (force simp: child_of_def has_row_def)
    then show ?thesis using 1(1) [OF 2(1) k(1) 2(2)] by (rule converse_rtrancl_into_rtrancl)
  qed simp
qed

lemma descendants_chain_complete:
  assumes "distinct (map fst (tbl_vtxo db))" "p \<in> set (tbl_vtxo db)"
    and "(fst p, c) \<in> (avoiding (set visited) (child_of db))\<^sup>*"
  shows "c \<in> set (descendants_chain db visited p)"
  using assms
proof (induction db visited p rule: descendants_chain.induct)
  case (1 db visited p)
  show ?case
  proof (cases "c = fst p")
    case False
    with 1(4) obtain b where b: "(fst p, b) \<in> avoiding (set visited) (child_of db)"
      "(b, c) \<in> (avoiding (set visited) (child_of db))\<^sup>*" by (metis converse_rtranclE)
    then obtain r rb where r: "(fst p, r) \<in> set (tbl_vtxo db)" "vr_ark_txid r = Some (outp_Txid b)"
      and rb: "(b, rb) \<in> set (tbl_vtxo db)" and nb: "b \<notin> set visited"
      by (auto simp: avoiding_def child_of_def has_row_def)
    have "r = snd p" using 1(2,3) r(1) by (metis eq_key_imp_eq_value prod.collapse)
    then have k: "(b, rb) \<in> set (child_rows db visited (snd p))"
      using r rb nb by (auto simp: child_rows_def)
    have "(b, c) \<in> (avoiding (set (visited @ [b])) (child_of db))\<^sup>*"
      using rtrancl_avoiding_start [OF b(2)] by (simp add: avoiding_avoiding)
    then have "c \<in> set (descendants_chain db (visited @ [b]) (b, rb))"
      using 1(1) [OF k 1(2) rb] by simp
    then show ?thesis using k by (force simp: descendants_chain.simps [of db visited p])
  next
    case True
    then show ?thesis by (simp add: descendants_chain.simps [of db visited p])
  qed
qed

lemma GetAllChildrenVtxos_reachable:
  assumes "distinct (map fst (tbl_vtxo db))" "GetAllChildrenVtxos att op db = Inr ops"
  shows "set ops = {c. has_row (tbl_vtxo db) op \<and> (op, c) \<in> (child_of db)\<^sup>*}" and "distinct ops"
proof -
  have ops: "ops = remdups (concat (map (descendants_chain db [op]) (filter (\<lambda>p. fst p = op) (tbl_vtxo db))))"
    using assms(2) by (simp add: GetAllChildrenVtxos_def exec_query_eq_Inr)
  have start: "(op, c) \<in> (avoiding (set [op]) (child_of db))\<^sup>*" if "(op, c) \<in> (child_of db)\<^sup>*" for c
    using rtrancl_avoiding_start [OF that] by simp
  have "c \<in> set ops \<longleftrightarrow> has_row (tbl_vtxo db) op \<and> (op, c) \<in> (child_of db)\<^sup>*" for c
  proof
    assume "c \<in> set ops"
    then obtain p where p: "p \<in> set (tbl_vtxo db)" "fst p = op" "c \<in> set (descendants_chain db [op] p)"
      by (auto simp: ops)
    then show "has_row (tbl_vtxo db) op \<and> (op, c) \<in> (child_of db)\<^sup>*"
      using descendants_chain_sound [OF p(1,3)] by (auto simp: has_row_def)
  next
    assume c: "has_row (tbl_vtxo db) op \<and> (op, c) \<in> (child_of db)\<^sup>*"
    then obtain p where p: "p \<in> set (tbl_vtxo db)" "fst p = op" by (auto simp: has_row_def)
    then have "c \<in> set (descendants_chain db [op] p)"
      using descendants_chain_complete [OF assms(1) p(1)] start c by simp
    then show "c \<in> set ops" using p by (cases p) (auto simp: ops)
  qed
  then show "set ops = {c. has_row (tbl_vtxo db) op \<and> (op, c) \<in> (child_of db)\<^sup>*}" by blast
  show "distinct ops" by (simp add: ops)
qed

subsection \<open>Liquidity\<close>

lemma length_vtxo_vw_rows: "length (vtxo_vw_rows db p) = max 1 (length (assets_of db (fst p)))"
  by (cases "assets_of db (fst p)") (auto simp: vtxo_vw_rows_def Let_def case_prod_beta)

lemma sum_filter_const:
  assumes "\<forall>w \<in> set ws. P w = b" "\<forall>w \<in> set ws. f w = (a::int)"
  shows "sum_list (map f (filter P ws)) = (if b then int (length ws) * a else 0)"
  using assms by (induction ws) (auto simp: algebra_simps)

text \<open>A sum over the view counts a vtxo once per asset that it carries.\<close>

lemma sum_amounts_vw:
  "sum_amounts (filter (\<lambda>w. P (vw_Swept w) (vw_Row w)) (vtxo_vw db)) =
     sum_list (map (\<lambda>(op, r). if P (row_swept db op r) r
       then int (max 1 (length (assets_of db op))) * sint (vr_amount r) else 0) (tbl_vtxo db))"
proof -
  have row: "sum_amounts (filter (\<lambda>w. P (vw_Swept w) (vw_Row w)) (vtxo_vw_rows db p)) =
      (if P (row_swept db (fst p) (snd p)) (snd p)
       then int (max 1 (length (assets_of db (fst p)))) * sint (vr_amount (snd p)) else 0)" for p
    unfolding sum_amounts_def length_vtxo_vw_rows [symmetric]
    by (rule sum_filter_const) (use vtxo_vw_rows_fields [of _ db "fst p" "snd p"] in auto)
  have "sum_amounts (filter (\<lambda>w. P (vw_Swept w) (vw_Row w)) (concat (map (vtxo_vw_rows db) t))) =
      sum_list (map (\<lambda>p. if P (row_swept db (fst p) (snd p)) (snd p)
        then int (max 1 (length (assets_of db (fst p)))) * sint (vr_amount (snd p)) else 0) t)" for t
  proof (induction t)
    case (Cons p t)
    have "sum_amounts (a @ b) = sum_amounts a + sum_amounts b" for a b by (simp add: sum_amounts_def)
    then show ?case using Cons row [of p] by simp
  qed (simp add: sum_amounts_def)
  then have "sum_amounts (filter (\<lambda>w. P (vw_Swept w) (vw_Row w)) (vtxo_vw db)) =
      sum_list (map (\<lambda>p. if P (row_swept db (fst p) (snd p)) (snd p)
        then int (max 1 (length (assets_of db (fst p)))) * sint (vr_amount (snd p)) else 0) (tbl_vtxo db))"
    by (simp only: vtxo_vw_def)
  then show ?thesis by (simp only: case_prod_unfold)
qed
subsection \<open>Sample tables\<close>

definition sample_op :: "string \<Rightarrow> Outpoint" where
  "sample_op txid = \<lparr>outp_Txid = txid, outp_VOut = 0\<rparr>"

definition sample_row :: "nat \<Rightarrow> string option \<Rightarrow> vtxo_row" where
  "sample_row amount arkTxid =
     \<lparr>vr_pubkey = ''pk'', vr_amount = of_nat amount, vr_expires_at = 100, vr_created_at = 1,
      vr_commitment_txid = ''c'', vr_spent_by = None, vr_spent = (arkTxid \<noteq> None), vr_unrolled = False,
      vr_preconfirmed = False, vr_settled_by = None, vr_ark_txid = arkTxid, vr_intent_id = None,
      vr_depth = 0, vr_markers = []\<rparr>"

definition sample_chain :: Db where
  "sample_chain = empty_Db\<lparr>tbl_vtxo :=
     [(sample_op ''t1'', sample_row 10 (Some ''t2'')), (sample_op ''t2'', sample_row 10 (Some ''t1'')),
      (sample_op ''t3'', sample_row 10 None)]\<rparr>"

definition sample_two_assets :: Db where
  "sample_two_assets = empty_Db\<lparr>tbl_vtxo := [(sample_op ''t1'', sample_row 1000 None)],
     tbl_asset_projection := [((''a1'', sample_op ''t1''), 5), ((''a2'', sample_op ''t1''), 7)]\<rparr>"

lemmas sample_db_defs = sample_op_def sample_row_def sample_chain_def sample_two_assets_def empty_Db_def

subsection \<open>Descendants and liquidity\<close>

text \<open>C38: the recursive query for the descendants of a vtxo, which does not enter a vtxo twice on the
  same path, returns each vtxo that is reachable from it along the links from a spent vtxo to the
  outputs of the ark transaction that spent it, itself included, exactly once, and nothing else; it
  ends on cyclic tables too.\<close>

theorem descendants_query_reaches_all:
  assumes "distinct (map fst (tbl_vtxo db))" and "at_Statement (att 0) = None"
  shows "\<exists>ops. GetAllChildrenVtxos att op db = Inr ops \<and> distinct ops \<and>
    set ops = {c. has_row (tbl_vtxo db) op \<and> (op, c) \<in> (child_of db)\<^sup>*}"
proof -
  obtain ops where ops: "GetAllChildrenVtxos att op db = Inr ops"
    using assms(2) by (auto simp: GetAllChildrenVtxos_def exec_query_def)
  then show ?thesis using GetAllChildrenVtxos_reachable [OF assms(1) ops] by blast
qed

theorem descendants_query_reaches_all_witness:
  "(\<exists>ops. GetAllChildrenVtxos (\<lambda>_. calm) (sample_op ''t1'') sample_chain = Inr ops \<and> distinct ops \<and>
    set ops = {c. has_row (tbl_vtxo sample_chain) (sample_op ''t1'') \<and>
                  (sample_op ''t1'', c) \<in> (child_of sample_chain)\<^sup>*})"
  using descendants_query_reaches_all [of sample_chain "\<lambda>_. calm" "sample_op ''t1''"]
  by (simp add: sample_db_defs calm_def)

text \<open>the amount reported as expiring liquidity is the sum over the unspent, unswept vtxos that are
  not unrolled and expire in the window, in which a vtxo counts as many times as it carries assets (once
  when it carries none).\<close>

theorem expiring_liquidity_weighs_assets:
  assumes "GetExpiringLiquidity att after before db = Inr amount"
  shows "uint amount = sum_list (map (\<lambda>(op, r).
    if \<not> row_swept db op r \<and> \<not> vr_spent r \<and> \<not> vr_unrolled r \<and> vr_expires_at r > after \<and>
       (before \<le> 0 \<or> vr_expires_at r < before)
    then int (max 1 (length (assets_of db op))) * sint (vr_amount r) else 0) (tbl_vtxo db))"
proof -
  let ?P = "\<lambda>b r. \<not> b \<and> \<not> vr_spent r \<and> \<not> vr_unrolled r \<and> vr_expires_at r > after \<and>
    (before \<le> 0 \<or> vr_expires_at r < before)"
  let ?n = "sum_amounts (filter (\<lambda>w. ?P (vw_Swept w) (vw_Row w)) (vtxo_vw db))"
  have "0 \<le> ?n" "?n < 2 ^ 63" "amount = word_of_int ?n"
    using assms by (auto simp: GetExpiringLiquidity_def liquidity_def Let_def res_elims)
  then have "uint amount = ?n" by (simp add: uint_word_of_int_eq take_bit_int_eq_self)
  then show ?thesis by (simp only: sum_amounts_vw [of ?P])
qed

theorem expiring_liquidity_weighs_assets_witness:
  "GetExpiringLiquidity (\<lambda>_. calm) 0 0 sample_two_assets = Inr 2000 \<and>
   uint (2000 :: u64) = sum_list (map (\<lambda>(op, r).
    if \<not> row_swept sample_two_assets op r \<and> \<not> vr_spent r \<and> \<not> vr_unrolled r \<and> vr_expires_at r > 0 \<and>
       ((0 :: int) \<le> 0 \<or> vr_expires_at r < 0)
    then int (max 1 (length (assets_of sample_two_assets op))) * sint (vr_amount r) else 0)
     (tbl_vtxo sample_two_assets))"
proof -
  have ok: "GetExpiringLiquidity (\<lambda>_. calm) 0 0 sample_two_assets = Inr 2000"
    by (simp add: GetExpiringLiquidity_def liquidity_def Let_def exec_query_def calm_def sum_amounts_def
        vtxo_vw_def vtxo_vw_rows_def assets_of_def commitments_of_def row_swept_def has_row_def sample_db_defs)
  show ?thesis using ok expiring_liquidity_weighs_assets [OF ok] by blast
qed

subsection \<open>Receivers of a round\<close>

lemma upsert_receivers:
  assumes "foreach (\<lambda>r. UpsertReceiver iid (rcv_PubKey r) (rcv_OnchainAddress r) (rcv_Amount r)) rs db = Inr db'"
  shows "tbl_receiver db' = fold (\<lambda>r. AList.update (iid, rcv_PubKey r, rcv_OnchainAddress r) (rcv_Amount r)) rs
    (tbl_receiver db)"
  using assms
  by (induction rs arbitrary: db) (auto simp: rbind_eq_Inr UpsertReceiver_def guard_err_eq_Inr)

lemma foreach_intent_ids:
  "foreach (\<lambda>v. UpdateVtxoIntentId iid (vtxo_Outpoint v)) vs db = Inr db' \<Longrightarrow> tbl_receiver db' = tbl_receiver db"
  by (induction vs arbitrary: db) (auto simp: rbind_eq_Inr UpdateVtxoIntentId_def guard_err_eq_Inr)

lemma map_of_fold_update_keys:
  "map_of (fold (\<lambda>r. AList.update (k r) (a r)) rs t) key =
     (case filter (\<lambda>r. k r = key) rs of [] \<Rightarrow> map_of t key | _ \<Rightarrow> Some (a (last (filter (\<lambda>r. k r = key) rs))))"
  by (induction rs arbitrary: t) (auto simp: update_conv' split: list.split)

text \<open>of the receivers of an intent that share their public key and their onchain address, the table
  keeps one row, with the amount of the last of them.\<close>

theorem receivers_with_one_key_are_merged:
  assumes "upsert_round_intent roundId intent db = Inr db'"
    and "filter (\<lambda>r. rcv_PubKey r = pubkey \<and> rcv_OnchainAddress r = address) (int_Receivers intent) = rs"
    and "rs \<noteq> []"
  shows "map_of (tbl_receiver db') (int_Id intent, pubkey, address) = Some (rcv_Amount (last rs))"
proof -
  let ?k = "\<lambda>r. (int_Id intent, rcv_PubKey r, rcv_OnchainAddress r)"
  have "tbl_receiver db' = fold (\<lambda>r. AList.update (?k r) (rcv_Amount r)) (int_Receivers intent) (tbl_receiver db)"
    using assms(1)
    by (auto simp: upsert_round_intent_def rbind_eq_Inr UpsertIntent_def guard_err_eq_Inr
        dest!: upsert_receivers foreach_intent_ids)
  moreover have "filter (\<lambda>r. ?k r = (int_Id intent, pubkey, address)) (int_Receivers intent) = rs"
    using assms(2) by simp
  ultimately show ?thesis using assms(3)
    by (simp only: map_of_fold_update_keys [of ?k rcv_Amount]) (simp split: list.split)
qed

definition sample_twice_paid :: Intent where
  "sample_twice_paid =
     \<lparr>int_Id = ''i'', int_Inputs = [],
      int_Receivers = [\<lparr>rcv_Amount = 600, rcv_OnchainAddress = [], rcv_PubKey = ''pk''\<rparr>,
                       \<lparr>rcv_Amount = 400, rcv_OnchainAddress = [], rcv_PubKey = ''pk''\<rparr>],
      int_Proof = ''p'', int_Message = ''m'', int_Txid = ''t'', int_LeafTxExtension = []\<rparr>"

definition sample_round_db :: Db where
  "sample_round_db = empty_Db\<lparr>tbl_round := [(''r'', round_to_row zero_Round)]\<rparr>"

theorem receivers_with_one_key_are_merged_witness:
  "\<exists>db'. upsert_round_intent ''r'' sample_twice_paid sample_round_db = Inr db' \<and>
     map_of (tbl_receiver db') (''i'', ''pk'', []) = Some 400 \<and> TotalOutputAmount sample_twice_paid = 1000"
proof -
  have "\<exists>db'. upsert_round_intent ''r'' sample_twice_paid sample_round_db = Inr db'"
    by (simp add: upsert_round_intent_def UpsertIntent_def UpsertReceiver_def sample_twice_paid_def
        sample_round_db_def empty_Db_def has_row_def)
  then obtain db' where db': "upsert_round_intent ''r'' sample_twice_paid sample_round_db = Inr db'" ..
  show ?thesis
    using db' receivers_with_one_key_are_merged [OF db' refl, of "''pk''" "[]"]
    by (auto simp: sample_twice_paid_def TotalOutputAmount_def)
qed
subsection \<open>Issued assets\<close>

definition metadata_ok :: "DomainAsset \<Rightarrow> bool" where
  "metadata_ok a \<longleftrightarrow> MetadataList_validate (da_Metadata a) = Inr ()"

definition control_known :: "Db \<Rightarrow> DomainAsset \<Rightarrow> bool" where
  "control_known db a \<longleftrightarrow>
     da_ControlAssetId a = [] \<or> da_ControlAssetId a = da_Id a \<or> has_row (tbl_asset db) (da_ControlAssetId a)"

lemma add_asset_stored:
  assumes "metadata_ok a" "control_known db a"
  shows "\<exists>db' n'. add_asset th a (db, n) = Inr (db', n') \<and>
    (\<forall>k. has_row (tbl_asset db') k \<longleftrightarrow> k = da_Id a \<or> has_row (tbl_asset db) k)"
proof (cases "has_row (tbl_asset db) (da_Id a)")
  case False
  obtain root where "GenerateMetadataListHash th (da_Metadata a) = Some root"
    using GenerateMetadataListHash_Some by blast
  then obtain md mdHash where md: "(if length (da_Metadata a) > 0 then
      (case GenerateMetadataListHash th (da_Metadata a) of
         None \<Rightarrow> Inl (Errorf ''failed to compute metadata hash'')
       | Some h \<Rightarrow> (case NewMetadataList (da_Metadata a) of
           Inl err \<Rightarrow> Inl (Errorw ''failed to create metadata list: '' err)
         | Inr l \<Rightarrow> Inr (Some (MetadataList_String l), Some (hex_EncodeToString h))))
      else Inr (None, None)) = Inr (md, mdHash)"
    using assms(1) by (cases "da_Metadata a = []") (auto simp: metadata_ok_def NewMetadataList_def)
  have ok: "InsertAsset (da_Id a) \<lparr>ar_is_immutable = False, ar_metadata_hash = mdHash, ar_metadata = md,
      ar_control_asset_id = null_string (da_ControlAssetId a)\<rparr> db =
      Inr (db\<lparr>tbl_asset := tbl_asset db @ [(da_Id a, \<lparr>ar_is_immutable = False, ar_metadata_hash = mdHash,
        ar_metadata = md, ar_control_asset_id = null_string (da_ControlAssetId a)\<rparr>)]\<rparr>)"
    using False assms(2) by (auto simp: InsertAsset_def insert_row_def control_known_def null_string_def)
  show ?thesis unfolding add_asset_def Let_def prod.case md using False ok by simp
qed (auto simp: add_asset_def)

lemma add_assets_stored:
  assumes "\<forall>a \<in> set as. metadata_ok a \<and> control_known db a"
  shows "\<exists>db' n'. foreach (add_asset th) as (db, n) = Inr (db', n') \<and>
    (\<forall>k. has_row (tbl_asset db') k \<longleftrightarrow> k \<in> da_Id ` set as \<or> has_row (tbl_asset db) k)"
  using assms
proof (induction as arbitrary: db n)
  case (Cons a as)
  obtain db1 n1 where 1: "add_asset th a (db, n) = Inr (db1, n1)"
    "\<forall>k. has_row (tbl_asset db1) k \<longleftrightarrow> k = da_Id a \<or> has_row (tbl_asset db) k"
    using add_asset_stored [of a db th n] Cons.prems by auto
  have "\<forall>b \<in> set as. metadata_ok b \<and> control_known db1 b"
    using Cons.prems 1(2) by (auto simp: control_known_def)
  then show ?case using Cons.IH [of db1 n1] 1 by auto
qed simp

text \<open>when every issuance of a batch has no control asset, controls itself, or names a control asset
  that is stored already or is issued in the batch without a control asset of its own, then the
  repository stores every asset of the batch, whatever the order of the batch.\<close>

theorem issued_assets_are_stored:
  assumes "att 0 = calm" "batch \<noteq> []" "assets = concat (map snd batch)" "distinct (map da_Id assets)"
    and "\<forall>a \<in> set assets. metadata_ok a"
    and "\<forall>a \<in> set assets. control_known db a \<or>
      (\<exists>b \<in> set assets. da_Id b = da_ControlAssetId a \<and> da_ControlAssetId b = [])"
  shows "\<exists>db' n. AddAssets th att batch db = (db', n, None) \<and> (\<forall>a \<in> set assets. has_row (tbl_asset db') (da_Id a))"
proof -
  have once: "first_by_id seen xs = xs" if "distinct (map da_Id xs)" "da_Id ` set xs \<inter> set seen = {}" for seen xs
    using that by (induction xs arbitrary: seen) auto
  let ?top = "filter (\<lambda>a. da_ControlAssetId a = []) assets"
  let ?rest = "filter (\<lambda>a. da_ControlAssetId a \<noteq> []) assets"
  obtain db1 n1 where 1: "foreach (add_asset th) ?top (db, 0) = Inr (db1, n1)"
    "\<forall>k. has_row (tbl_asset db1) k \<longleftrightarrow> k \<in> da_Id ` set ?top \<or> has_row (tbl_asset db) k"
    using add_assets_stored [of ?top db th 0] assms(5) by (auto simp: control_known_def)
  have "\<forall>a \<in> set ?rest. metadata_ok a \<and> control_known db1 a"
  proof
    fix a assume a: "a \<in> set ?rest"
    then consider "control_known db a" | b where "b \<in> set ?top" "da_Id b = da_ControlAssetId a"
      using assms(6) by auto
    then show "metadata_ok a \<and> control_known db1 a"
    proof cases
      case 2
      then have "da_ControlAssetId a \<in> da_Id ` set ?top" by (metis imageI)
      then show ?thesis using a assms(5) 1(2) by (auto simp: control_known_def)
    qed (use a assms(5) 1(2) in \<open>auto simp: control_known_def\<close>)
  qed
  then obtain db2 n2 where 2: "foreach (add_asset th) ?rest (db1, n1) = Inr (db2, n2)"
    "\<forall>k. has_row (tbl_asset db2) k \<longleftrightarrow> k \<in> da_Id ` set ?rest \<or> has_row (tbl_asset db1) k"
    using add_assets_stored [of ?rest db1 th n1] by blast
  have "foreach (add_asset th) (control_first (first_by_id [] assets)) (db, 0) = Inr (db2, n2)"
    using once [of assets "[]"] assms(4) 1(1) 2(1) by (simp add: control_first_def foreach_append)
  then have "AddAssets th att batch db = (db2, n2, None)"
    using assms(1-3) by (simp add: AddAssets_def Let_def execTx_calm)
  moreover have "\<forall>a \<in> set assets. has_row (tbl_asset db2) (da_Id a)" using 1(2) 2(2) by auto
  ultimately show ?thesis by blast
qed

definition sample_asset :: "string \<Rightarrow> string \<Rightarrow> DomainAsset" where
  "sample_asset aid control =
     \<lparr>da_Id = aid, da_ControlAssetId = control, da_Metadata = [], da_Supply = 0\<rparr>"

theorem issued_assets_are_stored_witness:
  "\<exists>db' n. AddAssets (\<lambda>_ _. []) (\<lambda>_. calm) [(''tx'', [sample_asset ''b'' ''a'', sample_asset ''a'' []])] empty_Db =
     (db', n, None) \<and> has_row (tbl_asset db') ''a'' \<and> has_row (tbl_asset db') ''b''"
  using issued_assets_are_stored [of "\<lambda>_. calm" "[(''tx'', [sample_asset ''b'' ''a'', sample_asset ''a'' []])]"
      "[sample_asset ''b'' ''a'', sample_asset ''a'' []]" empty_Db "\<lambda>_ _. []"]
  by (auto simp: sample_asset_def metadata_ok_def MetadataList_validate_def control_known_def)

text \<open>a batch that issues an asset before its control asset, where the control asset has a control
  asset of its own in the batch, is refused as a whole, whatever the server does: only assets without
  a control asset are moved to the front.\<close>

theorem control_chain_is_refused:
  assumes "da_ControlAssetId c = da_Id b" "da_ControlAssetId b = da_Id a" "da_ControlAssetId a = []"
    and "distinct [da_Id a, da_Id b, da_Id c]" "da_Id a \<noteq> []" "da_Id b \<noteq> []"
    and "\<not> has_row (tbl_asset db) (da_Id b)" "\<not> has_row (tbl_asset db) (da_Id c)"
  shows "\<exists>err. AddAssets th att [(txid, [c, b, a])] db = (db, -1, Some err)"
proof -
  let ?body = "\<lambda>s. foreach (add_asset th) [a, c, b] (fst s, 0)"
  have sorted: "control_first (first_by_id [] [c, b, a]) = [a, c, b]"
    using assms(1-6) by (auto simp: control_first_def)
  have c_refused: "add_asset th c (db1, n) \<noteq> Inr s"
    if "tbl_asset db1 = tbl_asset db \<or> (\<exists>r. tbl_asset db1 = tbl_asset db @ [(da_Id a, r)])" for db1 n s
    using that assms
    by (auto simp: add_asset_def Let_def rbind_eq_Inr InsertAsset_def guard_err_eq_Inr null_string_def
        split: prod.splits)
  have after_a: "tbl_asset db1 = tbl_asset db \<or> (\<exists>r. tbl_asset db1 = tbl_asset db @ [(da_Id a, r)])"
    if "add_asset th a (db, 0) = Inr (db1, n)" for db1 n
    using that
    by (auto simp: add_asset_def Let_def rbind_eq_Inr InsertAsset_def guard_err_eq_Inr insert_row_eq_Inr
        split: if_splits prod.splits)
  have never: "?body (db, 0) \<noteq> Inr s" for s
    using c_refused after_a by (fastforce simp: rbind_eq_Inr)
  obtain s e where tx: "execTx att ?body (db, 0 :: int) = (s, e)" by (rule prod.exhaust)
  from execTx_atomic [OF tx] never obtain err where "e = Some err" "s = (db, 0)" by auto
  then show ?thesis using tx by (simp add: AddAssets_def Let_def sorted del: first_by_id.simps)
qed

theorem control_chain_is_refused_witness:
  "\<exists>err. AddAssets (\<lambda>_ _. []) (\<lambda>_. calm)
     [(''tx'', [sample_asset ''c'' ''b'', sample_asset ''b'' ''a'', sample_asset ''a'' []])] empty_Db =
     (empty_Db, -1, Some err)"
  using control_chain_is_refused [of "sample_asset ''c'' ''b''" "sample_asset ''b'' ''a''" "sample_asset ''a'' []"
      empty_Db "\<lambda>_ _. []" "\<lambda>_. calm" "''tx''"]
  by (simp add: sample_asset_def empty_Db_def has_row_def)
subsection \<open>Integrity\<close>

text \<open>Every operation keeps the keys unique and the references resolved, whether it succeeds or fails.\<close>

lemma db_okI: "keys_ok db \<Longrightarrow> refs_ok db \<Longrightarrow> db_ok db"
  by (simp add: db_ok_def)

lemma db_ok_foreach:
  assumes "foreach f xs db = Inr db'" "db_ok db"
    and "\<And>x s s'. x \<in> set xs \<Longrightarrow> db_ok s \<Longrightarrow> f x s = Inr s' \<Longrightarrow> db_ok s'"
  shows "db_ok db'"
  using assms by (rule foreach_invariant)

lemmas tx_ok = tx_call.invariant [where I = db_ok]
lemmas stmt_ok = stmt_call.invariant [where I = db_ok]

lemma db_ok_res':
  assumes "db_ok db"
  shows "InsertVtxoCommitmentTxid op c db = Inr db' \<Longrightarrow> db_ok db'"
    "InsertVtxoAssetProjection aid op amount db = Inr db' \<Longrightarrow> db_ok db'"
    "UpdateVtxoIntentId iid op db = Inr db' \<Longrightarrow> db_ok db'"
    "BulkInsertSweptMarkers ids at db = Inr db' \<Longrightarrow> db_ok db'"
    "BulkInsertSweptVtxos ops at db = Inr db' \<Longrightarrow> db_ok db'"
    "InsertAsset aid ar db = Inr db' \<Longrightarrow> db_ok db'"
    "InsertOnchainTx txid tx db = Inr db' \<Longrightarrow> db_ok db'"
    "InsertUtxo op ur db = Inr db' \<Longrightarrow> db_ok db'"
    "UpsertTx txid tr db = Inr db' \<Longrightarrow> db_ok db'"
    "UpsertIntent iid ir db = Inr db' \<Longrightarrow> db_ok db'"
    "UpsertReceiver iid pk addr amount db = Inr db' \<Longrightarrow> db_ok db'"
    "UpsertCheckpointTx txid cr db = Inr db' \<Longrightarrow> db_ok db'"
  using assms unfolding db_ok_def by (blast intro: db_ok_res)+

lemma db_ok_stmts':
  assumes "db_ok db"
  shows "db_ok (UpsertVtxo op vr db)" "db_ok (UpdateVtxoSettled op s1 s2 db)"
    "db_ok (UpdateVtxoSpent op s1 s2 db)" "db_ok (UpdateVtxoExpiration op e db)"
    "db_ok (UpsertMarker mid d ps db)" "db_ok (UpdateVtxoMarkers op ms db)"
    "db_ok (UpsertRound rid rr db)" "db_ok (UpsertOffchainTx txid orow db)"
  using assms by (simp_all add: db_ok_def db_ok_stmts)

lemma db_ok_add_vtxo: "db_ok db \<Longrightarrow> add_vtxo v db = Inr db' \<Longrightarrow> db_ok db'"
  unfolding add_vtxo_def Let_def rbind_eq_Inr
  by (elim exE conjE, erule db_ok_foreach, erule db_ok_foreach)
    (erule db_ok_stmts', erule (1) db_ok_res', erule (1) db_ok_res')

lemma db_ok_AddVtxos:
  assumes "AddVtxos att vs db = (db', e)" "db_ok db"
  shows "db_ok db'"
  using assms(1) [unfolded AddVtxos_def] assms(2)
  by (rule tx_ok) (erule db_ok_foreach [OF _ assms(2) db_ok_add_vtxo])

lemma db_ok_vtxo_update:
  assumes "db_ok db" "map fst t = map fst (tbl_vtxo db)"
  shows "db_ok (db\<lparr>tbl_vtxo := t\<rparr>)"
proof -
  have "has_row t k \<longleftrightarrow> has_row (tbl_vtxo db) k" for k using assms(2) by (metis has_row_def list.set_map)
  then show ?thesis using assms by (simp add: db_ok_def keys_ok_def refs_ok_def)
qed

lemma db_ok_SettleVtxos:
  assumes "SettleVtxos att m settledBy db = (db', e)" "db_ok db"
  shows "db_ok db'"
  using assms(1) [unfolded SettleVtxos_def] assms(2)
  by (rule tx_ok) (auto simp: settle_body intro: db_ok_vtxo_update assms(2))

lemma db_ok_SpendVtxos:
  assumes "SpendVtxos att m arkTxid db = (db', e)" "db_ok db"
  shows "db_ok db'"
  using assms(1) [unfolded SpendVtxos_def] assms(2)
  by (rule tx_ok) (auto simp: spend_body intro: db_ok_vtxo_update assms(2))

lemma db_ok_UnrollVtxos:
  assumes "UnrollVtxos now att ops db = (db', e)" "db_ok db"
  shows "db_ok db'"
proof (rule tx_ok [OF assms(1) [unfolded UnrollVtxos_def] assms(2)])
  fix s'
  assume body: "(let (db1, records) = UpdateVtxosUnrolled ops db
       in foreach (\<lambda>(op, r) db.
            let spentBy = col_string (vr_spent_by r)
            in if length spentBy \<le> 0 then Inr db
               else InsertUtxo op
                 \<lparr>ur_pubkey = None, ur_amount = None, ur_spent_by = spentBy, ur_created_at = now,
                  ur_spend_confirmed_at_time = None, ur_spend_confirmed_at_height = None\<rparr> db) records db1) = Inr s'"
  obtain db1 records where u: "UpdateVtxosUnrolled ops db = (db1, records)" by (rule prod.exhaust)
  have "db_ok db1" using db_ok_UpdateVtxosUnrolled [OF assms(2), of ops] u by simp
  with body show "db_ok s'" unfolding u Let_def prod.case
    by (rule db_ok_foreach) (auto split: if_splits prod.splits intro: db_ok_res')
qed

lemma db_ok_AddMarker:
  assumes "AddMarker att m db = (db', e)" "db_ok db"
  shows "db_ok db'"
  using assms(1) [unfolded AddMarker_def] assms(2)
  by (rule stmt_ok) (auto intro: db_ok_stmts' assms(2))

lemma db_ok_BulkSweepMarkers:
  assumes "BulkSweepMarkers att ids at db = (db', e)" "db_ok db"
  shows "db_ok db'"
  using assms by (auto simp: BulkSweepMarkers_def split: if_splits intro: stmt_ok db_ok_res')

lemma db_ok_SweepVtxoOutpoints:
  assumes "SweepVtxoOutpoints att ops at db = (db', e)" "db_ok db"
  shows "db_ok db'"
  using assms by (auto simp: SweepVtxoOutpoints_def split: if_splits intro: stmt_ok db_ok_res')

lemma db_ok_CreateRootMarkersForVtxos:
  assumes "CreateRootMarkersForVtxos att vs db = (db', e)" "db_ok db"
  shows "db_ok db'"
proof (cases "vs = []")
  case False
  then have "execTx att (foreach (\<lambda>v db. Inr (UpsertMarker (Outpoint_String (vtxo_Outpoint v)) 0 [] db)) vs) db =
      (db', e)" using assms(1) by (simp add: CreateRootMarkersForVtxos_def)
  then show ?thesis using assms(2)
    by (rule tx_ok) (erule db_ok_foreach [OF _ assms(2)], auto intro: db_ok_stmts')
qed (use assms in \<open>simp add: CreateRootMarkersForVtxos_def\<close>)

lemma db_ok_AddUtxos:
  assumes "repo_AddUtxos att us tx db = (db', e)" "db_ok db"
  shows "db_ok db'"
proof (cases us)
  case (Cons u us')
  have tx: "execTx att (\<lambda>db.
      rbind (if length tx > 0 then InsertOnchainTx (spend_Txid (utxo_Spend u)) tx db else Inr db)
        (foreach (\<lambda>utxo. InsertUtxo (utxo_Outpoint utxo) (utxo_to_row utxo)) us)) db = (db', e)"
    using assms(1) Cons by (simp add: repo_AddUtxos_def)
  show ?thesis
  proof (rule tx_ok [OF tx assms(2)])
    fix s' assume "rbind (if length tx > 0 then InsertOnchainTx (spend_Txid (utxo_Spend u)) tx db else Inr db)
        (foreach (\<lambda>utxo. InsertUtxo (utxo_Outpoint utxo) (utxo_to_row utxo)) us) = Inr s'"
    then obtain db1 where 1: "db_ok db1"
      "foreach (\<lambda>utxo. InsertUtxo (utxo_Outpoint utxo) (utxo_to_row utxo)) us db1 = Inr s'"
      using db_ok_res'(7) [OF assms(2)] assms(2) by (auto simp: rbind_eq_Inr split: if_splits)
    from 1(2,1) show "db_ok s'" by (rule db_ok_foreach) (rule db_ok_res'(8))
  qed
qed (use assms in \<open>simp add: repo_AddUtxos_def\<close>)

lemma db_ok_utxo_update:
  assumes "db_ok db" "map fst t = map fst (tbl_utxo db)"
  shows "db_ok (db\<lparr>tbl_utxo := t\<rparr>)"
  using assms by (simp add: db_ok_def keys_ok_def refs_ok_def)

lemma db_ok_update_utxo: "db_ok db \<Longrightarrow> update_utxo u db = Inr db' \<Longrightarrow> db_ok db'"
  by (auto simp: update_utxo_def Let_def UpdateUtxo_def guard_err_eq_Inr intro!: db_ok_utxo_update)

lemma db_ok_UpdateUtxos:
  assumes "UpdateUtxos att us db = (db', e)" "db_ok db"
  shows "db_ok db'"
  using assms(1) [unfolded UpdateUtxos_def] assms(2)
  by (rule tx_ok) (erule db_ok_foreach [OF _ assms(2) db_ok_update_utxo])
lemma db_ok_add_asset: "db_ok (fst s) \<Longrightarrow> add_asset th a s = Inr s' \<Longrightarrow> db_ok (fst s')"
  by (auto simp: add_asset_def Let_def rbind_eq_Inr split: if_splits prod.splits intro: db_ok_res'(6))

lemma db_ok_AddAssets:
  assumes "AddAssets th att batch db = (db', n, e)" "db_ok db"
  shows "db_ok db'"
proof (cases "batch = []")
  case False
  let ?assets = "control_first (first_by_id [] (concat (map snd batch)))"
  let ?body = "\<lambda>s. foreach (add_asset th) ?assets (fst s, 0)"
  obtain s err where tx: "execTx att ?body (db, 0 :: int) = (s, err)" by (rule prod.exhaust)
  have "db_ok (fst s)"
  proof (rule tx_call.invariant [where I = "\<lambda>s. db_ok (fst s)", OF tx])
    fix s' assume body: "?body (db, 0 :: int) = Inr s'"
    show "db_ok (fst s')"
      by (rule foreach_invariant [where I = "\<lambda>s. db_ok (fst s)", OF body]) (auto intro: assms(2) db_ok_add_asset)
  qed (simp add: assms(2))
  then show ?thesis using assms(1) False tx by (auto simp: AddAssets_def Let_def split: option.splits)
qed (use assms in \<open>simp add: AddAssets_def\<close>)

lemma db_ok_upsert_txs:
  assumes "foreach (\<lambda>x. UpsertTx (k x) (r x)) xs db = Inr db'" "db_ok db"
  shows "db_ok db'"
  using assms by (rule db_ok_foreach) (erule (1) db_ok_res'(9))

lemma db_ok_upsert_round_txs:
  assumes "db_ok db" "upsert_round_txs round db = Inr db'"
  shows "db_ok db'"
proof -
  let ?plain = "\<lambda>typ pos tx. \<lparr>tr_tx = tx, tr_round_id = rd_Id round, tr_type = typ, tr_position = pos, tr_children = None\<rparr>"
  let ?node = "\<lambda>typ p. createUpsertTransactionParams (snd p) (rd_Id round) typ (fst p)"
  obtain db1 where 1: "(if length (rd_CommitmentTx round) > 0 \<and> length (rd_CommitmentTxid round) > 0
      then UpsertTx (rd_CommitmentTxid round) (?plain ''commitment'' 0 (rd_CommitmentTx round)) db else Inr db) = Inr db1"
    and 2: "db' = db1 \<or> (\<exists>db2 db3 db4.
      foreach (\<lambda>x. UpsertTx (forfeit_Txid (snd x)) (?plain ''forfeit'' (fst x) (forfeit_Tx (snd x))))
        (List.enumerate 0 (rd_ForfeitTxs round)) db1 = Inr db2 \<and>
      foreach (\<lambda>x. UpsertTx (fst (?node ''connector'' x)) (snd (?node ''connector'' x)))
        (List.enumerate 0 (rd_Connectors round)) db2 = Inr db3 \<and>
      foreach (\<lambda>x. UpsertTx (fst (?node ''tree'' x)) (snd (?node ''tree'' x)))
        (List.enumerate 0 (rd_VtxoTree round)) db3 = Inr db4 \<and>
      foreach (\<lambda>x. UpsertTx (fst x) (?plain ''sweep'' 0 (snd x))) (rd_SweepTxs round) db4 = Inr db')"
    using assms(2)
    unfolding upsert_round_txs_def Let_def rbind_eq_Inr case_prod_unfold by (auto simp: rbind_eq_Inr split: if_splits)
  have "db_ok db1" using 1 assms(1) by (auto split: if_splits intro: db_ok_res'(9))
  with 2 show ?thesis by (elim disjE exE conjE) (simp, (drule (1) db_ok_upsert_txs)+)
qed

lemma db_ok_upsert_round_intent: "db_ok db \<Longrightarrow> upsert_round_intent rid i db = Inr db' \<Longrightarrow> db_ok db'"
  by (auto simp: upsert_round_intent_def rbind_eq_Inr elim!: db_ok_foreach intro: db_ok_res'(3,10,11))

lemma db_ok_AddOrUpdateRound:
  assumes "AddOrUpdateRound att round db = (db', e)" "db_ok db"
  shows "db_ok db'"
proof (rule tx_ok [OF assms(1) [unfolded AddOrUpdateRound_def] assms(2)])
  fix s' assume "rbind (upsert_round_txs round (UpsertRound (rd_Id round) (round_to_row round) db))
      (foreach (\<lambda>(_, intent). upsert_round_intent (rd_Id round) intent) (rd_Intents round)) = Inr s'"
  then obtain db1 where 1: "upsert_round_txs round (UpsertRound (rd_Id round) (round_to_row round) db) = Inr db1"
    "foreach (\<lambda>(_, intent). upsert_round_intent (rd_Id round) intent) (rd_Intents round) db1 = Inr s'"
    by (auto simp: rbind_eq_Inr)
  have "db_ok db1" using 1(1) assms(2) by (auto intro: db_ok_upsert_round_txs db_ok_stmts')
  with 1(2) show "db_ok s'"
    by (rule db_ok_foreach) (auto split: prod.splits intro: db_ok_upsert_round_intent)
qed

lemma db_ok_AddOrUpdateOffchainTx:
  assumes "AddOrUpdateOffchainTx att tx db = (db', e)" "db_ok db"
  shows "db_ok db'"
  using assms(1) [unfolded AddOrUpdateOffchainTx_def] assms(2)
  by (rule tx_ok) (erule db_ok_foreach, auto split: option.splits intro: db_ok_stmts'(8) db_ok_res'(12) assms(2))

lemmas db_ok_calls = db_ok_AddVtxos db_ok_SettleVtxos db_ok_SpendVtxos db_ok_AddMarker db_ok_BulkSweepMarkers
  db_ok_SweepVtxoOutpoints db_ok_CreateRootMarkersForVtxos db_ok_AddUtxos db_ok_UpdateUtxos db_ok_AddAssets
  db_ok_AddOrUpdateRound db_ok_AddOrUpdateOffchainTx
lemma foreach_commitments_rows:
  "foreach (InsertVtxoCommitmentTxid op) cs db = Inr db' \<Longrightarrow> c \<in> set cs \<Longrightarrow>
     has_row (tbl_vtxo_commitment_txid db') (op, c)"
proof (induction cs arbitrary: db)
  case (Cons d cs)
  then obtain db1 where 1: "InsertVtxoCommitmentTxid op d db = Inr db1" "foreach (InsertVtxoCommitmentTxid op) cs db1 = Inr db'"
    by (auto simp: rbind_eq_Inr)
  have "has_row (tbl_vtxo_commitment_txid db1) (op, d)" using 1(1) by (auto simp: InsertVtxoCommitmentTxid_eq_Inr)
  then show ?case using Cons.IH [OF 1(2)] Cons.prems(2) foreach_commitments [OF 1(2)] by auto
qed simp

lemma add_vtxo_commitments:
  assumes "add_vtxo v db = Inr db'" "c \<in> set (vtxo_CommitmentTxids v)"
  shows "has_row (tbl_vtxo_commitment_txid db') (vtxo_Outpoint v, c)"
  using assms by (auto simp: add_vtxo_def Let_def rbind_eq_Inr dest!: foreach_assets intro: foreach_commitments_rows)

end
