(* ===== verification/Domain_Onchain_Tx.thy ===== *)
theory Domain_Onchain_Tx
  imports Domain_Events
begin

section \<open>Onchain transactions\<close>

text \<open>
  \<open>internal/core/domain/onchain_tx.go\<close>: the aggregate of a transaction that the server signs and
  broadcasts, and whose confirmation it records. The clock is an argument. The set of signed
  inputs is a map to \<open>struct{}\<close>.
\<close>

definition OnchainTxUndefinedStage :: int where "OnchainTxUndefinedStage = 0"
definition OnchainTxBroadcastedStage :: int where "OnchainTxBroadcastedStage = 1"
definition OnchainTxConfirmedStage :: int where "OnchainTxConfirmedStage = 2"

lemmas onchain_stage_defs =
  OnchainTxUndefinedStage_def OnchainTxBroadcastedStage_def OnchainTxConfirmedStage_def

definition OnchainTxStage_String :: "int \<Rightarrow> string" where
  "OnchainTxStage_String s =
     (if s = OnchainTxBroadcastedStage then ''ONCHAIN_TX_BROADCASTED_STAGE''
      else if s = OnchainTxConfirmedStage then ''ONCHAIN_TX_CONFIRMED_STAGE''
      else ''ONCHAIN_TX_UNDEFINED_STAGE'')"

record OnchainTx =
  on_Stage :: Stage
  on_BroadcastedAt :: int
  on_ConfirmedAtTime :: int
  on_ConfirmedAtHeight :: u64
  on_Txid :: string
  on_Tx :: string
  on_SignedInputs :: "unit gomap"
  on_Version :: nat
  on_changes :: "Event list"

definition NewOnchainTx :: OnchainTx where
  "NewOnchainTx =
     \<lparr>on_Stage = empty_Stage, on_BroadcastedAt = 0, on_ConfirmedAtTime = 0, on_ConfirmedAtHeight = 0,
      on_Txid = [], on_Tx = [], on_SignedInputs = [], on_Version = 0, on_changes = []\<rparr>"

definition OnchainTx_Events :: "OnchainTx \<Rightarrow> Event list" where
  "OnchainTx_Events s = on_changes s"

definition IsBroadcasted :: "OnchainTx \<Rightarrow> bool" where
  "IsBroadcasted s \<longleftrightarrow> stage_Code (on_Stage s) = OnchainTxBroadcastedStage \<and> on_Txid s \<noteq> []"

definition OnchainTx_IsConfirmed :: "OnchainTx \<Rightarrow> bool" where
  "OnchainTx_IsConfirmed s \<longleftrightarrow>
     stage_Code (on_Stage s) = OnchainTxConfirmedStage \<and> stage_Ended (on_Stage s) \<and>
     on_ConfirmedAtTime s > 0 \<and> on_ConfirmedAtHeight s > 0"

definition onchain_apply :: "Event \<Rightarrow> OnchainTx \<Rightarrow> OnchainTx option" where
  "onchain_apply event s =
     (case event of
        OnchainTxBroadcasted b e \<Rightarrow>
          if stage_Code (on_Stage s) \<noteq> OnchainTxUndefinedStage then None
          else Some (s\<lparr>on_Stage := (on_Stage s)\<lparr>stage_Failed := False, stage_Code := OnchainTxBroadcastedStage\<rparr>,
                       on_Txid := ev_Id b, on_Tx := otb_Tx e,
                       on_SignedInputs := fold (\<lambda>(input, _). AList.update input ()) (otb_SignedInputs e) [],
                       on_BroadcastedAt := otb_Timestamp e\<rparr>)
      | OnchainTxConfirmed b e \<Rightarrow>
          if stage_Code (on_Stage s) \<noteq> OnchainTxBroadcastedStage then None
          else Some (s\<lparr>on_Stage := (on_Stage s)\<lparr>stage_Code := OnchainTxConfirmedStage, stage_Ended := True\<rparr>,
                       on_ConfirmedAtTime := otc_ConfirmedAtTime e,
                       on_ConfirmedAtHeight := otc_ConfirmedAtHeight e\<rparr>)
      | _ \<Rightarrow> Some s)"

definition OnchainTx_on :: "Event \<Rightarrow> bool \<Rightarrow> OnchainTx \<Rightarrow> OnchainTx" where
  "OnchainTx_on event replayed s =
     (case onchain_apply event s of
        None \<Rightarrow> s
      | Some s' \<Rightarrow> if replayed then s'\<lparr>on_Version := on_Version s' + 1\<rparr> else s')"

definition OnchainTx_raise :: "Event \<Rightarrow> OnchainTx \<Rightarrow> OnchainTx" where
  "OnchainTx_raise event s = OnchainTx_on event False (s\<lparr>on_changes := on_changes s @ [event]\<rparr>)"

definition NewOnchainTxFromEvents :: "Event list \<Rightarrow> OnchainTx" where
  "NewOnchainTxFromEvents events =
     (fold (\<lambda>event. OnchainTx_on event True) events NewOnchainTx)\<lparr>on_changes := events\<rparr>"

definition Broadcast ::
    "int \<Rightarrow> string \<Rightarrow> string \<Rightarrow> Outpoint list \<Rightarrow> OnchainTx \<Rightarrow> (OnchainTx \<times> Event) gores" where
  "Broadcast now txid tx signedInputs s =
     guard_err (stage_Code (on_Stage s) \<noteq> OnchainTxUndefinedStage)
       (Errorf ''not in a valid stage to sign and broadcast an onchain tx'')
     (guard_err (txid = []) (Errorf ''missing onchain txid'')
     (guard_err (tx = []) (Errorf ''missing onchain tx'')
     (guard_err (length signedInputs \<le> 0) (Errorf ''missing signed inputs'')
       (let indexedInputs = fold (\<lambda>input. AList.update (Outpoint_String input) ()) signedInputs [];
            event = OnchainTxBroadcasted \<lparr>ev_Id = txid, ev_Type = EventTypeOnchainTxBroadcasted\<rparr>
              \<lparr>otb_Tx = tx, otb_SignedInputs = indexedInputs, otb_Timestamp = now\<rparr>
        in Inr (OnchainTx_raise event s, event)))))"

definition Confirm :: "int \<Rightarrow> u64 \<Rightarrow> OnchainTx \<Rightarrow> (OnchainTx \<times> Event) gores" where
  "Confirm confirmedAtTime confirmedAtHeight s =
     guard_err (stage_Code (on_Stage s) \<noteq> OnchainTxBroadcastedStage)
       (Errorf ''not in a valid stage to confirm an onchain tx'')
     (guard_err (confirmedAtTime \<le> 0) (Errorf ''missing confirmation time'')
     (guard_err (confirmedAtHeight = 0) (Errorf ''missing confirmation height'')
       (let event = OnchainTxConfirmed \<lparr>ev_Id = on_Txid s, ev_Type = EventTypeOnchainTxConfirmed\<rparr>
              \<lparr>otc_ConfirmedAtTime = confirmedAtTime, otc_ConfirmedAtHeight = confirmedAtHeight\<rparr>
        in Inr (OnchainTx_raise event s, event))))"

section \<open>The aggregate as a state machine\<close>

inductive onchain_step :: "OnchainTx \<Rightarrow> OnchainTx \<Rightarrow> bool" where
  step_broadcast: "Broadcast now txid tx ins s = Inr (s', e) \<Longrightarrow> onchain_step s s'"
| step_confirm: "Confirm t h s = Inr (s', e) \<Longrightarrow> onchain_step s s'"
| step_reload: "s' = NewOnchainTxFromEvents (OnchainTx_Events s) \<Longrightarrow> onchain_step s s'"

inductive onchain_reachable :: "OnchainTx \<Rightarrow> bool" where
  reach_new: "onchain_reachable NewOnchainTx"
| reach_step: "onchain_reachable s \<Longrightarrow> onchain_step s s' \<Longrightarrow> onchain_reachable s'"

definition onchain_core :: "OnchainTx \<Rightarrow> OnchainTx" where
  "onchain_core s = s\<lparr>on_Version := 0, on_changes := []\<rparr>"

lemma onchain_core_eqD:
  "onchain_core s1 = onchain_core s2 \<Longrightarrow>
     s1 = s2\<lparr>on_Version := on_Version s1, on_changes := on_changes s1\<rparr>"
  unfolding onchain_core_def by (cases s1; cases s2) simp

lemma OnchainTx_on_changes [simp]: "on_changes (OnchainTx_on e b s) = on_changes s"
  by (cases e) (auto simp: OnchainTx_on_def onchain_apply_def)

lemma OnchainTx_on_core:
  "onchain_core (OnchainTx_on e b s) = onchain_core (OnchainTx_on e b' (onchain_core s))"
  by (cases e) (auto simp: OnchainTx_on_def onchain_apply_def onchain_core_def)

interpretation onchain_es: event_sourced OnchainTx_on OnchainTx_raise NewOnchainTxFromEvents
    NewOnchainTx on_changes "\<lambda>es s. s\<lparr>on_changes := es\<rparr>" onchain_core
proof unfold_locales
  fix s s' :: OnchainTx and e b b'
  assume "onchain_core s = onchain_core s'"
  then show "onchain_core (OnchainTx_on e b s) = onchain_core (OnchainTx_on e b' s')"
    by (metis OnchainTx_on_core)
qed (simp_all add: OnchainTx_raise_def NewOnchainTxFromEvents_def onchain_core_def)

subsection \<open>Reachable transactions\<close>

text \<open>The stage, the fields that belong to it, and the replay of the history; two events at most
  are ever stored, so the version is their number.\<close>

definition onchain_wf :: "OnchainTx \<Rightarrow> bool" where
  "onchain_wf s \<longleftrightarrow>
     stage_Code (on_Stage s) = int (length (on_changes s)) \<and>
     stage_Code (on_Stage s) \<in> {0, 1, 2} \<and>
     (stage_Code (on_Stage s) \<noteq> OnchainTxUndefinedStage \<longrightarrow> on_Txid s \<noteq> [] \<and> on_Tx s \<noteq> [] \<and> on_SignedInputs s \<noteq> []) \<and>
     (stage_Ended (on_Stage s) \<longleftrightarrow> stage_Code (on_Stage s) = OnchainTxConfirmedStage) \<and>
     (stage_Code (on_Stage s) = OnchainTxConfirmedStage \<longrightarrow> OnchainTx_IsConfirmed s)"

definition onchain_history :: "OnchainTx \<Rightarrow> bool" where
  "onchain_history s \<longleftrightarrow>
     onchain_core (NewOnchainTxFromEvents (on_changes s)) = onchain_core s \<and>
     on_Version (NewOnchainTxFromEvents (on_changes s)) = length (on_changes s)"

lemma update_nonempty: "AList.update k v al \<noteq> []"
  by (cases al) auto

lemma fold_update_nonempty:
  assumes "xs \<noteq> []"
  shows "fold (\<lambda>x. AList.update (f x) (g x)) xs al \<noteq> []"
proof -
  have "al \<noteq> [] \<Longrightarrow> fold (\<lambda>x. AList.update (f x) (g x)) xs al \<noteq> []" for xs al
    by (induction xs arbitrary: al) (auto simp: update_nonempty)
  then show ?thesis using assms by (cases xs) (auto simp: update_nonempty)
qed

lemma onchain_step_cases:
  assumes "onchain_step s s'"
  obtains (broadcast) b f where "s' = OnchainTx_raise (OnchainTxBroadcasted b f) s"
      "stage_Code (on_Stage s) = OnchainTxUndefinedStage" "ev_Id b \<noteq> []" "otb_Tx f \<noteq> []" "otb_SignedInputs f \<noteq> []"
    | (confirm) b f where "s' = OnchainTx_raise (OnchainTxConfirmed b f) s"
      "stage_Code (on_Stage s) = OnchainTxBroadcastedStage" "otc_ConfirmedAtTime f > 0" "otc_ConfirmedAtHeight f > 0"
    | (reload) "s' = NewOnchainTxFromEvents (on_changes s)"
  using assms
proof (cases rule: onchain_step.cases)
  case (step_broadcast now txid tx ins e)
  then show ?thesis
    by (auto simp: Broadcast_def guard_err_eq_Inr Let_def fold_update_nonempty [where g = "\<lambda>_. ()"] intro!: broadcast)
next
  case (step_confirm t h e)
  then show ?thesis
    by (auto simp: Confirm_def guard_err_eq_Inr Let_def word_gt_0 intro!: confirm)
qed (auto simp: OnchainTx_Events_def intro: reload)


lemma rebuild_snoc_Version:
  assumes "onchain_history s" and "onchain_apply e s \<noteq> None"
  shows "on_Version (NewOnchainTxFromEvents (on_changes s @ [e])) = Suc (length (on_changes s))"
proof -
  let ?n = "NewOnchainTxFromEvents (on_changes s)"
  let ?f = "fold (\<lambda>event. OnchainTx_on event True) (on_changes s) NewOnchainTx"
  have n: "?n = ?f\<lparr>on_changes := on_changes s\<rparr>" by (simp add: NewOnchainTxFromEvents_def)
  have "onchain_core ?f = onchain_core s" "on_Version ?f = length (on_changes s)"
    using assms(1) unfolding onchain_history_def n by (simp_all add: onchain_core_def)
  then have "on_Stage ?f = on_Stage s" "on_Version ?f = length (on_changes s)"
    by (auto simp: onchain_core_def dest!: arg_cong [where f = on_Stage])
  then show ?thesis
    using assms(2) by (cases e) (auto simp: NewOnchainTxFromEvents_def OnchainTx_on_def onchain_apply_def split: if_splits)
qed

lemma onchain_history_raise:
  assumes "onchain_history s" and "onchain_apply e s \<noteq> None"
  shows "onchain_history (OnchainTx_raise e s)"
  using assms onchain_es.replay_raise rebuild_snoc_Version [OF assms]
  by (simp add: onchain_history_def)

lemma fold_update_unit_nonempty:
  "xs \<noteq> [] \<Longrightarrow> fold (\<lambda>(k, v). AList.update k v) xs al \<noteq> []"
  using fold_update_nonempty [of xs fst snd al] by (simp add: case_prod_unfold)

lemma onchain_reachable_inv: "onchain_reachable s \<Longrightarrow> onchain_wf s \<and> onchain_history s"
proof (induction rule: onchain_reachable.induct)
  case reach_new
  show ?case
    by (simp add: onchain_wf_def onchain_history_def NewOnchainTx_def NewOnchainTxFromEvents_def
        onchain_core_def empty_Stage_def onchain_stage_defs)
next
  case (reach_step s s')
  from reach_step.hyps(2) show ?case
  proof (cases rule: onchain_step_cases)
    case (broadcast b f)
    then have "onchain_history s'" using reach_step.IH
      by (auto simp: onchain_apply_def intro!: onchain_history_raise)
    moreover have "onchain_wf s'" using broadcast reach_step.IH
      by (auto simp: onchain_wf_def OnchainTx_raise_def OnchainTx_on_def onchain_apply_def
          onchain_stage_defs fold_update_unit_nonempty)
    ultimately show ?thesis by simp
  next
    case (confirm b f)
    then have "onchain_history s'" using reach_step.IH
      by (auto simp: onchain_apply_def intro!: onchain_history_raise)
    moreover have "onchain_wf s'" using confirm reach_step.IH
      by (auto simp: onchain_wf_def OnchainTx_raise_def OnchainTx_on_def onchain_apply_def
          onchain_stage_defs OnchainTx_IsConfirmed_def)
    ultimately show ?thesis by simp
  next
    case reload
    have core: "onchain_core s' = onchain_core s" using reload reach_step.IH by (simp add: onchain_history_def)
    have changes: "on_changes s' = on_changes s" using reload by simp
    have "onchain_wf s'"
      using reach_step.IH changes arg_cong [OF core, of on_Stage] arg_cong [OF core, of on_Txid]
        arg_cong [OF core, of on_Tx] arg_cong [OF core, of on_SignedInputs]
        arg_cong [OF core, of on_ConfirmedAtTime] arg_cong [OF core, of on_ConfirmedAtHeight]
      by (auto simp: onchain_wf_def OnchainTx_IsConfirmed_def onchain_core_def)
    then show ?thesis using reload reach_step.IH by (simp add: onchain_history_def)
  qed
qed

text \<open>an onchain transaction loaded from its stored events is the one that was stored, with
  one version per event; it is broadcast exactly after its first event and confirmed exactly
  after its second, and never gets a third.\<close>

theorem onchain_replay:
  assumes "onchain_reachable s"
  shows "NewOnchainTxFromEvents (OnchainTx_Events s) = s\<lparr>on_Version := length (OnchainTx_Events s)\<rparr> \<and>
    length (OnchainTx_Events s) \<le> 2 \<and>
    (IsBroadcasted s \<longleftrightarrow> length (OnchainTx_Events s) = 1) \<and>
    (OnchainTx_IsConfirmed s \<longleftrightarrow> length (OnchainTx_Events s) = 2)"
proof -
  have wf: "onchain_wf s" and hist: "onchain_history s" using onchain_reachable_inv [OF assms] by auto
  have "NewOnchainTxFromEvents (on_changes s) = s\<lparr>on_Version := length (on_changes s)\<rparr>"
    using onchain_core_eqD [of "NewOnchainTxFromEvents (on_changes s)" s] hist
    by (simp add: onchain_history_def)
  then show ?thesis using wf unfolding OnchainTx_Events_def
    by (auto simp: onchain_wf_def IsBroadcasted_def OnchainTx_IsConfirmed_def onchain_stage_defs)
qed

definition sample_broadcast :: OnchainTx where
  "sample_broadcast = OnchainTx_raise
     (OnchainTxBroadcasted \<lparr>ev_Id = ''txid'', ev_Type = EventTypeOnchainTxBroadcasted\<rparr>
        \<lparr>otb_Tx = ''tx'', otb_SignedInputs =
           [(Outpoint_String \<lparr>outp_Txid = ''ab'', outp_VOut = 0\<rparr>, ())], otb_Timestamp = 7\<rparr>) NewOnchainTx"

lemma sample_broadcast_reachable: "onchain_reachable sample_broadcast"
  by (rule reach_step [OF reach_new],
      rule step_broadcast [where now = 7 and txid = "''txid''" and tx = "''tx''"
        and ins = "[\<lparr>outp_Txid = ''ab'', outp_VOut = 0\<rparr>]"])
     (simp add: Broadcast_def NewOnchainTx_def empty_Stage_def onchain_stage_defs sample_broadcast_def
       Let_def)

theorem onchain_replay_witness:
  "NewOnchainTxFromEvents (OnchainTx_Events sample_broadcast) = sample_broadcast\<lparr>on_Version := 1\<rparr> \<and>
   IsBroadcasted sample_broadcast"
proof -
  have "length (OnchainTx_Events sample_broadcast) = 1"
    by (simp add: OnchainTx_Events_def sample_broadcast_def OnchainTx_raise_def NewOnchainTx_def)
  then show ?thesis using onchain_replay [OF sample_broadcast_reachable] by simp
qed

end
