(* ===== verification/Projections.thy ===== *)
theory Projections
  imports Pg_Repos Domain_Onchain_Tx
begin

section \<open>Projections of the event store\<close>

text \<open>
  \<open>internal/infrastructure/db/service.go\<close>: what happens to the tables after the events of a round, of an
  offchain transaction or of an onchain transaction were recorded, the extraction of vtxos, utxos and
  assets from transactions, and the reconciliation at startup. The decoder of transactions
  (\<open>ports.TxDecoder\<close>), the tokenizer, the hash functions and the parser of public keys are parameters, and
  so is what the database server does with each call: every theorem below holds whatever calls fail.
  A projection ends in one of three ways: the update is dispatched to the handler, it is not (an error
  was logged), or the process panicked on a slice of a script of fewer than two bytes. The clock \<open>now\<close>
  is read once, in nanoseconds.
\<close>

text \<open>\<open>internal/core/ports/tx_decoder.go\<close>\<close>

record ports_TxOut =
  pout_Amount :: u64
  pout_PkScript :: bytes

record ports_TxIn =
  pin_Outpoint :: Outpoint
  pin_Prevout :: "ports_TxOut option"

datatype repo_call =
    Call_AddOrUpdateRound | Call_GetVtxos | Call_SweepVtxoOutpoints | Call_SettleVtxos | Call_AddVtxos
  | Call_CreateRootMarkersForVtxos | Call_AddUtxos | Call_AddOrUpdateOffchainTx | Call_SpendVtxos
  | Call_AddMarker string | Call_GetSweepTxs | Call_AddAssets | Call_BulkSweepMarkers | Call_UpdateUtxos
  | Call_GetSweptRounds | Call_GetSweepableVtxos

record service =
  s_DecodeTx :: "string \<Rightarrow> (string \<times> ports_TxIn list \<times> ports_TxOut list) gores"
  s_tok :: tokenizer
  s_newHashFromStr :: "string \<Rightarrow> (chainhash_error, bytes) res"
  s_taggedHash :: "bytes \<Rightarrow> bytes list \<Rightarrow> bytes"
  s_tapKey :: "bytes \<Rightarrow> bytes gores"
  s_IsPayToTaproot :: "bytes \<Rightarrow> bool"
  s_store :: "repo_call \<Rightarrow> nat \<Rightarrow> attempt"

datatype outcome = Dispatched | Not_dispatched | Panicked

text \<open>\<open>script[2:]\<close>\<close>

definition from_2 :: "bytes \<Rightarrow> bytes option" where
  "from_2 pkScript = (if length pkScript < 2 then None else Some (drop 2 pkScript))"

definition is_anchor_or_extension :: "tokenizer \<Rightarrow> ports_TxOut \<Rightarrow> bool" where
  "is_anchor_or_extension tok out \<longleftrightarrow>
     pout_PkScript out = ANCHOR_PKSCRIPT \<or> IsExtension tok (pout_PkScript out)"

subsection \<open>Extraction\<close>

definition getSpentVtxoKeysFromRound :: "service \<Rightarrow> Round \<Rightarrow> (Outpoint \<times> string) list" where
  "getSpentVtxoKeysFromRound s round =
     (let forfeitInputs = fold (\<lambda>forfeitTx m.
            case s_DecodeTx s (forfeit_Tx forfeitTx) of
              Inl _ \<Rightarrow> m
            | Inr (_, ins, _) \<Rightarrow>
                fold (\<lambda>i. AList.update (pin_Outpoint i) (forfeit_Txid forfeitTx)) ins m) (rd_ForfeitTxs round) []
      in fold (\<lambda>vtxo m.
           if \<not> Vtxo_RequiresForfeit vtxo then AList.update (vtxo_Outpoint vtxo) [] m
           else case map_of forfeitInputs (vtxo_Outpoint vtxo) of
                  Some txid \<Rightarrow> AList.update (vtxo_Outpoint vtxo) txid m
                | None \<Rightarrow> m) (concat (map int_Inputs (map_values (rd_Intents round)))) [])"

text \<open>A panic is \<open>None\<close>.\<close>

fun boarding_inputs :: "service \<Rightarrow> Round \<Rightarrow> Outpoint list \<Rightarrow> ports_TxIn list \<Rightarrow> Utxo list gores option" where
  "boarding_inputs s round vtxos [] = Some (Inr [])"
| "boarding_inputs s round vtxos (i # ins) =
     (if pin_Outpoint i \<in> set vtxos then boarding_inputs s round vtxos ins
      else case pin_Prevout i of
        None \<Rightarrow> Some (Inl (Errorf ''boarding input misses prevout''))
      | Some prevout \<Rightarrow>
          if \<not> s_IsPayToTaproot s (pout_PkScript prevout)
          then Some (Inl (Errorf ''boarding input is not a taproot output''))
          else case from_2 (pout_PkScript prevout) of
            None \<Rightarrow> None
          | Some key \<Rightarrow>
              map_option (\<lambda>r. rbind r (\<lambda>utxos. Inr (
                \<lparr>utxo_Outpoint = pin_Outpoint i, utxo_Amount = pout_Amount prevout,
                 utxo_PubKey = hex_EncodeToString key,
                 utxo_Spend = \<lparr>spend_Txid = rd_CommitmentTxid round, spend_ConfirmedAtTime = 0,
                               spend_ConfirmedAtHeight = 0\<rparr>,
                 utxo_CreatedAt = rd_EndingTimestamp round, utxo_Assets = []\<rparr> # utxos)))
                (boarding_inputs s round vtxos ins))"

definition boarding_of_intent :: "service \<Rightarrow> Round \<Rightarrow> Intent \<Rightarrow> Utxo list gores option" where
  "boarding_of_intent s round intent =
     (case s_DecodeTx s (int_Proof intent) of
        Inl err \<Rightarrow> Some (Inl (Errorw ''failed to decode intent: '' err))
      | Inr (_, ins, _) \<Rightarrow>
          if length ins < 2 then Some (Inl (Errorf ''malformed proof of intent: missing inputs''))
          else boarding_inputs s round (map vtxo_Outpoint (int_Inputs intent)) (tl ins))"

fun boarding_of_intents :: "service \<Rightarrow> Round \<Rightarrow> Intent list \<Rightarrow> Utxo list gores option" where
  "boarding_of_intents s round [] = Some (Inr [])"
| "boarding_of_intents s round (intent # intents) =
     (case boarding_of_intent s round intent of
        None \<Rightarrow> None
      | Some (Inl err) \<Rightarrow> Some (Inl err)
      | Some (Inr utxos) \<Rightarrow>
          map_option (\<lambda>r. rbind r (\<lambda>rest. Inr (utxos @ rest))) (boarding_of_intents s round intents))"

definition getBoardingUtxosFromRound :: "service \<Rightarrow> Round \<Rightarrow> Utxo list gores option" where
  "getBoardingUtxosFromRound s round = boarding_of_intents s round (map_values (rd_Intents round))"

subsection \<open>Assets of the outputs\<close>

text \<open>The packet of the first extension output. A nil packet is the empty one.\<close>

fun packet_of_outs :: "tokenizer \<Rightarrow> ports_TxOut list \<Rightarrow> Packet gores" where
  "packet_of_outs tok [] = Inr []"
| "packet_of_outs tok (out # outs) =
     (if IsExtension tok (pout_PkScript out) then
        rbind (NewExtensionFromBytes tok (pout_PkScript out)) (\<lambda>ext.
          Inr (case GetAssetPacket ext of None \<Rightarrow> [] | Some p \<Rightarrow> p))
      else packet_of_outs tok outs)"

definition getAssetId ::
    "(string \<Rightarrow> (chainhash_error, bytes) res) \<Rightarrow> string \<Rightarrow> Packet \<Rightarrow> u16 \<Rightarrow> string gores" where
  "getAssetId newHashFromStr txid assetPacket groupIndex =
     guard_err (groupIndex \<ge> of_nat (length assetPacket)) (Errorf ''group index out of range'')
       (case grp_AssetId (assetPacket ! unat groupIndex) of
          None \<Rightarrow>
            (case NewAssetId newHashFromStr txid groupIndex of
               Inl err \<Rightarrow> Inl (Errorw ''failed to compute asset id: '' err)
             | Inr aid \<Rightarrow> Inr (AssetId_String aid))
        | Some a \<Rightarrow> Inr (AssetId_String a))"

definition issuance_of_group ::
    "(string \<Rightarrow> (chainhash_error, bytes) res) \<Rightarrow> string \<Rightarrow> Packet \<Rightarrow> nat \<Rightarrow> AssetGroup \<Rightarrow> DomainAsset gores" where
  "issuance_of_group newHashFromStr txid assetPacket grpIndex ast =
     rbind (getAssetId newHashFromStr txid assetPacket (of_nat grpIndex)) (\<lambda>assetId.
       rbind (case grp_ControlAsset ast of
                None \<Rightarrow> Inr []
              | Some ref \<Rightarrow>
                  if ref_Type ref = AssetRefByID then Inr (AssetId_String (ref_AssetId ref))
                  else if ref_Type ref = AssetRefByGroup
                  then getAssetId newHashFromStr txid assetPacket (ref_GroupIndex ref)
                  else Inr [])
         (\<lambda>control. Inr \<lparr>da_Id = assetId, da_ControlAssetId = control, da_Metadata = grp_Metadata ast,
                          da_Supply = 0\<rparr>))"

fun assets_of_groups ::
    "(string \<Rightarrow> (chainhash_error, bytes) res) \<Rightarrow> string \<Rightarrow> Packet \<Rightarrow> nat \<Rightarrow> AssetGroup list \<Rightarrow>
       DomainAsset list \<Rightarrow> denominations \<Rightarrow> (DomainAsset list \<times> denominations) gores" where
  "assets_of_groups newHashFromStr txid assetPacket grpIndex [] issuances d = Inr (issuances, d)"
| "assets_of_groups newHashFromStr txid assetPacket grpIndex (ast # asts) issuances d =
     (if length (grp_Outputs ast) = 0
      then assets_of_groups newHashFromStr txid assetPacket (Suc grpIndex) asts issuances d
      else case grp_AssetId ast of
        None \<Rightarrow>
          rbind (issuance_of_group newHashFromStr txid assetPacket grpIndex ast) (\<lambda>issuance.
          rbind (add_outputs (Inr (da_Id issuance)) (grp_Outputs ast) d)
            (assets_of_groups newHashFromStr txid assetPacket (Suc grpIndex) asts (issuances @ [issuance])))
      | Some a \<Rightarrow>
          rbind (add_outputs (Inr (AssetId_String a)) (grp_Outputs ast) d)
            (assets_of_groups newHashFromStr txid assetPacket (Suc grpIndex) asts issuances))"

definition getAssetsFromTxOuts ::
    "service \<Rightarrow> string \<Rightarrow> ports_TxOut list \<Rightarrow> (DomainAsset list \<times> denominations) gores" where
  "getAssetsFromTxOuts s txid txOuts =
     rbind (packet_of_outs (s_tok s) txOuts) (\<lambda>assetPacket.
       if length assetPacket \<le> 0 then Inr ([], [])
       else assets_of_groups (s_newHashFromStr s) txid assetPacket 0 assetPacket [] [])"
subsection \<open>Vtxos of a round and utxos of an onchain transaction\<close>

fun vtxos_of_leaf ::
    "service \<Rightarrow> Round \<Rightarrow> string \<Rightarrow> denominations \<Rightarrow> nat \<Rightarrow> ports_TxOut list \<Rightarrow> Vtxo list option" where
  "vtxos_of_leaf s round txid assets i [] = Some []"
| "vtxos_of_leaf s round txid assets i (out # outs) =
     (if is_anchor_or_extension (s_tok s) out then vtxos_of_leaf s round txid assets (Suc i) outs
      else case from_2 (pout_PkScript out) of
        None \<Rightarrow> None
      | Some key \<Rightarrow>
          (case s_tapKey s key of
             Inl _ \<Rightarrow> vtxos_of_leaf s round txid assets (Suc i) outs
           | Inr vtxoTapKey \<Rightarrow>
               let outpoint = \<lparr>outp_Txid = txid, outp_VOut = of_nat i\<rparr>
               in map_option (\<lambda>vtxos.
                    \<lparr>vtxo_Outpoint = outpoint, vtxo_Amount = pout_Amount out,
                     vtxo_PubKey = hex_EncodeToString vtxoTapKey,
                     vtxo_CommitmentTxids = [rd_CommitmentTxid round],
                     vtxo_RootCommitmentTxid = rd_CommitmentTxid round, vtxo_SettledBy = [],
                     vtxo_SpentBy = [], vtxo_ArkTxid = [], vtxo_Spent = False, vtxo_Unrolled = False,
                     vtxo_Swept = False, vtxo_Preconfirmed = False,
                     vtxo_ExpiresAt = Round_ExpiryTimestamp round,
                     vtxo_CreatedAt = rd_EndingTimestamp round, vtxo_Depth = 0,
                     vtxo_MarkerIDs = [Outpoint_String outpoint],
                     vtxo_Assets = denoms_at assets (of_nat i)\<rparr> # vtxos)
                   (vtxos_of_leaf s round txid assets (Suc i) outs)))"

fun vtxos_of_leaves :: "service \<Rightarrow> Round \<Rightarrow> TxTreeNode list \<Rightarrow> Vtxo list option" where
  "vtxos_of_leaves s round [] = Some []"
| "vtxos_of_leaves s round (node # nodes) =
     (case s_DecodeTx s (node_Tx node) of
        Inl _ \<Rightarrow> vtxos_of_leaves s round nodes
      | Inr (txid, _, outs) \<Rightarrow>
          (case getAssetsFromTxOuts s txid outs of
             Inl _ \<Rightarrow> vtxos_of_leaves s round nodes
           | Inr (_, assets) \<Rightarrow>
               (case vtxos_of_leaf s round txid assets 0 outs of
                  None \<Rightarrow> None
                | Some vtxos \<Rightarrow> map_option (\<lambda>rest. vtxos @ rest) (vtxos_of_leaves s round nodes))))"

definition getNewVtxosFromRound :: "service \<Rightarrow> Round \<Rightarrow> Vtxo list option" where
  "getNewVtxosFromRound s round =
     (if length (rd_VtxoTree round) \<le> 0 then Some []
      else vtxos_of_leaves s round (FlatTxTree_Leaves (rd_VtxoTree round)))"

fun signed_utxos :: "OnchainTx \<Rightarrow> ports_TxIn list \<Rightarrow> Utxo list gores option" where
  "signed_utxos tx [] = Some (Inr [])"
| "signed_utxos tx (i # ins) =
     (if map_of (on_SignedInputs tx) (Outpoint_String (pin_Outpoint i)) = None then signed_utxos tx ins
      else case pin_Prevout i of
        None \<Rightarrow> Some (Inl (Errorf ''signed input misses prevout''))
      | Some prevout \<Rightarrow>
          (case from_2 (pout_PkScript prevout) of
             None \<Rightarrow> None
           | Some key \<Rightarrow>
               map_option (\<lambda>r. rbind r (\<lambda>utxos. Inr (
                 \<lparr>utxo_Outpoint = pin_Outpoint i, utxo_Amount = pout_Amount prevout,
                  utxo_PubKey = hex_EncodeToString key,
                  utxo_Spend = \<lparr>spend_Txid = on_Txid tx, spend_ConfirmedAtTime = 0,
                                spend_ConfirmedAtHeight = 0\<rparr>,
                  utxo_CreatedAt = on_BroadcastedAt tx, utxo_Assets = []\<rparr> # utxos)))
                 (signed_utxos tx ins)))"

definition getUtxosFromOnchainTx :: "service \<Rightarrow> OnchainTx \<Rightarrow> Utxo list gores option" where
  "getUtxosFromOnchainTx s tx =
     (case s_DecodeTx s (on_Tx tx) of
        Inl err \<Rightarrow> Some (Inl err)
      | Inr (_, ins, _) \<Rightarrow> signed_utxos tx ins)"

subsection \<open>Rounds\<close>

text \<open>\<open>if err := call; err != nil { return false }\<close>\<close>

definition or_abort :: "Db \<times> go_error option \<Rightarrow> (Db \<Rightarrow> Db \<times> outcome) \<Rightarrow> Db \<times> outcome" where
  "or_abort call k = (case call of (db, None) \<Rightarrow> k db | (db, Some _) \<Rightarrow> (db, Not_dispatched))"

text \<open>All swept outpoints of the events, each once, in the order of their first occurrence.\<close>

fun first_occurrences :: "'a list \<Rightarrow> 'a list \<Rightarrow> 'a list" where
  "first_occurrences seen [] = []"
| "first_occurrences seen (x # xs) =
     (if x \<in> set seen then first_occurrences seen xs else x # first_occurrences (x # seen) xs)"

definition allSweptVtxos :: "Event list \<Rightarrow> Outpoint list" where
  "allSweptVtxos events =
     first_occurrences [] (concat (map (\<lambda>e. case e of
       BatchSwept _ swept \<Rightarrow> bs_LeafVtxos swept @ bs_PreconfirmedVtxos swept | _ \<Rightarrow> []) events))"

definition project_sweep :: "service \<Rightarrow> int \<Rightarrow> Event list \<Rightarrow> Db \<Rightarrow> Db \<times> outcome" where
  "project_sweep s now events db =
     (let swept = allSweptVtxos events
      in case GetVtxos (s_store s Call_GetVtxos) swept db of
           Inl _ \<Rightarrow> (db, Not_dispatched)
         | Inr existing \<Rightarrow>
             (let alreadySwept = map vtxo_Outpoint (filter vtxo_Swept existing);
                  toSweep = filter (\<lambda>o'. o' \<notin> set alreadySwept) swept
              in if length toSweep = 0 then (db, Dispatched)
                 else or_abort (SweepVtxoOutpoints (s_store s Call_SweepVtxoOutpoints) toSweep (now div time_Second) db)
                        (\<lambda>db. (db, Dispatched))))"

definition project_batch :: "service \<Rightarrow> Round \<Rightarrow> Db \<Rightarrow> Db \<times> outcome" where
  "project_batch s round db =
     (let spentVtxos = getSpentVtxoKeysFromRound s round
      in case getNewVtxosFromRound s round of
           None \<Rightarrow> (db, Panicked)
         | Some newVtxos \<Rightarrow>
             or_abort (if length spentVtxos > 0
                       then SettleVtxos (s_store s Call_SettleVtxos) spentVtxos (rd_CommitmentTxid round) db
                       else (db, None)) (\<lambda>db.
             or_abort (if length newVtxos > 0 then AddVtxos (s_store s Call_AddVtxos) newVtxos db
                       else (db, None)) (\<lambda>db.
             or_abort (if length newVtxos > 0
                       then CreateRootMarkersForVtxos (s_store s Call_CreateRootMarkersForVtxos) newVtxos db
                       else (db, None)) (\<lambda>db.
             case getBoardingUtxosFromRound s round of
               None \<Rightarrow> (db, Panicked)
             | Some (Inl _) \<Rightarrow> (db, Not_dispatched)
             | Some (Inr boardingUtxos) \<Rightarrow>
                 or_abort (if length boardingUtxos > 0
                           then repo_AddUtxos (s_store s Call_AddUtxos) boardingUtxos [] db else (db, None))
                   (\<lambda>db. (db, Dispatched))))))"

text \<open>\<open>events[len(events)-1]\<close> panics on no events; the round of no events is not ended, so the index
  is not reached.\<close>

definition updateProjectionsAfterRoundEvents :: "service \<Rightarrow> int \<Rightarrow> Event list \<Rightarrow> Db \<Rightarrow> Db \<times> outcome" where
  "updateProjectionsAfterRoundEvents s now events db =
     (let round = NewRoundFromEvents events
      in or_abort (AddOrUpdateRound (s_store s Call_AddOrUpdateRound) round db) (\<lambda>db.
           if \<not> Round_IsEnded round then (db, Dispatched)
           else if events = [] then (db, Panicked)
           else if GetType (last events) = EventTypeBatchSwept then project_sweep s now events db
           else project_batch s round db))"
subsection \<open>Offchain transactions\<close>

text \<open>The inputs of the checkpoint transactions, each with the checkpoint that spends it; a checkpoint
  that does not decode is skipped.\<close>

definition checkpoint_spends :: "service \<Rightarrow> OffchainTx \<Rightarrow> (Outpoint \<times> string) list" where
  "checkpoint_spends s offchainTx =
     fold (\<lambda>tx m.
       case s_DecodeTx s tx of
         Inl _ \<Rightarrow> m
       | Inr (txid, ins, _) \<Rightarrow> fold (\<lambda>i. AList.update (pin_Outpoint i) txid) ins m)
     (map_values (ot_CheckpointTxs offchainTx)) []"

text \<open>What the loop over the outputs collects.\<close>

record new_outputs =
  no_vtxos :: "Vtxo list"
  no_dustMarkerIDs :: "string list"
  no_sweptOutpoints :: "Outpoint list"

definition offchain_vtxo ::
    "service \<Rightarrow> OffchainTx \<Rightarrow> denominations \<Rightarrow> bool \<Rightarrow> string list \<Rightarrow> Outpoint \<Rightarrow> ports_TxOut \<Rightarrow> Vtxo" where
  "offchain_vtxo s offchainTx assets swept markerIDs outpoint out =
     \<lparr>vtxo_Outpoint = outpoint, vtxo_Amount = pout_Amount out,
      vtxo_PubKey = hex_EncodeToString (drop 2 (pout_PkScript out)),
      vtxo_CommitmentTxids = CommitmentTxidsList offchainTx,
      vtxo_RootCommitmentTxid = ot_RootCommitmentTxId offchainTx, vtxo_SettledBy = [], vtxo_SpentBy = [],
      vtxo_ArkTxid = [], vtxo_Spent = False, vtxo_Unrolled = False, vtxo_Swept = swept,
      vtxo_Preconfirmed = True, vtxo_ExpiresAt = ot_ExpiryTimestamp offchainTx,
      vtxo_CreatedAt = ot_StartingTimestamp offchainTx, vtxo_Depth = ot_Depth offchainTx,
      vtxo_MarkerIDs = markerIDs, vtxo_Assets = denoms_at assets (outp_VOut outpoint)\<rparr>"

fun collect_outputs ::
    "service \<Rightarrow> OffchainTx \<Rightarrow> string \<Rightarrow> denominations \<Rightarrow> string list \<Rightarrow> bool \<Rightarrow> nat \<Rightarrow> ports_TxOut list \<Rightarrow>
       new_outputs \<Rightarrow> Db \<Rightarrow> Db \<times> new_outputs option" where
  "collect_outputs s offchainTx txid assets markerIDs txSwept i [] acc db = (db, Some acc)"
| "collect_outputs s offchainTx txid assets markerIDs txSwept i (out # outs) acc db =
     (if is_anchor_or_extension (s_tok s) out \<or> length (pout_PkScript out) \<noteq> 34
      then collect_outputs s offchainTx txid assets markerIDs txSwept (Suc i) outs acc db
      else
        let isDust = IsSubDustScript (s_tok s) (pout_PkScript out);
            outputSwept = (txSwept \<or> isDust);
            outpoint = \<lparr>outp_Txid = txid, outp_VOut = of_nat i\<rparr>;
            acc1 = (if txSwept \<and> \<not> isDust
                    then acc\<lparr>no_sweptOutpoints := no_sweptOutpoints acc @ [outpoint]\<rparr> else acc);
            dustMarkerID = Outpoint_String outpoint
        in if isDust then
             (case AddMarker (s_store s (Call_AddMarker dustMarkerID))
                     \<lparr>mk_ID = dustMarkerID, mk_Depth = ot_Depth offchainTx, mk_ParentMarkerIDs = markerIDs\<rparr> db of
                (db1, Some _) \<Rightarrow> (db1, None)
              | (db1, None) \<Rightarrow>
                  collect_outputs s offchainTx txid assets markerIDs txSwept (Suc i) outs
                    (acc1\<lparr>no_dustMarkerIDs := no_dustMarkerIDs acc1 @ [dustMarkerID],
                          no_vtxos := no_vtxos acc1 @
                            [offchain_vtxo s offchainTx assets outputSwept (markerIDs @ [dustMarkerID]) outpoint out]\<rparr>) db1)
           else collect_outputs s offchainTx txid assets markerIDs txSwept (Suc i) outs
                  (acc1\<lparr>no_vtxos := no_vtxos acc1 @
                     [offchain_vtxo s offchainTx assets outputSwept markerIDs outpoint out]\<rparr>) db)"

text \<open>The marker of the transaction: a new one at a boundary, and the markers of the parents otherwise or
  when the new one cannot be written.\<close>

definition project_marker :: "service \<Rightarrow> OffchainTx \<Rightarrow> string \<Rightarrow> Db \<Rightarrow> Db \<times> string list" where
  "project_marker s offchainTx txid db =
     (let parentMarkerIDs = ot_ParentMarkerIDs offchainTx
      in case NewMarker txid (ot_Depth offchainTx) parentMarkerIDs of
           (Some marker, ids) \<Rightarrow>
             (case AddMarker (s_store s (Call_AddMarker (mk_ID marker))) marker db of
                (db1, Some _) \<Rightarrow> (db1, parentMarkerIDs)
              | (db1, None) \<Rightarrow> (db1, ids))
         | (None, ids) \<Rightarrow> (db, ids))"

definition tx_swept :: "service \<Rightarrow> int \<Rightarrow> OffchainTx \<Rightarrow> Db \<Rightarrow> bool" where
  "tx_swept s now offchainTx db =
     (case GetSweepTxs (s_store s Call_GetSweepTxs) (ot_RootCommitmentTxId offchainTx) db of
        Inl _ \<Rightarrow> True
      | Inr sweepTxs \<Rightarrow> length sweepTxs > 0 \<or> now > ot_ExpiryTimestamp offchainTx * time_Second)"

definition project_outputs ::
    "service \<Rightarrow> int \<Rightarrow> OffchainTx \<Rightarrow> string \<Rightarrow> ports_TxOut list \<Rightarrow> Db \<Rightarrow> Db \<times> outcome" where
  "project_outputs s now offchainTx txid outs db =
     (let (db, markerIDs) = project_marker s offchainTx txid db
      in case getAssetsFromTxOuts s txid outs of
           Inl _ \<Rightarrow> (db, Not_dispatched)
         | Inr (issuances, assets) \<Rightarrow>
             (case collect_outputs s offchainTx txid assets markerIDs (tx_swept s now offchainTx db) 0 outs
                     \<lparr>no_vtxos = [], no_dustMarkerIDs = [], no_sweptOutpoints = []\<rparr> db of
                (db, None) \<Rightarrow> (db, Not_dispatched)
              | (db, Some new) \<Rightarrow>
                  or_abort (if length issuances > 0
                            then (let (db, _, err) = AddAssets (s_taggedHash s) (s_store s Call_AddAssets)
                                                       [(ot_ArkTxid offchainTx, issuances)] db in (db, err))
                            else (db, None)) (\<lambda>db.
                  or_abort (if length (no_dustMarkerIDs new) > 0
                            then BulkSweepMarkers (s_store s Call_BulkSweepMarkers) (no_dustMarkerIDs new) (now div time_Second) db
                            else (db, None)) (\<lambda>db.
                  or_abort (if length (no_sweptOutpoints new) > 0
                            then SweepVtxoOutpoints (s_store s Call_SweepVtxoOutpoints) (no_sweptOutpoints new) (now div time_Second) db
                            else (db, None)) (\<lambda>db.
                  or_abort (AddVtxos (s_store s Call_AddVtxos) (no_vtxos new) db)
                    (\<lambda>db. (db, Dispatched)))))))"

definition project_offchain :: "service \<Rightarrow> int \<Rightarrow> OffchainTx \<Rightarrow> Db \<Rightarrow> Db \<times> outcome" where
  "project_offchain s now offchainTx db =
     or_abort (AddOrUpdateOffchainTx (s_store s Call_AddOrUpdateOffchainTx) offchainTx db) (\<lambda>db.
       if OffchainTx_IsAccepted offchainTx \<or> OffchainTx_IsFinalized offchainTx then
         or_abort (SpendVtxos (s_store s Call_SpendVtxos) (checkpoint_spends s offchainTx)
                     (ot_ArkTxid offchainTx) db) (\<lambda>db.
           if OffchainTx_IsAccepted offchainTx then (db, Dispatched)
           else case s_DecodeTx s (ot_ArkTx offchainTx) of
                  Inl _ \<Rightarrow> (db, Not_dispatched)
                | Inr (txid, _, outs) \<Rightarrow> project_outputs s now offchainTx txid outs db)
       else (db, Dispatched))"

definition updateProjectionsAfterOffchainTxEvents :: "service \<Rightarrow> int \<Rightarrow> Event list \<Rightarrow> Db \<Rightarrow> Db \<times> outcome" where
  "updateProjectionsAfterOffchainTxEvents s now events db =
     project_offchain s now (NewOffchainTxFromEvents events) db"

subsection \<open>Onchain transactions\<close>

definition project_onchain :: "service \<Rightarrow> OnchainTx \<Rightarrow> Db \<Rightarrow> Db \<times> outcome" where
  "project_onchain s onchainTx db =
     (if IsBroadcasted onchainTx then
        (case getUtxosFromOnchainTx s onchainTx of
           None \<Rightarrow> (db, Panicked)
         | Some (Inl _) \<Rightarrow> (db, Not_dispatched)
         | Some (Inr utxos) \<Rightarrow>
             (case GetVtxos (s_store s Call_GetVtxos) (map utxo_Outpoint utxos) db of
                Inl _ \<Rightarrow> (db, Not_dispatched)
              | Inr vtxos \<Rightarrow>
                  or_abort (repo_AddUtxos (s_store s Call_AddUtxos)
                      (map (\<lambda>u. if utxo_Outpoint u \<in> vtxo_Outpoint ` set vtxos
                                then u\<lparr>utxo_PubKey := [], utxo_Amount := 0\<rparr> else u) utxos)
                      (on_Tx onchainTx) db)
                    (\<lambda>db. (db, Dispatched))))
      else if OnchainTx_IsConfirmed onchainTx then
        (case getUtxosFromOnchainTx s onchainTx of
           None \<Rightarrow> (db, Panicked)
         | Some (Inl _) \<Rightarrow> (db, Not_dispatched)
         | Some (Inr utxos) \<Rightarrow>
             or_abort (UpdateUtxos (s_store s Call_UpdateUtxos)
                 (map (\<lambda>u. u\<lparr>utxo_Spend := \<lparr>spend_Txid = on_Txid onchainTx,
                        spend_ConfirmedAtTime = on_ConfirmedAtTime onchainTx,
                        spend_ConfirmedAtHeight = on_ConfirmedAtHeight onchainTx\<rparr>\<rparr>) utxos) db)
               (\<lambda>db. (db, Dispatched)))
      else (db, Dispatched))"

definition updateProjectionsAfterOnchainTxEvents :: "service \<Rightarrow> Event list \<Rightarrow> Db \<Rightarrow> Db \<times> outcome" where
  "updateProjectionsAfterOnchainTxEvents s events db = project_onchain s (NewOnchainTxFromEvents events) db"

subsection \<open>Reconciliation\<close>

definition ensureSweptVtxos :: "service \<Rightarrow> int \<Rightarrow> Db \<Rightarrow> Db \<times> go_error option" where
  "ensureSweptVtxos s now db =
     (case GetSweptRounds (s_store s Call_GetSweptRounds) db of
        Inl err \<Rightarrow> (db, Some (Errorw ''failed to get swept batches: '' err))
      | Inr commitmentTxids \<Rightarrow>
          if length commitmentTxids = 0 then (db, None)
          else case GetSweepableVtxosByCommitmentTxids (s_store s Call_GetSweepableVtxos) commitmentTxids db of
            Inl err \<Rightarrow> (db, Some (Errorw ''failed to read the unswept vtxos of swept batches: '' err))
          | Inr outpoints \<Rightarrow>
              if length outpoints = 0 then (db, None)
              else case SweepVtxoOutpoints (s_store s Call_SweepVtxoOutpoints) outpoints (now div time_Second) db of
                (db, Some err) \<Rightarrow> (db, Some (Errorw ''failed to sweep vtxos of swept batches: '' err))
              | (db, None) \<Rightarrow> (db, None))"
subsection \<open>Integrity\<close>

text \<open>What a call keeps and the rest of the projection keeps, the two in sequence keep, also when the call
  fails.\<close>

lemma or_abort_invariant:
  assumes "I (fst call)" "\<And>s. I s \<Longrightarrow> I (fst (k s))"
  shows "I (fst (or_abort call k))"
  using assms by (auto simp: or_abort_def split: prod.split option.split)

lemma db_ok_fst:
  assumes "db_ok db"
  shows "db_ok (fst (AddVtxos att vs db))" "db_ok (fst (SettleVtxos att m c db))"
    "db_ok (fst (SpendVtxos att m c db))" "db_ok (fst (BulkSweepMarkers att ids t db))"
    "db_ok (fst (SweepVtxoOutpoints att ops t db))" "db_ok (fst (CreateRootMarkersForVtxos att vs db))"
    "db_ok (fst (repo_AddUtxos att us tx db))" "db_ok (fst (UpdateUtxos att us db))"
    "db_ok (fst (AddOrUpdateRound att round db))" "db_ok (fst (AddOrUpdateOffchainTx att otx db))"
    "db_ok (fst (AddAssets th att batch db))" "db_ok (fst (AddMarker att marker db))"
  using db_ok_calls assms by (metis prod.collapse)+

lemmas or_abort_ok = or_abort_invariant [where I = db_ok]

lemma db_ok_collect_outputs:
  "db_ok db \<Longrightarrow> collect_outputs s tx txid assets ms sw i outs acc db = (db', r) \<Longrightarrow> db_ok db'"
proof (induction s tx txid assets ms sw i outs acc db rule: collect_outputs.induct)
  case (2 s tx txid assets ms sw i out outs acc db)
  show ?case
    using 2(4,5) 2(1,2,3)
    by (auto simp: Let_def split: if_splits prod.splits option.splits dest: db_ok_AddMarker)
qed simp

lemma db_ok_project_sweep: "db_ok db \<Longrightarrow> db_ok (fst (project_sweep s now events db))"
  unfolding project_sweep_def Let_def by (auto split: sum.split intro!: or_abort_ok db_ok_fst)

lemma db_ok_project_batch: "db_ok db \<Longrightarrow> db_ok (fst (project_batch s round db))"
  unfolding project_batch_def Let_def
  by (auto split: sum.split option.split intro!: or_abort_ok db_ok_fst)

lemma db_ok_project_marker: "db_ok db \<Longrightarrow> db_ok (fst (project_marker s tx txid db))"
  unfolding project_marker_def Let_def
  by (auto split: prod.split option.split dest: db_ok_AddMarker)

lemma db_ok_project_outputs:
  assumes "db_ok db"
  shows "db_ok (fst (project_outputs s now tx txid outs db))"
proof -
  obtain db1 ms where m: "project_marker s tx txid db = (db1, ms)" by (rule prod.exhaust)
  then have ok1: "db_ok db1" using db_ok_project_marker [OF assms, of s tx txid] by simp
  show ?thesis
  proof (cases "getAssetsFromTxOuts s txid outs")
    case (Inr p)
    obtain iss assets where p: "p = (iss, assets)" by (rule prod.exhaust)
    obtain db2 r where c: "collect_outputs s tx txid assets ms (tx_swept s now tx db1) 0 outs
        \<lparr>no_vtxos = [], no_dustMarkerIDs = [], no_sweptOutpoints = []\<rparr> db1 = (db2, r)" by (rule prod.exhaust)
    have ok2: "db_ok db2" using db_ok_collect_outputs [OF ok1 c] .
    have "db_ok (fst (let (db, _, err) = AddAssets th att b db2 in (db, err)))" for th att b
      using db_ok_fst(11) [OF ok2, of th att b] by (auto split: prod.split)
    then show ?thesis using ok2
      by (auto simp: project_outputs_def m Inr p c split: option.split intro!: or_abort_ok db_ok_fst)
  qed (use ok1 in \<open>simp add: project_outputs_def m\<close>)
qed

lemma db_ok_project_offchain: "db_ok db \<Longrightarrow> db_ok (fst (project_offchain s now tx db))"
  unfolding project_offchain_def
  by (auto split: sum.split intro!: or_abort_ok db_ok_fst db_ok_project_outputs)

lemma db_ok_project_onchain: "db_ok db \<Longrightarrow> db_ok (fst (project_onchain s tx db))"
  unfolding project_onchain_def
  by (auto split: sum.split option.split intro!: or_abort_ok db_ok_fst)

lemma db_ok_project_round: "db_ok db \<Longrightarrow> db_ok (fst (updateProjectionsAfterRoundEvents s now events db))"
  unfolding updateProjectionsAfterRoundEvents_def Let_def
  by (auto intro!: or_abort_ok db_ok_fst db_ok_project_sweep db_ok_project_batch)

lemma db_ok_reconcile: "db_ok db \<Longrightarrow> db_ok (fst (ensureSweptVtxos s now db))"
  unfolding ensureSweptVtxos_def
  by (auto split: sum.split prod.split option.split dest: db_ok_SweepVtxoOutpoints)

text \<open>One run of a projection, and the tables that a sequence of runs leaves, whatever the calls do.\<close>

inductive project_step :: "Db \<Rightarrow> Db \<Rightarrow> bool" where
  round_events: "project_step db (fst (updateProjectionsAfterRoundEvents s now events db))"
| offchain_events: "project_step db (fst (updateProjectionsAfterOffchainTxEvents s now events db))"
| onchain_events: "project_step db (fst (updateProjectionsAfterOnchainTxEvents s events db))"
| startup: "project_step db (fst (ensureSweptVtxos s now db))"
| unrolled: "project_step db (fst (UnrollVtxos now att ops db))"

inductive_cases project_stepE: "project_step db db'"

lemma empty_db_ok: "db_ok empty_Db"
  by (simp add: db_ok_def keys_ok_def refs_ok_def empty_Db_def)

lemma project_step_ok: "project_step db db' \<Longrightarrow> db_ok db \<Longrightarrow> db_ok db'"
  by (erule project_stepE)
    (auto simp: updateProjectionsAfterOffchainTxEvents_def updateProjectionsAfterOnchainTxEvents_def
      intro: db_ok_project_round db_ok_project_offchain db_ok_project_onchain db_ok_reconcile
        db_ok_UnrollVtxos [OF prod.collapse [symmetric]])

text \<open>The constraints of the tables hold after any sequence of runs from the empty tables, so the properties below that ask for
  them apply to every database that the projections leave. The statements of \<^verbatim>\<open>Pg_Tables\<close> enforce them.\<close>

lemma projected_tables_consistent:
  assumes "project_step\<^sup>*\<^sup>* empty_Db db"
  shows "db_ok db"
  using assms by induction (auto intro: empty_db_ok project_step_ok)

subsection \<open>Outputs that must not be spendable\<close>

text \<open>What the loop over the outputs guarantees of the vtxos it collected: each is an output of the
  transaction; a sub-dust one carries its own marker, which is among the markers to sweep and is stored;
  another one of a swept transaction is among the outpoints to sweep.\<close>

definition covered :: "service \<Rightarrow> string \<Rightarrow> bool \<Rightarrow> ports_TxOut list \<Rightarrow> new_outputs \<Rightarrow> Vtxo \<Rightarrow> bool" where
  "covered s txid sw outs new v \<longleftrightarrow>
     (\<exists>i < length outs. vtxo_Outpoint v = \<lparr>outp_Txid = txid, outp_VOut = of_nat i\<rparr> \<and>
       (if IsSubDustScript (s_tok s) (pout_PkScript (outs ! i))
        then \<exists>m \<in> set (vtxo_MarkerIDs v). m \<in> set (no_dustMarkerIDs new)
        else sw \<longrightarrow> vtxo_Outpoint v \<in> set (no_sweptOutpoints new)))"

definition new_le :: "new_outputs \<Rightarrow> new_outputs \<Rightarrow> bool" where
  "new_le a b \<longleftrightarrow> set (no_dustMarkerIDs a) \<subseteq> set (no_dustMarkerIDs b) \<and>
     set (no_sweptOutpoints a) \<subseteq> set (no_sweptOutpoints b)"

lemma covered_mono: "new_le a b \<Longrightarrow> covered s txid sw outs a v \<Longrightarrow> covered s txid sw outs b v"
  unfolding covered_def new_le_def by (meson subsetD)

lemma AddMarker_frame:
  assumes "AddMarker att m db = (db', e)"
  shows "db' = db\<lparr>tbl_marker := tbl_marker db'\<rparr>"
  using assms by (auto simp: AddMarker_def UpsertMarker_def exec_stmt_def split: option.splits)

definition no_output :: "service \<Rightarrow> ports_TxOut \<Rightarrow> bool" where
  "no_output s out \<longleftrightarrow> is_anchor_or_extension (s_tok s) out \<or> length (pout_PkScript out) \<noteq> 34"

definition out_op :: "string \<Rightarrow> nat \<Rightarrow> Outpoint" where
  "out_op txid i = \<lparr>outp_Txid = txid, outp_VOut = of_nat i\<rparr>"

definition add_dust ::
    "service \<Rightarrow> OffchainTx \<Rightarrow> denominations \<Rightarrow> string list \<Rightarrow> Outpoint \<Rightarrow> ports_TxOut \<Rightarrow> new_outputs \<Rightarrow> new_outputs" where
  "add_dust s tx assets ms op out acc =
     acc\<lparr>no_dustMarkerIDs := no_dustMarkerIDs acc @ [Outpoint_String op],
         no_vtxos := no_vtxos acc @ [offchain_vtxo s tx assets True (ms @ [Outpoint_String op]) op out]\<rparr>"

definition add_plain ::
    "service \<Rightarrow> OffchainTx \<Rightarrow> denominations \<Rightarrow> string list \<Rightarrow> bool \<Rightarrow> Outpoint \<Rightarrow> ports_TxOut \<Rightarrow> new_outputs \<Rightarrow> new_outputs" where
  "add_plain s tx assets ms sw op out acc =
     acc\<lparr>no_sweptOutpoints := no_sweptOutpoints acc @ (if sw then [op] else []),
         no_vtxos := no_vtxos acc @ [offchain_vtxo s tx assets sw ms op out]\<rparr>"

lemma collect_outputs_Cons:
  "collect_outputs s tx txid assets ms sw i (out # outs) acc db =
     (if no_output s out then collect_outputs s tx txid assets ms sw (Suc i) outs acc db
      else if IsSubDustScript (s_tok s) (pout_PkScript out) then
        (case AddMarker (s_store s (Call_AddMarker (Outpoint_String (out_op txid i))))
                \<lparr>mk_ID = Outpoint_String (out_op txid i), mk_Depth = ot_Depth tx, mk_ParentMarkerIDs = ms\<rparr> db of
           (db1, Some _) \<Rightarrow> (db1, None)
         | (db1, None) \<Rightarrow> collect_outputs s tx txid assets ms sw (Suc i) outs
                             (add_dust s tx assets ms (out_op txid i) out acc) db1)
      else collect_outputs s tx txid assets ms sw (Suc i) outs
             (add_plain s tx assets ms sw (out_op txid i) out acc) db)"
  by (simp add: no_output_def Let_def out_op_def add_dust_def add_plain_def)

declare collect_outputs.simps(2) [simp del]

lemma collect_outputs_frame:
  "collect_outputs s tx txid assets ms sw i outs acc db = (db', r) \<Longrightarrow> db' = db\<lparr>tbl_marker := tbl_marker db'\<rparr>"
proof (induction outs arbitrary: i acc db)
  case (Cons out outs)
  let ?m = "Outpoint_String (out_op txid i)"
  obtain db1 e where am: "AddMarker (s_store s (Call_AddMarker ?m))
      \<lparr>mk_ID = ?m, mk_Depth = ot_Depth tx, mk_ParentMarkerIDs = ms\<rparr> db = (db1, e)"
    by (rule prod.exhaust)
  have step: "db' = db1\<lparr>tbl_marker := tbl_marker db'\<rparr> \<Longrightarrow> db' = db\<lparr>tbl_marker := tbl_marker db'\<rparr>"
    using AddMarker_frame [OF am] by (metis Db.surjective Db.update_convs(11))
  show ?case
    using Cons.prems Cons.IH step AddMarker_frame [OF am] am
    by (auto simp: collect_outputs_Cons split: if_splits option.splits)
qed simp

lemma new_le_steps:
  "new_le acc (add_dust s tx assets ms op out acc)" "new_le acc (add_plain s tx assets ms sw op out acc)"
  by (auto simp: new_le_def add_dust_def add_plain_def)

lemma new_le_trans: "new_le a b \<Longrightarrow> new_le b c \<Longrightarrow> new_le a c"
  by (auto simp: new_le_def)

lemma covered_add:
  assumes "i < length all" "all ! i = out"
    and "\<forall>v \<in> set (no_vtxos acc). covered s txid sw all acc v"
  shows "IsSubDustScript (s_tok s) (pout_PkScript out) \<Longrightarrow>
      \<forall>v \<in> set (no_vtxos (add_dust s tx assets ms (out_op txid i) out acc)).
        covered s txid sw all (add_dust s tx assets ms (out_op txid i) out acc) v"
    and "\<not> IsSubDustScript (s_tok s) (pout_PkScript out) \<Longrightarrow>
      \<forall>v \<in> set (no_vtxos (add_plain s tx assets ms sw (out_op txid i) out acc)).
        covered s txid sw all (add_plain s tx assets ms sw (out_op txid i) out acc) v"
proof -
  let ?d = "add_dust s tx assets ms (out_op txid i) out acc"
  let ?p = "add_plain s tx assets ms sw (out_op txid i) out acc"
  have "covered s txid sw all ?d (offchain_vtxo s tx assets True (ms @ [Outpoint_String (out_op txid i)]) (out_op txid i) out)"
    if "IsSubDustScript (s_tok s) (pout_PkScript out)"
    unfolding covered_def using assms(1,2) that
    by (intro exI [of _ i]) (auto simp: offchain_vtxo_def out_op_def add_dust_def)
  then show "IsSubDustScript (s_tok s) (pout_PkScript out) \<Longrightarrow> \<forall>v \<in> set (no_vtxos ?d). covered s txid sw all ?d v"
    using assms(3) covered_mono [OF new_le_steps(1)] by (simp add: add_dust_def ball_Un)
  have "covered s txid sw all ?p (offchain_vtxo s tx assets sw ms (out_op txid i) out)"
    if "\<not> IsSubDustScript (s_tok s) (pout_PkScript out)"
    unfolding covered_def using assms(1,2) that
    by (intro exI [of _ i]) (auto simp: offchain_vtxo_def out_op_def add_plain_def)
  then show "\<not> IsSubDustScript (s_tok s) (pout_PkScript out) \<Longrightarrow> \<forall>v \<in> set (no_vtxos ?p). covered s txid sw all ?p v"
    using assms(3) covered_mono [OF new_le_steps(2)] by (simp add: add_plain_def ball_Un)
qed

lemma collect_outputs_covered:
  assumes "collect_outputs s tx txid assets ms sw i outs acc db = (db', Some new)"
    and "all = pre @ outs" "i = length pre"
    and "\<forall>v \<in> set (no_vtxos acc). covered s txid sw all acc v"
  shows "\<forall>v \<in> set (no_vtxos new). covered s txid sw all new v"
  using assms
proof (induction outs arbitrary: i acc db pre)
  case (Cons out outs)
  have all: "all = (pre @ [out]) @ outs" "Suc i = length (pre @ [out])" "all ! i = out" "i < length all"
    using Cons.prems(2,3) by auto
  note IH = Cons.IH [OF _ all(1,2)]
  show ?case
    using Cons.prems(1,4) covered_add [OF all(4,3) Cons.prems(4)]
    by (auto simp: collect_outputs_Cons split: if_splits prod.splits option.splits dest: IH)
qed auto
definition same_vtxos :: "Db \<Rightarrow> Db \<Rightarrow> bool" where
  "same_vtxos db db' \<longleftrightarrow> tbl_vtxo db' = tbl_vtxo db \<and> tbl_tx db' = tbl_tx db \<and>
     tbl_vtxo_commitment_txid db' = tbl_vtxo_commitment_txid db"

lemma same_vtxos_refl [simp]: "same_vtxos db db"
  by (simp add: same_vtxos_def)

lemma same_vtxos_trans: "same_vtxos a b \<Longrightarrow> same_vtxos b c \<Longrightarrow> same_vtxos a c"
  by (simp add: same_vtxos_def)

lemma same_vtxos_marker: "db' = db\<lparr>tbl_marker := t\<rparr> \<Longrightarrow> same_vtxos db db'"
  by (simp add: same_vtxos_def)

text \<open>Every collected vtxo descends from the commitments of the transaction and is unspent.\<close>

definition built :: "OffchainTx \<Rightarrow> Vtxo \<Rightarrow> bool" where
  "built tx v \<longleftrightarrow> vtxo_CommitmentTxids v = CommitmentTxidsList tx \<and> \<not> vtxo_Spent v"

lemma collect_outputs_built:
  assumes "collect_outputs s tx txid assets ms sw i outs acc db = (db', Some new)"
    and "\<forall>v \<in> set (no_vtxos acc). built tx v"
  shows "\<forall>v \<in> set (no_vtxos new). built tx v"
  using assms
proof (induction outs arbitrary: i acc db)
  case (Cons out outs)
  have "\<forall>v \<in> set (no_vtxos (add_dust s tx assets ms op out acc)). built tx v"
    "\<forall>v \<in> set (no_vtxos (add_plain s tx assets ms sw op out acc)). built tx v" for op
    using Cons.prems(2) by (auto simp: add_dust_def add_plain_def built_def offchain_vtxo_def)
  then show ?case
    using Cons.prems Cons.IH by (auto simp: collect_outputs_Cons split: if_splits prod.splits option.splits)
qed auto

lemma AddAssets_frame:
  assumes "AddAssets th att batch db = (db', n, e)"
  shows "same_vtxos db db'"
proof -
  have step: "add_asset th a s = Inr s' \<Longrightarrow> same_vtxos (fst s) (fst s')" for a s s'
    by (auto simp: add_asset_def Let_def rbind_eq_Inr InsertAsset_def guard_err_eq_Inr insert_row_eq_Inr same_vtxos_def
        split: if_splits prod.splits)
  let ?I = "\<lambda>s. same_vtxos db (fst s)"
  have body: "?I s'" if "foreach (add_asset th) as (db, 0) = Inr s'" for as s'
    by (rule foreach_invariant [where I = ?I, OF that]) (auto dest!: step intro: same_vtxos_trans)
  have "?I s" if "execTx att (\<lambda>s. foreach (add_asset th) as (fst s, 0)) (db, 0 :: int) = (s, err)" for as s err
    by (rule tx_call.invariant [where I = ?I, OF that]) (auto dest: body)
  then show ?thesis
    using assms by (fastforce simp: AddAssets_def Let_def split: if_splits prod.splits option.splits)
qed

lemma BulkSweepMarkers_ok:
  assumes "BulkSweepMarkers att ids t db = (db', e)"
  shows "same_vtxos db db'" "e = None \<Longrightarrow> m \<in> set ids \<Longrightarrow> has_row (tbl_swept_marker db') m"
  using assms stmt_call.atomic [of att "BulkInsertSweptMarkers ids t" db db' e]
  by (auto simp: same_vtxos_def BulkSweepMarkers_def BulkInsertSweptMarkers_def guard_err_eq_Inr split: if_splits)

lemma SweepVtxoOutpoints_ok:
  assumes "SweepVtxoOutpoints att ops t db = (db', e)"
  shows "same_vtxos db db'" "tbl_swept_marker db' = tbl_swept_marker db"
    "e = None \<Longrightarrow> has_row (tbl_swept_vtxo db') k \<longleftrightarrow> k \<in> set ops \<or> has_row (tbl_swept_vtxo db) k"
    "e = None \<Longrightarrow> db' = db\<lparr>tbl_swept_vtxo := fold (insert_new t) ops (tbl_swept_vtxo db)\<rparr>"
    "e \<noteq> None \<Longrightarrow> db' = db"
  using assms stmt_call.atomic [of att "BulkInsertSweptVtxos ops t" db db' e]
  by (auto simp: same_vtxos_def SweepVtxoOutpoints_def BulkInsertSweptVtxos_def split: if_splits)

lemma project_marker_frame:
  assumes "project_marker s tx txid db = (db', ms)"
  shows "db' = db\<lparr>tbl_marker := tbl_marker db'\<rparr>"
  using assms AddMarker_frame
  by (auto simp: project_marker_def Let_def split: prod.splits option.splits)

definition txid_fresh :: "string \<Rightarrow> Db \<Rightarrow> bool" where
  "txid_fresh txid db \<longleftrightarrow> (\<forall>p \<in> set (tbl_vtxo db). outp_Txid (fst p) \<noteq> txid)"

lemma txid_fresh_keys:
  assumes "map fst (tbl_vtxo db') = map fst (tbl_vtxo db)"
  shows "txid_fresh txid db' = txid_fresh txid db"
proof -
  have "txid_fresh txid d \<longleftrightarrow> list_all (\<lambda>k. outp_Txid k \<noteq> txid) (map fst (tbl_vtxo d))" for d
    by (simp add: txid_fresh_def list_all_iff)
  then show ?thesis using assms by simp
qed

text \<open>The rows of the outputs of the transaction, after the writes of the loop's result.\<close>

definition outputs_safe :: "service \<Rightarrow> string \<Rightarrow> bool \<Rightarrow> ports_TxOut list \<Rightarrow> Db \<Rightarrow> bool" where
  "outputs_safe s txid sw outs db \<longleftrightarrow> (\<forall>(op, r) \<in> set (tbl_vtxo db). outp_Txid op = txid \<longrightarrow>
     (\<exists>i < length outs. op = out_op txid i \<and>
       (IsSubDustScript (s_tok s) (pout_PkScript (outs ! i)) \<or> sw \<longrightarrow> row_swept db op r)))"

lemma fresh_outputs_safe: "txid_fresh txid db \<Longrightarrow> tbl_vtxo db' = tbl_vtxo db \<Longrightarrow> outputs_safe s txid sw outs db'"
  by (auto simp: txid_fresh_def outputs_safe_def)

lemma added_outputs_safe:
  assumes "foreach add_vtxo (no_vtxos new) db = Inr db'" "txid_fresh txid db"
    and "\<forall>v \<in> set (no_vtxos new). covered s txid sw outs new v"
    and "\<forall>m \<in> set (no_dustMarkerIDs new). has_row (tbl_swept_marker db) m"
    and "\<forall>k \<in> set (no_sweptOutpoints new). has_row (tbl_swept_vtxo db) k"
  shows "outputs_safe s txid sw outs db'"
  unfolding outputs_safe_def
proof (clarify, goal_cases)
  case (1 op r)
  then obtain v iid where v: "v \<in> set (no_vtxos new)" "vtxo_Outpoint v = op" "r = (vtxo_to_row v)\<lparr>vr_intent_id := iid\<rparr>"
    using add_vtxos_rows [OF assms(1) 1(1)] assms(2) by (fastforce simp: txid_fresh_def)
  obtain i where i: "i < length outs" "op = out_op txid i"
    "if IsSubDustScript (s_tok s) (pout_PkScript (outs ! i))
     then \<exists>m \<in> set (vtxo_MarkerIDs v). m \<in> set (no_dustMarkerIDs new)
     else sw \<longrightarrow> op \<in> set (no_sweptOutpoints new)"
    using assms(3) v(1,2) unfolding covered_def out_op_def by blast
  have "vr_markers r = vtxo_MarkerIDs v" using v(3) by (simp add: vtxo_to_row_def)
  then have "IsSubDustScript (s_tok s) (pout_PkScript (outs ! i)) \<or> sw \<longrightarrow> row_swept db' op r"
    unfolding row_swept_def add_vtxos_ok(1,2) [OF assms(1)]
    using i(3) assms(4,5) by (cases "IsSubDustScript (s_tok s) (pout_PkScript (outs ! i))") auto
  then show ?case using i(1,2) by (intro exI [of _ i]) (simp add: out_op_def)
qed

lemma tx_swept_frame: "tbl_tx db' = tbl_tx db \<Longrightarrow> tx_swept s now tx db' = tx_swept s now tx db"
  unfolding tx_swept_def GetSweepTxs_def commitment_round_def by (simp only:)

text \<open>A run of the projection of the outputs either leaves the vtxos as they were or ends by adding all
  that the loop collected, after the marks of what must not be spendable were written.\<close>

lemma project_outputs_cases:
  assumes "project_outputs s now tx txid outs db = (db', o')"
  obtains (aborted) "same_vtxos db db'" "o' \<noteq> Dispatched"
    | (added) db5 new where "o' = Dispatched" "foreach add_vtxo (no_vtxos new) db5 = Inr db'" "same_vtxos db db5"
      "\<forall>v \<in> set (no_vtxos new). covered s txid (tx_swept s now tx db) outs new v"
      "\<forall>v \<in> set (no_vtxos new). built tx v"
      "\<forall>m \<in> set (no_dustMarkerIDs new). has_row (tbl_swept_marker db5) m"
      "\<forall>k \<in> set (no_sweptOutpoints new). has_row (tbl_swept_vtxo db5) k"
proof -
  obtain db1 ms where m: "project_marker s tx txid db = (db1, ms)" by (rule prod.exhaust)
  have f1: "same_vtxos db db1"
    using project_marker_frame [OF m] by (rule same_vtxos_marker)
  then have sw: "tx_swept s now tx db1 = tx_swept s now tx db" by (intro tx_swept_frame) (simp add: same_vtxos_def)
  show thesis
  proof (cases "getAssetsFromTxOuts s txid outs")
    case (Inr p)
    obtain iss assets where p: "p = (iss, assets)" by (rule prod.exhaust)
    let ?acc = "\<lparr>no_vtxos = [], no_dustMarkerIDs = [], no_sweptOutpoints = []\<rparr>"
    let ?sw = "tx_swept s now tx db"
    obtain db2 r where c: "collect_outputs s tx txid assets ms ?sw 0 outs ?acc db1 = (db2, r)" by (rule prod.exhaust)
    have "same_vtxos db1 db2" using collect_outputs_frame [OF c] by (rule same_vtxos_marker)
    then have f2: "same_vtxos db db2" by (rule same_vtxos_trans [OF f1])
    show thesis
    proof (cases r)
      case None
      then show thesis using assms m Inr p c f2 sw aborted by (auto simp: project_outputs_def)
    next
      case (Some new)
      have cov: "\<forall>v \<in> set (no_vtxos new). covered s txid ?sw outs new v"
        using collect_outputs_covered [where pre = "[]", OF c [unfolded Some]] by simp
      have built: "\<forall>v \<in> set (no_vtxos new). built tx v"
        using collect_outputs_built [OF c [unfolded Some]] by simp
      obtain db3 n e3 where a: "(if length iss > 0 then AddAssets (s_taggedHash s) (s_store s Call_AddAssets)
          [(ot_ArkTxid tx, iss)] db2 else (db2, 0, None)) = (db3, n, e3)" by (metis prod_cases3)
      have f3: "same_vtxos db db3" using a AddAssets_frame same_vtxos_trans [OF f2] f2 by (auto split: if_splits)
      obtain db4 e4 where b: "(if length (no_dustMarkerIDs new) > 0
          then BulkSweepMarkers (s_store s Call_BulkSweepMarkers) (no_dustMarkerIDs new) (now div time_Second) db3
          else (db3, None)) = (db4, e4)" by (rule prod.exhaust)
      have f4: "same_vtxos db db4"
        using b BulkSweepMarkers_ok(1) same_vtxos_trans [OF f3] f3 by (auto split: if_splits)
      obtain db5 e5 where w: "(if length (no_sweptOutpoints new) > 0
          then SweepVtxoOutpoints (s_store s Call_SweepVtxoOutpoints) (no_sweptOutpoints new) (now div time_Second) db4
          else (db4, None)) = (db5, e5)" by (rule prod.exhaust)
      have f5: "same_vtxos db db5"
        using w SweepVtxoOutpoints_ok(1) same_vtxos_trans [OF f4] f4 by (auto split: if_splits)
      obtain db6 e6 where v: "AddVtxos (s_store s Call_AddVtxos) (no_vtxos new) db5 = (db6, e6)" by (rule prod.exhaust)
      have res: "(db', o') = (if e3 \<noteq> None then (db3, Not_dispatched) else if e4 \<noteq> None then (db4, Not_dispatched)
          else if e5 \<noteq> None then (db5, Not_dispatched) else (db6, if e6 = None then Dispatched else Not_dispatched))"
        using assms(1) m Inr p c Some a b w v
        by (auto simp: project_outputs_def or_abort_def sw split: if_splits option.splits)
      show thesis
      proof (cases "e3 = None \<and> e4 = None \<and> e5 = None \<and> e6 = None")
        case True
        have "\<forall>m \<in> set (no_dustMarkerIDs new). has_row (tbl_swept_marker db4) m"
          using b True BulkSweepMarkers_ok(2) by (auto split: if_splits)
        then have "\<forall>m \<in> set (no_dustMarkerIDs new). has_row (tbl_swept_marker db5) m"
          using w SweepVtxoOutpoints_ok(2) by (auto split: if_splits)
        moreover have "\<forall>k \<in> set (no_sweptOutpoints new). has_row (tbl_swept_vtxo db5) k"
          using w True SweepVtxoOutpoints_ok(3) by (auto split: if_splits)
        moreover have "foreach add_vtxo (no_vtxos new) db5 = Inr db6"
          using v True by (auto simp: AddVtxos_def dest: execTx_None)
        ultimately show thesis using res True added [OF _ _ f5 cov built] by auto
      next
        case False
        have "e6 \<noteq> None \<Longrightarrow> db6 = db5" using v by (auto simp: AddVtxos_def dest: execTx_Some)
        then show thesis using res False f3 f4 f5 aborted by (auto split: if_splits)
      qed
    qed
  qed (use assms m f1 aborted in \<open>auto simp: project_outputs_def\<close>)
qed

lemma project_outputs_safe:
  assumes "project_outputs s now tx txid outs db = (db', o')" "txid_fresh txid db"
  shows "outputs_safe s txid (tx_swept s now tx db) outs db'"
  using assms(1)
proof (cases rule: project_outputs_cases)
  case aborted
  then show ?thesis using fresh_outputs_safe [OF assms(2)] by (simp add: same_vtxos_def)
next
  case (added db5 new)
  have "txid_fresh txid db5" using added(3) assms(2) by (simp add: same_vtxos_def txid_fresh_def)
  then show ?thesis using added_outputs_safe [OF added(2) _ added(4,6,7)] by blast
qed

text \<open>A row of another transaction is not touched.\<close>

lemma add_vtxos_other:
  assumes "foreach add_vtxo vs db = Inr db'" "\<forall>v \<in> set vs. vtxo_Outpoint v \<noteq> op"
  shows "map_of (tbl_vtxo db') op = map_of (tbl_vtxo db) op"
  using add_vtxos_untouched [OF assms(1), of op] assms(2) by blast

lemma project_outputs_other_rows:
  assumes "project_outputs s now tx txid outs db = (db', o')" "outp_Txid op \<noteq> txid"
  shows "map_of (tbl_vtxo db') op = map_of (tbl_vtxo db) op"
  using assms(1)
proof (cases rule: project_outputs_cases)
  case (added db5 new)
  have "\<forall>v \<in> set (no_vtxos new). vtxo_Outpoint v \<noteq> op" using added(4) assms(2) by (auto simp: covered_def)
  then show ?thesis using add_vtxos_other [OF added(2)] added(3) by (simp add: same_vtxos_def)
qed (simp add: same_vtxos_def)
lemma AddOrUpdateOffchainTx_frame:
  assumes "AddOrUpdateOffchainTx att tx db = (db', e)"
  shows "same_vtxos db db'"
proof (rule tx_call.invariant [where I = "same_vtxos db", OF assms [unfolded AddOrUpdateOffchainTx_def]], goal_cases)
  case (2 s')
  show ?case
    by (rule foreach_invariant [where I = "same_vtxos db", OF 2])
      (auto simp: UpsertOffchainTx_def UpsertCheckpointTx_def guard_err_eq_Inr same_vtxos_def split: option.splits)
qed simp

lemma distinct_fold_update: "distinct (map fst m) \<Longrightarrow> distinct (map fst (fold (\<lambda>x. AList.update (k x) (a x)) xs m))"
  by (induction xs arbitrary: m) (simp_all add: distinct_update)

text \<open>The map from the inputs of the transactions that decode to a label of the transaction.\<close>

definition decoded_inputs :: "service \<Rightarrow> string list \<Rightarrow> Outpoint set" where
  "decoded_inputs s txs =
     (\<Union>tx \<in> set txs. case s_DecodeTx s tx of Inl _ \<Rightarrow> {} | Inr (_, ins, _) \<Rightarrow> pin_Outpoint ` set ins)"

definition label_inputs :: "service \<Rightarrow> ('x \<Rightarrow> string) \<Rightarrow> ('x \<Rightarrow> string \<Rightarrow> string) \<Rightarrow> 'x \<Rightarrow>
    (Outpoint \<times> string) list \<Rightarrow> (Outpoint \<times> string) list" where
  "label_inputs s g lab x m =
     (case s_DecodeTx s (g x) of
        Inl _ \<Rightarrow> m
      | Inr (txid, ins, _) \<Rightarrow> fold (\<lambda>i. AList.update (pin_Outpoint i) (lab x txid)) ins m)"

lemma fold_update_dom: "fst ` set (fold (\<lambda>x. AList.update (k x) (a x)) xs m) = k ` set xs \<union> fst ` set m"
  by (induction xs arbitrary: m) (auto simp: fst_set_update)

lemma label_inputs_dom:
  "fst ` set (fold (label_inputs s g lab) xs m) = decoded_inputs s (map g xs) \<union> fst ` set m"
proof (induction xs arbitrary: m)
  case (Cons x xs)
  show ?case
  proof (cases "s_DecodeTx s (g x)")
    case (Inr d)
    obtain txid ins outs where d: "d = (txid, ins, outs)" by (metis prod_cases3)
    have "label_inputs s g lab x m = fold (\<lambda>i. AList.update (pin_Outpoint i) (lab x txid)) ins m"
      by (simp add: label_inputs_def Inr d)
    then show ?thesis by (simp add: Cons.IH fold_update_dom Un_ac decoded_inputs_def Inr d)
  next
    case (Inl e)
    then have "label_inputs s g lab x m = m" by (simp add: label_inputs_def)
    then show ?thesis by (simp add: Cons.IH decoded_inputs_def Inl)
  qed
qed (simp add: decoded_inputs_def)

lemma distinct_label_inputs:
  "distinct (map fst m) \<Longrightarrow> distinct (map fst (fold (label_inputs s g lab) xs m))"
  by (induction xs arbitrary: m) (auto simp: label_inputs_def distinct_fold_update split: sum.split)

text \<open>The inputs of the checkpoints that decode.\<close>

definition checkpoint_inputs :: "service \<Rightarrow> OffchainTx \<Rightarrow> Outpoint set" where
  "checkpoint_inputs s tx = decoded_inputs s (CheckpointTxsList tx)"

lemma checkpoint_spends_label:
  "checkpoint_spends s tx = fold (label_inputs s (\<lambda>x. x) (\<lambda>_ txid. txid)) (CheckpointTxsList tx) []"
  by (simp add: checkpoint_spends_def label_inputs_def [abs_def] CheckpointTxsList_def)

lemma distinct_checkpoint_spends: "distinct (map fst (checkpoint_spends s tx))"
  by (simp add: checkpoint_spends_label distinct_label_inputs)

lemma checkpoint_spends_dom: "fst ` set (checkpoint_spends s tx) = checkpoint_inputs s tx"
  by (simp add: checkpoint_spends_label label_inputs_dom checkpoint_inputs_def)

lemma SpendVtxos_row:
  assumes "SpendVtxos att m arkTxid db = (db', None)" "distinct (map fst m)" "op \<in> fst ` set m"
    and "map_of (tbl_vtxo db') op = Some r"
  shows "vr_spent r \<and> vr_ark_txid r = Some arkTxid"
proof -
  obtain by' where "map_of m op = Some by'" using assms(2,3) by (force simp: map_of_eq_Some_iff)
  then show ?thesis using assms(4) by (auto simp: SpendVtxos_ok [OF assms(1)] map_of_upd_all [OF assms(2)])
qed
text \<open>The two writes before the outputs: the transaction itself and the marks of its inputs.\<close>

lemma project_offchain_cases:
  assumes "project_offchain s now tx db = (db', o')"
  obtains (not_stored) "same_vtxos db db'" "o' = Not_dispatched"
    | (other_stage) "same_vtxos db db'" "\<not> OffchainTx_IsAccepted tx" "\<not> OffchainTx_IsFinalized tx"
    | (accepted) db1 att where "same_vtxos db db1" "OffchainTx_IsAccepted tx" "o' = Dispatched"
      "SpendVtxos att (checkpoint_spends s tx) (ot_ArkTxid tx) db1 = (db', None)"
    | (undecoded) db1 att where "same_vtxos db db1" "o' = Not_dispatched"
      "SpendVtxos att (checkpoint_spends s tx) (ot_ArkTxid tx) db1 = (db', None)"
    | (outputs) db1 db2 att txid ins outs where "same_vtxos db db1" "OffchainTx_IsFinalized tx"
      "SpendVtxos att (checkpoint_spends s tx) (ot_ArkTxid tx) db1 = (db2, None)"
      "s_DecodeTx s (ot_ArkTx tx) = Inr (txid, ins, outs)"
      "project_outputs s now tx txid outs db2 = (db', o')"
proof -
  obtain db1 e1 where 1: "AddOrUpdateOffchainTx (s_store s Call_AddOrUpdateOffchainTx) tx db = (db1, e1)"
    by (rule prod.exhaust)
  note f1 = AddOrUpdateOffchainTx_frame [OF 1]
  obtain db2 e2 where 2: "SpendVtxos (s_store s Call_SpendVtxos) (checkpoint_spends s tx) (ot_ArkTxid tx) db1 = (db2, e2)"
    by (rule prod.exhaust)
  have f2: "e2 \<noteq> None \<Longrightarrow> db2 = db1" using 2 by (auto simp: SpendVtxos_def dest: execTx_Some)
  show thesis
  proof (cases "e1 = None \<and> (OffchainTx_IsAccepted tx \<or> OffchainTx_IsFinalized tx) \<and> e2 = None")
    case True
    show thesis
    proof (cases "OffchainTx_IsAccepted tx")
      case True': True
      then show thesis using accepted [OF f1] assms 1 2 True by (auto simp: project_offchain_def or_abort_def)
    next
      case False
      then have fin: "OffchainTx_IsFinalized tx" using True by blast
      show thesis
      proof (cases "s_DecodeTx s (ot_ArkTx tx)")
        case (Inl e)
        then show thesis using undecoded [OF f1] assms 1 2 True False by (auto simp: project_offchain_def or_abort_def)
      next
        case (Inr d)
        obtain txid ins outs where d: "d = (txid, ins, outs)" by (metis prod_cases3)
        have "project_outputs s now tx txid outs db2 = (db', o')"
          using assms 1 2 True False Inr d by (auto simp: project_offchain_def or_abort_def)
        then show thesis using outputs [OF f1 fin] 2 True Inr d by blast
      qed
    qed
  next
    case False
    then show thesis
      using assms 1 2 f1 f2 not_stored other_stage
      by (auto simp: project_offchain_def or_abort_def split: if_splits option.splits)
  qed
qed

text \<open>C13: once the projection of an accepted or finalized offchain transaction is dispatched, every stored
  vtxo that an input of one of its decodable checkpoint transactions names is marked spent by that
  transaction, provided the transaction does not spend its own outputs.\<close>

theorem dispatched_offchain_tx_spends_inputs:
  assumes "project_offchain s now tx db = (db', Dispatched)"
    and "OffchainTx_IsAccepted tx \<or> OffchainTx_IsFinalized tx"
    and "op \<in> checkpoint_inputs s tx"
    and "\<forall>txid ins outs. s_DecodeTx s (ot_ArkTx tx) = Inr (txid, ins, outs) \<longrightarrow> outp_Txid op \<noteq> txid"
    and "map_of (tbl_vtxo db') op = Some r"
  shows "vr_spent r \<and> vr_ark_txid r = Some (ot_ArkTxid tx)"
proof -
  have op: "op \<in> fst ` set (checkpoint_spends s tx)" using assms(3) by (simp add: checkpoint_spends_dom)
  note row = SpendVtxos_row [OF _ distinct_checkpoint_spends op]
  from assms(1) show ?thesis
  proof (cases rule: project_offchain_cases)
    case (accepted db1 att)
    then show ?thesis using row assms(5) by blast
  next
    case (outputs db1 db2 att txid ins outs)
    have "map_of (tbl_vtxo db2) op = Some r"
      using project_outputs_other_rows [OF outputs(5)] assms(4,5) outputs(4) by metis
    then show ?thesis using row [OF outputs(3)] by blast
  qed (use assms(2) in auto)
qed

text \<open>C3: whatever calls fail during the projection of an offchain transaction that had no outputs stored,
  every stored output of it that is sub-dust, or that belongs to a transaction that is swept or expired,
  reads back as swept: the marks are written before the vtxos.\<close>

theorem unspendable_outputs_are_swept:
  assumes "project_offchain s now tx db = (db', o')"
    and "s_DecodeTx s (ot_ArkTx tx) = Inr (txid, ins, outs)"
    and "txid_fresh txid db"
    and "(op, r) \<in> set (tbl_vtxo db')" "outp_Txid op = txid"
  shows "\<exists>i < length outs. op = out_op txid i \<and>
    (IsSubDustScript (s_tok s) (pout_PkScript (outs ! i)) \<or> tx_swept s now tx db \<longrightarrow> row_swept db' op r)"
proof -
  have spent: "txid_fresh txid db2 \<and> tbl_tx db2 = tbl_tx db"
    if "same_vtxos db db1" "SpendVtxos att m arkTxid db1 = (db2, None)" for db1 db2 att m arkTxid
  proof -
    have "tbl_vtxo db1 = tbl_vtxo db" "tbl_tx db1 = tbl_tx db" using that(1) by (auto simp: same_vtxos_def)
    moreover have "map fst (tbl_vtxo db2) = map fst (tbl_vtxo db1)" "tbl_tx db2 = tbl_tx db1"
      by (simp_all add: SpendVtxos_ok [OF that(2)])
    ultimately show ?thesis using assms(3) txid_fresh_keys [of db2 db txid] by simp
  qed
  from assms(1) show ?thesis
  proof (cases rule: project_offchain_cases)
    case not_stored
    then show ?thesis using assms(3-5) by (auto simp: same_vtxos_def txid_fresh_def)
  next
    case other_stage
    then show ?thesis using assms(3-5) by (auto simp: same_vtxos_def txid_fresh_def)
  next
    case (accepted db1 att)
    then show ?thesis using spent [OF accepted(1,4)] assms(4,5) by (auto simp: txid_fresh_def)
  next
    case (undecoded db1 att)
    then show ?thesis using spent [OF undecoded(1,3)] assms(4,5) by (auto simp: txid_fresh_def)
  next
    case (outputs db1 db2 att txid' ins' outs')
    have eq: "txid' = txid" "outs' = outs" using outputs(4) assms(2) by auto
    have "outputs_safe s txid (tx_swept s now tx db2) outs db'"
      using project_outputs_safe [OF outputs(5) [unfolded eq]] spent [OF outputs(1,3)] by blast
    then show ?thesis
      using assms(4,5) spent [OF outputs(1,3)] tx_swept_frame [of db2 db s now tx] by (auto simp: outputs_safe_def)
  qed
qed

text \<open>C4: projecting an offchain transaction again does not make a spent output of it spendable: when the
  commitment rows of an output are stored, its row keeps its spent mark, whatever calls fail.\<close>

theorem replay_keeps_spent_outputs:
  assumes "project_offchain s now tx db = (db', o')"
    and "map_of (tbl_vtxo db) op = Some r" "vr_spent r"
    and "c \<in> set (CommitmentTxidsList tx)" "has_row (tbl_vtxo_commitment_txid db) (op, c)"
  shows "\<exists>r'. map_of (tbl_vtxo db') op = Some r' \<and> vr_spent r'"
proof -
  have spent: "\<exists>r'. map_of (tbl_vtxo db2) op = Some r' \<and> vr_spent r'"
      "tbl_vtxo_commitment_txid db2 = tbl_vtxo_commitment_txid db"
    if "same_vtxos db db1" "SpendVtxos att (checkpoint_spends s tx) arkTxid db1 = (db2, None)" for db1 db2 att arkTxid
    using assms(2,3) that(1)
    by (auto simp: SpendVtxos_ok [OF that(2)] map_of_upd_all [OF distinct_checkpoint_spends] same_vtxos_def
        split: option.split)
  have same: "\<exists>r'. map_of (tbl_vtxo db') op = Some r' \<and> vr_spent r'" if "same_vtxos db db'"
    using that assms(2,3) by (simp add: same_vtxos_def)
  from assms(1) show ?thesis
  proof (cases rule: project_offchain_cases)
    case (outputs db1 db2 att txid ins outs)
    note sp = spent [OF outputs(1,3)]
    from outputs(5) show ?thesis
    proof (cases rule: project_outputs_cases)
      case aborted
      then show ?thesis using sp(1) by (simp add: same_vtxos_def)
    next
      case (added db5 new)
      have "map_of (tbl_vtxo db') op = map_of (tbl_vtxo db5) op"
        using add_vtxos_untouched [OF added(2), of op] assms(4,5) sp(2) added(3,5)
        by (auto simp: same_vtxos_def built_def)
      then show ?thesis using sp(1) added(3) by (simp add: same_vtxos_def)
    qed
  qed (use same spent in blast)+
qed
subsection \<open>Sweeps\<close>

lemma set_first_occurrences: "set (first_occurrences seen xs) = set xs - set seen"
  by (induction xs arbitrary: seen) auto

text \<open>What a dispatched sweep wrote.\<close>

lemma project_sweep_dispatched:
  assumes "project_sweep s now events db = (db', Dispatched)"
  obtains ops where "db' = db\<lparr>tbl_swept_vtxo := fold (insert_new (now div time_Second)) ops (tbl_swept_vtxo db)\<rparr>"
    "set ops \<subseteq> set (allSweptVtxos events)"
    "\<forall>op \<in> set (allSweptVtxos events) - set ops. \<exists>r. (op, r) \<in> set (tbl_vtxo db) \<and> row_swept db op r"
proof -
  let ?ops = "allSweptVtxos events"
  obtain existing where ex: "GetVtxos (s_store s Call_GetVtxos) ?ops db = Inr existing"
    using assms by (auto simp: project_sweep_def Let_def split: sum.splits)
  let ?to = "filter (\<lambda>o'. o' \<notin> vtxo_Outpoint ` {v \<in> set existing. vtxo_Swept v}) ?ops"
  have old: "\<exists>r. (op, r) \<in> set (tbl_vtxo db) \<and> row_swept db op r" if "op \<in> set ?ops - set ?to" for op
  proof -
    from that obtain v where "v \<in> set existing" "vtxo_Outpoint v = op" "vtxo_Swept v" by auto
    then show ?thesis using GetVtxos_ok(2) [OF ex] by (auto simp: reads_row_def)
  qed
  show thesis
  proof (cases "?to = []")
    case True
    then have "db' = db" using assms ex by (auto simp: project_sweep_def Let_def filter_empty_conv)
    then show thesis using that [of "[]"] old True by simp
  next
    case False
    then obtain att where "SweepVtxoOutpoints att ?to (now div time_Second) db = (db', None)"
      using assms ex
      by (fastforce simp: project_sweep_def Let_def or_abort_def filter_empty_conv split: option.splits prod.splits if_splits)
    from SweepVtxoOutpoints_ok(4) [OF this] show thesis using that [of ?to] old by auto
  qed
qed

lemma row_swept_mono:
  assumes "row_swept db op r" "\<And>k. has_row (tbl_swept_marker db) k \<Longrightarrow> has_row (tbl_swept_marker db') k"
    "\<And>k. has_row (tbl_swept_vtxo db) k \<Longrightarrow> has_row (tbl_swept_vtxo db') k"
  shows "row_swept db' op r"
  using assms by (auto simp: row_swept_def)

text \<open>after a dispatched sweep projection, every stored vtxo that one of the batch's sweep events names
  reads as swept and the vtxo rows are as before; running the projection of the same events again, at any
  time and whatever calls fail, changes nothing.\<close>

theorem sweep_projection_idempotent:
  assumes "project_sweep s now events db = (db', Dispatched)" "distinct (map fst (tbl_vtxo db))"
  shows "(\<forall>(op, r) \<in> set (tbl_vtxo db'). op \<in> set (allSweptVtxos events) \<longrightarrow> row_swept db' op r) \<and>
    tbl_vtxo db' = tbl_vtxo db \<and> fst (project_sweep s' now' events db') = db'"
proof -
  let ?ops = "allSweptVtxos events"
  obtain ops where db': "db' = db\<lparr>tbl_swept_vtxo := fold (insert_new (now div time_Second)) ops (tbl_swept_vtxo db)\<rparr>"
    and sub: "set ops \<subseteq> set ?ops"
    and old: "\<forall>op \<in> set ?ops - set ops. \<exists>r. (op, r) \<in> set (tbl_vtxo db) \<and> row_swept db op r"
    using project_sweep_dispatched [OF assms(1)] .
  have swept: "row_swept db' op r" if row: "(op, r) \<in> set (tbl_vtxo db')" and op: "op \<in> set ?ops" for op r
  proof (cases "op \<in> set ops")
    case False
    then obtain r' where "(op, r') \<in> set (tbl_vtxo db)" "row_swept db op r'" using old op by blast
    moreover have "r' = r" using calculation(1) row eq_key_imp_eq_value [OF assms(2)] db' by auto
    ultimately show ?thesis by (auto intro: row_swept_mono simp: db')
  qed (simp add: row_swept_def db')
  have "fst (project_sweep s' now' events db') = db'"
  proof (cases "GetVtxos (s_store s' Call_GetVtxos) ?ops db'")
    case (Inr existing)
    let ?to = "filter (\<lambda>o'. o' \<notin> set (map vtxo_Outpoint (filter vtxo_Swept existing))) ?ops"
    have marked: "has_row (tbl_swept_vtxo db') k" if to: "k \<in> set ?to" for k
    proof (cases "k \<in> set ops")
      case False
      then obtain r where r: "(k, r) \<in> set (tbl_vtxo db)" using old to by auto
      then have "k \<in> vtxo_Outpoint ` set existing"
        using GetVtxos_ok(1) [OF Inr] to by (force simp: has_row_def db')
      then obtain v where v: "v \<in> set existing" "vtxo_Outpoint v = k" by blast
      then have "vtxo_Swept v" using GetVtxos_ok(2) [OF Inr v(1)] swept to by (auto simp: reads_row_def)
      then show ?thesis using to v by auto
    qed (simp add: db')
    have same: "fold (insert_new t) ?to (tbl_swept_vtxo db') = tbl_swept_vtxo db'" for t
      by (rule fold_insert_new_same) (rule ballI, rule marked)
    obtain db2 e where sw: "SweepVtxoOutpoints (s_store s' Call_SweepVtxoOutpoints) ?to (now' div time_Second) db' = (db2, e)"
      by (rule prod.exhaust)
    have "db2 = db'" using SweepVtxoOutpoints_ok(4,5) [OF sw] same by (cases e) auto
    then show ?thesis using Inr sw by (auto simp: project_sweep_def Let_def or_abort_def split: option.split)
  qed (simp add: project_sweep_def)
  then show ?thesis using swept db' by auto
qed

text \<open>when the startup reconciliation succeeds, no vtxo of a fully swept batch is left unswept: the
  query that the sweeper uses to find what a sweep covers returns nothing for the swept batches. The
  vtxo rows are unchanged, and a vtxo that was not covered by the query keeps its state.\<close>

theorem reconciliation_completes_sweeps:
  assumes "ensureSweptVtxos s now db = (db', None)"
    and "GetSweptRounds (s_store s Call_GetSweptRounds) db = Inr swept"
  shows "sweepable_outpoints swept db' = [] \<and> tbl_vtxo db' = tbl_vtxo db \<and>
    (\<forall>(op, r) \<in> set (tbl_vtxo db). row_swept db' op r \<longleftrightarrow> row_swept db op r \<or> op \<in> set (sweepable_outpoints swept db))"
proof -
  let ?ops = "sweepable_outpoints swept db"
  have db': "\<exists>t. db' = db\<lparr>tbl_swept_vtxo := fold (insert_new t) ?ops (tbl_swept_vtxo db)\<rparr>"
  proof (cases "swept = [] \<or> ?ops = []")
    case True
    then have "?ops = []" by (auto simp: sweepable_outpoints_def)
    then show ?thesis
      using assms True by (auto simp: ensureSweptVtxos_def GetSweepableVtxosByCommitmentTxids_def exec_query_eq_Inr
          split: sum.splits if_splits prod.splits option.splits)
  next
    case False
    then obtain att where "SweepVtxoOutpoints att ?ops (now div time_Second) db = (db', None)"
      using assms by (fastforce simp: ensureSweptVtxos_def GetSweepableVtxosByCommitmentTxids_def exec_query_def
          split: sum.splits if_splits prod.splits option.splits)
    from SweepVtxoOutpoints_ok(4) [OF this] show ?thesis by auto
  qed
  then have rows: "row_swept db' op r \<longleftrightarrow> row_swept db op r \<or> op \<in> set ?ops" "tbl_vtxo db' = tbl_vtxo db" 
      "tbl_vtxo_commitment_txid db' = tbl_vtxo_commitment_txid db" for op r
    by (auto simp: row_swept_def)
  have mem: "op \<in> set (sweepable_outpoints swept d) \<longleftrightarrow> (\<exists>p \<in> set (tbl_vtxo d). fst p = op \<and>
      \<not> row_swept d (fst p) (snd p) \<and> (vr_commitment_txid (snd p) \<in> set swept \<or>
       (\<exists>c \<in> set swept. has_row (tbl_vtxo_commitment_txid d) (fst p, c))))" for op d
    using vtxo_vw_ex [of d "\<lambda>k r b. k = op \<and> \<not> b \<and> (vr_commitment_txid r \<in> set swept \<or>
       (\<exists>c \<in> set swept. has_row (tbl_vtxo_commitment_txid d) (k, c)))"]
    by (auto simp: sweepable_outpoints_def)
  have "op \<notin> set (sweepable_outpoints swept db')" for op
    using mem [of op db] mem [of op db'] rows by auto
  then have "sweepable_outpoints swept db' = []" by (meson last_in_set)
  then show ?thesis using rows by auto
qed
subsection \<open>Batches\<close>

definition round_inputs :: "Round \<Rightarrow> Vtxo list" where
  "round_inputs round = concat (map int_Inputs (map_values (rd_Intents round)))"

text \<open>The inputs of the round that are settled: those that need no forfeit, and those that an input of a
  forfeit transaction names.\<close>

definition settled_inputs :: "service \<Rightarrow> Round \<Rightarrow> Outpoint set" where
  "settled_inputs s round =
     vtxo_Outpoint ` {v \<in> set (round_inputs round). \<not> Vtxo_RequiresForfeit v \<or>
       vtxo_Outpoint v \<in> decoded_inputs s (map forfeit_Tx (rd_ForfeitTxs round))}"

lemma settle_fold_dom:
  "fst ` set (fold (\<lambda>v m. if \<not> P v then AList.update (k v) [] m
      else case map_of f (k v) of Some txid \<Rightarrow> AList.update (k v) txid m | None \<Rightarrow> m) vs m) =
     k ` {v \<in> set vs. \<not> P v \<or> k v \<in> fst ` set f} \<union> fst ` set m"
proof (induction vs arbitrary: m)
  case (Cons v vs)
  have "map_of f (k v) = None \<longleftrightarrow> k v \<notin> fst ` set f" by (simp add: map_of_eq_None_iff)
  then show ?case by (auto simp: Cons.IH fst_set_update split: option.split)
qed simp

lemma distinct_settle_fold:
  "distinct (map fst m) \<Longrightarrow> distinct (map fst (fold (\<lambda>v m. if \<not> P v then AList.update (k v) [] m
      else case map_of f (k v) of Some txid \<Rightarrow> AList.update (k v) txid m | None \<Rightarrow> m) vs m))"
  by (induction vs arbitrary: m) (auto simp: distinct_update split: option.split)

lemma spent_keys_of_round:
  "fst ` set (getSpentVtxoKeysFromRound s round) = settled_inputs s round"
  "distinct (map fst (getSpentVtxoKeysFromRound s round))"
proof -
  let ?f = "fold (label_inputs s forfeit_Tx (\<lambda>x _. forfeit_Txid x)) (rd_ForfeitTxs round) []"
  have eq: "getSpentVtxoKeysFromRound s round =
      fold (\<lambda>v m. if \<not> Vtxo_RequiresForfeit v then AList.update (vtxo_Outpoint v) [] m
        else case map_of ?f (vtxo_Outpoint v) of Some txid \<Rightarrow> AList.update (vtxo_Outpoint v) txid m | None \<Rightarrow> m)
        (round_inputs round) []"
    unfolding getSpentVtxoKeysFromRound_def round_inputs_def Let_def label_inputs_def [abs_def] by (rule refl)
  show "fst ` set (getSpentVtxoKeysFromRound s round) = settled_inputs s round"
    unfolding eq settle_fold_dom label_inputs_dom settled_inputs_def by simp
  show "distinct (map fst (getSpentVtxoKeysFromRound s round))"
    unfolding eq by (rule distinct_settle_fold) simp
qed

text \<open>When all the vtxos share a commitment, their outpoints are distinct and each has its row.\<close>

lemma add_vtxos_stored:
  assumes "foreach add_vtxo vs db = Inr db'" "\<forall>v \<in> set vs. c \<in> set (vtxo_CommitmentTxids v)" "v \<in> set vs"
  shows "\<exists>iid. map_of (tbl_vtxo db') (vtxo_Outpoint v) = Some ((vtxo_to_row v)\<lparr>vr_intent_id := iid\<rparr>)"
  using assms
proof (induction vs arbitrary: db)
  case (Cons w vs)
  then obtain db1 where 1: "add_vtxo w db = Inr db1" "foreach add_vtxo vs db1 = Inr db'"
    by (auto simp: rbind_eq_Inr)
  show ?case
  proof (cases "v \<in> set vs")
    case True
    then show ?thesis using Cons.IH [OF 1(2)] Cons.prems(2) by simp
  next
    case False
    then have w: "w = v" using Cons.prems(3) by simp
    have "has_row (tbl_vtxo_commitment_txid db1) (vtxo_Outpoint v, c)"
      using add_vtxo_commitments [OF 1(1)] Cons.prems(2) w by simp
    then have "map_of (tbl_vtxo db') (vtxo_Outpoint v) = map_of (tbl_vtxo db1) (vtxo_Outpoint v)"
      using add_vtxos_untouched [OF 1(2), of "vtxo_Outpoint v"] Cons.prems(2) by auto
    then have "map_of (tbl_vtxo db') (vtxo_Outpoint v) = map_of (tbl_vtxo (UpsertVtxo (vtxo_Outpoint v) (vtxo_to_row v) db)) (vtxo_Outpoint v)"
      by (simp add: add_vtxo_ok(1) [OF 1(1)] w)
    then show ?thesis by (auto simp: UpsertVtxo_def Let_def update_conv')
  qed
qed simp

lemma vtxos_of_leaf_built:
  "vtxos_of_leaf s round txid assets i outs = Some vs \<Longrightarrow> v \<in> set vs \<Longrightarrow>
     vtxo_CommitmentTxids v = [rd_CommitmentTxid round] \<and> \<not> vtxo_Spent v \<and>
     vtxo_MarkerIDs v = [Outpoint_String (vtxo_Outpoint v)]"
proof (induction outs arbitrary: i vs)
  case (Cons out outs)
  then show ?case by (fastforce simp: Let_def split: if_splits option.splits sum.splits)
qed simp

lemma new_vtxos_built:
  assumes "getNewVtxosFromRound s round = Some vs" "v \<in> set vs"
  shows "vtxo_CommitmentTxids v = [rd_CommitmentTxid round] \<and> \<not> vtxo_Spent v \<and>
    vtxo_MarkerIDs v = [Outpoint_String (vtxo_Outpoint v)]"
proof -
  have "vtxos_of_leaves s round nodes = Some vs' \<Longrightarrow> v \<in> set vs' \<Longrightarrow> ?thesis" for nodes vs'
  proof (induction nodes arbitrary: vs')
    case (Cons n nodes)
    then show ?case by (fastforce split: sum.splits option.splits dest: vtxos_of_leaf_built)
  qed simp
  then show ?thesis using assms by (auto simp: getNewVtxosFromRound_def split: if_splits)
qed

lemma root_markers:
  assumes "foreach (\<lambda>v db. Inr (UpsertMarker (Outpoint_String (vtxo_Outpoint v)) 0 [] db)) vs db = Inr db'"
  shows "tbl_vtxo db' = tbl_vtxo db"
    "has_row (tbl_marker db') m \<longleftrightarrow> m \<in> (Outpoint_String \<circ> vtxo_Outpoint) ` set vs \<or> has_row (tbl_marker db) m"
  using assms by (induction vs arbitrary: db) (auto simp: UpsertMarker_def)

lemma repo_AddUtxos_frame:
  assumes "repo_AddUtxos att us tx db = (db', e)"
  shows "tbl_vtxo db' = tbl_vtxo db \<and> tbl_marker db' = tbl_marker db"
proof (cases us)
  case (Cons u us')
  let ?I = "\<lambda>d. tbl_vtxo d = tbl_vtxo db \<and> tbl_marker d = tbl_marker db"
  have body: "?I s'" if "foreach (\<lambda>u. InsertUtxo (utxo_Outpoint u) (utxo_to_row u)) us d = Inr s'" "?I d" for d s'
    by (rule foreach_invariant [where I = ?I, OF that])
      (auto simp: InsertUtxo_def rbind_eq_Inr insert_row_eq_Inr)
  have tx: "execTx att (\<lambda>db.
      rbind (if length tx > 0 then InsertOnchainTx (spend_Txid (utxo_Spend u)) tx db else Inr db)
        (foreach (\<lambda>utxo. InsertUtxo (utxo_Outpoint utxo) (utxo_to_row utxo)) us)) db = (db', e)"
    using assms Cons by (simp add: repo_AddUtxos_def)
  show ?thesis
    by (rule tx_call.invariant [where I = ?I, OF tx])
      (auto simp: rbind_eq_Inr InsertOnchainTx_def insert_row_eq_Inr split: if_splits dest!: body)
qed (use assms in \<open>simp add: repo_AddUtxos_def\<close>)

lemma or_abort_Dispatched:
  "or_abort call k = (db', Dispatched) \<Longrightarrow> \<exists>db. call = (db, None) \<and> k db = (db', Dispatched)"
  by (auto simp: or_abort_def split: prod.splits option.splits)

text \<open>C12: once the projection of a finalized round is dispatched, every stored vtxo among the settled
  inputs of the round is marked spent and settled by the commitment transaction, provided it is not itself
  an output of the round, and every vtxo of the leaves is stored, unspent, with its own root marker.\<close>

theorem dispatched_batch_settles_and_creates:
  assumes "project_batch s round db = (db', Dispatched)"
    and "getNewVtxosFromRound s round = Some newVtxos"
  shows "(\<forall>op r. op \<in> settled_inputs s round \<and> op \<notin> vtxo_Outpoint ` set newVtxos \<and>
        map_of (tbl_vtxo db') op = Some r \<longrightarrow>
      vr_spent r \<and> vr_settled_by r = null_string (rd_CommitmentTxid round)) \<and>
    (\<forall>v \<in> set newVtxos. has_row (tbl_marker db') (Outpoint_String (vtxo_Outpoint v)) \<and>
      (\<exists>r. map_of (tbl_vtxo db') (vtxo_Outpoint v) = Some r \<and> \<not> vr_spent r \<and>
         vr_markers r = [Outpoint_String (vtxo_Outpoint v)]))"
proof -
  let ?sp = "getSpentVtxoKeysFromRound s round"
  obtain db1 db2 db3 us where
    1: "(if length ?sp > 0 then SettleVtxos (s_store s Call_SettleVtxos) ?sp (rd_CommitmentTxid round) db else (db, None)) = (db1, None)" and
    2: "(if length newVtxos > 0 then AddVtxos (s_store s Call_AddVtxos) newVtxos db1 else (db1, None)) = (db2, None)" and
    3: "(if length newVtxos > 0 then CreateRootMarkersForVtxos (s_store s Call_CreateRootMarkersForVtxos) newVtxos db2
         else (db2, None)) = (db3, None)" and
    4: "(if length us > 0 then repo_AddUtxos (s_store s Call_AddUtxos) us [] db3 else (db3, None)) = (db', None)"
    using assms unfolding project_batch_def Let_def
    by (auto split: option.splits sum.splits dest!: or_abort_Dispatched simp del: length_greater_0_conv)
  have add: "foreach add_vtxo newVtxos db1 = Inr db2"
    using 2 by (auto simp: AddVtxos_def split: if_splits dest: execTx_None)
  have mk: "foreach (\<lambda>v db. Inr (UpsertMarker (Outpoint_String (vtxo_Outpoint v)) 0 [] db)) newVtxos db2 = Inr db3"
    using 3 by (auto simp: CreateRootMarkersForVtxos_def split: if_splits dest: execTx_None)
  have fin: "tbl_vtxo db' = tbl_vtxo db2" "tbl_marker db' = tbl_marker db3"
    using 4 repo_AddUtxos_frame root_markers(1) [OF mk] by (auto split: if_splits)
  have settled: "vr_spent r \<and> vr_settled_by r = null_string (rd_CommitmentTxid round)"
    if op: "op \<in> settled_inputs s round" "op \<notin> vtxo_Outpoint ` set newVtxos" "map_of (tbl_vtxo db') op = Some r" for op r
  proof -
    have keys: "op \<in> fst ` set ?sp" using op(1) spent_keys_of_round(1) by blast
    then have "SettleVtxos (s_store s Call_SettleVtxos) ?sp (rd_CommitmentTxid round) db = (db1, None)" using 1 by (auto split: if_splits)
    note ok = SettleVtxos_ok [OF this]
    have "\<forall>v \<in> set newVtxos. vtxo_Outpoint v \<noteq> op" using op(2) by blast
    from add_vtxos_other [OF add this] have "map_of (tbl_vtxo db1) op = Some r" using op(3) fin(1) by simp
    moreover obtain by' where "map_of ?sp op = Some by'"
      using keys spent_keys_of_round(2) by (force simp: map_of_eq_Some_iff)
    ultimately show ?thesis by (auto simp: ok map_of_upd_all [OF spent_keys_of_round(2)])
  qed
  have stored: "has_row (tbl_marker db') (Outpoint_String (vtxo_Outpoint v)) \<and>
      (\<exists>r. map_of (tbl_vtxo db') (vtxo_Outpoint v) = Some r \<and> \<not> vr_spent r \<and>
         vr_markers r = [Outpoint_String (vtxo_Outpoint v)])" if v: "v \<in> set newVtxos" for v
  proof -
    have "\<forall>v \<in> set newVtxos. rd_CommitmentTxid round \<in> set (vtxo_CommitmentTxids v)"
      using new_vtxos_built [OF assms(2)] by simp
    from add_vtxos_stored [OF add this v] obtain iid where
      "map_of (tbl_vtxo db') (vtxo_Outpoint v) = Some ((vtxo_to_row v)\<lparr>vr_intent_id := iid\<rparr>)" using fin(1) by auto
    then show ?thesis using new_vtxos_built [OF assms(2) v] root_markers(2) [OF mk] v fin(2)
      by (auto simp: vtxo_to_row_def)
  qed
  show ?thesis using settled stored by blast
qed

subsection \<open>Assets of the outputs\<close>

lemma getAssetId_group:
  assumes "i < length p" "length p \<le> 65535"
  shows "map_sum (\<lambda>_. ()) (\<lambda>x. x) (getAssetId h txid p (of_nat i)) =
    map_sum (\<lambda>_. ()) (\<lambda>x. x) (group_asset_id h txid i (p ! i))"
proof -
  have "unat (of_nat i :: u16) = i" "unat (of_nat (length p) :: u16) = length p"
    using assms by (simp_all add: unat_of_nat take_bit_nat_eq_self)
  then have "\<not> (of_nat i :: u16) \<ge> of_nat (length p)" using assms(1) by (simp add: word_le_nat_alt)
  then show ?thesis using \<open>unat (of_nat i :: u16) = i\<close>
    by (auto simp: getAssetId_def group_asset_id_def guard_err_def split: option.split sum.split)
qed

lemma getAssetId_group_ok:
  assumes "getAssetId h txid p (of_nat i) = Inr aid" "i < length p" "length p \<le> 65535"
  shows "group_asset_id h txid i (p ! i) = Inr aid"
  using getAssetId_group [OF assms(2,3), of h txid] assms(1)
  by (cases "group_asset_id h txid i (p ! i)") auto

lemma issuance_id:
  "issuance_of_group h txid p i ast = Inr iss \<Longrightarrow> getAssetId h txid p (of_nat i) = Inr (da_Id iss)"
  by (auto simp: issuance_of_group_def rbind_eq_Inr)

text \<open>The groups of a packet that issue an asset: no identifier, and some output.\<close>

definition issuing :: "AssetGroup \<Rightarrow> bool" where
  "issuing ast \<longleftrightarrow> grp_AssetId ast = None \<and> grp_Outputs ast \<noteq> []"

lemma assets_of_groups_denominations:
  assumes "assets_of_groups h txid p i asts iss d = Inr (iss', d')" "asts = drop i p" "length p \<le> 65535"
  shows "add_groups h txid i asts d = Inr d' \<and>
    map da_Metadata iss' = map da_Metadata iss @ map grp_Metadata (filter issuing asts)"
  using assms(1,2)
proof (induction asts arbitrary: i iss d)
  case (Cons ast asts)
  have i: "i < length p" using Cons.prems(2) by (metis drop_eq_Nil2 leI list.discI)
  then have at: "p ! i = ast" "asts = drop (Suc i) p" using Cons.prems(2) by (simp_all add: Cons_nth_drop_Suc [symmetric])
  note IH = Cons.IH [OF _ at(2)]
  show ?case
  proof (cases "issuing ast")
    case False
    then show ?thesis using Cons.prems(1) IH
      by (auto simp: rbind_eq_Inr group_asset_id_def issuing_def split: option.splits if_splits)
  next
    case True
    then obtain isu d1 where isu: "issuance_of_group h txid p i ast = Inr isu"
      "add_outputs (Inr (da_Id isu)) (grp_Outputs ast) d = Inr d1"
      "assets_of_groups h txid p (Suc i) asts (iss @ [isu]) d1 = Inr (iss', d')"
      using Cons.prems(1) by (auto simp: rbind_eq_Inr issuing_def)
    have "da_Metadata isu = grp_Metadata ast" using isu(1) by (auto simp: issuance_of_group_def rbind_eq_Inr)
    then show ?thesis using IH [OF isu(3)] getAssetId_group_ok [OF issuance_id [OF isu(1)] i assms(3)] at(1) isu(2) True by simp
  qed
qed simp

text \<open>the assets that the projection stores with the outputs of a transaction are the ones the
  validation of the transaction counted for them, and it records one new asset for each group that
  issues one.\<close>

theorem projected_assets_are_validated_assets:
  assumes "getAssetsFromTxOuts s txid outs = Inr (issuances, d)"
    and "packet_of_outs (s_tok s) outs = Inr p" "length p \<le> 65535"
  shows "getAssetsDenominations (s_newHashFromStr s) p txid = Inr d \<and>
    map da_Metadata issuances = map grp_Metadata (filter issuing p) \<and>
    (\<forall>v. denoms_at d v = sent_to (s_newHashFromStr s) txid 0 p v)"
proof -
  have "getAssetsDenominations (s_newHashFromStr s) p txid = Inr d \<and>
      map da_Metadata issuances = map grp_Metadata (filter issuing p)"
  proof (cases "p = []")
    case True
    then show ?thesis using assms(1,2) by (simp add: getAssetsFromTxOuts_def getAssetsDenominations_def)
  next
    case False
    then have "assets_of_groups (s_newHashFromStr s) txid p 0 p [] [] = Inr (issuances, d)"
      using assms(1,2) by (simp add: getAssetsFromTxOuts_def)
    from assets_of_groups_denominations [OF this _ assms(3)] show ?thesis
      by (simp add: getAssetsDenominations_def)
  qed
  then show ?thesis using getAssetsDenominations_denoms by blast
qed

subsection \<open>A run\<close>

text \<open>The transaction \<open>ark\<close> spends \<open>t3:0\<close> through one checkpoint and pays to a sub-dust output and to a
  taproot output.\<close>

definition sample_key :: bytes where "sample_key = replicate 32 1"

definition sample_dust_out :: ports_TxOut where
  "sample_dust_out = \<lparr>pout_Amount = 100, pout_PkScript = OP_RETURN # 32 # sample_key\<rparr>"

definition sample_taproot_out :: ports_TxOut where
  "sample_taproot_out = \<lparr>pout_Amount = 900, pout_PkScript = 0x51 # 32 # sample_key\<rparr>"

definition sample_DecodeTx :: "string \<Rightarrow> (string \<times> ports_TxIn list \<times> ports_TxOut list) gores" where
  "sample_DecodeTx tx =
     (if tx = ''final'' then Inr (''ark'', [], [sample_dust_out, sample_taproot_out])
      else if tx = ''cp_final'' then Inr (''cp'', [\<lparr>pin_Outpoint = sample_op ''t3'', pin_Prevout = None\<rparr>], [])
      else if tx = ''proof'' then
        Inr (''p'', [\<lparr>pin_Outpoint = sample_op ''p'', pin_Prevout = None\<rparr>,
                   \<lparr>pin_Outpoint = sample_op ''t3'', pin_Prevout = None\<rparr>], [])
      else if tx = ''forfeit'' then Inr (''f'', [\<lparr>pin_Outpoint = sample_op ''t3'', pin_Prevout = None\<rparr>], [])
      else if tx = ''B'' then Inr (''B'', [], [sample_taproot_out])
      else Inl (Errorf ''decode''))"

definition sample_service :: service where
  "sample_service =
     \<lparr>s_DecodeTx = sample_DecodeTx,
      s_tok = (\<lambda>script. case script of op # l # d \<Rightarrow> [(op, None), (l, Some d)] | _ \<Rightarrow> []),
      s_newHashFromStr = (\<lambda>_. Inr sample_key), s_taggedHash = (\<lambda>_ _. sample_key), s_tapKey = Inr,
      s_IsPayToTaproot = (\<lambda>_. True), s_store = (\<lambda>_ _. calm)\<rparr>"

definition sample_payment :: OffchainTx where
  "sample_payment = sample_finalized\<lparr>ot_CheckpointTxs := [(''cp'', ''cp_final'')]\<rparr>"

definition sample_paid :: Db where
  "sample_paid = fst (project_offchain sample_service 0 sample_payment sample_chain)"

lemma sample_payment_run:
  "project_offchain sample_service 0 sample_payment sample_chain = (sample_paid, Dispatched)"
proof -
  have "snd (project_offchain sample_service 0 sample_payment sample_chain) = Dispatched" by code_simp
  then show ?thesis by (simp add: sample_paid_def prod_eq_iff)
qed

lemma sample_paid_rows:
  "map (\<lambda>(op, r). (op, vr_spent r, vr_ark_txid r)) (tbl_vtxo sample_paid) =
    [(sample_op ''t1'', True, Some ''t2''), (sample_op ''t2'', True, Some ''t1''), (sample_op ''t3'', True, Some ''ark''),
     (out_op ''ark'' 0, False, None), (out_op ''ark'' 1, False, None)]"
  by code_simp

theorem dispatched_offchain_tx_spends_inputs_witness:
  "\<exists>r. map_of (tbl_vtxo sample_paid) (sample_op ''t3'') = Some r \<and> vr_spent r \<and> vr_ark_txid r = Some ''ark''"
proof -
  have "has_row (tbl_vtxo sample_paid) (sample_op ''t3'')" by code_simp
  then obtain r where r: "map_of (tbl_vtxo sample_paid) (sample_op ''t3'') = Some r"
    by (auto simp: has_row_def dest: weak_map_of_SomeI)
  have "OffchainTx_IsFinalized sample_payment" "ot_ArkTxid sample_payment = ''ark''" by code_simp+
  moreover have "sample_op ''t3'' \<in> fst ` set (checkpoint_spends sample_service sample_payment)" by code_simp
  moreover have "\<forall>txid ins outs. s_DecodeTx sample_service (ot_ArkTx sample_payment) = Inr (txid, ins, outs) \<longrightarrow>
      outp_Txid (sample_op ''t3'') \<noteq> txid"
    by (auto simp: sample_service_def sample_DecodeTx_def sample_op_def split: if_splits)
  ultimately show ?thesis
    using dispatched_offchain_tx_spends_inputs [OF sample_payment_run _ _ _ r] r
    by (simp add: checkpoint_spends_dom)
qed

lemma sample_payment_decoded:
  "s_DecodeTx sample_service (ot_ArkTx sample_payment) = Inr (''ark'', [], [sample_dust_out, sample_taproot_out])"
  by code_simp

theorem unspendable_outputs_are_swept_witness:
  "\<exists>r. (out_op ''ark'' 0, r) \<in> set (tbl_vtxo sample_paid) \<and> row_swept sample_paid (out_op ''ark'' 0) r"
proof -
  have "out_op ''ark'' 0 \<in> fst ` set (tbl_vtxo sample_paid)" by code_simp
  then obtain r where r: "(out_op ''ark'' 0, r) \<in> set (tbl_vtxo sample_paid)" by auto
  have "txid_fresh ''ark'' sample_chain" "IsSubDustScript (s_tok sample_service) (pout_PkScript sample_dust_out)"
    by code_simp+
  with unspendable_outputs_are_swept [OF sample_payment_run sample_payment_decoded _ r] r show ?thesis
    by (auto simp: out_op_def less_Suc_eq)
qed

definition sample_paid_on :: Db where
  "sample_paid_on = fst (SpendVtxos (\<lambda>_. calm) [(out_op ''ark'' 1, ''cp2'')] ''ark2'' sample_paid)"

theorem replay_keeps_spent_outputs_witness:
  "\<exists>r. map_of (tbl_vtxo (fst (project_offchain sample_service 5 sample_payment sample_paid_on))) (out_op ''ark'' 1) = Some r \<and>
     vr_spent r"
proof -
  have "case map_of (tbl_vtxo sample_paid_on) (out_op ''ark'' 1) of None \<Rightarrow> False | Some r \<Rightarrow> vr_spent r" by code_simp
  then obtain r where r: "map_of (tbl_vtxo sample_paid_on) (out_op ''ark'' 1) = Some r" "vr_spent r"
    by (auto split: option.splits)
  have c: "''c'' \<in> set (CommitmentTxidsList sample_payment)" by code_simp
  have "has_row (tbl_vtxo_commitment_txid sample_paid_on) (out_op ''ark'' 1, ''c'')" by code_simp
  from replay_keeps_spent_outputs [OF prod.collapse [symmetric] r c this] show ?thesis .
qed

definition sample_sweep_events :: "Event list" where
  "sample_sweep_events = [BatchSwept \<lparr>ev_Id = ''id'', ev_Type = EventTypeBatchSwept\<rparr>
     \<lparr>bs_LeafVtxos = [sample_op ''t3''], bs_PreconfirmedVtxos = [],
      bs_Txid = ''sweep'', bs_Tx = ''tx'', bs_FullySwept = True\<rparr>]"

theorem sweep_projection_idempotent_witness:
  "fst (project_sweep sample_service 9 sample_sweep_events (fst (project_sweep sample_service 0 sample_sweep_events sample_chain))) =
     fst (project_sweep sample_service 0 sample_sweep_events sample_chain) \<and>
   row_swept (fst (project_sweep sample_service 0 sample_sweep_events sample_chain)) (sample_op ''t3'') (sample_row 10 None)"
proof -
  let ?db = "fst (project_sweep sample_service 0 sample_sweep_events sample_chain)"
  have "snd (project_sweep sample_service 0 sample_sweep_events sample_chain) = Dispatched" by code_simp
  then have run: "project_sweep sample_service 0 sample_sweep_events sample_chain = (?db, Dispatched)"
    by (simp add: prod_eq_iff)
  have d: "distinct (map fst (tbl_vtxo sample_chain))" by code_simp
  have "(sample_op ''t3'', sample_row 10 None) \<in> set (tbl_vtxo sample_chain)" by (simp add: sample_chain_def)
  moreover have "sample_op ''t3'' \<in> set (allSweptVtxos sample_sweep_events)" by code_simp
  ultimately show ?thesis
    using sweep_projection_idempotent [OF run d, of sample_service 9] by auto
qed

definition sample_swept_db :: Db where
  "sample_swept_db = sample_chain\<lparr>tbl_round := [(''id'', round_to_row sample_swept)],
     tbl_tx := [(''c'', \<lparr>tr_tx = ''tx'', tr_round_id = ''id'', tr_type = ''commitment'', tr_position = 0, tr_children = None\<rparr>),
                (''B'', \<lparr>tr_tx = ''B'', tr_round_id = ''id'', tr_type = ''tree'', tr_position = 0, tr_children = None\<rparr>)]\<rparr>"

theorem reconciliation_completes_sweeps_witness:
  "sweepable_outpoints [''c''] (fst (ensureSweptVtxos sample_service 0 sample_swept_db)) = [] \<and>
   sweepable_outpoints [''c''] sample_swept_db = [sample_op ''t1'', sample_op ''t2'', sample_op ''t3'']"
proof -
  have "snd (ensureSweptVtxos sample_service 0 sample_swept_db) = None" by code_simp
  then have run: "ensureSweptVtxos sample_service 0 sample_swept_db = (fst (ensureSweptVtxos sample_service 0 sample_swept_db), None)"
    by (simp add: prod_eq_iff)
  have sw: "GetSweptRounds (s_store sample_service Call_GetSweptRounds) sample_swept_db = Inr [''c'']" by code_simp
  have "sweepable_outpoints [''c''] sample_swept_db = [sample_op ''t1'', sample_op ''t2'', sample_op ''t3'']" by code_simp
  then show ?thesis using reconciliation_completes_sweeps [OF run sw] by simp
qed

text \<open>A batch that settles \<open>t3:0\<close> with a forfeit transaction and creates \<open>B:0\<close>.\<close>

definition sample_settled_vtxo :: Vtxo where
  "sample_settled_vtxo =
     offchain_vtxo sample_service sample_payment [] False [] (sample_op ''t3'') sample_taproot_out"

definition sample_batch :: Round where
  "sample_batch = sample_ended\<lparr>
     rd_Intents := [(''i'', sample_intent\<lparr>int_Id := ''i'', int_Proof := ''proof'', int_Inputs := [sample_settled_vtxo]\<rparr>)],
     rd_ForfeitTxs := [\<lparr>forfeit_Txid = ''f'', forfeit_Tx = ''forfeit''\<rparr>]\<rparr>"

theorem dispatched_batch_settles_and_creates_witness:
  "(\<exists>r. map_of (tbl_vtxo (fst (project_batch sample_service sample_batch sample_chain))) (sample_op ''t3'') = Some r \<and>
      vr_spent r \<and> vr_settled_by r = Some ''txid'') \<and>
   (\<exists>r. map_of (tbl_vtxo (fst (project_batch sample_service sample_batch sample_chain))) (out_op ''B'' 0) = Some r \<and>
      \<not> vr_spent r)"
proof -
  let ?db = "fst (project_batch sample_service sample_batch sample_chain)"
  have "snd (project_batch sample_service sample_batch sample_chain) = Dispatched" by code_simp
  then have run: "project_batch sample_service sample_batch sample_chain = (?db, Dispatched)"
    by (simp add: prod_eq_iff)
  have "case getNewVtxosFromRound sample_service sample_batch of None \<Rightarrow> False
      | Some vs \<Rightarrow> map vtxo_Outpoint vs = [out_op ''B'' 0]" by code_simp
  then obtain vs where vs: "getNewVtxosFromRound sample_service sample_batch = Some vs" "map vtxo_Outpoint vs = [out_op ''B'' 0]"
    by (auto split: option.splits)
  then obtain v where v: "v \<in> set vs" "vtxo_Outpoint v = out_op ''B'' 0" by (cases vs) auto
  have "set (map vtxo_Outpoint vs) = {out_op ''B'' 0}" using vs(2) by simp
  then have notin: "sample_op ''t3'' \<notin> vtxo_Outpoint ` set vs" by (simp add: sample_op_def out_op_def)
  have "sample_op ''t3'' \<in> fst ` set (getSpentVtxoKeysFromRound sample_service sample_batch)" by code_simp
  then have op: "sample_op ''t3'' \<in> settled_inputs sample_service sample_batch" by (simp add: spent_keys_of_round(1))
  have "has_row (tbl_vtxo ?db) (sample_op ''t3'')" by code_simp
  then obtain r where "map_of (tbl_vtxo ?db) (sample_op ''t3'') = Some r"
    by (auto simp: has_row_def dest: weak_map_of_SomeI)
  moreover have "null_string (rd_CommitmentTxid sample_batch) = Some ''txid''" by code_simp
  ultimately show ?thesis
    using dispatched_batch_settles_and_creates [OF run vs(1)] op notin v by fastforce
qed

definition sample_issued_group :: AssetGroup where
  "sample_issued_group = sample_issuance\<lparr>grp_ControlAsset := None, grp_Metadata := []\<rparr>"

definition sample_asset_out :: ports_TxOut where
  "sample_asset_out =
     \<lparr>pout_Amount = 0, pout_PkScript = projr (Extension_Serialize [AssetPacket [sample_issued_group]])\<rparr>"

definition sample_asset_service :: service where
  "sample_asset_service = sample_service\<lparr>s_tok := sample_tokenizer\<rparr>"

definition sample_txid :: string where
  "sample_txid = replicate 64 (CHR ''a'')"

theorem projected_assets_are_validated_assets_witness:
  "\<exists>d. getAssetsDenominations (\<lambda>_. Inr sample_key) [sample_issued_group] sample_txid = Inr d \<and>
     map ast_Amount (denoms_at d 0) = [1000]"
proof -
  have p: "packet_of_outs (s_tok sample_asset_service) [sample_asset_out] = Inr [sample_issued_group]" by code_simp
  have "case getAssetsFromTxOuts sample_asset_service sample_txid [sample_asset_out] of
      Inl _ \<Rightarrow> False | Inr (iss, d) \<Rightarrow> map ast_Amount (denoms_at d 0) = [1000]" by code_simp
  then obtain iss d where d: "getAssetsFromTxOuts sample_asset_service sample_txid [sample_asset_out] = Inr (iss, d)"
    "map ast_Amount (denoms_at d 0) = [1000]" by (auto split: sum.splits)
  from projected_assets_are_validated_assets [OF d(1) p] d(2) show ?thesis
    by (simp add: sample_asset_service_def sample_service_def)
qed

end
