(* ===== verification/Locktime.thy ===== *)
theory Locktime
  imports Go_Bytes
begin

section \<open>Relative lock times\<close>

text \<open>
  \<open>pkg/ark-lib/locktime.go\<close>. The two functions of btcd it calls are arguments:
  \<open>blockchain.LockTimeToSequence\<close> and \<open>txscript.MakeScriptNum\<close>, whose result is an \<open>int64\<close>, kept as
  a 64-bit word. In Go \<open>&\<close> and \<open><<\<close> have the same precedence and associate to the left.
\<close>

unbundle bit_operations_syntax

definition SEQUENCE_LOCKTIME_MASK :: nat where "SEQUENCE_LOCKTIME_MASK = 0xffff"
definition SEQUENCE_LOCKTIME_TYPE_FLAG :: nat where "SEQUENCE_LOCKTIME_TYPE_FLAG = 2 ^ 22"
definition SEQUENCE_LOCKTIME_GRANULARITY :: nat where "SEQUENCE_LOCKTIME_GRANULARITY = 9"
definition SECONDS_MOD :: nat where "SECONDS_MOD = 2 ^ SEQUENCE_LOCKTIME_GRANULARITY"
definition SECONDS_MAX :: nat where
  "SECONDS_MAX = SEQUENCE_LOCKTIME_MASK * 2 ^ SEQUENCE_LOCKTIME_GRANULARITY"
definition SEQUENCE_LOCKTIME_DISABLE_FLAG :: nat where "SEQUENCE_LOCKTIME_DISABLE_FLAG = 2 ^ 31"
definition SECONDS_PER_BLOCK :: int where "SECONDS_PER_BLOCK = 1"
definition MinAllowedSequence :: nat where "MinAllowedSequence = 512"
definition nLocktimeMinSeconds :: nat where "nLocktimeMinSeconds = 500000000"

lemmas locktime_consts =
  SEQUENCE_LOCKTIME_MASK_def SEQUENCE_LOCKTIME_TYPE_FLAG_def SEQUENCE_LOCKTIME_GRANULARITY_def
  SECONDS_MOD_def SECONDS_MAX_def SEQUENCE_LOCKTIME_DISABLE_FLAG_def SECONDS_PER_BLOCK_def
  MinAllowedSequence_def nLocktimeMinSeconds_def

datatype RelativeLocktimeType = LocktimeTypeSecond | LocktimeTypeBlock

definition AbsoluteLocktime_IsSeconds :: "u32 \<Rightarrow> bool" where
  "AbsoluteLocktime_IsSeconds l \<longleftrightarrow> unat l \<ge> nLocktimeMinSeconds"

record RelativeLocktime =
  lt_Type :: RelativeLocktimeType
  lt_Value :: u32

definition RelativeLocktime_Seconds :: "RelativeLocktime \<Rightarrow> int" where
  "RelativeLocktime_Seconds l =
     (if lt_Type l = LocktimeTypeBlock then uint (lt_Value l) * SECONDS_PER_BLOCK
      else uint (lt_Value l))"

definition RelativeLocktime_Compare :: "RelativeLocktime \<Rightarrow> RelativeLocktime \<Rightarrow> int" where
  "RelativeLocktime_Compare l other =
     (let val = RelativeLocktime_Seconds l; otherVal = RelativeLocktime_Seconds other
      in if val = otherVal then 0 else if val < otherVal then -1 else 1)"

definition RelativeLocktime_LessThan :: "RelativeLocktime \<Rightarrow> RelativeLocktime \<Rightarrow> bool" where
  "RelativeLocktime_LessThan l other \<longleftrightarrow> RelativeLocktime_Compare l other < 0"

type_synonym lock_time_to_sequence = "bool \<Rightarrow> u32 \<Rightarrow> u32"
type_synonym make_script_num = "bytes \<Rightarrow> bool \<Rightarrow> nat \<Rightarrow> u64 gores"

definition BIP68Sequence :: "lock_time_to_sequence \<Rightarrow> RelativeLocktime \<Rightarrow> u32 gores" where
  "BIP68Sequence lockTimeToSequence locktime =
     (let value = lt_Value locktime; isSeconds = (lt_Type locktime = LocktimeTypeSecond)
      in guard_err (isSeconds \<and> unat value > SECONDS_MAX) (Errorf ''seconds too large'')
        (guard_err (isSeconds \<and> unat value mod SECONDS_MOD \<noteq> 0)
          (Errorf ''seconds must be a multiple of 512'')
          (Inr (lockTimeToSequence isSeconds value))))"

definition BIP68DecodeSequenceFromBytes :: "make_script_num \<Rightarrow> bytes \<Rightarrow> RelativeLocktime gores" where
  "BIP68DecodeSequenceFromBytes makeScriptNum sequence =
     rbind (makeScriptNum sequence True (length sequence)) (\<lambda>asNumber.
       guard_err (asNumber AND of_nat SEQUENCE_LOCKTIME_DISABLE_FLAG \<noteq> 0)
         (Errorf ''sequence is disabled'')
         (if asNumber AND of_nat SEQUENCE_LOCKTIME_TYPE_FLAG \<noteq> 0
          then Inr \<lparr>lt_Type = LocktimeTypeSecond,
                    lt_Value = ucast (push_bit SEQUENCE_LOCKTIME_GRANULARITY
                                       (asNumber AND of_nat SEQUENCE_LOCKTIME_MASK))\<rparr>
          else Inr \<lparr>lt_Type = LocktimeTypeBlock,
                    lt_Value = ucast (asNumber AND of_nat SEQUENCE_LOCKTIME_MASK)\<rparr>))"

text \<open>The wire constants are \<open>SequenceLockTimeMask\<close>, \<open>SequenceLockTimeDisabled\<close>,
  \<open>SequenceLockTimeIsSeconds\<close> and \<open>SequenceLockTimeGranularity\<close> of BIP 68. The result is the lock
  time, or nil, and whether the lock is disabled.\<close>

definition BIP68DecodeSequence :: "u32 \<Rightarrow> RelativeLocktime option \<times> bool" where
  "BIP68DecodeSequence sequenceNum =
     (let relativeLock = (ucast (sequenceNum AND 0xffff) :: u64)
      in if sequenceNum AND 0x80000000 = 0x80000000 then (None, True)
         else if sequenceNum AND 0x400000 = 0x400000 then
           (Some \<lparr>lt_Type = LocktimeTypeSecond, lt_Value = ucast (push_bit 9 relativeLock - 1)\<rparr>, False)
         else (Some \<lparr>lt_Type = LocktimeTypeBlock, lt_Value = ucast relativeLock\<rparr>, False))"

definition ParseRelativeLocktime :: "u32 \<Rightarrow> RelativeLocktime \<times> bool" where
  "ParseRelativeLocktime value =
     (if unat value < MinAllowedSequence
      then (\<lparr>lt_Type = LocktimeTypeBlock, lt_Value = value\<rparr>, False)
      else let d = value mod of_nat MinAllowedSequence
           in if d \<noteq> 0 then (\<lparr>lt_Type = LocktimeTypeSecond, lt_Value = value - d\<rparr>, True)
              else (\<lparr>lt_Type = LocktimeTypeSecond, lt_Value = value\<rparr>, False))"

subsection \<open>Properties\<close>

lemma parse_value: "unat (lt_Value (fst (ParseRelativeLocktime v))) =
    (if unat v < 512 then unat v else unat v - unat v mod 512)"
proof -
  have d: "unat (v mod 512) = unat v mod 512" by (simp add: unat_mod)
  have "unat (v - v mod 512) = unat v - unat v mod 512"
    using d by (subst unat_sub) (simp_all add: word_le_nat_alt)
  moreover have "v mod 512 = 0 \<Longrightarrow> unat v mod 512 = 0" using d by (metis unat_0)
  ultimately show ?thesis
    by (auto simp: ParseRelativeLocktime_def MinAllowedSequence_def Let_def)
qed

text \<open>a parsed relative lock time rounds down to what BIP 68 can express: values below 512 are
  blocks and kept; others are seconds, rounded down to a multiple of 512 by less than 512, and
  the flag says whether the value changed.\<close>

theorem parse_relative_locktime_rounds:
  "(case ParseRelativeLocktime v of (l, modified) \<Rightarrow>
      (lt_Type l = LocktimeTypeBlock \<longleftrightarrow> unat v < 512) \<and>
      unat (lt_Value l) \<le> unat v \<and> unat v < unat (lt_Value l) + 512 \<and>
      (modified \<longleftrightarrow> lt_Value l \<noteq> v) \<and>
      (unat v < 512 \<or> unat (lt_Value l) mod 512 = 0))"
proof (cases "ParseRelativeLocktime v")
  case (Pair l modified)
  have t: "lt_Type l = LocktimeTypeBlock \<longleftrightarrow> unat v < 512"
    using Pair by (auto simp: ParseRelativeLocktime_def MinAllowedSequence_def Let_def split: if_splits)
  have m: "modified \<longleftrightarrow> lt_Value l \<noteq> v"
    using Pair by (auto simp: ParseRelativeLocktime_def MinAllowedSequence_def Let_def split: if_splits)
  have val: "unat (lt_Value l) = (if unat v < 512 then unat v else unat v - unat v mod 512)"
    using parse_value [of v] Pair by simp
  have "unat v - unat v mod 512 \<le> unat v" "unat v < unat v - unat v mod 512 + 512"
    "(unat v - unat v mod 512) mod 512 = 0"
    by (auto simp: minus_mod_eq_mult_div)
  then show ?thesis using t m val Pair by simp
qed


lemma flag_or_and_mask:
  fixes k :: "'a::len word"
  assumes "unat k < 2 ^ 16" and "22 < LENGTH('a)"
  shows "(2 ^ 22 OR k) AND 0xffff = k" and "(2 ^ 22 OR k) AND 2 ^ 22 = 2 ^ 22"
    and "31 < LENGTH('a) \<Longrightarrow> (2 ^ 22 OR k) AND 2 ^ 31 = 0"
    and "k AND 0xffff = k" and "k AND 2 ^ 22 = 0" and "31 < LENGTH('a) \<Longrightarrow> k AND 2 ^ 31 = 0"
proof -
  have k: "take_bit 16 k = k"
    using assms(1)
    by (intro word_unat_eq_iff [THEN iffD2]) (simp add: unsigned_take_bit_eq take_bit_nat_eq_self)
  have bits: "\<not> bit k n" if "n \<ge> 16" for n
    using that k by (metis bit_take_bit_iff leD)
  have mask: "(0xffff :: 'a word) = mask 16" by (simp add: mask_eq_exp_minus_1)
  define F22 F31 :: "'a word" where "F22 = 2 ^ 22" and "F31 = 2 ^ 31"
  have b22: "bit F22 n \<longleftrightarrow> n = 22" for n
    unfolding F22_def using assms(2) by (auto simp del: power_numeral simp: bit_exp_iff)
  have b31: "bit F31 n \<longleftrightarrow> n = 31" if "31 < LENGTH('a)" for n
    unfolding F31_def using that by (auto simp del: power_numeral simp: bit_exp_iff)
  show "k AND 0xffff = k" unfolding mask using k by (simp add: take_bit_eq_mask)
  show "(2 ^ 22 OR k) AND 0xffff = k"
  proof (rule bit_word_eqI)
    fix n assume "n < LENGTH('a)"
    then show "bit ((2 ^ 22 OR k) AND 0xffff) n = bit k n"
      unfolding mask F22_def [symmetric] using bits [of n]
      by (cases "n < 16") (auto simp: bit_and_iff bit_or_iff b22 bit_mask_iff)
  qed
  show "(2 ^ 22 OR k) AND 2 ^ 22 = 2 ^ 22"
    unfolding F22_def [symmetric] by (intro bit_word_eqI) (auto simp: bit_and_iff bit_or_iff b22)
  show "k AND 2 ^ 22 = 0"
    unfolding F22_def [symmetric] using bits [of 22] by (intro bit_word_eqI) (auto simp: bit_and_iff b22)
  show "(2 ^ 22 OR k) AND 2 ^ 31 = 0" "k AND 2 ^ 31 = 0" if "31 < LENGTH('a)"
    unfolding F22_def [symmetric] F31_def [symmetric] using bits [of 31] that
    by (intro bit_word_eqI; auto simp: bit_and_iff bit_or_iff b22 b31)+
qed

lemma seconds_unit:
  fixes v :: u32
  assumes "unat v \<le> 0xffff * 512" and "unat v mod 512 = 0"
  shows "unat (drop_bit 9 v) < 2 ^ 16" and "push_bit 9 (ucast (drop_bit 9 v) :: u64) = ucast v"
    and "push_bit 9 (drop_bit 9 v) = v"
proof -
  have u: "unat (drop_bit 9 v) = unat v div 512"
    by (simp add: unsigned_drop_bit_eq drop_bit_eq_div unat_div)
  then show "unat (drop_bit 9 v) < 2 ^ 16" using assms(1) by simp
  have v: "unat v div 512 * 512 = unat v" using assms(2) by auto
  have "unat v < 2 ^ LENGTH(32)" by (rule unsigned_less)
  then have lt: "unat v < 18446744073709551616" by simp
  then have t: "take_bit 64 (unat v) = unat v" "take_bit 64 (unat v div 512) = unat v div 512"
    by (auto intro!: take_bit_nat_eq_self)
  have "unat (push_bit 9 (ucast (drop_bit 9 v) :: u64)) = (unat v div 512 * 512) mod 18446744073709551616"
    by (simp add: push_bit_eq_mult unat_word_ariths unsigned_ucast_eq t(2) u)
  also have "\<dots> = unat v" unfolding v using lt by (rule mod_less)
  also have "\<dots> = unat (ucast v :: u64)" by (simp add: unsigned_ucast_eq t(1))
  finally show "push_bit 9 (ucast (drop_bit 9 v) :: u64) = ucast v" by (rule word_unat_eq_iff [THEN iffD2])
  have "unat (push_bit 9 (drop_bit 9 v)) = (unat v div 512 * 512) mod 4294967296"
    by (simp add: push_bit_eq_mult unat_word_ariths u)
  also have "\<dots> = unat v" unfolding v using \<open>unat v < 2 ^ LENGTH(32)\<close> by simp
  finally show "push_bit 9 (drop_bit 9 v) = v" by (rule word_unat_eq_iff [THEN iffD2])
qed

text \<open>What BIP 68 and the btcd documentation say of \<open>LockTimeToSequence\<close>: blocks are the number
  itself, seconds are counted in units of 512 under the type flag.\<close>

definition lock_time_to_sequence_law :: "lock_time_to_sequence \<Rightarrow> bool" where
  "lock_time_to_sequence_law f \<longleftrightarrow> (\<forall>v. f False v = v \<and> f True v = 2 ^ 22 OR drop_bit 9 v)"

lemma ucast_back:
  fixes v :: u32
  shows "(ucast (ucast v :: u64) :: u32) = v" and "(ucast ((ucast v :: u64) - 1) :: u32) = v - 1"
proof -
  show "(ucast (ucast v :: u64) :: u32) = v" by transfer simp
  have "take_bit 32 (take_bit 64 (take_bit 32 a - 1)) = take_bit 32 (a - 1)" for a :: int
    by (simp add: take_bit_eq_mod mod_mod_cancel mod_simps)
  then show "(ucast ((ucast v :: u64) - 1) :: u32) = v - 1" by transfer simp
qed

lemma ucast_flags:
  fixes k :: u32
  assumes "unat k < 2 ^ 16"
  shows "(ucast (2 ^ 22 OR k) :: u64) = 2 ^ 22 OR ucast k" and "unat (ucast k :: u64) < 2 ^ 16"
proof -
  show "(ucast (2 ^ 22 OR k) :: u64) = 2 ^ 22 OR ucast k"
    by (simp add: unsigned_or_eq)
  have "take_bit 64 (unat k) = unat k" using assms by (intro take_bit_nat_eq_self) simp
  then show "unat (ucast k :: u64) < 2 ^ 16" using assms by (simp add: unsigned_ucast_eq)
qed

lemma bip68_decodes:
  assumes "lock_time_to_sequence_law f"
    and "BIP68Sequence f l = Inr s"
    and "lt_Type l = LocktimeTypeBlock \<longrightarrow> unat (lt_Value l) < 2 ^ 16"
    and "msn bs True (length bs) = Inr (ucast s)"
  shows "BIP68DecodeSequenceFromBytes msn bs = Inr l \<and>
    BIP68DecodeSequence s =
      (Some (if lt_Type l = LocktimeTypeBlock then l else l\<lparr>lt_Value := lt_Value l - 1\<rparr>), False)"
proof (cases "lt_Type l")
  case LocktimeTypeBlock
  then have s: "s = lt_Value l" and k: "unat s < 2 ^ 16"
    using assms(1-3) by (auto simp: BIP68Sequence_def guard_err_eq_Inr Let_def lock_time_to_sequence_law_def)
  show ?thesis
    using flag_or_and_mask(4-6) [OF k] flag_or_and_mask(4-6) [OF ucast_flags(2) [OF k]] assms(4)
      LocktimeTypeBlock s ucast_back(1) [of s]
    by (simp add: BIP68DecodeSequenceFromBytes_def BIP68DecodeSequence_def locktime_consts Let_def)
next
  case LocktimeTypeSecond
  let ?k = "drop_bit 9 (lt_Value l)"
  have v: "unat (lt_Value l) \<le> 0xffff * 512" "unat (lt_Value l) mod 512 = 0" and s: "s = 2 ^ 22 OR ?k"
    using assms(1,2) LocktimeTypeSecond
    by (auto simp: BIP68Sequence_def guard_err_eq_Inr Let_def lock_time_to_sequence_law_def locktime_consts)
  note k = seconds_unit [OF v]
  show ?thesis
    using flag_or_and_mask(1-3) [OF k(1)] flag_or_and_mask(1-3) [OF ucast_flags(2) [OF k(1)]] assms(4)
      LocktimeTypeSecond s ucast_flags(1) [OF k(1)] k(2) ucast_back [of "lt_Value l"]
    by (simp add: BIP68DecodeSequenceFromBytes_def BIP68DecodeSequence_def locktime_consts Let_def)
qed

text \<open>a lock time that \<open>BIP68Sequence\<close> encodes, with a block count of at most 16 bits, comes
  back: \<open>BIP68DecodeSequenceFromBytes\<close> gives it back exactly from the script number of the
  sequence, and \<open>BIP68DecodeSequence\<close> gives back blocks exactly and seconds less one (wrapping
  around for zero seconds).\<close>

theorem bip68_sequence_decodes:
  assumes "lock_time_to_sequence_law f"
    and "BIP68Sequence f l = Inr s"
    and "lt_Type l = LocktimeTypeBlock \<longrightarrow> unat (lt_Value l) < 2 ^ 16"
    and "msn bs True (length bs) = Inr (ucast s)"
  shows "BIP68DecodeSequenceFromBytes msn bs = Inr l \<and>
    BIP68DecodeSequence s =
      (Some (if lt_Type l = LocktimeTypeBlock then l else l\<lparr>lt_Value := lt_Value l - 1\<rparr>), False)"
  using assms by (rule bip68_decodes)

definition sample_LockTimeToSequence :: lock_time_to_sequence where
  "sample_LockTimeToSequence isSeconds v = (if isSeconds then 2 ^ 22 OR drop_bit 9 v else v)"

text \<open>Script numbers that are not negative: little-endian bytes.\<close>

definition sample_MakeScriptNum :: make_script_num where
  "sample_MakeScriptNum bs minimal len = Inr (foldr (\<lambda>b n. 256 * n + ucast b) bs 0)"

theorem bip68_sequence_decodes_witness:
  "BIP68DecodeSequenceFromBytes sample_MakeScriptNum [2, 0, 64] =
     Inr \<lparr>lt_Type = LocktimeTypeSecond, lt_Value = 1024\<rparr> \<and>
   BIP68DecodeSequence 0x400002 = (Some \<lparr>lt_Type = LocktimeTypeSecond, lt_Value = 1023\<rparr>, False)"
proof -
  let ?l = "\<lparr>lt_Type = LocktimeTypeSecond, lt_Value = 1024\<rparr>"
  have "lock_time_to_sequence_law sample_LockTimeToSequence"
    by (simp add: lock_time_to_sequence_law_def sample_LockTimeToSequence_def)
  moreover have "BIP68Sequence sample_LockTimeToSequence ?l = Inr 0x400002"
    by (simp add: BIP68Sequence_def sample_LockTimeToSequence_def locktime_consts)
  moreover have "sample_MakeScriptNum [2, 0, 64] True (length [2, 0, 64 :: u8]) = Inr (ucast (0x400002 :: u32))"
    by (simp add: sample_MakeScriptNum_def)
  ultimately show ?thesis
    using bip68_sequence_decodes [where f = sample_LockTimeToSequence and l = ?l and s = "0x400002"
        and msn = sample_MakeScriptNum and bs = "[2, 0, 64]"]
    by simp
qed

end
