(* ===== verification/Cel_Programs.thy ===== *)
theory Cel_Programs
  imports Go_Bytes
begin

section \<open>Operator programs\<close>

text \<open>
  The parts of \<open>pkg/ark-lib/arkfee/estimator.go\<close> and \<open>internal/core/domain/batchtrigger/trigger.go\<close>
  that the settings rely on: parsing the operator's CEL programs, and asking the batch trigger.
  The CEL library is third-party code: an environment is a record of its \<open>Compile\<close> (with the
  output type of the program it compiled), \<open>Program\<close> and the evaluation of a program to a Go
  bool. The four environments of \<open>arkfee\<close> and the one of \<open>batchtrigger\<close> are the fields of
  \<open>cel_envs\<close>.
\<close>

datatype cel_type = BoolType | DoubleType | OtherType string

record cel_ast =
  ast_source :: string
  ast_OutputType :: cel_type

record ('ctx, 'p) cel_env =
  env_Compile :: "string \<Rightarrow> cel_ast gores"
  env_Program :: "cel_ast \<Rightarrow> 'p gores"
  env_EvalBool :: "'p \<Rightarrow> 'ctx \<Rightarrow> bool gores"

record TriggerContext =
  ctx_IntentsCount :: int
  ctx_CurrentFeerate :: u64
  ctx_TimeSinceLastBatch :: int
  ctx_BoardingInputsCount :: int
  ctx_TotalBoardingAmount :: u64
  ctx_TotalIntentFees :: u64

record 'p cel_envs =
  IntentOffchainInputEnv :: "(unit, 'p) cel_env"
  IntentOnchainInputEnv :: "(unit, 'p) cel_env"
  IntentOutputEnv :: "(unit, 'p) cel_env"
  BatchTriggerEnv :: "(TriggerContext, 'p) cel_env"

subsection \<open>Fee programs\<close>

record 'p program =
  prg_Program :: 'p
  prg_txt :: string

definition arkfee_Parse :: "('c, 'p) cel_env \<Rightarrow> string \<Rightarrow> 'p program gores" where
  "arkfee_Parse env txt =
     rbind (env_Compile env txt) (\<lambda>ast.
       guard_err (ast_OutputType ast \<noteq> DoubleType) (Errorf ''expected return type double'')
         (rbind (env_Program env ast) (\<lambda>prg. Inr \<lparr>prg_Program = prg, prg_txt = txt\<rparr>)))"

record fee_Config =
  cfg_IntentOffchainInputProgram :: string
  cfg_IntentOnchainInputProgram :: string
  cfg_IntentOffchainOutputProgram :: string
  cfg_IntentOnchainOutputProgram :: string

record 'p Estimator =
  est_intentOffchainInput :: "'p program option"
  est_intentOnchainInput :: "'p program option"
  est_intentOffchainOutput :: "'p program option"
  est_intentOnchainOutput :: "'p program option"

definition parse_if_set :: "('c, 'p) cel_env \<Rightarrow> string \<Rightarrow> string \<Rightarrow> 'p program option gores" where
  "parse_if_set env what txt =
     (if length txt > 0
      then (case arkfee_Parse env txt of
              Inl err \<Rightarrow> Inl (Errorw (''failed to evaluate batch '' @ what @ '' program: '') err)
            | Inr program \<Rightarrow> Inr (Some program))
      else Inr None)"

definition arkfee_New :: "'p cel_envs \<Rightarrow> fee_Config \<Rightarrow> 'p Estimator gores" where
  "arkfee_New envs config =
     rbind (parse_if_set (IntentOffchainInputEnv envs) ''offchain input''
              (cfg_IntentOffchainInputProgram config)) (\<lambda>p1.
     rbind (parse_if_set (IntentOnchainInputEnv envs) ''onchain input''
              (cfg_IntentOnchainInputProgram config)) (\<lambda>p2.
     rbind (parse_if_set (IntentOutputEnv envs) ''offchain output''
              (cfg_IntentOffchainOutputProgram config)) (\<lambda>p3.
     rbind (parse_if_set (IntentOutputEnv envs) ''onchain output''
              (cfg_IntentOnchainOutputProgram config)) (\<lambda>p4.
       Inr \<lparr>est_intentOffchainInput = p1, est_intentOnchainInput = p2,
            est_intentOffchainOutput = p3, est_intentOnchainOutput = p4\<rparr>))))"

lemma arkfee_New_empty:
  "arkfee_New envs \<lparr>cfg_IntentOffchainInputProgram = [], cfg_IntentOnchainInputProgram = [],
     cfg_IntentOffchainOutputProgram = [], cfg_IntentOnchainOutputProgram = []\<rparr> =
   Inr \<lparr>est_intentOffchainInput = None, est_intentOnchainInput = None,
        est_intentOffchainOutput = None, est_intentOnchainOutput = None\<rparr>"
  by (simp add: arkfee_New_def parse_if_set_def)

subsection \<open>The batch trigger\<close>

record 'p Trigger =
  trg_program :: 'p
  trg_txt :: string

definition trigger_parse :: "('c, 'p) cel_env \<Rightarrow> string \<Rightarrow> 'p Trigger gores" where
  "trigger_parse env txt =
     rbind (env_Compile env txt) (\<lambda>ast.
       guard_err (ast_OutputType ast \<noteq> BoolType) (Errorf ''expected return type bool'')
         (rbind (env_Program env ast) (\<lambda>prg. Inr \<lparr>trg_program = prg, trg_txt = txt\<rparr>)))"

definition batchtrigger_New :: "('c, 'p) cel_env \<Rightarrow> string \<Rightarrow> 'p Trigger option gores" where
  "batchtrigger_New env program =
     (if program = [] then Inr None else rbind (trigger_parse env program) (\<lambda>t. Inr (Some t)))"

definition Trigger_Source :: "'p Trigger option \<Rightarrow> string" where
  "Trigger_Source t = (case t of None \<Rightarrow> [] | Some t \<Rightarrow> trg_txt t)"

text \<open>\<open>Eval\<close> reads the program of its receiver: on a nil trigger it panics, which is \<open>None\<close>.\<close>

definition Trigger_Eval ::
    "('c, 'p) cel_env \<Rightarrow> 'p Trigger option \<Rightarrow> 'c \<Rightarrow> bool gores option" where
  "Trigger_Eval env t ctx = map_option (\<lambda>t. env_EvalBool env (trg_program t) ctx) t"

end
