(* ===== verification/Domain_Settings.thy ===== *)
theory Domain_Settings
  imports Complex_Main Extension Locktime Go_Time Cel_Programs
begin

section \<open>Server settings\<close>

text \<open>
  \<open>internal/core/domain\<close>: \<open>settings.go\<close>, \<open>scheduled_session.go\<close>, \<open>fees.go\<close>. A duration is an \<open>int64\<close>
  number of nanoseconds (\<open>Go_Time\<close>), a \<open>time.Time\<close> the number of nanoseconds since the Unix
  epoch. A \<open>float32\<close> is NaN, an infinity or a rational; the one product the code takes of it is
  exact in \<open>float64\<close> for every weight that validation admits. A nil field of an update is \<open>None\<close>.
  The clock, the CEL environments and the hash parser are arguments.

  The locale \<open>validated_update\<close> is the contract that the three update operations share: the update
  is applied to a copy, the copy is validated, and only a valid copy replaces the receiver.
\<close>

locale validated_update =
  fixes validate :: "'s \<Rightarrow> unit gores"
    and apply_update :: "'u \<Rightarrow> 's \<Rightarrow> 's"
    and update :: "'u \<Rightarrow> 's \<Rightarrow> 's gores"
  assumes update_ok: "validate (apply_update u s) = Inr () \<Longrightarrow> update u s = Inr (apply_update u s)"
    and update_error: "validate (apply_update u s) = Inl e \<Longrightarrow> update u s = Inl e"
begin

lemma update_Inr: "update u s = Inr s' \<longleftrightarrow> validate s' = Inr () \<and> s' = apply_update u s"
  using update_ok [of u s] update_error [of u s] by (cases "validate (apply_update u s)") auto

lemma update_Inl: "update u s = Inl e \<longleftrightarrow> validate (apply_update u s) = Inl e"
  using update_ok [of u s] update_error [of u s] by (cases "validate (apply_update u s)") auto

text \<open>The receiver after a call: an update that fails leaves it alone.\<close>

definition commit :: "'s \<Rightarrow> 'u \<Rightarrow> 's" where
  "commit s u = (case update u s of Inl _ \<Rightarrow> s | Inr s' \<Rightarrow> s')"

lemma commit_valid: "validate s = Inr () \<Longrightarrow> validate (commit s u) = Inr ()"
  by (auto simp: commit_def update_Inr split: sum.splits)

lemma commits_valid: "validate s = Inr () \<Longrightarrow> validate (foldl commit s us) = Inr ()"
  by (induction us arbitrary: s) (auto simp: commit_valid)

end

subsection \<open>Optional fields\<close>

definition upd :: "'a option \<Rightarrow> ('a \<Rightarrow> 's \<Rightarrow> 's) \<Rightarrow> 's \<Rightarrow> 's" where
  "upd o_field setter s = (case o_field of None \<Rightarrow> s | Some v \<Rightarrow> setter v s)"

definition logged :: "'a option \<Rightarrow> string \<Rightarrow> string list" where
  "logged o_field name = (if o_field = None then [] else [name])"

definition given :: "'a \<Rightarrow> 'a option \<Rightarrow> 'a" where
  "given old o_field = (case o_field of None \<Rightarrow> old | Some v \<Rightarrow> v)"

subsection \<open>Scheduled sessions\<close>

text \<open>The zero \<open>time.Time\<close>: January 1 of year 1.\<close>

definition zero_time :: int where
  "zero_time = - 62135596800 * 1000000000"

text \<open>\<open>t.Sub(u)\<close> saturates at the largest and smallest durations.\<close>

definition time_Sub :: "int \<Rightarrow> int \<Rightarrow> int" where
  "time_Sub t u = max (- (2 ^ 63)) (min (2 ^ 63 - 1) (t - u))"

record ScheduledSession =
  ss_StartTime :: int
  ss_EndTime :: int
  ss_Period :: int
  ss_Duration :: int
  ss_RoundMinParticipantsCount :: int
  ss_RoundMaxParticipantsCount :: int

record ScheduledSessionUpdate =
  ssu_StartTime :: "int option"
  ssu_EndTime :: "int option"
  ssu_Period :: "int option"
  ssu_Duration :: "int option"
  ssu_RoundMinParticipantsCount :: "int option"
  ssu_RoundMaxParticipantsCount :: "int option"

definition zero_ScheduledSession :: ScheduledSession where
  "zero_ScheduledSession =
     \<lparr>ss_StartTime = zero_time, ss_EndTime = zero_time, ss_Period = 0, ss_Duration = 0,
      ss_RoundMinParticipantsCount = 0, ss_RoundMaxParticipantsCount = 0\<rparr>"

definition ScheduledSession_IsEmpty :: "ScheduledSession \<Rightarrow> bool" where
  "ScheduledSession_IsEmpty s \<longleftrightarrow>
     ss_StartTime s = zero_time \<and> ss_EndTime s = zero_time \<and> ss_Period s = 0 \<and> ss_Duration s = 0 \<and>
     ss_RoundMinParticipantsCount s = 0 \<and> ss_RoundMaxParticipantsCount s = 0"

definition ScheduledSession_Validate :: "int \<Rightarrow> ScheduledSession \<Rightarrow> unit gores" where
  "ScheduledSession_Validate now s =
     (if ScheduledSession_IsEmpty s then Inr ()
      else
        guard_err (ss_StartTime s = zero_time) (Errorf ''missing start time'')
        (guard_err (ss_EndTime s = zero_time) (Errorf ''missing end time'')
        (guard_err (\<not> ss_StartTime s > now) (Errorf ''start time must be in the future'')
        (guard_err (\<not> ss_StartTime s < ss_EndTime s) (Errorf ''start time must be before end time'')
        (guard_err (ss_Period s \<le> 0) (Errorf ''missing period'')
        (guard_err (time_Sub (ss_EndTime s) (ss_StartTime s) > ss_Period s)
           (Errorf ''period must be at least end - start'') (Inr ())))))))"

definition NewScheduledSession ::
    "int \<Rightarrow> int \<Rightarrow> int \<Rightarrow> int \<Rightarrow> int \<Rightarrow> int \<Rightarrow> int \<Rightarrow> ScheduledSession gores" where
  "NewScheduledSession now startTime endTime period duration roundMin roundMax =
     (let session = \<lparr>ss_StartTime = startTime, ss_EndTime = endTime, ss_Period = period,
            ss_Duration = duration, ss_RoundMinParticipantsCount = roundMin,
            ss_RoundMaxParticipantsCount = roundMax\<rparr>
      in rbind (ScheduledSession_Validate now session) (\<lambda>_. Inr session))"

definition apply_ScheduledSessionUpdate ::
    "ScheduledSessionUpdate \<Rightarrow> ScheduledSession \<Rightarrow> ScheduledSession" where
  "apply_ScheduledSessionUpdate u s =
     upd (ssu_RoundMaxParticipantsCount u) (\<lambda>v s. s\<lparr>ss_RoundMaxParticipantsCount := v\<rparr>)
     (upd (ssu_RoundMinParticipantsCount u) (\<lambda>v s. s\<lparr>ss_RoundMinParticipantsCount := v\<rparr>)
     (upd (ssu_Duration u) (\<lambda>v s. s\<lparr>ss_Duration := v\<rparr>)
     (upd (ssu_Period u) (\<lambda>v s. s\<lparr>ss_Period := v\<rparr>)
     (upd (ssu_EndTime u) (\<lambda>v s. s\<lparr>ss_EndTime := v\<rparr>)
     (upd (ssu_StartTime u) (\<lambda>v s. s\<lparr>ss_StartTime := v\<rparr>) s)))))"

definition ScheduledSession_Update ::
    "int \<Rightarrow> ScheduledSessionUpdate \<Rightarrow> ScheduledSession \<Rightarrow> ScheduledSession gores" where
  "ScheduledSession_Update now u s =
     (let updated = apply_ScheduledSessionUpdate u s
      in rbind (ScheduledSession_Validate now updated) (\<lambda>_. Inr updated))"

interpretation scheduled_session:
  validated_update "ScheduledSession_Validate now" apply_ScheduledSessionUpdate "ScheduledSession_Update now"
  for now
  by unfold_locales (simp_all add: ScheduledSession_Update_def)

subsection \<open>Batch fees\<close>

record BatchFees =
  bf_OnchainInputFee :: string
  bf_OffchainInputFee :: string
  bf_OnchainOutputFee :: string
  bf_OffchainOutputFee :: string

record BatchFeesUpdate =
  bfu_OnchainInputFee :: "string option"
  bfu_OffchainInputFee :: "string option"
  bfu_OnchainOutputFee :: "string option"
  bfu_OffchainOutputFee :: "string option"

definition zero_BatchFees :: BatchFees where
  "zero_BatchFees = \<lparr>bf_OnchainInputFee = [], bf_OffchainInputFee = [], bf_OnchainOutputFee = [],
     bf_OffchainOutputFee = []\<rparr>"

definition BatchFees_Validate :: "'p cel_envs \<Rightarrow> BatchFees \<Rightarrow> unit gores" where
  "BatchFees_Validate envs f =
     rbind (arkfee_New envs
       \<lparr>cfg_IntentOffchainInputProgram = bf_OffchainInputFee f,
        cfg_IntentOnchainInputProgram = bf_OnchainInputFee f,
        cfg_IntentOffchainOutputProgram = bf_OffchainOutputFee f,
        cfg_IntentOnchainOutputProgram = bf_OnchainOutputFee f\<rparr>) (\<lambda>_. Inr ())"

definition NewBatchFees ::
    "'p cel_envs \<Rightarrow> string \<Rightarrow> string \<Rightarrow> string \<Rightarrow> string \<Rightarrow> BatchFees gores" where
  "NewBatchFees envs onchainInputFee offchainInputFee onchainOutputFee offchainOutputFee =
     (let fees = \<lparr>bf_OnchainInputFee = onchainInputFee, bf_OffchainInputFee = offchainInputFee,
            bf_OnchainOutputFee = onchainOutputFee, bf_OffchainOutputFee = offchainOutputFee\<rparr>
      in rbind (BatchFees_Validate envs fees) (\<lambda>_. Inr fees))"

definition apply_BatchFeesUpdate :: "BatchFeesUpdate \<Rightarrow> BatchFees \<Rightarrow> BatchFees" where
  "apply_BatchFeesUpdate u f =
     upd (bfu_OffchainOutputFee u) (\<lambda>v f. f\<lparr>bf_OffchainOutputFee := v\<rparr>)
     (upd (bfu_OnchainOutputFee u) (\<lambda>v f. f\<lparr>bf_OnchainOutputFee := v\<rparr>)
     (upd (bfu_OffchainInputFee u) (\<lambda>v f. f\<lparr>bf_OffchainInputFee := v\<rparr>)
     (upd (bfu_OnchainInputFee u) (\<lambda>v f. f\<lparr>bf_OnchainInputFee := v\<rparr>) f)))"

definition BatchFees_Update :: "'p cel_envs \<Rightarrow> BatchFeesUpdate \<Rightarrow> BatchFees \<Rightarrow> BatchFees gores" where
  "BatchFees_Update envs u f =
     (let updated = apply_BatchFeesUpdate u f
      in rbind (BatchFees_Validate envs updated) (\<lambda>_. Inr updated))"

interpretation batch_fees:
  validated_update "BatchFees_Validate envs" apply_BatchFeesUpdate "BatchFees_Update envs"
  for envs
  by unfold_locales (simp_all add: BatchFees_Update_def)


subsection \<open>Floating-point ratios\<close>

datatype go_float = FNaN | FPosInf | FNegInf | FNum rat

definition float_le :: "go_float \<Rightarrow> rat \<Rightarrow> bool" where
  "float_le f c \<longleftrightarrow> (case f of FNaN \<Rightarrow> False | FPosInf \<Rightarrow> False | FNegInf \<Rightarrow> True | FNum x \<Rightarrow> x \<le> c)"

definition float_ge :: "go_float \<Rightarrow> rat \<Rightarrow> bool" where
  "float_ge f c \<longleftrightarrow> (case f of FNaN \<Rightarrow> False | FPosInf \<Rightarrow> True | FNegInf \<Rightarrow> False | FNum x \<Rightarrow> x \<ge> c)"

subsection \<open>Settings\<close>

definition bitcoinBlockWeight :: nat where "bitcoinBlockWeight = 4000000"
definition minSessionDuration :: int where "minSessionDuration = 2 * time_Second"
definition minBanDuration :: int where "minBanDuration = 1 * time_Second"
definition MaxInt64 :: int where "MaxInt64 = 2 ^ 63 - 1"

record Settings =
  set_FinalizationLockTTL :: int
  set_SessionDuration :: int
  set_UnrolledVtxoMinExpiryMargin :: int
  set_BanThreshold :: u64
  set_BanDuration :: int
  set_UnilateralExitDelay :: RelativeLocktime
  set_PublicUnilateralExitDelay :: RelativeLocktime
  set_CheckpointExitDelay :: RelativeLocktime
  set_BoardingExitDelay :: RelativeLocktime
  set_VtxoTreeExpiry :: RelativeLocktime
  set_RoundMinParticipantsCount :: int
  set_RoundMaxParticipantsCount :: int
  set_VtxoMinAmount :: int
  set_VtxoMaxAmount :: int
  set_UtxoMinAmount :: int
  set_UtxoMaxAmount :: int
  set_SettlementMinExpiryGap :: int
  set_VtxoNoCsvValidationCutoffDate :: int
  set_MaxTxWeight :: u64
  set_MaxOpReturnOutputs :: u64
  set_AssetTxMaxWeightRatio :: go_float
  set_NoteUriPrefix :: string
  set_ScheduledSession :: "ScheduledSession option"
  set_BatchFees :: BatchFees
  set_BuildVersionHeader :: string
  set_BuildVersionHeaderRequired :: bool
  set_DigestHeaderRequired :: bool
  set_BatchTrigger :: string
  set_UpdatedAt :: int

record SettingsUpdate =
  u_FinalizationLockTTL :: "int option"
  u_SessionDuration :: "int option"
  u_UnrolledVtxoMinExpiryMargin :: "int option"
  u_BanThreshold :: "u64 option"
  u_BanDuration :: "int option"
  u_UnilateralExitDelay :: "RelativeLocktime option"
  u_PublicUnilateralExitDelay :: "RelativeLocktime option"
  u_CheckpointExitDelay :: "RelativeLocktime option"
  u_BoardingExitDelay :: "RelativeLocktime option"
  u_VtxoTreeExpiry :: "RelativeLocktime option"
  u_RoundMinParticipantsCount :: "int option"
  u_RoundMaxParticipantsCount :: "int option"
  u_VtxoMinAmount :: "int option"
  u_VtxoMaxAmount :: "int option"
  u_UtxoMinAmount :: "int option"
  u_UtxoMaxAmount :: "int option"
  u_SettlementMinExpiryGap :: "int option"
  u_VtxoNoCsvValidationCutoffDate :: "int option"
  u_MaxTxWeight :: "u64 option"
  u_MaxOpReturnOutputs :: "u64 option"
  u_AssetTxMaxWeightRatio :: "go_float option"
  u_NoteUriPrefix :: "string option"
  u_BuildVersionHeader :: "string option"
  u_BuildVersionHeaderRequired :: "bool option"
  u_DigestHeaderRequired :: "bool option"
  u_BatchTrigger :: "string option"

definition trigger_ok :: "'p cel_envs \<Rightarrow> string \<Rightarrow> unit gores" where
  "trigger_ok envs txt =
     (case batchtrigger_New (BatchTriggerEnv envs) txt of
        Inl err \<Rightarrow> Inl (Errorw ''invalid batch trigger program: '' err)
      | Inr _ \<Rightarrow> Inr ())"

definition Settings_Validate :: "'p cel_envs \<Rightarrow> Settings \<Rightarrow> unit gores" where
  "Settings_Validate envs s =
     guard_err (set_FinalizationLockTTL s \<le> 0) (Errorf ''finalization lock TTL must be positive'')
     (guard_err (set_FinalizationLockTTL s mod time_Second \<noteq> 0)
       (Errorf ''finalization lock TTL must be a whole number of seconds'')
     (guard_err (set_SessionDuration s < minSessionDuration) (Errorf ''invalid session duration'')
     (guard_err (set_UnrolledVtxoMinExpiryMargin s < 0)
       (Errorf ''invalid unrolled vtxo min expiry margin, must not be negative'')
     (guard_err (set_UnrolledVtxoMinExpiryMargin s < set_SessionDuration s)
       (Errorf ''invalid unrolled vtxo min expiry margin, must be at least session duration'')
     (guard_err (uint (set_BanThreshold s) > MaxInt64) (Errorf ''invalid ban threshold, must not be negative'')
     (guard_err (set_BanThreshold s > 0 \<and> set_BanDuration s < minBanDuration) (Errorf ''invalid ban duration'')
     (guard_err (lt_Type (set_CheckpointExitDelay s) \<noteq> lt_Type (set_VtxoTreeExpiry s))
       (Errorf ''checkpoint exit delay and vtxo tree expiry type mismatch'')
     (guard_err (lt_Type (set_UnilateralExitDelay s) \<noteq> lt_Type (set_VtxoTreeExpiry s))
       (Errorf ''unilateral exit delay and vtxo tree expiry type mismatch'')
     (guard_err (lt_Type (set_BoardingExitDelay s) \<noteq> lt_Type (set_VtxoTreeExpiry s))
       (Errorf ''boarding exit delay and vtxo tree expiry type mismatch'')
     (guard_err (lt_Type (set_PublicUnilateralExitDelay s) \<noteq> lt_Type (set_UnilateralExitDelay s))
       (Errorf ''public unilateral exit delay and unilateral exit delay must have the same type'')
     (guard_err (lt_Value (set_VtxoTreeExpiry s) \<le> 0) (Errorf ''vtxo tree expiry value must be greater than 0'')
     (guard_err (lt_Value (set_UnilateralExitDelay s) = lt_Value (set_BoardingExitDelay s))
       (Errorf ''unilateral exit delay and boarding exit delay must be different'')
     (guard_err (lt_Value (set_PublicUnilateralExitDelay s) > 0 \<and>
                 lt_Value (set_PublicUnilateralExitDelay s) < lt_Value (set_UnilateralExitDelay s))
       (Errorf ''public unilateral exit delay must be greater than or equal to unilateral exit delay'')
     (guard_err (set_VtxoMinAmount s = 0) (Errorf ''vtxo min amount must be greater than 0'')
     (guard_err (set_UtxoMinAmount s = 0) (Errorf ''utxo min amount must be greater than 0'')
     (guard_err (set_VtxoMaxAmount s > 0 \<and> set_VtxoMinAmount s > 0 \<and> set_VtxoMaxAmount s < set_VtxoMinAmount s)
       (Errorf ''vtxo max amount must be greater than or equal to min amount'')
     (guard_err (set_UtxoMaxAmount s > 0 \<and> set_UtxoMinAmount s > 0 \<and> set_UtxoMaxAmount s < set_UtxoMinAmount s)
       (Errorf ''utxo max amount must be greater than or equal to min amount'')
     (guard_err (set_MaxTxWeight s = 0) (Errorf ''max tx weight must be greater than 0'')
     (guard_err (unat (set_MaxTxWeight s) > bitcoinBlockWeight)
       (Errorf ''max tx weight can't exceed bitcoin block weight'')
     (guard_err (set_MaxOpReturnOutputs s = 0) (Errorf ''max op return outputs must be greater than 0'')
     (guard_err (float_le (set_AssetTxMaxWeightRatio s) 0 \<or> float_ge (set_AssetTxMaxWeightRatio s) 1)
       (Errorf ''asset tx max weight ratio must be in range (0, 1)'')
     (guard_err (set_RoundMinParticipantsCount s < 1) (Errorf ''batch min participants count must be at least 1'')
     (guard_err (set_RoundMaxParticipantsCount s < set_RoundMinParticipantsCount s)
       (Errorf ''batch max participants count must be >= min participants count'')
     (guard_err (set_BuildVersionHeaderRequired s \<and> length (set_BuildVersionHeader s) \<le> 0)
       (Errorf ''build version header is required but no version is set'')
       (trigger_ok envs (set_BatchTrigger s))))))))))))))))))))))))))"

text \<open>The parameters of \<open>NewSettings\<close>, by name.\<close>

record NewSettings_args =
  arg_sessionDuration :: int
  arg_unrolledVtxoMinExpiryMargin :: int
  arg_banThreshold :: int
  arg_banDuration :: int
  arg_finalizationLockTTL :: int
  arg_settlementMinExpiryGap :: int
  arg_vtxoNoCsvValidationCutoffDate :: int
  arg_roundMinParticipantsCount :: int
  arg_roundMaxParticipantsCount :: int
  arg_vtxoMinAmount :: int
  arg_vtxoMaxAmount :: int
  arg_utxoMinAmount :: int
  arg_utxoMaxAmount :: int
  arg_unilateralExitDelay :: RelativeLocktime
  arg_publicUnilateralExitDelay :: RelativeLocktime
  arg_checkpointExitDelay :: RelativeLocktime
  arg_boardingExitDelay :: RelativeLocktime
  arg_vtxoTreeExpiry :: RelativeLocktime
  arg_maxTxWeight :: u64
  arg_maxOpReturnOutputs :: u64
  arg_assetTxMaxWeightRatio :: go_float
  arg_noteUriPrefix :: string
  arg_minVersionAccepted :: string
  arg_minVersionRequired :: bool
  arg_digestHeaderRequired :: bool
  arg_batchTrigger :: string

definition NewSettings :: "'p cel_envs \<Rightarrow> int \<Rightarrow> NewSettings_args \<Rightarrow> Settings gores" where
  "NewSettings envs now a =
     guard_err (arg_finalizationLockTTL a \<le> 0) (Errorf ''finalization lock TTL must be positive'')
     (guard_err (arg_finalizationLockTTL a > MaxInt64 div time_Second)
       (Errorf ''finalization lock TTL is too large'')
       (let settings =
          \<lparr>set_FinalizationLockTTL = duration_of_secs (arg_finalizationLockTTL a),
           set_SessionDuration = duration_of_secs (arg_sessionDuration a),
           set_UnrolledVtxoMinExpiryMargin = duration_of_secs (arg_unrolledVtxoMinExpiryMargin a),
           set_BanThreshold = word_of_int (arg_banThreshold a),
           set_BanDuration = duration_of_secs (arg_banDuration a),
           set_UnilateralExitDelay = arg_unilateralExitDelay a,
           set_PublicUnilateralExitDelay = arg_publicUnilateralExitDelay a,
           set_CheckpointExitDelay = arg_checkpointExitDelay a,
           set_BoardingExitDelay = arg_boardingExitDelay a,
           set_VtxoTreeExpiry = arg_vtxoTreeExpiry a,
           set_RoundMinParticipantsCount = arg_roundMinParticipantsCount a,
           set_RoundMaxParticipantsCount = arg_roundMaxParticipantsCount a,
           set_VtxoMinAmount = arg_vtxoMinAmount a,
           set_VtxoMaxAmount = arg_vtxoMaxAmount a,
           set_UtxoMinAmount = arg_utxoMinAmount a,
           set_UtxoMaxAmount = arg_utxoMaxAmount a,
           set_SettlementMinExpiryGap = duration_of_secs (arg_settlementMinExpiryGap a),
           set_VtxoNoCsvValidationCutoffDate = arg_vtxoNoCsvValidationCutoffDate a * time_Second,
           set_MaxTxWeight = arg_maxTxWeight a,
           set_MaxOpReturnOutputs = arg_maxOpReturnOutputs a,
           set_AssetTxMaxWeightRatio = arg_assetTxMaxWeightRatio a,
           set_NoteUriPrefix = arg_noteUriPrefix a,
           set_ScheduledSession = None,
           set_BatchFees = zero_BatchFees,
           set_BuildVersionHeader = arg_minVersionAccepted a,
           set_BuildVersionHeaderRequired = arg_minVersionRequired a,
           set_DigestHeaderRequired = arg_digestHeaderRequired a,
           set_BatchTrigger = arg_batchTrigger a,
           set_UpdatedAt = now\<rparr>
        in rbind (Settings_Validate envs settings) (\<lambda>_. Inr settings)))"

text \<open>The assignments of \<open>Update\<close> to the copy, last one outermost, and the changelog.\<close>

definition apply_SettingsUpdate :: "SettingsUpdate \<Rightarrow> Settings \<Rightarrow> Settings" where
  "apply_SettingsUpdate u s =
     upd (u_BatchTrigger u) (\<lambda>v s. s\<lparr>set_BatchTrigger := v\<rparr>)
     (upd (u_DigestHeaderRequired u) (\<lambda>v s. s\<lparr>set_DigestHeaderRequired := v\<rparr>)
     (upd (u_BuildVersionHeaderRequired u) (\<lambda>v s. s\<lparr>set_BuildVersionHeaderRequired := v\<rparr>)
     (upd (u_BuildVersionHeader u) (\<lambda>v s. s\<lparr>set_BuildVersionHeader := v\<rparr>)
     (upd (u_NoteUriPrefix u) (\<lambda>v s. s\<lparr>set_NoteUriPrefix := v\<rparr>)
     (upd (u_AssetTxMaxWeightRatio u) (\<lambda>v s. s\<lparr>set_AssetTxMaxWeightRatio := v\<rparr>)
     (upd (u_MaxOpReturnOutputs u) (\<lambda>v s. s\<lparr>set_MaxOpReturnOutputs := v\<rparr>)
     (upd (u_MaxTxWeight u) (\<lambda>v s. s\<lparr>set_MaxTxWeight := v\<rparr>)
     (upd (u_VtxoNoCsvValidationCutoffDate u) (\<lambda>v s. s\<lparr>set_VtxoNoCsvValidationCutoffDate := v\<rparr>)
     (upd (u_SettlementMinExpiryGap u) (\<lambda>v s. s\<lparr>set_SettlementMinExpiryGap := v\<rparr>)
     (upd (u_UtxoMaxAmount u) (\<lambda>v s. s\<lparr>set_UtxoMaxAmount := v\<rparr>)
     (upd (u_UtxoMinAmount u) (\<lambda>v s. s\<lparr>set_UtxoMinAmount := v\<rparr>)
     (upd (u_VtxoMaxAmount u) (\<lambda>v s. s\<lparr>set_VtxoMaxAmount := v\<rparr>)
     (upd (u_VtxoMinAmount u) (\<lambda>v s. s\<lparr>set_VtxoMinAmount := v\<rparr>)
     (upd (u_RoundMinParticipantsCount u) (\<lambda>v s. s\<lparr>set_RoundMinParticipantsCount := v\<rparr>)
     (upd (u_RoundMaxParticipantsCount u) (\<lambda>v s. s\<lparr>set_RoundMaxParticipantsCount := v\<rparr>)
     (upd (u_VtxoTreeExpiry u) (\<lambda>v s. s\<lparr>set_VtxoTreeExpiry := v\<rparr>)
     (upd (u_BoardingExitDelay u) (\<lambda>v s. s\<lparr>set_BoardingExitDelay := v\<rparr>)
     (upd (u_CheckpointExitDelay u) (\<lambda>v s. s\<lparr>set_CheckpointExitDelay := v\<rparr>)
     (upd (u_PublicUnilateralExitDelay u) (\<lambda>v s. s\<lparr>set_PublicUnilateralExitDelay := v\<rparr>)
     (upd (u_UnilateralExitDelay u) (\<lambda>v s. s\<lparr>set_UnilateralExitDelay := v\<rparr>)
     (upd (u_BanDuration u) (\<lambda>v s. s\<lparr>set_BanDuration := v\<rparr>)
     (upd (u_BanThreshold u) (\<lambda>v s. s\<lparr>set_BanThreshold := v\<rparr>)
     (upd (u_UnrolledVtxoMinExpiryMargin u) (\<lambda>v s. s\<lparr>set_UnrolledVtxoMinExpiryMargin := v\<rparr>)
     (upd (u_SessionDuration u) (\<lambda>v s. s\<lparr>set_SessionDuration := v\<rparr>)
     (upd (u_FinalizationLockTTL u) (\<lambda>v s. s\<lparr>set_FinalizationLockTTL := v\<rparr>) s)))))))))))))))))))))))))"

definition update_changelog :: "SettingsUpdate \<Rightarrow> string list" where
  "update_changelog u =
     logged (u_FinalizationLockTTL u) ''finalization_lock_ttl'' @
     logged (u_SessionDuration u) ''session_duration'' @
     logged (u_UnrolledVtxoMinExpiryMargin u) ''unrolled_vtxo_min_expiry_margin'' @
     logged (u_BanThreshold u) ''ban_threshold'' @
     logged (u_BanDuration u) ''ban_duration'' @
     logged (u_UnilateralExitDelay u) ''unilateral_exit_delay'' @
     logged (u_PublicUnilateralExitDelay u) ''public_unilateral_exit_delay'' @
     logged (u_CheckpointExitDelay u) ''checkpoint_exit_delay'' @
     logged (u_BoardingExitDelay u) ''boarding_exit_delay'' @
     logged (u_VtxoTreeExpiry u) ''vtxo_tree_expiry'' @
     logged (u_RoundMaxParticipantsCount u) ''round_max_participants_count'' @
     logged (u_RoundMinParticipantsCount u) ''round_min_participants_count'' @
     logged (u_VtxoMinAmount u) ''vtxo_min_amount'' @
     logged (u_VtxoMaxAmount u) ''vtxo_max_amount'' @
     logged (u_UtxoMinAmount u) ''utxo_min_amount'' @
     logged (u_UtxoMaxAmount u) ''utxo_max_amount'' @
     logged (u_SettlementMinExpiryGap u) ''settlement_min_expiry_gap'' @
     logged (u_VtxoNoCsvValidationCutoffDate u) ''vtxo_no_csv_validation_cutoff_date'' @
     logged (u_MaxTxWeight u) ''max_tx_weight'' @
     logged (u_MaxOpReturnOutputs u) ''max_op_return_outputs'' @
     logged (u_AssetTxMaxWeightRatio u) ''asset_tx_max_weight_ratio'' @
     logged (u_NoteUriPrefix u) ''note_uri_prefix'' @
     logged (u_BuildVersionHeader u) ''build_version_header'' @
     logged (u_BuildVersionHeaderRequired u) ''build_version_header_required'' @
     logged (u_DigestHeaderRequired u) ''digest_header_required'' @
     logged (u_BatchTrigger u) ''batch_trigger''"

definition Settings_Update ::
    "'p cel_envs \<Rightarrow> SettingsUpdate \<Rightarrow> Settings \<Rightarrow> (Settings \<times> string list) gores" where
  "Settings_Update envs u s =
     (let updated = apply_SettingsUpdate u s; changelog = update_changelog u
      in rbind (Settings_Validate envs updated) (\<lambda>_. Inr (updated, changelog)))"

text \<open>\<open>UpdateScheduledSession\<close> returns a changelog with the error too, when a session exists.\<close>

definition UpdateScheduledSession ::
    "int \<Rightarrow> ScheduledSessionUpdate \<Rightarrow> Settings \<Rightarrow> Settings \<times> string list \<times> unit gores" where
  "UpdateScheduledSession now updates s =
     (case set_ScheduledSession s of
        None \<Rightarrow>
          (case ScheduledSession_Update now updates zero_ScheduledSession of
             Inl err \<Rightarrow> (s, [], Inl err)
           | Inr session \<Rightarrow>
               (s\<lparr>set_ScheduledSession := Some session\<rparr>, [''scheduled_session''], Inr ()))
      | Some session \<Rightarrow>
          (case ScheduledSession_Update now updates session of
             Inl err \<Rightarrow> (s, [''scheduled_session''], Inl err)
           | Inr session' \<Rightarrow>
               (s\<lparr>set_ScheduledSession := Some session'\<rparr>, [''scheduled_session''], Inr ())))"

definition ClearScheduledSession :: "Settings \<Rightarrow> Settings \<times> string list" where
  "ClearScheduledSession s = (s\<lparr>set_ScheduledSession := None\<rparr>, [''scheduled_session''])"

definition UpdateBatchFees ::
    "'p cel_envs \<Rightarrow> BatchFeesUpdate \<Rightarrow> Settings \<Rightarrow> (Settings \<times> string list) gores" where
  "UpdateBatchFees envs updates s =
     rbind (BatchFees_Update envs updates (set_BatchFees s)) (\<lambda>fees.
       Inr (s\<lparr>set_BatchFees := fees\<rparr>, [''batch_fees'']))"

definition ClearBatchFees :: "Settings \<Rightarrow> Settings \<times> string list" where
  "ClearBatchFees s = (s\<lparr>set_BatchFees := zero_BatchFees\<rparr>, [''batch_fees''])"

subsection \<open>Derived limits\<close>

definition assetPacketOverheadWU :: nat where
  "assetPacketOverheadWU = (1 + 1 + length ArkadeMagic + 1 + 1) * 4"

type_synonym hash_parser = "string \<Rightarrow> (chainhash_error, bytes) res"

definition refAssetId :: "hash_parser \<Rightarrow> AssetId option" where
  "refAssetId newHashFromStr =
     (case NewAssetId newHashFromStr
        (''01'' @ replicate 62 (CHR ''0'')) 0 of
        Inl _ \<Rightarrow> None | Inr assetId \<Rightarrow> Some assetId)"

definition refGroup :: "hash_parser \<Rightarrow> AssetGroup" where
  "refGroup newHashFromStr =
     \<lparr>grp_AssetId = refAssetId newHashFromStr, grp_ControlAsset = None,
      grp_Outputs = [\<lparr>aout_Type = AssetOutputTypeLocal, aout_Vout = 0, aout_Amount = 1\<rparr>],
      grp_Inputs = [\<lparr>ain_Type = AssetInputTypeLocal, ain_Vin = 0, ain_Txid = replicate 32 0,
                     ain_Amount = 1\<rparr>],
      grp_Metadata = []\<rparr>"

definition refGroupWeight :: "hash_parser \<Rightarrow> nat" where
  "refGroupWeight newHashFromStr =
     (case AssetGroup_Serialize (refGroup newHashFromStr) of
        Inl _ \<Rightarrow> 0 | Inr groupBytes \<Rightarrow> length groupBytes * 4)"

text \<open>The conversion of a product that is not a number to \<open>uint64\<close> is left open by the language:
  \<open>None\<close>.\<close>

definition MaxAssetsPerVtxo :: "hash_parser \<Rightarrow> Settings \<Rightarrow> nat option" where
  "MaxAssetsPerVtxo newHashFromStr s =
     (if set_MaxTxWeight s = 0 then Some 0
      else case set_AssetTxMaxWeightRatio s of
        FNum ratio \<Rightarrow>
          if ratio < 0 then None
          else
            let maxPacketWU = nat \<lfloor>of_nat (unat (set_MaxTxWeight s)) * ratio\<rfloor>
            in if maxPacketWU \<le> assetPacketOverheadWU then Some 0
               else Some ((maxPacketWU - assetPacketOverheadWU) div refGroupWeight newHashFromStr)
      | _ \<Rightarrow> None)"

definition AllowCSVBlockType :: "Settings \<Rightarrow> bool" where
  "AllowCSVBlockType s \<longleftrightarrow> lt_Type (set_VtxoTreeExpiry s) = LocktimeTypeBlock"

definition ShouldStartBatch :: "'p cel_envs \<Rightarrow> Settings \<Rightarrow> TriggerContext \<Rightarrow> bool gores" where
  "ShouldStartBatch envs s ctx =
     rbind (batchtrigger_New (BatchTriggerEnv envs) (set_BatchTrigger s)) (\<lambda>trigger.
       case trigger of
         None \<Rightarrow> Inr True
       | Some t \<Rightarrow> env_EvalBool (BatchTriggerEnv envs) (trg_program t) ctx)"


section \<open>What validated settings guarantee\<close>

lemma Settings_Validate_bounds:
  assumes "Settings_Validate envs s = Inr u"
  shows "set_FinalizationLockTTL s \<ge> time_Second" and "set_SessionDuration s \<ge> 2 * time_Second"
    and "set_UnrolledVtxoMinExpiryMargin s \<ge> set_SessionDuration s"
    and "1 \<le> set_RoundMinParticipantsCount s" and "set_RoundMinParticipantsCount s \<le> set_RoundMaxParticipantsCount s"
    and "0 < unat (set_MaxTxWeight s)" and "unat (set_MaxTxWeight s) \<le> 4000000"
    and "lt_Type (set_CheckpointExitDelay s) = lt_Type (set_VtxoTreeExpiry s)"
    and "lt_Type (set_UnilateralExitDelay s) = lt_Type (set_VtxoTreeExpiry s)"
    and "lt_Type (set_BoardingExitDelay s) = lt_Type (set_VtxoTreeExpiry s)"
    and "lt_Type (set_PublicUnilateralExitDelay s) = lt_Type (set_VtxoTreeExpiry s)"
    and "lt_Value (set_UnilateralExitDelay s) \<noteq> lt_Value (set_BoardingExitDelay s)"
    and "\<not> float_le (set_AssetTxMaxWeightRatio s) 0" and "\<not> float_ge (set_AssetTxMaxWeightRatio s) 1"
    and "uint (set_BanThreshold s) < 2 ^ 63"
proof -
  note v = assms [unfolded Settings_Validate_def guard_err_eq_Inr]
  have "set_FinalizationLockTTL s > 0" "set_FinalizationLockTTL s mod time_Second = 0" using v by auto
  then show "set_FinalizationLockTTL s \<ge> time_Second"
    by (metis zdvd_imp_le dvd_eq_mod_eq_0)
  show "set_SessionDuration s \<ge> 2 * time_Second" using v by (simp add: minSessionDuration_def)
  show "0 < unat (set_MaxTxWeight s)" using v by (simp add: unat_gt_0)
  show "unat (set_MaxTxWeight s) \<le> 4000000" using v by (simp add: bitcoinBlockWeight_def)
  show "uint (set_BanThreshold s) < 2 ^ 63" using v by (simp add: MaxInt64_def)
qed (use assms [unfolded Settings_Validate_def guard_err_eq_Inr] in simp_all)

interpretation settings:
  validated_update "Settings_Validate envs" apply_SettingsUpdate "\<lambda>u s. map_sum id fst (Settings_Update envs u s)"
  for envs
  by unfold_locales (simp_all add: Settings_Update_def)

text \<open>The operations on settings that a server was given by \<open>NewSettings\<close>. (The one-time seed of
  \<open>settings_seed.go\<close> takes fees over from an older table without validating them; it is not one of them.)\<close>

inductive settings_step :: "'p cel_envs \<Rightarrow> Settings \<Rightarrow> Settings \<Rightarrow> bool" for envs where
  step_update: "Settings_Update envs u s = Inr (s', cl) \<Longrightarrow> settings_step envs s s'"
| step_session: "UpdateScheduledSession now su s = (s', cl, r) \<Longrightarrow> settings_step envs s s'"
| step_clear_session: "ClearScheduledSession s = (s', cl) \<Longrightarrow> settings_step envs s s'"
| step_fees: "UpdateBatchFees envs fu s = Inr (s', cl) \<Longrightarrow> settings_step envs s s'"
| step_clear_fees: "ClearBatchFees s = (s', cl) \<Longrightarrow> settings_step envs s s'"

inductive settings_reachable :: "'p cel_envs \<Rightarrow> Settings \<Rightarrow> bool" for envs where
  reach_new: "NewSettings envs now a = Inr s \<Longrightarrow> settings_reachable envs s"
| reach_step: "settings_reachable envs s \<Longrightarrow> settings_step envs s s' \<Longrightarrow> settings_reachable envs s'"

lemma Settings_Validate_frame:
  "Settings_Validate envs (s\<lparr>set_ScheduledSession := x\<rparr>) = Settings_Validate envs s"
  "Settings_Validate envs (s\<lparr>set_BatchFees := f\<rparr>) = Settings_Validate envs s"
  by (simp_all add: Settings_Validate_def)

lemma upd_setters:
  fixes s :: Settings
  shows
  "upd x0 (\<lambda>v s. s\<lparr>set_FinalizationLockTTL := v\<rparr>) s = s\<lparr>set_FinalizationLockTTL := given (set_FinalizationLockTTL s) x0\<rparr>"
  "upd x1 (\<lambda>v s. s\<lparr>set_SessionDuration := v\<rparr>) s = s\<lparr>set_SessionDuration := given (set_SessionDuration s) x1\<rparr>"
  "upd x2 (\<lambda>v s. s\<lparr>set_UnrolledVtxoMinExpiryMargin := v\<rparr>) s = s\<lparr>set_UnrolledVtxoMinExpiryMargin := given (set_UnrolledVtxoMinExpiryMargin s) x2\<rparr>"
  "upd x3 (\<lambda>v s. s\<lparr>set_BanThreshold := v\<rparr>) s = s\<lparr>set_BanThreshold := given (set_BanThreshold s) x3\<rparr>"
  "upd x4 (\<lambda>v s. s\<lparr>set_BanDuration := v\<rparr>) s = s\<lparr>set_BanDuration := given (set_BanDuration s) x4\<rparr>"
  "upd x5 (\<lambda>v s. s\<lparr>set_UnilateralExitDelay := v\<rparr>) s = s\<lparr>set_UnilateralExitDelay := given (set_UnilateralExitDelay s) x5\<rparr>"
  "upd x6 (\<lambda>v s. s\<lparr>set_PublicUnilateralExitDelay := v\<rparr>) s = s\<lparr>set_PublicUnilateralExitDelay := given (set_PublicUnilateralExitDelay s) x6\<rparr>"
  "upd x7 (\<lambda>v s. s\<lparr>set_CheckpointExitDelay := v\<rparr>) s = s\<lparr>set_CheckpointExitDelay := given (set_CheckpointExitDelay s) x7\<rparr>"
  "upd x8 (\<lambda>v s. s\<lparr>set_BoardingExitDelay := v\<rparr>) s = s\<lparr>set_BoardingExitDelay := given (set_BoardingExitDelay s) x8\<rparr>"
  "upd x9 (\<lambda>v s. s\<lparr>set_VtxoTreeExpiry := v\<rparr>) s = s\<lparr>set_VtxoTreeExpiry := given (set_VtxoTreeExpiry s) x9\<rparr>"
  "upd x10 (\<lambda>v s. s\<lparr>set_RoundMinParticipantsCount := v\<rparr>) s = s\<lparr>set_RoundMinParticipantsCount := given (set_RoundMinParticipantsCount s) x10\<rparr>"
  "upd x11 (\<lambda>v s. s\<lparr>set_RoundMaxParticipantsCount := v\<rparr>) s = s\<lparr>set_RoundMaxParticipantsCount := given (set_RoundMaxParticipantsCount s) x11\<rparr>"
  "upd x12 (\<lambda>v s. s\<lparr>set_VtxoMinAmount := v\<rparr>) s = s\<lparr>set_VtxoMinAmount := given (set_VtxoMinAmount s) x12\<rparr>"
  "upd x13 (\<lambda>v s. s\<lparr>set_VtxoMaxAmount := v\<rparr>) s = s\<lparr>set_VtxoMaxAmount := given (set_VtxoMaxAmount s) x13\<rparr>"
  "upd x14 (\<lambda>v s. s\<lparr>set_UtxoMinAmount := v\<rparr>) s = s\<lparr>set_UtxoMinAmount := given (set_UtxoMinAmount s) x14\<rparr>"
  "upd x15 (\<lambda>v s. s\<lparr>set_UtxoMaxAmount := v\<rparr>) s = s\<lparr>set_UtxoMaxAmount := given (set_UtxoMaxAmount s) x15\<rparr>"
  "upd x16 (\<lambda>v s. s\<lparr>set_SettlementMinExpiryGap := v\<rparr>) s = s\<lparr>set_SettlementMinExpiryGap := given (set_SettlementMinExpiryGap s) x16\<rparr>"
  "upd x17 (\<lambda>v s. s\<lparr>set_VtxoNoCsvValidationCutoffDate := v\<rparr>) s = s\<lparr>set_VtxoNoCsvValidationCutoffDate := given (set_VtxoNoCsvValidationCutoffDate s) x17\<rparr>"
  "upd x18 (\<lambda>v s. s\<lparr>set_MaxTxWeight := v\<rparr>) s = s\<lparr>set_MaxTxWeight := given (set_MaxTxWeight s) x18\<rparr>"
  "upd x19 (\<lambda>v s. s\<lparr>set_MaxOpReturnOutputs := v\<rparr>) s = s\<lparr>set_MaxOpReturnOutputs := given (set_MaxOpReturnOutputs s) x19\<rparr>"
  "upd x20 (\<lambda>v s. s\<lparr>set_AssetTxMaxWeightRatio := v\<rparr>) s = s\<lparr>set_AssetTxMaxWeightRatio := given (set_AssetTxMaxWeightRatio s) x20\<rparr>"
  "upd x21 (\<lambda>v s. s\<lparr>set_NoteUriPrefix := v\<rparr>) s = s\<lparr>set_NoteUriPrefix := given (set_NoteUriPrefix s) x21\<rparr>"
  "upd x22 (\<lambda>v s. s\<lparr>set_BuildVersionHeader := v\<rparr>) s = s\<lparr>set_BuildVersionHeader := given (set_BuildVersionHeader s) x22\<rparr>"
  "upd x23 (\<lambda>v s. s\<lparr>set_BuildVersionHeaderRequired := v\<rparr>) s = s\<lparr>set_BuildVersionHeaderRequired := given (set_BuildVersionHeaderRequired s) x23\<rparr>"
  "upd x24 (\<lambda>v s. s\<lparr>set_DigestHeaderRequired := v\<rparr>) s = s\<lparr>set_DigestHeaderRequired := given (set_DigestHeaderRequired s) x24\<rparr>"
  "upd x25 (\<lambda>v s. s\<lparr>set_BatchTrigger := v\<rparr>) s = s\<lparr>set_BatchTrigger := given (set_BatchTrigger s) x25\<rparr>"
  by (simp_all add: upd_def given_def split: option.splits)

lemma apply_SettingsUpdate_exact:
  "apply_SettingsUpdate u s = s\<lparr>
      set_FinalizationLockTTL := given (set_FinalizationLockTTL s) (u_FinalizationLockTTL u),
      set_SessionDuration := given (set_SessionDuration s) (u_SessionDuration u),
      set_UnrolledVtxoMinExpiryMargin := given (set_UnrolledVtxoMinExpiryMargin s) (u_UnrolledVtxoMinExpiryMargin u),
      set_BanThreshold := given (set_BanThreshold s) (u_BanThreshold u),
      set_BanDuration := given (set_BanDuration s) (u_BanDuration u),
      set_UnilateralExitDelay := given (set_UnilateralExitDelay s) (u_UnilateralExitDelay u),
      set_PublicUnilateralExitDelay := given (set_PublicUnilateralExitDelay s) (u_PublicUnilateralExitDelay u),
      set_CheckpointExitDelay := given (set_CheckpointExitDelay s) (u_CheckpointExitDelay u),
      set_BoardingExitDelay := given (set_BoardingExitDelay s) (u_BoardingExitDelay u),
      set_VtxoTreeExpiry := given (set_VtxoTreeExpiry s) (u_VtxoTreeExpiry u),
      set_RoundMinParticipantsCount := given (set_RoundMinParticipantsCount s) (u_RoundMinParticipantsCount u),
      set_RoundMaxParticipantsCount := given (set_RoundMaxParticipantsCount s) (u_RoundMaxParticipantsCount u),
      set_VtxoMinAmount := given (set_VtxoMinAmount s) (u_VtxoMinAmount u),
      set_VtxoMaxAmount := given (set_VtxoMaxAmount s) (u_VtxoMaxAmount u),
      set_UtxoMinAmount := given (set_UtxoMinAmount s) (u_UtxoMinAmount u),
      set_UtxoMaxAmount := given (set_UtxoMaxAmount s) (u_UtxoMaxAmount u),
      set_SettlementMinExpiryGap := given (set_SettlementMinExpiryGap s) (u_SettlementMinExpiryGap u),
      set_VtxoNoCsvValidationCutoffDate := given (set_VtxoNoCsvValidationCutoffDate s) (u_VtxoNoCsvValidationCutoffDate u),
      set_MaxTxWeight := given (set_MaxTxWeight s) (u_MaxTxWeight u),
      set_MaxOpReturnOutputs := given (set_MaxOpReturnOutputs s) (u_MaxOpReturnOutputs u),
      set_AssetTxMaxWeightRatio := given (set_AssetTxMaxWeightRatio s) (u_AssetTxMaxWeightRatio u),
      set_NoteUriPrefix := given (set_NoteUriPrefix s) (u_NoteUriPrefix u),
      set_BuildVersionHeader := given (set_BuildVersionHeader s) (u_BuildVersionHeader u),
      set_BuildVersionHeaderRequired := given (set_BuildVersionHeaderRequired s) (u_BuildVersionHeaderRequired u),
      set_DigestHeaderRequired := given (set_DigestHeaderRequired s) (u_DigestHeaderRequired u),
      set_BatchTrigger := given (set_BatchTrigger s) (u_BatchTrigger u)\<rparr>"
  by (simp add: apply_SettingsUpdate_def upd_setters)


lemma settings_step_valid:
  assumes "settings_step envs s s'" and "Settings_Validate envs s = Inr ()"
    and "BatchFees_Validate envs (set_BatchFees s) = Inr ()"
  shows "Settings_Validate envs s' = Inr () \<and> BatchFees_Validate envs (set_BatchFees s') = Inr ()"
  using assms(1)
proof (cases rule: settings_step.cases)
  case (step_update u cl)
  then have "map_sum id fst (Settings_Update envs u s) = Inr s'" by simp
  then have "Settings_Validate envs s' = Inr ()" and s': "s' = apply_SettingsUpdate u s"
    by (auto simp: settings.update_Inr)
  moreover have "set_BatchFees s' = set_BatchFees s" by (simp add: s' apply_SettingsUpdate_exact)
  ultimately show ?thesis using assms(3) by simp
next
  case (step_session now su cl r)
  then show ?thesis using assms(2,3)
    by (auto simp: UpdateScheduledSession_def Settings_Validate_frame split: option.splits sum.splits)
next
  case (step_fees fu cl)
  then show ?thesis using assms(2)
    by (auto simp: UpdateBatchFees_def rbind_eq_Inr batch_fees.update_Inr Settings_Validate_frame)
qed (use assms(2,3) in \<open>auto simp: ClearScheduledSession_def ClearBatchFees_def Settings_Validate_frame
        BatchFees_Validate_def zero_BatchFees_def arkfee_New_empty\<close>)

lemma settings_reachable_valid:
  "settings_reachable envs s \<Longrightarrow>
     Settings_Validate envs s = Inr () \<and> BatchFees_Validate envs (set_BatchFees s) = Inr ()"
proof (induction rule: settings_reachable.induct)
  case (reach_new now a s)
  then show ?case
    by (auto simp: NewSettings_def Let_def guard_err_eq_Inr rbind_eq_Inr BatchFees_Validate_def
        zero_BatchFees_def arkfee_New_empty)
qed (use settings_step_valid in blast)

text \<open>C32: whatever sequence of updates the settings made by \<open>NewSettings\<close> go through, they stay valid: the fee
  programs parse, a batch has at least one participant and a maximum not below the minimum, a
  session lasts at least two seconds and no longer than the expiry margin, transactions fit a
  block, and the five delays are of one type, the unilateral one different from the boarding
  one.\<close>

theorem settings_stay_valid:
  assumes "settings_reachable envs s"
  shows "Settings_Validate envs s = Inr () \<and> BatchFees_Validate envs (set_BatchFees s) = Inr () \<and>
    1 \<le> set_RoundMinParticipantsCount s \<and>
    set_RoundMinParticipantsCount s \<le> set_RoundMaxParticipantsCount s \<and>
    2 * time_Second \<le> set_SessionDuration s \<and>
    set_SessionDuration s \<le> set_UnrolledVtxoMinExpiryMargin s \<and>
    0 < unat (set_MaxTxWeight s) \<and> unat (set_MaxTxWeight s) \<le> 4000000 \<and>
    lt_Type ` {set_CheckpointExitDelay s, set_UnilateralExitDelay s, set_BoardingExitDelay s,
      set_PublicUnilateralExitDelay s, set_VtxoTreeExpiry s} = {lt_Type (set_VtxoTreeExpiry s)} \<and>
    lt_Value (set_UnilateralExitDelay s) \<noteq> lt_Value (set_BoardingExitDelay s)"
proof -
  have valid: "Settings_Validate envs s = Inr ()" "BatchFees_Validate envs (set_BatchFees s) = Inr ()"
    using settings_reachable_valid [OF assms] by auto
  note b = Settings_Validate_bounds [OF valid(1)]
  show ?thesis using valid b by simp
qed

text \<open>\<open>Update\<close> changes exactly the fields it is given, keeps the session schedule, the fees and
  the time stamp, reports exactly the given fields in its changelog, and succeeds only when the
  result is valid; when the result is not valid it returns that validation error.\<close>

theorem settings_update_exact:
  "Settings_Update envs u s =
     (case Settings_Validate envs (s\<lparr>
      set_FinalizationLockTTL := given (set_FinalizationLockTTL s) (u_FinalizationLockTTL u),
      set_SessionDuration := given (set_SessionDuration s) (u_SessionDuration u),
      set_UnrolledVtxoMinExpiryMargin := given (set_UnrolledVtxoMinExpiryMargin s) (u_UnrolledVtxoMinExpiryMargin u),
      set_BanThreshold := given (set_BanThreshold s) (u_BanThreshold u),
      set_BanDuration := given (set_BanDuration s) (u_BanDuration u),
      set_UnilateralExitDelay := given (set_UnilateralExitDelay s) (u_UnilateralExitDelay u),
      set_PublicUnilateralExitDelay := given (set_PublicUnilateralExitDelay s) (u_PublicUnilateralExitDelay u),
      set_CheckpointExitDelay := given (set_CheckpointExitDelay s) (u_CheckpointExitDelay u),
      set_BoardingExitDelay := given (set_BoardingExitDelay s) (u_BoardingExitDelay u),
      set_VtxoTreeExpiry := given (set_VtxoTreeExpiry s) (u_VtxoTreeExpiry u),
      set_RoundMinParticipantsCount := given (set_RoundMinParticipantsCount s) (u_RoundMinParticipantsCount u),
      set_RoundMaxParticipantsCount := given (set_RoundMaxParticipantsCount s) (u_RoundMaxParticipantsCount u),
      set_VtxoMinAmount := given (set_VtxoMinAmount s) (u_VtxoMinAmount u),
      set_VtxoMaxAmount := given (set_VtxoMaxAmount s) (u_VtxoMaxAmount u),
      set_UtxoMinAmount := given (set_UtxoMinAmount s) (u_UtxoMinAmount u),
      set_UtxoMaxAmount := given (set_UtxoMaxAmount s) (u_UtxoMaxAmount u),
      set_SettlementMinExpiryGap := given (set_SettlementMinExpiryGap s) (u_SettlementMinExpiryGap u),
      set_VtxoNoCsvValidationCutoffDate := given (set_VtxoNoCsvValidationCutoffDate s) (u_VtxoNoCsvValidationCutoffDate u),
      set_MaxTxWeight := given (set_MaxTxWeight s) (u_MaxTxWeight u),
      set_MaxOpReturnOutputs := given (set_MaxOpReturnOutputs s) (u_MaxOpReturnOutputs u),
      set_AssetTxMaxWeightRatio := given (set_AssetTxMaxWeightRatio s) (u_AssetTxMaxWeightRatio u),
      set_NoteUriPrefix := given (set_NoteUriPrefix s) (u_NoteUriPrefix u),
      set_BuildVersionHeader := given (set_BuildVersionHeader s) (u_BuildVersionHeader u),
      set_BuildVersionHeaderRequired := given (set_BuildVersionHeaderRequired s) (u_BuildVersionHeaderRequired u),
      set_DigestHeaderRequired := given (set_DigestHeaderRequired s) (u_DigestHeaderRequired u),
      set_BatchTrigger := given (set_BatchTrigger s) (u_BatchTrigger u)\<rparr>) of
        Inl e \<Rightarrow> Inl e
      | Inr _ \<Rightarrow> Inr (s\<lparr>
      set_FinalizationLockTTL := given (set_FinalizationLockTTL s) (u_FinalizationLockTTL u),
      set_SessionDuration := given (set_SessionDuration s) (u_SessionDuration u),
      set_UnrolledVtxoMinExpiryMargin := given (set_UnrolledVtxoMinExpiryMargin s) (u_UnrolledVtxoMinExpiryMargin u),
      set_BanThreshold := given (set_BanThreshold s) (u_BanThreshold u),
      set_BanDuration := given (set_BanDuration s) (u_BanDuration u),
      set_UnilateralExitDelay := given (set_UnilateralExitDelay s) (u_UnilateralExitDelay u),
      set_PublicUnilateralExitDelay := given (set_PublicUnilateralExitDelay s) (u_PublicUnilateralExitDelay u),
      set_CheckpointExitDelay := given (set_CheckpointExitDelay s) (u_CheckpointExitDelay u),
      set_BoardingExitDelay := given (set_BoardingExitDelay s) (u_BoardingExitDelay u),
      set_VtxoTreeExpiry := given (set_VtxoTreeExpiry s) (u_VtxoTreeExpiry u),
      set_RoundMinParticipantsCount := given (set_RoundMinParticipantsCount s) (u_RoundMinParticipantsCount u),
      set_RoundMaxParticipantsCount := given (set_RoundMaxParticipantsCount s) (u_RoundMaxParticipantsCount u),
      set_VtxoMinAmount := given (set_VtxoMinAmount s) (u_VtxoMinAmount u),
      set_VtxoMaxAmount := given (set_VtxoMaxAmount s) (u_VtxoMaxAmount u),
      set_UtxoMinAmount := given (set_UtxoMinAmount s) (u_UtxoMinAmount u),
      set_UtxoMaxAmount := given (set_UtxoMaxAmount s) (u_UtxoMaxAmount u),
      set_SettlementMinExpiryGap := given (set_SettlementMinExpiryGap s) (u_SettlementMinExpiryGap u),
      set_VtxoNoCsvValidationCutoffDate := given (set_VtxoNoCsvValidationCutoffDate s) (u_VtxoNoCsvValidationCutoffDate u),
      set_MaxTxWeight := given (set_MaxTxWeight s) (u_MaxTxWeight u),
      set_MaxOpReturnOutputs := given (set_MaxOpReturnOutputs s) (u_MaxOpReturnOutputs u),
      set_AssetTxMaxWeightRatio := given (set_AssetTxMaxWeightRatio s) (u_AssetTxMaxWeightRatio u),
      set_NoteUriPrefix := given (set_NoteUriPrefix s) (u_NoteUriPrefix u),
      set_BuildVersionHeader := given (set_BuildVersionHeader s) (u_BuildVersionHeader u),
      set_BuildVersionHeaderRequired := given (set_BuildVersionHeaderRequired s) (u_BuildVersionHeaderRequired u),
      set_DigestHeaderRequired := given (set_DigestHeaderRequired s) (u_DigestHeaderRequired u),
      set_BatchTrigger := given (set_BatchTrigger s) (u_BatchTrigger u)\<rparr>, update_changelog u))"
  unfolding Settings_Update_def Let_def apply_SettingsUpdate_exact [symmetric]
  by (simp split: sum.splits)


subsection \<open>Sample settings\<close>

definition sample_cel_env :: "('c, unit) cel_env" where
  "sample_cel_env = \<lparr>env_Compile = (\<lambda>_. Inl (Errorf ''undeclared reference'')),
     env_Program = (\<lambda>_. Inr ()), env_EvalBool = (\<lambda>_ _. Inr False)\<rparr>"

definition sample_envs :: "unit cel_envs" where
  "sample_envs = \<lparr>IntentOffchainInputEnv = sample_cel_env, IntentOnchainInputEnv = sample_cel_env,
     IntentOutputEnv = sample_cel_env, BatchTriggerEnv = sample_cel_env\<rparr>"

definition sample_delay :: "u32 \<Rightarrow> RelativeLocktime" where
  "sample_delay v = \<lparr>lt_Type = LocktimeTypeSecond, lt_Value = v\<rparr>"

definition sample_args :: NewSettings_args where
  "sample_args =
     \<lparr>arg_sessionDuration = 30, arg_unrolledVtxoMinExpiryMargin = 60, arg_banThreshold = 3,
      arg_banDuration = 300, arg_finalizationLockTTL = 60, arg_settlementMinExpiryGap = 0,
      arg_vtxoNoCsvValidationCutoffDate = 0, arg_roundMinParticipantsCount = 1,
      arg_roundMaxParticipantsCount = 128, arg_vtxoMinAmount = 1, arg_vtxoMaxAmount = -1,
      arg_utxoMinAmount = 1, arg_utxoMaxAmount = -1, arg_unilateralExitDelay = sample_delay 512,
      arg_publicUnilateralExitDelay = sample_delay 512, arg_checkpointExitDelay = sample_delay 512,
      arg_boardingExitDelay = sample_delay 1024, arg_vtxoTreeExpiry = sample_delay 2048,
      arg_maxTxWeight = 40000, arg_maxOpReturnOutputs = 3, arg_assetTxMaxWeightRatio = FNum (1 / 2),
      arg_noteUriPrefix = [], arg_minVersionAccepted = [], arg_minVersionRequired = False,
      arg_digestHeaderRequired = False, arg_batchTrigger = []\<rparr>"

lemmas settings_eval =
  NewSettings_def Settings_Validate_def sample_args_def sample_delay_def Let_def time_Second_def
  MaxInt64_def minSessionDuration_def minBanDuration_def bitcoinBlockWeight_def trigger_ok_def
  batchtrigger_New_def float_le_def float_ge_def duration_of_secs_def

lemma sample_durations:
  "int64_wrap 30000000000 = 30000000000" "int64_wrap 60000000000 = 60000000000"
  "int64_wrap 300000000000 = 300000000000" "int64_wrap 0 = 0"
  "int64_wrap 36028797018963998000000000 = 30000000000"
  by (simp_all add: int64_wrap_def)

text \<open>\<open>NewSettings\<close> takes durations in seconds and stores them in nanoseconds without looking at
  the overflow, except for the finalization lock: a session duration of \<open>2 ^ 55 + 30\<close> seconds is
  accepted and stored as thirty seconds.\<close>

theorem new_settings_duration_wraps:
  "map_sum id set_SessionDuration
     (NewSettings sample_envs 0 (sample_args\<lparr>arg_sessionDuration := 2 ^ 55 + 30\<rparr>)) =
   Inr (30 * time_Second)"
  by (simp add: settings_eval sample_durations)

text \<open>the durations that \<open>NewSettings\<close> stores are the ones asked for: always for the
  finalization lock, whose overflow is checked, and for every other one whose nanoseconds fit an
  \<open>int64\<close>.\<close>

theorem new_settings_durations:
  assumes "NewSettings envs now a = Inr s"
  shows "duration_secs (set_FinalizationLockTTL s) = arg_finalizationLockTTL a \<and>
    (is_int64 (arg_sessionDuration a * time_Second) \<longrightarrow>
       duration_secs (set_SessionDuration s) = arg_sessionDuration a) \<and>
    (is_int64 (arg_unrolledVtxoMinExpiryMargin a * time_Second) \<longrightarrow>
       duration_secs (set_UnrolledVtxoMinExpiryMargin s) = arg_unrolledVtxoMinExpiryMargin a) \<and>
    (is_int64 (arg_banDuration a * time_Second) \<longrightarrow>
       duration_secs (set_BanDuration s) = arg_banDuration a) \<and>
    (is_int64 (arg_settlementMinExpiryGap a * time_Second) \<longrightarrow>
       duration_secs (set_SettlementMinExpiryGap s) = arg_settlementMinExpiryGap a)"
proof -
  have ttl: "0 < arg_finalizationLockTTL a" "arg_finalizationLockTTL a \<le> MaxInt64 div time_Second"
    using assms by (auto simp: NewSettings_def guard_err_eq_Inr)
  have "is_int64 (arg_finalizationLockTTL a * time_Second)"
    using ttl by (simp add: is_int64_def MaxInt64_def time_Second_def)
  moreover have fields: "set_FinalizationLockTTL s = duration_of_secs (arg_finalizationLockTTL a)"
    "set_SessionDuration s = duration_of_secs (arg_sessionDuration a)"
    "set_UnrolledVtxoMinExpiryMargin s = duration_of_secs (arg_unrolledVtxoMinExpiryMargin a)"
    "set_BanDuration s = duration_of_secs (arg_banDuration a)"
    "set_SettlementMinExpiryGap s = duration_of_secs (arg_settlementMinExpiryGap a)"
    using assms by (auto simp: NewSettings_def guard_err_eq_Inr Let_def rbind_eq_Inr)
  ultimately show ?thesis by (simp add: duration_secs_of_secs)
qed

definition sample_settings :: Settings where
  "sample_settings = projr (NewSettings sample_envs 0 sample_args)"

lemma sample_settings_new: "NewSettings sample_envs 0 sample_args = Inr sample_settings"
  unfolding sample_settings_def by (simp add: settings_eval sample_durations)

theorem new_settings_durations_witness:
  "duration_secs (set_FinalizationLockTTL sample_settings) = 60 \<and>
   duration_secs (set_SessionDuration sample_settings) = 30"
  using new_settings_durations [OF sample_settings_new]
  by (simp add: sample_args_def is_int64_def time_Second_def)

theorem settings_stay_valid_witness:
  "Settings_Validate sample_envs (fst (ClearBatchFees sample_settings)) = Inr ()"
proof -
  have "settings_reachable sample_envs (fst (ClearBatchFees sample_settings))"
    by (rule reach_step [OF reach_new [OF sample_settings_new] step_clear_fees]) (simp add: ClearBatchFees_def)
  from settings_stay_valid [OF this] show ?thesis by blast
qed

subsection \<open>The number of assets\<close>

lemma PutUvarint_1: "PutUvarint 1 = [1]"
  by (subst PutUvarint.simps) (simp add: word_le_nat_alt)

lemma nat_floor_bounds:
  fixes x :: rat
  assumes "0 \<le> x"
  shows "of_nat (nat \<lfloor>x\<rfloor>) \<le> x" and "x < of_nat (nat \<lfloor>x\<rfloor> + 1)"
proof -
  have "(of_nat (nat \<lfloor>x\<rfloor>) :: rat) = of_int \<lfloor>x\<rfloor>" using assms by simp
  then show "of_nat (nat \<lfloor>x\<rfloor>) \<le> x" "x < of_nat (nat \<lfloor>x\<rfloor> + 1)"
    using floor_correct [of x] by simp_all
qed

lemma refGroupWeight_eq:
  assumes "newHashFromStr (''01'' @ replicate 62 (CHR ''0'')) = Inr h"
    and "length h = 32" and "h \<noteq> replicate 32 0"
  shows "refGroupWeight newHashFromStr = 180"
proof -
  have "refAssetId newHashFromStr = Some \<lparr>aid_Txid = h, aid_Index = 0\<rparr>"
    using assms by (simp add: refAssetId_def NewAssetId_def HashSize_def AssetId_validate_def emptyTxHash_def)
  then show ?thesis
    using assms(2,3)
    by (simp add: refGroupWeight_def refGroup_def AssetGroup_Serialize_def AssetGroup_validate_def
        AssetGroup_serialize_def AssetGroup_presence_def AssetGroup_IsIssuance_def Let_def
        AssetId_validate_def emptyTxHash_def HashSize_def AssetInput_validate_def AssetOutput_validate_def
        AssetId_serialize_def AssetInputs_serialize_def AssetOutputs_serialize_def AssetInput_serialize_def
        AssetOutput_serialize_def serializeTxHash_def serializeUint16_def serializeVarUint_def
        maskAssetId_def maskControlAsset_def maskMetadata_def AssetInputTypeLocal_def serializeSlice_def AssetOutputs_validate_def
        AssetOutputTypeLocal_def AssetOutputTypeUnspecified_def PutUint16_def PutUvarint_1)
qed

text \<open>\<open>MaxAssetsPerVtxo\<close> is the largest number of asset groups of the reference size, 180 weight
  units each, that fit with the packet overhead into the share of a transaction's weight that
  the settings reserve for assets.\<close>

theorem max_assets_per_vtxo_fit:
  assumes "Settings_Validate envs s = Inr ()"
    and "set_AssetTxMaxWeightRatio s = FNum q"
    and "newHashFromStr (''01'' @ replicate 62 (CHR ''0'')) = Inr h" "length h = 32" "h \<noteq> replicate 32 0"
  shows "\<exists>n. MaxAssetsPerVtxo newHashFromStr s = Some n \<and>
    (n = 0 \<or> of_nat (28 + 180 * n) \<le> of_nat (unat (set_MaxTxWeight s)) * q) \<and>
    of_nat (unat (set_MaxTxWeight s)) * q < of_nat (28 + 180 * (n + 1))"
proof -
  let ?w = "of_nat (unat (set_MaxTxWeight s)) * q" and ?m = "nat \<lfloor>of_nat (unat (set_MaxTxWeight s)) * q\<rfloor>"
  have q: "0 < q" and w: "set_MaxTxWeight s \<noteq> 0"
    using Settings_Validate_bounds(6,13) [OF assms(1)] assms(2) by (auto simp: float_le_def)
  have "0 \<le> ?w" using q by (intro mult_nonneg_nonneg of_nat_0_le_iff) simp
  note m = nat_floor_bounds [OF this]
  let ?n = "if ?m \<le> 28 then 0 else (?m - 28) div 180"
  have "MaxAssetsPerVtxo newHashFromStr s = Some ?n"
    using assms(2) q w refGroupWeight_eq [of newHashFromStr h, OF assms(3-5)]
    by (simp add: MaxAssetsPerVtxo_def assetPacketOverheadWU_def ArkadeMagic_def Let_def)
  moreover have "?n = 0 \<or> 28 + 180 * ?n \<le> ?m" by auto
  moreover have "?m + 1 \<le> 28 + 180 * (?n + 1)" by auto
  ultimately show ?thesis
    using m by (intro exI [of _ ?n]) (meson of_nat_mono order_trans order_less_le_trans)
qed

definition sample_hash_parser :: hash_parser where
  "sample_hash_parser str = Inr (1 # replicate 31 0)"

theorem max_assets_per_vtxo_fit_witness:
  "MaxAssetsPerVtxo sample_hash_parser sample_settings = Some 110 \<and>
   of_nat (unat (set_MaxTxWeight sample_settings)) * (1 / 2) < (of_nat (28 + 180 * 111) :: rat)"
proof -
  have new: "Settings_Validate sample_envs sample_settings = Inr ()"
    using sample_settings_new by (auto simp: NewSettings_def guard_err_eq_Inr Let_def rbind_eq_Inr)
  have s: "set_AssetTxMaxWeightRatio sample_settings = FNum (1 / 2)" "set_MaxTxWeight sample_settings = 40000"
    unfolding sample_settings_def by (simp_all add: settings_eval sample_durations)
  have h: "1 # replicate 31 0 \<noteq> replicate 32 (0 :: u8)" by (simp add: numeral_eq_Suc)
  obtain n where n: "MaxAssetsPerVtxo sample_hash_parser sample_settings = Some n"
    "n = 0 \<or> of_nat (28 + 180 * n) \<le> (20000 :: rat)" "20000 < (of_nat (28 + 180 * (n + 1)) :: rat)"
    using max_assets_per_vtxo_fit [OF new s(1), of sample_hash_parser "1 # replicate 31 0"] h s(2)
    by (auto simp: sample_hash_parser_def)
  have "n = 110" using n(2,3) by auto
  then show ?thesis using n(1) s(2) by simp
qed

text \<open>the range check on the asset weight ratio is passed by NaN: no comparison with it holds,
  so settings with a ratio that is not a number are accepted, and the number of assets per vtxo
  then depends on how the platform converts NaN.\<close>

theorem nan_ratio_accepted:
  "Settings_Validate sample_envs (sample_settings\<lparr>set_AssetTxMaxWeightRatio := FNaN\<rparr>) = Inr () \<and>
   MaxAssetsPerVtxo p (sample_settings\<lparr>set_AssetTxMaxWeightRatio := FNaN\<rparr>) = None"
  unfolding sample_settings_def by (simp add: settings_eval sample_durations MaxAssetsPerVtxo_def)

end
