(* ===== verification/Script_Closure.thy ===== *)
theory Script_Closure
  imports Locktime Bitcoin_Tx
begin

section \<open>Tapscript closures\<close>

text \<open>
  \<open>pkg/ark-lib/script/closure.go\<close>, the condition scripts of \<open>pkg/ark-lib/script/script.go\<close> and
  \<open>ReadTxWitness\<close> of \<open>pkg/ark-lib/txutils/utils.go\<close>. The script builder, tokenizer, script
  numbers and script engine of btcd and its Schnorr keys are the fields of a record \<open>lib\<close>:

  \<^item> a builder method takes the script built so far and gives the longer one or an error; errors
    are sticky, so a chain of calls is a chain of \<open>rbind\<close>;
  \<^item> the tokenizer gives the tokens that successive calls of \<open>Next()\<close> yield, each with the bytes
    that follow it (\<open>Script()[ByteIndex():]\<close>), and the error that \<open>Err()\<close> reports after the last
    one. After a call of \<open>Next()\<close> that reports false, \<open>Opcode()\<close> is still the opcode of the last token.

  A \<open>Decode\<close> method fills its receiver and reports whether it did; here it returns an error,
  \<open>None\<close> for false, or the closure. Every receiver is fresh, so what a failed call leaves in it is
  never read.
\<close>

record script_token =
  tk_Opcode :: u8
  tk_Data :: "bytes option"
  tk_Rest :: bytes

datatype exec_error = ErrEvalFalse | ExecError go_error

record 'k txscript =
  ts_Tokenize :: "bytes \<Rightarrow> script_token list \<times> go_error option"
  ts_ScriptHasOpSuccess :: "bytes \<Rightarrow> bool"
  ts_IsSmallInt :: "u8 \<Rightarrow> bool"
  ts_AsSmallInt :: "u8 \<Rightarrow> int"
  ts_MakeScriptNum :: make_script_num
  ts_LockTimeToSequence :: lock_time_to_sequence
  ts_AddOp :: "u8 \<Rightarrow> bytes \<Rightarrow> bytes gores"
  ts_AddOps :: "bytes \<Rightarrow> bytes \<Rightarrow> bytes gores"
  ts_AddData :: "bytes \<Rightarrow> bytes \<Rightarrow> bytes gores"
  ts_AddInt64 :: "int \<Rightarrow> bytes \<Rightarrow> bytes gores"
  ts_SerializePubKey :: "'k \<Rightarrow> bytes"
  ts_ParsePubKey :: "bytes \<Rightarrow> 'k gores"
  ts_NewEngine :: "bytes \<Rightarrow> unit gores"
  ts_Execute :: "bytes \<Rightarrow> bytes list \<Rightarrow> (exec_error, bytes list) res"
  ts_ReadVarInt :: "bytes \<Rightarrow> (u64 \<times> bytes) gores"
  ts_ReadVarBytes :: "nat \<Rightarrow> bytes \<Rightarrow> (bytes \<times> bytes) gores"

definition token_data :: "script_token \<Rightarrow> bytes" where
  "token_data t = (case tk_Data t of None \<Rightarrow> [] | Some d \<Rightarrow> d)"

definition OP_0 :: u8 where "OP_0 = 0x00"
definition OP_DATA_1 :: u8 where "OP_DATA_1 = 0x01"
definition OP_DATA_32 :: u8 where "OP_DATA_32 = 0x20"
definition OP_1 :: u8 where "OP_1 = 0x51"
definition OP_VERIFY :: u8 where "OP_VERIFY = 0x69"
definition OP_DROP :: u8 where "OP_DROP = 0x75"
definition OP_NUMEQUAL :: u8 where "OP_NUMEQUAL = 0x9c"
definition OP_CHECKSIG :: u8 where "OP_CHECKSIG = 0xac"
definition OP_CHECKSIGVERIFY :: u8 where "OP_CHECKSIGVERIFY = 0xad"
definition OP_CHECKMULTISIG :: u8 where "OP_CHECKMULTISIG = 0xae"
definition OP_CHECKMULTISIGVERIFY :: u8 where "OP_CHECKMULTISIGVERIFY = 0xaf"
definition OP_CHECKLOCKTIMEVERIFY :: u8 where "OP_CHECKLOCKTIMEVERIFY = 0xb1"
definition OP_CHECKSEQUENCEVERIFY :: u8 where "OP_CHECKSEQUENCEVERIFY = 0xb2"
definition OP_CHECKSIGADD :: u8 where "OP_CHECKSIGADD = 0xba"
definition MaxScriptSize :: nat where "MaxScriptSize = 10000"
definition MaxScriptElementSize :: nat where "MaxScriptElementSize = 520"

lemmas opcode_defs =
  OP_0_def OP_DATA_1_def OP_DATA_32_def OP_1_def OP_VERIFY_def OP_DROP_def OP_NUMEQUAL_def
  OP_CHECKSIG_def OP_CHECKSIGVERIFY_def OP_CHECKMULTISIG_def OP_CHECKMULTISIGVERIFY_def
  OP_CHECKLOCKTIMEVERIFY_def OP_CHECKSEQUENCEVERIFY_def OP_CHECKSIGADD_def
  OP_PUSHDATA1_def OP_PUSHDATA4_def

definition isDataPush :: "u8 \<Rightarrow> bool" where
  "isDataPush opcode \<longleftrightarrow> opcode \<ge> OP_DATA_1 \<and> opcode \<le> OP_PUSHDATA4"

subsection \<open>Condition scripts\<close>

definition forbiddenOpcodes :: "u8 list" where
  "forbiddenOpcodes =
     [OP_CHECKMULTISIG, OP_CHECKSIG, OP_CHECKSIGVERIFY, OP_CHECKSIGADD, OP_CHECKMULTISIGVERIFY,
      OP_CHECKLOCKTIMEVERIFY, OP_CHECKSEQUENCEVERIFY]"

definition validateConditionScript :: "'k txscript \<Rightarrow> bytes \<Rightarrow> unit gores" where
  "validateConditionScript lib script =
     guard_err (length script > MaxScriptSize)
       (Errorf (''condition script too large: '' @ dec_string (length script)))
       (let (tokens, err) = ts_Tokenize lib script
        in rbind
             (check_all (\<lambda>t. guard_err (tk_Opcode t \<in> set forbiddenOpcodes)
                (Errorf ''forbidden opcode in condition script'') (Inr ())) tokens)
             (\<lambda>_. case err of
                None \<Rightarrow> Inr ()
              | Some e \<Rightarrow> Inl (Errorw ''failed to parse condition script: '' e)))"

definition EvaluateScriptToBool :: "'k txscript \<Rightarrow> bytes \<Rightarrow> bytes list \<Rightarrow> bool gores" where
  "EvaluateScriptToBool lib script witness =
     rbind (validateConditionScript lib script) (\<lambda>_.
     rbind (check_all (\<lambda>element. guard_err (length element > MaxScriptElementSize)
              (Errorf ''condition witness element exceeds max script element size'') (Inr ())) witness) (\<lambda>_.
     rbind (map_err (Errorw ''failed to create script engine: '') (ts_NewEngine lib script)) (\<lambda>_.
       case ts_Execute lib script witness of
         Inl ErrEvalFalse \<Rightarrow> Inr False
       | Inl (ExecError e) \<Rightarrow> Inl e
       | Inr finalStack \<Rightarrow>
           guard_err (length finalStack \<noteq> 0)
             (Errorf (''script must return zero value on the stack, got '' @ dec_string (length finalStack)))
             (Inr True))))"

definition ReadTxWitness :: "'k txscript \<Rightarrow> bytes \<Rightarrow> bytes list gores" where
  "ReadTxWitness lib witnessSerialized =
     rbind (ts_ReadVarInt lib witnessSerialized) (\<lambda>(witCount, r).
       guard_err (unat witCount > length r)
         (Errorf (''invalid witness count: '' @ dec_string (unat witCount) @
                  '' exceeds remaining bytes: '' @ dec_string (length r)))
         (rbind (read_n (ts_ReadVarBytes lib MaxScriptSize) (unat witCount) r) (\<lambda>(witness, _).
            Inr witness)))"

subsection \<open>Multisig closures\<close>

datatype MultisigType = MultisigTypeChecksig | MultisigTypeChecksigAdd

record 'k MultisigClosure =
  ms_PubKeys :: "'k list"
  ms_Type :: MultisigType

fun add_checksig :: "'k txscript \<Rightarrow> 'k list \<Rightarrow> bytes \<Rightarrow> bytes gores" where
  "add_checksig lib [] s = Inr s"
| "add_checksig lib (pubkey # ks) s =
     rbind (ts_AddData lib (ts_SerializePubKey lib pubkey) s) (\<lambda>s.
     rbind (ts_AddOp lib (if ks = [] then OP_CHECKSIG else OP_CHECKSIGVERIFY) s) (\<lambda>s.
       add_checksig lib ks s))"

fun add_checksigadd :: "'k txscript \<Rightarrow> nat \<Rightarrow> 'k list \<Rightarrow> bytes \<Rightarrow> bytes gores" where
  "add_checksigadd lib i [] s = Inr s"
| "add_checksigadd lib i (pubkey # ks) s =
     rbind (ts_AddData lib (ts_SerializePubKey lib pubkey) s) (\<lambda>s.
     rbind (ts_AddOp lib (if i = 0 then OP_CHECKSIG else OP_CHECKSIGADD) s) (\<lambda>s.
       add_checksigadd lib (Suc i) ks s))"

definition MultisigClosure_Script :: "'k txscript \<Rightarrow> 'k MultisigClosure \<Rightarrow> bytes gores" where
  "MultisigClosure_Script lib f =
     (case ms_Type f of
        MultisigTypeChecksig \<Rightarrow> add_checksig lib (ms_PubKeys f) []
      | MultisigTypeChecksigAdd \<Rightarrow>
          rbind (add_checksigadd lib 0 (ms_PubKeys f) []) (\<lambda>s.
          rbind (ts_AddInt64 lib (int (length (ms_PubKeys f))) s) (\<lambda>s.
            ts_AddOp lib OP_NUMEQUAL s)))"

text \<open>The loops of \<open>decodeChecksig\<close> and \<open>decodeChecksigAdd\<close>. \<open>None\<close> is the early return of false;
  otherwise the loop gives the keys it read, the tokens it left, the error of the tokenizer at
  that point (none when the loop was left by \<open>break\<close>) and the last opcode.\<close>

fun checksig_loop ::
    "'k txscript \<Rightarrow> go_error option \<Rightarrow> script_token list \<Rightarrow> u8 option \<Rightarrow> 'k list \<Rightarrow>
       ('k list \<times> go_error option \<times> u8 option) option gores" where
  "checksig_loop lib err [] opcode pubkeys = Inr (Some (pubkeys, err, opcode))"
| "checksig_loop lib err (t # ts) opcode pubkeys =
     (if tk_Opcode t \<noteq> OP_DATA_32 then Inr None
      else rbind (ts_ParsePubKey lib (token_data t)) (\<lambda>pubkey.
        case ts of
          [] \<Rightarrow> Inr None
        | t2 # ts2 \<Rightarrow>
            if tk_Opcode t2 = OP_CHECKSIGVERIFY
            then checksig_loop lib err ts2 (Some (tk_Opcode t2)) (pubkeys @ [pubkey])
            else Inr (Some (pubkeys @ [pubkey], None, Some (tk_Opcode t2)))))"

fun checksigadd_loop ::
    "'k txscript \<Rightarrow> go_error option \<Rightarrow> script_token list \<Rightarrow> u8 option \<Rightarrow> 'k list \<Rightarrow>
       ('k list \<times> script_token list \<times> go_error option \<times> u8 option) option gores" where
  "checksigadd_loop lib err [] opcode pubkeys = Inr (Some (pubkeys, [], err, opcode))"
| "checksigadd_loop lib err (t # ts) opcode pubkeys =
     (if ts_IsSmallInt lib (tk_Opcode t) then Inr (Some (pubkeys, ts, None, Some (tk_Opcode t)))
      else if tk_Opcode t \<noteq> OP_DATA_32 then Inr None
      else rbind (ts_ParsePubKey lib (token_data t)) (\<lambda>pubkey.
        case ts of
          [] \<Rightarrow> Inr None
        | t2 # ts2 \<Rightarrow>
            if tk_Opcode t2 = OP_CHECKSIGADD \<or> tk_Opcode t2 = OP_CHECKSIG
            then checksigadd_loop lib err ts2 (Some (tk_Opcode t2)) (pubkeys @ [pubkey])
            else Inr None))"

text \<open>\<open>Opcode()\<close> before any token was read is a nil dereference.\<close>

definition nil_dereference :: go_error where
  "nil_dereference = Errorf ''runtime error: invalid memory address or nil pointer dereference''"

definition rebuilt :: "bytes gores \<Rightarrow> bytes \<Rightarrow> 'c \<Rightarrow> 'c option gores" where
  "rebuilt made script c = rbind made (\<lambda>b. Inr (if b = script then Some c else None))"

definition decodeChecksig :: "'k txscript \<Rightarrow> bytes \<Rightarrow> 'k MultisigClosure option gores" where
  "decodeChecksig lib script =
     (let (tokens, tokErr) = ts_Tokenize lib script
      in rbind (checksig_loop lib tokErr tokens None []) (\<lambda>res.
        case res of
          None \<Rightarrow> Inr None
        | Some (pubkeys, err, opcode) \<Rightarrow>
            if err \<noteq> None then Inr None
            else (case opcode of
              None \<Rightarrow> Inl nil_dereference
            | Some opc \<Rightarrow>
                if opc \<noteq> OP_CHECKSIG then Inr None
                else if length pubkeys = 0 then Inr None
                else let f = \<lparr>ms_PubKeys = pubkeys, ms_Type = MultisigTypeChecksig\<rparr>
                     in rebuilt (MultisigClosure_Script lib f) script f)))"

definition decodeChecksigAdd :: "'k txscript \<Rightarrow> bytes \<Rightarrow> 'k MultisigClosure option gores" where
  "decodeChecksigAdd lib script =
     (let (tokens, tokErr) = ts_Tokenize lib script
      in rbind (checksigadd_loop lib tokErr tokens None []) (\<lambda>res.
        case res of
          None \<Rightarrow> Inr None
        | Some (pubkeys, ts, err, opcode) \<Rightarrow>
            if err \<noteq> None then Inr None
            else (case opcode of
              None \<Rightarrow> Inl nil_dereference
            | Some opc \<Rightarrow>
                if int (length pubkeys) \<noteq> ts_AsSmallInt lib opc then Inr None
                else (case ts of
                  [] \<Rightarrow> Inr None
                | t # _ \<Rightarrow>
                    if tk_Opcode t \<noteq> OP_NUMEQUAL then Inr None
                    else let f = \<lparr>ms_PubKeys = pubkeys, ms_Type = MultisigTypeChecksigAdd\<rparr>
                         in rebuilt (MultisigClosure_Script lib f) script f))))"

definition MultisigClosure_Decode :: "'k txscript \<Rightarrow> bytes \<Rightarrow> 'k MultisigClosure option gores" where
  "MultisigClosure_Decode lib script =
     guard_err (length script = 0) (Errorf ''failed to decode: script is empty'')
       (rbind (map_err (Errorw ''failed to decode checksig: '') (decodeChecksig lib script)) (\<lambda>valid.
          case valid of
            Some f \<Rightarrow> Inr (Some f)
          | None \<Rightarrow> map_err (Errorw ''failed to decode checksigadd: '') (decodeChecksigAdd lib script)))"

type_synonym signatures = "string \<rightharpoonup> bytes"

fun add_signatures :: "'k txscript \<Rightarrow> signatures \<Rightarrow> 'k list \<Rightarrow> bytes list gores" where
  "add_signatures lib sigs [] = Inr []"
| "add_signatures lib sigs (pubkey # ks) =
     (let xOnlyPubkey = hex_EncodeToString (ts_SerializePubKey lib pubkey)
      in case sigs xOnlyPubkey of
           None \<Rightarrow> Inl (Errorf (''missing signature for pubkey '' @ xOnlyPubkey))
         | Some sg \<Rightarrow> rbind (add_signatures lib sigs ks) (\<lambda>w. Inr (sg # w)))"

definition MultisigClosure_Witness ::
    "'k txscript \<Rightarrow> bytes \<Rightarrow> signatures \<Rightarrow> 'k MultisigClosure \<Rightarrow> bytes list gores" where
  "MultisigClosure_Witness lib controlBlock sigs f =
     rbind (add_signatures lib sigs (rev (ms_PubKeys f))) (\<lambda>witness.
     rbind (map_err (Errorw ''failed to generate script: '') (MultisigClosure_Script lib f)) (\<lambda>script.
       Inr (witness @ [script, controlBlock])))"

text \<open>The other closures take the multisig witness and put their own script in the place before
  the control block.\<close>

definition replace_script :: "bytes gores \<Rightarrow> bytes list \<Rightarrow> bytes list gores" where
  "replace_script made witness =
     rbind (map_err (Errorw ''failed to generate script: '') made) (\<lambda>script.
       Inr (witness[length witness - 2 := script]))"

subsection \<open>Closures with a relative or an absolute lock time\<close>

record 'k CSVMultisigClosure =
  csv_Multisig :: "'k MultisigClosure"
  csv_Locktime :: RelativeLocktime

definition CSVMultisigClosure_Script :: "'k txscript \<Rightarrow> 'k CSVMultisigClosure \<Rightarrow> bytes gores" where
  "CSVMultisigClosure_Script lib d =
     rbind (BIP68Sequence (ts_LockTimeToSequence lib) (csv_Locktime d)) (\<lambda>sequence.
     rbind (ts_AddInt64 lib (uint sequence) []) (\<lambda>s.
     rbind (ts_AddOps lib [OP_CHECKSEQUENCEVERIFY, OP_DROP] s) (\<lambda>csvScript.
     rbind (MultisigClosure_Script lib (csv_Multisig d)) (\<lambda>multisigScript.
       Inr (csvScript @ multisigScript)))))"

definition CSVMultisigClosure_Witness ::
    "'k txscript \<Rightarrow> bytes \<Rightarrow> signatures \<Rightarrow> 'k CSVMultisigClosure \<Rightarrow> bytes list gores" where
  "CSVMultisigClosure_Witness lib controlBlock sigs f =
     rbind (MultisigClosure_Witness lib controlBlock sigs (csv_Multisig f))
       (replace_script (CSVMultisigClosure_Script lib f))"

text \<open>The loop that expects a list of opcodes; it gives the bytes after them.\<close>

fun expect_ops :: "u8 list \<Rightarrow> bytes \<Rightarrow> script_token list \<Rightarrow> bytes option" where
  "expect_ops [] rest ts = Some rest"
| "expect_ops (opCode # ops) rest [] = None"
| "expect_ops (opCode # ops) rest (t # ts) =
     (if tk_Opcode t \<noteq> opCode then None else expect_ops ops (tk_Rest t) ts)"

definition CSVMultisigClosure_Decode :: "'k txscript \<Rightarrow> bytes \<Rightarrow> 'k CSVMultisigClosure option gores" where
  "CSVMultisigClosure_Decode lib script =
     guard_err (length script = 0) (Errorf ''empty script'')
       (case fst (ts_Tokenize lib script) of
          [] \<Rightarrow> Inr None
        | t # ts \<Rightarrow>
            let scriptNumOpcode = tk_Opcode t; small = ts_IsSmallInt lib scriptNumOpcode
            in if \<not> small \<and> \<not> isDataPush scriptNumOpcode then Inr None
               else
                 let sequence =
                       (if small then (if scriptNumOpcode = OP_0 then [] else [scriptNumOpcode - (OP_1 - 1)])
                        else token_data t)
                 in case expect_ops [OP_CHECKSEQUENCEVERIFY, OP_DROP] (tk_Rest t) ts of
                      None \<Rightarrow> Inr None
                    | Some subScript \<Rightarrow>
                        rbind (BIP68DecodeSequenceFromBytes (ts_MakeScriptNum lib) sequence) (\<lambda>locktime.
                        rbind (MultisigClosure_Decode lib subScript) (\<lambda>valid.
                          Inr (map_option (\<lambda>m. \<lparr>csv_Multisig = m, csv_Locktime = locktime\<rparr>) valid))))"

record 'k CLTVMultisigClosure =
  cltv_Multisig :: "'k MultisigClosure"
  cltv_Locktime :: u32

definition CLTVMultisigClosure_Script :: "'k txscript \<Rightarrow> 'k CLTVMultisigClosure \<Rightarrow> bytes gores" where
  "CLTVMultisigClosure_Script lib d =
     rbind (ts_AddInt64 lib (uint (cltv_Locktime d)) []) (\<lambda>s.
     rbind (ts_AddOps lib [OP_CHECKLOCKTIMEVERIFY, OP_DROP] s) (\<lambda>cltvScript.
     rbind (MultisigClosure_Script lib (cltv_Multisig d)) (\<lambda>multisigScript.
       Inr (cltvScript @ multisigScript))))"

definition CLTVMultisigClosure_Witness ::
    "'k txscript \<Rightarrow> bytes \<Rightarrow> signatures \<Rightarrow> 'k CLTVMultisigClosure \<Rightarrow> bytes list gores" where
  "CLTVMultisigClosure_Witness lib controlBlock sigs f =
     rbind (MultisigClosure_Witness lib controlBlock sigs (cltv_Multisig f))
       (replace_script (CLTVMultisigClosure_Script lib f))"

text \<open>The lock time of the first token: \<open>None\<close> for the return of false.\<close>

definition cltv_locktime :: "'k txscript \<Rightarrow> script_token \<Rightarrow> u32 option gores" where
  "cltv_locktime lib t =
     (if ts_IsSmallInt lib (tk_Opcode t)
      then Inr (Some (word_of_int (ts_AsSmallInt lib (tk_Opcode t))))
      else if \<not> isDataPush (tk_Opcode t) then Inr None
      else rbind (ts_MakeScriptNum lib (token_data t) True 6) (\<lambda>locktimeValue.
        if sint locktimeValue < 0 \<or> sint locktimeValue > 2 ^ 32 - 1 then Inr None
        else
          let locktime = (ucast locktimeValue :: u32)
          in guard_err (locktime > 0 \<and> locktime \<le> 16)
               (Errorf (''expected minimal encoding for locktime value '' @ dec_string (unat locktime)))
               (Inr (Some locktime))))"

definition CLTVMultisigClosure_Decode :: "'k txscript \<Rightarrow> bytes \<Rightarrow> 'k CLTVMultisigClosure option gores" where
  "CLTVMultisigClosure_Decode lib script =
     guard_err (length script = 0) (Errorf ''empty script'')
       (case fst (ts_Tokenize lib script) of
          [] \<Rightarrow> Inr None
        | t # ts \<Rightarrow>
            rbind (cltv_locktime lib t) (\<lambda>lt.
              case lt of
                None \<Rightarrow> Inr None
              | Some locktime \<Rightarrow>
                  (case expect_ops [OP_CHECKLOCKTIMEVERIFY, OP_DROP] (tk_Rest t) ts of
                     None \<Rightarrow> Inr None
                   | Some subScript \<Rightarrow>
                       rbind (MultisigClosure_Decode lib subScript) (\<lambda>valid.
                         Inr (map_option (\<lambda>m. \<lparr>cltv_Multisig = m, cltv_Locktime = locktime\<rparr>) valid)))))"

subsection \<open>Closures with a condition\<close>

record 'k ConditionMultisigClosure =
  cond_Multisig :: "'k MultisigClosure"
  cond_Condition :: bytes

record 'k ConditionCSVMultisigClosure =
  ccsv_CSV :: "'k CSVMultisigClosure"
  ccsv_Condition :: bytes

text \<open>The multisig script is made after the first two builder calls, but its error is returned
  before the one of the builder, which only \<open>Script()\<close> reports.\<close>

definition condition_script :: "'k txscript \<Rightarrow> bytes \<Rightarrow> bytes gores \<Rightarrow> bytes gores" where
  "condition_script lib condition multisig =
     rbind (map_err (Errorw ''failed to generate multisig script: '') multisig) (\<lambda>multisigScript.
     rbind (ts_AddOps lib condition []) (\<lambda>s1.
     rbind (ts_AddOp lib OP_VERIFY s1) (\<lambda>s2.
       ts_AddOps lib multisigScript s2)))"

definition ConditionMultisigClosure_Script :: "'k txscript \<Rightarrow> 'k ConditionMultisigClosure \<Rightarrow> bytes gores" where
  "ConditionMultisigClosure_Script lib f =
     condition_script lib (cond_Condition f) (MultisigClosure_Script lib (cond_Multisig f))"

definition ConditionCSVMultisigClosure_Script ::
    "'k txscript \<Rightarrow> 'k ConditionCSVMultisigClosure \<Rightarrow> bytes gores" where
  "ConditionCSVMultisigClosure_Script lib f =
     condition_script lib (ccsv_Condition f) (CSVMultisigClosure_Script lib (ccsv_CSV f))"

text \<open>The loop that collects the condition up to \<open>OP_VERIFY\<close>, with the bytes left after it.\<close>

fun condition_loop :: "script_token list \<Rightarrow> bytes \<Rightarrow> bytes \<Rightarrow> bytes \<times> bytes" where
  "condition_loop [] rest condition = (condition, rest)"
| "condition_loop (t # ts) rest condition =
     (if tk_Opcode t = OP_VERIFY then (condition, tk_Rest t)
      else condition_loop ts (tk_Rest t) (condition @ tk_Opcode t # token_data t))"

definition ConditionMultisigClosure_Decode ::
    "'k txscript \<Rightarrow> bytes \<Rightarrow> 'k ConditionMultisigClosure option gores" where
  "ConditionMultisigClosure_Decode lib script =
     guard_err (length script = 0) (Errorf ''empty script'')
       (let (condition, subScript) = condition_loop (fst (ts_Tokenize lib script)) script []
        in rbind (validateConditionScript lib condition) (\<lambda>_.
           rbind (MultisigClosure_Decode lib subScript) (\<lambda>valid.
             case valid of
               None \<Rightarrow> Inr None
             | Some m \<Rightarrow>
                 let f = \<lparr>cond_Multisig = m, cond_Condition = condition\<rparr>
                 in rebuilt (ConditionMultisigClosure_Script lib f) script f)))"

definition ConditionCSVMultisigClosure_Decode ::
    "'k txscript \<Rightarrow> bytes \<Rightarrow> 'k ConditionCSVMultisigClosure option gores" where
  "ConditionCSVMultisigClosure_Decode lib script =
     guard_err (length script = 0) (Errorf ''empty script'')
       (let (condition, subScript) = condition_loop (fst (ts_Tokenize lib script)) script []
        in rbind (validateConditionScript lib condition) (\<lambda>_.
           rbind (CSVMultisigClosure_Decode lib subScript) (\<lambda>valid.
             case valid of
               None \<Rightarrow> Inr None
             | Some m \<Rightarrow>
                 let f = \<lparr>ccsv_CSV = m, ccsv_Condition = condition\<rparr>
                 in rebuilt (ConditionCSVMultisigClosure_Script lib f) script f)))"

definition ConditionWitnessKey :: string where
  "ConditionWitnessKey = ''condition''"

text \<open>The common body of the two \<open>Witness\<close> methods with a condition.\<close>

definition condition_witness ::
    "'k txscript \<Rightarrow> bytes \<Rightarrow> signatures \<Rightarrow> bytes \<Rightarrow> bytes gores \<Rightarrow> bytes list gores \<Rightarrow> bytes list gores" where
  "condition_witness lib controlBlock args condition made multisig =
     rbind (map_err (Errorw ''failed to generate script: '') made) (\<lambda>script.
     rbind (map_err (Errorw ''failed to read condition witness: '')
              (ReadTxWitness lib (case args ConditionWitnessKey of None \<Rightarrow> [] | Some b \<Rightarrow> b))) (\<lambda>condWitness.
     rbind (map_err (Errorw ''failed to execute condition: '')
              (EvaluateScriptToBool lib condition condWitness)) (\<lambda>returnValue.
     guard_err (\<not> returnValue) (Errorf ''condition evaluated to false'')
       (rbind multisig (\<lambda>multisigWitness.
          Inr (take (length multisigWitness - 2) multisigWitness @ condWitness @ [script, controlBlock]))))))"

definition ConditionMultisigClosure_Witness ::
    "'k txscript \<Rightarrow> bytes \<Rightarrow> signatures \<Rightarrow> 'k ConditionMultisigClosure \<Rightarrow> bytes list gores" where
  "ConditionMultisigClosure_Witness lib controlBlock args f =
     condition_witness lib controlBlock args (cond_Condition f) (ConditionMultisigClosure_Script lib f)
       (MultisigClosure_Witness lib controlBlock args (cond_Multisig f))"

definition ConditionCSVMultisigClosure_Witness ::
    "'k txscript \<Rightarrow> bytes \<Rightarrow> signatures \<Rightarrow> 'k ConditionCSVMultisigClosure \<Rightarrow> bytes list gores" where
  "ConditionCSVMultisigClosure_Witness lib controlBlock args f =
     condition_witness lib controlBlock args (ccsv_Condition f) (ConditionCSVMultisigClosure_Script lib f)
       (CSVMultisigClosure_Witness lib controlBlock args (ccsv_CSV f))"

subsection \<open>Any closure\<close>

datatype 'k Closure =
    Multisig "'k MultisigClosure"
  | CSVMultisig "'k CSVMultisigClosure"
  | CLTVMultisig "'k CLTVMultisigClosure"
  | ConditionMultisig "'k ConditionMultisigClosure"
  | ConditionCSVMultisig "'k ConditionCSVMultisigClosure"

definition Closure_Script :: "'k txscript \<Rightarrow> 'k Closure \<Rightarrow> bytes gores" where
  "Closure_Script lib c =
     (case c of
        Multisig f \<Rightarrow> MultisigClosure_Script lib f
      | CSVMultisig f \<Rightarrow> CSVMultisigClosure_Script lib f
      | CLTVMultisig f \<Rightarrow> CLTVMultisigClosure_Script lib f
      | ConditionMultisig f \<Rightarrow> ConditionMultisigClosure_Script lib f
      | ConditionCSVMultisig f \<Rightarrow> ConditionCSVMultisigClosure_Script lib f)"

definition Closure_Witness ::
    "'k txscript \<Rightarrow> bytes \<Rightarrow> signatures \<Rightarrow> 'k Closure \<Rightarrow> bytes list gores" where
  "Closure_Witness lib controlBlock opts c =
     (case c of
        Multisig f \<Rightarrow> MultisigClosure_Witness lib controlBlock opts f
      | CSVMultisig f \<Rightarrow> CSVMultisigClosure_Witness lib controlBlock opts f
      | CLTVMultisig f \<Rightarrow> CLTVMultisigClosure_Witness lib controlBlock opts f
      | ConditionMultisig f \<Rightarrow> ConditionMultisigClosure_Witness lib controlBlock opts f
      | ConditionCSVMultisig f \<Rightarrow> ConditionCSVMultisigClosure_Witness lib controlBlock opts f)"

text \<open>The loop over the closure types: the first that decodes wins, and errors are collected.\<close>

fun try_decoders :: "'c option gores list \<Rightarrow> bool \<Rightarrow> ('c, bool) res" where
  "try_decoders [] failed = Inr failed"
| "try_decoders (d # ds) failed =
     (case d of
        Inl _ \<Rightarrow> try_decoders ds True
      | Inr (Some c) \<Rightarrow> Inl c
      | Inr None \<Rightarrow> try_decoders ds failed)"

definition as_closure :: "('c \<Rightarrow> 'k Closure) \<Rightarrow> 'c option gores \<Rightarrow> 'k Closure option gores" where
  "as_closure wrap r = rbind r (\<lambda>valid. Inr (map_option wrap valid))"

definition closure_decoders :: "'k txscript \<Rightarrow> bytes \<Rightarrow> 'k Closure option gores list" where
  "closure_decoders lib script =
     [as_closure CSVMultisig (CSVMultisigClosure_Decode lib script),
      as_closure CLTVMultisig (CLTVMultisigClosure_Decode lib script),
      as_closure Multisig (MultisigClosure_Decode lib script),
      as_closure ConditionMultisig (ConditionMultisigClosure_Decode lib script),
      as_closure ConditionCSVMultisig (ConditionCSVMultisigClosure_Decode lib script)]"

definition DecodeClosure :: "'k txscript \<Rightarrow> bytes \<Rightarrow> 'k Closure gores" where
  "DecodeClosure lib script =
     guard_err (length script = 0) (Errorf ''cannot decode empty script'')
       (guard_err (ts_ScriptHasOpSuccess lib script)
         (Errorf ''script contains forbidden OP_SUCCESS opcode'')
         (case try_decoders (closure_decoders lib script) False of
            Inl c \<Rightarrow> Inr c
          | Inr True \<Rightarrow> Inl (Errorf (''failed to decode script '' @ hex_EncodeToString script))
          | Inr False \<Rightarrow>
              Inl (Errorf (''script does not match any known closure type: '' @
                           hex_EncodeToString script))))"

subsection \<open>What the library promises\<close>

text \<open>The documented behaviour of btcd that the closures rely on. A script is a sequence of tokens:
  an opcode that pushes no data is one byte, a push of 1 to 75 bytes is the length followed by the
  bytes. The builder appends, within the maximal script size, and pushes data and numbers in the
  shortest form; script numbers are read back as they were written.\<close>

definition token_of :: "u8 \<Rightarrow> bytes option \<Rightarrow> bytes \<Rightarrow> script_token" where
  "token_of opc data rest = \<lparr>tk_Opcode = opc, tk_Data = data, tk_Rest = rest\<rparr>"

definition tokenizer_law :: "'k txscript \<Rightarrow> bool" where
  "tokenizer_law lib \<longleftrightarrow>
     ts_Tokenize lib [] = ([], None) \<and>
     (\<forall>opc rest. opc = 0 \<or> 0x4f \<le> opc \<longrightarrow>
        ts_Tokenize lib (opc # rest) =
          (token_of opc None rest # fst (ts_Tokenize lib rest), snd (ts_Tokenize lib rest))) \<and>
     (\<forall>d rest. 0 < length d \<and> length d \<le> 75 \<longrightarrow>
        ts_Tokenize lib (of_nat (length d) # d @ rest) =
          (token_of (of_nat (length d)) (Some d) rest # fst (ts_Tokenize lib rest),
           snd (ts_Tokenize lib rest)))"

definition appends :: "nat \<Rightarrow> bytes \<Rightarrow> bytes gores \<Rightarrow> bool" where
  "appends n s' r \<longleftrightarrow> (n \<le> MaxScriptSize \<longrightarrow> r = Inr s') \<and> (\<forall>s''. r = Inr s'' \<longrightarrow> s'' = s')"

lemma appendsD:
  assumes "appends n s' r"
  shows "n \<le> MaxScriptSize \<Longrightarrow> r = Inr s'" and "r = Inr s'' \<Longrightarrow> s'' = s'"
  using assms unfolding appends_def by blast+

definition builder_law :: "'k txscript \<Rightarrow> bool" where
  "builder_law lib \<longleftrightarrow>
     (\<forall>opc s. appends (length s + 1) (s @ [opc]) (ts_AddOp lib opc s)) \<and>
     (\<forall>ops s. appends (length s + length ops) (s @ ops) (ts_AddOps lib ops s)) \<and>
     (\<forall>d s. 2 \<le> length d \<and> length d \<le> 75 \<longrightarrow>
        appends (length s + 1 + length d) (s @ of_nat (length d) # d) (ts_AddData lib d s)) \<and>
     (\<forall>s. appends (length s + 1) (s @ [0]) (ts_AddInt64 lib 0 s)) \<and>
     (\<forall>v s. 1 \<le> v \<and> v \<le> 16 \<longrightarrow> appends (length s + 1) (s @ [0x50 + word_of_int v]) (ts_AddInt64 lib v s)) \<and>
     (\<forall>v. 16 < v \<and> v < 2 ^ 32 \<longrightarrow>
        (\<exists>d. 0 < length d \<and> length d \<le> 5 \<and>
          (\<forall>s. appends (length s + 1 + length d) (s @ of_nat (length d) # d) (ts_AddInt64 lib v s)) \<and>
          (\<forall>n \<ge> length d. ts_MakeScriptNum lib d True n = Inr (word_of_int v)))) \<and>
     ts_MakeScriptNum lib [] True 0 = Inr 0 \<and>
     (\<forall>v. 1 \<le> v \<and> v \<le> 16 \<longrightarrow> ts_MakeScriptNum lib [v] True 1 = Inr (ucast v))"

definition txscript_law :: "'k txscript \<Rightarrow> bool" where
  "txscript_law lib \<longleftrightarrow>
     tokenizer_law lib \<and> builder_law lib \<and> lock_time_to_sequence_law (ts_LockTimeToSequence lib) \<and>
     (\<forall>opc. ts_IsSmallInt lib opc \<longleftrightarrow> opc = 0 \<or> 0x51 \<le> opc \<and> opc \<le> 0x60) \<and>
     ts_AsSmallInt lib 0 = 0 \<and>
     (\<forall>opc. 0x51 \<le> opc \<and> opc \<le> 0x60 \<longrightarrow> ts_AsSmallInt lib opc = uint (opc - 0x50)) \<and>
     (\<forall>k. length (ts_SerializePubKey lib k) = 32)"

lemma tokenize_simps:
  assumes "txscript_law lib"
  shows "ts_Tokenize lib [] = ([], None)"
    and "opc = 0 \<or> 0x4f \<le> opc \<Longrightarrow>
      ts_Tokenize lib (opc # rest) =
        (token_of opc None rest # fst (ts_Tokenize lib rest), snd (ts_Tokenize lib rest))"
    and "0 < length d \<Longrightarrow> length d \<le> 75 \<Longrightarrow> opc = of_nat (length d) \<Longrightarrow>
      ts_Tokenize lib (opc # d @ rest) =
        (token_of opc (Some d) rest # fst (ts_Tokenize lib rest), snd (ts_Tokenize lib rest))"
    and "ts_Tokenize lib (0x20 # ts_SerializePubKey lib k @ rest) =
        (token_of 0x20 (Some (ts_SerializePubKey lib k)) rest # fst (ts_Tokenize lib rest),
         snd (ts_Tokenize lib rest))"
proof -
  have l: "length (ts_SerializePubKey lib k) = 32" for k using assms by (simp add: txscript_law_def)
  show "ts_Tokenize lib [] = ([], None)"
    and "opc = 0 \<or> 0x4f \<le> opc \<Longrightarrow>
      ts_Tokenize lib (opc # rest) =
        (token_of opc None rest # fst (ts_Tokenize lib rest), snd (ts_Tokenize lib rest))"
    using assms unfolding txscript_law_def tokenizer_law_def by (blast, blast)
  show push: "0 < length d \<Longrightarrow> length d \<le> 75 \<Longrightarrow> opc = of_nat (length d) \<Longrightarrow>
      ts_Tokenize lib (opc # d @ rest) =
        (token_of opc (Some d) rest # fst (ts_Tokenize lib rest), snd (ts_Tokenize lib rest))" for d opc
    using assms unfolding txscript_law_def tokenizer_law_def by blast
  show "ts_Tokenize lib (0x20 # ts_SerializePubKey lib k @ rest) =
        (token_of 0x20 (Some (ts_SerializePubKey lib k)) rest # fst (ts_Tokenize lib rest),
         snd (ts_Tokenize lib rest))"
    using push [of "ts_SerializePubKey lib k" "0x20"] l by simp
qed

lemma token_of_simps [simp]:
  "tk_Opcode (token_of opc d r) = opc" "tk_Rest (token_of opc d r) = r"
  "token_data (token_of opc (Some x) r) = x" "token_data (token_of opc None r) = []"
  by (simp_all add: token_of_def token_data_def)

lemma builder_simps:
  assumes "txscript_law lib"
  shows "ts_AddOp lib opc s = Inr s' \<Longrightarrow> s' = s @ [opc]"
    and "ts_AddOps lib ops s = Inr s' \<Longrightarrow> s' = s @ ops"
    and "ts_AddData lib (ts_SerializePubKey lib k) s = Inr s' \<Longrightarrow> s' = s @ 0x20 # ts_SerializePubKey lib k"
    and "length s < MaxScriptSize \<Longrightarrow> ts_AddOp lib opc s = Inr (s @ [opc])"
    and "length s + 33 \<le> MaxScriptSize \<Longrightarrow>
      ts_AddData lib (ts_SerializePubKey lib k) s = Inr (s @ 0x20 # ts_SerializePubKey lib k)"
proof -
  have l: "length (ts_SerializePubKey lib k) = 32" for k using assms by (simp add: txscript_law_def)
  note laws = assms [unfolded txscript_law_def builder_law_def]
  have "\<forall>d s. 2 \<le> length d \<and> length d \<le> 75 \<longrightarrow>
      appends (length s + 1 + length d) (s @ of_nat (length d) # d) (ts_AddData lib d s)"
    using laws by (elim conjE)
  note data = this [rule_format, of "ts_SerializePubKey lib k", unfolded l]
  have b3: "appends (33 + length s) (s @ 0x20 # ts_SerializePubKey lib k) (ts_AddData lib (ts_SerializePubKey lib k) s)" for s
    using data [of s] by (simp add: of_nat_numeral)
  have b1: "\<forall>opc s. appends (length s + 1) (s @ [opc]) (ts_AddOp lib opc s)"
    using laws by (elim conjE)
  have b2: "\<forall>ops s. appends (length s + length ops) (s @ ops) (ts_AddOps lib ops s)"
    using laws by (elim conjE)
  note b = b1 [rule_format] b2 [rule_format]
  show "ts_AddOp lib opc s = Inr s' \<Longrightarrow> s' = s @ [opc]"
    using appendsD(2) [OF b(1) [of s opc]] .
  show "length s < MaxScriptSize \<Longrightarrow> ts_AddOp lib opc s = Inr (s @ [opc])"
    by (rule appendsD(1) [OF b(1)]) simp
  show "ts_AddOps lib ops s = Inr s' \<Longrightarrow> s' = s @ ops"
    using appendsD(2) [OF b(2) [of s ops]] .
  show "ts_AddData lib (ts_SerializePubKey lib k) s = Inr s' \<Longrightarrow> s' = s @ 0x20 # ts_SerializePubKey lib k"
    using appendsD(2) [OF b3 [of s]] .
  show "length s + 33 \<le> MaxScriptSize \<Longrightarrow>
      ts_AddData lib (ts_SerializePubKey lib k) s = Inr (s @ 0x20 # ts_SerializePubKey lib k)"
    by (rule appendsD(1) [OF b3]) simp
qed

subsection \<open>The bytes and tokens of a multisig script\<close>

fun checksig_bytes :: "'k txscript \<Rightarrow> 'k list \<Rightarrow> bytes" where
  "checksig_bytes lib [] = []"
| "checksig_bytes lib (k # ks) =
     0x20 # ts_SerializePubKey lib k @
       (if ks = [] then OP_CHECKSIG else OP_CHECKSIGVERIFY) # checksig_bytes lib ks"

fun checksigadd_bytes :: "'k txscript \<Rightarrow> nat \<Rightarrow> 'k list \<Rightarrow> bytes" where
  "checksigadd_bytes lib i [] = []"
| "checksigadd_bytes lib i (k # ks) =
     0x20 # ts_SerializePubKey lib k @
       (if i = 0 then OP_CHECKSIG else OP_CHECKSIGADD) # checksigadd_bytes lib (Suc i) ks"

lemma add_checksig_bytes:
  assumes "txscript_law lib"
  shows "add_checksig lib ks s = Inr s' \<Longrightarrow> s' = s @ checksig_bytes lib ks"
    and "add_checksigadd lib i ks s = Inr s' \<Longrightarrow> s' = s @ checksigadd_bytes lib i ks"
proof -
  note b = builder_simps(1,3) [OF assms]
  show "add_checksig lib ks s = Inr s' \<Longrightarrow> s' = s @ checksig_bytes lib ks"
    by (induction ks arbitrary: s) (fastforce simp: rbind_eq_Inr dest: b)+
  show "add_checksigadd lib i ks s = Inr s' \<Longrightarrow> s' = s @ checksigadd_bytes lib i ks"
    by (induction ks arbitrary: i s) (fastforce simp: rbind_eq_Inr dest: b)+
qed

text \<open>A number from 1 to 16 is one opcode, any other 32-bit number but zero a push of at most
  five bytes.\<close>

lemma AddInt64_bytes:
  assumes "txscript_law lib" and "0 \<le> v" "v < 2 ^ 32" and "ts_AddInt64 lib v s = Inr s'"
  obtains (zero) "v = 0" "s' = s @ [0]"
  | (small) "1 \<le> v" "v \<le> 16" "s' = s @ [0x50 + word_of_int v]"
  | (push) d where "16 < v" "0 < length d" "length d \<le> 5" "s' = s @ of_nat (length d) # d"
      "\<And>n. length d \<le> n \<Longrightarrow> ts_MakeScriptNum lib d True n = Inr (word_of_int v)"
proof -
  note laws = assms(1) [unfolded txscript_law_def builder_law_def]
  have b0: "\<forall>s. appends (length s + 1) (s @ [0]) (ts_AddInt64 lib 0 s)"
    using laws by (elim conjE)
  have b1: "\<forall>v s. 1 \<le> v \<and> v \<le> 16 \<longrightarrow>
      appends (length s + 1) (s @ [0x50 + word_of_int v]) (ts_AddInt64 lib v s)"
    using laws by (elim conjE)
  have b2: "\<forall>v. 16 < v \<and> v < 2 ^ 32 \<longrightarrow>
      (\<exists>d. 0 < length d \<and> length d \<le> 5 \<and>
        (\<forall>s. appends (length s + 1 + length d) (s @ of_nat (length d) # d) (ts_AddInt64 lib v s)) \<and>
        (\<forall>n \<ge> length d. ts_MakeScriptNum lib d True n = Inr (word_of_int v)))"
    using laws by (elim conjE)
  consider "v = 0" | "1 \<le> v" "v \<le> 16" | "16 < v" using assms(2) by linarith
  then show thesis
  proof cases
    case 1
    have "appends (length s + 1) (s @ [0]) (ts_AddInt64 lib 0 s)" using b0 by blast
    then show thesis using 1 assms(4) zero appendsD(2) by blast
  next
    case 2
    have "appends (length s + 1) (s @ [0x50 + word_of_int v]) (ts_AddInt64 lib v s)" using b1 2 by blast
    then show thesis using 2 assms(4) small appendsD(2) by blast
  next
    case 3
    obtain d where d: "0 < length d" "length d \<le> 5"
      "\<forall>s. appends (length s + 1 + length d) (s @ of_nat (length d) # d) (ts_AddInt64 lib v s)"
      "\<forall>n \<ge> length d. ts_MakeScriptNum lib d True n = Inr (word_of_int v)"
      using b2 3 assms(3) by blast
    show thesis using push [OF 3 d(1,2) appendsD(2) [OF d(3) [rule_format] assms(4)] d(4) [rule_format]] .
  qed
qed

lemma small_int_opcode:
  assumes "1 \<le> (v :: int)" and "v \<le> 16"
  shows "(0x51 :: u8) \<le> 0x50 + word_of_int v" and "0x50 + word_of_int v \<le> (0x60 :: u8)"
    and "uint (word_of_int v :: u8) = v"
proof -
  show u: "uint (word_of_int v :: u8) = v" using assms by (simp add: uint_word_of_int)
  have "uint (0x50 + word_of_int v :: u8) = 0x50 + v"
    using assms u by (simp add: uint_word_ariths)
  then show "(0x51 :: u8) \<le> 0x50 + word_of_int v" "0x50 + word_of_int v \<le> (0x60 :: u8)"
    using assms by (simp_all add: word_le_def)
qed

text \<open>The opcodes of a script of the library's tokens, in order.\<close>

definition opcodes :: "'k txscript \<Rightarrow> bytes \<Rightarrow> u8 list" where
  "opcodes lib s = map tk_Opcode (fst (ts_Tokenize lib s))"

lemma opcodes_simps:
  assumes "txscript_law lib"
  shows "opcodes lib [] = []"
    and "opc = 0 \<or> 0x4f \<le> opc \<Longrightarrow> opcodes lib (opc # rest) = opc # opcodes lib rest"
    and "0 < length d \<Longrightarrow> length d \<le> 75 \<Longrightarrow> opc = of_nat (length d) \<Longrightarrow>
      opcodes lib (opc # d @ rest) = opc # opcodes lib rest"
    and "opcodes lib (0x20 # ts_SerializePubKey lib k @ rest) = 0x20 # opcodes lib rest"
  unfolding opcodes_def using tokenize_simps [OF assms] by simp_all

lemma int_bytes_opcodes:
  assumes "txscript_law lib" and "0 \<le> v" "v < 2 ^ 32" and "ts_AddInt64 lib v s = Inr s'"
  shows "\<exists>b opc. s' = s @ b \<and> (\<forall>rest. opcodes lib (b @ rest) = opc # opcodes lib rest) \<and> opc \<le> 0x60"
proof (rule AddInt64_bytes [OF assms])
  assume zero: "v = 0" "s' = s @ [0]"
  then show ?thesis using opcodes_simps(2) [OF assms(1), of 0] by (intro exI [of _ "[0]"] exI [of _ 0]) simp
next
  assume small: "1 \<le> v" "v \<le> 16" "s' = s @ [0x50 + word_of_int v]"
  have "(0x4f :: u8) \<le> 0x50 + word_of_int v"
    using small_int_opcode(1) [OF small(1,2)] by (rule order_trans [rotated]) simp
  then show ?thesis using small small_int_opcode(2) [OF small(1,2)] opcodes_simps(2) [OF assms(1)]
    by (intro exI [of _ "[0x50 + word_of_int v]"] exI [of _ "0x50 + word_of_int v"]) simp
next
  fix d assume push: "16 < v" "0 < length d" "length d \<le> 5" "s' = s @ of_nat (length d) # d"
  have "(of_nat (length d) :: u8) \<le> 0x60"
    using push(2,3) by (simp add: word_le_nat_alt unat_of_nat)
  then show ?thesis using push opcodes_simps(3) [OF assms(1), of d "of_nat (length d)"]
    by (intro exI [of _ "of_nat (length d) # d"] exI [of _ "of_nat (length d)"]) simp
qed

lemma checksig_opcodes:
  assumes "txscript_law lib"
  shows "set (opcodes lib (checksig_bytes lib ks)) \<subseteq> {0x20, OP_CHECKSIG, OP_CHECKSIGVERIFY}"
    and "\<exists>ops. opcodes lib (checksigadd_bytes lib i ks @ rest) = ops @ opcodes lib rest \<and>
      set ops \<subseteq> {0x20, OP_CHECKSIG, OP_CHECKSIGADD}"
proof -
  note o = opcodes_simps [OF assms]
  have big: "(0x4f :: u8) \<le> OP_CHECKSIG" "(0x4f :: u8) \<le> OP_CHECKSIGVERIFY" "(0x4f :: u8) \<le> OP_CHECKSIGADD"
    by (simp_all add: opcode_defs)
  show "set (opcodes lib (checksig_bytes lib ks)) \<subseteq> {0x20, OP_CHECKSIG, OP_CHECKSIGVERIFY}"
    using big by (induction ks) (simp_all add: o)
  show "\<exists>ops. opcodes lib (checksigadd_bytes lib i ks @ rest) = ops @ opcodes lib rest \<and>
      set ops \<subseteq> {0x20, OP_CHECKSIG, OP_CHECKSIGADD}"
  proof (induction ks arbitrary: i)
    case (Cons k ks)
    obtain ops where "opcodes lib (checksigadd_bytes lib (Suc i) ks @ rest) = ops @ opcodes lib rest"
      "set ops \<subseteq> {0x20, OP_CHECKSIG, OP_CHECKSIGADD}" using Cons by blast
    then show ?case using big
      by (intro exI [of _ "0x20 # (if i = 0 then OP_CHECKSIG else OP_CHECKSIGADD) # ops"]) (simp add: o)
  qed simp
qed

lemma multisig_opcodes:
  assumes "txscript_law lib" and "MultisigClosure_Script lib m = Inr s" and "length (ms_PubKeys m) < 2 ^ 32"
  shows "set (opcodes lib s) \<inter> {OP_VERIFY, OP_CHECKSEQUENCEVERIFY, OP_CHECKLOCKTIMEVERIFY, OP_DROP} = {}"
proof (cases "ms_Type m")
  case MultisigTypeChecksig
  then have "s = checksig_bytes lib (ms_PubKeys m)"
    using assms(2) add_checksig_bytes(1) [OF assms(1), of "ms_PubKeys m" "[]"] by (simp add: MultisigClosure_Script_def)
  then show ?thesis using checksig_opcodes(1) [OF assms(1), of "ms_PubKeys m"] by (auto simp: opcode_defs)
next
  case MultisigTypeChecksigAdd
  let ?b = "checksigadd_bytes lib 0 (ms_PubKeys m)"
  obtain s1 where s1: "ts_AddInt64 lib (int (length (ms_PubKeys m))) ?b = Inr s1" "ts_AddOp lib OP_NUMEQUAL s1 = Inr s"
    using assms(2) MultisigTypeChecksigAdd add_checksig_bytes(2) [OF assms(1), of 0 "ms_PubKeys m" "[]"]
    by (auto simp: MultisigClosure_Script_def rbind_eq_Inr)
  obtain b opc where b: "s1 = ?b @ b" "\<And>rest. opcodes lib (b @ rest) = opc # opcodes lib rest" "opc \<le> 0x60"
    using int_bytes_opcodes [OF assms(1) _ _ s1(1)] assms(3) by auto
  have s: "s = ?b @ b @ [OP_NUMEQUAL]" using builder_simps(1) [OF assms(1) s1(2)] b(1) by simp
  obtain ops where "opcodes lib s = ops @ opcodes lib (b @ [OP_NUMEQUAL])"
    "set ops \<subseteq> {0x20, OP_CHECKSIG, OP_CHECKSIGADD}"
    using checksig_opcodes(2) [OF assms(1)] unfolding s by blast
  moreover have "opcodes lib [OP_NUMEQUAL] = [OP_NUMEQUAL]"
    using opcodes_simps(1,2) [OF assms(1)] by (simp add: opcode_defs)
  ultimately show ?thesis using b(2,3) by (auto simp: opcode_defs)
qed

subsection \<open>Decoding a multisig script\<close>

definition wf_MultisigClosure :: "'k txscript \<Rightarrow> 'k MultisigClosure \<Rightarrow> bool" where
  "wf_MultisigClosure lib m \<longleftrightarrow>
     ms_PubKeys m \<noteq> [] \<and>
     (\<forall>k \<in> set (ms_PubKeys m). ts_ParsePubKey lib (ts_SerializePubKey lib k) = Inr k) \<and>
     (ms_Type m = MultisigTypeChecksigAdd \<longrightarrow> length (ms_PubKeys m) \<le> 16)"

lemma tokenize_checksig_ops:
  assumes "txscript_law lib" and "opc \<in> {OP_CHECKSIG, OP_CHECKSIGVERIFY, OP_CHECKSIGADD, OP_NUMEQUAL,
    OP_VERIFY, OP_DROP, OP_CHECKSEQUENCEVERIFY, OP_CHECKLOCKTIMEVERIFY}"
  shows "ts_Tokenize lib (opc # rest) =
    (token_of opc None rest # fst (ts_Tokenize lib rest), snd (ts_Tokenize lib rest))"
  using assms by (intro tokenize_simps(2)) (auto simp: opcode_defs)

lemma checksig_loop_bytes:
  assumes "txscript_law lib" and "ks \<noteq> []"
    and "\<forall>k \<in> set ks. ts_ParsePubKey lib (ts_SerializePubKey lib k) = Inr k"
  shows "checksig_loop lib err (fst (ts_Tokenize lib (checksig_bytes lib ks))) opc acc =
    Inr (Some (acc @ ks, None, Some OP_CHECKSIG))"
  using assms(2,3)
proof (induction ks arbitrary: opc acc)
  case (Cons k ks)
  have ne: "OP_CHECKSIG \<noteq> OP_CHECKSIGVERIFY" by (simp add: opcode_defs)
  show ?case
    using Cons ne tokenize_simps(1,4) [OF assms(1)] tokenize_checksig_ops [OF assms(1)]
    by (cases "ks = []") (simp_all add: OP_DATA_32_def)
qed simp

lemma not_small_push: "txscript_law lib \<Longrightarrow> \<not> ts_IsSmallInt lib 0x20"
  by (simp add: txscript_law_def)

lemma checksigadd_loop_bytes:
  assumes "txscript_law lib"
    and "\<forall>k \<in> set ks. ts_ParsePubKey lib (ts_SerializePubKey lib k) = Inr k"
  shows "\<exists>opc'. checksigadd_loop lib err (fst (ts_Tokenize lib (checksigadd_bytes lib i ks @ rest))) opc acc =
    checksigadd_loop lib err (fst (ts_Tokenize lib rest)) opc' (acc @ ks)"
  using assms(2)
proof (induction ks arbitrary: i opc acc)
  case (Cons k ks)
  let ?o = "if i = 0 then OP_CHECKSIG else OP_CHECKSIGADD"
  obtain opc' where
    "checksigadd_loop lib err (fst (ts_Tokenize lib (checksigadd_bytes lib (Suc i) ks @ rest))) (Some ?o) (acc @ [k]) =
      checksigadd_loop lib err (fst (ts_Tokenize lib rest)) opc' (acc @ [k] @ ks)"
    using Cons.IH [of "Suc i" "Some ?o" "acc @ [k]"] Cons.prems by auto
  then show ?case
    using Cons.prems tokenize_simps(4) [OF assms(1)] tokenize_checksig_ops [OF assms(1)] not_small_push [OF assms(1)]
    by (intro exI [of _ opc']) (simp add: OP_DATA_32_def)
qed auto

lemma decodeChecksig_script:
  assumes "txscript_law lib" and "wf_MultisigClosure lib m" and "MultisigClosure_Script lib m = Inr s"
  shows "decodeChecksig lib s = Inr (if ms_Type m = MultisigTypeChecksig then Some m else None)"
proof (cases "ms_Type m")
  case MultisigTypeChecksig
  then have s: "s = checksig_bytes lib (ms_PubKeys m)"
    using assms(3) add_checksig_bytes(1) [OF assms(1), of "ms_PubKeys m" "[]"] by (simp add: MultisigClosure_Script_def)
  have m: "m = \<lparr>ms_PubKeys = ms_PubKeys m, ms_Type = MultisigTypeChecksig\<rparr>" using MultisigTypeChecksig by simp
  show ?thesis
    using assms(2,3) checksig_loop_bytes [OF assms(1), of "ms_PubKeys m"] MultisigTypeChecksig
    unfolding s by (simp add: decodeChecksig_def wf_MultisigClosure_def rebuilt_def case_prod_unfold m [symmetric] Let_def)
next
  case MultisigTypeChecksigAdd
  obtain k ks where keys: "ms_PubKeys m = k # ks" and k: "ts_ParsePubKey lib (ts_SerializePubKey lib k) = Inr k"
    using assms(2) by (cases "ms_PubKeys m") (auto simp: wf_MultisigClosure_def)
  obtain s0 s1 where s0: "add_checksigadd lib 0 (k # ks) [] = Inr s0"
    and s1: "ts_AddInt64 lib (int (length (k # ks))) s0 = Inr s1" "ts_AddOp lib OP_NUMEQUAL s1 = Inr s"
    using assms(3) MultisigTypeChecksigAdd keys by (auto simp: MultisigClosure_Script_def rbind_eq_Inr)
  have "length (k # ks) \<le> 16" using assms(2) MultisigTypeChecksigAdd keys by (auto simp: wf_MultisigClosure_def)
  then obtain b where b: "s1 = s0 @ b" using int_bytes_opcodes [OF assms(1) _ _ s1(1)] by auto
  let ?r = "checksigadd_bytes lib (Suc 0) ks @ b @ [OP_NUMEQUAL]"
  have s: "s = 0x20 # ts_SerializePubKey lib k @ OP_CHECKSIG # ?r"
    using builder_simps(1) [OF assms(1) s1(2)] add_checksig_bytes(2) [OF assms(1) s0] b by simp
  have loop: "checksig_loop lib err (fst (ts_Tokenize lib s)) None [] = Inr (Some ([k], None, Some OP_CHECKSIG))" for err
    unfolding s using k tokenize_simps(4) [OF assms(1)] tokenize_checksig_ops [OF assms(1)]
    by (simp add: opcode_defs)
  have l: "length (ts_SerializePubKey lib k) = 32" using assms(1) by (simp add: txscript_law_def)
  have "MultisigClosure_Script lib \<lparr>ms_PubKeys = [k], ms_Type = MultisigTypeChecksig\<rparr> =
      Inr (0x20 # ts_SerializePubKey lib k @ [OP_CHECKSIG])"
    using builder_simps(4,5) [OF assms(1)] l by (simp add: MultisigClosure_Script_def MaxScriptSize_def)
  moreover have "0x20 # ts_SerializePubKey lib k @ [OP_CHECKSIG] \<noteq> s" unfolding s by simp
  ultimately show ?thesis
    using MultisigTypeChecksigAdd loop by (simp add: decodeChecksig_def rebuilt_def case_prod_unfold Let_def)
qed

lemma decodeChecksigAdd_script:
  assumes "txscript_law lib" and "wf_MultisigClosure lib m" and "MultisigClosure_Script lib m = Inr s"
    and "ms_Type m = MultisigTypeChecksigAdd"
  shows "decodeChecksigAdd lib s = Inr (Some m)"
proof -
  let ?ks = "ms_PubKeys m" and ?n = "int (length (ms_PubKeys m))"
  obtain s1 where s1: "ts_AddInt64 lib ?n (checksigadd_bytes lib 0 ?ks) = Inr s1" "ts_AddOp lib OP_NUMEQUAL s1 = Inr s"
    using assms(3,4) add_checksig_bytes(2) [OF assms(1), of 0 ?ks "[]"]
    by (auto simp: MultisigClosure_Script_def rbind_eq_Inr)
  have n: "1 \<le> ?n" "?n \<le> 16" using assms(2,4) by (auto simp: wf_MultisigClosure_def Suc_le_eq)
  let ?o = "0x50 + word_of_int ?n :: u8"
  have "s1 = checksigadd_bytes lib 0 ?ks @ [?o]"
    by (rule AddInt64_bytes [OF assms(1) _ _ s1(1)]) (use n in auto)
  then have s: "s = checksigadd_bytes lib 0 ?ks @ ?o # [OP_NUMEQUAL]"
    using builder_simps(1) [OF assms(1) s1(2)] by simp
  note o = small_int_opcode [OF n]
  have "(0x4f :: u8) \<le> ?o" using o(1) by (rule order_trans [rotated]) simp
  then have "ts_Tokenize lib (?o # [OP_NUMEQUAL]) = ([token_of ?o None [OP_NUMEQUAL], token_of OP_NUMEQUAL None []], None)"
    using tokenize_simps(1,2) [OF assms(1)] tokenize_checksig_ops [OF assms(1), of OP_NUMEQUAL] by simp
  moreover have "ts_IsSmallInt lib ?o" "ts_AsSmallInt lib ?o = ?n"
    using assms(1) o unfolding txscript_law_def by auto
  ultimately have "checksigadd_loop lib err (fst (ts_Tokenize lib s)) None [] =
      Inr (Some (?ks, [token_of OP_NUMEQUAL None []], None, Some ?o))" for err
    using checksigadd_loop_bytes [OF assms(1), of ?ks err 0 "?o # [OP_NUMEQUAL]" None "[]"] assms(2)
    unfolding s by (auto simp: wf_MultisigClosure_def)
  moreover have "m = \<lparr>ms_PubKeys = ?ks, ms_Type = MultisigTypeChecksigAdd\<rparr>" using assms(4) by simp
  ultimately show ?thesis
    using assms(3) \<open>ts_AsSmallInt lib ?o = ?n\<close>
    by (simp add: decodeChecksigAdd_def rebuilt_def case_prod_unfold Let_def)
qed

lemma multisig_script_decodes:
  assumes "txscript_law lib" and "wf_MultisigClosure lib m" and "MultisigClosure_Script lib m = Inr s"
  shows "MultisigClosure_Decode lib s = Inr (Some m)"
proof -
  have "s \<noteq> []"
    using decodeChecksig_script [OF assms] decodeChecksigAdd_script [OF assms] tokenize_simps(1) [OF assms(1)]
    by (cases "ms_Type m") (auto simp: decodeChecksig_def decodeChecksigAdd_def)
  then show ?thesis
    using decodeChecksig_script [OF assms] decodeChecksigAdd_script [OF assms]
    by (cases "ms_Type m") (simp_all add: MultisigClosure_Decode_def)
qed

text \<open>Whatever decodes as a multisig closure is the very script the closure makes, and a
  \<open>CHECKSIGADD\<close> closure has at most sixteen keys.\<close>

lemma rebuilt_eq_Some: "rebuilt made s c = Inr (Some c') \<longleftrightarrow> made = Inr s \<and> c' = c"
  by (auto simp: rebuilt_def rbind_eq_Inr)

lemma checksigadd_loop_small:
  "checksigadd_loop lib err ts opc acc = Inr (Some (ks, t # ts', e, Some o')) \<Longrightarrow> ts_IsSmallInt lib o'"
proof (induction lib err ts opc acc rule: checksigadd_loop.induct)
  case (2 lib err u us opc acc)
  then show ?case by (cases us) (auto simp: rbind_eq_Inr split: if_splits)
qed simp

lemma decodeChecksig_Some:
  assumes "decodeChecksig lib s = Inr (Some m)"
  shows "MultisigClosure_Script lib m = Inr s" and "ms_Type m = MultisigTypeChecksig"
proof -
  obtain res where "checksig_loop lib (snd (ts_Tokenize lib s)) (fst (ts_Tokenize lib s)) None [] = Inr res"
    using assms by (cases "checksig_loop lib (snd (ts_Tokenize lib s)) (fst (ts_Tokenize lib s)) None []")
      (simp_all add: decodeChecksig_def case_prod_unfold Let_def)
  then obtain ks where "rebuilt (MultisigClosure_Script lib \<lparr>ms_PubKeys = ks, ms_Type = MultisigTypeChecksig\<rparr>) s
      \<lparr>ms_PubKeys = ks, ms_Type = MultisigTypeChecksig\<rparr> = Inr (Some m)"
    using assms by (cases res) (auto simp: decodeChecksig_def Let_def case_prod_unfold split: option.split_asm if_split_asm)
  then show "MultisigClosure_Script lib m = Inr s" and "ms_Type m = MultisigTypeChecksig"
    by (auto simp: rebuilt_eq_Some)
qed

lemma decodeChecksigAdd_Some:
  assumes "decodeChecksigAdd lib s = Inr (Some m)"
  shows "MultisigClosure_Script lib m = Inr s"
    and "txscript_law lib \<Longrightarrow> length (ms_PubKeys m) \<le> 16"
proof -
  obtain res where res:
    "checksigadd_loop lib (snd (ts_Tokenize lib s)) (fst (ts_Tokenize lib s)) None [] = Inr res"
    using assms by (cases "checksigadd_loop lib (snd (ts_Tokenize lib s)) (fst (ts_Tokenize lib s)) None []")
      (simp_all add: decodeChecksigAdd_def case_prod_unfold Let_def)
  with assms obtain ks t ts e o' where
    loop: "checksigadd_loop lib (snd (ts_Tokenize lib s)) (fst (ts_Tokenize lib s)) None [] =
      Inr (Some (ks, t # ts, e, Some o'))"
    and n: "int (length ks) = ts_AsSmallInt lib o'"
    and r: "rebuilt (MultisigClosure_Script lib \<lparr>ms_PubKeys = ks, ms_Type = MultisigTypeChecksigAdd\<rparr>) s
      \<lparr>ms_PubKeys = ks, ms_Type = MultisigTypeChecksigAdd\<rparr> = Inr (Some m)"
    by (cases res) (auto simp: decodeChecksigAdd_def case_prod_unfold Let_def
        split: option.split_asm if_split_asm list.split_asm)
  show "MultisigClosure_Script lib m = Inr s" using r by (auto simp: rebuilt_eq_Some)
  assume law: "txscript_law lib"
  from checksigadd_loop_small [OF loop] law have "o' = 0 \<or> 0x51 \<le> o' \<and> o' \<le> 0x60"
    by (simp add: txscript_law_def)
  moreover have "uint (o' - 0x50) \<le> 16" if "0x51 \<le> o'" "o' \<le> 0x60"
    using that by (simp add: word_le_def uint_word_ariths)
  ultimately have "ts_AsSmallInt lib o' \<le> 16"
    using law by (auto simp: txscript_law_def)
  then show "length (ms_PubKeys m) \<le> 16" using n r by (auto simp: rebuilt_eq_Some)
qed

lemma multisig_decode_sound:
  assumes "MultisigClosure_Decode lib s = Inr (Some m)"
  shows "MultisigClosure_Script lib m = Inr s"
    and "txscript_law lib \<Longrightarrow> ms_Type m = MultisigTypeChecksigAdd \<Longrightarrow> length (ms_PubKeys m) \<le> 16"
  using assms decodeChecksig_Some [of lib s m] decodeChecksigAdd_Some [of lib s m]
  by (auto simp: MultisigClosure_Decode_def guard_err_eq_Inr rbind_eq_Inr map_err_eq_Inr split: option.split_asm)

subsection \<open>Decoding closures with a lock time\<close>

lemma small_int_law:
  assumes "txscript_law lib"
  shows "ts_IsSmallInt lib opc \<longleftrightarrow> opc = 0 \<or> 0x51 \<le> opc \<and> opc \<le> 0x60"
    and "ts_AsSmallInt lib 0 = 0"
    and "0x51 \<le> opc \<Longrightarrow> opc \<le> 0x60 \<Longrightarrow> ts_AsSmallInt lib opc = uint (opc - 0x50)"
  using assms unfolding txscript_law_def by simp_all

lemma script_num_law:
  assumes "txscript_law lib"
  shows "ts_MakeScriptNum lib [] True 0 = Inr 0"
    and "1 \<le> v \<Longrightarrow> v \<le> 16 \<Longrightarrow> ts_MakeScriptNum lib [v] True 1 = Inr (ucast v)"
proof -
  have "builder_law lib" using assms unfolding txscript_law_def by (elim conjE)
  then have n: "ts_MakeScriptNum lib [] True 0 = Inr 0"
    "\<forall>v. 1 \<le> v \<and> v \<le> 16 \<longrightarrow> ts_MakeScriptNum lib [v] True 1 = Inr (ucast v)"
    unfolding builder_law_def by blast+
  show "ts_MakeScriptNum lib [] True 0 = Inr 0" by (rule n(1))
  show "1 \<le> v \<Longrightarrow> v \<le> 16 \<Longrightarrow> ts_MakeScriptNum lib [v] True 1 = Inr (ucast v)"
    using n(2) by blast
qed

lemma wide_number:
  assumes "0 \<le> v" and "v < 2 ^ 32"
  shows "sint (word_of_int v :: u64) = v" and "(ucast (word_of_int v :: u64) :: u32) = word_of_int v"
    and "uint (word_of_int v :: u32) = v"
proof -
  have "take_bit 64 v = v" using assms by (intro take_bit_int_eq_self) auto
  moreover have "signed_take_bit 63 v = v" using assms by (intro signed_take_bit_int_eq_self) auto
  ultimately show "sint (word_of_int v :: u64) = v" by (simp add: signed_of_int)
  show u: "uint (word_of_int v :: u32) = v" using assms by (simp add: uint_word_of_int)
  show "(ucast (word_of_int v :: u64) :: u32) = word_of_int v"
    using assms unfolding ucast_eq by (simp add: uint_word_of_int)
qed

lemma int_token:
  assumes "txscript_law lib" and "0 \<le> v" "v < 2 ^ 32" and "ts_AddInt64 lib v [] = Inr b"
  obtains opc d where
    "\<And>rest. fst (ts_Tokenize lib (b @ rest)) = token_of opc d rest # fst (ts_Tokenize lib rest)"
    and "ts_IsSmallInt lib opc \<or> isDataPush opc"
    and "\<And>s rest. s = (if ts_IsSmallInt lib opc then (if opc = OP_0 then [] else [opc - (OP_1 - 1)])
           else token_data (token_of opc d rest)) \<Longrightarrow>
         ts_MakeScriptNum lib s True (length s) = Inr (word_of_int v)"
    and "\<And>rest. cltv_locktime lib (token_of opc d rest) = Inr (Some (word_of_int v))"
proof -
  show thesis
  proof (rule AddInt64_bytes [OF assms])
    assume v: "v = 0" "b = [] @ [0]"
    show thesis
      by (rule that [of 0 None])
         (use v small_int_law [OF assms(1)] script_num_law(1) [OF assms(1)] tokenize_simps(2) [OF assms(1), of 0] in \<open>simp_all add: OP_0_def cltv_locktime_def\<close>)
  next
    assume v: "1 \<le> v" "v \<le> 16" "b = [] @ [0x50 + word_of_int v]"
    note o = small_int_opcode [OF v(1,2)]
    let ?o = "0x50 + word_of_int v :: u8"
    have ne: "?o \<noteq> 0" using o(1) by auto
    have tok: "(0x4f :: u8) \<le> ?o" using o(1) by (rule order_trans [rotated]) simp
    have "(1 :: u8) \<le> word_of_int v" "word_of_int v \<le> (16 :: u8)"
      using v(1,2) o(3) by (simp_all add: word_le_def)
    moreover have "(ucast (word_of_int v :: u8) :: u64) = word_of_int v" by (simp only: ucast_eq o(3))
    ultimately have n: "ts_MakeScriptNum lib [word_of_int v] True 1 = Inr (word_of_int v)"
      using script_num_law(2) [OF assms(1), of "word_of_int v"] by simp
    have s: "ts_IsSmallInt lib ?o" using o(1,2) small_int_law(1) [OF assms(1)] by blast
    have a: "ts_AsSmallInt lib ?o = v"
      using small_int_law(3) [OF assms(1) o(1,2)] o(3) by simp
    show thesis
    proof (rule that [of ?o None])
      show "fst (ts_Tokenize lib (b @ rest)) = token_of ?o None rest # fst (ts_Tokenize lib rest)" for rest
        using v(3) tokenize_simps(2) [OF assms(1)] tok by simp
      show "ts_IsSmallInt lib ?o \<or> isDataPush ?o" using s ..
      show "cltv_locktime lib (token_of ?o None rest) = Inr (Some (word_of_int v))" for rest
        using s a by (simp add: cltv_locktime_def)
      fix q rest
      assume "q = (if ts_IsSmallInt lib ?o then (if ?o = OP_0 then [] else [?o - (OP_1 - 1)])
           else token_data (token_of ?o None rest))"
      then have "q = [word_of_int v]" using s ne by (simp add: OP_0_def OP_1_def)
      then show "ts_MakeScriptNum lib q True (length q) = Inr (word_of_int v)" using n by simp
    qed
  next
    fix d assume d: "16 < v" "0 < length d" "length d \<le> 5" "b = [] @ of_nat (length d) # d"
      "\<And>n. length d \<le> n \<Longrightarrow> ts_MakeScriptNum lib d True n = Inr (word_of_int v)"
    let ?o = "of_nat (length d) :: u8"
    have u: "unat ?o = length d" using d(3) by (simp add: unat_of_nat)
    have o: "\<not> ts_IsSmallInt lib ?o" "isDataPush ?o"
      using d(2,3) u small_int_law(1) [OF assms(1)]
      by (auto simp: isDataPush_def opcode_defs word_le_nat_alt word_unat_eq_iff Suc_le_eq)
    have "\<not> (0 < (word_of_int v :: u32) \<and> word_of_int v \<le> (16 :: u32))"
      using d(1) wide_number(3) [OF assms(2,3)] by (simp add: word_le_def)
    then show thesis
      by (intro that [of ?o "Some d"])
         (use d o wide_number [OF assms(2,3)] assms(2,3) tokenize_simps(3) [OF assms(1), of d ?o] in
           \<open>simp_all add: cltv_locktime_def guard_err_def Let_def\<close>)
  qed
qed

lemma expect_two_ops:
  assumes "txscript_law lib" and "opc \<in> {OP_CHECKSEQUENCEVERIFY, OP_CHECKLOCKTIMEVERIFY}"
  shows "expect_ops [opc, OP_DROP] r (fst (ts_Tokenize lib ([opc, OP_DROP] @ rest))) = Some rest"
  using assms tokenize_checksig_ops [OF assms(1)] by auto

definition wf_CSVMultisigClosure :: "'k txscript \<Rightarrow> 'k CSVMultisigClosure \<Rightarrow> bool" where
  "wf_CSVMultisigClosure lib c \<longleftrightarrow>
     wf_MultisigClosure lib (csv_Multisig c) \<and>
     (lt_Type (csv_Locktime c) = LocktimeTypeBlock \<longrightarrow> unat (lt_Value (csv_Locktime c)) < 2 ^ 16)"

lemma csv_script_decodes:
  assumes "txscript_law lib" and "wf_CSVMultisigClosure lib c" and "CSVMultisigClosure_Script lib c = Inr s"
  shows "CSVMultisigClosure_Decode lib s = Inr (Some c)"
proof -
  obtain q b ms where q: "BIP68Sequence (ts_LockTimeToSequence lib) (csv_Locktime c) = Inr q"
    and b: "ts_AddInt64 lib (uint q) [] = Inr b" and ms: "MultisigClosure_Script lib (csv_Multisig c) = Inr ms"
    and s: "s = b @ [OP_CHECKSEQUENCEVERIFY, OP_DROP] @ ms"
    using assms(3) builder_simps(2) [OF assms(1)] by (fastforce simp: CSVMultisigClosure_Script_def rbind_eq_Inr)
  have uq: "uint q < 2 ^ 32" using uint_lt2p [of q] by simp
  obtain opc d where
    tok: "\<And>rest. fst (ts_Tokenize lib (b @ rest)) = token_of opc d rest # fst (ts_Tokenize lib rest)"
    and op: "ts_IsSmallInt lib opc \<or> isDataPush opc"
    and num: "\<And>s rest. s = (if ts_IsSmallInt lib opc then (if opc = OP_0 then [] else [opc - (OP_1 - 1)])
           else token_data (token_of opc d rest)) \<Longrightarrow>
         ts_MakeScriptNum lib s True (length s) = Inr (word_of_int (uint q))"
    using int_token [OF assms(1) uint_ge_0 uq b] by metis
  let ?rest = "[OP_CHECKSEQUENCEVERIFY, OP_DROP] @ ms"
  define sq where "sq = (if ts_IsSmallInt lib opc then (if opc = OP_0 then [] else [opc - (OP_1 - 1)])
           else token_data (token_of opc d ?rest))"
  have "ts_MakeScriptNum lib sq True (length sq) = Inr (ucast q)"
    using num [OF sq_def] unfolding ucast_eq .
  then have seq: "BIP68DecodeSequenceFromBytes (ts_MakeScriptNum lib) sq = Inr (csv_Locktime c)"
    using bip68_decodes [OF _ q, of "ts_MakeScriptNum lib" sq] assms(1,2)
    by (auto simp: txscript_law_def wf_CSVMultisigClosure_def)
  have "MultisigClosure_Decode lib ms = Inr (Some (csv_Multisig c))"
    using multisig_script_decodes [OF assms(1) _ ms] assms(2) by (simp add: wf_CSVMultisigClosure_def)
  moreover have "expect_ops [OP_CHECKSEQUENCEVERIFY, OP_DROP] ?rest (fst (ts_Tokenize lib ?rest)) = Some ms"
    by (rule expect_two_ops [OF assms(1)]) simp
  moreover have "length s \<noteq> 0" unfolding s by simp
  ultimately show ?thesis
    using op seq unfolding CSVMultisigClosure_Decode_def s tok sq_def
    by (auto simp: Let_def simp del: expect_ops.simps)
qed

lemma cltv_script_decodes:
  assumes "txscript_law lib" and "wf_MultisigClosure lib (cltv_Multisig c)" and "CLTVMultisigClosure_Script lib c = Inr s"
  shows "CLTVMultisigClosure_Decode lib s = Inr (Some c)"
proof -
  let ?l = "uint (cltv_Locktime c)"
  obtain b ms where b: "ts_AddInt64 lib ?l [] = Inr b" and ms: "MultisigClosure_Script lib (cltv_Multisig c) = Inr ms"
    and s: "s = b @ [OP_CHECKLOCKTIMEVERIFY, OP_DROP] @ ms"
    using assms(3) builder_simps(2) [OF assms(1)] by (fastforce simp: CLTVMultisigClosure_Script_def rbind_eq_Inr)
  have ul: "?l < 2 ^ 32" using uint_lt2p [of "cltv_Locktime c"] by simp
  obtain opc d where
    tok: "\<And>rest. fst (ts_Tokenize lib (b @ rest)) = token_of opc d rest # fst (ts_Tokenize lib rest)"
    and lt: "\<And>rest. cltv_locktime lib (token_of opc d rest) = Inr (Some (word_of_int ?l))"
    using int_token [OF assms(1) uint_ge_0 ul b] by metis
  let ?rest = "[OP_CHECKLOCKTIMEVERIFY, OP_DROP] @ ms"
  have "expect_ops [OP_CHECKLOCKTIMEVERIFY, OP_DROP] ?rest (fst (ts_Tokenize lib ?rest)) = Some ms"
    by (rule expect_two_ops [OF assms(1)]) simp
  moreover have "length s \<noteq> 0" unfolding s by simp
  ultimately show ?thesis
    using lt multisig_script_decodes [OF assms(1,2) ms] unfolding CLTVMultisigClosure_Decode_def s tok
    by (simp del: expect_ops.simps)
qed

subsection \<open>Decoding closures with a condition\<close>

text \<open>A condition that survives: short pushes and other opcodes, none of them \<open>OP_VERIFY\<close> or
  forbidden. The decoder drops the length bytes of \<open>OP_PUSHDATA\<close>, so a condition with a longer push
  is refused by its comparison with the rebuilt script.\<close>

fun plain_condition :: "bytes \<Rightarrow> bool" where
  "plain_condition [] = True"
| "plain_condition (opc # rest) =
     (if opc = 0 \<or> 0x4f \<le> opc
      then opc \<notin> set forbiddenOpcodes \<and> opc \<noteq> OP_VERIFY \<and> plain_condition rest
      else unat opc \<le> 75 \<and> unat opc \<le> length rest \<and> plain_condition (drop (unat opc) rest))"

lemma plain_condition_tokens:
  assumes "txscript_law lib" and "plain_condition c"
  shows "condition_loop (fst (ts_Tokenize lib (c @ OP_VERIFY # rest))) r acc = (acc @ c, rest)"
    and "snd (ts_Tokenize lib c) = None"
    and "set (opcodes lib c) \<inter> insert OP_VERIFY (set forbiddenOpcodes) = {}"
    and "opcodes lib (c @ rest) = opcodes lib c @ opcodes lib rest"
proof -
  have "condition_loop (fst (ts_Tokenize lib (c @ OP_VERIFY # rest))) r acc = (acc @ c, rest) \<and>
      snd (ts_Tokenize lib c) = None \<and> set (opcodes lib c) \<inter> insert OP_VERIFY (set forbiddenOpcodes) = {} \<and>
      (\<forall>rest. opcodes lib (c @ rest) = opcodes lib c @ opcodes lib rest)"
    using assms(2)
  proof (induction c arbitrary: r acc rule: plain_condition.induct)
    case 1
    show ?case
      using tokenize_simps(1) [OF assms(1)] tokenize_checksig_ops [OF assms(1), of OP_VERIFY]
      by (simp add: opcodes_def)
  next
    case (2 opc c)
    show ?case
    proof (cases "opc = 0 \<or> 0x4f \<le> opc")
      case True
      then have p: "plain_condition c" "opc \<noteq> OP_VERIFY" "opc \<notin> set forbiddenOpcodes" using 2(3) by auto
      have tok: "ts_Tokenize lib (opc # rest) = (token_of opc None rest # fst (ts_Tokenize lib rest),
          snd (ts_Tokenize lib rest))" for rest
        by (rule tokenize_simps(2) [OF assms(1) True])
      show ?thesis
        using 2(1) [OF True p(1), of "c @ OP_VERIFY # rest" "acc @ [opc]"] p(2,3) by (simp add: tok opcodes_def)
    next
      case False
      define d c' where "d = take (unat opc) c" and "c' = drop (unat opc) c"
      have c: "c = d @ c'" and d: "length d = unat opc" "unat opc \<le> 75" and p: "plain_condition c'"
        using 2(3) False by (auto simp: d_def c'_def)
      have "0 < unat opc" using False by (simp add: unat_gt_0)
      then have l: "0 < length d" "length d \<le> 75" unfolding d(1) using d(2) by simp_all
      have o: "opc = of_nat (length d)" unfolding d(1) by simp
      have tok: "ts_Tokenize lib (opc # d @ rest) = (token_of opc (Some d) rest # fst (ts_Tokenize lib rest),
          snd (ts_Tokenize lib rest))" for rest
        by (rule tokenize_simps(3) [OF assms(1) l o])
      have "opc \<noteq> OP_VERIFY" "opc \<notin> set forbiddenOpcodes"
        using False by (auto simp: forbiddenOpcodes_def opcode_defs)
      then show ?thesis
        using 2(2) [OF False, folded c'_def, OF p, of "c' @ OP_VERIFY # rest" "acc @ opc # d"]
        by (simp add: c tok opcodes_def)
    qed
  qed
  then show "condition_loop (fst (ts_Tokenize lib (c @ OP_VERIFY # rest))) r acc = (acc @ c, rest)"
    "snd (ts_Tokenize lib c) = None" "set (opcodes lib c) \<inter> insert OP_VERIFY (set forbiddenOpcodes) = {}"
    "opcodes lib (c @ rest) = opcodes lib c @ opcodes lib rest"
    by blast+
qed

lemma plain_condition_valid:
  assumes "txscript_law lib" and "plain_condition c" and "length c \<le> MaxScriptSize"
  shows "validateConditionScript lib c = Inr ()"
  using assms plain_condition_tokens(2,3) [OF assms(1,2)]
  by (auto simp: validateConditionScript_def case_prod_unfold opcodes_def check_all_eq_Inr rbind_eq_Inr
      guard_err_eq_Inr Let_def)

lemma condition_script_bytes:
  assumes "txscript_law lib" and "condition_script lib c multisig = Inr s"
  obtains ms where "multisig = Inr ms" "s = c @ OP_VERIFY # ms"
proof -
  obtain ms s1 s2 where "multisig = Inr ms" "ts_AddOps lib c [] = Inr s1" "ts_AddOp lib OP_VERIFY s1 = Inr s2"
    "ts_AddOps lib ms s2 = Inr s"
    using assms(2) by (auto simp: condition_script_def rbind_eq_Inr map_err_eq_Inr)
  then show thesis using builder_simps(1,2) [OF assms(1)] that by (metis append_Cons append_Nil append_assoc)
qed

lemma condition_opcodes:
  assumes "txscript_law lib" and "plain_condition c"
  shows "opcodes lib (c @ OP_VERIFY # rest) = opcodes lib c @ OP_VERIFY # opcodes lib rest"
  using plain_condition_tokens(4) [OF assms, of "OP_VERIFY # rest"] opcodes_simps(2) [OF assms(1), of OP_VERIFY rest]
  by (simp add: opcode_defs)

subsection \<open>What the decoders of the other types do\<close>

text \<open>The first opcodes of a script that decodes as a closure with a lock time.\<close>

lemma expect_ops_Some: "expect_ops ops r ts = Some rest \<Longrightarrow> \<exists>os. map tk_Opcode ts = ops @ os"
  by (induction ops r ts rule: expect_ops.induct) (auto split: if_splits)

lemma csv_decode_shape:
  assumes "CSVMultisigClosure_Decode lib s = Inr (Some c)"
  obtains opc ops where "opcodes lib s = opc # OP_CHECKSEQUENCEVERIFY # ops" "ts_IsSmallInt lib opc \<or> isDataPush opc"
proof -
  obtain t ts rest where "fst (ts_Tokenize lib s) = t # ts" "ts_IsSmallInt lib (tk_Opcode t) \<or> isDataPush (tk_Opcode t)"
    "expect_ops [OP_CHECKSEQUENCEVERIFY, OP_DROP] (tk_Rest t) ts = Some rest"
    using assms
    by (auto simp: CSVMultisigClosure_Decode_def guard_err_eq_Inr Let_def
        split: list.split_asm option.split_asm if_split_asm)
  then show thesis using expect_ops_Some that by (fastforce simp: opcodes_def)
qed

lemma cltv_decode_shape:
  assumes "CLTVMultisigClosure_Decode lib s = Inr (Some c)"
  obtains opc ops where "opcodes lib s = opc # OP_CHECKLOCKTIMEVERIFY # ops" "ts_IsSmallInt lib opc \<or> isDataPush opc"
proof -
  obtain t ts where t: "fst (ts_Tokenize lib s) = t # ts"
    using assms by (auto simp: CLTVMultisigClosure_Decode_def guard_err_eq_Inr split: list.split_asm)
  obtain lt where lt: "cltv_locktime lib t = Inr lt"
    using assms t by (cases "cltv_locktime lib t") (auto simp: CLTVMultisigClosure_Decode_def guard_err_eq_Inr)
  then obtain rest where "expect_ops [OP_CHECKLOCKTIMEVERIFY, OP_DROP] (tk_Rest t) ts = Some rest" "lt \<noteq> None"
    using assms t by (auto simp: CLTVMultisigClosure_Decode_def guard_err_eq_Inr split: option.split_asm)
  moreover from lt this(2) have "ts_IsSmallInt lib (tk_Opcode t) \<or> isDataPush (tk_Opcode t)"
    by (auto simp: cltv_locktime_def split: if_split_asm)
  ultimately show thesis using expect_ops_Some that t by (fastforce simp: opcodes_def)
qed

lemma multisig_not_decoded:
  assumes "txscript_law lib" and "set (opcodes lib s) \<inter> {OP_VERIFY, OP_CHECKSEQUENCEVERIFY, OP_CHECKLOCKTIMEVERIFY} \<noteq> {}"
  shows "MultisigClosure_Decode lib s \<noteq> Inr (Some m)"
proof
  assume dec: "MultisigClosure_Decode lib s = Inr (Some m)"
  note snd' = multisig_decode_sound [OF dec]
  have "set (opcodes lib s) \<inter> {OP_VERIFY, OP_CHECKSEQUENCEVERIFY, OP_CHECKLOCKTIMEVERIFY, OP_DROP} = {}"
  proof (cases "ms_Type m")
    case MultisigTypeChecksig
    then have "s = checksig_bytes lib (ms_PubKeys m)"
      using snd'(1) add_checksig_bytes(1) [OF assms(1), of "ms_PubKeys m" "[]"] by (simp add: MultisigClosure_Script_def)
    then show ?thesis using checksig_opcodes(1) [OF assms(1), of "ms_PubKeys m"] by (auto simp: opcode_defs)
  next
    case MultisigTypeChecksigAdd
    then have "length (ms_PubKeys m) < 2 ^ 32" using snd'(2) [OF assms(1)] by simp
    then show ?thesis by (rule multisig_opcodes [OF assms(1) snd'(1)])
  qed
  then show False using assms(2) by blast
qed

lemma multisig_second_opcode:
  assumes "txscript_law lib" and "wf_MultisigClosure lib m" and "MultisigClosure_Script lib m = Inr s"
  obtains o2 ops where "opcodes lib s = 0x20 # o2 # ops" "o2 \<in> {OP_CHECKSIG, OP_CHECKSIGVERIFY}"
proof -
  obtain k ks where keys: "ms_PubKeys m = k # ks" using assms(2) by (cases "ms_PubKeys m") (auto simp: wf_MultisigClosure_def)
  have "\<exists>o2 r. s = 0x20 # ts_SerializePubKey lib k @ o2 # r \<and> o2 \<in> {OP_CHECKSIG, OP_CHECKSIGVERIFY}"
  proof (cases "ms_Type m")
    case MultisigTypeChecksig
    then show ?thesis
      using assms(3) add_checksig_bytes(1) [OF assms(1), of "k # ks" "[]"] keys by (simp add: MultisigClosure_Script_def)
  next
    case MultisigTypeChecksigAdd
    obtain s0 s1 where s0: "add_checksigadd lib 0 (k # ks) [] = Inr s0"
      and s1: "ts_AddInt64 lib (int (length (k # ks))) s0 = Inr s1" "ts_AddOp lib OP_NUMEQUAL s1 = Inr s"
      using assms(3) MultisigTypeChecksigAdd keys by (auto simp: MultisigClosure_Script_def rbind_eq_Inr)
    have "length (k # ks) \<le> 16" using assms(2) MultisigTypeChecksigAdd keys by (auto simp: wf_MultisigClosure_def)
    then obtain b where "s1 = s0 @ b" using int_bytes_opcodes [OF assms(1) _ _ s1(1)] by auto
    then show ?thesis
      using builder_simps(1) [OF assms(1) s1(2)] add_checksig_bytes(2) [OF assms(1) s0] by auto
  qed
  then obtain o2 r where s: "s = 0x20 # ts_SerializePubKey lib k @ o2 # r" and o2: "o2 \<in> {OP_CHECKSIG, OP_CHECKSIGVERIFY}"
    by blast
  then have "opcodes lib s = 0x20 # o2 # opcodes lib r"
    using opcodes_simps(2,4) [OF assms(1)] by (auto simp: opcode_defs)
  then show thesis using o2 that by blast
qed

lemma csv_script_opcodes:
  assumes "txscript_law lib" and "CSVMultisigClosure_Script lib c = Inr s"
  shows "OP_CHECKSEQUENCEVERIFY \<in> set (opcodes lib s)"
proof -
  obtain q b ms where b: "ts_AddInt64 lib (uint (q :: u32)) [] = Inr b"
    and s: "s = b @ OP_CHECKSEQUENCEVERIFY # OP_DROP # ms"
    using assms(2) builder_simps(2) [OF assms(1)] by (fastforce simp: CSVMultisigClosure_Script_def rbind_eq_Inr)
  have "uint q < 2 ^ 32" using uint_lt2p [of q] by simp
  then obtain opc where "opcodes lib (b @ rest) = opc # opcodes lib rest" for rest
    using int_bytes_opcodes [OF assms(1) _ _ b] by auto
  then show ?thesis using opcodes_simps(2) [OF assms(1), of OP_CHECKSEQUENCEVERIFY] by (simp add: s opcode_defs)
qed

lemma cltv_script_opcodes:
  assumes "txscript_law lib" and "CLTVMultisigClosure_Script lib c = Inr s"
  obtains opc ops where "opcodes lib s = opc # OP_CHECKLOCKTIMEVERIFY # ops"
proof -
  obtain b ms where b: "ts_AddInt64 lib (uint (cltv_Locktime c)) [] = Inr b"
    and s: "s = b @ OP_CHECKLOCKTIMEVERIFY # OP_DROP # ms"
    using assms(2) builder_simps(2) [OF assms(1)] by (fastforce simp: CLTVMultisigClosure_Script_def rbind_eq_Inr)
  have "uint (cltv_Locktime c) < 2 ^ 32" using uint_lt2p [of "cltv_Locktime c"] by simp
  then obtain opc where "opcodes lib (b @ rest) = opc # opcodes lib rest" for rest
    using int_bytes_opcodes [OF assms(1) _ _ b] by auto
  then show thesis using that opcodes_simps(2) [OF assms(1), of OP_CHECKLOCKTIMEVERIFY] by (simp add: s opcode_defs)
qed

text \<open>A script with a condition has no lock time opcode in the second place and does not start with
  \<open>OP_VERIFY\<close> followed by one, so the closures with a lock time do not claim it.\<close>

lemma condition_not_locktime:
  assumes "txscript_law lib" and "plain_condition c"
  shows "CSVMultisigClosure_Decode lib (c @ OP_VERIFY # rest) \<noteq> Inr (Some m)"
    and "CLTVMultisigClosure_Decode lib (c @ OP_VERIFY # rest) \<noteq> Inr (Some m')"
proof -
  note o = condition_opcodes [OF assms, of rest] plain_condition_tokens(3) [OF assms]
  have bad: "\<not> (\<exists>opc ops. opcodes lib (c @ OP_VERIFY # rest) = opc # x # ops \<and> (ts_IsSmallInt lib opc \<or> isDataPush opc))"
    if "x \<in> {OP_CHECKSEQUENCEVERIFY, OP_CHECKLOCKTIMEVERIFY}" for x
    using o that small_int_law(1) [OF assms(1), of OP_VERIFY]
    by (cases "opcodes lib c"; cases "tl (opcodes lib c)")
       (auto simp: forbiddenOpcodes_def isDataPush_def opcode_defs)
  show "CSVMultisigClosure_Decode lib (c @ OP_VERIFY # rest) \<noteq> Inr (Some m)"
    by (metis bad csv_decode_shape insertI1)
  show "CLTVMultisigClosure_Decode lib (c @ OP_VERIFY # rest) \<noteq> Inr (Some m')"
    by (metis bad cltv_decode_shape insertI1 insertI2)
qed

subsection \<open>The round trip of any closure\<close>

lemma try_decoders_flag: "try_decoders ds f = Inl c \<longleftrightarrow> try_decoders ds g = Inl c"
proof (induction ds arbitrary: f g)
  case (Cons d ds)
  show ?case using Cons [of f g] by (cases d) (auto split: option.split)
qed simp

lemma try_decoders_skip: "(\<And>c. d \<noteq> Inr (Some c)) \<Longrightarrow> try_decoders (d # ds) f = Inl c \<longleftrightarrow> try_decoders ds f = Inl c"
  using try_decoders_flag [of ds True c f] by (auto split: sum.split option.split)

lemma as_closure_eq: "as_closure w r = Inr (Some c) \<longleftrightarrow> (\<exists>x. r = Inr (Some x) \<and> c = w x)"
  by (auto simp: as_closure_def rbind_eq_Inr)

definition wf_Closure :: "'k txscript \<Rightarrow> 'k Closure \<Rightarrow> bool" where
  "wf_Closure lib c \<longleftrightarrow>
     (case c of
        Multisig f \<Rightarrow> wf_MultisigClosure lib f
      | CSVMultisig f \<Rightarrow> wf_CSVMultisigClosure lib f
      | CLTVMultisig f \<Rightarrow> wf_MultisigClosure lib (cltv_Multisig f)
      | ConditionMultisig f \<Rightarrow>
          wf_MultisigClosure lib (cond_Multisig f) \<and> plain_condition (cond_Condition f) \<and>
          length (cond_Condition f) \<le> MaxScriptSize
      | ConditionCSVMultisig f \<Rightarrow>
          wf_CSVMultisigClosure lib (ccsv_CSV f) \<and> plain_condition (ccsv_Condition f) \<and>
          length (ccsv_Condition f) \<le> MaxScriptSize)"

definition claims :: "'c option gores \<Rightarrow> bool" where
  "claims r \<longleftrightarrow> (\<exists>c. r = Inr (Some c))"

lemma claims_as_closure: "as_closure w r = Inr (Some c) \<Longrightarrow> claims r"
  by (auto simp: claims_def as_closure_eq)

text \<open>The first type that claims a script decodes it: after the types before it have not.\<close>

lemma try_decoders_unclaimed:
  "\<not> claims r \<Longrightarrow> try_decoders (as_closure w r # ds) f = Inl c \<longleftrightarrow> try_decoders ds f = Inl c"
  by (rule try_decoders_skip) (auto dest: claims_as_closure)

lemma try_decoders_claimed:
  "r = Inr (Some x) \<Longrightarrow> try_decoders (as_closure w r # ds) f = Inl c \<longleftrightarrow> c = w x"
  by (auto simp: as_closure_def)

lemma DecodeClosure_try:
  "s \<noteq> [] \<Longrightarrow> \<not> ts_ScriptHasOpSuccess lib s \<Longrightarrow> try_decoders (closure_decoders lib s) False = Inl c \<Longrightarrow>
     DecodeClosure lib s = Inr c"
  by (simp add: DecodeClosure_def)

lemmas decode_first = closure_decoders_def try_decoders_unclaimed try_decoders_claimed

lemma decoders_nonempty:
  "claims (CSVMultisigClosure_Decode lib s) \<Longrightarrow> s \<noteq> []"
  "claims (CLTVMultisigClosure_Decode lib s) \<Longrightarrow> s \<noteq> []"
  "claims (MultisigClosure_Decode lib s) \<Longrightarrow> s \<noteq> []"
  by (auto simp: claims_def CSVMultisigClosure_Decode_def CLTVMultisigClosure_Decode_def MultisigClosure_Decode_def)

lemma unclaimed_locktime:
  assumes "opcodes lib s = o1 # o2 # ops"
  shows "o2 \<noteq> OP_CHECKSEQUENCEVERIFY \<Longrightarrow> \<not> claims (CSVMultisigClosure_Decode lib s)"
    and "o2 \<noteq> OP_CHECKLOCKTIMEVERIFY \<Longrightarrow> \<not> claims (CLTVMultisigClosure_Decode lib s)"
  using assms by (auto simp: claims_def elim!: csv_decode_shape cltv_decode_shape)

lemma decode_multisig:
  assumes "txscript_law lib" and "wf_MultisigClosure lib m" and "MultisigClosure_Script lib m = Inr s"
    and "\<not> ts_ScriptHasOpSuccess lib s"
  shows "DecodeClosure lib s = Inr (Multisig m)"
proof -
  note dec = multisig_script_decodes [OF assms(1-3)]
  obtain o2 ops where o: "opcodes lib s = 0x20 # o2 # ops" "o2 \<in> {OP_CHECKSIG, OP_CHECKSIGVERIFY}"
    by (rule multisig_second_opcode [OF assms(1-3)])
  have "\<not> claims (CSVMultisigClosure_Decode lib s)" "\<not> claims (CLTVMultisigClosure_Decode lib s)"
    using o(2) by (auto intro!: unclaimed_locktime [OF o(1)] simp: opcode_defs)
  moreover have "s \<noteq> []" using dec decoders_nonempty(3) [of lib s] by (auto simp: claims_def)
  ultimately show ?thesis using dec assms(4) by (intro DecodeClosure_try) (simp_all add: decode_first del: try_decoders.simps)
qed

lemma decode_csv:
  assumes "txscript_law lib" and "wf_CSVMultisigClosure lib f" and "CSVMultisigClosure_Script lib f = Inr s"
    and "\<not> ts_ScriptHasOpSuccess lib s"
  shows "DecodeClosure lib s = Inr (CSVMultisig f)"
proof -
  note dec = csv_script_decodes [OF assms(1-3)]
  have "s \<noteq> []" using dec decoders_nonempty(1) [of lib s] by (auto simp: claims_def)
  then show ?thesis using dec assms(4) by (intro DecodeClosure_try) (simp_all add: decode_first del: try_decoders.simps)
qed

lemma decode_cltv:
  assumes "txscript_law lib" and "wf_MultisigClosure lib (cltv_Multisig f)"
    and "CLTVMultisigClosure_Script lib f = Inr s" and "\<not> ts_ScriptHasOpSuccess lib s"
  shows "DecodeClosure lib s = Inr (CLTVMultisig f)"
proof -
  obtain o1 ops where o: "opcodes lib s = o1 # OP_CHECKLOCKTIMEVERIFY # ops"
    by (rule cltv_script_opcodes [OF assms(1,3)])
  have "\<not> claims (CSVMultisigClosure_Decode lib s)"
    by (rule unclaimed_locktime(1) [OF o]) (simp add: opcode_defs)
  moreover note dec = cltv_script_decodes [OF assms(1-3)]
  moreover have "s \<noteq> []" using dec decoders_nonempty(2) [of lib s] by (auto simp: claims_def)
  ultimately show ?thesis using assms(4) by (intro DecodeClosure_try) (simp_all add: decode_first del: try_decoders.simps)
qed

text \<open>The script \<open>c OP_VERIFY ms\<close> of a closure with a condition is claimed by none of the types without.\<close>

lemma condition_unclaimed:
  assumes "txscript_law lib" and "plain_condition c"
  shows "\<not> claims (CSVMultisigClosure_Decode lib (c @ OP_VERIFY # ms))"
    and "\<not> claims (CLTVMultisigClosure_Decode lib (c @ OP_VERIFY # ms))"
    and "\<not> claims (MultisigClosure_Decode lib (c @ OP_VERIFY # ms))"
proof -
  show "\<not> claims (CSVMultisigClosure_Decode lib (c @ OP_VERIFY # ms))"
    "\<not> claims (CLTVMultisigClosure_Decode lib (c @ OP_VERIFY # ms))"
    using condition_not_locktime [OF assms] by (auto simp: claims_def)
  have "OP_VERIFY \<in> set (opcodes lib (c @ OP_VERIFY # ms))" using condition_opcodes [OF assms] by simp
  then show "\<not> claims (MultisigClosure_Decode lib (c @ OP_VERIFY # ms))"
    using multisig_not_decoded [OF assms(1)] by (auto simp: claims_def)
qed

lemma decode_condition:
  assumes "txscript_law lib" and "wf_MultisigClosure lib (cond_Multisig f)"
    and "plain_condition (cond_Condition f)" "length (cond_Condition f) \<le> MaxScriptSize"
    and "ConditionMultisigClosure_Script lib f = Inr s" and "\<not> ts_ScriptHasOpSuccess lib s"
  shows "DecodeClosure lib s = Inr (ConditionMultisig f)"
proof -
  obtain ms where ms: "MultisigClosure_Script lib (cond_Multisig f) = Inr ms" "s = cond_Condition f @ OP_VERIFY # ms"
    using assms(5) by (auto simp: ConditionMultisigClosure_Script_def elim: condition_script_bytes [OF assms(1)])
  have r: "\<lparr>cond_Multisig = cond_Multisig f, cond_Condition = cond_Condition f\<rparr> = f" by simp
  have "ConditionMultisigClosure_Decode lib s = Inr (Some f)"
    using assms(5) multisig_script_decodes [OF assms(1,2) ms(1)] plain_condition_tokens(1) [OF assms(1,3)]
      plain_condition_valid [OF assms(1,3,4)]
    by (simp add: ConditionMultisigClosure_Decode_def rebuilt_def ms(2) Let_def r)
  then show ?thesis
    using condition_unclaimed [OF assms(1,3), of ms, folded ms(2)] ms(2) assms(6)
    by (intro DecodeClosure_try) (simp_all add: decode_first del: try_decoders.simps)
qed

lemma decode_condition_csv:
  assumes "txscript_law lib" and "wf_CSVMultisigClosure lib (ccsv_CSV f)"
    and "plain_condition (ccsv_Condition f)" "length (ccsv_Condition f) \<le> MaxScriptSize"
    and "ConditionCSVMultisigClosure_Script lib f = Inr s" and "\<not> ts_ScriptHasOpSuccess lib s"
  shows "DecodeClosure lib s = Inr (ConditionCSVMultisig f)"
proof -
  obtain ms where ms: "CSVMultisigClosure_Script lib (ccsv_CSV f) = Inr ms" "s = ccsv_Condition f @ OP_VERIFY # ms"
    using assms(5) by (auto simp: ConditionCSVMultisigClosure_Script_def elim: condition_script_bytes [OF assms(1)])
  note loop = plain_condition_tokens(1) [OF assms(1,3)] plain_condition_valid [OF assms(1,3,4)]
  have "MultisigClosure_Decode lib ms \<noteq> Inr (Some x)" for x
    using multisig_not_decoded [OF assms(1)] csv_script_opcodes [OF assms(1) ms(1)] by blast
  then have "\<not> claims (ConditionMultisigClosure_Decode lib s)"
    using loop by (auto simp: claims_def ConditionMultisigClosure_Decode_def ms(2) rbind_eq_Inr split: option.splits)
  moreover have r: "\<lparr>ccsv_CSV = ccsv_CSV f, ccsv_Condition = ccsv_Condition f\<rparr> = f" by simp
  have "ConditionCSVMultisigClosure_Decode lib s = Inr (Some f)"
    using assms(5) csv_script_decodes [OF assms(1,2) ms(1)] loop
    by (simp add: ConditionCSVMultisigClosure_Decode_def rebuilt_def ms(2) Let_def r)
  ultimately show ?thesis
    using condition_unclaimed [OF assms(1,3), of ms, folded ms(2)] ms(2) assms(6)
    by (intro DecodeClosure_try) (simp_all add: decode_first del: try_decoders.simps)
qed

lemma decode_closure_script:
  assumes "txscript_law lib" and "wf_Closure lib c" and "Closure_Script lib c = Inr s"
    and "\<not> ts_ScriptHasOpSuccess lib s"
  shows "DecodeClosure lib s = Inr c"
  using assms decode_multisig [OF assms(1)] decode_csv [OF assms(1)] decode_cltv [OF assms(1)]
    decode_condition [OF assms(1)] decode_condition_csv [OF assms(1)]
  by (cases c) (simp_all add: wf_Closure_def Closure_Script_def)

text \<open>C27: closures and scripts correspond: a closure with at least one key (sixteen at most for
  the \<open>CHECKSIGADD\<close> form), a lock time that BIP 68 can express and a condition of plain opcodes
  comes back unchanged when the script it makes is decoded, whichever of the five types it has;
  no other type claims its script.\<close>

theorem closure_script_decodes:
  assumes "txscript_law lib" and "wf_Closure lib c" and "Closure_Script lib c = Inr s"
    and "\<not> ts_ScriptHasOpSuccess lib s"
  shows "DecodeClosure lib s = Inr c"
  using assms by (rule decode_closure_script)

lemma try_decoders_Inl: "try_decoders ds f = Inl c \<Longrightarrow> Inr (Some c) \<in> set ds"
proof (induction ds arbitrary: f)
  case (Cons d ds)
  then show ?case by (cases d) (auto split: option.split_asm)
qed simp

text \<open>What a decoder accepts, in terms of what the closure it gives would make.\<close>

lemma DecodeClosure_by:
  assumes "DecodeClosure lib s = Inr c"
  shows "case c of
      Multisig f \<Rightarrow> MultisigClosure_Decode lib s = Inr (Some f)
    | CSVMultisig f \<Rightarrow> CSVMultisigClosure_Decode lib s = Inr (Some f)
    | CLTVMultisig f \<Rightarrow> CLTVMultisigClosure_Decode lib s = Inr (Some f)
    | ConditionMultisig f \<Rightarrow> ConditionMultisigClosure_Decode lib s = Inr (Some f)
    | ConditionCSVMultisig f \<Rightarrow> ConditionCSVMultisigClosure_Decode lib s = Inr (Some f)"
proof -
  have "try_decoders (closure_decoders lib s) False = Inl c"
    using assms by (auto simp: DecodeClosure_def guard_err_eq_Inr split: sum.split_asm bool.split_asm)
  then have "Inr (Some c) \<in> set (closure_decoders lib s)" by (rule try_decoders_Inl)
  then show ?thesis by (auto simp: closure_decoders_def dest!: sym [of "Inr (Some c)"] simp: as_closure_eq)
qed

lemma condition_decode_sound:
  "ConditionMultisigClosure_Decode lib s = Inr (Some f) \<Longrightarrow> ConditionMultisigClosure_Script lib f = Inr s"
  "ConditionCSVMultisigClosure_Decode lib s = Inr (Some g) \<Longrightarrow> ConditionCSVMultisigClosure_Script lib g = Inr s"
  by (auto simp: ConditionMultisigClosure_Decode_def ConditionCSVMultisigClosure_Decode_def guard_err_eq_Inr
      case_prod_unfold Let_def rbind_eq_Inr rebuilt_eq_Some split: option.split_asm)

text \<open>decoding is faithful to the script for every type but the two with a bare lock time:
  a script that decodes as a multisig closure, or as one with a condition, is exactly the script
  that the closure makes, so different scripts of these types never give the same closure.\<close>

theorem decoded_closure_canonical:
  assumes "DecodeClosure lib s = Inr c"
    and "\<And>f. c \<noteq> CSVMultisig f" and "\<And>f. c \<noteq> CLTVMultisig f"
  shows "Closure_Script lib c = Inr s"
  using DecodeClosure_by [OF assms(1)] assms(2,3) multisig_decode_sound(1) condition_decode_sound
  by (cases c) (auto simp: Closure_Script_def)

subsection \<open>A script library\<close>

text \<open>The real token and number formats of Bitcoin scripts, over keys that are a single byte,
  written 32 times.\<close>

definition le_number :: "bytes \<Rightarrow> nat" where
  "le_number bs = foldr (\<lambda>b n. unat b + 256 * n) bs 0"

function sample_tokens :: "bytes \<Rightarrow> script_token list \<times> go_error option" where
  "sample_tokens [] = ([], None)"
| "sample_tokens (opc # r) =
     (let k = (if opc = 0x4c then 1 else if opc = 0x4d then 2 else if opc = 0x4e then 4 else 0);
          n = (if opc = 0 \<or> 0x4f \<le> opc then 0 else if k = 0 then unat opc else le_number (take k r))
      in if length r < k + n then ([], Some (Errorf ''malformed push''))
         else let (ts, e) = sample_tokens (drop (k + n) r)
              in (token_of opc (if n = 0 then None else Some (take n (drop k r))) (drop (k + n) r) # ts, e))"
  by pat_completeness auto
termination
  by (relation "measure length") auto

fun le_bytes :: "nat \<Rightarrow> bytes" where
  "le_bytes n = (if n < 256 then [of_nat n] else of_nat n # le_bytes (n div 256))"

declare le_bytes.simps [simp del]

definition script_number :: "nat \<Rightarrow> bytes" where
  "script_number n = (if 0x80 \<le> last (le_bytes n) then le_bytes n @ [0] else le_bytes n)"

definition sized :: "bytes \<Rightarrow> bytes gores" where
  "sized s = (if length s \<le> MaxScriptSize then Inr s else Inl (Errorf ''script too large''))"

definition success_opcodes :: "nat list" where
  "success_opcodes = [80, 98] @ [126..<130] @ [131..<135] @ [137, 138, 141, 142] @ [149..<154] @ [187..<255]"

definition sample_lib :: "u8 txscript" where
  "sample_lib =
     \<lparr>ts_Tokenize = sample_tokens,
      ts_ScriptHasOpSuccess = (\<lambda>s. \<exists>t \<in> set (fst (sample_tokens s)). unat (tk_Opcode t) \<in> set success_opcodes),
      ts_IsSmallInt = (\<lambda>opc. opc = 0 \<or> 0x51 \<le> opc \<and> opc \<le> 0x60),
      ts_AsSmallInt = (\<lambda>opc. if opc = 0 then 0 else uint (opc - 0x50)),
      ts_MakeScriptNum = sample_MakeScriptNum,
      ts_LockTimeToSequence = sample_LockTimeToSequence,
      ts_AddOp = (\<lambda>opc s. sized (s @ [opc])),
      ts_AddOps = (\<lambda>ops s. sized (s @ ops)),
      ts_AddData = (\<lambda>d s. sized (s @ of_nat (length d) # d)),
      ts_AddInt64 = (\<lambda>v s. sized
        (if v = 0 then s @ [0]
         else if 1 \<le> v \<and> v \<le> 16 then s @ [0x50 + word_of_int v]
         else s @ of_nat (length (script_number (nat v))) # script_number (nat v))),
      ts_SerializePubKey = replicate 32,
      ts_ParsePubKey = (\<lambda>b. if b = replicate 32 (hd b) then Inr (hd b) else Inl (Errorf ''invalid public key'')),
      ts_NewEngine = (\<lambda>s. Inr ()),
      ts_Execute = (\<lambda>s w. if w = [[1]] then Inr [] else Inl ErrEvalFalse),
      ts_ReadVarInt = (\<lambda>r. case r of [] \<Rightarrow> Inl (GoIO EOF) | b # r' \<Rightarrow> Inr (ucast b, r')),
      ts_ReadVarBytes = (\<lambda>m r. case r of [] \<Rightarrow> Inl (GoIO EOF)
         | b # r' \<Rightarrow> Inr (take (unat b) r', drop (unat b) r'))\<rparr>"

lemma appends_sized: "length s' = n \<Longrightarrow> appends n s' (sized s')"
  by (auto simp: appends_def sized_def)

lemma le_bytes_length: "n < 256 ^ Suc k \<Longrightarrow> 0 < length (le_bytes n) \<and> length (le_bytes n) \<le> Suc k"
proof (induction k arbitrary: n)
  case 0
  then show ?case by (subst (1 2) le_bytes.simps) simp
next
  case (Suc k)
  have "n div 256 < 256 ^ Suc k" using Suc.prems by (simp add: div_less_iff_less_mult mult.commute)
  then show ?case using Suc.IH [of "n div 256"] by (subst (1 2) le_bytes.simps) auto
qed

lemma le_bytes_value:
  "foldr (\<lambda>b n. 256 * n + ucast b) (le_bytes n @ z) (0 :: u64) =
     of_nat n + of_nat (256 ^ length (le_bytes n)) * foldr (\<lambda>b n. 256 * n + ucast b) z 0"
proof (induction n rule: le_bytes.induct)
  case (1 n)
  have byte: "(ucast (of_nat n :: u8) :: u64) = of_nat (n mod 256)"
    by (simp add: unsigned_of_nat take_bit_eq_mod)
  show ?case
  proof (cases "n < 256")
    case True
    then show ?thesis using byte by (simp add: le_bytes.simps [of n])
  next
    case False
    have "(of_nat n :: u64) = 256 * of_nat (n div 256) + of_nat (n mod 256)"
      by (metis mult_div_mod_eq of_nat_add of_nat_mult of_nat_numeral)
    then show ?thesis using False 1 byte by (simp add: le_bytes.simps [of n] algebra_simps)
  qed
qed

lemma le_number_small: "le_number [b] = unat b"
  by (simp add: le_number_def)

lemma sample_tokens_op:
  "opc = 0 \<or> 0x4f \<le> opc \<Longrightarrow>
     sample_tokens (opc # r) = (token_of opc None r # fst (sample_tokens r), snd (sample_tokens r))"
  by (auto simp: Let_def case_prod_unfold)

lemma sample_tokens_push:
  assumes "0 < length d" and "length d \<le> 75"
  shows "sample_tokens (of_nat (length d) # d @ r) =
    (token_of (of_nat (length d)) (Some d) r # fst (sample_tokens r), snd (sample_tokens r))"
proof -
  let ?o = "of_nat (length d) :: u8"
  have u: "unat ?o = length d" using assms(2) by (simp add: unat_of_nat)
  have "?o \<noteq> 0" "\<not> 0x4f \<le> ?o" "?o \<noteq> 0x4c" "?o \<noteq> 0x4d" "?o \<noteq> 0x4e"
    using assms u by (auto simp: word_le_nat_alt word_unat_eq_iff)
  then show ?thesis using assms u by (simp add: Let_def case_prod_unfold)
qed

declare sample_tokens.simps(2) [simp del]

lemma sample_lib_law: "txscript_law sample_lib"
proof -
  have num: "0 < length (script_number n) \<and> length (script_number n) \<le> 5 \<and>
      sample_MakeScriptNum (script_number n) True k = Inr (of_nat n)" if "n < 2 ^ 32" for n k
    using le_bytes_length [of n 3] that le_bytes_value [of n "[]"] le_bytes_value [of n "[0]"]
    by (simp add: script_number_def sample_MakeScriptNum_def)
  have "tokenizer_law sample_lib"
    unfolding tokenizer_law_def sample_lib_def using sample_tokens_op sample_tokens_push by simp
  moreover have "builder_law sample_lib"
    unfolding builder_law_def
  proof (intro conjI allI impI)
    fix v :: int assume v: "16 < v \<and> v < 2 ^ 32"
    then have n: "nat v < 2 ^ 32" "of_nat (nat v) = (word_of_int v :: u64)" by auto
    show "\<exists>d. 0 < length d \<and> length d \<le> 5 \<and>
        (\<forall>s. appends (length s + 1 + length d) (s @ of_nat (length d) # d) (ts_AddInt64 sample_lib v s)) \<and>
        (\<forall>n \<ge> length d. ts_MakeScriptNum sample_lib d True n = Inr (word_of_int v))"
      using num [OF n(1)] n(2) v by (intro exI [of _ "script_number (nat v)"]) (simp add: sample_lib_def appends_sized)
  qed (simp_all add: sample_lib_def appends_sized sample_MakeScriptNum_def)
  ultimately show ?thesis
    by (simp add: txscript_law_def sample_lib_def lock_time_to_sequence_law_def sample_LockTimeToSequence_def)
qed

definition sample_csv :: "u8 CSVMultisigClosure" where
  "sample_csv =
     \<lparr>csv_Multisig = \<lparr>ms_PubKeys = [5, 7], ms_Type = MultisigTypeChecksig\<rparr>,
      csv_Locktime = \<lparr>lt_Type = LocktimeTypeSecond, lt_Value = 1024\<rparr>\<rparr>"

definition sample_csv_script :: bytes where
  "sample_csv_script =
     [3, 2, 0, 64, 0xb2, 0x75] @ 32 # replicate 32 5 @ 0xad # 32 # replicate 32 7 @ [0xac]"

definition sample_multisig_script :: bytes where
  "sample_multisig_script = 32 # replicate 32 5 @ 0xad # 32 # replicate 32 7 @ [0xac]"

lemma sample_csv_script_made: "Closure_Script sample_lib (CSVMultisig sample_csv) = Inr sample_csv_script"
proof -
  have n: "script_number 4194306 = [2, 0, 64]" by (simp add: script_number_def le_bytes.simps)
  show ?thesis
    by (simp add: Closure_Script_def CSVMultisigClosure_Script_def MultisigClosure_Script_def BIP68Sequence_def
        sample_csv_def sample_csv_script_def sample_lib_def sample_LockTimeToSequence_def locktime_consts n
        sized_def MaxScriptSize_def opcode_defs Let_def)
qed

lemma sample_scripts_no_success:
  "\<not> ts_ScriptHasOpSuccess sample_lib sample_csv_script"
  "\<not> ts_ScriptHasOpSuccess sample_lib sample_multisig_script"
  by code_simp+

theorem closure_script_decodes_witness:
  "DecodeClosure sample_lib sample_csv_script = Inr (CSVMultisig sample_csv)"
proof (rule closure_script_decodes [OF sample_lib_law _ sample_csv_script_made])
  show "wf_Closure sample_lib (CSVMultisig sample_csv)"
    by (simp add: wf_Closure_def wf_CSVMultisigClosure_def wf_MultisigClosure_def sample_csv_def sample_lib_def)
  show "\<not> ts_ScriptHasOpSuccess sample_lib sample_csv_script"
    by (rule sample_scripts_no_success)
qed

theorem decoded_closure_canonical_witness:
  "Closure_Script sample_lib (Multisig (csv_Multisig sample_csv)) = Inr sample_multisig_script"
proof -
  have "DecodeClosure sample_lib sample_multisig_script = Inr (Multisig (csv_Multisig sample_csv))"
  proof (rule decode_multisig [OF sample_lib_law])
    show "wf_MultisigClosure sample_lib (csv_Multisig sample_csv)"
      by (simp add: wf_MultisigClosure_def sample_csv_def sample_lib_def)
    show "MultisigClosure_Script sample_lib (csv_Multisig sample_csv) = Inr sample_multisig_script"
      by (simp add: MultisigClosure_Script_def sample_csv_def sample_multisig_script_def sample_lib_def
          sized_def MaxScriptSize_def opcode_defs)
    show "\<not> ts_ScriptHasOpSuccess sample_lib sample_multisig_script"
      by (rule sample_scripts_no_success)
  qed
  then show ?thesis by (rule decoded_closure_canonical) simp_all
qed

text \<open>the two types with a bare lock time do not compare the script with the one they would
  make: a sequence with bits that BIP 68 ignores (here \<open>0x10014\<close>) decodes as a lock of 20 blocks,
  and the closure encodes to a different script, hence to a different taproot leaf.\<close>

theorem csv_decoding_not_canonical:
  "DecodeClosure sample_lib ([3, 0x14, 0, 1, 0xb2, 0x75] @ sample_multisig_script) =
     Inr (CSVMultisig (sample_csv\<lparr>csv_Locktime := \<lparr>lt_Type = LocktimeTypeBlock, lt_Value = 20\<rparr>\<rparr>)) \<and>
   Closure_Script sample_lib
     (CSVMultisig (sample_csv\<lparr>csv_Locktime := \<lparr>lt_Type = LocktimeTypeBlock, lt_Value = 20\<rparr>\<rparr>)) =
     Inr ([1, 0x14, 0xb2, 0x75] @ sample_multisig_script)"
proof
  let ?c = "sample_csv\<lparr>csv_Locktime := \<lparr>lt_Type = LocktimeTypeBlock, lt_Value = 20\<rparr>\<rparr>"
  let ?s = "[3, 0x14, 0, 1, 0xb2, 0x75] @ sample_multisig_script"
  have m: "MultisigClosure_Script sample_lib (csv_Multisig sample_csv) = Inr sample_multisig_script"
    by (simp add: MultisigClosure_Script_def sample_csv_def sample_multisig_script_def sample_lib_def
        sized_def MaxScriptSize_def opcode_defs)
  have wf: "wf_MultisigClosure sample_lib (csv_Multisig sample_csv)"
    by (simp add: wf_MultisigClosure_def sample_csv_def sample_lib_def)
  show "Closure_Script sample_lib (CSVMultisig ?c) = Inr ([1, 0x14, 0xb2, 0x75] @ sample_multisig_script)"
    using m by (simp add: Closure_Script_def CSVMultisigClosure_Script_def BIP68Sequence_def locktime_consts
        sample_lib_def sample_LockTimeToSequence_def script_number_def le_bytes.simps sized_def MaxScriptSize_def
        opcode_defs Let_def)
  have "fst (ts_Tokenize sample_lib ?s) =
      token_of 3 (Some [0x14, 0, 1]) (0xb2 # 0x75 # sample_multisig_script) #
      token_of 0xb2 None (0x75 # sample_multisig_script) # token_of 0x75 None sample_multisig_script #
      fst (sample_tokens sample_multisig_script)"
    using sample_tokens_push [of "[0x14, 0, 1]" "0xb2 # 0x75 # sample_multisig_script"]
    by (simp add: sample_lib_def sample_tokens_op)
  moreover have "BIP68DecodeSequenceFromBytes (ts_MakeScriptNum sample_lib) [0x14, 0, 1] =
      Inr \<lparr>lt_Type = LocktimeTypeBlock, lt_Value = 20\<rparr>"
    by (simp add: BIP68DecodeSequenceFromBytes_def sample_lib_def sample_MakeScriptNum_def locktime_consts)
  moreover have "isDataPush 3" "\<not> ts_IsSmallInt sample_lib 3" by (simp_all add: isDataPush_def opcode_defs sample_lib_def)
  ultimately have "CSVMultisigClosure_Decode sample_lib ?s = Inr (Some ?c)"
    using multisig_script_decodes [OF sample_lib_law wf m]
    by (simp add: CSVMultisigClosure_Decode_def opcode_defs sample_csv_def Let_def)
  moreover have "\<not> ts_ScriptHasOpSuccess sample_lib ?s"
    by code_simp
  ultimately show "DecodeClosure sample_lib ?s = Inr (CSVMultisig ?c)"
    by (intro DecodeClosure_try) (simp_all add: decode_first del: try_decoders.simps)
qed

end
