(* ===== verification/Vtxo_Script.thy ===== *)
theory Vtxo_Script
  imports Script_Closure
begin

section \<open>Vtxo scripts\<close>

text \<open>
  \<open>pkg/ark-lib/script/vtxo_script.go\<close>: a vtxo is locked by a list of closures, the leaves of a
  taproot tree. Forfeit closures are the ones spent together with the signer, exit closures the
  ones spent alone after a delay. \<open>ErrNoExitLeaf\<close> is compared by identity, so the error of
  \<open>SmallestExitDelay\<close> is a datatype here. The taproot functions of btcd are arguments of \<open>TapTree\<close>.
\<close>

record 'k TapscriptsVtxoScript =
  tvs_Closures :: "'k Closure list"

definition NewDefaultVtxoScript :: "'k \<Rightarrow> 'k \<Rightarrow> RelativeLocktime \<Rightarrow> 'k TapscriptsVtxoScript" where
  "NewDefaultVtxoScript owner signer exitDelay =
     \<lparr>tvs_Closures =
        [CSVMultisig
           \<lparr>csv_Multisig = \<lparr>ms_PubKeys = [owner], ms_Type = MultisigTypeChecksig\<rparr>, csv_Locktime = exitDelay\<rparr>,
         Multisig \<lparr>ms_PubKeys = [owner, signer], ms_Type = MultisigTypeChecksig\<rparr>]\<rparr>"

definition TapscriptsVtxoScript_Encode :: "'k txscript \<Rightarrow> 'k TapscriptsVtxoScript \<Rightarrow> string list gores" where
  "TapscriptsVtxoScript_Encode lib v =
     map_res (\<lambda>closure. rbind (Closure_Script lib closure) (\<lambda>script. Inr (hex_EncodeToString script)))
       (tvs_Closures v)"

definition TapscriptsVtxoScript_Decode :: "'k txscript \<Rightarrow> string list \<Rightarrow> 'k TapscriptsVtxoScript gores" where
  "TapscriptsVtxoScript_Decode lib scripts =
     guard_err (length scripts = 0) (Errorf ''empty scripts array'')
       (rbind (map_res (\<lambda>script. rbind (map_err GoHex (hex_DecodeString script)) (DecodeClosure lib)) scripts)
          (\<lambda>closures.
             guard_err (length closures = 0) (Errorf ''no valid closures found in scripts'')
               (Inr \<lparr>tvs_Closures = closures\<rparr>)))"

definition ParseVtxoScript :: "'k txscript \<Rightarrow> string list \<Rightarrow> 'k TapscriptsVtxoScript gores" where
  "ParseVtxoScript lib scripts =
     guard_err (length scripts = 0) (Errorf ''empty tapscripts array'')
       (case TapscriptsVtxoScript_Decode lib scripts of
          Inr v \<Rightarrow> Inr v
        | Inl _ \<Rightarrow> Inl (Errorf ''invalid vtxo scripts''))"

fun is_forfeit :: "'k Closure \<Rightarrow> bool" where
  "is_forfeit (Multisig _) = True"
| "is_forfeit (CLTVMultisig _) = True"
| "is_forfeit (ConditionMultisig _) = True"
| "is_forfeit _ = False"

definition ForfeitClosures :: "'k TapscriptsVtxoScript \<Rightarrow> 'k Closure list" where
  "ForfeitClosures v = filter is_forfeit (tvs_Closures v)"

definition ExitClosures :: "'k TapscriptsVtxoScript \<Rightarrow> 'k Closure list" where
  "ExitClosures v =
     filter (\<lambda>c. case c of CSVMultisig _ \<Rightarrow> True | ConditionCSVMultisig _ \<Rightarrow> True | _ \<Rightarrow> False) (tvs_Closures v)"

text \<open>The lock time of an exit closure; any other closure is the default branch of the switch.\<close>

definition exit_locktime :: "'k Closure \<Rightarrow> RelativeLocktime option" where
  "exit_locktime closure =
     (case closure of
        CSVMultisig c \<Rightarrow> Some (csv_Locktime c)
      | ConditionCSVMultisig c \<Rightarrow> Some (csv_Locktime (ccsv_CSV c))
      | _ \<Rightarrow> None)"

datatype exit_error = ErrNoExitLeaf | ExitError go_error

definition invalid_exit :: go_error where
  "invalid_exit = Errorf ''invalid exit closure, expected CSVMultisigClosure or ConditionCSVMultisigClosure''"

fun smallest_exit_loop ::
    "'k Closure list \<Rightarrow> RelativeLocktime option \<Rightarrow> (exit_error, RelativeLocktime option) res" where
  "smallest_exit_loop [] smallest = Inr smallest"
| "smallest_exit_loop (closure # cs) smallest =
     (case exit_locktime closure of
        None \<Rightarrow> Inl (ExitError invalid_exit)
      | Some l \<Rightarrow>
          smallest_exit_loop cs
            (case smallest of
               None \<Rightarrow> Some l
             | Some m \<Rightarrow> if RelativeLocktime_LessThan l m then Some l else Some m))"

definition SmallestExitDelay :: "'k TapscriptsVtxoScript \<Rightarrow> (exit_error, RelativeLocktime) res" where
  "SmallestExitDelay v =
     rbind (smallest_exit_loop (ExitClosures v) None) (\<lambda>smallest.
       case smallest of None \<Rightarrow> Inl ErrNoExitLeaf | Some l \<Rightarrow> Inr l)"

definition validate_forfeit :: "'k txscript \<Rightarrow> bytes \<Rightarrow> bool \<Rightarrow> 'k Closure \<Rightarrow> unit gores" where
  "validate_forfeit lib xOnlySigner blockTypeAllowed forfeit =
     rbind
       (case forfeit of
          Multisig c \<Rightarrow> Inr (ms_PubKeys c)
        | CLTVMultisig c \<Rightarrow>
            guard_err (\<not> blockTypeAllowed \<and> \<not> AbsoluteLocktime_IsSeconds (cltv_Locktime c))
              (Errorf ''invalid forfeit closure, CLTV block type not allowed'')
              (Inr (ms_PubKeys (cltv_Multisig c)))
        | ConditionMultisig c \<Rightarrow> Inr (ms_PubKeys (cond_Multisig c))
        | _ \<Rightarrow> Inr [])
       (\<lambda>keys.
          guard_err (length keys = 0)
            (Errorf ''invalid forfeit closure, expected MultisigClosure, CLTVMultisigClosure or ConditionMultisigClosure'')
          (guard_err (\<not> (\<exists>pubkey \<in> set keys. ts_SerializePubKey lib pubkey = xOnlySigner))
            (Errorf ''invalid forfeit closure, signer pubkey not found'')
            (Inr ())))"

definition validate_exit :: "bool \<Rightarrow> 'k Closure \<Rightarrow> unit gores" where
  "validate_exit blockTypeAllowed closure =
     (case exit_locktime closure of
        None \<Rightarrow> Inl invalid_exit
      | Some locktime \<Rightarrow>
          guard_err (\<not> blockTypeAllowed \<and> lt_Type locktime = LocktimeTypeBlock)
            (Errorf ''invalid exit closure, CSV block type not allowed'') (Inr ()))"

definition TapscriptsVtxoScript_Validate ::
    "'k txscript \<Rightarrow> 'k \<Rightarrow> RelativeLocktime \<Rightarrow> bool \<Rightarrow> 'k TapscriptsVtxoScript \<Rightarrow> unit gores" where
  "TapscriptsVtxoScript_Validate lib signer minLocktime blockTypeAllowed v =
     (let xOnlySigner = ts_SerializePubKey lib signer
      in rbind (check_all (validate_forfeit lib xOnlySigner blockTypeAllowed) (ForfeitClosures v)) (\<lambda>_.
         rbind (check_all (validate_exit blockTypeAllowed) (ExitClosures v)) (\<lambda>_.
           case SmallestExitDelay v of
             Inl ErrNoExitLeaf \<Rightarrow> Inr ()
           | Inl (ExitError err) \<Rightarrow> Inl err
           | Inr smallestExit \<Rightarrow>
               guard_err (RelativeLocktime_LessThan smallestExit minLocktime)
                 (Errorf ''exit delay is too short'') (Inr ()))))"

text \<open>\<open>TapTree\<close>: the leaves are assembled into a tree, whose root tweaks the unspendable key.\<close>

definition TapTree ::
    "'k txscript \<Rightarrow> (bytes list \<Rightarrow> 't) \<Rightarrow> ('t \<Rightarrow> bytes) \<Rightarrow> ('k \<Rightarrow> bytes \<Rightarrow> 'k) \<Rightarrow> 'k \<Rightarrow>
       'k TapscriptsVtxoScript \<Rightarrow> ('k \<times> 't) gores" where
  "TapTree lib assembleTaprootScriptTree rootHash computeTaprootOutputKey unspendableKey v =
     rbind (map_err (Errorw ''failed to get script for closure: '') (map_res (Closure_Script lib) (tvs_Closures v)))
       (\<lambda>leaves.
          let tapTree = assembleTaprootScriptTree leaves
          in Inr (computeTaprootOutputKey unspendableKey (rootHash tapTree), tapTree))"

subsection \<open>The smallest exit delay\<close>

lemma LessThan_iff: "RelativeLocktime_LessThan l m \<longleftrightarrow> RelativeLocktime_Seconds l < RelativeLocktime_Seconds m"
  by (simp add: RelativeLocktime_LessThan_def RelativeLocktime_Compare_def Let_def)

lemma smallest_exit_loop_min:
  assumes "\<forall>c \<in> set cs. exit_locktime c \<noteq> None"
  shows "\<exists>r. smallest_exit_loop cs acc = Inr r \<and> (r = None \<longleftrightarrow> cs = [] \<and> acc = None) \<and>
    (\<forall>n. (\<forall>l. r = Some l \<longrightarrow> n \<le> RelativeLocktime_Seconds l) \<longleftrightarrow>
       (\<forall>l. acc = Some l \<longrightarrow> n \<le> RelativeLocktime_Seconds l) \<and>
       (\<forall>c \<in> set cs. \<forall>l. exit_locktime c = Some l \<longrightarrow> n \<le> RelativeLocktime_Seconds l))"
  using assms
proof (induction cs arbitrary: acc)
  case (Cons c cs)
  obtain l where l: "exit_locktime c = Some l" using Cons.prems by auto
  let ?acc = "case acc of None \<Rightarrow> Some l | Some m \<Rightarrow> if RelativeLocktime_LessThan l m then Some l else Some m"
  obtain r where "smallest_exit_loop cs ?acc = Inr r" "r = None \<longleftrightarrow> cs = [] \<and> ?acc = None"
    "\<And>n. (\<forall>l. r = Some l \<longrightarrow> n \<le> RelativeLocktime_Seconds l) \<longleftrightarrow>
       (\<forall>l. ?acc = Some l \<longrightarrow> n \<le> RelativeLocktime_Seconds l) \<and>
       (\<forall>c \<in> set cs. \<forall>l. exit_locktime c = Some l \<longrightarrow> n \<le> RelativeLocktime_Seconds l)"
    using Cons.IH [of ?acc] Cons.prems by auto
  then show ?case using l by (intro exI [of _ r]) (auto simp: LessThan_iff split: option.splits)
qed auto

text \<open>The promise of a vtxo script towards the signer: what every closure must satisfy alone.\<close>

definition closure_acceptable :: "'k txscript \<Rightarrow> 'k \<Rightarrow> RelativeLocktime \<Rightarrow> bool \<Rightarrow> 'k Closure \<Rightarrow> bool" where
  "closure_acceptable lib signer minLocktime blocks c =
     (let signed = (\<lambda>keys. \<exists>k \<in> set keys. ts_SerializePubKey lib k = ts_SerializePubKey lib signer);
          delayed = (\<lambda>l. (blocks \<or> lt_Type l \<noteq> LocktimeTypeBlock) \<and>
                         RelativeLocktime_Seconds minLocktime \<le> RelativeLocktime_Seconds l)
      in case c of
           Multisig f \<Rightarrow> signed (ms_PubKeys f)
         | CLTVMultisig f \<Rightarrow>
             signed (ms_PubKeys (cltv_Multisig f)) \<and> (blocks \<or> AbsoluteLocktime_IsSeconds (cltv_Locktime f))
         | ConditionMultisig f \<Rightarrow> signed (ms_PubKeys (cond_Multisig f))
         | CSVMultisig f \<Rightarrow> delayed (csv_Locktime f)
         | ConditionCSVMultisig f \<Rightarrow> delayed (csv_Locktime (ccsv_CSV f)))"

lemma ExitClosures_locktime: "\<forall>c \<in> set (ExitClosures v). exit_locktime c \<noteq> None"
  by (auto simp: ExitClosures_def exit_locktime_def split: Closure.splits)

lemma SmallestExitDelay_ge:
  "(case SmallestExitDelay v of
      Inl ErrNoExitLeaf \<Rightarrow> True | Inl (ExitError e) \<Rightarrow> False
    | Inr l \<Rightarrow> n \<le> RelativeLocktime_Seconds l) \<longleftrightarrow>
   (\<forall>c \<in> set (ExitClosures v). \<forall>l. exit_locktime c = Some l \<longrightarrow> n \<le> RelativeLocktime_Seconds l)"
proof -
  obtain r where r: "smallest_exit_loop (ExitClosures v) None = Inr r" "r = None \<longleftrightarrow> ExitClosures v = []"
    "(\<forall>l. r = Some l \<longrightarrow> n \<le> RelativeLocktime_Seconds l) \<longleftrightarrow>
       (\<forall>c \<in> set (ExitClosures v). \<forall>l. exit_locktime c = Some l \<longrightarrow> n \<le> RelativeLocktime_Seconds l)"
    using smallest_exit_loop_min [OF ExitClosures_locktime, of v None] by auto
  then show ?thesis by (cases r) (auto simp: SmallestExitDelay_def)
qed

lemma validate_forfeit_iff:
  "is_forfeit c \<Longrightarrow>
     validate_forfeit lib (ts_SerializePubKey lib signer) blocks c = Inr () \<longleftrightarrow> closure_acceptable lib signer m blocks c"
  by (cases c) (auto simp: validate_forfeit_def closure_acceptable_def guard_err_eq_Inr rbind_eq_Inr Let_def)

lemma validate_exit_iff:
  "exit_locktime c = Some l \<Longrightarrow>
     (validate_exit blocks c = Inr () \<and> RelativeLocktime_Seconds m \<le> RelativeLocktime_Seconds l) \<longleftrightarrow>
     closure_acceptable lib signer m blocks c"
  by (auto simp: validate_exit_def exit_locktime_def closure_acceptable_def guard_err_eq_Inr Let_def
      split: Closure.splits)

lemma closures_split: "set (tvs_Closures v) = set (ForfeitClosures v) \<union> set (ExitClosures v)"
proof -
  have "c \<in> set (ForfeitClosures v) \<union> set (ExitClosures v)" if "c \<in> set (tvs_Closures v)" for c
    using that by (simp add: ForfeitClosures_def ExitClosures_def) (cases c rule: Closure.exhaust; simp)
  then show ?thesis by (auto simp: ForfeitClosures_def ExitClosures_def)
qed

lemma vtxo_script_validate:
  "TapscriptsVtxoScript_Validate lib signer minLocktime blocks v = Inr () \<longleftrightarrow>
     (\<forall>c \<in> set (tvs_Closures v). closure_acceptable lib signer minLocktime blocks c)"
proof -
  let ?x = "ts_SerializePubKey lib signer" and ?m = "RelativeLocktime_Seconds minLocktime"
  have "TapscriptsVtxoScript_Validate lib signer minLocktime blocks v = Inr () \<longleftrightarrow>
      (\<forall>c \<in> set (ForfeitClosures v). validate_forfeit lib ?x blocks c = Inr ()) \<and>
      (\<forall>c \<in> set (ExitClosures v). validate_exit blocks c = Inr ()) \<and>
      (case SmallestExitDelay v of
         Inl ErrNoExitLeaf \<Rightarrow> True | Inl (ExitError e) \<Rightarrow> False | Inr l \<Rightarrow> ?m \<le> RelativeLocktime_Seconds l)"
    by (auto simp: TapscriptsVtxoScript_Validate_def rbind_eq_Inr check_all_eq_Inr Let_def guard_err_eq_Inr
        LessThan_iff split: sum.splits exit_error.splits)
  also have "\<dots> \<longleftrightarrow>
      (\<forall>c \<in> set (ForfeitClosures v). closure_acceptable lib signer minLocktime blocks c) \<and>
      (\<forall>c \<in> set (ExitClosures v). closure_acceptable lib signer minLocktime blocks c)"
    (is "?f \<and> ?e \<and> ?s \<longleftrightarrow> ?f' \<and> ?e'")
  proof -
    have "?f \<longleftrightarrow> ?f'" using validate_forfeit_iff by (fastforce simp: ForfeitClosures_def)
    moreover have "?e \<and> ?s \<longleftrightarrow> ?e'"
      unfolding SmallestExitDelay_ge using ExitClosures_locktime validate_exit_iff
      by (metis option.exhaust option.inject)
    ultimately show ?thesis by blast
  qed
  finally show ?thesis unfolding closures_split by blast
qed

text \<open>C22: the check on a vtxo script is exactly the promise to the signer: every way to spend
  either needs the signer's key, or waits at least the minimal exit delay; lock times in blocks
  appear only where they are allowed. So no closure lets the owner leave early without the
  signer, and no closure that keeps the promise is refused.\<close>

theorem vtxo_script_valid_iff:
  "TapscriptsVtxoScript_Validate lib signer minLocktime blocks v = Inr () \<longleftrightarrow>
     (\<forall>c \<in> set (tvs_Closures v). closure_acceptable lib signer minLocktime blocks c)"
  by (rule vtxo_script_validate)

theorem vtxo_script_valid_iff_witness:
  "TapscriptsVtxoScript_Validate sample_lib 7 \<lparr>lt_Type = LocktimeTypeSecond, lt_Value = 512\<rparr> False
     \<lparr>tvs_Closures = [CSVMultisig sample_csv, Multisig (csv_Multisig sample_csv)]\<rparr> = Inr () \<and>
   TapscriptsVtxoScript_Validate sample_lib 9 \<lparr>lt_Type = LocktimeTypeSecond, lt_Value = 512\<rparr> False
     \<lparr>tvs_Closures = [CSVMultisig sample_csv, Multisig (csv_Multisig sample_csv)]\<rparr> \<noteq> Inr ()"
  unfolding vtxo_script_valid_iff
  by (simp add: closure_acceptable_def sample_csv_def sample_lib_def RelativeLocktime_Seconds_def)

text \<open>a vtxo script survives encoding and decoding: parsing the hexadecimal scripts of its
  closures gives the same closures in the same order, so it validates as before.\<close>

theorem vtxo_script_roundtrip:
  assumes "txscript_law lib" and "tvs_Closures v \<noteq> []"
    and "\<forall>c \<in> set (tvs_Closures v). wf_Closure lib c \<and>
      (\<forall>s. Closure_Script lib c = Inr s \<longrightarrow> \<not> ts_ScriptHasOpSuccess lib s)"
    and "TapscriptsVtxoScript_Encode lib v = Inr scripts"
  shows "ParseVtxoScript lib scripts = Inr v"
proof -
  have all: "list_all2 (\<lambda>c x. \<exists>s. Closure_Script lib c = Inr s \<and> x = hex_EncodeToString s) (tvs_Closures v) scripts"
    using assms(4) unfolding TapscriptsVtxoScript_Encode_def map_res_eq_Inr
    by (rule list.rel_mono_strong) (auto simp: rbind_eq_Inr)
  let ?dec = "\<lambda>x. rbind (map_err GoHex (hex_DecodeString x)) (DecodeClosure lib)"
  have "list_all2 (\<lambda>x c. ?dec x = Inr c) scripts (tvs_Closures v)"
    unfolding list_all2_conv_all_nth
  proof (intro conjI allI impI)
    show "length scripts = length (tvs_Closures v)" using all by (simp add: list_all2_lengthD)
    fix i assume "i < length scripts"
    with all obtain s where "Closure_Script lib (tvs_Closures v ! i) = Inr s" "scripts ! i = hex_EncodeToString s"
      and "tvs_Closures v ! i \<in> set (tvs_Closures v)"
      by (auto simp: list_all2_conv_all_nth)
    then show "?dec (scripts ! i) = Inr (tvs_Closures v ! i)"
      using assms(3) decode_closure_script [OF assms(1)] by simp
  qed
  then have "map_res ?dec scripts = Inr (tvs_Closures v)" by (simp add: map_res_eq_Inr)
  moreover have "scripts \<noteq> []" using all assms(2) by auto
  ultimately show ?thesis
    using assms(2) by (simp add: ParseVtxoScript_def TapscriptsVtxoScript_Decode_def)
qed

theorem vtxo_script_roundtrip_witness:
  "\<exists>scripts. TapscriptsVtxoScript_Encode sample_lib
       \<lparr>tvs_Closures = [CSVMultisig sample_csv, Multisig (csv_Multisig sample_csv)]\<rparr> = Inr scripts \<and>
     ParseVtxoScript sample_lib scripts =
       Inr \<lparr>tvs_Closures = [CSVMultisig sample_csv, Multisig (csv_Multisig sample_csv)]\<rparr>"
proof -
  let ?v = "\<lparr>tvs_Closures = [CSVMultisig sample_csv, Multisig (csv_Multisig sample_csv)]\<rparr>"
  have m: "Closure_Script sample_lib (Multisig (csv_Multisig sample_csv)) = Inr sample_multisig_script"
    by (simp add: Closure_Script_def MultisigClosure_Script_def sample_csv_def sample_multisig_script_def
        sample_lib_def sized_def MaxScriptSize_def opcode_defs)
  have wf: "wf_Closure sample_lib (CSVMultisig sample_csv)" "wf_Closure sample_lib (Multisig (csv_Multisig sample_csv))"
    by (simp_all add: wf_Closure_def wf_CSVMultisigClosure_def wf_MultisigClosure_def sample_csv_def sample_lib_def)
  obtain scripts where "TapscriptsVtxoScript_Encode sample_lib ?v = Inr scripts"
    using m sample_csv_script_made by (simp add: TapscriptsVtxoScript_Encode_def)
  with vtxo_script_roundtrip [OF sample_lib_law, of ?v scripts] wf sample_scripts_no_success m sample_csv_script_made
  show ?thesis by simp
qed

text \<open>The default script of the documentation validates for its signer exactly when its exit delay
  is long enough and in seconds where blocks are not allowed.\<close>

lemma default_vtxo_script_valid:
  "TapscriptsVtxoScript_Validate lib signer minLocktime blocks (NewDefaultVtxoScript owner signer delay) = Inr () \<longleftrightarrow>
     (blocks \<or> lt_Type delay \<noteq> LocktimeTypeBlock) \<and>
     RelativeLocktime_Seconds minLocktime \<le> RelativeLocktime_Seconds delay"
  unfolding vtxo_script_validate by (simp add: NewDefaultVtxoScript_def closure_acceptable_def)

subsection \<open>Closures without keys\<close>

text \<open>\<open>decodeChecksig\<close> refuses a script without keys; \<open>decodeChecksigAdd\<close> does not ask. \<open>OP_0 OP_NUMEQUAL\<close>
  therefore decodes as a multisig closure that nobody has to sign.\<close>

definition keyless :: "u8 MultisigClosure" where
  "keyless = \<lparr>ms_PubKeys = [], ms_Type = MultisigTypeChecksigAdd\<rparr>"

lemma keyless_decodes: "MultisigClosure_Decode sample_lib [0, 0x9c] = Inr (Some keyless)"
  by (simp add: MultisigClosure_Decode_def decodeChecksig_def decodeChecksigAdd_def sample_lib_def sample_tokens_op
      keyless_def rebuilt_def MultisigClosure_Script_def sized_def MaxScriptSize_def opcode_defs Let_def)

text \<open>an exit closure that needs no signature at all is decoded and passes validation: the
  script \<open>0x400002 CSV DROP 0 NUMEQUAL\<close> is accepted as an exit path of a vtxo, and anyone can take
  it once the delay is over.\<close>

theorem keyless_exit_accepted:
  "DecodeClosure sample_lib [3, 2, 0, 64, 0xb2, 0x75, 0, 0x9c] =
     Inr (CSVMultisig (sample_csv\<lparr>csv_Multisig := keyless\<rparr>)) \<and>
   TapscriptsVtxoScript_Validate sample_lib signer \<lparr>lt_Type = LocktimeTypeSecond, lt_Value = 512\<rparr> False
     \<lparr>tvs_Closures = [CSVMultisig (sample_csv\<lparr>csv_Multisig := keyless\<rparr>)]\<rparr> = Inr ()"
proof
  let ?s = "[3, 2, 0, 64, 0xb2, 0x75, 0, 0x9c] :: bytes"
  show "TapscriptsVtxoScript_Validate sample_lib signer \<lparr>lt_Type = LocktimeTypeSecond, lt_Value = 512\<rparr> False
     \<lparr>tvs_Closures = [CSVMultisig (sample_csv\<lparr>csv_Multisig := keyless\<rparr>)]\<rparr> = Inr ()"
    unfolding vtxo_script_validate
    by (simp add: closure_acceptable_def sample_csv_def RelativeLocktime_Seconds_def)
  have "fst (ts_Tokenize sample_lib ?s) =
      token_of 3 (Some [2, 0, 64]) [0xb2, 0x75, 0, 0x9c] # token_of 0xb2 None [0x75, 0, 0x9c] #
      token_of 0x75 None [0, 0x9c] # fst (sample_tokens [0, 0x9c])"
    using sample_tokens_push [of "[2, 0, 64]" "[0xb2, 0x75, 0, 0x9c]"] by (simp add: sample_lib_def sample_tokens_op)
  moreover have "BIP68DecodeSequenceFromBytes (ts_MakeScriptNum sample_lib) [2, 0, 64] = Inr (csv_Locktime sample_csv)"
    by (simp add: BIP68DecodeSequenceFromBytes_def sample_lib_def sample_MakeScriptNum_def locktime_consts sample_csv_def)
  moreover have "isDataPush 3" "\<not> ts_IsSmallInt sample_lib 3" by (simp_all add: isDataPush_def opcode_defs sample_lib_def)
  ultimately have "CSVMultisigClosure_Decode sample_lib ?s = Inr (Some (sample_csv\<lparr>csv_Multisig := keyless\<rparr>))"
    using keyless_decodes by (simp add: CSVMultisigClosure_Decode_def opcode_defs sample_csv_def Let_def)
  moreover have "\<not> ts_ScriptHasOpSuccess sample_lib ?s"
    by code_simp
  ultimately show "DecodeClosure sample_lib ?s = Inr (CSVMultisig (sample_csv\<lparr>csv_Multisig := keyless\<rparr>))"
    by (intro DecodeClosure_try) (simp_all add: decode_first del: try_decoders.simps)
qed

end
