(* ===== verification/Domain_Forfeit.thy ===== *)
theory Domain_Forfeit
  imports Vtxo_Script "HOL-Library.AList"
begin

section \<open>Forfeit transactions ready to broadcast\<close>

text \<open>
  \<open>internal/core/domain/forfeit.go\<close> and \<open>GetPrevOutputFetcher\<close> of \<open>pkg/ark-lib/txutils/utils.go\<close>.
  Of a PSBT the code reads the unsigned transaction and, of each input, the spent output, the key
  spend signature, the script spend signatures and the leaf scripts. Signature verification, the
  leaf hash and the test for taproot outputs are functions of btcd, the fields of \<open>env\<close>.
\<close>

record TaprootScriptSpendSig =
  tss_XOnlyPubKey :: bytes
  tss_LeafHash :: bytes
  tss_Signature :: bytes
  tss_SigHash :: u32

record TaprootTapLeafScript =
  tls_ControlBlock :: bytes
  tls_Script :: bytes
  tls_LeafVersion :: u8

record PInput =
  pin_WitnessUtxo :: "TxOut option"
  pin_TaprootKeySpendSig :: bytes
  pin_TaprootScriptSpendSig :: "TaprootScriptSpendSig list"
  pin_TaprootLeafScript :: "TaprootTapLeafScript list"

record psbt_Packet =
  pp_UnsignedTx :: "MsgTx option"
  pp_Inputs :: "PInput list"

type_synonym prevout_fetcher = "(OutPoint \<times> TxOut) list"

record taproot_env =
  te_IsPayToTaproot :: "bytes \<Rightarrow> bool"
  te_VerifyTaprootKeySpend :: "bytes \<Rightarrow> bytes \<Rightarrow> MsgTx \<Rightarrow> nat \<Rightarrow> prevout_fetcher \<Rightarrow> unit gores"
  te_TapHash :: "bytes \<Rightarrow> bytes"

text \<open>The loop reads \<open>TxIn[i]\<close> for the input \<open>i\<close>; its caller here has compared the two lengths.\<close>

fun prevouts_loop :: "(TxIn \<times> PInput) list \<Rightarrow> prevout_fetcher \<Rightarrow> prevout_fetcher gores" where
  "prevouts_loop [] prevouts = Inr prevouts"
| "prevouts_loop ((txin, input) # r) prevouts =
     (case pin_WitnessUtxo input of
        None \<Rightarrow> Inl (Errorf ''missing witness utxo on input'')
      | Some utxo \<Rightarrow> prevouts_loop r (AList.update (in_PreviousOutPoint txin) utxo prevouts))"

definition GetPrevOutputFetcher :: "MsgTx \<Rightarrow> PInput list \<Rightarrow> prevout_fetcher gores" where
  "GetPrevOutputFetcher tx inputs = prevouts_loop (zip (tx_TxIn tx) inputs) []"

definition forfeitLeafPubkeys :: "'k txscript \<Rightarrow> bytes \<Rightarrow> 'k list gores" where
  "forfeitLeafPubkeys lib leafScript =
     rbind (DecodeClosure lib leafScript) (\<lambda>closure.
       case closure of
         Multisig c \<Rightarrow> Inr (ms_PubKeys c)
       | CLTVMultisig c \<Rightarrow> Inr (ms_PubKeys (cltv_Multisig c))
       | ConditionMultisig c \<Rightarrow> Inr (ms_PubKeys (cond_Multisig c))
       | _ \<Rightarrow> Inl (Errorf ''unexpected forfeit closure type''))"

text \<open>One round of the loop over the inputs: false is the early return.\<close>

definition input_ready ::
    "'k txscript \<Rightarrow> taproot_env \<Rightarrow> MsgTx \<Rightarrow> prevout_fetcher \<Rightarrow> nat \<Rightarrow> PInput \<Rightarrow> bool" where
  "input_ready lib env tx prevouts i input =
     (case pin_TaprootLeafScript input of
        [] \<Rightarrow>
          (case pin_WitnessUtxo input of
             None \<Rightarrow> False
           | Some utxo \<Rightarrow>
               length (pin_TaprootKeySpendSig input) \<noteq> 0 \<and> te_IsPayToTaproot env (out_PkScript utxo) \<and>
               te_VerifyTaprootKeySpend env (drop 2 (out_PkScript utxo)) (pin_TaprootKeySpendSig input)
                 tx i prevouts = Inr ())
      | leaf # _ \<Rightarrow>
          (case forfeitLeafPubkeys lib (tls_Script leaf) of
             Inl _ \<Rightarrow> False
           | Inr pubkeys \<Rightarrow>
               length pubkeys > 0 \<and>
               (let signed = map tss_XOnlyPubKey
                      (filter (\<lambda>sg. tss_LeafHash sg = te_TapHash env (tls_Script leaf)) (pin_TaprootScriptSpendSig input))
                in list_all (\<lambda>pubkey. ts_SerializePubKey lib pubkey \<in> set signed) pubkeys)))"

definition ForfeitTxReadyToBroadcast :: "'k txscript \<Rightarrow> taproot_env \<Rightarrow> psbt_Packet option \<Rightarrow> bool" where
  "ForfeitTxReadyToBroadcast lib env ptx =
     (case ptx of
        None \<Rightarrow> False
      | Some p \<Rightarrow>
          (case pp_UnsignedTx p of
             None \<Rightarrow> False
           | Some tx \<Rightarrow>
               length (pp_Inputs p) \<noteq> 0 \<and> length (pp_Inputs p) = length (tx_TxIn tx) \<and>
               (case GetPrevOutputFetcher tx (pp_Inputs p) of
                  Inl _ \<Rightarrow> False
                | Inr prevouts \<Rightarrow>
                    list_all (\<lambda>(i, input). input_ready lib env tx prevouts i input)
                      (List.enumerate 0 (pp_Inputs p)))))"

definition ForfeitTxCarriesOperatorSignature :: "psbt_Packet \<Rightarrow> bytes list \<Rightarrow> bool" where
  "ForfeitTxCarriesOperatorSignature ptx operatorXOnlyKeys =
     list_ex (\<lambda>input.
       length (pin_TaprootKeySpendSig input) > 0 \<or>
       list_ex (\<lambda>sg. list_ex (\<lambda>key. length key > 0 \<and> tss_XOnlyPubKey sg = key) operatorXOnlyKeys)
         (pin_TaprootScriptSpendSig input))
       (pp_Inputs ptx)"

subsection \<open>Properties\<close>

lemma forfeitLeafPubkeys_closure:
  assumes "forfeitLeafPubkeys lib leaf = Inr keys"
  obtains c where "DecodeClosure lib leaf = Inr c" "is_forfeit c"
    "closure_acceptable lib signer m blocks c \<Longrightarrow> \<exists>k \<in> set keys. ts_SerializePubKey lib k = ts_SerializePubKey lib signer"
proof -
  obtain c where c: "DecodeClosure lib leaf = Inr c" using assms by (auto simp: forfeitLeafPubkeys_def rbind_eq_Inr)
  then have "is_forfeit c \<and>
      (closure_acceptable lib signer m blocks c \<longrightarrow> (\<exists>k \<in> set keys. ts_SerializePubKey lib k = ts_SerializePubKey lib signer))"
    using assms by (cases c) (auto simp: forfeitLeafPubkeys_def closure_acceptable_def Let_def)
  then show thesis using c that by blast
qed

lemma ready_input:
  assumes "ForfeitTxReadyToBroadcast lib env (Some p)" and "i < length (pp_Inputs p)"
  obtains tx prevouts where "pp_UnsignedTx p = Some tx" "GetPrevOutputFetcher tx (pp_Inputs p) = Inr prevouts"
    "input_ready lib env tx prevouts i (pp_Inputs p ! i)"
  using assms
  by (fastforce simp: ForfeitTxReadyToBroadcast_def list_all_iff in_set_enumerate_eq split: option.split_asm sum.split_asm)

text \<open>C28: every input of a forfeit transaction that counts as ready carries what its finalizer needs. An input
  without a leaf, the connector, has a key signature that verifies against the taproot output it spends. An
  input with a leaf, the vtxo, reveals a collaborative closure, never an exit, and carries an entry for
  every key of that leaf under the hash of that very leaf; if the leaf belongs to a vtxo script that was validated,
  an entry of the signer is among them. The check looks for these entries and does not verify the signatures inside them.\<close>

theorem ready_forfeit_signed:
  assumes "ForfeitTxReadyToBroadcast lib env (Some p)" and "i < length (pp_Inputs p)"
  shows "case pin_TaprootLeafScript (pp_Inputs p ! i) of
      [] \<Rightarrow> \<exists>tx utxo prevouts. pp_UnsignedTx p = Some tx \<and> GetPrevOutputFetcher tx (pp_Inputs p) = Inr prevouts \<and>
        pin_WitnessUtxo (pp_Inputs p ! i) = Some utxo \<and> te_IsPayToTaproot env (out_PkScript utxo) \<and>
        te_VerifyTaprootKeySpend env (drop 2 (out_PkScript utxo)) (pin_TaprootKeySpendSig (pp_Inputs p ! i)) tx i prevouts = Inr ()
    | leafScript # _ \<Rightarrow> let leaf = tls_Script leafScript in
        \<exists>c keys. DecodeClosure lib leaf = Inr c \<and> is_forfeit c \<and>
          forfeitLeafPubkeys lib leaf = Inr keys \<and> keys \<noteq> [] \<and>
          (\<forall>k \<in> set keys. \<exists>sg \<in> set (pin_TaprootScriptSpendSig (pp_Inputs p ! i)).
             tss_XOnlyPubKey sg = ts_SerializePubKey lib k \<and> tss_LeafHash sg = te_TapHash env leaf) \<and>
          (\<forall>v signer m blocks. TapscriptsVtxoScript_Validate lib signer m blocks v = Inr () \<and> c \<in> set (tvs_Closures v) \<longrightarrow>
             (\<exists>sg \<in> set (pin_TaprootScriptSpendSig (pp_Inputs p ! i)).
                tss_XOnlyPubKey sg = ts_SerializePubKey lib signer \<and> tss_LeafHash sg = te_TapHash env leaf))"
proof (cases "pin_TaprootLeafScript (pp_Inputs p ! i)")
  case Nil
  obtain tx prevouts where "pp_UnsignedTx p = Some tx" "GetPrevOutputFetcher tx (pp_Inputs p) = Inr prevouts"
    "input_ready lib env tx prevouts i (pp_Inputs p ! i)"
    by (rule ready_input [OF assms])
  then show ?thesis using Nil by (auto simp: input_ready_def split: option.split_asm)
next
  case (Cons leafScript others)
  let ?sigs = "pin_TaprootScriptSpendSig (pp_Inputs p ! i)" and ?leaf = "tls_Script leafScript"
  obtain tx prevouts where "input_ready lib env tx prevouts i (pp_Inputs p ! i)"
    by (rule ready_input [OF assms])
  then obtain keys where keys: "forfeitLeafPubkeys lib ?leaf = Inr keys" "keys \<noteq> []"
    and signed: "\<forall>k \<in> set keys. \<exists>sg \<in> set ?sigs.
       tss_XOnlyPubKey sg = ts_SerializePubKey lib k \<and> tss_LeafHash sg = te_TapHash env ?leaf"
    using Cons by (fastforce simp: input_ready_def list_all_iff Let_def split: sum.split_asm)
  obtain c where c: "DecodeClosure lib ?leaf = Inr c" "is_forfeit c"
    using forfeitLeafPubkeys_closure [OF keys(1)] by metis
  have "\<exists>sg \<in> set ?sigs. tss_XOnlyPubKey sg = ts_SerializePubKey lib signer \<and> tss_LeafHash sg = te_TapHash env ?leaf"
    if v: "TapscriptsVtxoScript_Validate lib signer m blocks v = Inr ()" "c \<in> set (tvs_Closures v)" for v signer m blocks
  proof -
    have "closure_acceptable lib signer m blocks c" using v unfolding vtxo_script_validate by blast
    then obtain k where "k \<in> set keys" "ts_SerializePubKey lib k = ts_SerializePubKey lib signer"
      using forfeitLeafPubkeys_closure [OF keys(1), of signer m blocks] c(1) by (metis sum.inject(2))
    then show ?thesis using signed by metis
  qed
  then show ?thesis using Cons c keys signed by (simp add: Let_def) blast
qed

definition sample_taproot :: taproot_env where
  "sample_taproot =
     \<lparr>te_IsPayToTaproot = (\<lambda>s. length s = 34), te_VerifyTaprootKeySpend = (\<lambda>k sg tx i ps. Inr ()),
      te_TapHash = rev\<rparr>"

definition sample_forfeit :: psbt_Packet where
  "sample_forfeit =
     \<lparr>pp_UnsignedTx = Some
        \<lparr>tx_Version = 3, tx_TxIn = [\<lparr>in_PreviousOutPoint = \<lparr>op_Hash = [1], op_Index = 0\<rparr>\<rparr>], tx_TxOut = []\<rparr>,
      pp_Inputs =
        [\<lparr>pin_WitnessUtxo = Some \<lparr>out_Value = 1000, out_PkScript = []\<rparr>, pin_TaprootKeySpendSig = [],
          pin_TaprootScriptSpendSig =
            [\<lparr>tss_XOnlyPubKey = replicate 32 5, tss_LeafHash = rev sample_multisig_script, tss_Signature = replicate 64 1, tss_SigHash = 0\<rparr>,
             \<lparr>tss_XOnlyPubKey = replicate 32 7, tss_LeafHash = rev sample_multisig_script, tss_Signature = replicate 64 1, tss_SigHash = 0\<rparr>],
          pin_TaprootLeafScript = [\<lparr>tls_ControlBlock = [], tls_Script = sample_multisig_script, tls_LeafVersion = 0xc0\<rparr>]\<rparr>]\<rparr>"

lemma sample_leaf_decodes:
  "DecodeClosure sample_lib sample_multisig_script = Inr (Multisig (csv_Multisig sample_csv))"
proof (rule decode_multisig [OF sample_lib_law _ _ sample_scripts_no_success(2)])
  show "wf_MultisigClosure sample_lib (csv_Multisig sample_csv)"
    by (simp add: wf_MultisigClosure_def sample_csv_def sample_lib_def)
  show "MultisigClosure_Script sample_lib (csv_Multisig sample_csv) = Inr sample_multisig_script"
    by (simp add: MultisigClosure_Script_def sample_csv_def sample_multisig_script_def sample_lib_def
        sized_def MaxScriptSize_def opcode_defs)
qed

theorem ready_forfeit_signed_witness:
  "ForfeitTxReadyToBroadcast sample_lib sample_taproot (Some sample_forfeit) \<and>
   (\<exists>sg \<in> set (pin_TaprootScriptSpendSig (pp_Inputs sample_forfeit ! 0)).
      tss_XOnlyPubKey sg = ts_SerializePubKey sample_lib 7 \<and>
      tss_LeafHash sg = te_TapHash sample_taproot sample_multisig_script)"
proof
  have keys: "forfeitLeafPubkeys sample_lib sample_multisig_script = Inr [5, 7]"
    by (simp add: forfeitLeafPubkeys_def sample_leaf_decodes) (simp add: sample_csv_def)
  then show ready: "ForfeitTxReadyToBroadcast sample_lib sample_taproot (Some sample_forfeit)"
    by (simp add: ForfeitTxReadyToBroadcast_def sample_forfeit_def GetPrevOutputFetcher_def input_ready_def
        sample_taproot_def sample_lib_def)
  have "TapscriptsVtxoScript_Validate sample_lib 7 \<lparr>lt_Type = LocktimeTypeSecond, lt_Value = 512\<rparr> False
      \<lparr>tvs_Closures = [Multisig (csv_Multisig sample_csv)]\<rparr> = Inr ()"
    unfolding vtxo_script_validate by (simp add: closure_acceptable_def sample_csv_def sample_lib_def)
  moreover have "0 < length (pp_Inputs sample_forfeit)"
    "pin_TaprootLeafScript (pp_Inputs sample_forfeit ! 0) =
      [\<lparr>tls_ControlBlock = [], tls_Script = sample_multisig_script, tls_LeafVersion = 0xc0\<rparr>]"
    by (simp_all add: sample_forfeit_def)
  ultimately show "\<exists>sg \<in> set (pin_TaprootScriptSpendSig (pp_Inputs sample_forfeit ! 0)).
      tss_XOnlyPubKey sg = ts_SerializePubKey sample_lib 7 \<and>
      tss_LeafHash sg = te_TapHash sample_taproot sample_multisig_script"
    using ready_forfeit_signed [OF ready, of 0] sample_leaf_decodes
    by (auto simp: Let_def) (metis TapscriptsVtxoScript.select_convs(1) list.set_intros(1))
qed

end
