(* ===== verification/Live_Reservations.thy ===== *)
theory Live_Reservations
  imports Domain_Offchain_Tx
begin

section \<open>Reservations of the live store\<close>

text \<open>
  \<open>internal/infrastructure/live-store/redis\<close>: \<open>utxos.go\<close> and \<open>offchain_txs.go\<close>, and the retry loop
  that every transaction of the package runs in.

  A Redis server is shared by several processes. An operation of the source that reads under
  \<open>WATCH\<close> and writes in one \<open>TxPipelined\<close> block takes effect at one moment or not at all, so a try of
  it is a function of the store at that moment (a Redis set is a \<open>set\<close>, a hash a map).
  \<open>redis_retry\<close> is the loop around it: one element of its list for every round of
  \<open>for range s.numOfRetries\<close>, with the store that try finds and the failure that Redis reports
  for it, if any (a \<open>WATCH\<close> conflict is \<open>redis.TxFailedErr\<close>). What another process does between two
  tries shows as a different store in the next element.

  Values are kept as they were before \<open>json.Marshal\<close>; the parsing of a checkpoint transaction
  (\<open>psbt.NewFromRawBytes\<close>, another module) is the argument \<open>txins\<close>, which gives the previous
  outpoints of its inputs in their string form, or its error.
\<close>

subsection \<open>Failures and retries\<close>

datatype redis_error = TxFailedErr | RedisFailure string

datatype store_error =
    ErrUtxosAlreadyExist
  | ErrOffchainTxInputAlreadySpent string
  | OfRedis redis_error
  | NilDereference
  | StoreErrorf string "store_error option"

type_synonym 'a sres = "(store_error, 'a) res"

text \<open>The loop of \<open>numOfRetries\<close> tries: \<open>stop\<close> tells the errors that end it, \<open>lastErr\<close> is the
  error of the try before, \<open>wrap\<close> makes the error returned when the tries are used up. A try
  that Redis fails reports that failure; one that Redis serves reports its own outcome.\<close>

fun redis_retry ::
    "(store_error \<Rightarrow> bool) \<Rightarrow> (store_error option \<Rightarrow> store_error) \<Rightarrow> ('s \<Rightarrow> 'a sres) \<Rightarrow>
     ('s \<times> redis_error option) list \<Rightarrow> store_error option \<Rightarrow> 'a sres" where
  "redis_retry stop wrap attempt [] lastErr = Inl (wrap lastErr)"
| "redis_retry stop wrap attempt ((s, fault) # rest) lastErr =
     (case (case fault of None \<Rightarrow> attempt s | Some e \<Rightarrow> Inl (OfRedis e)) of
        Inr a \<Rightarrow> Inr a
      | Inl e \<Rightarrow> if stop e then Inl e else redis_retry stop wrap attempt rest (Some e))"

definition SMIsMember :: "string set \<Rightarrow> string list \<Rightarrow> bool list" where
  "SMIsMember s members = map (\<lambda>m. m \<in> s) members"

text \<open>The loop over the answers of \<open>SMISMEMBER\<close> that all three \<open>IncludesAny\<close> end with.\<close>

fun outpoints_included :: "bool list \<Rightarrow> Outpoint list \<Rightarrow> Outpoint list" where
  "outpoints_included (b # bs) (k # ks) = (if b then [k] else []) @ outpoints_included bs ks"
| "outpoints_included _ _ = []"

definition includes_any :: "string set \<Rightarrow> Outpoint list \<Rightarrow> redis_error option \<Rightarrow> Outpoint list sres" where
  "includes_any s outpoints fault =
     (if outpoints = [] then Inr []
      else (case fault of
              Some e \<Rightarrow> Inl (StoreErrorf ''failed to check existence of inputs'' (Some (OfRedis e)))
            | None \<Rightarrow>
                let exists = SMIsMember s (map Outpoint_String outpoints)
                in guard_err (length exists \<noteq> length outpoints)
                     (StoreErrorf ''checked inputs but got a different number of answers'' None)
                     (Inr (outpoints_included exists outpoints))))"

subsection \<open>utxos.go\<close>

record utxoStore =
  us_outpoints :: "string set"

definition outpointsToMembers :: "Outpoint list \<Rightarrow> string list" where
  "outpointsToMembers outpoints = map Outpoint_String outpoints"

definition AddUtxos_attempt :: "string list \<Rightarrow> utxoStore \<Rightarrow> utxoStore sres" where
  "AddUtxos_attempt members s =
     guard_err (True \<in> set (SMIsMember (us_outpoints s) members)) ErrUtxosAlreadyExist
       (Inr (s\<lparr>us_outpoints := us_outpoints s \<union> set members\<rparr>))"

text \<open>\<open>Inr None\<close>: success without touching the store.\<close>

definition AddUtxos ::
    "Outpoint list \<Rightarrow> (utxoStore \<times> redis_error option) list \<Rightarrow> utxoStore option sres" where
  "AddUtxos outpoints tries =
     (if outpoints = [] then Inr None
      else rbind
        (redis_retry (\<lambda>e. e \<noteq> OfRedis TxFailedErr)
           (StoreErrorf ''failed to add utxos after max number of retries'')
           (AddUtxos_attempt (outpointsToMembers outpoints)) tries None)
        (\<lambda>s. Inr (Some s)))"

definition remove_members :: "string list \<Rightarrow> utxoStore \<Rightarrow> utxoStore" where
  "remove_members members s = s\<lparr>us_outpoints := us_outpoints s - set members\<rparr>"

definition RemoveUtxos ::
    "Outpoint list \<Rightarrow> utxoStore \<Rightarrow> redis_error option \<Rightarrow> utxoStore sres" where
  "RemoveUtxos outpoints s fault =
     (if outpoints = [] then Inr s
      else (case fault of
              Some e \<Rightarrow> Inl (StoreErrorf ''failed to remove utxos'' (Some (OfRedis e)))
            | None \<Rightarrow> Inr (remove_members (outpointsToMembers outpoints) s)))"

definition utxo_IncludesAny ::
    "Outpoint list \<Rightarrow> utxoStore \<Rightarrow> redis_error option \<Rightarrow> Outpoint list sres" where
  "utxo_IncludesAny outpoints s fault = includes_any (us_outpoints s) outpoints fault"

subsection \<open>offchain_txs.go\<close>

text \<open>The hash \<open>offChainTxStore:txs\<close> and the set \<open>offChainTxStore:inputs\<close>; the finalization locks are
  keys of their own with an expiry time. The unexported field \<open>changes\<close> is not marshalled.\<close>

record offChainTxStore =
  os_txs :: "string \<rightharpoonup> OffchainTx"
  os_inputs :: "string set"

fun checkpoint_inputs :: "(string \<Rightarrow> string list gores) \<Rightarrow> string list \<Rightarrow> string list gores" where
  "checkpoint_inputs txins [] = Inr []"
| "checkpoint_inputs txins (tx # txs) =
     rbind (txins tx) (\<lambda>ins. rbind (checkpoint_inputs txins txs) (\<lambda>rest. Inr (ins @ rest)))"

definition Add_attempt ::
    "OffchainTx \<Rightarrow> string list \<Rightarrow> offChainTxStore \<Rightarrow> offChainTxStore sres" where
  "Add_attempt offchainTx inputs s =
     (case find (\<lambda>i. i \<in> os_inputs s) inputs of
        Some i \<Rightarrow> Inl (ErrOffchainTxInputAlreadySpent i)
      | None \<Rightarrow>
          Inr (s\<lparr>os_txs := (os_txs s)(ot_ArkTxid offchainTx \<mapsto> offchainTx\<lparr>ot_changes := []\<rparr>),
                 os_inputs := os_inputs s \<union> set inputs\<rparr>))"

fun is_already_spent :: "store_error \<Rightarrow> bool" where
  "is_already_spent (ErrOffchainTxInputAlreadySpent i) = True"
| "is_already_spent e = False"

text \<open>\<open>Add\<close> drops the parse error of a checkpoint and dereferences the packet, so one that does not
  parse panics.\<close>

definition offchain_Add ::
    "(string \<Rightarrow> string list gores) \<Rightarrow> OffchainTx \<Rightarrow> (offChainTxStore \<times> redis_error option) list \<Rightarrow>
     offChainTxStore sres" where
  "offchain_Add txins offchainTx tries =
     (case checkpoint_inputs txins (map_values (ot_CheckpointTxs offchainTx)) of
        Inl _ \<Rightarrow> Inl NilDereference
      | Inr inputs \<Rightarrow>
          redis_retry is_already_spent
            (StoreErrorf ''failed to add offchain tx after max number of retries'')
            (Add_attempt offchainTx inputs) tries None)"

text \<open>\<open>Remove\<close> reads the transaction before its loop: \<open>s\<close> is the store it reads, the tries run on
  what the store has become by then.\<close>

definition Remove_attempt :: "string \<Rightarrow> string list \<Rightarrow> offChainTxStore \<Rightarrow> offChainTxStore sres" where
  "Remove_attempt arkTxid inputs s =
     Inr (s\<lparr>os_txs := (os_txs s)(arkTxid := None), os_inputs := os_inputs s - set inputs\<rparr>)"

definition offchain_Remove ::
    "(string \<Rightarrow> string list gores) \<Rightarrow> string \<Rightarrow> offChainTxStore \<Rightarrow>
     (offChainTxStore \<times> redis_error option) list \<Rightarrow> offChainTxStore option sres" where
  "offchain_Remove txins arkTxid s tries =
     (case os_txs s arkTxid of
        None \<Rightarrow> Inr None
      | Some offchainTx \<Rightarrow>
          (case checkpoint_inputs txins (map_values (ot_CheckpointTxs offchainTx)) of
             Inl _ \<Rightarrow> Inl (StoreErrorf (''malformed offchain checkpoint tx in storage '' @ arkTxid) None)
           | Inr inputs \<Rightarrow>
               rbind
                 (redis_retry (\<lambda>_. False)
                   (StoreErrorf ''failed to remove offchain tx after max number of retries'')
                   (Remove_attempt arkTxid inputs) tries None)
                 (\<lambda>s'. Inr (Some s'))))"

definition offchain_Get :: "string \<Rightarrow> offChainTxStore \<Rightarrow> OffchainTx option" where
  "offchain_Get arkTxid s = os_txs s arkTxid"

definition offchain_IncludesAny ::
    "Outpoint list \<Rightarrow> offChainTxStore \<Rightarrow> redis_error option \<Rightarrow> Outpoint list sres" where
  "offchain_IncludesAny outpoints s fault = includes_any (os_inputs s) outpoints fault"

text \<open>A finalization lock: the time at which Redis drops the key, if it is set. \<open>SetNX\<close> succeeds on a
  key that is absent or has expired. \<open>LockFinalization\<close> polls: one element of its list for each
  turn, with the time, the lock as it is then and whether the context is done.\<close>

type_synonym finalization_lock = "int option"

definition lock_free :: "int \<Rightarrow> finalization_lock \<Rightarrow> bool" where
  "lock_free now l \<longleftrightarrow> (case l of None \<Rightarrow> True | Some expiry \<Rightarrow> expiry \<le> now)"

definition SetNX :: "int \<Rightarrow> int \<Rightarrow> finalization_lock \<Rightarrow> bool \<times> finalization_lock" where
  "SetNX now ttl l = (if lock_free now l then (True, Some (now + ttl)) else (False, l))"

fun lock_loop ::
    "int \<Rightarrow> (int \<times> finalization_lock \<times> bool) list \<Rightarrow> (finalization_lock sres) option" where
  "lock_loop ttl [] = None"
| "lock_loop ttl ((now, l, canceled) # turns) =
     (if canceled then Some (Inl (StoreErrorf ''failed to lock finalization'' None))
      else (case SetNX now ttl l of
              (True, l') \<Rightarrow> Some (Inr l')
            | (False, _) \<Rightarrow> lock_loop ttl turns))"

definition LockFinalization ::
    "int \<Rightarrow> (int \<times> finalization_lock \<times> bool) list \<Rightarrow> (finalization_lock sres) option" where
  "LockFinalization ttl turns =
     (if ttl \<le> 0 then Some (Inl (StoreErrorf ''finalization lock TTL must be positive'' None))
      else lock_loop ttl turns)"

definition UnlockFinalization :: "finalization_lock \<Rightarrow> finalization_lock" where
  "UnlockFinalization l = None"

subsection \<open>Retries\<close>

text \<open>What an operation returns was computed by one of its tries, on the store that try found, and
  Redis did not fail that try: with its other tries without effect, the operation is one step.\<close>

lemma redis_retry_Inr:
  assumes "redis_retry stop wrap attempt tries e = Inr a"
  obtains s where "(s, None) \<in> set tries" and "attempt s = Inr a"
  using assms
  by (induction stop wrap attempt tries e rule: redis_retry.induct)
    (auto split: option.split_asm sum.split_asm if_split_asm)

lemma redis_retry_served [simp]:
  "attempt s = Inr a \<Longrightarrow> redis_retry stop wrap attempt ((s, None) # rest) e = Inr a"
  by simp

lemma redis_retry_after_conflicts:
  assumes "\<not> stop (OfRedis TxFailedErr)" and "attempt s = Inr a"
  shows "redis_retry stop wrap attempt (map (\<lambda>s. (s, Some TxFailedErr)) ss @ (s, None) # rest) e = Inr a"
  using assms by (induction ss arbitrary: e) auto

subsection \<open>Membership\<close>

lemma outpoints_included_filter:
  "outpoints_included (map P ks) ks = filter P ks"
  by (induction ks) auto

lemma includes_any_filter [simp]:
  "includes_any s outpoints None = Inr (filter (\<lambda>k. Outpoint_String k \<in> s) outpoints)"
proof -
  have "outpoints_included (map (\<lambda>x. Outpoint_String x \<in> s) outpoints) outpoints =
      filter (\<lambda>k. Outpoint_String k \<in> s) outpoints"
    by (rule outpoints_included_filter)
  then show ?thesis by (simp add: includes_any_def SMIsMember_def comp_def)
qed

lemma includes_any_empty_iff:
  "includes_any s outpoints None = Inr [] \<longleftrightarrow> Outpoint_String ` set outpoints \<inter> s = {}"
  by (auto simp: filter_empty_conv)

text \<open>The key of an outpoint determines it, whatever the transaction id is.\<close>

lemma dec_string_no_colon: "CHR '':'' \<notin> set (dec_string n)"
  using dec_string_digits [of "CHR '':''" n] by auto

lemma split_at_last_sep:
  assumes "s @ d # t = s' @ d # t'" and "d \<notin> set t" and "d \<notin> set t'"
  shows "s = s' \<and> t = t'"
  using assms by (auto simp: append_eq_append_conv2 append_eq_Cons_conv Cons_eq_append_conv)

lemma dec_string_eq_iff: "n < 2 ^ 32 \<Longrightarrow> m < 2 ^ 32 \<Longrightarrow> dec_string n = dec_string m \<longleftrightarrow> n = m"
  by (metis ParseUint32_dec_string sum.inject(2))

lemma Outpoint_String_eq_iff [simp]: "Outpoint_String k = Outpoint_String k' \<longleftrightarrow> k = k'"
proof
  assume "Outpoint_String k = Outpoint_String k'"
  then have "outp_Txid k @ CHR '':'' # dec_string (unat (outp_VOut k)) =
      outp_Txid k' @ CHR '':'' # dec_string (unat (outp_VOut k'))"
    by (simp add: Outpoint_String_def)
  from split_at_last_sep [OF this dec_string_no_colon dec_string_no_colon]
  have "outp_Txid k = outp_Txid k'"
    and "dec_string (unat (outp_VOut k)) = dec_string (unat (outp_VOut k'))" by auto
  moreover have "unat (outp_VOut k) < 2 ^ 32" and "unat (outp_VOut k') < 2 ^ 32"
    using unsigned_less [of "outp_VOut k"] unsigned_less [of "outp_VOut k'"] by simp_all
  ultimately show "k = k'" by (cases k; cases k') (simp add: dec_string_eq_iff word_unat_eq_iff)
qed simp

subsection \<open>Reservations as an interface\<close>

text \<open>
  A store that reserves keys for an owner: all of them or none, refused as soon as one of them is
  held, and given back as a whole. Its clients rely on one fact, proved here once: as long as an
  owner gives back only what it reserved, no key is held by two owners.
\<close>

datatype 'o reservation_op = Reserve 'o "string list" | Release 'o

fun run_reservations ::
    "('o \<Rightarrow> string list \<Rightarrow> 's \<Rightarrow> 's sres) \<Rightarrow> ('o \<Rightarrow> string list \<Rightarrow> 's \<Rightarrow> 's) \<Rightarrow>
     'o reservation_op list \<Rightarrow> 's \<times> ('o \<rightharpoonup> string list) \<Rightarrow> 's \<times> ('o \<rightharpoonup> string list)" where
  "run_reservations reserve release [] st = st"
| "run_reservations reserve release (Reserve x ks # ops) (s, own) =
     run_reservations reserve release ops
       (if own x \<noteq> None then (s, own)
        else (case reserve x ks s of Inl e \<Rightarrow> (s, own) | Inr s' \<Rightarrow> (s', own(x \<mapsto> ks))))"
| "run_reservations reserve release (Release x # ops) (s, own) =
     run_reservations reserve release ops
       (case own x of None \<Rightarrow> (s, own) | Some ks \<Rightarrow> (release x ks s, own(x := None)))"

definition owned :: "('o \<rightharpoonup> string list) \<Rightarrow> string set" where
  "owned own = (\<Union>ks \<in> ran own. set ks)"

definition exclusive :: "('o \<rightharpoonup> string list) \<Rightarrow> bool" where
  "exclusive own \<longleftrightarrow>
     (\<forall>x y ks ls. own x = Some ks \<longrightarrow> own y = Some ls \<longrightarrow> x \<noteq> y \<longrightarrow> set ks \<inter> set ls = {})"

lemma ownedI: "own x = Some ks \<Longrightarrow> k \<in> set ks \<Longrightarrow> k \<in> owned own"
  by (auto simp: owned_def ran_def)

lemma ownedE: "k \<in> owned own \<Longrightarrow> (\<And>x ks. own x = Some ks \<Longrightarrow> k \<in> set ks \<Longrightarrow> P) \<Longrightarrow> P"
  by (auto simp: owned_def ran_def)

lemma exclusiveD: "exclusive own \<Longrightarrow> own x = Some ks \<Longrightarrow> own y = Some ls \<Longrightarrow> k \<in> set ks \<Longrightarrow>
    k \<in> set ls \<Longrightarrow> x = y"
  unfolding exclusive_def by blast

lemma exclusive_update:
  assumes "exclusive own" and "set ks \<inter> owned own = {}"
  shows "exclusive (own(x \<mapsto> ks))"
  unfolding exclusive_def
proof (intro allI impI equals0I)
  fix y z as bs k
  assume y: "(own(x \<mapsto> ks)) y = Some as" and z: "(own(x \<mapsto> ks)) z = Some bs" and "y \<noteq> z"
    and k: "k \<in> set as \<inter> set bs"
  consider "y = x" "z \<noteq> x" | "y \<noteq> x" "z = x" | "y \<noteq> x" "z \<noteq> x" using \<open>y \<noteq> z\<close> by blast
  then show False
  proof cases
    case 1
    then have "k \<in> set ks" "k \<in> owned own" using y z k by (auto intro: ownedI)
    then show False using assms(2) by blast
  next
    case 2
    then have "k \<in> set ks" "k \<in> owned own" using y z k by (auto intro: ownedI)
    then show False using assms(2) by blast
  next
    case 3
    then show False using y z k \<open>y \<noteq> z\<close> exclusiveD [OF assms(1), of y as z bs k] by simp
  qed
qed

lemma owned_update: "own x = None \<Longrightarrow> owned (own(x \<mapsto> ks)) = owned own \<union> set ks"
  by (auto simp: owned_def)

lemma owned_drop:
  assumes "exclusive own" and "own x = Some ks"
  shows "owned (own(x := None)) = owned own - set ks"
proof (intro equalityI subsetI)
  fix k assume "k \<in> owned (own(x := None))"
  then obtain y ls where y: "(own(x := None)) y = Some ls" "k \<in> set ls" by (rule ownedE)
  then have "y \<noteq> x" "own y = Some ls" by (auto split: if_splits)
  with y show "k \<in> owned own - set ks"
    using exclusiveD [OF assms, of y ls k] by (auto intro: ownedI)
next
  fix k assume k: "k \<in> owned own - set ks"
  then obtain y ls where "own y = Some ls" "k \<in> set ls" by (auto elim: ownedE)
  with k assms(2) show "k \<in> owned (own(x := None))" by (intro ownedI [of _ y ls]) auto
qed

lemma exclusive_drop: "exclusive own \<Longrightarrow> exclusive (own(x := None))"
  by (auto simp: exclusive_def)

locale reservation =
  fixes held :: "'s \<Rightarrow> string set"
    and reserve :: "'o \<Rightarrow> string list \<Rightarrow> 's \<Rightarrow> 's sres"
    and release :: "'o \<Rightarrow> string list \<Rightarrow> 's \<Rightarrow> 's"
  assumes reserve_refuses: "set ks \<inter> held s \<noteq> {} \<Longrightarrow> \<exists>e. reserve x ks s = Inl e"
    and reserve_grants: "set ks \<inter> held s = {} \<Longrightarrow> \<exists>s'. reserve x ks s = Inr s' \<and> held s' = held s \<union> set ks"
    and release_frees: "held (release x ks s) = held s - set ks"
begin

lemma reserveD:
  assumes "reserve x ks s = Inr s'"
  shows "set ks \<inter> held s = {} \<and> held s' = held s \<union> set ks"
proof -
  have free: "set ks \<inter> held s = {}" using assms reserve_refuses [of ks s x] by auto
  then show ?thesis using assms reserve_grants [of ks s x] by auto
qed

lemma run_exclusive:
  assumes "exclusive own" and "held s = owned own"
    and "run_reservations reserve release ops (s, own) = (s', own')"
  shows "exclusive own' \<and> held s' = owned own'"
  using assms
proof (induction ops arbitrary: s own)
  case (Cons op ops)
  show ?case
  proof (cases op)
    case (Reserve x ks)
    consider "own x \<noteq> None \<or> (\<exists>e. reserve x ks s = Inl e)"
      | t where "own x = None" "reserve x ks s = Inr t"
      by (cases "reserve x ks s") auto
    then show ?thesis
    proof cases
      case 1
      then show ?thesis using Cons Reserve by (auto split: if_splits)
    next
      case 2
      from reserveD [OF 2(2)] Cons.prems have "exclusive (own(x \<mapsto> ks))"
        and "held t = owned (own(x \<mapsto> ks))"
        by (simp_all add: exclusive_update owned_update 2(1))
      moreover have "run_reservations reserve release ops (t, own(x \<mapsto> ks)) = (s', own')"
        using Cons.prems(3) 2 Reserve by simp
      ultimately show ?thesis by (rule Cons.IH)
    qed
  next
    case (Release x)
    show ?thesis
    proof (cases "own x")
      case None
      then show ?thesis using Cons Release by simp
    next
      case (Some ks)
      have "held (release x ks s) = owned (own(x := None))"
        using Cons.prems Some by (simp add: release_frees owned_drop)
      moreover have "run_reservations reserve release ops (release x ks s, own(x := None)) = (s', own')"
        using Cons.prems(3) Some Release by simp
      ultimately show ?thesis by (rule Cons.IH [OF exclusive_drop [OF Cons.prems(1)]])
    qed
  qed
qed simp

end

interpretation cosigned: reservation us_outpoints "\<lambda>_. AddUtxos_attempt" "\<lambda>_. remove_members"
  by unfold_locales
    (auto simp: AddUtxos_attempt_def SMIsMember_def guard_err_def remove_members_def)

text \<open>In the store of offchain transactions the owner is the transaction, and what \<open>Remove\<close> gives
  back are the inputs of the checkpoints it read.\<close>

definition remove_tx :: "OffchainTx \<Rightarrow> string list \<Rightarrow> offChainTxStore \<Rightarrow> offChainTxStore" where
  "remove_tx tx inputs s = (case Remove_attempt (ot_ArkTxid tx) inputs s of Inl _ \<Rightarrow> s | Inr s' \<Rightarrow> s')"

lemma find_member:
  "find P xs = None \<and> (\<forall>x \<in> set xs. \<not> P x) \<or> (\<exists>x \<in> set xs. P x \<and> find P xs = Some x)"
  by (induction xs) auto

lemma Add_attempt_cases:
  "set ks \<inter> os_inputs s = {} \<and>
   Add_attempt tx ks s =
     Inr (s\<lparr>os_txs := (os_txs s)(ot_ArkTxid tx \<mapsto> tx\<lparr>ot_changes := []\<rparr>), os_inputs := os_inputs s \<union> set ks\<rparr>)
   \<or> (\<exists>i \<in> set ks \<inter> os_inputs s. Add_attempt tx ks s = Inl (ErrOffchainTxInputAlreadySpent i))"
  using find_member [of "\<lambda>i. i \<in> os_inputs s" ks] by (auto simp: Add_attempt_def)

lemma Add_attempt_refused: "(\<exists>e. Add_attempt tx ks s = Inl e) \<longleftrightarrow> set ks \<inter> os_inputs s \<noteq> {}"
  using Add_attempt_cases [of ks s tx] by auto

lemma Add_attempt_eq_Inr:
  "Add_attempt tx ks s = Inr s' \<longleftrightarrow>
     set ks \<inter> os_inputs s = {} \<and>
     s' = s\<lparr>os_txs := (os_txs s)(ot_ArkTxid tx \<mapsto> tx\<lparr>ot_changes := []\<rparr>),
            os_inputs := os_inputs s \<union> set ks\<rparr>"
  using Add_attempt_cases [of ks s tx] by auto

interpretation cached_tx: reservation os_inputs Add_attempt remove_tx
  by unfold_locales (auto simp: Add_attempt_refused Add_attempt_eq_Inr remove_tx_def Remove_attempt_def)

text \<open>No two cached offchain transactions hold the same input. Whatever sequence of \<open>Add\<close> and
  \<open>Remove\<close> runs on an empty store, each transaction added while
  it is not in the cache, the inputs of the cached transactions are pairwise disjoint, and the set
  that \<open>Add\<close> and \<open>IncludesAny\<close> consult is exactly their union: nothing stays reserved after its
  transaction has left, and nothing in use is free.\<close>

theorem cached_inputs_exclusive:
  "case run_reservations Add_attempt remove_tx ops (\<lparr>os_txs = Map.empty, os_inputs = {}\<rparr>, Map.empty) of
     (s, own) \<Rightarrow> exclusive own \<and> os_inputs s = owned own"
proof -
  obtain s own where
    run: "run_reservations Add_attempt remove_tx ops (\<lparr>os_txs = Map.empty, os_inputs = {}\<rparr>, Map.empty) = (s, own)"
    by fastforce
  have "exclusive own \<and> os_inputs s = owned own"
    by (rule cached_tx.run_exclusive [OF _ _ run]) (simp_all add: exclusive_def owned_def)
  then show ?thesis by (simp add: run)
qed

text \<open>A finalization lock is not tied to its holder. A finalization that outlives its lock
  (taken at time 0 for 5, another takes it at 6) still deletes the key when it ends at 7, and a
  third one acquires the lock while the second, whose lock runs until 11, is at work.\<close>

theorem stale_unlock_frees_new_holder:
  "lock_loop 5 [(0, None, False)] = Some (Inr (Some 5)) \<and>
   lock_loop 5 [(6, Some 5, False)] = Some (Inr (Some 11)) \<and>
   lock_loop 5 [(7, Some 11, False)] = None \<and>
   lock_loop 5 [(7, UnlockFinalization (Some 11), False)] = Some (Inr (Some 12))"
  by (simp add: SetNX_def lock_free_def UnlockFinalization_def)

text \<open>Without such an overrun the lock excludes: while it is held and has not expired no turn of
  the loop acquires it.\<close>

lemma lock_excludes:
  assumes "\<forall>(now, l, canceled) \<in> set turns. \<not> canceled \<and> (\<exists>expiry. l = Some expiry \<and> now < expiry)"
  shows "lock_loop ttl turns = None"
  using assms by (induction ttl turns rule: lock_loop.induct) (auto simp: SetNX_def lock_free_def)

lemma lock_acquired:
  assumes "0 < ttl"
    and "\<forall>(now, l, canceled) \<in> set turns. \<not> canceled \<and> \<not> lock_free now l" and "lock_free now l"
  shows "LockFinalization ttl (turns @ (now, l, False) # rest) = Some (Inr (Some (now + ttl)))"
proof -
  have "lock_loop ttl (turns @ (now, l, False) # rest) = Some (Inr (Some (now + ttl)))"
    using assms(2) by (induction turns) (auto simp: SetNX_def assms(3))
  then show ?thesis using assms(1) by (simp add: LockFinalization_def)
qed

end
