(* ===== verification/Live_Intents.thy ===== *)
theory Live_Intents
  imports Live_Reservations
begin

section \<open>The intent store\<close>

text \<open>
  \<open>internal/infrastructure/live-store/redis/intents.go\<close> and the types of
  \<open>internal/core/ports\<close> it keeps.

  The store has five keys: the set \<open>intent:ids\<close>, the set \<open>intent:vtxos\<close> of the inputs that are
  claimed, the hash \<open>intent:vtxosToRemove\<close> from an input that a batch took to the batch and the
  intent that hold it, the bodies \<open>intent:<id>\<close>, and the list \<open>intent:selected\<close>. An intent id and
  a round id are UUIDs (\<open>domain.NewIntent\<close>, \<open>domain.NewRound\<close>), so a body never has the key of
  one of the other four. \<open>SMEMBERS\<close> returns a set in an unspecified order, which is the argument
  \<open>order\<close> of the operations that list the ids; the clock is the argument \<open>now\<close>.

  Operations that run under \<open>WATCH\<close> are the function of one try, with the loop of
  \<^emph>\<open>redis\_retry\<close> around it; an operation that reads and writes without \<open>WATCH\<close> (\<open>Update\<close>) takes the
  store it reads and the store it writes to.
\<close>

subsection \<open>ports\<close>

record Input =
  inp_Outpoint :: Outpoint
  inp_Tapscripts :: "string list"

record BoardingInput =
  bin_Input :: Input
  bin_Amount :: u64

definition BoardingInput_String :: "BoardingInput \<Rightarrow> string" where
  "BoardingInput_String b = Outpoint_String (inp_Outpoint (bin_Input b))"

record TimedIntent =
  ti_Intent :: Intent
  ti_BoardingInputs :: "BoardingInput list"
  ti_Timestamp :: int
  ti_CosignersPublicKeys :: "string list"

definition ti_Id :: "TimedIntent \<Rightarrow> string" where
  "ti_Id t = int_Id (ti_Intent t)"

subsection \<open>State\<close>

record intentStore =
  is_ids :: "string set"
  is_vtxos :: "string set"
  is_vtxosToRemove :: "string \<rightharpoonup> string"
  is_intents :: "string \<rightharpoonup> TimedIntent"
  is_selected :: "TimedIntent list"

definition NewIntentStore :: intentStore where
  "NewIntentStore =
     \<lparr>is_ids = {}, is_vtxos = {}, is_vtxosToRemove = Map.empty, is_intents = Map.empty,
      is_selected = []\<rparr>"

definition inputKeys :: "Intent \<Rightarrow> BoardingInput list \<Rightarrow> string list" where
  "inputKeys intent boardingInputs =
     map (\<lambda>v. Outpoint_String (vtxo_Outpoint v)) (int_Inputs intent) @
     map BoardingInput_String boardingInputs"

definition timed_keys :: "TimedIntent \<Rightarrow> string list" where
  "timed_keys t = inputKeys (ti_Intent t) (ti_BoardingInputs t)"

definition has_receivers :: "TimedIntent \<Rightarrow> bool" where
  "has_receivers t \<longleftrightarrow> length (int_Receivers (ti_Intent t)) > 0"

subsection \<open>Owners of taken inputs\<close>

definition pendingOwner :: "string \<Rightarrow> string \<Rightarrow> string" where
  "pendingOwner roundId intentId = roundId @ '':'' @ intentId"

fun strings_Cut :: "char \<Rightarrow> string \<Rightarrow> (string \<times> string) option" where
  "strings_Cut d [] = None"
| "strings_Cut d (c # s) =
     (if c = d then Some ([], s)
      else (case strings_Cut d s of None \<Rightarrow> None | Some (p, q) \<Rightarrow> Some (c # p, q)))"

definition splitPendingOwner :: "string \<Rightarrow> string \<times> string" where
  "splitPendingOwner owner = (case strings_Cut (CHR '':'') owner of None \<Rightarrow> ([], owner) | Some p \<Rightarrow> p)"

subsection \<open>Push\<close>

text \<open>The check of one input: absent from the claimed ones, or taken out by this very intent.\<close>

definition push_input_check :: "intentStore \<Rightarrow> string \<Rightarrow> string \<Rightarrow> unit sres" where
  "push_input_check s intentId key =
     (if key \<notin> is_vtxos s then Inr ()
      else (case is_vtxosToRemove s key of
              None \<Rightarrow> Inl (StoreErrorf (''duplicated input, '' @ key) None)
            | Some owner \<Rightarrow>
                if snd (splitPendingOwner owner) \<noteq> intentId
                then Inl (StoreErrorf (''duplicated input, '' @ key) None)
                else Inr ()))"

definition Push_attempt ::
    "int \<Rightarrow> Intent \<Rightarrow> BoardingInput list \<Rightarrow> string list \<Rightarrow> intentStore \<Rightarrow> intentStore sres" where
  "Push_attempt now intent boardingInputs cosignerPubkeys s =
     guard_err (int_Id intent \<in> is_ids s) (StoreErrorf (''duplicated intent '' @ int_Id intent) None)
     (rbind (check_all (push_input_check s (int_Id intent)) (inputKeys intent boardingInputs))
       (\<lambda>_. let keys = inputKeys intent boardingInputs;
                timedIntent = \<lparr>ti_Intent = intent, ti_BoardingInputs = boardingInputs,
                               ti_Timestamp = now, ti_CosignersPublicKeys = cosignerPubkeys\<rparr>
            in Inr (s\<lparr>is_intents := (is_intents s)(int_Id intent \<mapsto> timedIntent),
                      is_ids := insert (int_Id intent) (is_ids s),
                      is_vtxos := is_vtxos s \<union> set keys,
                      is_vtxosToRemove := (\<lambda>k. if k \<in> set keys then None else is_vtxosToRemove s k)\<rparr>)))"

definition Push ::
    "int \<Rightarrow> Intent \<Rightarrow> BoardingInput list \<Rightarrow> string list \<Rightarrow>
     (intentStore \<times> redis_error option) list \<Rightarrow> intentStore sres" where
  "Push now intent boardingInputs cosignerPubkeys tries =
     redis_retry (\<lambda>_. False) (StoreErrorf ''failed to push intent after max number of retries'')
       (Push_attempt now intent boardingInputs cosignerPubkeys) tries None"

subsection \<open>Pop\<close>

text \<open>The bodies of the listed ids that exist and have receivers, then a stable sort by time.\<close>

definition pop_candidates :: "string list \<Rightarrow> intentStore \<Rightarrow> TimedIntent list" where
  "pop_candidates order s = filter has_receivers (List.map_filter (is_intents s) order)"

definition pop_selected :: "int \<Rightarrow> string list \<Rightarrow> intentStore \<Rightarrow> TimedIntent list" where
  "pop_selected num order s =
     (let intentsByTime = sort_key ti_Timestamp (pop_candidates order s);
          n = (if num < 0 \<or> num > int (length intentsByTime) then int (length intentsByTime) else num)
      in take (nat n) intentsByTime)"

text \<open>The pairs given to \<open>HSET\<close>, in order: a later one overwrites an earlier one.\<close>

definition pendingInputOwners :: "string \<Rightarrow> TimedIntent list \<Rightarrow> (string \<times> string) list" where
  "pendingInputOwners roundId selected =
     concat (map (\<lambda>t. map (\<lambda>k. (k, pendingOwner roundId (ti_Id t))) (timed_keys t)) selected)"

definition Pop_attempt ::
    "int \<Rightarrow> string \<Rightarrow> string list \<Rightarrow> intentStore \<Rightarrow> (TimedIntent list \<times> intentStore) sres" where
  "Pop_attempt num roundId order s =
     (let selected = pop_selected num order s;
          ids = set (map ti_Id selected)
      in Inr (selected,
           s\<lparr>is_selected := rev selected,
             is_intents := (\<lambda>i. if i \<in> ids then None else is_intents s i),
             is_ids := is_ids s - ids,
             is_vtxosToRemove := is_vtxosToRemove s ++ map_of (rev (pendingInputOwners roundId selected))\<rparr>))"

definition Pop ::
    "int \<Rightarrow> string \<Rightarrow> ((string list \<times> intentStore) \<times> redis_error option) list \<Rightarrow>
     (TimedIntent list \<times> intentStore) sres" where
  "Pop num roundId tries =
     redis_retry (\<lambda>e. e \<noteq> OfRedis TxFailedErr)
       (StoreErrorf ''failed to pop intents after max number of retries'')
       (\<lambda>(order, s). Pop_attempt num roundId order s) tries None"

subsection \<open>Views\<close>

definition intents_Len :: "string list \<Rightarrow> intentStore \<Rightarrow> int" where
  "intents_Len order s = int (length (pop_candidates order s))"

definition GetSelectedIntents :: "intentStore \<Rightarrow> TimedIntent list" where
  "GetSelectedIntents s = is_selected s"

definition ViewAll :: "string list \<Rightarrow> string list \<Rightarrow> intentStore \<Rightarrow> TimedIntent list" where
  "ViewAll ids order s =
     (if length ids > 0 then List.map_filter (is_intents s) ids
      else List.map_filter (is_intents s) order)"

definition intents_IncludesAny ::
    "Outpoint list \<Rightarrow> intentStore \<Rightarrow> redis_error option \<Rightarrow> Outpoint list sres" where
  "intents_IncludesAny outpoints s fault = includes_any (is_vtxos s) outpoints fault"

subsection \<open>Update\<close>

text \<open>The amounts are summed in \<open>uint64\<close>. The body is read from \<open>s\<close> and written to \<open>t\<close>.\<close>

definition Update :: "Intent \<Rightarrow> string list \<Rightarrow> intentStore \<Rightarrow> intentStore \<Rightarrow> intentStore sres" where
  "Update intent cosignerPubkeys s t =
     (case is_intents s (int_Id intent) of
        None \<Rightarrow> Inl (StoreErrorf (''intent '' @ int_Id intent @ '' not found'') None)
      | Some gotIntent \<Rightarrow>
          let sumOfInputs = sum_u64 (map bin_Amount (ti_BoardingInputs gotIntent))
                              (sum_u64 (map vtxo_Amount (int_Inputs intent)) 0);
              sumOfOutputs = sum_u64 (map rcv_Amount (int_Receivers intent)) 0
          in guard_err (sumOfInputs \<noteq> sumOfOutputs)
               (StoreErrorf ''sum of inputs does not match sum of outputs'' None)
               (let gotIntent' = gotIntent\<lparr>ti_Intent := intent\<rparr>;
                    gotIntent'' = (if length cosignerPubkeys > 0
                                   then gotIntent'\<lparr>ti_CosignersPublicKeys := cosignerPubkeys\<rparr>
                                   else gotIntent')
                in Inr (t\<lparr>is_intents := (is_intents t)(int_Id intent \<mapsto> gotIntent'')\<rparr>)))"

subsection \<open>Delete\<close>

definition Delete_attempt :: "string \<Rightarrow> intentStore \<Rightarrow> intentStore sres" where
  "Delete_attempt i s =
     (case is_intents s i of
        None \<Rightarrow> Inr s
      | Some intent \<Rightarrow>
          Inr (s\<lparr>is_vtxos := is_vtxos s - set (timed_keys intent),
                 is_intents := (is_intents s)(i := None),
                 is_ids := is_ids s - {i}\<rparr>))"

text \<open>The ids are deleted one transaction at a time, and the first that fails ends the loop with
  what was deleted before it. With no tries at all nothing is deleted and no error is returned.\<close>

definition Delete_one ::
    "string \<Rightarrow> (intentStore \<times> redis_error option) list \<Rightarrow> intentStore option sres" where
  "Delete_one i tries =
     (if tries = [] then Inr None
      else map_err (\<lambda>e. StoreErrorf (''failed to delete intent '' @ i) (Some e))
        (rbind
          (redis_retry (\<lambda>e. e \<noteq> OfRedis TxFailedErr) the (Delete_attempt i) tries None)
          (\<lambda>s. Inr (Some s))))"

fun intents_Delete ::
    "(string \<times> (intentStore \<times> redis_error option) list) list \<Rightarrow> unit sres" where
  "intents_Delete [] = Inr ()"
| "intents_Delete ((i, tries) # ids) = rbind (Delete_one i tries) (\<lambda>_. intents_Delete ids)"

text \<open>\<open>DeleteAll\<close> lists the ids, deletes their bodies one by one, outside of any transaction (a failure is only
  logged), and then the four keys in one transaction. \<open>DeleteAll\<close> here is a call that nothing else runs through;
  the three accesses by themselves are steps in \<open>Spend_Safety\<close>.\<close>

definition DeleteAll_body :: "string \<Rightarrow> intentStore \<Rightarrow> intentStore" where
  "DeleteAll_body i s = s\<lparr>is_intents := (is_intents s)(i := None)\<rparr>"

definition DeleteAll_keys :: "intentStore \<Rightarrow> intentStore" where
  "DeleteAll_keys s = s\<lparr>is_ids := {}, is_vtxos := {}, is_vtxosToRemove := Map.empty, is_selected := []\<rparr>"

definition DeleteAll_transaction :: "(intentStore \<times> redis_error option) list \<Rightarrow> intentStore sres" where
  "DeleteAll_transaction tries =
     redis_retry (\<lambda>_. False) (StoreErrorf ''failed to delete all intents after max number of retries'')
       (\<lambda>s. Inr (DeleteAll_keys s)) tries None"

definition DeleteAll :: "string list \<Rightarrow> intentStore \<Rightarrow> intentStore" where
  "DeleteAll order s = DeleteAll_keys (fold DeleteAll_body order s)"

lemma DeleteAll_eq:
  "DeleteAll order s =
     s\<lparr>is_intents := (\<lambda>i. if i \<in> set order then None else is_intents s i),
       is_ids := {}, is_vtxos := {}, is_vtxosToRemove := Map.empty, is_selected := []\<rparr>"
proof -
  have "fold DeleteAll_body order s = s\<lparr>is_intents := (\<lambda>i. if i \<in> set order then None else is_intents s i)\<rparr>"
    by (induction order arbitrary: s) (auto simp: DeleteAll_body_def fun_eq_iff)
  then show ?thesis by (simp add: DeleteAll_def DeleteAll_keys_def)
qed

definition taken_for :: "string \<Rightarrow> intentStore \<Rightarrow> string \<Rightarrow> bool" where
  "taken_for roundId s k \<longleftrightarrow>
     (case is_vtxosToRemove s k of
        None \<Rightarrow> False
      | Some owner \<Rightarrow> fst (splitPendingOwner owner) = roundId)"

definition DeleteVtxos_attempt :: "string \<Rightarrow> intentStore \<Rightarrow> intentStore sres" where
  "DeleteVtxos_attempt roundId s =
     Inr (s\<lparr>is_vtxos := Set.filter (\<lambda>k. \<not> taken_for roundId s k) (is_vtxos s),
            is_vtxosToRemove := (\<lambda>k. if taken_for roundId s k then None else is_vtxosToRemove s k)\<rparr>)"

definition DeleteVtxos ::
    "string \<Rightarrow> (intentStore \<times> redis_error option) list \<Rightarrow> intentStore sres" where
  "DeleteVtxos roundId tries =
     redis_retry (\<lambda>_. False) (StoreErrorf ''failed to delete vtxos after max number of retries'')
       (DeleteVtxos_attempt roundId) tries None"

subsection \<open>Invariant\<close>

lemma splitPendingOwner_pendingOwner [simp]:
  "CHR '':'' \<notin> set r \<Longrightarrow> splitPendingOwner (pendingOwner r i) = (r, i)"
proof -
  have "d \<notin> set r \<Longrightarrow> strings_Cut d (r @ d # i) = Some (r, i)" for d
    by (induction r) auto
  then show "CHR '':'' \<notin> set r \<Longrightarrow> ?thesis" by (simp add: splitPendingOwner_def pendingOwner_def)
qed

definition queued_keys :: "intentStore \<Rightarrow> string set" where
  "queued_keys s = (\<Union>t \<in> ran (is_intents s). set (timed_keys t))"

text \<open>The bodies are those of the listed ids and carry their id; no input is in two queued intents;
  the claimed inputs are those of the queued intents and those taken by a batch, and no input is
  both.\<close>

definition store_inv :: "intentStore \<Rightarrow> bool" where
  "store_inv s \<longleftrightarrow>
     is_ids s = dom (is_intents s) \<and>
     (\<forall>i t. is_intents s i = Some t \<longrightarrow> ti_Id t = i) \<and>
     exclusive (map_option timed_keys \<circ> is_intents s) \<and>
     is_vtxos s = queued_keys s \<union> dom (is_vtxosToRemove s) \<and>
     queued_keys s \<inter> dom (is_vtxosToRemove s) = {}"

lemma queued_keys_owned: "queued_keys s = owned (map_option timed_keys \<circ> is_intents s)"
  by (auto simp: queued_keys_def owned_def ran_def)

lemma store_invD:
  assumes "store_inv s"
  shows "is_ids s = dom (is_intents s)"
    and "is_intents s i = Some t \<Longrightarrow> ti_Id t = i"
    and "exclusive (map_option timed_keys \<circ> is_intents s)"
    and "is_vtxos s = queued_keys s \<union> dom (is_vtxosToRemove s)"
    and "queued_keys s \<inter> dom (is_vtxosToRemove s) = {}"
  using assms by (auto simp: store_inv_def)

lemma NewIntentStore_inv: "store_inv NewIntentStore"
  by (simp add: store_inv_def NewIntentStore_def queued_keys_def exclusive_def)

subsection \<open>Push\<close>

definition pushable :: "string \<Rightarrow> string list \<Rightarrow> intentStore \<Rightarrow> bool" where
  "pushable i keys s \<longleftrightarrow>
     i \<notin> is_ids s \<and>
     (\<forall>k \<in> set keys. k \<in> is_vtxos s \<longrightarrow>
        (\<exists>owner. is_vtxosToRemove s k = Some owner \<and> snd (splitPendingOwner owner) = i))"

definition pushed :: "TimedIntent \<Rightarrow> intentStore \<Rightarrow> intentStore" where
  "pushed t s =
     s\<lparr>is_intents := (is_intents s)(ti_Id t \<mapsto> t), is_ids := insert (ti_Id t) (is_ids s),
       is_vtxos := is_vtxos s \<union> set (timed_keys t),
       is_vtxosToRemove := (\<lambda>k. if k \<in> set (timed_keys t) then None else is_vtxosToRemove s k)\<rparr>"

lemma push_input_check_ok:
  "push_input_check s i k = Inr u \<longleftrightarrow>
     (k \<in> is_vtxos s \<longrightarrow> (\<exists>owner. is_vtxosToRemove s k = Some owner \<and> snd (splitPendingOwner owner) = i))"
  by (auto simp: push_input_check_def split: option.split)

lemma Push_attempt_eq_Inr:
  "Push_attempt now intent bs cs s = Inr s' \<longleftrightarrow>
     pushable (int_Id intent) (inputKeys intent bs) s \<and>
     s' = pushed \<lparr>ti_Intent = intent, ti_BoardingInputs = bs, ti_Timestamp = now,
                  ti_CosignersPublicKeys = cs\<rparr> s"
  by (auto simp: Push_attempt_def guard_err_eq_Inr rbind_eq_Inr check_all_eq_Inr push_input_check_ok
      pushable_def pushed_def ti_Id_def timed_keys_def Let_def)

lemma queued_keys_pushed:
  "is_intents s (ti_Id t) = None \<Longrightarrow> queued_keys (pushed t s) = queued_keys s \<union> set (timed_keys t)"
  by (auto simp: queued_keys_def pushed_def)

lemma pushable_not_queued:
  assumes "store_inv s" and "pushable i keys s"
  shows "set keys \<inter> queued_keys s = {}" and "is_intents s i = None"
proof -
  show "is_intents s i = None"
    using assms store_invD(1) [OF assms(1)] by (auto simp: pushable_def)
  show "set keys \<inter> queued_keys s = {}"
  proof (rule equals0I)
    fix k assume k: "k \<in> set keys \<inter> queued_keys s"
    then have "k \<in> is_vtxos s" using store_invD(4) [OF assms(1)] by simp
    then have "k \<in> dom (is_vtxosToRemove s)" using assms(2) k by (auto simp: pushable_def)
    then show False using k store_invD(5) [OF assms(1)] by blast
  qed
qed

lemma pushed_inv:
  assumes inv: "store_inv s" and ok: "pushable (ti_Id t) (timed_keys t) s"
  shows "store_inv (pushed t s)"
proof -
  note free = pushable_not_queued [OF inv ok]
  have "map_option timed_keys \<circ> is_intents (pushed t s) =
      (map_option timed_keys \<circ> is_intents s)(ti_Id t \<mapsto> timed_keys t)"
    by (auto simp: pushed_def)
  then have "exclusive (map_option timed_keys \<circ> is_intents (pushed t s))"
    using store_invD(3) [OF inv] free(1) by (simp add: exclusive_update queued_keys_owned)
  moreover have "dom (is_vtxosToRemove (pushed t s)) = dom (is_vtxosToRemove s) - set (timed_keys t)"
    by (auto simp: pushed_def split: if_splits)
  ultimately show ?thesis
    using store_invD [OF inv] free unfolding store_inv_def queued_keys_pushed [OF free(2)]
    by (auto simp: pushed_def)
qed

subsection \<open>Pop\<close>

definition eligible :: "intentStore \<Rightarrow> TimedIntent set" where
  "eligible s = {t. is_intents s (ti_Id t) = Some t \<and> has_receivers t}"

definition popped :: "string \<Rightarrow> TimedIntent list \<Rightarrow> intentStore \<Rightarrow> intentStore" where
  "popped roundId selected s =
     s\<lparr>is_selected := rev selected,
       is_intents := (\<lambda>i. if i \<in> ti_Id ` set selected then None else is_intents s i),
       is_ids := is_ids s - ti_Id ` set selected,
       is_vtxosToRemove := is_vtxosToRemove s ++ map_of (rev (pendingInputOwners roundId selected))\<rparr>"

lemma Pop_attempt_eq:
  "Pop_attempt num r order s = Inr (pop_selected num order s, popped r (pop_selected num order s) s)"
  by (simp add: Pop_attempt_def popped_def Let_def)

lemma map_filter_ids:
  assumes "\<And>i t. f i = Some t \<Longrightarrow> g t = i" and "distinct order"
  shows "distinct (map g (List.map_filter f order))"
    and "set (List.map_filter f order) = {t. g t \<in> set order \<and> f (g t) = Some t}"
proof -
  have set_eq: "set (List.map_filter f xs) = {t. \<exists>i \<in> set xs. f i = Some t}" for xs
    by (induction xs) (auto simp: List.map_filter_simps split: option.split)
  show "set (List.map_filter f order) = {t. g t \<in> set order \<and> f (g t) = Some t}"
    unfolding set_eq using assms(1) by blast
  show "distinct (map g (List.map_filter f order))"
    using assms(2)
  proof (induction order)
    case (Cons i order)
    have "i \<notin> set (map g (List.map_filter f order))"
      using Cons.prems assms(1) by (auto simp: set_eq)
    then show ?case using Cons assms(1) by (auto simp: List.map_filter_simps split: option.split)
  qed (simp add: List.map_filter_simps)
qed

lemma candidates:
  assumes "store_inv s" and "set order = is_ids s" and "distinct order"
  shows "set (pop_candidates order s) = eligible s" and "distinct (map ti_Id (pop_candidates order s))"
proof -
  note ids = map_filter_ids [of "is_intents s" ti_Id, OF store_invD(2) [OF assms(1)] assms(3)]
  show "set (pop_candidates order s) = eligible s"
    using ids(2) assms(2) store_invD(1) [OF assms(1)]
    by (auto simp: pop_candidates_def eligible_def)
  show "distinct (map ti_Id (pop_candidates order s))"
    using ids(1) unfolding pop_candidates_def by (rule distinct_map_filter)
qed

text \<open>What a batch gets: eligible intents, each once, oldest first, none left behind that is older,
  and as many as were asked for as long as there are enough (all of them for a negative number).\<close>

definition fair_selection :: "int \<Rightarrow> TimedIntent set \<Rightarrow> TimedIntent list \<Rightarrow> bool" where
  "fair_selection num E selected \<longleftrightarrow>
     set selected \<subseteq> E \<and> distinct selected \<and> sorted (map ti_Timestamp selected) \<and>
     (\<forall>t \<in> set selected. \<forall>u \<in> E - set selected. ti_Timestamp t \<le> ti_Timestamp u) \<and>
     length selected = (if num < 0 then card E else min (nat num) (card E))"

lemma sorted_take_drop:
  fixes xs :: "int list"
  assumes "sorted xs" "x \<in> set (take n xs)" "y \<in> set (drop n xs)"
  shows "x \<le> y"
  using assms by (metis append_take_drop_id sorted_append)

lemma pop_selected_fair:
  assumes "store_inv s" and "set order = is_ids s" and "distinct order"
  shows "fair_selection num (eligible s) (pop_selected num order s)"
proof -
  define xs where "xs = sort_key ti_Timestamp (pop_candidates order s)"
  define n where "n = nat (if num < 0 \<or> num > int (length xs) then int (length xs) else num)"
  have sel: "pop_selected num order s = take n xs"
    by (simp add: pop_selected_def xs_def n_def Let_def)
  have dist: "distinct xs" and E: "set xs = eligible s"
    using candidates [OF assms] by (simp_all add: xs_def distinct_map)
  have card: "card (eligible s) = length xs" using dist E by (metis distinct_card)
  have srt: "sorted (map ti_Timestamp xs)" by (simp add: xs_def)
  have "ti_Timestamp t \<le> ti_Timestamp u"
    if "t \<in> set (take n xs)" and "u \<in> eligible s - set (take n xs)" for t u
  proof (rule sorted_take_drop [OF srt, of _ n])
    show "ti_Timestamp t \<in> set (take n (map ti_Timestamp xs))"
      using that(1) by (simp add: take_map)
    have "u \<in> set (drop n xs)"
      using that(2) E by (metis Diff_iff Un_iff append_take_drop_id set_append)
    then show "ti_Timestamp u \<in> set (drop n (map ti_Timestamp xs))"
      by (simp add: drop_map)
  qed
  moreover have "sorted (map ti_Timestamp (take n xs))"
    using srt by (metis sorted_wrt_take take_map)
  moreover have "length (take n xs) = (if num < 0 then card (eligible s) else min (nat num) (card (eligible s)))"
    by (auto simp: n_def card)
  ultimately show ?thesis
    using set_take_subset [of n xs] E dist unfolding fair_selection_def sel by auto
qed

lemma map_of_functional:
  assumes "\<And>k v v'. (k, v) \<in> set ps \<Longrightarrow> (k, v') \<in> set ps \<Longrightarrow> v = v'"
  shows "map_of (rev ps) k = Some v \<longleftrightarrow> (k, v) \<in> set ps"
proof
  assume "map_of (rev ps) k = Some v"
  then show "(k, v) \<in> set ps" using map_of_SomeD by fastforce
next
  assume kv: "(k, v) \<in> set ps"
  then obtain w where w: "map_of (rev ps) k = Some w"
    using weak_map_of_SomeI [of k v "rev ps"] by auto
  then have "(k, w) \<in> set ps" using map_of_SomeD by fastforce
  with kv w show "map_of (rev ps) k = Some v" using assms by metis
qed

lemma set_pendingInputOwners:
  "set (pendingInputOwners r sel) =
     {(k, pendingOwner r (ti_Id t)) | k t. t \<in> set sel \<and> k \<in> set (timed_keys t)}"
  by (auto simp: pendingInputOwners_def)

text \<open>The intents a batch takes are queued ones, so each of their inputs gets the one owner.\<close>

definition queued_in :: "intentStore \<Rightarrow> TimedIntent set \<Rightarrow> bool" where
  "queued_in s ts \<longleftrightarrow> (\<forall>t \<in> ts. is_intents s (ti_Id t) = Some t)"

lemma queued_inD: "queued_in s ts \<Longrightarrow> t \<in> ts \<Longrightarrow> is_intents s (ti_Id t) = Some t"
  by (simp add: queued_in_def)

lemma queued_input_unique:
  assumes "store_inv s" and "is_intents s i = Some t" and "is_intents s j = Some u"
    and "k \<in> set (timed_keys t)" and "k \<in> set (timed_keys u)"
  shows "i = j \<and> t = u"
  using exclusiveD [OF store_invD(3) [OF assms(1)], of i "timed_keys t" j "timed_keys u" k] assms
  by auto

lemma taken_owner:
  assumes inv: "store_inv s" and sel: "queued_in s (set sel)"
  shows "map_of (rev (pendingInputOwners r sel)) k = Some w \<longleftrightarrow>
      (\<exists>t \<in> set sel. k \<in> set (timed_keys t) \<and> w = pendingOwner r (ti_Id t))"
proof -
  have "v = v'" if kv: "(l, v) \<in> set (pendingInputOwners r sel)"
    and kv': "(l, v') \<in> set (pendingInputOwners r sel)" for l v v'
  proof -
    obtain t where t: "t \<in> set sel" "l \<in> set (timed_keys t)" "v = pendingOwner r (ti_Id t)"
      using kv by (auto simp: set_pendingInputOwners)
    obtain u where u: "u \<in> set sel" "l \<in> set (timed_keys u)" "v' = pendingOwner r (ti_Id u)"
      using kv' by (auto simp: set_pendingInputOwners)
    show "v = v'"
      using queued_input_unique [OF inv queued_inD [OF sel t(1)] queued_inD [OF sel u(1)] t(2) u(2)] t u
      by simp
  qed
  then show ?thesis by (subst map_of_functional) (auto simp: set_pendingInputOwners)
qed

lemma dom_taken:
  assumes "store_inv s" and "queued_in s (set sel)"
  shows "dom (map_of (rev (pendingInputOwners r sel))) = (\<Union>t \<in> set sel. set (timed_keys t))"
  using taken_owner [OF assms, of r] by (auto simp: dom_def)

lemma queued_keys_popped:
  assumes inv: "store_inv s" and sel: "queued_in s (set sel)"
  shows "queued_keys (popped r sel s) = queued_keys s - (\<Union>t \<in> set sel. set (timed_keys t))"
proof (intro equalityI subsetI)
  fix k assume "k \<in> queued_keys (popped r sel s)"
  then obtain i t where t: "is_intents s i = Some t" "i \<notin> ti_Id ` set sel" "k \<in> set (timed_keys t)"
    by (auto simp: queued_keys_def popped_def ran_def split: if_splits)
  then have "k \<in> queued_keys s" by (auto simp: queued_keys_def ran_def)
  moreover have "k \<notin> set (timed_keys u)" if "u \<in> set sel" for u
    using queued_input_unique [OF inv t(1) queued_inD [OF sel that] t(3)] t(2) that by blast
  ultimately show "k \<in> queued_keys s - (\<Union>t \<in> set sel. set (timed_keys t))" by blast
next
  fix k assume k: "k \<in> queued_keys s - (\<Union>t \<in> set sel. set (timed_keys t))"
  then obtain i t where t: "is_intents s i = Some t" "k \<in> set (timed_keys t)"
    by (auto simp: queued_keys_def ran_def)
  have "i \<notin> ti_Id ` set sel"
  proof
    assume "i \<in> ti_Id ` set sel"
    then have "t \<in> set sel" using t(1) queued_inD [OF sel] by auto
    then show False using k t(2) by blast
  qed
  with t show "k \<in> queued_keys (popped r sel s)"
    by (auto simp: queued_keys_def popped_def ran_def)
qed

lemma popped_inv:
  assumes inv: "store_inv s" and sel: "queued_in s (set sel)"
  shows "store_inv (popped r sel s)"
proof -
  define K where "K = (\<Union>t \<in> set sel. set (timed_keys t))"
  have K: "K \<subseteq> queued_keys s"
    using queued_inD [OF sel] by (fastforce simp: K_def queued_keys_def ran_def)
  have dom: "dom (is_vtxosToRemove (popped r sel s)) = dom (is_vtxosToRemove s) \<union> K"
    using dom_taken [OF assms, of r] by (auto simp: popped_def K_def)
  have queue: "queued_keys (popped r sel s) = queued_keys s - K"
    unfolding K_def by (rule queued_keys_popped [OF assms])
  have "exclusive (map_option timed_keys \<circ> is_intents (popped r sel s))"
    using store_invD(3) [OF inv] by (auto simp: exclusive_def popped_def)
  moreover have "is_ids (popped r sel s) = dom (is_intents (popped r sel s))"
    using store_invD(1) [OF inv] by (auto simp: popped_def split: if_splits)
  moreover have "is_intents (popped r sel s) i = Some t \<Longrightarrow> ti_Id t = i" for i t
    using store_invD(2) [OF inv] by (auto simp: popped_def split: if_splits)
  moreover have "is_vtxos (popped r sel s) = (queued_keys s - K) \<union> (dom (is_vtxosToRemove s) \<union> K)"
    using store_invD(4) [OF inv] K by (auto simp: popped_def)
  moreover have "(queued_keys s - K) \<inter> (dom (is_vtxosToRemove s) \<union> K) = {}"
    using store_invD(5) [OF inv] by blast
  ultimately show ?thesis unfolding store_inv_def queue dom by blast
qed

lemma fair_selection_queued: "fair_selection num (eligible s) sel \<Longrightarrow> queued_in s (set sel)"
  by (auto simp: fair_selection_def eligible_def queued_in_def)

subsection \<open>Delete and release\<close>

definition deleted :: "string \<Rightarrow> intentStore \<Rightarrow> intentStore" where
  "deleted i s = (case Delete_attempt i s of Inl _ \<Rightarrow> s | Inr s' \<Rightarrow> s')"

definition released :: "string \<Rightarrow> intentStore \<Rightarrow> intentStore" where
  "released r s = (case DeleteVtxos_attempt r s of Inl _ \<Rightarrow> s | Inr s' \<Rightarrow> s')"

lemma Delete_attempt_eq: "Delete_attempt i s = Inr (deleted i s)"
  by (simp add: deleted_def Delete_attempt_def split: option.split)

lemma DeleteVtxos_attempt_eq: "DeleteVtxos_attempt r s = Inr (released r s)"
  by (simp add: released_def DeleteVtxos_attempt_def)

lemma queued_keys_deleted:
  assumes "store_inv s" and "is_intents s i = Some t"
  shows "queued_keys (deleted i s) = queued_keys s - set (timed_keys t)"
proof -
  have "map_option timed_keys \<circ> is_intents (deleted i s) = (map_option timed_keys \<circ> is_intents s)(i := None)"
    using assms(2) by (auto simp: deleted_def Delete_attempt_def)
  then show ?thesis
    using owned_drop [OF store_invD(3) [OF assms(1)], of i "timed_keys t"] assms(2)
    by (simp add: queued_keys_owned)
qed

lemma deleted_inv:
  assumes inv: "store_inv s"
  shows "store_inv (deleted i s)"
proof (cases "is_intents s i")
  case None
  then show ?thesis using inv by (simp add: deleted_def Delete_attempt_def)
next
  case (Some t)
  have "set (timed_keys t) \<subseteq> queued_keys s"
    using Some by (auto simp: queued_keys_def ran_def)
  then have "is_vtxos s - set (timed_keys t) =
      (queued_keys s - set (timed_keys t)) \<union> dom (is_vtxosToRemove s)"
    using store_invD(4,5) [OF inv] by blast
  moreover have "exclusive (map_option timed_keys \<circ> (is_intents s)(i := None))"
    using exclusive_drop [OF store_invD(3) [OF inv], of i] by (simp add: fun_upd_comp)
  ultimately show ?thesis
    using store_invD [OF inv] Some
    unfolding store_inv_def queued_keys_deleted [OF inv Some]
    by (auto simp: deleted_def Delete_attempt_def split: if_splits)
qed

lemma released_simps [simp]:
  "is_intents (released r s) = is_intents s"
  "is_ids (released r s) = is_ids s"
  "is_vtxos (released r s) = {k \<in> is_vtxos s. \<not> taken_for r s k}"
  "is_vtxosToRemove (released r s) = (\<lambda>k. if taken_for r s k then None else is_vtxosToRemove s k)"
  "queued_keys (released r s) = queued_keys s"
  by (simp_all add: released_def DeleteVtxos_attempt_def queued_keys_def)

lemma taken_for_dom: "taken_for r s k \<Longrightarrow> k \<in> dom (is_vtxosToRemove s)"
  by (auto simp: taken_for_def split: option.split_asm)

lemma released_inv:
  assumes inv: "store_inv s"
  shows "store_inv (released r s)"
proof -
  have "dom (is_vtxosToRemove (released r s)) = dom (is_vtxosToRemove s) - {k. taken_for r s k}"
    by (auto split: if_splits)
  moreover have "k \<notin> queued_keys s" if "taken_for r s k" for k
    using taken_for_dom [OF that] store_invD(5) [OF inv] by blast
  ultimately show ?thesis
    using store_invD [OF inv] unfolding store_inv_def by auto
qed

lemma DeleteAll_inv: "store_inv s \<Longrightarrow> set order = is_ids s \<Longrightarrow> store_inv (DeleteAll order s)"
proof -
  assume "store_inv s" and "set order = is_ids s"
  then have "is_intents (DeleteAll order s) = Map.empty"
    using store_invD(1) [of s] by (auto simp: DeleteAll_eq)
  then show ?thesis
    by (simp add: store_inv_def queued_keys_def exclusive_def) (simp add: DeleteAll_eq)
qed

subsection \<open>The board: what the store promises\<close>

text \<open>
  The contract of the store, without Redis keys and without the redundant index of claimed inputs:
  a board of queued intents and of the inputs that batches have taken. An intent may register when
  its id is not queued and none of its inputs is claimed, unless a batch took that input out of an
  intent with the same id; a batch takes a fair selection; a release forgets what one batch took.
\<close>

record board =
  bd_queue :: "string \<rightharpoonup> TimedIntent"
  bd_taken :: "string \<rightharpoonup> string \<times> string"

definition bd_claimed :: "board \<Rightarrow> string set" where
  "bd_claimed b = (\<Union>t \<in> ran (bd_queue b). set (timed_keys t)) \<union> dom (bd_taken b)"

definition may_register :: "board \<Rightarrow> TimedIntent \<Rightarrow> bool" where
  "may_register b t \<longleftrightarrow>
     ti_Id t \<notin> dom (bd_queue b) \<and>
     (\<forall>k \<in> set (timed_keys t). k \<in> bd_claimed b \<longrightarrow> (\<exists>r. bd_taken b k = Some (r, ti_Id t)))"

datatype store_event =
    Pushed TimedIntent
  | Refused TimedIntent
  | Popped int string "TimedIntent list"
  | Deleted string
  | Released string
  | Cleared

inductive board_step :: "board \<Rightarrow> store_event \<Rightarrow> board \<Rightarrow> bool" where
  "may_register b t \<Longrightarrow>
     board_step b (Pushed t)
       (b\<lparr>bd_queue := (bd_queue b)(ti_Id t \<mapsto> t), bd_taken := bd_taken b |` (- set (timed_keys t))\<rparr>)"
| "\<not> may_register b t \<Longrightarrow> board_step b (Refused t) b"
| "fair_selection num {t. bd_queue b (ti_Id t) = Some t \<and> has_receivers t} sel \<Longrightarrow>
     board_step b (Popped num r sel)
       (b\<lparr>bd_queue := bd_queue b |` (- ti_Id ` set sel),
          bd_taken := (\<lambda>k. case find (\<lambda>t. k \<in> set (timed_keys t)) sel of
                             Some t \<Rightarrow> Some (r, ti_Id t) | None \<Rightarrow> bd_taken b k)\<rparr>)"
| "board_step b (Deleted i) (b\<lparr>bd_queue := (bd_queue b)(i := None)\<rparr>)"
| "board_step b (Released r)
     (b\<lparr>bd_taken := bd_taken b |` {k. map_option fst (bd_taken b k) \<noteq> Some r}\<rparr>)"
| "board_step b Cleared \<lparr>bd_queue = Map.empty, bd_taken = Map.empty\<rparr>"

text \<open>The steps of the store: each is one transaction of an operation.\<close>

inductive store_step :: "intentStore \<Rightarrow> store_event \<Rightarrow> intentStore \<Rightarrow> bool" where
  push: "Push_attempt now intent bs cs s = Inr s' \<Longrightarrow>
     store_step s (Pushed \<lparr>ti_Intent = intent, ti_BoardingInputs = bs, ti_Timestamp = now,
                           ti_CosignersPublicKeys = cs\<rparr>) s'"
| refuse: "Push_attempt now intent bs cs s = Inl e \<Longrightarrow>
     store_step s (Refused \<lparr>ti_Intent = intent, ti_BoardingInputs = bs, ti_Timestamp = now,
                            ti_CosignersPublicKeys = cs\<rparr>) s"
| pop: "set order = is_ids s \<Longrightarrow> distinct order \<Longrightarrow> CHR '':'' \<notin> set r \<Longrightarrow>
     Pop_attempt num r order s = Inr (sel, s') \<Longrightarrow> store_step s (Popped num r sel) s'"
| delete: "Delete_attempt i s = Inr s' \<Longrightarrow> store_step s (Deleted i) s'"
| release: "DeleteVtxos_attempt r s = Inr s' \<Longrightarrow> store_step s (Released r) s'"
| clear: "set order = is_ids s \<Longrightarrow> store_step s Cleared (DeleteAll order s)"

inductive steps :: "('s \<Rightarrow> 'e \<Rightarrow> 's \<Rightarrow> bool) \<Rightarrow> 's \<Rightarrow> 'e list \<Rightarrow> 's \<Rightarrow> bool" for R where
  steps_nil: "steps R s [] s"
| steps_snoc: "steps R s es t \<Longrightarrow> R t e u \<Longrightarrow> steps R s (es @ [e]) u"

definition abs_board :: "intentStore \<Rightarrow> board" where
  "abs_board s =
     \<lparr>bd_queue = is_intents s, bd_taken = map_option splitPendingOwner \<circ> is_vtxosToRemove s\<rparr>"

lemma bd_claimed_abs: "store_inv s \<Longrightarrow> bd_claimed (abs_board s) = is_vtxos s"
  by (simp add: store_inv_def bd_claimed_def abs_board_def queued_keys_def dom_def)

lemma may_register_abs:
  assumes "store_inv s"
  shows "may_register (abs_board s) t \<longleftrightarrow> pushable (ti_Id t) (timed_keys t) s"
  unfolding may_register_def bd_claimed_abs [OF assms] pushable_def
  using store_invD(1) [OF assms] by (auto simp: abs_board_def) (metis surjective_pairing snd_conv)+

lemma abs_pushed:
  "abs_board (pushed t s) =
     (abs_board s)\<lparr>bd_queue := (bd_queue (abs_board s))(ti_Id t \<mapsto> t),
                   bd_taken := bd_taken (abs_board s) |` (- set (timed_keys t))\<rparr>"
  by (auto simp: abs_board_def pushed_def restrict_map_def)

lemma abs_popped:
  assumes inv: "store_inv s" and sel: "queued_in s (set sel)" and r: "CHR '':'' \<notin> set r"
  shows "abs_board (popped r sel s) =
     (abs_board s)\<lparr>bd_queue := bd_queue (abs_board s) |` (- ti_Id ` set sel),
       bd_taken := (\<lambda>k. case find (\<lambda>t. k \<in> set (timed_keys t)) sel of
                          Some t \<Rightarrow> Some (r, ti_Id t) | None \<Rightarrow> bd_taken (abs_board s) k)\<rparr>"
proof -
  have "map_option splitPendingOwner (is_vtxosToRemove (popped r sel s) k) =
      (case find (\<lambda>t. k \<in> set (timed_keys t)) sel of
         Some t \<Rightarrow> Some (r, ti_Id t)
       | None \<Rightarrow> map_option splitPendingOwner (is_vtxosToRemove s k))" for k
    using find_member [of "\<lambda>t. k \<in> set (timed_keys t)" sel]
  proof
    assume none: "find (\<lambda>t. k \<in> set (timed_keys t)) sel = None \<and> (\<forall>t \<in> set sel. k \<notin> set (timed_keys t))"
    then have "map_of (rev (pendingInputOwners r sel)) k = None"
      using dom_taken [OF inv sel, of r] by blast
    then show ?thesis using none by (simp add: popped_def map_add_def)
  next
    assume "\<exists>t \<in> set sel. k \<in> set (timed_keys t) \<and> find (\<lambda>t. k \<in> set (timed_keys t)) sel = Some t"
    then obtain t where t: "t \<in> set sel" "k \<in> set (timed_keys t)"
      "find (\<lambda>t. k \<in> set (timed_keys t)) sel = Some t" by blast
    then have "map_of (rev (pendingInputOwners r sel)) k = Some (pendingOwner r (ti_Id t))"
      using taken_owner [OF inv sel, of r k "pendingOwner r (ti_Id t)"] by blast
    then show ?thesis using t(3) r by (simp add: popped_def map_add_def)
  qed
  then have "map_option splitPendingOwner \<circ> is_vtxosToRemove (popped r sel s) =
      (\<lambda>k. case find (\<lambda>t. k \<in> set (timed_keys t)) sel of
         Some t \<Rightarrow> Some (r, ti_Id t) | None \<Rightarrow> bd_taken (abs_board s) k)"
    by (simp add: fun_eq_iff abs_board_def cong: option.case_cong)
  moreover have "is_intents (popped r sel s) = is_intents s |` (- ti_Id ` set sel)"
    by (auto simp: popped_def restrict_map_def)
  ultimately show ?thesis by (simp add: abs_board_def)
qed

lemma abs_deleted: "abs_board (deleted i s) = (abs_board s)\<lparr>bd_queue := (bd_queue (abs_board s))(i := None)\<rparr>"
  by (auto simp: abs_board_def deleted_def Delete_attempt_def split: option.split)

lemma abs_released:
  "abs_board (released r s) =
     (abs_board s)\<lparr>bd_taken := bd_taken (abs_board s) |` {k. map_option fst (bd_taken (abs_board s) k) \<noteq> Some r}\<rparr>"
proof -
  have "map_option splitPendingOwner (is_vtxosToRemove (released r s) k) =
      ((map_option splitPendingOwner \<circ> is_vtxosToRemove s) |`
         {k. map_option fst ((map_option splitPendingOwner \<circ> is_vtxosToRemove s) k) \<noteq> Some r}) k" for k
    by (cases "is_vtxosToRemove s k") (auto simp: taken_for_def restrict_map_def intro: prod.collapse [symmetric])
  then show ?thesis by (simp add: abs_board_def fun_eq_iff)
qed

lemma store_step_refines:
  assumes "store_step s e s'" and "store_inv s"
  shows "board_step (abs_board s) e (abs_board s') \<and> store_inv s'"
  using assms
proof (induction rule: store_step.induct)
  case (push now intent bs cs s s')
  let ?t = "\<lparr>ti_Intent = intent, ti_BoardingInputs = bs, ti_Timestamp = now, ti_CosignersPublicKeys = cs\<rparr>"
  have ok: "pushable (ti_Id ?t) (timed_keys ?t) s" and s': "s' = pushed ?t s"
    using push by (simp_all add: Push_attempt_eq_Inr ti_Id_def timed_keys_def)
  then show ?case
    using board_step.intros(1) [of "abs_board s" ?t] push.prems
    by (simp only: abs_pushed may_register_abs pushed_inv simp_thms)
next
  case (refuse now intent bs cs s e)
  let ?t = "\<lparr>ti_Intent = intent, ti_BoardingInputs = bs, ti_Timestamp = now, ti_CosignersPublicKeys = cs\<rparr>"
  have "Push_attempt now intent bs cs s \<noteq> Inr (pushed ?t s)" using refuse by simp
  then have "\<not> pushable (ti_Id ?t) (timed_keys ?t) s"
    by (simp add: Push_attempt_eq_Inr ti_Id_def timed_keys_def)
  then show ?case
    using board_step.intros(2) [of "abs_board s" ?t] refuse.prems by (simp only: may_register_abs simp_thms)
next
  case (pop order s r num sel s')
  have sel: "sel = pop_selected num order s" and s': "s' = popped r sel s"
    using pop.hyps(4) by (auto simp: Pop_attempt_eq)
  have "fair_selection num (eligible s) sel"
    unfolding sel by (rule pop_selected_fair [OF pop.prems pop.hyps(1,2)])
  note fair = this and queued = fair_selection_queued [OF this]
  have "fair_selection num {t. bd_queue (abs_board s) (ti_Id t) = Some t \<and> has_receivers t} sel"
    using fair by (simp add: eligible_def abs_board_def)
  from board_step.intros(3) [OF this, of r] show ?case
    unfolding s' abs_popped [OF pop.prems queued pop.hyps(3)]
    using popped_inv [OF pop.prems queued] by simp
next
  case (delete i s s')
  then have "s' = deleted i s" by (simp add: Delete_attempt_eq)
  then show ?case
    using board_step.intros(4) [of "abs_board s" i] deleted_inv [OF delete.prems, of i]
    by (simp only: abs_deleted simp_thms)
next
  case (release r s s')
  then have "s' = released r s" by (simp add: DeleteVtxos_attempt_eq)
  then show ?case
    using board_step.intros(5) [of "abs_board s" r] released_inv [OF release.prems, of r]
    by (simp only: abs_released simp_thms)
next
  case (clear order s)
  have "abs_board (DeleteAll order s) = \<lparr>bd_queue = Map.empty, bd_taken = Map.empty\<rparr>"
    using clear store_invD(1) [OF clear.prems] by (auto simp: abs_board_def DeleteAll_eq)
  then show ?case
    using board_step.intros(6) [of "abs_board s"] DeleteAll_inv [OF clear.prems clear.hyps] by simp
qed

lemma steps_refine:
  assumes "steps store_step s es s'" and "store_inv s"
  shows "steps board_step (abs_board s) es (abs_board s') \<and> store_inv s'"
  using assms
  by (induction rule: steps.induct) (auto intro: steps.intros dest: store_step_refines)

subsection \<open>The board as an interface\<close>

text \<open>
  What a client of the store relies on: every transaction is a step of the board. The effects of the
  steps on queued intents and on owners follow from the board alone, so they are derived once here,
  for any store that keeps this contract.
\<close>

definition board_ok :: "board \<Rightarrow> bool" where
  "board_ok b \<longleftrightarrow> (\<forall>i t. bd_queue b i = Some t \<longrightarrow> ti_Id t = i \<and> set (timed_keys t) \<inter> dom (bd_taken b) = {})"

inductive_cases board_pushedE: "board_step b (Pushed t) b'"
inductive_cases board_poppedE: "board_step b (Popped num r sel) b'"
inductive_cases board_deletedE: "board_step b (Deleted i) b'"
inductive_cases board_releasedE: "board_step b (Released r) b'"

locale board_store =
  fixes ok :: "'s \<Rightarrow> bool"
    and view :: "'s \<Rightarrow> board"
    and step :: "'s \<Rightarrow> store_event \<Rightarrow> 's \<Rightarrow> bool"
  assumes refines: "ok s \<Longrightarrow> step s e s' \<Longrightarrow> board_step (view s) e (view s') \<and> ok s'"
    and view_ok: "ok s \<Longrightarrow> board_ok (view s)"
begin

lemma pushed_effect:
  assumes "ok s" and "step s (Pushed t) s'" and fresh: "\<And>k r. bd_taken (view s) k \<noteq> Some (r, ti_Id t)"
  shows "set (timed_keys t) \<inter> bd_claimed (view s) = {}"
    and "ran (bd_queue (view s')) = insert t (ran (bd_queue (view s)))"
    and "bd_taken (view s') = bd_taken (view s)"
proof -
  have "board_step (view s) (Pushed t) (view s')" using refines [OF assms(1,2)] by simp
  then obtain may: "may_register (view s) t"
    and eff: "view s' = (view s)\<lparr>bd_queue := (bd_queue (view s))(ti_Id t \<mapsto> t),
      bd_taken := bd_taken (view s) |` (- set (timed_keys t))\<rparr>"
    by (auto elim: board_pushedE)
  show free: "set (timed_keys t) \<inter> bd_claimed (view s) = {}"
    using may fresh unfolding may_register_def by blast
  show "ran (bd_queue (view s')) = insert t (ran (bd_queue (view s)))"
    using may eff by (auto simp: may_register_def)
  have "set (timed_keys t) \<inter> dom (bd_taken (view s)) = {}"
    using free by (auto simp: bd_claimed_def)
  then have "bd_taken (view s) k = None" if "k \<in> set (timed_keys t)" for k using that by blast
  then show "bd_taken (view s') = bd_taken (view s)"
    using eff by (auto simp: restrict_map_def fun_eq_iff)
qed

lemma popped_effect:
  assumes "ok s" and "step s (Popped num r sel) s'"
  shows "set sel \<subseteq> ran (bd_queue (view s))"
    and "ran (bd_queue (view s')) \<subseteq> ran (bd_queue (view s))"
    and "\<And>t k. t \<in> set sel \<Longrightarrow> k \<in> set (timed_keys t) \<Longrightarrow> \<exists>i \<in> ti_Id ` set sel. bd_taken (view s') k = Some (r, i)"
    and "\<And>k v. bd_taken (view s) k = Some v \<Longrightarrow> bd_taken (view s') k = Some v"
    and "\<And>k v. bd_taken (view s') k = Some v \<Longrightarrow>
        bd_taken (view s) k = Some v \<or> (fst v = r \<and> snd v \<in> ti_Id ` set sel)"
proof -
  have "board_step (view s) (Popped num r sel) (view s')" using refines [OF assms(1,2)] by simp
  then obtain fair: "fair_selection num {t. bd_queue (view s) (ti_Id t) = Some t \<and> has_receivers t} sel"
    and eff: "view s' = (view s)\<lparr>bd_queue := bd_queue (view s) |` (- ti_Id ` set sel),
        bd_taken := (\<lambda>k. case find (\<lambda>t. k \<in> set (timed_keys t)) sel of
                           Some t \<Rightarrow> Some (r, ti_Id t) | None \<Rightarrow> bd_taken (view s) k)\<rparr>"
    by (auto elim: board_poppedE)
  have sel: "bd_queue (view s) (ti_Id t) = Some t" if "t \<in> set sel" for t
    using fair that by (auto simp: fair_selection_def)
  show "set sel \<subseteq> ran (bd_queue (view s))" using sel by (auto simp: ran_def)
  show "ran (bd_queue (view s')) \<subseteq> ran (bd_queue (view s))"
    using eff by (auto simp: ran_def restrict_map_def split: if_splits)
  have apart: "k \<notin> set (timed_keys t)" if "t \<in> set sel" and "bd_taken (view s) k = Some v" for t k v
    using view_ok [OF assms(1)] sel [OF that(1)] that(2) unfolding board_ok_def by blast
  show "\<exists>i \<in> ti_Id ` set sel. bd_taken (view s') k = Some (r, i)"
    if "t \<in> set sel" "k \<in> set (timed_keys t)" for t k
    using find_member [of "\<lambda>t. k \<in> set (timed_keys t)" sel] that eff by auto
  show "bd_taken (view s') k = Some v" if "bd_taken (view s) k = Some v" for k v
    using find_member [of "\<lambda>t. k \<in> set (timed_keys t)" sel] apart [OF _ that] that eff by auto
  show "bd_taken (view s) k = Some v \<or> (fst v = r \<and> snd v \<in> ti_Id ` set sel)"
    if "bd_taken (view s') k = Some v" for k v
    using find_member [of "\<lambda>t. k \<in> set (timed_keys t)" sel] that eff by auto
qed

lemma deleted_effect:
  assumes "ok s" and "step s (Deleted i) s'"
  shows "ran (bd_queue (view s')) \<subseteq> ran (bd_queue (view s))" and "bd_taken (view s') = bd_taken (view s)"
proof -
  have "board_step (view s) (Deleted i) (view s')" using refines [OF assms] by simp
  then have "view s' = (view s)\<lparr>bd_queue := (bd_queue (view s))(i := None)\<rparr>"
    by (auto elim: board_deletedE)
  then show "ran (bd_queue (view s')) \<subseteq> ran (bd_queue (view s))" and "bd_taken (view s') = bd_taken (view s)"
    by (auto simp: ran_def)
qed

lemma released_effect:
  assumes "ok s" and "step s (Released r) s'"
  shows "bd_queue (view s') = bd_queue (view s)"
    and "bd_taken (view s') k = Some v \<longleftrightarrow> bd_taken (view s) k = Some v \<and> fst v \<noteq> r"
proof -
  have "board_step (view s) (Released r) (view s')" using refines [OF assms] by simp
  then have eff: "view s' = (view s)\<lparr>bd_taken := bd_taken (view s) |` {k. map_option fst (bd_taken (view s) k) \<noteq> Some r}\<rparr>"
    by (auto elim: board_releasedE)
  then show "bd_queue (view s') = bd_queue (view s)" by simp
  show "bd_taken (view s') k = Some v \<longleftrightarrow> bd_taken (view s) k = Some v \<and> fst v \<noteq> r"
    using eff by (cases v) (auto simp: restrict_map_def split: if_splits)
qed

end

lemma abs_board_ok:
  assumes "store_inv s"
  shows "board_ok (abs_board s)"
proof -
  have "set (timed_keys t) \<subseteq> queued_keys s" if "is_intents s i = Some t" for i t
    using that by (auto simp: queued_keys_def ran_def)
  moreover have "dom (bd_taken (abs_board s)) = dom (is_vtxosToRemove s)"
    by (auto simp: abs_board_def)
  ultimately show ?thesis
    using store_invD(2,5) [OF assms] unfolding board_ok_def by (auto simp: abs_board_def) blast
qed

interpretation ledger: board_store store_inv abs_board store_step
  by unfold_locales (use store_step_refines abs_board_ok in blast)+

subsection \<open>Properties\<close>

definition sample_vtxo :: "string \<Rightarrow> Vtxo" where
  "sample_vtxo txid =
     \<lparr>vtxo_Outpoint = \<lparr>outp_Txid = txid, outp_VOut = 0\<rparr>, vtxo_Amount = 1000, vtxo_PubKey = [],
      vtxo_CommitmentTxids = [], vtxo_RootCommitmentTxid = [], vtxo_SettledBy = [], vtxo_SpentBy = [],
      vtxo_ArkTxid = [], vtxo_Spent = False, vtxo_Unrolled = False, vtxo_Swept = False,
      vtxo_Preconfirmed = False, vtxo_ExpiresAt = 0, vtxo_CreatedAt = 0, vtxo_Depth = 0,
      vtxo_MarkerIDs = [], vtxo_Assets = []\<rparr>"

definition sample_queued :: "string \<Rightarrow> string \<Rightarrow> Intent" where
  "sample_queued i txid =
     \<lparr>int_Id = i, int_Inputs = [sample_vtxo txid],
      int_Receivers = [\<lparr>rcv_Amount = 1000, rcv_OnchainAddress = ''a'', rcv_PubKey = []\<rparr>],
      int_Proof = ''p'', int_Message = ''m'', int_Txid = ''t'', int_LeafTxExtension = []\<rparr>"

definition sample_timed :: "string \<Rightarrow> string \<Rightarrow> TimedIntent" where
  "sample_timed i txid =
     \<lparr>ti_Intent = sample_queued i txid, ti_BoardingInputs = [], ti_Timestamp = 7,
      ti_CosignersPublicKeys = []\<rparr>"

lemmas sample_simps = sample_vtxo_def sample_queued_def sample_timed_def timed_keys_def inputKeys_def
  ti_Id_def has_receivers_def Outpoint_String_def

text \<open>C10: The intent store implements the board. Whatever sequence of pushes (granted or refused),
  pops, deletions, releases and clearings, each run to its end, starts on an empty store, the board takes exactly these
  steps and ends in the abstraction of the store: the index of claimed inputs, the owner strings
  and the bodies kept apart from the ids never make it refuse what the board grants, grant what it
  refuses, or hand a batch anything but a fair selection. Along the way no input is in two queued
  intents, none is both queued and taken, and the claimed inputs are those two together.\<close>

theorem intent_store_refines_board:
  assumes "steps store_step NewIntentStore es s"
  shows "steps board_step \<lparr>bd_queue = Map.empty, bd_taken = Map.empty\<rparr> es (abs_board s) \<and> store_inv s"
proof -
  have "abs_board NewIntentStore = \<lparr>bd_queue = Map.empty, bd_taken = Map.empty\<rparr>"
    by (auto simp: abs_board_def NewIntentStore_def)
  with steps_refine [OF assms NewIntentStore_inv] show ?thesis by simp
qed

lemma sample_store_run:
  "steps store_step NewIntentStore [Pushed (sample_timed ''i'' ''a''), Popped 5 ''r'' [sample_timed ''i'' ''a'']]
     (popped ''r'' [sample_timed ''i'' ''a''] (pushed (sample_timed ''i'' ''a'') NewIntentStore))"
proof -
  let ?t = "sample_timed ''i'' ''a''" and ?s = "pushed (sample_timed ''i'' ''a'') NewIntentStore"
  have "store_step NewIntentStore (Pushed ?t) ?s"
    unfolding sample_timed_def
    by (rule store_step.push) (simp add: Push_attempt_eq_Inr pushable_def NewIntentStore_def)
  moreover have sel: "pop_selected 5 [''i''] ?s = [?t]"
    by (simp add: pop_selected_def pop_candidates_def pushed_def NewIntentStore_def sample_simps
        List.map_filter_simps)
  have "Pop_attempt 5 ''r'' [''i''] ?s = Inr ([?t], popped ''r'' [?t] ?s)"
    by (simp only: Pop_attempt_eq sel)
  then have "store_step ?s (Popped 5 ''r'' [?t]) (popped ''r'' [?t] ?s)"
    by (intro store_step.pop [of "[''i'']"])
      (simp_all add: pushed_def NewIntentStore_def ti_Id_def sample_timed_def sample_queued_def)
  ultimately show ?thesis
    using steps_snoc [OF steps_snoc [OF steps_nil [of store_step NewIntentStore]]] by simp
qed

theorem intent_store_refines_board_witness:
  "steps store_step NewIntentStore [Pushed (sample_timed ''i'' ''a''), Popped 5 ''r'' [sample_timed ''i'' ''a'']]
     (popped ''r'' [sample_timed ''i'' ''a''] (pushed (sample_timed ''i'' ''a'') NewIntentStore)) \<and>
   steps board_step \<lparr>bd_queue = Map.empty, bd_taken = Map.empty\<rparr>
     [Pushed (sample_timed ''i'' ''a''), Popped 5 ''r'' [sample_timed ''i'' ''a'']]
     (abs_board (popped ''r'' [sample_timed ''i'' ''a''] (pushed (sample_timed ''i'' ''a'') NewIntentStore)))"
  using sample_store_run intent_store_refines_board [OF sample_store_run] by blast

end
