(* ===== verification/Batch_Session.thy ===== *)
theory Batch_Session
  imports Domain_Round Live_Intents Go_Time
begin

section \<open>The batch session manager and round timing\<close>

text \<open>
  \<open>internal/core/application/batch_session_manager.go\<close> and \<open>round_timing.go\<close>.

  The manager's map from a finished batch to whether its projection was written is an association
  list, in an order Go leaves open. A channel is a number that is never used again, and \<open>bm_closed\<close>
  holds the channels that were closed. \<open>waitForProjections\<close> runs beside the goroutines that mark
  projections: a run is any sequence of their calls of \<open>markProjected\<close> and of turns of the
  waiting goroutine, which does nothing in a turn while the channel it selects on is open.
  A \<open>time.Duration\<close> is an \<open>int64\<close> of nanoseconds; \<open>time.Until\<close> saturates at its bounds.
\<close>

subsection \<open>batch\_session\_manager.go\<close>

record batchSessionManager =
  bm_inflightBatches :: "bool gomap"
  bm_updated :: nat
  bm_closed :: "nat set"

definition newBatchSessionManager :: batchSessionManager where
  "newBatchSessionManager = \<lparr>bm_inflightBatches = [], bm_updated = 0, bm_closed = {}\<rparr>"

definition track :: "Round option \<Rightarrow> batchSessionManager \<Rightarrow> batchSessionManager" where
  "track round m =
     (case round of
        None \<Rightarrow> m
      | Some r \<Rightarrow>
          if \<not> Round_IsEnded r then m
          else if map_of (bm_inflightBatches m) (rd_Id r) \<noteq> None then m
          else m\<lparr>bm_inflightBatches := bm_inflightBatches m @ [(rd_Id r, False)]\<rparr>)"

definition markProjected :: "string \<Rightarrow> batchSessionManager \<Rightarrow> batchSessionManager" where
  "markProjected batchId m =
     (case map_of (bm_inflightBatches m) batchId of
        Some False \<Rightarrow>
          m\<lparr>bm_inflightBatches := AList.update batchId True (bm_inflightBatches m),
            bm_closed := insert (bm_updated m) (bm_closed m), bm_updated := Suc (bm_updated m)\<rparr>
      | _ \<Rightarrow> m)"

definition forgetProjected :: "batchSessionManager \<Rightarrow> string list \<times> bool \<times> batchSessionManager" where
  "forgetProjected m =
     (map fst (filter snd (bm_inflightBatches m)),
      \<exists>b \<in> set (bm_inflightBatches m). \<not> snd b,
      m\<lparr>bm_inflightBatches := filter (\<lambda>b. \<not> snd b) (bm_inflightBatches m)\<rparr>)"

text \<open>Where the waiting goroutine is: about to take the lock, in the \<open>select\<close> on the channel it read
  under the lock, or done. A turn in \<open>TimerFired\<close> or \<open>CtxDone\<close> takes that case of the \<open>select\<close>.\<close>

datatype waiter = AtLoop "string list" | Selecting nat "string list" | Returned "string list"

datatype move = Mark string | Turn | TimerFired | CtxDone

fun wait_turn :: "waiter \<times> batchSessionManager \<Rightarrow> waiter \<times> batchSessionManager" where
  "wait_turn (AtLoop projected, m) =
     (case forgetProjected m of
        (done', pending, m') \<Rightarrow>
          (if \<not> pending then Returned (projected @ done') else Selecting (bm_updated m') (projected @ done'), m'))"
| "wait_turn (Selecting updated projected, m) =
     (if updated \<in> bm_closed m then AtLoop projected else Selecting updated projected, m)"
| "wait_turn (Returned projected, m) = (Returned projected, m)"

fun wait_move :: "move \<Rightarrow> waiter \<times> batchSessionManager \<Rightarrow> waiter \<times> batchSessionManager" where
  "wait_move (Mark batchId) (w, m) = (w, markProjected batchId m)"
| "wait_move Turn s = wait_turn s"
| "wait_move _ (Selecting updated projected, m) = (Returned projected, m)"
| "wait_move _ s = s"


subsection \<open>round\_timing.go\<close>

record roundTiming =
  rt_roundEnd :: int

definition newRoundTiming :: "int \<Rightarrow> int \<Rightarrow> roundTiming" where
  "newRoundTiming now sessionDuration = \<lparr>rt_roundEnd = now + sessionDuration\<rparr>"

definition remainingDuration :: "int \<Rightarrow> roundTiming \<Rightarrow> int" where
  "remainingDuration now r = max (- (2 ^ 63)) (min (2 ^ 63 - 1) (rt_roundEnd r - now))"

text \<open>Division of Go truncates towards zero.\<close>

definition duration_div :: "int \<Rightarrow> int \<Rightarrow> int" where
  "duration_div a b = sgn a * (\<bar>a\<bar> div b)"

definition atLeastOneSecond :: "int \<Rightarrow> int" where
  "atLeastOneSecond duration = (if duration < 1000000000 then 1000000000 else duration)"

definition registrationDuration :: "int \<Rightarrow> roundTiming \<Rightarrow> int" where
  "registrationDuration now r = atLeastOneSecond (duration_div (remainingDuration now r) 6)"

definition confirmationDuration :: "int \<Rightarrow> roundTiming \<Rightarrow> int" where
  "confirmationDuration now r = atLeastOneSecond (duration_div (remainingDuration now r) 2)"

definition finalizationDuration :: "int \<Rightarrow> roundTiming \<Rightarrow> int" where
  "finalizationDuration now r = atLeastOneSecond (duration_div (remainingDuration now r) 3)"

subsection \<open>The manager as a map\<close>

abbreviation inflight :: "batchSessionManager \<Rightarrow> string \<rightharpoonup> bool" where
  "inflight m \<equiv> map_of (bm_inflightBatches m)"

definition manager_ok :: "batchSessionManager \<Rightarrow> bool" where
  "manager_ok m \<longleftrightarrow> distinct (map fst (bm_inflightBatches m))"

lemma track_ok: "manager_ok m \<Longrightarrow> manager_ok (track r m)"
  by (auto simp: manager_ok_def track_def map_of_eq_None_iff split: option.split)

lemma inflight_track:
  "inflight (track (Some r) m) =
     (if Round_IsEnded r \<and> inflight m (rd_Id r) = None then (inflight m)(rd_Id r \<mapsto> False) else inflight m)"
  by (auto simp: track_def fun_eq_iff map_add_def split: option.split)

lemma markProjected_ok: "manager_ok m \<Longrightarrow> manager_ok (markProjected i m)"
  by (auto simp: manager_ok_def markProjected_def distinct_update split: option.split bool.split)

lemma inflight_mark:
  "inflight (markProjected i m) = (if inflight m i = Some False then (inflight m)(i \<mapsto> True) else inflight m)"
  by (auto simp: markProjected_def update_conv' split: option.split bool.split)

lemma map_of_filter_distinct:
  "distinct (map fst xs) \<Longrightarrow>
     map_of (filter (\<lambda>b. P (snd b)) xs) k =
       (case map_of xs k of None \<Rightarrow> None | Some v \<Rightarrow> if P v then Some v else None)"
  by (induction xs) (auto simp: map_of_eq_None_iff image_iff split: option.split)

lemma forgetProjected_map:
  assumes "manager_ok m" and "forgetProjected m = (done', pending, m')"
  shows "set done' = {i. inflight m i = Some True}"
    and "pending \<longleftrightarrow> (\<exists>i. inflight m i = Some False)"
    and "inflight m' = (\<lambda>i. if inflight m i = Some True then None else inflight m i)"
    and "manager_ok m'"
proof -
  have d: "distinct (map fst (bm_inflightBatches m))" using assms(1) by (simp add: manager_ok_def)
  have m': "m' = m\<lparr>bm_inflightBatches := filter (\<lambda>b. \<not> snd b) (bm_inflightBatches m)\<rparr>"
    and done': "done' = map fst (filter snd (bm_inflightBatches m))"
    and pending: "pending \<longleftrightarrow> (\<exists>b \<in> set (bm_inflightBatches m). \<not> snd b)"
    using assms(2) by (auto simp: forgetProjected_def)
  have el: "(i, b) \<in> set (bm_inflightBatches m) \<longleftrightarrow> inflight m i = Some b" for i b
    using d by simp
  show "set done' = {i. inflight m i = Some True}" unfolding done' using el by force
  show "pending \<longleftrightarrow> (\<exists>i. inflight m i = Some False)" unfolding pending using el by force
  show "inflight m' = (\<lambda>i. if inflight m i = Some True then None else inflight m i)"
    unfolding m' by (auto simp: fun_eq_iff map_of_filter_distinct [OF d] split: option.split)
  show "manager_ok m'" unfolding m' manager_ok_def using d by (simp add: distinct_map_filter)
qed


subsection \<open>Waiting\<close>

fun projected_of :: "waiter \<Rightarrow> string list" where
  "projected_of (AtLoop ds) = ds"
| "projected_of (Selecting ch ds) = ds"
| "projected_of (Returned ds) = ds"

text \<open>What holds of the waiting goroutine and the manager, when \<open>tracked\<close> were tracked at the start: no batch
  is lost, and whoever selects on an open channel has a batch to wait for, whose mark will close it.\<close>

definition wait_inv :: "string set \<Rightarrow> waiter \<times> batchSessionManager \<Rightarrow> bool" where
  "wait_inv tracked = (\<lambda>(w, m).
     manager_ok m \<and> bm_updated m \<notin> bm_closed m \<and> (\<forall>ch \<in> bm_closed m. ch < bm_updated m) \<and>
     set (projected_of w) \<union> dom (inflight m) = tracked \<and>
     (\<forall>ch ds. w = Selecting ch ds \<longrightarrow> ch \<in> bm_closed m \<or> ch = bm_updated m \<and> (\<exists>i. inflight m i = Some False)))"

lemma dom_inflight_mark: "dom (inflight (markProjected i m)) = dom (inflight m)"
  by (auto simp: inflight_mark)

lemma mark_inv:
  assumes "wait_inv tracked (w, m)"
  shows "wait_inv tracked (w, markProjected i m)"
proof (cases "inflight m i = Some False")
  case True
  then show ?thesis
    using assms markProjected_ok [of m i] dom_inflight_mark [of i m] unfolding wait_inv_def
    by (auto simp: markProjected_def less_Suc_eq)
next
  case False
  then have "markProjected i m = m" by (auto simp: markProjected_def split: option.split bool.split)
  then show ?thesis using assms by simp
qed

lemma forgetProjected_channels:
  "forgetProjected m = (ds, pending, m') \<Longrightarrow> bm_updated m' = bm_updated m \<and> bm_closed m' = bm_closed m"
  by (auto simp: forgetProjected_def)

lemma turn_inv:
  assumes "wait_inv tracked (w, m)"
  shows "wait_inv tracked (wait_turn (w, m))"
proof (cases w)
  case (AtLoop acc)
  obtain ds p m' where f: "forgetProjected m = (ds, p, m')" by (cases "forgetProjected m")
  have ok: "manager_ok m" using assms by (simp add: wait_inv_def)
  note facts = forgetProjected_map [OF ok f] and ch = forgetProjected_channels [OF f]
  have "set ds \<union> dom (inflight m') = dom (inflight m)" unfolding facts(1,3) by (auto split: if_splits)
  then have "set (acc @ ds) \<union> dom (inflight m') = tracked" using assms AtLoop by (auto simp: wait_inv_def)
  moreover have "\<exists>i. inflight m' i = Some False" if pe: p
  proof -
    obtain i where "inflight m i = Some False" using facts(2) pe by blast
    then have "inflight m' i = Some False" unfolding facts(3) by simp
    then show ?thesis by blast
  qed
  ultimately show ?thesis using assms AtLoop f facts(4) ch by (auto simp: wait_inv_def)
qed (use assms in \<open>auto simp: wait_inv_def\<close>)

lemma move_inv: "wait_inv tracked s \<Longrightarrow> wait_inv tracked (wait_move mv s)"
proof -
  assume inv: "wait_inv tracked s"
  obtain w m where s: "s = (w, m)" by (cases s)
  show ?thesis
  proof (cases mv)
    case (Mark i)
    then show ?thesis using mark_inv inv s by simp
  next
    case Turn
    then show ?thesis using turn_inv inv s by simp
  qed (use inv s in \<open>cases w; auto simp: wait_inv_def\<close>)+
qed





text \<open>Nor is a batch taken before its projection, also when the wait gives up.\<close>

lemma move_projected:
  assumes "manager_ok (snd s)"
  shows "i \<in> set (projected_of (fst (wait_move mv s))) \<Longrightarrow> i \<in> set (projected_of (fst s)) \<or> inflight (snd s) i = Some True"
    and "inflight (snd (wait_move mv s)) i = Some True \<Longrightarrow> inflight (snd s) i = Some True \<or> mv = Mark i"
proof -
  obtain w m where s: "s = (w, m)" by (cases s)
  obtain ds p m' where f: "forgetProjected m = (ds, p, m')" by (cases "forgetProjected m")
  have ok: "manager_ok m" using assms s by simp
  note facts = forgetProjected_map [OF ok f]
  show "i \<in> set (projected_of (fst (wait_move mv s))) \<Longrightarrow> i \<in> set (projected_of (fst s)) \<or> inflight (snd s) i = Some True"
    using f facts(1) unfolding s by (cases mv; cases w) (auto split: if_split_asm)
  show "inflight (snd (wait_move mv s)) i = Some True \<Longrightarrow> inflight (snd s) i = Some True \<or> mv = Mark i"
    using f facts(3) unfolding s by (cases mv; cases w) (auto simp: inflight_mark split: if_split_asm)
qed

lemma returned_projected:
  "wait_inv tracked s \<Longrightarrow> i \<in> set (projected_of (fst (fold wait_move moves s))) \<Longrightarrow>
     i \<in> set (projected_of (fst s)) \<or> inflight (snd s) i = Some True \<or> Mark i \<in> set moves"
proof (induction moves arbitrary: s)
  case (Cons mv moves)
  have ok: "manager_ok (snd s)" using Cons.prems(1) by (auto simp: wait_inv_def)
  show ?case using Cons.IH [OF move_inv [OF Cons.prems(1)]] Cons.prems(2) move_projected [OF ok, where mv = mv] by auto
qed simp







subsection \<open>Durations\<close>

lemma duration_div_bounds: "0 < b \<Longrightarrow> 0 \<le> a \<Longrightarrow> 0 \<le> duration_div a b \<and> duration_div a b * b \<le> a"
  by (cases "a = 0") (auto simp: duration_div_def sgn_if minus_mod_eq_div_mult [symmetric]
      pos_imp_zdiv_nonneg_iff)

text \<open>Every stage lasts at least a second; a stage that is not cut to a second fits in what remains.\<close>

lemma stage_duration:
  assumes "0 < b" and "rem' = remainingDuration now r"
  shows "time_Second \<le> atLeastOneSecond (duration_div rem' b)"
    and "time_Second * b \<le> rem' \<Longrightarrow> atLeastOneSecond (duration_div rem' b) * b \<le> rem'"
proof -
  show "time_Second \<le> atLeastOneSecond (duration_div rem' b)"
    by (simp add: atLeastOneSecond_def time_Second_def)
  assume b: "time_Second * b \<le> rem'"
  then have "0 \<le> rem'" using assms(1) by (simp add: time_Second_def order_trans [rotated])
  from duration_div_bounds [OF assms(1) this] b
  show "atLeastOneSecond (duration_div rem' b) * b \<le> rem'"
    by (auto simp: atLeastOneSecond_def time_Second_def)
qed

end
