(* ===== verification/Spend_Safety.thy ===== *)
theory Spend_Safety
  imports Batch_Session
begin

section \<open>No vtxo is spent twice\<close>

text \<open>
  How \<open>internal/core/application/service.go\<close> puts the live store, the batch session manager, the
  database and its own locks together so that a vtxo is spent once, by one batch or by one offchain
  transaction.

  The parts that run concurrently, and the steps they take:
  \<^item> \<open>RegisterIntent\<close> holds \<open>registrations\<close> for reading from its first read of an input; under
    \<open>offchainTxMu\<close> it reads the cache of offchain transactions, then the rows of its vtxos, then
    pushes the intent;
  \<^item> \<open>SubmitOffchainTx\<close>, under \<open>offchainTxMu\<close>, reads the cache of offchain transactions, then the
    intent store, then the rows, and adds the transaction; a one-shot submission whose events are
    not saved removes it again;
  \<^item> the round loop: \<open>startConfirmation\<close> pops intents; \<open>finalizeRound\<close> ends the batch, tracks it and
    saves its events, or the round fails, before its commitment transaction is broadcast or after; \<open>startRound\<close> waits for projections, holds registrations,
    releases the claims of the projected batches and of a round that did not end, and resumes;
  \<^item> the projections of the database (\<open>internal/infrastructure/db/service.go\<close>) write the spent marks
    some time after the events were saved, or never; the handlers registered in
    \<open>registerEventHandlers\<close> run after that, and call \<open>markProjected\<close> or \<open>Remove\<close>;
  \<^item> an intent is deleted at any time, and the operator may delete all of them (\<open>DeleteIntents\<close> of
    \<open>admin.go\<close>), bodies first, then the keys.

  A step is one access to a shared part, so every interleaving of the accesses is a sequence of
  steps. Checks that can only refuse (signatures, amounts, bans) may end a registration or a
  submission at any point, so they are one step that gives up. \<open>sy_spends\<close> records who spent what: it
  is written when a batch ends or fails after its broadcast and when a submission succeeds, and nothing reads it. Two kinds of steps
  are recorded as incidents of the run: a round that fails after its broadcast, and the deletion of all intents.

  The rows are reduced to the set of the keys marked as spent, and a batch settles some of the
  vtxo inputs of the intents it popped (those of \<open>getSpentVtxoKeysFromRound\<close>).
\<close>

subsection \<open>State\<close>

datatype spender = ByBatch string | ByTx string

datatype reg_phase = RegLocked | RegCacheRead | RegDbRead

datatype sub_phase = SubLocked | SubCacheRead | SubIntentsRead | SubDbRead | SubAdded

text \<open>Who holds \<open>offchainTxMu\<close>, and how far it got.\<close>

datatype tx_section =
    Unlocked
  | Registering reg_phase Intent "BoardingInput list" "string list"
  | Submitting sub_phase OffchainTx "Outpoint list"

text \<open>Where the round loop is: in \<open>startRound\<close> before and after \<open>holdRegistrations\<close> with the ids still
  to release, in the registration stage of a round, or after its \<open>Pop\<close>.\<close>

datatype loop =
    Waiting "string list" Round
  | Releasing "string list" Round
  | Collecting Round
  | Running Round "TimedIntent list"

record system =
  sy_intents :: intentStore
  sy_offchain :: offChainTxStore
  sy_spent :: "string set"
  sy_manager :: batchSessionManager
  sy_readers :: nat
  sy_section :: tx_section
  sy_loop :: loop
  sy_batches :: "(string \<times> string list) set"
  sy_projected :: "string set"
  sy_txs :: "(OffchainTx \<times> string list) set"
  sy_txs_projected :: "(OffchainTx \<times> string list) set"
  sy_ids :: "string set"
  sy_rounds :: "string set"
  sy_spends :: "(spender \<times> string) set"

definition vtxo_keys :: "Intent \<Rightarrow> string list" where
  "vtxo_keys intent = map (\<lambda>v. Outpoint_String (vtxo_Outpoint v)) (int_Inputs intent)"

definition init_system :: "Round \<Rightarrow> string set \<Rightarrow> system" where
  "init_system round spent =
     \<lparr>sy_intents = NewIntentStore, sy_offchain = \<lparr>os_txs = Map.empty, os_inputs = {}\<rparr>, sy_spent = spent,
      sy_manager = newBatchSessionManager, sy_readers = 0, sy_section = Unlocked,
      sy_loop = Collecting round, sy_batches = {}, sy_projected = {}, sy_txs = {},
      sy_txs_projected = {}, sy_ids = {}, sy_rounds = {rd_Id round}, sy_spends = {}\<rparr>"

fun registering :: "tx_section \<Rightarrow> bool" where
  "registering (Registering ph i bs cs) = True"
| "registering _ = False"

fun releasing :: "loop \<Rightarrow> bool" where
  "releasing (Releasing rs r) = True"
| "releasing _ = False"

subsection \<open>Steps\<close>

text \<open>\<open>RegisterIntent\<close>, from \<open>beginRegistration\<close> to the push.\<close>

inductive reg_step :: "system \<Rightarrow> system \<Rightarrow> bool" where
  reg_begin: "\<not> releasing (sy_loop st) \<Longrightarrow> reg_step st (st\<lparr>sy_readers := Suc (sy_readers st)\<rparr>)"
| reg_leave: "sy_readers st = Suc n \<Longrightarrow> reg_step st (st\<lparr>sy_readers := n\<rparr>)"
| reg_lock: "sy_readers st = Suc n \<Longrightarrow> sy_section st = Unlocked \<Longrightarrow> int_Id intent \<notin> sy_ids st \<Longrightarrow>
    reg_step st
      (st\<lparr>sy_ids := insert (int_Id intent) (sy_ids st), sy_readers := n,
          sy_section := Registering RegLocked intent bs cs\<rparr>)"
| reg_cache: "sy_section st = Registering RegLocked intent bs cs \<Longrightarrow>
    offchain_IncludesAny (map vtxo_Outpoint (int_Inputs intent)) (sy_offchain st) None = Inr [] \<Longrightarrow>
    reg_step st (st\<lparr>sy_section := Registering RegCacheRead intent bs cs\<rparr>)"
| reg_db: "sy_section st = Registering RegCacheRead intent bs cs \<Longrightarrow>
    set (vtxo_keys intent) \<inter> sy_spent st = {} \<Longrightarrow>
    reg_step st (st\<lparr>sy_section := Registering RegDbRead intent bs cs\<rparr>)"
| reg_push: "sy_section st = Registering RegDbRead intent bs cs \<Longrightarrow>
    Push_attempt now intent bs cs (sy_intents st) = Inr s' \<Longrightarrow>
    reg_step st (st\<lparr>sy_section := Unlocked, sy_intents := s'\<rparr>)"
| reg_refuse: "sy_section st = Registering ph intent bs cs \<Longrightarrow>
    reg_step st (st\<lparr>sy_section := Unlocked\<rparr>)"

text \<open>\<open>SubmitOffchainTx\<close> under \<open>offchainTxMu\<close>.\<close>

inductive sub_step :: "system \<Rightarrow> system \<Rightarrow> bool" where
  sub_lock: "sy_section st = Unlocked \<Longrightarrow>
    sub_step st (st\<lparr>sy_section := Submitting SubLocked tx ops\<rparr>)"
| sub_cache: "sy_section st = Submitting SubLocked tx ops \<Longrightarrow>
    offchain_IncludesAny ops (sy_offchain st) None = Inr [] \<Longrightarrow>
    sub_step st (st\<lparr>sy_section := Submitting SubCacheRead tx ops\<rparr>)"
| sub_intents: "sy_section st = Submitting SubCacheRead tx ops \<Longrightarrow>
    intents_IncludesAny ops (sy_intents st) None = Inr [] \<Longrightarrow>
    sub_step st (st\<lparr>sy_section := Submitting SubIntentsRead tx ops\<rparr>)"
| sub_db: "sy_section st = Submitting SubIntentsRead tx ops \<Longrightarrow>
    Outpoint_String ` set ops \<inter> sy_spent st = {} \<Longrightarrow>
    sub_step st (st\<lparr>sy_section := Submitting SubDbRead tx ops\<rparr>)"
| sub_add: "sy_section st = Submitting SubDbRead tx ops \<Longrightarrow>
    Add_attempt tx (map Outpoint_String ops) (sy_offchain st) = Inr o' \<Longrightarrow>
    sub_step st (st\<lparr>sy_section := Submitting SubAdded tx ops, sy_offchain := o'\<rparr>)"
| sub_commit: "sy_section st = Submitting SubAdded tx ops \<Longrightarrow>
    sub_step st
      (st\<lparr>sy_section := Unlocked, sy_txs := insert (tx, map Outpoint_String ops) (sy_txs st),
          sy_spends := sy_spends st \<union> Pair (ByTx (ot_ArkTxid tx)) ` Outpoint_String ` set ops\<rparr>)"
| sub_rollback: "sy_section st = Submitting SubAdded tx ops \<Longrightarrow>
    sub_step st
      (st\<lparr>sy_section := Unlocked, sy_offchain := remove_tx tx (map Outpoint_String ops) (sy_offchain st)\<rparr>)"
| sub_refuse: "sy_section st = Submitting ph tx ops \<Longrightarrow> ph \<noteq> SubAdded \<Longrightarrow>
    sub_step st (st\<lparr>sy_section := Unlocked\<rparr>)"

text \<open>\<open>startConfirmation\<close> pops intents for the round.\<close>

inductive pop_step :: "system \<Rightarrow> system \<Rightarrow> bool" where
  loop_pop: "sy_loop st = Collecting round \<Longrightarrow> set order = is_ids (sy_intents st) \<Longrightarrow> distinct order \<Longrightarrow>
    Pop_attempt num (rd_Id round) order (sy_intents st) = Inr (sel, s') \<Longrightarrow>
    pop_step st (st\<lparr>sy_loop := Running round sel, sy_intents := s'\<rparr>)"

text \<open>The end of a round: any stage may fail before the commitment transaction is broadcast; \<open>finalizeRound\<close> ends
  the batch, tracks it and then saves its events, or fails to save them, which it only logs. A failure after the
  broadcast is an incident, below.\<close>

inductive end_step :: "system \<Rightarrow> system \<Rightarrow> bool" where
  loop_fail: "sy_loop st = Collecting round \<or> sy_loop st = Running round sel \<Longrightarrow>
    rd_Id round' = rd_Id round \<Longrightarrow> \<not> Round_IsEnded round' \<Longrightarrow>
    end_step st (st\<lparr>sy_loop := Waiting [] round'\<rparr>)"
| loop_end: "sy_loop st = Running round sel \<Longrightarrow> rd_Id round' = rd_Id round \<Longrightarrow> Round_IsEnded round' \<Longrightarrow>
    set ks \<subseteq> (\<Union>t \<in> set sel. set (vtxo_keys (ti_Intent t))) \<Longrightarrow>
    end_step st
      (st\<lparr>sy_loop := Waiting [] round', sy_manager := track (Some round') (sy_manager st),
          sy_batches := (if saved then insert (rd_Id round', ks) (sy_batches st) else sy_batches st),
          sy_spends := sy_spends st \<union> Pair (ByBatch (rd_Id round')) ` set ks\<rparr>)"

text \<open>\<open>startRound\<close>: a turn of \<open>waitForProjections\<close>, which may also give up; \<open>holdRegistrations\<close>; a call of
  \<open>DeleteVtxos\<close> for each id, whose failure is only logged; \<open>resumeRegistrations\<close> with a denied or a
  granted start.\<close>

inductive start_step :: "system \<Rightarrow> system \<Rightarrow> bool" where
  loop_forget: "sy_loop st = Waiting acc round \<Longrightarrow> forgetProjected (sy_manager st) = (ds, pending, m') \<Longrightarrow>
    start_step st (st\<lparr>sy_loop := Waiting (acc @ ds) round, sy_manager := m'\<rparr>)"
| loop_hold: "sy_loop st = Waiting acc round \<Longrightarrow> sy_readers st = 0 \<Longrightarrow> \<not> registering (sy_section st) \<Longrightarrow>
    start_step st
      (st\<lparr>sy_loop := Releasing (acc @ (if Round_IsEnded round then [] else [rd_Id round])) round\<rparr>)"
| loop_release: "sy_loop st = Releasing (r # rs) round \<Longrightarrow> DeleteVtxos_attempt r (sy_intents st) = Inr s' \<Longrightarrow>
    start_step st (st\<lparr>sy_loop := Releasing rs round, sy_intents := s'\<rparr>)"
| loop_skip: "sy_loop st = Releasing (r # rs) round \<Longrightarrow>
    start_step st (st\<lparr>sy_loop := Releasing rs round\<rparr>)"
| loop_denied: "sy_loop st = Releasing [] round \<Longrightarrow> start_step st (st\<lparr>sy_loop := Waiting [] round\<rparr>)"
| loop_start: "sy_loop st = Releasing [] round \<Longrightarrow> rd_Id round' \<notin> sy_rounds st \<Longrightarrow>
    CHR '':'' \<notin> set (rd_Id round') \<Longrightarrow>
    start_step st (st\<lparr>sy_loop := Collecting round', sy_rounds := insert (rd_Id round') (sy_rounds st)\<rparr>)"

text \<open>The projections: the rows of the inputs are marked as spent.\<close>

inductive tx_db_step :: "system \<Rightarrow> system \<Rightarrow> bool" where
  tx_project: "(tx, ks) \<in> sy_txs st \<Longrightarrow>
    tx_db_step st (st\<lparr>sy_spent := sy_spent st \<union> set ks, sy_txs_projected := insert (tx, ks) (sy_txs_projected st)\<rparr>)"

inductive batch_db_step :: "system \<Rightarrow> system \<Rightarrow> bool" where
  batch_project: "(r, ks) \<in> sy_batches st \<Longrightarrow>
    batch_db_step st (st\<lparr>sy_spent := sy_spent st \<union> set ks, sy_projected := insert r (sy_projected st)\<rparr>)"

text \<open>The handlers that run once a projection is written.\<close>

inductive tx_handler_step :: "system \<Rightarrow> system \<Rightarrow> bool" where
  tx_remove: "(tx, ks) \<in> sy_txs_projected st \<Longrightarrow>
    tx_handler_step st (st\<lparr>sy_offchain := remove_tx tx ks (sy_offchain st)\<rparr>)"

inductive batch_handler_step :: "system \<Rightarrow> system \<Rightarrow> bool" where
  batch_mark: "r \<in> sy_projected st \<Longrightarrow>
    batch_handler_step st (st\<lparr>sy_manager := markProjected r (sy_manager st)\<rparr>)"

inductive sys_step :: "system \<Rightarrow> system \<Rightarrow> bool" where
  registration: "reg_step st st' \<Longrightarrow> sys_step st st'"
| submission: "sub_step st st' \<Longrightarrow> sys_step st st'"
| popping: "pop_step st st' \<Longrightarrow> sys_step st st'"
| ending: "end_step st st' \<Longrightarrow> sys_step st st'"
| start: "start_step st st' \<Longrightarrow> sys_step st st'"
| tx_db: "tx_db_step st st' \<Longrightarrow> sys_step st st'"
| batch_db: "batch_db_step st st' \<Longrightarrow> sys_step st st'"
| tx_handler: "tx_handler_step st st' \<Longrightarrow> sys_step st st'"
| batch_handler: "batch_handler_step st st' \<Longrightarrow> sys_step st st'"
| intent_delete: "Delete_attempt i (sy_intents st) = Inr s' \<Longrightarrow> sys_step st (st\<lparr>sy_intents := s'\<rparr>)"

text \<open>After the broadcast, \<open>finalizeRound\<close> still fails the round when \<open>EndFinalization\<close> returns an error or the cache
  cannot be written. The failed round does not count as ended: it is not tracked, no projection will mark its inputs, and
  \<open>startRound\<close> releases its claims as those of a round that spent nothing.\<close>

datatype incident = FailedAfterBroadcast string | IntentsCleared

inductive incident_step :: "incident \<Rightarrow> system \<Rightarrow> system \<Rightarrow> bool" where
  late_fail: "sy_loop st = Running round sel \<Longrightarrow> rd_Id round' = rd_Id round \<Longrightarrow> \<not> Round_IsEnded round' \<Longrightarrow>
    set ks \<subseteq> (\<Union>t \<in> set sel. set (vtxo_keys (ti_Intent t))) \<Longrightarrow>
    incident_step (FailedAfterBroadcast (rd_Id round)) st
      (st\<lparr>sy_loop := Waiting [] round', sy_manager := track (Some round') (sy_manager st),
          sy_spends := sy_spends st \<union> Pair (ByBatch (rd_Id round')) ` set ks\<rparr>)"
| clear_body: "incident_step IntentsCleared st (st\<lparr>sy_intents := DeleteAll_body i (sy_intents st)\<rparr>)"
| clear_keys: "incident_step IntentsCleared st (st\<lparr>sy_intents := DeleteAll_keys (sy_intents st)\<rparr>)"

text \<open>The states of a run, with its incidents, the last one first.\<close>

inductive reachable :: "Round \<Rightarrow> string set \<Rightarrow> incident list \<Rightarrow> system \<Rightarrow> bool" for round spent where
  reachable_init: "CHR '':'' \<notin> set (rd_Id round) \<Longrightarrow> reachable round spent [] (init_system round spent)"
| reachable_step: "reachable round spent xs st \<Longrightarrow> sys_step st st' \<Longrightarrow> reachable round spent xs st'"
| reachable_incident: "reachable round spent xs st \<Longrightarrow> incident_step x st st' \<Longrightarrow> reachable round spent (x # xs) st'"

subsection \<open>Invariant\<close>

abbreviation sy_board :: "system \<Rightarrow> board" where
  "sy_board st \<equiv> abs_board (sy_intents st)"

definition sel_keys :: "TimedIntent list \<Rightarrow> string set" where
  "sel_keys sel = (\<Union>t \<in> set sel. set (vtxo_keys (ti_Intent t)))"

definition queue_keys :: "board \<Rightarrow> string set" where
  "queue_keys b = (\<Union>t \<in> ran (bd_queue b). set (vtxo_keys (ti_Intent t)))"

fun running_keys :: "loop \<Rightarrow> string set" where
  "running_keys (Running round sel) = sel_keys sel"
| "running_keys _ = {}"

definition spent_by_any :: "system \<Rightarrow> string \<Rightarrow> bool" where
  "spent_by_any st k \<longleftrightarrow> (\<exists>x. (x, k) \<in> sy_spends st)"

definition taken_by :: "system \<Rightarrow> string \<Rightarrow> string \<Rightarrow> bool" where
  "taken_by st r k \<longleftrightarrow> (\<exists>i. bd_taken (sy_board st) k = Some (r, i))"

definition settled :: "system \<Rightarrow> string \<Rightarrow> bool" where
  "settled st r \<longleftrightarrow> (\<forall>k. (ByBatch r, k) \<in> sy_spends st \<longrightarrow> k \<in> sy_spent st)"

definition unspent_round :: "system \<Rightarrow> string \<Rightarrow> bool" where
  "unspent_round st r \<longleftrightarrow> (\<forall>k. (ByBatch r, k) \<notin> sy_spends st)"

text \<open>An input that may still be spent is marked by nobody: neither the inputs in the queue nor those of
  the running batch are in an offchain transaction, in the database as spent, or spent.\<close>

definition inv_open :: "system \<Rightarrow> bool" where
  "inv_open st \<longleftrightarrow>
     (\<forall>k \<in> queue_keys (sy_board st) \<union> running_keys (sy_loop st).
        k \<notin> os_inputs (sy_offchain st) \<and> k \<notin> sy_spent st \<and> \<not> spent_by_any st k)"

definition inv_running :: "system \<Rightarrow> bool" where
  "inv_running st \<longleftrightarrow>
     (\<forall>round sel. sy_loop st = Running round sel \<longrightarrow> (\<forall>k \<in> sel_keys sel. taken_by st (rd_Id round) k))"

text \<open>A spent input is always refused by something: its row, or the claim of the batch, or the cached
  transaction.\<close>

definition inv_spends :: "system \<Rightarrow> bool" where
  "inv_spends st \<longleftrightarrow>
     (\<forall>r k. (ByBatch r, k) \<in> sy_spends st \<longrightarrow> k \<in> sy_spent st \<or> taken_by st r k) \<and>
     (\<forall>x k. (ByTx x, k) \<in> sy_spends st \<longrightarrow> k \<in> sy_spent st \<or> k \<in> os_inputs (sy_offchain st)) \<and>
     (\<forall>r ks. (r, ks) \<in> sy_batches st \<longrightarrow> (\<forall>k. (ByBatch r, k) \<in> sy_spends st \<longleftrightarrow> k \<in> set ks)) \<and>
     (\<forall>tx ks. (tx, ks) \<in> sy_txs st \<longrightarrow> (\<forall>k \<in> set ks. (ByTx (ot_ArkTxid tx), k) \<in> sy_spends st)) \<and>
     (\<forall>tx ks. (tx, ks) \<in> sy_txs_projected st \<longrightarrow> set ks \<subseteq> sy_spent st \<and> (\<forall>k \<in> set ks. spent_by_any st k))"

fun unfinished :: "loop \<Rightarrow> string option" where
  "unfinished (Collecting round) = Some (rd_Id round)"
| "unfinished (Running round sel) = Some (rd_Id round)"
| "unfinished _ = None"

definition known_rounds :: "system \<Rightarrow> string set" where
  "known_rounds st = dom (inflight (sy_manager st)) \<union> sy_projected st \<union> fst ` sy_batches st"

definition inv_rounds :: "system \<Rightarrow> bool" where
  "inv_rounds st \<longleftrightarrow>
     known_rounds st \<subseteq> sy_rounds st \<and> (\<forall>r k. (ByBatch r, k) \<in> sy_spends st \<longrightarrow> r \<in> sy_rounds st) \<and>
     (\<forall>r. unfinished (sy_loop st) = Some r \<longrightarrow>
        CHR '':'' \<notin> set r \<and> r \<in> sy_rounds st \<and> r \<notin> known_rounds st \<and> unspent_round st r)"

fun to_release :: "loop \<Rightarrow> string set" where
  "to_release (Waiting acc round) = set acc \<union> (if Round_IsEnded round then {} else {rd_Id round})"
| "to_release (Releasing rs round) = set rs \<union> (if Round_IsEnded round then {} else {rd_Id round})"
| "to_release _ = {}"

text \<open>What is about to be released is settled: its spent inputs are marked in the database.\<close>

definition inv_settled :: "system \<Rightarrow> bool" where
  "inv_settled st \<longleftrightarrow>
     manager_ok (sy_manager st) \<and>
     (\<forall>r. inflight (sy_manager st) r = Some True \<or> r \<in> sy_projected st \<or> r \<in> to_release (sy_loop st) \<longrightarrow>
        settled st r)"

definition inv_ids :: "system \<Rightarrow> bool" where
  "inv_ids st \<longleftrightarrow>
     (\<forall>t \<in> ran (bd_queue (sy_board st)). ti_Id t \<in> sy_ids st) \<and>
     (\<forall>k r i. bd_taken (sy_board st) k = Some (r, i) \<longrightarrow> i \<in> sy_ids st)"

text \<open>What a registration or a submission knows after each of its reads.\<close>

fun section_ok :: "system \<Rightarrow> tx_section \<Rightarrow> bool" where
  "section_ok st Unlocked = True"
| "section_ok st (Registering ph intent bs cs) =
     (int_Id intent \<in> sy_ids st \<and>
      (\<forall>t \<in> ran (bd_queue (sy_board st)). ti_Id t \<noteq> int_Id intent) \<and>
      (\<forall>k r. bd_taken (sy_board st) k \<noteq> Some (r, int_Id intent)) \<and>
      (\<forall>k \<in> set (vtxo_keys intent).
         (ph \<noteq> RegLocked \<longrightarrow> k \<notin> os_inputs (sy_offchain st)) \<and>
         (ph = RegDbRead \<longrightarrow> k \<in> sy_spent st \<or> spent_by_any st k \<longrightarrow> (\<exists>v. bd_taken (sy_board st) k = Some v))))"
| "section_ok st (Submitting ph tx ops) =
     (\<forall>k \<in> Outpoint_String ` set ops.
        (ph = SubCacheRead \<or> ph = SubIntentsRead \<or> ph = SubDbRead \<longrightarrow> k \<notin> os_inputs (sy_offchain st)) \<and>
        (ph = SubIntentsRead \<or> ph = SubDbRead \<or> ph = SubAdded \<longrightarrow> k \<notin> bd_claimed (sy_board st)) \<and>
        (ph = SubDbRead \<or> ph = SubAdded \<longrightarrow> k \<notin> sy_spent st \<and> \<not> spent_by_any st k) \<and>
        (ph = SubAdded \<longrightarrow> k \<in> os_inputs (sy_offchain st)))"

definition inv_lock :: "system \<Rightarrow> bool" where
  "inv_lock st \<longleftrightarrow> (releasing (sy_loop st) \<longrightarrow> sy_readers st = 0 \<and> \<not> registering (sy_section st))"

definition spent_once :: "system \<Rightarrow> bool" where
  "spent_once st \<longleftrightarrow> (\<forall>x y k. (x, k) \<in> sy_spends st \<longrightarrow> (y, k) \<in> sy_spends st \<longrightarrow> x = y)"

definition sys_inv :: "system \<Rightarrow> bool" where
  "sys_inv st \<longleftrightarrow>
     store_inv (sy_intents st) \<and> inv_open st \<and> inv_running st \<and> inv_spends st \<and> inv_rounds st \<and>
     inv_settled st \<and> inv_ids st \<and> section_ok st (sy_section st) \<and> inv_lock st \<and> spent_once st"

lemmas sys_inv_defs = sys_inv_def inv_open_def inv_running_def inv_spends_def inv_rounds_def
  inv_settled_def inv_ids_def inv_lock_def spent_once_def spent_by_any_def taken_by_def settled_def
  unspent_round_def known_rounds_def

lemma sys_invD:
  assumes "sys_inv st"
  shows "store_inv (sy_intents st)" and "inv_open st" and "inv_running st" and "inv_spends st"
    and "inv_rounds st" and "inv_settled st" and "inv_ids st" and "section_ok st (sy_section st)"
    and "inv_lock st" and "spent_once st"
  using assms by (auto simp: sys_inv_def)

lemma vtxo_keys_timed: "set (vtxo_keys (ti_Intent t)) \<subseteq> set (timed_keys t)"
  by (auto simp: vtxo_keys_def timed_keys_def inputKeys_def)

lemma init_inv: "CHR '':'' \<notin> set (rd_Id round) \<Longrightarrow> sys_inv (init_system round spent)"
  by (auto simp: sys_inv_defs init_system_def NewIntentStore_inv queue_keys_def abs_board_def
      NewIntentStore_def newBatchSessionManager_def manager_ok_def)
    (use NewIntentStore_inv in \<open>simp add: NewIntentStore_def\<close>)

subsection \<open>Registrations and submissions\<close>

lemma section_ok_frame [simp]:
  "section_ok (st\<lparr>sy_section := sec'\<rparr>) sec = section_ok st sec"
  "section_ok (st\<lparr>sy_readers := n\<rparr>) sec = section_ok st sec"
  "section_ok (st\<lparr>sy_loop := l\<rparr>) sec = section_ok st sec"
  "section_ok (st\<lparr>sy_manager := m\<rparr>) sec = section_ok st sec"
  by (cases sec; simp add: spent_by_any_def)+

lemma set_section:
  assumes "sys_inv st" and "section_ok st sec" and "releasing (sy_loop st) \<Longrightarrow> \<not> registering sec"
  shows "sys_inv (st\<lparr>sy_section := sec\<rparr>)"
  using assms unfolding sys_inv_def
  by (simp add: inv_open_def inv_running_def inv_spends_def inv_rounds_def inv_settled_def inv_ids_def
      inv_lock_def spent_once_def spent_by_any_def taken_by_def settled_def unspent_round_def known_rounds_def)

lemma set_readers:
  assumes "sys_inv st" and "releasing (sy_loop st) \<Longrightarrow> n = 0"
  shows "sys_inv (st\<lparr>sy_readers := n\<rparr>)"
  using assms unfolding sys_inv_def
  by (simp add: inv_open_def inv_running_def inv_spends_def inv_rounds_def inv_settled_def inv_ids_def
      inv_lock_def spent_once_def spent_by_any_def taken_by_def settled_def unspent_round_def known_rounds_def)

lemma set_ids:
  assumes "sys_inv st" and "sy_ids st \<subseteq> ids"
  shows "sys_inv (st\<lparr>sy_ids := ids\<rparr>)"
proof -
  have "section_ok (st\<lparr>sy_ids := ids\<rparr>) sec" if "section_ok st sec" for sec
    using that assms(2) by (cases sec) (auto simp: spent_by_any_def)
  then show ?thesis
    using assms unfolding sys_inv_def
    by (auto simp: inv_open_def inv_running_def inv_spends_def inv_rounds_def inv_settled_def inv_ids_def
      inv_lock_def spent_once_def spent_by_any_def taken_by_def settled_def unspent_round_def known_rounds_def)
qed

lemma reg_lock_inv:
  assumes inv: "sys_inv st" and n: "sy_readers st = Suc n" and fresh: "int_Id intent \<notin> sy_ids st"
  shows "sys_inv (st\<lparr>sy_ids := insert (int_Id intent) (sy_ids st), sy_readers := n,
      sy_section := Registering RegLocked intent bs cs\<rparr>)"
proof -
  let ?st = "st\<lparr>sy_ids := insert (int_Id intent) (sy_ids st)\<rparr>"
  have nr: "\<not> releasing (sy_loop st)" using sys_invD(9) [OF inv] n by (auto simp: inv_lock_def)
  have "sys_inv ?st" using set_ids [OF inv] by blast
  then have "sys_inv (?st\<lparr>sy_readers := n\<rparr>)" by (rule set_readers) (simp add: nr)
  moreover have "section_ok (?st\<lparr>sy_readers := n\<rparr>) (Registering RegLocked intent bs cs)"
    using sys_invD(7) [OF inv] fresh unfolding inv_ids_def by auto
  ultimately show ?thesis by (rule set_section) (simp add: nr)
qed

lemma cache_read_empty:
  "offchain_IncludesAny ops s None = Inr [] \<longleftrightarrow> Outpoint_String ` set ops \<inter> os_inputs s = {}"
  by (simp add: offchain_IncludesAny_def includes_any_empty_iff del: includes_any_filter)

lemma intents_read_empty:
  "intents_IncludesAny ops s None = Inr [] \<longleftrightarrow> Outpoint_String ` set ops \<inter> is_vtxos s = {}"
  by (simp add: intents_IncludesAny_def includes_any_empty_iff del: includes_any_filter)

lemma vtxo_keys_image: "Outpoint_String ` set (map vtxo_Outpoint (int_Inputs intent)) = set (vtxo_keys intent)"
  by (auto simp: vtxo_keys_def)

lemma reg_section_inv:
  assumes inv: "sys_inv st" and sec: "sy_section st = Registering ph intent bs cs"
    and ok: "section_ok st (Registering ph' intent bs cs)"
  shows "sys_inv (st\<lparr>sy_section := Registering ph' intent bs cs\<rparr>)"
  using set_section [OF inv ok] sys_invD(9) [OF inv] sec by (auto simp: inv_lock_def)

lemma reg_cache_inv:
  assumes inv: "sys_inv st" and sec: "sy_section st = Registering RegLocked intent bs cs"
    and read: "offchain_IncludesAny (map vtxo_Outpoint (int_Inputs intent)) (sy_offchain st) None = Inr []"
  shows "sys_inv (st\<lparr>sy_section := Registering RegCacheRead intent bs cs\<rparr>)"
proof (rule reg_section_inv [OF inv sec])
  have "set (vtxo_keys intent) \<inter> os_inputs (sy_offchain st) = {}"
    using read unfolding cache_read_empty vtxo_keys_image .
  then show "section_ok st (Registering RegCacheRead intent bs cs)"
    using sys_invD(8) [OF inv] sec by auto
qed

lemma spent_refused:
  assumes "sys_inv st" and "(x, k) \<in> sy_spends st"
  shows "k \<in> sy_spent st \<or> k \<in> os_inputs (sy_offchain st) \<or> (\<exists>v. bd_taken (sy_board st) k = Some v)"
  using sys_invD(4) [OF assms(1)] assms(2) unfolding inv_spends_def taken_by_def by (cases x) blast+

text \<open>After the rows were read: an input that is spent all the same has its claim, because the claim
  of a batch is the only thing that can refuse it besides its row and the cache.\<close>

lemma reg_db_inv:
  assumes inv: "sys_inv st" and sec: "sy_section st = Registering RegCacheRead intent bs cs"
    and read: "set (vtxo_keys intent) \<inter> sy_spent st = {}"
  shows "sys_inv (st\<lparr>sy_section := Registering RegDbRead intent bs cs\<rparr>)"
proof (rule reg_section_inv [OF inv sec])
  have "\<exists>v. bd_taken (sy_board st) k = Some v" if k: "k \<in> set (vtxo_keys intent)" "spent_by_any st k" for k
  proof -
    obtain x where x: "(x, k) \<in> sy_spends st" using k(2) by (auto simp: spent_by_any_def)
    have "k \<notin> sy_spent st" "k \<notin> os_inputs (sy_offchain st)"
      using k(1) read sys_invD(8) [OF inv] sec by auto
    then show ?thesis using spent_refused [OF inv x] by blast
  qed
  then show "section_ok st (Registering RegDbRead intent bs cs)"
    using sys_invD(8) [OF inv] sec read by auto
qed

lemma sub_section_inv:
  assumes inv: "sys_inv st" and ok: "section_ok st (Submitting ph' tx ops)"
  shows "sys_inv (st\<lparr>sy_section := Submitting ph' tx ops\<rparr>)"
  by (rule set_section [OF inv ok]) simp

lemma sub_cache_inv:
  assumes inv: "sys_inv st" and read: "offchain_IncludesAny ops (sy_offchain st) None = Inr []"
  shows "sys_inv (st\<lparr>sy_section := Submitting SubCacheRead tx ops\<rparr>)"
  using read unfolding cache_read_empty by (intro sub_section_inv [OF inv]) auto

lemma sub_intents_inv:
  assumes inv: "sys_inv st" and sec: "sy_section st = Submitting SubCacheRead tx ops"
    and read: "intents_IncludesAny ops (sy_intents st) None = Inr []"
  shows "sys_inv (st\<lparr>sy_section := Submitting SubIntentsRead tx ops\<rparr>)"
proof (rule sub_section_inv [OF inv])
  have "Outpoint_String ` set ops \<inter> bd_claimed (sy_board st) = {}"
    using read unfolding intents_read_empty bd_claimed_abs [OF sys_invD(1) [OF inv]] .
  then show "section_ok st (Submitting SubIntentsRead tx ops)"
    using sys_invD(8) [OF inv] sec by auto
qed

lemma sub_db_inv:
  assumes inv: "sys_inv st" and sec: "sy_section st = Submitting SubIntentsRead tx ops"
    and read: "Outpoint_String ` set ops \<inter> sy_spent st = {}"
  shows "sys_inv (st\<lparr>sy_section := Submitting SubDbRead tx ops\<rparr>)"
proof (rule sub_section_inv [OF inv])
  have "\<not> spent_by_any st k" if k: "k \<in> Outpoint_String ` set ops" for k
  proof
    assume "spent_by_any st k"
    then obtain x where x: "(x, k) \<in> sy_spends st" by (auto simp: spent_by_any_def)
    have out: "k \<notin> sy_spent st" "k \<notin> os_inputs (sy_offchain st)" "k \<notin> bd_claimed (sy_board st)"
      using k read sys_invD(8) [OF inv] sec by auto
    then show False using spent_refused [OF inv x] by (auto simp: bd_claimed_def)
  qed
  then show "section_ok st (Submitting SubDbRead tx ops)"
    using sys_invD(8) [OF inv] sec read by auto
qed

lemma reg_push_inv:
  assumes inv: "sys_inv st" and sec: "sy_section st = Registering RegDbRead intent bs cs"
    and push: "Push_attempt now intent bs cs (sy_intents st) = Inr s'"
  shows "sys_inv (st\<lparr>sy_section := Unlocked, sy_intents := s'\<rparr>)"
proof -
  define t where "t = \<lparr>ti_Intent = intent, ti_BoardingInputs = bs, ti_Timestamp = now, ti_CosignersPublicKeys = cs\<rparr>"
  have step: "store_step (sy_intents st) (Pushed t) s'"
    unfolding t_def by (rule store_step.push [OF push])
  have known: "ti_Id t \<in> sy_ids st" and fresh: "\<And>k r. bd_taken (sy_board st) k \<noteq> Some (r, ti_Id t)"
    using sys_invD(8) [OF inv] sec by (auto simp: t_def ti_Id_def)
  note eff = ledger.pushed_effect [OF sys_invD(1) [OF inv] step fresh]
  have inv': "store_inv s'" using ledger.refines [OF sys_invD(1) [OF inv] step] by simp
  have new: "k \<notin> os_inputs (sy_offchain st) \<and> k \<notin> sy_spent st \<and> \<not> spent_by_any st k"
    if "k \<in> set (vtxo_keys intent)" for k
  proof -
    have "k \<notin> bd_claimed (sy_board st)"
      using eff(1) vtxo_keys_timed [of t] that by (auto simp: t_def)
    then have "bd_taken (sy_board st) k = None" by (auto simp: bd_claimed_def)
    then show ?thesis using sys_invD(8) [OF inv] sec that by auto
  qed
  have queue: "queue_keys (abs_board s') = queue_keys (sy_board st) \<union> set (vtxo_keys intent)"
    using eff(2) by (auto simp: queue_keys_def t_def)
  have "inv_open (st\<lparr>sy_section := Unlocked, sy_intents := s'\<rparr>)"
    using sys_invD(2) [OF inv] new by (auto simp: inv_open_def queue spent_by_any_def)
  moreover have "inv_ids (st\<lparr>sy_section := Unlocked, sy_intents := s'\<rparr>)"
    using sys_invD(7) [OF inv] known by (auto simp: inv_ids_def eff(2,3))
  ultimately show ?thesis
    using sys_invD [OF inv] inv' unfolding sys_inv_def
    by (simp add: inv_running_def inv_spends_def inv_rounds_def inv_settled_def
      inv_lock_def spent_once_def spent_by_any_def taken_by_def settled_def unspent_round_def
      known_rounds_def eff(3))
qed

text \<open>A submission that adds its transaction: none of its inputs can be spent any more.\<close>

lemma queue_claimed: "queue_keys b \<subseteq> bd_claimed b"
  using vtxo_keys_timed by (fastforce simp: queue_keys_def bd_claimed_def)

lemma running_claimed: "sys_inv st \<Longrightarrow> running_keys (sy_loop st) \<subseteq> bd_claimed (sy_board st)"
  using sys_invD(3) [of st] by (cases "sy_loop st") (auto simp: inv_running_def taken_by_def bd_claimed_def)

lemma sub_add_inv:
  assumes inv: "sys_inv st" and sec: "sy_section st = Submitting SubDbRead tx ops"
    and add: "Add_attempt tx (map Outpoint_String ops) (sy_offchain st) = Inr o'"
  shows "sys_inv (st\<lparr>sy_section := Submitting SubAdded tx ops, sy_offchain := o'\<rparr>)"
proof -
  have o': "os_inputs o' = os_inputs (sy_offchain st) \<union> Outpoint_String ` set ops"
    using add by (auto simp: Add_attempt_eq_Inr)
  have free: "k \<notin> bd_claimed (sy_board st)" if "k \<in> Outpoint_String ` set ops" for k
    using sys_invD(8) [OF inv] sec that by auto
  have "inv_open (st\<lparr>sy_section := Submitting SubAdded tx ops, sy_offchain := o'\<rparr>)"
    using sys_invD(2) [OF inv] free queue_claimed [of "sy_board st"] running_claimed [OF inv]
    unfolding inv_open_def by (auto simp: o' spent_by_any_def)
  moreover have "section_ok (st\<lparr>sy_section := Submitting SubAdded tx ops, sy_offchain := o'\<rparr>) (Submitting SubAdded tx ops)"
    using sys_invD(8) [OF inv] sec by (auto simp: o' spent_by_any_def)
  moreover have "inv_spends (st\<lparr>sy_section := Submitting SubAdded tx ops, sy_offchain := o'\<rparr>)"
    using sys_invD(4) [OF inv] unfolding inv_spends_def by (auto simp: o' spent_by_any_def taken_by_def)
  ultimately show ?thesis
    using sys_invD [OF inv] unfolding sys_inv_def
    by (simp add: inv_running_def inv_rounds_def inv_settled_def inv_ids_def
      inv_lock_def spent_once_def taken_by_def settled_def unspent_round_def known_rounds_def)
qed

lemma sub_commit_inv:
  assumes inv: "sys_inv st" and sec: "sy_section st = Submitting SubAdded tx ops"
  shows "sys_inv (st\<lparr>sy_section := Unlocked, sy_txs := insert (tx, map Outpoint_String ops) (sy_txs st),
      sy_spends := sy_spends st \<union> Pair (ByTx (ot_ArkTxid tx)) ` Outpoint_String ` set ops\<rparr>)"
    (is "sys_inv ?st'")
proof -
  have K: "k \<notin> bd_claimed (sy_board st) \<and> \<not> spent_by_any st k \<and> k \<in> os_inputs (sy_offchain st)"
    if "k \<in> Outpoint_String ` set ops" for k
    using sys_invD(8) [OF inv] sec that by auto
  have any: "spent_by_any ?st' k \<longleftrightarrow> spent_by_any st k \<or> k \<in> Outpoint_String ` set ops" for k
    by (auto simp: spent_by_any_def)
  have batch: "(ByBatch r, k) \<in> sy_spends ?st' \<longleftrightarrow> (ByBatch r, k) \<in> sy_spends st" for r k by auto
  have "inv_open ?st'"
    using sys_invD(2) [OF inv] K queue_claimed [of "sy_board st"] running_claimed [OF inv]
    unfolding inv_open_def any by auto
  moreover have "spent_once ?st'"
    using sys_invD(10) [OF inv] K unfolding spent_once_def by (auto simp: spent_by_any_def)
  moreover have "inv_spends ?st'"
    using sys_invD(4) [OF inv] K unfolding inv_spends_def any batch
    by (auto simp: taken_by_def)
  moreover have "inv_rounds ?st' \<and> inv_settled ?st'"
    using sys_invD(5,6) [OF inv]
    unfolding inv_rounds_def inv_settled_def settled_def unspent_round_def known_rounds_def batch
    by simp
  ultimately show ?thesis
    using sys_invD [OF inv] unfolding sys_inv_def
    by (simp add: inv_running_def inv_ids_def inv_lock_def taken_by_def)
qed

subsection \<open>Projections\<close>

lemma shrink_offchain_inv:
  assumes inv: "sys_inv st" and o': "os_inputs o' = os_inputs (sy_offchain st) - R"
    and marked: "\<And>k. k \<in> R \<Longrightarrow> spent_by_any st k \<Longrightarrow> k \<in> sy_spent st"
    and other: "\<And>tx ops. sy_section st = Submitting SubAdded tx ops \<Longrightarrow> R \<inter> Outpoint_String ` set ops = {}"
  shows "sys_inv (st\<lparr>sy_offchain := o'\<rparr>)"
proof -
  have any: "spent_by_any (st\<lparr>sy_offchain := o'\<rparr>) k = spent_by_any st k" for k
    by (simp add: spent_by_any_def)
  have "inv_open (st\<lparr>sy_offchain := o'\<rparr>)"
    using sys_invD(2) [OF inv] by (auto simp: inv_open_def o' any)
  moreover have "inv_spends (st\<lparr>sy_offchain := o'\<rparr>)"
    using sys_invD(4) [OF inv] marked unfolding inv_spends_def any
    by (auto simp: o' taken_by_def spent_by_any_def)
  moreover have "section_ok (st\<lparr>sy_offchain := o'\<rparr>) (sy_section st)"
  proof (cases "sy_section st")
    case (Submitting ph tx ops)
    then show ?thesis using sys_invD(8) [OF inv] other [of tx ops] by (cases ph) (auto simp: o' any)
  qed (use sys_invD(8) [OF inv] in \<open>auto simp: o' any\<close>)
  ultimately show ?thesis
    using sys_invD [OF inv] unfolding sys_inv_def
    by (simp add: inv_running_def inv_rounds_def inv_settled_def inv_ids_def
      inv_lock_def spent_once_def taken_by_def settled_def unspent_round_def known_rounds_def)
qed

lemma os_inputs_remove_tx [simp]: "os_inputs (remove_tx tx ks s) = os_inputs s - set ks"
  by (simp add: remove_tx_def Remove_attempt_def)

lemma sub_rollback_inv:
  assumes inv: "sys_inv st" and sec: "sy_section st = Submitting SubAdded tx ops"
  shows "sys_inv (st\<lparr>sy_section := Unlocked, sy_offchain := remove_tx tx (map Outpoint_String ops) (sy_offchain st)\<rparr>)"
proof (rule shrink_offchain_inv [where R = "Outpoint_String ` set ops"])
  show "sys_inv (st\<lparr>sy_section := Unlocked\<rparr>)" by (rule set_section [OF inv]) simp_all
  show "k \<in> sy_spent (st\<lparr>sy_section := Unlocked\<rparr>)"
    if "k \<in> Outpoint_String ` set ops" "spent_by_any (st\<lparr>sy_section := Unlocked\<rparr>) k" for k
    using sys_invD(8) [OF inv] sec that by (auto simp: spent_by_any_def)
qed simp_all

lemma mark_spent_inv:
  assumes inv: "sys_inv st" and S: "\<And>k. k \<in> S \<Longrightarrow> spent_by_any st k"
  shows "sys_inv (st\<lparr>sy_spent := sy_spent st \<union> S\<rparr>)"
proof -
  let ?st = "st\<lparr>sy_spent := sy_spent st \<union> S\<rparr>"
  have any: "spent_by_any ?st k = spent_by_any st k" for k by (simp add: spent_by_any_def)
  have "inv_open ?st" using sys_invD(2) [OF inv] S unfolding inv_open_def any by auto
  moreover have "inv_spends ?st"
    using sys_invD(4) [OF inv] unfolding inv_spends_def any by (simp add: taken_by_def) blast
  moreover have "section_ok ?st (sy_section st)"
  proof (cases "sy_section st")
    case (Submitting ph tx ops)
    then show ?thesis using sys_invD(8) [OF inv] S by (cases ph) (auto simp: any)
  qed (use sys_invD(8) [OF inv] S in \<open>auto simp: any\<close>)
  moreover have "inv_settled ?st"
    using sys_invD(6) [OF inv] unfolding inv_settled_def settled_def by auto
  ultimately show ?thesis
    using sys_invD [OF inv] unfolding sys_inv_def
    by (simp add: inv_running_def inv_rounds_def inv_ids_def
      inv_lock_def spent_once_def taken_by_def unspent_round_def known_rounds_def)
qed

lemma tx_project_inv:
  assumes inv: "sys_inv st" and tx: "(tx, ks) \<in> sy_txs st"
  shows "sys_inv (st\<lparr>sy_spent := sy_spent st \<union> set ks, sy_txs_projected := insert (tx, ks) (sy_txs_projected st)\<rparr>)"
proof -
  have any: "spent_by_any st k" if "k \<in> set ks" for k
    using sys_invD(4) [OF inv] tx that unfolding inv_spends_def spent_by_any_def by blast
  have inv': "sys_inv (st\<lparr>sy_spent := sy_spent st \<union> set ks\<rparr>)" by (rule mark_spent_inv [OF inv any])
  let ?st = "st\<lparr>sy_spent := sy_spent st \<union> set ks, sy_txs_projected := insert (tx, ks) (sy_txs_projected st)\<rparr>"
  have "inv_spends ?st"
    using sys_invD(4) [OF inv'] any unfolding inv_spends_def
    by (auto simp: taken_by_def spent_by_any_def)
  moreover have "section_ok ?st sec = section_ok (st\<lparr>sy_spent := sy_spent st \<union> set ks\<rparr>) sec" for sec
    by (cases sec) (simp_all add: spent_by_any_def)
  ultimately show ?thesis
    using sys_invD [OF inv'] unfolding sys_inv_def
    by (simp add: inv_open_def inv_running_def inv_rounds_def inv_ids_def inv_settled_def settled_def
      inv_lock_def spent_once_def taken_by_def unspent_round_def known_rounds_def spent_by_any_def)
qed

lemma tx_remove_inv:
  assumes inv: "sys_inv st" and tx: "(tx, ks) \<in> sy_txs_projected st"
  shows "sys_inv (st\<lparr>sy_offchain := remove_tx tx ks (sy_offchain st)\<rparr>)"
proof (rule shrink_offchain_inv [OF inv os_inputs_remove_tx])
  have ks: "set ks \<subseteq> sy_spent st"
    using sys_invD(4) [OF inv] tx unfolding inv_spends_def by blast
  then show "k \<in> sy_spent st" if "k \<in> set ks" for k using that by blast
  show "set ks \<inter> Outpoint_String ` set ops = {}" if "sy_section st = Submitting SubAdded tx' ops" for tx' ops
    using sys_invD(8) [OF inv] that ks by auto
qed

lemma batch_project_inv:
  assumes inv: "sys_inv st" and batch: "(r, ks) \<in> sy_batches st"
  shows "sys_inv (st\<lparr>sy_spent := sy_spent st \<union> set ks, sy_projected := insert r (sy_projected st)\<rparr>)"
proof -
  have K: "(ByBatch r, k) \<in> sy_spends st \<longleftrightarrow> k \<in> set ks" for k
    using sys_invD(4) [OF inv] batch unfolding inv_spends_def by blast
  then have any: "spent_by_any st k" if "k \<in> set ks" for k
    using that unfolding spent_by_any_def by blast
  have inv': "sys_inv (st\<lparr>sy_spent := sy_spent st \<union> set ks\<rparr>)" by (rule mark_spent_inv [OF inv any])
  let ?st = "st\<lparr>sy_spent := sy_spent st \<union> set ks, sy_projected := insert r (sy_projected st)\<rparr>"
  have "r \<in> fst ` sy_batches st" using batch by force
  then have "known_rounds ?st = known_rounds st" by (auto simp: known_rounds_def)
  then have "inv_rounds ?st" using sys_invD(5) [OF inv] by (simp add: inv_rounds_def unspent_round_def)
  moreover have "inv_settled ?st"
    using sys_invD(6) [OF inv'] K unfolding inv_settled_def settled_def by auto
  moreover have "section_ok ?st sec = section_ok (st\<lparr>sy_spent := sy_spent st \<union> set ks\<rparr>) sec" for sec
    by (cases sec) (simp_all add: spent_by_any_def)
  ultimately show ?thesis
    using sys_invD [OF inv'] unfolding sys_inv_def
    by (simp add: inv_open_def inv_running_def inv_spends_def inv_ids_def
      inv_lock_def spent_once_def taken_by_def spent_by_any_def)
qed

lemma set_manager:
  assumes inv: "sys_inv st" and "manager_ok m"
    and dom: "dom (inflight m) \<subseteq> dom (inflight (sy_manager st))"
    and true: "\<And>r. inflight m r = Some True \<Longrightarrow> settled st r"
  shows "sys_inv (st\<lparr>sy_manager := m\<rparr>)"
proof -
  have "known_rounds (st\<lparr>sy_manager := m\<rparr>) \<subseteq> known_rounds st"
    using dom by (auto simp: known_rounds_def)
  then have "inv_rounds (st\<lparr>sy_manager := m\<rparr>)"
    using sys_invD(5) [OF inv] unfolding inv_rounds_def by (simp add: unspent_round_def) blast
  moreover have "inv_settled (st\<lparr>sy_manager := m\<rparr>)"
    using sys_invD(6) [OF inv] true assms(2) unfolding inv_settled_def settled_def by auto
  ultimately show ?thesis
    using sys_invD [OF inv] unfolding sys_inv_def
    by (simp add: inv_open_def inv_running_def inv_spends_def inv_ids_def
      inv_lock_def spent_once_def taken_by_def spent_by_any_def)
qed

lemma batch_mark_inv:
  assumes inv: "sys_inv st" and r: "r \<in> sy_projected st"
  shows "sys_inv (st\<lparr>sy_manager := markProjected r (sy_manager st)\<rparr>)"
proof (rule set_manager [OF inv])
  have ok: "manager_ok (sy_manager st)"
    and settled: "\<And>q. inflight (sy_manager st) q = Some True \<or> q \<in> sy_projected st \<Longrightarrow> settled st q"
    using sys_invD(6) [OF inv] by (auto simp: inv_settled_def)
  show "manager_ok (markProjected r (sy_manager st))" by (rule markProjected_ok [OF ok])
  show "dom (inflight (markProjected r (sy_manager st))) \<subseteq> dom (inflight (sy_manager st))"
    by (auto simp: inflight_mark dom_def split: if_splits)
  show "settled st q" if "inflight (markProjected r (sy_manager st)) q = Some True" for q
    using that r settled [of q] by (auto simp: inflight_mark split: if_splits)
qed

subsection \<open>The round loop\<close>

text \<open>Moving the loop without running a batch: what it is to release stays settled.\<close>

lemma set_loop:
  assumes inv: "sys_inv st" and "running_keys l = {}" and "unfinished l = None"
    and rel: "\<And>r. r \<in> to_release l \<Longrightarrow> settled st r"
    and lock: "releasing l \<Longrightarrow> sy_readers st = 0 \<and> \<not> registering (sy_section st)"
  shows "sys_inv (st\<lparr>sy_loop := l\<rparr>)"
proof -
  have "inv_open (st\<lparr>sy_loop := l\<rparr>)"
    using sys_invD(2) [OF inv] assms(2) by (simp add: inv_open_def spent_by_any_def)
  moreover have "inv_running (st\<lparr>sy_loop := l\<rparr>)"
    using assms(3) by (auto simp: inv_running_def)
  moreover have "inv_rounds (st\<lparr>sy_loop := l\<rparr>)"
    using sys_invD(5) [OF inv] assms(3) by (simp add: inv_rounds_def known_rounds_def)
  moreover have "inv_settled (st\<lparr>sy_loop := l\<rparr>)"
    using sys_invD(6) [OF inv] rel by (auto simp: inv_settled_def settled_def)
  ultimately show ?thesis
    using sys_invD [OF inv] lock unfolding sys_inv_def
    by (simp add: inv_spends_def inv_ids_def inv_lock_def spent_once_def taken_by_def spent_by_any_def)
qed

lemma settledI: "sys_inv st \<Longrightarrow> r \<in> to_release (sy_loop st) \<Longrightarrow> settled st r"
  using sys_invD(6) [of st] by (auto simp: inv_settled_def)

lemma loop_fail_inv:
  assumes inv: "sys_inv st" and loop: "sy_loop st = Collecting round \<or> sy_loop st = Running round sel"
    and "rd_Id round' = rd_Id round" and "\<not> Round_IsEnded round'"
  shows "sys_inv (st\<lparr>sy_loop := Waiting [] round'\<rparr>)"
proof (rule set_loop [OF inv])
  have "unfinished (sy_loop st) = Some (rd_Id round')" using loop assms(3) by auto
  then have "unspent_round st (rd_Id round')" using sys_invD(5) [OF inv] unfolding inv_rounds_def by blast
  then show "settled st r" if "r \<in> to_release (Waiting [] round')" for r
    using that assms(4) by (auto simp: settled_def unspent_round_def)
qed simp_all

lemma loop_forget_inv:
  assumes inv: "sys_inv st" and loop: "sy_loop st = Waiting acc round"
    and forget: "forgetProjected (sy_manager st) = (ds, pending, m')"
  shows "sys_inv (st\<lparr>sy_loop := Waiting (acc @ ds) round, sy_manager := m'\<rparr>)"
proof -
  have ok: "manager_ok (sy_manager st)"
    and settled: "\<And>q. inflight (sy_manager st) q = Some True \<Longrightarrow> settled st q"
    using sys_invD(6) [OF inv] by (auto simp: inv_settled_def)
  note facts = forgetProjected_map [OF ok forget]
  have "sys_inv (st\<lparr>sy_loop := Waiting (acc @ ds) round\<rparr>)"
  proof (rule set_loop [OF inv])
    show "settled st r" if "r \<in> to_release (Waiting (acc @ ds) round)" for r
      using that settled [of r] settledI [OF inv, of r] loop facts(1) by (auto split: if_splits)
  qed simp_all
  then show ?thesis
  proof (rule set_manager)
    show "dom (inflight m') \<subseteq> dom (inflight (sy_manager (st\<lparr>sy_loop := Waiting (acc @ ds) round\<rparr>)))"
      using facts(3) by (auto simp: dom_def split: if_splits)
    show "settled (st\<lparr>sy_loop := Waiting (acc @ ds) round\<rparr>) r" if "inflight m' r = Some True" for r
      using that facts(3) by (simp split: if_splits)
  qed (rule facts(4))
qed

lemma loop_hold_inv:
  assumes inv: "sys_inv st" and loop: "sy_loop st = Waiting acc round"
    and "sy_readers st = 0" and "\<not> registering (sy_section st)"
  shows "sys_inv (st\<lparr>sy_loop := Releasing (acc @ (if Round_IsEnded round then [] else [rd_Id round])) round\<rparr>)"
proof (rule set_loop [OF inv])
  show "settled st r"
    if "r \<in> to_release (Releasing (acc @ (if Round_IsEnded round then [] else [rd_Id round])) round)" for r
    using that settledI [OF inv, of r] loop by (auto split: if_splits)
qed (use assms in simp_all)

lemma loop_skip_inv:
  assumes inv: "sys_inv st" and loop: "sy_loop st = Releasing (r # rs) round"
  shows "sys_inv (st\<lparr>sy_loop := Releasing rs round\<rparr>)"
proof (rule set_loop [OF inv])
  show "settled st q" if "q \<in> to_release (Releasing rs round)" for q
    using that settledI [OF inv, of q] loop by (auto split: if_splits)
qed (use sys_invD(9) [OF inv] loop in \<open>auto simp: inv_lock_def\<close>)

lemma loop_denied_inv:
  assumes inv: "sys_inv st" and loop: "sy_loop st = Releasing [] round"
  shows "sys_inv (st\<lparr>sy_loop := Waiting [] round\<rparr>)"
proof (rule set_loop [OF inv])
  show "settled st q" if "q \<in> to_release (Waiting [] round)" for q
    using that settledI [OF inv, of q] loop by (auto split: if_splits)
qed simp_all

text \<open>Releasing the claims of a settled batch while no registration is in flight.\<close>

lemma release_inv:
  assumes inv: "sys_inv st" and r: "settled st r" and nr: "\<not> registering (sy_section st)"
    and rel: "DeleteVtxos_attempt r (sy_intents st) = Inr s'" and run: "running_keys (sy_loop st) = {}"
    "unfinished (sy_loop st) = None"
  shows "sys_inv (st\<lparr>sy_intents := s'\<rparr>)"
proof -
  have step: "store_step (sy_intents st) (Released r) s'" by (rule store_step.release [OF rel])
  note eff = ledger.released_effect [OF sys_invD(1) [OF inv] step]
  have inv': "store_inv s'" using ledger.refines [OF sys_invD(1) [OF inv] step] by simp
  let ?st = "st\<lparr>sy_intents := s'\<rparr>"
  have kept: "taken_by ?st q k" if "taken_by st q k" "q \<noteq> r" for q k
    using that by (auto simp: taken_by_def eff(2))
  have claimed: "bd_claimed (abs_board s') \<subseteq> bd_claimed (sy_board st)"
    using eff by (auto simp: bd_claimed_def)
  have "inv_open ?st"
    using sys_invD(2) [OF inv] by (simp add: inv_open_def queue_keys_def eff(1) spent_by_any_def)
  moreover have "inv_running ?st" using run(2) by (auto simp: inv_running_def)
  moreover have "inv_spends ?st"
    using sys_invD(4) [OF inv] r kept unfolding inv_spends_def settled_def
    by (simp add: spent_by_any_def) blast
  moreover have "inv_ids ?st"
    using sys_invD(7) [OF inv] by (auto simp: inv_ids_def eff)
  moreover have "section_ok ?st (sy_section st)"
  proof (cases "sy_section st")
    case (Submitting ph tx ops)
    then show ?thesis
      using sys_invD(8) [OF inv] claimed by (cases ph) (auto simp: spent_by_any_def)
  qed (use nr in auto)
  ultimately show ?thesis
    using sys_invD [OF inv] inv' unfolding sys_inv_def
    by (simp add: inv_rounds_def inv_settled_def inv_lock_def spent_once_def settled_def
      unspent_round_def known_rounds_def)
qed

lemma loop_release_inv:
  assumes inv: "sys_inv st" and loop: "sy_loop st = Releasing (r # rs) round"
    and rel: "DeleteVtxos_attempt r (sy_intents st) = Inr s'"
  shows "sys_inv (st\<lparr>sy_loop := Releasing rs round, sy_intents := s'\<rparr>)"
proof (rule release_inv [OF loop_skip_inv [OF inv loop], of r])
  show "settled (st\<lparr>sy_loop := Releasing rs round\<rparr>) r"
    using settledI [OF inv, of r] loop by (simp add: settled_def)
  show "\<not> registering (sy_section (st\<lparr>sy_loop := Releasing rs round\<rparr>))"
    using sys_invD(9) [OF inv] loop by (simp add: inv_lock_def)
qed (use rel in simp_all)

lemma loop_start_inv:
  assumes inv: "sys_inv st" and loop: "sy_loop st = Releasing [] round"
    and fresh: "rd_Id round' \<notin> sy_rounds st" and colon: "CHR '':'' \<notin> set (rd_Id round')"
  shows "sys_inv (st\<lparr>sy_loop := Collecting round', sy_rounds := insert (rd_Id round') (sy_rounds st)\<rparr>)"
proof -
  let ?st = "st\<lparr>sy_loop := Collecting round', sy_rounds := insert (rd_Id round') (sy_rounds st)\<rparr>"
  have known: "known_rounds ?st = known_rounds st" by (simp add: known_rounds_def)
  have "inv_rounds ?st"
    using sys_invD(5) [OF inv] fresh colon unfolding inv_rounds_def known
    by (auto simp: unspent_round_def)
  moreover have "inv_settled ?st"
    using sys_invD(6) [OF inv] by (auto simp: inv_settled_def settled_def)
  moreover have "section_ok ?st sec = section_ok st sec" for sec
    by (cases sec) (simp_all add: spent_by_any_def)
  ultimately show ?thesis
    using sys_invD [OF inv] loop unfolding sys_inv_def
    by (simp add: inv_open_def inv_running_def inv_spends_def inv_ids_def inv_lock_def spent_once_def
      taken_by_def spent_by_any_def)
qed

lemma loop_pop_inv:
  assumes inv: "sys_inv st" and loop: "sy_loop st = Collecting round"
    and order: "set order = is_ids (sy_intents st)" "distinct order"
    and pop: "Pop_attempt num (rd_Id round) order (sy_intents st) = Inr (sel, s')"
  shows "sys_inv (st\<lparr>sy_loop := Running round sel, sy_intents := s'\<rparr>)"
proof -
  let ?st = "st\<lparr>sy_loop := Running round sel, sy_intents := s'\<rparr>"
  have "unfinished (sy_loop st) = Some (rd_Id round)" using loop by simp
  then have colon: "CHR '':'' \<notin> set (rd_Id round)"
    using sys_invD(5) [OF inv] unfolding inv_rounds_def by blast
  have step: "store_step (sy_intents st) (Popped num (rd_Id round) sel) s'"
    by (rule store_step.pop [OF order colon pop])
  note eff = ledger.popped_effect [OF sys_invD(1) [OF inv] step]
  have inv': "store_inv s'" using ledger.refines [OF sys_invD(1) [OF inv] step] by simp
  have "is_vtxos s' = is_vtxos (sy_intents st)" using pop by (auto simp: Pop_attempt_eq popped_def)
  then have claimed: "bd_claimed (abs_board s') = bd_claimed (sy_board st)"
    using bd_claimed_abs [OF inv'] bd_claimed_abs [OF sys_invD(1) [OF inv]] by simp
  have sel: "sel_keys sel \<subseteq> queue_keys (sy_board st)" "queue_keys (abs_board s') \<subseteq> queue_keys (sy_board st)"
    using eff(1,2) by (auto simp: sel_keys_def queue_keys_def)
  have ids: "i \<in> sy_ids st" if "i \<in> ti_Id ` set sel" for i
    using that sys_invD(7) [OF inv] eff(1) by (auto simp: inv_ids_def)
  have kept: "taken_by st r k \<Longrightarrow> taken_by ?st r k" for r k
    using eff(4) by (auto simp: taken_by_def)
  have "inv_open ?st"
    using sys_invD(2) [OF inv] sel by (auto simp: inv_open_def spent_by_any_def)
  moreover have "inv_running ?st"
    using eff(3) vtxo_keys_timed by (fastforce simp: inv_running_def sel_keys_def taken_by_def)
  moreover have "inv_spends ?st"
    using sys_invD(4) [OF inv] kept unfolding inv_spends_def by (simp add: spent_by_any_def) blast
  moreover have "inv_ids ?st"
    using sys_invD(7) [OF inv] eff(2) eff(5) [of _ "(_, _)"] ids unfolding inv_ids_def by fastforce
  moreover have "section_ok ?st (sy_section st)"
  proof (cases "sy_section st")
    case (Registering ph intent bs cs)
    have "\<forall>t \<in> ran (bd_queue (sy_board st)). ti_Id t \<noteq> int_Id intent"
      using sys_invD(8) [OF inv] Registering by simp
    then have "int_Id intent \<notin> ti_Id ` set sel" using eff(1) by (metis imageE subsetD)
    then have "bd_taken (abs_board s') k \<noteq> Some (r, int_Id intent)" for k r
      using sys_invD(8) [OF inv] Registering eff(5) [of k "(r, int_Id intent)"] by auto
    then show ?thesis
      using sys_invD(8) [OF inv] Registering eff(2,4) by (auto simp: spent_by_any_def)
  qed (use sys_invD(8) [OF inv] claimed in \<open>auto simp: spent_by_any_def\<close>)
  moreover have "inv_rounds ?st"
    using sys_invD(5) [OF inv] loop by (simp add: inv_rounds_def unspent_round_def known_rounds_def)
  moreover have "inv_settled ?st"
    using sys_invD(6) [OF inv] by (auto simp: inv_settled_def settled_def)
  ultimately show ?thesis
    using sys_invD [OF inv] inv' unfolding sys_inv_def by (simp add: inv_lock_def spent_once_def)
qed

lemma intent_delete_inv:
  assumes inv: "sys_inv st" and del: "Delete_attempt i (sy_intents st) = Inr s'"
  shows "sys_inv (st\<lparr>sy_intents := s'\<rparr>)"
proof -
  let ?st = "st\<lparr>sy_intents := s'\<rparr>"
  have step: "store_step (sy_intents st) (Deleted i) s'" by (rule store_step.delete [OF del])
  note eff = ledger.deleted_effect [OF sys_invD(1) [OF inv] step]
  have inv': "store_inv s'" using ledger.refines [OF sys_invD(1) [OF inv] step] by simp
  have claimed: "bd_claimed (abs_board s') \<subseteq> bd_claimed (sy_board st)"
    using eff by (auto simp: bd_claimed_def)
  have "queue_keys (abs_board s') \<subseteq> queue_keys (sy_board st)"
    using eff(1) by (auto simp: queue_keys_def)
  then have "inv_open ?st"
    using sys_invD(2) [OF inv] by (auto simp: inv_open_def spent_by_any_def)
  moreover have "inv_ids ?st"
    using sys_invD(7) [OF inv] eff by (auto simp: inv_ids_def)
  moreover have "section_ok ?st (sy_section st)"
  proof (cases "sy_section st")
    case (Submitting ph tx ops)
    then show ?thesis using sys_invD(8) [OF inv] claimed by (cases ph) (auto simp: spent_by_any_def)
  qed (use sys_invD(8) [OF inv] eff in \<open>auto simp: spent_by_any_def\<close>)
  ultimately show ?thesis
    using sys_invD [OF inv] inv' unfolding sys_inv_def
    by (simp add: inv_running_def inv_spends_def inv_rounds_def inv_settled_def inv_lock_def spent_once_def
      settled_def unspent_round_def known_rounds_def taken_by_def spent_by_any_def eff(2))
qed

text \<open>A batch ends: what it spends was open and is in nobody else's hands, and it keeps its claims.\<close>

lemma loop_end_inv:
  assumes inv: "sys_inv st" and loop: "sy_loop st = Running round sel"
    and id: "rd_Id round' = rd_Id round" and ended: "Round_IsEnded round'"
    and ks: "set ks \<subseteq> sel_keys sel"
  shows "sys_inv (st\<lparr>sy_loop := Waiting [] round', sy_manager := track (Some round') (sy_manager st),
      sy_batches := (if saved then insert (rd_Id round', ks) (sy_batches st) else sy_batches st),
      sy_spends := sy_spends st \<union> Pair (ByBatch (rd_Id round')) ` set ks\<rparr>)" (is "sys_inv ?st")
proof -
  let ?r = "rd_Id round'"
  have "unfinished (sy_loop st) = Some ?r" using loop id by simp
  then have r: "?r \<in> sy_rounds st" "?r \<notin> known_rounds st" "unspent_round st ?r"
    using sys_invD(5) [OF inv] unfolding inv_rounds_def by blast+
  have taken: "taken_by st ?r k" if "k \<in> set ks" for k
    using sys_invD(3) [OF inv] loop ks id that by (auto simp: inv_running_def)
  have open': "k \<notin> os_inputs (sy_offchain st) \<and> k \<notin> sy_spent st \<and> \<not> spent_by_any st k" if "k \<in> set ks" for k
    using sys_invD(2) [OF inv] loop ks that by (auto simp: inv_open_def)
  have any: "spent_by_any ?st k \<longleftrightarrow> spent_by_any st k \<or> k \<in> set ks" for k
    by (auto simp: spent_by_any_def)
  have same: "taken_by ?st q k = taken_by st q k" for q k by (simp add: taken_by_def)
  have other: "(ByBatch q, k) \<in> sy_spends ?st \<longleftrightarrow> (ByBatch q, k) \<in> sy_spends st" if "q \<noteq> ?r" for q k
    using that by auto
  have mine: "(ByBatch ?r, k) \<in> sy_spends ?st \<longleftrightarrow> k \<in> set ks" for k
    using r(3) by (auto simp: unspent_round_def)
  have apart: "k \<notin> queue_keys (sy_board st)" if k: "k \<in> set ks" for k
  proof
    assume "k \<in> queue_keys (sy_board st)"
    then obtain i t where t: "bd_queue (sy_board st) i = Some t" "k \<in> set (timed_keys t)"
      using vtxo_keys_timed by (fastforce simp: queue_keys_def ran_def)
    then show False
      using ledger.view_ok [OF sys_invD(1) [OF inv]] taken [OF k]
      unfolding board_ok_def taken_by_def by blast
  qed
  have claimed: "k \<in> bd_claimed (sy_board st)" if "k \<in> set ks" for k
    using taken [OF that] by (auto simp: taken_by_def bd_claimed_def)
  have "inv_open ?st"
    using sys_invD(2) [OF inv] apart unfolding inv_open_def any by auto
  moreover have "inv_spends ?st"
  proof -
    have "(q, ls) \<in> sy_batches st \<Longrightarrow> q \<noteq> ?r" for q ls
      using r(2) by (force simp: known_rounds_def)
    then have "\<forall>q ls. (q, ls) \<in> sy_batches ?st \<longrightarrow> (\<forall>k. (ByBatch q, k) \<in> sy_spends ?st \<longleftrightarrow> k \<in> set ls)"
      using sys_invD(4) [OF inv] mine other unfolding inv_spends_def by (auto split: if_splits)
    moreover have "\<forall>q k. (ByBatch q, k) \<in> sy_spends ?st \<longrightarrow> k \<in> sy_spent ?st \<or> taken_by ?st q k"
      using sys_invD(4) [OF inv] taken unfolding inv_spends_def same by auto
    ultimately show ?thesis
      using sys_invD(4) [OF inv] unfolding inv_spends_def any by auto
  qed
  moreover have "known_rounds ?st \<subseteq> insert ?r (known_rounds st)"
    by (auto simp: known_rounds_def inflight_track split: if_splits)
  then have "inv_rounds ?st"
    using sys_invD(5) [OF inv] r(1) unfolding inv_rounds_def by auto
  moreover have "inv_settled ?st"
  proof -
    have q: "q \<noteq> ?r" if "inflight (sy_manager st) q = Some True \<or> q \<in> sy_projected st" for q
      using that r(2) by (auto simp: known_rounds_def)
    have "settled ?st q" if "inflight (sy_manager ?st) q = Some True \<or> q \<in> sy_projected st" for q
    proof -
      have "inflight (sy_manager st) q = Some True \<or> q \<in> sy_projected st"
        using that by (auto simp: inflight_track split: if_splits)
      with q [OF this] show ?thesis
        using sys_invD(6) [OF inv] other [of q] unfolding inv_settled_def settled_def by auto
    qed
    then show ?thesis
      using sys_invD(6) [OF inv] ended track_ok unfolding inv_settled_def by auto
  qed
  moreover have "section_ok ?st (sy_section st)"
  proof (cases "sy_section st")
    case (Registering ph intent bs cs)
    have "\<exists>v. bd_taken (sy_board st) k = Some v" if "k \<in> set ks" for k
      using taken [OF that] by (auto simp: taken_by_def)
    then show ?thesis using sys_invD(8) [OF inv] Registering by (auto simp: any)
  next
    case (Submitting ph tx ops)
    have "k \<notin> set ks" if "k \<notin> bd_claimed (sy_board st)" for k using claimed that by blast
    then show ?thesis using sys_invD(8) [OF inv] Submitting by (cases ph) (auto simp: any)
  qed simp
  moreover have "spent_once ?st"
    using sys_invD(10) [OF inv] open' unfolding spent_once_def by (auto simp: spent_by_any_def)
  ultimately show ?thesis
    using sys_invD [OF inv] loop unfolding sys_inv_def by (simp add: inv_running_def inv_ids_def inv_lock_def)
qed

lemma unlock_inv: "sys_inv st \<Longrightarrow> sys_inv (st\<lparr>sy_section := Unlocked\<rparr>)"
  by (rule set_section) simp_all

lemma reg_step_inv: "reg_step st st' \<Longrightarrow> sys_inv st \<Longrightarrow> sys_inv st'"
proof (induction rule: reg_step.induct)
  case (reg_begin st)
  then show ?case by (intro set_readers) simp_all
next
  case (reg_leave st n)
  then show ?case by (intro set_readers) (simp_all add: sys_inv_def inv_lock_def)
qed (auto intro: unlock_inv reg_lock_inv reg_cache_inv reg_db_inv reg_push_inv)

lemma sub_step_inv: "sub_step st st' \<Longrightarrow> sys_inv st \<Longrightarrow> sys_inv st'"
proof (induction rule: sub_step.induct)
  case (sub_lock st tx ops)
  then show ?case by (intro sub_section_inv) auto
qed (auto intro: unlock_inv sub_cache_inv sub_intents_inv sub_db_inv sub_add_inv sub_commit_inv
    sub_rollback_inv)

lemma end_step_inv: "end_step st st' \<Longrightarrow> sys_inv st \<Longrightarrow> sys_inv st'"
proof (induction rule: end_step.induct)
  case (loop_end st round sel round' ks saved)
  then show ?case
    using loop_end_inv [OF loop_end.prems, of round sel round' ks saved] by (simp add: sel_keys_def)
qed (auto intro: loop_fail_inv)

lemma start_step_inv: "start_step st st' \<Longrightarrow> sys_inv st \<Longrightarrow> sys_inv st'"
proof (induction rule: start_step.induct)
  case (loop_hold st acc round)
  then show ?case by (intro loop_hold_inv)
qed (auto intro: loop_forget_inv loop_release_inv loop_skip_inv loop_denied_inv loop_start_inv)

lemma sys_step_inv: "sys_step st st' \<Longrightarrow> sys_inv st \<Longrightarrow> sys_inv st'"
  by (induction rule: sys_step.induct)
    (auto intro: reg_step_inv sub_step_inv end_step_inv start_step_inv intent_delete_inv
      elim!: pop_step.cases tx_db_step.cases batch_db_step.cases tx_handler_step.cases batch_handler_step.cases
      intro: loop_pop_inv tx_project_inv tx_remove_inv batch_project_inv batch_mark_inv)

lemma reachable_inv: "reachable round spent xs st \<Longrightarrow> xs = [] \<Longrightarrow> sys_inv st"
  by (induction rule: reachable.induct) (auto intro: init_inv sys_step_inv)

subsection \<open>A run\<close>

text \<open>An intent is registered, popped and settled by a batch whose projection has not landed.\<close>

definition sample_round :: "string \<Rightarrow> bool \<Rightarrow> Round" where
  "sample_round i ended =
     (NewRound i)\<lparr>rd_Stage := \<lparr>stage_Code = RoundFinalizationStage, stage_Ended = ended, stage_Failed = False\<rparr>\<rparr>"

definition sample_ended :: system where
  "sample_ended =
     (let t = sample_timed ''i'' ''a''; st = init_system (sample_round ''r'' False) {} in
      st\<lparr>sy_ids := {''i''}, sy_intents := popped ''r'' [t] (pushed t NewIntentStore),
         sy_loop := Waiting [] (sample_round ''r'' True),
         sy_manager := track (Some (sample_round ''r'' True)) newBatchSessionManager,
         sy_batches := {(''r'', [''a:0''])}, sy_spends := {(ByBatch ''r'', ''a:0'')}\<rparr>)"

lemma dec_string_0 [simp]: "dec_string 0 = ''0''"
  by (simp add: dec_string.simps char_of_def bit_simps)

lemma sample_registered:
  "reachable (sample_round ''r'' False) {} []
     ((init_system (sample_round ''r'' False) {})
        \<lparr>sy_ids := {''i''}, sy_intents := pushed (sample_timed ''i'' ''a'') NewIntentStore\<rparr>)"
proof -
  let ?R = "reachable (sample_round ''r'' False) {} []" and ?s = "init_system (sample_round ''r'' False) {}"
  let ?i = "sample_queued ''i'' ''a''"
  have "?R ?s" by (rule reachable_init) (simp add: sample_round_def NewRound_def)
  then have "?R (?s\<lparr>sy_readers := Suc (sy_readers ?s)\<rparr>)"
    by (rule reachable_step) (rule sys_step.registration, rule reg_step.reg_begin, simp add: init_system_def)
  then have "?R (?s\<lparr>sy_readers := 1\<rparr>)" by (simp add: init_system_def)
  then have "?R (?s\<lparr>sy_readers := 1, sy_ids := insert (int_Id ?i) (sy_ids (?s\<lparr>sy_readers := 1\<rparr>)), sy_readers := 0,
      sy_section := Registering RegLocked ?i [] []\<rparr>)"
    by (rule reachable_step) (rule sys_step.registration, rule reg_step.reg_lock, simp_all add: init_system_def)
  then have "?R (?s\<lparr>sy_ids := {''i''}, sy_section := Registering RegLocked ?i [] []\<rparr>)"
    by (simp add: init_system_def sample_queued_def)
  then have "?R (?s\<lparr>sy_ids := {''i''}, sy_section := Registering RegLocked ?i [] [],
      sy_section := Registering RegCacheRead ?i [] []\<rparr>)"
    by (rule reachable_step) (rule sys_step.registration, rule reg_step.reg_cache, simp_all add: init_system_def offchain_IncludesAny_def)
  then have "?R (?s\<lparr>sy_ids := {''i''}, sy_section := Registering RegCacheRead ?i [] []\<rparr>)" by simp
  then have "?R (?s\<lparr>sy_ids := {''i''}, sy_section := Registering RegCacheRead ?i [] [],
      sy_section := Registering RegDbRead ?i [] []\<rparr>)"
    by (rule reachable_step) (rule sys_step.registration, rule reg_step.reg_db, simp_all add: init_system_def)
  then have "?R (?s\<lparr>sy_ids := {''i''}, sy_section := Registering RegDbRead ?i [] []\<rparr>)" by simp
  then have "?R (?s\<lparr>sy_ids := {''i''}, sy_section := Registering RegDbRead ?i [] [],
      sy_section := Unlocked, sy_intents := pushed (sample_timed ''i'' ''a'') NewIntentStore\<rparr>)"
    by (rule reachable_step) (rule sys_step.registration, rule reg_step.reg_push [where now = 7],
        simp_all add: init_system_def Push_attempt_eq_Inr pushable_def NewIntentStore_def sample_timed_def)
  then show ?thesis by (simp add: init_system_def)
qed

definition sample_running :: system where
  "sample_running =
     (init_system (sample_round ''r'' False) {})\<lparr>sy_ids := {''i''},
        sy_intents := popped ''r'' [sample_timed ''i'' ''a''] (pushed (sample_timed ''i'' ''a'') NewIntentStore),
        sy_loop := Running (sample_round ''r'' False) [sample_timed ''i'' ''a'']\<rparr>"

lemma sample_round_id: "rd_Id (sample_round i b) = i"
  by (simp add: sample_round_def NewRound_def)

lemma sample_running_reachable: "reachable (sample_round ''r'' False) {} [] sample_running"
proof -
  let ?t = "sample_timed ''i'' ''a''"
  let ?p = "pushed ?t NewIntentStore"
  have sel: "pop_selected 5 [''i''] ?p = [?t]"
    by (simp add: pop_selected_def pop_candidates_def pushed_def NewIntentStore_def sample_simps
        List.map_filter_simps)
  have "reachable (sample_round ''r'' False) {} [] ((init_system (sample_round ''r'' False) {})\<lparr>sy_ids := {''i''}, sy_intents := ?p,
      sy_loop := Running (sample_round ''r'' False) [?t], sy_intents := popped ''r'' [?t] ?p\<rparr>)"
    by (rule reachable_step [OF sample_registered]) (rule sys_step.popping, rule pop_step.loop_pop [where order = "[''i'']" and num = 5],
        simp_all add: init_system_def sample_round_id Pop_attempt_eq sel, simp add: pushed_def NewIntentStore_def sample_simps)
  then show ?thesis by (simp add: sample_running_def init_system_def)
qed

lemma sample_ended_reachable: "reachable (sample_round ''r'' False) {} [] sample_ended"
proof -
  have keys: "vtxo_keys (ti_Intent (sample_timed ''i'' ''a'')) = [''a:0'']"
    by (simp add: vtxo_keys_def sample_timed_def sample_queued_def sample_vtxo_def Outpoint_String_def)
  have "end_step sample_running sample_ended"
    using end_step.loop_end [of sample_running "sample_round ''r'' False" "[sample_timed ''i'' ''a'']" "sample_round ''r'' True" "[''a:0'']" True]
    by (simp add: sample_running_def sample_ended_def init_system_def sample_round_id keys Let_def Round_IsEnded_def RoundEnded_def)
      (simp add: sample_round_def)
  then show ?thesis by (rule reachable_step [OF sample_running_reachable sys_step.ending])
qed

text \<open>C1: No vtxo is spent twice, as long as no round fails after its commitment transaction was broadcast and
  nobody deletes all the intents. However registrations, submissions, the round loop, projections and
  the deletion of single intents interleave, two spenders of the same vtxo are the same batch or the same offchain
  transaction: never two batches, never two transactions, never one of each.\<close>

theorem no_double_spend:
  assumes "reachable round spent [] st" and "(x, k) \<in> sy_spends st" and "(y, k) \<in> sy_spends st"
  shows "x = y"
  using sys_invD(10) [OF reachable_inv [OF assms(1)]] assms(2,3) unfolding spent_once_def by blast

theorem no_double_spend_witness:
  "reachable (sample_round ''r'' False) {} [] sample_ended \<and>
   {y. (y, ''a:0'') \<in> sy_spends sample_ended} = {ByBatch ''r''}"
proof -
  have "(ByBatch ''r'', ''a:0'') \<in> sy_spends sample_ended" by (simp add: sample_ended_def Let_def)
  then show ?thesis using sample_ended_reachable no_double_spend [OF sample_ended_reachable] by blast
qed






text \<open>Clearing the intents forgets the claims of finished batches. In a reachable state a batch has
  settled an input and its projection is not written yet; a second intent with that input is
  refused, as it must be, but after \<open>DeleteAll\<close> the same registration is accepted: neither the
  store nor the cache nor the rows refuse the input.\<close>

theorem clearing_reopens_spent_input:
  "reachable (sample_round ''r'' False) {} [] sample_ended \<and>
   (ByBatch ''r'', ''a:0'') \<in> sy_spends sample_ended \<and>
   ''a:0'' \<notin> sy_spent sample_ended \<and> ''a:0'' \<notin> os_inputs (sy_offchain sample_ended) \<and>
   vtxo_keys (sample_queued ''j'' ''a'') = [''a:0''] \<and> is_ids (sy_intents sample_ended) = {} \<and>
   (\<exists>e. Push_attempt 8 (sample_queued ''j'' ''a'') [] [] (sy_intents sample_ended) = Inl e) \<and>
   (\<exists>s. Push_attempt 8 (sample_queued ''j'' ''a'') [] [] (DeleteAll [] (sy_intents sample_ended)) = Inr s)"
proof -
  let ?s = "sy_intents sample_ended" and ?i = "sample_queued ''j'' ''a''"
  have s: "?s = popped ''r'' [sample_timed ''i'' ''a''] (pushed (sample_timed ''i'' ''a'') NewIntentStore)"
    by (simp add: sample_ended_def Let_def)
  have keys: "inputKeys ?i [] = [''a:0'']"
    by (simp add: inputKeys_def sample_queued_def sample_vtxo_def Outpoint_String_def)
  have "Push_attempt 8 ?i [] [] ?s = Inl (StoreErrorf (''duplicated input, '' @ ''a:0'') None)"
    by (simp add: Push_attempt_def keys push_input_check_def s popped_def pushed_def NewIntentStore_def
        sample_simps pendingInputOwners_def pendingOwner_def splitPendingOwner_def guard_err_def)
  moreover have "pushable (int_Id ?i) (inputKeys ?i []) (DeleteAll [] ?s)"
    by (simp add: pushable_def DeleteAll_eq)
  then have "Push_attempt 8 ?i [] [] (DeleteAll [] ?s) =
      Inr (pushed \<lparr>ti_Intent = ?i, ti_BoardingInputs = [], ti_Timestamp = 8, ti_CosignersPublicKeys = []\<rparr> (DeleteAll [] ?s))"
    by (simp add: Push_attempt_eq_Inr)
  moreover have "vtxo_keys ?i = [''a:0'']"
    by (simp add: vtxo_keys_def sample_queued_def sample_vtxo_def Outpoint_String_def)
  moreover have "is_ids ?s = {}"
    by (simp add: s popped_def pushed_def NewIntentStore_def)
  moreover have "(ByBatch ''r'', ''a:0'') \<in> sy_spends sample_ended" "''a:0'' \<notin> sy_spent sample_ended"
    "''a:0'' \<notin> os_inputs (sy_offchain sample_ended)"
    by (simp_all add: sample_ended_def init_system_def Let_def)
  ultimately show ?thesis using sample_ended_reachable by blast
qed

end
