(* ===== verification/Psbt_Fields.thy ===== *)
theory Psbt_Fields
  imports Tx_Tree Script_Closure
begin

section \<open>Fields of PSBT inputs\<close>

text \<open>
  \<open>pkg/ark-lib/txutils\<close>: \<open>taptree.go\<close>, the encoding of a list of tapscripts, \<open>psbt_fields.go\<close>, the four
  fields that the protocol adds to the inputs of a PSBT, and \<open>indexed_pubkey.go\<close>, the cosigners of an
  input. The interface \<open>ArkPsbtFieldCoder\<close> is the locale \<open>psbt_field\<close>: what is set is read back after
  what was there, and other fields do not see it. A public key and its compressed form are parameters,
  as are the script numbers and the serialisation of witnesses of btcd.
\<close>

subsection \<open>taptree.go\<close>

definition MaxLeaves :: nat where "MaxLeaves = 400"

definition BaseLeafVersion :: u8 where "BaseLeafVersion = 0xc0"

text \<open>\<open>binary.Write\<close> and \<open>binary.Read\<close> of an integer of \<open>k\<close> bytes, little endian.\<close>

fun PutLE :: "nat \<Rightarrow> u64 \<Rightarrow> bytes" where
  "PutLE 0 v = []"
| "PutLE (Suc k) v = ucast v # PutLE k (drop_bit 8 v)"

fun getLE :: "bytes \<Rightarrow> u64" where
  "getLE [] = 0"
| "getLE (b # bs) = ucast b + push_bit 8 (getLE bs)"

definition binary_Read :: "nat \<Rightarrow> bytes \<Rightarrow> (u64 \<times> bytes) gores" where
  "binary_Read k r =
     (if r = [] then Inl (GoIO EOF) else if length r < k then Inl (GoIO ErrUnexpectedEOF)
      else Inr (getLE (take k r), drop k r))"

definition writeCompactSizeUint :: "u64 \<Rightarrow> bytes" where
  "writeCompactSizeUint val =
     (if val < 253 then [ucast val]
      else if val < 0x10000 then 253 # PutLE 2 val
      else if val < 0x100000000 then 254 # PutLE 4 val
      else 255 # PutLE 8 val)"

definition readCompactSizeUint :: "bytes \<Rightarrow> (u64 \<times> bytes) gores" where
  "readCompactSizeUint r =
     (case r of
        [] \<Rightarrow> Inl (GoIO EOF)
      | firstByte # r' \<Rightarrow>
          if firstByte = 253 then binary_Read 2 r'
          else if firstByte = 254 then binary_Read 4 r'
          else if firstByte = 255 then binary_Read 8 r'
          else Inr (ucast firstByte, r'))"

fun encode_leaves :: "nat \<Rightarrow> nat \<Rightarrow> string list \<Rightarrow> bytes gores" where
  "encode_leaves sz i [] = Inr []"
| "encode_leaves sz i (tapscript # t) =
     rbind (map_err GoHex (hex_DecodeString tapscript)) (\<lambda>scriptBytes.
       let depth = min (i + 1) (sz - 1)
       in rbind (encode_leaves sz (Suc i) t) (\<lambda>rest.
            Inr (of_nat depth # BaseLeafVersion # writeCompactSizeUint (of_nat (length scriptBytes)) @
                 scriptBytes @ rest)))"

definition TapTree_Encode :: "string list \<Rightarrow> bytes gores" where
  "TapTree_Encode t = encode_leaves (length t) 0 t"

text \<open>\<open>Read\<close> into the buffer for the script reports the end of the input when nothing is left, also
  when the script is empty.\<close>

definition read_leaf :: "bytes \<Rightarrow> (string \<times> bytes) gores" where
  "read_leaf buf =
     rbind (map_err GoIO (reader_ReadByte buf)) (\<lambda>(_, buf).
     rbind (map_err GoIO (reader_ReadByte buf)) (\<lambda>(_, buf).
     rbind (readCompactSizeUint buf) (\<lambda>(scriptLen, buf).
       guard_err (unat scriptLen > length buf) (Errorf ''script length exceeds remaining data'')
         (guard_err (unat scriptLen > MaxScriptSize) (Errorf ''script length exceeds max'')
           (rbind (map_err GoIO (reader_Read (unat scriptLen) buf)) (\<lambda>(scriptBytes, buf).
              Inr (hex_EncodeToString scriptBytes, buf)))))))"

lemma binary_Read_shorter: "binary_Read k r = Inr (v, r') \<Longrightarrow> length r' \<le> length r"
  by (auto simp: binary_Read_def split: if_splits)

lemma readCompactSizeUint_shorter: "readCompactSizeUint r = Inr (v, r') \<Longrightarrow> length r' < length r"
  by (auto simp: readCompactSizeUint_def split: list.splits if_splits dest: binary_Read_shorter)

lemma read_leaf_shorter: "read_leaf buf = Inr (s, buf') \<Longrightarrow> length buf' < length buf"
  by (auto simp: read_leaf_def rbind_eq_Inr map_err_eq_Inr guard_err_eq_Inr reader_ReadByte_def reader_Read_def
      split: list.splits if_splits dest!: readCompactSizeUint_shorter)

function decode_leaves :: "string list \<Rightarrow> bytes \<Rightarrow> string list gores" where
  "decode_leaves leaves buf =
     (if length buf = 0 then Inr leaves
      else case read_leaf buf of
        Inl err \<Rightarrow> Inl err
      | Inr (scriptHex, buf') \<Rightarrow>
          guard_err (length (leaves @ [scriptHex]) > MaxLeaves) (Errorf ''leaves length exceeds max'')
            (decode_leaves (leaves @ [scriptHex]) buf'))"
  by auto
termination by (relation "measure (length \<circ> snd)") (auto dest: read_leaf_shorter)

declare decode_leaves.simps [simp del]

definition DecodeTapTree :: "bytes \<Rightarrow> string list gores" where
  "DecodeTapTree data = decode_leaves [] data"

subsection \<open>psbt\_fields.go\<close>

definition ArkPsbtFieldKeyType :: u8 where "ArkPsbtFieldKeyType = 222"
definition cosignerIndexLen :: nat where "cosignerIndexLen = 4"

text \<open>\<open>taptree\<close>, \<open>expiry\<close>, \<open>cosigner\<close> and \<open>condition\<close>.\<close>

definition ArkFieldTaprootTree :: bytes where
  "ArkFieldTaprootTree = [0x74, 0x61, 0x70, 0x74, 0x72, 0x65, 0x65]"
definition ArkFieldTreeExpiry :: bytes where
  "ArkFieldTreeExpiry = [0x65, 0x78, 0x70, 0x69, 0x72, 0x79]"
definition ArkFieldCosigner :: bytes where
  "ArkFieldCosigner = [0x63, 0x6f, 0x73, 0x69, 0x67, 0x6e, 0x65, 0x72]"
definition ArkFieldConditionWitness :: bytes where
  "ArkFieldConditionWitness = [0x63, 0x6f, 0x6e, 0x64, 0x69, 0x74, 0x69, 0x6f, 0x6e]"

record 'a ArkPsbtFieldCoder =
  co_Encode :: "'a \<Rightarrow> psbt_Unknown gores"
  co_Decode :: "psbt_Unknown \<Rightarrow> 'a option gores"

definition makeArkPsbtKey :: "bytes \<Rightarrow> bytes" where
  "makeArkPsbtKey keyData = ArkPsbtFieldKeyType # keyData"

definition matchesArkPsbtKey :: "psbt_Unknown \<Rightarrow> bytes \<Rightarrow> nat \<Rightarrow> bool" where
  "matchesArkPsbtKey unknownField keyFieldName suffixLen =
     (case un_Key unknownField of
        [] \<Rightarrow> False
      | k # ks \<Rightarrow>
          let key = (if k = ArkPsbtFieldKeyType then ks else k # ks)
          in if length key \<noteq> length keyFieldName + suffixLen then False
             else take (length keyFieldName) key = keyFieldName)"

definition SetArkPsbtField :: "'z Psbt_scheme \<Rightarrow> nat \<Rightarrow> 'a ArkPsbtFieldCoder \<Rightarrow> 'a \<Rightarrow> 'z Psbt_scheme gores" where
  "SetArkPsbtField ptx inputIndex coder v =
     guard_err (length (psbt_Unknowns ptx) \<le> inputIndex) (Errorf ''input index out of bounds'')
       (rbind (co_Encode coder v) (\<lambda>arkField.
          Inr (ptx\<lparr>psbt_Unknowns := (psbt_Unknowns ptx)[inputIndex := psbt_Unknowns ptx ! inputIndex @ [arkField]]\<rparr>)))"

fun decode_fields :: "(psbt_Unknown \<Rightarrow> 'a option gores) \<Rightarrow> psbt_Unknown list \<Rightarrow> 'a list gores" where
  "decode_fields dec [] = Inr []"
| "decode_fields dec (u # us) =
     rbind (dec u) (\<lambda>value. rbind (decode_fields dec us) (\<lambda>vs.
       Inr (case value of None \<Rightarrow> vs | Some v \<Rightarrow> v # vs)))"

definition GetArkPsbtFields :: "'z Psbt_scheme \<Rightarrow> nat \<Rightarrow> 'a ArkPsbtFieldCoder \<Rightarrow> 'a list gores" where
  "GetArkPsbtFields ptx inputIndex coder =
     guard_err (length (psbt_Unknowns ptx) \<le> inputIndex) (Errorf ''input index out of bounds'')
       (decode_fields (co_Decode coder) (psbt_Unknowns ptx ! inputIndex))"

definition VtxoTaprootTreeField :: "string list ArkPsbtFieldCoder" where
  "VtxoTaprootTreeField =
     \<lparr>co_Encode = (\<lambda>taptree. rbind (TapTree_Encode taptree) (\<lambda>encodedTaprootTree.
        Inr \<lparr>un_Key = makeArkPsbtKey ArkFieldTaprootTree, un_Value = encodedTaprootTree\<rparr>)),
      co_Decode = (\<lambda>unknown.
        if \<not> matchesArkPsbtKey unknown ArkFieldTaprootTree 0 then Inr None
        else rbind (DecodeTapTree (un_Value unknown)) (\<lambda>taptree. Inr (Some taptree)))\<rparr>"

text \<open>The loop that drops trailing zero bytes, down to one byte. The slice \<open>sequenceLE[:5]\<close> of the
  four bytes panics.\<close>

fun drop_zeros :: "nat \<Rightarrow> bytes \<Rightarrow> nat" where
  "drop_zeros 0 bs = 0"
| "drop_zeros (Suc n) bs = (if n > 0 \<and> bs ! n = 0 then drop_zeros n bs else Suc n)"

definition VtxoTreeExpiryField :: "'k txscript \<Rightarrow> RelativeLocktime ArkPsbtFieldCoder" where
  "VtxoTreeExpiryField lib =
     \<lparr>co_Encode = (\<lambda>expiry. rbind (BIP68Sequence (ts_LockTimeToSequence lib) expiry) (\<lambda>sequence.
        let sequenceLE = PutUint32 sequence;
            numBytes = drop_zeros 4 sequenceLE;
            numBytes = (if sequenceLE ! (numBytes - 1) AND 0x80 \<noteq> 0 then numBytes + 1 else numBytes)
        in guard_err (numBytes > 4) (Errorf ''runtime error: slice bounds out of range'')
             (Inr \<lparr>un_Key = makeArkPsbtKey ArkFieldTreeExpiry, un_Value = take numBytes sequenceLE\<rparr>))),
      co_Decode = (\<lambda>unknown.
        if \<not> matchesArkPsbtKey unknown ArkFieldTreeExpiry 0 then Inr None
        else rbind (BIP68DecodeSequenceFromBytes (ts_MakeScriptNum lib) (un_Value unknown)) (\<lambda>l. Inr (Some l)))\<rparr>"

record 'k btcec =
  ec_ParsePubKey :: "bytes \<Rightarrow> 'k gores"
  ec_SerializeCompressed :: "'k \<Rightarrow> bytes"

record 'k IndexedCosignerPublicKey =
  ick_Index :: int
  ick_PublicKey :: 'k

text \<open>\<open>binary.BigEndian\<close>\<close>

definition PutUint32BE :: "u32 \<Rightarrow> bytes" where
  "PutUint32BE v = rev (PutUint32 v)"

definition Uint32BE :: "bytes \<Rightarrow> u32" where
  "Uint32BE bs = ucast (getLE (rev bs))"

definition CosignerPublicKeyField :: "'k btcec \<Rightarrow> 'k IndexedCosignerPublicKey ArkPsbtFieldCoder" where
  "CosignerPublicKeyField ec =
     \<lparr>co_Encode = (\<lambda>indexedPubKey.
        Inr \<lparr>un_Key = makeArkPsbtKey ArkFieldCosigner @ PutUint32BE (word_of_int (ick_Index indexedPubKey)),
             un_Value = ec_SerializeCompressed ec (ick_PublicKey indexedPubKey)\<rparr>),
      co_Decode = (\<lambda>unknown.
        if \<not> matchesArkPsbtKey unknown ArkFieldCosigner cosignerIndexLen then Inr None
        else let indexBytes = drop (length (un_Key unknown) - cosignerIndexLen) (un_Key unknown);
                 index = Uint32BE indexBytes
             in rbind (ec_ParsePubKey ec (un_Value unknown)) (\<lambda>publicKey.
                  Inr (Some \<lparr>ick_Index = uint index, ick_PublicKey = publicKey\<rparr>)))\<rparr>"

definition ConditionWitnessField ::
    "'k txscript \<Rightarrow> (bytes list \<Rightarrow> bytes gores) \<Rightarrow> bytes list ArkPsbtFieldCoder" where
  "ConditionWitnessField lib writeTxWitness =
     \<lparr>co_Encode = (\<lambda>witness. rbind (writeTxWitness witness) (\<lambda>witnessBytes.
        Inr \<lparr>un_Key = makeArkPsbtKey ArkFieldConditionWitness, un_Value = witnessBytes\<rparr>)),
      co_Decode = (\<lambda>unknown.
        if \<not> matchesArkPsbtKey unknown ArkFieldConditionWitness 0 then Inr None
        else rbind (ReadTxWitness lib (un_Value unknown)) (\<lambda>witness. Inr (Some witness)))\<rparr>"

definition GetArkPsbtConditionWitness ::
    "'k txscript \<Rightarrow> (bytes list \<Rightarrow> bytes gores) \<Rightarrow> 'z Psbt_scheme \<Rightarrow> nat \<Rightarrow> bytes list option gores" where
  "GetArkPsbtConditionWitness lib writeTxWitness ptx inputIndex =
     rbind (GetArkPsbtFields ptx inputIndex (ConditionWitnessField lib writeTxWitness)) (\<lambda>fs.
       guard_err (length fs > 1) (Errorf ''input sets several condition witnesses, expected at most one'')
         (if length fs = 0 then Inr None else Inr (Some (fs ! 0))))"

subsection \<open>indexed\_pubkey.go\<close>

text \<open>\<open>sort.Slice\<close> leaves the order of equal indexes open; the model keeps the order of the fields.\<close>

definition ParseCosignersToECPubKeys :: "'k IndexedCosignerPublicKey list \<Rightarrow> 'k list" where
  "ParseCosignersToECPubKeys fs = map ick_PublicKey (sort_key ick_Index fs)"

definition ParseCosignerKeysFromArkPsbt :: "'k btcec \<Rightarrow> 'z Psbt_scheme \<Rightarrow> nat \<Rightarrow> 'k list gores" where
  "ParseCosignerKeysFromArkPsbt ec ptx inIndex =
     rbind (GetArkPsbtFields ptx inIndex (CosignerPublicKeyField ec)) (\<lambda>fs.
       Inr (ParseCosignersToECPubKeys fs))"

subsection \<open>Integers\<close>

lemma length_PutLE [simp]: "length (PutLE k v) = k"
  by (induction k arbitrary: v) auto

lemma byte_split: "ucast (ucast (v :: u64) :: u8) + push_bit 8 (drop_bit 8 v) = v"
proof -
  have "ucast (ucast v :: u8) = take_bit 8 v" by (simp add: unsigned_ucast_eq)
  moreover have "take_bit 8 v + push_bit 8 (drop_bit 8 v) = v" using bits_ident [of 8 v] by (simp add: add.commute)
  ultimately show ?thesis by simp
qed

lemma getLE_PutLE: "unat v < 256 ^ k \<Longrightarrow> getLE (PutLE k v) = v"
proof (induction k arbitrary: v)
  case 0
  then show ?case by (simp add: unat_eq_0)
next
  case (Suc k)
  have "unat (drop_bit 8 v) = unat v div 256" 
    using unsigned_less [where 'a = nat, of v] by (simp only: unsigned_drop_bit_eq) (simp add: drop_bit_eq_div take_bit_nat_eq_self)
  then have "unat (drop_bit 8 v) < 256 ^ k" using Suc.prems by (simp add: less_mult_imp_div_less mult.commute)
  then show ?case using Suc.IH byte_split [of v] by simp
qed

lemma binary_Read_PutLE: "0 < k \<Longrightarrow> unat v < 256 ^ k \<Longrightarrow> binary_Read k (PutLE k v @ r) = Inr (v, r)"
  by (cases k) (simp_all add: binary_Read_def getLE_PutLE [where k = "Suc _", simplified])

lemma compactSize_roundtrip: "readCompactSizeUint (writeCompactSizeUint v @ r) = Inr (v, r)"
proof -
  have small: "v < 253 \<Longrightarrow> unat v < 253" by (simp add: word_less_nat_alt)
  have ne: "v < 253 \<Longrightarrow> (ucast v :: u8) \<noteq> 253 \<and> (ucast v :: u8) \<noteq> 254 \<and> (ucast v :: u8) \<noteq> 255 \<and> ucast (ucast v :: u8) = v"
  proof -
    assume "v < 253"
    then have "unat (ucast v :: u8) = unat v" "unat v < 253" using small by (simp_all add: unsigned_ucast_eq take_bit_nat_eq_self)
    then show ?thesis by (auto simp: word_unat_eq_iff unsigned_ucast_eq unsigned_take_bit_eq take_bit_nat_eq_self)
  qed
  have "unat v < 256 ^ 2" if "v < 0x10000" using that by (simp add: word_less_nat_alt)
  moreover have "unat v < 256 ^ 4" if "v < 0x100000000" using that by (simp add: word_less_nat_alt)
  moreover have "unat v < 256 ^ 8" using unsigned_less [of v] by simp
  ultimately show ?thesis
    using ne by (auto simp: writeCompactSizeUint_def readCompactSizeUint_def binary_Read_PutLE)
qed

subsection \<open>Tapscripts\<close>

text \<open>The bytes of one leaf, and what a leaf must be for the reader to accept it before \<open>rest\<close>.\<close>

definition leaf_bytes :: "u8 \<Rightarrow> bytes \<Rightarrow> bytes" where
  "leaf_bytes d script = d # BaseLeafVersion # writeCompactSizeUint (of_nat (length script)) @ script"

lemma read_leaf_bytes:
  assumes "length script < 2 ^ 64"
  shows "read_leaf (leaf_bytes d script @ rest) = Inr (s, r) \<longleftrightarrow>
    length script \<le> MaxScriptSize \<and> script @ rest \<noteq> [] \<and> s = hex_EncodeToString script \<and> r = rest"
proof -
  have "unat (of_nat (length script) :: u64) = length script"
    using assms by (simp add: unat_of_nat take_bit_nat_eq_self)
  then show ?thesis
    by (auto simp: read_leaf_def leaf_bytes_def reader_ReadByte_def compactSize_roundtrip guard_err_def reader_Read_def)
qed

lemma read_leaf_cases:
  assumes "length script < 2 ^ 64"
  shows "read_leaf (leaf_bytes d script @ rest) = Inr (hex_EncodeToString script, rest) \<or>
    (\<exists>e. read_leaf (leaf_bytes d script @ rest) = Inl e) \<and> (length script > MaxScriptSize \<or> script @ rest = [])"
  using read_leaf_bytes [OF assms, of d rest "hex_EncodeToString script" rest] read_leaf_bytes [OF assms, of d rest]
  by (cases "read_leaf (leaf_bytes d script @ rest)") (auto simp: not_less)

text \<open>Exactly when an encoded list of tapscripts is read back.\<close>

definition taptree_readable :: "bytes list \<Rightarrow> bool" where
  "taptree_readable scripts \<longleftrightarrow> (\<forall>s \<in> set scripts. length s \<le> MaxScriptSize) \<and> (scripts \<noteq> [] \<longrightarrow> last scripts \<noteq> [])"

lemma encode_leaves_scripts:
  "encode_leaves n i t = Inr b \<Longrightarrow> \<exists>scripts ds. map hex_DecodeString t = map Inr scripts \<and>
     length ds = length scripts \<and> b = concat (map2 leaf_bytes ds scripts)"
proof (induction t arbitrary: i b)
  case (Cons x t)
  then obtain s rest where s: "hex_DecodeString x = Inr s" "encode_leaves n (Suc i) t = Inr rest"
    "b = leaf_bytes (of_nat (min (i + 1) (n - 1))) s @ rest"
    by (auto simp: rbind_eq_Inr map_err_eq_Inr Let_def leaf_bytes_def)
  then obtain scripts ds where "map hex_DecodeString t = map Inr scripts" "length ds = length scripts"
    "rest = concat (map2 leaf_bytes ds scripts)" using Cons.IH by blast
  then show ?case using s
    by (intro exI [of _ "s # scripts"] exI [of _ "of_nat (min (i + 1) (n - 1)) # ds"]) simp
qed simp

lemma decode_leaves_concat:
  assumes "length ds = length scripts" "\<forall>s \<in> set scripts. length s < 2 ^ 64"
  shows "decode_leaves acc (concat (map2 leaf_bytes ds scripts)) = Inr t' \<longleftrightarrow>
    taptree_readable scripts \<and> (scripts \<noteq> [] \<longrightarrow> length acc + length scripts \<le> MaxLeaves) \<and>
    t' = acc @ map hex_EncodeToString scripts"
  using assms
proof (induction ds scripts arbitrary: acc rule: list_induct2)
  case Nil
  then show ?case by (auto simp: decode_leaves.simps taptree_readable_def)
next
  case (Cons d ds s scripts)
  let ?rest = "concat (map2 leaf_bytes ds scripts)"
  have ne: "leaf_bytes d s @ ?rest \<noteq> []" by (simp add: leaf_bytes_def)
  have rest: "?rest = [] \<longleftrightarrow> scripts = []"
    using Cons.hyps by (cases ds; cases scripts) (auto simp: leaf_bytes_def)
  have len: "length s < 2 ^ 64" using Cons.prems by simp
  note step = decode_leaves.simps [of acc "leaf_bytes d s @ ?rest"]
  from read_leaf_cases [OF len, of d ?rest] show ?case
  proof
    assume r: "read_leaf (leaf_bytes d s @ ?rest) = Inr (hex_EncodeToString s, ?rest)"
    then have "length s \<le> MaxScriptSize" "s @ ?rest \<noteq> []" using read_leaf_bytes [OF len] by blast+
    then show ?thesis
      using Cons.IH [of "acc @ [hex_EncodeToString s]"] Cons.prems rest step r ne
      by (auto simp: guard_err_def taptree_readable_def)
  next
    assume "(\<exists>e. read_leaf (leaf_bytes d s @ ?rest) = Inl e) \<and> (length s > MaxScriptSize \<or> s @ ?rest = [])"
    then show ?thesis using step ne rest by (auto simp: taptree_readable_def)
  qed
qed

lemma taptree_read_back:
  assumes "TapTree_Encode t = Inr b" and "\<forall>x \<in> set t. length x < 2 ^ 64"
  shows "\<exists>scripts. map hex_DecodeString t = map Inr scripts \<and>
    (\<forall>t'. DecodeTapTree b = Inr t' \<longleftrightarrow>
       length t \<le> MaxLeaves \<and> taptree_readable scripts \<and> t' = map hex_EncodeToString scripts)"
proof -
  obtain scripts ds where s: "map hex_DecodeString t = map Inr scripts" "length ds = length scripts"
    "b = concat (map2 leaf_bytes ds scripts)"
    using assms(1) encode_leaves_scripts unfolding TapTree_Encode_def by blast
  have len: "length t = length scripts" using s(1) by (metis length_map)
  have hex: "hex_DecodeString x = Inr y \<Longrightarrow> length y \<le> length x" for x y
    by (induction x arbitrary: y rule: hex_DecodeString.induct) (fastforce simp: rbind_eq_Inr split: option.splits)+
  have small: "\<forall>y \<in> set scripts. length y < 2 ^ 64"
  proof
    fix y assume "y \<in> set scripts"
    then obtain x where "x \<in> set t" "hex_DecodeString x = Inr y" using s(1)
      by (metis (no_types, lifting) image_iff list.set_map)
    then show "length y < 2 ^ 64" using hex [of x y] assms(2) by fastforce
  qed
  have "DecodeTapTree b = Inr t' \<longleftrightarrow>
      length t \<le> MaxLeaves \<and> taptree_readable scripts \<and> t' = map hex_EncodeToString scripts" for t'
    using decode_leaves_concat [OF s(2) small, of "[]" t'] by (auto simp: DecodeTapTree_def s(3) len)
  then show ?thesis using s(1) by blast
qed

subsection \<open>Setting and reading fields\<close>

text \<open>What the code relies on in a coder: what it encodes it decodes again, it encodes under its own name,
  and it does not react to a field of another name.\<close>

locale psbt_field =
  fixes coder :: "'a ArkPsbtFieldCoder" and ok :: "'a \<Rightarrow> bool" and name :: bytes and suffixLen :: nat
  assumes decode_encode: "ok v \<Longrightarrow> co_Encode coder v = Inr u \<Longrightarrow> co_Decode coder u = Inr (Some v)"
    and encode_key: "co_Encode coder v = Inr u \<Longrightarrow> matchesArkPsbtKey u name suffixLen"
    and decode_other: "\<not> matchesArkPsbtKey u name suffixLen \<Longrightarrow> co_Decode coder u = Inr None"
begin

lemma decode_fields_append:
  "decode_fields dec (us @ vs) = rbind (decode_fields dec us) (\<lambda>a. rbind (decode_fields dec vs) (\<lambda>b. Inr (a @ b)))"
proof (induction us)
  case Nil
  show ?case by (cases "decode_fields dec vs") auto
next
  case (Cons u us)
  then show ?case
    by (cases "dec u"; cases "decode_fields dec us"; cases "decode_fields dec vs") (auto split: option.split)
qed

lemma get_set:
  assumes "SetArkPsbtField ptx i coder v = Inr ptx'" "ok v" "GetArkPsbtFields ptx i coder = Inr vs"
  shows "GetArkPsbtFields ptx' i coder = Inr (vs @ [v])"
  using assms decode_encode
  by (auto simp: SetArkPsbtField_def GetArkPsbtFields_def guard_err_def rbind_eq_Inr decode_fields_append split: if_splits)

lemma get_set_other:
  assumes "SetArkPsbtField ptx i other w = Inr ptx'"
    and "\<And>u. co_Encode other w = Inr u \<Longrightarrow> \<not> matchesArkPsbtKey u name suffixLen"
  shows "GetArkPsbtFields ptx' j coder = GetArkPsbtFields ptx j coder"
proof (cases "j = i")
  case True
  then show ?thesis using assms decode_other
    by (cases "decode_fields (co_Decode coder) (psbt_Unknowns ptx ! i)")
      (auto simp: SetArkPsbtField_def GetArkPsbtFields_def guard_err_def rbind_eq_Inr decode_fields_append split: if_splits)
qed (use assms(1) in \<open>auto simp: SetArkPsbtField_def GetArkPsbtFields_def guard_err_def rbind_eq_Inr split: if_splits\<close>)

end

text \<open>The names tell the fields apart: their keys have different lengths.\<close>

lemmas field_names =
  ArkFieldTaprootTree_def ArkFieldTreeExpiry_def ArkFieldCosigner_def ArkFieldConditionWitness_def
  cosignerIndexLen_def ArkPsbtFieldKeyType_def

lemma matchesArkPsbtKey_length:
  "matchesArkPsbtKey u name n \<Longrightarrow> matchesArkPsbtKey u name' n' \<Longrightarrow> length name + n = length name' + n'"
  by (auto simp: matchesArkPsbtKey_def Let_def split: list.splits if_splits)

lemma matches_own_key: "length sfx = n \<Longrightarrow> matchesArkPsbtKey \<lparr>un_Key = makeArkPsbtKey name @ sfx, un_Value = v\<rparr> name n"
  by (simp add: matchesArkPsbtKey_def makeArkPsbtKey_def)

lemma matches_plain_key: "matchesArkPsbtKey \<lparr>un_Key = makeArkPsbtKey name, un_Value = v\<rparr> name 0"
  using matches_own_key [of "[]" 0 name v] by simp

text \<open>Tapscripts in the form the decoder gives them.\<close>

definition taptree_ok :: "string list \<Rightarrow> bool" where
  "taptree_ok t \<longleftrightarrow> length t \<le> MaxLeaves \<and>
     (\<exists>scripts. t = map hex_EncodeToString scripts \<and> taptree_readable scripts)"

interpretation taptree_field: psbt_field VtxoTaprootTreeField taptree_ok ArkFieldTaprootTree 0
proof
  fix v u
  assume "taptree_ok v" and e: "co_Encode VtxoTaprootTreeField v = Inr u"
  then obtain scripts where v: "v = map hex_EncodeToString scripts" "taptree_readable scripts" "length v \<le> MaxLeaves"
    by (auto simp: taptree_ok_def)
  have "length s \<le> MaxScriptSize" if "s \<in> set scripts" for s using v(2) that by (simp add: taptree_readable_def)
  then have "\<forall>x \<in> set v. length x < 2 ^ 64"
    using v(1) by (force simp: MaxScriptSize_def)
  moreover from e obtain b where b: "TapTree_Encode v = Inr b" "un_Value u = b"
    by (auto simp: VtxoTaprootTreeField_def rbind_eq_Inr)
  ultimately obtain scripts' where "map hex_DecodeString v = map Inr scripts'"
    "\<And>t'. DecodeTapTree b = Inr t' \<longleftrightarrow> length v \<le> MaxLeaves \<and> taptree_readable scripts' \<and> t' = map hex_EncodeToString scripts'"
    using taptree_read_back [of v b] by blast
  moreover from this(1) have "scripts' = scripts" using v(1) by (simp add: inj_map_eq_map o_def)
  ultimately have "DecodeTapTree b = Inr v" using v by simp
  moreover have "matchesArkPsbtKey u ArkFieldTaprootTree 0"
    using e by (auto simp: VtxoTaprootTreeField_def rbind_eq_Inr matches_plain_key)
  ultimately show "co_Decode VtxoTaprootTreeField u = Inr (Some v)"
    using b(2) by (simp add: VtxoTaprootTreeField_def)
qed (auto simp: VtxoTaprootTreeField_def rbind_eq_Inr matches_plain_key)

subsection \<open>Expiry\<close>

text \<open>What btcd documents of script numbers: a minimally encoded number that is not negative is the
  little-endian value of its bytes.\<close>

definition minimal_number :: "bytes \<Rightarrow> bool" where
  "minimal_number bs \<longleftrightarrow> bs \<noteq> [] \<and> last bs < 0x80 \<and>
     (last bs = 0 \<longrightarrow> length bs \<ge> 2 \<and> 0x80 \<le> bs ! (length bs - 2))"

definition script_number_law :: "make_script_num \<Rightarrow> bool" where
  "script_number_law msn \<longleftrightarrow>
     (\<forall>bs n. minimal_number bs \<and> length bs \<le> 5 \<and> length bs \<le> n \<longrightarrow> msn bs True n = Inr (getLE bs))"

lemma top_bit: "(b :: u8) AND 0x80 \<noteq> 0 \<longleftrightarrow> 0x80 \<le> b"
proof -
  have "b AND 2 ^ 7 = 0 \<longleftrightarrow> \<not> bit b 7" by (rule and_exp_eq_0_iff_not_bit)
  moreover have "bit b 7 \<longleftrightarrow> bit (unat b) 7" by (simp only: bit_unsigned_iff) simp
  moreover have "bit (unat b) 7 \<longleftrightarrow> odd (unat b div 128)" by (simp only: bit_iff_odd) simp
  moreover have "odd (unat b div 128) \<longleftrightarrow> 128 \<le> unat b"
  proof (cases "unat b < 128")
    case False
    then have "unat b div 128 = 1" using unsigned_less [where 'a = nat, of b] by simp
    then show ?thesis using False by simp
  qed simp
  ultimately show ?thesis by (simp add: word_le_nat_alt)
qed

lemma PutUint32_PutLE: "PutUint32 v = PutLE 4 (ucast v)"
  by (simp add: PutUint32_def numeral_eq_Suc) (auto intro!: bit_word_eqI simp: bit_simps)

lemma getLE_PutUint32: "getLE (PutUint32 v) = ucast v"
proof -
  have "unat (ucast v :: u64) < 256 ^ 4"
    using unsigned_less [where 'a = nat, of v] by (simp add: unsigned_ucast_eq take_bit_nat_eq_self)
  then show ?thesis unfolding PutUint32_PutLE by (rule getLE_PutLE)
qed

text \<open>The number of bytes the encoder keeps.\<close>

definition kept_bytes :: "bytes \<Rightarrow> nat" where
  "kept_bytes bs =
     (let n = drop_zeros 4 bs in if bs ! (n - 1) AND 0x80 \<noteq> 0 then n + 1 else n)"

lemma kept_bytes_minimal:
  assumes "length bs = 4" "getLE bs \<noteq> 0" "kept_bytes bs \<le> 4"
  shows "minimal_number (take (kept_bytes bs) bs) \<and> getLE (take (kept_bytes bs) bs) = getLE bs"
proof -
  obtain b0 b1 b2 b3 where bs: "bs = [b0, b1, b2, b3]"
    using assms(1) by (auto simp: numeral_eq_Suc length_Suc_conv)
  have dz: "drop_zeros 4 bs = (if b3 \<noteq> 0 then 4 else if b2 \<noteq> 0 then 3 else if b1 \<noteq> 0 then 2 else 1)"
    unfolding bs by (simp add: numeral_eq_Suc)
  consider "b3 \<noteq> 0" | "b3 = 0" "b2 \<noteq> 0" | "b3 = 0" "b2 = 0" "b1 \<noteq> 0" | "b3 = 0" "b2 = 0" "b1 = 0" "b0 \<noteq> 0"
    using assms(2) bs by fastforce
  then show ?thesis using assms(3) unfolding kept_bytes_def bs dz [unfolded bs] top_bit Let_def
    by cases (auto simp: minimal_number_def not_le split: if_splits)
qed

definition expiry_ok :: "'k txscript \<Rightarrow> RelativeLocktime \<Rightarrow> bool" where
  "expiry_ok lib l \<longleftrightarrow> lock_time_to_sequence_law (ts_LockTimeToSequence lib) \<and>
     script_number_law (ts_MakeScriptNum lib) \<and>
     (lt_Type l = LocktimeTypeBlock \<longrightarrow> 0 < lt_Value l \<and> unat (lt_Value l) < 2 ^ 16)"

lemma BIP68Sequence_nonzero:
  assumes "expiry_ok lib l" "BIP68Sequence (ts_LockTimeToSequence lib) l = Inr s"
  shows "s \<noteq> 0"
proof (cases "lt_Type l")
  case LocktimeTypeSecond
  let ?k = "drop_bit 9 (lt_Value l)"
  have v: "unat (lt_Value l) \<le> 0xffff * 512" "unat (lt_Value l) mod 512 = 0" and s: "s = 2 ^ 22 OR ?k"
    using assms LocktimeTypeSecond
    by (auto simp: expiry_ok_def BIP68Sequence_def guard_err_eq_Inr Let_def lock_time_to_sequence_law_def locktime_consts)
  have "(2 ^ 22 OR ?k) AND 2 ^ 22 = 2 ^ 22" by (rule flag_or_and_mask(2) [OF seconds_unit(1) [OF v]]) simp
  moreover have "(2 ^ 22 :: u32) \<noteq> 0" by simp
  ultimately show ?thesis using s by (metis and_zero_eq and.commute)
next
  case LocktimeTypeBlock
  then show ?thesis using assms
    by (auto simp: expiry_ok_def BIP68Sequence_def guard_err_eq_Inr Let_def lock_time_to_sequence_law_def)
qed

interpretation expiry_field: psbt_field "VtxoTreeExpiryField lib" "expiry_ok lib" ArkFieldTreeExpiry 0 for lib
proof
  fix v u
  assume ok: "expiry_ok lib v" and e: "co_Encode (VtxoTreeExpiryField lib) v = Inr u"
  then obtain s where s: "BIP68Sequence (ts_LockTimeToSequence lib) v = Inr s" and n: "kept_bytes (PutUint32 s) \<le> 4"
    and u: "u = \<lparr>un_Key = makeArkPsbtKey ArkFieldTreeExpiry, un_Value = take (kept_bytes (PutUint32 s)) (PutUint32 s)\<rparr>"
    by (auto simp: VtxoTreeExpiryField_def rbind_eq_Inr Let_def guard_err_eq_Inr kept_bytes_def)
  let ?b = "take (kept_bytes (PutUint32 s)) (PutUint32 s)"
  have "getLE (PutUint32 s) \<noteq> 0"
    using BIP68Sequence_nonzero [OF ok s] by (metis getLE_PutUint32 ucast_back(1) unsigned_0)
  moreover have "length (PutUint32 s) = 4" by (simp add: PutUint32_def)
  ultimately have b: "minimal_number ?b" "getLE ?b = ucast s"
    using kept_bytes_minimal [OF _ _ n] getLE_PutUint32 [of s] by auto
  have "length ?b \<le> 5" using n by simp
  then have "ts_MakeScriptNum lib ?b True (length ?b) = Inr (ucast s)"
    using ok b by (simp add: expiry_ok_def script_number_law_def)
  then have "BIP68DecodeSequenceFromBytes (ts_MakeScriptNum lib) ?b = Inr v"
    using bip68_decodes [OF _ s] ok by (auto simp: expiry_ok_def)
  then show "co_Decode (VtxoTreeExpiryField lib) u = Inr (Some v)"
    by (simp add: VtxoTreeExpiryField_def u matches_plain_key)
qed (auto simp: VtxoTreeExpiryField_def rbind_eq_Inr Let_def guard_err_eq_Inr matches_plain_key)

subsection \<open>Cosigners\<close>

definition btcec_law :: "'k btcec \<Rightarrow> bool" where
  "btcec_law ec \<longleftrightarrow> (\<forall>k. ec_ParsePubKey ec (ec_SerializeCompressed ec k) = Inr k)"

lemma Uint32BE_Put: "Uint32BE (PutUint32BE v) = v"
  by (simp add: Uint32BE_def PutUint32BE_def getLE_PutUint32 ucast_back)

definition cosigner_ok :: "'k btcec \<Rightarrow> 'k IndexedCosignerPublicKey \<Rightarrow> bool" where
  "cosigner_ok ec k \<longleftrightarrow> btcec_law ec \<and> 0 \<le> ick_Index k \<and> ick_Index k < 2 ^ 32"

interpretation cosigner_field:
  psbt_field "CosignerPublicKeyField ec" "cosigner_ok ec" ArkFieldCosigner cosignerIndexLen for ec
proof
  have len: "length (PutUint32BE v) = cosignerIndexLen" for v
    by (simp add: PutUint32BE_def PutUint32_def cosignerIndexLen_def)
  fix v u
  assume e: "co_Encode (CosignerPublicKeyField ec) v = Inr u"
  then show "matchesArkPsbtKey u ArkFieldCosigner cosignerIndexLen"
    by (auto simp: CosignerPublicKeyField_def matches_own_key len)
  assume "cosigner_ok ec v"
  then have "ec_ParsePubKey ec (ec_SerializeCompressed ec (ick_PublicKey v)) = Inr (ick_PublicKey v)"
    "uint (word_of_int (ick_Index v) :: u32) = ick_Index v"
    by (simp_all add: cosigner_ok_def btcec_law_def uint_word_of_int)
  then show "co_Decode (CosignerPublicKeyField ec) u = Inr (Some v)"
    using e by (auto simp: CosignerPublicKeyField_def matches_own_key len Let_def Uint32BE_Put)
qed (simp add: CosignerPublicKeyField_def)

text \<open>The loop that sets the cosigners of an input, numbered from \<open>i\<close>.\<close>

fun set_cosigners :: "'k btcec \<Rightarrow> nat \<Rightarrow> nat \<Rightarrow> 'k list \<Rightarrow> Psbt \<Rightarrow> Psbt gores" where
  "set_cosigners ec inIndex i [] ptx = Inr ptx"
| "set_cosigners ec inIndex i (cosigner # ks) ptx =
     rbind (SetArkPsbtField ptx inIndex (CosignerPublicKeyField ec)
              \<lparr>ick_Index = int i, ick_PublicKey = cosigner\<rparr>) (set_cosigners ec inIndex (Suc i) ks)"

lemma set_cosigners_get:
  assumes "set_cosigners ec j i ks ptx = Inr ptx'" "btcec_law ec" "i + length ks \<le> 2 ^ 32"
    and "GetArkPsbtFields ptx j (CosignerPublicKeyField ec) = Inr vs"
  shows "GetArkPsbtFields ptx' j (CosignerPublicKeyField ec) =
    Inr (vs @ map (\<lambda>(n, k). \<lparr>ick_Index = int n, ick_PublicKey = k\<rparr>) (enumerate i ks))"
  using assms(1,3,4)
proof (induction ks arbitrary: i ptx vs)
  case (Cons k ks)
  then obtain p1 where p1: "SetArkPsbtField ptx j (CosignerPublicKeyField ec) \<lparr>ick_Index = int i, ick_PublicKey = k\<rparr> = Inr p1"
    "set_cosigners ec j (Suc i) ks p1 = Inr ptx'" by (auto simp: rbind_eq_Inr)
  have "cosigner_ok ec \<lparr>ick_Index = int i, ick_PublicKey = k\<rparr>"
    using assms(2) Cons.prems(2) by (simp add: cosigner_ok_def)
  from cosigner_field.get_set [OF p1(1) this Cons.prems(3)] Cons.IH [OF p1(2)] Cons.prems(2) show ?case
    by simp
qed simp

lemma sorted_cosigners:
  "ParseCosignersToECPubKeys (map (\<lambda>(n, k). \<lparr>ick_Index = int n, ick_PublicKey = k\<rparr>) (enumerate i ks)) = ks"
proof -
  let ?fs = "map (\<lambda>(n, k). \<lparr>ick_Index = int n, ick_PublicKey = k\<rparr>) (enumerate i ks)"
  have "map ick_Index ?fs = map int (map fst (enumerate i ks))" "map ick_PublicKey ?fs = map snd (enumerate i ks)"
    by (simp_all only: map_map comp_def case_prod_beta IndexedCosignerPublicKey.select_convs)
  then have fs: "map ick_Index ?fs = map int [i..<i + length ks]" "map ick_PublicKey ?fs = ks"
    by (simp_all only: map_fst_enumerate map_snd_enumerate)
  have "sorted (map ick_Index ?fs)" unfolding fs(1) by (simp add: sorted_map)
  then have "sort_key ick_Index ?fs = ?fs" by (rule sort_key_id_if_sorted)
  then show ?thesis by (simp only: ParseCosignersToECPubKeys_def fs(2))
qed

lemma cosigners_roundtrip:
  assumes "set_cosigners ec j 0 ks ptx = Inr ptx'" "btcec_law ec" "length ks \<le> 2 ^ 32"
    and "GetArkPsbtFields ptx j (CosignerPublicKeyField ec) = Inr []"
  shows "ParseCosignerKeysFromArkPsbt ec ptx' j = Inr ks"
  using set_cosigners_get [OF assms(1,2) _ assms(4)] assms(3) sorted_cosigners [of 0 ks]
  by (simp add: ParseCosignerKeysFromArkPsbt_def)

subsection \<open>Condition witnesses\<close>

text \<open>What btcd documents of the serialisation of witnesses: the number of items, then each item with its
  length, all lengths as variable-length integers.\<close>

definition witness_law :: "'k txscript \<Rightarrow> (bytes list \<Rightarrow> bytes gores) \<Rightarrow> bool" where
  "witness_law lib writeTxWitness \<longleftrightarrow>
     (\<exists>varInt :: nat \<Rightarrow> bytes.
        (\<forall>n. n < 2 ^ 64 \<longrightarrow> varInt n \<noteq> [] \<and> (\<forall>r. ts_ReadVarInt lib (varInt n @ r) = Inr (of_nat n, r))) \<and>
        (\<forall>b r m. length b \<le> m \<and> length b < 2 ^ 64 \<longrightarrow>
           ts_ReadVarBytes lib m (varInt (length b) @ b @ r) = Inr (b, r)) \<and>
        (\<forall>w b. writeTxWitness w = Inr b \<longrightarrow>
           b = varInt (length w) @ concat (map (\<lambda>i. varInt (length i) @ i) w)))"

definition witness_ok :: "'k txscript \<Rightarrow> (bytes list \<Rightarrow> bytes gores) \<Rightarrow> bytes list \<Rightarrow> bool" where
  "witness_ok lib writeTxWitness w \<longleftrightarrow>
     witness_law lib writeTxWitness \<and> length w < 2 ^ 64 \<and> (\<forall>i \<in> set w. length i \<le> MaxScriptSize)"

lemma witness_read_back:
  assumes "witness_ok lib wr w" "wr w = Inr b"
  shows "ReadTxWitness lib b = Inr w"
proof -
  obtain varInt :: "nat \<Rightarrow> bytes" where
    vi: "\<And>n r. n < 2 ^ 64 \<Longrightarrow> ts_ReadVarInt lib (varInt n @ r) = Inr (of_nat n, r)" "\<And>n. n < 2 ^ 64 \<Longrightarrow> varInt n \<noteq> []"
    and vb: "\<And>b r m. length b \<le> m \<Longrightarrow> length b < 2 ^ 64 \<Longrightarrow> ts_ReadVarBytes lib m (varInt (length b) @ b @ r) = Inr (b, r)"
    and b: "b = varInt (length w) @ concat (map (\<lambda>i. varInt (length i) @ i) w)"
  proof -
    have "witness_law lib wr" using assms(1) by (simp add: witness_ok_def)
    then show thesis using that assms(2) unfolding witness_law_def by (elim exE conjE) blast
  qed
  let ?c = "\<lambda>w. concat (map (\<lambda>i. varInt (length i) @ i) w)"
  have small: "\<forall>i \<in> set w. length i \<le> MaxScriptSize \<and> length i < 2 ^ 64"
    using assms(1) by (force simp: witness_ok_def MaxScriptSize_def)
  have n: "unat (of_nat (length w) :: u64) = length w"
    using assms(1) by (simp add: witness_ok_def unat_of_nat take_bit_nat_eq_self)
  have items: "read_n (ts_ReadVarBytes lib MaxScriptSize) (length w) (?c w) = Inr (w, []) \<and> length w \<le> length (?c w)"
    using small
  proof (induction w)
    case (Cons i w)
    then have "0 < length (varInt (length i))" using vi(2) by simp
    moreover have "length w \<le> length (?c w)" using Cons by simp
    ultimately have "Suc (length w) \<le> length (varInt (length i)) + (length i + length (?c w))" by linarith
    then show ?case using Cons vb [of i MaxScriptSize] by simp
  qed simp
  have "ts_ReadVarInt lib b = Inr (of_nat (length w), ?c w)"
    using vi(1) assms(1) by (simp add: b witness_ok_def)
  then show ?thesis using items n by (simp add: ReadTxWitness_def guard_err_def)
qed

interpretation condition_field:
  psbt_field "ConditionWitnessField lib wr" "witness_ok lib wr" ArkFieldConditionWitness 0 for lib wr
proof
  fix v u
  assume "witness_ok lib wr v" and e: "co_Encode (ConditionWitnessField lib wr) v = Inr u"
  then show "co_Decode (ConditionWitnessField lib wr) u = Inr (Some v)"
    by (auto simp: ConditionWitnessField_def rbind_eq_Inr matches_plain_key witness_read_back)
qed (auto simp: ConditionWitnessField_def rbind_eq_Inr matches_plain_key)

subsection \<open>Properties\<close>

text \<open>a list of tapscripts that encodes is read back, in lower case, exactly when it has at most 400
  scripts, none is longer than the largest script, and the last one is not empty: reading an empty
  script at the end reports the end of the input.\<close>

theorem taptree_read_back_iff:
  assumes "TapTree_Encode t = Inr b" and "\<forall>x \<in> set t. length x < 2 ^ 64"
  shows "\<exists>scripts. map hex_DecodeString t = map Inr scripts \<and>
    (\<forall>t'. DecodeTapTree b = Inr t' \<longleftrightarrow>
       length t \<le> MaxLeaves \<and> taptree_readable scripts \<and> t' = map hex_EncodeToString scripts)"
  using assms by (rule taptree_read_back)

theorem taptree_read_back_iff_witness:
  "\<exists>b. TapTree_Encode [''51'', ''''] = Inr b \<and> (\<nexists>t'. DecodeTapTree b = Inr t')"
proof -
  have e: "TapTree_Encode [''51'', ''''] = Inr [1, 0xc0, 1, 0x51, 1, 0xc0, 0]" by code_simp
  have "\<forall>x \<in> set [''51'', '''']. length x < 2 ^ 64" by simp
  from taptree_read_back_iff [OF e this] obtain scripts where
    s: "map hex_DecodeString [''51'', ''''] = map Inr scripts"
    "\<And>t'. DecodeTapTree [1, 0xc0, 1, 0x51, 1, 0xc0, 0] = Inr t' \<longrightarrow> taptree_readable scripts" by blast
  have "map hex_DecodeString [''51'', ''''] = map Inr [[0x51], []]" by code_simp
  then have "scripts = [[0x51], []]" using s(1) by (metis inj_Inr inj_map_eq_map)
  then have "\<not> taptree_readable scripts" by (simp add: taptree_readable_def)
  then show ?thesis using s(2) e by blast
qed

lemma keys_apart:
  "matchesArkPsbtKey u name' n' \<Longrightarrow> length name + n \<noteq> length name' + n' \<Longrightarrow> \<not> matchesArkPsbtKey u name n"
  using matchesArkPsbtKey_length by blast

text \<open>the four fields of an input do not disturb each other: when all four are set on an input without
  fields, each is read back alone.\<close>

theorem psbt_fields_independent:
  assumes "SetArkPsbtField ptx i VtxoTaprootTreeField t = Inr p1"
    and "SetArkPsbtField p1 i (VtxoTreeExpiryField lib) l = Inr p2"
    and "SetArkPsbtField p2 i (CosignerPublicKeyField ec) k = Inr p3"
    and "SetArkPsbtField p3 i (ConditionWitnessField lib wr) w = Inr p4"
    and "taptree_ok t" "expiry_ok lib l" "cosigner_ok ec k" "witness_ok lib wr w"
    and "psbt_Unknowns ptx ! i = []"
  shows "GetArkPsbtFields p4 i VtxoTaprootTreeField = Inr [t] \<and>
    GetArkPsbtFields p4 i (VtxoTreeExpiryField lib) = Inr [l] \<and>
    GetArkPsbtFields p4 i (CosignerPublicKeyField ec) = Inr [k] \<and>
    GetArkPsbtFields p4 i (ConditionWitnessField lib wr) = Inr [w]"
proof -
  let ?T = VtxoTaprootTreeField and ?E = "VtxoTreeExpiryField lib" and ?C = "CosignerPublicKeyField ec" and ?W = "ConditionWitnessField lib wr"
  have len: "length ArkFieldTaprootTree + 0 = 7" "length ArkFieldTreeExpiry + 0 = 6"
    "length ArkFieldCosigner + cosignerIndexLen = 12" "length ArkFieldConditionWitness + 0 = 9"
    by (simp_all add: field_names)
  have i: "i < length (psbt_Unknowns ptx)" using assms(1) by (auto simp: SetArkPsbtField_def guard_err_def split: if_splits)
  then have none: "GetArkPsbtFields ptx i ?T = Inr []" "GetArkPsbtFields ptx i ?E = Inr []"
    "GetArkPsbtFields ptx i ?C = Inr []" "GetArkPsbtFields ptx i ?W = Inr []"
    using assms(9) by (simp_all add: GetArkPsbtFields_def)
  have keys: "co_Encode ?T t = Inr u \<Longrightarrow> matchesArkPsbtKey u ArkFieldTaprootTree 0"
    "co_Encode ?E l = Inr u \<Longrightarrow> matchesArkPsbtKey u ArkFieldTreeExpiry 0"
    "co_Encode ?C k = Inr u \<Longrightarrow> matchesArkPsbtKey u ArkFieldCosigner cosignerIndexLen"
    "co_Encode ?W w = Inr u \<Longrightarrow> matchesArkPsbtKey u ArkFieldConditionWitness 0" for u
    by (rule taptree_field.encode_key expiry_field.encode_key cosigner_field.encode_key condition_field.encode_key; assumption)+
  have T: "GetArkPsbtFields p4 i ?T = GetArkPsbtFields p1 i ?T"
    using taptree_field.get_set_other [OF assms(2) keys_apart [OF keys(2)]]
      taptree_field.get_set_other [OF assms(3) keys_apart [OF keys(3)]]
      taptree_field.get_set_other [OF assms(4) keys_apart [OF keys(4)]] len by simp
  have E: "GetArkPsbtFields p1 i ?E = GetArkPsbtFields ptx i ?E" "GetArkPsbtFields p4 i ?E = GetArkPsbtFields p2 i ?E"
    using expiry_field.get_set_other [where lib = lib, OF assms(1) keys_apart [OF keys(1)]]
      expiry_field.get_set_other [where lib = lib, OF assms(3) keys_apart [OF keys(3)]]
      expiry_field.get_set_other [where lib = lib, OF assms(4) keys_apart [OF keys(4)]] len by simp_all
  have C: "GetArkPsbtFields p2 i ?C = GetArkPsbtFields ptx i ?C" "GetArkPsbtFields p4 i ?C = GetArkPsbtFields p3 i ?C"
    using cosigner_field.get_set_other [where ec = ec, OF assms(1) keys_apart [OF keys(1)]]
      cosigner_field.get_set_other [where ec = ec, OF assms(2) keys_apart [OF keys(2)]]
      cosigner_field.get_set_other [where ec = ec, OF assms(4) keys_apart [OF keys(4)]] len by simp_all
  have W: "GetArkPsbtFields p3 i ?W = GetArkPsbtFields ptx i ?W"
    using condition_field.get_set_other [where lib = lib and wr = wr, OF assms(1) keys_apart [OF keys(1)]]
      condition_field.get_set_other [where lib = lib and wr = wr, OF assms(2) keys_apart [OF keys(2)]]
      condition_field.get_set_other [where lib = lib and wr = wr, OF assms(3) keys_apart [OF keys(3)]] len by simp
  show ?thesis
    using taptree_field.get_set [OF assms(1,5) none(1)] expiry_field.get_set [OF assms(2,6), of "[]"]
      cosigner_field.get_set [OF assms(3,7), of "[]"] condition_field.get_set [OF assms(4,8), of "[]"] T E C W none
    by simp
qed

end
