(* ===== verification/Tree_Builder.thy ===== *)
theory Tree_Builder
  imports Psbt_Fields
begin

section \<open>Building and validating trees\<close>

text \<open>
  \<open>pkg/ark-lib/tree\<close>: \<open>builder.go\<close>, which builds vtxo and connector trees from their leaves,
  \<open>validation.go\<close>, the check that a client makes on a vtxo tree, \<open>AggregateKeys\<close> of \<open>musig2.go\<close> and
  \<open>P2TRScript\<close> of \<open>script/script.go\<close>. The aggregation of keys, the tweak of a key, the constructor of PSBTs,
  the sanity check and the hash of a transaction, and the root of the taproot tree with one leaf are
  third-party code, the fields of \<open>lib\<close>. An amount is an \<open>int64\<close>, a 64-bit word.
\<close>

record 'k tree_lib =
  tl_ts :: "'k txscript"
  tl_ec :: "'k btcec"
  tl_env :: tx_env
  tl_ComputeTaprootOutputKey :: "'k \<Rightarrow> bytes \<Rightarrow> 'k"
  tl_AggregateKeys :: "'k list \<Rightarrow> bytes \<Rightarrow> 'k gores"
  tl_psbt_New :: "OutPoint list \<Rightarrow> TxOut list \<Rightarrow> int \<Rightarrow> Psbt gores"
  tl_NewUpdater :: "Psbt \<Rightarrow> unit gores"
  tl_AddInSighashType :: "nat \<Rightarrow> Psbt \<Rightarrow> Psbt gores"
  tl_CheckTransactionSanity :: "MsgTx \<Rightarrow> unit gores"
  tl_TxHash :: "MsgTx \<Rightarrow> bytes"
  tl_TapTreeRoot :: "bytes \<Rightarrow> bytes"

definition vtxoTreeRadix :: nat where "vtxoTreeRadix = 2"
definition connectorsTreeRadix :: nat where "connectorsTreeRadix = 4"

record LeafOutput =
  lo_Amount :: u64
  lo_Script :: string

record Leaf =
  lf_Outputs :: "LeafOutput list"
  lf_CosignersPublicKeys :: "string list"

subsection \<open>Keys and scripts\<close>

text \<open>The final key; an empty tweak is none.\<close>

definition AggregateKeys :: "'k tree_lib \<Rightarrow> 'k list \<Rightarrow> bytes \<Rightarrow> 'k gores" where
  "AggregateKeys lib pubkeys tweak =
     guard_err (length pubkeys = 0) (Errorf ''no pubkeys'')
       (if length pubkeys = 1
        then Inr (if length tweak > 0 then tl_ComputeTaprootOutputKey lib (pubkeys ! 0) tweak else pubkeys ! 0)
        else tl_AggregateKeys lib pubkeys tweak)"

definition P2TRScript :: "'k txscript \<Rightarrow> 'k \<Rightarrow> bytes gores" where
  "P2TRScript ts taprootKey = rbind (ts_AddOp ts OP_1 []) (ts_AddData ts (ts_SerializePubKey ts taprootKey))"

fun unique_loop :: "('k \<Rightarrow> string) \<Rightarrow> string set \<Rightarrow> 'k list \<Rightarrow> 'k list" where
  "unique_loop keyStr seen [] = []"
| "unique_loop keyStr seen (cosigner # ks) =
     (if keyStr cosigner \<in> seen then unique_loop keyStr seen ks
      else cosigner # unique_loop keyStr (insert (keyStr cosigner) seen) ks)"

definition uniqueCosigners :: "'k tree_lib \<Rightarrow> 'k list \<Rightarrow> 'k list" where
  "uniqueCosigners lib cosigners =
     unique_loop (\<lambda>k. hex_EncodeToString (ts_SerializePubKey (tl_ts lib) k)) {} cosigners"

subsection \<open>Nodes\<close>

datatype 'k node =
    leaf (leaf_outputs: "TxOut list") (getInputScript: bytes) (getCosigners: "'k list")
  | branch (getInputScript: bytes) (getCosigners: "'k list") (branch_children: "'k node list")

fun getChildren :: "'k node \<Rightarrow> 'k node list" where
  "getChildren (leaf outs s ks) = []"
| "getChildren (branch s ks children) = children"

fun getAmount :: "'k node \<Rightarrow> u64" where
  "getAmount (leaf outs s ks) = sum_list (map out_Value outs)"
| "getAmount (branch s ks children) = sum_list (map (\<lambda>child. getAmount child + ANCHOR_VALUE) children)"

fun getOutputs :: "'k node \<Rightarrow> TxOut list" where
  "getOutputs (leaf outs s ks) = outs @ [AnchorOutput]"
| "getOutputs (branch s ks children) =
     map (\<lambda>child. \<lparr>out_Value = getAmount child, out_PkScript = getInputScript child\<rparr>) children @ [AnchorOutput]"

definition getTx :: "'k tree_lib \<Rightarrow> 'k node \<Rightarrow> OutPoint \<Rightarrow> RelativeLocktime option \<Rightarrow> Psbt gores" where
  "getTx lib n input expiry =
     rbind (tl_psbt_New lib [input] (getOutputs n) 3) (\<lambda>tx.
     rbind (tl_NewUpdater lib tx) (\<lambda>_.
     rbind (tl_AddInSighashType lib 0 tx) (\<lambda>tx.
     rbind (set_cosigners (tl_ec lib) 0 0 (getCosigners n) tx) (\<lambda>tx.
       case expiry of
         None \<Rightarrow> Inr tx
       | Some e \<Rightarrow> SetArkPsbtField tx 0 (VtxoTreeExpiryField (tl_ts lib)) e))))"

lemma enumerate_child [termination_simp]:
  "(i, c) \<in> set (List.enumerate n cs) \<Longrightarrow> size c < Suc (m + size_list size cs)"
  by (induction cs arbitrary: n) fastforce+

fun node_tree :: "'k tree_lib \<Rightarrow> RelativeLocktime option \<Rightarrow> 'k node \<Rightarrow> OutPoint \<Rightarrow> TxTree gores" where
  "node_tree lib expiry (leaf outs s ks) initialInput =
     rbind (getTx lib (leaf outs s ks) initialInput expiry) (\<lambda>tx.
     rbind (tl_CheckTransactionSanity lib (psbt_UnsignedTx tx)) (\<lambda>_. Inr (TxTree tx [])))"
| "node_tree lib expiry (branch s ks children) initialInput =
     rbind (getTx lib (branch s ks children) initialInput expiry) (\<lambda>tx.
     rbind (map_res (\<lambda>(i, child).
              rbind (node_tree lib expiry child \<lparr>op_Hash = tl_TxHash lib (psbt_UnsignedTx tx), op_Index = of_nat i\<rparr>)
                (\<lambda>subTree. Inr (of_nat i, subTree))) (List.enumerate 0 children)) (\<lambda>subTrees.
       Inr (TxTree tx subTrees)))"

subsection \<open>From the leaves up\<close>

definition leaf_node :: "'k tree_lib \<Rightarrow> bytes \<Rightarrow> Leaf \<Rightarrow> 'k node gores" where
  "leaf_node lib tapTreeRoot l =
     rbind (map_res (\<lambda>cosigner.
       rbind (map_err (\<lambda>e. Errorw ''failed to decode cosigner pubkey: '' (GoHex e)) (hex_DecodeString cosigner))
         (\<lambda>pubkeyBytes. map_err (Errorw ''failed to parse cosigner pubkey: '') (ec_ParsePubKey (tl_ec lib) pubkeyBytes)))
       (lf_CosignersPublicKeys l)) (\<lambda>cosigners.
     let cosigners = uniqueCosigners lib cosigners
     in guard_err (length cosigners = 0) (Errorf ''no cosigners for leaf tx outputs'')
        (rbind (map_err (Errorw ''failed to aggregate keys: '') (AggregateKeys lib cosigners tapTreeRoot)) (\<lambda>finalKey.
         rbind (map_err (Errorw ''failed to create script pubkey: '') (P2TRScript (tl_ts lib) finalKey)) (\<lambda>inputScript.
         rbind (map_res (\<lambda>output.
           rbind (map_err (\<lambda>e. Errorw ''failed to decode output script: '' (GoHex e)) (hex_DecodeString (lo_Script output)))
             (\<lambda>pkScript. Inr \<lparr>out_Value = lo_Amount output, out_PkScript = pkScript\<rparr>)) (lf_Outputs l)) (\<lambda>outputs.
           Inr (leaf outputs inputScript cosigners))))))"

definition branch_node :: "'k tree_lib \<Rightarrow> bytes \<Rightarrow> 'k node list \<Rightarrow> 'k node gores" where
  "branch_node lib tapTreeRoot children =
     (let cosigners = uniqueCosigners lib (concat (map getCosigners children))
      in rbind (AggregateKeys lib cosigners tapTreeRoot) (\<lambda>finalKey.
         rbind (P2TRScript (tl_ts lib) finalKey) (\<lambda>inputPkScript.
           Inr (branch inputPkScript cosigners children))))"

text \<open>The loop over \<open>nodes[i : i+radix]\<close>, for a radix that is not zero.\<close>

function group_nodes :: "'k tree_lib \<Rightarrow> bytes \<Rightarrow> nat \<Rightarrow> 'k node list \<Rightarrow> 'k node list gores" where
  "group_nodes lib tapTreeRoot radix nodes =
     (if nodes = [] \<or> radix = 0 then Inr []
      else rbind (branch_node lib tapTreeRoot (take radix nodes)) (\<lambda>b.
           rbind (group_nodes lib tapTreeRoot radix (drop radix nodes)) (\<lambda>bs. Inr (b # bs))))"
  by auto
termination by (relation "measure (\<lambda>(_, _, _, nodes). length nodes)") auto

declare group_nodes.simps [simp del]

function createUpperLevel :: "'k tree_lib \<Rightarrow> bytes \<Rightarrow> 'k node list \<Rightarrow> nat \<Rightarrow> 'k node list gores" where
  "createUpperLevel lib tapTreeRoot nodes radix =
     (if length nodes \<le> 1 then Inr nodes
      else if length nodes < radix then createUpperLevel lib tapTreeRoot nodes (length nodes)
      else let remainder = length nodes mod radix
           in if remainder \<noteq> 0
              then let k = length nodes - remainder
                   in rbind (createUpperLevel lib tapTreeRoot (take k nodes) radix) (\<lambda>groups.
                        Inr (groups @ drop k nodes))
              else group_nodes lib tapTreeRoot radix nodes)"
  by auto
termination
  by (relation "measure (\<lambda>(_, _, nodes, radix). length nodes + radix)") (auto simp: min_def)

declare createUpperLevel.simps [simp del]

text \<open>The loop \<open>for len(nodes) > 1\<close>: \<open>None\<close> when it does not end.\<close>

partial_function (option) upper_levels ::
    "'k tree_lib \<Rightarrow> bytes \<Rightarrow> nat \<Rightarrow> 'k node list \<Rightarrow> 'k node gores option" where
  "upper_levels lib tapTreeRoot radix nodes =
     (if length nodes > 1 then
        (case createUpperLevel lib tapTreeRoot nodes radix of
           Inl err \<Rightarrow> Some (Inl (Errorw ''failed to create tx tree: '' err))
         | Inr nodes' \<Rightarrow> upper_levels lib tapTreeRoot radix nodes')
      else Some (Inr (nodes ! 0)))"

definition createTxTree :: "'k tree_lib \<Rightarrow> Leaf list \<Rightarrow> bytes \<Rightarrow> nat \<Rightarrow> 'k node gores option" where
  "createTxTree lib leaves tapTreeRoot radix =
     (if length leaves = 0 then Some (Inl (Errorf ''no receivers provided''))
      else case map_res (leaf_node lib tapTreeRoot) leaves of
             Inl err \<Rightarrow> Some (Inl err)
           | Inr nodes \<Rightarrow> upper_levels lib tapTreeRoot radix nodes)"

text \<open>\<open>BuildBatchOutput\<close> and \<open>BuildConnectorOutput\<close> share their text up to the radix and the tweak.\<close>

definition build_output :: "'k tree_lib \<Rightarrow> Leaf list \<Rightarrow> bytes \<Rightarrow> nat \<Rightarrow> (bytes \<times> u64) gores option" where
  "build_output lib receivers root radix =
     map_option (\<lambda>r. rbind r (\<lambda>n.
       let amount = getAmount n + ANCHOR_VALUE
       in rbind (map_err (Errorw ''failed to aggregate keys: '') (AggregateKeys lib (getCosigners n) root)) (\<lambda>finalKey.
          rbind (map_err (Errorw ''failed to create script pubkey: '') (P2TRScript (tl_ts lib) finalKey)) (\<lambda>scriptPubkey.
            Inr (scriptPubkey, amount))))) (createTxTree lib receivers root radix)"

definition BuildBatchOutput :: "'k tree_lib \<Rightarrow> Leaf list \<Rightarrow> bytes \<Rightarrow> (bytes \<times> u64) gores option" where
  "BuildBatchOutput lib receivers sweepTapTreeRoot = build_output lib receivers sweepTapTreeRoot vtxoTreeRadix"

definition BuildConnectorOutput :: "'k tree_lib \<Rightarrow> Leaf list \<Rightarrow> (bytes \<times> u64) gores option" where
  "BuildConnectorOutput lib receivers = build_output lib receivers [] connectorsTreeRadix"

definition BuildVtxoTree ::
    "'k tree_lib \<Rightarrow> OutPoint \<Rightarrow> Leaf list \<Rightarrow> bytes \<Rightarrow> RelativeLocktime \<Rightarrow> TxTree gores option" where
  "BuildVtxoTree lib rootInput receivers sweepTapTreeRoot vtxoTreeExpiry =
     map_option (\<lambda>r. rbind r (\<lambda>root. node_tree lib (Some vtxoTreeExpiry) root rootInput))
       (createTxTree lib receivers sweepTapTreeRoot vtxoTreeRadix)"

definition BuildConnectorTree :: "'k tree_lib \<Rightarrow> OutPoint \<Rightarrow> Leaf list \<Rightarrow> TxTree gores option" where
  "BuildConnectorTree lib rootInput receivers =
     map_option (\<lambda>r. rbind r (\<lambda>root. node_tree lib None root rootInput))
       (createTxTree lib receivers [] connectorsTreeRadix)"

subsection \<open>Validation\<close>

definition runtime_error :: go_error where
  "runtime_error = Errorf ''runtime error: out of range''"

definition child_cosigners ::
    "'k tree_lib \<Rightarrow> bytes \<Rightarrow> Psbt \<Rightarrow> string \<Rightarrow> 'k gores" where
  "child_cosigners lib tapTreeRoot tx what =
     rbind (map_err (Errorw (''failed to extract cosigners from '' @ what))
              (ParseCosignerKeysFromArkPsbt (tl_ec lib) tx 0)) (\<lambda>cosigners.
     let cosigners = uniqueCosigners lib cosigners
     in guard_err (length cosigners = 0) (Errorf ''missing cosigners public keys'')
          (map_err (Errorw (if what = ''root tx'' then ''unable to aggregate root keys: '' else ''unable to aggregate keys: ''))
             (AggregateKeys lib cosigners tapTreeRoot)))"

definition check_child :: "'k tree_lib \<Rightarrow> bytes \<Rightarrow> MsgTx \<Rightarrow> u32 \<Rightarrow> TxTree \<Rightarrow> unit gores" where
  "check_child lib tapTreeRoot parent childIndex child =
     guard_err (unat childIndex \<ge> length (tx_TxOut parent)) runtime_error
       (let pkScript = out_PkScript (tx_TxOut parent ! unat childIndex)
        in guard_err (length pkScript < 2) runtime_error
           (let previousScriptKey = drop 2 pkScript
            in guard_err (length previousScriptKey \<noteq> 32) (Errorf ''invalid taproot script'')
               (rbind (child_cosigners lib tapTreeRoot (tree_Root child) ''tx'') (\<lambda>finalKey.
                  guard_err (ts_SerializePubKey (tl_ts lib) finalKey \<noteq> previousScriptKey)
                    (Errorf ''invalid taproot script'') (Inr ())))))"

definition sweep_root :: "'k tree_lib \<Rightarrow> 'k \<Rightarrow> RelativeLocktime \<Rightarrow> bytes gores" where
  "sweep_root lib signerPubkey vtxoTreeExpiry =
     rbind (CSVMultisigClosure_Script (tl_ts lib)
              \<lparr>csv_Multisig = \<lparr>ms_PubKeys = [signerPubkey], ms_Type = MultisigTypeChecksig\<rparr>,
               csv_Locktime = vtxoTreeExpiry\<rparr>) (\<lambda>sweepScript. Inr (tl_TapTreeRoot lib sweepScript))"

text \<open>The parsed commitment transaction has as many PSBT outputs as transaction outputs, so the number of the latter stands for
  both. Aggregation gives a key or an error, so the test for a nil key has no counterpart.\<close>

definition ValidateVtxoTree ::
    "'k tree_lib \<Rightarrow> TxTree \<Rightarrow> MsgTx \<Rightarrow> 'k \<Rightarrow> RelativeLocktime \<Rightarrow> unit gores" where
  "ValidateVtxoTree lib vtxoTree commitmentTx signerPubkey vtxoTreeExpiry =
     guard_err (length (tx_TxOut commitmentTx) < 1)
       (Errorf ''invalid number of batch outputs in commitment transaction'')
     (let batchOutput = tx_TxOut commitmentTx ! 0; root = psbt_UnsignedTx (tree_Root vtxoTree)
      in case tx_TxIn root of
           [] \<Rightarrow> Inl runtime_error
         | rootInput # _ \<Rightarrow>
             guard_err
               (env_HashString (tl_env lib) (op_Hash (in_PreviousOutPoint rootInput)) \<noteq>
                  env_TxID (tl_env lib) commitmentTx \<or> op_Index (in_PreviousOutPoint rootInput) \<noteq> 0)
               (Errorf ''invalid vtxo tree root, tx input does not match batch outpoint'')
             (guard_err (outputs_sum root \<noteq> out_Value batchOutput)
               (Errorf ''children amount is different from parent amount'')
             (guard_err (length (Leaves vtxoTree) = 0) (Errorf ''no leaves in the tree'')
             (rbind (sweep_root lib signerPubkey vtxoTreeExpiry) (\<lambda>tapTreeRoot.
              rbind (child_cosigners lib tapTreeRoot (tree_Root vtxoTree) ''root tx'') (\<lambda>rootKey.
              rbind (map_err (Errorw ''unable to build expected batch output script: '') (P2TRScript (tl_ts lib) rootKey))
                (\<lambda>expectedBatchOutputScript.
              guard_err (out_PkScript batchOutput \<noteq> expectedBatchOutputScript)
                (Errorf ''batch output script does not match the vtxo tree root cosigners'')
              (rbind (Validate (tl_env lib) vtxoTree) (\<lambda>_.
                 Apply (\<lambda>_ node.
                   rbind (check_all (\<lambda>(childIndex, child).
                            check_child lib tapTreeRoot (psbt_UnsignedTx (tree_Root node)) childIndex child)
                          (tree_Children node)) (\<lambda>_. Inr ((), True))) vtxoTree ())))))))))"

subsection \<open>Cosigners\<close>

lemma unique_loop_result:
  "distinct (map f (unique_loop f seen ks)) \<and> f ` set (unique_loop f seen ks) \<inter> seen = {}"
  by (induction ks arbitrary: seen) auto

lemma unique_loop_id: "distinct (map f ks) \<Longrightarrow> f ` set ks \<inter> seen = {} \<Longrightarrow> unique_loop f seen ks = ks"
  by (induction ks arbitrary: seen) auto

lemma set_unique_loop: "f ` set ks \<subseteq> f ` set (unique_loop f seen ks) \<union> seen \<and> set (unique_loop f seen ks) \<subseteq> set ks"
  by (induction ks arbitrary: seen) auto

lemma length_unique_loop: "length (unique_loop f seen ks) \<le> length ks"
  by (induction ks arbitrary: seen) (auto simp: le_SucI)

lemma uniqueCosigners_idem [simp]: "uniqueCosigners lib (uniqueCosigners lib ks) = uniqueCosigners lib ks"
  unfolding uniqueCosigners_def
  by (rule unique_loop_id) (use unique_loop_result in \<open>blast+\<close>)

lemma uniqueCosigners_empty_iff: "uniqueCosigners lib ks = [] \<longleftrightarrow> ks = []"
  unfolding uniqueCosigners_def
  using set_unique_loop [where ks = ks and seen = "{}" and f = "\<lambda>k. hex_EncodeToString (ts_SerializePubKey (tl_ts lib) k)"] by auto

lemma length_uniqueCosigners: "length (uniqueCosigners lib ks) \<le> length ks"
  unfolding uniqueCosigners_def by (rule length_unique_loop)

subsection \<open>Well-formed nodes\<close>

text \<open>The leaves below a node, in order, and the depth of the tree below it.\<close>

fun leaf_nodes :: "'k node \<Rightarrow> 'k node list" where
  "leaf_nodes (leaf outs s ks) = [leaf outs s ks]"
| "leaf_nodes (branch s ks cs) = concat (map leaf_nodes cs)"

fun depth :: "'k node \<Rightarrow> nat" where
  "depth (leaf outs s ks) = 0"
| "depth (branch s ks cs) = Suc (Max (insert 0 (depth ` set cs)))"

definition pays_to :: "'k tree_lib \<Rightarrow> bytes \<Rightarrow> 'k list \<Rightarrow> bytes \<Rightarrow> bool" where
  "pays_to lib root ks script \<longleftrightarrow> (\<exists>key. AggregateKeys lib ks root = Inr key \<and> P2TRScript (tl_ts lib) key = Inr script)"

text \<open>The input script of a node pays to the aggregate of its cosigners, which are the cosigners of the
  leaves below it, each once.\<close>

fun node_ok :: "'k tree_lib \<Rightarrow> bytes \<Rightarrow> 'k node \<Rightarrow> bool" where
  "node_ok lib root (leaf outs s ks) \<longleftrightarrow> pays_to lib root ks s \<and> uniqueCosigners lib ks = ks"
| "node_ok lib root (branch s ks cs) \<longleftrightarrow> pays_to lib root ks s \<and> cs \<noteq> [] \<and> length cs < 2 ^ 31 \<and>
     ks = uniqueCosigners lib (concat (map getCosigners cs)) \<and> (\<forall>c \<in> set cs. node_ok lib root c)"

lemma node_ok_pays: "node_ok lib root n \<Longrightarrow> pays_to lib root (getCosigners n) (getInputScript n)"
  by (cases n) auto

lemma node_ok_unique: "node_ok lib root n \<Longrightarrow> uniqueCosigners lib (getCosigners n) = getCosigners n"
  by (cases n) auto

lemma pays_to_nonempty: "pays_to lib root ks s \<Longrightarrow> ks \<noteq> []"
  by (auto simp: pays_to_def AggregateKeys_def)

lemma leaf_node_ok:
  assumes "leaf_node lib root l = Inr n"
  shows "node_ok lib root n \<and> leaf_nodes n = [n] \<and> depth n = 0"
  using assms
  by (auto simp: leaf_node_def rbind_eq_Inr map_err_eq_Inr guard_err_eq_Inr Let_def pays_to_def)

lemma branch_node_ok:
  assumes "branch_node lib root cs = Inr n" "\<forall>c \<in> set cs. node_ok lib root c" "cs \<noteq> []" "length cs < 2 ^ 31"
  shows "node_ok lib root n \<and> leaf_nodes n = concat (map leaf_nodes cs) \<and> (\<forall>k. (\<forall>c \<in> set cs. depth c \<le> k) \<longrightarrow> depth n \<le> Suc k)"
  using assms by (auto simp: branch_node_def rbind_eq_Inr Let_def pays_to_def)

text \<open>What a level is made of, from the level below it.\<close>

definition level_above :: "'k tree_lib \<Rightarrow> bytes \<Rightarrow> 'k node list \<Rightarrow> 'k node list \<Rightarrow> bool" where
  "level_above lib root nodes nodes' \<longleftrightarrow>
     ((\<forall>n \<in> set nodes. node_ok lib root n) \<longrightarrow> (\<forall>n \<in> set nodes'. node_ok lib root n)) \<and>
     concat (map leaf_nodes nodes') = concat (map leaf_nodes nodes) \<and>
     (\<forall>k. (\<forall>n \<in> set nodes. depth n \<le> k) \<longrightarrow> (\<forall>n \<in> set nodes'. depth n \<le> Suc k))"

lemma level_above_refl [simp]: "level_above lib root nodes nodes"
  by (auto simp: level_above_def le_SucI)

lemma level_above_append:
  "level_above lib root a a' \<Longrightarrow> level_above lib root b b' \<Longrightarrow> level_above lib root (a @ b) (a' @ b')"
  by (auto simp: level_above_def)

lemma branch_above:
  assumes "branch_node lib root cs = Inr n" "cs \<noteq> []" "length cs < 2 ^ 31"
  shows "level_above lib root cs [n]"
proof -
  have "leaf_nodes n = concat (map leaf_nodes cs)" "\<forall>k. (\<forall>c \<in> set cs. depth c \<le> k) \<longrightarrow> depth n \<le> Suc k"
    using assms(1) by (auto simp: branch_node_def rbind_eq_Inr Let_def)
  then show ?thesis using branch_node_ok [OF assms(1) _ assms(2,3)] by (auto simp: level_above_def)
qed

lemma group_nodes_above:
  "group_nodes lib root radix nodes = Inr nodes' \<Longrightarrow> 0 < radix \<Longrightarrow> radix < 2 ^ 31 \<Longrightarrow> radix dvd length nodes \<Longrightarrow>
     level_above lib root nodes nodes' \<and> length nodes' * radix = length nodes"
proof (induction lib root radix nodes arbitrary: nodes' rule: group_nodes.induct)
  case (1 lib root radix nodes)
  show ?case
  proof (cases "nodes = []")
    case False
    then obtain b bs where b: "branch_node lib root (take radix nodes) = Inr b"
      "group_nodes lib root radix (drop radix nodes) = Inr bs" "nodes' = b # bs"
      using 1(2,3) by (auto simp: group_nodes.simps [of lib root radix nodes] rbind_eq_Inr)
    have le: "radix \<le> length nodes" using 1(5) False by (auto dest: dvd_imp_le)
    then have dv: "radix dvd length (drop radix nodes)" using 1(5) by simp
    have IH: "level_above lib root (drop radix nodes) bs \<and> length bs * radix = length (drop radix nodes)"
      using 1(1) [OF _ b(2) 1(3,4) dv] False 1(3) by simp
    have "level_above lib root (take radix nodes) [b]"
      by (rule branch_above [OF b(1)]) (use False 1(3,4) le in auto)
    from level_above_append [OF this conjunct1 [OF IH]] IH b(3) le show ?thesis by (auto simp: add.commute)
  qed (use 1(2) in \<open>simp add: group_nodes.simps\<close>)
qed

lemma level_length: "0 < (q :: nat) \<Longrightarrow> 2 \<le> r \<Longrightarrow> s < r \<Longrightarrow> 2 * (q + s) \<le> q * r + s + 1"
proof -
  assume a: "0 < q" "2 \<le> r" "s < r"
  obtain q' r' where "q = Suc q'" "r = Suc (Suc r')" using a by (metis add_2_eq_Suc gr0_implies_Suc le_Suc_ex)
  then show ?thesis using a(3) by (simp add: algebra_simps)
qed

lemma createUpperLevel_exact:
  assumes "radix dvd length nodes" "radix \<le> length nodes" "1 < length nodes"
  shows "createUpperLevel lib root nodes radix = group_nodes lib root radix nodes"
  using assms by (subst createUpperLevel.simps) auto

lemma createUpperLevel_above:
  assumes "createUpperLevel lib root nodes radix = Inr nodes'" "2 \<le> radix" "radix < 2 ^ 31" "1 < length nodes"
  shows "level_above lib root nodes nodes' \<and> 2 * length nodes' \<le> length nodes + 1 \<and> nodes' \<noteq> []"
proof (cases "length nodes < radix")
  case True
  then have "group_nodes lib root (length nodes) nodes = Inr nodes'"
    using assms(1,4) createUpperLevel_exact [of "length nodes" nodes lib root]
    by (simp add: createUpperLevel.simps [of lib root nodes radix])
  from group_nodes_above [OF this] have "level_above lib root nodes nodes'" "length nodes' = 1"
    using assms(3,4) True by fastforce+
  then show ?thesis using assms(4) by auto
next
  case False
  define s where "s = length nodes mod radix"
  define k where "k = length nodes - s"
  define q where "q = length nodes div radix"
  have k: "k = q * radix" "k \<le> length nodes" "length nodes = q * radix + s" "s < radix"
    using assms(2) by (auto simp: k_def s_def q_def minus_mod_eq_div_mult mult.commute)
  have q: "0 < q" using False assms(2) by (auto simp: q_def div_greater_zero_iff)
  have "radix \<le> k" using k(1) q by (cases q) auto
  then have k1: "radix \<le> k" "1 < k" using assms(2) by auto
  obtain groups where g: "group_nodes lib root radix (take k nodes) = Inr groups" "nodes' = groups @ drop k nodes"
  proof (cases "s = 0")
    case True
    then have "createUpperLevel lib root nodes radix = group_nodes lib root radix nodes"
      using False assms(4) by (intro createUpperLevel_exact) (auto simp: s_def)
    moreover have "k = length nodes" using True by (simp add: k_def)
    ultimately show thesis using that [of nodes'] assms(1) by simp
  next
    case rem: False
    have "createUpperLevel lib root nodes radix =
        rbind (createUpperLevel lib root (take k nodes) radix) (\<lambda>groups. Inr (groups @ drop k nodes))"
      using False assms(4) rem by (subst createUpperLevel.simps) (simp add: Let_def s_def [symmetric] k_def [symmetric])
    moreover have "createUpperLevel lib root (take k nodes) radix = group_nodes lib root radix (take k nodes)"
      using k k1 by (intro createUpperLevel_exact) auto
    ultimately have "rbind (group_nodes lib root radix (take k nodes)) (\<lambda>groups. Inr (groups @ drop k nodes)) = Inr nodes'"
      using assms(1) by simp
    then show thesis using that by (auto simp: rbind_eq_Inr)
  qed
  have "level_above lib root (take k nodes) groups \<and> length groups * radix = length (take k nodes)"
    using group_nodes_above [OF g(1)] assms(2,3) k by auto
  then have la: "level_above lib root (take k nodes) groups" and "length groups * radix = q * radix"
    using k by auto
  then have len: "length groups = q" using assms(2) by simp
  have "level_above lib root (take k nodes @ drop k nodes) nodes'"
    unfolding g(2) by (rule level_above_append [OF la level_above_refl])
  moreover have "2 * length nodes' \<le> length nodes + 1"
    using level_length [OF q assms(2) k(4)] k g(2) len by simp
  moreover have "nodes' \<noteq> []" using g(2) len q by auto
  ultimately show ?thesis by simp
qed

text \<open>The loop over the levels ends, at a root below which all nodes are, at most one level per doubling.\<close>

lemma upper_levels_root:
  assumes "nodes \<noteq> []" "2 \<le> radix" "radix < 2 ^ 31"
  shows "\<exists>r. upper_levels lib root radix nodes = Some r \<and>
    (\<forall>n. r = Inr n \<longrightarrow> ((\<forall>m \<in> set nodes. node_ok lib root m) \<longrightarrow> node_ok lib root n) \<and>
       leaf_nodes n = concat (map leaf_nodes nodes) \<and>
       (\<forall>j k. length nodes \<le> 2 ^ j \<and> (\<forall>m \<in> set nodes. depth m \<le> k) \<longrightarrow> depth n \<le> k + j))"
  using assms(1)
proof (induction "length nodes" arbitrary: nodes rule: less_induct)
  case less
  show ?case
  proof (cases "length nodes > 1")
    case False
    then obtain n where "nodes = [n]" using less.prems by (cases nodes) auto
    then have "upper_levels lib root radix nodes = Some (Inr n)" "nodes = [n]"
      by (simp_all add: upper_levels.simps [of lib root radix "[n]"])
    then show ?thesis by (auto simp: trans_le_add1)
  next
    case True
    show ?thesis
    proof (cases "createUpperLevel lib root nodes radix")
      case (Inl e)
      then show ?thesis using True by (simp add: upper_levels.simps [of lib root radix nodes])
    next
      case (Inr nodes')
      note up = createUpperLevel_above [OF Inr assms(2,3) True]
      have eq: "upper_levels lib root radix nodes = upper_levels lib root radix nodes'"
        using True Inr by (simp add: upper_levels.simps [of lib root radix nodes])
      have "length nodes' < length nodes" using up True by linarith
      then obtain r where r: "upper_levels lib root radix nodes' = Some r"
        "\<And>n. r = Inr n \<Longrightarrow> ((\<forall>m \<in> set nodes'. node_ok lib root m) \<longrightarrow> node_ok lib root n) \<and>
           leaf_nodes n = concat (map leaf_nodes nodes') \<and>
           (\<forall>j k. length nodes' \<le> 2 ^ j \<and> (\<forall>m \<in> set nodes'. depth m \<le> k) \<longrightarrow> depth n \<le> k + j)"
        using less.hyps up by metis
      have "depth n \<le> k + j" if n: "r = Inr n" and j: "length nodes \<le> 2 ^ j" and k: "\<forall>m \<in> set nodes. depth m \<le> k" for n j k
      proof (cases j)
        case 0
        then show ?thesis using j True by simp
      next
        case (Suc j')
        then have "length nodes' \<le> 2 ^ j'" using up j by simp
        moreover have "\<forall>m \<in> set nodes'. depth m \<le> Suc k" using up k by (auto simp: level_above_def)
        ultimately show ?thesis using r(2) [OF n] Suc by fastforce
      qed
      then show ?thesis using eq r up by (auto simp: level_above_def)
    qed
  qed
qed

subsection \<open>The transactions of a tree\<close>

text \<open>What btcd documents of the constructor of PSBTs and of transaction identifiers.\<close>

definition tree_lib_law :: "'k tree_lib \<Rightarrow> bool" where
  "tree_lib_law lib \<longleftrightarrow>
     txscript_law (tl_ts lib) \<and> btcec_law (tl_ec lib) \<and>
     (\<forall>tx. env_HashString (tl_env lib) (tl_TxHash lib tx) = env_TxID (tl_env lib) tx) \<and>
     (\<forall>ins outs v p. tl_psbt_New lib ins outs v = Inr p \<longrightarrow>
        psbt_UnsignedTx p = \<lparr>tx_Version = v, tx_TxIn = map (\<lambda>i. \<lparr>in_PreviousOutPoint = i\<rparr>) ins, tx_TxOut = outs\<rparr> \<and>
        psbt_Unknowns p = replicate (length ins) []) \<and>
     (\<forall>i p p'. tl_AddInSighashType lib i p = Inr p' \<longrightarrow>
        psbt_UnsignedTx p' = psbt_UnsignedTx p \<and> psbt_Unknowns p' = psbt_Unknowns p)"

lemma P2TRScript_bytes:
  assumes "txscript_law ts" "P2TRScript ts key = Inr s"
  shows "s = OP_1 # 0x20 # ts_SerializePubKey ts key" "length (ts_SerializePubKey ts key) = 32"
proof -
  obtain s0 where s0: "ts_AddOp ts OP_1 [] = Inr s0" "ts_AddData ts (ts_SerializePubKey ts key) s0 = Inr s"
    using assms(2) by (auto simp: P2TRScript_def rbind_eq_Inr)
  have "s0 = [OP_1]" using builder_simps(1) [OF assms(1) s0(1)] by simp
  then show "s = OP_1 # 0x20 # ts_SerializePubKey ts key" using builder_simps(3) [OF assms(1) s0(2)] by simp
  show "length (ts_SerializePubKey ts key) = 32" using assms(1) by (simp add: txscript_law_def)
qed

lemma SetArkPsbtField_tx:
  "SetArkPsbtField p i c v = Inr p' \<Longrightarrow> psbt_UnsignedTx p' = psbt_UnsignedTx p"
  by (auto simp: SetArkPsbtField_def guard_err_eq_Inr rbind_eq_Inr)

lemma set_cosigners_tx: "set_cosigners ec j i ks p = Inr p' \<Longrightarrow> psbt_UnsignedTx p' = psbt_UnsignedTx p"
  by (induction ks arbitrary: i p) (auto simp: rbind_eq_Inr dest!: SetArkPsbtField_tx)

lemma getTx_facts:
  assumes "getTx lib n input e = Inr tx" "tree_lib_law lib" "length (getCosigners n) \<le> 2 ^ 32"
  shows "psbt_UnsignedTx tx = \<lparr>tx_Version = 3, tx_TxIn = [\<lparr>in_PreviousOutPoint = input\<rparr>], tx_TxOut = getOutputs n\<rparr>"
    "ParseCosignerKeysFromArkPsbt (tl_ec lib) tx 0 = Inr (getCosigners n)"
proof -
  obtain p1 p2 p3 where p: "tl_psbt_New lib [input] (getOutputs n) 3 = Inr p1" "tl_AddInSighashType lib 0 p1 = Inr p2"
    "set_cosigners (tl_ec lib) 0 0 (getCosigners n) p2 = Inr p3"
    "tx = p3 \<or> (\<exists>l. SetArkPsbtField p3 0 (VtxoTreeExpiryField (tl_ts lib)) l = Inr tx)"
    using assms(1) unfolding getTx_def by (cases e) (fastforce simp: rbind_eq_Inr)+
  have p2: "psbt_UnsignedTx p2 = \<lparr>tx_Version = 3, tx_TxIn = [\<lparr>in_PreviousOutPoint = input\<rparr>], tx_TxOut = getOutputs n\<rparr>"
    "psbt_Unknowns p2 = [[]]"
    using assms(2) p(1,2) unfolding tree_lib_law_def by fastforce+
  show "psbt_UnsignedTx tx = \<lparr>tx_Version = 3, tx_TxIn = [\<lparr>in_PreviousOutPoint = input\<rparr>], tx_TxOut = getOutputs n\<rparr>"
    using p(4) set_cosigners_tx [OF p(3)] p2(1) SetArkPsbtField_tx by metis
  have "GetArkPsbtFields p2 0 (CosignerPublicKeyField (tl_ec lib)) = Inr []" by (simp add: GetArkPsbtFields_def p2)
  then have p3: "ParseCosignerKeysFromArkPsbt (tl_ec lib) p3 0 = Inr (getCosigners n)"
    using cosigners_roundtrip [OF p(3)] assms(2,3) by (simp add: tree_lib_law_def)
  have "GetArkPsbtFields tx 0 (CosignerPublicKeyField (tl_ec lib)) = GetArkPsbtFields p3 0 (CosignerPublicKeyField (tl_ec lib))"
    using p(4)
  proof
    assume "\<exists>l. SetArkPsbtField p3 0 (VtxoTreeExpiryField (tl_ts lib)) l = Inr tx"
    then obtain l where l: "SetArkPsbtField p3 0 (VtxoTreeExpiryField (tl_ts lib)) l = Inr tx" by blast
    show ?thesis
    proof (rule cosigner_field.get_set_other [OF l])
      fix u assume "co_Encode (VtxoTreeExpiryField (tl_ts lib)) l = Inr u"
      then have "matchesArkPsbtKey u ArkFieldTreeExpiry 0" by (rule expiry_field.encode_key)
      then show "\<not> matchesArkPsbtKey u ArkFieldCosigner cosignerIndexLen"
        by (rule keys_apart) (simp add: field_names)
    qed
  qed simp
  then show "ParseCosignerKeysFromArkPsbt (tl_ec lib) tx 0 = Inr (getCosigners n)"
    using p3 by (simp add: ParseCosignerKeysFromArkPsbt_def)
qed

lemma getOutputs_sum: "sum_list (map out_Value (getOutputs n)) = getAmount n"
  by (cases n) (auto simp: AnchorOutput_def ANCHOR_VALUE_def comp_def)

text \<open>The number of cosigner entries of the leaves bounds the cosigners of every node.\<close>

definition weight :: "'k node \<Rightarrow> nat" where
  "weight n = sum_list (map (length \<circ> getCosigners) (leaf_nodes n))"

lemma weight_branch: "weight (branch s ks cs) = sum_list (map weight cs)"
  by (induction cs) (auto simp: weight_def)

lemma cosigners_le_weight: "node_ok lib root n \<Longrightarrow> length (getCosigners n) \<le> weight n"
proof (induction n)
  case (branch s ks cs)
  have "\<forall>c \<in> set cs. length (getCosigners c) \<le> weight c" using branch by simp
  then have "length (concat (map getCosigners cs)) \<le> sum_list (map weight cs)"
    by (induction cs) (auto simp: add_mono)
  then show ?case using branch.prems length_uniqueCosigners [of lib "concat (map getCosigners cs)"]
    unfolding weight_branch by auto
qed (simp add: weight_def)

lemma weight_child: "c \<in> set cs \<Longrightarrow> weight c \<le> weight (branch s ks cs)"
  unfolding weight_branch by (simp add: member_le_sum_list)

subsection \<open>What is built is valid\<close>

lemma Apply_checks:
  "Apply (\<lambda>_ node. rbind (f node) (\<lambda>_. Inr ((), True))) t () = Inr () \<longleftrightarrow> (\<forall>s \<in> set (subtrees t). f s = Inr ())"
proof (induction t rule: subtrees.induct)
  case (1 r cs)
  let ?A = "Apply (\<lambda>_ node. rbind (f node) (\<lambda>_. Inr ((), True)))"
  have "Apply_list (\<lambda>_ (k, c). ?A c ()) ks () = Inr () \<longleftrightarrow> (\<forall>(k, c) \<in> set ks. ?A c () = Inr ())" for ks :: "(u32 \<times> TxTree) list"
    by (induction ks) (auto simp: rbind_eq_Inr)
  then show ?case using 1 by (auto simp: rbind_eq_Inr)
qed

text \<open>A tree built from a well-formed node.\<close>

definition tree_ok :: "'k tree_lib \<Rightarrow> bytes \<Rightarrow> 'k node \<Rightarrow> OutPoint \<Rightarrow> TxTree \<Rightarrow> bool" where
  "tree_ok lib root n input t \<longleftrightarrow>
     psbt_UnsignedTx (tree_Root t) =
       \<lparr>tx_Version = 3, tx_TxIn = [\<lparr>in_PreviousOutPoint = input\<rparr>], tx_TxOut = getOutputs n\<rparr> \<and>
     ParseCosignerKeysFromArkPsbt (tl_ec lib) (tree_Root t) 0 = Inr (getCosigners n) \<and>
     Validate (tl_env lib) t = Inr () \<and>
     (\<forall>s \<in> set (subtrees t). \<forall>(k, c) \<in> set (tree_Children s).
        check_child lib root (psbt_UnsignedTx (tree_Root s)) k c = Inr ()) \<and>
     map (\<lambda>p. tx_TxOut (psbt_UnsignedTx p)) (Leaves t) = map getOutputs (leaf_nodes n)"

lemma child_cosigners_ok:
  assumes "ParseCosignerKeysFromArkPsbt (tl_ec lib) tx 0 = Inr ks" "uniqueCosigners lib ks = ks"
    "AggregateKeys lib ks root = Inr key"
  shows "child_cosigners lib root tx what = Inr key"
proof -
  have "ks \<noteq> []" using assms(3) by (auto simp: AggregateKeys_def)
  then show ?thesis using assms by (simp add: child_cosigners_def Let_def)
qed

lemma check_child_ok:
  assumes "tree_lib_law lib" "node_ok lib root n" "tree_ok lib root n input t"
    and "unat k < length (tx_TxOut parent)" "out_PkScript (tx_TxOut parent ! unat k) = getInputScript n"
  shows "check_child lib root parent k t = Inr ()"
proof -
  obtain key where key: "AggregateKeys lib (getCosigners n) root = Inr key" "P2TRScript (tl_ts lib) key = Inr (getInputScript n)"
    using node_ok_pays [OF assms(2)] by (auto simp: pays_to_def)
  have "txscript_law (tl_ts lib)" using assms(1) by (simp add: tree_lib_law_def)
  note bytes = P2TRScript_bytes [OF this key(2)]
  have "child_cosigners lib root (tree_Root t) ''tx'' = Inr key"
    using assms(3) node_ok_unique [OF assms(2)] key(1) by (intro child_cosigners_ok) (auto simp: tree_ok_def)
  then show ?thesis using assms(4,5) bytes by (simp add: check_child_def Let_def)
qed

lemma enumerate_nth: "(i, x) \<in> set (List.enumerate 0 xs) \<longleftrightarrow> i < length xs \<and> x = xs ! i"
  by (force simp: in_set_enumerate_eq)

lemma map_res_pairs:
  assumes "map_res (\<lambda>(i, c). rbind (g i c) (\<lambda>t. Inr (of_nat i, t))) (List.enumerate n cs) = Inr ts"
  shows "map fst ts = map of_nat [n..<n + length cs] \<and> length ts = length cs \<and>
    (\<forall>i < length cs. g (n + i) (cs ! i) = Inr (snd (ts ! i)))"
  using assms
proof (induction cs arbitrary: n ts)
  case (Cons c cs)
  then obtain t ts' where t: "g n c = Inr t" "ts = (of_nat n, t) # ts'"
    "map_res (\<lambda>(i, c). rbind (g i c) (\<lambda>t. Inr (of_nat i, t))) (List.enumerate (Suc n) cs) = Inr ts'"
    by (auto simp: rbind_eq_Inr)
  note IH = Cons.IH [OF t(3)]
  have "g (n + i) ((c # cs) ! i) = Inr (snd (ts ! i))" if "i < length (c # cs)" for i
    using that IH t(1,2) by (cases i) auto
  then show ?case using IH t(2) by (simp add: upt_conv_Cons del: upt_Suc)
qed simp

lemma node_tree_ok:
  assumes "tree_lib_law lib"
  shows "node_tree lib e n input = Inr t \<Longrightarrow> node_ok lib root n \<Longrightarrow> weight n \<le> 2 ^ 32 \<Longrightarrow> tree_ok lib root n input t"
proof (induction n arbitrary: input t)
  case (leaf outs s ks)
  have "length (getCosigners (node.leaf outs s ks)) \<le> 2 ^ 32"
    using cosigners_le_weight [OF leaf(2)] leaf(3) by linarith
  moreover obtain tx where tx: "getTx lib (node.leaf outs s ks) input e = Inr tx" "t = TxTree tx []"
    using leaf(1) by (auto simp: rbind_eq_Inr)
  ultimately have f: "psbt_UnsignedTx tx = \<lparr>tx_Version = 3, tx_TxIn = [\<lparr>in_PreviousOutPoint = input\<rparr>], tx_TxOut = getOutputs (node.leaf outs s ks)\<rparr>"
    "ParseCosignerKeysFromArkPsbt (tl_ec lib) tx 0 = Inr ks"
    using getTx_facts [OF _ assms] by fastforce+
  then show ?case by (simp add: tree_ok_def tx(2) Let_def)
next
  case (branch s ks cs)
  have w: "length (getCosigners (node.branch s ks cs)) \<le> 2 ^ 32"
    using cosigners_le_weight [OF branch(3)] branch(4) by linarith
  obtain tx ts where tx: "getTx lib (node.branch s ks cs) input e = Inr tx" "t = TxTree tx ts"
    "map_res (\<lambda>(i, child). rbind (node_tree lib e child \<lparr>op_Hash = tl_TxHash lib (psbt_UnsignedTx tx), op_Index = of_nat i\<rparr>)
       (\<lambda>subTree. Inr (of_nat i, subTree))) (List.enumerate 0 cs) = Inr ts"
    using branch(2) by (auto simp: rbind_eq_Inr)
  let ?h = "tl_TxHash lib (psbt_UnsignedTx tx)" and ?b = "node.branch s ks cs"
  note f = getTx_facts [OF tx(1) assms w]
  have small: "length cs < 2 ^ 31" and cs: "cs \<noteq> []" and ok: "\<And>i. i < length cs \<Longrightarrow> node_ok lib root (cs ! i)"
    using branch(3) by auto
  have un: "unat (of_nat i :: u32) = i" if "i \<le> length cs + 1" for i
    using that small by (simp add: unat_of_nat take_bit_nat_eq_self)
  have pairs: "length ts = length cs" "\<And>i. i < length cs \<Longrightarrow> fst (ts ! i) = of_nat i"
    "\<And>i. i < length cs \<Longrightarrow> node_tree lib e (cs ! i) \<lparr>op_Hash = ?h, op_Index = of_nat i\<rparr> = Inr (snd (ts ! i))"
  proof -
    note mp = map_res_pairs [OF tx(3)]
    show len: "length ts = length cs" using mp by simp
    show "node_tree lib e (cs ! i) \<lparr>op_Hash = ?h, op_Index = of_nat i\<rparr> = Inr (snd (ts ! i))" if "i < length cs" for i
      using mp that by simp
    show "fst (ts ! i) = of_nat i" if "i < length cs" for i
    proof -
      have "map fst ts ! i = of_nat i" using mp that by simp
      then show ?thesis using that len by simp
    qed
  qed
  have child: "tree_ok lib root (cs ! i) \<lparr>op_Hash = ?h, op_Index = of_nat i\<rparr> (snd (ts ! i))" if i: "i < length cs" for i
  proof -
    have "weight (cs ! i) \<le> 2 ^ 32" using weight_child [of "cs ! i" cs s ks] branch(4) i by simp
    then show ?thesis using branch(1) [OF _ pairs(3) [OF i] ok [OF i]] i by simp
  qed
  have out: "getOutputs ?b ! i = \<lparr>out_Value = getAmount (cs ! i), out_PkScript = getInputScript (cs ! i)\<rparr>" if "i < length cs" for i
    using that by (simp add: nth_append)
  have mem: "\<exists>i < length cs. k = of_nat i \<and> c = snd (ts ! i)" if "(k, c) \<in> set ts" for k c
    using that pairs(1,2) by (metis fst_conv in_set_conv_nth snd_conv)
  have check: "check_child lib root (psbt_UnsignedTx tx) k c = Inr ()" if kc: "(k, c) \<in> set ts" for k c
  proof -
    obtain i where i: "i < length cs" "k = of_nat i" "c = snd (ts ! i)" using mem [OF kc] by blast
    have len: "length (getOutputs ?b) = length cs + 1" by simp
    show ?thesis unfolding i(2,3)
      by (rule check_child_ok [OF assms ok [OF i(1)] child [OF i(1)]])
        (use i un [of i] f(1) out [OF i(1)] len in \<open>simp_all del: getOutputs.simps\<close>)
  qed
  have valid: "Validate (tl_env lib) (TxTree tx ts) = Inr ()"
    unfolding Validate_iff Let_def f(1)
  proof (intro conjI, simp_all del: getOutputs.simps, goal_cases)
    case 1
    have "length (getOutputs ?b) = length cs + 1" by simp
    then show ?case using un [of "length cs"] pairs(1) by simp
  next
    case 2
    show ?case
    proof clarify
      fix k c assume kc: "(k, c) \<in> set ts"
      then obtain i where i: "i < length cs" "k = of_nat i" "c = snd (ts ! i)" using mem by blast
      have lt: "(of_nat i :: u32) < of_nat (length (getOutputs ?b))"
        using un [of i] un [of "length cs + 1"] i(1) by (simp add: word_less_nat_alt)
      have "validate_child (tl_env lib) (psbt_UnsignedTx tx) k (psbt_UnsignedTx (tree_Root c)) = Inr ()"
        unfolding validate_child_iff
        using child [OF i(1)] i un [of i] f(1) out [OF i(1)] assms
        by (simp add: tree_ok_def tree_lib_law_def outputs_sum_def getOutputs_sum del: getOutputs.simps)
      then show "k < of_nat (length (getOutputs ?b)) \<and> Validate (tl_env lib) c = Inr () \<and>
          validate_child (tl_env lib) \<lparr>tx_Version = 3, tx_TxIn = [\<lparr>in_PreviousOutPoint = input\<rparr>], tx_TxOut = getOutputs ?b\<rparr>
            k (psbt_UnsignedTx (tree_Root c)) = Inr ()"
        using lt child [OF i(1)] i f(1) by (simp add: tree_ok_def del: getOutputs.simps)
    qed
  qed
  have "map (\<lambda>x. map (\<lambda>p. tx_TxOut (psbt_UnsignedTx p)) (Leaves (snd x))) ts = map (\<lambda>c. map getOutputs (leaf_nodes c)) cs"
    using pairs(1) child by (intro nth_equalityI) (auto simp: tree_ok_def)
  moreover have "Leaves (TxTree tx ts) = concat (map (\<lambda>x. Leaves (snd x)) ts)"
    using pairs(1) cs by (simp add: case_prod_unfold)
  ultimately have leaves: "map (\<lambda>p. tx_TxOut (psbt_UnsignedTx p)) (Leaves (TxTree tx ts)) = map getOutputs (leaf_nodes ?b)"
    by (simp add: map_concat comp_def del: Leaves.simps)
  have all: "check_child lib root (psbt_UnsignedTx (tree_Root s)) k c = Inr ()"
    if s: "s \<in> set (subtrees (TxTree tx ts))" and kc: "(k, c) \<in> set (tree_Children s)" for s k c
  proof (cases "s = TxTree tx ts")
    case True
    then show ?thesis using check kc by simp
  next
    case False
    then obtain k' c' where c': "(k', c') \<in> set ts" "s \<in> set (subtrees c')" using s by auto
    then obtain i where i: "i < length cs" "c' = snd (ts ! i)" using mem by blast
    then show ?thesis using child [OF i(1)] c'(2) kc by (auto simp: tree_ok_def)
  qed
  show ?case
    unfolding tree_ok_def tx(2) TxTree.sel
    by (intro conjI f valid leaves) (use all in blast)
qed

text \<open>The outputs that a receiver asks for.\<close>

definition receiver_outputs :: "Leaf \<Rightarrow> TxOut list" where
  "receiver_outputs l =
     map (\<lambda>output. \<lparr>out_Value = lo_Amount output, out_PkScript = projr (hex_DecodeString (lo_Script output))\<rparr>) (lf_Outputs l)"

lemma leaf_node_outputs:
  assumes "leaf_node lib root l = Inr n"
  shows "getOutputs n = receiver_outputs l @ [AnchorOutput]" "length (getCosigners n) \<le> length (lf_CosignersPublicKeys l)"
proof -
  obtain outs s ks where n: "n = leaf outs s (uniqueCosigners lib ks)" and ks: "length ks = length (lf_CosignersPublicKeys l)"
    and outs: "list_all2 (\<lambda>output out. rbind (map_err (\<lambda>e. Errorw ''failed to decode output script: '' (GoHex e))
        (hex_DecodeString (lo_Script output))) (\<lambda>pkScript. Inr \<lparr>out_Value = lo_Amount output, out_PkScript = pkScript\<rparr>) = Inr out)
      (lf_Outputs l) outs"
    using assms
    by (auto simp: leaf_node_def rbind_eq_Inr map_err_eq_Inr guard_err_eq_Inr Let_def map_res_eq_Inr dest: list_all2_lengthD)
  have "list_all2 (\<lambda>output out. out = \<lparr>out_Value = lo_Amount output, out_PkScript = projr (hex_DecodeString (lo_Script output))\<rparr>)
      (lf_Outputs l) outs"
    using outs by (rule list_all2_mono) (auto simp: rbind_eq_Inr map_err_eq_Inr)
  then have "outs = receiver_outputs l"
    unfolding receiver_outputs_def by (induction rule: list_all2_induct) auto
  then show "getOutputs n = receiver_outputs l @ [AnchorOutput]" using n by simp
  show "length (getCosigners n) \<le> length (lf_CosignersPublicKeys l)"
    using n ks length_uniqueCosigners [of lib ks] by simp
qed

lemma createTxTree_returns:
  assumes "2 \<le> radix" "radix < 2 ^ 31"
  shows "\<exists>r. createTxTree lib leaves root radix = Some r"
proof (cases "map_res (leaf_node lib root) leaves")
  case (Inr nodes)
  show ?thesis
  proof (cases leaves)
    case (Cons l ls)
    then have "nodes \<noteq> []" using Inr by (auto simp: rbind_eq_Inr)
    then show ?thesis using upper_levels_root [OF _ assms, of nodes lib root] Inr Cons by (auto simp: createTxTree_def)
  qed (simp add: createTxTree_def)
qed (simp add: createTxTree_def)

lemma createTxTree_root:
  assumes "createTxTree lib leaves root radix = Some (Inr n)" "2 \<le> radix" "radix < 2 ^ 31"
  shows "\<exists>nodes. map_res (leaf_node lib root) leaves = Inr nodes \<and> leaf_nodes n = nodes \<and> node_ok lib root n \<and>
    (\<forall>j. length leaves \<le> 2 ^ j \<longrightarrow> depth n \<le> j)"
proof -
  obtain nodes where nodes: "map_res (leaf_node lib root) leaves = Inr nodes" "leaves \<noteq> []"
    "upper_levels lib root radix nodes = Some (Inr n)"
    using assms(1) by (auto simp: createTxTree_def split: if_splits sum.splits)
  have len: "length nodes = length leaves" and each: "\<forall>i < length leaves. leaf_node lib root (leaves ! i) = Inr (nodes ! i)"
    using nodes(1) by (auto simp: map_res_eq_Inr list_all2_conv_all_nth)
  have ok: "\<forall>m \<in> set nodes. node_ok lib root m \<and> leaf_nodes m = [m] \<and> depth m = 0"
  proof
    fix m assume "m \<in> set nodes"
    then obtain i where "i < length leaves" "m = nodes ! i" using len by (metis in_set_conv_nth)
    then have "leaf_node lib root (leaves ! i) = Inr m" using each by simp
    then show "node_ok lib root m \<and> leaf_nodes m = [m] \<and> depth m = 0" by (rule leaf_node_ok)
  qed
  then have cat: "concat (map leaf_nodes nodes) = nodes" by (induction nodes) auto
  have ne: "nodes \<noteq> []" using len nodes(2) by auto
  obtain r where r: "upper_levels lib root radix nodes = Some r" and rn: "\<forall>n. r = Inr n \<longrightarrow>
      ((\<forall>m \<in> set nodes. node_ok lib root m) \<longrightarrow> node_ok lib root n) \<and> leaf_nodes n = concat (map leaf_nodes nodes) \<and>
      (\<forall>j k. length nodes \<le> 2 ^ j \<and> (\<forall>m \<in> set nodes. depth m \<le> k) \<longrightarrow> depth n \<le> k + j)"
    using upper_levels_root [OF ne assms(2,3), of lib root] by (elim exE conjE)
  have "r = Inr n" using r nodes(3) by simp
  note facts = rn [rule_format, OF this, unfolded cat]
  have "depth n \<le> j" if "length leaves \<le> 2 ^ j" for j
  proof -
    have "length nodes \<le> 2 ^ j \<and> (\<forall>m \<in> set nodes. depth m \<le> 0)" using that len ok by simp
    then have "depth n \<le> 0 + j" using facts by blast
    then show ?thesis by simp
  qed
  moreover have "node_ok lib root n" using facts ok by blast
  ultimately show ?thesis using nodes(1) facts by blast
qed

subsection \<open>Properties\<close>

lemma radix_ok: "2 \<le> vtxoTreeRadix" "vtxoTreeRadix < 2 ^ 31" "2 \<le> connectorsTreeRadix" "connectorsTreeRadix < 2 ^ 31"
  by (simp_all add: vtxoTreeRadix_def connectorsTreeRadix_def)

text \<open>C14: the vtxo tree that the server builds for its receivers, below a commitment transaction whose first
  output is the batch output built for the same receivers, passes the validation that clients make
  on it, and its leaves pay in order exactly what the receivers asked for, next to an anchor.\<close>

theorem built_vtxo_tree_validates:
  assumes law: "tree_lib_law lib"
    and sweep: "sweep_root lib signer expiry = Inr root"
    and batch: "BuildBatchOutput lib receivers root = Some (Inr (script, amount))"
    and out: "tx_TxOut commitmentTx = \<lparr>out_Value = amount, out_PkScript = script\<rparr> # others"
    and tree: "BuildVtxoTree lib \<lparr>op_Hash = tl_TxHash lib commitmentTx, op_Index = 0\<rparr> receivers root expiry = Some (Inr t)"
    and small: "sum_list (map (length \<circ> lf_CosignersPublicKeys) receivers) \<le> 2 ^ 32"
  shows "ValidateVtxoTree lib t commitmentTx signer expiry = Inr () \<and>
    map (\<lambda>p. tx_TxOut (psbt_UnsignedTx p)) (Leaves t) = map (\<lambda>l. receiver_outputs l @ [AnchorOutput]) receivers"
proof -
  let ?input = "\<lparr>op_Hash = tl_TxHash lib commitmentTx, op_Index = 0\<rparr>"
  obtain n where n: "createTxTree lib receivers root vtxoTreeRadix = Some (Inr n)" "node_tree lib (Some expiry) n ?input = Inr t"
    using tree by (auto simp: BuildVtxoTree_def rbind_eq_Inr)
  obtain nodes where nodes: "map_res (leaf_node lib root) receivers = Inr nodes" "leaf_nodes n = nodes" "node_ok lib root n"
    using createTxTree_root [OF n(1) radix_ok(1,2)] by blast
  have each: "list_all2 (\<lambda>l m. leaf_node lib root l = Inr m) receivers nodes" using nodes(1) by (simp add: map_res_eq_Inr)
  then have outs: "map getOutputs nodes = map (\<lambda>l. receiver_outputs l @ [AnchorOutput]) receivers"
    by (induction rule: list_all2_induct) (auto simp: leaf_node_outputs(1))
  have "sum_list (map (length \<circ> getCosigners) nodes) \<le> sum_list (map (length \<circ> lf_CosignersPublicKeys) receivers)"
    using each by (induction rule: list_all2_induct) (auto intro: add_mono leaf_node_outputs(2))
  then have "weight n \<le> 2 ^ 32" using small nodes(2) by (simp add: weight_def)
  then have ok: "tree_ok lib root n ?input t" by (rule node_tree_ok [OF law n(2) nodes(3)])
  obtain key where key: "AggregateKeys lib (getCosigners n) root = Inr key" "P2TRScript (tl_ts lib) key = Inr script"
    and amount: "amount = getAmount n"
    using batch n(1)
    by (auto simp: BuildBatchOutput_def build_output_def rbind_eq_Inr map_err_eq_Inr Let_def ANCHOR_VALUE_def)
  have cos: "child_cosigners lib root (tree_Root t) ''root tx'' = Inr key"
    using ok node_ok_unique [OF nodes(3)] key(1) by (intro child_cosigners_ok) (auto simp: tree_ok_def)
  have "Leaves t \<noteq> []" using ok nodes(2) each tree by (cases receivers) (auto simp: tree_ok_def BuildVtxoTree_def createTxTree_def)
  moreover have "Apply (\<lambda>_ node. rbind (check_all (\<lambda>(k, c). check_child lib root (psbt_UnsignedTx (tree_Root node)) k c)
      (tree_Children node)) (\<lambda>_. Inr ((), True))) t () = Inr ()"
    unfolding Apply_checks check_all_eq_Inr using ok by (auto simp: tree_ok_def)
  moreover have "env_HashString (tl_env lib) (tl_TxHash lib commitmentTx) = env_TxID (tl_env lib) commitmentTx"
    using law by (simp add: tree_lib_law_def)
  ultimately have "ValidateVtxoTree lib t commitmentTx signer expiry = Inr ()"
    using ok cos key(2) out amount getOutputs_sum [of n]
    by (simp add: ValidateVtxoTree_def tree_ok_def sweep outputs_sum_def Let_def del: getOutputs.simps)
  then show ?thesis using ok outs nodes(2) by (simp add: tree_ok_def)
qed

text \<open>C36: building a tree always ends, and a tree of at most \<open>2^j\<close> leaves has at most \<open>j\<close> levels of branches
  above each leaf, for the radix of vtxo trees and for the one of connector trees.\<close>

theorem tree_building_ends_balanced:
  "(\<exists>r. BuildVtxoTree lib input receivers root expiry = Some r) \<and> (\<exists>r. BuildConnectorTree lib input receivers = Some r) \<and>
   (\<forall>radix \<in> {vtxoTreeRadix, connectorsTreeRadix}. \<forall>n j.
      createTxTree lib receivers root radix = Some (Inr n) \<and> length receivers \<le> 2 ^ j \<longrightarrow> depth n \<le> j)"
proof (intro conjI)
  show "\<exists>r. BuildVtxoTree lib input receivers root expiry = Some r"
    using createTxTree_returns [OF radix_ok(1,2), of lib receivers root] by (auto simp: BuildVtxoTree_def)
  show "\<exists>r. BuildConnectorTree lib input receivers = Some r"
    using createTxTree_returns [OF radix_ok(3,4), of lib receivers "[]"] by (auto simp: BuildConnectorTree_def)
qed (use createTxTree_root radix_ok in blast)

text \<open>C15: in a tree that a client accepts for a commitment transaction, the root spends the batch output,
  which pays to the aggregate of the cosigners of the root, the values add up, and the key in every
  inner output is the aggregate of the cosigners of the transaction that spends it.\<close>

theorem accepted_tree_pays_cosigners:
  assumes "ValidateVtxoTree lib t commitmentTx signer expiry = Inr ()"
  shows "\<exists>root rootKeys. sweep_root lib signer expiry = Inr root \<and>
    ParseCosignerKeysFromArkPsbt (tl_ec lib) (tree_Root t) 0 = Inr rootKeys \<and>
    pays_to lib root (uniqueCosigners lib rootKeys) (out_PkScript (tx_TxOut commitmentTx ! 0)) \<and>
    (\<exists>input rest. tx_TxIn (psbt_UnsignedTx (tree_Root t)) = input # rest \<and> op_Index (in_PreviousOutPoint input) = 0 \<and>
       env_HashString (tl_env lib) (op_Hash (in_PreviousOutPoint input)) = env_TxID (tl_env lib) commitmentTx) \<and>
    outputs_sum (psbt_UnsignedTx (tree_Root t)) = out_Value (tx_TxOut commitmentTx ! 0) \<and>
    Validate (tl_env lib) t = Inr () \<and>
    (\<forall>s \<in> set (subtrees t). \<forall>(k, c) \<in> set (tree_Children s). \<exists>ks key.
       ParseCosignerKeysFromArkPsbt (tl_ec lib) (tree_Root c) 0 = Inr ks \<and>
       AggregateKeys lib (uniqueCosigners lib ks) root = Inr key \<and>
       drop 2 (out_PkScript (tx_TxOut (psbt_UnsignedTx (tree_Root s)) ! unat k)) = ts_SerializePubKey (tl_ts lib) key)"
proof -
  have cos: "\<exists>ks. ParseCosignerKeysFromArkPsbt (tl_ec lib) tx 0 = Inr ks \<and> AggregateKeys lib (uniqueCosigners lib ks) root = Inr key"
    if "child_cosigners lib root tx what = Inr key" for root tx what key
    using that by (auto simp: child_cosigners_def rbind_eq_Inr map_err_eq_Inr guard_err_eq_Inr Let_def)
  obtain root key where v: "sweep_root lib signer expiry = Inr root" "child_cosigners lib root (tree_Root t) ''root tx'' = Inr key"
    "P2TRScript (tl_ts lib) key = Inr (out_PkScript (tx_TxOut commitmentTx ! 0))"
    "outputs_sum (psbt_UnsignedTx (tree_Root t)) = out_Value (tx_TxOut commitmentTx ! 0)" "Validate (tl_env lib) t = Inr ()"
    "Apply (\<lambda>_ node. rbind (check_all (\<lambda>(k, c). check_child lib root (psbt_UnsignedTx (tree_Root node)) k c)
      (tree_Children node)) (\<lambda>_. Inr ((), True))) t () = Inr ()"
    using assms unfolding ValidateVtxoTree_def Let_def
    by (auto simp: guard_err_eq_Inr rbind_eq_Inr map_err_eq_Inr split: list.splits)
  have "\<exists>ks key. ParseCosignerKeysFromArkPsbt (tl_ec lib) (tree_Root c) 0 = Inr ks \<and>
      AggregateKeys lib (uniqueCosigners lib ks) root = Inr key \<and>
      drop 2 (out_PkScript (tx_TxOut (psbt_UnsignedTx (tree_Root s)) ! unat k)) = ts_SerializePubKey (tl_ts lib) key"
    if "s \<in> set (subtrees t)" "(k, c) \<in> set (tree_Children s)" for s k c
  proof -
    have "check_child lib root (psbt_UnsignedTx (tree_Root s)) k c = Inr ()"
      using v(6) that unfolding Apply_checks check_all_eq_Inr by auto
    then obtain key' where "child_cosigners lib root (tree_Root c) ''tx'' = Inr key'"
      "ts_SerializePubKey (tl_ts lib) key' = drop 2 (out_PkScript (tx_TxOut (psbt_UnsignedTx (tree_Root s)) ! unat k))"
      by (auto simp: check_child_def Let_def guard_err_eq_Inr rbind_eq_Inr)
    then show ?thesis using cos by fastforce
  qed
  moreover have "\<exists>input rest. tx_TxIn (psbt_UnsignedTx (tree_Root t)) = input # rest \<and> op_Index (in_PreviousOutPoint input) = 0 \<and>
      env_HashString (tl_env lib) (op_Hash (in_PreviousOutPoint input)) = env_TxID (tl_env lib) commitmentTx"
    using assms unfolding ValidateVtxoTree_def Let_def by (auto simp: guard_err_eq_Inr split: list.splits)
  ultimately show ?thesis using v cos [OF v(2)] by (fastforce simp: pays_to_def)
qed

subsection \<open>A concrete tree\<close>

text \<open>Keys of one byte, whose aggregate is their sum with the first byte of the tweak.\<close>

definition sample_tree_lib :: "u8 tree_lib" where
  "sample_tree_lib =
     \<lparr>tl_ts = sample_lib,
      tl_ec = \<lparr>ec_ParsePubKey = (\<lambda>b. if length b = 1 then Inr (hd b) else Inl (Errorf ''invalid public key'')),
               ec_SerializeCompressed = (\<lambda>k. [k])\<rparr>,
      tl_env = \<lparr>env_TxID = (\<lambda>tx. hex_EncodeToString (concat (map (\<lambda>out. [ucast (out_Value out), of_nat (length (out_PkScript out))]) (tx_TxOut tx)))),
                env_HashString = hex_EncodeToString,
                env_B64Encode = (\<lambda>_. Inr []), env_NewFromRawBytes = (\<lambda>_. Inl (Errorf ''not a PSBT''))\<rparr>,
      tl_ComputeTaprootOutputKey = (\<lambda>k tweak. k + hd tweak),
      tl_AggregateKeys = (\<lambda>ks tweak. Inr (sum_list ks + (if tweak = [] then 0 else hd tweak))),
      tl_psbt_New = (\<lambda>ins outs v. Inr
        \<lparr>psbt_UnsignedTx = \<lparr>tx_Version = v, tx_TxIn = map (\<lambda>i. \<lparr>in_PreviousOutPoint = i\<rparr>) ins, tx_TxOut = outs\<rparr>,
         psbt_Unknowns = replicate (length ins) []\<rparr>),
      tl_NewUpdater = (\<lambda>_. Inr ()),
      tl_AddInSighashType = (\<lambda>_. Inr),
      tl_CheckTransactionSanity = (\<lambda>_. Inr ()),
      tl_TxHash = (\<lambda>tx. concat (map (\<lambda>out. [ucast (out_Value out), of_nat (length (out_PkScript out))]) (tx_TxOut tx))),
      tl_TapTreeRoot = (\<lambda>s. [of_nat (length s)])\<rparr>"

lemma sample_tree_lib_law: "tree_lib_law sample_tree_lib"
  by (simp add: tree_lib_law_def sample_tree_lib_def sample_lib_law btcec_law_def)

definition sample_expiry :: RelativeLocktime where
  "sample_expiry = \<lparr>lt_Type = LocktimeTypeBlock, lt_Value = 20\<rparr>"

definition sample_receivers :: "Leaf list" where
  "sample_receivers =
     [\<lparr>lf_Outputs = [\<lparr>lo_Amount = 100, lo_Script = ''aa''\<rparr>], lf_CosignersPublicKeys = [''01'', ''09'']\<rparr>,
      \<lparr>lf_Outputs = [\<lparr>lo_Amount = 200, lo_Script = ''bb''\<rparr>, \<lparr>lo_Amount = 50, lo_Script = ''cc''\<rparr>],
       lf_CosignersPublicKeys = [''02'', ''09'']\<rparr>,
      \<lparr>lf_Outputs = [\<lparr>lo_Amount = 30, lo_Script = ''dd''\<rparr>], lf_CosignersPublicKeys = [''03'', ''03'']\<rparr>]"

lemma sample_P2TR: "P2TRScript (tl_ts sample_tree_lib) k = Inr (OP_1 # 0x20 # replicate 32 k)"
  by (simp add: P2TRScript_def sample_tree_lib_def sample_lib_def sized_def MaxScriptSize_def)

lemma sample_sweep_root: "sweep_root sample_tree_lib 9 sample_expiry = Inr [38]"
proof -
  have n: "script_number 20 = [20]" by (simp add: script_number_def le_bytes.simps)
  show ?thesis
    by (simp add: sweep_root_def CSVMultisigClosure_Script_def MultisigClosure_Script_def BIP68Sequence_def
        sample_expiry_def sample_tree_lib_def sample_lib_def sample_LockTimeToSequence_def locktime_consts n
        sized_def MaxScriptSize_def opcode_defs Let_def)
qed

lemma sample_agg:
  "root \<noteq> [] \<Longrightarrow> AggregateKeys sample_tree_lib ks root =
     (if ks = [] then Inl (Errorf ''no pubkeys'') else Inr (sum_list ks + hd root))"
  by (cases ks) (auto simp: AggregateKeys_def sample_tree_lib_def)

lemma sample_leaves:
  "map_res (leaf_node sample_tree_lib root) sample_receivers = Inr
     [leaf [\<lparr>out_Value = 100, out_PkScript = [0xaa]\<rparr>] (OP_1 # 0x20 # replicate 32 (10 + hd root)) [1, 9],
      leaf [\<lparr>out_Value = 200, out_PkScript = [0xbb]\<rparr>, \<lparr>out_Value = 50, out_PkScript = [0xcc]\<rparr>]
        (OP_1 # 0x20 # replicate 32 (11 + hd root)) [2, 9],
      leaf [\<lparr>out_Value = 30, out_PkScript = [0xdd]\<rparr>] (OP_1 # 0x20 # replicate 32 (3 + hd root)) [3]]"
  if "root \<noteq> []"
proof -
  have hex: "hex_DecodeString ''01'' = Inr [1]" "hex_DecodeString ''02'' = Inr [2]" "hex_DecodeString ''03'' = Inr [3]"
    "hex_DecodeString ''09'' = Inr [9]" "hex_DecodeString ''aa'' = Inr [0xaa]" "hex_DecodeString ''bb'' = Inr [0xbb]"
    "hex_DecodeString ''cc'' = Inr [0xcc]" "hex_DecodeString ''dd'' = Inr [0xdd]"
    by (simp_all add: hex_value_def)
  have parse: "tl_ec sample_tree_lib = \<lparr>ec_ParsePubKey = (\<lambda>b. if length b = 1 then Inr (hd b) else Inl (Errorf ''invalid public key'')),
               ec_SerializeCompressed = (\<lambda>k. [k])\<rparr>" "ts_SerializePubKey (tl_ts sample_tree_lib) = replicate 32"
    by (simp_all add: sample_tree_lib_def sample_lib_def)
  show ?thesis
    by (simp add: leaf_node_def sample_receivers_def hex parse sample_agg [OF that] uniqueCosigners_def sample_P2TR Let_def
        del: hex_DecodeString.simps)
qed


lemma sample_group:
  "branch_node sample_tree_lib [38] cs = (let ks = uniqueCosigners sample_tree_lib (concat (map getCosigners cs)) in
     if ks = [] then Inl (Errorf ''no pubkeys'') else Inr (branch (OP_1 # 0x20 # replicate 32 (sum_list ks + 38)) ks cs))"
  by (simp add: branch_node_def sample_agg sample_P2TR Let_def)

definition built_root :: "u8 node" where
  "built_root =
     branch (OP_1 # 0x20 # replicate 32 53) [1, 9, 2, 3]
       [branch (OP_1 # 0x20 # replicate 32 50) [1, 9, 2]
          [leaf [\<lparr>out_Value = 100, out_PkScript = [0xaa]\<rparr>] (OP_1 # 0x20 # replicate 32 48) [1, 9],
           leaf [\<lparr>out_Value = 200, out_PkScript = [0xbb]\<rparr>, \<lparr>out_Value = 50, out_PkScript = [0xcc]\<rparr>]
             (OP_1 # 0x20 # replicate 32 49) [2, 9]],
        leaf [\<lparr>out_Value = 30, out_PkScript = [0xdd]\<rparr>] (OP_1 # 0x20 # replicate 32 41) [3]]"

lemma sample_createTxTree: "createTxTree sample_tree_lib sample_receivers [38] vtxoTreeRadix = Some (Inr built_root)"
proof -
  have ser: "ts_SerializePubKey (tl_ts sample_tree_lib) = replicate 32" by (simp add: sample_tree_lib_def sample_lib_def)
  have "sample_receivers \<noteq> []" by (simp add: sample_receivers_def)
  then show ?thesis
    by (simp add: createTxTree_def sample_leaves upper_levels.simps createUpperLevel.simps group_nodes.simps Let_def
        sample_group uniqueCosigners_def ser vtxoTreeRadix_def built_root_def)
qed

lemma sample_batch_output:
  "BuildBatchOutput sample_tree_lib sample_receivers [38] = Some (Inr (OP_1 # 0x20 # replicate 32 53, 380))"
  by (simp add: BuildBatchOutput_def build_output_def sample_createTxTree sample_agg sample_P2TR ANCHOR_VALUE_def
      built_root_def Let_def)

definition sample_commitment :: MsgTx where
  "sample_commitment =
     \<lparr>tx_Version = 3, tx_TxIn = [],
      tx_TxOut = [\<lparr>out_Value = 380, out_PkScript = OP_1 # 0x20 # replicate 32 53\<rparr>]\<rparr>"

definition built_tree :: TxTree where
  "built_tree = projr (node_tree sample_tree_lib (Some sample_expiry) built_root
     \<lparr>op_Hash = tl_TxHash sample_tree_lib sample_commitment, op_Index = 0\<rparr>)"

lemma sample_set_cosigners:
  "length (psbt_Unknowns p) = 1 \<Longrightarrow> \<exists>p'. set_cosigners ec 0 i ks p = Inr p' \<and> length (psbt_Unknowns p') = 1"
  by (induction ks arbitrary: i p) (auto simp: SetArkPsbtField_def CosignerPublicKeyField_def)

lemma sample_getTx: "\<exists>tx. getTx sample_tree_lib n input (Some sample_expiry) = Inr tx"
proof -
  let ?p = "\<lparr>psbt_UnsignedTx = \<lparr>tx_Version = 3, tx_TxIn = [\<lparr>in_PreviousOutPoint = input\<rparr>], tx_TxOut = getOutputs n\<rparr>, psbt_Unknowns = [[]]\<rparr>"
  obtain p where p: "set_cosigners (tl_ec sample_tree_lib) 0 0 (getCosigners n) ?p = Inr p" "length (psbt_Unknowns p) = 1"
    using sample_set_cosigners [of ?p "tl_ec sample_tree_lib" 0 "getCosigners n"] by auto
  have "\<not> isl (co_Encode (VtxoTreeExpiryField (tl_ts sample_tree_lib)) sample_expiry)" by code_simp
  then obtain u where "co_Encode (VtxoTreeExpiryField (tl_ts sample_tree_lib)) sample_expiry = Inr u" by (metis sum.collapse(2))
  moreover have "psbt_Unknowns p \<noteq> []" using p(2) by auto
  ultimately show ?thesis using p(1) by (simp add: getTx_def sample_tree_lib_def SetArkPsbtField_def)
qed

lemma sample_trees: "\<exists>t. node_tree sample_tree_lib (Some sample_expiry) n input = Inr t"
proof (induction n arbitrary: input)
  case (leaf outs s ks)
  show ?case using sample_getTx [of "node.leaf outs s ks" input] by (auto simp: sample_tree_lib_def)
next
  case (branch s ks cs)
  obtain tx where tx: "getTx sample_tree_lib (node.branch s ks cs) input (Some sample_expiry) = Inr tx" using sample_getTx by blast
  have "\<exists>ts. map_res (\<lambda>(i, child). rbind (node_tree sample_tree_lib (Some sample_expiry) child (f i)) (\<lambda>t. Inr (of_nat i :: u32, t)))
      (List.enumerate k ds) = Inr ts" if "set ds \<subseteq> set cs" for f k and ds :: "u8 node list"
    using that
  proof (induction ds arbitrary: k)
    case (Cons d ds)
    obtain ts where "map_res (\<lambda>(i, child). rbind (node_tree sample_tree_lib (Some sample_expiry) child (f i))
        (\<lambda>t. Inr (of_nat i :: u32, t))) (List.enumerate (Suc k) ds) = Inr ts"
      using Cons.IH [of "Suc k"] Cons.prems by auto
    moreover obtain t where "node_tree sample_tree_lib (Some sample_expiry) d (f k) = Inr t"
      using branch [of d "f k"] Cons.prems by auto
    ultimately show ?case by simp
  qed simp
  from this [OF subset_refl, of "\<lambda>i. \<lparr>op_Hash = tl_TxHash sample_tree_lib (psbt_UnsignedTx tx), op_Index = of_nat i\<rparr>" 0]
  show ?case using tx by auto
qed

lemma sample_node_tree:
  "node_tree sample_tree_lib (Some sample_expiry) built_root
     \<lparr>op_Hash = tl_TxHash sample_tree_lib sample_commitment, op_Index = 0\<rparr> = Inr built_tree"
  using sample_trees [of built_root] by (metis built_tree_def sum.sel(2))

lemma sample_BuildVtxoTree:
  "BuildVtxoTree sample_tree_lib \<lparr>op_Hash = tl_TxHash sample_tree_lib sample_commitment, op_Index = 0\<rparr>
     sample_receivers [38] sample_expiry = Some (Inr built_tree)"
  by (simp add: BuildVtxoTree_def sample_createTxTree sample_node_tree)

theorem built_vtxo_tree_validates_witness:
  "ValidateVtxoTree sample_tree_lib built_tree sample_commitment 9 sample_expiry = Inr () \<and>
   map (\<lambda>p. tx_TxOut (psbt_UnsignedTx p)) (Leaves built_tree) =
     map (\<lambda>l. receiver_outputs l @ [AnchorOutput]) sample_receivers"
  by (rule built_vtxo_tree_validates [OF sample_tree_lib_law sample_sweep_root sample_batch_output _ sample_BuildVtxoTree])
    (simp_all add: sample_commitment_def sample_receivers_def)

theorem tree_building_ends_balanced_witness:
  "(\<exists>r. BuildConnectorTree sample_tree_lib \<lparr>op_Hash = [], op_Index = 0\<rparr> sample_receivers = Some r) \<and> depth built_root \<le> 2"
proof -
  have "length sample_receivers \<le> 2 ^ 2" by (simp add: sample_receivers_def)
  then show ?thesis using tree_building_ends_balanced [of sample_tree_lib "\<lparr>op_Hash = [], op_Index = 0\<rparr>" sample_receivers "[38]" sample_expiry]
      sample_createTxTree by blast
qed

lemma sample_unique: "uniqueCosigners sample_tree_lib ks = unique_loop (\<lambda>k. hex_EncodeToString (replicate 32 k)) {} ks"
  by (simp add: uniqueCosigners_def sample_tree_lib_def sample_lib_def)

theorem accepted_tree_pays_cosigners_witness:
  "\<exists>rootKeys. ParseCosignerKeysFromArkPsbt (tl_ec sample_tree_lib) (tree_Root built_tree) 0 = Inr rootKeys \<and>
     pays_to sample_tree_lib [38] (uniqueCosigners sample_tree_lib rootKeys) (OP_1 # 0x20 # replicate 32 53)"
proof -
  let ?input = "\<lparr>op_Hash = tl_TxHash sample_tree_lib sample_commitment, op_Index = 0\<rparr>"
  have "weight built_root \<le> 2 ^ 32" by (simp add: weight_def built_root_def)
  moreover have "node_ok sample_tree_lib [38] built_root"
    using createTxTree_root [OF sample_createTxTree radix_ok(1,2)] by blast
  ultimately have ok: "tree_ok sample_tree_lib [38] built_root ?input built_tree"
    using node_tree_ok [OF sample_tree_lib_law sample_node_tree] by blast
  have "child_cosigners sample_tree_lib [38] (tree_Root built_tree) ''root tx'' = Inr 53"
    using ok by (simp add: child_cosigners_def tree_ok_def built_root_def sample_unique sample_agg Let_def)
  moreover have "length (map (\<lambda>p. tx_TxOut (psbt_UnsignedTx p)) (Leaves built_tree)) \<noteq> 0"
    using ok unfolding tree_ok_def by (simp add: built_root_def)
  moreover have "env_HashString (tl_env sample_tree_lib) (tl_TxHash sample_tree_lib sample_commitment) =
      env_TxID (tl_env sample_tree_lib) sample_commitment"
    using sample_tree_lib_law by (simp add: tree_lib_law_def)
  moreover have "outputs_sum (psbt_UnsignedTx (tree_Root built_tree)) = 380"
    using ok getOutputs_sum [of built_root] by (simp add: tree_ok_def outputs_sum_def built_root_def ANCHOR_VALUE_def)
  moreover have "Apply (\<lambda>_ node. rbind (check_all (\<lambda>(k, c). check_child sample_tree_lib [38] (psbt_UnsignedTx (tree_Root node)) k c)
      (tree_Children node)) (\<lambda>_. Inr ((), True))) built_tree () = Inr ()"
    using ok unfolding Apply_checks check_all_eq_Inr tree_ok_def by auto
  ultimately have "ValidateVtxoTree sample_tree_lib built_tree sample_commitment 9 sample_expiry = Inr ()"
    using ok by (simp add: ValidateVtxoTree_def Let_def sample_sweep_root sample_P2TR tree_ok_def sample_commitment_def)
  from accepted_tree_pays_cosigners [OF this] show ?thesis
    unfolding sample_sweep_root by (auto simp: sample_commitment_def)
qed

end
