(* ===== verification/Taproot_Sigs.thy ===== *)
theory Taproot_Sigs
  imports Domain_Forfeit Tree_Builder
begin

section \<open>Signatures of taproot inputs\<close>

text \<open>
  \<open>pkg/ark-lib/script/verify.go\<close>, the signature checks \<open>VerifyVtxoTapscriptSigs\<close> and
  \<open>VerifyBoardingTapscriptSigs\<close> of \<open>internal/infrastructure/tx-builder/covenantless/builder.go\<close>, and the Merkle
  proofs of \<open>script/vtxo_script.go\<close>. Keys, control blocks, signature hashes and signatures are third-party
  code, the fields of \<open>lib\<close>; a control block is a value of type \<open>'c\<close>, an assembled script tree one of type \<open>'t\<close>.
  The lock time and the sequence numbers of the unsigned transaction stand beside it in the PSBT;
  of the outputs of a PSBT only the field \<open>TaprootTapTree\<close> is kept, empty when it is not set. A Go map from keys
  to booleans that is only asked for its entries is a list of keys with the set of those that hold true.
\<close>

record ArkPsbt = Psbt +
  ap_LockTime :: u32
  ap_Sequences :: "u32 list"
  ap_Inputs :: "PInput list"
  ap_TaprootTapTrees :: "bytes list"

text \<open>A proof of a tree is what its method \<open>ToControlBlock\<close> returns, and its script.\<close>

record ('k, 'c, 't) taproot_lib =
  tp_ts :: "'k txscript"
  tp_SerializeCompressed :: "'k \<Rightarrow> bytes"
  tp_UnspendableKey :: 'k
  tp_ComputeTaprootOutputKey :: "'k \<Rightarrow> bytes \<Rightarrow> 'k"
  tp_ParseControlBlock :: "bytes \<Rightarrow> 'c gores"
  tp_ToBytes :: "'c \<Rightarrow> bytes gores"
  tp_InternalKey :: "'c \<Rightarrow> 'k option"
  tp_OutputKeyYIsOdd :: "'c \<Rightarrow> bool"
  tp_RootHash :: "'c \<Rightarrow> bytes \<Rightarrow> bytes"
  tp_TapHash :: "bytes \<Rightarrow> bytes"
  tp_IsTaproot :: "bytes \<Rightarrow> bool"
  tp_CalcTapscriptSignaturehash :: "u32 \<Rightarrow> ArkPsbt \<Rightarrow> nat \<Rightarrow> prevout_fetcher \<Rightarrow> bytes \<Rightarrow> bytes gores"
  tp_ParseSignature :: "bytes \<Rightarrow> bytes gores"
  tp_Verify :: "bytes \<Rightarrow> bytes \<Rightarrow> 'k \<Rightarrow> bool"
  tp_writeTxWitness :: "bytes list \<Rightarrow> bytes gores"
  tp_Assemble :: "bytes list \<Rightarrow> 't"
  tp_TreeRoot :: "'t \<Rightarrow> bytes"
  tp_LeafProof :: "'t \<Rightarrow> bytes \<Rightarrow> (('k \<Rightarrow> 'c) \<times> bytes) option"

definition xonly :: "('k, 'c, 't) taproot_lib \<Rightarrow> 'k \<Rightarrow> string" where
  "xonly lib k = hex_EncodeToString (ts_SerializePubKey (tp_ts lib) k)"

definition GetTaprootMerkleProof :: "('k, 'c, 't) taproot_lib \<Rightarrow> 't \<Rightarrow> bytes \<Rightarrow> (bytes \<times> bytes) gores" where
  "GetTaprootMerkleProof lib tapTree leafhash =
     (case tp_LeafProof lib tapTree leafhash of
        None \<Rightarrow> Inl (Errorf ''leaf not found in tree'')
      | Some (toControlBlock, script) \<Rightarrow>
          rbind (tp_ToBytes lib (toControlBlock (tp_UnspendableKey lib))) (\<lambda>controlBlockBytes.
            Inr (controlBlockBytes, script)))"

definition VerifyControlBlockInternalKey :: "('k, 'c, 't) taproot_lib \<Rightarrow> 'c \<Rightarrow> unit gores" where
  "VerifyControlBlockInternalKey lib controlBlock =
     (case tp_InternalKey lib controlBlock of
        None \<Rightarrow> Inl (Errorf ''missing internal key'')
      | Some key \<Rightarrow>
          guard_err (ts_SerializePubKey (tp_ts lib) key \<noteq> ts_SerializePubKey (tp_ts lib) (tp_UnspendableKey lib))
            (Errorf ''invalid internal key'') (Inr ()))"

definition OP_SHA256 :: u8 where "OP_SHA256 = 0xa8"
definition OP_EQUAL :: u8 where "OP_EQUAL = 0x87"

definition IsNoteClosureScript :: "bytes \<Rightarrow> bool" where
  "IsNoteClosureScript script \<longleftrightarrow>
     length script = 35 \<and> script ! 0 = OP_SHA256 \<and> script ! 1 = OP_DATA_32 \<and> script ! 34 = OP_EQUAL"

definition FetchPrevOutput :: "prevout_fetcher \<Rightarrow> OutPoint \<Rightarrow> TxOut option" where
  "FetchPrevOutput prevouts op = map_of prevouts op"

definition isIntent :: "ArkPsbt \<Rightarrow> prevout_fetcher \<Rightarrow> bool" where
  "isIntent ptx prevouts \<longleftrightarrow>
     tx_Version (psbt_UnsignedTx ptx) = 2 \<and>
     (case tx_TxIn (psbt_UnsignedTx ptx) of
        in0 # in1 # _ \<Rightarrow>
          (case (FetchPrevOutput prevouts (in_PreviousOutPoint in0), FetchPrevOutput prevouts (in_PreviousOutPoint in1)) of
             (Some prevout0, Some prevout1) \<Rightarrow> out_PkScript prevout0 = out_PkScript prevout1
           | _ \<Rightarrow> False)
      | _ \<Rightarrow> False)"

definition executeConditionScript ::
    "('k, 'c, 't) taproot_lib \<Rightarrow> nat \<Rightarrow> ArkPsbt \<Rightarrow> prevout_fetcher \<Rightarrow> bytes \<Rightarrow> bytes list \<Rightarrow> unit gores" where
  "executeConditionScript lib inputIndex tx prevouts script witness =
     (if inputIndex = 0 \<and> isIntent tx prevouts then Inr ()
      else rbind (EvaluateScriptToBool (tp_ts lib) script witness) (\<lambda>result.
             guard_err (\<not> result) (Errorf ''condition not met for input'') (Inr ())))"

text \<open>The switch over the type of a closure: its condition, when it has one, and its keys.\<close>

fun closure_condition :: "'k Closure \<Rightarrow> bytes option" where
  "closure_condition (ConditionMultisig c) = Some (cond_Condition c)"
| "closure_condition (ConditionCSVMultisig c) = Some (ccsv_Condition c)"
| "closure_condition _ = None"

fun closure_keys :: "'k Closure \<Rightarrow> 'k list" where
  "closure_keys (Multisig c) = ms_PubKeys c"
| "closure_keys (CSVMultisig c) = ms_PubKeys (csv_Multisig c)"
| "closure_keys (CLTVMultisig c) = ms_PubKeys (cltv_Multisig c)"
| "closure_keys (ConditionMultisig c) = ms_PubKeys (cond_Multisig c)"
| "closure_keys (ConditionCSVMultisig c) = ms_PubKeys (csv_Multisig (ccsv_CSV c))"

definition input_witness :: "('k, 'c, 't) taproot_lib \<Rightarrow> ArkPsbt \<Rightarrow> nat \<Rightarrow> bytes list gores" where
  "input_witness lib tx inputIndex =
     rbind (GetArkPsbtConditionWitness (tp_ts lib) (tp_writeTxWitness lib) tx inputIndex) (\<lambda>witness.
       Inr (case witness of None \<Rightarrow> [] | Some w \<Rightarrow> w))"

subsection \<open>VerifyTapscriptSigs\<close>

text \<open>One signature of an input: the key that signed.\<close>

definition checked_sig ::
    "('k, 'c, 't) taproot_lib \<Rightarrow> ArkPsbt \<Rightarrow> prevout_fetcher \<Rightarrow> nat \<Rightarrow> bytes \<Rightarrow> TaprootScriptSpendSig \<Rightarrow> string gores" where
  "checked_sig lib tx prevouts inputIndex leafScript sg =
     guard_err (tss_LeafHash sg \<noteq> tp_TapHash lib leafScript) (Errorf ''invalid leaf hash for tapscript sig'')
     (rbind (map_err (Errorw ''failed to compute hash for signature: '')
               (tp_CalcTapscriptSignaturehash lib (tss_SigHash sg) tx inputIndex prevouts leafScript)) (\<lambda>sighash.
      rbind (map_err (Errorw ''failed to parse signature: '') (tp_ParseSignature lib (tss_Signature sg))) (\<lambda>sig.
      rbind (map_err (Errorw ''failed to parse pubkey of sig: '') (ts_ParsePubKey (tp_ts lib) (tss_XOnlyPubKey sg))) (\<lambda>pubkey.
        guard_err (\<not> tp_Verify lib sig sighash pubkey) (Errorf ''invalid sig for input'')
          (Inr (xonly lib pubkey))))))"

definition missing_signers :: "string list \<Rightarrow> string list \<Rightarrow> string list \<Rightarrow> string list" where
  "missing_signers expectedSigners signers skipPublicKeys =
     filter (\<lambda>key. key \<notin> set skipPublicKeys \<and> key \<notin> set signers) expectedSigners"

text \<open>The body of the loop over the inputs: whether the input counts as signed.\<close>

definition verify_input ::
    "('k, 'c, 't) taproot_lib \<Rightarrow> ArkPsbt \<Rightarrow> prevout_fetcher \<Rightarrow> string list \<Rightarrow> bool \<Rightarrow> nat \<Rightarrow> PInput \<Rightarrow> bool gores" where
  "verify_input lib tx prevouts skipPublicKeys skipUnsignedInputs inputIndex input =
     (case pin_TaprootLeafScript input of
        [tapscriptLeaf] \<Rightarrow>
          (case FetchPrevOutput prevouts (in_PreviousOutPoint (tx_TxIn (psbt_UnsignedTx tx) ! inputIndex)) of
             None \<Rightarrow> Inl (Errorf ''prevout not found'')
           | Some prevout \<Rightarrow>
               guard_err (\<not> tp_IsTaproot lib (out_PkScript prevout))
                 (Errorf ''input has a taproot leaf script but a non-taproot prevout'')
               (if IsNoteClosureScript (tls_Script tapscriptLeaf) then Inr False
                else
                  rbind (DecodeClosure (tp_ts lib) (tls_Script tapscriptLeaf)) (\<lambda>closure.
                  rbind (case closure_condition closure of
                           None \<Rightarrow> Inr ()
                         | Some condition \<Rightarrow>
                             rbind (input_witness lib tx inputIndex) (\<lambda>witness.
                               executeConditionScript lib inputIndex tx prevouts condition witness)) (\<lambda>_.
                  let expectedSigners = map (xonly lib) (closure_keys closure) in
                  rbind (map_err (Errorw ''failed to parse control block: '')
                           (tp_ParseControlBlock lib (tls_ControlBlock tapscriptLeaf))) (\<lambda>controlBlock.
                  rbind (map_err (Errorw ''invalid control block: '') (VerifyControlBlockInternalKey lib controlBlock)) (\<lambda>_.
                  let rootHash = tp_RootHash lib controlBlock (tls_Script tapscriptLeaf);
                      taprootKey = tp_ComputeTaprootOutputKey lib (tp_UnspendableKey lib) rootHash in
                  guard_err (ts_SerializePubKey (tp_ts lib) taprootKey \<noteq> drop 2 (out_PkScript prevout))
                    (Errorf ''invalid control block: wrong tapkey'')
                  (guard_err (tp_OutputKeyYIsOdd lib controlBlock \<noteq> (tp_SerializeCompressed lib taprootKey ! 0 = 3))
                    (Errorf ''invalid control block parity'')
                  (if length (pin_TaprootScriptSpendSig input) = 0
                   then if skipUnsignedInputs then Inr False
                        else guard_err (missing_signers expectedSigners [] skipPublicKeys \<noteq> [])
                               (Errorf ''input has no tapscript signatures'') (Inr False)
                   else
                     rbind (map_res (checked_sig lib tx prevouts inputIndex (tls_Script tapscriptLeaf))
                              (pin_TaprootScriptSpendSig input)) (\<lambda>signers.
                       guard_err (missing_signers expectedSigners signers skipPublicKeys \<noteq> [])
                         (Errorf ''missing signature'') (Inr True))))))))))
      | _ \<Rightarrow> Inr False)"

fun verify_inputs :: "(nat \<Rightarrow> PInput \<Rightarrow> bool gores) \<Rightarrow> (nat \<times> PInput) list \<Rightarrow> nat list gores" where
  "verify_inputs f [] = Inr []"
| "verify_inputs f ((inputIndex, input) # r) =
     rbind (f inputIndex input) (\<lambda>isSigned.
     rbind (verify_inputs f r) (\<lambda>signedInputs.
       Inr (if isSigned then inputIndex # signedInputs else signedInputs)))"

text \<open>\<open>WithSkipPublicKeys\<close> and \<open>WithSkipUnsignedInputs\<close> are the last two arguments.\<close>

definition VerifyTapscriptSigs ::
    "('k, 'c, 't) taproot_lib \<Rightarrow> ArkPsbt \<Rightarrow> prevout_fetcher \<Rightarrow> 'k list \<Rightarrow> bool \<Rightarrow> nat list gores" where
  "VerifyTapscriptSigs lib tx prevouts skipKeys skipUnsignedInputs =
     guard_err (length (ap_Inputs tx) \<noteq> length (tx_TxIn (psbt_UnsignedTx tx)))
       (Errorf ''malformed tx: number of psbt inputs does not match number of tx inputs'')
       (verify_inputs (verify_input lib tx prevouts (map (xonly lib) skipKeys) skipUnsignedInputs)
          (List.enumerate 0 (ap_Inputs tx)))"

subsection \<open>The checks of the transaction builder\<close>

definition checkConditionMet :: "('k, 'c, 't) taproot_lib \<Rightarrow> ArkPsbt \<Rightarrow> nat \<Rightarrow> bytes \<Rightarrow> unit gores" where
  "checkConditionMet lib ptx index condition =
     rbind (input_witness lib ptx index) (\<lambda>witness.
     rbind (EvaluateScriptToBool (tp_ts lib) condition witness) (\<lambda>result.
       guard_err (\<not> result) (Errorf ''condition not met for input'') (Inr ())))"

definition partial_sig ::
    "('k, 'c, 't) taproot_lib \<Rightarrow> ArkPsbt \<Rightarrow> prevout_fetcher \<Rightarrow> nat \<Rightarrow> bytes \<Rightarrow> TaprootScriptSpendSig \<Rightarrow> string gores" where
  "partial_sig lib ptx prevouts index leafScript sg =
     rbind (tp_ParseSignature lib (tss_Signature sg)) (\<lambda>sig.
     rbind (ts_ParsePubKey (tp_ts lib) (tss_XOnlyPubKey sg)) (\<lambda>pubkey.
     rbind (tp_CalcTapscriptSignaturehash lib (tss_SigHash sg) ptx index prevouts leafScript) (\<lambda>preimage.
       guard_err (\<not> tp_Verify lib sig preimage pubkey) (Errorf ''invalid signature for input'')
         (Inr (xonly lib pubkey)))))"

definition partial_input ::
    "('k, 'c, 't) taproot_lib \<Rightarrow> ArkPsbt \<Rightarrow> prevout_fetcher \<Rightarrow> string list \<Rightarrow> bool \<Rightarrow> nat \<Rightarrow> PInput \<Rightarrow> unit gores" where
  "partial_input lib ptx prevouts signerPubkeysHex mustIncludeSignerSig index input =
     (case pin_TaprootLeafScript input of
        [] \<Rightarrow> guard_err mustIncludeSignerSig (Errorf ''missing taproot leaf script for input'') (Inr ())
      | tapLeaf # _ \<Rightarrow>
          (case pin_WitnessUtxo input of
             None \<Rightarrow> Inl (Errorf ''missing prevout for input'')
           | Some utxo \<Rightarrow>
               rbind (DecodeClosure (tp_ts lib) (tls_Script tapLeaf)) (\<lambda>closure.
               rbind (case closure_condition closure of
                        None \<Rightarrow> Inr ()
                      | Some condition \<Rightarrow> checkConditionMet lib ptx index condition) (\<lambda>_.
               let keys = map (xonly lib) (closure_keys closure);
                   mocked = (if mustIncludeSignerSig then [] else signerPubkeysHex) in
               guard_err (length (tls_ControlBlock tapLeaf) = 0) (Errorf ''missing control block for input'')
               (rbind (tp_ParseControlBlock lib (tls_ControlBlock tapLeaf)) (\<lambda>controlBlock.
                rbind (map_err (Errorw ''invalid control block: '') (VerifyControlBlockInternalKey lib controlBlock)) (\<lambda>_.
                let rootHash = tp_RootHash lib controlBlock (tls_Script tapLeaf);
                    tapKey = tp_ComputeTaprootOutputKey lib (tp_UnspendableKey lib) rootHash in
                rbind (P2TRScript (tp_ts lib) tapKey) (\<lambda>pkscript.
                guard_err (pkscript \<noteq> out_PkScript utxo) (Errorf ''invalid control block for input'')
                (guard_err (tp_OutputKeyYIsOdd lib controlBlock \<noteq> (tp_SerializeCompressed lib tapKey ! 0 = 3))
                  (Errorf ''invalid control block parity for input'')
                (rbind (map_res (partial_sig lib ptx prevouts index (tls_Script tapLeaf))
                          (pin_TaprootScriptSpendSig input)) (\<lambda>signers.
                   guard_err (missing_signers keys signers mocked \<noteq> []) (Errorf ''missing signatures'')
                     (Inr ()))))))))))))"

text \<open>The keys of the signer, current and deprecated, are read from the signer service.\<close>

definition verifyTapscriptPartialSigs ::
    "('k, 'c, 't) taproot_lib \<Rightarrow> 'k gores \<Rightarrow> 'k list gores \<Rightarrow> ArkPsbt \<Rightarrow> bool \<Rightarrow> (bool \<times> ArkPsbt) gores" where
  "verifyTapscriptPartialSigs lib getPubkey getDeprecatedPubkeys ptx mustIncludeSignerSig =
     rbind getPubkey (\<lambda>signerPubkey.
     rbind getDeprecatedPubkeys (\<lambda>deprecatedSignerPubkeys.
     let signerPubkeysHex = map (xonly lib) (signerPubkey # deprecatedSignerPubkeys) in
     rbind (GetPrevOutputFetcher (psbt_UnsignedTx ptx) (ap_Inputs ptx)) (\<lambda>prevouts.
     rbind (check_all (\<lambda>(index, input). partial_input lib ptx prevouts signerPubkeysHex mustIncludeSignerSig index input)
              (List.enumerate 0 (ap_Inputs ptx))) (\<lambda>_.
       Inr (True, ptx)))))"

definition VerifyVtxoTapscriptSigs ::
    "('k, 'c, 't) taproot_lib \<Rightarrow> (string \<Rightarrow> ArkPsbt gores) \<Rightarrow> 'k gores \<Rightarrow> 'k list gores \<Rightarrow> string \<Rightarrow> bool \<Rightarrow>
       (bool \<times> ArkPsbt) gores" where
  "VerifyVtxoTapscriptSigs lib parse getPubkey getDeprecatedPubkeys tx mustIncludeSignerSig =
     rbind (parse tx) (\<lambda>ptx. verifyTapscriptPartialSigs lib getPubkey getDeprecatedPubkeys ptx mustIncludeSignerSig)"

record tapscript_spend =
  sbi_Signatures :: "TaprootScriptSpendSig list"
  sbi_LeafScript :: TaprootTapLeafScript

definition VerifyBoardingTapscriptSigs ::
    "('k, 'c, 't) taproot_lib \<Rightarrow> (string \<Rightarrow> ArkPsbt gores) \<Rightarrow> (ArkPsbt \<Rightarrow> unit gores) \<Rightarrow> (ArkPsbt \<Rightarrow> string) \<Rightarrow>
       'k gores \<Rightarrow> 'k list gores \<Rightarrow> string \<Rightarrow> string \<Rightarrow> (u32 \<times> tapscript_spend) list gores" where
  "VerifyBoardingTapscriptSigs lib parse checkSanity txid getPubkey getDeprecatedPubkeys txToVerify commitmentTx =
     rbind (parse txToVerify) (\<lambda>ptx.
     rbind (checkSanity ptx) (\<lambda>_.
     rbind (parse commitmentTx) (\<lambda>commitmentPtx.
     guard_err (txid ptx \<noteq> txid commitmentPtx) (Errorf ''commitment tx mismatch'')
     (rbind (GetPrevOutputFetcher (psbt_UnsignedTx commitmentPtx) (ap_Inputs commitmentPtx)) (\<lambda>prevouts.
      rbind getPubkey (\<lambda>signerPubkey.
      rbind getDeprecatedPubkeys (\<lambda>deprecatedSignerPubkeys.
      rbind (VerifyTapscriptSigs lib ptx prevouts (signerPubkey # deprecatedSignerPubkeys) True) (\<lambda>ins.
        Inr (map (\<lambda>inIndex. let input = ap_Inputs ptx ! inIndex in
               (of_nat inIndex, \<lparr>sbi_Signatures = pin_TaprootScriptSpendSig input,
                  sbi_LeafScript = pin_TaprootLeafScript input ! 0\<rparr>)) ins)))))))))"

subsection \<open>Properties\<close>

lemma missing_signers_none:
  "missing_signers keys signers skip = [] \<longleftrightarrow> set keys \<subseteq> set skip \<union> set signers"
  by (auto simp: missing_signers_def filter_empty_conv)

text \<open>That an x-only key has signed an input for a leaf.\<close>

definition signed_by ::
    "('k, 'c, 't) taproot_lib \<Rightarrow> ArkPsbt \<Rightarrow> prevout_fetcher \<Rightarrow> nat \<Rightarrow> bytes \<Rightarrow> string \<Rightarrow> bool" where
  "signed_by lib p prevouts i leafScript x \<longleftrightarrow>
     (\<exists>sg \<in> set (pin_TaprootScriptSpendSig (ap_Inputs p ! i)). \<exists>sig key hash.
        tp_ParseSignature lib (tss_Signature sg) = Inr sig \<and> ts_ParsePubKey (tp_ts lib) (tss_XOnlyPubKey sg) = Inr key \<and>
        tp_CalcTapscriptSignaturehash lib (tss_SigHash sg) p i prevouts leafScript = Inr hash \<and>
        tp_Verify lib sig hash key \<and> xonly lib key = x)"

lemma map_res_mem: "map_res f xs = Inr ys \<Longrightarrow> y \<in> set ys \<Longrightarrow> \<exists>x \<in> set xs. f x = Inr y"
  by (induction xs arbitrary: ys) (auto simp: rbind_eq_Inr)

lemma partial_sigs_signed:
  assumes "map_res (partial_sig lib p prevouts i lf) (pin_TaprootScriptSpendSig (ap_Inputs p ! i)) = Inr xs" "x \<in> set xs"
  shows "signed_by lib p prevouts i lf x"
  using map_res_mem [OF assms] by (fastforce simp: signed_by_def partial_sig_def rbind_eq_Inr guard_err_eq_Inr)

lemma checked_sigs_signed:
  assumes "map_res (checked_sig lib p prevouts i lf) (pin_TaprootScriptSpendSig (ap_Inputs p ! i)) = Inr xs" "x \<in> set xs"
  shows "signed_by lib p prevouts i lf x"
  using map_res_mem [OF assms] by (fastforce simp: signed_by_def checked_sig_def rbind_eq_Inr map_err_eq_Inr guard_err_eq_Inr)

text \<open>What an input must show for a leaf: the spent output commits to the leaf under the key that nobody
  holds, the condition of the closure is met, and every key that is not in \<open>skip\<close> has signed.\<close>

definition leaf_spend_ok ::
    "('k, 'c, 't) taproot_lib \<Rightarrow> ArkPsbt \<Rightarrow> prevout_fetcher \<Rightarrow> string set \<Rightarrow> nat \<Rightarrow> TaprootTapLeafScript \<Rightarrow> bytes \<Rightarrow> bool" where
  "leaf_spend_ok lib p prevouts skip i lf pkScript \<longleftrightarrow>
     (\<exists>closure cb. DecodeClosure (tp_ts lib) (tls_Script lf) = Inr closure \<and>
        tp_ParseControlBlock lib (tls_ControlBlock lf) = Inr cb \<and>
        P2TRScript (tp_ts lib) (tp_ComputeTaprootOutputKey lib (tp_UnspendableKey lib) (tp_RootHash lib cb (tls_Script lf))) =
          Inr pkScript \<and>
        (\<forall>condition. closure_condition closure = Some condition \<longrightarrow>
           (\<exists>w. input_witness lib p i = Inr w \<and> EvaluateScriptToBool (tp_ts lib) condition w = Inr True)) \<and>
        (\<forall>k \<in> set (closure_keys closure). xonly lib k \<in> skip \<or> signed_by lib p prevouts i (tls_Script lf) (xonly lib k)))"

lemma partial_input_ok:
  assumes "partial_input lib p prevouts signerKeys must i (ap_Inputs p ! i) = Inr ()"
  shows "case pin_TaprootLeafScript (ap_Inputs p ! i) of
      [] \<Rightarrow> \<not> must
    | lf # _ \<Rightarrow> \<exists>utxo. pin_WitnessUtxo (ap_Inputs p ! i) = Some utxo \<and>
        leaf_spend_ok lib p prevouts (if must then {} else set signerKeys) i lf (out_PkScript utxo)"
proof (cases "pin_TaprootLeafScript (ap_Inputs p ! i)")
  case Nil
  then show ?thesis using assms by (simp add: partial_input_def guard_err_eq_Inr)
next
  case (Cons lf others)
  let ?skip = "if must then [] else signerKeys"
  obtain utxo closure cb xs where f: "pin_WitnessUtxo (ap_Inputs p ! i) = Some utxo"
    "DecodeClosure (tp_ts lib) (tls_Script lf) = Inr closure" "tp_ParseControlBlock lib (tls_ControlBlock lf) = Inr cb"
    "P2TRScript (tp_ts lib) (tp_ComputeTaprootOutputKey lib (tp_UnspendableKey lib) (tp_RootHash lib cb (tls_Script lf))) =
       Inr (out_PkScript utxo)"
    "\<forall>condition. closure_condition closure = Some condition \<longrightarrow> checkConditionMet lib p i condition = Inr ()"
    "map_res (partial_sig lib p prevouts i (tls_Script lf)) (pin_TaprootScriptSpendSig (ap_Inputs p ! i)) = Inr xs"
    "missing_signers (map (xonly lib) (closure_keys closure)) xs ?skip = []"
    using assms Cons
    by (auto simp: partial_input_def Let_def rbind_eq_Inr map_err_eq_Inr guard_err_eq_Inr split: option.split_asm)
  have "\<exists>w. input_witness lib p i = Inr w \<and> EvaluateScriptToBool (tp_ts lib) condition w = Inr True"
    if "closure_condition closure = Some condition" for condition
    using f(5) that by (auto simp: checkConditionMet_def rbind_eq_Inr guard_err_eq_Inr)
  moreover have "xonly lib k \<in> (if must then {} else set signerKeys) \<or> signed_by lib p prevouts i (tls_Script lf) (xonly lib k)"
    if "k \<in> set (closure_keys closure)" for k
    using f(7) that partial_sigs_signed [OF f(6), of "xonly lib k"] unfolding missing_signers_none by (auto split: if_splits)
  ultimately show ?thesis using f Cons unfolding leaf_spend_ok_def by auto
qed

lemma partial_sigs_facts:
  assumes "verifyTapscriptPartialSigs lib (Inr signer) (Inr deprecated) p must = Inr r"
  shows "r = (True, p) \<and> (\<exists>prevouts. GetPrevOutputFetcher (psbt_UnsignedTx p) (ap_Inputs p) = Inr prevouts \<and>
    (\<forall>i < length (ap_Inputs p). case pin_TaprootLeafScript (ap_Inputs p ! i) of
       [] \<Rightarrow> \<not> must
     | lf # _ \<Rightarrow> \<exists>utxo. pin_WitnessUtxo (ap_Inputs p ! i) = Some utxo \<and>
         leaf_spend_ok lib p prevouts (if must then {} else xonly lib ` set (signer # deprecated)) i lf (out_PkScript utxo)))"
proof -
  obtain prevouts where f: "GetPrevOutputFetcher (psbt_UnsignedTx p) (ap_Inputs p) = Inr prevouts" "r = (True, p)"
    "\<forall>x \<in> set (List.enumerate 0 (ap_Inputs p)).
       partial_input lib p prevouts (map (xonly lib) (signer # deprecated)) must (fst x) (snd x) = Inr ()"
    using assms by (auto simp: verifyTapscriptPartialSigs_def rbind_eq_Inr check_all_eq_Inr case_prod_unfold)
  have "partial_input lib p prevouts (map (xonly lib) (signer # deprecated)) must i (ap_Inputs p ! i) = Inr ()"
    if "i < length (ap_Inputs p)" for i
    using bspec [OF f(3), of "(i, ap_Inputs p ! i)"] that by (simp add: enumerate_nth)
  note parts = this [THEN partial_input_ok, unfolded set_map]
  show ?thesis using f(1,2) parts by blast
qed

text \<open>C8: a transaction whose signatures the builder accepts can be completed: for every input with a leaf the
  spent output commits to it under the unspendable key, its condition is met by the witness that the
  input carries, and every key of the leaf has signed this input, except keys of the signer when
  their signature may be missing; when it may not, no input goes without a leaf.\<close>

theorem verified_partial_sigs:
  assumes "verifyTapscriptPartialSigs lib (Inr signer) (Inr deprecated) p must = Inr r"
  shows "r = (True, p) \<and> (\<exists>prevouts. GetPrevOutputFetcher (psbt_UnsignedTx p) (ap_Inputs p) = Inr prevouts \<and>
    (\<forall>i < length (ap_Inputs p). case pin_TaprootLeafScript (ap_Inputs p ! i) of
       [] \<Rightarrow> \<not> must
     | lf # _ \<Rightarrow> \<exists>utxo. pin_WitnessUtxo (ap_Inputs p ! i) = Some utxo \<and>
         leaf_spend_ok lib p prevouts (if must then {} else xonly lib ` set (signer # deprecated)) i lf (out_PkScript utxo)))"
  using assms by (rule partial_sigs_facts)

subsection \<open>Concrete transactions\<close>

text \<open>Keys of one byte; a control block is the internal key before the root it commits to; a key signs with
  itself.\<close>

definition sample_taproot_lib :: "(u8, bytes, bytes list) taproot_lib" where
  "sample_taproot_lib =
     \<lparr>tp_ts = sample_lib, tp_SerializeCompressed = (\<lambda>k. 2 # replicate 32 k), tp_UnspendableKey = 0,
      tp_ComputeTaprootOutputKey = (\<lambda>k root. k + sum_list root),
      tp_ParseControlBlock = (\<lambda>b. if b = [] then Inl (Errorf ''invalid control block'') else Inr b), tp_ToBytes = Inr,
      tp_InternalKey = (\<lambda>c. Some (hd c)), tp_OutputKeyYIsOdd = (\<lambda>_. False), tp_RootHash = (\<lambda>c _. tl c), tp_TapHash = rev,
      tp_IsTaproot = (\<lambda>s. length s = 34), tp_CalcTapscriptSignaturehash = (\<lambda>_ _ _ _ _. Inr []), tp_ParseSignature = Inr,
      tp_Verify = (\<lambda>sig _ k. sig = [k]),
      tp_writeTxWitness = (\<lambda>w. Inr (of_nat (length w) # concat (map (\<lambda>x. of_nat (length x) # x) w))),
      tp_Assemble = (\<lambda>ls. ls), tp_TreeRoot = (\<lambda>ls. [sum_list (concat ls)]),
      tp_LeafProof = (\<lambda>ls h. if rev h \<in> set ls then Some (\<lambda>k. [k, sum_list (concat ls)], rev h) else None)\<rparr>"

definition sample_sig :: "u8 \<Rightarrow> bytes \<Rightarrow> TaprootScriptSpendSig" where
  "sample_sig k s = \<lparr>tss_XOnlyPubKey = replicate 32 k, tss_LeafHash = rev s, tss_Signature = [k], tss_SigHash = 0\<rparr>"

definition sample_input :: "bytes \<Rightarrow> u8 list \<Rightarrow> PInput" where
  "sample_input s ks =
     \<lparr>pin_WitnessUtxo = Some \<lparr>out_Value = 1000, out_PkScript = OP_1 # 0x20 # replicate 32 1\<rparr>, pin_TaprootKeySpendSig = [],
      pin_TaprootScriptSpendSig = map (\<lambda>k. sample_sig k s) ks,
      pin_TaprootLeafScript = [\<lparr>tls_ControlBlock = [0, 1], tls_Script = s, tls_LeafVersion = 0xc0\<rparr>]\<rparr>"

definition sample_ark_psbt :: "PInput list \<Rightarrow> ArkPsbt" where
  "sample_ark_psbt ins =
     \<lparr>psbt_UnsignedTx =
        \<lparr>tx_Version = 2, tx_TxIn = map (\<lambda>i. \<lparr>in_PreviousOutPoint = \<lparr>op_Hash = [of_nat i], op_Index = 0\<rparr>\<rparr>) [0..<length ins], tx_TxOut = []\<rparr>,
      psbt_Unknowns = replicate (length ins) [], ap_LockTime = 0, ap_Sequences = replicate (length ins) 0xffffffff, ap_Inputs = ins,
      ap_TaprootTapTrees = []\<rparr>"

lemma sample_closure_decoded:
  "DecodeClosure sample_lib sample_multisig_script = Inr (Multisig \<lparr>ms_PubKeys = [5, 7], ms_Type = MultisigTypeChecksig\<rparr>)"
  using sample_leaf_decodes by (simp add: sample_csv_def)

theorem verified_partial_sigs_witness:
  "verifyTapscriptPartialSigs sample_taproot_lib (Inr 7) (Inr []) (sample_ark_psbt [sample_input sample_multisig_script [5]]) False =
     Inr (True, sample_ark_psbt [sample_input sample_multisig_script [5]]) \<and>
   leaf_spend_ok sample_taproot_lib (sample_ark_psbt [sample_input sample_multisig_script [5]])
     [(\<lparr>op_Hash = [0], op_Index = 0\<rparr>, \<lparr>out_Value = 1000, out_PkScript = OP_1 # 0x20 # replicate 32 1\<rparr>)]
     {xonly sample_taproot_lib 7} 0 \<lparr>tls_ControlBlock = [0, 1], tls_Script = sample_multisig_script, tls_LeafVersion = 0xc0\<rparr>
     (OP_1 # 0x20 # replicate 32 1)"
proof
  let ?p = "sample_ark_psbt [sample_input sample_multisig_script [5]]"
  have dec: "DecodeClosure (tp_ts sample_taproot_lib) sample_multisig_script =
      Inr (Multisig \<lparr>ms_PubKeys = [5, 7], ms_Type = MultisigTypeChecksig\<rparr>)"
    using sample_closure_decoded by (simp add: sample_taproot_lib_def)
  have p2tr: "P2TRScript (tp_ts sample_taproot_lib) k = Inr (OP_1 # 0x20 # replicate 32 k)" for k
    using sample_P2TR [of k] by (simp add: sample_taproot_lib_def sample_tree_lib_def)
  have pre: "GetPrevOutputFetcher (psbt_UnsignedTx ?p) (ap_Inputs ?p) =
      Inr [(\<lparr>op_Hash = [0], op_Index = 0\<rparr>, \<lparr>out_Value = 1000, out_PkScript = OP_1 # 0x20 # replicate 32 1\<rparr>)]"
    by (simp add: GetPrevOutputFetcher_def sample_ark_psbt_def sample_input_def)
  show run: "verifyTapscriptPartialSigs sample_taproot_lib (Inr 7) (Inr []) ?p False = Inr (True, ?p)"
    unfolding verifyTapscriptPartialSigs_def pre
    by (simp add: sample_ark_psbt_def sample_input_def partial_input_def dec p2tr Let_def partial_sig_def missing_signers_def)
      (simp add: sample_taproot_lib_def sample_sig_def sample_lib_def xonly_def VerifyControlBlockInternalKey_def)
  have "0 < length (ap_Inputs ?p)" by (simp add: sample_ark_psbt_def)
  with verified_partial_sigs [OF run] pre
  show "leaf_spend_ok sample_taproot_lib ?p
     [(\<lparr>op_Hash = [0], op_Index = 0\<rparr>, \<lparr>out_Value = 1000, out_PkScript = OP_1 # 0x20 # replicate 32 1\<rparr>)]
     {xonly sample_taproot_lib 7} 0 \<lparr>tls_ControlBlock = [0, 1], tls_Script = sample_multisig_script, tls_LeafVersion = 0xc0\<rparr>
     (OP_1 # 0x20 # replicate 32 1)"
    by (auto simp: sample_ark_psbt_def sample_input_def)
qed

definition sample_condition :: "u8 ConditionMultisigClosure" where
  "sample_condition = \<lparr>cond_Multisig = \<lparr>ms_PubKeys = [5, 7], ms_Type = MultisigTypeChecksig\<rparr>, cond_Condition = [OP_EQUAL]\<rparr>"

definition sample_condition_script :: bytes where
  "sample_condition_script = OP_EQUAL # OP_VERIFY # sample_multisig_script"

lemma sample_condition_decoded: "DecodeClosure sample_lib sample_condition_script = Inr (ConditionMultisig sample_condition)"
proof (rule decode_closure_script [OF sample_lib_law])
  show "wf_Closure sample_lib (ConditionMultisig sample_condition)"
    by (simp add: wf_Closure_def sample_condition_def wf_MultisigClosure_def sample_lib_def OP_EQUAL_def forbiddenOpcodes_def
        opcode_defs MaxScriptSize_def)
  show "Closure_Script sample_lib (ConditionMultisig sample_condition) = Inr sample_condition_script"
    by (simp add: Closure_Script_def ConditionMultisigClosure_Script_def condition_script_def MultisigClosure_Script_def
        sample_condition_def sample_condition_script_def sample_multisig_script_def sample_lib_def sized_def MaxScriptSize_def opcode_defs OP_EQUAL_def)
  show "\<not> ts_ScriptHasOpSuccess sample_lib sample_condition_script"
    using sample_scripts_no_success(2)
    by (simp add: sample_lib_def sample_condition_script_def sample_tokens_op OP_EQUAL_def OP_VERIFY_def success_opcodes_def)
qed

lemma sample_condition_false: "EvaluateScriptToBool sample_lib [OP_EQUAL] [] = Inr False"
proof -
  have "ts_Tokenize sample_lib [OP_EQUAL] = ([\<lparr>tk_Opcode = OP_EQUAL, tk_Data = None, tk_Rest = []\<rparr>], None)"
    by (simp add: sample_lib_def sample_tokens_op OP_EQUAL_def token_of_def)
  then show ?thesis
    by (simp add: EvaluateScriptToBool_def validateConditionScript_def MaxScriptSize_def forbiddenOpcodes_def opcode_defs OP_EQUAL_def)
      (simp add: sample_lib_def)
qed

text \<open>the condition of the first input is not evaluated in a transaction of version 2 whose first two inputs
  spend outputs with the same script. The code takes that for an intent proof, whose second input has
  the same condition, but does not compare the leaves: here the second input reveals a leaf without a
  condition, and the transaction is accepted although the condition of the first is not met. With the
  two inputs exchanged it is refused.\<close>

theorem first_condition_unchecked:
  "let c = sample_input sample_condition_script [5]; m = sample_input sample_multisig_script [5];
       out = \<lparr>out_Value = 1000, out_PkScript = OP_1 # 0x20 # replicate 32 1\<rparr>;
       prevouts = [(\<lparr>op_Hash = [0], op_Index = 0\<rparr>, out), (\<lparr>op_Hash = [1], op_Index = 0\<rparr>, out)]
   in VerifyTapscriptSigs sample_taproot_lib (sample_ark_psbt [c, m]) prevouts [7] True = Inr [0, 1] \<and>
      EvaluateScriptToBool sample_lib (cond_Condition sample_condition) [] = Inr False \<and>
      (\<exists>e. VerifyTapscriptSigs sample_taproot_lib (sample_ark_psbt [m, c]) prevouts [7] True = Inl e)"
proof -
  have ts: "tp_ts sample_taproot_lib = sample_lib" by (simp add: sample_taproot_lib_def)
  have wit: "input_witness sample_taproot_lib (sample_ark_psbt [a, b]) i = Inr []" if "i < 2" for a b i
    using that by (auto simp: input_witness_def GetArkPsbtConditionWitness_def GetArkPsbtFields_def sample_ark_psbt_def less_2_cases_iff)
  have keys: "cond_Condition sample_condition = [OP_EQUAL]" "ms_PubKeys (cond_Multisig sample_condition) = [5, 7]" by (simp_all add: sample_condition_def)
  have nnote: "\<not> IsNoteClosureScript sample_multisig_script" "\<not> IsNoteClosureScript sample_condition_script"
    by (simp_all add: IsNoteClosureScript_def sample_multisig_script_def sample_condition_script_def)
  have sig: "checked_sig sample_taproot_lib p prevouts i s (sample_sig 5 s) = Inr (xonly sample_taproot_lib 5)" for p prevouts i s
    by (simp add: checked_sig_def sample_taproot_lib_def sample_sig_def sample_lib_def)
  let ?out = "\<lparr>out_Value = 1000, out_PkScript = OP_1 # 0x20 # replicate 32 1\<rparr>"
  let ?prevouts = "[(\<lparr>op_Hash = [0], op_Index = 0\<rparr>, ?out), (\<lparr>op_Hash = [1], op_Index = 0\<rparr>, ?out)]"
  have intent: "isIntent (sample_ark_psbt [a, b]) ?prevouts" for a b
    by (simp add: isIntent_def sample_ark_psbt_def FetchPrevOutput_def)
  have lib: "tp_IsTaproot sample_taproot_lib (OP_1 # 0x20 # replicate 32 1)"
    "VerifyControlBlockInternalKey sample_taproot_lib [0, 1] = Inr ()" "tp_ParseControlBlock sample_taproot_lib [0, 1] = Inr [0, 1]"
    "ts_SerializePubKey sample_lib (tp_ComputeTaprootOutputKey sample_taproot_lib (tp_UnspendableKey sample_taproot_lib)
       (tp_RootHash sample_taproot_lib [0, 1] s)) = replicate 32 1"
    "\<not> tp_OutputKeyYIsOdd sample_taproot_lib [0, 1]" "tp_SerializeCompressed sample_taproot_lib k ! 0 \<noteq> 3" for s k
    by (simp_all add: sample_taproot_lib_def sample_lib_def VerifyControlBlockInternalKey_def)
  have multi: "verify_input sample_taproot_lib (sample_ark_psbt [a, b]) ?prevouts [xonly sample_taproot_lib 7] True i
      (sample_input sample_multisig_script [5]) = Inr True" if "i < 2" for a b i
    using that sample_closure_decoded
    by (auto simp: verify_input_def sample_input_def sample_ark_psbt_def FetchPrevOutput_def less_2_cases_iff nnote sig lib ts
        missing_signers_def Let_def)
  have cond0: "verify_input sample_taproot_lib (sample_ark_psbt [a, b]) ?prevouts [xonly sample_taproot_lib 7] True 0
      (sample_input sample_condition_script [5]) = Inr True" for a b
    using sample_condition_decoded wit [of 0 a b] intent [of a b]
    by (simp add: verify_input_def sample_input_def FetchPrevOutput_def nnote sig lib ts keys
        missing_signers_def Let_def executeConditionScript_def) (simp add: sample_ark_psbt_def)
  have cond1: "\<exists>e. verify_input sample_taproot_lib (sample_ark_psbt [a, b]) ?prevouts [xonly sample_taproot_lib 7] True 1
      (sample_input sample_condition_script [5]) = Inl e" for a b
    using sample_condition_decoded wit [of 1 a b] sample_condition_false
    by (simp add: verify_input_def sample_input_def FetchPrevOutput_def nnote lib ts keys
        Let_def executeConditionScript_def guard_err_def)
  have len: "length (ap_Inputs (sample_ark_psbt [a, b])) = length (tx_TxIn (psbt_UnsignedTx (sample_ark_psbt [a, b])))"
    "ap_Inputs (sample_ark_psbt [a, b]) = [a, b]" for a b by (simp_all add: sample_ark_psbt_def)
  obtain e where "verify_input sample_taproot_lib (sample_ark_psbt [sample_input sample_multisig_script [5], sample_input sample_condition_script [5]])
      ?prevouts [xonly sample_taproot_lib 7] True 1 (sample_input sample_condition_script [5]) = Inl e"
    using cond1 by blast
  then show ?thesis
    unfolding Let_def VerifyTapscriptSigs_def
    using multi [of 0] multi [of 1] cond0 sample_condition_false len
    by (auto simp: sample_condition_def guard_err_def)
qed

end
