(* ===== verification/Offchain_Builder.thy ===== *)
theory Offchain_Builder
  imports Taproot_Sigs
begin

section \<open>Building offchain transactions\<close>

text \<open>
  \<open>pkg/ark-lib/offchain/tx.go\<close>: an offchain transaction spends each vtxo through a checkpoint transaction, whose
  output can be swept by the signer or spent by the closure of the owner; the ark transaction spends the
  checkpoints. The constructor of PSBTs and the hash of a transaction are third-party code. A vtxo input always
  has an outpoint and a tapscript here; a nil pointer would panic.
\<close>

record ('k, 'c, 't) offchain_lib =
  ol_tap :: "('k, 'c, 't) taproot_lib"
  ol_psbt_New :: "OutPoint list \<Rightarrow> TxOut list \<Rightarrow> int \<Rightarrow> u32 \<Rightarrow> u32 list \<Rightarrow> ArkPsbt gores"
  ol_TxHash :: "MsgTx \<Rightarrow> u32 \<Rightarrow> u32 list \<Rightarrow> bytes"
  ol_HashString :: "bytes \<Rightarrow> string"

definition TxHash :: "('k, 'c, 't) offchain_lib \<Rightarrow> ArkPsbt \<Rightarrow> bytes" where
  "TxHash lib p = ol_TxHash lib (psbt_UnsignedTx p) (ap_LockTime p) (ap_Sequences p)"

definition TxID :: "('k, 'c, 't) offchain_lib \<Rightarrow> ArkPsbt \<Rightarrow> string" where
  "TxID lib p = ol_HashString lib (TxHash lib p)"

definition MaxTxInSequenceNum :: u32 where "MaxTxInSequenceNum = 0xffffffff"
definition cltvSequence :: u32 where "cltvSequence = MaxTxInSequenceNum - 1"

record 'c Tapscript =
  tsc_ControlBlock :: 'c
  tsc_RevealedScript :: bytes

record 'c VtxoInput =
  vi_Outpoint :: OutPoint
  vi_Amount :: u64
  vi_Tapscript :: "'c Tapscript"
  vi_RevealedTapscripts :: "string list"

text \<open>What the loop of \<open>buildArkTx\<close> keeps for an input: its outpoint, sequence, spent output, leaf and taproot tree.\<close>

record built_input =
  bi_Outpoint :: OutPoint
  bi_Sequence :: u32
  bi_WitnessUtxo :: TxOut
  bi_SigningLeaf :: TaprootTapLeafScript
  bi_Tapscripts :: "string list"

definition build_input ::
    "('k, 'c, 't) taproot_lib \<Rightarrow> u32 option \<Rightarrow> 'c VtxoInput \<Rightarrow> (built_input \<times> u32 option) gores" where
  "build_input lib txLocktime vtxo =
     guard_err (length (vi_RevealedTapscripts vtxo) = 0) (Errorf ''missing tapscripts for input'')
     (let ts = vi_Tapscript vtxo;
          rootHash = tp_RootHash lib (tsc_ControlBlock ts) (tsc_RevealedScript ts);
          taprootKey = tp_ComputeTaprootOutputKey lib (tp_UnspendableKey lib) rootHash
      in rbind (P2TRScript (tp_ts lib) taprootKey) (\<lambda>vtxoOutputScript.
         rbind (tp_ToBytes lib (tsc_ControlBlock ts)) (\<lambda>ctrlBlockBytes.
         rbind (DecodeClosure (tp_ts lib) (tsc_RevealedScript ts)) (\<lambda>closure.
         let built = (\<lambda>sequence.
               \<lparr>bi_Outpoint = vi_Outpoint vtxo, bi_Sequence = sequence,
                bi_WitnessUtxo = \<lparr>out_Value = vi_Amount vtxo, out_PkScript = vtxoOutputScript\<rparr>,
                bi_SigningLeaf = \<lparr>tls_ControlBlock = ctrlBlockBytes, tls_Script = tsc_RevealedScript ts,
                  tls_LeafVersion = BaseLeafVersion\<rparr>,
                bi_Tapscripts = vi_RevealedTapscripts vtxo\<rparr>)
         in case closure of
              CLTVMultisig cltv \<Rightarrow>
                (let locktime = cltv_Locktime cltv in
                 guard_err (case txLocktime of None \<Rightarrow> False
                            | Some l \<Rightarrow> AbsoluteLocktime_IsSeconds l \<noteq> AbsoluteLocktime_IsSeconds locktime)
                   (Errorf ''mixed absolute locktime types'')
                   (Inr (built cltvSequence,
                      case txLocktime of None \<Rightarrow> Some locktime | Some l \<Rightarrow> if l < locktime then Some locktime else Some l)))
            | _ \<Rightarrow> Inr (built MaxTxInSequenceNum, txLocktime)))))"

fun build_inputs ::
    "('k, 'c, 't) taproot_lib \<Rightarrow> u32 option \<Rightarrow> 'c VtxoInput list \<Rightarrow> (built_input list \<times> u32 option) gores" where
  "build_inputs lib txLocktime [] = Inr ([], txLocktime)"
| "build_inputs lib txLocktime (vtxo # vtxos) =
     rbind (build_input lib txLocktime vtxo) (\<lambda>(b, txLocktime).
     rbind (build_inputs lib txLocktime vtxos) (\<lambda>(bs, txLocktime). Inr (b # bs, txLocktime)))"

text \<open>The last loop of \<open>buildArkTx\<close>, for the input \<open>i\<close> and the following ones.\<close>

fun fill_inputs :: "nat \<Rightarrow> built_input list \<Rightarrow> ArkPsbt \<Rightarrow> ArkPsbt gores" where
  "fill_inputs i [] arkTx = Inr arkTx"
| "fill_inputs i (b # bs) arkTx =
     (let input = (ap_Inputs arkTx ! i)\<lparr>pin_WitnessUtxo := Some (bi_WitnessUtxo b), pin_TaprootLeafScript := [bi_SigningLeaf b]\<rparr>
      in rbind (SetArkPsbtField (arkTx\<lparr>ap_Inputs := (ap_Inputs arkTx)[i := input]\<rparr>) i VtxoTaprootTreeField (bi_Tapscripts b))
           (fill_inputs (Suc i) bs))"

definition buildArkTx :: "('k, 'c, 't) offchain_lib \<Rightarrow> 'c VtxoInput list \<Rightarrow> TxOut list \<Rightarrow> ArkPsbt gores" where
  "buildArkTx lib vtxos outputs =
     guard_err (length vtxos \<le> 0) (Errorf ''missing vtxos'')
     (rbind (build_inputs (ol_tap lib) None vtxos) (\<lambda>(built, txLocktime).
      rbind (ol_psbt_New lib (map bi_Outpoint built) (outputs @ [AnchorOutput]) 3
               (case txLocktime of None \<Rightarrow> 0 | Some l \<Rightarrow> l) (map bi_Sequence built)) (\<lambda>arkTx.
        fill_inputs 0 built arkTx)))"

definition checkpoint_script :: "'k CSVMultisigClosure \<Rightarrow> 'k Closure \<Rightarrow> 'k TapscriptsVtxoScript" where
  "checkpoint_script signerUnrollScript collaborativeClosure =
     \<lparr>tvs_Closures = [CSVMultisig signerUnrollScript, collaborativeClosure]\<rparr>"

definition tap_tree :: "('k, 'c, 't) taproot_lib \<Rightarrow> 'k TapscriptsVtxoScript \<Rightarrow> ('k \<times> 't) gores" where
  "tap_tree lib v =
     TapTree (tp_ts lib) (tp_Assemble lib) (tp_TreeRoot lib) (tp_ComputeTaprootOutputKey lib) (tp_UnspendableKey lib) v"

definition buildCheckpointTx ::
    "('k, 'c, 't) offchain_lib \<Rightarrow> 'k CSVMultisigClosure \<Rightarrow> 'c VtxoInput \<Rightarrow> (ArkPsbt \<times> 'c VtxoInput) gores" where
  "buildCheckpointTx lib signerUnrollScript vtxo =
     (let tap = ol_tap lib; revealed = tsc_RevealedScript (vi_Tapscript vtxo) in
      rbind (DecodeClosure (tp_ts tap) revealed) (\<lambda>collaborativeClosure.
      let checkpointVtxoScript = checkpoint_script signerUnrollScript collaborativeClosure in
      rbind (tap_tree tap checkpointVtxoScript) (\<lambda>(tapKey, tapTree).
      rbind (P2TRScript (tp_ts tap) tapKey) (\<lambda>checkpointPkScript.
      rbind (buildArkTx lib [vtxo] [\<lparr>out_Value = vi_Amount vtxo, out_PkScript = checkpointPkScript\<rparr>]) (\<lambda>checkpointPtx.
      rbind (GetTaprootMerkleProof tap tapTree (tp_TapHash tap revealed)) (\<lambda>(proofControlBlock, proofScript).
      rbind (tp_ParseControlBlock tap proofControlBlock) (\<lambda>ctrlBlock.
      rbind (TapscriptsVtxoScript_Encode (tp_ts tap) checkpointVtxoScript) (\<lambda>revealedTapscripts.
        Inr (checkpointPtx,
          \<lparr>vi_Outpoint = \<lparr>op_Hash = TxHash lib checkpointPtx, op_Index = 0\<rparr>, vi_Amount = vi_Amount vtxo,
           vi_Tapscript = \<lparr>tsc_ControlBlock = ctrlBlock, tsc_RevealedScript = proofScript\<rparr>,
           vi_RevealedTapscripts = revealedTapscripts\<rparr>)))))))))"

definition set_anchor :: "nat \<Rightarrow> u64 \<Rightarrow> ArkPsbt \<Rightarrow> ArkPsbt" where
  "set_anchor i v p =
     (let tx = psbt_UnsignedTx p
      in p\<lparr>psbt_UnsignedTx := tx\<lparr>tx_TxOut := (tx_TxOut tx)[i := (tx_TxOut tx ! i)\<lparr>out_Value := v\<rparr>]\<rparr>\<rparr>)"

text \<open>Amounts are \<open>int64\<close>: the sums wrap, and are compared as signed.\<close>

definition buildTxs ::
    "('k, 'c, 't) offchain_lib \<Rightarrow> 'c VtxoInput list \<Rightarrow> TxOut list \<Rightarrow> bytes \<Rightarrow> bool \<Rightarrow> (ArkPsbt \<times> ArkPsbt list) gores" where
  "buildTxs lib vtxos outputs signerUnrollScript allowFee =
     rbind (CSVMultisigClosure_Decode (tp_ts (ol_tap lib)) signerUnrollScript) (\<lambda>decoded.
       case decoded of
         None \<Rightarrow> Inl (Errorf ''invalid signer unroll script'')
       | Some signerUnrollScriptClosure \<Rightarrow>
           rbind (map_res (buildCheckpointTx lib signerUnrollScriptClosure) vtxos) (\<lambda>checkpoints.
           let inputAmount = sum_list (map vi_Amount vtxos);
               outputAmount = sum_list (map out_Value outputs) in
           guard_err (sint outputAmount > sint inputAmount) (Errorf ''output amount exceeds input amount'')
           (guard_err (\<not> allowFee \<and> inputAmount \<noteq> outputAmount) (Errorf ''input amount is not equal to output amount'')
           (rbind (buildArkTx lib (map snd checkpoints) outputs) (\<lambda>arkTx.
              Inr (set_anchor (length outputs) (inputAmount - outputAmount) arkTx, map fst checkpoints))))))"

definition BuildTxs ::
    "('k, 'c, 't) offchain_lib \<Rightarrow> 'c VtxoInput list \<Rightarrow> TxOut list \<Rightarrow> bytes \<Rightarrow> (ArkPsbt \<times> ArkPsbt list) gores" where
  "BuildTxs lib vtxos outputs signerUnrollScript = buildTxs lib vtxos outputs signerUnrollScript False"

definition BuildTxsWithFee ::
    "('k, 'c, 't) offchain_lib \<Rightarrow> 'c VtxoInput list \<Rightarrow> TxOut list \<Rightarrow> bytes \<Rightarrow> (ArkPsbt \<times> ArkPsbt list) gores" where
  "BuildTxsWithFee lib vtxos outputs signerUnrollScript = buildTxs lib vtxos outputs signerUnrollScript True"

subsection \<open>The parts of a transaction\<close>

text \<open>What the code relies on in the libraries: the constructor of PSBTs makes the transaction it is asked for,
  with one empty input for each outpoint, a Merkle proof leads to
  the root of its tree, and a leaf hash finds the leaf it was made from.\<close>

definition offchain_law :: "('k, 'c, 't) offchain_lib \<Rightarrow> bool" where
  "offchain_law lib \<longleftrightarrow>
     (\<forall>ins outs v l sqs p. ol_psbt_New lib ins outs v l sqs = Inr p \<longrightarrow>
        psbt_UnsignedTx p = \<lparr>tx_Version = v, tx_TxIn = map (\<lambda>i. \<lparr>in_PreviousOutPoint = i\<rparr>) ins, tx_TxOut = outs\<rparr> \<and>
        psbt_Unknowns p = replicate (length ins) [] \<and> ap_LockTime p = l \<and> ap_Sequences p = sqs \<and>
        length (ap_Inputs p) = length ins \<and> length (ap_TaprootTapTrees p) = length outs) \<and>
     (\<forall>t h toControlBlock s b c. tp_LeafProof (ol_tap lib) t h = Some (toControlBlock, s) \<and>
        tp_ToBytes (ol_tap lib) (toControlBlock (tp_UnspendableKey (ol_tap lib))) = Inr b \<and>
        tp_ParseControlBlock (ol_tap lib) b = Inr c \<longrightarrow> tp_RootHash (ol_tap lib) c s = tp_TreeRoot (ol_tap lib) t) \<and>
     (\<forall>t s toControlBlock s'. tp_LeafProof (ol_tap lib) t (tp_TapHash (ol_tap lib) s) = Some (toControlBlock, s') \<longrightarrow> s' = s)"

text \<open>An input as it is built for a vtxo.\<close>

definition built_for :: "('k, 'c, 't) taproot_lib \<Rightarrow> 'c VtxoInput \<Rightarrow> built_input \<Rightarrow> bool" where
  "built_for lib vtxo b \<longleftrightarrow>
     bi_Outpoint b = vi_Outpoint vtxo \<and> out_Value (bi_WitnessUtxo b) = vi_Amount vtxo \<and>
     tls_Script (bi_SigningLeaf b) = tsc_RevealedScript (vi_Tapscript vtxo) \<and>
     P2TRScript (tp_ts lib) (tp_ComputeTaprootOutputKey lib (tp_UnspendableKey lib)
       (tp_RootHash lib (tsc_ControlBlock (vi_Tapscript vtxo)) (tsc_RevealedScript (vi_Tapscript vtxo)))) =
       Inr (out_PkScript (bi_WitnessUtxo b))"

lemma build_input_closure:
  assumes "build_input lib l vtxo = Inr r"
  obtains closure where "DecodeClosure (tp_ts lib) (tsc_RevealedScript (vi_Tapscript vtxo)) = Inr closure"
  using assms by (auto simp: build_input_def Let_def rbind_eq_Inr guard_err_eq_Inr)

lemma build_input_for:
  assumes "build_input lib l vtxo = Inr (b, l')"
  shows "built_for lib vtxo b"
proof -
  obtain closure where "DecodeClosure (tp_ts lib) (tsc_RevealedScript (vi_Tapscript vtxo)) = Inr closure"
    using build_input_closure [OF assms] .
  with assms show ?thesis
    by (cases closure) (auto simp: build_input_def built_for_def Let_def rbind_eq_Inr guard_err_eq_Inr)
qed

lemma build_inputs_for:
  "build_inputs lib l vtxos = Inr (bs, l') \<Longrightarrow> list_all2 (built_for lib) vtxos bs"
  by (induction vtxos arbitrary: l bs l') (auto simp: rbind_eq_Inr dest: build_input_for)

lemma fill_inputs_facts:
  assumes "fill_inputs i bs p = Inr p'" "i + length bs \<le> length (ap_Inputs p)"
  shows "psbt_UnsignedTx p' = psbt_UnsignedTx p" "ap_LockTime p' = ap_LockTime p" "ap_Sequences p' = ap_Sequences p"
    "length (ap_Inputs p') = length (ap_Inputs p)" "\<forall>j < i. ap_Inputs p' ! j = ap_Inputs p ! j"
    "\<forall>j < length bs. pin_WitnessUtxo (ap_Inputs p' ! (i + j)) = Some (bi_WitnessUtxo (bs ! j)) \<and>
       pin_TaprootLeafScript (ap_Inputs p' ! (i + j)) = [bi_SigningLeaf (bs ! j)]"
proof -
  have "psbt_UnsignedTx p' = psbt_UnsignedTx p \<and> ap_LockTime p' = ap_LockTime p \<and> ap_Sequences p' = ap_Sequences p \<and>
    length (ap_Inputs p') = length (ap_Inputs p) \<and> (\<forall>j < i. ap_Inputs p' ! j = ap_Inputs p ! j) \<and>
    (\<forall>j < length bs. pin_WitnessUtxo (ap_Inputs p' ! (i + j)) = Some (bi_WitnessUtxo (bs ! j)) \<and>
       pin_TaprootLeafScript (ap_Inputs p' ! (i + j)) = [bi_SigningLeaf (bs ! j)])"
    using assms
  proof (induction bs arbitrary: i p)
    case (Cons b bs)
    let ?input = "(ap_Inputs p ! i)\<lparr>pin_WitnessUtxo := Some (bi_WitnessUtxo b), pin_TaprootLeafScript := [bi_SigningLeaf b]\<rparr>"
    obtain q where q: "SetArkPsbtField (p\<lparr>ap_Inputs := (ap_Inputs p)[i := ?input]\<rparr>) i VtxoTaprootTreeField (bi_Tapscripts b) = Inr q"
      "fill_inputs (Suc i) bs q = Inr p'" using Cons.prems(1) by (auto simp: Let_def rbind_eq_Inr)
    have f: "psbt_UnsignedTx q = psbt_UnsignedTx p" "ap_LockTime q = ap_LockTime p" "ap_Sequences q = ap_Sequences p"
      "ap_Inputs q = (ap_Inputs p)[i := ?input]"
      using q(1) by (auto simp: SetArkPsbtField_def guard_err_eq_Inr rbind_eq_Inr)
    have i: "i < length (ap_Inputs p)" using Cons.prems(2) by simp
    have IH: "psbt_UnsignedTx p' = psbt_UnsignedTx q \<and> ap_LockTime p' = ap_LockTime q \<and> ap_Sequences p' = ap_Sequences q \<and>
      length (ap_Inputs p') = length (ap_Inputs q) \<and> (\<forall>j < Suc i. ap_Inputs p' ! j = ap_Inputs q ! j) \<and>
      (\<forall>j < length bs. pin_WitnessUtxo (ap_Inputs p' ! (Suc i + j)) = Some (bi_WitnessUtxo (bs ! j)) \<and>
         pin_TaprootLeafScript (ap_Inputs p' ! (Suc i + j)) = [bi_SigningLeaf (bs ! j)])"
      using Cons.IH [OF q(2)] Cons.prems(2) f(4) by simp
    have "pin_WitnessUtxo (ap_Inputs p' ! (i + j)) = Some (bi_WitnessUtxo ((b # bs) ! j)) \<and>
        pin_TaprootLeafScript (ap_Inputs p' ! (i + j)) = [bi_SigningLeaf ((b # bs) ! j)]" if "j < length (b # bs)" for j
    proof (cases j)
      case 0
      then show ?thesis using IH f(4) i by simp
    next
      case (Suc k)
      then show ?thesis using IH that by simp
    qed
    then show ?case using IH f by simp
  qed simp
  then show "psbt_UnsignedTx p' = psbt_UnsignedTx p" "ap_LockTime p' = ap_LockTime p" "ap_Sequences p' = ap_Sequences p"
    "length (ap_Inputs p') = length (ap_Inputs p)" "\<forall>j < i. ap_Inputs p' ! j = ap_Inputs p ! j"
    "\<forall>j < length bs. pin_WitnessUtxo (ap_Inputs p' ! (i + j)) = Some (bi_WitnessUtxo (bs ! j)) \<and>
       pin_TaprootLeafScript (ap_Inputs p' ! (i + j)) = [bi_SigningLeaf (bs ! j)]" by blast+
qed

text \<open>The transaction that \<open>buildArkTx\<close> makes.\<close>

lemma buildArkTx_facts:
  assumes "buildArkTx lib vtxos outs = Inr p" "offchain_law lib"
  obtains bs l where "build_inputs (ol_tap lib) None vtxos = Inr (bs, l)" "vtxos \<noteq> []"
    "psbt_UnsignedTx p = \<lparr>tx_Version = 3, tx_TxIn = map (\<lambda>v. \<lparr>in_PreviousOutPoint = vi_Outpoint v\<rparr>) vtxos, tx_TxOut = outs @ [AnchorOutput]\<rparr>"
    "ap_LockTime p = (case l of None \<Rightarrow> 0 | Some l \<Rightarrow> l)" "ap_Sequences p = map bi_Sequence bs"
    "length (ap_Inputs p) = length vtxos"
    "\<And>i. i < length vtxos \<Longrightarrow> pin_WitnessUtxo (ap_Inputs p ! i) = Some (bi_WitnessUtxo (bs ! i)) \<and>
       pin_TaprootLeafScript (ap_Inputs p ! i) = [bi_SigningLeaf (bs ! i)] \<and> built_for (ol_tap lib) (vtxos ! i) (bs ! i)"
proof -
  obtain bs l q where q: "build_inputs (ol_tap lib) None vtxos = Inr (bs, l)" "vtxos \<noteq> []"
    "ol_psbt_New lib (map bi_Outpoint bs) (outs @ [AnchorOutput]) 3 (case l of None \<Rightarrow> 0 | Some l \<Rightarrow> l) (map bi_Sequence bs) = Inr q"
    "fill_inputs 0 bs q = Inr p"
    using assms(1) by (auto simp: buildArkTx_def guard_err_eq_Inr rbind_eq_Inr)
  note bf = build_inputs_for [OF q(1)]
  have len: "length bs = length vtxos" using bf by (simp add: list_all2_lengthD)
  have ops: "map bi_Outpoint bs = map vi_Outpoint vtxos"
    using bf by (induction rule: list_all2_induct) (auto simp: built_for_def)
  have f: "psbt_UnsignedTx q = \<lparr>tx_Version = 3, tx_TxIn = map (\<lambda>v. \<lparr>in_PreviousOutPoint = vi_Outpoint v\<rparr>) vtxos, tx_TxOut = outs @ [AnchorOutput]\<rparr>"
    "ap_LockTime q = (case l of None \<Rightarrow> 0 | Some l \<Rightarrow> l)" "ap_Sequences q = map bi_Sequence bs" "length (ap_Inputs q) = length vtxos"
    using assms(2) q(3) len unfolding offchain_law_def ops by (fastforce simp: comp_def)+
  have "0 + length bs \<le> length (ap_Inputs q)" using f(4) len by simp
  note g = fill_inputs_facts [OF q(4) this]
  show thesis
    by (rule that [OF q(1,2)]) (use f g len list_all2_nthD [OF bf] in auto)
qed

subsection \<open>Lock times\<close>

text \<open>A lock time that covers another: not smaller, and of the same unit.\<close>

definition covers :: "u32 \<Rightarrow> u32 option \<Rightarrow> bool" where
  "covers m l' \<longleftrightarrow> (\<exists>m'. l' = Some m' \<and> m \<le> m' \<and> AbsoluteLocktime_IsSeconds m = AbsoluteLocktime_IsSeconds m')"

lemma covers_trans: "covers m (Some m') \<Longrightarrow> covers m' l \<Longrightarrow> covers m l"
  by (auto simp: covers_def)

lemma covers_refl [simp]: "covers m (Some m)"
  by (simp add: covers_def)

lemma build_input_locktime:
  assumes "build_input lib l vtxo = Inr (b, l')" "DecodeClosure (tp_ts lib) (tsc_RevealedScript (vi_Tapscript vtxo)) = Inr closure"
  shows "(\<forall>m. l = Some m \<longrightarrow> covers m l') \<and>
    (\<forall>c. closure = CLTVMultisig c \<longrightarrow> bi_Sequence b = cltvSequence \<and> covers (cltv_Locktime c) l') \<and>
    ((\<forall>c. closure \<noteq> CLTVMultisig c) \<longrightarrow> l' = l)"
  using assms
  by (cases closure; cases l) (auto simp: build_input_def Let_def rbind_eq_Inr guard_err_eq_Inr covers_def not_less split: if_splits)

lemma build_inputs_locktime:
  assumes "build_inputs lib l vtxos = Inr (bs, l')"
  shows "(\<forall>m. l = Some m \<longrightarrow> covers m l') \<and>
    (\<forall>i < length vtxos. \<forall>c. DecodeClosure (tp_ts lib) (tsc_RevealedScript (vi_Tapscript (vtxos ! i))) = Inr (CLTVMultisig c) \<longrightarrow>
       bi_Sequence (bs ! i) = cltvSequence \<and> covers (cltv_Locktime c) l') \<and>
    ((\<forall>i < length vtxos. \<forall>c. DecodeClosure (tp_ts lib) (tsc_RevealedScript (vi_Tapscript (vtxos ! i))) \<noteq> Inr (CLTVMultisig c)) \<longrightarrow> l' = l)"
  using assms
proof (induction vtxos arbitrary: l bs)
  case (Cons v vs)
  obtain b m bs' where b: "build_input lib l v = Inr (b, m)" "build_inputs lib m vs = Inr (bs', l')" "bs = b # bs'"
    using Cons.prems by (auto simp: rbind_eq_Inr)
  obtain closure where c: "DecodeClosure (tp_ts lib) (tsc_RevealedScript (vi_Tapscript v)) = Inr closure"
    using build_input_closure [OF b(1)] .
  note one = build_input_locktime [OF b(1) c] and IH = Cons.IH [OF b(2)]
  have trans: "covers k l'" if "covers k m" for k
    using that IH covers_trans [of k _ l'] unfolding covers_def by metis
  show ?case
  proof (intro conjI allI impI)
    fix i c' assume i: "i < length (v # vs)" and d: "DecodeClosure (tp_ts lib) (tsc_RevealedScript (vi_Tapscript ((v # vs) ! i))) = Inr (CLTVMultisig c')"
    show "bi_Sequence (bs ! i) = cltvSequence" "covers (cltv_Locktime c') l'"
      using i d one IH c b(3) trans by (cases i; auto)+
  next
    fix k assume "l = Some k"
    then show "covers k l'" using one trans by blast
  next
    assume a: "\<forall>i < length (v # vs). \<forall>c. DecodeClosure (tp_ts lib) (tsc_RevealedScript (vi_Tapscript ((v # vs) ! i))) \<noteq> Inr (CLTVMultisig c)"
    have "m = l" using one a c by force
    moreover have "l' = m" using IH a by force
    ultimately show "l' = l" by simp
  qed
qed simp

subsection \<open>Checkpoints\<close>

text \<open>A checkpoint for a vtxo, with the input of the ark transaction that spends it.\<close>

definition checkpoint_for ::
    "('k, 'c, 't) offchain_lib \<Rightarrow> 'c VtxoInput \<Rightarrow> ArkPsbt \<times> 'c VtxoInput \<Rightarrow> bool" where
  "checkpoint_for lib vtxo cp \<longleftrightarrow>
     (\<exists>script. tx_TxIn (psbt_UnsignedTx (fst cp)) = [\<lparr>in_PreviousOutPoint = vi_Outpoint vtxo\<rparr>] \<and>
        tx_TxOut (psbt_UnsignedTx (fst cp)) = [\<lparr>out_Value = vi_Amount vtxo, out_PkScript = script\<rparr>, AnchorOutput] \<and>
        (\<forall>c. DecodeClosure (tp_ts (ol_tap lib)) (tsc_RevealedScript (vi_Tapscript vtxo)) = Inr (CLTVMultisig c) \<longrightarrow>
           ap_Sequences (fst cp) = [cltvSequence] \<and> ap_LockTime (fst cp) = cltv_Locktime c) \<and>
        vi_Outpoint (snd cp) = \<lparr>op_Hash = TxHash lib (fst cp), op_Index = 0\<rparr> \<and> vi_Amount (snd cp) = vi_Amount vtxo \<and>
        tsc_RevealedScript (vi_Tapscript (snd cp)) = tsc_RevealedScript (vi_Tapscript vtxo) \<and>
        P2TRScript (tp_ts (ol_tap lib)) (tp_ComputeTaprootOutputKey (ol_tap lib) (tp_UnspendableKey (ol_tap lib))
          (tp_RootHash (ol_tap lib) (tsc_ControlBlock (vi_Tapscript (snd cp))) (tsc_RevealedScript (vi_Tapscript (snd cp))))) = Inr script)"

lemma one_input_locktime:
  assumes "build_inputs lib None [vtxo] = Inr (bs, l)"
    and "DecodeClosure (tp_ts lib) (tsc_RevealedScript (vi_Tapscript vtxo)) = Inr (CLTVMultisig c)"
  shows "map bi_Sequence bs = [cltvSequence] \<and> l = Some (cltv_Locktime c)"
  using assms by (auto simp: build_input_def Let_def rbind_eq_Inr guard_err_eq_Inr)

lemma buildCheckpointTx_for:
  assumes "buildCheckpointTx lib unroll vtxo = Inr cp" "offchain_law lib"
  shows "checkpoint_for lib vtxo cp"
proof -
  let ?tap = "ol_tap lib" and ?s = "tsc_RevealedScript (vi_Tapscript vtxo)"
  obtain closure key tree script p cb ps c ts where f: "DecodeClosure (tp_ts ?tap) ?s = Inr closure"
    "tap_tree ?tap (checkpoint_script unroll closure) = Inr (key, tree)" "P2TRScript (tp_ts ?tap) key = Inr script"
    "buildArkTx lib [vtxo] [\<lparr>out_Value = vi_Amount vtxo, out_PkScript = script\<rparr>] = Inr p"
    "GetTaprootMerkleProof ?tap tree (tp_TapHash ?tap ?s) = Inr (cb, ps)" "tp_ParseControlBlock ?tap cb = Inr c"
    "cp = (p, \<lparr>vi_Outpoint = \<lparr>op_Hash = TxHash lib p, op_Index = 0\<rparr>, vi_Amount = vi_Amount vtxo,
       vi_Tapscript = \<lparr>tsc_ControlBlock = c, tsc_RevealedScript = ps\<rparr>, vi_RevealedTapscripts = ts\<rparr>)"
    using assms(1) unfolding buildCheckpointTx_def Let_def
    by (auto simp: rbind_eq_Inr)
  obtain tc where tc: "tp_LeafProof ?tap tree (tp_TapHash ?tap ?s) = Some (tc, ps)"
    "tp_ToBytes ?tap (tc (tp_UnspendableKey ?tap)) = Inr cb"
    using f(5) by (auto simp: GetTaprootMerkleProof_def rbind_eq_Inr split: option.split_asm prod.split_asm)
  have root: "tp_RootHash ?tap c ps = tp_TreeRoot ?tap tree" and ps: "ps = ?s"
    using assms(2) tc f(6) unfolding offchain_law_def by blast+
  have key: "key = tp_ComputeTaprootOutputKey ?tap (tp_UnspendableKey ?tap) (tp_TreeRoot ?tap tree)"
    using f(2) by (auto simp: tap_tree_def TapTree_def rbind_eq_Inr map_err_eq_Inr Let_def)
  from buildArkTx_facts [OF f(4) assms(2)] obtain bs l where b: "build_inputs ?tap None [vtxo] = Inr (bs, l)"
    "psbt_UnsignedTx p = \<lparr>tx_Version = 3, tx_TxIn = map (\<lambda>v. \<lparr>in_PreviousOutPoint = vi_Outpoint v\<rparr>) [vtxo],
       tx_TxOut = [\<lparr>out_Value = vi_Amount vtxo, out_PkScript = script\<rparr>] @ [AnchorOutput]\<rparr>"
    "ap_LockTime p = (case l of None \<Rightarrow> 0 | Some l \<Rightarrow> l)" "ap_Sequences p = map bi_Sequence bs"
    by metis
  have "ap_Sequences p = [cltvSequence] \<and> ap_LockTime p = cltv_Locktime k" if "closure = CLTVMultisig k" for k
    using one_input_locktime [OF b(1)] f(1) b(3,4) that by simp
  then show ?thesis using b(2) f(1,3,7) root key ps by (auto simp: checkpoint_for_def)
qed

subsection \<open>The ark transaction\<close>

lemma set_anchor_facts:
  assumes "tx_TxOut (psbt_UnsignedTx p) = outs @ [AnchorOutput]"
  shows "tx_TxOut (psbt_UnsignedTx (set_anchor (length outs) v p)) = outs @ [\<lparr>out_Value = v, out_PkScript = ANCHOR_PKSCRIPT\<rparr>]"
    "tx_TxIn (psbt_UnsignedTx (set_anchor (length outs) v p)) = tx_TxIn (psbt_UnsignedTx p)"
    "ap_Inputs (set_anchor (length outs) v p) = ap_Inputs p" "ap_LockTime (set_anchor (length outs) v p) = ap_LockTime p"
    "ap_Sequences (set_anchor (length outs) v p) = ap_Sequences p"
  using assms by (simp_all add: set_anchor_def Let_def AnchorOutput_def)

lemma buildTxs_facts:
  assumes "offchain_law lib" and "buildTxs lib vtxos outputs unroll allowFee = Inr (ark, cps)"
  shows "length cps = length vtxos \<and> length (tx_TxIn (psbt_UnsignedTx ark)) = length vtxos \<and> length (ap_Inputs ark) = length vtxos \<and>
    tx_TxOut (psbt_UnsignedTx ark) = outputs @
      [\<lparr>out_Value = sum_list (map vi_Amount vtxos) - sum_list (map out_Value outputs), out_PkScript = ANCHOR_PKSCRIPT\<rparr>] \<and>
    sum_list (map out_Value (tx_TxOut (psbt_UnsignedTx ark))) = sum_list (map vi_Amount vtxos) \<and>
    (allowFee \<or> out_Value (last (tx_TxOut (psbt_UnsignedTx ark))) = 0) \<and>
    (\<forall>i < length vtxos. \<exists>script.
       tx_TxIn (psbt_UnsignedTx (cps ! i)) = [\<lparr>in_PreviousOutPoint = vi_Outpoint (vtxos ! i)\<rparr>] \<and>
       tx_TxOut (psbt_UnsignedTx (cps ! i)) = [\<lparr>out_Value = vi_Amount (vtxos ! i), out_PkScript = script\<rparr>, AnchorOutput] \<and>
       tx_TxIn (psbt_UnsignedTx ark) ! i = \<lparr>in_PreviousOutPoint = \<lparr>op_Hash = TxHash lib (cps ! i), op_Index = 0\<rparr>\<rparr> \<and>
       pin_WitnessUtxo (ap_Inputs ark ! i) = Some \<lparr>out_Value = vi_Amount (vtxos ! i), out_PkScript = script\<rparr> \<and>
       map tls_Script (pin_TaprootLeafScript (ap_Inputs ark ! i)) = [tsc_RevealedScript (vi_Tapscript (vtxos ! i))])"
proof -
  obtain csv cs p where f: "map_res (buildCheckpointTx lib csv) vtxos = Inr cs" "buildArkTx lib (map snd cs) outputs = Inr p"
    "cps = map fst cs" "allowFee \<or> sum_list (map vi_Amount vtxos) = sum_list (map out_Value outputs)"
    "ark = set_anchor (length outputs) (sum_list (map vi_Amount vtxos) - sum_list (map out_Value outputs)) p"
    using assms(2) by (auto simp: buildTxs_def Let_def rbind_eq_Inr guard_err_eq_Inr split: option.split_asm)
  have cp: "list_all2 (checkpoint_for lib) vtxos cs"
    using f(1) buildCheckpointTx_for [OF _ assms(1)] unfolding map_res_eq_Inr by (rule list_all2_mono)
  have len: "length cs = length vtxos" using cp by (simp add: list_all2_lengthD)
  from buildArkTx_facts [OF f(2) assms(1)] obtain bs where b:
    "psbt_UnsignedTx p = \<lparr>tx_Version = 3, tx_TxIn = map (\<lambda>v. \<lparr>in_PreviousOutPoint = vi_Outpoint v\<rparr>) (map snd cs), tx_TxOut = outputs @ [AnchorOutput]\<rparr>"
    "length (ap_Inputs p) = length (map snd cs)"
    "\<And>i. i < length (map snd cs) \<Longrightarrow> pin_WitnessUtxo (ap_Inputs p ! i) = Some (bi_WitnessUtxo (bs ! i)) \<and>
       pin_TaprootLeafScript (ap_Inputs p ! i) = [bi_SigningLeaf (bs ! i)] \<and> built_for (ol_tap lib) (map snd cs ! i) (bs ! i)"
    by metis
  have outs: "tx_TxOut (psbt_UnsignedTx p) = outputs @ [AnchorOutput]" using b(1) by simp
  note a = set_anchor_facts [OF outs, of "sum_list (map vi_Amount vtxos) - sum_list (map out_Value outputs)", folded f(5)]
  have each: "\<exists>script. tx_TxIn (psbt_UnsignedTx (cps ! i)) = [\<lparr>in_PreviousOutPoint = vi_Outpoint (vtxos ! i)\<rparr>] \<and>
       tx_TxOut (psbt_UnsignedTx (cps ! i)) = [\<lparr>out_Value = vi_Amount (vtxos ! i), out_PkScript = script\<rparr>, AnchorOutput] \<and>
       tx_TxIn (psbt_UnsignedTx ark) ! i = \<lparr>in_PreviousOutPoint = \<lparr>op_Hash = TxHash lib (cps ! i), op_Index = 0\<rparr>\<rparr> \<and>
       pin_WitnessUtxo (ap_Inputs ark ! i) = Some \<lparr>out_Value = vi_Amount (vtxos ! i), out_PkScript = script\<rparr> \<and>
       map tls_Script (pin_TaprootLeafScript (ap_Inputs ark ! i)) = [tsc_RevealedScript (vi_Tapscript (vtxos ! i))]"
    if i: "i < length vtxos" for i
  proof -
    have c: "checkpoint_for lib (vtxos ! i) (cs ! i)" using list_all2_nthD [OF cp i] .
    then obtain script where s: "tx_TxIn (psbt_UnsignedTx (fst (cs ! i))) = [\<lparr>in_PreviousOutPoint = vi_Outpoint (vtxos ! i)\<rparr>]"
      "tx_TxOut (psbt_UnsignedTx (fst (cs ! i))) = [\<lparr>out_Value = vi_Amount (vtxos ! i), out_PkScript = script\<rparr>, AnchorOutput]"
      "vi_Outpoint (snd (cs ! i)) = \<lparr>op_Hash = TxHash lib (fst (cs ! i)), op_Index = 0\<rparr>" "vi_Amount (snd (cs ! i)) = vi_Amount (vtxos ! i)"
      "tsc_RevealedScript (vi_Tapscript (snd (cs ! i))) = tsc_RevealedScript (vi_Tapscript (vtxos ! i))"
      "P2TRScript (tp_ts (ol_tap lib)) (tp_ComputeTaprootOutputKey (ol_tap lib) (tp_UnspendableKey (ol_tap lib))
          (tp_RootHash (ol_tap lib) (tsc_ControlBlock (vi_Tapscript (snd (cs ! i)))) (tsc_RevealedScript (vi_Tapscript (snd (cs ! i)))))) = Inr script"
      unfolding checkpoint_for_def by blast
    have w: "pin_WitnessUtxo (ap_Inputs p ! i) = Some (bi_WitnessUtxo (bs ! i))" "pin_TaprootLeafScript (ap_Inputs p ! i) = [bi_SigningLeaf (bs ! i)]"
      "built_for (ol_tap lib) (snd (cs ! i)) (bs ! i)" using b(3) [of i] i len by auto
    have "bi_WitnessUtxo (bs ! i) = \<lparr>out_Value = vi_Amount (vtxos ! i), out_PkScript = script\<rparr>"
      using w(3) s(4,6) by (cases "bi_WitnessUtxo (bs ! i)") (simp add: built_for_def)
    then show ?thesis using s w i len b(1) f(3) a by (simp add: built_for_def)
  qed
  have "sum_list (map out_Value (tx_TxOut (psbt_UnsignedTx ark))) = sum_list (map vi_Amount vtxos)" using a(1) by simp
  moreover have "allowFee \<or> out_Value (last (tx_TxOut (psbt_UnsignedTx ark))) = 0" using a(1) f(4) by auto
  ultimately show ?thesis using each a(1,2,3) b(1,2) f(3) len by simp
qed

text \<open>C18: the transactions built for a list of vtxos fit together: checkpoint \<open>i\<close> spends vtxo \<open>i\<close> alone and in full,
  input \<open>i\<close> of the ark transaction spends the first output of checkpoint \<open>i\<close>, with the value and
  the script that the PSBT declares for it, and through the leaf of the vtxo; the ark transaction pays the requested outputs
  and the rest to the anchor, so that no value is lost.\<close>

theorem built_offchain_txs:
  assumes "offchain_law lib" and "buildTxs lib vtxos outputs unroll allowFee = Inr (ark, cps)"
  shows "length cps = length vtxos \<and> length (tx_TxIn (psbt_UnsignedTx ark)) = length vtxos \<and> length (ap_Inputs ark) = length vtxos \<and>
    tx_TxOut (psbt_UnsignedTx ark) = outputs @
      [\<lparr>out_Value = sum_list (map vi_Amount vtxos) - sum_list (map out_Value outputs), out_PkScript = ANCHOR_PKSCRIPT\<rparr>] \<and>
    sum_list (map out_Value (tx_TxOut (psbt_UnsignedTx ark))) = sum_list (map vi_Amount vtxos) \<and>
    (allowFee \<or> out_Value (last (tx_TxOut (psbt_UnsignedTx ark))) = 0) \<and>
    (\<forall>i < length vtxos. \<exists>script.
       tx_TxIn (psbt_UnsignedTx (cps ! i)) = [\<lparr>in_PreviousOutPoint = vi_Outpoint (vtxos ! i)\<rparr>] \<and>
       tx_TxOut (psbt_UnsignedTx (cps ! i)) = [\<lparr>out_Value = vi_Amount (vtxos ! i), out_PkScript = script\<rparr>, AnchorOutput] \<and>
       tx_TxIn (psbt_UnsignedTx ark) ! i = \<lparr>in_PreviousOutPoint = \<lparr>op_Hash = TxHash lib (cps ! i), op_Index = 0\<rparr>\<rparr> \<and>
       pin_WitnessUtxo (ap_Inputs ark ! i) = Some \<lparr>out_Value = vi_Amount (vtxos ! i), out_PkScript = script\<rparr> \<and>
       map tls_Script (pin_TaprootLeafScript (ap_Inputs ark ! i)) = [tsc_RevealedScript (vi_Tapscript (vtxos ! i))])"
  using assms by (rule buildTxs_facts)

text \<open>C19: an owner whose closure is locked until a time is not spent from before it: the lock time of the ark
  transaction is of the same unit as the lock of every such closure and not before it, and the
  sequence of the input does not disable it; the same holds for its checkpoint.\<close>

theorem built_txs_respect_locks:
  assumes "offchain_law lib" and "buildTxs lib vtxos outputs unroll allowFee = Inr (ark, cps)" and "i < length vtxos"
    and "DecodeClosure (tp_ts (ol_tap lib)) (tsc_RevealedScript (vi_Tapscript (vtxos ! i))) = Inr (CLTVMultisig c)"
  shows "cltv_Locktime c \<le> ap_LockTime ark \<and>
    AbsoluteLocktime_IsSeconds (cltv_Locktime c) = AbsoluteLocktime_IsSeconds (ap_LockTime ark) \<and>
    ap_Sequences ark ! i \<noteq> MaxTxInSequenceNum \<and>
    ap_LockTime (cps ! i) = cltv_Locktime c \<and> ap_Sequences (cps ! i) = [cltvSequence]"
proof -
  obtain csv cs p where f: "map_res (buildCheckpointTx lib csv) vtxos = Inr cs" "buildArkTx lib (map snd cs) outputs = Inr p"
    "cps = map fst cs"
    "ark = set_anchor (length outputs) (sum_list (map vi_Amount vtxos) - sum_list (map out_Value outputs)) p"
    using assms(2) by (auto simp: buildTxs_def Let_def rbind_eq_Inr guard_err_eq_Inr split: option.split_asm)
  have cp: "list_all2 (checkpoint_for lib) vtxos cs"
    using f(1) buildCheckpointTx_for [OF _ assms(1)] unfolding map_res_eq_Inr by (rule list_all2_mono)
  have len: "length cs = length vtxos" using cp by (simp add: list_all2_lengthD)
  have c: "checkpoint_for lib (vtxos ! i) (cs ! i)" using list_all2_nthD [OF cp assms(3)] .
  from buildArkTx_facts [OF f(2) assms(1)] obtain bs l where b: "build_inputs (ol_tap lib) None (map snd cs) = Inr (bs, l)"
    "tx_TxOut (psbt_UnsignedTx p) = outputs @ [AnchorOutput]"
    "ap_LockTime p = (case l of None \<Rightarrow> 0 | Some l \<Rightarrow> l)" "ap_Sequences p = map bi_Sequence bs"
    by (metis MsgTx.select_convs(3))
  have "DecodeClosure (tp_ts (ol_tap lib)) (tsc_RevealedScript (vi_Tapscript (map snd cs ! i))) = Inr (CLTVMultisig c)"
    using c assms(3,4) len by (auto simp: checkpoint_for_def)
  then have "bi_Sequence (bs ! i) = cltvSequence" "covers (cltv_Locktime c) l"
    using build_inputs_locktime [OF b(1)] assms(3) len by auto
  moreover have "length bs = length vtxos" using build_inputs_for [OF b(1)] len by (auto dest: list_all2_lengthD)
  ultimately show ?thesis
    using c assms(3,4) len f(3) b(3,4) set_anchor_facts(4,5) [OF b(2), of "sum_list (map vi_Amount vtxos) - sum_list (map out_Value outputs)", folded f(4)]
    by (auto simp: checkpoint_for_def covers_def cltvSequence_def MaxTxInSequenceNum_def)
qed

subsection \<open>A concrete transaction\<close>

text \<open>A vtxo of a thousand satoshis whose owner signs after block 500, spent in full.\<close>

definition sample_offchain_lib :: "(u8, bytes, bytes list) offchain_lib" where
  "sample_offchain_lib =
     \<lparr>ol_tap = sample_taproot_lib,
      ol_psbt_New = (\<lambda>ins outs v l sqs. Inr
        \<lparr>psbt_UnsignedTx = \<lparr>tx_Version = v, tx_TxIn = map (\<lambda>i. \<lparr>in_PreviousOutPoint = i\<rparr>) ins, tx_TxOut = outs\<rparr>,
         psbt_Unknowns = replicate (length ins) [], ap_LockTime = l, ap_Sequences = sqs,
         ap_Inputs = map (\<lambda>_. \<lparr>pin_WitnessUtxo = None, pin_TaprootKeySpendSig = [], pin_TaprootScriptSpendSig = [], pin_TaprootLeafScript = []\<rparr>) ins,
         ap_TaprootTapTrees = replicate (length outs) []\<rparr>),
      ol_TxHash = (\<lambda>tx l sqs. concat (map (op_Hash \<circ> in_PreviousOutPoint) (tx_TxIn tx)) @ [ucast l]),
      ol_HashString = hex_EncodeToString\<rparr>"

lemma sample_offchain_law: "offchain_law sample_offchain_lib"
  by (auto simp: offchain_law_def sample_offchain_lib_def sample_taproot_lib_def split: if_splits)

definition sample_cltv :: "u8 CLTVMultisigClosure" where
  "sample_cltv = \<lparr>cltv_Multisig = csv_Multisig sample_csv, cltv_Locktime = 500\<rparr>"

definition sample_cltv_script :: bytes where
  "sample_cltv_script = [2, 0xf4, 1, 0xb1, 0x75] @ sample_multisig_script"

definition sample_vtxo_input :: "bytes VtxoInput" where
  "sample_vtxo_input =
     \<lparr>vi_Outpoint = \<lparr>op_Hash = [9], op_Index = 0\<rparr>, vi_Amount = 1000,
      vi_Tapscript = \<lparr>tsc_ControlBlock = [0, 1], tsc_RevealedScript = sample_cltv_script\<rparr>,
      vi_RevealedTapscripts = [hex_EncodeToString sample_cltv_script]\<rparr>"

lemma sample_cltv_script_made: "Closure_Script sample_lib (CLTVMultisig sample_cltv) = Inr sample_cltv_script"
proof -
  have n: "script_number 500 = [0xf4, 1]" by code_simp
  show ?thesis
    by (simp add: Closure_Script_def CLTVMultisigClosure_Script_def MultisigClosure_Script_def sample_cltv_def sample_csv_def
        sample_cltv_script_def sample_multisig_script_def sample_lib_def n sized_def MaxScriptSize_def opcode_defs)
qed

lemma sample_cltv_decoded: "DecodeClosure sample_lib sample_cltv_script = Inr (CLTVMultisig sample_cltv)"
proof (rule decode_closure_script [OF sample_lib_law _ sample_cltv_script_made])
  show "wf_Closure sample_lib (CLTVMultisig sample_cltv)"
    by (simp add: wf_Closure_def wf_MultisigClosure_def sample_cltv_def sample_csv_def sample_lib_def)
  show "\<not> ts_ScriptHasOpSuccess sample_lib sample_cltv_script"
    using sample_scripts_no_success(2) sample_tokens_push [of "[0xf4, 1]" "0xb1 # 0x75 # sample_multisig_script"]
    by (simp add: sample_lib_def sample_cltv_script_def sample_tokens_op success_opcodes_def)
qed

lemma hex_field_encoded: "\<exists>u. co_Encode VtxoTaprootTreeField (map hex_EncodeToString scripts) = Inr u"
proof -
  have "\<exists>b. encode_leaves sz i (map hex_EncodeToString scripts) = Inr b" for sz i
    by (induction scripts arbitrary: i) (auto simp: Let_def rbind_eq_Inr)
  then show ?thesis by (auto simp: VtxoTaprootTreeField_def TapTree_Encode_def rbind_eq_Inr)
qed

lemma sample_ark_tx_built:
  assumes "vi_Tapscript v = \<lparr>tsc_ControlBlock = [0, x], tsc_RevealedScript = sample_cltv_script\<rparr>"
    and "vi_RevealedTapscripts v = map hex_EncodeToString (s # ss)"
  shows "\<exists>p. buildArkTx sample_offchain_lib [v] outs = Inr p"
proof -
  obtain u where "co_Encode VtxoTaprootTreeField (hex_EncodeToString s # map hex_EncodeToString ss) = Inr u"
    using hex_field_encoded [of "s # ss"] by auto
  moreover have "P2TRScript (tp_ts sample_taproot_lib) k = Inr (OP_1 # 0x20 # replicate 32 k)" for k
    using sample_P2TR [of k] by (simp add: sample_taproot_lib_def sample_tree_lib_def)
  moreover have "DecodeClosure (tp_ts sample_taproot_lib) sample_cltv_script = Inr (CLTVMultisig sample_cltv)"
    "tp_ToBytes sample_taproot_lib = Inr" using sample_cltv_decoded by (simp_all add: sample_taproot_lib_def)
  ultimately show ?thesis
    using assms by (simp add: buildArkTx_def build_input_def sample_offchain_lib_def Let_def SetArkPsbtField_def)
qed

lemma sample_txs_built:
  "\<exists>ark cps. buildTxs sample_offchain_lib [sample_vtxo_input] [\<lparr>out_Value = 1000, out_PkScript = [0x51]\<rparr>] sample_csv_script False = Inr (ark, cps)"
proof -
  have ts: "ol_tap sample_offchain_lib = sample_taproot_lib" "tp_ts sample_taproot_lib = sample_lib"
    by (simp_all add: sample_offchain_lib_def sample_taproot_lib_def)
  have p2tr: "P2TRScript sample_lib k = Inr (OP_1 # 0x20 # replicate 32 k)" for k
    using sample_P2TR [of k] by (simp add: sample_tree_lib_def)
  have csv: "CSVMultisigClosure_Decode sample_lib sample_csv_script = Inr (Some sample_csv)"
    using sample_csv_script_made
    by (intro csv_script_decodes [OF sample_lib_law])
      (simp_all add: Closure_Script_def wf_CSVMultisigClosure_def wf_MultisigClosure_def sample_csv_def sample_lib_def)
  let ?cl = "checkpoint_script sample_csv (CLTVMultisig sample_cltv)" and ?ls = "[sample_csv_script, sample_cltv_script]"
  let ?sum = "sum_list (concat ?ls)"
  have tree: "tap_tree sample_taproot_lib ?cl = Inr (?sum, ?ls)"
    using sample_csv_script_made sample_cltv_script_made
    by (simp add: tap_tree_def TapTree_def checkpoint_script_def ts) (simp add: sample_taproot_lib_def)
  have merkle: "GetTaprootMerkleProof sample_taproot_lib ?ls (tp_TapHash sample_taproot_lib sample_cltv_script) = Inr ([0, ?sum], sample_cltv_script)"
    "tp_ParseControlBlock sample_taproot_lib [0, ?sum] = Inr [0, ?sum]"
    by (simp_all add: GetTaprootMerkleProof_def sample_taproot_lib_def)
  have enc: "TapscriptsVtxoScript_Encode sample_lib ?cl = Inr (map hex_EncodeToString ?ls)"
    using sample_csv_script_made sample_cltv_script_made by (simp add: TapscriptsVtxoScript_Encode_def checkpoint_script_def)
  obtain p where p: "buildArkTx sample_offchain_lib [sample_vtxo_input] [\<lparr>out_Value = 1000, out_PkScript = OP_1 # 0x20 # replicate 32 ?sum\<rparr>] = Inr p"
    using sample_ark_tx_built [of sample_vtxo_input 1 sample_cltv_script "[]"] by (auto simp: sample_vtxo_input_def)
  let ?in = "\<lparr>vi_Outpoint = \<lparr>op_Hash = TxHash sample_offchain_lib p, op_Index = 0\<rparr>, vi_Amount = 1000,
     vi_Tapscript = \<lparr>tsc_ControlBlock = [0, ?sum], tsc_RevealedScript = sample_cltv_script\<rparr>, vi_RevealedTapscripts = map hex_EncodeToString ?ls\<rparr>"
  have v: "tsc_RevealedScript (vi_Tapscript sample_vtxo_input) = sample_cltv_script" "vi_Amount sample_vtxo_input = 1000"
    by (simp_all add: sample_vtxo_input_def)
  have "buildCheckpointTx sample_offchain_lib sample_csv sample_vtxo_input = Inr (p, ?in)"
    using sample_cltv_decoded p unfolding buildCheckpointTx_def Let_def ts v
    by (simp only: rbind_simps tree p2tr merkle enc prod.case p)
  moreover obtain q where "buildArkTx sample_offchain_lib [?in] [\<lparr>out_Value = 1000, out_PkScript = [0x51]\<rparr>] = Inr q"
    using sample_ark_tx_built [of ?in ?sum sample_csv_script "[sample_cltv_script]"] by auto
  ultimately show ?thesis
    by (simp add: buildTxs_def ts csv v)
qed

theorem built_offchain_txs_witness:
  "\<exists>ark cps. buildTxs sample_offchain_lib [sample_vtxo_input] [\<lparr>out_Value = 1000, out_PkScript = [0x51]\<rparr>] sample_csv_script False = Inr (ark, cps) \<and>
     tx_TxOut (psbt_UnsignedTx ark) = [\<lparr>out_Value = 1000, out_PkScript = [0x51]\<rparr>, AnchorOutput] \<and>
     tx_TxIn (psbt_UnsignedTx ark) = [\<lparr>in_PreviousOutPoint = \<lparr>op_Hash = TxHash sample_offchain_lib (cps ! 0), op_Index = 0\<rparr>\<rparr>]"
proof -
  obtain ark cps where b: "buildTxs sample_offchain_lib [sample_vtxo_input] [\<lparr>out_Value = 1000, out_PkScript = [0x51]\<rparr>] sample_csv_script False = Inr (ark, cps)"
    using sample_txs_built by blast
  note r = built_offchain_txs [OF sample_offchain_law b]
  have "length (tx_TxIn (psbt_UnsignedTx ark)) = 1" using r by simp
  moreover have "tx_TxIn (psbt_UnsignedTx ark) ! 0 = \<lparr>in_PreviousOutPoint = \<lparr>op_Hash = TxHash sample_offchain_lib (cps ! 0), op_Index = 0\<rparr>\<rparr>"
    using r by auto
  ultimately have "tx_TxIn (psbt_UnsignedTx ark) = [\<lparr>in_PreviousOutPoint = \<lparr>op_Hash = TxHash sample_offchain_lib (cps ! 0), op_Index = 0\<rparr>\<rparr>]"
    by (cases "tx_TxIn (psbt_UnsignedTx ark)") auto
  with b r show ?thesis by (auto simp: AnchorOutput_def ANCHOR_VALUE_def sample_vtxo_input_def)
qed

theorem built_txs_respect_locks_witness:
  "\<exists>ark cps. buildTxs sample_offchain_lib [sample_vtxo_input] [\<lparr>out_Value = 1000, out_PkScript = [0x51]\<rparr>] sample_csv_script False = Inr (ark, cps) \<and>
     500 \<le> ap_LockTime ark \<and> ap_LockTime (cps ! 0) = 500"
proof -
  obtain ark cps where b: "buildTxs sample_offchain_lib [sample_vtxo_input] [\<lparr>out_Value = 1000, out_PkScript = [0x51]\<rparr>] sample_csv_script False = Inr (ark, cps)"
    using sample_txs_built by blast
  have "DecodeClosure (tp_ts (ol_tap sample_offchain_lib)) (tsc_RevealedScript (vi_Tapscript ([sample_vtxo_input] ! 0))) = Inr (CLTVMultisig sample_cltv)"
    using sample_cltv_decoded by (simp add: sample_offchain_lib_def sample_taproot_lib_def sample_vtxo_input_def)
  from built_txs_respect_locks [OF sample_offchain_law b _ this] b show ?thesis by (auto simp: sample_cltv_def)
qed

end
