(* ===== verification/Script_Bans.thy ===== *)
theory Script_Bans
  imports Live_Intents Taproot_Sigs
begin

section \<open>Convictions and bans\<close>

text \<open>
  \<open>internal/core/application/ban.go\<close>, the conviction methods of \<open>admin.go\<close>, and the conviction repository:
  \<open>internal/infrastructure/db/postgres/conviction_repo.go\<close> with its statements. The table is the list of its rows in
  the order they were inserted; \<open>ORDER BY\<close> keeps that order among equals. Times in rows are Unix seconds. A
  statement that the server fails is the argument \<open>fault\<close>; of a sequence of statements it is the index of the first that
  fails. The random identifier of the \<open>i\<close>th new conviction is \<open>uuid i\<close>. The iteration order of a Go map is the order of
  its association list.
\<close>

subsection \<open>The conviction table\<close>

record conviction_row =
  cr_ID :: string
  cr_Type :: ConvictionType
  cr_CreatedAt :: int
  cr_ExpiresAt :: "int option"
  cr_CrimeType :: CrimeType
  cr_CrimeRoundID :: string
  cr_CrimeReason :: string
  cr_Pardoned :: bool
  cr_Script :: "string option"

type_synonym conviction_table = "conviction_row list"

definition unix_secs :: "int \<Rightarrow> int" where
  "unix_secs ns = ns div time_Second"

definition UpsertConviction :: "conviction_row \<Rightarrow> conviction_table \<Rightarrow> conviction_table" where
  "UpsertConviction r t =
     (if cr_ID r \<in> cr_ID ` set t
      then map (\<lambda>r'. if cr_ID r' = cr_ID r then r'\<lparr>cr_Pardoned := cr_Pardoned r\<rparr> else r') t
      else t @ [r])"

definition UpdateConvictionPardoned :: "string \<Rightarrow> conviction_table \<Rightarrow> conviction_table" where
  "UpdateConvictionPardoned id' t = map (\<lambda>r. if cr_ID r = id' then r\<lparr>cr_Pardoned := True\<rparr> else r) t"

definition conviction_active :: "int \<Rightarrow> conviction_row \<Rightarrow> bool" where
  "conviction_active now r \<longleftrightarrow>
     \<not> cr_Pardoned r \<and> (case cr_ExpiresAt r of None \<Rightarrow> True | Some e \<Rightarrow> e > now)"

definition SelectActiveScriptsConvictions :: "string list \<Rightarrow> int \<Rightarrow> conviction_table \<Rightarrow> conviction_row list" where
  "SelectActiveScriptsConvictions scripts now t =
     sort_key cr_CreatedAt (filter (\<lambda>r. (\<exists>s \<in> set scripts. cr_Script r = Some s) \<and> conviction_active now r) t)"

definition SelectConviction :: "string \<Rightarrow> conviction_table \<Rightarrow> conviction_row option" where
  "SelectConviction id' t = find (\<lambda>r. cr_ID r = id') t"

definition SelectConvictionsByRoundID :: "string \<Rightarrow> conviction_table \<Rightarrow> conviction_row list" where
  "SelectConvictionsByRoundID roundID t = sort_key cr_CreatedAt (filter (\<lambda>r. cr_CrimeRoundID r = roundID) t)"

definition SelectConvictionsInTimeRange :: "int \<Rightarrow> int \<Rightarrow> conviction_table \<Rightarrow> conviction_row list" where
  "SelectConvictionsInTimeRange fromTime toTime t =
     sort_key cr_CreatedAt (filter (\<lambda>r. fromTime \<le> cr_CreatedAt r \<and> cr_CreatedAt r \<le> toTime) t)"

subsection \<open>The repository\<close>

definition convertToDomainConviction :: "conviction_row \<Rightarrow> ScriptConviction gores" where
  "convertToDomainConviction c =
     (case cr_Script c of
        None \<Rightarrow> Inl (Errorf ''unknown conviction type'')
      | Some script \<Rightarrow> Inr
          \<lparr>sconv_Base =
             \<lparr>conv_ID = cr_ID c, conv_Type = cr_Type c, conv_CreatedAt = cr_CreatedAt c * time_Second,
              conv_ExpiresAt = (case cr_ExpiresAt c of None \<Rightarrow> None | Some e \<Rightarrow> Some (e * time_Second)),
              conv_Crime = \<lparr>crime_Type = cr_CrimeType c, crime_RoundID = cr_CrimeRoundID c, crime_Reason = cr_CrimeReason c\<rparr>,
              conv_Pardoned = cr_Pardoned c\<rparr>,
           sconv_Script = script\<rparr>)"

text \<open>Every conviction of the program is a script conviction.\<close>

definition convertToDBParams :: "ScriptConviction \<Rightarrow> conviction_row" where
  "convertToDBParams c =
     (let b = sconv_Base c; crime = conv_Crime b in
      \<lparr>cr_ID = conv_ID b, cr_Type = conv_Type b, cr_CreatedAt = unix_secs (conv_CreatedAt b),
       cr_ExpiresAt = (case conv_ExpiresAt b of None \<Rightarrow> None | Some e \<Rightarrow> Some (unix_secs e)),
       cr_CrimeType = crime_Type crime, cr_CrimeRoundID = crime_RoundID crime, cr_CrimeReason = crime_Reason crime,
       cr_Pardoned = conv_Pardoned b, cr_Script = Some (sconv_Script c)\<rparr>)"

definition convictions_Get :: "string \<Rightarrow> go_error option \<Rightarrow> conviction_table \<Rightarrow> ScriptConviction gores" where
  "convictions_Get id' fault t =
     (case fault of
        Some e \<Rightarrow> Inl (Errorw ''failed to get conviction: '' e)
      | None \<Rightarrow>
          (case SelectConviction id' t of
             None \<Rightarrow> Inl (Errorf (''conviction with id '' @ id' @ '' not found''))
           | Some r \<Rightarrow> convertToDomainConviction r))"

definition conv_at :: "ScriptConviction list gomap \<Rightarrow> string \<Rightarrow> ScriptConviction list" where
  "conv_at m s = (case map_of m s of None \<Rightarrow> [] | Some l \<Rightarrow> l)"

fun group_convictions ::
    "conviction_row list \<Rightarrow> ScriptConviction list gomap \<Rightarrow> ScriptConviction list gomap gores" where
  "group_convictions [] m = Inr m"
| "group_convictions (r # rs) m =
     rbind (map_err (Errorw ''failed to convert conviction: '') (convertToDomainConviction r)) (\<lambda>c.
       let k = (case cr_Script r of None \<Rightarrow> [] | Some s \<Rightarrow> s)
       in group_convictions rs (AList.update k (conv_at m k @ [c]) m))"

definition GetActiveScriptsConvictions ::
    "int \<Rightarrow> string list \<Rightarrow> go_error option \<Rightarrow> conviction_table \<Rightarrow> ScriptConviction list gomap gores" where
  "GetActiveScriptsConvictions now_ns scripts fault t =
     (case fault of
        Some e \<Rightarrow> Inl (Errorw ''failed to get active script convictions: '' e)
      | None \<Rightarrow> group_convictions (SelectActiveScriptsConvictions scripts (unix_secs now_ns) t) [])"

definition convictions_Add :: "ScriptConviction list \<Rightarrow> nat option \<Rightarrow> conviction_table \<Rightarrow> conviction_table" where
  "convictions_Add convictions fault t =
     fold (UpsertConviction \<circ> convertToDBParams) (case fault of None \<Rightarrow> convictions | Some n \<Rightarrow> take n convictions) t"

definition convictions_GetAll :: "int \<Rightarrow> int \<Rightarrow> go_error option \<Rightarrow> conviction_table \<Rightarrow> ScriptConviction list gores" where
  "convictions_GetAll from_ns to_ns fault t =
     (case fault of
        Some e \<Rightarrow> Inl (Errorw ''failed to get convictions in time range: '' e)
      | None \<Rightarrow>
          map_err (Errorw ''failed to convert conviction: '')
            (map_res convertToDomainConviction (SelectConvictionsInTimeRange (unix_secs from_ns) (unix_secs to_ns) t)))"

definition convictions_GetByRoundID :: "string \<Rightarrow> go_error option \<Rightarrow> conviction_table \<Rightarrow> ScriptConviction list gores" where
  "convictions_GetByRoundID roundID fault t =
     (case fault of
        Some e \<Rightarrow> Inl (Errorw ''failed to get convictions by round ID: '' e)
      | None \<Rightarrow>
          map_err (Errorw ''failed to convert conviction: '')
            (map_res convertToDomainConviction (SelectConvictionsByRoundID roundID t)))"

definition convictions_Pardon :: "string \<Rightarrow> go_error option \<Rightarrow> conviction_table \<Rightarrow> conviction_table gores" where
  "convictions_Pardon id' fault t =
     (case fault of
        Some e \<Rightarrow> Inl (Errorw ''failed to pardon conviction: '' e)
      | None \<Rightarrow> Inr (UpdateConvictionPardoned id' t))"

subsection \<open>The administration of convictions\<close>

definition BanScript :: "string \<Rightarrow> int \<Rightarrow> string \<Rightarrow> string \<Rightarrow> int option \<Rightarrow> nat option \<Rightarrow> conviction_table \<Rightarrow> conviction_table" where
  "BanScript uuid now_ns script reason banDuration fault t =
     (let crime = \<lparr>crime_Type = CrimeTypeManualBan, crime_RoundID = ''manual-ban'', crime_Reason = reason\<rparr>
      in convictions_Add [NewScriptConviction uuid now_ns script crime banDuration] fault t)"

definition GetActiveScriptConvictions ::
    "int \<Rightarrow> string \<Rightarrow> go_error option \<Rightarrow> conviction_table \<Rightarrow> ScriptConviction list gores" where
  "GetActiveScriptConvictions now_ns script fault t =
     rbind (GetActiveScriptsConvictions now_ns [script] fault t) (\<lambda>res. Inr (conv_at res script))"

definition GetConvictionsByIds ::
    "string list \<Rightarrow> (string \<Rightarrow> go_error option) \<Rightarrow> conviction_table \<Rightarrow> ScriptConviction list gores" where
  "GetConvictionsByIds ids fault t =
     guard_err (length ids = 0) (Errorf ''missing conviction ids'')
       (map_res (\<lambda>id'. convictions_Get id' (fault id') t) ids)"

subsection \<open>Checking for bans\<close>

record banCandidate =
  bc_outpoint :: Outpoint
  bc_OutputScript :: "bytes gores"

record scriptBan =
  sb_script :: string
  sb_outpoints :: "string list"
  sb_convictions :: "ScriptConviction list"

definition hasManualBan :: "ScriptConviction list \<Rightarrow> bool" where
  "hasManualBan convictions \<longleftrightarrow>
     (\<exists>c \<in> set convictions. crime_Type (conv_Crime (sconv_Base c)) = CrimeTypeManualBan)"

text \<open>The scripts of the candidates in the order they first appear, and the outpoints of each.\<close>

fun candidate_scripts ::
    "banCandidate list \<Rightarrow> string list \<Rightarrow> string list gomap \<Rightarrow> (string list \<times> string list gomap) gores" where
  "candidate_scripts [] scripts byScript = Inr (scripts, byScript)"
| "candidate_scripts (c # cs) scripts byScript =
     rbind (map_err (Errorw ''failed to get output script: '') (bc_OutputScript c)) (\<lambda>scriptBytes.
       let hexScript = hex_EncodeToString scriptBytes;
           seen = map_of byScript hexScript
       in candidate_scripts cs (case seen of None \<Rightarrow> scripts @ [hexScript] | Some _ \<Rightarrow> scripts)
            (AList.update hexScript ((case seen of None \<Rightarrow> [] | Some l \<Rightarrow> l) @ [Outpoint_String (bc_outpoint c)]) byScript))"

definition is_banned :: "u64 \<Rightarrow> ScriptConviction list \<Rightarrow> bool" where
  "is_banned banThreshold convictions \<longleftrightarrow>
     \<not> (\<not> hasManualBan convictions \<and> (of_nat (length convictions) :: u64) < banThreshold)"

text \<open>The convictions of a ban are kept as they are; the source prints them. An empty list of bans is nil.\<close>

definition checkIfBanned ::
    "int \<Rightarrow> go_error option \<Rightarrow> conviction_table \<Rightarrow> u64 \<Rightarrow> banCandidate list \<Rightarrow> scriptBan list gores" where
  "checkIfBanned now_ns fault t banThreshold candidates =
     (if banThreshold = 0 then Inr []
      else
        rbind (candidate_scripts candidates [] []) (\<lambda>(scripts, outpointsByScript).
        rbind (GetActiveScriptsConvictions now_ns scripts fault t) (\<lambda>allConvictions.
          Inr (map (\<lambda>s. \<lparr>sb_script = s,
                        sb_outpoints = (case map_of outpointsByScript s of None \<Rightarrow> [] | Some l \<Rightarrow> l),
                        sb_convictions = conv_at allConvictions s\<rparr>)
                 (filter (\<lambda>s. is_banned banThreshold (conv_at allConvictions s)) scripts)))))"

definition vtxoBannedError :: "scriptBan list \<Rightarrow> ArkError" where
  "vtxoBannedError bans =
     Code_New VTXO_BANNED (concat (map (\<lambda>b. ''script '' @ sb_script b @ '' is banned; '') bans))"

subsection \<open>Banning\<close>

definition Input_OutputScript :: "('k, 'c, 't) taproot_lib \<Rightarrow> Input \<Rightarrow> bytes gores" where
  "Input_OutputScript lib i =
     rbind (ParseVtxoScript (tp_ts lib) (inp_Tapscripts i)) (\<lambda>boardingVtxoScript.
     rbind (TapTree (tp_ts lib) (tp_Assemble lib) (tp_TreeRoot lib) (tp_ComputeTaprootOutputKey lib) (tp_UnspendableKey lib)
              boardingVtxoScript) (\<lambda>(tapKey, _).
       P2TRScript (tp_ts lib) tapKey))"

definition vtxo_script :: "('k, 'c, 't) taproot_lib \<Rightarrow> Vtxo \<Rightarrow> bytes gores" where
  "vtxo_script lib v = Vtxo_OutputScript (ts_ParsePubKey (tp_ts lib)) (P2TRScript (tp_ts lib)) v"

text \<open>The different scripts among those that could be computed.\<close>

definition unique_scripts :: "bytes gores list \<Rightarrow> string list" where
  "unique_scripts rs = remdups (List.map_filter (\<lambda>r. case r of Inl _ \<Rightarrow> None | Inr s \<Rightarrow> Some (hex_EncodeToString s)) rs)"

definition intent_scripts :: "('k, 'c, 't) taproot_lib \<Rightarrow> TimedIntent \<Rightarrow> string list" where
  "intent_scripts lib intent =
     unique_scripts (map (Input_OutputScript lib \<circ> bin_Input) (ti_BoardingInputs intent) @
       map (vtxo_script lib) (int_Inputs (ti_Intent intent)))"

definition convict :: "(nat \<Rightarrow> string) \<Rightarrow> int \<Rightarrow> int option \<Rightarrow> (string \<times> Crime) list \<Rightarrow> ScriptConviction list" where
  "convict uuid now_ns banDuration crimes =
     map (\<lambda>(i, s, crime). NewScriptConviction (uuid i) now_ns s crime banDuration) (List.enumerate 0 crimes)"

definition banCosignerInputs ::
    "('k, 'c, 't) taproot_lib \<Rightarrow> (nat \<Rightarrow> string) \<Rightarrow> int \<Rightarrow> int option \<Rightarrow> Crime gomap \<Rightarrow> TimedIntent list \<Rightarrow> nat option \<Rightarrow>
       conviction_table \<Rightarrow> conviction_table" where
  "banCosignerInputs lib uuid now_ns banDuration toBan intents fault t =
     (let crimes = concat (map (\<lambda>(cosigner, crime).
            concat (map (\<lambda>intent.
              if cosigner \<notin> set (ti_CosignersPublicKeys intent) then []
              else map (\<lambda>s. (s, crime)) (intent_scripts lib intent)) intents)) toBan)
      in convictions_Add (convict uuid now_ns banDuration crimes) fault t)"

text \<open>Of a signing session only the keys of its maps are read.\<close>

record signing_session =
  mss_Cosigners :: "string list"
  mss_Nonces :: "string set"
  mss_Signatures :: "string set"

definition banNoncesCollectionTimeout ::
    "('k, 'c, 't) taproot_lib \<Rightarrow> (nat \<Rightarrow> string) \<Rightarrow> int \<Rightarrow> string \<Rightarrow> int option \<Rightarrow> signing_session \<Rightarrow> TimedIntent list \<Rightarrow>
       nat option \<Rightarrow> conviction_table \<Rightarrow> conviction_table" where
  "banNoncesCollectionTimeout lib uuid now_ns roundId banDuration signingSession registeredIntents fault t =
     banCosignerInputs lib uuid now_ns banDuration
       (map (\<lambda>c. (c, \<lparr>crime_Type = CrimeTypeMusig2NonceSubmission, crime_RoundID = roundId,
                       crime_Reason = ''missing musig2 nonce for cosigner '' @ c\<rparr>))
          (filter (\<lambda>c. c \<notin> mss_Nonces signingSession) (mss_Cosigners signingSession)))
       registeredIntents fault t"

definition banSignaturesCollectionTimeout ::
    "('k, 'c, 't) taproot_lib \<Rightarrow> (nat \<Rightarrow> string) \<Rightarrow> int \<Rightarrow> string \<Rightarrow> int option \<Rightarrow> signing_session \<Rightarrow> TimedIntent list \<Rightarrow>
       nat option \<Rightarrow> conviction_table \<Rightarrow> conviction_table" where
  "banSignaturesCollectionTimeout lib uuid now_ns roundId banDuration signingSession registeredIntents fault t =
     banCosignerInputs lib uuid now_ns banDuration
       (map (\<lambda>c. (c, \<lparr>crime_Type = CrimeTypeMusig2SignatureSubmission, crime_RoundID = roundId,
                       crime_Reason = ''missing musig2 signature for cosigner '' @ c\<rparr>))
          (filter (\<lambda>c. c \<notin> mss_Signatures signingSession) (mss_Cosigners signingSession)))
       registeredIntents fault t"

definition banForfeitCollectionTimeout ::
    "('k, 'c, 't) taproot_lib \<Rightarrow> (nat \<Rightarrow> string) \<Rightarrow> int \<Rightarrow> string \<Rightarrow> int option \<Rightarrow> Vtxo list gores \<Rightarrow> nat option \<Rightarrow>
       conviction_table \<Rightarrow> conviction_table" where
  "banForfeitCollectionTimeout lib uuid now_ns roundId banDuration vtxos fault t =
     (case vtxos of
        Inl _ \<Rightarrow> t
      | Inr vs \<Rightarrow>
          convictions_Add (convict uuid now_ns banDuration
            (map (\<lambda>s. (s, \<lparr>crime_Type = CrimeTypeForfeitSubmission, crime_RoundID = roundId,
                            crime_Reason = ''missing forfeit signature''\<rparr>))
               (unique_scripts (map (vtxo_script lib) vs)))) fault t)"

subsection \<open>Who is banned\<close>

text \<open>The convictions of a script that are in force.\<close>

definition active_for :: "int \<Rightarrow> string \<Rightarrow> conviction_table \<Rightarrow> conviction_row list" where
  "active_for now s t =
     filter (\<lambda>r. cr_Script r = Some s \<and> \<not> cr_Pardoned r \<and> (cr_ExpiresAt r = None \<or> now < the (cr_ExpiresAt r))) t"

lemma active_for_selected: "active_for now s t = filter (\<lambda>r. cr_Script r = Some s \<and> conviction_active now r) t"
proof -
  have "conviction_active now r \<longleftrightarrow> \<not> cr_Pardoned r \<and> (cr_ExpiresAt r = None \<or> now < the (cr_ExpiresAt r))" for r
    by (cases "cr_ExpiresAt r") (auto simp: conviction_active_def)
  then show ?thesis by (simp add: active_for_def)
qed

definition scripted :: "conviction_table \<Rightarrow> bool" where
  "scripted t \<longleftrightarrow> (\<forall>r \<in> set t. cr_Script r \<noteq> None)"

definition domain_of :: "conviction_row \<Rightarrow> ScriptConviction" where
  "domain_of r = projr (convertToDomainConviction r)"

lemma domain_of_crime: "cr_Script r \<noteq> None \<Longrightarrow> crime_Type (conv_Crime (sconv_Base (domain_of r))) = cr_CrimeType r"
  by (auto simp: domain_of_def convertToDomainConviction_def)

lemma conv_at_update: "conv_at (AList.update k l m) s = (if s = k then l else conv_at m s)"
  by (simp add: conv_at_def update_conv')

lemma group_convictions_at:
  assumes "\<forall>r \<in> set rs. cr_Script r \<noteq> None"
  shows "\<exists>m'. group_convictions rs m = Inr m' \<and>
    (\<forall>s. conv_at m' s = conv_at m s @ map domain_of (filter (\<lambda>r. cr_Script r = Some s) rs))"
  using assms
proof (induction rs arbitrary: m)
  case (Cons r rs)
  then obtain k where k: "cr_Script r = Some k" by auto
  then have c: "convertToDomainConviction r = Inr (domain_of r)" by (simp add: domain_of_def convertToDomainConviction_def)
  let ?m = "AList.update k (conv_at m k @ [domain_of r]) m"
  obtain m' where "group_convictions rs ?m = Inr m'"
    "\<forall>s. conv_at m' s = conv_at ?m s @ map domain_of (filter (\<lambda>r. cr_Script r = Some s) rs)"
    using Cons.IH [of ?m] Cons.prems by auto
  then show ?case using k c by (auto simp: conv_at_update)
qed simp

text \<open>The answer of the repository: the active convictions of each script, oldest first.\<close>

lemma active_convictions:
  assumes "scripted t"
  shows "\<exists>m. GetActiveScriptsConvictions now_ns scripts None t = Inr m \<and>
    (\<forall>s \<in> set scripts. conv_at m s = map domain_of (sort_key cr_CreatedAt (active_for (unix_secs now_ns) s t)))"
proof -
  let ?rs = "SelectActiveScriptsConvictions scripts (unix_secs now_ns) t"
  have "\<forall>r \<in> set ?rs. cr_Script r \<noteq> None" by (auto simp: SelectActiveScriptsConvictions_def)
  from group_convictions_at [OF this, of "[]"] obtain m where m: "group_convictions ?rs [] = Inr m"
    "\<forall>s. conv_at m s = map domain_of (filter (\<lambda>r. cr_Script r = Some s) ?rs)" by (auto simp: conv_at_def)
  have "filter (\<lambda>r. cr_Script r = Some s) ?rs = sort_key cr_CreatedAt (active_for (unix_secs now_ns) s t)" if "s \<in> set scripts" for s
  proof -
    have "filter (\<lambda>r. (\<exists>s \<in> set scripts. cr_Script r = Some s) \<and> conviction_active (unix_secs now_ns) r \<and> cr_Script r = Some s) t =
        active_for (unix_secs now_ns) s t"
      unfolding active_for_selected using that by (intro filter_cong) auto
    then show ?thesis by (simp add: SelectActiveScriptsConvictions_def filter_sort)
  qed
  then show ?thesis using m by (simp add: GetActiveScriptsConvictions_def)
qed

definition candidate_script :: "banCandidate \<Rightarrow> string" where
  "candidate_script c = hex_EncodeToString (projr (bc_OutputScript c))"

lemma candidate_scripts_facts:
  assumes "candidate_scripts cs ss m = Inr (ss', m')" "set ss = fst ` set m" "distinct ss"
  shows "(\<forall>c \<in> set cs. \<exists>b. bc_OutputScript c = Inr b) \<and> set ss' = set ss \<union> candidate_script ` set cs \<and> distinct ss' \<and>
    (\<forall>s. (case map_of m' s of None \<Rightarrow> [] | Some l \<Rightarrow> l) = (case map_of m s of None \<Rightarrow> [] | Some l \<Rightarrow> l) @
       map (Outpoint_String \<circ> bc_outpoint) (filter (\<lambda>c. candidate_script c = s) cs))"
  using assms
proof (induction cs arbitrary: ss m)
  case (Cons c cs)
  obtain b where b: "bc_OutputScript c = Inr b" using Cons.prems(1) by (auto simp: rbind_eq_Inr map_err_eq_Inr)
  let ?h = "candidate_script c"
  let ?ss = "case map_of m ?h of None \<Rightarrow> ss @ [?h] | Some _ \<Rightarrow> ss"
  let ?m = "AList.update ?h ((case map_of m ?h of None \<Rightarrow> [] | Some l \<Rightarrow> l) @ [Outpoint_String (bc_outpoint c)]) m"
  have h: "?h = hex_EncodeToString b" by (simp add: candidate_script_def b)
  have run: "candidate_scripts cs ?ss ?m = Inr (ss', m')" using Cons.prems(1) b unfolding h by (simp add: Let_def)
  have dom: "fst ` set ?m = insert ?h (fst ` set m)" by (simp add: dom_update)
  have mem: "map_of m ?h = None \<longleftrightarrow> ?h \<notin> set ss" using Cons.prems(2) by (simp add: map_of_eq_None_iff)
  have new: "set ?ss = insert ?h (set ss)" "distinct ?ss"
    using mem Cons.prems(3) by (auto split: option.splits)
  then have "set ?ss = fst ` set ?m" using dom Cons.prems(2) by simp
  from Cons.IH [OF run this new(2)] show ?case using b new(1) by (auto simp: update_conv')
qed simp

lemma is_banned_iff:
  assumes "length cs < 2 ^ 64"
  shows "is_banned thr cs \<longleftrightarrow> hasManualBan cs \<or> unat thr \<le> length cs"
proof -
  have "unat (of_nat (length cs) :: u64) = length cs" using assms by (simp add: unat_of_nat take_bit_nat_eq_self)
  then show ?thesis by (simp add: is_banned_def word_less_nat_alt not_less)
qed

text \<open>C21: the bans of a request are exact: a script of an input is reported, once, with all the inputs that have it,
  when the operator banned it by hand or when it carries as many convictions as the threshold; only
  convictions count that are neither pardoned nor expired. A threshold of zero turns banning off.\<close>

theorem banned_scripts_exact:
  assumes "checkIfBanned now_ns None t thr candidates = Inr bans" "scripted t" "length t < 2 ^ 64"
  shows "distinct (map sb_script bans) \<and>
    (\<forall>s. s \<in> sb_script ` set bans \<longleftrightarrow> thr \<noteq> 0 \<and> s \<in> candidate_script ` set candidates \<and>
       ((\<exists>r \<in> set (active_for (unix_secs now_ns) s t). cr_CrimeType r = CrimeTypeManualBan) \<or>
        unat thr \<le> length (active_for (unix_secs now_ns) s t))) \<and>
    (\<forall>ban \<in> set bans. sb_outpoints ban =
       map (Outpoint_String \<circ> bc_outpoint) (filter (\<lambda>c. candidate_script c = sb_script ban) candidates))"
proof (cases "thr = 0")
  case False
  obtain scripts m allc where r: "candidate_scripts candidates [] [] = Inr (scripts, m)"
    "GetActiveScriptsConvictions now_ns scripts None t = Inr allc"
    "bans = map (\<lambda>s. \<lparr>sb_script = s, sb_outpoints = (case map_of m s of None \<Rightarrow> [] | Some l \<Rightarrow> l), sb_convictions = conv_at allc s\<rparr>)
       (filter (\<lambda>s. is_banned thr (conv_at allc s)) scripts)"
    using assms(1) False by (auto simp: checkIfBanned_def rbind_eq_Inr)
  have cs: "set scripts = candidate_script ` set candidates" "distinct scripts"
    "\<And>s. (case map_of m s of None \<Rightarrow> [] | Some l \<Rightarrow> l) = map (Outpoint_String \<circ> bc_outpoint) (filter (\<lambda>c. candidate_script c = s) candidates)"
    using candidate_scripts_facts [OF r(1)] by auto
  have conv: "conv_at allc s = map domain_of (sort_key cr_CreatedAt (active_for (unix_secs now_ns) s t))" if "s \<in> set scripts" for s
    using active_convictions [OF assms(2), of now_ns scripts] r(2) that by auto
  have banned: "is_banned thr (conv_at allc s) \<longleftrightarrow>
      (\<exists>r \<in> set (active_for (unix_secs now_ns) s t). cr_CrimeType r = CrimeTypeManualBan) \<or> unat thr \<le> length (active_for (unix_secs now_ns) s t)"
    if "s \<in> set scripts" for s
  proof -
    let ?a = "active_for (unix_secs now_ns) s t"
    have len: "length (conv_at allc s) = length ?a" using conv [OF that] by simp
    also have "\<dots> \<le> length t" by (simp add: active_for_selected)
    finally have "is_banned thr (conv_at allc s) \<longleftrightarrow> hasManualBan (conv_at allc s) \<or> unat thr \<le> length ?a"
      using is_banned_iff [of "conv_at allc s" thr] assms(3) len by simp
    moreover have "hasManualBan (conv_at allc s) \<longleftrightarrow> (\<exists>r \<in> set ?a. cr_CrimeType r = CrimeTypeManualBan)"
      using conv [OF that] assms(2) domain_of_crime by (fastforce simp: hasManualBan_def active_for_selected scripted_def)
    ultimately show ?thesis by simp
  qed
  have "sb_script ` set bans = {s \<in> set scripts. is_banned thr (conv_at allc s)}" using r(3) by (force simp: image_iff)
  then show ?thesis using r(3) cs banned False by (auto simp: comp_def)
qed (use assms(1) in \<open>simp add: checkIfBanned_def\<close>)

subsection \<open>Offences\<close>

lemma active_for_upsert:
  assumes "cr_ID r \<notin> cr_ID ` set t"
  shows "active_for now s (UpsertConviction r t) =
    active_for now s t @ (if cr_Script r = Some s \<and> conviction_active now r then [r] else [])"
  using assms by (auto simp: UpsertConviction_def active_for_selected)

lemma upsert_ids: "cr_ID ` set (UpsertConviction r t) = insert (cr_ID r) (cr_ID ` set t)"
proof -
  have "cr_ID ` (\<lambda>r'. if cr_ID r' = cr_ID r then r'\<lparr>cr_Pardoned := cr_Pardoned r\<rparr> else r') ` set t = cr_ID ` set t"
    unfolding image_image by (rule image_cong) simp_all
  then show ?thesis by (auto simp: UpsertConviction_def)
qed

lemma active_for_fold:
  assumes "distinct (map cr_ID rs)" "cr_ID ` set rs \<inter> cr_ID ` set t = {}"
  shows "active_for now s (fold UpsertConviction rs t) = active_for now s t @ active_for now s rs"
  using assms
proof (induction rs arbitrary: t)
  case (Cons r rs)
  then have "active_for now s (fold UpsertConviction rs (UpsertConviction r t)) =
      active_for now s (UpsertConviction r t) @ active_for now s rs"
    by (intro Cons.IH) (auto simp: upsert_ids)
  then show ?case using active_for_upsert [of r t now s] Cons.prems by (auto simp: active_for_selected)
qed (simp add: active_for_selected)

definition still_banned :: "int \<Rightarrow> int option \<Rightarrow> int \<Rightarrow> bool" where
  "still_banned now_ns banDuration later \<longleftrightarrow>
     (case banDuration of None \<Rightarrow> True | Some d \<Rightarrow> later < unix_secs (now_ns + d))"

lemma convict_active:
  "length (active_for later s (map convertToDBParams (convict uuid now_ns dur crimes))) =
     (if still_banned now_ns dur later then length (filter (\<lambda>c. fst c = s) crimes) else 0)"
proof -
  have one: "active_for later s (convertToDBParams (NewScriptConviction u now_ns s' crime dur) # rs) =
      (if s' = s \<and> still_banned now_ns dur later then [convertToDBParams (NewScriptConviction u now_ns s' crime dur)] else []) @ active_for later s rs" for u s' crime rs
    by (cases dur) (simp_all add: active_for_selected convertToDBParams_def NewScriptConviction_def newBaseConviction_def conviction_active_def
        still_banned_def)
  have "length (active_for later s (map convertToDBParams (map (\<lambda>(i, s, crime). NewScriptConviction (uuid i) now_ns s crime dur) (List.enumerate n crimes)))) =
     (if still_banned now_ns dur later then length (filter (\<lambda>c. fst c = s) crimes) else 0)" for n
  proof (induction crimes arbitrary: n)
    case (Cons c cs)
    then show ?case using one by (cases c) simp
  qed (simp add: active_for_selected)
  then show ?thesis by (simp add: convict_def)
qed

lemma convict_ids: "map (cr_ID \<circ> convertToDBParams) (convict uuid now_ns dur crimes) = map uuid [0..<length crimes]"
  by (rule nth_equalityI)
    (auto simp: convict_def convertToDBParams_def NewScriptConviction_def newBaseConviction_def Let_def nth_enumerate_eq split_beta)

lemma convicted_active:
  assumes "inj uuid" "range uuid \<inter> cr_ID ` set t = {}"
  shows "length (active_for later s (convictions_Add (convict uuid now_ns dur crimes) None t)) =
    length (active_for later s t) + (if still_banned now_ns dur later then length (filter (\<lambda>c. fst c = s) crimes) else 0)"
proof -
  let ?rs = "map convertToDBParams (convict uuid now_ns dur crimes)"
  have ids: "map cr_ID ?rs = map uuid [0..<length crimes]" using convict_ids by simp
  have "cr_ID ` set ?rs = uuid ` {0..<length crimes}" using arg_cong [OF ids, of set] by (simp add: image_image)
  then have "cr_ID ` set ?rs \<inter> cr_ID ` set t = {}" using assms(2) by blast
  moreover have "distinct (map cr_ID ?rs)" unfolding ids using assms(1) by (simp add: distinct_map inj_on_def inj_def)
  ultimately have "active_for later s (fold UpsertConviction ?rs t) = active_for later s t @ active_for later s ?rs"
    by (intro active_for_fold)
  moreover have "convictions_Add (convict uuid now_ns dur crimes) None t = fold UpsertConviction ?rs t"
    by (simp add: convictions_Add_def fold_map)
  ultimately show ?thesis using convict_active by simp
qed

lemma count_unique: "length (filter (\<lambda>c. fst c = s) (map (\<lambda>s. (s, crime)) (unique_scripts rs))) = (if s \<in> set (unique_scripts rs) then 1 else 0)"
proof -
  have "distinct (unique_scripts rs)" by (simp add: unique_scripts_def)
  then show ?thesis by (simp add: comp_def filter_map distinct_length_filter)
qed

lemma unique_scripts_mem: "s \<in> set (unique_scripts rs) \<longleftrightarrow> (\<exists>b. Inr b \<in> set rs \<and> s = hex_EncodeToString b)"
proof (induction rs)
  case (Cons r rs)
  then show ?case by (cases r) (auto simp: unique_scripts_def List.map_filter_def)
qed (simp add: unique_scripts_def List.map_filter_def)

text \<open>a missing forfeit counts once in a round for each script, however many vtxos have it: until it
  expires, the script has exactly one active conviction more than before, and no other script is touched.\<close>

theorem forfeit_offence_counts_once:
  assumes "inj uuid" "range uuid \<inter> cr_ID ` set t = {}"
  shows "length (active_for later s (banForfeitCollectionTimeout lib uuid now_ns roundId dur (Inr vs) None t)) =
    length (active_for later s t) +
      (if (\<exists>v \<in> set vs. \<exists>b. vtxo_script lib v = Inr b \<and> s = hex_EncodeToString b) \<and> still_banned now_ns dur later then 1 else 0)"
proof -
  have "s \<in> set (unique_scripts (map (vtxo_script lib) vs)) \<longleftrightarrow> (\<exists>v \<in> set vs. \<exists>b. vtxo_script lib v = Inr b \<and> s = hex_EncodeToString b)"
    unfolding unique_scripts_mem by (metis (no_types, lifting) image_iff list.set_map)
  then show ?thesis
    unfolding banForfeitCollectionTimeout_def sum.case convicted_active [OF assms] count_unique by simp
qed

subsection \<open>A repeated offence\<close>

text \<open>Three convictions of one script, of which one has expired and one was pardoned, and one of another that the operator banned.\<close>

definition sample_convictions :: conviction_table where
  "sample_convictions =
     (let c = \<lparr>cr_ID = ''1'', cr_Type = ConvictionTypeScript, cr_CreatedAt = 5, cr_ExpiresAt = Some 10, cr_CrimeType = CrimeTypeForfeitSubmission,
                cr_CrimeRoundID = ''r'', cr_CrimeReason = '''', cr_Pardoned = False, cr_Script = Some ''51''\<rparr>
      in [c, c\<lparr>cr_ID := ''2'', cr_ExpiresAt := Some 100\<rparr>, c\<lparr>cr_ID := ''4'', cr_ExpiresAt := Some 100, cr_Pardoned := True\<rparr>, c\<lparr>cr_ID := ''3'', cr_Script := Some ''52'', cr_ExpiresAt := None, cr_CrimeType := CrimeTypeManualBan\<rparr>])"

definition sample_candidates :: "banCandidate list" where
  "sample_candidates =
     map (\<lambda>(i, s). \<lparr>bc_outpoint = \<lparr>outp_Txid = ''a'', outp_VOut = i\<rparr>, bc_OutputScript = Inr [s]\<rparr>) [(0, 0x51), (1, 0x52), (2, 0x52), (3, 0x53)]"

theorem banned_scripts_exact_witness:
  "\<exists>bans. checkIfBanned (20 * time_Second) None sample_convictions 2 sample_candidates = Inr bans \<and>
     ''51'' \<notin> sb_script ` set bans \<and> ''52'' \<in> sb_script ` set bans"
proof -
  have "case checkIfBanned (20 * time_Second) None sample_convictions 2 sample_candidates of Inl _ \<Rightarrow> False | Inr _ \<Rightarrow> True"
    by code_simp
  then obtain bans where b: "checkIfBanned (20 * time_Second) None sample_convictions 2 sample_candidates = Inr bans"
    by (auto split: sum.splits)
  have "scripted sample_convictions" "length sample_convictions < 2 ^ 64" by (simp_all add: scripted_def sample_convictions_def Let_def)
  note r = banned_scripts_exact [OF b this]
  have m: "''52'' \<in> candidate_script ` set sample_candidates" by code_simp
  have a: "length (active_for (unix_secs (20 * time_Second)) ''51'' sample_convictions) = 1"
    "list_all (\<lambda>r. cr_CrimeType r \<noteq> CrimeTypeManualBan) (active_for (unix_secs (20 * time_Second)) ''51'' sample_convictions)"
    "list_ex (\<lambda>r. cr_CrimeType r = CrimeTypeManualBan) (active_for (unix_secs (20 * time_Second)) ''52'' sample_convictions)"
    by code_simp+
  have "''51'' \<notin> sb_script ` set bans" using r a(1,2) by (auto simp: list_all_iff)
  moreover have "''52'' \<in> sb_script ` set bans" using r m a(3) by (auto simp: list_ex_iff)
  ultimately show ?thesis using b by blast
qed

theorem forfeit_offence_counts_once_witness:
  "let v = \<lparr>vtxo_Outpoint = \<lparr>outp_Txid = ''a'', outp_VOut = 0\<rparr>, vtxo_Amount = 1000, vtxo_PubKey = hex_EncodeToString (replicate 32 5),
        vtxo_CommitmentTxids = [], vtxo_RootCommitmentTxid = [], vtxo_SettledBy = [], vtxo_SpentBy = [], vtxo_ArkTxid = [],
        vtxo_Spent = False, vtxo_Unrolled = False, vtxo_Swept = False, vtxo_Preconfirmed = False, vtxo_ExpiresAt = 0, vtxo_CreatedAt = 0,
        vtxo_Depth = 0, vtxo_MarkerIDs = [], vtxo_Assets = []\<rparr>
   in length (active_for 20 (hex_EncodeToString (OP_1 # 0x20 # replicate 32 5))
        (banForfeitCollectionTimeout sample_taproot_lib (\<lambda>i. replicate i (CHR ''x'')) 0 ''round'' None (Inr [v, v]) None [])) = 1"
proof -
  let ?v = "\<lparr>vtxo_Outpoint = \<lparr>outp_Txid = ''a'', outp_VOut = 0\<rparr>, vtxo_Amount = 1000, vtxo_PubKey = hex_EncodeToString (replicate 32 5),
        vtxo_CommitmentTxids = [], vtxo_RootCommitmentTxid = [], vtxo_SettledBy = [], vtxo_SpentBy = [], vtxo_ArkTxid = [],
        vtxo_Spent = False, vtxo_Unrolled = False, vtxo_Swept = False, vtxo_Preconfirmed = False, vtxo_ExpiresAt = 0, vtxo_CreatedAt = 0,
        vtxo_Depth = 0, vtxo_MarkerIDs = [], vtxo_Assets = []\<rparr>"
  have "ts_ParsePubKey sample_lib (replicate 32 5) = Inr 5" by (simp add: sample_lib_def)
  moreover have "P2TRScript sample_lib k = Inr (OP_1 # 0x20 # replicate 32 k)" for k using sample_P2TR [of k] by (simp add: sample_tree_lib_def)
  ultimately have s: "vtxo_script sample_taproot_lib ?v = Inr (OP_1 # 0x20 # replicate 32 5)"
    by (simp add: vtxo_script_def Vtxo_OutputScript_def Vtxo_TapKey_def sample_taproot_lib_def del: replicate.simps)
  have "inj (\<lambda>i. replicate i (CHR ''x''))" by (rule injI) (metis length_replicate)
  from forfeit_offence_counts_once [OF this, of "[]" 20 "hex_EncodeToString (OP_1 # 0x20 # replicate 32 5)" sample_taproot_lib 0 "''round''" None "[?v, ?v]"]
  show ?thesis unfolding Let_def using s by (simp add: still_banned_def active_for_selected del: replicate.simps hex_EncodeToString_inject)
qed

end
