(* ===== verification/Submit_Offchain.thy ===== *)
theory Submit_Offchain
  imports Offchain_Builder App_Assets Domain_Settings Script_Bans Pg_Tables "HOL-Library.List_Lexorder" "HOL-Library.Char_ord"
begin

section \<open>Submitting an offchain transaction\<close>

text \<open>
  \<open>SubmitOffchainTx\<close>, \<open>finalizeOffchainTx\<close> and \<open>FinalizeOffchainTx\<close> of \<open>internal/core/application/service.go\<close>, with
  \<open>validateOffchainTxOutputs\<close>, \<open>verifyClosureNotLocked\<close> and the signer checks of \<open>utils.go\<close>, over the
  models of the builder, the closures, the bans, the asset checks, the settings, the offchain transaction aggregate and its
  cache.

  What the handler asks of other services is the record of answers \<open>env\<close>: the parser, encoder and sanity check of PSBTs, the
  wallet, the signer, the repositories and the caches. A field whose name ends in \<open>again\<close> is the answer to the second
  time the same question is asked, when the lock is held. The clock does not advance during a pass over the inputs. The parser
  gives a PSBT with one input record for each input of its transaction, and no nil leaf. Metadata of errors is left out. A Go map is an
  association list, iterated in its order.
\<close>

subsection \<open>Settings and answers\<close>

record 'k DeprecatedSignerPubkey =
  dsp_PubKey :: 'k
  dsp_CutoffDate :: int

text \<open>The fields of \<open>ports.Settings\<close> that the handler reads, beside those of the domain.\<close>

record 'k PortSettings =
  pst_Settings :: Settings
  pst_SignerPubkey :: 'k
  pst_DeprecatedSignerPubkeys :: "'k DeprecatedSignerPubkey list"
  pst_CheckpointTapscript :: bytes

record BlockTimestamp =
  bt_Height :: u32
  bt_Time :: int

text \<open>\<open>env_MaxAssets\<close> is what Go's conversion makes of a limit on assets that no integer represents; \<open>env_Deserialize\<close>
  gives the size of a transaction without and with its witnesses.\<close>

record ('k, 'c, 't) submit_env =
  env_lib :: "('k, 'c, 't) offchain_lib"
  env_parse :: "string \<Rightarrow> ArkPsbt gores"
  env_B64Encode :: "ArkPsbt \<Rightarrow> string gores"
  env_CheckTransactionSanity :: "ArkPsbt \<Rightarrow> unit gores"
  env_tokenizer :: tokenizer
  env_NewHashFromStr :: hash_parser
  env_Settings :: "'k PortSettings gores"
  env_MaxAssets :: int
  env_GetOffchainTx :: "string \<Rightarrow> OffchainTx gores"
  env_GetVtxos :: "Outpoint list \<Rightarrow> Vtxo list gores"
  env_GetVtxos_again :: "Outpoint list \<Rightarrow> Vtxo list gores"
  env_GetVtxos_finalize :: "Outpoint list \<Rightarrow> Vtxo list gores"
  env_convictions :: conviction_table
  env_convictions_fault :: "go_error option"
  env_offchain_IncludesAny :: "Outpoint list \<Rightarrow> Outpoint list sres"
  env_offchain_IncludesAny_again :: "Outpoint list \<Rightarrow> Outpoint list sres"
  env_intents_IncludesAny :: "Outpoint list \<Rightarrow> Outpoint list sres"
  env_intents_IncludesAny_again :: "Outpoint list \<Rightarrow> Outpoint list sres"
  env_Now :: int
  env_Now_again :: int
  env_GetCurrentBlockTime :: "BlockTimestamp gores"
  env_GetDustAmount :: "u64 gores"
  env_assets :: AssetRepository
  env_SignTransaction :: "string \<Rightarrow> string gores"
  env_ExtractFinalizedTx :: "ArkPsbt \<Rightarrow> string gores"
  env_Deserialize :: "string \<Rightarrow> (nat \<times> nat) gores"
  env_GetPubkey :: "'k gores"
  env_GetDeprecatedPubkeys :: "'k list gores"
  env_add_tries :: "(offChainTxStore \<times> redis_error option) list"
  env_remove_tries :: "(offChainTxStore \<times> redis_error option) list"
  env_cache_Get :: "string \<Rightarrow> OffchainTx option sres"
  env_LockFinalization :: "string \<Rightarrow> unit gores"
  env_Save :: "unit gores"

definition verify_sigs :: "('k, 'c, 't) submit_env \<Rightarrow> string \<Rightarrow> bool \<Rightarrow> (bool \<times> ArkPsbt) gores" where
  "verify_sigs env tx mustIncludeSignerSig =
     VerifyVtxoTapscriptSigs (ol_tap (env_lib env)) (env_parse env) (env_GetPubkey env) (env_GetDeprecatedPubkeys env)
       tx mustIncludeSignerSig"

text \<open>Errors of this service: an error code with the error that it wraps.\<close>

definition with_code :: "ErrorCode \<Rightarrow> 'a gores \<Rightarrow> 'a arkres" where
  "with_code c r = map_err (Code_Wrap c) r"

definition with_new :: "ErrorCode \<Rightarrow> string \<Rightarrow> ('e, 'a) res \<Rightarrow> 'a arkres" where
  "with_new c msg r = map_err (\<lambda>_. Code_New c msg) r"

subsection \<open>Signers\<close>

definition isPastCutoff :: "'k DeprecatedSignerPubkey \<Rightarrow> int \<Rightarrow> bool" where
  "isPastCutoff key now \<longleftrightarrow> dsp_CutoffDate key \<noteq> zero_time \<and> now > dsp_CutoffDate key"

definition acceptedSignerPubkeys :: "'k \<Rightarrow> 'k DeprecatedSignerPubkey list \<Rightarrow> int \<Rightarrow> 'k list" where
  "acceptedSignerPubkeys current deprecated now =
     current # map dsp_PubKey (filter (\<lambda>key. \<not> isPastCutoff key now) deprecated)"

text \<open>The first loop: the error of the last signer, unless one accepts the script.\<close>

fun first_accepting :: "('k \<Rightarrow> unit gores) \<Rightarrow> 'k list \<Rightarrow> unit gores \<Rightarrow> unit gores" where
  "first_accepting validate [] err = err"
| "first_accepting validate (signer # signers) err =
     (case validate signer of Inr _ \<Rightarrow> Inr () | Inl e \<Rightarrow> first_accepting validate signers (Inl e))"

definition validateVtxoScriptForSigners ::
    "'k txscript \<Rightarrow> 'k TapscriptsVtxoScript \<Rightarrow> 'k \<Rightarrow> 'k DeprecatedSignerPubkey list \<Rightarrow> int \<Rightarrow> RelativeLocktime \<Rightarrow> bool \<Rightarrow>
       unit gores" where
  "validateVtxoScriptForSigners lib v current deprecated now minLocktime blockTypeAllowed =
     (let validate = (\<lambda>signer. TapscriptsVtxoScript_Validate lib signer minLocktime blockTypeAllowed v) in
      case first_accepting validate (acceptedSignerPubkeys current deprecated now) (Inr ()) of
        Inr _ \<Rightarrow> Inr ()
      | Inl err \<Rightarrow>
          if \<exists>key \<in> set deprecated. isPastCutoff key now \<and> validate (dsp_PubKey key) = Inr ()
          then Inl (Errorf ''is a deprecated key'') else Inl err)"

definition verifyClosureNotLocked :: "BlockTimestamp gores \<Rightarrow> 'k Closure \<Rightarrow> unit arkres" where
  "verifyClosureNotLocked getCurrentBlockTime closure =
     (case closure of
        CLTVMultisig cltv \<Rightarrow>
          rbind (with_code INTERNAL_ERROR getCurrentBlockTime) (\<lambda>blocktimestamp.
            let current = (if AbsoluteLocktime_IsSeconds (cltv_Locktime cltv) then bt_Time blocktimestamp
                           else uint (bt_Height blocktimestamp))
            in guard_err (uint (cltv_Locktime cltv) > current) (Code_New FORFEIT_CLOSURE_LOCKED ''closure is CLTV locked'')
                 (Inr ()))
      | _ \<Rightarrow> Inr ())"

subsection \<open>Outputs\<close>

record output_scan =
  sc_outputs :: "TxOut list"
  sc_foundAnchor :: bool
  sc_foundExtension :: bool
  sc_ext :: Extension
  sc_opRetCount :: nat

definition is_op_return :: "bytes \<Rightarrow> bool" where
  "is_op_return s \<longleftrightarrow> (case s of [] \<Rightarrow> False | opc # _ \<Rightarrow> opc = OP_RETURN)"

definition is_taproot_script :: "('k, 'c, 't) taproot_lib \<Rightarrow> bytes \<Rightarrow> bool" where
  "is_taproot_script lib s = tp_IsTaproot lib s"

text \<open>The body of the loop over the outputs. Amounts are \<open>int64\<close>.\<close>

definition scan_output ::
    "('k, 'c, 't) taproot_lib \<Rightarrow> tokenizer \<Rightarrow> u64 \<Rightarrow> int \<Rightarrow> int \<Rightarrow> TxOut \<Rightarrow> output_scan \<Rightarrow> output_scan arkres" where
  "scan_output lib tok dust vtxoMaxAmount vtxoMinOffchainTxAmount out s =
     (let v = sint (out_Value out); pk = out_PkScript out; keep = s\<lparr>sc_outputs := sc_outputs s @ [out]\<rparr>;
          s' = (if is_op_return pk then keep\<lparr>sc_opRetCount := sc_opRetCount s + 1\<rparr> else keep) in
      if pk = ANCHOR_PKSCRIPT
      then guard_err (sc_foundAnchor s) (Code_New MALFORMED_ARK_TX ''tx has multiple anchor outputs'')
             (guard_err (v \<ge> max (sint dust) vtxoMinOffchainTxAmount) (Code_New MALFORMED_ARK_TX ''invalid anchor output amount'')
               (Inr (s\<lparr>sc_foundAnchor := True\<rparr>)))
      else if IsExtension tok pk
      then guard_err (sc_foundExtension s) (Code_New MALFORMED_ARK_TX ''tx has multiple extension outputs'')
             (guard_err (v \<noteq> 0) (Code_New MALFORMED_ARK_TX ''extension OP_RETURN output has non-zero value'')
               (rbind (with_new MALFORMED_ARK_TX ''tx has malformed extension output'' (NewExtensionFromBytes tok pk)) (\<lambda>ext.
                 Inr (s'\<lparr>sc_foundExtension := True, sc_ext := ext\<rparr>))))
      else if is_op_return pk
      then if IsSubDustScript tok pk
           then guard_err (v \<ge> sint dust) (Code_New MALFORMED_ARK_TX ''subdust OP_RETURN output has value >= dust limit'')
                  (guard_err (v < vtxoMinOffchainTxAmount) (Code_New AMOUNT_TOO_LOW ''output amount is lower than min vtxo amount'')
                    (Inr s'))
           else guard_err (v > 0) (Code_New MALFORMED_ARK_TX ''OP_RETURN output has non-zero value but is not a subdust output'')
                  (Inr s')
      else guard_err (vtxoMaxAmount \<ge> 0 \<and> v > vtxoMaxAmount) (Code_New AMOUNT_TOO_HIGH ''output amount is higher than max vtxo amount'')
             (guard_err (v < vtxoMinOffchainTxAmount) (Code_New AMOUNT_TOO_LOW ''output amount is lower than min vtxo amount'')
             (guard_err (v < sint dust) (Code_New AMOUNT_TOO_LOW ''output amount is below dust limit'')
             (guard_err (\<not> is_taproot_script lib pk)
                (Code_New MALFORMED_ARK_TX ''output has amount greater than dust but is not a taproot pkscript'')
                (Inr s')))))"

fun scan_all :: "('o \<Rightarrow> 's \<Rightarrow> 's arkres) \<Rightarrow> 'o list \<Rightarrow> 's \<Rightarrow> 's arkres" where
  "scan_all f [] s = Inr s"
| "scan_all f (out # outs) s = rbind (f out s) (scan_all f outs)"

definition validateOffchainTxOutputs ::
    "('k, 'c, 't) taproot_lib \<Rightarrow> tokenizer \<Rightarrow> TxOut list \<Rightarrow> u64 \<Rightarrow> int \<Rightarrow> int \<Rightarrow> int \<Rightarrow> (TxOut list \<times> Extension) arkres" where
  "validateOffchainTxOutputs lib tok txOuts dust vtxoMaxAmount vtxoMinOffchainTxAmount maxOpReturnOutputs =
     rbind (scan_all (scan_output lib tok dust vtxoMaxAmount vtxoMinOffchainTxAmount) txOuts
              \<lparr>sc_outputs = [], sc_foundAnchor = False, sc_foundExtension = False, sc_ext = [], sc_opRetCount = 0\<rparr>) (\<lambda>s.
     guard_err (\<not> sc_foundAnchor s) (Code_New MALFORMED_ARK_TX ''missing anchor output in ark tx'')
     (guard_err (int (sc_opRetCount s) > maxOpReturnOutputs) (Code_New MALFORMED_ARK_TX ''too many OP_RETURN outputs'')
       (Inr (sc_outputs s, sc_ext s))))"

subsection \<open>The submitted checkpoints\<close>

definition outpoint_of :: "('k, 'c, 't) offchain_lib \<Rightarrow> TxIn \<Rightarrow> Outpoint" where
  "outpoint_of lib i =
     \<lparr>outp_Txid = ol_HashString lib (op_Hash (in_PreviousOutPoint i)), outp_VOut = op_Index (in_PreviousOutPoint i)\<rparr>"

record checkpoints =
  cp_txs :: "string gomap"
  cp_psbts :: "ArkPsbt gomap"
  cp_byVtxo :: "(Outpoint \<times> string) list"
  cp_keys :: "Outpoint list"
  cp_oneShot :: bool

definition no_checkpoints :: checkpoints where
  "no_checkpoints = \<lparr>cp_txs = [], cp_psbts = [], cp_byVtxo = [], cp_keys = [], cp_oneShot = False\<rparr>"

definition add_checkpoint :: "('k, 'c, 't) submit_env \<Rightarrow> string \<Rightarrow> checkpoints \<Rightarrow> checkpoints arkres" where
  "add_checkpoint env tx cs =
     rbind (with_code INVALID_CHECKPOINT_PSBT (env_parse env tx)) (\<lambda>checkpointPtx.
     rbind (with_code INVALID_CHECKPOINT_PSBT (env_CheckTransactionSanity env checkpointPtx)) (\<lambda>_.
     let txid = TxID (env_lib env) checkpointPtx in
     case tx_TxIn (psbt_UnsignedTx checkpointPtx) of
       [] \<Rightarrow> Inl (Code_New INVALID_PSBT_MISSING_INPUT ''invalid checkpoint tx'')
     | in0 # _ \<Rightarrow>
         let vtxoKey = outpoint_of (env_lib env) in0 in
         guard_err (map_of (cp_byVtxo cs) vtxoKey \<noteq> None) (Code_New INVALID_PSBT_INPUT ''duplicated vtxo input'')
           (Inr \<lparr>cp_txs = AList.update txid tx (cp_txs cs), cp_psbts = AList.update txid checkpointPtx (cp_psbts cs),
                 cp_byVtxo = AList.update vtxoKey txid (cp_byVtxo cs), cp_keys = cp_keys cs @ [vtxoKey],
                 cp_oneShot = (cp_oneShot cs \<or> (\<exists>input \<in> set (ap_Inputs checkpointPtx). length (pin_TaprootScriptSpendSig input) > 0))\<rparr>)))"

definition read_checkpoints :: "('k, 'c, 't) submit_env \<Rightarrow> string list \<Rightarrow> checkpoints arkres" where
  "read_checkpoints env txs = scan_all (add_checkpoint env) txs no_checkpoints"

subsection \<open>The checks before the request\<close>

text \<open>The checks on the ark transaction alone: it parses, is sane, and its inputs and outputs balance. The sums are
  \<open>int64\<close> and wrap.\<close>

definition read_ark_tx :: "('k, 'c, 't) submit_env \<Rightarrow> string \<Rightarrow> ArkPsbt arkres" where
  "read_ark_tx env signedArkTx =
     rbind (with_code INVALID_ARK_PSBT (env_parse env signedArkTx)) (\<lambda>arkPtx.
     rbind (with_code INVALID_ARK_PSBT (env_CheckTransactionSanity env arkPtx)) (\<lambda>_.
     rbind (map_res (\<lambda>input. case pin_WitnessUtxo input of
              None \<Rightarrow> Inl (Code_New INVALID_ARK_PSBT ''missing witness utxo for input'')
            | Some utxo \<Rightarrow> Inr (out_Value utxo)) (ap_Inputs arkPtx)) (\<lambda>values.
     guard_err (sum_list values \<noteq> sum_list (map out_Value (tx_TxOut (psbt_UnsignedTx arkPtx))))
       (Code_New INVALID_ARK_PSBT ''sum(inputs) != sum(outputs)'')
       (Inr arkPtx))))"

definition refuse_any :: "ErrorCode \<Rightarrow> string \<Rightarrow> Outpoint list sres \<Rightarrow> unit arkres" where
  "refuse_any c msg r =
     rbind (with_new INTERNAL_ERROR ''something went wrong'' r) (\<lambda>found. guard_err (length found > 0) (Code_New c msg) (Inr ()))"

definition fetch_vtxos :: "(Outpoint list \<Rightarrow> Vtxo list gores) \<Rightarrow> Outpoint list \<Rightarrow> Vtxo list arkres" where
  "fetch_vtxos getVtxos spentVtxoKeys =
     rbind (with_code INTERNAL_ERROR (getVtxos spentVtxoKeys)) (\<lambda>spentVtxos.
       guard_err (length spentVtxos \<noteq> length spentVtxoKeys) (Code_New VTXO_NOT_FOUND ''some vtxos not found'') (Inr spentVtxos))"

definition refuse_duplicate :: "('k, 'c, 't) submit_env \<Rightarrow> string \<Rightarrow> unit arkres" where
  "refuse_duplicate env txid =
     (case env_GetOffchainTx env txid of
        Inl err \<Rightarrow>
          guard_err (\<not> Contains (error_text err) ''not found'') (Code_New INTERNAL_ERROR ''failed to fetch offchain tx'') (Inr ())
      | Inr _ \<Rightarrow> Inl (Code_New INVALID_ARK_PSBT ''duplicated offchain tx''))"

definition refuse_banned :: "('k, 'c, 't) submit_env \<Rightarrow> u64 \<Rightarrow> Vtxo list \<Rightarrow> unit arkres" where
  "refuse_banned env banThreshold spentVtxos =
     rbind (with_new INTERNAL_ERROR ''something went wrong''
              (checkIfBanned (env_Now env) (env_convictions_fault env) (env_convictions env) banThreshold
                 (map (\<lambda>vtxo. \<lparr>bc_outpoint = vtxo_Outpoint vtxo, bc_OutputScript = vtxo_script (ol_tap (env_lib env)) vtxo\<rparr>) spentVtxos)))
       (\<lambda>bans. guard_err (length bans > 0) (vtxoBannedError bans) (Inr ()))"

record 'k preflight =
  pre_ark :: ArkPsbt
  pre_txid :: string
  pre_settings :: "'k PortSettings"
  pre_checkpoints :: checkpoints
  pre_vtxos :: "Vtxo list"
  pre_offchainTx :: OffchainTx
  pre_event :: Event

definition submit_preflight ::
    "('k, 'c, 't) submit_env \<Rightarrow> string list \<Rightarrow> string \<Rightarrow> 'k preflight arkres" where
  "submit_preflight env unsignedCheckpointTxs signedArkTx =
     rbind (read_ark_tx env signedArkTx) (\<lambda>arkPtx.
     let txid = TxID (env_lib env) arkPtx in
     rbind (with_code INTERNAL_ERROR (env_Settings env)) (\<lambda>settings.
     rbind (read_checkpoints env unsignedCheckpointTxs) (\<lambda>cs.
     rbind (refuse_duplicate env txid) (\<lambda>_.
     rbind (fetch_vtxos (env_GetVtxos env) (cp_keys cs)) (\<lambda>spentVtxos.
     rbind (refuse_banned env (set_BanThreshold (pst_Settings settings)) spentVtxos) (\<lambda>_.
     rbind (refuse_any VTXO_ALREADY_SPENT ''vtxo(s) already spent'' (env_offchain_IncludesAny env (cp_keys cs))) (\<lambda>_.
     rbind (refuse_any VTXO_ALREADY_REGISTERED ''vtxo(s) already registered'' (env_intents_IncludesAny env (cp_keys cs))) (\<lambda>_.
     rbind (with_code INTERNAL_ERROR
              (Request (unix_secs (env_Now env)) txid signedArkTx (cp_txs cs) NewOffchainTx)) (\<lambda>(offchainTx, event).
       Inr \<lparr>pre_ark = arkPtx, pre_txid = txid, pre_settings = settings, pre_checkpoints = cs, pre_vtxos = spentVtxos,
            pre_offchainTx = offchainTx, pre_event = event\<rparr>)))))))))"

subsection \<open>The inputs of the ark transaction\<close>

definition spendable :: "int \<Rightarrow> Vtxo \<Rightarrow> unit arkres" where
  "spendable now vtxo =
     guard_err (vtxo_Spent vtxo) (Code_New VTXO_ALREADY_SPENT ''already spent'')
     (guard_err (vtxo_Unrolled vtxo) (Code_New VTXO_ALREADY_UNROLLED ''already unrolled'')
     (guard_err (vtxo_Swept vtxo \<or> Vtxo_IsExpired now vtxo) (Code_New VTXO_RECOVERABLE ''is recoverable'')
       (Inr ())))"

text \<open>The input of the checkpoint: its spent output, its only leaf, and the tapscripts of the vtxo with their closures.\<close>

definition revealed_input ::
    "('k, 'c, 't) submit_env \<Rightarrow> ArkPsbt \<Rightarrow> (TxOut \<times> TaprootTapLeafScript \<times> string list \<times> 'k TapscriptsVtxoScript) arkres" where
  "revealed_input env checkpointPsbt =
     (let input = ap_Inputs checkpointPsbt ! 0; ts = tp_ts (ol_tap (env_lib env)) in
      case pin_WitnessUtxo input of
        None \<Rightarrow> Inl (Code_New INVALID_PSBT_INPUT ''missing witness utxo on input'')
      | Some witnessUtxo \<Rightarrow>
          (case pin_TaprootLeafScript input of
             [spendingTapscript] \<Rightarrow>
               (case GetArkPsbtFields checkpointPsbt 0 VtxoTaprootTreeField of
                  Inr (taptree # _) \<Rightarrow>
                    rbind (with_new INVALID_PSBT_INPUT ''failed to parse taptree field'' (ParseVtxoScript ts taptree)) (\<lambda>vtxoScript.
                      Inr (witnessUtxo, spendingTapscript, taptree, vtxoScript))
                | _ \<Rightarrow> Inl (Code_New INVALID_PSBT_INPUT ''missing taptree on input''))
           | [] \<Rightarrow> Inl (Code_New INVALID_PSBT_INPUT ''missing tapscript leaf on input'')
           | _ \<Rightarrow> Inl (Code_New INVALID_PSBT_INPUT ''expected exactly one taproot leaf script on input'')))"

text \<open>The smallest exit delay that the script may have. The variable \<open>minAllowedExitDelay\<close> is declared before the loop, so
  what an old vtxo assigns to it is the limit of the next input.\<close>

definition check_vtxo_script ::
    "'k txscript \<Rightarrow> 'k PortSettings \<Rightarrow> int \<Rightarrow> RelativeLocktime \<Rightarrow> Vtxo \<Rightarrow> 'k TapscriptsVtxoScript \<Rightarrow> RelativeLocktime arkres" where
  "check_vtxo_script lib settings now minAllowedExitDelay vtxo vtxoScript =
     rbind (if vtxo_CreatedAt vtxo * time_Second < set_VtxoNoCsvValidationCutoffDate (pst_Settings settings)
            then with_new INVALID_VTXO_SCRIPT ''failed to get smallest exit delay'' (SmallestExitDelay vtxoScript)
            else Inr minAllowedExitDelay) (\<lambda>minAllowedExitDelay.
     rbind (with_code INVALID_VTXO_SCRIPT
              (validateVtxoScriptForSigners lib vtxoScript (pst_SignerPubkey settings) (pst_DeprecatedSignerPubkeys settings)
                 now minAllowedExitDelay (AllowCSVBlockType (pst_Settings settings)))) (\<lambda>_.
       Inr minAllowedExitDelay))"

text \<open>The key of the vtxo is that of the revealed scripts, and the spent output is the one of the vtxo.\<close>

definition check_vtxo_key ::
    "('k, 'c, 't) taproot_lib \<Rightarrow> TxOut \<Rightarrow> Vtxo \<Rightarrow> 'k TapscriptsVtxoScript \<Rightarrow> 'k arkres" where
  "check_vtxo_key lib witnessUtxo vtxo vtxoScript =
     rbind (with_new INVALID_VTXO_SCRIPT ''failed to compute taproot tree'' (tap_tree lib vtxoScript)) (\<lambda>(tapKeyFromTapscripts, _).
     guard_err (vtxo_PubKey vtxo \<noteq> xonly lib tapKeyFromTapscripts) (Code_New INVALID_PSBT_INPUT ''unexpected tapkey'')
     (rbind (with_new INVALID_VTXO_SCRIPT ''failed to compute P2TR script from tapkey'' (P2TRScript (tp_ts lib) tapKeyFromTapscripts))
        (\<lambda>pkScriptFromTapscripts.
      guard_err (out_PkScript witnessUtxo \<noteq> pkScriptFromTapscripts) (Code_New INVALID_PSBT_INPUT ''witness utxo script mismatch'')
      (rbind (with_new INTERNAL_ERROR ''failed to decode vtxo pubkey'' (hex_DecodeString (vtxo_PubKey vtxo))) (\<lambda>vtxoPubkeyBuf.
       rbind (with_new INTERNAL_ERROR ''failed to parse vtxo pubkey'' (ts_ParsePubKey (tp_ts lib) vtxoPubkeyBuf)) (\<lambda>vtxoPubkey.
       rbind (with_new INTERNAL_ERROR ''failed to compute P2TR script from vtxo pubkey'' (P2TRScript (tp_ts lib) vtxoPubkey)) (\<lambda>pkscript.
       guard_err (out_PkScript witnessUtxo \<noteq> pkscript) (Code_New INVALID_PSBT_INPUT ''witness utxo script mismatch'')
       (guard_err (out_Value witnessUtxo \<noteq> vtxo_Amount vtxo) (Code_New INVALID_PSBT_INPUT ''witness utxo value mismatch'')
         (Inr vtxoPubkey)))))))))"

text \<open>The leaf is a forfeit closure that is not locked, and the key of the vtxo commits to it.\<close>

definition check_spending_leaf ::
    "('k, 'c, 't) taproot_lib \<Rightarrow> BlockTimestamp gores \<Rightarrow> TaprootTapLeafScript \<Rightarrow> 'k \<Rightarrow> 'c arkres" where
  "check_spending_leaf lib blockTime spendingTapscript vtxoPubkey =
     rbind (with_code INVALID_PSBT_INPUT (DecodeClosure (tp_ts lib) (tls_Script spendingTapscript))) (\<lambda>closure.
     guard_err (\<not> is_forfeit closure) (Code_New INVALID_PSBT_INPUT ''invalid spending tapscript on input'')
     (rbind (verifyClosureNotLocked blockTime closure) (\<lambda>_.
      rbind (with_new INVALID_PSBT_INPUT ''failed to parse control block'' (tp_ParseControlBlock lib (tls_ControlBlock spendingTapscript)))
        (\<lambda>ctrlBlock.
      rbind (with_new INVALID_PSBT_INPUT ''invalid control block on input'' (VerifyControlBlockInternalKey lib ctrlBlock)) (\<lambda>_.
      let leafRoot = tp_RootHash lib ctrlBlock (tls_Script spendingTapscript) in
      case tp_InternalKey lib ctrlBlock of
        None \<Rightarrow> Inl (Code_New INTERNAL_ERROR ''nil internal key'')
      | Some internalKey \<Rightarrow>
          guard_err (ts_SerializePubKey (tp_ts lib) (tp_ComputeTaprootOutputKey lib internalKey leafRoot) \<noteq>
                     ts_SerializePubKey (tp_ts lib) vtxoPubkey)
            (Code_New INVALID_PSBT_INPUT ''revealed tapscript leaf is not committed by the vtxo taproot key'')
            (Inr ctrlBlock))))))"

text \<open>The condition witnesses of the checkpoint and of the ark transaction; a missing one is nil, which equals an empty one.\<close>

definition check_witnesses :: "('k, 'c, 't) taproot_lib \<Rightarrow> ArkPsbt \<Rightarrow> ArkPsbt \<Rightarrow> nat \<Rightarrow> unit arkres" where
  "check_witnesses lib checkpointPsbt arkPtx inputIndex =
     rbind (with_code INVALID_PSBT_INPUT (input_witness lib checkpointPsbt 0)) (\<lambda>witness.
     rbind (with_code INVALID_PSBT_INPUT (input_witness lib arkPtx inputIndex)) (\<lambda>arkWitness.
       guard_err (witness \<noteq> arkWitness) (Code_New INVALID_PSBT_INPUT ''checkpoint condition witness does not match ark tx input'')
         (Inr ())))"

record 'c input_scan =
  isc_minAllowedExitDelay :: RelativeLocktime
  isc_indexedSpentVtxos :: "(Outpoint \<times> Vtxo) list"
  isc_assetInputs :: prevouts
  isc_ins :: "'c VtxoInput list"

definition check_input ::
    "('k, 'c, 't) submit_env \<Rightarrow> 'k preflight \<Rightarrow> nat \<times> TxIn \<Rightarrow> 'c input_scan \<Rightarrow> 'c input_scan arkres" where
  "check_input env pre = (\<lambda>(inputIndex, txin) s.
     let lib = ol_tap (env_lib env) in
     case map_of (cp_psbts (pre_checkpoints pre)) (ol_HashString (env_lib env) (op_Hash (in_PreviousOutPoint txin))) of
       None \<Rightarrow> Inl (Code_New INVALID_PSBT_INPUT ''ark tx input does not spend any submitted checkpoint tx output'')
     | Some checkpointPsbt \<Rightarrow>
         rbind (revealed_input env checkpointPsbt) (\<lambda>(witnessUtxo, spendingTapscript, taptree, vtxoScript).
         let in0 = tx_TxIn (psbt_UnsignedTx checkpointPsbt) ! 0; outpoint = outpoint_of (env_lib env) in0 in
         case map_of (isc_indexedSpentVtxos s) outpoint of
           None \<Rightarrow> Inl (Code_New INTERNAL_ERROR ''can't find vtxo associated with checkpoint input'')
         | Some vtxo \<Rightarrow>
             rbind (spendable (env_Now env) vtxo) (\<lambda>_.
             guard_err (Vtxo_IsNote vtxo) (Code_New OFFCHAIN_TX_SPENDING_NOTE ''is a note'')
             (rbind (check_vtxo_script (tp_ts lib) (pre_settings pre) (env_Now env) (isc_minAllowedExitDelay s) vtxo vtxoScript)
                (\<lambda>minAllowedExitDelay.
              rbind (check_vtxo_key lib witnessUtxo vtxo vtxoScript) (\<lambda>vtxoPubkey.
              rbind (check_spending_leaf lib (env_GetCurrentBlockTime env) spendingTapscript vtxoPubkey) (\<lambda>ctrlBlock.
              rbind (check_witnesses lib checkpointPsbt (pre_ark pre) inputIndex) (\<lambda>_.
              guard_err (length (pin_TaprootLeafScript (ap_Inputs (pre_ark pre) ! inputIndex)) = 0)
                (Code_New INVALID_PSBT_INPUT ''missing taproot leaf script in ark tx input'')
              (Inr \<lparr>isc_minAllowedExitDelay = minAllowedExitDelay,
                    isc_indexedSpentVtxos = AList.delete outpoint (isc_indexedSpentVtxos s),
                    isc_assetInputs = (if length (vtxo_Assets vtxo) > 0
                      then isc_assetInputs s @ [(int inputIndex, vtxo_Assets vtxo)] else isc_assetInputs s),
                    isc_ins = isc_ins s @
                      [\<lparr>vi_Outpoint = in_PreviousOutPoint in0, vi_Amount = vtxo_Amount vtxo,
                        vi_Tapscript = \<lparr>tsc_ControlBlock = ctrlBlock, tsc_RevealedScript = tls_Script spendingTapscript\<rparr>,
                        vi_RevealedTapscripts = taptree\<rparr>]\<rparr>)))))))))"

definition index_vtxos :: "Vtxo list \<Rightarrow> (Outpoint \<times> Vtxo) list" where
  "index_vtxos vtxos = fold (\<lambda>v. AList.update (vtxo_Outpoint v) v) vtxos []"

definition check_inputs :: "('k, 'c, 't) submit_env \<Rightarrow> 'k preflight \<Rightarrow> 'c input_scan arkres" where
  "check_inputs env pre =
     scan_all (check_input env pre) (List.enumerate 0 (tx_TxIn (psbt_UnsignedTx (pre_ark pre))))
       \<lparr>isc_minAllowedExitDelay = set_UnilateralExitDelay (pst_Settings (pre_settings pre)),
        isc_indexedSpentVtxos = index_vtxos (pre_vtxos pre), isc_assetInputs = [], isc_ins = []\<rparr>"

text \<open>A signature by a key other than the signer's must be there; the first such key must parse.\<close>

definition check_signed :: "('k, 'c, 't) submit_env \<Rightarrow> bytes \<Rightarrow> PInput \<Rightarrow> unit arkres" where
  "check_signed env signerXOnlyPubkey input =
     guard_err (length (pin_TaprootScriptSpendSig input) = 0) (Code_New INVALID_PSBT_INPUT ''missing tapscript spend sig in ark tx input'')
     (case find (\<lambda>sig. tss_XOnlyPubKey sig \<noteq> signerXOnlyPubkey) (pin_TaprootScriptSpendSig input) of
        None \<Rightarrow> Inl (Code_New ARK_TX_INPUT_NOT_SIGNED ''tx is not signed'')
      | Some sig \<Rightarrow>
          rbind (with_new INVALID_PSBT_INPUT ''invalid xonly pubkey in tx input signature''
                   (ts_ParsePubKey (tp_ts (ol_tap (env_lib env))) (tss_XOnlyPubKey sig))) (\<lambda>_. Inr ()))"

subsection \<open>Comparison with the rebuilt transactions\<close>

text \<open>What the transaction identifier does not commit to: the spent output and the leaf of an input. The rebuilt input has both,
  and so has the submitted one after the checks before.\<close>

definition same_input :: "PInput \<Rightarrow> PInput \<Rightarrow> unit arkres" where
  "same_input submitted rebuilt' =
     (case (pin_WitnessUtxo submitted, pin_WitnessUtxo rebuilt', pin_TaprootLeafScript submitted, pin_TaprootLeafScript rebuilt') of
        (Some utxo, Some utxo', lf # _, lf' # _) \<Rightarrow>
          guard_err (out_Value utxo \<noteq> out_Value utxo' \<or> out_PkScript utxo \<noteq> out_PkScript utxo')
            (Code_New INVALID_PSBT_INPUT ''ark tx input prevout mismatch'')
          (guard_err (tls_LeafVersion lf \<noteq> tls_LeafVersion lf') (Code_New INVALID_PSBT_INPUT ''ark tx input tapscript leaf version mismatch'')
          (guard_err (tls_Script lf \<noteq> tls_Script lf') (Code_New INVALID_PSBT_INPUT ''ark tx input tapscript leaf script mismatch'')
          (guard_err (tls_ControlBlock lf \<noteq> tls_ControlBlock lf') (Code_New INVALID_PSBT_INPUT ''ark tx input tapscript control block mismatch'')
            (Inr ()))))
      | _ \<Rightarrow> Inl (Code_New INTERNAL_ERROR ''nil dereference''))"

definition rebuild_txs ::
    "('k, 'c, 't) submit_env \<Rightarrow> 'k preflight \<Rightarrow> 'c VtxoInput list \<Rightarrow> TxOut list \<Rightarrow> (ArkPsbt \<times> ArkPsbt list) arkres" where
  "rebuild_txs env pre ins outputs =
     rbind (with_code INTERNAL_ERROR (BuildTxsWithFee (env_lib env) ins outputs (pst_CheckpointTapscript (pre_settings pre))))
       (\<lambda>(rebuiltArkTx, rebuiltCheckpointTxs).
     let psbts = cp_psbts (pre_checkpoints pre) in
     guard_err (length rebuiltCheckpointTxs \<noteq> map_len psbts) (Code_New CHECKPOINT_MISMATCH ''invalid number of checkpoint txs'')
     (rbind (check_all (\<lambda>p. guard_err (map_of psbts (TxID (env_lib env) p) = None)
               (Code_New CHECKPOINT_MISMATCH ''invalid checkpoint txs'') (Inr ())) rebuiltCheckpointTxs) (\<lambda>_.
      guard_err (TxID (env_lib env) rebuiltArkTx \<noteq> pre_txid pre) (Code_New ARK_TX_MISMATCH ''unexpected ark tx'')
      (rbind (check_all (\<lambda>(i, rebuiltIn). same_input (ap_Inputs (pre_ark pre) ! i) rebuiltIn)
                (List.enumerate 0 (ap_Inputs rebuiltArkTx))) (\<lambda>_.
         Inr (rebuiltArkTx, rebuiltCheckpointTxs))))))"

definition check_signature :: "('k, 'c, 't) submit_env \<Rightarrow> string \<Rightarrow> unit arkres" where
  "check_signature env tx =
     rbind (with_code INVALID_SIGNATURE (verify_sigs env tx False)) (\<lambda>(valid, _).
       guard_err (\<not> valid) (Code_New INVALID_SIGNATURE ''invalid signature in ark tx'') (Inr ()))"

definition computeWeight :: "nat \<times> nat \<Rightarrow> u64" where
  "computeWeight = (\<lambda>(baseSize, totalSize). of_nat (baseSize * 3 + totalSize))"

definition sign_ark_tx :: "('k, 'c, 't) submit_env \<Rightarrow> u64 \<Rightarrow> string \<Rightarrow> string arkres" where
  "sign_ark_tx env maxTxWeight signedArkTx =
     rbind (with_code INTERNAL_ERROR (env_SignTransaction env signedArkTx)) (\<lambda>fullySignedArkTx.
     rbind (with_code INTERNAL_ERROR (env_parse env fullySignedArkTx)) (\<lambda>fullySignedArkPtx.
     rbind (with_code INTERNAL_ERROR (env_ExtractFinalizedTx env fullySignedArkPtx)) (\<lambda>txHex.
     rbind (with_code INTERNAL_ERROR (env_Deserialize env txHex)) (\<lambda>arkTx.
       guard_err (computeWeight arkTx > maxTxWeight) (Code_New TX_TOO_LARGE ''ark tx weight is too high'')
         (Inr fullySignedArkTx)))))"

text \<open>The rebuilt checkpoint takes the signatures and the condition witness of the submitted one.\<close>

definition sign_checkpoint ::
    "('k, 'c, 't) submit_env \<Rightarrow> 'k preflight \<Rightarrow> ArkPsbt \<Rightarrow> string gomap \<Rightarrow> string gomap arkres" where
  "sign_checkpoint env pre rebuiltCheckpointTx signed_map =
     (let lib = ol_tap (env_lib env); checkpointTxid = TxID (env_lib env) rebuiltCheckpointTx in
      case map_of (cp_psbts (pre_checkpoints pre)) checkpointTxid of
        None \<Rightarrow> Inl (Code_New INTERNAL_ERROR ''nil dereference'')
      | Some submitted \<Rightarrow>
          let rebuilt0 = (ap_Inputs rebuiltCheckpointTx ! 0)\<lparr>pin_TaprootScriptSpendSig := pin_TaprootScriptSpendSig (ap_Inputs submitted ! 0)\<rparr>;
              checkpointPsbt = rebuiltCheckpointTx\<lparr>ap_Inputs := (ap_Inputs rebuiltCheckpointTx)[0 := rebuilt0]\<rparr> in
          rbind (with_code INVALID_PSBT_INPUT (GetArkPsbtConditionWitness (tp_ts lib) (tp_writeTxWitness lib) submitted 0)) (\<lambda>witness.
          rbind (case witness of
                   None \<Rightarrow> Inr checkpointPsbt
                 | Some w \<Rightarrow> with_code INTERNAL_ERROR
                     (SetArkPsbtField checkpointPsbt 0 (ConditionWitnessField (tp_ts lib) (tp_writeTxWitness lib)) w)) (\<lambda>checkpointPsbt.
          rbind (with_code INTERNAL_ERROR (env_B64Encode env checkpointPsbt)) (\<lambda>checkpointTx.
          rbind (if cp_oneShot (pre_checkpoints pre)
                 then rbind (with_new INVALID_SIGNATURE ''invalid signature in checkpoint tx'' (verify_sigs env checkpointTx False))
                        (\<lambda>(valid, _). guard_err (\<not> valid) (Code_New INVALID_SIGNATURE ''invalid signature in checkpoint tx'') (Inr ()))
                 else Inr ()) (\<lambda>_.
          rbind (with_code INTERNAL_ERROR (env_SignTransaction env checkpointTx)) (\<lambda>signedCheckpointTx.
            Inr (AList.update checkpointTxid signedCheckpointTx signed_map)))))))"

subsection \<open>What the accepted event records\<close>

text \<open>The loop over the spent vtxos: the commitment of each checkpoint, and the one that expires first.\<close>

definition commitment_step ::
    "(Outpoint \<times> string) list \<Rightarrow> Vtxo \<Rightarrow> string gomap \<times> string \<times> int \<Rightarrow> string gomap \<times> string \<times> int" where
  "commitment_step checkpointTxsByVtxoKey vtxo = (\<lambda>(commitments, rootCommitmentTxid, expiration).
     let checkpointTxid = (case map_of checkpointTxsByVtxoKey (vtxo_Outpoint vtxo) of None \<Rightarrow> [] | Some t \<Rightarrow> t);
         commitments = AList.update checkpointTxid (vtxo_RootCommitmentTxid vtxo) commitments in
     if vtxo_ExpiresAt vtxo < expiration then (commitments, vtxo_RootCommitmentTxid vtxo, vtxo_ExpiresAt vtxo)
     else (commitments, rootCommitmentTxid, expiration))"

definition collect_commitments ::
    "(Outpoint \<times> string) list \<Rightarrow> Vtxo list \<Rightarrow> string gomap \<times> string \<times> int" where
  "collect_commitments checkpointTxsByVtxoKey spentVtxos =
     fold (commitment_step checkpointTxsByVtxoKey) spentVtxos ([], [], 2 ^ 63 - 1)"

definition new_depth :: "Vtxo list \<Rightarrow> u32" where
  "new_depth spentVtxos =
     (if length spentVtxos > 0 then fold (\<lambda>v maxDepth. if vtxo_Depth v > maxDepth then vtxo_Depth v else maxDepth) spentVtxos 0 + 1 else 0)"

definition parent_markers :: "Vtxo list \<Rightarrow> string list" where
  "parent_markers spentVtxos = sort (remdups (filter (\<lambda>m. m \<noteq> []) (concat (map vtxo_MarkerIDs spentVtxos))))"

subsection \<open>The checks after the request\<close>

record accepted =
  acc_offchainTx :: OffchainTx
  acc_change :: Event
  acc_FinalArkTx :: string
  acc_SignedCheckpointTxs :: "string list"

definition recheck_vtxos :: "('k, 'c, 't) submit_env \<Rightarrow> Outpoint list \<Rightarrow> unit arkres" where
  "recheck_vtxos env spentVtxoKeys =
     rbind (refuse_any VTXO_ALREADY_SPENT ''vtxo(s) already spent'' (env_offchain_IncludesAny_again env spentVtxoKeys)) (\<lambda>_.
     rbind (refuse_any VTXO_ALREADY_REGISTERED ''vtxo(s) already registered'' (env_intents_IncludesAny_again env spentVtxoKeys)) (\<lambda>_.
     rbind (fetch_vtxos (env_GetVtxos_again env) spentVtxoKeys) (\<lambda>freshSpentVtxos.
       check_all (spendable (env_Now_again env)) freshSpentVtxos)))"

definition max_assets :: "('k, 'c, 't) submit_env \<Rightarrow> Settings \<Rightarrow> int" where
  "max_assets env s = (case MaxAssetsPerVtxo (env_NewHashFromStr env) s of None \<Rightarrow> env_MaxAssets env | Some n \<Rightarrow> int n)"

definition submit_checks :: "('k, 'c, 't) submit_env \<Rightarrow> string \<Rightarrow> 'k preflight \<Rightarrow> accepted arkres" where
  "submit_checks env signedArkTx pre =
     (let lib = ol_tap (env_lib env); arkPtx = pre_ark pre; st = pst_Settings (pre_settings pre); cs = pre_checkpoints pre;
          (commitmentTxsByCheckpointTxid, rootCommitmentTxid, expiration) = collect_commitments (cp_byVtxo cs) (pre_vtxos pre) in
      rbind (check_inputs env pre) (\<lambda>scan.
      rbind (check_all (check_signed env (ts_SerializePubKey (tp_ts lib) (pst_SignerPubkey (pre_settings pre)))) (ap_Inputs arkPtx)) (\<lambda>_.
      rbind (with_code INTERNAL_ERROR (env_GetDustAmount env)) (\<lambda>dust.
      rbind (validateOffchainTxOutputs lib (env_tokenizer env) (tx_TxOut (psbt_UnsignedTx arkPtx)) dust
               (set_VtxoMaxAmount st) (set_VtxoMinAmount st) (sint (set_MaxOpReturnOutputs st))) (\<lambda>(outputs, ext).
      rbind (app_validateAssetTransaction (env_NewHashFromStr env) (\<lambda>_. TxHash (env_lib env) arkPtx) (\<lambda>_. TxID (env_lib env) arkPtx)
               (env_tokenizer env) (env_assets env) (psbt_UnsignedTx arkPtx) ext (isc_assetInputs scan) (max_assets env st)) (\<lambda>_.
      rbind (rebuild_txs env pre (isc_ins scan) outputs) (\<lambda>(rebuiltArkTx, rebuiltCheckpointTxs).
      rbind (check_signature env signedArkTx) (\<lambda>_.
      rbind (sign_ark_tx env (set_MaxTxWeight st) signedArkTx) (\<lambda>fullySignedArkTx.
      rbind (scan_all (sign_checkpoint env pre) rebuiltCheckpointTxs []) (\<lambda>signedCheckpointTxsMap.
      rbind (with_code INTERNAL_ERROR
               (Accept fullySignedArkTx signedCheckpointTxsMap commitmentTxsByCheckpointTxid rootCommitmentTxid expiration
                  (new_depth (pre_vtxos pre)) (parent_markers (pre_vtxos pre)) (pre_offchainTx pre))) (\<lambda>(offchainTx, change).
      rbind (recheck_vtxos env (cp_keys cs)) (\<lambda>_.
        Inr \<lparr>acc_offchainTx = offchainTx, acc_change = change, acc_FinalArkTx = fullySignedArkTx,
             acc_SignedCheckpointTxs = map_values signedCheckpointTxsMap\<rparr>))))))))))))"

subsection \<open>Finalization\<close>

definition final_checkpoint ::
    "('k, 'c, 't) submit_env \<Rightarrow> string \<Rightarrow> ArkPsbt gomap \<times> Outpoint list \<Rightarrow> (ArkPsbt gomap \<times> Outpoint list) arkres" where
  "final_checkpoint env checkpoint = (\<lambda>(decodedCheckpointTxs, spentVtxoKeys).
     rbind (with_new INVALID_SIGNATURE ''invalid signature in checkpoint tx'' (verify_sigs env checkpoint True)) (\<lambda>(valid, ptx).
     guard_err (\<not> valid) (Code_New INVALID_SIGNATURE ''invalid signature in checkpoint tx'')
     (case tx_TxIn (psbt_UnsignedTx ptx) of
        [] \<Rightarrow> Inl (Code_New INVALID_PSBT_MISSING_INPUT ''invalid checkpoint tx'')
      | in0 # _ \<Rightarrow>
          Inr (AList.update (TxID (env_lib env) ptx) ptx decodedCheckpointTxs, spentVtxoKeys @ [outpoint_of (env_lib env) in0]))))"

definition final_input ::
    "('k, 'c, 't) submit_env \<Rightarrow> ArkPsbt \<Rightarrow> ArkPsbt gomap \<Rightarrow> nat \<Rightarrow> string gomap \<Rightarrow> string gomap arkres" where
  "final_input env arkTx decodedCheckpointTxs inIndex finalCheckpointTxsMap =
     (let lib = ol_tap (env_lib env);
          checkpointTxid = ol_HashString (env_lib env) (op_Hash (in_PreviousOutPoint (tx_TxIn (psbt_UnsignedTx arkTx) ! inIndex))) in
      case map_of decodedCheckpointTxs checkpointTxid of
        None \<Rightarrow> Inl (Code_New INVALID_PSBT_INPUT ''checkpoint tx not found'')
      | Some checkpointTx \<Rightarrow>
          rbind (with_new INVALID_PSBT_INPUT ''missing taptree on input'' (GetArkPsbtFields arkTx inIndex VtxoTaprootTreeField)) (\<lambda>trees.
          case trees of
            [] \<Rightarrow> Inl (Code_New INVALID_PSBT_INPUT ''missing taproot tree'')
          | taprootTree # _ \<Rightarrow>
              rbind (with_code INVALID_PSBT_INPUT (ParseVtxoScript (tp_ts lib) taprootTree)) (\<lambda>vtxoScript.
              rbind (with_code INVALID_PSBT_INPUT (tap_tree lib vtxoScript)) (\<lambda>(tapKey, _).
              rbind (with_code INVALID_PSBT_INPUT (P2TRScript (tp_ts lib) tapKey)) (\<lambda>expectedOutputScript.
              case tx_TxOut (psbt_UnsignedTx checkpointTx) of
                [] \<Rightarrow> Inl (Code_New INVALID_PSBT_INPUT ''checkpoint tx has no outputs'')
              | out0 # _ \<Rightarrow>
                  guard_err (out_PkScript out0 \<noteq> expectedOutputScript) (Code_New INVALID_PSBT_INPUT ''invalid output script'')
                  (rbind (with_code INVALID_PSBT_INPUT (TapTree_Encode taprootTree)) (\<lambda>encodedTapTree.
                   rbind (with_code INTERNAL_ERROR
                            (env_B64Encode env (checkpointTx\<lparr>ap_TaprootTapTrees := (ap_TaprootTapTrees checkpointTx)[0 := encodedTapTree]\<rparr>)))
                     (\<lambda>b64checkpointTx.
                     Inr (AList.update checkpointTxid b64checkpointTx finalCheckpointTxsMap)))))))))"

definition finalizeOffchainTx ::
    "('k, 'c, 't) submit_env \<Rightarrow> OffchainTx \<Rightarrow> string list \<Rightarrow> (OffchainTx \<times> Event) arkres" where
  "finalizeOffchainTx env offchainTx finalCheckpointTxs =
     rbind (scan_all (final_checkpoint env) finalCheckpointTxs ([], [])) (\<lambda>(decodedCheckpointTxs, spentVtxoKeys).
     rbind (with_code INTERNAL_ERROR (env_GetVtxos_finalize env spentVtxoKeys)) (\<lambda>spentVtxos.
     guard_err (\<exists>vtxo \<in> set spentVtxos. vtxo_Unrolled vtxo) (Code_New VTXO_ALREADY_UNROLLED ''vtxo(s) already unrolled'')
     (rbind (with_code INVALID_ARK_PSBT (env_parse env (ot_ArkTx offchainTx))) (\<lambda>arkTx.
      rbind (scan_all (final_input env arkTx decodedCheckpointTxs) [0..<length (ap_Inputs arkTx)] []) (\<lambda>finalCheckpointTxsMap.
        with_code INTERNAL_ERROR (OffchainTx_Finalize (unix_secs (env_Now_again env)) finalCheckpointTxsMap offchainTx))))))"

subsection \<open>The handler\<close>

record AcceptedOffchainTx =
  ao_TxId :: string
  ao_FinalArkTx :: string
  ao_SignedCheckpointTxs :: "string list"

text \<open>What the handler changes: the cache of offchain transactions, and the events that it saves.\<close>

record submit_effects =
  eff_cache :: "offChainTxStore option"
  eff_saved :: "Event list option"

definition no_effects :: submit_effects where
  "no_effects = \<lparr>eff_cache = None, eff_saved = None\<rparr>"

definition saved :: "('k, 'c, 't) submit_env \<Rightarrow> Event list \<Rightarrow> Event list option" where
  "saved env events = (case env_Save env of Inl _ \<Rightarrow> None | Inr _ \<Rightarrow> Some events)"

text \<open>The deferred function, when the handler returns an error.\<close>

definition deferred_failure :: "('k, 'c, 't) submit_env \<Rightarrow> 'k preflight \<Rightarrow> ArkError \<Rightarrow> submit_effects" where
  "deferred_failure env pre err =
     (if cp_oneShot (pre_checkpoints pre) then no_effects
      else no_effects\<lparr>eff_saved := saved env [pre_event pre,
             snd (OffchainTx_Fail (unix_secs (env_Now_again env)) (error_text (ae_Cause err)) (pre_offchainTx pre))]\<rparr>)"

definition checkpoint_outpoints :: "('k, 'c, 't) submit_env \<Rightarrow> string \<Rightarrow> string list gores" where
  "checkpoint_outpoints env tx =
     rbind (env_parse env tx) (\<lambda>p. Inr (map (Outpoint_String \<circ> outpoint_of (env_lib env)) (tx_TxIn (psbt_UnsignedTx p))))"

definition submit_commit ::
    "('k, 'c, 't) submit_env \<Rightarrow> 'k preflight \<Rightarrow> accepted \<Rightarrow> AcceptedOffchainTx arkres \<times> submit_effects" where
  "submit_commit env pre acc =
     (let oneShot = cp_oneShot (pre_checkpoints pre); txins = checkpoint_outpoints env;
          res = \<lparr>ao_TxId = pre_txid pre, ao_FinalArkTx = acc_FinalArkTx acc, ao_SignedCheckpointTxs = acc_SignedCheckpointTxs acc\<rparr>;
          finalized = (if oneShot
            then rbind (finalizeOffchainTx env (acc_offchainTx acc) (acc_SignedCheckpointTxs acc)) (\<lambda>(tx, ev).
                   Inr (tx, [pre_event pre, acc_change acc, ev]))
            else Inr (acc_offchainTx acc, [pre_event pre, acc_change acc])) in
      case finalized of
        Inl err \<Rightarrow> (Inl err, deferred_failure env pre err)
      | Inr (offchainTx, changes) \<Rightarrow>
          (case offchain_Add txins offchainTx (env_add_tries env) of
             Inl storeErr \<Rightarrow>
               let err = (if is_already_spent storeErr then Code_New VTXO_ALREADY_SPENT ''input already spent''
                          else Code_New INTERNAL_ERROR ''something went wrong'')
               in (Inl err, deferred_failure env pre err)
           | Inr store \<Rightarrow>
               if oneShot
               then (case env_Save env of
                       Inl _ \<Rightarrow>
                         (Inl (Code_New INTERNAL_ERROR ''something went wrong''),
                          \<lparr>eff_cache = (case offchain_Remove txins (pre_txid pre) store (env_remove_tries env) of
                             Inr (Some store') \<Rightarrow> Some store' | _ \<Rightarrow> Some store), eff_saved = None\<rparr>)
                     | Inr _ \<Rightarrow> (Inr res, \<lparr>eff_cache = Some store, eff_saved = Some changes\<rparr>))
               else (Inr res, \<lparr>eff_cache = Some store, eff_saved = saved env changes\<rparr>)))"

definition SubmitOffchainTx ::
    "('k, 'c, 't) submit_env \<Rightarrow> string list \<Rightarrow> string \<Rightarrow> AcceptedOffchainTx arkres \<times> submit_effects" where
  "SubmitOffchainTx env unsignedCheckpointTxs signedArkTx =
     (case submit_preflight env unsignedCheckpointTxs signedArkTx of
        Inl err \<Rightarrow> (Inl err, no_effects)
      | Inr pre \<Rightarrow>
          (case submit_checks env signedArkTx pre of
             Inl err \<Rightarrow> (Inl err, deferred_failure env pre err)
           | Inr acc \<Rightarrow> submit_commit env pre acc))"

subsection \<open>FinalizeOffchainTx\<close>

definition submitted_checkpoint :: "('k, 'c, 't) submit_env \<Rightarrow> string \<Rightarrow> ArkPsbt gomap \<Rightarrow> ArkPsbt gomap arkres" where
  "submitted_checkpoint env b64 submittedCheckpoints =
     rbind (with_new INVALID_CHECKPOINT_PSBT ''malformed checkpoint psbt'' (env_parse env b64)) (\<lambda>checkpointPtx.
     rbind (with_code INVALID_CHECKPOINT_PSBT (env_CheckTransactionSanity env checkpointPtx)) (\<lambda>_.
     let checkpointTxid = TxID (env_lib env) checkpointPtx in
     guard_err (map_of submittedCheckpoints checkpointTxid \<noteq> None) (Code_New INVALID_CHECKPOINT_PSBT ''duplicate checkpoint tx'')
       (Inr (AList.update checkpointTxid checkpointPtx submittedCheckpoints))))"

text \<open>Only the signatures of the submitted checkpoint are taken.\<close>

definition merge_checkpoint :: "('k, 'c, 't) submit_env \<Rightarrow> OffchainTx \<Rightarrow> string \<times> ArkPsbt \<Rightarrow> string arkres" where
  "merge_checkpoint env offchainTx = (\<lambda>(checkpointTxid, submitted).
     case map_of (ot_CheckpointTxs offchainTx) checkpointTxid of
       None \<Rightarrow> Inl (Code_New INVALID_CHECKPOINT_PSBT ''unexpected checkpoint tx'')
     | Some stored \<Rightarrow>
         rbind (with_code INTERNAL_ERROR (env_parse env stored)) (\<lambda>checkpoint.
           let input0 = (ap_Inputs checkpoint ! 0)\<lparr>pin_TaprootScriptSpendSig := pin_TaprootScriptSpendSig (ap_Inputs submitted ! 0)\<rparr>
           in with_code INTERNAL_ERROR (env_B64Encode env (checkpoint\<lparr>ap_Inputs := (ap_Inputs checkpoint)[0 := input0]\<rparr>))))"

text \<open>The events that it saves, and whether it releases the finalization lock.\<close>

record finalize_effects =
  fe_saved :: "Event list option"
  fe_unlocked :: bool

definition finalize_locked ::
    "('k, 'c, 't) submit_env \<Rightarrow> string \<Rightarrow> ArkPsbt gomap \<Rightarrow> unit arkres \<times> finalize_effects" where
  "finalize_locked env txid submittedCheckpoints =
     (let abort = (\<lambda>e. (Inl e, \<lparr>fe_saved = None, fe_unlocked = True\<rparr>));
          fetched = (case env_cache_Get env txid of
            Inl _ \<Rightarrow> Inl (Code_New INTERNAL_ERROR ''something went wrong'')
          | Inr (Some tx) \<Rightarrow> Inr tx
          | Inr None \<Rightarrow> with_new TX_NOT_FOUND ''offchain tx not found'' (env_GetOffchainTx env txid)) in
      case fetched of
        Inl e \<Rightarrow> abort e
      | Inr offchainTx \<Rightarrow>
          if OffchainTx_IsFinalized offchainTx then (Inr (), \<lparr>fe_saved = None, fe_unlocked = True\<rparr>)
          else
            (case guard_err (map_len submittedCheckpoints \<noteq> map_len (ot_CheckpointTxs offchainTx))
                    (Code_New INVALID_CHECKPOINT_PSBT ''invalid number of checkpoint txs'')
                    (map_res (merge_checkpoint env offchainTx) submittedCheckpoints) of
               Inl e \<Rightarrow> abort e
             | Inr checkpoints \<Rightarrow>
                 (case finalizeOffchainTx env offchainTx checkpoints of
                    Inl err \<Rightarrow>
                      (Inl err, \<lparr>fe_saved = saved env [snd (OffchainTx_Fail (unix_secs (env_Now_again env))
                                   (error_text (ae_Cause err)) offchainTx)], fe_unlocked = True\<rparr>)
                  | Inr (_, change) \<Rightarrow>
                      (case env_Save env of
                         Inl _ \<Rightarrow> abort (Code_New INTERNAL_ERROR ''something went wrong'')
                       | Inr _ \<Rightarrow> (Inr (), \<lparr>fe_saved = Some [change], fe_unlocked = False\<rparr>)))))"

definition FinalizeOffchainTx ::
    "('k, 'c, 't) submit_env \<Rightarrow> string \<Rightarrow> string list \<Rightarrow> unit arkres \<times> finalize_effects" where
  "FinalizeOffchainTx env txid finalCheckpointTxs =
     (case rbind (scan_all (submitted_checkpoint env) finalCheckpointTxs []) (\<lambda>submittedCheckpoints.
             rbind (with_code INTERNAL_ERROR (env_Settings env)) (\<lambda>_.
             rbind (with_code INTERNAL_ERROR (env_LockFinalization env txid)) (\<lambda>_.
               Inr submittedCheckpoints))) of
        Inl e \<Rightarrow> (Inl e, \<lparr>fe_saved = None, fe_unlocked = False\<rparr>)
      | Inr submittedCheckpoints \<Rightarrow> finalize_locked env txid submittedCheckpoints)"

section \<open>What an accepted submission guarantees\<close>

lemmas code_elims = with_code_def with_new_def map_err_eq_Inr rbind_eq_Inr guard_err_eq_Inr

lemma scan_all_induct:
  assumes "scan_all f xs s = Inr s'" "P 0 s"
    and step: "\<And>i s s'. i < length xs \<Longrightarrow> P i s \<Longrightarrow> f (xs ! i) s = Inr s' \<Longrightarrow> P (Suc i) s'"
  shows "P (length xs) s'"
proof -
  have "scan_all f (drop i xs) s = Inr s' \<Longrightarrow> P i s \<Longrightarrow> i \<le> length xs \<Longrightarrow> P (length xs) s'" for i s
  proof (induction "length xs - i" arbitrary: i s)
    case (Suc n)
    then have i: "i < length xs" by simp
    obtain s1 where "f (xs ! i) s = Inr s1" "scan_all f (drop (Suc i) xs) s1 = Inr s'"
      using Suc.prems(1) i by (auto simp: Cons_nth_drop_Suc [symmetric] rbind_eq_Inr)
    then show ?case using Suc.hyps(1) [of "Suc i" s1] Suc.hyps(2) Suc.prems(2) step [of i s s1] i by auto
  qed (use assms(2) in auto)
  from this [of 0 s] show ?thesis using assms by simp
qed

subsection \<open>Checkpoints\<close>

text \<open>The vtxos that a list of checkpoints spends: the first input of each.\<close>

definition checkpoint_keys :: "('k, 'c, 't) submit_env \<Rightarrow> string list \<Rightarrow> Outpoint list" where
  "checkpoint_keys env txs = map (\<lambda>tx. outpoint_of (env_lib env) (tx_TxIn (psbt_UnsignedTx (projr (env_parse env tx))) ! 0)) txs"

lemma read_checkpoints_keys:
  assumes "read_checkpoints env txs = Inr cs"
  shows "(\<forall>txid p. map_of (cp_psbts cs) txid = Some p \<longrightarrow>
      tx_TxIn (psbt_UnsignedTx p) \<noteq> [] \<and> TxID (env_lib env) p = txid \<and> (\<exists>c \<in> set txs. env_parse env c = Inr p)) \<and>
    distinct (cp_keys cs) \<and> cp_keys cs = checkpoint_keys env txs \<and> set (cp_keys cs) = fst ` set (cp_byVtxo cs)"
proof -
  let ?P = "\<lambda>i cs. (\<forall>txid p. map_of (cp_psbts cs) txid = Some p \<longrightarrow>
      tx_TxIn (psbt_UnsignedTx p) \<noteq> [] \<and> TxID (env_lib env) p = txid \<and> (\<exists>c \<in> set (take i txs). env_parse env c = Inr p)) \<and>
    distinct (cp_keys cs) \<and> cp_keys cs = checkpoint_keys env (take i txs) \<and> set (cp_keys cs) = fst ` set (cp_byVtxo cs)"
  have "?P (length txs) cs"
  proof (rule scan_all_induct [OF assms [unfolded read_checkpoints_def], of ?P])
    fix i s s' assume i: "i < length txs" and P: "?P i s" and f: "add_checkpoint env (txs ! i) s = Inr s'"
    obtain p where q: "env_parse env (txs ! i) = Inr p" "env_CheckTransactionSanity env p = Inr ()"
      using f by (auto simp: add_checkpoint_def code_elims)
    obtain in0 r where ins: "tx_TxIn (psbt_UnsignedTx p) = in0 # r"
      using f q by (cases "tx_TxIn (psbt_UnsignedTx p)") (auto simp: add_checkpoint_def with_code_def Let_def)
    have p: "map_of (cp_byVtxo s) (outpoint_of (env_lib env) in0) = None"
      "cp_psbts s' = AList.update (TxID (env_lib env) p) p (cp_psbts s)"
      "cp_byVtxo s' = AList.update (outpoint_of (env_lib env) in0) (TxID (env_lib env) p) (cp_byVtxo s)"
      "cp_keys s' = cp_keys s @ [outpoint_of (env_lib env) in0]"
      using f q ins by (auto simp: add_checkpoint_def with_code_def Let_def guard_err_eq_Inr)
    have t: "take (Suc i) txs = take i txs @ [txs ! i]" using i by (rule take_Suc_conv_app_nth)
    have "checkpoint_keys env (take (Suc i) txs) = checkpoint_keys env (take i txs) @ [outpoint_of (env_lib env) in0]"
      unfolding t by (simp add: checkpoint_keys_def q ins)
    then have ks: "cp_keys s' = checkpoint_keys env (take (Suc i) txs)" using P p(4) by simp
    have sk: "set (cp_keys s) = fst ` set (cp_byVtxo s)" using P by blast
    have "outpoint_of (env_lib env) in0 \<notin> set (cp_keys s)" unfolding sk using p(1) by (simp add: map_of_eq_None_iff)
    moreover have dk: "distinct (cp_keys s)" using P by blast
    ultimately have "distinct (cp_keys s')" unfolding p(4) by simp
    moreover have "cp_keys s' = checkpoint_keys env (take (Suc i) txs)" by (rule ks)
    moreover have "fst ` set (cp_byVtxo s') = insert (outpoint_of (env_lib env) in0) (fst ` set (cp_byVtxo s))"
      using p(3) by (simp add: dom_update)
    moreover have "\<forall>txid p'. map_of (cp_psbts s') txid = Some p' \<longrightarrow>
        tx_TxIn (psbt_UnsignedTx p') \<noteq> [] \<and> TxID (env_lib env) p' = txid \<and> (\<exists>c \<in> set (take (Suc i) txs). env_parse env c = Inr p')"
      using P q(1) ins unfolding t p(2) by (auto simp: update_conv')
    moreover have "set (cp_keys s') = insert (outpoint_of (env_lib env) in0) (fst ` set (cp_byVtxo s))" using sk p(4) by simp
    ultimately show "?P (Suc i) s'" by (intro conjI) simp_all
  qed (simp add: no_checkpoints_def checkpoint_keys_def)
  then show ?thesis unfolding take_all [OF order_refl] .
qed

subsection \<open>Inputs\<close>

text \<open>A vtxo that may be spent at a time.\<close>

definition live :: "int \<Rightarrow> Vtxo \<Rightarrow> bool" where
  "live now v \<longleftrightarrow> \<not> vtxo_Spent v \<and> \<not> vtxo_Unrolled v \<and> \<not> vtxo_Swept v \<and> \<not> Vtxo_IsExpired now v"

lemma spendable_iff: "spendable now v = Inr () \<longleftrightarrow> live now v"
  by (auto simp: spendable_def live_def guard_err_eq_Inr)

text \<open>An input of the ark transaction that spends a checkpoint of a live vtxo.\<close>

definition spends_vtxo ::
    "('k, 'c, 't) submit_env \<Rightarrow> 'k preflight \<Rightarrow> TxIn \<Rightarrow> Vtxo \<Rightarrow> 'c VtxoInput \<Rightarrow> bool" where
  "spends_vtxo env pre txin v vi \<longleftrightarrow>
     (\<exists>p. map_of (cp_psbts (pre_checkpoints pre)) (ol_HashString (env_lib env) (op_Hash (in_PreviousOutPoint txin))) = Some p \<and>
        vi_Outpoint vi = in_PreviousOutPoint (tx_TxIn (psbt_UnsignedTx p) ! 0) \<and>
        vtxo_Outpoint v = outpoint_of (env_lib env) (tx_TxIn (psbt_UnsignedTx p) ! 0)) \<and>
     vi_Amount vi = vtxo_Amount v \<and> live (env_Now env) v \<and> \<not> Vtxo_IsNote v"

lemma check_input_facts:
  assumes "check_input env pre (i, txin) s = Inr s'"
    and keyed: "\<forall>k v. map_of (isc_indexedSpentVtxos s) k = Some v \<longrightarrow> vtxo_Outpoint v = k"
  shows "\<exists>v vi. spends_vtxo env pre txin v vi \<and> map_of (isc_indexedSpentVtxos s) (vtxo_Outpoint v) = Some v \<and>
    isc_indexedSpentVtxos s' = AList.delete (vtxo_Outpoint v) (isc_indexedSpentVtxos s) \<and> isc_ins s' = isc_ins s @ [vi]"
proof -
  let ?lib = "env_lib env"
  obtain p where p: "map_of (cp_psbts (pre_checkpoints pre)) (ol_HashString ?lib (op_Hash (in_PreviousOutPoint txin))) = Some p"
    using assms(1) by (auto simp: check_input_def Let_def split: option.split_asm)
  let ?op = "outpoint_of ?lib (tx_TxIn (psbt_UnsignedTx p) ! 0)"
  obtain w lf taptree vs where r: "revealed_input env p = Inr (w, lf, taptree, vs)"
    using assms(1) p by (auto simp: check_input_def Let_def rbind_eq_Inr)
  obtain v where v: "map_of (isc_indexedSpentVtxos s) ?op = Some v"
    using assms(1) p r by (auto simp: check_input_def Let_def split: option.split_asm)
  obtain m k c where run: "spendable (env_Now env) v = Inr ()" "\<not> Vtxo_IsNote v"
    "s' = \<lparr>isc_minAllowedExitDelay = m, isc_indexedSpentVtxos = AList.delete ?op (isc_indexedSpentVtxos s),
       isc_assetInputs = k, isc_ins = isc_ins s @ [\<lparr>vi_Outpoint = in_PreviousOutPoint (tx_TxIn (psbt_UnsignedTx p) ! 0), vi_Amount = vtxo_Amount v,
          vi_Tapscript = \<lparr>tsc_ControlBlock = c, tsc_RevealedScript = tls_Script lf\<rparr>, vi_RevealedTapscripts = taptree\<rparr>]\<rparr>"
    using assms(1) p r v by (auto simp: check_input_def Let_def rbind_eq_Inr guard_err_eq_Inr)
  have "vtxo_Outpoint v = ?op" using keyed v by blast
  then show ?thesis using p v run by (auto simp: spends_vtxo_def spendable_iff)
qed

lemma index_vtxos_keyed: "map_of (index_vtxos vs) k = Some v \<Longrightarrow> vtxo_Outpoint v = k \<and> v \<in> set vs"
proof -
  have "map_of (fold (\<lambda>v. AList.update (vtxo_Outpoint v) v) vs m) k = Some v \<Longrightarrow>
      (vtxo_Outpoint v = k \<and> v \<in> set vs) \<or> map_of m k = Some v" for m
  proof (induction vs arbitrary: m)
    case (Cons x xs)
    from Cons.IH [OF Cons.prems [unfolded fold_simps]] show ?case by (auto simp: update_conv' split: if_splits)
  qed simp
  from this [of "[]"] show "map_of (index_vtxos vs) k = Some v \<Longrightarrow> vtxo_Outpoint v = k \<and> v \<in> set vs"
    by (simp add: index_vtxos_def)
qed

lemma check_inputs_facts:
  assumes "check_inputs env pre = Inr scan"
  shows "\<exists>vs. length vs = length (tx_TxIn (psbt_UnsignedTx (pre_ark pre))) \<and> distinct (map vtxo_Outpoint vs) \<and>
    set vs \<subseteq> set (pre_vtxos pre) \<and> length (isc_ins scan) = length vs \<and>
    (\<forall>i < length vs. spends_vtxo env pre (tx_TxIn (psbt_UnsignedTx (pre_ark pre)) ! i) (vs ! i) (isc_ins scan ! i))"
proof -
  let ?ins = "tx_TxIn (psbt_UnsignedTx (pre_ark pre))" and ?idx = "map_of (index_vtxos (pre_vtxos pre))"
  let ?P = "\<lambda>n s. \<exists>vs. length vs = n \<and> distinct (map vtxo_Outpoint vs) \<and> set vs \<subseteq> set (pre_vtxos pre) \<and>
    length (isc_ins s) = n \<and> (\<forall>i < n. spends_vtxo env pre (?ins ! i) (vs ! i) (isc_ins s ! i)) \<and>
    (\<forall>k v. map_of (isc_indexedSpentVtxos s) k = Some v \<longrightarrow> ?idx k = Some v \<and> k \<notin> vtxo_Outpoint ` set vs)"
  have "?P (length (List.enumerate 0 ?ins)) scan"
  proof (rule scan_all_induct [OF assms [unfolded check_inputs_def], of ?P])
    fix n s s' assume n: "n < length (List.enumerate 0 ?ins)" and P: "?P n s"
      and f: "check_input env pre (List.enumerate 0 ?ins ! n) s = Inr s'"
    obtain vs where vs: "length vs = n" "distinct (map vtxo_Outpoint vs)" "set vs \<subseteq> set (pre_vtxos pre)"
      "length (isc_ins s) = n" "\<forall>i < n. spends_vtxo env pre (?ins ! i) (vs ! i) (isc_ins s ! i)"
      "\<forall>k v. map_of (isc_indexedSpentVtxos s) k = Some v \<longrightarrow> ?idx k = Some v \<and> k \<notin> vtxo_Outpoint ` set vs"
      using P by blast
    have keyed: "\<forall>k v. map_of (isc_indexedSpentVtxos s) k = Some v \<longrightarrow> vtxo_Outpoint v = k" using vs(6) index_vtxos_keyed by blast
    obtain v vi where new: "spends_vtxo env pre (?ins ! n) v vi" "map_of (isc_indexedSpentVtxos s) (vtxo_Outpoint v) = Some v"
      "isc_indexedSpentVtxos s' = AList.delete (vtxo_Outpoint v) (isc_indexedSpentVtxos s)" "isc_ins s' = isc_ins s @ [vi]"
    proof -
      have "check_input env pre (n, ?ins ! n) s = Inr s'" using f n by (simp add: nth_enumerate_eq)
      from check_input_facts [OF this keyed] show thesis using that by blast
    qed
    have "?idx (vtxo_Outpoint v) = Some v" "vtxo_Outpoint v \<notin> vtxo_Outpoint ` set vs" using vs(6) new(2) by blast+
    moreover from this have "v \<in> set (pre_vtxos pre)" using index_vtxos_keyed by blast
    ultimately show "?P (Suc n) s'"
      using vs new by (intro exI [of _ "vs @ [v]"]) (auto simp: nth_append less_Suc_eq delete_conv')
  qed (auto dest: index_vtxos_keyed)
  then show ?thesis by auto
qed

subsection \<open>Values\<close>

lemma read_ark_tx_facts:
  assumes "read_ark_tx env tx = Inr ark"
  shows "env_parse env tx = Inr ark"
    "sum_list (map (out_Value \<circ> the \<circ> pin_WitnessUtxo) (ap_Inputs ark)) = sum_list (map out_Value (tx_TxOut (psbt_UnsignedTx ark)))"
proof -
  obtain vals where v: "env_parse env tx = Inr ark" "map_res (\<lambda>input. case pin_WitnessUtxo input of
      None \<Rightarrow> Inl (Code_New INVALID_ARK_PSBT ''missing witness utxo for input'') | Some utxo \<Rightarrow> Inr (out_Value utxo)) (ap_Inputs ark) = Inr vals"
    "sum_list vals = sum_list (map out_Value (tx_TxOut (psbt_UnsignedTx ark)))"
    using assms by (auto simp: read_ark_tx_def code_elims)
  have "vals = map (out_Value \<circ> the \<circ> pin_WitnessUtxo) (ap_Inputs ark)"
    using v(2) unfolding map_res_eq_Inr
    by (induction rule: list_all2_induct) (auto split: option.split_asm)
  then show "env_parse env tx = Inr ark"
    "sum_list (map (out_Value \<circ> the \<circ> pin_WitnessUtxo) (ap_Inputs ark)) = sum_list (map out_Value (tx_TxOut (psbt_UnsignedTx ark)))"
    using v by auto
qed

lemma same_input_value:
  assumes "same_input a b = Inr ()" "pin_WitnessUtxo b = Some u"
  shows "pin_WitnessUtxo a = Some u"
proof -
  obtain w where w: "pin_WitnessUtxo a = Some w" "out_Value w = out_Value u" "out_PkScript w = out_PkScript u"
    using assms by (auto simp: same_input_def guard_err_eq_Inr split: option.split_asm list.split_asm)
  then have "w = u" by (cases w; cases u) simp
  then show ?thesis using w by simp
qed

lemma rebuild_txs_facts:
  assumes "rebuild_txs env pre ins outputs = Inr r" "offchain_law (env_lib env)" "i < length ins"
  shows "\<exists>script. pin_WitnessUtxo (ap_Inputs (pre_ark pre) ! i) = Some \<lparr>out_Value = vi_Amount (ins ! i), out_PkScript = script\<rparr>"
proof -
  obtain ark cps where b: "buildTxs (env_lib env) ins outputs (pst_CheckpointTapscript (pre_settings pre)) True = Inr (ark, cps)"
    and s: "\<forall>x \<in> set (List.enumerate 0 (ap_Inputs ark)). (case x of (i, rebuiltIn) \<Rightarrow> same_input (ap_Inputs (pre_ark pre) ! i) rebuiltIn) = Inr ()"
    using assms(1) by (auto simp: rebuild_txs_def code_elims BuildTxsWithFee_def Let_def check_all_eq_Inr)
  note f = buildTxs_facts [OF assms(2) b]
  obtain script where w: "pin_WitnessUtxo (ap_Inputs ark ! i) = Some \<lparr>out_Value = vi_Amount (ins ! i), out_PkScript = script\<rparr>"
    using f assms(3) by blast
  have "(i, ap_Inputs ark ! i) \<in> set (List.enumerate 0 (ap_Inputs ark))" using f assms(3) by (simp add: in_set_enumerate_eq)
  then have "same_input (ap_Inputs (pre_ark pre) ! i) (ap_Inputs ark ! i) = Inr ()" using s by fastforce
  from same_input_value [OF this w] show ?thesis by blast
qed

lemma preflight_facts:
  assumes "submit_preflight env cps tx = Inr pre"
  shows "read_ark_tx env tx = Inr (pre_ark pre)" "read_checkpoints env cps = Inr (pre_checkpoints pre)"
    "env_GetVtxos env (cp_keys (pre_checkpoints pre)) = Inr (pre_vtxos pre)"
    "env_Settings env = Inr (pre_settings pre)" "pre_txid pre = TxID (env_lib env) (pre_ark pre)"
    "Request (unix_secs (env_Now env)) (pre_txid pre) tx (cp_txs (pre_checkpoints pre)) NewOffchainTx = Inr (pre_offchainTx pre, pre_event pre)"
    "refuse_banned env (set_BanThreshold (pst_Settings (pre_settings pre))) (pre_vtxos pre) = Inr ()"
    "env_offchain_IncludesAny env (cp_keys (pre_checkpoints pre)) = Inr []"
    "env_intents_IncludesAny env (cp_keys (pre_checkpoints pre)) = Inr []"
  using assms by (auto simp: submit_preflight_def code_elims Let_def fetch_vtxos_def refuse_any_def)

text \<open>The parts of the checks after the request.\<close>

lemma submit_checks_facts:
  assumes "submit_checks env tx pre = Inr acc"
  obtains scan outputs ext r dust where "check_inputs env pre = Inr scan" "env_GetDustAmount env = Inr dust"
    "validateOffchainTxOutputs (ol_tap (env_lib env)) (env_tokenizer env) (tx_TxOut (psbt_UnsignedTx (pre_ark pre))) dust
       (set_VtxoMaxAmount (pst_Settings (pre_settings pre))) (set_VtxoMinAmount (pst_Settings (pre_settings pre)))
       (sint (set_MaxOpReturnOutputs (pst_Settings (pre_settings pre)))) = Inr (outputs, ext)"
    "rebuild_txs env pre (isc_ins scan) outputs = Inr r" "check_signature env tx = Inr ()"
    "recheck_vtxos env (cp_keys (pre_checkpoints pre)) = Inr ()"
  using assms by (auto simp: submit_checks_def code_elims Let_def case_prod_beta)

lemma recheck_vtxos_facts:
  assumes "recheck_vtxos env keys = Inr ()"
  shows "env_offchain_IncludesAny_again env keys = Inr [] \<and> env_intents_IncludesAny_again env keys = Inr [] \<and>
    (\<exists>fresh. env_GetVtxos_again env keys = Inr fresh \<and> length fresh = length keys \<and> (\<forall>v \<in> set fresh. live (env_Now_again env) v))"
  using assms by (auto simp: recheck_vtxos_def code_elims refuse_any_def fetch_vtxos_def check_all_eq_Inr spendable_iff)

text \<open>What the code relies on in the parser: one PSBT input for each input of the transaction.\<close>

definition psbt_law :: "('k, 'c, 't) submit_env \<Rightarrow> bool" where
  "psbt_law env \<longleftrightarrow> (\<forall>tx p. env_parse env tx = Inr p \<longrightarrow> length (ap_Inputs p) = length (tx_TxIn (psbt_UnsignedTx p)))"

text \<open>C2: an accepted offchain transaction spends what it says, once, and creates no value: every input spends
  one of the submitted checkpoints, and that checkpoint spends a vtxo of the database which no other input spends and which was
  neither spent, unrolled, swept, expired nor a note; the output that the input declares to spend, and so what the signatures commit
  to, has the amount of that vtxo; the outputs are worth exactly those vtxos together. The vtxos were asked for
  by the first inputs of the checkpoints; when the lock is held, none of these is taken by another transaction or by an
  intent, and reading them a second time finds them all spendable again.\<close>

theorem accepted_submission_conserves_value:
  assumes "offchain_law (env_lib env)" "psbt_law env"
    and "SubmitOffchainTx env cps tx = (Inr res, eff)"
  shows "\<exists>ark vs found fresh. env_parse env tx = Inr ark \<and>
    length vs = length (tx_TxIn (psbt_UnsignedTx ark)) \<and> distinct (map vtxo_Outpoint vs) \<and>
    env_GetVtxos env (checkpoint_keys env cps) = Inr found \<and> set vs \<subseteq> set found \<and>
    (\<forall>i < length vs. live (env_Now env) (vs ! i) \<and> \<not> Vtxo_IsNote (vs ! i) \<and>
       (\<exists>c \<in> set cps. \<exists>p. env_parse env c = Inr p \<and>
          TxID (env_lib env) p = ol_HashString (env_lib env) (op_Hash (in_PreviousOutPoint (tx_TxIn (psbt_UnsignedTx ark) ! i))) \<and>
          vtxo_Outpoint (vs ! i) = outpoint_of (env_lib env) (tx_TxIn (psbt_UnsignedTx p) ! 0)) \<and>
       (\<exists>script. pin_WitnessUtxo (ap_Inputs ark ! i) = Some \<lparr>out_Value = vtxo_Amount (vs ! i), out_PkScript = script\<rparr>)) \<and>
    sum_list (map out_Value (tx_TxOut (psbt_UnsignedTx ark))) = sum_list (map vtxo_Amount vs) \<and>
    env_offchain_IncludesAny_again env (checkpoint_keys env cps) = Inr [] \<and>
    env_intents_IncludesAny_again env (checkpoint_keys env cps) = Inr [] \<and>
    env_GetVtxos_again env (checkpoint_keys env cps) = Inr fresh \<and>
    length fresh = length cps \<and> (\<forall>v \<in> set fresh. live (env_Now_again env) v)"
proof -
  obtain pre acc where pre: "submit_preflight env cps tx = Inr pre" and acc: "submit_checks env tx pre = Inr acc"
    using assms(3) by (auto simp: SubmitOffchainTx_def split: sum.split_asm)
  note p = preflight_facts [OF pre]
  let ?ark = "pre_ark pre" and ?keys = "cp_keys (pre_checkpoints pre)"
  obtain scan outputs ext r dust where c: "check_inputs env pre = Inr scan"
    "rebuild_txs env pre (isc_ins scan) outputs = Inr r" "recheck_vtxos env ?keys = Inr ()"
    using submit_checks_facts [OF acc] by metis
  obtain vs where vs: "length vs = length (tx_TxIn (psbt_UnsignedTx ?ark))" "distinct (map vtxo_Outpoint vs)"
    "set vs \<subseteq> set (pre_vtxos pre)" "length (isc_ins scan) = length vs"
    "\<forall>i < length vs. spends_vtxo env pre (tx_TxIn (psbt_UnsignedTx ?ark) ! i) (vs ! i) (isc_ins scan ! i)"
    using check_inputs_facts [OF c(1)] by blast
  note ark = read_ark_tx_facts [OF p(1)] and cp = read_checkpoints_keys [OF p(2)]
  have keys: "?keys = checkpoint_keys env cps" using cp by blast
  have len: "length (ap_Inputs ?ark) = length vs" using assms(2) ark(1) vs(1) by (simp add: psbt_law_def)
  have utxo: "\<exists>script. pin_WitnessUtxo (ap_Inputs ?ark ! i) = Some \<lparr>out_Value = vtxo_Amount (vs ! i), out_PkScript = script\<rparr>"
    if "i < length vs" for i
    using rebuild_txs_facts [OF c(2) assms(1), of i] vs(4,5) that by (auto simp: spends_vtxo_def)
  have "map (out_Value \<circ> the \<circ> pin_WitnessUtxo) (ap_Inputs ?ark) = map vtxo_Amount vs"
  proof (rule nth_equalityI)
    fix i assume "i < length (map (out_Value \<circ> the \<circ> pin_WitnessUtxo) (ap_Inputs ?ark))"
    then show "map (out_Value \<circ> the \<circ> pin_WitnessUtxo) (ap_Inputs ?ark) ! i = map vtxo_Amount vs ! i"
      using utxo [of i] len by auto
  qed (use len in simp)
  then have "sum_list (map out_Value (tx_TxOut (psbt_UnsignedTx ?ark))) = sum_list (map vtxo_Amount vs)" using ark(2) by simp
  moreover have "\<exists>c \<in> set cps. \<exists>p. env_parse env c = Inr p \<and>
      TxID (env_lib env) p = ol_HashString (env_lib env) (op_Hash (in_PreviousOutPoint (tx_TxIn (psbt_UnsignedTx ?ark) ! i))) \<and>
      vtxo_Outpoint (vs ! i) = outpoint_of (env_lib env) (tx_TxIn (psbt_UnsignedTx p) ! 0)" if i: "i < length vs" for i
  proof -
    obtain p where "map_of (cp_psbts (pre_checkpoints pre)) (ol_HashString (env_lib env) (op_Hash (in_PreviousOutPoint (tx_TxIn (psbt_UnsignedTx ?ark) ! i)))) = Some p"
      "vtxo_Outpoint (vs ! i) = outpoint_of (env_lib env) (tx_TxIn (psbt_UnsignedTx p) ! 0)"
      using vs(5) i by (auto simp: spends_vtxo_def)
    then show ?thesis using conjunct1 [OF cp] by metis
  qed
  moreover have "\<forall>i < length vs. live (env_Now env) (vs ! i) \<and> \<not> Vtxo_IsNote (vs ! i)" using vs(5) by (simp add: spends_vtxo_def)
  moreover have "length (checkpoint_keys env cps) = length cps" by (simp add: checkpoint_keys_def)
  moreover obtain fresh where "env_offchain_IncludesAny_again env (checkpoint_keys env cps) = Inr []"
    "env_intents_IncludesAny_again env (checkpoint_keys env cps) = Inr []" "env_GetVtxos_again env (checkpoint_keys env cps) = Inr fresh"
    "length fresh = length (checkpoint_keys env cps)" "\<forall>v \<in> set fresh. live (env_Now_again env) v"
    using recheck_vtxos_facts [OF c(3)] unfolding keys by blast
  ultimately show ?thesis using ark(1) vs(1-3) p(3) utxo unfolding keys
    by (intro exI [of _ ?ark] exI [of _ vs] exI [of _ "pre_vtxos pre"] exI [of _ fresh]) auto
qed

section \<open>A concrete submission\<close>

text \<open>A vtxo of a thousand satoshis, whose only closure lets its owner and the signer spend it after block 500, pays one output.\<close>

definition sample_k1 :: u8 where "sample_k1 = sum_list sample_cltv_script"
definition sample_k2 :: u8 where "sample_k2 = sum_list (sample_csv_script @ sample_cltv_script)"

definition sample_field :: "bytes list \<Rightarrow> psbt_Unknown" where
  "sample_field scripts = projr (co_Encode VtxoTaprootTreeField (map hex_EncodeToString scripts))"

definition sample_p2tr :: "u8 \<Rightarrow> bytes" where
  "sample_p2tr k = OP_1 # 0x20 # replicate 32 k"

definition sample_spend :: "OutPoint \<Rightarrow> u8 \<Rightarrow> bytes list \<Rightarrow> TaprootScriptSpendSig list \<Rightarrow> TxOut list \<Rightarrow> ArkPsbt" where
  "sample_spend op k scripts sigs outs =
     \<lparr>psbt_UnsignedTx = \<lparr>tx_Version = 3, tx_TxIn = [\<lparr>in_PreviousOutPoint = op\<rparr>], tx_TxOut = outs\<rparr>,
      psbt_Unknowns = [[sample_field scripts]], ap_LockTime = 500, ap_Sequences = [cltvSequence],
      ap_Inputs = [\<lparr>pin_WitnessUtxo = Some \<lparr>out_Value = 1000, out_PkScript = sample_p2tr k\<rparr>, pin_TaprootKeySpendSig = [],
        pin_TaprootScriptSpendSig = sigs,
        pin_TaprootLeafScript = [\<lparr>tls_ControlBlock = [0, k], tls_Script = sample_cltv_script, tls_LeafVersion = BaseLeafVersion\<rparr>]\<rparr>],
      ap_TaprootTapTrees = replicate (length outs) []\<rparr>"

definition sample_checkpoint :: ArkPsbt where
  "sample_checkpoint = sample_spend \<lparr>op_Hash = [9], op_Index = 0\<rparr> sample_k1 [sample_cltv_script] []
     [\<lparr>out_Value = 1000, out_PkScript = sample_p2tr sample_k2\<rparr>, AnchorOutput]"

definition sample_payment :: TxOut where
  "sample_payment = \<lparr>out_Value = 1000, out_PkScript = sample_p2tr 9\<rparr>"

definition sample_ark_tx :: "TaprootScriptSpendSig list \<Rightarrow> ArkPsbt" where
  "sample_ark_tx sigs = sample_spend \<lparr>op_Hash = TxHash sample_offchain_lib sample_checkpoint, op_Index = 0\<rparr> sample_k2
     [sample_csv_script, sample_cltv_script] sigs [sample_payment, AnchorOutput]"

definition sample_spent :: "bytes VtxoInput" where
  "sample_spent =
     \<lparr>vi_Outpoint = \<lparr>op_Hash = [9], op_Index = 0\<rparr>, vi_Amount = 1000,
      vi_Tapscript = \<lparr>tsc_ControlBlock = [0, sample_k1], tsc_RevealedScript = sample_cltv_script\<rparr>,
      vi_RevealedTapscripts = [hex_EncodeToString sample_cltv_script]\<rparr>"

lemma sample_field_encoded: "co_Encode VtxoTaprootTreeField (map hex_EncodeToString scripts) = Inr (sample_field scripts)"
  using hex_field_encoded [of scripts] by (auto simp: sample_field_def)

lemma sample_ts [simp]: "ol_tap sample_offchain_lib = sample_taproot_lib" "tp_ts sample_taproot_lib = sample_lib"
  by (simp_all add: sample_offchain_lib_def sample_taproot_lib_def)

lemma sample_pay: "P2TRScript sample_lib k = Inr (sample_p2tr k)"
  using sample_P2TR [of k] by (simp add: sample_tree_lib_def sample_p2tr_def)

lemma sample_control:
  "tp_RootHash sample_taproot_lib [0, k] s = [k]" "tp_ComputeTaprootOutputKey sample_taproot_lib (tp_UnspendableKey sample_taproot_lib) [k] = k"
  "tp_ComputeTaprootOutputKey sample_taproot_lib 0 [k] = k" "tp_UnspendableKey sample_taproot_lib = 0"
  "tp_ToBytes sample_taproot_lib c = Inr c" "tp_ParseControlBlock sample_taproot_lib [0, k] = Inr [0, k]"
  "tp_InternalKey sample_taproot_lib [0, k] = Some 0" "\<not> tp_OutputKeyYIsOdd sample_taproot_lib c"
  "tp_SerializeCompressed sample_taproot_lib k ! 0 \<noteq> 3" "VerifyControlBlockInternalKey sample_taproot_lib [0, k] = Inr ()"
  by (simp_all add: sample_taproot_lib_def VerifyControlBlockInternalKey_def)

lemma sample_spend_built:
  assumes "vi_Amount v = 1000" "vi_Tapscript v = \<lparr>tsc_ControlBlock = [0, k], tsc_RevealedScript = sample_cltv_script\<rparr>"
    "vi_RevealedTapscripts v = map hex_EncodeToString scripts" "scripts \<noteq> []"
  shows "buildArkTx sample_offchain_lib [v] outs = Inr (sample_spend (vi_Outpoint v) k scripts [] (outs @ [AnchorOutput]))"
proof -
  have new: "ol_psbt_New sample_offchain_lib [op] outs 3 l [q] = Inr
     \<lparr>psbt_UnsignedTx = \<lparr>tx_Version = 3, tx_TxIn = [\<lparr>in_PreviousOutPoint = op\<rparr>], tx_TxOut = outs\<rparr>,
         psbt_Unknowns = [[]], ap_LockTime = l, ap_Sequences = [q],
         ap_Inputs = [\<lparr>pin_WitnessUtxo = None, pin_TaprootKeySpendSig = [], pin_TaprootScriptSpendSig = [], pin_TaprootLeafScript = []\<rparr>],
         ap_TaprootTapTrees = replicate (length outs) []\<rparr>" for op outs l q by (simp add: sample_offchain_lib_def)
  have b: "build_input sample_taproot_lib None v = Inr (\<lparr>bi_Outpoint = vi_Outpoint v, bi_Sequence = cltvSequence,
      bi_WitnessUtxo = \<lparr>out_Value = 1000, out_PkScript = sample_p2tr k\<rparr>,
      bi_SigningLeaf = \<lparr>tls_ControlBlock = [0, k], tls_Script = sample_cltv_script, tls_LeafVersion = BaseLeafVersion\<rparr>,
      bi_Tapscripts = map hex_EncodeToString scripts\<rparr>, Some 500)"
    using assms sample_cltv_decoded
    by (simp add: build_input_def sample_control sample_pay Let_def) (simp add: sample_cltv_def)
  show ?thesis
    by (simp add: buildArkTx_def b new SetArkPsbtField_def sample_field_encoded sample_spend_def Let_def)
qed

lemma sample_checkpoint_tree:
  "tap_tree sample_taproot_lib (checkpoint_script sample_csv (CLTVMultisig sample_cltv)) = Inr (sample_k2, [sample_csv_script, sample_cltv_script])"
  using sample_csv_script_made sample_cltv_script_made
  by (simp add: tap_tree_def TapTree_def checkpoint_script_def) (simp add: sample_taproot_lib_def sample_k2_def)

lemma sample_rebuilt:
  "buildTxs sample_offchain_lib [sample_spent] [sample_payment] sample_csv_script True = Inr (sample_ark_tx [], [sample_checkpoint])"
proof -
  have csv: "CSVMultisigClosure_Decode sample_lib sample_csv_script = Inr (Some sample_csv)"
    using sample_csv_script_made
    by (intro csv_script_decodes [OF sample_lib_law])
      (simp_all add: Closure_Script_def wf_CSVMultisigClosure_def wf_MultisigClosure_def sample_csv_def sample_lib_def)
  let ?cl = "checkpoint_script sample_csv (CLTVMultisig sample_cltv)" and ?ls = "[sample_csv_script, sample_cltv_script]"
  have merkle: "GetTaprootMerkleProof sample_taproot_lib ?ls (tp_TapHash sample_taproot_lib sample_cltv_script) = Inr ([0, sample_k2], sample_cltv_script)"
    by (simp add: GetTaprootMerkleProof_def sample_taproot_lib_def sample_k2_def)
  have enc: "TapscriptsVtxoScript_Encode sample_lib ?cl = Inr (map hex_EncodeToString ?ls)"
    using sample_csv_script_made sample_cltv_script_made by (simp add: TapscriptsVtxoScript_Encode_def checkpoint_script_def)
  let ?in = "\<lparr>vi_Outpoint = \<lparr>op_Hash = TxHash sample_offchain_lib sample_checkpoint, op_Index = 0\<rparr>, vi_Amount = 1000,
     vi_Tapscript = \<lparr>tsc_ControlBlock = [0, sample_k2], tsc_RevealedScript = sample_cltv_script\<rparr>, vi_RevealedTapscripts = map hex_EncodeToString ?ls\<rparr>"
  have v: "tsc_RevealedScript (vi_Tapscript sample_spent) = sample_cltv_script" "vi_Amount sample_spent = 1000" "vi_Outpoint sample_spent = \<lparr>op_Hash = [9], op_Index = 0\<rparr>"
    by (simp_all add: sample_spent_def)
  have cp: "buildArkTx sample_offchain_lib [sample_spent] [\<lparr>out_Value = 1000, out_PkScript = sample_p2tr sample_k2\<rparr>] = Inr sample_checkpoint"
    using sample_spend_built [of sample_spent sample_k1 "[sample_cltv_script]"] by (simp add: sample_spent_def sample_checkpoint_def)
  have "buildCheckpointTx sample_offchain_lib sample_csv sample_spent = Inr (sample_checkpoint, ?in)"
    using sample_cltv_decoded unfolding buildCheckpointTx_def Let_def sample_ts v
    by (simp only: rbind_simps sample_checkpoint_tree sample_pay merkle enc prod.case cp sample_control)
  moreover have "buildArkTx sample_offchain_lib [?in] [sample_payment] = Inr (sample_ark_tx [])"
    using sample_spend_built [of ?in sample_k2 ?ls] by (simp add: sample_ark_tx_def)
  moreover have "set_anchor 1 0 (sample_ark_tx []) = sample_ark_tx []"
    by (simp add: set_anchor_def sample_ark_tx_def sample_spend_def AnchorOutput_def ANCHOR_VALUE_def)
  moreover have "out_Value sample_payment = 1000" by (simp add: sample_payment_def)
  ultimately show ?thesis
    by (simp add: buildTxs_def csv v)
qed

definition sample_owned :: Vtxo where
  "sample_owned =
     \<lparr>vtxo_Outpoint = \<lparr>outp_Txid = hex_EncodeToString [9], outp_VOut = 0\<rparr>, vtxo_Amount = 1000, vtxo_PubKey = hex_EncodeToString (replicate 32 sample_k1),
      vtxo_CommitmentTxids = [''c''], vtxo_RootCommitmentTxid = ''c'', vtxo_SettledBy = [], vtxo_SpentBy = [], vtxo_ArkTxid = [],
      vtxo_Spent = False, vtxo_Unrolled = False, vtxo_Swept = False, vtxo_Preconfirmed = False, vtxo_ExpiresAt = 1000, vtxo_CreatedAt = 5,
      vtxo_Depth = 0, vtxo_MarkerIDs = [''m''], vtxo_Assets = []\<rparr>"

definition sample_limits :: Settings where
  "sample_limits =
     (let d = \<lparr>lt_Type = LocktimeTypeBlock, lt_Value = 20\<rparr> in
      \<lparr>set_FinalizationLockTTL = time_Second, set_SessionDuration = time_Second, set_UnrolledVtxoMinExpiryMargin = 0, set_BanThreshold = 3,
       set_BanDuration = time_Second, set_UnilateralExitDelay = d, set_PublicUnilateralExitDelay = d, set_CheckpointExitDelay = d,
       set_BoardingExitDelay = d, set_VtxoTreeExpiry = d, set_RoundMinParticipantsCount = 1, set_RoundMaxParticipantsCount = 128,
       set_VtxoMinAmount = 1, set_VtxoMaxAmount = -1, set_UtxoMinAmount = 1, set_UtxoMaxAmount = -1, set_SettlementMinExpiryGap = 0,
       set_VtxoNoCsvValidationCutoffDate = 0, set_MaxTxWeight = 40000, set_MaxOpReturnOutputs = 3, set_AssetTxMaxWeightRatio = FNum (1 / 2),
       set_NoteUriPrefix = [], set_ScheduledSession = None,
       set_BatchFees = \<lparr>bf_OnchainInputFee = [], bf_OffchainInputFee = [], bf_OnchainOutputFee = [], bf_OffchainOutputFee = []\<rparr>,
       set_BuildVersionHeader = [], set_BuildVersionHeaderRequired = False, set_DigestHeaderRequired = False, set_BatchTrigger = [], set_UpdatedAt = 0\<rparr>)"

definition sample_port_settings :: "u8 PortSettings" where
  "sample_port_settings =
     \<lparr>pst_Settings = sample_limits, pst_SignerPubkey = 7, pst_DeprecatedSignerPubkeys = [], pst_CheckpointTapscript = sample_csv_script\<rparr>"

text \<open>The parser knows four transactions, two of them with the signature of the signer, which is left out.\<close>

definition sample_parse :: "string \<Rightarrow> ArkPsbt gores" where
  "sample_parse tx =
     (if tx = ''ark'' \<or> tx = ''ark+'' then Inr (sample_ark_tx [sample_sig 5 sample_cltv_script])
      else if tx = ''cp'' \<or> tx = ''cp+'' then Inr sample_checkpoint else Inl (Errorf ''malformed psbt''))"

definition sample_submit_env :: "(u8, bytes, bytes list) submit_env" where
  "sample_submit_env =
     \<lparr>env_lib = sample_offchain_lib, env_parse = sample_parse, env_B64Encode = (\<lambda>_. Inr ''cp''), env_CheckTransactionSanity = (\<lambda>_. Inr ()),
      env_tokenizer = (\<lambda>_. []), env_NewHashFromStr = (\<lambda>_. Inr (replicate 32 1)), env_Settings = Inr sample_port_settings, env_MaxAssets = 0,
      env_GetOffchainTx = (\<lambda>_. Inl (Errorf ''not found'')), env_GetVtxos = (\<lambda>_. Inr [sample_owned]), env_GetVtxos_again = (\<lambda>_. Inr [sample_owned]),
      env_GetVtxos_finalize = (\<lambda>_. Inr [sample_owned]), env_convictions = [], env_convictions_fault = None,
      env_offchain_IncludesAny = (\<lambda>_. Inr []), env_offchain_IncludesAny_again = (\<lambda>_. Inr []),
      env_intents_IncludesAny = (\<lambda>_. Inr []), env_intents_IncludesAny_again = (\<lambda>_. Inr []),
      env_Now = 10 * time_Second, env_Now_again = 11 * time_Second, env_GetCurrentBlockTime = Inr \<lparr>bt_Height = 600, bt_Time = 10\<rparr>,
      env_GetDustAmount = Inr 330, env_assets = sample_repo, env_SignTransaction = (\<lambda>tx. Inr (tx @ ''+'')),
      env_ExtractFinalizedTx = (\<lambda>_. Inr ''00''), env_Deserialize = (\<lambda>_. Inr (100, 150)), env_GetPubkey = Inr 7, env_GetDeprecatedPubkeys = Inr [],
      env_add_tries = [(\<lparr>os_txs = Map.empty, os_inputs = {}\<rparr>, None)], env_remove_tries = [], env_cache_Get = (\<lambda>_. Inr None),
      env_LockFinalization = (\<lambda>_. Inr ()), env_Save = Inr ()\<rparr>"

lemma sample_env_simps [simp]:
  "env_lib sample_submit_env = sample_offchain_lib" "env_parse sample_submit_env = sample_parse" "env_B64Encode sample_submit_env p = Inr ''cp''"
  "env_CheckTransactionSanity sample_submit_env p = Inr ()" "env_tokenizer sample_submit_env = (\<lambda>_. [])"
  "env_Settings sample_submit_env = Inr sample_port_settings" "env_GetOffchainTx sample_submit_env t = Inl (Errorf ''not found'')"
  "env_GetVtxos sample_submit_env ks = Inr [sample_owned]" "env_GetVtxos_again sample_submit_env ks = Inr [sample_owned]"
  "env_convictions sample_submit_env = []" "env_convictions_fault sample_submit_env = None"
  "env_offchain_IncludesAny sample_submit_env ks = Inr []" "env_offchain_IncludesAny_again sample_submit_env ks = Inr []"
  "env_intents_IncludesAny sample_submit_env ks = Inr []" "env_intents_IncludesAny_again sample_submit_env ks = Inr []"
  "env_Now sample_submit_env = 10 * time_Second" "env_Now_again sample_submit_env = 11 * time_Second"
  "env_GetCurrentBlockTime sample_submit_env = Inr \<lparr>bt_Height = 600, bt_Time = 10\<rparr>" "env_GetDustAmount sample_submit_env = Inr 330"
  "env_SignTransaction sample_submit_env tx = Inr (tx @ ''+'')" "env_ExtractFinalizedTx sample_submit_env p = Inr ''00''"
  "env_Deserialize sample_submit_env tx = Inr (100, 150)" "env_GetPubkey sample_submit_env = Inr 7" "env_GetDeprecatedPubkeys sample_submit_env = Inr []"
  "env_add_tries sample_submit_env = [(\<lparr>os_txs = Map.empty, os_inputs = {}\<rparr>, None)]" "env_Save sample_submit_env = Inr ()"
  by (simp_all add: sample_submit_env_def)

lemma sample_parse_simps [simp]:
  "sample_parse ''ark'' = Inr (sample_ark_tx [sample_sig 5 sample_cltv_script])" "sample_parse ''ark+'' = Inr (sample_ark_tx [sample_sig 5 sample_cltv_script])"
  "sample_parse ''cp'' = Inr sample_checkpoint" "sample_parse ''cp+'' = Inr sample_checkpoint"
  by (simp_all add: sample_parse_def)

lemma sample_env_laws: "offchain_law (env_lib sample_submit_env)" "psbt_law sample_submit_env"
  using sample_offchain_law
  by (auto simp: psbt_law_def sample_parse_def sample_ark_tx_def sample_checkpoint_def sample_spend_def split: if_splits)

lemma sample_spend_simps [simp]:
  "psbt_UnsignedTx (sample_spend op k scripts sigs outs) = \<lparr>tx_Version = 3, tx_TxIn = [\<lparr>in_PreviousOutPoint = op\<rparr>], tx_TxOut = outs\<rparr>"
  "ap_Inputs (sample_spend op k scripts sigs outs) = [\<lparr>pin_WitnessUtxo = Some \<lparr>out_Value = 1000, out_PkScript = sample_p2tr k\<rparr>, pin_TaprootKeySpendSig = [],
        pin_TaprootScriptSpendSig = sigs,
        pin_TaprootLeafScript = [\<lparr>tls_ControlBlock = [0, k], tls_Script = sample_cltv_script, tls_LeafVersion = BaseLeafVersion\<rparr>]\<rparr>]"
  "TxHash sample_offchain_lib (sample_spend op k scripts sigs outs) = op_Hash op @ [244]"
  by (simp_all add: sample_spend_def TxHash_def sample_offchain_lib_def)

lemma sample_checkpoint_simps [simp]:
  "psbt_UnsignedTx sample_checkpoint = \<lparr>tx_Version = 3, tx_TxIn = [\<lparr>in_PreviousOutPoint = \<lparr>op_Hash = [9], op_Index = 0\<rparr>\<rparr>],
     tx_TxOut = [\<lparr>out_Value = 1000, out_PkScript = sample_p2tr sample_k2\<rparr>, AnchorOutput]\<rparr>"
  "ap_Inputs sample_checkpoint = [\<lparr>pin_WitnessUtxo = Some \<lparr>out_Value = 1000, out_PkScript = sample_p2tr sample_k1\<rparr>, pin_TaprootKeySpendSig = [],
     pin_TaprootScriptSpendSig = [],
     pin_TaprootLeafScript = [\<lparr>tls_ControlBlock = [0, sample_k1], tls_Script = sample_cltv_script, tls_LeafVersion = BaseLeafVersion\<rparr>]\<rparr>]"
  by (simp_all add: sample_checkpoint_def)

text \<open>The fields of its input: the tapscripts, and no condition witness.\<close>

lemma sample_spend_fields:
  assumes "scripts \<noteq> []" "set scripts \<subseteq> {sample_csv_script, sample_cltv_script}" "length scripts \<le> 2"
  shows "GetArkPsbtFields (sample_spend op k scripts sigs outs) 0 VtxoTaprootTreeField = Inr [map hex_EncodeToString scripts]"
    "input_witness sample_taproot_lib (sample_spend op k scripts sigs outs) 0 = Inr []"
    "GetArkPsbtConditionWitness sample_lib (tp_writeTxWitness sample_taproot_lib) (sample_spend op k scripts sigs outs) 0 = Inr None"
proof -
  have "length sample_csv_script \<le> MaxScriptSize" "length sample_cltv_script \<le> MaxScriptSize" "sample_csv_script \<noteq> []" "sample_cltv_script \<noteq> []"
    by (simp_all add: sample_csv_script_def sample_cltv_script_def sample_multisig_script_def MaxScriptSize_def)
  moreover have "last scripts \<in> {sample_csv_script, sample_cltv_script}" using assms(2) last_in_set [OF assms(1)] by blast
  ultimately have "taptree_readable scripts" using assms by (auto simp: taptree_readable_def)
  then have ok: "taptree_ok (map hex_EncodeToString scripts)" using assms(3) by (auto simp: taptree_ok_def MaxLeaves_def)
  have dec: "co_Decode VtxoTaprootTreeField (sample_field scripts) = Inr (Some (map hex_EncodeToString scripts))"
    using taptree_field.decode_encode [OF ok sample_field_encoded] .
  then show "GetArkPsbtFields (sample_spend op k scripts sigs outs) 0 VtxoTaprootTreeField = Inr [map hex_EncodeToString scripts]"
    by (simp add: GetArkPsbtFields_def sample_spend_def)
  have "\<not> matchesArkPsbtKey (sample_field scripts) ArkFieldConditionWitness 0"
    using keys_apart [OF taptree_field.encode_key [OF sample_field_encoded [of scripts]], where name = ArkFieldConditionWitness and n = 0] by (simp add: field_names)
  then have "GetArkPsbtFields (sample_spend op k scripts sigs outs) 0 (ConditionWitnessField sample_lib (tp_writeTxWitness sample_taproot_lib)) = Inr []"
    by (simp add: GetArkPsbtFields_def sample_spend_def ConditionWitnessField_def)
  then show "GetArkPsbtConditionWitness sample_lib (tp_writeTxWitness sample_taproot_lib) (sample_spend op k scripts sigs outs) 0 = Inr None"
    "input_witness sample_taproot_lib (sample_spend op k scripts sigs outs) 0 = Inr []"
    by (simp_all add: input_witness_def GetArkPsbtConditionWitness_def)
qed

lemma sample_vtxo_closures:
  "ParseVtxoScript sample_lib [hex_EncodeToString sample_cltv_script] = Inr \<lparr>tvs_Closures = [CLTVMultisig sample_cltv]\<rparr>"
  using sample_cltv_decoded by (simp add: ParseVtxoScript_def TapscriptsVtxoScript_Decode_def)

lemma sample_vtxo_tree: "tap_tree sample_taproot_lib \<lparr>tvs_Closures = [CLTVMultisig sample_cltv]\<rparr> = Inr (sample_k1, [sample_cltv_script])"
  using sample_cltv_script_made by (simp add: tap_tree_def TapTree_def) (simp add: sample_taproot_lib_def sample_k1_def)

lemma sample_script_valid:
  "validateVtxoScriptForSigners sample_lib \<lparr>tvs_Closures = [CLTVMultisig sample_cltv]\<rparr> 7 [] now m True = Inr ()"
  by (simp add: validateVtxoScriptForSigners_def acceptedSignerPubkeys_def TapscriptsVtxoScript_Validate_def ForfeitClosures_def ExitClosures_def
      validate_forfeit_def SmallestExitDelay_def Let_def) (simp add: sample_cltv_def sample_csv_def sample_lib_def)

abbreviation sample_cp_id :: string where "sample_cp_id \<equiv> hex_EncodeToString [9, 244]"
abbreviation sample_ark_id :: string where "sample_ark_id \<equiv> hex_EncodeToString [9, 244, 244]"

definition sample_read :: checkpoints where
  "sample_read = \<lparr>cp_txs = [(sample_cp_id, ''cp'')], cp_psbts = [(sample_cp_id, sample_checkpoint)],
     cp_byVtxo = [(vtxo_Outpoint sample_owned, sample_cp_id)], cp_keys = [vtxo_Outpoint sample_owned], cp_oneShot = False\<rparr>"

lemma sample_ids [simp]:
  "TxID sample_offchain_lib sample_checkpoint = sample_cp_id" "TxID sample_offchain_lib (sample_ark_tx sigs) = sample_ark_id"
  "TxHash sample_offchain_lib sample_checkpoint = [9, 244]"
  "ol_HashString sample_offchain_lib = hex_EncodeToString"
  by (simp_all add: TxID_def sample_checkpoint_def sample_ark_tx_def) (simp_all add: sample_offchain_lib_def)

lemma sample_checkpoints_read: "read_checkpoints sample_submit_env [''cp''] = Inr sample_read"
  by (simp add: read_checkpoints_def add_checkpoint_def with_code_def no_checkpoints_def Let_def sample_read_def outpoint_of_def sample_owned_def)

lemma sample_ark_read: "read_ark_tx sample_submit_env ''ark'' = Inr (sample_ark_tx [sample_sig 5 sample_cltv_script])"
  by (simp add: read_ark_tx_def with_code_def) (simp add: sample_ark_tx_def sample_payment_def AnchorOutput_def ANCHOR_VALUE_def)

lemma sample_key_parsed: "ts_ParsePubKey sample_lib (replicate 32 k) = Inr k"
  by (simp add: sample_lib_def)

lemma sample_not_banned: "refuse_banned sample_submit_env 3 [sample_owned] = Inr ()"
proof -
  have "vtxo_script sample_taproot_lib sample_owned = Inr (sample_p2tr sample_k1)"
    by (simp add: vtxo_script_def Vtxo_OutputScript_def Vtxo_TapKey_def sample_owned_def sample_key_parsed sample_pay del: replicate.simps)
  then show ?thesis
    by (simp add: refuse_banned_def checkIfBanned_def with_new_def GetActiveScriptsConvictions_def SelectActiveScriptsConvictions_def
        conv_at_def is_banned_def hasManualBan_def Let_def)
qed

definition sample_requested_tx :: "OffchainTx \<times> Event" where
  "sample_requested_tx = projr (Request 10 sample_ark_id ''ark'' [(sample_cp_id, ''cp'')] NewOffchainTx)"

definition sample_pre :: "u8 preflight" where
  "sample_pre = \<lparr>pre_ark = sample_ark_tx [sample_sig 5 sample_cltv_script], pre_txid = sample_ark_id, pre_settings = sample_port_settings,
     pre_checkpoints = sample_read, pre_vtxos = [sample_owned], pre_offchainTx = fst sample_requested_tx, pre_event = snd sample_requested_tx\<rparr>"

lemma sample_request_made: "Request 10 sample_ark_id ''ark'' [(sample_cp_id, ''cp'')] NewOffchainTx = Inr sample_requested_tx"
  by (simp add: Request_def sample_requested_tx_def NewOffchainTx_def OffchainTx_IsFailed_def empty_Stage_def offchain_stage_defs map_len_def
      hex_EncodeToString_def Let_def)

lemma sample_preflight: "submit_preflight sample_submit_env [''cp''] ''ark'' = Inr sample_pre"
proof -
  have "Contains (error_text (Errorf ''not found'')) ''not found''" by code_simp
  then have dup: "refuse_duplicate sample_submit_env t = Inr ()" for t by (simp add: refuse_duplicate_def)
  have fetch: "fetch_vtxos (env_GetVtxos sample_submit_env) (cp_keys sample_read) = Inr [sample_owned]"
    by (simp add: fetch_vtxos_def with_code_def sample_read_def)
  have ban: "set_BanThreshold (pst_Settings sample_port_settings) = 3" by (simp add: sample_port_settings_def sample_limits_def Let_def)
  have req: "Request (unix_secs (env_Now sample_submit_env)) sample_ark_id ''ark'' (cp_txs sample_read) NewOffchainTx = Inr sample_requested_tx"
    using sample_request_made by (simp add: unix_secs_def time_Second_def sample_read_def)
  show ?thesis
    unfolding submit_preflight_def sample_ark_read rbind_simps Let_def
    by (simp add: sample_checkpoints_read dup fetch ban sample_not_banned refuse_any_def with_new_def with_code_def req sample_pre_def case_prod_beta
        del: sample_env_simps(16))
qed

lemma sample_pre_simps [simp]:
  "pre_ark sample_pre = sample_ark_tx [sample_sig 5 sample_cltv_script]" "pre_txid sample_pre = sample_ark_id" "pre_settings sample_pre = sample_port_settings"
  "pre_checkpoints sample_pre = sample_read" "pre_vtxos sample_pre = [sample_owned]" "pre_offchainTx sample_pre = fst sample_requested_tx"
  "cp_psbts sample_read = [(sample_cp_id, sample_checkpoint)]" "cp_byVtxo sample_read = [(vtxo_Outpoint sample_owned, sample_cp_id)]"
  "cp_keys sample_read = [vtxo_Outpoint sample_owned]" "cp_oneShot sample_read = False"
  "pst_SignerPubkey sample_port_settings = 7" "pst_DeprecatedSignerPubkeys sample_port_settings = []" "pst_Settings sample_port_settings = sample_limits"
  "pst_CheckpointTapscript sample_port_settings = sample_csv_script"
  by (simp_all add: sample_pre_def sample_read_def sample_port_settings_def)

lemma sample_ark_simps [simp]:
  "psbt_UnsignedTx (sample_ark_tx sigs) = \<lparr>tx_Version = 3, tx_TxIn = [\<lparr>in_PreviousOutPoint = \<lparr>op_Hash = [9, 244], op_Index = 0\<rparr>\<rparr>],
     tx_TxOut = [sample_payment, AnchorOutput]\<rparr>"
  "ap_Inputs (sample_ark_tx sigs) = [\<lparr>pin_WitnessUtxo = Some \<lparr>out_Value = 1000, out_PkScript = sample_p2tr sample_k2\<rparr>, pin_TaprootKeySpendSig = [],
     pin_TaprootScriptSpendSig = sigs,
     pin_TaprootLeafScript = [\<lparr>tls_ControlBlock = [0, sample_k2], tls_Script = sample_cltv_script, tls_LeafVersion = BaseLeafVersion\<rparr>]\<rparr>]"
  by (simp_all add: sample_ark_tx_def)

lemma sample_serialize: "ts_SerializePubKey sample_lib k = replicate 32 k"
  by (simp add: sample_lib_def)

lemma sample_vtxo_checks:
  "spendable (10 * time_Second) sample_owned = Inr ()" "spendable (11 * time_Second) sample_owned = Inr ()" "\<not> Vtxo_IsNote sample_owned"
  "check_vtxo_script sample_lib sample_port_settings now m sample_owned \<lparr>tvs_Closures = [CLTVMultisig sample_cltv]\<rparr> = Inr m"
  "check_vtxo_key sample_taproot_lib \<lparr>out_Value = 1000, out_PkScript = sample_p2tr sample_k1\<rparr> sample_owned \<lparr>tvs_Closures = [CLTVMultisig sample_cltv]\<rparr> = Inr sample_k1"
  "check_spending_leaf sample_taproot_lib (Inr \<lparr>bt_Height = 600, bt_Time = 10\<rparr>)
     \<lparr>tls_ControlBlock = [0, sample_k1], tls_Script = sample_cltv_script, tls_LeafVersion = BaseLeafVersion\<rparr> sample_k1 = Inr [0, sample_k1]"
proof -
  show "spendable (10 * time_Second) sample_owned = Inr ()" "spendable (11 * time_Second) sample_owned = Inr ()"
    by (simp_all add: spendable_def sample_owned_def Vtxo_IsExpired_def time_Second_def)
  show "\<not> Vtxo_IsNote sample_owned" by (simp add: Vtxo_IsNote_def sample_owned_def)
  have "AllowCSVBlockType sample_limits" by (simp add: AllowCSVBlockType_def sample_limits_def Let_def)
  moreover have "\<not> vtxo_CreatedAt sample_owned * time_Second < set_VtxoNoCsvValidationCutoffDate sample_limits"
    by (simp add: sample_owned_def sample_limits_def time_Second_def Let_def)
  ultimately show "check_vtxo_script sample_lib sample_port_settings now m sample_owned \<lparr>tvs_Closures = [CLTVMultisig sample_cltv]\<rparr> = Inr m"
    by (simp add: check_vtxo_script_def with_code_def sample_script_valid)
  show "check_vtxo_key sample_taproot_lib \<lparr>out_Value = 1000, out_PkScript = sample_p2tr sample_k1\<rparr> sample_owned \<lparr>tvs_Closures = [CLTVMultisig sample_cltv]\<rparr> = Inr sample_k1"
    by (simp add: check_vtxo_key_def with_new_def sample_vtxo_tree sample_pay sample_owned_def xonly_def sample_serialize sample_key_parsed del: replicate.simps)
  show "check_spending_leaf sample_taproot_lib (Inr \<lparr>bt_Height = 600, bt_Time = 10\<rparr>)
     \<lparr>tls_ControlBlock = [0, sample_k1], tls_Script = sample_cltv_script, tls_LeafVersion = BaseLeafVersion\<rparr> sample_k1 = Inr [0, sample_k1]"
    using sample_cltv_decoded
    by (simp add: check_spending_leaf_def with_code_def with_new_def verifyClosureNotLocked_def sample_control Let_def)
      (simp add: sample_cltv_def AbsoluteLocktime_IsSeconds_def nLocktimeMinSeconds_def)
qed

lemma sample_inputs_checked:
  "\<exists>scan. check_inputs sample_submit_env sample_pre = Inr scan \<and> isc_ins scan = [sample_spent] \<and> isc_assetInputs scan = []"
proof -
  have op: "outpoint_of sample_offchain_lib \<lparr>in_PreviousOutPoint = \<lparr>op_Hash = [9], op_Index = 0\<rparr>\<rparr> = vtxo_Outpoint sample_owned"
    by (simp add: outpoint_of_def sample_owned_def)
  have rev: "revealed_input sample_submit_env sample_checkpoint = Inr (\<lparr>out_Value = 1000, out_PkScript = sample_p2tr sample_k1\<rparr>,
     \<lparr>tls_ControlBlock = [0, sample_k1], tls_Script = sample_cltv_script, tls_LeafVersion = BaseLeafVersion\<rparr>, [hex_EncodeToString sample_cltv_script],
     \<lparr>tvs_Closures = [CLTVMultisig sample_cltv]\<rparr>)"
    using sample_spend_fields(1) [of "[sample_cltv_script]"] sample_vtxo_closures
    by (simp add: revealed_input_def with_new_def sample_checkpoint_def)
  have wit: "check_witnesses sample_taproot_lib sample_checkpoint (sample_ark_tx sigs) 0 = Inr ()" for sigs
    using sample_spend_fields(2) [of "[sample_cltv_script]"] sample_spend_fields(2) [of "[sample_csv_script, sample_cltv_script]"]
    by (simp add: check_witnesses_def with_code_def sample_checkpoint_def sample_ark_tx_def)
  have idx: "index_vtxos [sample_owned] = [(vtxo_Outpoint sample_owned, sample_owned)]" by (simp add: index_vtxos_def)
  have amount: "vtxo_Amount sample_owned = 1000" "vtxo_Assets sample_owned = []" by (simp_all add: sample_owned_def)
  show ?thesis
    by (simp add: check_inputs_def idx check_input_def rev op wit sample_vtxo_checks amount Let_def sample_spent_def)
qed

lemma sample_outputs_valid:
  "validateOffchainTxOutputs sample_taproot_lib (\<lambda>_. []) [sample_payment, AnchorOutput] 330
     (set_VtxoMaxAmount sample_limits) (set_VtxoMinAmount sample_limits) (sint (set_MaxOpReturnOutputs sample_limits)) = Inr ([sample_payment], [])"
proof -
  have "sample_p2tr 9 \<noteq> ANCHOR_PKSCRIPT" "\<not> is_op_return (sample_p2tr 9)" "is_taproot_script sample_taproot_lib (sample_p2tr 9)"
    by (simp_all add: sample_p2tr_def ANCHOR_PKSCRIPT_def is_op_return_def OP_1_def OP_RETURN_def is_taproot_script_def sample_taproot_lib_def)
  then show ?thesis
    by (simp add: validateOffchainTxOutputs_def scan_output_def IsExtension_def sample_payment_def AnchorOutput_def ANCHOR_VALUE_def
        sample_limits_def Let_def)
qed

lemma sample_assets_valid:
  "app_validateAssetTransaction h txHash txID tok repo tx [] [] m = Inr ()"
  by (simp add: app_validateAssetTransaction_def GetAssetPacket_def List.map_filter_def ValidateAssetTransaction_def validateInputAssets_def
      getAssetsDenominations_def)

lemma sample_txs_rebuilt: "rebuild_txs sample_submit_env sample_pre [sample_spent] [sample_payment] = Inr (sample_ark_tx [], [sample_checkpoint])"
  using sample_rebuilt
  by (simp add: rebuild_txs_def with_code_def BuildTxsWithFee_def Let_def map_len_def same_input_def)

lemma sample_sig_checked: "partial_sig sample_taproot_lib p prevouts i s (sample_sig k s) = Inr (xonly sample_taproot_lib k)"
  by (simp add: partial_sig_def sample_sig_def sample_key_parsed del: replicate.simps) (simp add: sample_taproot_lib_def)

lemma sample_signature_valid: "check_signature sample_submit_env ''ark'' = Inr ()"
proof -
  let ?p = "sample_ark_tx [sample_sig 5 sample_cltv_script]"
  have pre: "GetPrevOutputFetcher (psbt_UnsignedTx ?p) (ap_Inputs ?p) =
      Inr [(\<lparr>op_Hash = [9, 244], op_Index = 0\<rparr>, \<lparr>out_Value = 1000, out_PkScript = sample_p2tr sample_k2\<rparr>)]"
    by (simp add: GetPrevOutputFetcher_def)
  have "verifyTapscriptPartialSigs sample_taproot_lib (Inr 7) (Inr []) ?p False = Inr (True, ?p)"
    using sample_cltv_decoded unfolding verifyTapscriptPartialSigs_def pre
    by (simp add: partial_input_def sample_pay sample_control Let_def sample_sig_checked missing_signers_def) (simp add: sample_cltv_def sample_csv_def)
  then show ?thesis by (simp add: check_signature_def with_code_def verify_sigs_def VerifyVtxoTapscriptSigs_def)
qed

lemma sample_checkpoint_signed: "sign_checkpoint sample_submit_env sample_pre sample_checkpoint [] = Inr [(sample_cp_id, ''cp+'')]"
  using sample_spend_fields(3) [of "[sample_cltv_script]"]
  by (simp add: sign_checkpoint_def with_code_def Let_def) (simp add: sample_checkpoint_def)

lemma sample_tx_accepted:
  "\<exists>tx ev. Accept ''ark+'' [(sample_cp_id, ''cp+'')] [(sample_cp_id, ''c'')] ''c'' 1000 1 [''m''] (fst sample_requested_tx) = Inr (tx, ev) \<and>
     ot_CheckpointTxs tx = [(sample_cp_id, ''cp+'')] \<and> ot_ArkTx tx = ''ark+'' \<and> stage_Code (ot_Stage tx) = OffchainTxAcceptedStage"
proof -
  let ?e = "OffchainTxRequested \<lparr>ev_Id = sample_ark_id, ev_Type = EventTypeOffchainTxRequested\<rparr>
      \<lparr>otr_ArkTx = ''ark'', otr_UnsignedCheckpointTxs = [(sample_cp_id, ''cp'')], otr_StartingTimestamp = 10\<rparr>"
  have "(OffchainTx_raise ?e NewOffchainTx, ?e) = sample_requested_tx"
    using sample_request_made by (simp add: Request_def guard_err_eq_Inr Let_def)
  from arg_cong [OF this, of fst] have "fst sample_requested_tx = OffchainTx_raise ?e NewOffchainTx" by simp
  then show ?thesis
    by (simp add: Accept_def OffchainTx_raise_def OffchainTx_on_def offchain_apply_def NewOffchainTx_def empty_Stage_def offchain_stage_defs
        map_len_def OffchainTx_IsRequested_def OffchainTx_IsFailed_def Let_def)
qed

lemma sample_submitted: "\<exists>res eff evs. SubmitOffchainTx sample_submit_env [''cp''] ''ark'' = (Inr res, eff) \<and> eff_saved eff = Some evs"
proof -
  obtain scan where scan: "check_inputs sample_submit_env sample_pre = Inr scan" "isc_ins scan = [sample_spent]" "isc_assetInputs scan = []"
    using sample_inputs_checked by blast
  obtain tx ev where acc: "Accept ''ark+'' [(sample_cp_id, ''cp+'')] [(sample_cp_id, ''c'')] ''c'' 1000 1 [''m''] (fst sample_requested_tx) = Inr (tx, ev)"
    "ot_CheckpointTxs tx = [(sample_cp_id, ''cp+'')]" using sample_tx_accepted by blast
  have signer: "check_signed sample_submit_env (replicate 32 7) (ap_Inputs (sample_ark_tx [sample_sig 5 sample_cltv_script]) ! 0) = Inr ()"
    by (simp add: check_signed_def sample_sig_def with_new_def sample_key_parsed del: replicate.simps)
  have sign: "sign_ark_tx sample_submit_env (set_MaxTxWeight sample_limits) ''ark'' = Inr ''ark+''"
    by (simp add: sign_ark_tx_def with_code_def computeWeight_def sample_limits_def Let_def)
  have commits: "collect_commitments [(vtxo_Outpoint sample_owned, sample_cp_id)] [sample_owned] = ([(sample_cp_id, ''c'')], ''c'', 1000)"
    by (simp add: collect_commitments_def commitment_step_def sample_owned_def Let_def)
  have marks: "new_depth [sample_owned] = 1" "parent_markers [sample_owned] = [''m'']"
    by (simp_all add: new_depth_def parent_markers_def sample_owned_def)
  have re: "recheck_vtxos sample_submit_env [vtxo_Outpoint sample_owned] = Inr ()"
    by (simp add: recheck_vtxos_def refuse_any_def fetch_vtxos_def with_code_def with_new_def sample_vtxo_checks)
  have checks: "submit_checks sample_submit_env ''ark'' sample_pre = Inr \<lparr>acc_offchainTx = tx, acc_change = ev, acc_FinalArkTx = ''ark+'',
      acc_SignedCheckpointTxs = [''cp+'']\<rparr>"
    using signer
    by (simp add: submit_checks_def commits scan sample_serialize sample_outputs_valid sample_assets_valid sample_txs_rebuilt sample_signature_valid
        sign sample_checkpoint_signed marks acc re with_code_def map_values_def del: replicate.simps)
  have add: "\<exists>store. offchain_Add (checkpoint_outpoints sample_submit_env) tx (env_add_tries sample_submit_env) = Inr store"
    by (simp add: offchain_Add_def acc(2) map_values_def checkpoint_outpoints_def Add_attempt_def)
  then show ?thesis
    by (auto simp: SubmitOffchainTx_def sample_preflight checks submit_commit_def saved_def Let_def)
qed

theorem accepted_submission_conserves_value_witness:
  "\<exists>res eff. SubmitOffchainTx sample_submit_env [''cp''] ''ark'' = (Inr res, eff) \<and>
     (\<exists>vs. set vs \<subseteq> {sample_owned} \<and> length vs = 1 \<and> list_all (live (10 * time_Second)) vs \<and>
        sum_list (map vtxo_Amount vs) = sum_list (map out_Value (tx_TxOut (psbt_UnsignedTx (sample_ark_tx [sample_sig 5 sample_cltv_script])))))"
proof -
  obtain res eff where run: "SubmitOffchainTx sample_submit_env [''cp''] ''ark'' = (Inr res, eff)" using sample_submitted by blast
  let ?ark = "sample_ark_tx [sample_sig 5 sample_cltv_script]"
  from accepted_submission_conserves_value [OF sample_env_laws run] show ?thesis
  proof (elim exE conjE)
    fix ark vs found fresh
    assume parsed: "env_parse sample_submit_env ''ark'' = Inr ark" and len: "length vs = length (tx_TxIn (psbt_UnsignedTx ark))"
      and sub: "env_GetVtxos sample_submit_env (checkpoint_keys sample_submit_env [''cp'']) = Inr found" "set vs \<subseteq> set found"
      and live: "\<forall>i < length vs. live (env_Now sample_submit_env) (vs ! i) \<and> \<not> Vtxo_IsNote (vs ! i) \<and>
       (\<exists>c \<in> set [''cp'']. \<exists>p. env_parse sample_submit_env c = Inr p \<and>
          TxID (env_lib sample_submit_env) p = ol_HashString (env_lib sample_submit_env) (op_Hash (in_PreviousOutPoint (tx_TxIn (psbt_UnsignedTx ark) ! i))) \<and>
          vtxo_Outpoint (vs ! i) = outpoint_of (env_lib sample_submit_env) (tx_TxIn (psbt_UnsignedTx p) ! 0)) \<and>
       (\<exists>script. pin_WitnessUtxo (ap_Inputs ark ! i) = Some \<lparr>out_Value = vtxo_Amount (vs ! i), out_PkScript = script\<rparr>)"
      and sum: "sum_list (map out_Value (tx_TxOut (psbt_UnsignedTx ark))) = sum_list (map vtxo_Amount vs)"
    have ark: "ark = ?ark" and found: "set vs \<subseteq> {sample_owned}" using parsed sub by auto
    have "length vs = 1" "list_all (live (10 * time_Second)) vs" using len live unfolding ark by (auto simp: list_all_length)
    then show ?thesis using run found sum [symmetric] unfolding ark by blast
  qed
qed

section \<open>Outputs, events and finalization\<close>

subsection \<open>Limits on the outputs\<close>

definition out_ok :: "('k, 'c, 't) taproot_lib \<Rightarrow> tokenizer \<Rightarrow> u64 \<Rightarrow> int \<Rightarrow> int \<Rightarrow> TxOut \<Rightarrow> bool" where
  "out_ok lib tok dust vmax vmin out \<longleftrightarrow>
     (let v = sint (out_Value out); pk = out_PkScript out in
      if pk = ANCHOR_PKSCRIPT then v < max (sint dust) vmin
      else if IsExtension tok pk then v = 0
      else if is_op_return pk then v \<le> 0 \<or> IsSubDustScript tok pk \<and> vmin \<le> v \<and> v < sint dust
      else sint dust \<le> v \<and> vmin \<le> v \<and> (0 \<le> vmax \<longrightarrow> v \<le> vmax) \<and> tp_IsTaproot lib pk)"

lemma scan_output_facts:
  assumes "scan_output lib tok dust vmax vmin out s = Inr s'"
  shows "out_ok lib tok dust vmax vmin out"
    "sc_outputs s' = sc_outputs s @ filter (\<lambda>o'. out_PkScript o' \<noteq> ANCHOR_PKSCRIPT) [out]"
    "(if out_PkScript out = ANCHOR_PKSCRIPT then \<not> sc_foundAnchor s \<and> sc_foundAnchor s' else sc_foundAnchor s' = sc_foundAnchor s)"
    "(if out_PkScript out \<noteq> ANCHOR_PKSCRIPT \<and> IsExtension tok (out_PkScript out)
      then \<not> sc_foundExtension s \<and> sc_foundExtension s' else sc_foundExtension s' = sc_foundExtension s)"
    "sc_opRetCount s' = sc_opRetCount s + length (filter (\<lambda>o'. out_PkScript o' \<noteq> ANCHOR_PKSCRIPT \<and> is_op_return (out_PkScript o')) [out])"
  using assms by (auto simp: scan_output_def out_ok_def is_taproot_script_def Let_def code_elims split: if_split_asm)

text \<open>C20: the outputs of an accepted offchain transaction are within the limits: there is exactly one anchor, and it carries less than
  the larger of the dust limit and the smallest amount of a vtxo; an extension output is at most once there and carries
  nothing; any other output that returns nothing carries nothing or is a sub-dust vtxo of at least the smallest
  amount; every other output is a taproot output between the limits for a vtxo; and the number of returning outputs is bounded.\<close>

theorem accepted_outputs_within_limits:
  assumes "validateOffchainTxOutputs lib tok outs dust vmax vmin maxOpReturn = Inr (kept, ext)"
  shows "kept = filter (\<lambda>out. out_PkScript out \<noteq> ANCHOR_PKSCRIPT) outs \<and>
    length (filter (\<lambda>out. out_PkScript out = ANCHOR_PKSCRIPT) outs) = 1 \<and>
    (\<forall>out \<in> set outs. out_ok lib tok dust vmax vmin out) \<and>
    length (filter (\<lambda>out. IsExtension tok (out_PkScript out)) kept) \<le> 1 \<and>
    int (length (filter (\<lambda>out. is_op_return (out_PkScript out)) kept)) \<le> maxOpReturn"
proof -
  let ?A = "\<lambda>out. out_PkScript out = ANCHOR_PKSCRIPT" and ?E = "\<lambda>out. IsExtension tok (out_PkScript out)"
  let ?s0 = "\<lparr>sc_outputs = [], sc_foundAnchor = False, sc_foundExtension = False, sc_ext = [], sc_opRetCount = 0\<rparr>"
  obtain s where s: "scan_all (scan_output lib tok dust vmax vmin) outs ?s0 = Inr s"
    "sc_foundAnchor s" "int (sc_opRetCount s) \<le> maxOpReturn" "kept = sc_outputs s"
    using assms by (auto simp: validateOffchainTxOutputs_def code_elims)
  let ?P = "\<lambda>n s. let xs = take n outs in sc_outputs s = filter (\<lambda>out. \<not> ?A out) xs \<and>
    length (filter ?A xs) = (if sc_foundAnchor s then 1 else 0) \<and> (\<forall>out \<in> set xs. out_ok lib tok dust vmax vmin out) \<and>
    length (filter (\<lambda>out. \<not> ?A out \<and> ?E out) xs) = (if sc_foundExtension s then 1 else 0) \<and>
    sc_opRetCount s = length (filter (\<lambda>out. \<not> ?A out \<and> is_op_return (out_PkScript out)) xs)"
  have "?P (length outs) s"
  proof (rule scan_all_induct [OF s(1), of ?P])
    fix i s s' assume i: "i < length outs" and P: "?P i s" and f: "scan_output lib tok dust vmax vmin (outs ! i) s = Inr s'"
    have t: "take (Suc i) outs = take i outs @ [outs ! i]" using i by (rule take_Suc_conv_app_nth)
    show "?P (Suc i) s'" unfolding t using P scan_output_facts [OF f] by (auto simp: Let_def split: if_split_asm)
  qed simp
  then show ?thesis using s(2-4) by (auto simp: Let_def)
qed

theorem accepted_outputs_within_limits_witness:
  "validateOffchainTxOutputs sample_taproot_lib (\<lambda>_. []) [sample_payment, AnchorOutput] 330 (-1) 1 3 = Inr ([sample_payment], []) \<and>
   out_ok sample_taproot_lib (\<lambda>_. []) 330 (-1) 1 sample_payment"
proof -
  have "validateOffchainTxOutputs sample_taproot_lib (\<lambda>_. []) [sample_payment, AnchorOutput] 330 (-1) 1 3 = Inr ([sample_payment], [])"
    using sample_outputs_valid by (simp add: sample_limits_def Let_def)
  from this accepted_outputs_within_limits [OF this] show ?thesis by simp
qed

subsection \<open>Events\<close>

lemma replayed: "NewOffchainTxFromEvents evs = (fold (\<lambda>e. OffchainTx_on e True) evs NewOffchainTx)\<lparr>ot_changes := evs\<rparr>"
  by (simp add: NewOffchainTxFromEvents_def)

lemmas replay_simps = OffchainTx_on_def offchain_apply_def OffchainTx_IsFailed_def OffchainTx_IsAccepted_def OffchainTx_IsFinalized_def
  NewOffchainTx_def empty_Stage_def offchain_stage_defs Let_def

lemma request_event:
  assumes "Request now txid tx cps NewOffchainTx = Inr (t, e)"
  shows "\<exists>b f. e = OffchainTxRequested b f \<and> t = OffchainTx_raise e NewOffchainTx"
  using assms by (auto simp: Request_def guard_err_eq_Inr Let_def)

lemma accept_event:
  assumes "Accept tx cps cms rootTx expiry dep ms t = Inr (t', e)"
  shows "\<exists>b f. e = OffchainTxAccepted b f \<and> t' = OffchainTx_raise e t"
  using assms by (auto simp: Accept_def guard_err_eq_Inr Let_def)

lemma finalize_event:
  assumes "OffchainTx_Finalize now cps t = Inr (t', e)"
  shows "\<exists>b f. e = OffchainTxFinalized b f \<and> t' = OffchainTx_raise e t \<and> stage_Code (ot_Stage t) = OffchainTxAcceptedStage"
  using assms by (auto simp: OffchainTx_Finalize_def guard_err_eq_Inr rbind_eq_Inr Let_def)

lemma replay_histories:
  "OffchainTx_IsFailed (NewOffchainTxFromEvents [OffchainTxRequested b f, OffchainTxFailed b' r ts])"
  "OffchainTx_IsAccepted (NewOffchainTxFromEvents [OffchainTxRequested b f, OffchainTxAccepted b2 f2])"
  "OffchainTx_IsFinalized (NewOffchainTxFromEvents [OffchainTxRequested b f, OffchainTxAccepted b2 f2, OffchainTxFinalized b3 f3])"
  by (simp_all add: replayed replay_simps)

lemma finalizeOffchainTx_event:
  assumes "finalizeOffchainTx env t cps = Inr (t', e)"
  obtains m where "OffchainTx_Finalize (unix_secs (env_Now_again env)) m t = Inr (t', e)"
  using assms by (auto simp: finalizeOffchainTx_def code_elims)

lemma deferred_failure_facts:
  "eff_cache (deferred_failure env pre e) = None"
  "eff_saved (deferred_failure env pre e) = Some evs \<Longrightarrow> \<exists>b r ts. evs = [pre_event pre, OffchainTxFailed b r ts]"
  by (auto simp: deferred_failure_def no_effects_def saved_def OffchainTx_Fail_def Let_def split: if_splits sum.splits)

lemma raise_txid: "\<not> (\<exists>b f. e = OffchainTxRequested b f) \<Longrightarrow> ot_ArkTxid (OffchainTx_raise e t) = ot_ArkTxid t"
  by (auto simp: OffchainTx_raise_def OffchainTx_on_def offchain_apply_def Let_def split: option.split Event.split)

lemma request_txid:
  assumes "Request now txid tx cps NewOffchainTx = Inr (t, e)"
  shows "ot_ArkTxid t = txid"
proof -
  obtain b f where e: "e = OffchainTxRequested b f" "ev_Id b = txid" "t = OffchainTx_raise e NewOffchainTx"
    using assms by (auto simp: Request_def guard_err_eq_Inr Let_def)
  then show ?thesis by (simp add: OffchainTx_raise_def OffchainTx_on_def offchain_apply_def NewOffchainTx_def empty_Stage_def offchain_stage_defs Let_def)
qed

lemma accepted_txid:
  assumes "submit_preflight env cps tx = Inr pre" "submit_checks env tx pre = Inr acc"
  shows "ot_ArkTxid (acc_offchainTx acc) = pre_txid pre" "\<exists>b f. acc_change acc = OffchainTxAccepted b f"
proof -
  obtain a b c d e f g where acc: "Accept a b c d e f g (pre_offchainTx pre) = Inr (acc_offchainTx acc, acc_change acc)"
    using assms(2) by (fastforce simp: submit_checks_def code_elims case_prod_beta Let_def)
  from accept_event [OF acc] show "\<exists>b f. acc_change acc = OffchainTxAccepted b f" by blast
  have "ot_ArkTxid (pre_offchainTx pre) = pre_txid pre"
    using preflight_facts(6) [OF assms(1)] by (rule request_txid)
  then show "ot_ArkTxid (acc_offchainTx acc) = pre_txid pre" using accept_event [OF acc] raise_txid by force
qed

lemma offchain_Add_stored: "offchain_Add txins t tries = Inr store \<Longrightarrow> os_txs store (ot_ArkTxid t) \<noteq> None"
proof -
  have "redis_retry stop wrap (Add_attempt t inputs) tries e = Inr store \<Longrightarrow> os_txs store (ot_ArkTxid t) \<noteq> None" for stop wrap inputs e
    by (induction stop wrap "Add_attempt t inputs" tries e rule: redis_retry.induct)
      (auto simp: Add_attempt_eq_Inr split: sum.split_asm option.split_asm if_split_asm)
  then show "offchain_Add txins t tries = Inr store \<Longrightarrow> ?thesis" by (auto simp: offchain_Add_def split: sum.split_asm)
qed

lemma offchain_Remove_removed: "offchain_Remove txins txid s tries = Inr (Some s') \<Longrightarrow> os_txs s' txid = None"
proof -
  have "redis_retry stop wrap (Remove_attempt txid inputs) tries e = Inr s' \<Longrightarrow> os_txs s' txid = None" for stop wrap inputs e
    by (induction stop wrap "Remove_attempt txid inputs" tries e rule: redis_retry.induct)
      (auto simp: Remove_attempt_def split: sum.split_asm option.split_asm if_split_asm)
  then show "offchain_Remove txins txid s tries = Inr (Some s') \<Longrightarrow> ?thesis"
    by (auto simp: offchain_Remove_def rbind_eq_Inr split: sum.split_asm option.split_asm)
qed

text \<open>How an answer and the effects on cache and events go together.\<close>

definition effects_match :: "('k, 'c, 't) submit_env \<Rightarrow> string \<Rightarrow> bool \<Rightarrow> AcceptedOffchainTx arkres \<Rightarrow> submit_effects \<Rightarrow> bool" where
  "effects_match env txid oneShot r eff \<longleftrightarrow>
     (case r of
        Inl _ \<Rightarrow>
          (case eff_saved eff of None \<Rightarrow> True | Some evs \<Rightarrow> \<not> oneShot \<and> OffchainTx_IsFailed (NewOffchainTxFromEvents evs)) \<and>
          (case eff_cache eff of
             None \<Rightarrow> True
           | Some store \<Rightarrow> oneShot \<and> isl (env_Save env) \<and>
               (os_txs store txid \<noteq> None \<longrightarrow> isl (offchain_Remove (checkpoint_outpoints env) txid store (env_remove_tries env))))
      | Inr res \<Rightarrow>
          ao_TxId res = txid \<and> (\<exists>store. eff_cache eff = Some store \<and> os_txs store txid \<noteq> None) \<and>
          (case eff_saved eff of
             None \<Rightarrow> \<not> oneShot \<and> isl (env_Save env)
           | Some evs \<Rightarrow> if oneShot then OffchainTx_IsFinalized (NewOffchainTxFromEvents evs) else OffchainTx_IsAccepted (NewOffchainTxFromEvents evs)))"

lemma deferred_failure_match:
  assumes "pre_event pre = OffchainTxRequested b f"
  shows "effects_match env txid (cp_oneShot (pre_checkpoints pre)) (Inl e) (deferred_failure env pre e)"
  using replay_histories(1)
  by (auto simp: effects_match_def deferred_failure_def no_effects_def saved_def OffchainTx_Fail_def assms Let_def split: sum.split)

lemma submit_commit_match:
  assumes ev: "pre_event pre = OffchainTxRequested b f" "acc_change acc = OffchainTxAccepted b2 f2"
    and txid: "ot_ArkTxid (acc_offchainTx acc) = pre_txid pre" and run: "submit_commit env pre acc = (r, eff)"
  shows "effects_match env (pre_txid pre) (cp_oneShot (pre_checkpoints pre)) r eff"
proof -
  let ?one = "cp_oneShot (pre_checkpoints pre)" and ?txins = "checkpoint_outpoints env"
  define fin where "fin = (if ?one
      then rbind (finalizeOffchainTx env (acc_offchainTx acc) (acc_SignedCheckpointTxs acc)) (\<lambda>(tx, ev). Inr (tx, [pre_event pre, acc_change acc, ev]))
      else Inr (acc_offchainTx acc, [pre_event pre, acc_change acc]))"
  show ?thesis
  proof (cases fin)
    case (Inl err)
    then have "r = Inl err" "eff = deferred_failure env pre err" using run by (auto simp: submit_commit_def Let_def fin_def)
    then show ?thesis using deferred_failure_match [OF ev(1)] by simp
  next
    case (Inr p)
    obtain t changes where p: "p = (t, changes)" by (cases p)
    have t: "ot_ArkTxid t = pre_txid pre \<and> (if ?one then OffchainTx_IsFinalized (NewOffchainTxFromEvents changes) else OffchainTx_IsAccepted (NewOffchainTxFromEvents changes))"
    proof (cases ?one)
      case True
      then obtain e where e: "finalizeOffchainTx env (acc_offchainTx acc) (acc_SignedCheckpointTxs acc) = Inr (t, e)" "changes = [pre_event pre, acc_change acc, e]"
        using Inr p by (auto simp: fin_def rbind_eq_Inr)
      obtain b3 f3 where "e = OffchainTxFinalized b3 f3" "t = OffchainTx_raise e (acc_offchainTx acc)"
        using finalizeOffchainTx_event [OF e(1)] finalize_event by metis
      then show ?thesis using True e(2) ev txid replay_histories(3) raise_txid by simp
    next
      case False
      then show ?thesis using Inr p ev txid replay_histories(2) by (auto simp: fin_def)
    qed
    show ?thesis
    proof (cases "offchain_Add ?txins t (env_add_tries env)")
      case (Inl storeErr)
      then obtain err where "r = Inl err" "eff = deferred_failure env pre err"
        using run Inr p unfolding submit_commit_def Let_def fin_def [symmetric] by auto
      then show ?thesis using deferred_failure_match [OF ev(1)] by simp
    next
      case (Inr store)
      have stored: "os_txs store (pre_txid pre) \<noteq> None" using offchain_Add_stored [OF Inr] t by simp
      have run': "(r, eff) = (if ?one
          then (case env_Save env of
                  Inl _ \<Rightarrow> (Inl (Code_New INTERNAL_ERROR ''something went wrong''),
                     \<lparr>eff_cache = (case offchain_Remove ?txins (pre_txid pre) store (env_remove_tries env) of
                        Inr (Some store') \<Rightarrow> Some store' | _ \<Rightarrow> Some store), eff_saved = None\<rparr>)
                | Inr _ \<Rightarrow> (Inr \<lparr>ao_TxId = pre_txid pre, ao_FinalArkTx = acc_FinalArkTx acc, ao_SignedCheckpointTxs = acc_SignedCheckpointTxs acc\<rparr>,
                     \<lparr>eff_cache = Some store, eff_saved = Some changes\<rparr>))
          else (Inr \<lparr>ao_TxId = pre_txid pre, ao_FinalArkTx = acc_FinalArkTx acc, ao_SignedCheckpointTxs = acc_SignedCheckpointTxs acc\<rparr>,
                 \<lparr>eff_cache = Some store, eff_saved = saved env changes\<rparr>))"
        using run \<open>fin = Inr p\<close> p Inr unfolding submit_commit_def Let_def fin_def [symmetric] by auto
      show ?thesis
      proof (cases "?one \<and> isl (env_Save env)")
        case True
        then have r: "isl r" "eff_saved eff = None"
          "eff_cache eff = (case offchain_Remove ?txins (pre_txid pre) store (env_remove_tries env) of Inr (Some store') \<Rightarrow> Some store' | _ \<Rightarrow> Some store)"
          using run' by (auto split: sum.split_asm)
        have "\<exists>s. eff_cache eff = Some s \<and> (os_txs s (pre_txid pre) \<noteq> None \<longrightarrow> isl (offchain_Remove ?txins (pre_txid pre) s (env_remove_tries env)))"
        proof (cases "offchain_Remove ?txins (pre_txid pre) store (env_remove_tries env)")
          case (Inr o')
          have "o' \<noteq> None" using Inr stored by (auto simp: offchain_Remove_def rbind_eq_Inr split: sum.split_asm option.split_asm)
          then show ?thesis using Inr r(3) offchain_Remove_removed [of ?txins "pre_txid pre" store] by auto
        qed (use r(3) in auto)
        then show ?thesis using True r(1,2) by (auto simp: effects_match_def split: sum.split)
      next
        case False
        then show ?thesis using run' stored t by (auto simp: effects_match_def saved_def split: sum.split_asm if_split_asm)
      qed
    qed
  qed
qed

text \<open>C6: what the handler saves and caches agrees with what it answers. After an error, a history that was saved is that of a failed
  transaction; the cache was written only if the events of a one-shot submission could not be saved, and
  then it does not hold the transaction any more unless removing it failed too. After success the transaction is in the cache, and the
  saved history is that of an accepted transaction, or of a finalized one when the checkpoints came signed; it is missing only
  when saving failed, and then the submission was not a one-shot.\<close>

theorem submission_events_match_answer:
  assumes "SubmitOffchainTx env cps tx = (r, eff)"
  shows "effects_match env (TxID (env_lib env) (projr (env_parse env tx))) (cp_oneShot (projr (read_checkpoints env cps))) r eff"
proof (cases "submit_preflight env cps tx")
  case (Inl err)
  then have "r = Inl err" "eff = no_effects" using assms by (auto simp: SubmitOffchainTx_def)
  then show ?thesis by (simp add: effects_match_def no_effects_def)
next
  case (Inr pre)
  obtain b f where e: "pre_event pre = OffchainTxRequested b f" using request_event [OF preflight_facts(6) [OF Inr]] by blast
  have pre: "TxID (env_lib env) (projr (env_parse env tx)) = pre_txid pre" "projr (read_checkpoints env cps) = pre_checkpoints pre"
    using preflight_facts(2,5) [OF Inr] read_ark_tx_facts(1) [OF preflight_facts(1) [OF Inr]] by simp_all
  show ?thesis
  proof (cases "submit_checks env tx pre")
    case (Inl err)
    then have "r = Inl err" "eff = deferred_failure env pre err" using assms Inr by (auto simp: SubmitOffchainTx_def)
    then show ?thesis using deferred_failure_match [OF e] unfolding pre by simp
  next
    case checked: (Inr acc)
    obtain b2 f2 where a: "acc_change acc = OffchainTxAccepted b2 f2" using accepted_txid(2) [OF Inr checked] by blast
    have "submit_commit env pre acc = (r, eff)" using assms Inr checked by (simp add: SubmitOffchainTx_def)
    from submit_commit_match [OF e a accepted_txid(1) [OF Inr checked] this] show ?thesis unfolding pre .
  qed
qed

theorem submission_events_match_answer_witness:
  "\<exists>res eff evs store. SubmitOffchainTx sample_submit_env [''cp''] ''ark'' = (Inr res, eff) \<and> eff_saved eff = Some evs \<and>
     eff_cache eff = Some store \<and> os_txs store (ao_TxId res) \<noteq> None \<and> OffchainTx_IsAccepted (NewOffchainTxFromEvents evs)"
proof -
  obtain res eff evs where run: "SubmitOffchainTx sample_submit_env [''cp''] ''ark'' = (Inr res, eff)" "eff_saved eff = Some evs"
    using sample_submitted by blast
  from submission_events_match_answer [OF run(1)] run show ?thesis by (auto simp: effects_match_def sample_checkpoints_read)
qed

subsection \<open>Finalization\<close>

lemma verify_sigs_facts:
  assumes "verify_sigs env tx must = Inr (v, p)"
  shows "env_parse env tx = Inr p \<and> (\<exists>prevouts skip. GetPrevOutputFetcher (psbt_UnsignedTx p) (ap_Inputs p) = Inr prevouts \<and> (must \<longrightarrow> skip = {}) \<and>
    (\<forall>i < length (ap_Inputs p). case pin_TaprootLeafScript (ap_Inputs p ! i) of
       [] \<Rightarrow> \<not> must
     | lf # _ \<Rightarrow> \<exists>utxo. pin_WitnessUtxo (ap_Inputs p ! i) = Some utxo \<and>
         leaf_spend_ok (ol_tap (env_lib env)) p prevouts skip i lf (out_PkScript utxo)))"
proof -
  let ?lib = "ol_tap (env_lib env)"
  obtain q k ks where q: "env_parse env tx = Inr q" "env_GetPubkey env = Inr k" "env_GetDeprecatedPubkeys env = Inr ks"
    "verifyTapscriptPartialSigs ?lib (Inr k) (Inr ks) q must = Inr (v, p)"
    using assms by (auto simp: verify_sigs_def VerifyVtxoTapscriptSigs_def verifyTapscriptPartialSigs_def rbind_eq_Inr)
  note f = partial_sigs_facts [OF q(4)]
  have pq: "p = q" using f by simp
  obtain prevouts where pr: "GetPrevOutputFetcher (psbt_UnsignedTx q) (ap_Inputs q) = Inr prevouts"
    "\<forall>i < length (ap_Inputs q). case pin_TaprootLeafScript (ap_Inputs q ! i) of
       [] \<Rightarrow> \<not> must
     | lf # _ \<Rightarrow> \<exists>utxo. pin_WitnessUtxo (ap_Inputs q ! i) = Some utxo \<and>
         leaf_spend_ok ?lib q prevouts (if must then {} else xonly ?lib ` set (k # ks)) i lf (out_PkScript utxo)"
    using f by blast
  have "must \<longrightarrow> (if must then {} else xonly ?lib ` set (k # ks)) = {}" by simp
  then show ?thesis unfolding pq using q(1) pr by blast
qed

definition checkpoint_signed :: "('k, 'c, 't) submit_env \<Rightarrow> ArkPsbt \<Rightarrow> bool" where
  "checkpoint_signed env p \<longleftrightarrow>
     (\<exists>prevouts. GetPrevOutputFetcher (psbt_UnsignedTx p) (ap_Inputs p) = Inr prevouts \<and>
        (\<forall>i < length (ap_Inputs p). \<exists>lf lfs utxo. pin_TaprootLeafScript (ap_Inputs p ! i) = lf # lfs \<and>
           pin_WitnessUtxo (ap_Inputs p ! i) = Some utxo \<and> leaf_spend_ok (ol_tap (env_lib env)) p prevouts {} i lf (out_PkScript utxo)))"

lemma verify_sigs_signed: "verify_sigs env tx True = Inr (v, p) \<Longrightarrow> env_parse env tx = Inr p \<and> checkpoint_signed env p"
proof -
  assume "verify_sigs env tx True = Inr (v, p)"
  from verify_sigs_facts [OF this] obtain prevouts where f: "env_parse env tx = Inr p"
    "GetPrevOutputFetcher (psbt_UnsignedTx p) (ap_Inputs p) = Inr prevouts"
    "\<forall>i < length (ap_Inputs p). case pin_TaprootLeafScript (ap_Inputs p ! i) of [] \<Rightarrow> \<not> True
     | lf # _ \<Rightarrow> \<exists>utxo. pin_WitnessUtxo (ap_Inputs p ! i) = Some utxo \<and> leaf_spend_ok (ol_tap (env_lib env)) p prevouts {} i lf (out_PkScript utxo)"
    by auto
  have "\<exists>lf lfs utxo. pin_TaprootLeafScript (ap_Inputs p ! i) = lf # lfs \<and> pin_WitnessUtxo (ap_Inputs p ! i) = Some utxo \<and>
      leaf_spend_ok (ol_tap (env_lib env)) p prevouts {} i lf (out_PkScript utxo)" if "i < length (ap_Inputs p)" for i
    using f(3) that by (cases "pin_TaprootLeafScript (ap_Inputs p ! i)") force+
  then show ?thesis using f(1,2) by (auto simp: checkpoint_signed_def)
qed

lemma final_checkpoints_facts:
  assumes "scan_all (final_checkpoint env) cps ([], []) = Inr (decoded, keys)"
  shows "keys = checkpoint_keys env cps \<and> (\<forall>c \<in> set cps. \<exists>p. env_parse env c = Inr p \<and> checkpoint_signed env p) \<and>
    (\<forall>txid p. map_of decoded txid = Some p \<longrightarrow> txid = TxID (env_lib env) p \<and> checkpoint_signed env p \<and> (\<exists>c \<in> set cps. env_parse env c = Inr p))"
proof -
  let ?P = "\<lambda>n (decoded, keys :: Outpoint list). keys = checkpoint_keys env (take n cps) \<and>
    (\<forall>c \<in> set (take n cps). \<exists>p. env_parse env c = Inr p \<and> checkpoint_signed env p) \<and>
    (\<forall>txid p. map_of decoded txid = Some p \<longrightarrow> txid = TxID (env_lib env) p \<and> checkpoint_signed env p \<and> (\<exists>c \<in> set (take n cps). env_parse env c = Inr p))"
  have "?P (length cps) (decoded, keys)"
  proof (rule scan_all_induct [OF assms, of ?P])
    fix n s s' assume n: "n < length cps" and P: "?P n s" and f: "final_checkpoint env (cps ! n) s = Inr s'"
    obtain d ks where s: "s = (d, ks)" by (cases s)
    obtain v p where p: "verify_sigs env (cps ! n) True = Inr (v, p)" using f s by (auto simp: final_checkpoint_def code_elims)
    have s': "s' = (AList.update (TxID (env_lib env) p) p d, ks @ [outpoint_of (env_lib env) (tx_TxIn (psbt_UnsignedTx p) ! 0)])"
      using f s p by (cases "tx_TxIn (psbt_UnsignedTx p)") (auto simp: final_checkpoint_def code_elims)
    have t: "take (Suc n) cps = take n cps @ [cps ! n]" using n by (rule take_Suc_conv_app_nth)
    have k: "checkpoint_keys env (take (Suc n) cps) = checkpoint_keys env (take n cps) @ [outpoint_of (env_lib env) (tx_TxIn (psbt_UnsignedTx p) ! 0)]"
      unfolding t using verify_sigs_signed [OF p] by (simp add: checkpoint_keys_def)
    have P': "ks = checkpoint_keys env (take n cps)" "\<forall>c \<in> set (take n cps). \<exists>p. env_parse env c = Inr p \<and> checkpoint_signed env p"
      "\<forall>txid p. map_of d txid = Some p \<longrightarrow> txid = TxID (env_lib env) p \<and> checkpoint_signed env p \<and> (\<exists>c \<in> set (take n cps). env_parse env c = Inr p)"
      using P unfolding s prod.case by blast+
    have "\<forall>c \<in> set (take (Suc n) cps). \<exists>p. env_parse env c = Inr p \<and> checkpoint_signed env p"
      unfolding t using P'(2) verify_sigs_signed [OF p] by auto
    moreover have "\<forall>txid q. map_of (AList.update (TxID (env_lib env) p) p d) txid = Some q \<longrightarrow>
        txid = TxID (env_lib env) q \<and> checkpoint_signed env q \<and> (\<exists>c \<in> set (take (Suc n) cps). env_parse env c = Inr q)"
      unfolding t using P'(3) verify_sigs_signed [OF p] by (simp add: update_conv')
    ultimately show "?P (Suc n) s'" unfolding s' prod.case k P'(1) by blast
  qed (simp add: checkpoint_keys_def)
  then show ?thesis unfolding take_all [OF order_refl] prod.case .
qed

text \<open>C5: a transaction is finalized only with checkpoints that can go on chain: every checkpoint is signed by every key of the leaf that it
  reveals, the signer's included, and meets its condition; every input of the ark transaction spends one of them; and of the vtxos
  that the database has under the first inputs of these checkpoints none is unrolled.\<close>

theorem finalized_checkpoints_signed:
  assumes "finalizeOffchainTx env t cps = Inr (t', e)"
  shows "stage_Code (ot_Stage t') = OffchainTxFinalizedStage \<and>
    (\<forall>c \<in> set cps. \<exists>p. env_parse env c = Inr p \<and> checkpoint_signed env p) \<and>
    (\<exists>ark. env_parse env (ot_ArkTx t) = Inr ark \<and>
       (\<forall>i < length (ap_Inputs ark). \<exists>c \<in> set cps. \<exists>p. env_parse env c = Inr p \<and>
          TxID (env_lib env) p = ol_HashString (env_lib env) (op_Hash (in_PreviousOutPoint (tx_TxIn (psbt_UnsignedTx ark) ! i))))) \<and>
    (\<exists>vs. env_GetVtxos_finalize env (checkpoint_keys env cps) = Inr vs \<and> (\<forall>v \<in> set vs. \<not> vtxo_Unrolled v))"
proof -
  obtain decoded keys vs ark m where f: "scan_all (final_checkpoint env) cps ([], []) = Inr (decoded, keys)"
    "env_GetVtxos_finalize env keys = Inr vs" "\<forall>v \<in> set vs. \<not> vtxo_Unrolled v" "env_parse env (ot_ArkTx t) = Inr ark"
    "scan_all (final_input env ark decoded) [0..<length (ap_Inputs ark)] [] = Inr m"
    "OffchainTx_Finalize (unix_secs (env_Now_again env)) m t = Inr (t', e)"
    using assms by (auto simp: finalizeOffchainTx_def code_elims)
  note d = final_checkpoints_facts [OF f(1)]
  let ?id = "\<lambda>i. ol_HashString (env_lib env) (op_Hash (in_PreviousOutPoint (tx_TxIn (psbt_UnsignedTx ark) ! i)))"
  let ?P = "\<lambda>n (_ :: string gomap). \<forall>i < n. map_of decoded (?id i) \<noteq> None"
  have "?P (length [0..<length (ap_Inputs ark)]) m"
  proof (rule scan_all_induct [OF f(5), of ?P])
    fix n s s' assume "n < length [0..<length (ap_Inputs ark)]" and P: "?P n s" and g: "final_input env ark decoded ([0..<length (ap_Inputs ark)] ! n) s = Inr s'"
    then have "map_of decoded (?id n) \<noteq> None" by (auto simp: final_input_def Let_def split: option.split_asm)
    then show "?P (Suc n) s'" using P by (auto simp: less_Suc_eq)
  qed simp
  then have found: "\<forall>i < length (ap_Inputs ark). map_of decoded (?id i) \<noteq> None" by simp
  have "\<exists>c \<in> set cps. \<exists>p. env_parse env c = Inr p \<and> TxID (env_lib env) p = ?id i" if i: "i < length (ap_Inputs ark)" for i
  proof -
    obtain p where "map_of decoded (?id i) = Some p" using found i by blast
    then show ?thesis using conjunct2 [OF conjunct2 [OF d]] by metis
  qed
  moreover have "stage_Code (ot_Stage t') = OffchainTxFinalizedStage"
    using finalize_event [OF f(6)] by (auto simp: OffchainTx_raise_def OffchainTx_on_def offchain_apply_def Let_def)
  moreover have "env_GetVtxos_finalize env (checkpoint_keys env cps) = Inr vs" using f(2) d by simp
  ultimately show ?thesis using f(3,4) conjunct1 [OF conjunct2 [OF d]] by (metis (no_types, lifting))
qed

text \<open>The same service after both parties have signed the checkpoint.\<close>

definition sample_signed_checkpoint :: ArkPsbt where
  "sample_signed_checkpoint = sample_spend \<lparr>op_Hash = [9], op_Index = 0\<rparr> sample_k1 [sample_cltv_script]
     [sample_sig 5 sample_cltv_script, sample_sig 7 sample_cltv_script] [\<lparr>out_Value = 1000, out_PkScript = sample_p2tr sample_k2\<rparr>, AnchorOutput]"

definition sample_final_env :: "(u8, bytes, bytes list) submit_env" where
  "sample_final_env = sample_submit_env\<lparr>env_parse := (\<lambda>tx. if tx = ''cp'' then Inr sample_signed_checkpoint else sample_parse tx)\<rparr>"

lemma sample_final_verified: "verify_sigs sample_final_env ''cp'' True = Inr (True, sample_signed_checkpoint)"
proof -
  let ?p = sample_signed_checkpoint
  have pre: "GetPrevOutputFetcher (psbt_UnsignedTx ?p) (ap_Inputs ?p) =
      Inr [(\<lparr>op_Hash = [9], op_Index = 0\<rparr>, \<lparr>out_Value = 1000, out_PkScript = sample_p2tr sample_k1\<rparr>)]"
    by (simp add: GetPrevOutputFetcher_def sample_signed_checkpoint_def)
  have "verifyTapscriptPartialSigs sample_taproot_lib (Inr 7) (Inr []) ?p True = Inr (True, ?p)"
    using sample_cltv_decoded unfolding verifyTapscriptPartialSigs_def pre
    by (simp add: partial_input_def sample_signed_checkpoint_def sample_pay sample_control Let_def sample_sig_checked missing_signers_def)
      (simp add: sample_cltv_def sample_csv_def)
  then show ?thesis by (simp add: verify_sigs_def VerifyVtxoTapscriptSigs_def sample_final_env_def)
qed

lemma sample_checkpoint_closures:
  "ParseVtxoScript sample_lib (map hex_EncodeToString [sample_csv_script, sample_cltv_script]) = Inr (checkpoint_script sample_csv (CLTVMultisig sample_cltv))"
proof -
  have "DecodeClosure sample_lib sample_csv_script = Inr (CSVMultisig sample_csv)"
    by (rule decode_closure_script [OF sample_lib_law _ sample_csv_script_made sample_scripts_no_success(1)])
      (simp add: wf_Closure_def wf_CSVMultisigClosure_def wf_MultisigClosure_def sample_csv_def sample_lib_def)
  then show ?thesis using sample_cltv_decoded by (simp add: ParseVtxoScript_def TapscriptsVtxoScript_Decode_def checkpoint_script_def)
qed

lemma sample_final_input:
  "final_input sample_final_env (sample_ark_tx sigs) [(sample_cp_id, sample_signed_checkpoint)] 0 [] = Inr [(sample_cp_id, ''cp'')]"
proof -
  let ?ls = "map hex_EncodeToString [sample_csv_script, sample_cltv_script]"
  have field: "GetArkPsbtFields (sample_ark_tx sigs) 0 VtxoTaprootTreeField = Inr [?ls]"
    unfolding sample_ark_tx_def by (rule sample_spend_fields(1)) simp_all
  obtain b where enc: "TapTree_Encode ?ls = Inr b"
    using hex_field_encoded [of "[sample_csv_script, sample_cltv_script]"] by (auto simp: VtxoTaprootTreeField_def rbind_eq_Inr)
  have out: "tx_TxOut (psbt_UnsignedTx sample_signed_checkpoint) = [\<lparr>out_Value = 1000, out_PkScript = sample_p2tr sample_k2\<rparr>, AnchorOutput]"
    by (simp add: sample_signed_checkpoint_def)
  have env: "env_lib sample_final_env = sample_offchain_lib" "env_B64Encode sample_final_env p = Inr ''cp''" for p
    by (simp_all add: sample_final_env_def)
  show ?thesis
    unfolding final_input_def Let_def env sample_ts field
    by (simp add: with_new_def with_code_def sample_checkpoint_closures [simplified] sample_checkpoint_tree sample_pay out enc [simplified])
qed

theorem finalized_checkpoints_signed_witness:
  "\<exists>t t' e. finalizeOffchainTx sample_final_env t [''cp''] = Inr (t', e) \<and> stage_Code (ot_Stage t') = OffchainTxFinalizedStage \<and>
     checkpoint_signed sample_final_env sample_signed_checkpoint"
proof -
  obtain tx :: OffchainTx where acc: "ot_CheckpointTxs tx = [(sample_cp_id, ''cp+'')]" "ot_ArkTx tx = ''ark+''" "stage_Code (ot_Stage tx) = OffchainTxAcceptedStage"
    using sample_tx_accepted by auto
  have env: "env_lib sample_final_env = sample_offchain_lib" "env_GetVtxos_finalize sample_final_env ks = Inr [sample_owned]"
    "env_parse sample_final_env ''ark+'' = Inr (sample_ark_tx [sample_sig 5 sample_cltv_script])" "env_parse sample_final_env ''cp'' = Inr sample_signed_checkpoint" for ks
    by (simp_all add: sample_final_env_def) (simp_all add: sample_submit_env_def)
  have ids: "TxID sample_offchain_lib sample_signed_checkpoint = sample_cp_id"
    "tx_TxIn (psbt_UnsignedTx sample_signed_checkpoint) = [\<lparr>in_PreviousOutPoint = \<lparr>op_Hash = [9], op_Index = 0\<rparr>\<rparr>]"
    by (simp_all add: TxID_def sample_signed_checkpoint_def)
  have "\<not> vtxo_Unrolled sample_owned" by (simp add: sample_owned_def)
  then obtain t' e where run: "finalizeOffchainTx sample_final_env tx [''cp''] = Inr (t', e)"
    by (auto simp: finalizeOffchainTx_def final_checkpoint_def sample_final_verified with_code_def with_new_def env ids acc sample_final_input
        OffchainTx_Finalize_def map_len_def Let_def)
  from finalized_checkpoints_signed [OF run] env(4) run show ?thesis by auto
qed

end
