(* ===== verification/Forfeit_Txs.thy ===== *)
theory Forfeit_Txs
  imports Submit_Offchain Tx_Tree
begin

section \<open>Forfeit transactions\<close>

text \<open>
  \<open>pkg/ark-lib/tree/forfeit_tx.go\<close> and \<open>VerifyAndRebuildForfeitTxs\<close> of \<open>tx-builder/covenantless/builder.go\<close>. An
  owner whose vtxo is settled in a batch signs a forfeit transaction, which spends the vtxo together with a connector
  of the batch and pays the server. The server does not keep what it received: it builds the transaction
  again and takes over only the leaf, the signatures and the condition witness of the vtxo input. The parser and the
  encoder of PSBTs, the updater of btcd and what the wallet answers are parameters.
\<close>

record ('k, 'c, 't) forfeit_env =
  fo_lib :: "('k, 'c, 't) offchain_lib"
  fo_parse :: "string \<Rightarrow> ArkPsbt gores"
  fo_B64Encode :: "ArkPsbt \<Rightarrow> string gores"
  fo_NewUpdater :: "ArkPsbt \<Rightarrow> unit gores"
  fo_AddInWitnessUtxo :: "ArkPsbt \<Rightarrow> TxOut \<Rightarrow> nat \<Rightarrow> ArkPsbt gores"
  fo_getForfeitScript :: "bytes gores"
  fo_GetCurrentBlockTime :: "BlockTimestamp gores"
  fo_GetDustAmount :: "u64 gores"

subsection \<open>Building\<close>

fun add_prevouts :: "('k, 'c, 't) forfeit_env \<Rightarrow> nat \<Rightarrow> TxOut list \<Rightarrow> ArkPsbt \<Rightarrow> ArkPsbt gores" where
  "add_prevouts env i [] partialTx = Inr partialTx"
| "add_prevouts env i (prevout # prevouts) partialTx =
     rbind (fo_AddInWitnessUtxo env partialTx prevout i) (add_prevouts env (Suc i) prevouts)"

definition BuildForfeitTxWithOutput ::
    "('k, 'c, 't) forfeit_env \<Rightarrow> OutPoint list \<Rightarrow> u32 list \<Rightarrow> TxOut list \<Rightarrow> TxOut \<Rightarrow> u32 \<Rightarrow> ArkPsbt gores" where
  "BuildForfeitTxWithOutput env inputs sequences prevouts forfeitOutput txLocktime =
     rbind (ol_psbt_New (fo_lib env) inputs [forfeitOutput, AnchorOutput] 3 txLocktime sequences) (\<lambda>partialTx.
     rbind (fo_NewUpdater env partialTx) (\<lambda>_.
       add_prevouts env 0 prevouts partialTx))"

definition BuildForfeitTx ::
    "('k, 'c, 't) forfeit_env \<Rightarrow> OutPoint list \<Rightarrow> u32 list \<Rightarrow> TxOut list \<Rightarrow> bytes \<Rightarrow> u32 \<Rightarrow> ArkPsbt gores" where
  "BuildForfeitTx env inputs sequences prevouts signerScript txLocktime =
     BuildForfeitTxWithOutput env inputs sequences prevouts
       \<lparr>out_Value = sum_list (map out_Value prevouts) - ANCHOR_VALUE, out_PkScript = signerScript\<rparr> txLocktime"

subsection \<open>Verifying\<close>

record ValidForfeitTx =
  vf_Tx :: string
  vf_Connector :: Outpoint

text \<open>The first input that spends a leaf of the connector tree, with the output that it spends. The vtxo
  input is the other one, and must come with a leaf and signatures.\<close>

fun find_connector ::
    "('k, 'c, 't) forfeit_env \<Rightarrow> TxTreeNode list \<Rightarrow> ArkPsbt \<Rightarrow> nat \<Rightarrow> TxIn list \<Rightarrow> (nat \<times> TxOut) option gores" where
  "find_connector env connectorsLeaves tx i [] = Inr None"
| "find_connector env connectorsLeaves tx i (input # rest) =
     (case find (\<lambda>connector. node_Txid connector = ol_HashString (fo_lib env) (op_Hash (in_PreviousOutPoint input))) connectorsLeaves of
        None \<Rightarrow> find_connector env connectorsLeaves tx (Suc i) rest
      | Some connector \<Rightarrow>
          rbind (fo_parse env (node_Tx connector)) (\<lambda>connectorTx.
          let outs = tx_TxOut (psbt_UnsignedTx connectorTx); vout = unat (op_Index (in_PreviousOutPoint input)) in
          guard_err (length outs \<le> vout) (Errorf ''connector vout out of range'')
          (guard_err (length (pin_TaprootScriptSpendSig (ap_Inputs tx ! (1 - i))) = 0)
             (Errorf ''missing taproot script spend sig for vtxo input, invalid forfeit tx'')
          (guard_err (length (pin_TaprootLeafScript (ap_Inputs tx ! (1 - i))) = 0)
             (Errorf ''missing taproot leaf script for vtxo input, invalid forfeit tx'')
             (Inr (Some (i, outs ! vout)))))))"

definition forfeit_locktime :: "'k Closure \<Rightarrow> u32 option gores" where
  "forfeit_locktime closure =
     (case closure of
        CLTVMultisig c \<Rightarrow> Inr (Some (cltv_Locktime c))
      | Multisig _ \<Rightarrow> Inr None
      | ConditionMultisig _ \<Rightarrow> Inr None
      | _ \<Rightarrow> Inl (Errorf ''invalid forfeit closure script''))"

text \<open>The height and the time are converted to the 32 bits of a lock time.\<close>

definition locktime_passed :: "BlockTimestamp \<Rightarrow> u32 option \<Rightarrow> unit gores" where
  "locktime_passed blocktimestamp locktime =
     (case locktime of
        None \<Rightarrow> Inr ()
      | Some l \<Rightarrow>
          guard_err (l > (if AbsoluteLocktime_IsSeconds l then word_of_int (bt_Time blocktimestamp) else bt_Height blocktimestamp))
            (Errorf ''forfeit closure is CLTV locked'') (Inr ()))"

definition check_prevout :: "ArkPsbt \<Rightarrow> nat \<times> TxOut \<Rightarrow> unit gores" where
  "check_prevout tx = (\<lambda>(i, prevout).
     guard_err (pin_WitnessUtxo (ap_Inputs tx ! i) \<noteq> Some prevout) (Errorf ''invalid witness utxo for input'') (Inr ()))"

text \<open>The spending proof of the vtxo input, in the transaction that the server built.\<close>

definition carry_proof ::
    "('k, 'c, 't) forfeit_env \<Rightarrow> ArkPsbt \<Rightarrow> nat \<Rightarrow> TaprootTapLeafScript \<Rightarrow> 'k Closure \<Rightarrow> ArkPsbt \<Rightarrow> ArkPsbt gores" where
  "carry_proof env tx k leafScript closure rebuiltPtx =
     (let tap = ol_tap (fo_lib env);
          input = (ap_Inputs rebuiltPtx ! k)\<lparr>pin_TaprootLeafScript := [leafScript],
            pin_TaprootScriptSpendSig := pin_TaprootScriptSpendSig (ap_Inputs tx ! k)\<rparr>;
          rebuiltPtx = rebuiltPtx\<lparr>ap_Inputs := (ap_Inputs rebuiltPtx)[k := input]\<rparr> in
      case closure of
        ConditionMultisig _ \<Rightarrow>
          rbind (GetArkPsbtConditionWitness (tp_ts tap) (tp_writeTxWitness tap) tx k) (\<lambda>witness.
            case witness of
              None \<Rightarrow> Inr rebuiltPtx
            | Some w \<Rightarrow> SetArkPsbtField rebuiltPtx k (ConditionWitnessField (tp_ts tap) (tp_writeTxWitness tap)) w)
      | _ \<Rightarrow> Inr rebuiltPtx)"

text \<open>The transaction that the server makes of a submitted one whose input \<open>k\<close> spends the vtxo and whose other input spends a
  connector.\<close>

definition rebuild_forfeit ::
    "('k, 'c, 't) forfeit_env \<Rightarrow> bytes \<Rightarrow> BlockTimestamp \<Rightarrow> u64 \<Rightarrow> ArkPsbt \<Rightarrow> nat \<Rightarrow> TxOut \<Rightarrow> Vtxo \<Rightarrow> string gores" where
  "rebuild_forfeit env forfeitScript blocktimestamp dustAmount tx k connectorOutput vtxo =
     (let tap = ol_tap (fo_lib env); txin = tx_TxIn (psbt_UnsignedTx tx); vtxoTapscript = pin_TaprootLeafScript (ap_Inputs tx ! k) ! 0;
          inputAmount = vtxo_Amount vtxo + out_Value connectorOutput in
      rbind (DecodeClosure (tp_ts tap) (tls_Script vtxoTapscript)) (\<lambda>closure.
      rbind (forfeit_locktime closure) (\<lambda>locktime.
      rbind (locktime_passed blocktimestamp locktime) (\<lambda>_.
      guard_err (inputAmount < dustAmount) (Errorf ''forfeit tx output amount is dust'')
      (rbind (vtxo_script tap vtxo) (\<lambda>vtxoScript.
       let vtxoPrevout = \<lparr>out_Value = vtxo_Amount vtxo, out_PkScript = vtxoScript\<rparr>;
           vtxoSequence = (case locktime of None \<Rightarrow> MaxTxInSequenceNum | Some _ \<Rightarrow> MaxTxInSequenceNum - 1);
           txLocktime = (case locktime of None \<Rightarrow> 0 | Some l \<Rightarrow> l);
           inputs = map in_PreviousOutPoint [txin ! 0, txin ! 1];
           (sequences, prevouts) = (if k = 0
             then ([vtxoSequence, MaxTxInSequenceNum], [vtxoPrevout, connectorOutput])
             else ([MaxTxInSequenceNum, vtxoSequence], [connectorOutput, vtxoPrevout])) in
       rbind (BuildForfeitTx env inputs sequences prevouts forfeitScript txLocktime) (\<lambda>rebuiltPtx.
       guard_err (TxID (fo_lib env) rebuiltPtx \<noteq> TxID (fo_lib env) tx) (Errorf ''invalid forfeit tx'')
       (rbind (check_all (check_prevout tx) (List.enumerate 0 prevouts)) (\<lambda>_.
        rbind (carry_proof env tx k vtxoTapscript closure rebuiltPtx) (\<lambda>rebuiltPtx.
          fo_B64Encode env rebuiltPtx))))))))))"

text \<open>One turn of the loop over the submitted transactions. One that has not two inputs, and one for a vtxo that
  has its forfeit already, is passed over.\<close>

definition verify_forfeit ::
    "('k, 'c, 't) forfeit_env \<Rightarrow> TxTreeNode list \<Rightarrow> (Outpoint \<times> Vtxo) list \<Rightarrow> bytes \<Rightarrow> BlockTimestamp \<Rightarrow> u64 \<Rightarrow> string \<Rightarrow>
       (Outpoint \<times> ValidForfeitTx) list \<Rightarrow> (Outpoint \<times> ValidForfeitTx) list gores" where
  "verify_forfeit env connectorsLeaves indexedVtxos forfeitScript blocktimestamp dustAmount forfeitTx validForfeitTxs =
     rbind (fo_parse env forfeitTx) (\<lambda>tx.
       if length (ap_Inputs tx) \<noteq> 2 then Inr validForfeitTxs
       else
         rbind (find_connector env connectorsLeaves tx 0 (tx_TxIn (psbt_UnsignedTx tx))) (\<lambda>found.
           case found of
             None \<Rightarrow> Inl (Errorf ''missing connector in forfeit tx'')
           | Some (i, connectorOutput) \<Rightarrow>
               let k = 1 - i; vtxoKey = outpoint_of (fo_lib env) (tx_TxIn (psbt_UnsignedTx tx) ! k);
                   connector = outpoint_of (fo_lib env) (tx_TxIn (psbt_UnsignedTx tx) ! i) in
               if map_of validForfeitTxs vtxoKey \<noteq> None then Inr validForfeitTxs
               else (case map_of indexedVtxos vtxoKey of
                       None \<Rightarrow> Inl (Errorf ''missing vtxo'')
                     | Some vtxo \<Rightarrow>
                         rbind (rebuild_forfeit env forfeitScript blocktimestamp dustAmount tx k connectorOutput vtxo) (\<lambda>rebuiltTx.
                           Inr (AList.update vtxoKey \<lparr>vf_Tx = rebuiltTx, vf_Connector = connector\<rparr> validForfeitTxs)))))"

fun verify_forfeits ::
    "(string \<Rightarrow> (Outpoint \<times> ValidForfeitTx) list \<Rightarrow> (Outpoint \<times> ValidForfeitTx) list gores) \<Rightarrow> string list \<Rightarrow>
       (Outpoint \<times> ValidForfeitTx) list \<Rightarrow> (Outpoint \<times> ValidForfeitTx) list gores" where
  "verify_forfeits f [] valid = Inr valid"
| "verify_forfeits f (tx # txs) valid = rbind (f tx valid) (verify_forfeits f txs)"

definition VerifyAndRebuildForfeitTxs ::
    "('k, 'c, 't) forfeit_env \<Rightarrow> Vtxo list \<Rightarrow> FlatTxTree \<Rightarrow> string list \<Rightarrow> (Outpoint \<times> ValidForfeitTx) list gores" where
  "VerifyAndRebuildForfeitTxs env vtxos connectors forfeitTxs =
     (let connectorsLeaves = FlatTxTree_Leaves connectors in
      guard_err (length connectorsLeaves = 0) (Errorf ''invalid connectors tree'')
      (rbind (fo_getForfeitScript env) (\<lambda>forfeitScript.
       rbind (fo_GetCurrentBlockTime env) (\<lambda>blocktimestamp.
       rbind (fo_GetDustAmount env) (\<lambda>dustAmount.
         verify_forfeits (verify_forfeit env connectorsLeaves (index_vtxos vtxos) forfeitScript blocktimestamp dustAmount) forfeitTxs [])))))"

section \<open>What an accepted forfeit guarantees\<close>

text \<open>What the code relies on: the PSBT constructor gives the fields it is given, the updater sets the spent output of
  one input, and a parsed PSBT has as many inputs as its transaction.\<close>

definition forfeit_law :: "('k, 'c, 't) forfeit_env \<Rightarrow> bool" where
  "forfeit_law env \<longleftrightarrow> offchain_law (fo_lib env) \<and>
     (\<forall>p out i p'. fo_AddInWitnessUtxo env p out i = Inr p' \<longrightarrow>
        p' = p\<lparr>ap_Inputs := (ap_Inputs p)[i := (ap_Inputs p ! i)\<lparr>pin_WitnessUtxo := Some out\<rparr>]\<rparr>) \<and>
     (\<forall>tx p. fo_parse env tx = Inr p \<longrightarrow> length (ap_Inputs p) = length (tx_TxIn (psbt_UnsignedTx p)))"

lemma built_forfeit_facts:
  assumes "forfeit_law env" "BuildForfeitTx env inputs sequences [a, b] script locktime = Inr p" "length inputs = 2"
  shows "psbt_UnsignedTx p = \<lparr>tx_Version = 3, tx_TxIn = map (\<lambda>i. \<lparr>in_PreviousOutPoint = i\<rparr>) inputs,
      tx_TxOut = [\<lparr>out_Value = out_Value a + out_Value b - ANCHOR_VALUE, out_PkScript = script\<rparr>, AnchorOutput]\<rparr> \<and>
    length (ap_Inputs p) = 2 \<and> pin_WitnessUtxo (ap_Inputs p ! 0) = Some a \<and> pin_WitnessUtxo (ap_Inputs p ! 1) = Some b \<and>
    ap_LockTime p = locktime \<and> ap_Sequences p = sequences"
proof -
  obtain q q1 where q: "ol_psbt_New (fo_lib env) inputs [\<lparr>out_Value = out_Value a + out_Value b - ANCHOR_VALUE, out_PkScript = script\<rparr>, AnchorOutput]
      3 locktime sequences = Inr q" "fo_AddInWitnessUtxo env q a 0 = Inr q1" "fo_AddInWitnessUtxo env q1 b (Suc 0) = Inr p"
    using assms(2) by (auto simp: BuildForfeitTx_def BuildForfeitTxWithOutput_def rbind_eq_Inr)
  have "offchain_law (fo_lib env)" using assms(1) by (simp add: forfeit_law_def)
  then have "psbt_UnsignedTx q = \<lparr>tx_Version = 3, tx_TxIn = map (\<lambda>i. \<lparr>in_PreviousOutPoint = i\<rparr>) inputs,
      tx_TxOut = [\<lparr>out_Value = out_Value a + out_Value b - ANCHOR_VALUE, out_PkScript = script\<rparr>, AnchorOutput]\<rparr>"
    "length (ap_Inputs q) = 2" "ap_LockTime q = locktime" "ap_Sequences q = sequences"
    using q(1) assms(3) unfolding offchain_law_def by auto
  moreover have "q1 = q\<lparr>ap_Inputs := (ap_Inputs q)[0 := (ap_Inputs q ! 0)\<lparr>pin_WitnessUtxo := Some a\<rparr>]\<rparr>"
    "p = q1\<lparr>ap_Inputs := (ap_Inputs q1)[1 := (ap_Inputs q1 ! 1)\<lparr>pin_WitnessUtxo := Some b\<rparr>]\<rparr>"
    using q(2,3) assms(1) by (auto simp: forfeit_law_def)
  ultimately show ?thesis by simp
qed

lemma carry_proof_facts:
  assumes "carry_proof env tx k leafScript closure p = Inr p'" "k < length (ap_Inputs p)"
  shows "psbt_UnsignedTx p' = psbt_UnsignedTx p" "ap_LockTime p' = ap_LockTime p" "ap_Sequences p' = ap_Sequences p"
    "ap_Inputs p' = (ap_Inputs p)[k := (ap_Inputs p ! k)\<lparr>pin_TaprootLeafScript := [leafScript],
       pin_TaprootScriptSpendSig := pin_TaprootScriptSpendSig (ap_Inputs tx ! k)\<rparr>]"
  using assms
  by (auto simp: carry_proof_def SetArkPsbtField_def guard_err_eq_Inr rbind_eq_Inr Let_def split: Closure.split_asm option.split_asm)

text \<open>A transaction that takes a vtxo from its owner: it spends the vtxo and a connector worth \<open>out\<close>, and pays both to the
  server but for the anchor; the input of the vtxo carries the leaf and the signatures of the submitted transaction.\<close>

definition pays_forfeit ::
    "('k, 'c, 't) forfeit_env \<Rightarrow> bytes \<Rightarrow> Vtxo \<Rightarrow> Outpoint \<Rightarrow> TxOut \<Rightarrow> ArkPsbt \<Rightarrow> ArkPsbt \<Rightarrow> bool" where
  "pays_forfeit env script vtxo connector out p ptx \<longleftrightarrow>
     TxID (fo_lib env) ptx = TxID (fo_lib env) p \<and>
     tx_TxOut (psbt_UnsignedTx ptx) =
       [\<lparr>out_Value = vtxo_Amount vtxo + out_Value out - ANCHOR_VALUE, out_PkScript = script\<rparr>, AnchorOutput] \<and>
     (\<exists>k < 2. length (tx_TxIn (psbt_UnsignedTx ptx)) = 2 \<and> length (ap_Inputs ptx) = 2 \<and>
        outpoint_of (fo_lib env) (tx_TxIn (psbt_UnsignedTx ptx) ! k) = vtxo_Outpoint vtxo \<and>
        outpoint_of (fo_lib env) (tx_TxIn (psbt_UnsignedTx ptx) ! (1 - k)) = connector \<and>
        pin_WitnessUtxo (ap_Inputs ptx ! (1 - k)) = Some out \<and>
        (\<exists>pk. vtxo_script (ol_tap (fo_lib env)) vtxo = Inr pk \<and>
           pin_WitnessUtxo (ap_Inputs ptx ! k) = Some \<lparr>out_Value = vtxo_Amount vtxo, out_PkScript = pk\<rparr>) \<and>
        pin_TaprootLeafScript (ap_Inputs ptx ! k) = [pin_TaprootLeafScript (ap_Inputs p ! k) ! 0] \<and>
        pin_TaprootScriptSpendSig (ap_Inputs ptx ! k) = pin_TaprootScriptSpendSig (ap_Inputs p ! k) \<and>
        pin_TaprootScriptSpendSig (ap_Inputs p ! k) \<noteq> [])"

lemma rebuild_forfeit_facts:
  assumes "forfeit_law env" "rebuild_forfeit env script bt dust p k out vtxo = Inr r" "k < 2"
    and "outpoint_of (fo_lib env) (tx_TxIn (psbt_UnsignedTx p) ! k) = vtxo_Outpoint vtxo"
    and "outpoint_of (fo_lib env) (tx_TxIn (psbt_UnsignedTx p) ! (1 - k)) = connector" "pin_TaprootScriptSpendSig (ap_Inputs p ! k) \<noteq> []"
  shows "\<exists>ptx. fo_B64Encode env ptx = Inr r \<and> pays_forfeit env script vtxo connector out p ptx"
proof -
  let ?tap = "ol_tap (fo_lib env)" and ?lf = "pin_TaprootLeafScript (ap_Inputs p ! k) ! 0"
  let ?ins = "map in_PreviousOutPoint [tx_TxIn (psbt_UnsignedTx p) ! 0, tx_TxIn (psbt_UnsignedTx p) ! 1]"
  obtain closure pk sqs lt a b q ptx where q:
    "vtxo_script ?tap vtxo = Inr pk" "BuildForfeitTx env ?ins sqs [a, b] script lt = Inr q"
    "TxID (fo_lib env) q = TxID (fo_lib env) p" "carry_proof env p k ?lf closure q = Inr ptx" "fo_B64Encode env ptx = Inr r"
    "(a, b) = (let v = \<lparr>out_Value = vtxo_Amount vtxo, out_PkScript = pk\<rparr> in if k = 0 then (v, out) else (out, v))"
    using assms(2) by (auto simp: rebuild_forfeit_def Let_def rbind_eq_Inr guard_err_eq_Inr split: prod.split_asm if_split_asm)
  have k: "k = 0 \<or> k = 1" using assms(3) by auto
  note b = built_forfeit_facts [OF assms(1) q(2)]
  have len: "k < length (ap_Inputs q)" using b assms(3) by simp
  note c = carry_proof_facts [OF q(4) len]
  have "TxID (fo_lib env) ptx = TxID (fo_lib env) q" using c(1-3) by (simp add: TxID_def TxHash_def)
  then have "pays_forfeit env script vtxo connector out p ptx"
    using q(1,3,6) b c assms(4-6) k unfolding pays_forfeit_def
    by (auto intro!: exI [of _ k] simp: Let_def outpoint_of_def add.commute)
  then show ?thesis using q(5) by blast
qed

definition connector_of :: "('k, 'c, 't) forfeit_env \<Rightarrow> TxTreeNode list \<Rightarrow> Outpoint \<Rightarrow> TxOut \<Rightarrow> bool" where
  "connector_of env leaves connector out \<longleftrightarrow>
     (\<exists>c \<in> set leaves. \<exists>ctx. node_Txid c = outp_Txid connector \<and> fo_parse env (node_Tx c) = Inr ctx \<and>
        unat (outp_VOut connector) < length (tx_TxOut (psbt_UnsignedTx ctx)) \<and> out = tx_TxOut (psbt_UnsignedTx ctx) ! unat (outp_VOut connector))"

lemma find_connector_facts:
  "find_connector env leaves p i ins = Inr (Some (j, out)) \<Longrightarrow>
     i \<le> j \<and> j < i + length ins \<and> connector_of env leaves (outpoint_of (fo_lib env) (ins ! (j - i))) out \<and>
     pin_TaprootScriptSpendSig (ap_Inputs p ! (1 - j)) \<noteq> [] \<and> pin_TaprootLeafScript (ap_Inputs p ! (1 - j)) \<noteq> []"
proof (induction ins arbitrary: i)
  case (Cons x ins)
  show ?case
  proof (cases "find (\<lambda>connector. node_Txid connector = ol_HashString (fo_lib env) (op_Hash (in_PreviousOutPoint x))) leaves")
    case None
    then have run: "find_connector env leaves p (Suc i) ins = Inr (Some (j, out))" using Cons.prems by simp
    have IH: "Suc i \<le> j \<and> j < Suc i + length ins \<and> connector_of env leaves (outpoint_of (fo_lib env) (ins ! (j - Suc i))) out \<and>
     pin_TaprootScriptSpendSig (ap_Inputs p ! (1 - j)) \<noteq> [] \<and> pin_TaprootLeafScript (ap_Inputs p ! (1 - j)) \<noteq> []"
      by (rule Cons.IH [OF run])
    then have "(x # ins) ! (j - i) = ins ! (j - Suc i)" by (simp add: nth_Cons' Suc_diff_Suc)
    with IH show ?thesis by auto
  next
    case (Some c)
    then have c: "c \<in> set leaves" "node_Txid c = ol_HashString (fo_lib env) (op_Hash (in_PreviousOutPoint x))" by (auto simp: find_Some_iff)
    obtain ctx where "fo_parse env (node_Tx c) = Inr ctx" "unat (op_Index (in_PreviousOutPoint x)) < length (tx_TxOut (psbt_UnsignedTx ctx))"
      "j = i" "out = tx_TxOut (psbt_UnsignedTx ctx) ! unat (op_Index (in_PreviousOutPoint x))"
      "pin_TaprootScriptSpendSig (ap_Inputs p ! (1 - j)) \<noteq> []" "pin_TaprootLeafScript (ap_Inputs p ! (1 - j)) \<noteq> []"
      using Cons.prems Some by (auto simp: rbind_eq_Inr guard_err_eq_Inr Let_def)
    then show ?thesis using c by (auto simp: connector_of_def outpoint_of_def)
  qed
qed simp

text \<open>A forfeit that was accepted for a vtxo.\<close>

definition accepted_forfeit ::
    "('k, 'c, 't) forfeit_env \<Rightarrow> bytes \<Rightarrow> Vtxo list \<Rightarrow> TxTreeNode list \<Rightarrow> string list \<Rightarrow> Outpoint \<Rightarrow> ValidForfeitTx \<Rightarrow> bool" where
  "accepted_forfeit env script vtxos leaves txs key v \<longleftrightarrow>
     (\<exists>vtxo \<in> set vtxos. \<exists>tx \<in> set txs. \<exists>p ptx out. vtxo_Outpoint vtxo = key \<and> fo_parse env tx = Inr p \<and>
        fo_B64Encode env ptx = Inr (vf_Tx v) \<and> connector_of env leaves (vf_Connector v) out \<and>
        pays_forfeit env script vtxo (vf_Connector v) out p ptx)"

lemma verify_forfeit_facts:
  assumes law: "forfeit_law env" and tx: "tx \<in> set txs"
    and run: "verify_forfeit env leaves (index_vtxos vtxos) script bt dust tx valid = Inr valid'"
    and inv: "\<forall>key v. map_of valid key = Some v \<longrightarrow> accepted_forfeit env script vtxos leaves txs key v"
  shows "\<forall>key v. map_of valid' key = Some v \<longrightarrow> accepted_forfeit env script vtxos leaves txs key v"
proof (cases "valid' = valid")
  case False
  obtain p where p: "fo_parse env tx = Inr p" using run by (auto simp: verify_forfeit_def rbind_eq_Inr)
  have two: "length (ap_Inputs p) = 2" using run p False by (auto simp: verify_forfeit_def split: if_split_asm)
  then have ins: "length (tx_TxIn (psbt_UnsignedTx p)) = 2" using law p by (simp add: forfeit_law_def)
  obtain i out where f: "find_connector env leaves p 0 (tx_TxIn (psbt_UnsignedTx p)) = Inr (Some (i, out))"
    using run p two by (auto simp: verify_forfeit_def rbind_eq_Inr split: option.split_asm)
  define k where "k = 1 - i"
  let ?op = "\<lambda>j. outpoint_of (fo_lib env) (tx_TxIn (psbt_UnsignedTx p) ! j)"
  obtain vtxo r where v: "map_of (index_vtxos vtxos) (?op k) = Some vtxo" "rebuild_forfeit env script bt dust p k out vtxo = Inr r"
    "valid' = AList.update (?op k) \<lparr>vf_Tx = r, vf_Connector = ?op i\<rparr> valid"
    using run p two f False unfolding verify_forfeit_def
    by (auto simp: rbind_eq_Inr Let_def k_def split: option.split_asm if_split_asm)
  have fc: "i < 2" "connector_of env leaves (?op i) out" "pin_TaprootScriptSpendSig (ap_Inputs p ! k) \<noteq> []"
    using find_connector_facts [OF f] ins by (auto simp: k_def)
  have k: "k < 2" "1 - k = i" using fc(1) by (auto simp: k_def)
  have vt: "vtxo_Outpoint vtxo = ?op k" "vtxo \<in> set vtxos" using index_vtxos_keyed [OF v(1)] by auto
  obtain ptx where ptx: "fo_B64Encode env ptx = Inr r" "pays_forfeit env script vtxo (?op i) out p ptx"
    using rebuild_forfeit_facts [OF law v(2) k(1) vt(1) [symmetric] _ fc(3), of "?op i"] k(2) by auto
  have "accepted_forfeit env script vtxos leaves txs (?op k) \<lparr>vf_Tx = r, vf_Connector = ?op i\<rparr>"
    unfolding accepted_forfeit_def using vt tx p ptx fc(2) by fastforce
  then show ?thesis using inv v(3) by (auto simp: update_conv')
qed (use inv in simp)

lemma verify_forfeits_inv:
  assumes "verify_forfeits f txs valid = Inr valid'" "P valid" "\<And>tx v v'. tx \<in> set txs \<Longrightarrow> P v \<Longrightarrow> f tx v = Inr v' \<Longrightarrow> P v'"
  shows "P valid'"
  using assms by (induction txs arbitrary: valid) (auto simp: rbind_eq_Inr)

lemma valid_forfeits:
  assumes "forfeit_law env" "VerifyAndRebuildForfeitTxs env vtxos connectors txs = Inr valid" "map_of valid key = Some v"
  obtains script where "fo_getForfeitScript env = Inr script"
    "accepted_forfeit env script vtxos (FlatTxTree_Leaves connectors) txs key v"
proof -
  obtain script bt dust where r: "fo_getForfeitScript env = Inr script"
    "verify_forfeits (verify_forfeit env (FlatTxTree_Leaves connectors) (index_vtxos vtxos) script bt dust) txs [] = Inr valid"
    using assms(2) by (auto simp: VerifyAndRebuildForfeitTxs_def rbind_eq_Inr guard_err_eq_Inr Let_def)
  have "\<forall>key v. map_of valid key = Some v \<longrightarrow> accepted_forfeit env script vtxos (FlatTxTree_Leaves connectors) txs key v"
    by (rule verify_forfeits_inv [OF r(2)]) (use verify_forfeit_facts [OF assms(1)] in auto)
  then show thesis using that r(1) assms(3) by blast
qed

text \<open>C29: a forfeit transaction that the server keeps can punish its owner and nobody else: the server built it, its
  identifier is that of a submitted one, it spends a vtxo of the batch together with an output of a leaf of the connector tree,
  it pays both amounts to the server but for the anchor, and its vtxo input carries the submitted leaf and signatures.\<close>

theorem accepted_forfeits_pay_server:
  assumes "forfeit_law env" "VerifyAndRebuildForfeitTxs env vtxos connectors txs = Inr valid" "map_of valid key = Some v"
  shows "\<exists>script. fo_getForfeitScript env = Inr script \<and>
    (\<exists>vtxo \<in> set vtxos. \<exists>tx \<in> set txs. \<exists>p ptx out. vtxo_Outpoint vtxo = key \<and> fo_parse env tx = Inr p \<and>
       fo_B64Encode env ptx = Inr (vf_Tx v) \<and> connector_of env (FlatTxTree_Leaves connectors) (vf_Connector v) out \<and>
       pays_forfeit env script vtxo (vf_Connector v) out p ptx)"
  using valid_forfeits [OF assms] unfolding accepted_forfeit_def by metis

subsection \<open>A forfeit of the sample vtxo\<close>

definition sample_connector_out :: TxOut where
  "sample_connector_out = \<lparr>out_Value = 330, out_PkScript = [0x51]\<rparr>"

definition sample_forfeit :: ArkPsbt where
  "sample_forfeit =
     \<lparr>psbt_UnsignedTx = \<lparr>tx_Version = 3, tx_TxIn = map (\<lambda>h. \<lparr>in_PreviousOutPoint = \<lparr>op_Hash = h, op_Index = 0\<rparr>\<rparr>) [[3], [9]],
        tx_TxOut = [\<lparr>out_Value = 1330, out_PkScript = [1, 2]\<rparr>, AnchorOutput]\<rparr>,
      psbt_Unknowns = [[], []], ap_LockTime = 500, ap_Sequences = [MaxTxInSequenceNum, MaxTxInSequenceNum - 1],
      ap_Inputs =
        [\<lparr>pin_WitnessUtxo = Some sample_connector_out, pin_TaprootKeySpendSig = [], pin_TaprootScriptSpendSig = [], pin_TaprootLeafScript = []\<rparr>,
         \<lparr>pin_WitnessUtxo = Some \<lparr>out_Value = 1000, out_PkScript = sample_p2tr sample_k1\<rparr>, pin_TaprootKeySpendSig = [],
          pin_TaprootScriptSpendSig = [sample_sig 5 sample_cltv_script],
          pin_TaprootLeafScript = [\<lparr>tls_ControlBlock = [0, sample_k1], tls_Script = sample_cltv_script, tls_LeafVersion = BaseLeafVersion\<rparr>]\<rparr>],
      ap_TaprootTapTrees = [[], []]\<rparr>"

definition sample_connector_tx :: ArkPsbt where
  "sample_connector_tx = \<lparr>psbt_UnsignedTx = \<lparr>tx_Version = 3, tx_TxIn = [], tx_TxOut = [sample_connector_out]\<rparr>, psbt_Unknowns = [], ap_LockTime = 0,
     ap_Sequences = [], ap_Inputs = [], ap_TaprootTapTrees = [[]]\<rparr>"

definition sample_forfeit_env :: "(u8, bytes, bytes list) forfeit_env" where
  "sample_forfeit_env =
     \<lparr>fo_lib = sample_offchain_lib,
      fo_parse = (\<lambda>tx. if tx = ''connector'' then Inr sample_connector_tx else if tx = ''forfeit'' then Inr sample_forfeit else Inl (Errorf ''malformed psbt'')),
      fo_B64Encode = (\<lambda>_. Inr ''rebuilt''), fo_NewUpdater = (\<lambda>_. Inr ()),
      fo_AddInWitnessUtxo = (\<lambda>p out i. Inr (p\<lparr>ap_Inputs := (ap_Inputs p)[i := (ap_Inputs p ! i)\<lparr>pin_WitnessUtxo := Some out\<rparr>]\<rparr>)),
      fo_getForfeitScript = Inr [1, 2], fo_GetCurrentBlockTime = Inr \<lparr>bt_Height = 600, bt_Time = 10\<rparr>, fo_GetDustAmount = Inr 330\<rparr>"

definition sample_connectors :: FlatTxTree where
  "sample_connectors = [\<lparr>node_Txid = hex_EncodeToString [3], node_Tx = ''connector'', node_Children = []\<rparr>]"

lemma sample_forfeit_law: "forfeit_law sample_forfeit_env"
  using sample_offchain_law by (auto simp: forfeit_law_def sample_forfeit_env_def sample_connector_tx_def sample_forfeit_def split: if_splits)

lemma sample_vtxo_script: "vtxo_script sample_taproot_lib sample_owned = Inr (sample_p2tr sample_k1)"
  by (simp add: vtxo_script_def Vtxo_OutputScript_def Vtxo_TapKey_def sample_owned_def sample_key_parsed sample_pay del: replicate.simps)

lemma sample_forfeit_rebuilt:
  "rebuild_forfeit sample_forfeit_env [1, 2] \<lparr>bt_Height = 600, bt_Time = 10\<rparr> 330 sample_forfeit 1 sample_connector_out sample_owned = Inr ''rebuilt''"
proof -
  have e: "fo_lib sample_forfeit_env = sample_offchain_lib" "fo_NewUpdater sample_forfeit_env p = Inr ()" "fo_B64Encode sample_forfeit_env p = Inr ''rebuilt''"
    "fo_AddInWitnessUtxo sample_forfeit_env p out i = Inr (p\<lparr>ap_Inputs := (ap_Inputs p)[i := (ap_Inputs p ! i)\<lparr>pin_WitnessUtxo := Some out\<rparr>]\<rparr>)" for p out i
    by (simp_all add: sample_forfeit_env_def)
  have a: "vtxo_Amount sample_owned = 1000" by (simp add: sample_owned_def)
  have n: "ol_psbt_New sample_offchain_lib ins outs v l sqs = Inr
        \<lparr>psbt_UnsignedTx = \<lparr>tx_Version = v, tx_TxIn = map (\<lambda>i. \<lparr>in_PreviousOutPoint = i\<rparr>) ins, tx_TxOut = outs\<rparr>,
         psbt_Unknowns = replicate (length ins) [], ap_LockTime = l, ap_Sequences = sqs,
         ap_Inputs = map (\<lambda>_. \<lparr>pin_WitnessUtxo = None, pin_TaprootKeySpendSig = [], pin_TaprootScriptSpendSig = [], pin_TaprootLeafScript = []\<rparr>) ins,
         ap_TaprootTapTrees = replicate (length outs) []\<rparr>" for ins outs v l sqs
    by (simp add: sample_offchain_lib_def)
  show ?thesis
    using sample_cltv_decoded
    by (simp add: rebuild_forfeit_def e n a sample_vtxo_script forfeit_locktime_def locktime_passed_def BuildForfeitTx_def BuildForfeitTxWithOutput_def
        check_prevout_def carry_proof_def Let_def TxID_def TxHash_def)
      (simp add: sample_forfeit_def sample_connector_out_def sample_cltv_def AbsoluteLocktime_IsSeconds_def nLocktimeMinSeconds_def ANCHOR_VALUE_def)
qed

lemma sample_forfeit_valid:
  "VerifyAndRebuildForfeitTxs sample_forfeit_env [sample_owned] sample_connectors [''forfeit''] =
     Inr [(vtxo_Outpoint sample_owned, \<lparr>vf_Tx = ''rebuilt'', vf_Connector = \<lparr>outp_Txid = hex_EncodeToString [3], outp_VOut = 0\<rparr>\<rparr>)]"
proof -
  have i: "index_vtxos [sample_owned] = [(vtxo_Outpoint sample_owned, sample_owned)]" by (simp add: index_vtxos_def)
  have op: "outpoint_of sample_offchain_lib (tx_TxIn (psbt_UnsignedTx sample_forfeit) ! 1) = vtxo_Outpoint sample_owned"
    "outpoint_of sample_offchain_lib (tx_TxIn (psbt_UnsignedTx sample_forfeit) ! 0) = \<lparr>outp_Txid = hex_EncodeToString [3], outp_VOut = 0\<rparr>"
    by (simp_all add: outpoint_of_def sample_forfeit_def sample_owned_def)
  have f: "find_connector sample_forfeit_env sample_connectors sample_forfeit 0 (tx_TxIn (psbt_UnsignedTx sample_forfeit)) = Inr (Some (0, sample_connector_out))"
    by (simp add: sample_forfeit_env_def sample_connectors_def sample_forfeit_def sample_connector_tx_def)
  have l: "FlatTxTree_Leaves sample_connectors = sample_connectors" "sample_connectors \<noteq> []"
    by (simp_all add: FlatTxTree_Leaves_def sample_connectors_def)
  have e: "fo_lib sample_forfeit_env = sample_offchain_lib" "fo_parse sample_forfeit_env ''forfeit'' = Inr sample_forfeit"
    "fo_getForfeitScript sample_forfeit_env = Inr [1, 2]" "fo_GetCurrentBlockTime sample_forfeit_env = Inr \<lparr>bt_Height = 600, bt_Time = 10\<rparr>"
    "fo_GetDustAmount sample_forfeit_env = Inr 330" "length (ap_Inputs sample_forfeit) = 2"
    by (simp_all add: sample_forfeit_env_def sample_forfeit_def)
  show ?thesis
    unfolding VerifyAndRebuildForfeitTxs_def l(1) verify_forfeit_def
    by (simp add: e f l i op [simplified] sample_forfeit_rebuilt [simplified] Let_def)
qed

theorem accepted_forfeits_pay_server_witness:
  "\<exists>p ptx out. fo_parse sample_forfeit_env ''forfeit'' = Inr p \<and> connector_of sample_forfeit_env sample_connectors \<lparr>outp_Txid = hex_EncodeToString [3], outp_VOut = 0\<rparr> out \<and>
     pays_forfeit sample_forfeit_env [1, 2] sample_owned \<lparr>outp_Txid = hex_EncodeToString [3], outp_VOut = 0\<rparr> out p ptx"
proof -
  have "fo_getForfeitScript sample_forfeit_env = Inr [1, 2]" "FlatTxTree_Leaves sample_connectors = sample_connectors"
    by (simp_all add: sample_forfeit_env_def FlatTxTree_Leaves_def sample_connectors_def)
  then show ?thesis
    using accepted_forfeits_pay_server [OF sample_forfeit_law sample_forfeit_valid, of "vtxo_Outpoint sample_owned"] by auto
qed

end
