(* ===== verification/Live_Sessions.thy ===== *)
theory Live_Sessions
  imports Forfeit_Txs
begin

section \<open>Sessions of a batch in the live store\<close>

text \<open>
  \<open>internal/infrastructure/live-store/redis\<close>: \<open>forfeits.go\<close>, \<open>confirmation_sessions.go\<close>, \<open>tree_signing_session.go\<close> and
  \<open>boarding_inputs.go\<close>, what the participants of a batch hand in between its registration and its broadcast. As in the
  other stores a transaction of Redis is a function of one try inside \<^emph>\<open>redis\_retry\<close>, and values are kept as they were
  before \<open>json.Marshal\<close>. A hash of Redis is an association list in the order in which \<open>HGETALL\<close> answers; a key that is not
  there is \<open>None\<close>. A read outside a transaction takes the store at that moment and its failure.
\<close>

definition redis_read :: "string \<Rightarrow> ('s \<Rightarrow> 'v option) \<Rightarrow> 's \<times> redis_error option \<Rightarrow> 'v sres" where
  "redis_read msg get = (\<lambda>(s, fault).
     case fault of
       Some e \<Rightarrow> Inl (StoreErrorf msg (Some (OfRedis e)))
     | None \<Rightarrow> (case get s of
           None \<Rightarrow> Inl (StoreErrorf msg (Some (StoreErrorf ''redis: nil'' None)))
         | Some v \<Rightarrow> Inr v))"

definition fail_with :: "redis_error option \<Rightarrow> 'a sres \<Rightarrow> 'a sres" where
  "fail_with fault r = (case fault of None \<Rightarrow> r | Some e \<Rightarrow> Inl (OfRedis e))"

subsection \<open>forfeits.go\<close>

text \<open>The hash of forfeit transactions by vtxo (\<open>None\<close> is the empty string of a vtxo without one), and the keys of the
  batch: its connectors, the vtxos to sign, the vtxo that each connector was assigned to, the intent of each vtxo, and the
  identifier of the batch.\<close>

record forfeitTxsStore =
  fs_txs :: "ValidForfeitTx option gomap"
  fs_connectors :: "FlatTxTree option"
  fs_vtxos :: "Vtxo list option"
  fs_connidx :: "Outpoint gomap option"
  fs_intents :: "string gomap option"
  fs_batch :: "string option"

definition NewForfeitTxsStore :: forfeitTxsStore where
  "NewForfeitTxsStore = \<lparr>fs_txs = [], fs_connectors = None, fs_vtxos = None, fs_connidx = None, fs_intents = None, fs_batch = None\<rparr>"

definition vtxos_to_sign :: "Intent list \<Rightarrow> (Vtxo \<times> string) list" where
  "vtxos_to_sign intents =
     concat (map (\<lambda>intent. map (\<lambda>vtxo. (vtxo, int_Id intent)) (filter Vtxo_RequiresForfeit (int_Inputs intent))) intents)"

definition HSet_all :: "(string \<times> 'v) list \<Rightarrow> 'v gomap \<Rightarrow> 'v gomap" where
  "HSet_all kvs h = fold (\<lambda>(k, v). AList.update k v) kvs h"

text \<open>The loop that assigns connectors runs over the connectors and indexes the vtxos. An index out of range is a panic of
  the process, which is \<open>None\<close>.\<close>

fun assign_connectors :: "nat \<Rightarrow> Outpoint list \<Rightarrow> Vtxo list \<Rightarrow> Outpoint gomap \<Rightarrow> Outpoint gomap option" where
  "assign_connectors i [] vtxosToSign connIndex = Some connIndex"
| "assign_connectors i (connectorOutpoint # connectorsOutpoints) vtxosToSign connIndex =
     (if i < length vtxosToSign
      then assign_connectors (Suc i) connectorsOutpoints vtxosToSign
             (AList.update (Outpoint_String connectorOutpoint) (vtxo_Outpoint (vtxosToSign ! i)) connIndex)
      else None)"

definition connector_index :: "Outpoint list \<Rightarrow> Vtxo list \<Rightarrow> Outpoint gomap option" where
  "connector_index connectorsOutpoints vtxosToSign = assign_connectors 0 connectorsOutpoints vtxosToSign []"

definition forfeits_Init ::
    "string \<Rightarrow> FlatTxTree \<Rightarrow> Intent list \<Rightarrow> (forfeitTxsStore \<times> redis_error option) list \<Rightarrow> forfeitTxsStore sres option" where
  "forfeits_Init roundId connectors intents tries =
     (let owned = vtxos_to_sign intents; vtxosToSign = map fst owned; leaves = FlatTxTree_Leaves connectors;
          connectorsOutpoints = map (\<lambda>leaf. \<lparr>outp_Txid = node_Txid leaf, outp_VOut = 0\<rparr>) leaves;
          store = (\<lambda>connIndex.
            redis_retry (\<lambda>_. False) (StoreErrorf ''failed to init forfeit txs after max num of retries'')
              (\<lambda>_. Inr \<lparr>fs_txs = HSet_all (map (\<lambda>v. (Outpoint_String (vtxo_Outpoint v), None)) vtxosToSign) [],
                        fs_connectors = Some connectors, fs_vtxos = Some vtxosToSign, fs_connidx = Some connIndex,
                        fs_intents = Some (HSet_all (map (\<lambda>(v, i). (Outpoint_String (vtxo_Outpoint v), i)) owned) []),
                        fs_batch = Some roundId\<rparr>) tries None) in
      if length vtxosToSign = 0 then Some (store [])
      else if length leaves = 0 then Some (Inl (StoreErrorf ''no connectors found'' None))
      else if length vtxosToSign > length connectorsOutpoints
           then Some (Inl (StoreErrorf ''more vtxos to sign than outpoints'' None))
      else (case connector_index connectorsOutpoints vtxosToSign of
              None \<Rightarrow> None
            | Some connIndex \<Rightarrow> Some (store connIndex)))"

text \<open>The loop of \<open>Sign\<close> over the verified transactions: each uses a connector that was assigned to a vtxo of the
  same intent, and no other one of the request uses it.\<close>

definition map_string :: "string gomap \<Rightarrow> string \<Rightarrow> string" where
  "map_string m k = (case map_of m k of None \<Rightarrow> [] | Some v \<Rightarrow> v)"

fun sign_checks ::
    "Outpoint gomap \<Rightarrow> string gomap \<Rightarrow> (Outpoint \<times> ValidForfeitTx) list \<Rightarrow> ValidForfeitTx gomap \<times> Outpoint list \<Rightarrow>
       (ValidForfeitTx gomap \<times> Outpoint list) sres" where
  "sign_checks connIndex vtxoIntents [] acc = Inr acc"
| "sign_checks connIndex vtxoIntents ((vtxo, validTx) # rest) (forfeits, submittedConnectors) =
     (case map_of connIndex (Outpoint_String (vf_Connector validTx)) of
        None \<Rightarrow> Inl (StoreErrorf ''unknown connector'' None)
      | Some assignedVtxo \<Rightarrow>
          let intent = map_string vtxoIntents (Outpoint_String vtxo);
              assignedIntent = map_string vtxoIntents (Outpoint_String assignedVtxo) in
          guard_err (intent = [] \<or> assignedIntent = []) (StoreErrorf ''missing intent ownership'' None)
          (guard_err (intent \<noteq> assignedIntent) (StoreErrorf ''connector belongs to a different intent than vtxo'' None)
          (guard_err (vf_Connector validTx \<in> set submittedConnectors) (StoreErrorf ''connector is used more than once'' None)
             (sign_checks connIndex vtxoIntents rest
                (AList.update (Outpoint_String vtxo) validTx forfeits, vf_Connector validTx # submittedConnectors)))))"

text \<open>The scan of the stored forfeits that the request does not replace.\<close>

fun stored_connectors :: "ValidForfeitTx gomap \<Rightarrow> ValidForfeitTx option gomap \<Rightarrow> Outpoint list \<Rightarrow> unit sres" where
  "stored_connectors forfeits [] usedConnectors = Inr ()"
| "stored_connectors forfeits ((vtxo, stored) # rest) usedConnectors =
     (case stored of
        None \<Rightarrow> stored_connectors forfeits rest usedConnectors
      | Some validTx \<Rightarrow>
          if map_of forfeits vtxo \<noteq> None then stored_connectors forfeits rest usedConnectors
          else guard_err (vf_Connector validTx \<in> set usedConnectors) (StoreErrorf ''connector is used more than once'' None)
                 (stored_connectors forfeits rest (vf_Connector validTx # usedConnectors)))"

definition Sign_attempt ::
    "string \<Rightarrow> ValidForfeitTx gomap \<Rightarrow> Outpoint list \<Rightarrow> forfeitTxsStore \<Rightarrow> forfeitTxsStore sres" where
  "Sign_attempt roundId forfeits submittedConnectors s =
     guard_err (fs_batch s \<noteq> Some roundId) (StoreErrorf ''forfeit signing batch changed during verification'' None)
     (rbind (stored_connectors forfeits (fs_txs s) submittedConnectors) (\<lambda>_.
        Inr (s\<lparr>fs_txs := HSet_all (map (\<lambda>(k, v). (k, Some v)) forfeits) (fs_txs s)\<rparr>)))"

text \<open>What the five reads before the transaction find. \<open>verify\<close> is \<open>VerifyAndRebuildForfeitTxs\<close> of the builder, \<open>None\<close> a
  store without builder; \<open>Inr None\<close> is success without a change.\<close>

record sign_reads =
  sr_batch :: "forfeitTxsStore \<times> redis_error option"
  sr_vtxos :: "forfeitTxsStore \<times> redis_error option"
  sr_connectors :: "forfeitTxsStore \<times> redis_error option"
  sr_connidx :: "forfeitTxsStore \<times> redis_error option"
  sr_intents :: "forfeitTxsStore \<times> redis_error option"

type_synonym forfeit_verifier = "Vtxo list \<Rightarrow> FlatTxTree \<Rightarrow> string list \<Rightarrow> (Outpoint \<times> ValidForfeitTx) list gores"

definition forfeits_Sign ::
    "forfeit_verifier option \<Rightarrow> sign_reads \<Rightarrow> string list \<Rightarrow> (forfeitTxsStore \<times> redis_error option) list \<Rightarrow> forfeitTxsStore option sres" where
  "forfeits_Sign builder reads txs tries =
     (if length txs = 0 then Inr None
      else case builder of
        None \<Rightarrow> Inl (StoreErrorf ''missing builder for tx verification'' None)
      | Some verify \<Rightarrow>
          rbind (redis_read ''failed to get forfeit signing batch'' fs_batch (sr_batch reads)) (\<lambda>roundId.
          rbind (redis_read ''failed to get vtxos to sign'' fs_vtxos (sr_vtxos reads)) (\<lambda>vtxos.
          rbind (redis_read ''failed to get connectors'' fs_connectors (sr_connectors reads)) (\<lambda>connectors.
          rbind (redis_read ''failed to get connector indexes'' fs_connidx (sr_connidx reads)) (\<lambda>connIndex.
          rbind (redis_read ''failed to get vtxo intents'' fs_intents (sr_intents reads)) (\<lambda>vtxoIntents.
          rbind (map_err (\<lambda>e. StoreErrorf (error_text e) None) (verify vtxos connectors txs)) (\<lambda>validTxs.
          rbind (sign_checks connIndex vtxoIntents validTxs ([], [])) (\<lambda>(forfeits, submittedConnectors).
          rbind (redis_retry (\<lambda>e. e \<noteq> OfRedis TxFailedErr)
                   (StoreErrorf ''failed to add signed forfeit txs after max number of retries'')
                   (Sign_attempt roundId forfeits submittedConnectors) tries None) (\<lambda>s.
            Inr (Some s))))))))))"

definition forfeits_Reset :: "(forfeitTxsStore \<times> redis_error option) list \<Rightarrow> forfeitTxsStore sres" where
  "forfeits_Reset tries =
     redis_retry (\<lambda>_. False) (StoreErrorf ''failed to reset forfeit txs after max number of retries'')
       (\<lambda>_. Inr NewForfeitTxsStore) tries None"

fun pop_txs :: "ValidForfeitTx option gomap \<Rightarrow> Outpoint list \<Rightarrow> string list sres" where
  "pop_txs [] usedConnectors = Inr []"
| "pop_txs ((vtxo, stored) # rest) usedConnectors =
     (case stored of
        None \<Rightarrow> Inl (StoreErrorf (''missing forfeit tx for vtxo '' @ vtxo) None)
      | Some validTx \<Rightarrow>
          guard_err (vf_Connector validTx \<in> set usedConnectors) (StoreErrorf ''connector is used more than once'' None)
            (rbind (pop_txs rest (vf_Connector validTx # usedConnectors)) (\<lambda>txs. Inr (vf_Tx validTx # txs))))"

definition forfeits_Pop ::
    "forfeitTxsStore \<times> redis_error option \<Rightarrow> (forfeitTxsStore \<times> redis_error option) list \<Rightarrow> (string list \<times> forfeitTxsStore) sres" where
  "forfeits_Pop = (\<lambda>(s, fault) tries.
     rbind (fail_with fault (pop_txs (fs_txs s) [])) (\<lambda>result.
     rbind (forfeits_Reset tries) (\<lambda>s'. Inr (result, s'))))"

definition forfeits_AllSigned :: "forfeitTxsStore \<times> redis_error option \<Rightarrow> bool sres" where
  "forfeits_AllSigned = (\<lambda>(s, fault).
     fail_with fault (Inr (\<forall>(vtxo, stored) \<in> set (fs_txs s). case stored of None \<Rightarrow> False | Some v \<Rightarrow> length (vf_Tx v) > 0)))"

definition forfeits_GetUnsignedInputs :: "forfeitTxsStore \<times> redis_error option \<Rightarrow> Outpoint list sres" where
  "forfeits_GetUnsignedInputs = (\<lambda>(s, fault).
     fail_with fault (rbind
       (map_res (\<lambda>(vtxoStr, stored). map_err (\<lambda>_. StoreErrorf ''malformed data in storage'' None)
          (rbind (Outpoint_FromString vtxoStr) (\<lambda>vtxoKey. Inr (vtxoKey, stored)))) (fs_txs s))
       (\<lambda>rows. Inr (map fst (filter (\<lambda>(k, stored). case stored of None \<Rightarrow> True | Some v \<Rightarrow> length (vf_Tx v) = 0) rows)))))"

definition forfeits_Len :: "forfeitTxsStore \<times> redis_error option \<Rightarrow> nat sres" where
  "forfeits_Len = (\<lambda>(s, fault). fail_with fault (Inr (length (fs_txs s))))"

definition GetConnectorsIndexes :: "forfeitTxsStore \<times> redis_error option \<Rightarrow> Outpoint gomap sres" where
  "GetConnectorsIndexes = redis_read ''failed to get connector indexes'' fs_connidx"

section \<open>The store of forfeit transactions\<close>

subsection \<open>Hashes\<close>

lemma HSet_all_simps [simp]: "HSet_all [] h = h" "HSet_all ((k, v) # kvs) h = HSet_all kvs (AList.update k v h)"
  by (simp_all add: HSet_all_def)

lemma HSet_all_keys: "fst ` set (HSet_all kvs h) = fst ` set kvs \<union> fst ` set h"
proof (induction kvs arbitrary: h)
  case (Cons kv kvs)
  then show ?case by (cases kv) (simp add: dom_update)
qed simp

lemma HSet_all_distinct: "distinct (map fst h) \<Longrightarrow> distinct (map fst (HSet_all kvs h))"
  by (induction kvs arbitrary: h) (auto simp: distinct_update)

lemma HSet_all_map_of: "distinct (map fst kvs) \<Longrightarrow> map_of (HSet_all kvs h) = map_of h ++ map_of kvs"
proof (induction kvs arbitrary: h)
  case (Cons kv kvs)
  then have "fst kv \<notin> dom (map_of kvs)" by (auto simp: dom_map_of_conv_image_fst)
  then show ?case using Cons by (cases kv) (auto simp: update_conv' fun_eq_iff map_add_def split: option.split)
qed simp

subsection \<open>What the checks of \<open>Sign\<close> establish\<close>

text \<open>A forfeit for the vtxo \<open>k\<close> uses a connector of its own intent.\<close>

definition own_connector :: "Outpoint gomap \<Rightarrow> string gomap \<Rightarrow> string \<Rightarrow> ValidForfeitTx \<Rightarrow> bool" where
  "own_connector connIndex vtxoIntents k v \<longleftrightarrow>
     (\<exists>a. map_of connIndex (Outpoint_String (vf_Connector v)) = Some a \<and> map_string vtxoIntents k \<noteq> [] \<and>
        map_string vtxoIntents (Outpoint_String a) = map_string vtxoIntents k)"

text \<open>No two of the entries that \<open>m\<close> holds use the same connector.\<close>

definition exclusive_connectors :: "(string \<rightharpoonup> ValidForfeitTx) \<Rightarrow> bool" where
  "exclusive_connectors m \<longleftrightarrow> (\<forall>k k' v v'. m k = Some v \<longrightarrow> m k' = Some v' \<longrightarrow> vf_Connector v = vf_Connector v' \<longrightarrow> k = k')"

lemma sign_checks_facts:
  assumes "sign_checks idx ints valid (fs0, cs0) = Inr (fs, cs)" "distinct (map fst fs0)" "exclusive_connectors (map_of fs0)"
    and "\<And>k v. map_of fs0 k = Some v \<Longrightarrow> own_connector idx ints k v \<and> vf_Connector v \<in> set cs0"
  shows "distinct (map fst fs)" "exclusive_connectors (map_of fs)"
    "map_of fs k = Some v \<Longrightarrow> own_connector idx ints k v \<and> vf_Connector v \<in> set cs"
    "map_of fs k = Some v \<Longrightarrow> map_of fs0 k = Some v \<or> (\<exists>key. k = Outpoint_String key \<and> (key, v) \<in> set valid)"
proof -
  have "distinct (map fst fs) \<and> exclusive_connectors (map_of fs) \<and>
    (\<forall>k v. map_of fs k = Some v \<longrightarrow> own_connector idx ints k v \<and> vf_Connector v \<in> set cs \<and>
       (map_of fs0 k = Some v \<or> (\<exists>key. k = Outpoint_String key \<and> (key, v) \<in> set valid)))"
    using assms
  proof (induction valid arbitrary: fs0 cs0)
    case (Cons kv valid)
    obtain vtxo w where kv: "kv = (vtxo, w)" by (cases kv)
    let ?k = "Outpoint_String vtxo" and ?fs = "AList.update (Outpoint_String vtxo) w fs0"
    have own: "own_connector idx ints ?k w" and new: "vf_Connector w \<notin> set cs0"
      and rest: "sign_checks idx ints valid (?fs, vf_Connector w # cs0) = Inr (fs, cs)"
      using Cons.prems(1) kv by (auto simp: own_connector_def Let_def guard_err_eq_Inr split: option.split_asm)
    have "exclusive_connectors (map_of ?fs)"
      using Cons.prems(3,4) new by (fastforce simp: exclusive_connectors_def update_conv' split: if_split_asm)
    moreover have "own_connector idx ints k v \<and> vf_Connector v \<in> set (vf_Connector w # cs0)" if "map_of ?fs k = Some v" for k v
      using that own Cons.prems(4) by (auto simp: update_conv' split: if_split_asm)
    ultimately have IH: "distinct (map fst fs) \<and> exclusive_connectors (map_of fs) \<and>
      (\<forall>k v. map_of fs k = Some v \<longrightarrow> own_connector idx ints k v \<and> vf_Connector v \<in> set cs \<and>
       (map_of ?fs k = Some v \<or> (\<exists>key. k = Outpoint_String key \<and> (key, v) \<in> set valid)))"
      using Cons.IH [OF rest] Cons.prems(2) by (simp add: distinct_update)
    moreover have "map_of fs0 k = Some v \<or> (\<exists>key. k = Outpoint_String key \<and> (key, v) \<in> set (kv # valid))"
      if "map_of ?fs k = Some v \<or> (\<exists>key. k = Outpoint_String key \<and> (key, v) \<in> set valid)" for k v
      using that kv by (auto simp: update_conv' split: if_split_asm)
    ultimately show ?case by blast
  qed auto
  then show "distinct (map fst fs)" "exclusive_connectors (map_of fs)"
    "map_of fs k = Some v \<Longrightarrow> own_connector idx ints k v \<and> vf_Connector v \<in> set cs"
    "map_of fs k = Some v \<Longrightarrow> map_of fs0 k = Some v \<or> (\<exists>key. k = Outpoint_String key \<and> (key, v) \<in> set valid)"
    by blast+
qed

lemma stored_connectors_facts:
  assumes "stored_connectors forfeits h used = Inr ()" "distinct (map fst h)"
    and "map_of h k = Some (Some v)" "map_of forfeits k = None"
  shows "vf_Connector v \<notin> set used"
  using assms
proof (induction h arbitrary: used)
  case (Cons kx h)
  then show ?case by (cases kx) (fastforce simp: guard_err_eq_Inr split: option.split_asm if_split_asm)
qed simp

text \<open>The forfeits that a store holds.\<close>

definition stored_forfeits :: "forfeitTxsStore \<Rightarrow> string \<rightharpoonup> ValidForfeitTx" where
  "stored_forfeits s k = (case map_of (fs_txs s) k of Some (Some v) \<Rightarrow> Some v | _ \<Rightarrow> None)"

lemma stored_forfeits_iff: "stored_forfeits s k = Some v \<longleftrightarrow> map_of (fs_txs s) k = Some (Some v)"
  by (auto simp: stored_forfeits_def split: option.split)

lemma Sign_attempt_facts:
  assumes "Sign_attempt r forfeits cs s = Inr s'" "distinct (map fst forfeits)"
  shows "fs_batch s = Some r" "s' = s\<lparr>fs_txs := HSet_all (map (\<lambda>(k, v). (k, Some v)) forfeits) (fs_txs s)\<rparr>"
    "stored_connectors forfeits (fs_txs s) cs = Inr ()" "stored_forfeits s' = stored_forfeits s ++ map_of forfeits"
proof -
  show a: "fs_batch s = Some r" "s' = s\<lparr>fs_txs := HSet_all (map (\<lambda>(k, v). (k, Some v)) forfeits) (fs_txs s)\<rparr>"
    "stored_connectors forfeits (fs_txs s) cs = Inr ()"
    using assms(1) by (auto simp: Sign_attempt_def guard_err_eq_Inr rbind_eq_Inr)
  have d: "distinct (map fst (map (\<lambda>(k, v). (k, Some v)) forfeits))" using assms(2) by (simp add: comp_def case_prod_beta)
  have m: "map_of (map (\<lambda>(k, v). (k, Some v)) forfeits) k = map_option Some (map_of forfeits k)" for k
    by (induction forfeits) auto
  show "stored_forfeits s' = stored_forfeits s ++ map_of forfeits"
    unfolding a(2) by (rule ext) (auto simp: stored_forfeits_def HSet_all_map_of [OF d] map_add_def m split: option.split)
qed

subsection \<open>Runs\<close>

text \<open>The stores that a server can show over time, newest first. A signing request reads the identifier of its batch from some
  earlier store and the rest from that one or later ones; its tries fail until one finds the present store. Round identifiers
  are UUIDs (\<open>domain.NewRound\<close>), so no batch has the identifier of an earlier one.\<close>

definition reads_since :: "forfeitTxsStore list \<Rightarrow> sign_reads \<Rightarrow> bool" where
  "reads_since tr reads \<longleftrightarrow>
     (\<exists>newer older. tr = newer @ fst (sr_batch reads) # older \<and>
        {fst (sr_vtxos reads), fst (sr_connectors reads), fst (sr_connidx reads), fst (sr_intents reads)} \<subseteq> insert (fst (sr_batch reads)) (set newer))"

inductive forfeit_run :: "forfeit_verifier \<Rightarrow> forfeitTxsStore list \<Rightarrow> bool" for verify where
  start: "forfeit_run verify [NewForfeitTxsStore]"
| init: "forfeit_run verify tr \<Longrightarrow> \<forall>s \<in> set tr. fs_batch s \<noteq> Some r \<Longrightarrow> forfeits_Init r connectors intents tries = Some (Inr s') \<Longrightarrow>
    forfeit_run verify (s' # tr)"
| sign: "forfeit_run verify (s # tr) \<Longrightarrow> reads_since (s # tr) reads \<Longrightarrow> \<forall>t \<in> set failed. snd t = Some TxFailedErr \<Longrightarrow>
    forfeits_Sign (Some verify) reads txs (failed @ [(s, None)]) = Inr (Some s') \<Longrightarrow> forfeit_run verify (s' # s # tr)"
| reset: "forfeit_run verify tr \<Longrightarrow> forfeits_Reset tries = Inr s' \<Longrightarrow> forfeit_run verify (s' # tr)"

inductive_cases forfeit_run_ConsE: "forfeit_run verify (s # tr)"

lemma redis_retry_const: "redis_retry stop wrap (\<lambda>_. Inr a) tries e = Inr b \<Longrightarrow> b = a"
  by (induction tries arbitrary: e) (auto split: option.split_asm if_split_asm)

lemma redis_retry_last:
  assumes "redis_retry stop wrap f (failed @ [(s, None)]) e = Inr b" "\<forall>t \<in> set failed. snd t = Some TxFailedErr"
  shows "f s = Inr b"
  using assms by (induction failed arbitrary: e) (auto split: sum.split_asm if_split_asm)

lemma reset_store: "forfeits_Reset tries = Inr s' \<Longrightarrow> s' = NewForfeitTxsStore"
  unfolding forfeits_Reset_def by (rule redis_retry_const)

text \<open>The keys that stay as they are while a batch signs.\<close>

definition static_keys :: "forfeitTxsStore \<Rightarrow> FlatTxTree option \<times> Vtxo list option \<times> Outpoint gomap option \<times> string gomap option \<times> string option" where
  "static_keys s = (fs_connectors s, fs_vtxos s, fs_connidx s, fs_intents s, fs_batch s)"

text \<open>What a request that succeeded has done.\<close>

lemma sign_facts:
  assumes "forfeits_Sign (Some verify) reads txs (failed @ [(s, None)]) = Inr (Some s')" "\<forall>t \<in> set failed. snd t = Some TxFailedErr"
  obtains r vs cs idx ints valid fs used where
    "fs_batch (fst (sr_batch reads)) = Some r" "fs_vtxos (fst (sr_vtxos reads)) = Some vs" "fs_connectors (fst (sr_connectors reads)) = Some cs"
    "fs_connidx (fst (sr_connidx reads)) = Some idx" "fs_intents (fst (sr_intents reads)) = Some ints"
    "verify vs cs txs = Inr valid" "sign_checks idx ints valid ([], []) = Inr (fs, used)" "Sign_attempt r fs used s = Inr s'"
proof -
  obtain r vs cs idx ints valid fs used where x:
    "redis_read ''failed to get forfeit signing batch'' fs_batch (sr_batch reads) = Inr r"
    "redis_read ''failed to get vtxos to sign'' fs_vtxos (sr_vtxos reads) = Inr vs"
    "redis_read ''failed to get connectors'' fs_connectors (sr_connectors reads) = Inr cs"
    "redis_read ''failed to get connector indexes'' fs_connidx (sr_connidx reads) = Inr idx"
    "redis_read ''failed to get vtxo intents'' fs_intents (sr_intents reads) = Inr ints"
    "verify vs cs txs = Inr valid" "sign_checks idx ints valid ([], []) = Inr (fs, used)"
    "redis_retry (\<lambda>e. e \<noteq> OfRedis TxFailedErr) (StoreErrorf ''failed to add signed forfeit txs after max number of retries'')
       (Sign_attempt r fs used) (failed @ [(s, None)]) None = Inr s'"
    using assms(1) unfolding forfeits_Sign_def by (auto simp: rbind_eq_Inr map_err_eq_Inr split: if_split_asm)
  show thesis
    by (rule that [of r vs cs idx ints valid fs used]) (use x(1-7) redis_retry_last [OF x(8) assms(2)] in \<open>auto simp: redis_read_def split: prod.split_asm option.split_asm\<close>)
qed

lemma static_since:
  assumes "forfeit_run verify tr" "tr = newer @ s # older" "fs_batch s = Some r" "fs_batch (hd tr) = Some r" "x \<in> insert s (set newer)"
  shows "static_keys x = static_keys (hd tr)"
  using assms
proof (induction arbitrary: newer rule: forfeit_run.induct)
  case (init tr r' connectors intents tries s')
  have batch: "fs_batch s' = Some r'"
    using init.hyps(3) by (auto simp: forfeits_Init_def Let_def split: if_split_asm option.split_asm dest!: redis_retry_const)
  show ?case
  proof (cases newer)
    case (Cons a newer')
    then show ?thesis using init.prems init.hyps(2) batch by auto
  qed (use init.prems in auto)
next
  case (sign s0 tr reads failed txs s')
  obtain r0 fs used where "Sign_attempt r0 fs used s0 = Inr s'" using sign_facts [OF sign.hyps(4,3)] by metis
  then have st: "static_keys s' = static_keys s0"
    by (auto simp: Sign_attempt_def static_keys_def guard_err_eq_Inr rbind_eq_Inr)
  then have b0: "fs_batch (hd (s0 # tr)) = Some r" using sign.prems(3) by (simp add: static_keys_def)
  show ?case
  proof (cases newer)
    case (Cons a newer')
    then have eq: "a = s'" "s0 # tr = newer' @ s # older" using sign.prems(1) by auto
    show ?thesis
    proof (cases "x = s'")
      case False
      then have "x \<in> insert s (set newer')" using sign.prems(4) Cons eq(1) by auto
      then show ?thesis using sign.IH [OF eq(2) sign.prems(2) b0] st by simp
    qed simp
  qed (use sign.prems in auto)
next
  case (reset tr tries s')
  have "fs_batch s' = None" using reset_store [OF reset.hyps(2)] by (simp add: NewForfeitTxsStore_def)
  then show ?case using reset.prems(3) by simp
next
  case start
  have "fs_batch NewForfeitTxsStore = None" by (simp add: NewForfeitTxsStore_def)
  then show ?case using start.prems(3) by simp
qed

text \<open>What holds of every store that a server shows. \<open>ok\<close> is what the builder promises of its answers.\<close>

definition forfeits_sound :: "(Vtxo list \<Rightarrow> FlatTxTree \<Rightarrow> Outpoint \<Rightarrow> ValidForfeitTx \<Rightarrow> bool) \<Rightarrow> forfeitTxsStore \<Rightarrow> bool" where
  "forfeits_sound ok s \<longleftrightarrow> distinct (map fst (fs_txs s)) \<and> exclusive_connectors (stored_forfeits s) \<and>
     (case static_keys s of
        (Some cs, Some vs, Some idx, Some ints, Some r) \<Rightarrow>
          fst ` set (fs_txs s) = (Outpoint_String \<circ> vtxo_Outpoint) ` set vs \<and> fst ` set ints = fst ` set (fs_txs s) \<and>
          (\<forall>k v. stored_forfeits s k = Some v \<longrightarrow> own_connector idx ints k v \<and> (\<exists>key. k = Outpoint_String key \<and> ok vs cs key v))
      | st \<Rightarrow> st = (None, None, None, None, None) \<and> fs_txs s = [])"

lemma init_sound:
  assumes "forfeits_Init r connectors intents tries = Some (Inr s)"
  shows "forfeits_sound ok s"
proof -
  let ?vs = "map fst (vtxos_to_sign intents)"
  let ?h = "HSet_all (map (\<lambda>v. (Outpoint_String (vtxo_Outpoint v), None)) ?vs) ([] :: ValidForfeitTx option gomap)"
  let ?ints = "HSet_all (map (\<lambda>(v, i). (Outpoint_String (vtxo_Outpoint v), i)) (vtxos_to_sign intents)) []"
  obtain idx where s: "s = \<lparr>fs_txs = ?h, fs_connectors = Some connectors, fs_vtxos = Some ?vs, fs_connidx = Some idx, fs_intents = Some ?ints, fs_batch = Some r\<rparr>"
    using assms by (auto simp: forfeits_Init_def Let_def split: if_split_asm option.split_asm dest!: redis_retry_const)
  have none: "map_of (HSet_all (map (\<lambda>v. (f v, None)) xs) h) k \<noteq> Some (Some v)" if "map_of h k \<noteq> Some (Some v)"
    for xs :: "Vtxo list" and f k v and h :: "ValidForfeitTx option gomap"
    using that by (induction xs arbitrary: h) (auto simp: update_conv')
  have "stored_forfeits s k \<noteq> Some v" for k v unfolding stored_forfeits_iff using none [of "[]" k v "Outpoint_String \<circ> vtxo_Outpoint" ?vs] s by (simp add: comp_def)
  moreover have "distinct (map fst ?h)" by (rule HSet_all_distinct) simp
  moreover have "fst ` set ?h = (Outpoint_String \<circ> vtxo_Outpoint) ` set ?vs" by (simp add: HSet_all_keys image_image comp_def)
  moreover have "fst ` set ?ints = (Outpoint_String \<circ> vtxo_Outpoint) ` set ?vs" by (simp add: HSet_all_keys image_image case_prod_beta comp_def)
  ultimately show ?thesis using s by (simp add: forfeits_sound_def static_keys_def exclusive_connectors_def)
qed

lemma sign_sound:
  assumes run: "forfeit_run verify (s # tr)" and since: "reads_since (s # tr) reads" and failed: "\<forall>t \<in> set failed. snd t = Some TxFailedErr"
    and sign: "forfeits_Sign (Some verify) reads txs (failed @ [(s, None)]) = Inr (Some s')" and sound: "forfeits_sound ok s"
    and ok: "\<And>vs cs txs valid key v. verify vs cs txs = Inr valid \<Longrightarrow> (key, v) \<in> set valid \<Longrightarrow> ok vs cs key v"
  shows "forfeits_sound ok s'"
proof -
  obtain r vs cs idx ints valid fs used where f:
    "fs_batch (fst (sr_batch reads)) = Some r" "fs_vtxos (fst (sr_vtxos reads)) = Some vs" "fs_connectors (fst (sr_connectors reads)) = Some cs"
    "fs_connidx (fst (sr_connidx reads)) = Some idx" "fs_intents (fst (sr_intents reads)) = Some ints"
    "verify vs cs txs = Inr valid" "sign_checks idx ints valid ([], []) = Inr (fs, used)" "Sign_attempt r fs used s = Inr s'"
    by (rule sign_facts [OF sign failed])
  have "exclusive_connectors (map_of [])" by (simp add: exclusive_connectors_def)
  note c = sign_checks_facts [OF f(7) _ this, simplified]
  note a = Sign_attempt_facts [OF f(8) c(1)]
  obtain newer older where tr: "s # tr = newer @ fst (sr_batch reads) # older"
    "{fst (sr_vtxos reads), fst (sr_connectors reads), fst (sr_connidx reads), fst (sr_intents reads)} \<subseteq> insert (fst (sr_batch reads)) (set newer)"
    using since unfolding reads_since_def by blast
  have same: "static_keys x = static_keys s" if "x \<in> insert (fst (sr_batch reads)) (set newer)" for x
    using static_since [OF run tr(1) f(1) _ that] a(1) by simp
  have st: "static_keys s = (Some cs, Some vs, Some idx, Some ints, Some r)" "static_keys s' = static_keys s"
    using same [of "fst (sr_vtxos reads)"] same [of "fst (sr_connectors reads)"] same [of "fst (sr_connidx reads)"] same [of "fst (sr_intents reads)"]
      tr(2) f(2-5) a(1,2) by (auto simp: static_keys_def)
  have old: "distinct (map fst (fs_txs s))" "exclusive_connectors (stored_forfeits s)" "fst ` set (fs_txs s) = (Outpoint_String \<circ> vtxo_Outpoint) ` set vs"
    "fst ` set ints = fst ` set (fs_txs s)"
    "\<And>k v. stored_forfeits s k = Some v \<Longrightarrow> own_connector idx ints k v \<and> (\<exists>key. k = Outpoint_String key \<and> ok vs cs key v)"
    using sound st(1) by (auto simp: forfeits_sound_def)
  have new: "own_connector idx ints k v \<and> (\<exists>key. k = Outpoint_String key \<and> ok vs cs key v)" if "map_of fs k = Some v" for k v
    using c(3,4) [OF that] ok [OF f(6)] by blast
  have "fst ` set fs \<subseteq> fst ` set ints"
  proof
    fix k assume "k \<in> fst ` set fs"
    then obtain v where "map_of fs k = Some v" by (metis map_of_eq_None_iff not_None_eq)
    then have "map_string ints k \<noteq> []" using new by (auto simp: own_connector_def)
    then show "k \<in> fst ` set ints" by (metis map_of_eq_None_iff map_string_def option.case(1))
  qed
  then have keys: "fst ` set (fs_txs s') = fst ` set (fs_txs s)"
    using a(2) old(4) by (auto simp: HSet_all_keys image_image case_prod_beta)
  have apart: "vf_Connector v \<noteq> vf_Connector w" if "stored_forfeits s k = Some v" "map_of fs k = None" "map_of fs k' = Some w" for k k' v w
    using stored_connectors_facts [OF a(3) old(1)] that c(3) [OF that(3)] unfolding stored_forfeits_iff by metis
  have "exclusive_connectors (stored_forfeits s')"
    unfolding a(4) exclusive_connectors_def
  proof (intro allI impI)
    fix k k' v v'
    assume kv: "(stored_forfeits s ++ map_of fs) k = Some v" "(stored_forfeits s ++ map_of fs) k' = Some v'" "vf_Connector v = vf_Connector v'"
    show "k = k'"
      using kv apart [of k v k' v'] apart [of k' v' k v] old(2) c(2) unfolding exclusive_connectors_def
      by (auto simp: map_add_Some_iff)
  qed
  then show ?thesis
    using st old(1,3,4,5) new keys a(2,4) HSet_all_distinct
    by (auto simp: forfeits_sound_def map_add_Some_iff)
qed

lemma AllSigned_iff: "forfeits_AllSigned (s, None) = Inr b \<longleftrightarrow> b = (\<forall>(k, v) \<in> set (fs_txs s). \<exists>w. v = Some w \<and> vf_Tx w \<noteq> [])"
proof -
  have "(case v of None \<Rightarrow> False | Some w \<Rightarrow> length (vf_Tx w) > 0) \<longleftrightarrow> (\<exists>w. v = Some w \<and> vf_Tx w \<noteq> [])" for v :: "ValidForfeitTx option"
    by (cases v) auto
  then show ?thesis by (auto simp: forfeits_AllSigned_def fail_with_def)
qed

text \<open>The contract of the builder, and what the store derives from it.\<close>

locale forfeit_builder =
  fixes verify :: forfeit_verifier and ok :: "Vtxo list \<Rightarrow> FlatTxTree \<Rightarrow> Outpoint \<Rightarrow> ValidForfeitTx \<Rightarrow> bool"
  assumes verified: "verify vs cs txs = Inr valid \<Longrightarrow> (key, v) \<in> set valid \<Longrightarrow> ok vs cs key v"
begin

lemma run_sound: "forfeit_run verify tr \<Longrightarrow> forfeits_sound ok (hd tr)"
proof (induction rule: forfeit_run.induct)
  case start
  show ?case by (simp add: forfeits_sound_def static_keys_def NewForfeitTxsStore_def exclusive_connectors_def stored_forfeits_def)
next
  case (init tr r connectors intents tries s')
  then show ?case by (simp add: init_sound)
next
  case (sign s tr reads failed txs s')
  then show ?case using sign_sound [OF sign.hyps(1-4)] verified by auto
next
  case (reset tr tries s')
  then show ?case using reset_store [OF reset.hyps(2)]
    by (simp add: forfeits_sound_def static_keys_def NewForfeitTxsStore_def exclusive_connectors_def stored_forfeits_def)
qed

lemma stored_forfeit:
  assumes "forfeit_run verify (s # tr)" "stored_forfeits s k = Some v"
  shows "\<exists>cs vs idx ints r key. static_keys s = (Some cs, Some vs, Some idx, Some ints, Some r) \<and> own_connector idx ints k v \<and>
    k = Outpoint_String key \<and> ok vs cs key v \<and> (\<forall>k' v'. stored_forfeits s k' = Some v' \<longrightarrow> vf_Connector v' = vf_Connector v \<longrightarrow> k' = k)"
proof -
  have s: "forfeits_sound ok s" using run_sound [OF assms(1)] by simp
  have "fs_txs s \<noteq> []" using assms(2) by (auto simp: stored_forfeits_def)
  moreover obtain a b c d e where "static_keys s = (a, b, c, d, e)" by (cases "static_keys s")
  ultimately obtain cs vs idx ints r where st: "static_keys s = (Some cs, Some vs, Some idx, Some ints, Some r)"
    using s by (cases a; cases b; cases c; cases d; cases e) (simp_all add: forfeits_sound_def)
  then show ?thesis using s assms(2) unfolding forfeits_sound_def exclusive_connectors_def by fastforce
qed

text \<open>Once every vtxo of the batch has its forfeit, taking them out cannot fail but for Redis.\<close>

lemma pop_complete:
  assumes "forfeit_run verify (s # tr)" "forfeits_AllSigned (s, None) = Inr True"
  shows "pop_txs (fs_txs s) [] = Inr (map (\<lambda>(k, v). vf_Tx (the v)) (fs_txs s))"
proof -
  have s: "distinct (map fst (fs_txs s))" "exclusive_connectors (stored_forfeits s)" using run_sound [OF assms(1)] by (simp_all add: forfeits_sound_def)
  have all: "\<forall>(k, v) \<in> set (fs_txs s). v \<noteq> None" using assms(2) AllSigned_iff by fastforce
  have "pop_txs h used = Inr (map (\<lambda>(k, v). vf_Tx (the v)) h)"
    if "distinct (map fst h)" "\<forall>(k, v) \<in> set h. v \<noteq> None" "exclusive_connectors (\<lambda>k. Option.bind (map_of h k) (\<lambda>x. x))"
      "\<forall>(k, v) \<in> set h. vf_Connector (the v) \<notin> set used" for h used
    using that
  proof (induction h arbitrary: used)
    case (Cons kv h)
    obtain k v where kv: "kv = (k, Some v)" using Cons.prems(2) by (cases kv) auto
    have other: "vf_Connector (the w) \<noteq> vf_Connector v" if kw: "(k', w) \<in> set h" for k' w
    proof -
      have "k' \<noteq> k" "map_of (kv # h) k' = Some w" using kw Cons.prems(1) kv by (auto simp: image_iff)
      moreover obtain x where "w = Some x" using kw Cons.prems(2) by fastforce
      ultimately show ?thesis using Cons.prems(3) kv unfolding exclusive_connectors_def by (metis bind.bind_lunit map_of_Cons_code(2) option.sel)
    qed
    have sub: "Option.bind (map_of (kv # h) k') (\<lambda>x. x) = Some w" if "Option.bind (map_of h k') (\<lambda>x. x) = Some w" for k' w
    proof -
      have "k' \<in> fst ` set h" using that by (metis bind.bind_lzero map_of_eq_None_iff option.distinct(1))
      then have "k' \<noteq> k" using Cons.prems(1) kv by auto
      then show ?thesis using that kv by simp
    qed
    have ex: "exclusive_connectors (\<lambda>k. Option.bind (map_of h k) (\<lambda>x. x))"
      using Cons.prems(3) sub unfolding exclusive_connectors_def by blast
    have "\<forall>(k, w) \<in> set h. vf_Connector (the w) \<notin> set (vf_Connector v # used)" using other Cons.prems(4) by fastforce
    then have "pop_txs h (vf_Connector v # used) = Inr (map (\<lambda>(k, v). vf_Tx (the v)) h)"
      using Cons.prems(1,2) ex by (intro Cons.IH) simp_all
    then show ?case using Cons.prems(4) kv by (simp add: guard_err_def)
  qed simp
  moreover have "(\<lambda>k. Option.bind (map_of (fs_txs s) k) (\<lambda>x. x)) = stored_forfeits s"
    by (rule ext) (auto simp: stored_forfeits_def split: option.split)
  ultimately show ?thesis using s all by simp
qed

end

lemma verify_forfeit_update:
  assumes run: "verify_forfeit env leaves idx script bt dust tx v = Inr v'"
  shows "v' = v \<or> (\<exists>k x. v' = AList.update k x v)"
proof -
  obtain p where p: "fo_parse env tx = Inr p" using run by (auto simp: verify_forfeit_def rbind_eq_Inr)
  show ?thesis
  proof (cases "length (ap_Inputs p) = 2")
    case True
    obtain i out where f: "find_connector env leaves p 0 (tx_TxIn (psbt_UnsignedTx p)) = Inr (Some (i, out))"
      using run p True by (auto simp: verify_forfeit_def rbind_eq_Inr split: option.split_asm)
    show ?thesis using run p True f unfolding verify_forfeit_def
      by (auto simp: rbind_eq_Inr Let_def split: option.split_asm if_split_asm)
  qed (use run p in \<open>simp add: verify_forfeit_def\<close>)
qed

lemma valid_distinct: "VerifyAndRebuildForfeitTxs env vs cs txs = Inr valid \<Longrightarrow> distinct (map fst valid)"
proof -
  assume "VerifyAndRebuildForfeitTxs env vs cs txs = Inr valid"
  then obtain script bt dust where "verify_forfeits (verify_forfeit env (FlatTxTree_Leaves cs) (index_vtxos vs) script bt dust) txs [] = Inr valid"
    by (auto simp: VerifyAndRebuildForfeitTxs_def rbind_eq_Inr guard_err_eq_Inr Let_def)
  then show ?thesis
    by (rule verify_forfeits_inv [where P = "\<lambda>v. distinct (map fst v)"]) (auto dest!: verify_forfeit_update simp: distinct_update)
qed

text \<open>The builder of the server is such a builder: what it promises is what \<^emph>\<open>Forfeit\_Txs\<close> shows.\<close>

definition server_forfeit :: "('k, 'c, 't) forfeit_env \<Rightarrow> Vtxo list \<Rightarrow> FlatTxTree \<Rightarrow> Outpoint \<Rightarrow> ValidForfeitTx \<Rightarrow> bool" where
  "server_forfeit env vs cs key v \<longleftrightarrow> (forfeit_law env \<longrightarrow> (\<exists>script vtxo p ptx out. fo_getForfeitScript env = Inr script \<and> vtxo \<in> set vs \<and>
     vtxo_Outpoint vtxo = key \<and> fo_B64Encode env ptx = Inr (vf_Tx v) \<and> connector_of env (FlatTxTree_Leaves cs) (vf_Connector v) out \<and>
     pays_forfeit env script vtxo (vf_Connector v) out p ptx))"

interpretation rebuilding: forfeit_builder "VerifyAndRebuildForfeitTxs env" "server_forfeit env" for env
proof
  fix vs cs txs valid key v
  assume v: "VerifyAndRebuildForfeitTxs env vs cs txs = Inr valid" "(key, v) \<in> set valid"
  have "map_of valid key = Some v" using v(2) valid_distinct [OF v(1)] by simp
  then show "server_forfeit env vs cs key v"
    unfolding server_forfeit_def using valid_forfeits [OF _ v(1)] unfolding accepted_forfeit_def by metis
qed

text \<open>C7: however signing requests, new batches and resets interleave, every forfeit that the store holds takes a vtxo of the present batch from
  its owner and pays it to the server, its connector was assigned to the same intent as the vtxo, and no other stored forfeit uses that
  connector, so that all of them can be broadcast.\<close>

theorem stored_forfeits_enforceable:
  assumes "forfeit_law env" "forfeit_run (VerifyAndRebuildForfeitTxs env) (s # tr)" "map_of (fs_txs s) k = Some (Some v)"
  shows "\<exists>cs vs idx ints. fs_connectors s = Some cs \<and> fs_vtxos s = Some vs \<and> fs_connidx s = Some idx \<and> fs_intents s = Some ints \<and>
    own_connector idx ints k v \<and>
    (\<forall>k' v'. map_of (fs_txs s) k' = Some (Some v') \<longrightarrow> vf_Connector v' = vf_Connector v \<longrightarrow> k' = k) \<and>
    (\<exists>script vtxo p ptx out. fo_getForfeitScript env = Inr script \<and> vtxo \<in> set vs \<and> k = Outpoint_String (vtxo_Outpoint vtxo) \<and>
       fo_B64Encode env ptx = Inr (vf_Tx v) \<and> connector_of env (FlatTxTree_Leaves cs) (vf_Connector v) out \<and>
       pays_forfeit env script vtxo (vf_Connector v) out p ptx)"
proof -
  have "stored_forfeits s k = Some v" using assms(3) by (simp add: stored_forfeits_iff)
  from rebuilding.stored_forfeit [OF assms(2) this] obtain cs vs idx ints r key where
    f: "static_keys s = (Some cs, Some vs, Some idx, Some ints, Some r)" "own_connector idx ints k v" "k = Outpoint_String key"
    "server_forfeit env vs cs key v" "\<forall>k' v'. stored_forfeits s k' = Some v' \<longrightarrow> vf_Connector v' = vf_Connector v \<longrightarrow> k' = k" by blast
  then show ?thesis using assms(1) unfolding static_keys_def server_forfeit_def stored_forfeits_iff by fastforce
qed

text \<open>C17: when every vtxo of the batch has its forfeit, taking them out cannot be refused, whatever happened before: it gives one transaction
  for each vtxo of the batch and leaves an empty store.\<close>

theorem signed_forfeits_pop:
  assumes "forfeit_run (VerifyAndRebuildForfeitTxs env) (s # tr)" "forfeits_AllSigned (s, None) = Inr True"
  shows "forfeits_Pop (s, None) [(s', None)] = Inr (map (\<lambda>(k, v). vf_Tx (the v)) (fs_txs s), NewForfeitTxsStore) \<and>
    distinct (map fst (fs_txs s)) \<and>
    set (map fst (fs_txs s)) = (Outpoint_String \<circ> vtxo_Outpoint) ` set (case fs_vtxos s of None \<Rightarrow> [] | Some vs \<Rightarrow> vs)"
proof -
  have s: "forfeits_sound (server_forfeit env) s" using rebuilding.run_sound [OF assms(1)] by simp
  obtain a b c d e where st: "static_keys s = (a, b, c, d, e)" by (cases "static_keys s")
  then have "fs_vtxos s = b" by (simp add: static_keys_def)
  with s st have "distinct (map fst (fs_txs s))"
    "set (map fst (fs_txs s)) = (Outpoint_String \<circ> vtxo_Outpoint) ` set (case fs_vtxos s of None \<Rightarrow> [] | Some vs \<Rightarrow> vs)"
    by (cases a; cases b; cases c; cases d; cases e; simp add: forfeits_sound_def)+
  then show ?thesis using rebuilding.pop_complete [OF assms] by (simp add: forfeits_Pop_def forfeits_Reset_def fail_with_def)
qed

subsection \<open>A batch with one vtxo\<close>

definition sample_batch_intent :: Intent where
  "sample_batch_intent = \<lparr>int_Id = ''i'', int_Inputs = [sample_owned], int_Receivers = [], int_Proof = [], int_Message = [], int_Txid = [],
     int_LeafTxExtension = []\<rparr>"

abbreviation sample_key :: string where "sample_key \<equiv> Outpoint_String (vtxo_Outpoint sample_owned)"
abbreviation sample_connector :: Outpoint where "sample_connector \<equiv> \<lparr>outp_Txid = hex_EncodeToString [3], outp_VOut = 0\<rparr>"

definition sample_signing :: "ValidForfeitTx option \<Rightarrow> forfeitTxsStore" where
  "sample_signing v = \<lparr>fs_txs = [(sample_key, v)], fs_connectors = Some sample_connectors, fs_vtxos = Some [sample_owned],
     fs_connidx = Some [(Outpoint_String sample_connector, vtxo_Outpoint sample_owned)], fs_intents = Some [(sample_key, ''i'')], fs_batch = Some ''r''\<rparr>"

lemma sample_initialized: "forfeits_Init ''r'' sample_connectors [sample_batch_intent] [(NewForfeitTxsStore, None)] = Some (Inr (sample_signing None))"
proof -
  have "Vtxo_RequiresForfeit sample_owned" by (simp add: Vtxo_RequiresForfeit_def Vtxo_IsNote_def sample_owned_def)
  then have "vtxos_to_sign [sample_batch_intent] = [(sample_owned, ''i'')]" by (simp add: vtxos_to_sign_def sample_batch_intent_def)
  moreover have "FlatTxTree_Leaves sample_connectors = sample_connectors" "map node_Txid sample_connectors = [hex_EncodeToString [3]]"
    by (simp_all add: FlatTxTree_Leaves_def sample_connectors_def)
  ultimately show ?thesis
    by (simp add: forfeits_Init_def connector_index_def sample_signing_def Let_def sample_connectors_def)
qed

abbreviation sample_valid :: ValidForfeitTx where "sample_valid \<equiv> \<lparr>vf_Tx = ''rebuilt'', vf_Connector = sample_connector\<rparr>"

lemma sample_signed:
  "forfeits_Sign (Some (VerifyAndRebuildForfeitTxs sample_forfeit_env))
     \<lparr>sr_batch = (sample_signing None, None), sr_vtxos = (sample_signing None, None), sr_connectors = (sample_signing None, None),
      sr_connidx = (sample_signing None, None), sr_intents = (sample_signing None, None)\<rparr>
     [''forfeit''] ([] @ [(sample_signing None, None)]) = Inr (Some (sample_signing (Some sample_valid)))"
  using sample_forfeit_valid
  by (simp add: forfeits_Sign_def redis_read_def sample_signing_def Sign_attempt_def map_string_def Let_def guard_err_def)

lemma sample_forfeit_run:
  "forfeit_run (VerifyAndRebuildForfeitTxs sample_forfeit_env) [sample_signing (Some sample_valid), sample_signing None, NewForfeitTxsStore]"
proof -
  have "forfeit_run (VerifyAndRebuildForfeitTxs sample_forfeit_env) [sample_signing None, NewForfeitTxsStore]"
    by (rule forfeit_run.init [OF forfeit_run.start _ sample_initialized]) (simp add: NewForfeitTxsStore_def)
  from this _ _ sample_signed show ?thesis by (rule forfeit_run.sign) (auto simp: reads_since_def)
qed

theorem stored_forfeits_enforceable_witness:
  "\<exists>script p ptx out. fo_getForfeitScript sample_forfeit_env = Inr script \<and> pays_forfeit sample_forfeit_env script sample_owned sample_connector out p ptx"
proof -
  have s: "map_of (fs_txs (sample_signing (Some sample_valid))) sample_key = Some (Some sample_valid)"
    "fs_vtxos (sample_signing (Some sample_valid)) = Some [sample_owned]" by (simp_all add: sample_signing_def)
  from stored_forfeits_enforceable [OF sample_forfeit_law sample_forfeit_run s(1)] show ?thesis
  proof (elim exE conjE)
    fix vs script vtxo p ptx out
    assume "fs_vtxos (sample_signing (Some sample_valid)) = Some vs" "vtxo \<in> set vs" "fo_getForfeitScript sample_forfeit_env = Inr script"
      and pays: "pays_forfeit sample_forfeit_env script vtxo (vf_Connector sample_valid) out p ptx"
    moreover from this have "vtxo = sample_owned" using s(2) by auto
    ultimately show ?thesis by (metis ValidForfeitTx.select_convs(2))
  qed
qed

theorem signed_forfeits_pop_witness:
  "forfeits_Pop (sample_signing (Some sample_valid), None) [(NewForfeitTxsStore, None)] = Inr ([''rebuilt''], NewForfeitTxsStore)"
proof -
  have "forfeits_AllSigned (sample_signing (Some sample_valid), None) = Inr True" by (simp add: AllSigned_iff sample_signing_def)
  from signed_forfeits_pop [OF sample_forfeit_run this] show ?thesis by (simp add: sample_signing_def)
qed






end
