(* ===== verification/Signing_Sessions.thy ===== *)
theory Signing_Sessions
  imports Live_Sessions
begin

section \<open>Confirmations and signatures of a batch\<close>

text \<open>
  \<open>internal/infrastructure/live-store/redis\<close>: \<open>confirmation_sessions.go\<close>, in which the owners of the selected intents confirm,
  \<open>tree_signing_session.go\<close>, which collects the nonces and the partial signatures of the cosigners of the tree, and
  \<open>boarding_inputs.go\<close>, which collects the signatures on boarding inputs. Goroutines poll Redis and signal when everything has been handed
  in: a poll is what the reads of one tick of the timer find. The channels and the contexts that stop the goroutines are the input
  \<open>None\<close> of the loop.
\<close>

subsection \<open>Watching\<close>

datatype watch = Signalled | Stopped | Watching

fun watch_loop :: "('p \<Rightarrow> bool) \<Rightarrow> 'p option list \<Rightarrow> watch" where
  "watch_loop ready [] = Watching"
| "watch_loop ready (None # _) = Stopped"
| "watch_loop ready (Some poll # polls) = (if ready poll then Signalled else watch_loop ready polls)"

text \<open>Some loops answer with the last error as it is. (Set to no rounds at all they would answer with the nil of the declaration and write nothing;
  there are 10 by default, and the definitions are about one or more.)\<close>

definition last_error :: "store_error option \<Rightarrow> store_error" where
  "last_error e = (case e of Some e \<Rightarrow> e | None \<Rightarrow> StoreErrorf ''no tries'' None)"

subsection \<open>confirmation\_sessions.go\<close>

record confirmationStore =
  cf_intents :: "bytes \<rightharpoonup> bool"
  cf_numIntents :: "int option"
  cf_numConfirmed :: "int option"
  cf_initialized :: bool

definition NewConfirmationStore :: confirmationStore where
  "NewConfirmationStore = \<lparr>cf_intents = Map.empty, cf_numIntents = None, cf_numConfirmed = None, cf_initialized = False\<rparr>"

definition confirmation_Init_attempt :: "bytes list \<Rightarrow> confirmationStore \<Rightarrow> confirmationStore sres" where
  "confirmation_Init_attempt intentIDsHashes s =
     Inr \<lparr>cf_intents = (if intentIDsHashes = [] then cf_intents s else (\<lambda>h. if h \<in> set intentIDsHashes then Some False else None)),
          cf_numIntents = Some (int (length intentIDsHashes)), cf_numConfirmed = Some 0, cf_initialized = True\<rparr>"

definition confirmation_Init ::
    "bytes list \<Rightarrow> (confirmationStore \<times> redis_error option) list \<Rightarrow> confirmationStore sres" where
  "confirmation_Init intentIDsHashes tries =
     redis_retry (\<lambda>_. False) (StoreErrorf ''failed to init confirmation session after max num of retries'')
       (confirmation_Init_attempt intentIDsHashes) tries None"

definition confirmScript :: "bytes \<Rightarrow> confirmationStore \<Rightarrow> confirmationStore sres" where
  "confirmScript hash s =
     (case cf_intents s hash of
        None \<Rightarrow> Inl (StoreErrorf ''intent hash not found'' None)
      | Some True \<Rightarrow> Inr s
      | Some False \<Rightarrow>
          Inr (s\<lparr>cf_intents := (cf_intents s)(hash \<mapsto> True),
                 cf_numConfirmed := Some (case cf_numConfirmed s of None \<Rightarrow> 1 | Some n \<Rightarrow> n + 1)\<rparr>))"

definition Confirm_intent ::
    "(string \<Rightarrow> bytes) \<Rightarrow> string \<Rightarrow> redis_error option \<Rightarrow> confirmationStore \<Rightarrow> confirmationStore sres" where
  "Confirm_intent sha256 intentId fault s =
     map_err (\<lambda>e. StoreErrorf (''failed to confirm intent '' @ intentId) (Some e)) (fail_with fault (confirmScript (sha256 intentId) s))"

record ConfirmationSessions =
  cse_IntentsHashes :: "bytes \<rightharpoonup> bool"
  cse_NumIntents :: int
  cse_NumConfirmedIntents :: int

definition confirmation_Get ::
    "confirmationStore \<times> redis_error option \<Rightarrow> confirmationStore \<times> redis_error option \<Rightarrow> confirmationStore \<times> redis_error option \<Rightarrow>
       ConfirmationSessions sres" where
  "confirmation_Get read1 read2 read3 =
     rbind (redis_read ''failed to get intents'' (\<lambda>s. Some (cf_intents s)) read1) (\<lambda>intents.
     rbind (redis_read ''failed to get number of intents'' cf_numIntents read2) (\<lambda>numIntents.
     rbind (redis_read ''failed to get number of confirmed intents'' cf_numConfirmed read3) (\<lambda>numConfirmed.
       Inr \<lparr>cse_IntentsHashes = intents, cse_NumIntents = numIntents, cse_NumConfirmedIntents = numConfirmed\<rparr>)))"

definition confirmation_Reset :: "(confirmationStore \<times> redis_error option) list \<Rightarrow> confirmationStore sres" where
  "confirmation_Reset tries =
     redis_retry (\<lambda>_. False) (StoreErrorf ''failed to reset confirmation session after max number of retries'')
       (\<lambda>_. Inr NewConfirmationStore) tries None"

definition confirmation_Initialized :: "confirmationStore \<times> redis_error option \<Rightarrow> bool" where
  "confirmation_Initialized = (\<lambda>(s, fault). fault = None \<and> cf_initialized s)"

text \<open>A number that cannot be read is 0.\<close>

definition read_number :: "('s \<Rightarrow> int option) \<Rightarrow> 's \<times> redis_error option \<Rightarrow> int" where
  "read_number get = (\<lambda>(s, fault). case (fault, get s) of (None, Some n) \<Rightarrow> n | _ \<Rightarrow> 0)"

definition session_complete ::
    "(confirmationStore \<times> redis_error option) \<times> (confirmationStore \<times> redis_error option) \<Rightarrow> bool" where
  "session_complete = (\<lambda>(read1, read2).
     let numIntents = read_number cf_numIntents read1; numConfirmed = read_number cf_numConfirmed read2
     in numIntents > 0 \<and> numConfirmed = numIntents)"

definition watchSessionCompletion ::
    "((confirmationStore \<times> redis_error option) \<times> (confirmationStore \<times> redis_error option)) option list \<Rightarrow> watch" where
  "watchSessionCompletion = watch_loop session_complete"

subsection \<open>tree\_signing\_session.go\<close>

text \<open>The fields of the hash are JSON or decimal text of their values; here they are the values.\<close>

record SigningContext =
  sx_ScriptRoot :: bytes
  sx_BatchOutAmount :: int
  sx_VtxoTree :: FlatTxTree

record 'n session_meta =
  sm_Cosigners :: "string set"
  sm_NbCosigners :: int
  sm_Context :: SigningContext
  sm_AggregatedNonces :: "'n option"

record ('n, 'g) treeSigningSessionsStore =
  tss_meta :: "string \<rightharpoonup> 'n session_meta"
  tss_nonces :: "string \<Rightarrow> string \<rightharpoonup> 'n"
  tss_sigs :: "string \<Rightarrow> string \<rightharpoonup> 'g"

definition NewTreeSigningSessionsStore :: "('n, 'g) treeSigningSessionsStore" where
  "NewTreeSigningSessionsStore = \<lparr>tss_meta = Map.empty, tss_nonces = (\<lambda>_. Map.empty), tss_sigs = (\<lambda>_. Map.empty)\<rparr>"

text \<open>\<open>HSET\<close> writes four fields; aggregated nonces that are there stay.\<close>

definition session_New_attempt ::
    "string \<Rightarrow> string set \<Rightarrow> SigningContext \<Rightarrow> ('n, 'g) treeSigningSessionsStore \<Rightarrow> ('n, 'g) treeSigningSessionsStore sres" where
  "session_New_attempt roundId uniqueSignersPubKeys signingContext s =
     Inr (s\<lparr>tss_meta := (tss_meta s)(roundId \<mapsto>
       \<lparr>sm_Cosigners = uniqueSignersPubKeys, sm_NbCosigners = int (card uniqueSignersPubKeys) + 1, sm_Context = signingContext,
        sm_AggregatedNonces = Option.bind (tss_meta s roundId) sm_AggregatedNonces\<rparr>)\<rparr>)"

definition session_New ::
    "string \<Rightarrow> string set \<Rightarrow> SigningContext \<Rightarrow> (('n, 'g) treeSigningSessionsStore \<times> redis_error option) list \<Rightarrow>
       ('n, 'g) treeSigningSessionsStore sres" where
  "session_New roundId uniqueSignersPubKeys signingContext tries =
     redis_retry (\<lambda>_. False) last_error (session_New_attempt roundId uniqueSignersPubKeys signingContext) tries None"

record ('n, 'g) MusigSigningSession =
  mse_Meta :: "'n session_meta"
  mse_Nonces :: "string \<rightharpoonup> 'n"
  mse_Signatures :: "string \<rightharpoonup> 'g"

definition session_Get ::
    "string \<Rightarrow> ('n, 'g) treeSigningSessionsStore \<times> redis_error option \<Rightarrow> ('n, 'g) treeSigningSessionsStore \<times> redis_error option \<Rightarrow>
       ('n, 'g) treeSigningSessionsStore \<times> redis_error option \<Rightarrow> ('n, 'g) MusigSigningSession option sres" where
  "session_Get roundId = (\<lambda>(s1, fault1) (s2, fault2) (s3, fault3).
     fail_with fault1 (case tss_meta s1 roundId of
         None \<Rightarrow> Inr None
       | Some m \<Rightarrow> fail_with fault2 (fail_with fault3
           (Inr (Some \<lparr>mse_Meta = m, mse_Nonces = tss_nonces s2 roundId, mse_Signatures = tss_sigs s3 roundId\<rparr>)))))"

definition SetAggregatedNonces_attempt ::
    "string \<Rightarrow> 'n \<Rightarrow> ('n, 'g) treeSigningSessionsStore \<Rightarrow> ('n, 'g) treeSigningSessionsStore sres" where
  "SetAggregatedNonces_attempt roundId nonces s =
     (case tss_meta s roundId of
        None \<Rightarrow> Inl (StoreErrorf ''signing session not found for round'' None)
      | Some m \<Rightarrow> Inr (s\<lparr>tss_meta := (tss_meta s)(roundId \<mapsto> m\<lparr>sm_AggregatedNonces := Some nonces\<rparr>)\<rparr>))"

definition SetAggregatedNonces ::
    "string \<Rightarrow> 'n \<Rightarrow> (('n, 'g) treeSigningSessionsStore \<times> redis_error option) list \<Rightarrow> ('n, 'g) treeSigningSessionsStore sres" where
  "SetAggregatedNonces roundId nonces tries =
     redis_retry (\<lambda>_. False) last_error (SetAggregatedNonces_attempt roundId nonces) tries None"

definition session_Delete_attempt ::
    "string \<Rightarrow> ('n, 'g) treeSigningSessionsStore \<Rightarrow> ('n, 'g) treeSigningSessionsStore sres" where
  "session_Delete_attempt roundId s =
     Inr \<lparr>tss_meta = (tss_meta s)(roundId := None), tss_nonces = (tss_nonces s)(roundId := Map.empty), tss_sigs = (tss_sigs s)(roundId := Map.empty)\<rparr>"

definition session_Delete ::
    "string \<Rightarrow> (('n, 'g) treeSigningSessionsStore \<times> redis_error option) list \<Rightarrow> ('n, 'g) treeSigningSessionsStore sres" where
  "session_Delete roundId tries = redis_retry (\<lambda>_. False) last_error (session_Delete_attempt roundId) tries None"

definition getSessionCosigners ::
    "string \<Rightarrow> ('n, 'g) treeSigningSessionsStore \<times> redis_error option \<Rightarrow> string set sres" where
  "getSessionCosigners roundId = (\<lambda>(s, fault).
     fail_with fault (case tss_meta s roundId of
         None \<Rightarrow> Inl (StoreErrorf ''signing session not found for round'' None)
       | Some m \<Rightarrow> Inr (sm_Cosigners m)))"

text \<open>\<open>Inr None\<close>: the cosigner has submitted before. The session is read before the loop, at \<open>read\<close>.\<close>

definition AddNonces_attempt ::
    "string \<Rightarrow> string \<Rightarrow> 'n \<Rightarrow> ('n, 'g) treeSigningSessionsStore \<Rightarrow> ('n, 'g) treeSigningSessionsStore option sres" where
  "AddNonces_attempt roundId pubkey nonces s =
     (if tss_nonces s roundId pubkey \<noteq> None then Inr None
      else Inr (Some (s\<lparr>tss_nonces := (tss_nonces s)(roundId := (tss_nonces s roundId)(pubkey \<mapsto> nonces))\<rparr>)))"

definition AddNonces ::
    "('n, 'g) treeSigningSessionsStore \<times> redis_error option \<Rightarrow> string \<Rightarrow> string \<Rightarrow> 'n \<Rightarrow>
       (('n, 'g) treeSigningSessionsStore \<times> redis_error option) list \<Rightarrow> ('n, 'g) treeSigningSessionsStore sres" where
  "AddNonces read roundId pubkey nonces tries =
     rbind (getSessionCosigners roundId read) (\<lambda>cosigners.
     guard_err (pubkey \<notin> cosigners) (StoreErrorf ''cosigner not found for round'' None)
     (rbind (redis_retry (\<lambda>_. False) last_error (AddNonces_attempt roundId pubkey nonces) tries None) (\<lambda>r.
        case r of
          None \<Rightarrow> Inl (StoreErrorf ''nonces already submitted for cosigner'' None)
        | Some s \<Rightarrow> Inr s)))"

definition AddSignatures_attempt ::
    "string \<Rightarrow> string \<Rightarrow> 'g \<Rightarrow> ('n, 'g) treeSigningSessionsStore \<Rightarrow> ('n, 'g) treeSigningSessionsStore sres" where
  "AddSignatures_attempt roundId pubkey sigs s =
     Inr (s\<lparr>tss_sigs := (tss_sigs s)(roundId := (tss_sigs s roundId)(pubkey \<mapsto> sigs))\<rparr>)"

definition session_AddSignatures ::
    "('n, 'g) treeSigningSessionsStore \<times> redis_error option \<Rightarrow> string \<Rightarrow> string \<Rightarrow> 'g \<Rightarrow>
       (('n, 'g) treeSigningSessionsStore \<times> redis_error option) list \<Rightarrow> ('n, 'g) treeSigningSessionsStore sres" where
  "session_AddSignatures read roundId pubkey sigs tries =
     rbind (getSessionCosigners roundId read) (\<lambda>cosigners.
     guard_err (pubkey \<notin> cosigners) (StoreErrorf ''cosigner not found for round'' None)
       (redis_retry (\<lambda>_. False) last_error (AddSignatures_attempt roundId pubkey sigs) tries None))"

text \<open>A tick reads the session, and skips the rest when it is not there; then the hash, which counts as empty when it cannot be read.\<close>

definition collected ::
    "string \<Rightarrow> ('s \<Rightarrow> string \<rightharpoonup> 'v) \<Rightarrow> (('n, 'g) treeSigningSessionsStore \<times> redis_error option) \<times> ('s \<times> redis_error option) \<Rightarrow> bool" where
  "collected roundId hash = (\<lambda>((s1, fault1), (s2, fault2)).
     case (fault1, tss_meta s1 roundId) of
       (None, Some m) \<Rightarrow> int (if fault2 = None then card (dom (hash s2)) else 0) = sm_NbCosigners m - 1
     | _ \<Rightarrow> False)"

definition watchNoncesCollected ::
    "string \<Rightarrow> ((('n, 'g) treeSigningSessionsStore \<times> redis_error option) \<times> (('n, 'g) treeSigningSessionsStore \<times> redis_error option)) option list \<Rightarrow> watch" where
  "watchNoncesCollected roundId = watch_loop (collected roundId (\<lambda>s. tss_nonces s roundId))"

definition watchSigsCollected ::
    "string \<Rightarrow> ((('n, 'g) treeSigningSessionsStore \<times> redis_error option) \<times> (('n, 'g) treeSigningSessionsStore \<times> redis_error option)) option list \<Rightarrow> watch" where
  "watchSigsCollected roundId = watch_loop (collected roundId (\<lambda>s. tss_sigs s roundId))"

subsection \<open>boarding\_inputs.go\<close>

record sigDTO =
  sd_XOnlyPubKey :: string
  sd_LeafHash :: string
  sd_Signature :: string
  sd_SigHash :: u32

record leafScriptDTO =
  ld_ControlBlock :: string
  ld_Script :: string
  ld_LeafVersion :: u32

record sigsDTO =
  sds_Signatures :: "sigDTO list"
  sds_LeafScript :: leafScriptDTO

text \<open>The leaf is a pointer, which may be nil.\<close>

record SignedBoardingInput =
  sbo_Signatures :: "TaprootScriptSpendSig list"
  sbo_LeafScript :: "TaprootTapLeafScript option"

definition newSigsDTO :: "SignedBoardingInput \<Rightarrow> sigsDTO" where
  "newSigsDTO signedInput =
     \<lparr>sds_Signatures = map (\<lambda>s. \<lparr>sd_XOnlyPubKey = hex_EncodeToString (tss_XOnlyPubKey s), sd_LeafHash = hex_EncodeToString (tss_LeafHash s),
        sd_Signature = hex_EncodeToString (tss_Signature s), sd_SigHash = tss_SigHash s\<rparr>) (sbo_Signatures signedInput),
      sds_LeafScript = (case sbo_LeafScript signedInput of
          None \<Rightarrow> \<lparr>ld_ControlBlock = [], ld_Script = [], ld_LeafVersion = 0\<rparr>
        | Some leafScript \<Rightarrow> \<lparr>ld_ControlBlock = hex_EncodeToString (tls_ControlBlock leafScript),
            ld_Script = hex_EncodeToString (tls_Script leafScript), ld_LeafVersion = ucast (tls_LeafVersion leafScript)\<rparr>)\<rparr>"

definition sigDTO_decode :: "sigDTO \<Rightarrow> (hex_error, TaprootScriptSpendSig) res" where
  "sigDTO_decode rawSig =
     rbind (hex_DecodeString (sd_XOnlyPubKey rawSig)) (\<lambda>xOnlyPubkey.
     rbind (hex_DecodeString (sd_LeafHash rawSig)) (\<lambda>leafHash.
     rbind (hex_DecodeString (sd_Signature rawSig)) (\<lambda>sig.
       Inr \<lparr>tss_XOnlyPubKey = xOnlyPubkey, tss_LeafHash = leafHash, tss_Signature = sig, tss_SigHash = sd_SigHash rawSig\<rparr>)))"

text \<open>The version is cut to a byte.\<close>

definition sigsDTO_deserialize :: "sigsDTO \<Rightarrow> (hex_error, SignedBoardingInput) res" where
  "sigsDTO_deserialize s =
     rbind (map_res sigDTO_decode (sds_Signatures s)) (\<lambda>sigs.
     rbind (hex_DecodeString (ld_ControlBlock (sds_LeafScript s))) (\<lambda>cb.
     rbind (hex_DecodeString (ld_Script (sds_LeafScript s))) (\<lambda>script.
       Inr \<lparr>sbo_Signatures = sigs,
            sbo_LeafScript = Some \<lparr>tls_ControlBlock = cb, tls_Script = script, tls_LeafVersion = ucast (ld_LeafVersion (sds_LeafScript s))\<rparr>\<rparr>)))"

record boardingInputsStore =
  bis_num :: "int option"
  bis_sigs :: "string \<Rightarrow> sigsDTO gomap"

definition boarding_Set ::
    "int \<Rightarrow> (boardingInputsStore \<times> redis_error option) list \<Rightarrow> boardingInputsStore sres" where
  "boarding_Set numOfInputs tries =
     redis_retry (\<lambda>_. False) (StoreErrorf ''failed to update number of boarding inputs after max number of retries'')
       (\<lambda>s. Inr (s\<lparr>bis_num := Some numOfInputs\<rparr>)) tries None"

definition boarding_Get :: "boardingInputsStore \<times> redis_error option \<Rightarrow> int sres" where
  "boarding_Get = redis_read [] bis_num"

definition HSetNX :: "string \<Rightarrow> 'v \<Rightarrow> 'v gomap \<Rightarrow> 'v gomap" where
  "HSetNX field v h = (if map_of h field = None then AList.update field v h else h)"

definition boarding_fields :: "(u32 \<times> SignedBoardingInput) list \<Rightarrow> (string \<times> sigsDTO) list" where
  "boarding_fields inputSigs = map (\<lambda>(inIndex, sig). (dec_string (unat inIndex), newSigsDTO sig)) inputSigs"

definition boarding_AddSignatures ::
    "string \<Rightarrow> (u32 \<times> SignedBoardingInput) list \<Rightarrow> (boardingInputsStore \<times> redis_error option) list \<Rightarrow> boardingInputsStore sres" where
  "boarding_AddSignatures batchId inputSigs tries =
     redis_retry (\<lambda>_. False) last_error
       (\<lambda>s. Inr (s\<lparr>bis_sigs := (bis_sigs s)(batchId := fold (\<lambda>(f, v). HSetNX f v) (boarding_fields inputSigs) (bis_sigs s batchId))\<rparr>))
       tries None"

text \<open>\<open>strconv.Atoi\<close>: an optional sign and decimal digits within 64 bits.\<close>

definition strconv_Atoi :: "string \<Rightarrow> (num_error, int) res" where
  "strconv_Atoi s =
     (let digits = (\<lambda>m t. if t = [] then Inl ErrSyntax else ParseUint_loop m 0 t) in
      case s of
        [] \<Rightarrow> Inl ErrSyntax
      | c # t \<Rightarrow>
          if c = CHR ''-'' then rbind (digits (2 ^ 63) t) (\<lambda>n. Inr (- int n))
          else if c = CHR ''+'' then rbind (digits (2 ^ 63 - 1) t) (\<lambda>n. Inr (int n))
          else rbind (digits (2 ^ 63 - 1) s) (\<lambda>n. Inr (int n)))"

definition boarding_entry :: "string \<times> sigsDTO \<Rightarrow> (u32 \<times> SignedBoardingInput) sres" where
  "boarding_entry = (\<lambda>(key, v).
     rbind (map_err (\<lambda>_. StoreErrorf (''malformed signatures for input '' @ key @ '' in storage'') None) (sigsDTO_deserialize v)) (\<lambda>sig.
     rbind (map_err (\<lambda>_. StoreErrorf ''strconv.Atoi'' None) (strconv_Atoi key)) (\<lambda>inIndex.
       Inr (word_of_int inIndex, sig))))"

definition GetSignatures ::
    "string \<Rightarrow> boardingInputsStore \<times> redis_error option \<Rightarrow> (u32 \<times> SignedBoardingInput) list sres" where
  "GetSignatures batchId = (\<lambda>(s, fault).
     fail_with fault (rbind (map_res boarding_entry (bis_sigs s batchId)) (\<lambda>entries.
       Inr (fold (\<lambda>(i, sig). AList.update i sig) entries []))))"

definition DeleteSignatures :: "string \<Rightarrow> redis_error option \<Rightarrow> boardingInputsStore \<Rightarrow> boardingInputsStore sres" where
  "DeleteSignatures batchId fault s = fail_with fault (Inr (s\<lparr>bis_sigs := (bis_sigs s)(batchId := [])\<rparr>))"

section \<open>What the sessions guarantee\<close>

lemma watch_signalled_iff:
  "watch_loop ready polls = Signalled \<longleftrightarrow>
     (\<exists>before poll after. polls = map Some before @ Some poll # after \<and> ready poll \<and> list_all (\<lambda>p. \<not> ready p) before)"
proof (induction ready polls rule: watch_loop.induct)
  case (3 ready poll polls)
  show ?case
  proof (cases "ready poll")
    case True
    then show ?thesis by (auto intro!: exI [of _ "[]"])
  next
    case False
    then have "watch_loop ready (Some poll # polls) = Signalled \<longleftrightarrow>
      (\<exists>before p after. polls = map Some before @ Some p # after \<and> ready p \<and> list_all (\<lambda>p. \<not> ready p) before)"
      using 3 by simp
    also have "\<dots> \<longleftrightarrow> (\<exists>before p after. Some poll # polls = map Some before @ Some p # after \<and> ready p \<and> list_all (\<lambda>p. \<not> ready p) before)"
    proof
      assume "\<exists>before p after. polls = map Some before @ Some p # after \<and> ready p \<and> list_all (\<lambda>p. \<not> ready p) before"
      then obtain before p after where "polls = map Some before @ Some p # after" "ready p" "list_all (\<lambda>p. \<not> ready p) before" by blast
      then show "\<exists>before p after. Some poll # polls = map Some before @ Some p # after \<and> ready p \<and> list_all (\<lambda>p. \<not> ready p) before"
        using False by (intro exI [of _ "poll # before"]) auto
    next
      assume "\<exists>before p after. Some poll # polls = map Some before @ Some p # after \<and> ready p \<and> list_all (\<lambda>p. \<not> ready p) before"
      then obtain before p after where w: "Some poll # polls = map Some before @ Some p # after" "ready p" "list_all (\<lambda>p. \<not> ready p) before" by blast
      then show "\<exists>before p after. polls = map Some before @ Some p # after \<and> ready p \<and> list_all (\<lambda>p. \<not> ready p) before"
        using False by (cases before) auto
    qed
    finally show ?thesis .
  qed
qed (auto simp: Cons_eq_append_conv)

subsection \<open>Confirmations\<close>

text \<open>Calls of \<open>Confirm\<close>, with the failure of each.\<close>

definition confirm_calls :: "(string \<Rightarrow> bytes) \<Rightarrow> (string \<times> redis_error option) list \<Rightarrow> confirmationStore \<Rightarrow> confirmationStore" where
  "confirm_calls sha256 calls s =
     fold (\<lambda>(i, fault) s. case Confirm_intent sha256 i fault s of Inl _ \<Rightarrow> s | Inr s' \<Rightarrow> s') calls s"

definition confirmed_hashes :: "confirmationStore \<Rightarrow> bytes set" where
  "confirmed_hashes s = {h. cf_intents s h = Some True}"

lemma confirm_call:
  "(case Confirm_intent sha256 i fault s of Inl _ \<Rightarrow> s | Inr s' \<Rightarrow> s') =
     (if fault = None \<and> cf_intents s (sha256 i) = Some False
      then s\<lparr>cf_intents := (cf_intents s)(sha256 i \<mapsto> True), cf_numConfirmed := Some (case cf_numConfirmed s of None \<Rightarrow> 1 | Some n \<Rightarrow> n + 1)\<rparr>
      else s)"
  by (auto simp: Confirm_intent_def fail_with_def confirmScript_def split: option.split bool.split)

lemma confirm_calls_facts:
  assumes "finite (dom (cf_intents s))" "cf_numConfirmed s = Some (int (card (confirmed_hashes s)))"
  shows "dom (cf_intents (confirm_calls sha256 calls s)) = dom (cf_intents s) \<and> cf_numIntents (confirm_calls sha256 calls s) = cf_numIntents s \<and>
    cf_numConfirmed (confirm_calls sha256 calls s) = Some (int (card (confirmed_hashes (confirm_calls sha256 calls s)))) \<and>
    confirmed_hashes (confirm_calls sha256 calls s) = confirmed_hashes s \<union> sha256 ` {i. (i, None) \<in> set calls} \<inter> dom (cf_intents s)"
  using assms
proof (induction calls arbitrary: s)
  case Nil
  then show ?case by (auto simp: confirm_calls_def confirmed_hashes_def)
next
  case (Cons c calls)
  obtain i fault where c: "c = (i, fault)" by (cases c)
  define t where "t = (case Confirm_intent sha256 i fault s of Inl _ \<Rightarrow> s | Inr s' \<Rightarrow> s')"
  have next_calls: "confirm_calls sha256 (c # calls) s = confirm_calls sha256 calls t" by (simp add: confirm_calls_def c t_def)
  have fin: "finite (confirmed_hashes s)" by (rule finite_subset [OF _ Cons.prems(1)]) (auto simp: confirmed_hashes_def)
  show ?case
  proof (cases "fault = None \<and> cf_intents s (sha256 i) = Some False")
    case True
    then have s': "t = s\<lparr>cf_intents := (cf_intents s)(sha256 i \<mapsto> True), cf_numConfirmed := Some (int (card (confirmed_hashes s)) + 1)\<rparr>"
      using Cons.prems(2) by (simp add: confirm_call t_def)
    have conf: "confirmed_hashes t = insert (sha256 i) (confirmed_hashes s)" unfolding s' by (auto simp: confirmed_hashes_def)
    have "sha256 i \<notin> confirmed_hashes s" using True by (simp add: confirmed_hashes_def)
    then have "cf_numConfirmed t = Some (int (card (confirmed_hashes t)))" unfolding conf using fin by (simp add: s')
    moreover have d: "dom (cf_intents t) = dom (cf_intents s)" using True by (auto simp: s')
    ultimately show ?thesis
      using Cons.IH [of t] Cons.prems(1) True unfolding next_calls conf d by (auto simp: s' c)
  next
    case False
    then have s': "t = s" by (auto simp: confirm_call t_def)
    have "sha256 i \<in> confirmed_hashes s" if "fault = None" "sha256 i \<in> dom (cf_intents s)" using that False by (auto simp: confirmed_hashes_def)
    then show ?thesis using Cons.IH [of s] Cons.prems unfolding next_calls s' by (auto simp: c)
  qed
qed

text \<open>C37: the confirmation of a batch is complete exactly when every selected intent has been confirmed: repeated, failed and
  unknown confirmations do not count, and it does not matter that the poll reads the two numbers at different times.\<close>

theorem confirmation_completes_iff:
  assumes "hashes \<noteq> []" "distinct hashes" "confirmation_Init_attempt hashes s0 = Inr s"
  shows "session_complete ((confirm_calls sha256 calls s, None), (confirm_calls sha256 (calls @ later) s, None)) \<longleftrightarrow>
    set hashes \<subseteq> sha256 ` {i. (i, None) \<in> set (calls @ later)}"
proof -
  have s: "s = \<lparr>cf_intents = (\<lambda>h. if h \<in> set hashes then Some False else None), cf_numIntents = Some (int (length hashes)), cf_numConfirmed = Some 0,
      cf_initialized = True\<rparr>"
    using assms(1,3) by (simp add: confirmation_Init_attempt_def)
  have none: "confirmed_hashes s = {}" and d: "dom (cf_intents s) = set hashes" by (auto simp: s confirmed_hashes_def split: if_split_asm)
  then have pre: "finite (dom (cf_intents s))" "cf_numConfirmed s = Some (int (card (confirmed_hashes s)))" by (simp_all add: s)
  note f = confirm_calls_facts [OF pre, of sha256 calls] and g = confirm_calls_facts [OF pre, of sha256 "calls @ later"]
  let ?C = "sha256 ` {i. (i, None) \<in> set (calls @ later)} \<inter> set hashes"
  have "session_complete ((confirm_calls sha256 calls s, None), (confirm_calls sha256 (calls @ later) s, None)) \<longleftrightarrow> card ?C = card (set hashes)"
    using f g assms(1) distinct_card [OF assms(2)] unfolding none d by (simp add: session_complete_def read_number_def s Let_def)
  also have "\<dots> \<longleftrightarrow> ?C = set hashes" using card_subset_eq [of "set hashes" ?C] by auto
  finally show ?thesis by blast
qed

theorem confirmation_completes_iff_witness:
  "let s = projr (confirmation_Init_attempt [[1], [2]] NewConfirmationStore); sha = (\<lambda>i. if i = ''a'' then [1] else [2])
   in \<not> session_complete ((s, None), (confirm_calls sha [(''a'', None), (''a'', None), (''b'', Some TxFailedErr)] s, None)) \<and>
      session_complete ((s, None), (confirm_calls sha [(''a'', None), (''b'', None)] s, None))"
proof -
  let ?s = "projr (confirmation_Init_attempt [[1], [2]] NewConfirmationStore)" and ?sha = "\<lambda>i :: string. if i = ''a'' then [1] else [2] :: bytes"
  have i: "confirmation_Init_attempt [[1], [2]] NewConfirmationStore = Inr ?s" by (simp add: confirmation_Init_attempt_def)
  have "{i. (i, None :: redis_error option) \<in> set [(''a'', None), (''a'', None), (''b'', Some TxFailedErr)]} = {''a''}"
    "{i. (i, None :: redis_error option) \<in> set [(''a'', None), (''b'', None)]} = {''a'', ''b''}" by auto
  then have "\<not> session_complete ((?s, None), (confirm_calls ?sha [(''a'', None), (''a'', None), (''b'', Some TxFailedErr)] ?s, None))"
    "session_complete ((?s, None), (confirm_calls ?sha [(''a'', None), (''b'', None)] ?s, None))"
    using confirmation_completes_iff [OF _ _ i, of ?sha "[]" "[(''a'', None), (''a'', None), (''b'', Some TxFailedErr)]"]
      confirmation_completes_iff [OF _ _ i, of ?sha "[]" "[(''a'', None), (''b'', None)]"]
    by (simp_all add: confirm_calls_def)
  then show ?thesis by (simp add: Let_def)
qed

subsection \<open>Nonces and signatures\<close>

text \<open>The stores that a server can show, newest first. Requests read the session at an earlier moment; tries fail until one finds the
  present store; the identifier of a new session has not been used before.\<close>

abbreviation all_faulty :: "('s \<times> redis_error option) list \<Rightarrow> bool" where
  "all_faulty failed \<equiv> \<forall>t \<in> set failed. snd t \<noteq> None"

inductive session_run :: "('n, 'g) treeSigningSessionsStore list \<Rightarrow> bool" where
  start: "session_run [NewTreeSigningSessionsStore]"
| new: "session_run (s # tr) \<Longrightarrow> \<forall>x \<in> set (s # tr). tss_meta x r = None \<Longrightarrow> finite keys \<Longrightarrow> all_faulty failed \<Longrightarrow>
    session_New r keys ctx (failed @ [(s, None)]) = Inr s' \<Longrightarrow> session_run (s' # s # tr)"
| nonces: "session_run (s # tr) \<Longrightarrow> x \<in> set (s # tr) \<Longrightarrow> all_faulty failed \<Longrightarrow>
    AddNonces (x, None) r pubkey n (failed @ [(s, None)]) = Inr s' \<Longrightarrow> session_run (s' # s # tr)"
| sigs: "session_run (s # tr) \<Longrightarrow> x \<in> set (s # tr) \<Longrightarrow> all_faulty failed \<Longrightarrow>
    session_AddSignatures (x, None) r pubkey g (failed @ [(s, None)]) = Inr s' \<Longrightarrow> session_run (s' # s # tr)"
| aggregated: "session_run (s # tr) \<Longrightarrow> all_faulty failed \<Longrightarrow>
    SetAggregatedNonces r n (failed @ [(s, None)]) = Inr s' \<Longrightarrow> session_run (s' # s # tr)"
| delete: "session_run (s # tr) \<Longrightarrow> all_faulty failed \<Longrightarrow> session_Delete r (failed @ [(s, None)]) = Inr s' \<Longrightarrow> session_run (s' # s # tr)"

lemma retry_last: "redis_retry (\<lambda>_. False) wrap f (failed @ [(s, None)]) e = Inr b \<Longrightarrow> all_faulty failed \<Longrightarrow> f s = Inr b"
  by (induction failed arbitrary: e) (auto split: sum.split_asm)

lemma AddNonces_facts:
  assumes "AddNonces (x, None) r pubkey n (failed @ [(s, None)]) = Inr s'" "all_faulty failed"
  shows "\<exists>m. tss_meta x r = Some m \<and> pubkey \<in> sm_Cosigners m" "tss_nonces s r pubkey = None"
    "s' = s\<lparr>tss_nonces := (tss_nonces s)(r := (tss_nonces s r)(pubkey \<mapsto> n))\<rparr>"
proof -
  obtain m where m: "tss_meta x r = Some m" "pubkey \<in> sm_Cosigners m"
    "redis_retry (\<lambda>_. False) last_error (AddNonces_attempt r pubkey n) (failed @ [(s, None)]) None = Inr (Some s')"
    using assms(1) by (auto simp: AddNonces_def getSessionCosigners_def fail_with_def rbind_eq_Inr guard_err_eq_Inr split: option.split_asm)
  show "\<exists>m. tss_meta x r = Some m \<and> pubkey \<in> sm_Cosigners m" using m by blast
  from retry_last [OF m(3) assms(2)] show "tss_nonces s r pubkey = None" "s' = s\<lparr>tss_nonces := (tss_nonces s)(r := (tss_nonces s r)(pubkey \<mapsto> n))\<rparr>"
    by (auto simp: AddNonces_attempt_def split: if_split_asm)
qed

lemma AddSignatures_facts:
  assumes "session_AddSignatures (x, None) r pubkey g (failed @ [(s, None)]) = Inr s'" "all_faulty failed"
  shows "\<exists>m. tss_meta x r = Some m \<and> pubkey \<in> sm_Cosigners m" "s' = s\<lparr>tss_sigs := (tss_sigs s)(r := (tss_sigs s r)(pubkey \<mapsto> g))\<rparr>"
proof -
  obtain m where m: "tss_meta x r = Some m" "pubkey \<in> sm_Cosigners m"
    "redis_retry (\<lambda>_. False) last_error (AddSignatures_attempt r pubkey g) (failed @ [(s, None)]) None = Inr s'"
    using assms(1) by (auto simp: session_AddSignatures_def getSessionCosigners_def fail_with_def rbind_eq_Inr guard_err_eq_Inr split: option.split_asm)
  show "\<exists>m. tss_meta x r = Some m \<and> pubkey \<in> sm_Cosigners m" using m by blast
  from retry_last [OF m(3) assms(2)] show "s' = s\<lparr>tss_sigs := (tss_sigs s)(r := (tss_sigs s r)(pubkey \<mapsto> g))\<rparr>"
    by (simp add: AddSignatures_attempt_def)
qed

text \<open>What holds of a session \<open>r\<close> in a store \<open>s\<close> that was shown after the stores \<open>tr\<close>.\<close>

definition cosigners_of :: "('n, 'g) treeSigningSessionsStore \<Rightarrow> string \<Rightarrow> (string set \<times> int) option" where
  "cosigners_of s r = map_option (\<lambda>m. (sm_Cosigners m, sm_NbCosigners m)) (tss_meta s r)"

definition session_inv :: "('n, 'g) treeSigningSessionsStore \<Rightarrow> ('n, 'g) treeSigningSessionsStore list \<Rightarrow> string \<Rightarrow> bool" where
  "session_inv s tr r \<longleftrightarrow>
     (if \<forall>x \<in> set tr. cosigners_of x r = None then dom (tss_nonces s r) = {} \<and> dom (tss_sigs s r) = {}
      else \<exists>C. finite C \<and> (\<forall>x \<in> set tr. cosigners_of x r \<noteq> None \<longrightarrow> cosigners_of x r = Some (C, int (card C) + 1)) \<and>
        dom (tss_nonces s r) \<subseteq> C \<and> dom (tss_sigs s r) \<subseteq> C \<and>
        (\<forall>x \<in> set tr. cosigners_of x r \<noteq> None \<longrightarrow> cosigners_of s r \<noteq> None \<longrightarrow> tss_nonces x r \<subseteq>\<^sub>m tss_nonces s r))"

lemma session_inv_step:
  assumes inv: "session_inv s (s # tr) r" and same: "cosigners_of s' r = cosigners_of s r \<or> cosigners_of s' r = None"
    and nonces: "tss_nonces s' r = tss_nonces s r \<or> (\<exists>pk n x. x \<in> set (s # tr) \<and> cosigners_of x r \<noteq> None \<and> pk \<in> fst (the (cosigners_of x r)) \<and>
        tss_nonces s r pk = None \<and> tss_nonces s' r = (tss_nonces s r)(pk \<mapsto> n)) \<or> tss_nonces s' r = Map.empty \<and> cosigners_of s' r = None"
    and sigs: "dom (tss_sigs s' r) \<subseteq> dom (tss_sigs s r) \<or> (\<exists>pk g x. x \<in> set (s # tr) \<and> cosigners_of x r \<noteq> None \<and> pk \<in> fst (the (cosigners_of x r)) \<and>
        tss_sigs s' r = (tss_sigs s r)(pk \<mapsto> g))"
  shows "session_inv s' (s' # s # tr) r"
proof (cases "\<forall>x \<in> set (s # tr). cosigners_of x r = None")
  case True
  then have "dom (tss_nonces s r) = {}" "dom (tss_sigs s r) = {}" using inv unfolding session_inv_def by (simp_all split: if_split_asm)
  moreover have none: "\<forall>x \<in> set (s' # s # tr). cosigners_of x r = None" using True same by auto
  moreover have "tss_nonces s' r = tss_nonces s r \<or> tss_nonces s' r = Map.empty" using True nonces by metis
  moreover have "dom (tss_sigs s' r) \<subseteq> dom (tss_sigs s r)" using True sigs by metis
  ultimately show ?thesis unfolding session_inv_def using none by auto
next
  case False
  then obtain C where C: "finite C" "\<forall>x \<in> set (s # tr). cosigners_of x r \<noteq> None \<longrightarrow> cosigners_of x r = Some (C, int (card C) + 1)"
    "dom (tss_nonces s r) \<subseteq> C" "dom (tss_sigs s r) \<subseteq> C"
    "\<forall>x \<in> set (s # tr). cosigners_of x r \<noteq> None \<longrightarrow> cosigners_of s r \<noteq> None \<longrightarrow> tss_nonces x r \<subseteq>\<^sub>m tss_nonces s r"
    using inv unfolding session_inv_def by (simp only: if_False) blast
  have known: "\<forall>x \<in> set (s' # s # tr). cosigners_of x r \<noteq> None \<longrightarrow> cosigners_of x r = Some (C, int (card C) + 1)"
    using C(2) same by (metis list.set_intros(1) set_ConsD)
  have mem: "pk \<in> C" if "x \<in> set (s # tr)" "cosigners_of x r \<noteq> None" "pk \<in> fst (the (cosigners_of x r))" for pk x
    using C(2) that by fastforce
  have sub_nonces: "dom (tss_nonces s' r) \<subseteq> C" using nonces
  proof (elim disjE exE conjE)
    fix pk n x assume "x \<in> set (s # tr)" "cosigners_of x r \<noteq> None" "pk \<in> fst (the (cosigners_of x r))" "tss_nonces s' r = (tss_nonces s r)(pk \<mapsto> n)"
    then show ?thesis using mem [of x pk] C(3) by simp
  qed (use C(3) in simp_all)
  have sub_sigs: "dom (tss_sigs s' r) \<subseteq> C" using sigs
  proof (elim disjE exE conjE)
    fix pk g x assume "x \<in> set (s # tr)" "cosigners_of x r \<noteq> None" "pk \<in> fst (the (cosigners_of x r))" "tss_sigs s' r = (tss_sigs s r)(pk \<mapsto> g)"
    then show ?thesis using mem [of x pk] C(4) by simp
  qed (use C(4) in blast)
  have grow: "tss_nonces s r \<subseteq>\<^sub>m tss_nonces s' r" if "cosigners_of s' r \<noteq> None"
    using nonces that by (auto simp: map_le_def)
  have "tss_nonces x r \<subseteq>\<^sub>m tss_nonces s' r" if x: "x \<in> set (s' # s # tr)" "cosigners_of x r \<noteq> None" "cosigners_of s' r \<noteq> None" for x
  proof (cases "x = s'")
    case False
    then have "x \<in> set (s # tr)" "cosigners_of s r \<noteq> None" using x same by auto
    then show ?thesis using C(5) x(2) grow [OF x(3)] map_le_trans by blast
  qed simp
  moreover have "\<not> (\<forall>x \<in> set (s' # s # tr). cosigners_of x r = None)" using False by auto
  ultimately show ?thesis unfolding session_inv_def using C(1) known sub_nonces sub_sigs by (simp only: if_False) blast
qed

lemma session_new_inv:
  assumes inv: "session_inv s (s # tr) r'" and fresh: "\<forall>x \<in> set (s # tr). tss_meta x r = None" and fin: "finite keys"
    and s': "session_New_attempt r keys ctx s = Inr s'"
  shows "session_inv s' (s' # s # tr) r'"
proof (cases "r' = r")
  case True
  have none: "\<forall>x \<in> set (s # tr). cosigners_of x r = None" using fresh by (simp add: cosigners_of_def)
  then have "dom (tss_nonces s r) = {}" "dom (tss_sigs s r) = {}" using inv True unfolding session_inv_def by (simp_all split: if_split_asm)
  moreover have "cosigners_of s' r = Some (keys, int (card keys) + 1)" "tss_nonces s' = tss_nonces s" "tss_sigs s' = tss_sigs s"
    using s' by (auto simp: session_New_attempt_def cosigners_of_def)
  ultimately show ?thesis unfolding True session_inv_def using none fin by (auto intro!: exI [of _ keys])
next
  case False
  then have "cosigners_of s' r' = cosigners_of s r'" "tss_nonces s' = tss_nonces s" "tss_sigs s' = tss_sigs s"
    using s' by (auto simp: session_New_attempt_def cosigners_of_def)
  then show ?thesis using session_inv_step [OF inv] by simp
qed

lemma session_run_inv: "session_run tr \<Longrightarrow> session_inv (hd tr) tr r"
proof (induction rule: session_run.induct)
  case start
  show ?case by (simp add: session_inv_def NewTreeSigningSessionsStore_def cosigners_of_def)
next
  case (new s tr r0 keys failed ctx s')
  have "session_New_attempt r0 keys ctx s = Inr s'" by (rule retry_last [OF new.hyps(5) [unfolded session_New_def] new.hyps(4)])
  then show ?case using session_new_inv [OF _ new.hyps(2,3)] new.IH by simp
next
  case (nonces s tr x failed r0 pk n s')
  note f = AddNonces_facts [OF nonces.hyps(4,3)]
  obtain m where "tss_meta x r0 = Some m" "pk \<in> sm_Cosigners m" using f(1) by blast
  then have "cosigners_of x r0 \<noteq> None" "pk \<in> fst (the (cosigners_of x r0))" by (simp_all add: cosigners_of_def)
  then have "tss_nonces s' r = tss_nonces s r \<or> (\<exists>pk n x. x \<in> set (s # tr) \<and> cosigners_of x r \<noteq> None \<and> pk \<in> fst (the (cosigners_of x r)) \<and>
        tss_nonces s r pk = None \<and> tss_nonces s' r = (tss_nonces s r)(pk \<mapsto> n))"
  proof (cases "r = r0")
    case True
    with f(2,3) nonces.hyps(2) \<open>cosigners_of x r0 \<noteq> None\<close> \<open>pk \<in> fst (the (cosigners_of x r0))\<close> show ?thesis
      by (intro disjI2 exI [of _ pk] exI [of _ n] exI [of _ x]) simp
  qed (use f(3) in simp)
  moreover have "cosigners_of s' r = cosigners_of s r" "tss_sigs s' = tss_sigs s" using f(3) by (simp_all add: cosigners_of_def)
  ultimately have "session_inv s' (s' # s # tr) r" using nonces.IH by (intro session_inv_step [of s tr r s']) auto
  then show ?case by simp
next
  case (sigs s tr x failed r0 pk g s')
  note f = AddSignatures_facts [OF sigs.hyps(4,3)]
  obtain m where "tss_meta x r0 = Some m" "pk \<in> sm_Cosigners m" using f(1) by blast
  then have "cosigners_of x r0 \<noteq> None" "pk \<in> fst (the (cosigners_of x r0))" by (simp_all add: cosigners_of_def)
  then have "dom (tss_sigs s' r) \<subseteq> dom (tss_sigs s r) \<or> (\<exists>pk g x. x \<in> set (s # tr) \<and> cosigners_of x r \<noteq> None \<and> pk \<in> fst (the (cosigners_of x r)) \<and>
        tss_sigs s' r = (tss_sigs s r)(pk \<mapsto> g))"
  proof (cases "r = r0")
    case True
    with f(2) sigs.hyps(2) \<open>cosigners_of x r0 \<noteq> None\<close> \<open>pk \<in> fst (the (cosigners_of x r0))\<close> show ?thesis
      by (intro disjI2 exI [of _ pk] exI [of _ g] exI [of _ x]) simp
  qed (use f(2) in simp)
  moreover have "cosigners_of s' r = cosigners_of s r" "tss_nonces s' = tss_nonces s" using f(2) by (simp_all add: cosigners_of_def)
  ultimately have "session_inv s' (s' # s # tr) r" using sigs.IH by (intro session_inv_step [of s tr r s']) auto
  then show ?case by simp
next
  case (aggregated s tr failed r0 n s')
  have "SetAggregatedNonces_attempt r0 n s = Inr s'" by (rule retry_last [OF aggregated.hyps(3) [unfolded SetAggregatedNonces_def] aggregated.hyps(2)])
  then have "cosigners_of s' r = cosigners_of s r" "tss_nonces s' = tss_nonces s" "tss_sigs s' = tss_sigs s"
    by (auto simp: SetAggregatedNonces_attempt_def cosigners_of_def split: option.split_asm)
  then have "session_inv s' (s' # s # tr) r" using aggregated.IH by (intro session_inv_step [of s tr r s']) auto
  then show ?case by simp
next
  case (delete s tr failed r0 s')
  have "session_Delete_attempt r0 s = Inr s'" by (rule retry_last [OF delete.hyps(3) [unfolded session_Delete_def] delete.hyps(2)])
  then have "cosigners_of s' r = (if r = r0 then None else cosigners_of s r)" "tss_nonces s' r = (if r = r0 then Map.empty else tss_nonces s r)"
    "dom (tss_sigs s' r) \<subseteq> dom (tss_sigs s r)"
    by (auto simp: session_Delete_attempt_def cosigners_of_def split: if_split_asm)
  then have "session_inv s' (s' # s # tr) r" using delete.IH by (intro session_inv_step [of s tr r s']) auto
  then show ?case by simp
qed

text \<open>C16: the signing of a tree goes on exactly when everybody has handed in: however requests interleave, a poll of a live session finds the nonces,
  and later the signatures, collected if and only if each of its cosigners, and nobody else, has submitted; and the nonces that a cosigner has submitted are
  never replaced while the session lives.\<close>

theorem session_collects_every_cosigner:
  assumes "session_run (s # tr)" "tss_meta s r = Some m"
  shows "(collected r (\<lambda>s. tss_nonces s r) ((s, None), (s, None)) \<longleftrightarrow> dom (tss_nonces s r) = sm_Cosigners m) \<and>
    (collected r (\<lambda>s. tss_sigs s r) ((s, None), (s, None)) \<longleftrightarrow> dom (tss_sigs s r) = sm_Cosigners m) \<and>
    (\<forall>x \<in> set tr. tss_meta x r \<noteq> None \<longrightarrow> tss_nonces x r \<subseteq>\<^sub>m tss_nonces s r)"
proof -
  have inv: "session_inv s (s # tr) r" using session_run_inv [OF assms(1)] by simp
  have c: "cosigners_of s r = Some (sm_Cosigners m, sm_NbCosigners m)" using assms(2) by (simp add: cosigners_of_def)
  then have "\<not> (\<forall>x \<in> set (s # tr). cosigners_of x r = None)" by auto
  then obtain C where C: "finite C" "\<forall>x \<in> set (s # tr). cosigners_of x r \<noteq> None \<longrightarrow> cosigners_of x r = Some (C, int (card C) + 1)"
    "dom (tss_nonces s r) \<subseteq> C" "dom (tss_sigs s r) \<subseteq> C"
    "\<forall>x \<in> set (s # tr). cosigners_of x r \<noteq> None \<longrightarrow> cosigners_of s r \<noteq> None \<longrightarrow> tss_nonces x r \<subseteq>\<^sub>m tss_nonces s r"
    using inv unfolding session_inv_def by (simp only: if_False) blast
  have m: "sm_Cosigners m = C" "sm_NbCosigners m = int (card C) + 1" using C(2) c by auto
  have eq: "card D = card C \<longleftrightarrow> D = C" if "D \<subseteq> C" for D using card_subset_eq [OF C(1) that] by auto
  have "\<forall>x \<in> set tr. tss_meta x r \<noteq> None \<longrightarrow> tss_nonces x r \<subseteq>\<^sub>m tss_nonces s r" using C(5) c by (auto simp: cosigners_of_def)
  then show ?thesis using eq [OF C(3)] eq [OF C(4)] assms(2) m by (simp add: collected_def)
qed

theorem session_collects_every_cosigner_witness:
  "let s = NewTreeSigningSessionsStore :: (nat, nat) treeSigningSessionsStore; ctx = \<lparr>sx_ScriptRoot = [], sx_BatchOutAmount = 1000, sx_VtxoTree = []\<rparr>;
       t = projr (session_New ''r'' {''a'', ''b''} ctx [(s, Some TxFailedErr), (s, None)]);
       u = projr (AddNonces (t, None) ''r'' ''a'' 7 [(t, None)]); v = projr (AddNonces (t, None) ''r'' ''b'' 8 [(u, None)])
   in \<not> collected ''r'' (\<lambda>s. tss_nonces s ''r'') ((u, None), (u, None)) \<and> collected ''r'' (\<lambda>s. tss_nonces s ''r'') ((v, None), (v, None))"
proof -
  let ?s = "NewTreeSigningSessionsStore :: (nat, nat) treeSigningSessionsStore" and ?ctx = "\<lparr>sx_ScriptRoot = [], sx_BatchOutAmount = 1000, sx_VtxoTree = []\<rparr>"
  let ?t = "projr (session_New ''r'' {''a'', ''b''} ?ctx [(?s, Some TxFailedErr), (?s, None)])"
  let ?u = "projr (AddNonces (?t, None) ''r'' ''a'' 7 [(?t, None)])"
  let ?v = "projr (AddNonces (?t, None) ''r'' ''b'' 8 [(?u, None)])"
  note defs = session_New_def session_New_attempt_def NewTreeSigningSessionsStore_def AddNonces_def AddNonces_attempt_def getSessionCosigners_def fail_with_def
    guard_err_def
  have t: "session_New ''r'' {''a'', ''b''} ?ctx ([(?s, Some TxFailedErr)] @ [(?s, None)]) = Inr ?t" by (simp add: defs)
  have u: "AddNonces (?t, None) ''r'' ''a'' 7 ([] @ [(?t, None)]) = Inr ?u" by (simp add: defs)
  have v: "AddNonces (?t, None) ''r'' ''b'' 8 ([] @ [(?u, None)]) = Inr ?v" by (simp add: defs)
  have rt: "session_run [?t, ?s]" by (rule session_run.new [OF session_run.start _ _ _ t]) (simp_all add: NewTreeSigningSessionsStore_def)
  have ru: "session_run [?u, ?t, ?s]" by (rule session_run.nonces [OF rt _ _ u]) simp_all
  have rv: "session_run [?v, ?u, ?t, ?s]" by (rule session_run.nonces [OF ru _ _ v]) simp_all
  have m: "\<exists>m. tss_meta ?u ''r'' = Some m \<and> sm_Cosigners m = {''a'', ''b''}" "\<exists>m. tss_meta ?v ''r'' = Some m \<and> sm_Cosigners m = {''a'', ''b''}"
    "dom (tss_nonces ?u ''r'') = {''a''}" "dom (tss_nonces ?v ''r'') = {''a'', ''b''}"
    by (auto simp: defs)
  then have "\<not> collected ''r'' (\<lambda>s. tss_nonces s ''r'') ((?u, None), (?u, None))" "collected ''r'' (\<lambda>s. tss_nonces s ''r'') ((?v, None), (?v, None))"
    using session_collects_every_cosigner [OF ru, of "''r''"] session_collects_every_cosigner [OF rv, of "''r''"] by fastforce+
  then show ?thesis by (simp add: Let_def)
qed

subsection \<open>Boarding inputs\<close>

text \<open>A leaf that was nil is read back as a pointer to an empty leaf.\<close>

definition stored_input :: "SignedBoardingInput \<Rightarrow> SignedBoardingInput" where
  "stored_input sig = sig\<lparr>sbo_LeafScript := Some (case sbo_LeafScript sig of
     None \<Rightarrow> \<lparr>tls_ControlBlock = [], tls_Script = [], tls_LeafVersion = 0\<rparr> | Some leafScript \<Rightarrow> leafScript)\<rparr>"

text \<open>Calls of \<open>AddSignatures\<close>, for any batches, with the failure of each.\<close>

definition boarding_calls ::
    "(string \<times> (u32 \<times> SignedBoardingInput) list \<times> redis_error option) list \<Rightarrow> boardingInputsStore \<Rightarrow> boardingInputsStore" where
  "boarding_calls calls s =
     fold (\<lambda>(b, sigs, fault) s. case boarding_AddSignatures b sigs [(s, fault)] of Inl _ \<Rightarrow> s | Inr s' \<Rightarrow> s') calls s"

definition delivered :: "string \<Rightarrow> (string \<times> (u32 \<times> SignedBoardingInput) list \<times> redis_error option) list \<Rightarrow> (u32 \<times> SignedBoardingInput) list" where
  "delivered batchId calls = concat (map (\<lambda>(b, sigs, fault). if b = batchId \<and> fault = None then sigs else []) calls)"

lemma map_res_decodes: "(\<And>x. f (g x) = Inr (h x)) \<Longrightarrow> map_res f (map g xs) = Inr (map h xs)"
  by (induction xs) simp_all

lemma leaf_version_kept [simp]:
  "\<lparr>tls_ControlBlock = tls_ControlBlock l, tls_Script = tls_Script l, tls_LeafVersion = ucast (ucast (tls_LeafVersion l) :: u32)\<rparr> = l"
proof -
  have "(ucast (ucast v :: u32) :: u8) = v" for v by transfer simp
  then show ?thesis by simp
qed

lemma deserialize_serialized: "sigsDTO_deserialize (newSigsDTO sig) = Inr (stored_input sig)"
proof -
  have "map_res sigDTO_decode (sds_Signatures (newSigsDTO sig)) = Inr (map (\<lambda>s. s) (sbo_Signatures sig))"
    unfolding newSigsDTO_def sigsDTO.simps by (rule map_res_decodes) (simp add: sigDTO_decode_def)
  moreover have "hex_DecodeString [] = Inr []" using hex_roundtrip [of "[]"] by (simp add: hex_EncodeToString_def)
  ultimately show ?thesis
    by (cases sig) (auto simp: sigsDTO_deserialize_def newSigsDTO_def stored_input_def split: option.split)
qed

definition stored_hash :: "(u32 \<times> SignedBoardingInput) list \<Rightarrow> sigsDTO gomap" where
  "stored_hash l = map (\<lambda>(i, sig). (dec_string (unat i), newSigsDTO sig)) l"

lemma index_bound: "unat (i :: u32) < 2 ^ 32"
proof -
  have "unat i < 2 ^ LENGTH(32)" by (rule unsigned_less)
  then show ?thesis by simp
qed

lemma index_text_inj: "dec_string (unat i) = dec_string (unat j) \<longleftrightarrow> i = (j :: u32)"
proof
  assume "dec_string (unat i) = dec_string (unat j)"
  then show "i = j" using dec_string_eq_iff [OF index_bound index_bound] by (simp add: word_unat_eq_iff)
qed simp

lemma map_of_rev_distinct: "distinct (map fst xs) \<Longrightarrow> map_of (rev xs) = map_of xs"
proof (induction xs)
  case (Cons x xs)
  then have "dom (map_of [x]) \<inter> dom (map_of xs) = {}" by (cases x) (auto simp: dom_map_of_conv_image_fst)
  then show ?case using Cons map_add_comm [of "map_of [x]" "map_of xs"] by (cases x) (simp add: map_add_upd)
qed simp

lemma stored_hash_lookup: "map_of (stored_hash l) (dec_string (unat i)) = map_option newSigsDTO (map_of l i)"
  by (induction l) (auto simp: stored_hash_def index_text_inj)

lemma HSetNX_stored:
  "HSetNX (dec_string (unat i)) (newSigsDTO sig) (stored_hash l) = stored_hash (if map_of l i = None then l @ [(i, sig)] else l)"
proof (cases "map_of l i")
  case None
  have "AList.update k v h = h @ [(k, v)]" if "map_of h k = None" for k h and v :: sigsDTO using that by (induction h) (auto split: if_split_asm)
  from this [of "stored_hash l" "dec_string (unat i)"] show ?thesis using None by (simp add: HSetNX_def stored_hash_lookup) (simp add: stored_hash_def)
qed (simp add: HSetNX_def stored_hash_lookup)

lemma AddSignatures_stored:
  "distinct (map fst l) \<Longrightarrow> \<exists>l'. fold (\<lambda>(f, v). HSetNX f v) (boarding_fields sigs) (stored_hash l) = stored_hash l' \<and> distinct (map fst l') \<and>
     map_of l' = map_of (l @ sigs)"
proof (induction sigs arbitrary: l)
  case (Cons e sigs)
  obtain i sig where e: "e = (i, sig)" by (cases e)
  let ?l = "if map_of l i = None then l @ [(i, sig)] else l"
  have "distinct (map fst ?l)" using Cons.prems by (auto simp: map_of_eq_None_iff)
  from Cons.IH [OF this] obtain l' where l': "fold (\<lambda>(f, v). HSetNX f v) (boarding_fields sigs) (stored_hash ?l) = stored_hash l'" "distinct (map fst l')"
    "map_of l' = map_of (?l @ sigs)" by blast
  have "map_of (?l @ sigs) = map_of (l @ e # sigs)" by (auto simp: e map_add_def fun_eq_iff split: option.split)
  then show ?case using l' by (auto simp: boarding_fields_def e HSetNX_stored)
qed (auto simp: boarding_fields_def)

lemma boarding_calls_stored:
  "distinct (map fst l) \<Longrightarrow> bis_sigs s batchId = stored_hash l \<Longrightarrow>
     \<exists>l'. bis_sigs (boarding_calls calls s) batchId = stored_hash l' \<and> distinct (map fst l') \<and> map_of l' = map_of (l @ delivered batchId calls)"
proof (induction calls arbitrary: l s)
  case (Cons c calls)
  obtain b sigs fault where c: "c = (b, sigs, fault)" by (cases c) auto
  define t where "t = (case boarding_AddSignatures b sigs [(s, fault)] of Inl _ \<Rightarrow> s | Inr s' \<Rightarrow> s')"
  have next_call: "boarding_calls (c # calls) s = boarding_calls calls t" by (simp add: boarding_calls_def c t_def)
  have t: "bis_sigs t batchId = (if b = batchId \<and> fault = None then fold (\<lambda>(f, v). HSetNX f v) (boarding_fields sigs) (stored_hash l) else stored_hash l)"
    using Cons.prems(2) by (cases fault) (auto simp: t_def boarding_AddSignatures_def)
  show ?case
  proof (cases "b = batchId \<and> fault = None")
    case True
    from AddSignatures_stored [OF Cons.prems(1)] obtain l' where l': "bis_sigs t batchId = stored_hash l'" "distinct (map fst l')" "map_of l' = map_of (l @ sigs)"
      using t True by (metis (no_types, lifting))
    from Cons.IH [OF l'(2,1)] show ?thesis unfolding next_call using True l'(3) by (simp add: delivered_def c map_add_assoc)
  next
    case False
    then show ?thesis using Cons.IH [OF Cons.prems(1), of t] t unfolding next_call by (auto simp: delivered_def c)
  qed
qed (auto simp: boarding_calls_def delivered_def)

lemma GetSignatures_stored:
  assumes "distinct (map fst l)" "bis_sigs s batchId = stored_hash l"
  shows "\<exists>m. GetSignatures batchId (s, None) = Inr m \<and> map_of m = (\<lambda>i. map_option stored_input (map_of l i))"
proof -
  have entry: "boarding_entry (dec_string (unat i), newSigsDTO sig) = Inr (i, stored_input sig)" for i :: u32 and sig
  proof -
    obtain c t where ct: "dec_string (unat i) = c # t" by (cases "dec_string (unat i)") auto
    have d: "ParseUint_loop (2 ^ 63 - 1) 0 (dec_string (unat i)) = Inr (unat i)" using index_bound [of i] by (intro ParseUint_loop_dec_string) simp
    have "c \<noteq> CHR ''-''" "c \<noteq> CHR ''+''" using d unfolding ct by (auto split: if_split_asm)
    then have "strconv_Atoi (dec_string (unat i)) = Inr (int (unat i))" using d unfolding ct by (simp add: strconv_Atoi_def Let_def)
    then show ?thesis by (simp add: boarding_entry_def deserialize_serialized)
  qed
  have upd: "map_of (fold (\<lambda>(i, sig). AList.update i sig) es al) = map_of al ++ map_of (rev es)" for es al
    by (induction es arbitrary: al) (auto simp: update_conv' fun_eq_iff map_add_def split: option.split)
  have "map_res boarding_entry (stored_hash l) = Inr (map (\<lambda>(i, sig). (i, stored_input sig)) l)"
    unfolding stored_hash_def by (rule map_res_decodes) (auto simp: entry)
  moreover have "map_of (rev (map (\<lambda>(i, sig). (i, stored_input sig)) l)) = (\<lambda>i. map_option stored_input (map_of l i))"
  proof -
    have "distinct (map fst (map (\<lambda>(i, sig). (i, stored_input sig)) l))" using assms(1) by (simp add: o_def case_prod_unfold)
    from map_of_rev_distinct [OF this] show ?thesis by (simp add: map_of_map o_def)
  qed
  ultimately show ?thesis using assms(2) by (simp add: GetSignatures_def fail_with_def upd)
qed

text \<open>C31: the signatures on boarding inputs are those handed in first: whatever was submitted since, for this batch or for others, and whichever
  submissions failed, reading the batch succeeds and gives for every input what the first successful submission for it held.\<close>

theorem first_boarding_signatures_kept:
  assumes "bis_sigs s batchId = []"
  shows "\<exists>m. GetSignatures batchId (boarding_calls calls s, None) = Inr m \<and>
    map_of m = (\<lambda>i. map_option stored_input (map_of (delivered batchId calls) i))"
proof -
  obtain l where "bis_sigs (boarding_calls calls s) batchId = stored_hash l" "distinct (map fst l)" "map_of l = map_of (delivered batchId calls)"
    using boarding_calls_stored [of "[]" s batchId calls] assms by (auto simp: stored_hash_def)
  then show ?thesis using GetSignatures_stored by metis
qed

theorem first_boarding_signatures_kept_witness:
  "let s = \<lparr>bis_num = None, bis_sigs = (\<lambda>_. [])\<rparr>; sig = (\<lambda>k. \<lparr>sbo_Signatures = [\<lparr>tss_XOnlyPubKey = [k], tss_LeafHash = [], tss_Signature = [k, k], tss_SigHash = 0\<rparr>],
         sbo_LeafScript = None\<rparr>);
       calls = [(''b'', [(0, sig 1)], Some TxFailedErr), (''b'', [(0, sig 2)], None), (''c'', [(1, sig 3)], None), (''b'', [(0, sig 4)], None)]
   in \<exists>m. GetSignatures ''b'' (boarding_calls calls s, None) = Inr m \<and> map_of m 0 = Some (stored_input (sig 2)) \<and> map_of m 1 = None"
proof -
  let ?s = "\<lparr>bis_num = None, bis_sigs = (\<lambda>_. [])\<rparr>"
  let ?sig = "\<lambda>k. \<lparr>sbo_Signatures = [\<lparr>tss_XOnlyPubKey = [k], tss_LeafHash = [], tss_Signature = [k, k], tss_SigHash = 0\<rparr>], sbo_LeafScript = None\<rparr>"
  let ?calls = "[(''b'', [(0, ?sig 1)], Some TxFailedErr), (''b'', [(0, ?sig 2)], None), (''c'', [(1, ?sig 3)], None), (''b'', [(0, ?sig 4)], None)]"
  have d: "delivered ''b'' ?calls = [(0, ?sig 2), (0, ?sig 4)]" by (simp add: delivered_def)
  have "bis_sigs ?s ''b'' = []" by simp
  from first_boarding_signatures_kept [OF this, of ?calls] obtain m where "GetSignatures ''b'' (boarding_calls ?calls ?s, None) = Inr m"
    "map_of m = (\<lambda>i. map_option stored_input (map_of [(0, ?sig 2), (0, ?sig 4)] i))" unfolding d by (elim exE conjE)
  then show ?thesis unfolding Let_def by (intro exI [of _ m]) simp
qed

end
