(* ===== verification/Spec2Isabelle.thy ===== *)
theory Spec2Isabelle
  imports Projections Domain_Settings Domain_Forfeit Spend_Safety Tree_Builder Signing_Sessions
begin

text \<open>
  A verification library for \<open>arkd\<close>, the server of an Ark instance: users hold \<^emph>\<open>vtxos\<close>, outputs of
  transactions that are not broadcast; the server settles them in \<^emph>\<open>batches\<close> (one commitment
  transaction on chain, a tree of transactions below it) and cosigns \<^emph>\<open>offchain transactions\<close> that spend
  them directly. The server must never let a vtxo be spent twice, must be able to answer a
  fraudulent exit with a forfeit transaction, and must keep assets conserved.

  \<^bold>\<open>Parts of the program and how they meet.\<close> \<open>pkg/ark-lib\<close> holds the formats and checks shared with
  clients: assets and their packets, the extension output that carries them, transaction trees, lock
  times, script closures. \<open>internal/core/domain\<close> holds the event-sourced aggregates (round, offchain
  and onchain transaction), settings, vtxos and intents. \<open>internal/core/application\<close> drives them:
  it registers intents in the live store (\<open>internal/infrastructure/live-store/redis\<close>), pops them into
  a batch, ends the batch, and saves events whose projections (\<open>internal/infrastructure/db\<close>) mark
  rows some time later; a batch session manager and two locks keep these apart.

  \<^bold>\<open>Theories.\<close>
  \<^item> \<^verbatim>\<open>Ark_Prelude\<close>: results as sums, early returns, loops of checks, the collections \<open>res_elims\<close> and
    \<open>codec_simps\<close>. \<^verbatim>\<open>Go_Bytes\<close>: what the code uses of Go's readers, varints, hex, decimal numbers and
    strings. \<^verbatim>\<open>Go_Time\<close>: signed 64-bit integers and durations.
  \<^item> \<^verbatim>\<open>Asset_Codec\<close>, \<^verbatim>\<open>Asset_Packet\<close> (\<open>pkg/ark-lib/asset\<close>): identifiers, references, inputs, outputs,
    metadata with its Merkle tree, groups and packets, each with reader, writer and validator. Shown:
    what is written is read back, and what is read is valid and written back in a normal form.
  \<^item> \<^verbatim>\<open>Bitcoin_Tx\<close>, \<^verbatim>\<open>Asset_Validation\<close> (\<open>asset/tx_validation.go\<close>): the transaction checks in order, with
    their error codes. Shown: an accepted transaction creates no amount of an asset without the
    control asset, accounts for every asset it spends, and its asset outputs exist.
    \<^verbatim>\<open>App_Assets\<close> adds what the service makes of an accepted transaction.
  \<^item> \<^verbatim>\<open>Extension\<close> (\<open>pkg/ark-lib/extension\<close>): the OP\_RETURN output; round trip and well-formedness.
  \<^item> \<^verbatim>\<open>Tx_Tree\<close> (\<open>tree/tx_tree.go\<close>): trees, their flat form, rebuilding, validation, search, subtrees.
    Shown: rebuilding inverts serialising, validated trees conserve value, and exactly when the
    rebuilding of a flat tree does not end.
  \<^item> \<^verbatim>\<open>Locktime\<close> (\<open>locktime.go\<close>), \<^verbatim>\<open>Script_Closure\<close> (\<open>script/closure.go\<close>, parts of \<open>script.go\<close> and
    \<open>txutils/utils.go\<close>), \<^verbatim>\<open>Vtxo_Script\<close> (\<open>script/vtxo_script.go\<close>), \<^verbatim>\<open>Domain_Forfeit\<close>
    (\<open>domain/forfeit.go\<close>): sequences, the five closures with script, decoding and witness, vtxo
    scripts and their validation, readiness of forfeit transactions. Shown: decoding finds the closure
    a script was made from, which decoded closures are canonical and which are not, what a validated
    script guarantees, and what signatures a ready forfeit carries.
  \<^item> \<^verbatim>\<open>Psbt_Fields\<close> (\<open>txutils/psbt_fields.go\<close>, \<open>taptree.go\<close>, \<open>indexed_pubkey.go\<close>): the custom fields of PSBT
    inputs; the locale \<^verbatim>\<open>psbt_field\<close> (a coder reads back what it wrote and ignores other keys) is interpreted
    by the four coders. \<^verbatim>\<open>Tree_Builder\<close> (\<open>tree/builder.go\<close>, \<open>validation.go\<close>): trees built from the receivers of
    a batch, and the validation by clients. Shown: what is built validates and pays every receiver, building
    ends in a balanced tree, and what an accepted tree guarantees.
  \<^item> \<^verbatim>\<open>Taproot_Sigs\<close> (\<open>script/verify.go\<close>, the signature checks of \<open>tx-builder/covenantless/builder.go\<close>),
    \<^verbatim>\<open>Offchain_Builder\<close> (\<open>offchain/tx.go\<close>): the checks of leaves, conditions and signatures on the inputs of a
    PSBT, and the construction of checkpoint and ark transactions. Shown: what verified signatures guarantee,
    the condition that is not evaluated, that built transactions spend each vtxo through its own checkpoint and
    conserve value, and that they honour the lock time of every leaf.
  \<^item> \<^verbatim>\<open>Domain_Vtxo\<close>, \<^verbatim>\<open>Domain_Events\<close>, \<^verbatim>\<open>Domain_Round\<close>, \<^verbatim>\<open>Domain_Offchain_Tx\<close>, \<^verbatim>\<open>Domain_Onchain_Tx\<close>,
    \<^verbatim>\<open>Cel_Programs\<close>, \<^verbatim>\<open>Domain_Settings\<close> (\<open>internal/core/domain\<close>, \<open>arkfee\<close>): data, commands, event folds and
    validators; the commands form step relations. Shown: replaying the recorded events gives the state
    back, what every reachable state satisfies, and which states are final. The three aggregates
    interpret the locale \<^verbatim>\<open>event_sourced\<close> of \<^verbatim>\<open>Domain_Events\<close>.
  \<^item> \<^verbatim>\<open>Live_Reservations\<close>, \<^verbatim>\<open>Live_Intents\<close> (\<open>live-store/redis\<close>): the Redis stores as transactions on
    sets and maps inside the retry loop. The locale \<^verbatim>\<open>reservation\<close> (all or none, refused when held) is
    interpreted by the store of cosigned utxos and by the one of offchain transactions; the intent
    store refines an abstract board of queued intents and taken inputs, and the locale
    \<^verbatim>\<open>board_store\<close> derives from that refinement what its clients use.
  \<^item> \<^verbatim>\<open>Batch_Session\<close> (\<open>batch_session_manager.go\<close>, \<open>round_timing.go\<close>): tracking of finished batches, with the channel
    that is closed and made anew when a batch is marked. Shown: a wait ends however the marks fall between its reads, and
    returns the marked batches.
  \<^item> \<^verbatim>\<open>Pg_Tables\<close>, \<^verbatim>\<open>Pg_Repos\<close> (\<open>internal/infrastructure/db/postgres\<close>): tables with primary and foreign keys,
    the statements, transactions with their retries (locale \<^verbatim>\<open>atomic_call\<close>: a call applies its body or
    nothing), the vtxo view, and the repositories over them. Shown: what each call leaves, that keys stay
    unique and references resolve, and that the recursive query of descendants ends and is complete.
  \<^item> \<^verbatim>\<open>Projections\<close> (\<open>internal/infrastructure/db/service.go\<close>): the tables after the events of a round, an
    offchain or an onchain transaction, and the reconciliation at startup, whatever calls fail. Shown:
    inputs are marked spent, outputs that must not be spent read as swept from the moment they are
    stored, a replay does not revive a spent output, sweeps are idempotent and completed at startup.
  \<^item> \<^verbatim>\<open>Script_Bans\<close> (\<open>application/ban.go\<close>, \<open>conviction_repo.go\<close>): convictions of scripts, the check of a request
    and the ban methods of the admin service. Shown: exactly the scripts over the threshold, or banned by
    hand, are refused, each with all its inputs, and an offence counts once for a script.
  \<^item> \<^verbatim>\<open>Submit_Offchain\<close> (\<open>SubmitOffchainTx\<close> and \<open>FinalizeOffchainTx\<close> of \<open>application/service.go\<close>): the two handlers
    whole, check by check, with the events that they save. Shown: an accepted transaction spends live
    vtxos, each once, and conserves their value; its outputs are within the limits; the saved history agrees
    with the answer, failures to save and to cache included; and a finalized transaction has checkpoints that every party
    signed.
  \<^item> \<^verbatim>\<open>Forfeit_Txs\<close> (\<open>tree/forfeit_tx.go\<close>, \<open>VerifyAndRebuildForfeitTxs\<close> of the transaction builder), \<^verbatim>\<open>Live_Sessions\<close>
    (\<open>live-store/redis/forfeits.go\<close>): the transactions with which owners give up vtxos that a batch settles, and the store that
    collects them. Shown: what an accepted forfeit pays and to whom; however signing requests, new batches and resets
    interleave, the stored forfeits are of the present batch and can all be broadcast, since no two use a connector (proved
    in the locale \<^verbatim>\<open>forfeit_builder\<close>, the contract between store and builder, for any builder that keeps it, and
    interpreted on the one of the code); a complete collection can be taken out; and a batch either pairs every vtxo with its own
    connector or, with too many connectors, stops the process.
  \<^item> \<^verbatim>\<open>Signing_Sessions\<close> (\<open>confirmation_sessions.go\<close>, \<open>tree_signing_session.go\<close>, \<open>boarding_inputs.go\<close>): confirmations, nonces,
    partial signatures and boarding signatures of a batch. Shown: a poll finds them complete exactly when everybody who has
    to has handed in, under any interleaving; submitted nonces and boarding signatures are not replaced.
  \<^item> \<^verbatim>\<open>Spend_Safety\<close> (\<open>application/service.go\<close>): registrations, submissions, the round loop, projections
    and handlers as concurrent steps over all of the above, with two kinds of incidents apart: a round that fails after its
    commitment transaction was broadcast, and the deletion of all intents by the operator. Shown: no vtxo is spent twice in a run
    without incidents, that the first incident lets one be spent twice, and that the second lets a settled one be registered again.

  \<^bold>\<open>State and errors.\<close> A struct is a record, an enumeration a datatype, a machine integer a word of its
  width (or an \<open>int\<close> wrapped where the code adds durations), a Go map an association list or a HOL map,
  a returned error the left side of a sum. Random identifiers, the clock, iteration orders of Go maps
  and of Redis sets, and the failures of Redis are arguments.

  \<^bold>\<open>Libraries as parameters.\<close> Hashes, PSBT encoding, the script builder, tokenizer and engine of btcd,
  schnorr keys, CEL and the sequence encoder are records of functions; what the code relies on is stated
  as laws (\<^verbatim>\<open>txscript_law\<close>, \<^verbatim>\<open>tokenizes_pushes\<close>, \<^verbatim>\<open>lock_time_to_sequence_law\<close>, \<^verbatim>\<open>psbt_roundtrips\<close>,
  \<^verbatim>\<open>tree_lib_law\<close>, \<^verbatim>\<open>offchain_law\<close>, \<^verbatim>\<open>psbt_law\<close>), each with
  an instance that satisfies it where a theorem assumes it. The handlers of \<^verbatim>\<open>Submit_Offchain\<close> run in a record
  of what wallet, signer, repositories and caches answer.

  \<^bold>\<open>Termination and fuel.\<close> Loops over data are structural or have a measure. Only the rebuilding of a tree
  takes fuel, one more than the number of nodes, and \<^verbatim>\<open>Tx_Tree.new_tx_tree_diverges_iff\<close> shows that the fuel
  runs out exactly when the code recurses for ever. The polling loops of the live store and of the batch
  session manager run over the list of what the environment does at each turn.

  \<^bold>\<open>Not modelled.\<close> Signing (musig2, the tree signer), the parsing of PSBTs and of intent
  proofs, notes, addresses, the construction of transactions over the wallet, the sweeper and the reaction
  to fraud, the remaining caches, paged listings and statistics of the database, migrations, gRPC, configuration and commands, and clients. These are
  adapters to external services, generated code, or rest on cryptographic libraries. Of the service
  itself, the checks that only refuse a request are left out of the step relation: they can end a
  registration or a submission at any point, which the relation allows.
\<close>

section \<open>Properties that span components\<close>

lemma write_all_part:
  "write_all enc xs = Inr w \<Longrightarrow> x \<in> set xs \<Longrightarrow> \<exists>b p q. enc x = Inr b \<and> w = p @ b @ q"
proof (induction xs arbitrary: w)
  case (Cons y xs)
  obtain b bs where b: "enc y = Inr b" "write_all enc xs = Inr bs" "w = b @ bs"
    using Cons.prems(1) by (auto simp: rbind_eq_Inr)
  show ?case
  proof (cases "x = y")
    case True
    then show ?thesis using b by (intro exI [of _ b] exI [of _ "[]"] exI [of _ bs]) simp
  next
    case False
    then obtain b' p q where "enc x = Inr b'" "bs = p @ b' @ q" using Cons b(2) by auto
    then show ?thesis using b(3) by (intro exI [of _ b'] exI [of _ "b @ p"] exI [of _ q]) simp
  qed
qed simp

lemma opReturnScript_shape: "\<exists>pre. opReturnScript data = OP_RETURN # pre @ data"
  by (auto simp: opReturnScript_def Let_def)

text \<open>the output that an extension makes satisfies the check that asset validation makes on it: if
  the extension carries an asset packet and its output is among the outputs of the transaction,
  then the packet serialises and its bytes are found in an OP\_RETURN output.\<close>

theorem extension_output_carries_packet:
  assumes "GetAssetPacket e = Some ap" and "Extension_TxOut e = Inr out" and "out \<in> set outs"
  shows "\<exists>b. Packet_Serialize ap = Inr b \<and> packet_in_outputs b outs"
proof -
  obtain w where w: "write_all write_packet e = Inr w"
    and out: "out_PkScript out = opReturnScript (ArkadeMagic @ w)"
    using assms(2) by (auto simp: Extension_TxOut_def Extension_Serialize_def rbind_eq_Inr guard_err_eq_Inr)
  have "AssetPacket ap \<in> set e"
    by (rule GetAssetPacket_mem [OF assms(1)])
  then obtain d p q where d: "write_packet (AssetPacket ap) = Inr d" "w = p @ d @ q"
    using write_all_part [OF w] by blast
  then obtain b where b: "Packet_Serialize ap = Inr b" "\<exists>l. d = l @ b"
    by (auto simp: write_packet_Inr ExtPacket_Serialize_def intro: exI [of _ "ExtPacket_Type _ # _"])
  obtain pre where pre: "out_PkScript out = OP_RETURN # pre @ ArkadeMagic @ w"
    using opReturnScript_shape [of "ArkadeMagic @ w"] out by auto
  obtain l where "d = l @ b" using b(2) by blast
  then have "out_PkScript out = (OP_RETURN # pre @ ArkadeMagic @ p @ l) @ b @ q" using pre d(2) by simp
  then have "Contains (out_PkScript out) b" unfolding Contains_iff by blast
  moreover have "HasPrefix (out_PkScript out) [OP_RETURN]" using pre by (simp add: HasPrefix_def)
  ultimately show ?thesis using b(1) assms(3) unfolding packet_in_outputs_def by blast
qed


theorem extension_output_carries_packet_witness:
  "\<exists>b out. Extension_TxOut [AssetPacket [sample_transfer]] = Inr out \<and>
     Packet_Serialize [sample_transfer] = Inr b \<and> packet_in_outputs b [AnchorOutput, out]"
proof -
  let ?e = "[AssetPacket [sample_transfer]]"
  obtain b where b: "Packet_Serialize [sample_transfer] = Inr b"
    using Packet_roundtrip [OF sample_transfer_wf] by blast
  then obtain out where out: "Extension_TxOut ?e = Inr out"
    by (auto simp: Extension_TxOut_def Extension_Serialize_def write_packet_def ExtPacket_Serialize_def
        ext_serializeVarSlice_def)
  have "GetAssetPacket ?e = Some [sample_transfer]"
    by (simp add: GetAssetPacket_def List.map_filter_def)
  from extension_output_carries_packet [OF this out, of "[AnchorOutput, out]"] out show ?thesis by auto
qed

end
